(* ===== verification/Prelude.thy ===== *)
theory Prelude
  imports Main "HOL-Library.List_Lexorder" "HOL-Library.Char_ord" "HOL-Library.Sublist"
begin

text \<open>
  Shared material of the development: results of fallible code, row tables in
  insertion order, and the lexicographic order on equally long prefixes.
  Nothing here models a part of the program; every other theory imports it.
\<close>

section \<open>Results of fallible code\<close>

text \<open>
  The exceptions the modelled code raises, one constructor per exception class. The messages
  are not kept. \<open>IntegrityError\<close> is sqlite3's, \<open>AttributeErr\<close> what a method call on
  \<open>None\<close> raises.
\<close>

datatype py_error =
    ValueError | TypeErr | AttributeErr | OverflowErr
  | NotFoundError | IdempotencyConflict | InvalidStateTransition
  | SchemaVersionError | GradingInputMismatch | StateStoreError
  | IntegrityError

type_synonym 'a res = "py_error + 'a"

fun rbind :: "'e + 'a \<Rightarrow> ('a \<Rightarrow> 'e + 'b) \<Rightarrow> 'e + 'b" where
  "rbind (Inl e) f = Inl e"
| "rbind (Inr x) f = f x"

definition rmap :: "('a \<Rightarrow> 'b) \<Rightarrow> 'e + 'a \<Rightarrow> 'e + 'b" where
  "rmap f r = rbind r (\<lambda>x. Inr (f x))"

fun rmapM :: "('a \<Rightarrow> 'e + 'b) \<Rightarrow> 'a list \<Rightarrow> 'e + 'b list" where
  "rmapM f [] = Inr []"
| "rmapM f (x # xs) = rbind (f x) (\<lambda>y. rbind (rmapM f xs) (\<lambda>ys. Inr (y # ys)))"

named_theorems result_simps \<open>equations that decide when a composed result succeeds or fails\<close>

lemma rbind_Inr_iff [result_simps]: "rbind r f = Inr y \<longleftrightarrow> (\<exists>x. r = Inr x \<and> f x = Inr y)"
  by (cases r) auto

lemma rbind_Inl_iff [result_simps]:
  "rbind r f = Inl e \<longleftrightarrow> r = Inl e \<or> (\<exists>x. r = Inr x \<and> f x = Inl e)"
  by (cases r) auto

lemma rmap_Inr_iff [result_simps]: "rmap f r = Inr y \<longleftrightarrow> (\<exists>x. r = Inr x \<and> y = f x)"
  by (auto simp: rmap_def result_simps)

lemma rmap_simps [simp]: "rmap f (Inl e) = Inl e" "rmap f (Inr x) = Inr (f x)"
  by (simp_all add: rmap_def)

lemma rbind_assoc: "rbind (rbind r f) g = rbind r (\<lambda>x. rbind (f x) g)"
  by (cases r) auto

lemma rbind_cong [fundef_cong]:
  "r = r' \<Longrightarrow> (\<And>x. r' = Inr x \<Longrightarrow> f x = f' x) \<Longrightarrow> rbind r f = rbind r' f'"
  by (cases r') auto

lemma rmapM_length: "rmapM f xs = Inr ys \<Longrightarrow> length ys = length xs"
  by (induction xs arbitrary: ys) (auto simp: result_simps)

lemma rmapM_all2: "rmapM f xs = Inr ys \<Longrightarrow> list_all2 (\<lambda>x y. f x = Inr y) xs ys"
  by (induction xs arbitrary: ys) (auto simp: result_simps)

section \<open>Transactions\<close>

text \<open>
  An operation on a state returns its result and the state after it. \<open>txn\<close> is the
  \<open>with self._write() as connection\<close> block: the body either commits with a value or raises,
  and then the state is the one before the block. \<open>checked\<close> runs a validation before the
  operation, \<open>after\<close> decodes the row after the block has committed.
\<close>

type_synonym ('s, 'a) op = "'s \<Rightarrow> 'a res \<times> 's"

definition txn :: "('s \<Rightarrow> ('a \<times> 's) res) \<Rightarrow> ('s, 'a) op" where
  "txn body s = (case body s of Inl e \<Rightarrow> (Inl e, s) | Inr (a, s') \<Rightarrow> (Inr a, s'))"

definition checked :: "'a res \<Rightarrow> ('a \<Rightarrow> ('s, 'b) op) \<Rightarrow> ('s, 'b) op" where
  "checked r f s = (case r of Inl e \<Rightarrow> (Inl e, s) | Inr x \<Rightarrow> f x s)"

definition after :: "('s, 'a) op \<Rightarrow> ('a \<Rightarrow> 'b res) \<Rightarrow> ('s, 'b) op" where
  "after f view s = (case f s of (r, s') \<Rightarrow> (rbind r view, s'))"

named_theorems op_simps \<open>the state and the value an operation leaves\<close>

lemma checked_Inl [simp]: "checked (Inl e) f s = (Inl e, s)"
  and checked_Inr [simp]: "checked (Inr x) f s = f x s"
  by (simp_all add: checked_def)

lemma snd_checked [op_simps]:
  "snd (checked r f s) = (case r of Inl e \<Rightarrow> s | Inr x \<Rightarrow> snd (f x s))"
  by (simp add: checked_def split: sum.split)

lemma snd_after [op_simps]: "snd (after f view s) = snd (f s)"
  by (simp add: after_def split: prod.split)

lemma snd_txn [op_simps]:
  "snd (txn body s) = (case body s of Inl e \<Rightarrow> s | Inr p \<Rightarrow> snd p)"
  by (auto simp: txn_def split: sum.split prod.split)

lemma fst_txn [op_simps]: "fst (txn body s) = rmap fst (body s)"
  by (auto simp: txn_def rmap_def split: sum.split prod.split)

lemma fst_after [op_simps]: "fst (after f view s) = rbind (fst (f s)) view"
  by (simp add: after_def split: prod.split)

lemma fst_checked [op_simps]: "fst (checked r f s) = rbind r (\<lambda>x. fst (f x s))"
  by (cases r) (simp_all)

lemma checked_eq_iff [result_simps]:
  "checked r f s = (Inr b, s') \<longleftrightarrow> (\<exists>x. r = Inr x \<and> f x s = (Inr b, s'))"
  by (cases r) auto

lemma txn_eq_Inr_iff [result_simps]: "txn body s = (Inr a, s') \<longleftrightarrow> body s = Inr (a, s')"
  by (auto simp: txn_def split: sum.split prod.split)

lemma txn_eq_Inl_iff [result_simps]: "txn body s = (Inl e, s') \<longleftrightarrow> body s = Inl e \<and> s' = s"
  by (auto simp: txn_def split: sum.split prod.split)

lemma after_eq_Inr_iff [result_simps]:
  "after f view s = (Inr b, s') \<longleftrightarrow> (\<exists>a. f s = (Inr a, s') \<and> view a = Inr b)"
  by (auto simp: after_def result_simps split: prod.split)

text \<open>A predicate kept by the committed outcome is kept by the transaction.\<close>

lemma txn_keeps:
  assumes "P s" and "\<And>a s'. body s = Inr (a, s') \<Longrightarrow> P s'"
  shows "P (snd (txn body s))"
  using assms by (auto simp: txn_def split: sum.split prod.split)

lemma checked_keeps:
  assumes "P s" and "\<And>x. r = Inr x \<Longrightarrow> P (snd (f x s))"
  shows "P (snd (checked r f s))"
  using assms by (cases r) auto

lemma after_keeps: "P (snd (f s)) \<Longrightarrow> P (snd (after f view s))"
  by (simp add: snd_after)

lemmas keeps_intros = checked_keeps txn_keeps after_keeps

section \<open>Tables\<close>

text \<open>
  A table is the list of its rows in insertion order. \<open>select_id\<close> is
  \<open>SELECT * FROM t WHERE id = ?\<close> read with \<open>fetchone\<close>, \<open>update_id\<close> is
  \<open>UPDATE t SET ... WHERE id = ?\<close>.
\<close>

definition select_by :: "('r \<Rightarrow> 'k) \<Rightarrow> 'k \<Rightarrow> 'r list \<Rightarrow> 'r option" where
  "select_by key k rows = find (\<lambda>r. key r = k) rows"

definition update_by :: "('r \<Rightarrow> 'k) \<Rightarrow> 'k \<Rightarrow> ('r \<Rightarrow> 'r) \<Rightarrow> 'r list \<Rightarrow> 'r list" where
  "update_by key k f rows = map (\<lambda>r. if key r = k then f r else r) rows"

definition require_row :: "('r \<Rightarrow> 'k) \<Rightarrow> 'k \<Rightarrow> 'r list \<Rightarrow> 'r res" where
  "require_row key k rows =
     (case select_by key k rows of None \<Rightarrow> Inl NotFoundError | Some r \<Rightarrow> Inr r)"

lemma select_by_SomeD: "select_by key k rows = Some r \<Longrightarrow> r \<in> set rows \<and> key r = k"
  by (auto simp: select_by_def find_Some_iff)

lemma select_by_None_iff: "select_by key k rows = None \<longleftrightarrow> k \<notin> key ` set rows"
  by (auto simp: select_by_def find_None_iff)

lemma select_by_distinct:
  "distinct (map key rows) \<Longrightarrow> r \<in> set rows \<Longrightarrow> select_by key (key r) rows = Some r"
  by (induction rows) (auto simp: select_by_def)

lemma select_by_iff:
  "distinct (map key rows) \<Longrightarrow> select_by key k rows = Some r \<longleftrightarrow> r \<in> set rows \<and> key r = k"
  using select_by_SomeD select_by_distinct by metis

lemma select_by_append:
  "select_by key k (xs @ ys) =
     (case select_by key k xs of None \<Rightarrow> select_by key k ys | Some r \<Rightarrow> Some r)"
  by (induction xs) (auto simp: select_by_def)

lemma select_by_Nil [simp]: "select_by key k [] = None"
  and select_by_Cons [simp]:
    "select_by key k (x # xs) = (if key x = k then Some x else select_by key k xs)"
  by (auto simp: select_by_def)

lemma set_update_by:
  "set (update_by key k f rows) = {r \<in> set rows. key r \<noteq> k} \<union> f ` {r \<in> set rows. key r = k}"
  by (auto simp: update_by_def)

lemma length_update_by [simp]: "length (update_by key k f rows) = length rows"
  by (simp add: update_by_def)

lemma map_update_by:
  assumes "\<And>r. key r = k \<Longrightarrow> g (f r) = g r"
  shows "map g (update_by key k f rows) = map g rows"
  using assms by (auto simp: update_by_def)

lemma select_by_update_by:
  assumes "\<And>r. key r = k \<Longrightarrow> key (f r) = key r"
  shows "select_by key k' (update_by key k f rows) =
    (if k' = k then map_option f (select_by key k rows) else select_by key k' rows)"
  using assms by (induction rows) (auto simp: update_by_def)

lemma update_by_unused: "k \<notin> key ` set rows \<Longrightarrow> update_by key k f rows = rows"
  by (auto simp: update_by_def intro!: map_idI)

lemma update_by_Nil [simp]: "update_by key k f [] = []"
  and update_by_Cons [simp]:
    "update_by key k f (x # xs) = (if key x = k then f x else x) # update_by key k f xs"
  by (auto simp: update_by_def)

lemma require_row_Inr_iff [result_simps]:
  "require_row key k rows = Inr r \<longleftrightarrow> select_by key k rows = Some r"
  by (auto simp: require_row_def split: option.splits)

lemma require_row_Inl_iff [result_simps]:
  "require_row key k rows = Inl e \<longleftrightarrow> select_by key k rows = None \<and> e = NotFoundError"
  by (auto simp: require_row_def split: option.splits)

text \<open>Distinct keys are unaffected by an update that does not write the key.\<close>

lemma distinct_update_by:
  assumes "distinct (map g rows)" and "\<And>r. key r = k \<Longrightarrow> g (f r) = g r"
  shows "distinct (map g (update_by key k f rows))"
  using assms by (simp add: map_update_by)

section \<open>Lexicographic order on equally long prefixes\<close>

lemma less_append_same_length:
  fixes xs ys :: "'a::linorder list"
  assumes "length xs = length ys"
  shows "xs @ us < ys @ vs \<longleftrightarrow> xs < ys \<or> xs = ys \<and> us < vs"
  using assms by (induction xs ys rule: list_induct2) auto

lemma less_snoc_same_length:
  fixes xs ys :: "'a::linorder list"
  assumes "length xs = length ys"
  shows "xs @ [a] < ys @ [b] \<longleftrightarrow> xs < ys \<or> xs = ys \<and> a < b"
  using less_append_same_length [OF assms, of "[a]" "[b]"] by simp

lemma find_SomeD: "find P xs = Some x \<Longrightarrow> x \<in> set xs \<and> P x"
  by (auto simp: find_Some_iff)

end
