(* ===== verification/PyText.thy ===== *)
theory PyText
  imports Prelude
begin

text \<open>
  The parts of Python's \<open>str\<close> the program uses, on strings of Latin-1 code points: \<open>strip\<close>,
  \<open>lower\<close>, \<open>startswith\<close>, \<open>endswith\<close>, \<open>replace\<close>, and fixed-width decimal fields as the
  \<open>%04d\<close> style of formatting prints them and \<open>fromisoformat\<close> reads them.
\<close>

section \<open>White space and case\<close>

definition py_space :: "char \<Rightarrow> bool" where
  "py_space c = (let n = of_char c :: nat in
     (9 \<le> n \<and> n \<le> 13) \<or> (28 \<le> n \<and> n \<le> 32) \<or> n = 133 \<or> n = 160)"

definition lstrip :: "string \<Rightarrow> string" where
  "lstrip s = dropWhile py_space s"

definition strip :: "string \<Rightarrow> string" where
  "strip s = rev (lstrip (rev (lstrip s)))"

definition lower_char :: "char \<Rightarrow> char" where
  "lower_char c = (let n = of_char c :: nat in
     if (65 \<le> n \<and> n \<le> 90) \<or> (192 \<le> n \<and> n \<le> 222 \<and> n \<noteq> 215) then char_of (n + 32) else c)"

definition lower :: "string \<Rightarrow> string" where
  "lower s = map lower_char s"

definition starts_with :: "string \<Rightarrow> string \<Rightarrow> bool" where
  "starts_with p s = (take (length p) s = p)"

definition ends_with :: "string \<Rightarrow> string \<Rightarrow> bool" where
  "ends_with p s = starts_with (rev p) (rev s)"

text \<open>\<open>value.split(c)\<close> for a single character.\<close>

fun split_on :: "char \<Rightarrow> string \<Rightarrow> string list" where
  "split_on d [] = [[]]"
| "split_on d (c # cs) =
     (if c = d then [] # split_on d cs
      else case split_on d cs of [] \<Rightarrow> [[c]] | p # ps \<Rightarrow> (c # p) # ps)"

lemma of_char_less_256: "(of_char c :: nat) < 256"
  using nat_of_char_less_256 by simp

lemma lstrip_idem [simp]: "lstrip (lstrip s) = lstrip s"
  by (simp add: lstrip_def)

lemma lstrip_fix_iff: "lstrip s = s \<longleftrightarrow> s = [] \<or> \<not> py_space (hd s)"
  unfolding lstrip_def by (rule dropWhile_eq_self_iff)

lemma lstrip_Nil_iff: "lstrip s = [] \<longleftrightarrow> (\<forall>c\<in>set s. py_space c)"
  by (simp add: lstrip_def)

lemma strip_fix_iff: "strip s = s \<longleftrightarrow> s = [] \<or> \<not> py_space (hd s) \<and> \<not> py_space (last s)"
proof -
  have "\<not> py_space (hd s) \<and> \<not> py_space (last s) \<or> s = []" if "strip s = s"
  proof -
    have l: "length (strip s) \<le> length (lstrip s)" "length (lstrip s) \<le> length s"
      using length_dropWhile_le[of py_space] by (metis length_rev lstrip_def strip_def, simp add: lstrip_def)
    with that have "length (lstrip s) = length s" by simp
    then have "lstrip s = s"
      unfolding lstrip_def by (metis append_eq_append_conv self_append_conv2 takeWhile_dropWhile_id)
    moreover from this that have "lstrip (rev s) = rev s"
      unfolding strip_def by (metis rev_rev_ident)
    ultimately show ?thesis
      by (auto simp: lstrip_fix_iff hd_rev)
  qed
  moreover have "strip s = s" if "\<not> py_space (hd s)" "\<not> py_space (last s)" "s \<noteq> []"
    using that lstrip_fix_iff[of s] lstrip_fix_iff[of "rev s"] by (simp add: strip_def hd_rev)
  moreover have "strip [] = []" by (simp add: strip_def lstrip_def)
  ultimately show ?thesis by blast
qed

lemma hd_dropWhile_space: "dropWhile P s \<noteq> [] \<Longrightarrow> \<not> P (hd (dropWhile P s))"
  by (rule hd_dropWhile)

lemma strip_ends:
  assumes "strip s \<noteq> []"
  shows "\<not> py_space (hd (strip s))" and "\<not> py_space (last (strip s))"
proof -
  let ?l = "lstrip s"
  have l: "?l \<noteq> []"
  proof
    assume "?l = []"
    then have "strip s = []" by (simp add: strip_def) (simp add: lstrip_def)
    with assms show False by simp
  qed
  then have h: "\<not> py_space (hd ?l)" by (simp add: lstrip_def hd_dropWhile)
  have d: "lstrip (rev ?l) \<noteq> []" using assms by (simp add: strip_def)
  show "\<not> py_space (last (strip s))"
    using d by (simp add: strip_def last_rev) (simp add: lstrip_def hd_dropWhile)
  obtain us where "rev ?l = us @ lstrip (rev ?l)"
    unfolding lstrip_def by (metis takeWhile_dropWhile_id)
  then have "?l = strip s @ rev us"
    unfolding strip_def by (metis rev_append rev_rev_ident)
  with assms have "hd ?l = hd (strip s)" by (metis hd_append2)
  with h show "\<not> py_space (hd (strip s))" by simp
qed

lemma strip_idem [simp]: "strip (strip s) = strip s"
  using strip_ends strip_fix_iff by metis

lemma length_lower [simp]: "length (lower s) = length s"
  by (simp add: lower_def)

lemma lower_char_idem [simp]: "lower_char (lower_char c) = lower_char c"
  using of_char_less_256[of c] by (auto simp: lower_char_def Let_def)

lemma lower_idem [simp]: "lower (lower s) = lower s"
  by (simp add: lower_def)

lemma py_space_lower_char [simp]: "py_space (lower_char c) = py_space c"
  using of_char_less_256[of c] by (auto simp: lower_char_def py_space_def Let_def)

lemma lstrip_lower: "lstrip (lower s) = lower (lstrip s)"
  by (simp add: lstrip_def lower_def dropWhile_map comp_def)

lemma rev_lower: "rev (lower s) = lower (rev s)"
  by (simp add: lower_def rev_map)

lemma strip_lower: "strip (lower s) = lower (strip s)"
  by (simp add: strip_def lstrip_lower rev_lower)

lemma lower_Nil_iff [simp]: "lower s = [] \<longleftrightarrow> s = []"
  by (simp add: lower_def)

section \<open>Replacing a substring\<close>

text \<open>\<open>str.replace(old, new)\<close> for a non-empty \<open>old\<close>: every occurrence, left to right,
  without overlaps.\<close>

function replace_all :: "string \<Rightarrow> string \<Rightarrow> string \<Rightarrow> string" where
  "replace_all old new s =
     (if s = [] \<or> old = [] then s
      else if starts_with old s then new @ replace_all old new (drop (length old) s)
      else hd s # replace_all old new (tl s))"
  by pat_completeness auto
termination
  by (relation "measure (\<lambda>(old, new, s). length s)") (auto simp: length_greater_0_conv)

declare replace_all.simps [simp del]

lemma replace_all_Nil [simp]: "replace_all old new [] = []"
  by (simp add: replace_all.simps)

lemma replace_all_skip:
  assumes "old \<noteq> []" and "hd old \<notin> set xs"
  shows "replace_all old new (xs @ ys) = xs @ replace_all old new ys"
  using assms
proof (induction xs)
  case (Cons x xs)
  then have "\<not> starts_with old (x # xs @ ys)"
    by (cases old) (auto simp: starts_with_def)
  with Cons show ?case
    by (simp add: replace_all.simps [of old new "x # xs @ ys"])
qed simp

lemma replace_all_self: "old \<noteq> [] \<Longrightarrow> replace_all old new old = new"
  by (simp add: replace_all.simps [of old new old] starts_with_def)

section \<open>Decimal fields of a fixed width\<close>

definition digit_char :: "nat \<Rightarrow> char" where
  "digit_char d = char_of (48 + d)"

definition char_digit :: "char \<Rightarrow> nat option" where
  "char_digit c = (let n = of_char c :: nat in if 48 \<le> n \<and> n \<le> 57 then Some (n - 48) else None)"

fun digits :: "nat \<Rightarrow> nat \<Rightarrow> string" where
  "digits 0 n = []"
| "digits (Suc w) n = digits w (n div 10) @ [digit_char (n mod 10)]"

fun read_digits :: "nat \<Rightarrow> nat \<Rightarrow> string \<Rightarrow> (nat \<times> string) option" where
  "read_digits 0 acc s = Some (acc, s)"
| "read_digits (Suc w) acc s =
     (case s of [] \<Rightarrow> None
      | c # cs \<Rightarrow> (case char_digit c of None \<Rightarrow> None
                    | Some d \<Rightarrow> read_digits w (10 * acc + d) cs))"

lemma of_char_digit_char: "d < 10 \<Longrightarrow> (of_char (digit_char d) :: nat) = 48 + d"
  by (simp add: digit_char_def)

lemma char_digit_digit_char [simp]: "d < 10 \<Longrightarrow> char_digit (digit_char d) = Some d"
  by (simp add: char_digit_def of_char_digit_char)

lemma length_digits [simp]: "length (digits w n) = w"
  by (induction w arbitrary: n) auto

lemma set_digits: "c \<in> set (digits w n) \<Longrightarrow> \<exists>d<10. c = digit_char d"
proof (induction w arbitrary: n)
  case (Suc w)
  show ?case
  proof (cases "c \<in> set (digits w (n div 10))")
    case True
    then show ?thesis by (rule Suc.IH)
  next
    case False
    with Suc.prems have "c = digit_char (n mod 10)" by simp
    moreover have "n mod 10 < 10" by simp
    ultimately show ?thesis by blast
  qed
qed simp

lemma digit_char_not_space: "d < 10 \<Longrightarrow> \<not> py_space (digit_char d)"
  by (simp add: py_space_def of_char_digit_char)

lemma char_neq_by_code: "(of_char c :: nat) \<noteq> of_char d \<Longrightarrow> c \<noteq> d"
  by auto

lemma read_digits_append:
  "read_digits (w1 + w2) acc s =
     (case read_digits w1 acc s of None \<Rightarrow> None | Some (a, r) \<Rightarrow> read_digits w2 a r)"
  by (induction w1 arbitrary: acc s) (auto split: list.splits option.splits)

lemma read_digits_digits_acc:
  "n < 10 ^ w \<Longrightarrow> read_digits w acc (digits w n @ r) = Some (acc * 10 ^ w + n, r)"
proof (induction w arbitrary: n r)
  case (Suc w)
  have d: "n div 10 < 10 ^ w" using Suc.prems by (simp add: less_mult_imp_div_less mult.commute)
  have m: "n mod 10 < 10" by simp
  have "read_digits (w + 1) acc (digits (Suc w) n @ r) =
    read_digits 1 (acc * 10 ^ w + n div 10) (digit_char (n mod 10) # r)"
    unfolding read_digits_append using Suc.IH [OF d, of "digit_char (n mod 10) # r"] by simp
  also have "\<dots> = Some (10 * (acc * 10 ^ w + n div 10) + n mod 10, r)"
    using m by (simp del: mod_less_divisor)
  finally show ?case by (simp add: algebra_simps)
qed simp

lemma read_digits_digits [simp]: "n < 10 ^ w \<Longrightarrow> read_digits w 0 (digits w n @ r) = Some (n, r)"
  by (simp add: read_digits_digits_acc)

lemma digit_char_less_iff: "a < 10 \<Longrightarrow> b < 10 \<Longrightarrow> digit_char a < digit_char b \<longleftrightarrow> a < b"
  by (simp add: less_char_def of_char_digit_char)

lemma digit_char_eq_iff: "a < 10 \<Longrightarrow> b < 10 \<Longrightarrow> digit_char a = digit_char b \<longleftrightarrow> a = b"
  by (metis add_left_cancel of_char_digit_char)

lemma digits_eq_iff:
  "m < 10 ^ w \<Longrightarrow> n < 10 ^ w \<Longrightarrow> digits w m = digits w n \<longleftrightarrow> m = n"
  by (metis append_Nil2 fst_conv option.inject read_digits_digits)

lemma digits_less_iff:
  "m < 10 ^ w \<Longrightarrow> n < 10 ^ w \<Longrightarrow> digits w m < digits w n \<longleftrightarrow> m < n"
proof (induction w arbitrary: m n)
  case (Suc w)
  then have d: "m div 10 < 10 ^ w" "n div 10 < 10 ^ w"
    by (simp_all add: less_mult_imp_div_less mult.commute)
  have dm: "m < n \<longleftrightarrow> m div 10 < n div 10 \<or> m div 10 = n div 10 \<and> m mod 10 < n mod 10"
  proof -
    have lex: "10 * a + b < 10 * c + d \<longleftrightarrow> a < c \<or> a = c \<and> b < d"
      if "b < 10" "d < 10" for a b c d :: nat
      using that by arith
    show ?thesis
      using lex [of "m mod 10" "n mod 10" "m div 10" "n div 10"] by simp
  qed
  have "digits (Suc w) m < digits (Suc w) n \<longleftrightarrow>
      m div 10 < n div 10 \<or> m div 10 = n div 10 \<and> m mod 10 < n mod 10"
    using d by (simp add: less_snoc_same_length Suc.IH digits_eq_iff digit_char_less_iff)
  also have "\<dots> \<longleftrightarrow> m < n" by (rule dm [symmetric])
  finally show ?case .
qed simp

section \<open>Numbers as text\<close>

text \<open>The decimal form of an integer, as \<open>str\<close> and f-strings print it.\<close>

fun show_nat :: "nat \<Rightarrow> string" where
  "show_nat n = (if n < 10 then [digit_char n] else show_nat (n div 10) @ [digit_char (n mod 10)])"

declare show_nat.simps [simp del]

definition show_int :: "int \<Rightarrow> string" where
  "show_int i = (if i < 0 then CHR ''-'' # show_nat (nat (- i)) else show_nat (nat i))"

fun read_nat :: "nat \<Rightarrow> string \<Rightarrow> nat" where
  "read_nat acc [] = acc"
| "read_nat acc (c # cs) =
     (case char_digit c of None \<Rightarrow> acc | Some d \<Rightarrow> read_nat (10 * acc + d) cs)"

lemma show_nat_not_Nil [simp]: "show_nat n \<noteq> []"
  by (subst show_nat.simps) simp

lemma set_show_nat: "c \<in> set (show_nat n) \<Longrightarrow> \<exists>d<10. c = digit_char d"
proof (induction n rule: show_nat.induct)
  case (1 n)
  show ?case
  proof (cases "n < 10 \<or> c \<in> set (show_nat (n div 10))")
    case True
    with 1 show ?thesis by (auto simp: show_nat.simps [of n] split: if_splits)
  next
    case False
    with 1 have "c = digit_char (n mod 10)" by (simp add: show_nat.simps [of n])
    moreover have "n mod 10 < 10" by simp
    ultimately show ?thesis by blast
  qed
qed

lemma read_nat_append:
  "(\<And>c. c \<in> set xs \<Longrightarrow> char_digit c \<noteq> None) \<Longrightarrow> read_nat acc (xs @ ys) = read_nat (read_nat acc xs) ys"
proof (induction xs arbitrary: acc)
  case (Cons x xs)
  from Cons.prems [of x] obtain d where "char_digit x = Some d" by auto
  with Cons show ?case by simp
qed simp

lemma read_nat_show_nat: "read_nat 0 (show_nat n) = n"
proof (induction n rule: show_nat.induct)
  case (1 n)
  have d: "char_digit c \<noteq> None" if "c \<in> set (show_nat k)" for c k
    using set_show_nat [OF that] by auto
  show ?case
  proof (cases "n < 10")
    case True
    then show ?thesis by (simp add: show_nat.simps [of n])
  next
    case False
    have "n mod 10 < 10" by simp
    with False 1 d show ?thesis
      by (simp add: show_nat.simps [of n] read_nat_append del: mod_less_divisor)
  qed
qed

lemma show_nat_length: "n < 10 ^ Suc m \<Longrightarrow> length (show_nat n) \<le> Suc m"
proof (induction m arbitrary: n)
  case (Suc m)
  then have "n div 10 < 10 ^ Suc m" by (simp add: div_less_iff_less_mult)
  then show ?case using Suc.IH [of "n div 10"] by (subst show_nat.simps) simp
qed (simp add: show_nat.simps)

lemma show_nat_inject [simp]: "show_nat m = show_nat n \<longleftrightarrow> m = n"
  by (metis read_nat_show_nat)

lemma hd_show_nat_digit: "\<exists>d<10. hd (show_nat n) = digit_char d"
  using set_show_nat [of "hd (show_nat n)" n] by simp

lemma show_int_inject [simp]: "show_int i = show_int j \<longleftrightarrow> i = j"
proof -
  have neq: "CHR ''-'' # xs \<noteq> show_nat n" for xs n
  proof
    assume "CHR ''-'' # xs = show_nat n"
    then have "hd (show_nat n) = CHR ''-''" by (metis list.sel(1))
    then obtain d where "d < 10" "digit_char d = CHR ''-''"
      using hd_show_nat_digit [of n] by auto
    then show False using of_char_digit_char [of d] by simp
  qed
  show ?thesis
    using neq neq [symmetric] by (auto simp: show_int_def split: if_splits)
qed

end
