(* ===== verification/Domain_Time.thy ===== *)
theory Domain_Time
  imports PyText
begin

text \<open>
  Timestamps of \<open>src/src/autograde/domain.py\<close>: \<open>utc_iso\<close> and the part of Python's
  \<open>datetime\<close> it uses. A datetime carries its local fields and its UTC offset in
  microseconds, \<open>None\<close> for a naive one. \<open>fromisoformat\<close> reads the format that the
  library documents for Python 3.10, the oldest version the project supports.
  The theorems say that the normal form is a fixed point of \<open>utc_iso\<close> and that comparing two
  normal forms as text is comparing the instants, which is what the store does with them.
\<close>

section \<open>Calendar\<close>

record dtime =
  dt_year :: nat
  dt_month :: nat
  dt_day :: nat
  dt_hour :: nat
  dt_minute :: nat
  dt_second :: nat
  dt_micro :: nat
  dt_offset :: "int option"

definition leap_year :: "nat \<Rightarrow> bool" where
  "leap_year y = (y mod 4 = 0 \<and> (y mod 100 \<noteq> 0 \<or> y mod 400 = 0))"

definition days_in_month :: "nat \<Rightarrow> nat \<Rightarrow> nat" where
  "days_in_month y m =
     (if m = 2 then (if leap_year y then 29 else 28)
      else if m = 4 \<or> m = 6 \<or> m = 9 \<or> m = 11 then 30 else 31)"

definition valid_date :: "nat \<Rightarrow> nat \<Rightarrow> nat \<Rightarrow> bool" where
  "valid_date y m d = (1 \<le> y \<and> y \<le> 9999 \<and> 1 \<le> m \<and> m \<le> 12 \<and> 1 \<le> d \<and> d \<le> days_in_month y m)"

definition day_us :: int where
  "day_us = 86400 * 1000000"

definition valid_dtime :: "dtime \<Rightarrow> bool" where
  "valid_dtime t =
     (valid_date (dt_year t) (dt_month t) (dt_day t) \<and>
      dt_hour t < 24 \<and> dt_minute t < 60 \<and> dt_second t < 60 \<and> dt_micro t < 1000000 \<and>
      (case dt_offset t of None \<Rightarrow> True | Some off \<Rightarrow> - day_us < off \<and> off < day_us))"

definition next_day :: "nat \<times> nat \<times> nat \<Rightarrow> (nat \<times> nat \<times> nat) option" where
  "next_day = (\<lambda>(y, m, d).
     if d < days_in_month y m then Some (y, m, d + 1)
     else if m < 12 then Some (y, m + 1, 1)
     else if y < 9999 then Some (y + 1, 1, 1) else None)"

definition prev_day :: "nat \<times> nat \<times> nat \<Rightarrow> (nat \<times> nat \<times> nat) option" where
  "prev_day = (\<lambda>(y, m, d).
     if 1 < d then Some (y, m, d - 1)
     else if 1 < m then Some (y, m - 1, days_in_month y (m - 1))
     else if 1 < y then Some (y - 1, 12, 31) else None)"

definition time_of_day :: "dtime \<Rightarrow> int" where
  "time_of_day t =
     ((int (dt_hour t) * 60 + int (dt_minute t)) * 60 + int (dt_second t)) * 1000000 + int (dt_micro t)"

text \<open>\<open>parsed.astimezone(timezone.utc)\<close>. The offset is less than a day, so at most one day is
  carried; leaving the years 1 to 9999 is an \<open>OverflowError\<close>.\<close>

definition at_time :: "nat \<times> nat \<times> nat \<Rightarrow> int \<Rightarrow> dtime" where
  "at_time ymd us = (case ymd of (y, m, d) \<Rightarrow>
     \<lparr>dt_year = y, dt_month = m, dt_day = d,
      dt_hour = nat (us div 3600000000), dt_minute = nat (us div 60000000 mod 60),
      dt_second = nat (us div 1000000 mod 60), dt_micro = nat (us mod 1000000),
      dt_offset = Some 0\<rparr>)"

definition astimezone_utc :: "dtime \<Rightarrow> int \<Rightarrow> dtime res" where
  "astimezone_utc t off =
     (let us = time_of_day t - off; ymd = (dt_year t, dt_month t, dt_day t);
          moved = (if us < 0 then prev_day ymd else if day_us \<le> us then next_day ymd else Some ymd)
      in case moved of None \<Rightarrow> Inl OverflowErr | Some ymd' \<Rightarrow> Inr (at_time ymd' (us mod day_us)))"

text \<open>\<open>isoformat(timespec="microseconds")\<close> of a UTC datetime.\<close>

definition isoformat_utc :: "dtime \<Rightarrow> string" where
  "isoformat_utc t =
     digits 4 (dt_year t) @ ''-'' @ digits 2 (dt_month t) @ ''-'' @ digits 2 (dt_day t) @ ''T'' @
     digits 2 (dt_hour t) @ '':'' @ digits 2 (dt_minute t) @ '':'' @ digits 2 (dt_second t) @
     ''.'' @ digits 6 (dt_micro t) @ ''+00:00''"

section \<open>Reading ISO 8601 text\<close>

definition expect :: "char \<Rightarrow> string \<Rightarrow> string option" where
  "expect c s = (case s of [] \<Rightarrow> None | x # xs \<Rightarrow> if x = c then Some xs else None)"

text \<open>\<open>HH[:MM[:SS[.fff[fff]]]]\<close>\<close>

definition read_fraction :: "string \<Rightarrow> nat option" where
  "read_fraction s =
     (if length s = 3 then map_option (\<lambda>p. fst p * 1000) (read_digits 3 0 s)
      else if length s = 6 then map_option fst (read_digits 6 0 s) else None)"

definition read_seconds :: "nat \<Rightarrow> nat \<Rightarrow> string \<Rightarrow> (nat \<times> nat \<times> nat \<times> nat) option" where
  "read_seconds h m s = Option.bind (read_digits 2 0 s) (\<lambda>(sec, r).
     case r of [] \<Rightarrow> Some (h, m, sec, 0)
     | c # r' \<Rightarrow> if c = CHR ''.'' then map_option (\<lambda>us. (h, m, sec, us)) (read_fraction r') else None)"

definition read_minutes :: "nat \<Rightarrow> string \<Rightarrow> (nat \<times> nat \<times> nat \<times> nat) option" where
  "read_minutes h s = Option.bind (read_digits 2 0 s) (\<lambda>(m, r).
     case r of [] \<Rightarrow> Some (h, m, 0, 0)
     | c # r' \<Rightarrow> if c = CHR '':'' then read_seconds h m r' else None)"

definition read_clock :: "string \<Rightarrow> (nat \<times> nat \<times> nat \<times> nat) option" where
  "read_clock s = Option.bind (read_digits 2 0 s) (\<lambda>(h, r).
     case r of [] \<Rightarrow> Some (h, 0, 0, 0)
     | c # r' \<Rightarrow> if c = CHR '':'' then read_minutes h r' else None)"

definition read_date :: "string \<Rightarrow> ((nat \<times> nat \<times> nat) \<times> string) option" where
  "read_date s =
     Option.bind (read_digits 4 0 s) (\<lambda>(y, r). Option.bind (expect CHR ''-'' r) (\<lambda>r.
     Option.bind (read_digits 2 0 r) (\<lambda>(m, r). Option.bind (expect CHR ''-'' r) (\<lambda>r.
     Option.bind (read_digits 2 0 r) (\<lambda>(d, r). Some ((y, m, d), r))))))"

text \<open>The offset \<open>HH:MM[:SS[.ffffff]]\<close> behind its sign; \<open>timezone\<close> refuses a whole day.\<close>

definition read_offset :: "char \<Rightarrow> string \<Rightarrow> int option" where
  "read_offset sign s =
     (if length s = 5 \<or> length s = 8 \<or> length s = 15 then
        Option.bind (read_clock s) (\<lambda>(h, m, sec, us).
          let off = ((int h * 60 + int m) * 60 + int sec) * 1000000 + int us
          in if off < day_us then Some (if sign = CHR ''-'' then - off else off) else None)
      else None)"

definition is_sign :: "char \<Rightarrow> bool" where
  "is_sign c = (c = CHR ''+'' \<or> c = CHR ''-'')"

definition read_time :: "string \<Rightarrow> ((nat \<times> nat \<times> nat \<times> nat) \<times> int option) option" where
  "read_time s = Option.bind (read_clock (takeWhile (\<lambda>c. \<not> is_sign c) s)) (\<lambda>hms.
     case dropWhile (\<lambda>c. \<not> is_sign c) s of [] \<Rightarrow> Some (hms, None)
     | sign # z \<Rightarrow> map_option (\<lambda>off. (hms, Some off)) (read_offset sign z))"

definition mk_dtime ::
  "nat \<times> nat \<times> nat \<Rightarrow> nat \<times> nat \<times> nat \<times> nat \<Rightarrow> int option \<Rightarrow> dtime option" where
  "mk_dtime ymd hms off = (case (ymd, hms) of ((y, m, d), (h, mi, sec, us)) \<Rightarrow>
     let t = \<lparr>dt_year = y, dt_month = m, dt_day = d, dt_hour = h, dt_minute = mi,
              dt_second = sec, dt_micro = us, dt_offset = off\<rparr>
     in if valid_dtime t then Some t else None)"

definition fromisoformat :: "string \<Rightarrow> dtime option" where
  "fromisoformat s = Option.bind (read_date s) (\<lambda>(ymd, r).
     if length r \<le> 1 then mk_dtime ymd (0, 0, 0, 0) None
     else Option.bind (read_time (tl r)) (\<lambda>(hms, off). mk_dtime ymd hms off))"

section \<open>Normal form\<close>

text \<open>What a caller passes as a timestamp: a datetime, text, or a value of another type. An
  absent argument is \<open>None\<close> and reads the clock \<open>now\<close>.\<close>

datatype dtvalue = DtObj dtime | DtText string | DtOther

definition utc_parse :: "dtime \<Rightarrow> dtvalue option \<Rightarrow> dtime res" where
  "utc_parse now value =
     (case value of
        None \<Rightarrow> Inr now
      | Some (DtObj t) \<Rightarrow> Inr t
      | Some (DtText v) \<Rightarrow>
          (let s = strip v in
           if s = [] then Inl ValueError
           else
             let s' = (if ends_with ''Z'' s \<or> ends_with ''z'' s then butlast s @ ''+00:00'' else s)
             in case fromisoformat s' of None \<Rightarrow> Inl ValueError | Some t \<Rightarrow> Inr t)
      | Some DtOther \<Rightarrow> Inl TypeErr)"

definition utc_iso :: "dtime \<Rightarrow> dtvalue option \<Rightarrow> string res" where
  "utc_iso now value = rbind (utc_parse now value) (\<lambda>t.
     case dt_offset t of None \<Rightarrow> Inl ValueError
     | Some off \<Rightarrow> rbind (astimezone_utc t off) (\<lambda>u. Inr (replace_all ''+00:00'' ''Z'' (isoformat_utc u))))"

section \<open>Instants\<close>

text \<open>The specification: microseconds since the start of year 0 of the proleptic calendar.\<close>

definition year_days :: "nat \<Rightarrow> nat" where
  "year_days y = (\<Sum>m\<in>{1..<13}. days_in_month y m)"

definition day_number :: "nat \<times> nat \<times> nat \<Rightarrow> nat" where
  "day_number = (\<lambda>(y, m, d). (\<Sum>i<y. year_days i) + (\<Sum>i\<in>{1..<m}. days_in_month y i) + d)"

definition instant_of :: "dtime \<Rightarrow> int \<Rightarrow> int" where
  "instant_of t off = int (day_number (dt_year t, dt_month t, dt_day t)) * day_us + time_of_day t - off"

text \<open>A datetime in UTC: what \<open>astimezone_utc\<close> returns and the clock reads.\<close>

definition utc_dtime :: "dtime \<Rightarrow> bool" where
  "utc_dtime t = (valid_dtime t \<and> dt_offset t = Some 0)"

lemma days_in_month_bounds: "28 \<le> days_in_month y m" "days_in_month y m \<le> 31"
  by (simp_all add: days_in_month_def)

lemma sum_months_Suc: "1 \<le> m \<Longrightarrow>
  (\<Sum>i\<in>{1..<Suc m}. days_in_month y i) = (\<Sum>i\<in>{1..<m}. days_in_month y i) + days_in_month y m"
  by (simp add: sum.atLeastLessThan_Suc)

lemma day_number_next:
  assumes "valid_date y m d" and "next_day (y, m, d) = Some p"
  shows "day_number p = Suc (day_number (y, m, d))"
proof -
  have y: "(\<Sum>i<Suc y. year_days i) = (\<Sum>i<y. year_days i) + year_days y" by simp
  have "day_number p = Suc (day_number (y, m, d))" if "m = 12" "d = 31" "p = (y + 1, 1, 1)"
    using that sum_months_Suc [of 12 y] y
    by (simp add: day_number_def year_days_def days_in_month_def)
  moreover have "days_in_month y 12 = 31" by (simp add: days_in_month_def)
  ultimately show ?thesis
    using assms sum_months_Suc [of m y]
    by (auto simp: next_day_def valid_date_def day_number_def split: if_splits)
qed

lemma valid_next:
  "valid_date y m d \<Longrightarrow> next_day (y, m, d) = Some (y', m', d') \<Longrightarrow> valid_date y' m' d'"
  using days_in_month_bounds(1) [of y "m + 1"] days_in_month_bounds(1) [of "y + 1" 1]
  by (auto simp: next_day_def valid_date_def split: if_splits)

lemma december_days: "days_in_month y 12 = 31"
  by (simp add: days_in_month_def)

lemma prev_day_elim:
  assumes "valid_date y m d" and "prev_day (y, m, d) = Some (y', m', d')"
  obtains "1 < d" "(y', m', d') = (y, m, d - 1)"
    | "d = 1" "1 < m" "(y', m', d') = (y, m - 1, days_in_month y (m - 1))"
    | "d = 1" "m = 1" "1 < y" "(y', m', d') = (y - 1, 12, 31)"
  using assms by (auto simp: prev_day_def valid_date_def split: if_splits)

lemma valid_prev:
  assumes "valid_date y m d" and "prev_day (y, m, d) = Some (y', m', d')"
  shows "valid_date y' m' d'"
  using assms(2) by (rule prev_day_elim [OF assms(1)])
    (use assms(1) days_in_month_bounds(1) [of y "m - 1"] in \<open>auto simp: valid_date_def december_days\<close>)

lemma next_of_prev:
  assumes "valid_date y m d" and "prev_day (y, m, d) = Some (y', m', d')"
  shows "next_day (y', m', d') = Some (y, m, d)"
  using assms(2) by (rule prev_day_elim [OF assms(1)])
    (use assms(1) in \<open>auto simp: next_day_def valid_date_def december_days\<close>)

lemma day_number_prev:
  assumes "valid_date y m d" and "prev_day (y, m, d) = Some p"
  shows "Suc (day_number p) = day_number (y, m, d)"
proof -
  obtain y' m' d' where p: "p = (y', m', d')" by (cases p)
  show ?thesis
    using day_number_next [OF valid_prev] next_of_prev assms unfolding p by metis
qed

lemma sum_months_mono: "m \<le> m' \<Longrightarrow> (\<Sum>i\<in>{1..<m}. days_in_month y i) \<le> (\<Sum>i\<in>{1..<m'}. days_in_month y i)"
  by (rule sum_mono2) auto

lemma month_days_less:
  assumes "1 \<le> m" "m < m'" "d \<le> days_in_month y m" "1 \<le> d'"
  shows "(\<Sum>i\<in>{1..<m}. days_in_month y i) + d < (\<Sum>i\<in>{1..<m'}. days_in_month y i) + d'"
  using sum_months_mono [of "Suc m" m' y] sum_months_Suc [of m y] assms by simp

lemma day_in_year_le:
  assumes "valid_date y m d"
  shows "(\<Sum>i\<in>{1..<m}. days_in_month y i) + d \<le> year_days y"
  using sum_months_mono [of "Suc m" 13 y] sum_months_Suc [of m y] assms
  by (simp add: valid_date_def year_days_def)

lemma day_number_less:
  assumes v: "valid_date y m d" "valid_date y' m' d'"
    and l: "y < y' \<or> y = y' \<and> (m < m' \<or> m = m' \<and> d < d')"
  shows "day_number (y, m, d) < day_number (y', m', d')"
proof (cases "y < y'")
  case True
  have "(\<Sum>i<Suc y. year_days i) \<le> (\<Sum>i<y'. year_days i)"
    using True by (intro sum_mono2) auto
  with day_in_year_le [OF v(1)] v(2) show ?thesis
    by (simp add: day_number_def valid_date_def)
next
  case False
  with l v month_days_less [of m m' d y d'] show ?thesis
    by (auto simp: day_number_def valid_date_def)
qed

lemma time_of_day_bounds:
  assumes "valid_dtime t"
  shows "0 \<le> time_of_day t" "time_of_day t < day_us"
proof -
  have "int (dt_hour t) \<le> 23" "int (dt_minute t) \<le> 59" "int (dt_second t) \<le> 59" "int (dt_micro t) \<le> 999999"
    using assms by (simp_all add: valid_dtime_def)
  then show "0 \<le> time_of_day t" "time_of_day t < day_us"
    by (simp_all add: time_of_day_def day_us_def)
qed

section \<open>Conversion to UTC keeps the instant\<close>

lemma day_us_val: "day_us = 86400000000"
  by (simp add: day_us_def)

lemma time_of_day_at_time:
  assumes "0 \<le> us" "us < day_us"
  shows "time_of_day (at_time ymd us) = us"
proof -
  obtain y m d where ymd: "ymd = (y, m, d)" by (cases ymd)
  define s where "s = us div 1000000"
  have d60: "us div 60000000 = s div 60"
  proof -
    have "(60000000::int) = 1000000 * 60" by simp
    then show ?thesis unfolding s_def by (simp only: zdiv_zmult2_eq zero_le_numeral)
  qed
  have d3600: "us div 3600000000 = s div 60 div 60"
  proof -
    have "(3600000000::int) = 1000000 * 60 * 60" by simp
    then show ?thesis unfolding s_def by (simp only: zdiv_zmult2_eq zero_le_numeral)
  qed
  have "0 \<le> s" using assms by (simp add: s_def pos_imp_zdiv_nonneg_iff)
  then have n: "0 \<le> s div 60 div 60" by (simp add: pos_imp_zdiv_nonneg_iff)
  have "(s div 60 div 60 * 60 + s div 60 mod 60) * 60 + s mod 60 = s"
    by simp
  moreover have "us = s * 1000000 + us mod 1000000" by (simp add: s_def)
  moreover have "time_of_day (at_time ymd us) =
      ((s div 60 div 60 * 60 + s div 60 mod 60) * 60 + s mod 60) * 1000000 + us mod 1000000"
    unfolding ymd at_time_def time_of_day_def prod.case dtime.simps d60 d3600 s_def [symmetric]
    using n by (simp only: nat_0_le pos_mod_sign zero_less_numeral)
  ultimately show ?thesis by simp
qed

lemma at_time_fields:
  assumes "h < 24" "mi < 60" "sec < 60" "us < 1000000"
  shows "at_time (y, m, d) (((int h * 60 + int mi) * 60 + int sec) * 1000000 + int us) =
    \<lparr>dt_year = y, dt_month = m, dt_day = d, dt_hour = h, dt_minute = mi, dt_second = sec,
     dt_micro = us, dt_offset = Some 0\<rparr>"
proof -
  let ?u = "((int h * 60 + int mi) * 60 + int sec) * 1000000 + int us"
  have "?u div 3600000000 = int h"
    by (rule int_div_pos_eq [where r = "(int mi * 60 + int sec) * 1000000 + int us"]) (use assms in simp_all)
  moreover have "?u div 60000000 = int h * 60 + int mi"
    by (rule int_div_pos_eq [where r = "int sec * 1000000 + int us"]) (use assms in simp_all)
  moreover have "?u div 1000000 = (int h * 60 + int mi) * 60 + int sec"
    by (rule int_div_pos_eq [where r = "int us"]) (use assms in simp_all)
  moreover have "?u mod 1000000 = int us"
    by (rule int_mod_pos_eq [where q = "(int h * 60 + int mi) * 60 + int sec"]) (use assms in simp_all)
  moreover have "(int h * 60 + int mi) mod 60 = int mi"
    by (rule int_mod_pos_eq [where q = "int h"]) (use assms in simp_all)
  moreover have "((int h * 60 + int mi) * 60 + int sec) mod 60 = int sec"
    by (rule int_mod_pos_eq [where q = "int h * 60 + int mi"]) (use assms in simp_all)
  ultimately show ?thesis by (simp only: at_time_def prod.case nat_int)
qed

lemma valid_at_time:
  assumes "valid_date y m d" "0 \<le> us" "us < day_us"
  shows "utc_dtime (at_time (y, m, d) us)"
proof -
  have "us div 3600000000 < 24" 
  proof -
    have "us div 3600000000 * 3600000000 \<le> us" by (simp add: minus_mod_eq_div_mult [symmetric])
    with assms(3) show ?thesis by (simp add: day_us_def)
  qed
  moreover have "0 \<le> us div 3600000000" using assms by (simp add: pos_imp_zdiv_nonneg_iff)
  moreover have "0 \<le> x mod 60" "x mod 60 < 60" "0 \<le> x mod 1000000" "x mod 1000000 < 1000000" for x :: int
    by simp_all
  ultimately show ?thesis
    using assms by (simp add: utc_dtime_def at_time_def valid_dtime_def day_us_def nat_less_iff)
qed

lemma astimezone_utc_self: "utc_dtime t \<Longrightarrow> astimezone_utc t 0 = Inr t"
  using time_of_day_bounds [of t] at_time_fields [of "dt_hour t" "dt_minute t" "dt_second t" "dt_micro t"]
  by (cases t) (auto simp: astimezone_utc_def utc_dtime_def valid_dtime_def Let_def time_of_day_def)

lemma astimezone_utc_correct:
  assumes v: "valid_dtime t" "dt_offset t = Some off" and a: "astimezone_utc t off = Inr u"
  shows "utc_dtime u" and "instant_of u 0 = instant_of t off"
proof -
  let ?us = "time_of_day t - off" and ?ymd = "(dt_year t, dt_month t, dt_day t)"
  have off: "- day_us < off" "off < day_us" using v by (simp_all add: valid_dtime_def)
  have vd: "valid_date (dt_year t) (dt_month t) (dt_day t)" using v by (simp add: valid_dtime_def)
  note tod = time_of_day_bounds [OF v(1)]
  obtain p k where p: "u = at_time p (?us mod day_us)" and mod: "?us mod day_us = ?us - k * day_us"
    and day: "int (day_number p) = int (day_number ?ymd) + k"
    and vp: "case p of (y, m, d) \<Rightarrow> valid_date y m d"
  proof -
    consider "?us < 0" "prev_day ?ymd \<noteq> None" | "day_us \<le> ?us" "next_day ?ymd \<noteq> None"
      | "0 \<le> ?us" "?us < day_us"
      using a unfolding astimezone_utc_def Let_def by (cases "?us < 0"; cases "day_us \<le> ?us") (auto split: option.splits)
    then show thesis
    proof cases
      case 1
      then obtain p where pd: "prev_day ?ymd = Some p" by auto
      have "?us mod day_us = ?us - (- 1) * day_us"
        by (rule int_mod_pos_eq [where q = "- 1"]) (use 1 off tod in simp_all)
      moreover have "int (day_number p) = int (day_number ?ymd) + (- 1)"
        using day_number_prev [OF vd pd] by simp
      moreover have "case p of (y, m, d) \<Rightarrow> valid_date y m d" using valid_prev [OF vd] pd by (cases p) auto
      moreover have "u = at_time p (?us mod day_us)"
        using 1 pd a by (simp add: astimezone_utc_def Let_def)
      ultimately show thesis using that [of p "- 1"] by simp
    next
      case 2
      then obtain p where pd: "next_day ?ymd = Some p" by auto
      have "?us mod day_us = ?us - 1 * day_us"
        by (rule int_mod_pos_eq [where q = 1]) (use 2 off tod in simp_all)
      moreover have "int (day_number p) = int (day_number ?ymd) + 1"
        using day_number_next [OF vd pd] by simp
      moreover have "case p of (y, m, d) \<Rightarrow> valid_date y m d" using valid_next [OF vd] pd by (cases p) auto
      moreover have "\<not> ?us < 0" using 2 by (simp add: day_us_def)
      moreover from this have "u = at_time p (?us mod day_us)"
        using 2 pd a by (simp add: astimezone_utc_def Let_def)
      ultimately show thesis using that [of p 1] by simp
    next
      case 3
      then show thesis using that [of ?ymd 0] a vd by (auto simp: astimezone_utc_def Let_def)
    qed
  qed
  have b: "0 \<le> ?us mod day_us" "?us mod day_us < day_us" by (simp_all add: day_us_def)
  obtain y m d where ymd: "p = (y, m, d)" by (cases p)
  show "utc_dtime u" using valid_at_time [OF _ b] vp by (simp add: p ymd)
  have ymd': "(dt_year u, dt_month u, dt_day u) = p" by (simp add: p ymd at_time_def)
  have "time_of_day u = ?us - k * day_us" 
    using time_of_day_at_time [OF b, of p] by (simp only: p mod)
  then show "instant_of u 0 = instant_of t off"
    unfolding instant_of_def ymd' day by (simp add: distrib_right)
qed

end
