(* ===== verification/Timestamps.thy ===== *)
theory Timestamps
  imports Domain_Time
begin

text \<open>
  What the stored timestamp text is good for: \<open>utc_iso\<close> accepts its own output and returns it
  unchanged, and the text order of two outputs (which SQLite and Python use to decide that a
  schedule is due or a token has expired) is the order of the instants.
\<close>

definition clock_part :: "dtime \<Rightarrow> string" where
  "clock_part t = digits 2 (dt_hour t) @ '':'' @ digits 2 (dt_minute t) @ '':'' @
     digits 2 (dt_second t) @ ''.'' @ digits 6 (dt_micro t)"

definition stem :: "dtime \<Rightarrow> string" where
  "stem t = digits 4 (dt_year t) @ ''-'' @ digits 2 (dt_month t) @ ''-'' @ digits 2 (dt_day t) @
     ''T'' @ clock_part t"

definition valid_value :: "dtvalue option \<Rightarrow> bool" where
  "valid_value v = (case v of Some (DtObj t) \<Rightarrow> valid_dtime t | _ \<Rightarrow> True)"

lemma isoformat_stem: "isoformat_utc t = stem t @ ''+00:00''"
  by (simp add: isoformat_utc_def stem_def clock_part_def)

lemma char_code_neq: "d < 10 \<Longrightarrow> (of_char c :: nat) < 48 \<or> 57 < (of_char c :: nat) \<Longrightarrow> digit_char d \<noteq> c"
  using of_char_digit_char [of d] by auto

lemma not_in_digits: "(of_char c :: nat) < 48 \<or> 57 < (of_char c :: nat) \<Longrightarrow> c \<notin> set (digits w n)"
  using set_digits char_code_neq by blast

lemma stem_chars:
  shows "CHR ''+'' \<notin> set (stem t)" and "c \<in> set (clock_part t) \<Longrightarrow> \<not> is_sign c"
  using not_in_digits [of "CHR ''+''"] not_in_digits [of "CHR ''-''"]
  by (auto simp: stem_def clock_part_def is_sign_def)

lemma normal_form: "replace_all ''+00:00'' ''Z'' (isoformat_utc t) = stem t @ ''Z''"
proof -
  have "replace_all ''+00:00'' ''Z'' (stem t @ ''+00:00'') = stem t @ replace_all ''+00:00'' ''Z'' ''+00:00''"
    by (rule replace_all_skip) (simp_all add: stem_chars)
  also have "replace_all ''+00:00'' ''Z'' ''+00:00'' = ''Z''" by (rule replace_all_self) simp
  finally show ?thesis by (simp only: isoformat_stem)
qed

section \<open>Reading the normal form back\<close>

lemma utc_field_bounds:
  assumes "utc_dtime t"
  shows "dt_year t < 10 ^ 4" "dt_month t < 10 ^ 2" "dt_day t < 10 ^ 2" "dt_hour t < 10 ^ 2"
    "dt_minute t < 10 ^ 2" "dt_second t < 10 ^ 2" "dt_micro t < 10 ^ 6"
  using assms days_in_month_bounds(2) [of "dt_year t" "dt_month t"]
  by (auto simp: utc_dtime_def valid_dtime_def valid_date_def)

lemma read_clock_part:
  assumes "utc_dtime t"
  shows "read_clock (clock_part t) = Some (dt_hour t, dt_minute t, dt_second t, dt_micro t)"
proof -
  note b = utc_field_bounds [OF assms]
  have "read_fraction (digits 6 (dt_micro t)) = Some (dt_micro t)"
    using read_digits_digits [OF b(7), of "[]"] by (simp add: read_fraction_def)
  then show ?thesis
    using b by (simp add: read_clock_def clock_part_def read_minutes_def read_seconds_def del: power.simps)
qed

lemma read_time_clock_part:
  assumes "utc_dtime t"
  shows "read_time (clock_part t @ ''+00:00'') =
    Some ((dt_hour t, dt_minute t, dt_second t, dt_micro t), Some 0)"
proof -
  have tw: "takeWhile (\<lambda>c. \<not> is_sign c) (clock_part t @ ''+00:00'') = clock_part t"
    and dw: "dropWhile (\<lambda>c. \<not> is_sign c) (clock_part t @ ''+00:00'') = ''+00:00''"
    using stem_chars(2) [of _ t] by (simp_all add: takeWhile_append dropWhile_append is_sign_def)
  have "read_offset CHR ''+'' ''00:00'' = Some 0" by code_simp
  then show ?thesis
    unfolding read_time_def tw dw read_clock_part [OF assms] by simp
qed

lemma read_date_stem:
  assumes "utc_dtime t"
  shows "read_date (stem t @ r) =
    Some ((dt_year t, dt_month t, dt_day t), ''T'' @ clock_part t @ r)"
  using utc_field_bounds [OF assms] by (simp add: read_date_def stem_def expect_def del: power.simps)

lemma fromisoformat_stem:
  assumes "utc_dtime t"
  shows "fromisoformat (stem t @ ''+00:00'') = Some t"
proof -
  have v: "valid_dtime t" "dt_offset t = Some 0" using assms by (simp_all add: utc_dtime_def)
  have "mk_dtime (dt_year t, dt_month t, dt_day t) (dt_hour t, dt_minute t, dt_second t, dt_micro t) (Some 0) = Some t"
    using v by (cases t) (simp add: mk_dtime_def)
  then show ?thesis
    unfolding fromisoformat_def read_date_stem [OF assms] using read_time_clock_part [OF assms] by simp
qed

lemma strip_normal_form: "strip (stem t @ ''Z'') = stem t @ ''Z''"
proof -
  have "hd (stem t @ ''Z'') \<in> set (digits 4 (dt_year t))"
    by (cases "digits 4 (dt_year t)") (auto simp: stem_def dest: arg_cong [of _ _ length])
  then obtain d where "d < 10" "hd (stem t @ ''Z'') = digit_char d" using set_digits by blast
  then have "\<not> py_space (hd (stem t @ ''Z''))" by (simp add: digit_char_not_space)
  moreover have "\<not> py_space CHR ''Z''" by (simp add: py_space_def)
  ultimately show ?thesis by (simp add: strip_fix_iff)
qed

lemma utc_iso_normal_form:
  assumes "utc_dtime t"
  shows "utc_iso now (Some (DtText (stem t @ ''Z''))) = Inr (stem t @ ''Z'')"
proof -
  have "ends_with ''Z'' (stem t @ ''Z'')" by (simp add: ends_with_def starts_with_def)
  then have "utc_parse now (Some (DtText (stem t @ ''Z''))) = Inr t"
    by (simp add: utc_parse_def strip_normal_form fromisoformat_stem [OF assms])
  moreover have "dt_offset t = Some 0" using assms by (simp add: utc_dtime_def)
  ultimately show ?thesis
    by (simp add: utc_iso_def astimezone_utc_self [OF assms] normal_form)
qed

lemma utc_parse_valid:
  "utc_parse now v = Inr t \<Longrightarrow> utc_dtime now \<Longrightarrow> valid_value v \<Longrightarrow> valid_dtime t"
  by (auto simp: utc_parse_def valid_value_def utc_dtime_def fromisoformat_def mk_dtime_def Let_def bind_eq_Some_conv
      split: option.splits dtvalue.splits if_splits prod.splits)

text \<open>Every result of \<open>utc_iso\<close> is the normal form of a UTC datetime at the same instant.\<close>

lemma utc_iso_cases:
  assumes "utc_iso now v = Inr s" and "utc_dtime now" and "valid_value v"
  obtains t off u where "utc_parse now v = Inr t" "dt_offset t = Some off"
    "utc_dtime u" "s = stem u @ ''Z''" "instant_of u 0 = instant_of t off"
proof -
  from assms(1) obtain t off u where t: "utc_parse now v = Inr t" and o: "dt_offset t = Some off"
    and u: "astimezone_utc t off = Inr u" and s: "s = stem u @ ''Z''"
    by (auto simp: utc_iso_def result_simps normal_form split: option.splits)
  have "valid_dtime t" using utc_parse_valid [OF t] assms by simp
  from that [OF t o astimezone_utc_correct(1) [OF this o u] s astimezone_utc_correct(2) [OF this o u]]
  show thesis .
qed

section \<open>Text order is time order\<close>

lemma mixed_radix_less:
  fixes h m s u :: int
  assumes "h < h' \<or> h = h' \<and> (m < m' \<or> m = m' \<and> (s < s' \<or> s = s' \<and> u < u'))"
    and "m < 60" "s < 60" "u < 1000000" "0 \<le> m'" "0 \<le> s'" "0 \<le> u'"
  shows "((h * 60 + m) * 60 + s) * 1000000 + u < ((h' * 60 + m') * 60 + s') * 1000000 + u'"
  using assms by (elim disjE conjE) simp_all

lemma stem_less:
  assumes "utc_dtime t" "utc_dtime u" and "stem t @ z < stem u @ z"
  shows "instant_of t 0 < instant_of u 0"
proof -
  note b = utc_field_bounds [OF assms(1)] utc_field_bounds [OF assms(2)]
  let ?D = "\<lambda>t. (dt_year t, dt_month t, dt_day t)"
  have v: "valid_dtime t" "valid_dtime u" using assms by (simp_all add: utc_dtime_def)
  then have vd: "valid_date (dt_year t) (dt_month t) (dt_day t)" "valid_date (dt_year u) (dt_month u) (dt_day u)"
    by (simp_all add: valid_dtime_def)
  have "dt_year t < dt_year u \<or> dt_year t = dt_year u \<and> (dt_month t < dt_month u \<or>
      dt_month t = dt_month u \<and> (dt_day t < dt_day u \<or> dt_day t = dt_day u \<and> clock_part t @ z < clock_part u @ z))"
    using assms(3) b by (simp add: stem_def less_append_same_length digits_less_iff digits_eq_iff del: power.simps)
  moreover have "time_of_day t < time_of_day u" if "clock_part t @ z < clock_part u @ z"
  proof -
    have "int (dt_hour t) < int (dt_hour u) \<or> int (dt_hour t) = int (dt_hour u) \<and>
      (int (dt_minute t) < int (dt_minute u) \<or> int (dt_minute t) = int (dt_minute u) \<and>
      (int (dt_second t) < int (dt_second u) \<or> int (dt_second t) = int (dt_second u) \<and>
       int (dt_micro t) < int (dt_micro u)))"
      using that b
      by (simp add: clock_part_def less_append_same_length digits_less_iff digits_eq_iff del: power.simps)
    moreover have "int (dt_minute t) < 60" "int (dt_second t) < 60" "int (dt_micro t) < 1000000"
      "0 \<le> int (dt_minute u)" "0 \<le> int (dt_second u)" "0 \<le> int (dt_micro u)"
      using v by (simp_all add: valid_dtime_def)
    ultimately show ?thesis unfolding time_of_day_def by (rule mixed_radix_less)
  qed
  ultimately consider "day_number (?D t) < day_number (?D u)"
    | "?D t = ?D u" "time_of_day t < time_of_day u"
    using day_number_less [OF vd] by blast
  then show ?thesis
  proof cases
    case 1
    then have "int (day_number (?D t)) + 1 \<le> int (day_number (?D u))" by simp
    then have "(int (day_number (?D t)) + 1) * day_us \<le> int (day_number (?D u)) * day_us"
      by (rule mult_right_mono) (simp add: day_us_def)
    then show ?thesis
      using time_of_day_bounds [OF v(1)] time_of_day_bounds [OF v(2)]
      by (simp add: instant_of_def distrib_right)
  qed (simp add: instant_of_def)
qed

lemma stem_less_iff:
  assumes "utc_dtime t" "utc_dtime u"
  shows "stem t @ z < stem u @ z \<longleftrightarrow> instant_of t 0 < instant_of u 0"
    and "stem t @ z = stem u @ z \<longleftrightarrow> instant_of t 0 = instant_of u 0"
proof -
  have "t = u" if "stem t = stem u"
  proof -
    have "Some t = Some u" using fromisoformat_stem assms that by metis
    then show ?thesis by simp
  qed
  then show "stem t @ z < stem u @ z \<longleftrightarrow> instant_of t 0 < instant_of u 0"
    and "stem t @ z = stem u @ z \<longleftrightarrow> instant_of t 0 = instant_of u 0"
    using stem_less [OF assms, of z] stem_less [OF assms(2,1), of z]
      linorder_less_linear [of "stem t @ z" "stem u @ z"] by auto
qed

end
