(* ===== verification/Json_Text.thy ===== *)
theory Json_Text
  imports PyText
begin

text \<open>
  JSON values and the canonical text the program stores, compares and hashes:
  \<open>json.dumps(value, sort_keys=True, separators=(",", ":"), allow_nan=False)\<close> with the default
  \<open>ensure_ascii\<close>. A finite float is carried as its \<open>repr\<close> text, because the program never
  computes with a float inside a JSON value; \<open>JNonFinite\<close> and \<open>JObject\<close> are the values
  \<open>dumps\<close> refuses. Object keys are strings.
\<close>

datatype json =
    JNull | JBool bool | JInt int | JFloat string | JStr string
  | JArr "json list" | JObj "(string \<times> json) list"
  | JNonFinite | JObject

definition hex_char :: "nat \<Rightarrow> char" where
  "hex_char d = (if d < 10 then digit_char d else char_of (87 + d))"

definition escape_char :: "char \<Rightarrow> string" where
  "escape_char c = (let n = of_char c :: nat in
     if n = 34 then [char_of (92::nat), char_of (34::nat)]
     else if n = 92 then [char_of (92::nat), char_of (92::nat)]
     else if n = 10 then [char_of (92::nat), CHR ''n'']
     else if n = 13 then [char_of (92::nat), CHR ''r'']
     else if n = 9 then [char_of (92::nat), CHR ''t'']
     else if n = 12 then [char_of (92::nat), CHR ''f'']
     else if n = 8 then [char_of (92::nat), CHR ''b'']
     else if 32 \<le> n \<and> n \<le> 126 then [c]
     else [char_of (92::nat), CHR ''u'', CHR ''0'', CHR ''0'', hex_char (n div 16), hex_char (n mod 16)])"

definition quoted :: "string \<Rightarrow> string" where
  "quoted s = char_of (34::nat) # concat (map escape_char s) @ [char_of (34::nat)]"

fun join :: "string \<Rightarrow> string list \<Rightarrow> string" where
  "join sep [] = []"
| "join sep [x] = x"
| "join sep (x # y # zs) = x @ sep @ join sep (y # zs)"

lemma rmapM_cong [fundef_cong]:
  "xs = ys \<Longrightarrow> (\<And>x. x \<in> set ys \<Longrightarrow> f x = g x) \<Longrightarrow> rmapM f xs = rmapM g ys"
  by (induction ys arbitrary: xs) auto

fun dumps :: "json \<Rightarrow> string res" where
  "dumps JNull = Inr ''null''"
| "dumps (JBool b) = Inr (if b then ''true'' else ''false'')"
| "dumps (JInt i) = Inr (show_int i)"
| "dumps (JFloat r) = Inr r"
| "dumps (JStr s) = Inr (quoted s)"
| "dumps (JArr xs) = rbind (rmapM dumps xs) (\<lambda>ts. Inr (''['' @ join '','' ts @ '']''))"
| "dumps (JObj ms) =
     rbind (rmapM (\<lambda>p. rbind (dumps (snd p)) (\<lambda>t. Inr (fst p, t))) ms) (\<lambda>ps.
       Inr (''{'' @ join '','' (map (\<lambda>p. quoted (fst p) @ '':'' @ snd p) (sort_key fst ps)) @ ''}''))"
| "dumps JNonFinite = Inl ValueError"
| "dumps JObject = Inl TypeErr"

text \<open>\<open>_json_dump\<close> of \<open>state.py\<close>: an absent or empty mapping is \<open>{}\<close>, and every failure of
  \<open>dumps\<close> is a \<open>ValueError\<close>.\<close>

definition json_dump :: "json option \<Rightarrow> string res" where
  "json_dump value =
     (let v = (case value of None \<Rightarrow> JObj [] | Some j \<Rightarrow> j)
      in case dumps v of Inl _ \<Rightarrow> Inl ValueError | Inr t \<Rightarrow> Inr t)"

text \<open>The order in which a caller lists the members of a mapping does not show in the text.\<close>

lemma rmapM_rendered:
  assumes "rmapM (\<lambda>p. rbind (f (snd p)) (\<lambda>t. Inr (fst p, t))) ms = Inr ps"
  shows "map fst ps = map fst ms \<and>
    (\<forall>k t. (k, t) \<in> set ps \<longleftrightarrow> (\<exists>v. (k, v) \<in> set ms \<and> f v = Inr t))"
  using assms
proof (induction ms arbitrary: ps)
  case (Cons m ms)
  from Cons.prems obtain t qs where t: "f (snd m) = Inr t" and ps: "ps = (fst m, t) # qs"
    and qs: "rmapM (\<lambda>p. rbind (f (snd p)) (\<lambda>t. Inr (fst p, t))) ms = Inr qs"
    by (auto simp: result_simps)
  show ?case using Cons.IH [OF qs] t ps by (cases m) auto
qed simp

lemma sort_key_unique_keys:
  fixes ps qs :: "('k::linorder \<times> 'v) list"
  assumes "distinct (map fst ps)" "distinct (map fst qs)" and "set ps = set qs"
  shows "sort_key fst ps = sort_key fst qs"
proof -
  have d: "distinct (map fst (sort_key fst xs))" if "distinct (map fst xs)" for xs :: "('k \<times> 'v) list"
    using that by (simp add: distinct_map)
  have "inj_on fst (set ps)" using assms(1) by (simp add: distinct_map)
  then show ?thesis
    using assms d by (intro map_sorted_distinct_set_unique [of fst]) auto
qed

end
