(* ===== verification/Domain.thy ===== *)
theory Domain
  imports Timestamps Json_Text Complex_Main
begin

text \<open>
  The values of \<open>src/src/autograde/domain.py\<close> (state enumerations, Git object ids) and the
  argument validators of \<open>src/src/autograde/state.py\<close>. Every text validator is a normaliser: it
  accepts what it returned before and returns it unchanged. The locale \<open>normaliser\<close> is that
  contract; the store relies on it when it validates a value it read back from a row.
\<close>

section \<open>Enumerations\<close>

datatype run_state = RunQueued | RunRunning | RunSucceeded | RunPartial | RunFailed | RunCancelled

datatype job_state = JobQueued | JobRunning | JobSucceeded | JobFailed | JobSkipped | JobCancelled

datatype catch_up_policy = CatchUpNone | CatchUpLatest | CatchUpAll

datatype collection_trigger = TriggerScheduled | TriggerManual | TriggerDeadline

datatype late_status = LateOnTime | LateLate | LateUnknown

fun run_state_value :: "run_state \<Rightarrow> string" where
  "run_state_value RunQueued = ''queued''"
| "run_state_value RunRunning = ''running''"
| "run_state_value RunSucceeded = ''succeeded''"
| "run_state_value RunPartial = ''partial''"
| "run_state_value RunFailed = ''failed''"
| "run_state_value RunCancelled = ''cancelled''"

fun job_state_value :: "job_state \<Rightarrow> string" where
  "job_state_value JobQueued = ''queued''"
| "job_state_value JobRunning = ''running''"
| "job_state_value JobSucceeded = ''succeeded''"
| "job_state_value JobFailed = ''failed''"
| "job_state_value JobSkipped = ''skipped''"
| "job_state_value JobCancelled = ''cancelled''"

fun catch_up_value :: "catch_up_policy \<Rightarrow> string" where
  "catch_up_value CatchUpNone = ''none''"
| "catch_up_value CatchUpLatest = ''latest''"
| "catch_up_value CatchUpAll = ''all''"

fun trigger_value :: "collection_trigger \<Rightarrow> string" where
  "trigger_value TriggerScheduled = ''scheduled''"
| "trigger_value TriggerManual = ''manual''"
| "trigger_value TriggerDeadline = ''deadline''"

fun late_value :: "late_status \<Rightarrow> string" where
  "late_value LateOnTime = ''on_time''"
| "late_value LateLate = ''late''"
| "late_value LateUnknown = ''unknown''"

text \<open>\<open>_enum_value\<close>: the members in the order of the class, \<open>ValueError\<close> for another text. An
  enumeration member is itself a string, so the argument is its text in both cases.\<close>

definition enum_value :: "('a \<Rightarrow> string) \<Rightarrow> 'a list \<Rightarrow> string \<Rightarrow> 'a res" where
  "enum_value val members v =
     (case find (\<lambda>m. val m = v) members of None \<Rightarrow> Inl ValueError | Some m \<Rightarrow> Inr m)"

definition run_states :: "run_state list" where
  "run_states = [RunQueued, RunRunning, RunSucceeded, RunPartial, RunFailed, RunCancelled]"

definition job_states :: "job_state list" where
  "job_states = [JobQueued, JobRunning, JobSucceeded, JobFailed, JobSkipped, JobCancelled]"

definition catch_up_policies :: "catch_up_policy list" where
  "catch_up_policies = [CatchUpNone, CatchUpLatest, CatchUpAll]"

definition triggers :: "collection_trigger list" where
  "triggers = [TriggerScheduled, TriggerManual, TriggerDeadline]"

definition late_statuses :: "late_status list" where
  "late_statuses = [LateOnTime, LateLate, LateUnknown]"

lemma enum_value_Inr_iff: "enum_value val members v = Inr m \<Longrightarrow> m \<in> set members \<and> val m = v"
  by (auto simp: enum_value_def find_Some_iff split: option.splits)

lemma enum_value_member:
  assumes "m \<in> set members" and "inj_on val (set members)"
  shows "enum_value val members (val m) = Inr m"
proof -
  obtain m' where f: "find (\<lambda>x. val x = val m) members = Some m'"
    using assms(1) by (cases "find (\<lambda>x. val x = val m) members") (auto simp: find_None_iff)
  then have "m' \<in> set members" "val m' = val m" by (auto simp: find_Some_iff)
  with assms have "m' = m" by (auto dest: inj_onD)
  with f show ?thesis by (simp add: enum_value_def)
qed

definition terminal_run :: "run_state \<Rightarrow> bool" where
  "terminal_run st = (st \<in> {RunSucceeded, RunPartial, RunFailed, RunCancelled})"

section \<open>Git object ids\<close>

definition hex_digits :: string where
  "hex_digits = ''0123456789abcdef''"

definition git_oid :: "string \<Rightarrow> string res" where
  "git_oid value =
     (let normalized = lower (strip value) in
      if length normalized \<noteq> 40 \<and> length normalized \<noteq> 64 then Inl ValueError
      else if \<exists>c\<in>set normalized. c \<notin> set hex_digits then Inl ValueError
      else Inr normalized)"

section \<open>Validators of the store\<close>

definition required_text :: "string \<Rightarrow> string res" where
  "required_text value =
     (let normalized = strip value in if normalized = [] then Inl ValueError else Inr normalized)"

text \<open>A column that may be NULL, read as text: \<open>None.strip()\<close> is an \<open>AttributeError\<close>.\<close>

definition required_column :: "string option \<Rightarrow> string res" where
  "required_column value = (case value of None \<Rightarrow> Inl AttributeErr | Some v \<Rightarrow> required_text v)"

definition sha256_prefix :: string where
  "sha256_prefix = ''sha256:''"

definition optional_sha256_digest :: "string \<Rightarrow> string res" where
  "optional_sha256_digest value =
     (let normalized = lower (strip value) in
      if normalized = [] then Inr []
      else
        let body = (if starts_with sha256_prefix normalized
                    then drop (length sha256_prefix) normalized else normalized) in
        if length body \<noteq> 64 then Inl ValueError
        else if \<exists>c\<in>set body. c \<notin> set hex_digits then Inl ValueError
        else Inr (sha256_prefix @ body))"

definition optional_sha256_hex :: "string \<Rightarrow> string res" where
  "optional_sha256_hex value = rbind (optional_sha256_digest value) (\<lambda>digest.
     Inr (if digest = [] then [] else drop (length sha256_prefix) digest))"

subsection \<open>Numbers\<close>

text \<open>A Python number as an argument. A finite float is its exact rational value.\<close>

datatype pyfloat = Finite rat | PosInf | NegInf | NaN

datatype pynum = PyInt int | PyFloat pyfloat | PyBool bool | PyOther

text \<open>\<open>float(n)\<close> rounds an integer to 53 significant bits, ties to even.\<close>

function bit_length :: "int \<Rightarrow> nat" where
  "bit_length n = (if n \<le> 0 then 0 else Suc (bit_length (n div 2)))"
  by auto
termination by (relation "measure nat") auto

declare bit_length.simps [simp del]

definition div_half_even :: "int \<Rightarrow> int \<Rightarrow> int" where
  "div_half_even a b =
     (let q = a div b; r = a mod b in
      if 2 * r < b \<or> (2 * r = b \<and> even q) then q else q + 1)"

definition float_of_nonneg :: "int \<Rightarrow> int" where
  "float_of_nonneg n =
     (if n < 2 ^ 53 then n
      else let e = bit_length n - 53 in div_half_even n (2 ^ e) * 2 ^ e)"

definition float_of_int :: "int \<Rightarrow> rat res" where
  "float_of_int i =
     (let m = float_of_nonneg \<bar>i\<bar> in
      if m \<ge> 2 ^ 1024 then Inl OverflowErr
      else Inr (if i < 0 then - of_int m else of_int m))"

definition optional_non_negative_finite :: "pynum option \<Rightarrow> rat option res" where
  "optional_non_negative_finite value =
     (case value of
        None \<Rightarrow> Inr None
      | Some (PyBool _) \<Rightarrow> Inl TypeErr
      | Some PyOther \<Rightarrow> Inl TypeErr
      | Some (PyInt i) \<Rightarrow> rbind (float_of_int i) (\<lambda>x. if x < 0 then Inl ValueError else Inr (Some x))
      | Some (PyFloat (Finite x)) \<Rightarrow> if x < 0 then Inl ValueError else Inr (Some x)
      | Some (PyFloat _) \<Rightarrow> Inl ValueError)"

lemma optional_non_negative: "optional_non_negative_finite v = Inr (Some x) \<Longrightarrow> 0 \<le> x"
  by (auto simp: optional_non_negative_finite_def result_simps split: option.splits pynum.splits pyfloat.splits if_splits)

lemma optional_none_iff: "optional_non_negative_finite v = Inr None \<longleftrightarrow> v = None"
  by (auto simp: optional_non_negative_finite_def result_simps split: option.splits pynum.splits pyfloat.splits if_splits)

subsection \<open>Clone URLs\<close>

text \<open>
  The parts of \<open>urllib.parse.urlsplit\<close> (Python 3.10) that \<open>_clone_url\<close> looks at: the scheme in
  lower case, the authority, the query and the fragment. White space and control characters
  in front and every tab and line break are removed first; an authority with a single square
  bracket is a \<open>ValueError\<close>.
\<close>

record url_parts =
  url_scheme :: string
  url_netloc :: string
  url_query :: string
  url_fragment :: string

definition scheme_char :: "char \<Rightarrow> bool" where
  "scheme_char c = (let n = of_char c :: nat in
     (97 \<le> n \<and> n \<le> 122) \<or> (65 \<le> n \<and> n \<le> 90) \<or> (48 \<le> n \<and> n \<le> 57) \<or> n = 43 \<or> n = 45 \<or> n = 46)"

definition split_scheme :: "string \<Rightarrow> string \<times> string" where
  "split_scheme url =
     (let pre = takeWhile (\<lambda>c. c \<noteq> CHR '':'') url; rest = dropWhile (\<lambda>c. c \<noteq> CHR '':'') url in
      if rest \<noteq> [] \<and> pre \<noteq> [] \<and> list_all scheme_char pre then (lower pre, tl rest) else ([], url))"

definition split_at :: "char \<Rightarrow> string \<Rightarrow> string \<times> string" where
  "split_at c s = (takeWhile (\<lambda>x. x \<noteq> c) s, tl (dropWhile (\<lambda>x. x \<noteq> c) s))"

definition urlsplit :: "string \<Rightarrow> url_parts res" where
  "urlsplit raw =
     (let url = filter (\<lambda>c. c \<notin> set [CHR 0x09, CHR 0x0A, CHR 0x0D])
                  (dropWhile (\<lambda>c. (of_char c :: nat) \<le> 32) raw);
          (scheme, rest) = split_scheme url;
          has_net = starts_with ''//'' rest;
          netloc = (if has_net then takeWhile (\<lambda>c. c \<notin> set ''/?#'') (drop 2 rest) else []);
          path = (if has_net then drop (length netloc) (drop 2 rest) else rest);
          (before_fragment, fragment) = split_at CHR ''#'' path;
          (_, query) = split_at CHR ''?'' before_fragment
      in if (CHR ''['' \<in> set netloc) \<noteq> (CHR '']'' \<in> set netloc) then Inl ValueError
         else Inr \<lparr>url_scheme = scheme, url_netloc = netloc, url_query = query, url_fragment = fragment\<rparr>)"

definition http_scheme :: "string \<Rightarrow> bool" where
  "http_scheme s = (lower s = ''http'' \<or> lower s = ''https'')"

text \<open>The user name is absent exactly when the authority has no at sign, and then so is the
  password.\<close>

definition clone_url :: "string \<Rightarrow> string res" where
  "clone_url value = rbind (required_text value) (\<lambda>normalized. rbind (urlsplit normalized) (\<lambda>parsed.
     if http_scheme (url_scheme parsed) then
       (if CHR ''@'' \<in> set (url_netloc parsed) then Inl ValueError
        else if url_query parsed \<noteq> [] \<or> url_fragment parsed \<noteq> [] then Inl ValueError
        else Inr normalized)
     else Inr normalized))"

section \<open>Normalisers\<close>

locale normaliser =
  fixes norm :: "string \<Rightarrow> string res"
  assumes stable: "norm x = Inr y \<Longrightarrow> norm y = Inr y"
begin

lemma twice: "rbind (norm x) norm = norm x"
  by (cases "norm x") (auto dest: stable)

lemma fixed_iff_result: "norm y = Inr y \<longleftrightarrow> (\<exists>x. norm x = Inr y)"
  using stable by blast

lemma bind_stable: "rbind (norm x) f = Inr z \<Longrightarrow> \<exists>y. norm y = Inr y \<and> f y = Inr z"
  using stable by (auto simp: result_simps)

lemma same_normal_form: "norm x = Inr y \<Longrightarrow> norm x' = Inr y' \<Longrightarrow> y = y' \<longleftrightarrow> norm x = norm x'"
  by simp

end

lemma required_text_iff [result_simps]: "required_text v = Inr t \<longleftrightarrow> strip v = t \<and> t \<noteq> []"
  by (auto simp: required_text_def Let_def)

interpretation required: normaliser required_text
  by unfold_locales (auto simp: result_simps)

lemma hex_lower: "c \<in> set hex_digits \<Longrightarrow> lower_char c = c"
  and hex_not_space: "c \<in> set hex_digits \<Longrightarrow> \<not> py_space c"
  by (auto simp: hex_digits_def lower_char_def py_space_def)

lemma strip_if_no_space: "(\<forall>c\<in>set s. \<not> py_space c) \<Longrightarrow> strip s = s"
  using strip_fix_iff [of s] hd_in_set [of s] last_in_set [of s] by blast

lemma hex_text_fixed:
  assumes "\<forall>c\<in>set s. c \<in> set hex_digits"
  shows "strip s = s" and "lower s = s"
proof -
  show "strip s = s" using assms hex_not_space by (intro strip_if_no_space) blast
  show "lower s = s" using assms hex_lower by (auto simp: lower_def intro: map_idI)
qed

lemma git_oid_iff:
  "git_oid v = Inr t \<longleftrightarrow> lower (strip v) = t \<and> (length t = 40 \<or> length t = 64) \<and>
     (\<forall>c\<in>set t. c \<in> set hex_digits)"
  by (auto simp: git_oid_def Let_def)

interpretation oid: normaliser git_oid
  by unfold_locales (auto simp: git_oid_iff hex_text_fixed)

lemma sha256_prefix_chars: "c \<in> set sha256_prefix \<Longrightarrow> \<not> py_space c \<and> lower_char c = c"
  by (auto simp: sha256_prefix_def py_space_def lower_char_def)

lemma optional_sha256_digest_iff:
  "optional_sha256_digest v = Inr t \<longleftrightarrow>
     (lower (strip v) = [] \<and> t = []) \<or>
     (\<exists>body. (lower (strip v) = sha256_prefix @ body \<or> lower (strip v) = body) \<and>
        length body = 64 \<and> (\<forall>c\<in>set body. c \<in> set hex_digits) \<and> t = sha256_prefix @ body)"
proof -
  have hx: "\<not> starts_with sha256_prefix body" if "\<forall>c\<in>set body. c \<in> set hex_digits" for body
  proof
    assume "starts_with sha256_prefix body"
    then have "take (length sha256_prefix) body = sha256_prefix" by (simp add: starts_with_def)
    moreover have "CHR ''s'' \<in> set sha256_prefix" by (simp add: sha256_prefix_def)
    ultimately have "CHR ''s'' \<in> set body" by (metis in_set_takeD)
    moreover have "CHR ''s'' \<notin> set hex_digits" by (simp add: hex_digits_def)
    ultimately show False using that by blast
  qed
  have sp: "starts_with sha256_prefix n \<longleftrightarrow> (\<exists>body. n = sha256_prefix @ body)" for n
    unfolding starts_with_def by (metis append_eq_conv_conj append_take_drop_id)
  show ?thesis
  proof (cases "\<exists>body. lower (strip v) = sha256_prefix @ body")
    case True
    then obtain body where b: "lower (strip v) = sha256_prefix @ body" by blast
    have ne: "lower (strip v) \<noteq> []" using b by (simp add: sha256_prefix_def)
    have st: "starts_with sha256_prefix (lower (strip v))" using b sp by blast
    have dr: "drop (length sha256_prefix) (lower (strip v)) = body" by (simp add: b)
    have no: "\<not> (\<forall>c\<in>set b'. c \<in> set hex_digits)" if "lower (strip v) = b'" for b'
      using hx st that by blast
    have "optional_sha256_digest v = Inr t \<longleftrightarrow>
        length body = 64 \<and> (\<forall>c\<in>set body. c \<in> set hex_digits) \<and> t = sha256_prefix @ body"
      using ne by (auto simp: optional_sha256_digest_def Let_def st dr)
    then show ?thesis using no ne b by (metis append_eq_append_conv same_append_eq)
  next
    case False
    then have "\<not> starts_with sha256_prefix (lower (strip v))" using sp by blast
    with False show ?thesis unfolding optional_sha256_digest_def Let_def by auto
  qed
qed

lemma prefixed_hex_fixed:
  assumes "\<forall>c\<in>set body. c \<in> set hex_digits"
  shows "lower (strip (sha256_prefix @ body)) = sha256_prefix @ body"
proof -
  have "strip (sha256_prefix @ body) = sha256_prefix @ body"
    using assms hex_not_space sha256_prefix_chars by (intro strip_if_no_space) auto
  moreover have "map lower_char sha256_prefix = sha256_prefix"
    using sha256_prefix_chars by (intro map_idI) blast
  ultimately show ?thesis using hex_text_fixed(2) [OF assms] by (simp add: lower_def)
qed

lemma digest_stable:
  assumes "optional_sha256_digest v = Inr t"
  shows "optional_sha256_digest t = Inr t"
  using assms prefixed_hex_fixed
  by (auto simp: optional_sha256_digest_iff strip_def lstrip_def lower_def)

interpretation digest: normaliser optional_sha256_digest
  by unfold_locales (rule digest_stable)

lemma clone_url_iff:
  "clone_url v = Inr u \<longleftrightarrow> required_text v = Inr u \<and>
     (\<exists>p. urlsplit u = Inr p \<and> (http_scheme (url_scheme p) \<longrightarrow>
        CHR ''@'' \<notin> set (url_netloc p) \<and> url_query p = [] \<and> url_fragment p = []))"
  unfolding clone_url_def rbind_Inr_iff by (auto split: if_split_asm simp del: split_paired_Ex)

interpretation url: normaliser clone_url
  by unfold_locales (auto simp: clone_url_iff intro: required.stable)

text \<open>A full digest in its canonical spelling.\<close>

definition canonical_digest :: "string \<Rightarrow> bool" where
  "canonical_digest t = (optional_sha256_digest t = Inr t)"

lemma canonical_digest_iff:
  "canonical_digest t \<longleftrightarrow> t = [] \<or>
     (\<exists>body. t = sha256_prefix @ body \<and> length body = 64 \<and> (\<forall>c\<in>set body. c \<in> set hex_digits))"
proof
  assume "canonical_digest t"
  then show "t = [] \<or> (\<exists>body. t = sha256_prefix @ body \<and> length body = 64 \<and> (\<forall>c\<in>set body. c \<in> set hex_digits))"
    by (auto simp: canonical_digest_def optional_sha256_digest_iff)
next
  assume "t = [] \<or> (\<exists>body. t = sha256_prefix @ body \<and> length body = 64 \<and> (\<forall>c\<in>set body. c \<in> set hex_digits))"
  then show "canonical_digest t"
    using prefixed_hex_fixed
    by (auto simp: canonical_digest_def optional_sha256_digest_iff strip_def lstrip_def lower_def)
qed

lemma digest_result_canonical: "optional_sha256_digest v = Inr t \<Longrightarrow> canonical_digest t"
  by (simp add: canonical_digest_def digest.stable)

lemma digest_result_text: "optional_sha256_digest v = Inr t \<Longrightarrow> t \<noteq> [] \<Longrightarrow> required_text t = Inr t"
proof -
  assume "optional_sha256_digest v = Inr t" and ne: "t \<noteq> []"
  then obtain body where t: "t = sha256_prefix @ body" "\<forall>c\<in>set body. c \<in> set hex_digits"
    using optional_sha256_digest_iff by auto
  have "\<forall>c\<in>set t. \<not> py_space c"
    unfolding t(1) set_append using t(2) hex_not_space sha256_prefix_chars by blast
  then show "required_text t = Inr t" using ne by (simp add: required_text_iff strip_if_no_space)
qed

end
