(* ===== verification/Store_Schema.thy ===== *)
theory Store_Schema
  imports Domain
begin

text \<open>
  The SQLite schema of \<open>src/src/autograde/state.py\<close> at version 6, the only one its operations
  run on: one record per table with the columns in the order of the \<open>CREATE TABLE\<close> and
  \<open>ALTER TABLE\<close> statements, and the store as the record of the seven tables. A column that may
  be NULL is an option, a \<open>CHECK (x IN (0, 1))\<close> column a bool, a \<open>CHECK (state IN ...)\<close>
  column its enumeration, JSON columns hold their text. A table counts the largest id it gave
  out (AUTOINCREMENT); an ignored insert takes no id here, where SQLite may leave a gap. At the end
  stands the interface that the two job tables share, the locale \<open>attempt_machine\<close>.
\<close>

section \<open>Rows\<close>

record repo_row =
  rp_id :: int
  rp_key :: string
  rp_student :: string
  rp_github :: "int option"
  rp_owner :: string
  rp_name :: string
  rp_clone_url :: string
  rp_target_ref :: string
  rp_active :: bool
  rp_metadata :: string
  rp_created :: string
  rp_updated :: string

record assignment_row =
  as_id :: int
  as_key :: string
  as_path :: string
  as_target_ref :: string
  as_assessment :: string
  as_dataset :: string
  as_runner :: string
  as_rubric :: string
  as_max_score :: "rat option"
  as_metadata :: string
  as_review_required :: bool
  as_created :: string
  as_updated :: string

record schedule_row =
  sc_id :: int
  sc_key :: string
  sc_assignment :: int
  sc_interval :: int
  sc_timezone :: string
  sc_policy :: catch_up_policy
  sc_enabled :: bool
  sc_next :: string
  sc_last :: "string option"
  sc_created :: string
  sc_updated :: string

record run_row =
  rn_id :: int
  rn_key :: string
  rn_assignment :: int
  rn_schedule :: "int option"
  rn_trigger :: collection_trigger
  rn_scheduled_for :: string
  rn_state :: run_state
  rn_created :: string
  rn_started :: "string option"
  rn_finished :: "string option"
  rn_error :: "string option"
  rn_pinned :: bool

record job_row =
  cj_id :: int
  cj_key :: string
  cj_run :: int
  cj_repo :: int
  cj_target_ref :: string
  cj_state :: job_state
  cj_attempt :: int
  cj_max_attempts :: int
  cj_requested :: string
  cj_started :: "string option"
  cj_finished :: "string option"
  cj_old_sha :: "string option"
  cj_new_sha :: "string option"
  cj_force :: bool
  cj_error_code :: "string option"
  cj_error_message :: "string option"
  cj_clone_url :: "string option"
  cj_path :: "string option"
  cj_cache_key :: "string option"
  cj_assessment :: "string option"
  cj_dataset :: "string option"
  cj_runner :: "string option"
  cj_rubric :: "string option"
  cj_max_score :: "rat option"
  cj_pinned :: bool

record snapshot_row =
  ss_id :: int
  ss_key :: string
  ss_job :: int
  ss_run :: int
  ss_repo :: int
  ss_assignment :: int
  ss_commit :: string
  ss_path :: string
  ss_digest :: string
  ss_source_path :: "string option"
  ss_from :: string
  ss_to :: string
  ss_late :: late_status
  ss_created :: string

record grade_row =
  gj_id :: int
  gj_key :: string
  gj_snapshot :: int
  gj_state :: job_state
  gj_assessment :: string
  gj_dataset :: string
  gj_runner :: string
  gj_rubric :: string
  gj_attempt :: int
  gj_max_attempts :: int
  gj_requested :: string
  gj_started :: "string option"
  gj_finished :: "string option"
  gj_score :: "rat option"
  gj_max_score :: "rat option"
  gj_result :: string
  gj_error_code :: "string option"
  gj_error_message :: "string option"

section \<open>Tables and the store\<close>

record 'r table =
  t_rows :: "'r list"
  t_seq :: int

record store =
  repositories :: "repo_row table"
  assignments :: "assignment_row table"
  schedules :: "schedule_row table"
  runs :: "run_row table"
  jobs :: "job_row table"
  snapshots :: "snapshot_row table"
  grades :: "grade_row table"

definition empty_table :: "'r table" where
  "empty_table = \<lparr>t_rows = [], t_seq = 0\<rparr>"

text \<open>A freshly migrated database.\<close>

definition init_store :: store where
  "init_store = \<lparr>repositories = empty_table, assignments = empty_table, schedules = empty_table,
     runs = empty_table, jobs = empty_table, snapshots = empty_table, grades = empty_table\<rparr>"

text \<open>\<open>INSERT\<close> and \<open>UPDATE ... WHERE id = ?\<close>.\<close>

definition table_insert :: "(int \<Rightarrow> 'r) \<Rightarrow> 'r table \<Rightarrow> 'r table" where
  "table_insert mk t = t\<lparr>t_rows := t_rows t @ [mk (t_seq t + 1)], t_seq := t_seq t + 1\<rparr>"

definition table_update :: "('r \<Rightarrow> int) \<Rightarrow> int \<Rightarrow> ('r \<Rightarrow> 'r) \<Rightarrow> 'r table \<Rightarrow> 'r table" where
  "table_update rid k f t = t\<lparr>t_rows := update_by rid k f (t_rows t)\<rparr>"

text \<open>The contract of a table: ids are positive, given out in increasing order, and bounded by
  the counter.\<close>

definition table_ok :: "('r \<Rightarrow> int) \<Rightarrow> 'r table \<Rightarrow> bool" where
  "table_ok rid t = (sorted_wrt (<) (map rid (t_rows t)) \<and> 0 \<le> t_seq t \<and>
     (\<forall>r\<in>set (t_rows t). 0 < rid r \<and> rid r \<le> t_seq t))"

lemma table_ok_empty [simp]: "table_ok rid empty_table"
  by (simp add: table_ok_def empty_table_def)

lemma table_ok_distinct: "table_ok rid t \<Longrightarrow> distinct (map rid (t_rows t))"
  by (simp add: table_ok_def strict_sorted_iff)

lemma table_ok_insert:
  assumes "table_ok rid t" and "rid (mk (t_seq t + 1)) = t_seq t + 1"
  shows "table_ok rid (table_insert mk t)"
  using assms by (auto simp: table_ok_def table_insert_def sorted_wrt_append intro: le_less_trans)

lemma table_ok_update:
  assumes "table_ok rid t" and "\<And>r. rid r = k \<Longrightarrow> rid (f r) = rid r"
  shows "table_ok rid (table_update rid k f t)"
proof -
  have "map rid (update_by rid k f (t_rows t)) = map rid (t_rows t)"
    using assms(2) by (rule map_update_by)
  moreover have "rid ` set (update_by rid k f (t_rows t)) = rid ` set (t_rows t)"
    using calculation by (metis set_map)
  ultimately show ?thesis
    using assms(1) unfolding table_ok_def table_update_def
    by simp (metis (no_types, lifting) imageE image_eqI)
qed

lemma t_rows_insert [simp]: "t_rows (table_insert mk t) = t_rows t @ [mk (t_seq t + 1)]"
  and t_rows_update [simp]: "t_rows (table_update rid k f t) = update_by rid k f (t_rows t)"
  and t_seq_insert [simp]: "t_seq (table_insert mk t) = t_seq t + 1"
  and t_seq_update [simp]: "t_seq (table_update rid k f t) = t_seq t"
  by (simp_all add: table_insert_def table_update_def)

lemma t_rows_empty [simp]: "t_rows empty_table = []"
  by (simp add: empty_table_def)

lemma table_ok_fresh: "table_ok rid t \<Longrightarrow> t_seq t + 1 \<notin> rid ` set (t_rows t)"
  by (auto simp: table_ok_def)

lemma table_ok_sorted_id:
  assumes "table_ok rid t"
  shows "sort_key rid (filter P (t_rows t)) = filter P (t_rows t)"
proof -
  have "sorted (map rid (t_rows t))"
    using assms by (simp add: table_ok_def strict_sorted_iff)
  then show ?thesis by (intro sort_key_id_if_sorted sorted_filter)
qed

text \<open>Truthiness of a nullable text column in \<open>a or b\<close>.\<close>

definition or_text :: "string option \<Rightarrow> string \<Rightarrow> string" where
  "or_text a b = (case a of None \<Rightarrow> b | Some t \<Rightarrow> if t = [] then b else t)"

text \<open>\<open>utc_iso()\<close> without an argument, for a clock that reads UTC.\<close>

definition now_iso :: "dtime \<Rightarrow> string" where
  "now_iso now = replace_all ''+00:00'' ''Z'' (isoformat_utc now)"

lemma now_iso_utc_iso: "utc_dtime now \<Longrightarrow> utc_iso now None = Inr (now_iso now)"
  by (simp add: utc_iso_def utc_parse_def now_iso_def utc_dtime_def astimezone_utc_self
      [unfolded utc_dtime_def])

lemma utc_iso_not_empty: "utc_iso now v = Inr t \<Longrightarrow> t \<noteq> []"
  by (auto simp: utc_iso_def rbind_Inr_iff normal_form split: option.split_asm)

section \<open>Attempts\<close>

text \<open>
  The interface collection jobs and grade jobs share: a row with a state, an attempt counter and
  a cap, which is claimed, completed or failed. The locale states what the three row updates of
  \<open>state.py\<close> promise, and proves once that the counter stays within the cap, that a
  succeeded row is final, and that the number of claims is what the counter says. Both kinds of
  job are interpretations of it.
\<close>

locale attempt_machine =
  fixes st :: "'r \<Rightarrow> job_state" and att :: "'r \<Rightarrow> int" and cap :: "'r \<Rightarrow> int"
    and claim :: "string \<Rightarrow> 'r \<Rightarrow> 'r res"
    and succeed :: "'out \<Rightarrow> string \<Rightarrow> 'r \<Rightarrow> 'r"
    and fail :: "string \<Rightarrow> string \<Rightarrow> string \<Rightarrow> 'r \<Rightarrow> 'r"
  assumes claim_law: "claim t r = Inr r' \<Longrightarrow> st r \<in> {JobQueued, JobFailed} \<and> att r < cap r \<and>
      st r' = JobRunning \<and> att r' = att r + 1 \<and> cap r' = cap r"
    and claim_total: "st r \<in> {JobQueued, JobFailed} \<Longrightarrow> att r < cap r \<Longrightarrow> \<exists>r'. claim t r = Inr r'"
    and succeed_law: "st (succeed x t r) = JobSucceeded" "att (succeed x t r) = att r"
      "cap (succeed x t r) = cap r"
    and fail_law: "st (fail t c m r) = JobFailed" "att (fail t c m r) = att r"
      "cap (fail t c m r) = cap r"
begin

text \<open>One step of a row; the flag says whether the step was a claim. \<open>same\<close> is an update of
  other columns of a running row.\<close>

inductive attempt_step :: "bool \<Rightarrow> 'r \<Rightarrow> 'r \<Rightarrow> bool" where
  claimed: "claim t r = Inr r' \<Longrightarrow> attempt_step True r r'"
| succeeded: "st r = JobRunning \<Longrightarrow> attempt_step False r (succeed x t r)"
| failed: "st r \<in> {JobQueued, JobRunning, JobFailed} \<Longrightarrow> attempt_step False r (fail t c m r)"
| same: "st r = JobRunning \<Longrightarrow> st r' = JobRunning \<Longrightarrow> att r' = att r \<Longrightarrow> cap r' = cap r \<Longrightarrow>
    attempt_step False r r'"

definition machine_ok :: "'r \<Rightarrow> bool" where
  "machine_ok r = (0 \<le> att r \<and> att r \<le> cap r \<and> 0 < cap r \<and>
     (st r \<in> {JobRunning, JobSucceeded} \<longrightarrow> 0 < att r) \<and> (st r = JobQueued \<longrightarrow> att r = 0) \<and>
     st r \<in> {JobQueued, JobRunning, JobSucceeded, JobFailed})"

lemma step_ok:
  assumes "attempt_step b r r'" and ok: "machine_ok r"
  shows "machine_ok r'"
  using assms(1)
proof cases
  case (claimed t)
  then show ?thesis using claim_law [OF claimed(2)] ok by (simp add: machine_ok_def)
next
  case (succeeded x t)
  then show ?thesis using ok by (simp add: machine_ok_def succeed_law)
next
  case (failed t c m)
  then show ?thesis using ok by (simp add: machine_ok_def fail_law)
next
  case same
  then show ?thesis using ok by (simp add: machine_ok_def)
qed

lemma step_counts: "attempt_step b r r' \<Longrightarrow> att r' = att r + (if b then 1 else 0) \<and> cap r' = cap r"
  by (induction rule: attempt_step.induct) (auto simp: succeed_law fail_law dest!: claim_law)

lemma succeeded_final: "attempt_step b r r' \<Longrightarrow> st r \<noteq> JobSucceeded"
  by (induction rule: attempt_step.induct) (auto dest!: claim_law)

text \<open>A history: the flags of the steps from one row to a later one.\<close>

inductive history :: "bool list \<Rightarrow> 'r \<Rightarrow> 'r \<Rightarrow> bool" where
  start: "history [] r r"
| step: "attempt_step b r r' \<Longrightarrow> history bs r' r'' \<Longrightarrow> history (b # bs) r r''"

lemma history_counts:
  "history bs r r' \<Longrightarrow> att r' = att r + int (length (filter id bs)) \<and> cap r' = cap r"
  by (induction rule: history.induct) (auto dest: step_counts)

lemma history_ok: "history bs r r' \<Longrightarrow> machine_ok r \<Longrightarrow> machine_ok r'"
  by (induction rule: history.induct) (auto dest: step_ok)

lemma claims_bounded:
  assumes "history bs r r'" and "machine_ok r"
  shows "int (length (filter id bs)) \<le> cap r - att r"
  using history_counts [OF assms(1)] history_ok [OF assms] by (simp add: machine_ok_def)

lemma succeeded_stays: "history bs r r' \<Longrightarrow> st r = JobSucceeded \<Longrightarrow> bs = [] \<and> r' = r"
  by (cases rule: history.cases) (auto dest: succeeded_final)

text \<open>An exhausted failed row is stuck: no further claim succeeds.\<close>

lemma exhausted: "att r = cap r \<Longrightarrow> claim t r \<noteq> Inr r'"
  using claim_law by fastforce

end

end
