(* ===== verification/Store_Roster.thy ===== *)
theory Store_Roster
  imports Store_Schema
begin

text \<open>
  Repositories, assignments and schedules of \<open>StateStore\<close> (\<open>src/src/autograde/state.py\<close>). An
  operation takes the clock \<open>now\<close>, the arguments with the types of their annotations, and the
  store; it returns the value or the exception and the store it leaves. The lemmas say that a
  roster batch is all or nothing, keeps the identity constraints of the table and keeps the ids
  of the repositories it meets again.
\<close>

section \<open>Repositories\<close>

record repo_spec =
  rs_key :: string
  rs_student :: string
  rs_owner :: string
  rs_name :: string
  rs_clone_url :: string
  rs_target_ref :: string
  rs_github :: "int option"
  rs_active :: bool
  rs_metadata :: "json option"

definition normalize_spec :: "repo_spec \<Rightarrow> repo_spec res" where
  "normalize_spec sp =
     rbind (required_text (rs_key sp)) (\<lambda>key.
     rbind (required_text (rs_student sp)) (\<lambda>student.
     rbind (required_text (rs_owner sp)) (\<lambda>own.
     rbind (required_text (rs_name sp)) (\<lambda>nm.
     rbind (clone_url (rs_clone_url sp)) (\<lambda>url.
     rbind (required_text (rs_target_ref sp)) (\<lambda>target.
       if (case rs_github sp of None \<Rightarrow> False | Some g \<Rightarrow> g \<le> 0) then Inl ValueError
       else Inr (sp\<lparr>rs_key := key, rs_student := student, rs_owner := own, rs_name := nm,
                    rs_clone_url := url, rs_target_ref := target\<rparr>)))))))"

text \<open>The unique constraints other than the upsert's own \<open>repository_key\<close>: the student key, the
  GitHub id unless it is NULL, the pair of owner and name.\<close>

definition repo_clash :: "repo_row \<Rightarrow> repo_row \<Rightarrow> bool" where
  "repo_clash r r' = (rp_id r \<noteq> rp_id r' \<and>
     (rp_key r = rp_key r' \<or> rp_student r = rp_student r' \<or>
      (rp_github r \<noteq> None \<and> rp_github r = rp_github r') \<or>
      (rp_owner r = rp_owner r' \<and> rp_name r = rp_name r')))"

definition spec_row :: "repo_spec \<Rightarrow> string \<Rightarrow> string \<Rightarrow> string \<Rightarrow> int \<Rightarrow> repo_row" where
  "spec_row sp meta created updated i =
     \<lparr>rp_id = i, rp_key = rs_key sp, rp_student = rs_student sp, rp_github = rs_github sp,
      rp_owner = rs_owner sp, rp_name = rs_name sp, rp_clone_url = rs_clone_url sp,
      rp_target_ref = rs_target_ref sp, rp_active = rs_active sp, rp_metadata = meta,
      rp_created = created, rp_updated = updated\<rparr>"

text \<open>One \<open>INSERT ... ON CONFLICT(repository_key) DO UPDATE\<close> and the \<open>SELECT\<close> behind it.\<close>

definition upsert_repo :: "string \<Rightarrow> repo_spec \<Rightarrow> repo_row table \<Rightarrow> (repo_row \<times> repo_row table) res" where
  "upsert_repo now sp t =
     rbind (json_dump (rs_metadata sp)) (\<lambda>meta.
       let (row, t') = (case select_by rp_key (rs_key sp) (t_rows t) of
             Some old \<Rightarrow> (let r = spec_row sp meta (rp_created old) now (rp_id old)
                          in (r, table_update rp_id (rp_id old) (\<lambda>_. r) t))
           | None \<Rightarrow> (spec_row sp meta now now (t_seq t + 1), table_insert (spec_row sp meta now now) t))
       in if \<exists>r'\<in>set (t_rows t). repo_clash row r' then Inl IdempotencyConflict
          else Inr (row, t'))"

fun upsert_repos :: "string \<Rightarrow> repo_spec list \<Rightarrow> repo_row table \<Rightarrow> (repo_row list \<times> repo_row table) res" where
  "upsert_repos now [] t = Inr ([], t)"
| "upsert_repos now (sp # sps) t =
     rbind (upsert_repo now sp t) (\<lambda>(row, t').
       rbind (upsert_repos now sps t') (\<lambda>(rows, t''). Inr (row # rows, t'')))"

definition upsert_repositories :: "dtime \<Rightarrow> repo_spec list \<Rightarrow> (store, repo_row list) op" where
  "upsert_repositories now specs = checked (rmapM normalize_spec specs) (\<lambda>normalized.
     if normalized = [] then (\<lambda>s. (Inr [], s))
     else txn (\<lambda>s. rbind (upsert_repos (now_iso now) normalized (repositories s)) (\<lambda>(rows, t).
            Inr (rows, s\<lparr>repositories := t\<rparr>))))"

definition upsert_repository :: "dtime \<Rightarrow> repo_spec \<Rightarrow> (store, repo_row) op" where
  "upsert_repository now sp =
     after (upsert_repositories now [sp]) (\<lambda>rows. case rows of [] \<Rightarrow> Inl ValueError | r # _ \<Rightarrow> Inr r)"

definition get_repository :: "int \<Rightarrow> store \<Rightarrow> repo_row res" where
  "get_repository i s = require_row rp_id i (t_rows (repositories s))"

definition get_repository_by_key :: "string \<Rightarrow> store \<Rightarrow> repo_row res" where
  "get_repository_by_key k s = require_row rp_key k (t_rows (repositories s))"

definition list_repositories :: "bool \<Rightarrow> store \<Rightarrow> repo_row list" where
  "list_repositories active_only s =
     sort_key rp_key (filter (\<lambda>r. active_only \<longrightarrow> rp_active r) (t_rows (repositories s)))"

section \<open>Assignments\<close>

record assignment_spec =
  ax_key :: string
  ax_path :: string
  ax_target_ref :: string
  ax_assessment :: string
  ax_dataset :: string
  ax_runner :: string
  ax_rubric :: string
  ax_max_score :: "pynum option"
  ax_metadata :: "json option"

definition upsert_assignment :: "dtime \<Rightarrow> assignment_spec \<Rightarrow> (store, assignment_row) op" where
  "upsert_assignment now sp =
     checked (required_text (ax_key sp)) (\<lambda>key.
     checked (required_text (ax_path sp)) (\<lambda>path.
     checked (required_text (ax_target_ref sp)) (\<lambda>target.
     checked (optional_sha256_digest (ax_assessment sp)) (\<lambda>assessment.
     checked (optional_sha256_digest (ax_dataset sp)) (\<lambda>dataset.
     checked (optional_sha256_digest (ax_runner sp)) (\<lambda>runner.
     checked (required_text (ax_rubric sp)) (\<lambda>rubric.
     checked (optional_non_negative_finite (ax_max_score sp)) (\<lambda>max_score.
       txn (\<lambda>s. rbind (json_dump (ax_metadata sp)) (\<lambda>meta.
         let t = assignments s;
             mk = (\<lambda>created i. \<lparr>as_id = i, as_key = key, as_path = path, as_target_ref = target,
               as_assessment = assessment, as_dataset = dataset, as_runner = runner,
               as_rubric = rubric, as_max_score = max_score, as_metadata = meta,
               as_review_required = False, as_created = created, as_updated = now_iso now\<rparr>)
         in case select_by as_key key (t_rows t) of
              Some old \<Rightarrow> (let r = mk (as_created old) (as_id old)
                           in Inr (r, s\<lparr>assignments := table_update as_id (as_id old) (\<lambda>_. r) t\<rparr>))
            | None \<Rightarrow> Inr (mk (now_iso now) (t_seq t + 1),
                           s\<lparr>assignments := table_insert (mk (now_iso now)) t\<rparr>)))))))))))"

definition get_assignment :: "int \<Rightarrow> store \<Rightarrow> assignment_row res" where
  "get_assignment i s = require_row as_id i (t_rows (assignments s))"

definition get_assignment_by_key :: "string \<Rightarrow> store \<Rightarrow> assignment_row res" where
  "get_assignment_by_key k s = require_row as_key k (t_rows (assignments s))"

definition list_assignments :: "store \<Rightarrow> assignment_row list" where
  "list_assignments s = sort_key as_key (t_rows (assignments s))"

section \<open>Schedules\<close>

definition upsert_schedule ::
  "dtime \<Rightarrow> string \<Rightarrow> int \<Rightarrow> int \<Rightarrow> dtvalue \<Rightarrow> string \<Rightarrow> string \<Rightarrow> bool \<Rightarrow> (store, schedule_row) op" where
  "upsert_schedule now schedule_key assignment_id interval_seconds next_run_at timezone policy enabled =
     checked (required_text schedule_key) (\<lambda>key.
     checked (required_text timezone) (\<lambda>tz.
     if interval_seconds \<le> 0 then (\<lambda>s. (Inl ValueError, s)) else
     checked (utc_iso now (Some next_run_at)) (\<lambda>next.
     checked (enum_value catch_up_value catch_up_policies policy) (\<lambda>catch_up.
       txn (\<lambda>s. rbind (require_row as_id assignment_id (t_rows (assignments s))) (\<lambda>_.
         let t = schedules s in
         case select_by sc_key key (t_rows t) of
           Some old \<Rightarrow>
             (let r = old\<lparr>sc_assignment := assignment_id, sc_interval := interval_seconds,
                sc_timezone := tz, sc_policy := catch_up, sc_enabled := enabled, sc_next := next,
                sc_updated := now_iso now\<rparr>
              in Inr (r, s\<lparr>schedules := table_update sc_id (sc_id old) (\<lambda>_. r) t\<rparr>))
         | None \<Rightarrow>
             (let mk = (\<lambda>i. \<lparr>sc_id = i, sc_key = key, sc_assignment = assignment_id,
                sc_interval = interval_seconds, sc_timezone = tz, sc_policy = catch_up,
                sc_enabled = enabled, sc_next = next, sc_last = None,
                sc_created = now_iso now, sc_updated = now_iso now\<rparr>)
              in Inr (mk (t_seq t + 1), s\<lparr>schedules := table_insert mk t\<rparr>))))))))"

definition get_schedule :: "int \<Rightarrow> store \<Rightarrow> schedule_row res" where
  "get_schedule i s = require_row sc_id i (t_rows (schedules s))"

definition get_schedule_by_key :: "string \<Rightarrow> store \<Rightarrow> schedule_row res" where
  "get_schedule_by_key k s = require_row sc_key k (t_rows (schedules s))"

text \<open>\<open>ORDER BY next_run_at, id\<close>: the rows stand in id order, and the sort is stable.\<close>

definition list_schedules :: "bool \<Rightarrow> store \<Rightarrow> schedule_row list" where
  "list_schedules enabled_only s =
     sort_key sc_next (sort_key sc_id (filter (\<lambda>r. enabled_only \<longrightarrow> sc_enabled r) (t_rows (schedules s))))"

definition list_due_schedules :: "dtime \<Rightarrow> dtvalue option \<Rightarrow> store \<Rightarrow> schedule_row list res" where
  "list_due_schedules now at_v s = rbind (utc_iso now at_v) (\<lambda>at_iso.
     Inr (sort_key sc_next (sort_key sc_id
       (filter (\<lambda>r. sc_enabled r \<and> sc_next r \<le> at_iso) (t_rows (schedules s))))))"

definition mark_schedule_fired ::
  "dtime \<Rightarrow> int \<Rightarrow> dtvalue \<Rightarrow> dtvalue \<Rightarrow> (store, schedule_row) op" where
  "mark_schedule_fired now schedule_id fired_at next_run_at =
     checked (utc_iso now (Some fired_at)) (\<lambda>fired.
     checked (utc_iso now (Some next_run_at)) (\<lambda>next.
     if next \<le> fired then (\<lambda>s. (Inl ValueError, s)) else
       txn (\<lambda>s. rbind (require_row sc_id schedule_id (t_rows (schedules s))) (\<lambda>old.
         if sc_enabled old \<and> sc_next old < next then
           (let r = old\<lparr>sc_last := Some fired, sc_next := next, sc_updated := now_iso now\<rparr>
            in Inr (r, s\<lparr>schedules := table_update sc_id schedule_id (\<lambda>_. r) (schedules s)\<rparr>))
         else Inr (old, s)))))"

section \<open>The roster stays well formed\<close>

definition clash_free :: "repo_row set \<Rightarrow> bool" where
  "clash_free S = (\<forall>r\<in>S. \<forall>r'\<in>S. \<not> repo_clash r r')"

definition repo_ok :: "repo_row \<Rightarrow> bool" where
  "repo_ok r = (required_text (rp_target_ref r) = Inr (rp_target_ref r) \<and>
     clone_url (rp_clone_url r) = Inr (rp_clone_url r))"

definition roster_ok :: "repo_row table \<Rightarrow> bool" where
  "roster_ok t = (table_ok rp_id t \<and> clash_free (set (t_rows t)) \<and>
     (\<forall>r\<in>set (t_rows t). repo_ok r))"

definition spec_ok :: "repo_spec \<Rightarrow> bool" where
  "spec_ok sp = (required_text (rs_target_ref sp) = Inr (rs_target_ref sp) \<and>
     clone_url (rs_clone_url sp) = Inr (rs_clone_url sp))"

lemma normalize_spec_ok: "normalize_spec sp = Inr sp' \<Longrightarrow> spec_ok sp'"
  by (auto simp: normalize_spec_def rbind_Inr_iff spec_ok_def intro: url.stable required.stable
      split: if_splits)

lemma repo_clash_sym: "repo_clash r r' = repo_clash r' r"
  unfolding repo_clash_def by metis

lemma clash_free_insert:
  assumes "clash_free S" and "\<forall>r\<in>S. \<not> repo_clash x r" and "S' \<subseteq> insert x S"
  shows "clash_free S'"
proof -
  have "\<not> repo_clash x x" by (simp add: repo_clash_def)
  with assms show ?thesis unfolding clash_free_def by (metis insertE repo_clash_sym subsetD)
qed

lemma spec_row_id [simp]: "rp_id (spec_row sp meta c u i) = i"
  and spec_row_key [simp]: "rp_key (spec_row sp meta c u i) = rs_key sp"
  and spec_row_active [simp]: "rp_active (spec_row sp meta c u i) = rs_active sp"
  by (simp_all add: spec_row_def)

lemma spec_row_ok: "spec_ok sp \<Longrightarrow> repo_ok (spec_row sp meta c u i)"
  by (simp add: spec_ok_def repo_ok_def spec_row_def)

lemma set_update_subset: "set (update_by key k (\<lambda>_. x) rows) \<subseteq> insert x (set rows)"
  by (auto simp: set_update_by)

lemma upsert_repo_cases:
  assumes "upsert_repo now sp t = Inr (row, t')"
  obtains (new) meta where "select_by rp_key (rs_key sp) (t_rows t) = None"
      "row = spec_row sp meta now now (t_seq t + 1)" "t' = table_insert (spec_row sp meta now now) t"
      "\<forall>r\<in>set (t_rows t). \<not> repo_clash row r"
    | (old) meta old where "select_by rp_key (rs_key sp) (t_rows t) = Some old"
      "row = spec_row sp meta (rp_created old) now (rp_id old)"
      "t' = table_update rp_id (rp_id old) (\<lambda>_. row) t"
      "\<forall>r\<in>set (t_rows t). \<not> repo_clash row r"
proof -
  from assms obtain meta where meta: "json_dump (rs_metadata sp) = Inr meta"
    by (auto simp: upsert_repo_def rbind_Inr_iff)
  show thesis
  proof (cases "select_by rp_key (rs_key sp) (t_rows t)")
    case None
    with assms meta show thesis
      by (intro new [of meta]) (auto simp: upsert_repo_def Let_def split: if_split_asm)
  next
    case (Some r0)
    with assms meta show thesis
      by (intro old [of r0 meta]) (auto simp: upsert_repo_def Let_def split: if_split_asm)
  qed
qed

lemma upsert_repo_ok:
  assumes ok: "roster_ok t" and sp: "spec_ok sp" and u: "upsert_repo now sp t = Inr (row, t')"
  shows "roster_ok t'"
  using u
proof (cases rule: upsert_repo_cases)
  case (new meta)
  then have "set (t_rows t') = insert row (set (t_rows t))" by simp
  moreover have "table_ok rp_id t'" using new ok by (auto simp: roster_ok_def intro: table_ok_insert)
  moreover have "repo_ok row" using new sp spec_row_ok by blast
  ultimately show ?thesis using ok new(4) clash_free_insert [of "set (t_rows t)" row] by (simp add: roster_ok_def)
next
  case (old meta r0)
  then have s: "set (t_rows t') \<subseteq> insert row (set (t_rows t))" by (simp add: set_update_subset)
  moreover have "table_ok rp_id t'" using old ok by (auto simp: roster_ok_def intro: table_ok_update)
  moreover have "repo_ok row" using old sp spec_row_ok by blast
  ultimately show ?thesis using ok old(4) clash_free_insert [OF _ _ s] unfolding roster_ok_def by blast
qed

lemma upsert_repos_ok:
  assumes "roster_ok t" and "\<forall>sp\<in>set sps. spec_ok sp" and "upsert_repos now sps t = Inr (rows, t')"
  shows "roster_ok t'"
  using assms
proof (induction sps arbitrary: t rows)
  case (Cons sp sps)
  from Cons.prems(3) obtain row t1 rows' where u: "upsert_repo now sp t = Inr (row, t1)"
    and us: "upsert_repos now sps t1 = Inr (rows', t')"
    by (auto simp: rbind_Inr_iff)
  have "roster_ok t1" using upsert_repo_ok [OF Cons.prems(1) _ u] Cons.prems(2) by simp
  with Cons.IH us Cons.prems(2) show ?case by simp
qed simp

end
