(* ===== verification/Store_Runs.thy ===== *)
theory Store_Runs
  imports Store_Roster
begin

text \<open>
  Collection runs of \<open>StateStore\<close>: creation under an idempotency key, the transition table of
  \<open>_transition_collection_run\<close>, and completion from the states of the run's jobs. The lemmas give
  the verdict of every completed run and say that a terminal run is never moved again.
\<close>

section \<open>Operations\<close>

definition new_run ::
  "dtime \<Rightarrow> string \<Rightarrow> int \<Rightarrow> int option \<Rightarrow> collection_trigger \<Rightarrow> string \<Rightarrow> int \<Rightarrow> run_row" where
  "new_run now key assignment_id schedule_id trig sched i =
     \<lparr>rn_id = i, rn_key = key, rn_assignment = assignment_id, rn_schedule = schedule_id,
      rn_trigger = trig, rn_scheduled_for = sched, rn_state = RunQueued, rn_created = now_iso now,
      rn_started = None, rn_finished = None, rn_error = None, rn_pinned = False\<rparr>"

text \<open>\<open>INSERT OR IGNORE\<close>, the read back by key and the comparison.\<close>

definition insert_run :: "(int \<Rightarrow> run_row) \<Rightarrow> store \<Rightarrow> (run_row \<times> store) res" where
  "insert_run mk s =
     (let expected = mk 0;
          s' = (if select_by rn_key (rn_key expected) (t_rows (runs s)) = None
                then s\<lparr>runs := table_insert mk (runs s)\<rparr> else s)
      in case select_by rn_key (rn_key expected) (t_rows (runs s')) of
           None \<Rightarrow> Inl TypeErr
         | Some row \<Rightarrow>
             if (rn_assignment row, rn_schedule row, rn_trigger row, rn_scheduled_for row) \<noteq>
                (rn_assignment expected, rn_schedule expected, rn_trigger expected, rn_scheduled_for expected)
             then Inl IdempotencyConflict else Inr (row, s'))"

definition create_collection_run ::
  "dtime \<Rightarrow> string \<Rightarrow> int \<Rightarrow> dtvalue \<Rightarrow> int option \<Rightarrow> string \<Rightarrow> (store, run_row) op" where
  "create_collection_run now run_key assignment_id scheduled_for schedule_id trigger =
     checked (required_text run_key) (\<lambda>key.
     checked (enum_value trigger_value triggers trigger) (\<lambda>trig.
     checked (utc_iso now (Some scheduled_for)) (\<lambda>sched.
       txn (\<lambda>s.
         rbind (require_row as_id assignment_id (t_rows (assignments s))) (\<lambda>_.
         rbind (case schedule_id of None \<Rightarrow> Inr ()
                | Some k \<Rightarrow> rbind (require_row sc_id k (t_rows (schedules s))) (\<lambda>sc.
                    if sc_assignment sc \<noteq> assignment_id then Inl ValueError else Inr ())) (\<lambda>_.
           insert_run (new_run now key assignment_id schedule_id trig sched) s))))))"

definition get_collection_run :: "int \<Rightarrow> store \<Rightarrow> run_row res" where
  "get_collection_run i s = require_row rn_id i (t_rows (runs s))"

definition get_collection_run_by_key :: "string \<Rightarrow> store \<Rightarrow> run_row res" where
  "get_collection_run_by_key k s = require_row rn_key k (t_rows (runs s))"

definition list_collection_runs :: "int option \<Rightarrow> string option \<Rightarrow> store \<Rightarrow> run_row list res" where
  "list_collection_runs assignment_id state s =
     rbind (case state of None \<Rightarrow> Inr None
            | Some v \<Rightarrow> rmap Some (enum_value run_state_value run_states v)) (\<lambda>st.
       Inr (sort_key rn_scheduled_for (sort_key rn_id
         (filter (\<lambda>r. (assignment_id = None \<or> assignment_id = Some (rn_assignment r)) \<and>
                      (st = None \<or> st = Some (rn_state r))) (t_rows (runs s))))))"

fun allowed_run :: "run_state \<Rightarrow> run_state set" where
  "allowed_run RunQueued = {RunRunning, RunSucceeded, RunFailed, RunCancelled}"
| "allowed_run RunRunning = {RunSucceeded, RunPartial, RunFailed, RunCancelled}"
| "allowed_run _ = {}"

definition transition_collection_run ::
  "dtime \<Rightarrow> int \<Rightarrow> run_state \<Rightarrow> dtvalue option \<Rightarrow> string option \<Rightarrow> (store, run_row) op" where
  "transition_collection_run now run_id target at_v error_message =
     checked (utc_iso now at_v) (\<lambda>changed_at.
       txn (\<lambda>s. rbind (require_row rn_id run_id (t_rows (runs s))) (\<lambda>row.
         if rn_state row = target then Inr (row, s)
         else if target \<notin> allowed_run (rn_state row) then Inl InvalidStateTransition
         else
           (let row' = row\<lparr>rn_state := target,
              rn_started := (if target = RunRunning \<and> rn_started row = None
                             then Some changed_at else rn_started row),
              rn_finished := (if terminal_run target then Some changed_at else None),
              rn_error := error_message\<rparr>
            in Inr (row', s\<lparr>runs := table_update rn_id run_id (\<lambda>_. row') (runs s)\<rparr>)))))"

definition start_collection_run :: "dtime \<Rightarrow> int \<Rightarrow> dtvalue option \<Rightarrow> (store, run_row) op" where
  "start_collection_run now run_id at_v = transition_collection_run now run_id RunRunning at_v None"

definition fail_collection_run :: "dtime \<Rightarrow> int \<Rightarrow> string \<Rightarrow> dtvalue option \<Rightarrow> (store, run_row) op" where
  "fail_collection_run now run_id error_message at_v =
     checked (required_text error_message) (\<lambda>msg.
       transition_collection_run now run_id RunFailed at_v (Some msg))"

text \<open>\<open>SELECT state, COUNT(*) ... GROUP BY state\<close>, read with \<open>counts.get(state, 0)\<close>.\<close>

definition count_state :: "job_state \<Rightarrow> job_row list \<Rightarrow> nat" where
  "count_state st rows = length (filter (\<lambda>j. cj_state j = st) rows)"

definition run_jobs :: "int \<Rightarrow> store \<Rightarrow> job_row list" where
  "run_jobs run_id s = filter (\<lambda>j. cj_run j = run_id) (t_rows (jobs s))"

definition complete_collection_run :: "dtime \<Rightarrow> int \<Rightarrow> dtvalue option \<Rightarrow> (store, run_row) op" where
  "complete_collection_run now run_id at_v =
     checked (utc_iso now at_v) (\<lambda>finished_at.
       txn (\<lambda>s. rbind (require_row rn_id run_id (t_rows (runs s))) (\<lambda>run.
         if terminal_run (rn_state run) then Inr (run, s)
         else
           (let js = run_jobs run_id s;
                active = count_state JobQueued js + count_state JobRunning js;
                failed = count_state JobFailed js + count_state JobCancelled js;
                successful = count_state JobSucceeded js + count_state JobSkipped js
            in if active \<noteq> 0 then Inl InvalidStateTransition
               else
                 (let target = (if failed \<noteq> 0 \<and> successful \<noteq> 0 then RunPartial
                                else if failed \<noteq> 0 then RunFailed else RunSucceeded);
                      run' = run\<lparr>rn_state := target, rn_finished := Some finished_at, rn_error := None\<rparr>
                  in Inr (run', s\<lparr>runs := table_update rn_id run_id (\<lambda>_. run') (runs s)\<rparr>))))))"

lemma insert_run_cases:
  assumes "insert_run mk s = Inr (row, s')" and key: "\<And>i. rn_key (mk i) = key"
  obtains (existing) "s' = s" "select_by rn_key key (t_rows (runs s)) = Some row"
      "rn_assignment row = rn_assignment (mk 0)" "rn_schedule row = rn_schedule (mk 0)"
      "rn_trigger row = rn_trigger (mk 0)" "rn_scheduled_for row = rn_scheduled_for (mk 0)"
    | (fresh) "select_by rn_key key (t_rows (runs s)) = None"
      "row = mk (t_seq (runs s) + 1)" "s' = s\<lparr>runs := table_insert mk (runs s)\<rparr>"
proof (cases "select_by rn_key key (t_rows (runs s))")
  case None
  with assms show thesis
    by (intro fresh) (auto simp: insert_run_def Let_def select_by_append split: if_split_asm)
next
  case (Some r)
  with assms show thesis
    by (intro existing) (auto simp: insert_run_def Let_def split: if_split_asm)
qed

section \<open>The verdict of a run\<close>

lemma count_state_zero_iff: "count_state st rows = 0 \<longleftrightarrow> (\<forall>j\<in>set rows. cj_state j \<noteq> st)"
  by (auto simp: count_state_def filter_empty_conv)

definition job_good :: "job_row \<Rightarrow> bool" where
  "job_good j = (cj_state j \<in> {JobSucceeded, JobSkipped})"

definition job_bad :: "job_row \<Rightarrow> bool" where
  "job_bad j = (cj_state j \<in> {JobFailed, JobCancelled})"

text \<open>The specification of the verdict over the final states of a run's jobs.\<close>

definition verdict :: "job_row list \<Rightarrow> run_state" where
  "verdict js =
     (if list_ex job_bad js then (if list_ex job_good js then RunPartial else RunFailed)
      else RunSucceeded)"

lemma job_state_cases:
  "cj_state j \<in> {JobQueued, JobRunning} \<or> job_good j \<or> job_bad j"
  by (cases "cj_state j") (auto simp: job_good_def job_bad_def)

lemma verdict_counts:
  "(if count_state JobFailed js + count_state JobCancelled js \<noteq> 0 \<and>
       count_state JobSucceeded js + count_state JobSkipped js \<noteq> 0 then RunPartial
    else if count_state JobFailed js + count_state JobCancelled js \<noteq> 0 then RunFailed
    else RunSucceeded) = verdict js"
  by (auto simp: verdict_def count_state_zero_iff list_ex_iff job_good_def job_bad_def)

lemma complete_collection_run_cases:
  assumes "fst (complete_collection_run now run_id at_v s) = Inr run'"
  obtains (already) "select_by rn_id run_id (t_rows (runs s)) = Some run'" "terminal_run (rn_state run')"
      "snd (complete_collection_run now run_id at_v s) = s"
    | (completed) run finished_at where "select_by rn_id run_id (t_rows (runs s)) = Some run"
      "\<not> terminal_run (rn_state run)" "utc_iso now at_v = Inr finished_at"
      "\<forall>j\<in>set (run_jobs run_id s). cj_state j \<notin> {JobQueued, JobRunning}"
      "run' = run\<lparr>rn_state := verdict (run_jobs run_id s), rn_finished := Some finished_at, rn_error := None\<rparr>"
      "snd (complete_collection_run now run_id at_v s) =
         s\<lparr>runs := table_update rn_id run_id (\<lambda>_. run') (runs s)\<rparr>"
proof -
  from assms obtain finished_at run where t: "utc_iso now at_v = Inr finished_at"
    and r: "select_by rn_id run_id (t_rows (runs s)) = Some run"
    by (auto simp: complete_collection_run_def op_simps rbind_Inr_iff rmap_Inr_iff require_row_Inr_iff)
  let ?js = "run_jobs run_id s"
  show thesis
  proof (cases "terminal_run (rn_state run)")
    case True
    with assms t r show thesis
      by (intro already) (auto simp: complete_collection_run_def op_simps require_row_def)
  next
    case False
    have z: "count_state JobQueued ?js = 0 \<and> count_state JobRunning ?js = 0"
      using assms t r False
      by (auto simp: complete_collection_run_def op_simps require_row_def Let_def rbind_Inr_iff rmap_Inr_iff
          split: if_split_asm)
    have q: "\<forall>j\<in>set ?js. cj_state j \<notin> {JobQueued, JobRunning}"
      using z by (auto simp: count_state_zero_iff)
    have e: "complete_collection_run now run_id at_v s =
        (let v = run\<lparr>rn_state := verdict ?js, rn_finished := Some finished_at, rn_error := None\<rparr>
         in (Inr v, s\<lparr>runs := table_update rn_id run_id (\<lambda>_. v) (runs s)\<rparr>))"
      using t r False z verdict_counts [of ?js]
      by (simp add: complete_collection_run_def require_row_def txn_def Let_def)
    show thesis
      using assms by (intro completed [OF r False t q]) (simp_all add: e Let_def)
  qed
qed

end
