(* ===== verification/Store_Jobs.thy ===== *)
theory Store_Jobs
  imports Store_Runs
begin

text \<open>
  Collection jobs of \<open>StateStore\<close>: pinning the active roster into the jobs of a run, adding one
  job, and the attempt life cycle (claim, record the fetched commit, complete, fail). A job
  carries a copy of everything a resumed collection needs (clone URL, path, cache key, grading
  inputs); \<open>job_pinned\<close> is the contract of these columns, under which reading the row back
  never fails.
\<close>

section \<open>The job as the service sees it\<close>

record collection_job =
  co_id :: int
  co_key :: string
  co_run :: int
  co_repo :: int
  co_target_ref :: string
  co_clone_url :: string
  co_path :: string
  co_cache_key :: string
  co_assessment :: string
  co_dataset :: string
  co_runner :: string
  co_rubric :: string
  co_max_score :: "rat option"
  co_pinned :: bool
  co_state :: job_state
  co_attempt :: int
  co_max_attempts :: int
  co_requested :: string
  co_started :: "string option"
  co_finished :: "string option"
  co_old_sha :: "string option"
  co_new_sha :: "string option"
  co_force :: bool
  co_error_code :: "string option"
  co_error_message :: "string option"

text \<open>\<open>_collection_job\<close>: the row mapping refuses a row whose pinned columns are missing.\<close>

definition collection_job :: "job_row \<Rightarrow> collection_job res" where
  "collection_job r =
     rbind (required_column (cj_clone_url r)) (\<lambda>url.
     rbind (required_column (cj_path r)) (\<lambda>path.
     rbind (required_column (cj_cache_key r)) (\<lambda>cache_key.
     rbind (required_column (cj_rubric r)) (\<lambda>rubric.
       Inr \<lparr>co_id = cj_id r, co_key = cj_key r, co_run = cj_run r, co_repo = cj_repo r,
         co_target_ref = cj_target_ref r, co_clone_url = url, co_path = path,
         co_cache_key = cache_key, co_assessment = or_text (cj_assessment r) [],
         co_dataset = or_text (cj_dataset r) [], co_runner = or_text (cj_runner r) [],
         co_rubric = rubric, co_max_score = cj_max_score r, co_pinned = cj_pinned r,
         co_state = cj_state r, co_attempt = cj_attempt r, co_max_attempts = cj_max_attempts r,
         co_requested = cj_requested r, co_started = cj_started r, co_finished = cj_finished r,
         co_old_sha = cj_old_sha r, co_new_sha = cj_new_sha r, co_force = cj_force r,
         co_error_code = cj_error_code r, co_error_message = cj_error_message r\<rparr>))))"

section \<open>Pinning\<close>

text \<open>The grading inputs copied from the assignment row, validated again.\<close>

record assignment_pins =
  pn_path :: string
  pn_assessment :: string
  pn_dataset :: string
  pn_runner :: string
  pn_rubric :: string
  pn_max_score :: "rat option"

definition pin_assignment :: "assignment_row \<Rightarrow> assignment_pins res" where
  "pin_assignment a =
     rbind (required_text (as_path a)) (\<lambda>path.
     rbind (optional_sha256_digest (or_text (Some (as_assessment a)) [])) (\<lambda>assessment.
     rbind (optional_sha256_digest (or_text (Some (as_dataset a)) [])) (\<lambda>dataset.
     rbind (optional_sha256_digest (or_text (Some (as_runner a)) [])) (\<lambda>runner.
     rbind (required_text (as_rubric a)) (\<lambda>rubric.
       Inr \<lparr>pn_path = path, pn_assessment = assessment, pn_dataset = dataset, pn_runner = runner,
            pn_rubric = rubric, pn_max_score = as_max_score a\<rparr>)))))"

definition cache_key :: "repo_row \<Rightarrow> string" where
  "cache_key r = (case rp_github r of
      Some g \<Rightarrow> ''github-'' @ show_int g
    | None \<Rightarrow> ''repository-'' @ show_int (rp_id r))"

definition new_job ::
  "string \<Rightarrow> int \<Rightarrow> int \<Rightarrow> string \<Rightarrow> string \<Rightarrow> string \<Rightarrow> assignment_pins \<Rightarrow> int \<Rightarrow> string \<Rightarrow> int \<Rightarrow> job_row" where
  "new_job key run_id repository_id target url ck pins max_attempts requested i =
     \<lparr>cj_id = i, cj_key = key, cj_run = run_id, cj_repo = repository_id, cj_target_ref = target,
      cj_state = JobQueued, cj_attempt = 0, cj_max_attempts = max_attempts,
      cj_requested = requested, cj_started = None, cj_finished = None, cj_old_sha = None,
      cj_new_sha = None, cj_force = False, cj_error_code = None, cj_error_message = None,
      cj_clone_url = Some url, cj_path = Some (pn_path pins), cj_cache_key = Some ck,
      cj_assessment = Some (pn_assessment pins), cj_dataset = Some (pn_dataset pins),
      cj_runner = Some (pn_runner pins), cj_rubric = Some (pn_rubric pins),
      cj_max_score = pn_max_score pins, cj_pinned = True\<rparr>"

text \<open>The unique constraints a new row must meet: \<open>job_key\<close>, and one job per run and repository.\<close>

definition job_clash :: "string \<Rightarrow> int \<Rightarrow> int \<Rightarrow> job_row table \<Rightarrow> bool" where
  "job_clash key run_id repository_id t =
     (\<exists>j\<in>set (t_rows t). cj_key j = key \<or> (cj_run j = run_id \<and> cj_repo j = repository_id))"

definition pin_key :: "int \<Rightarrow> int \<Rightarrow> string" where
  "pin_key run_id repository_id =
     ''collection:'' @ show_int run_id @ '':repository:'' @ show_int repository_id"

text \<open>The loop over the active repositories: validate, then insert.\<close>

fun pin_repositories ::
  "int \<Rightarrow> string \<Rightarrow> assignment_pins \<Rightarrow> int \<Rightarrow> string \<Rightarrow> repo_row list \<Rightarrow> job_row table \<Rightarrow> job_row table res" where
  "pin_repositories run_id assignment_target pins max_attempts requested [] t = Inr t"
| "pin_repositories run_id assignment_target pins max_attempts requested (r # rs) t =
     rbind (if assignment_target = ''@repository'' then required_text (rp_target_ref r)
            else Inr assignment_target) (\<lambda>target.
     rbind (clone_url (rp_clone_url r)) (\<lambda>url.
       if job_clash (pin_key run_id (rp_id r)) run_id (rp_id r) t then Inl IdempotencyConflict
       else pin_repositories run_id assignment_target pins max_attempts requested rs
              (table_insert (new_job (pin_key run_id (rp_id r)) run_id (rp_id r) target url
                 (cache_key r) pins max_attempts requested) t)))"

definition pin_collection_jobs_for_active_repositories ::
  "int \<Rightarrow> int \<Rightarrow> (store, collection_job list) op" where
  "pin_collection_jobs_for_active_repositories run_id max_attempts =
     (if max_attempts \<le> 0 then (\<lambda>s. (Inl ValueError, s)) else
      after (txn (\<lambda>s.
        rbind (require_row rn_id run_id (t_rows (runs s))) (\<lambda>run.
        if terminal_run (rn_state run) then Inl InvalidStateTransition
        else if rn_pinned run then
          (if run_jobs run_id s = [] then Inl StateStoreError else Inr (run_jobs run_id s, s))
        else if run_jobs run_id s \<noteq> [] then Inl IdempotencyConflict
        else
          rbind (require_row as_id (rn_assignment run) (t_rows (assignments s))) (\<lambda>a.
          if as_review_required a then Inl StateStoreError
          else if list_repositories True s = [] then Inr ([], s)
          else
            rbind (required_text (as_target_ref a)) (\<lambda>assignment_target.
            rbind (pin_assignment a) (\<lambda>pins.
            rbind (pin_repositories run_id assignment_target pins max_attempts (rn_scheduled_for run)
                     (list_repositories True s) (jobs s)) (\<lambda>t.
            let s' = s\<lparr>jobs := t,
                       runs := table_update rn_id run_id
                         (\<lambda>r. if rn_pinned r then r else r\<lparr>rn_pinned := True\<rparr>) (runs s)\<rparr>
            in Inr (run_jobs run_id s', s')))))))) (rmapM collection_job))"

text \<open>\<open>INSERT OR IGNORE\<close>, the read back by key, and the comparison of the inputs.\<close>

definition same_job :: "job_row \<Rightarrow> job_row \<Rightarrow> bool" where
  "same_job a b =
     ((cj_run a, cj_repo a, cj_target_ref a, cj_clone_url a, cj_path a, cj_cache_key a,
       cj_assessment a, cj_dataset a, cj_runner a, cj_rubric a, cj_max_score a, cj_pinned a,
       cj_max_attempts a) =
      (cj_run b, cj_repo b, cj_target_ref b, cj_clone_url b, cj_path b, cj_cache_key b,
       cj_assessment b, cj_dataset b, cj_runner b, cj_rubric b, cj_max_score b, cj_pinned b,
       cj_max_attempts b))"

definition insert_job :: "(int \<Rightarrow> job_row) \<Rightarrow> store \<Rightarrow> (job_row \<times> store) res" where
  "insert_job mk s =
     (let expected = mk 0;
          s' = (if job_clash (cj_key expected) (cj_run expected) (cj_repo expected) (jobs s) then s
                else s\<lparr>jobs := table_insert mk (jobs s)\<rparr>)
      in case select_by cj_key (cj_key expected) (t_rows (jobs s')) of
           None \<Rightarrow> Inl IdempotencyConflict
         | Some row \<Rightarrow> if \<not> same_job row expected then Inl IdempotencyConflict else Inr (row, s'))"

definition ensure_collection_job ::
  "dtime \<Rightarrow> string \<Rightarrow> int \<Rightarrow> int \<Rightarrow> string \<Rightarrow> int \<Rightarrow> dtvalue option \<Rightarrow> (store, collection_job) op" where
  "ensure_collection_job now job_key run_id repository_id target_ref max_attempts requested_at =
     checked (required_text job_key) (\<lambda>key.
     checked (required_text target_ref) (\<lambda>target.
     checked (if max_attempts \<le> 0 then Inl ValueError else Inr ()) (\<lambda>_.
     checked (utc_iso now requested_at) (\<lambda>requested.
     after (txn (\<lambda>s.
       rbind (require_row rn_id run_id (t_rows (runs s))) (\<lambda>run.
       rbind (require_row rp_id repository_id (t_rows (repositories s))) (\<lambda>repo.
       rbind (require_row as_id (rn_assignment run) (t_rows (assignments s))) (\<lambda>a.
       if as_review_required a then Inl StateStoreError else
       rbind (clone_url (rp_clone_url repo)) (\<lambda>url.
       rbind (pin_assignment a) (\<lambda>pins.
       let existing = select_by cj_key key (t_rows (jobs s)) in
       if existing = None \<and> rn_pinned run then Inl InvalidStateTransition
       else if existing = None \<and> terminal_run (rn_state run) then Inl InvalidStateTransition
       else insert_job (new_job key run_id repository_id target url (cache_key repo) pins
              max_attempts requested) s)))))))
       collection_job))))"

section \<open>Reading jobs\<close>

definition get_collection_job :: "int \<Rightarrow> store \<Rightarrow> collection_job res" where
  "get_collection_job i s = rbind (require_row cj_id i (t_rows (jobs s))) collection_job"

definition get_collection_job_by_key :: "string \<Rightarrow> store \<Rightarrow> collection_job res" where
  "get_collection_job_by_key k s = rbind (require_row cj_key k (t_rows (jobs s))) collection_job"

definition list_collection_jobs :: "int \<Rightarrow> string option \<Rightarrow> store \<Rightarrow> collection_job list res" where
  "list_collection_jobs run_id state s =
     rbind (case state of None \<Rightarrow> Inr None
            | Some v \<Rightarrow> rmap Some (enum_value job_state_value job_states v)) (\<lambda>st.
       rmapM collection_job (sort_key cj_id
         (filter (\<lambda>j. st = None \<or> st = Some (cj_state j)) (run_jobs run_id s))))"

section \<open>The attempt life cycle\<close>

text \<open>The rows the \<open>UPDATE\<close> statements write, and the guards in front of them.\<close>

definition claim_job :: "string \<Rightarrow> job_row \<Rightarrow> job_row res" where
  "claim_job started_at r =
     (if cj_state r \<notin> {JobQueued, JobFailed} then Inl InvalidStateTransition
      else if cj_attempt r \<ge> cj_max_attempts r then Inl InvalidStateTransition
      else Inr (r\<lparr>cj_state := JobRunning, cj_attempt := cj_attempt r + 1,
        cj_started := Some started_at, cj_finished := None, cj_error_code := None,
        cj_error_message := None\<rparr>))"

definition write_job :: "job_row \<Rightarrow> store \<Rightarrow> store" where
  "write_job r s = s\<lparr>jobs := table_update cj_id (cj_id r) (\<lambda>_. r) (jobs s)\<rparr>"

definition claim_collection_job :: "dtime \<Rightarrow> int \<Rightarrow> dtvalue option \<Rightarrow> (store, collection_job) op" where
  "claim_collection_job now job_id at_v =
     checked (utc_iso now at_v) (\<lambda>started_at.
     after (txn (\<lambda>s.
       rbind (require_row cj_id job_id (t_rows (jobs s))) (\<lambda>row.
       rbind (require_row rn_id (cj_run row) (t_rows (runs s))) (\<lambda>run.
       if terminal_run (rn_state run) then Inl InvalidStateTransition
       else if cj_state row = JobRunning then Inr (row, s)
       else rbind (claim_job started_at row) (\<lambda>row'. Inr (row', write_job row' s)))))) collection_job)"

text \<open>\<open>git_oid(old_sha) if old_sha else None\<close>.\<close>

definition optional_oid :: "string option \<Rightarrow> string option res" where
  "optional_oid sha = (case sha of None \<Rightarrow> Inr None
     | Some v \<Rightarrow> if v = [] then Inr None else rmap Some (git_oid v))"

definition record_collection_fetch ::
  "int \<Rightarrow> string \<Rightarrow> string option \<Rightarrow> bool \<Rightarrow> (store, collection_job) op" where
  "record_collection_fetch job_id new_sha old_sha force =
     checked (git_oid new_sha) (\<lambda>new.
     checked (optional_oid old_sha) (\<lambda>old.
     after (txn (\<lambda>s.
       rbind (require_row cj_id job_id (t_rows (jobs s))) (\<lambda>row.
       if cj_state row \<notin> {JobRunning, JobSucceeded} then Inl InvalidStateTransition
       else if cj_new_sha row \<noteq> None then
         (if (cj_old_sha row, cj_new_sha row, cj_force row) \<noteq> (old, Some new, force)
          then Inl IdempotencyConflict else Inr (row, s))
       else if cj_state row = JobSucceeded then Inl InvalidStateTransition
       else (let row' = row\<lparr>cj_old_sha := old, cj_new_sha := Some new, cj_force := force\<rparr>
             in Inr (row', write_job row' s))))) collection_job))"

definition succeed_job :: "string \<Rightarrow> string option \<Rightarrow> bool \<Rightarrow> string \<Rightarrow> job_row \<Rightarrow> job_row" where
  "succeed_job new old force finished_at r =
     r\<lparr>cj_state := JobSucceeded, cj_old_sha := old, cj_new_sha := Some new, cj_force := force,
       cj_finished := Some finished_at, cj_error_code := None, cj_error_message := None\<rparr>"

definition complete_collection_job_in_connection ::
  "int \<Rightarrow> string \<Rightarrow> string option \<Rightarrow> bool \<Rightarrow> string \<Rightarrow> store \<Rightarrow> (job_row \<times> store) res" where
  "complete_collection_job_in_connection job_id new old force finished_at s =
     rbind (require_row cj_id job_id (t_rows (jobs s))) (\<lambda>row.
       if cj_state row = JobSucceeded then
         (if (cj_new_sha row, cj_old_sha row, cj_force row) \<noteq> (Some new, old, force)
          then Inl IdempotencyConflict else Inr (row, s))
       else if cj_state row \<noteq> JobRunning then Inl InvalidStateTransition
       else (let row' = succeed_job new old force finished_at row in Inr (row', write_job row' s)))"

definition complete_collection_job ::
  "dtime \<Rightarrow> int \<Rightarrow> string \<Rightarrow> string option \<Rightarrow> bool \<Rightarrow> dtvalue option \<Rightarrow> (store, collection_job) op" where
  "complete_collection_job now job_id new_sha old_sha force at_v =
     checked (git_oid new_sha) (\<lambda>new.
     checked (optional_oid old_sha) (\<lambda>old.
     checked (utc_iso now at_v) (\<lambda>finished_at.
       after (txn (complete_collection_job_in_connection job_id new old force finished_at))
         collection_job)))"

definition fail_job :: "string \<Rightarrow> string \<Rightarrow> string \<Rightarrow> job_row \<Rightarrow> job_row" where
  "fail_job finished_at code msg r =
     r\<lparr>cj_state := JobFailed, cj_finished := Some finished_at, cj_error_code := Some code,
       cj_error_message := Some msg\<rparr>"

definition fail_collection_job ::
  "dtime \<Rightarrow> int \<Rightarrow> string \<Rightarrow> string \<Rightarrow> dtvalue option \<Rightarrow> (store, collection_job) op" where
  "fail_collection_job now job_id error_code error_message at_v =
     checked (required_text error_code) (\<lambda>code.
     checked (required_text error_message) (\<lambda>msg.
     after (txn (\<lambda>s.
       rbind (require_row cj_id job_id (t_rows (jobs s))) (\<lambda>row.
       if cj_state row \<notin> {JobQueued, JobRunning, JobFailed} then Inl InvalidStateTransition
       else rbind (utc_iso now at_v) (\<lambda>finished_at.
         let row' = fail_job finished_at code msg row in Inr (row', write_job row' s))))) collection_job))"

section \<open>Job rows\<close>

lemma insert_job_cases:
  assumes "insert_job mk s = Inr (row, s')" and key: "\<And>i. cj_key (mk i) = key"
  obtains (existing) "s' = s" "select_by cj_key key (t_rows (jobs s)) = Some row" "same_job row (mk 0)"
    | (fresh) "select_by cj_key key (t_rows (jobs s)) = None"
      "\<not> job_clash key (cj_run (mk 0)) (cj_repo (mk 0)) (jobs s)"
      "row = mk (t_seq (jobs s) + 1)" "s' = s\<lparr>jobs := table_insert mk (jobs s)\<rparr>"
proof (cases "job_clash key (cj_run (mk 0)) (cj_repo (mk 0)) (jobs s)")
  case True
  with assms show thesis
    by (intro existing) (auto simp: insert_job_def Let_def split: option.splits if_split_asm)
next
  case False
  then have n: "select_by cj_key key (t_rows (jobs s)) = None"
    by (auto simp: job_clash_def select_by_None_iff)
  with False assms show thesis
    by (intro fresh) (auto simp: insert_job_def Let_def select_by_append split: if_split_asm)
qed

text \<open>The attempt life cycle of a collection job is an attempt machine.\<close>

interpretation collecting: attempt_machine cj_state cj_attempt cj_max_attempts claim_job
  "\<lambda>(new, old, force) t. succeed_job new old force t" fail_job
  by unfold_locales
    (auto simp: claim_job_def succeed_job_def fail_job_def split: if_split_asm prod.splits)

text \<open>The columns that are written once, when the row is made.\<close>

definition job_pins where
  "job_pins r = (cj_id r, cj_key r, cj_run r, cj_repo r, cj_target_ref r, cj_clone_url r,
     cj_path r, cj_cache_key r, (cj_assessment r, cj_dataset r, cj_runner r, cj_rubric r,
     cj_max_score r, cj_pinned r, cj_max_attempts r, cj_requested r))"

text \<open>Every way an operation changes an existing row.\<close>

inductive job_step :: "job_row \<Rightarrow> job_row \<Rightarrow> bool" where
  claim: "claim_job t r = Inr r' \<Longrightarrow> job_step r r'"
| fetch: "cj_state r = JobRunning \<Longrightarrow> git_oid new = Inr new \<Longrightarrow> optional_oid old = Inr old \<Longrightarrow>
    cj_new_sha r = None \<Longrightarrow>
    job_step r (r\<lparr>cj_old_sha := old, cj_new_sha := Some new, cj_force := force\<rparr>)"
| complete: "cj_state r = JobRunning \<Longrightarrow> git_oid new = Inr new \<Longrightarrow> optional_oid old = Inr old \<Longrightarrow>
    t \<noteq> [] \<Longrightarrow> job_step r (succeed_job new old force t r)"
| fail: "cj_state r \<in> {JobQueued, JobRunning, JobFailed} \<Longrightarrow> job_step r (fail_job t c m r)"

inductive_cases job_stepE: "job_step r r'"

lemma job_step_machine: "job_step r r' \<Longrightarrow> \<exists>b. collecting.attempt_step b r r'"
proof (induction rule: job_step.induct)
  case (claim t r r')
  then show ?case using collecting.claimed by blast
next
  case (fetch r new old force)
  then show ?case by (intro exI [of _ False] collecting.same) auto
next
  case (complete r new old t force)
  then show ?case using collecting.succeeded [of r "(new, old, force)" t] by auto
next
  case (fail r t c m)
  then show ?case using collecting.failed by blast
qed

lemma claim_job_Inr_iff: "claim_job t r = Inr r' \<longleftrightarrow>
    cj_state r \<in> {JobQueued, JobFailed} \<and> cj_attempt r < cj_max_attempts r \<and>
    r' = r\<lparr>cj_state := JobRunning, cj_attempt := cj_attempt r + 1, cj_started := Some t,
           cj_finished := None, cj_error_code := None, cj_error_message := None\<rparr>"
  by (auto simp: claim_job_def)

lemma job_step_pins: "job_step r r' \<Longrightarrow> job_pins r' = job_pins r"
  by (induction rule: job_step.induct)
    (auto simp: job_pins_def claim_job_Inr_iff succeed_job_def fail_job_def)

lemma job_step_final: "job_step r r' \<Longrightarrow> cj_state r \<in> {JobQueued, JobRunning, JobFailed}"
  by (induction rule: job_step.induct) (auto simp: claim_job_Inr_iff)

lemma git_oid_not_Nil: "git_oid v = Inr w \<Longrightarrow> w \<noteq> []"
  by (drule git_oid_iff [THEN iffD1]) auto

lemma optional_oid_stable: "optional_oid v = Inr w \<Longrightarrow> optional_oid w = Inr w"
  by (auto simp: optional_oid_def rmap_Inr_iff dest: oid.stable git_oid_not_Nil
      split: option.splits if_split_asm)

text \<open>The contract of a row: the attempt machine, the pinned columns, and a commit and a finishing
  time once the job has succeeded.\<close>

definition text_pinned :: "string option \<Rightarrow> bool" where
  "text_pinned v = (case v of None \<Rightarrow> False | Some t \<Rightarrow> required_text t = Inr t)"

definition digest_pinned :: "string option \<Rightarrow> bool" where
  "digest_pinned v = (case v of None \<Rightarrow> False | Some t \<Rightarrow> optional_sha256_digest t = Inr t)"

definition pins_ok :: "job_row \<Rightarrow> bool" where
  "pins_ok r = (text_pinned (cj_clone_url r) \<and> text_pinned (cj_path r) \<and>
     text_pinned (cj_cache_key r) \<and> text_pinned (cj_rubric r) \<and> digest_pinned (cj_assessment r) \<and>
     digest_pinned (cj_dataset r) \<and> digest_pinned (cj_runner r) \<and> cj_pinned r)"

definition sha_ok :: "job_row \<Rightarrow> bool" where
  "sha_ok r = ((\<forall>v. cj_new_sha r = Some v \<longrightarrow> git_oid v = Inr v) \<and>
     (cj_state r = JobSucceeded \<longrightarrow> cj_new_sha r \<noteq> None \<and> (\<exists>t. cj_finished r = Some t \<and> t \<noteq> [])) \<and>
     (cj_state r = JobQueued \<longrightarrow> cj_new_sha r = None))"

definition job_ok :: "job_row \<Rightarrow> bool" where
  "job_ok r = (collecting.machine_ok r \<and> pins_ok r \<and> sha_ok r)"

lemma job_step_ok:
  assumes "job_step r r'" and ok: "job_ok r"
  shows "job_ok r'"
proof -
  have "collecting.machine_ok r'"
    using job_step_machine [OF assms(1)] ok collecting.step_ok by (auto simp: job_ok_def)
  moreover have "pins_ok r'"
    using job_step_pins [OF assms(1)] ok by (auto simp: job_ok_def pins_ok_def job_pins_def)
  moreover have "sha_ok r'"
    using assms(1) ok
    by (induction rule: job_step.induct)
      (auto simp: job_ok_def sha_ok_def claim_job_Inr_iff succeed_job_def fail_job_def)
  ultimately show ?thesis by (simp add: job_ok_def)
qed

lemma collection_job_total: "pins_ok r \<Longrightarrow> \<exists>v. collection_job r = Inr v"
  by (auto simp: pins_ok_def text_pinned_def collection_job_def required_column_def split: option.splits)

lemma collection_job_fields:
  "collection_job r = Inr v \<Longrightarrow> co_id v = cj_id r \<and> co_key v = cj_key r \<and> co_run v = cj_run r \<and>
     co_repo v = cj_repo r \<and> co_state v = cj_state r \<and> co_new_sha v = cj_new_sha r \<and>
     co_old_sha v = cj_old_sha r \<and> co_force v = cj_force r \<and> co_attempt v = cj_attempt r \<and>
     co_target_ref v = cj_target_ref r \<and> co_started v = cj_started r"
  by (auto simp: collection_job_def rbind_Inr_iff)

lemma collection_job_path:
  "collection_job r = Inr v \<Longrightarrow> text_pinned (cj_path r) \<Longrightarrow> cj_path r = Some (co_path v)"
  by (auto simp: collection_job_def rbind_Inr_iff text_pinned_def required_column_def split: option.splits)

end
