(* ===== verification/Store_Snapshots.thy ===== *)
theory Store_Snapshots
  imports Store_Jobs
begin

text \<open>
  Submission snapshots of \<open>StateStore\<close>: the insert shared by both entry points, the snapshot of
  an already completed job, and the operation that completes a job and records its snapshot in
  one transaction. The lemma \<open>create_snapshot_cases\<close> says exactly what the shared insert does.
\<close>

text \<open>
  The foreign keys of the new row (run, repository, assignment) are those of the job and its
  run; rows are never deleted, so they hold whenever they held when the job was made.
\<close>

definition snapshot_clash :: "string \<Rightarrow> int \<Rightarrow> snapshot_row table \<Rightarrow> bool" where
  "snapshot_clash key job_id t = (\<exists>r\<in>set (t_rows t). ss_key r = key \<or> ss_job r = job_id)"

definition same_snapshot :: "snapshot_row \<Rightarrow> snapshot_row \<Rightarrow> bool" where
  "same_snapshot a b =
     ((ss_job a, ss_run a, ss_repo a, ss_assignment a, ss_commit a, ss_path a, ss_digest a,
       ss_source_path a, ss_from a, ss_to a, ss_late a) =
      (ss_job b, ss_run b, ss_repo b, ss_assignment b, ss_commit b, ss_path b, ss_digest b,
       ss_source_path b, ss_from b, ss_to b, ss_late b))"

definition new_snapshot ::
  "dtime \<Rightarrow> string \<Rightarrow> job_row \<Rightarrow> run_row \<Rightarrow> string \<Rightarrow> string \<Rightarrow> string \<Rightarrow> string option \<Rightarrow> string \<Rightarrow>
   string \<Rightarrow> late_status \<Rightarrow> int \<Rightarrow> snapshot_row" where
  "new_snapshot now key job run commit path digest source_path from_iso to_iso late i =
     \<lparr>ss_id = i, ss_key = key, ss_job = cj_id job, ss_run = cj_run job, ss_repo = cj_repo job,
      ss_assignment = rn_assignment run, ss_commit = commit, ss_path = path, ss_digest = digest,
      ss_source_path = source_path, ss_from = from_iso, ss_to = to_iso, ss_late = late,
      ss_created = now_iso now\<rparr>"

text \<open>\<open>INSERT OR IGNORE\<close>, the read back by key and the comparison of every column but the key
  and the creation time.\<close>

definition insert_snapshot :: "(int \<Rightarrow> snapshot_row) \<Rightarrow> store \<Rightarrow> (snapshot_row \<times> store) res" where
  "insert_snapshot mk s =
     (let expected = mk 0;
          s' = (if snapshot_clash (ss_key expected) (ss_job expected) (snapshots s) then s
                else s\<lparr>snapshots := table_insert mk (snapshots s)\<rparr>)
      in case select_by ss_key (ss_key expected) (t_rows (snapshots s')) of
           None \<Rightarrow> Inl IdempotencyConflict
         | Some row \<Rightarrow> if \<not> same_snapshot row expected then Inl IdempotencyConflict
                       else Inr (row, s'))"

definition create_snapshot_in_connection ::
  "dtime \<Rightarrow> string \<Rightarrow> int \<Rightarrow> string \<Rightarrow> string \<Rightarrow> string \<Rightarrow> string option \<Rightarrow> dtvalue option \<Rightarrow>
   dtvalue option \<Rightarrow> late_status \<Rightarrow> store \<Rightarrow> (snapshot_row \<times> store) res" where
  "create_snapshot_in_connection now key job_id commit path source_digest source_path
     observed_from observed_to late s =
     rbind (optional_sha256_hex source_digest) (\<lambda>digest.
     rbind (require_row cj_id job_id (t_rows (jobs s))) (\<lambda>job.
     if cj_state job \<noteq> JobSucceeded then Inl InvalidStateTransition
     else if cj_new_sha job \<noteq> Some commit then Inl ValueError
     else if cj_path job \<noteq> Some path then
       (if snapshot_clash key job_id (snapshots s) then Inl IdempotencyConflict else Inl ValueError)
     else
       rbind (require_row rn_id (cj_run job) (t_rows (runs s))) (\<lambda>run.
       let from_value = (case observed_from of Some v \<Rightarrow> v
             | None \<Rightarrow> DtText (or_text (cj_started job) (cj_requested job)));
           to_value = (case observed_to of Some v \<Rightarrow> v
             | None \<Rightarrow> DtText (or_text (cj_finished job) (now_iso now)))
       in
       rbind (utc_iso now (Some from_value)) (\<lambda>from_iso.
       rbind (utc_iso now (Some to_value)) (\<lambda>to_iso.
       if to_iso < from_iso then Inl ValueError
       else insert_snapshot (new_snapshot now key job run commit path digest source_path
              from_iso to_iso late) s)))))"

definition create_submission_snapshot ::
  "dtime \<Rightarrow> string \<Rightarrow> int \<Rightarrow> string \<Rightarrow> string \<Rightarrow> string \<Rightarrow> string option \<Rightarrow> dtvalue option \<Rightarrow>
   dtvalue option \<Rightarrow> string \<Rightarrow> (store, snapshot_row) op" where
  "create_submission_snapshot now snapshot_key job_id commit_sha assignment_path source_digest
     source_path observed_from observed_to late =
     checked (required_text snapshot_key) (\<lambda>key.
     checked (git_oid commit_sha) (\<lambda>commit.
     checked (required_text assignment_path) (\<lambda>path.
     checked (enum_value late_value late_statuses late) (\<lambda>late_v.
       txn (create_snapshot_in_connection now key job_id commit path source_digest source_path
              observed_from observed_to late_v)))))"

definition complete_collection_with_snapshot ::
  "dtime \<Rightarrow> int \<Rightarrow> string \<Rightarrow> string \<Rightarrow> string \<Rightarrow> string option \<Rightarrow> bool \<Rightarrow> string \<Rightarrow> string option \<Rightarrow>
   dtvalue option \<Rightarrow> dtvalue option \<Rightarrow> string \<Rightarrow> dtvalue option \<Rightarrow>
   (store, collection_job \<times> snapshot_row) op" where
  "complete_collection_with_snapshot now job_id new_sha snapshot_key assignment_path old_sha force
     source_digest source_path observed_from observed_to late at_v =
     checked (git_oid new_sha) (\<lambda>new.
     checked (optional_oid old_sha) (\<lambda>old.
     checked (required_text snapshot_key) (\<lambda>key.
     checked (required_text assignment_path) (\<lambda>path.
     checked (enum_value late_value late_statuses late) (\<lambda>late_v.
     checked (utc_iso now at_v) (\<lambda>finished_at.
       after (txn (\<lambda>s.
         rbind (complete_collection_job_in_connection job_id new old force finished_at s) (\<lambda>(job_row, s1).
         rbind (create_snapshot_in_connection now key job_id new path source_digest source_path
                  observed_from observed_to late_v s1) (\<lambda>(snap, s2).
           Inr ((job_row, snap), s2)))))
         (\<lambda>(job_row, snap). rmap (\<lambda>j. (j, snap)) (collection_job job_row))))))))"

definition get_submission_snapshot :: "int \<Rightarrow> store \<Rightarrow> snapshot_row res" where
  "get_submission_snapshot i s = require_row ss_id i (t_rows (snapshots s))"

definition get_submission_snapshot_by_key :: "string \<Rightarrow> store \<Rightarrow> snapshot_row res" where
  "get_submission_snapshot_by_key k s = require_row ss_key k (t_rows (snapshots s))"

definition list_submission_snapshots :: "int option \<Rightarrow> int option \<Rightarrow> store \<Rightarrow> snapshot_row list" where
  "list_submission_snapshots assignment_id repository_id s =
     sort_key ss_created (sort_key ss_id
       (filter (\<lambda>r. (assignment_id = None \<or> assignment_id = Some (ss_assignment r)) \<and>
                    (repository_id = None \<or> repository_id = Some (ss_repo r)))
          (t_rows (snapshots s))))"

section \<open>What the shared insert does\<close>

text \<open>The contract of a snapshot against the job it was taken from.\<close>

definition snapshot_of :: "snapshot_row \<Rightarrow> job_row \<Rightarrow> run_row \<Rightarrow> bool" where
  "snapshot_of sn j run =
     (ss_job sn = cj_id j \<and> ss_run sn = cj_run j \<and> ss_repo sn = cj_repo j \<and>
      ss_assignment sn = rn_assignment run \<and> rn_id run = cj_run j \<and>
      cj_state j = JobSucceeded \<and> cj_new_sha j = Some (ss_commit sn) \<and> cj_path j = Some (ss_path sn) \<and>
      ss_from sn \<le> ss_to sn)"

lemma create_snapshot_cases:
  assumes "create_snapshot_in_connection now key job_id commit path source_digest source_path
     observed_from observed_to late s = Inr (row, s')"
  obtains (existing) "s' = s" "select_by ss_key key (t_rows (snapshots s)) = Some row"
      "ss_job row = job_id" "ss_commit row = commit" "ss_path row = path"
    | (fresh) mk job run where "s' = s\<lparr>snapshots := table_insert mk (snapshots s)\<rparr>"
      "row = mk (t_seq (snapshots s) + 1)" "\<And>i. ss_id (mk i) = i" "ss_key row = key"
      "\<not> snapshot_clash key job_id (snapshots s)"
      "select_by cj_id job_id (t_rows (jobs s)) = Some job"
      "select_by rn_id (cj_run job) (t_rows (runs s)) = Some run"
      "snapshot_of row job run" "ss_job row = job_id" "ss_commit row = commit" "ss_path row = path"
proof -
  let ?t = "snapshots s"
  from assms obtain digest job run from_iso to_iso where
    c: "select_by cj_id job_id (t_rows (jobs s)) = Some job" "cj_state job = JobSucceeded"
       "cj_new_sha job = Some commit" "cj_path job = Some path"
       "select_by rn_id (cj_run job) (t_rows (runs s)) = Some run" "from_iso \<le> to_iso"
    and e: "insert_snapshot (new_snapshot now key job run commit path digest source_path
              from_iso to_iso late) s = Inr (row, s')"
    unfolding create_snapshot_in_connection_def Let_def
    by (auto simp: rbind_Inr_iff require_row_Inr_iff not_less split: if_split_asm)
  let ?mk = "new_snapshot now key job run commit path digest source_path from_iso to_iso late"
  have id: "cj_id job = job_id" "rn_id run = cj_run job"
    using c select_by_SomeD by fastforce+
  have mk: "ss_key (?mk i) = key" "ss_job (?mk i) = job_id" "ss_id (?mk i) = i"
    "ss_commit (?mk i) = commit" "ss_path (?mk i) = path" for i
    by (simp_all add: new_snapshot_def id)
  show thesis
  proof (cases "snapshot_clash key job_id ?t")
    case True
    then have "select_by ss_key key (t_rows ?t) = Some row" "same_snapshot row (?mk 0)" "s' = s"
      using e by (auto simp: insert_snapshot_def mk Let_def split: option.splits if_split_asm)
    then show thesis by (intro existing) (auto simp: same_snapshot_def mk)
  next
    case False
    then have "key \<notin> ss_key ` set (t_rows ?t)" by (auto simp: snapshot_clash_def)
    then have n: "select_by ss_key key (t_rows ?t) = None" by (simp add: select_by_None_iff)
    have r: "row = ?mk (t_seq ?t + 1)" "s' = s\<lparr>snapshots := table_insert ?mk ?t\<rparr>"
      using e False n by (auto simp: insert_snapshot_def mk Let_def select_by_append split: if_split_asm)
    have so: "snapshot_of row job run" using c id by (simp add: r new_snapshot_def snapshot_of_def)
    show thesis
      by (rule fresh [OF r(2,1) mk(3) _ False c(1,5) so]) (simp_all add: r mk)
  qed
qed

end
