(* ===== verification/Store_Grades.thy ===== *)
theory Store_Grades
  imports Store_Snapshots
begin

text \<open>
  Grade jobs of \<open>StateStore\<close>: a grade job is made for a snapshot and must name exactly the
  grading inputs pinned when the snapshot's job was created; the same check guards claiming and
  completing. A completed score lies between zero and the pinned maximum.
\<close>

section \<open>Provenance\<close>

text \<open>The five grading inputs of a collection job, as the provenance checks read them, and those
  of a grade job.\<close>

definition job_inputs :: "job_row \<Rightarrow> string \<times> string \<times> string \<times> string option \<times> rat option" where
  "job_inputs j = (or_text (cj_assessment j) [], or_text (cj_dataset j) [],
     or_text (cj_runner j) [], cj_rubric j, cj_max_score j)"

definition grade_inputs :: "grade_row \<Rightarrow> string \<times> string \<times> string \<times> string option \<times> rat option" where
  "grade_inputs g = (gj_assessment g, gj_dataset g, gj_runner g, Some (gj_rubric g), gj_max_score g)"

definition validate_grade_job_provenance :: "grade_row \<Rightarrow> store \<Rightarrow> unit res" where
  "validate_grade_job_provenance g s =
     rbind (require_row ss_id (gj_snapshot g) (t_rows (snapshots s))) (\<lambda>sn.
     rbind (require_row cj_id (ss_job sn) (t_rows (jobs s))) (\<lambda>j.
       if \<not> cj_pinned j then Inl GradingInputMismatch
       else if grade_inputs g \<noteq> job_inputs j then Inl GradingInputMismatch
       else Inr ()))"

section \<open>Operations\<close>

definition new_grade ::
  "string \<Rightarrow> int \<Rightarrow> string \<Rightarrow> string \<Rightarrow> string \<Rightarrow> string \<Rightarrow> rat option \<Rightarrow> int \<Rightarrow> string \<Rightarrow> int \<Rightarrow> grade_row" where
  "new_grade key snapshot_id assessment dataset runner rubric max_score max_attempts requested i =
     \<lparr>gj_id = i, gj_key = key, gj_snapshot = snapshot_id, gj_state = JobQueued,
      gj_assessment = assessment, gj_dataset = dataset, gj_runner = runner, gj_rubric = rubric,
      gj_attempt = 0, gj_max_attempts = max_attempts, gj_requested = requested, gj_started = None,
      gj_finished = None, gj_score = None, gj_max_score = max_score, gj_result = ''{}'',
      gj_error_code = None, gj_error_message = None\<rparr>"

definition same_grade :: "grade_row \<Rightarrow> grade_row \<Rightarrow> bool" where
  "same_grade a b =
     ((gj_snapshot a, gj_assessment a, gj_dataset a, gj_runner a, gj_rubric a, gj_max_attempts a,
       gj_max_score a) =
      (gj_snapshot b, gj_assessment b, gj_dataset b, gj_runner b, gj_rubric b, gj_max_attempts b,
       gj_max_score b))"

definition insert_grade :: "(int \<Rightarrow> grade_row) \<Rightarrow> store \<Rightarrow> (grade_row \<times> store) res" where
  "insert_grade mk s =
     (let expected = mk 0;
          s' = (if select_by gj_key (gj_key expected) (t_rows (grades s)) = None
                then s\<lparr>grades := table_insert mk (grades s)\<rparr> else s)
      in case select_by gj_key (gj_key expected) (t_rows (grades s')) of
           None \<Rightarrow> Inl TypeErr
         | Some row \<Rightarrow> if \<not> same_grade row expected then Inl IdempotencyConflict else Inr (row, s'))"

definition ensure_grade_job ::
  "dtime \<Rightarrow> string \<Rightarrow> int \<Rightarrow> string \<Rightarrow> string \<Rightarrow> string \<Rightarrow> string \<Rightarrow> pynum option \<Rightarrow> int \<Rightarrow> dtvalue option \<Rightarrow>
   (store, grade_row) op" where
  "ensure_grade_job now job_key snapshot_id assessment_digest runner_image_digest rubric_version
     dataset_digest max_score max_attempts requested_at =
     checked (required_text job_key) (\<lambda>key.
     checked (rbind (required_text assessment_digest) optional_sha256_digest) (\<lambda>assessment.
     checked (optional_sha256_digest dataset_digest) (\<lambda>dataset.
     checked (rbind (required_text runner_image_digest) optional_sha256_digest) (\<lambda>runner.
     checked (required_text rubric_version) (\<lambda>rubric.
     checked (if max_attempts \<le> 0 then Inl ValueError else Inr ()) (\<lambda>_.
     checked (optional_non_negative_finite max_score) (\<lambda>max_v.
       txn (\<lambda>s.
         rbind (require_row ss_id snapshot_id (t_rows (snapshots s))) (\<lambda>sn.
         rbind (require_row cj_id (ss_job sn) (t_rows (jobs s))) (\<lambda>j.
         if \<not> cj_pinned j then Inl GradingInputMismatch
         else if (assessment, dataset, runner, Some rubric, max_v) \<noteq> job_inputs j
         then Inl GradingInputMismatch
         else
           rbind (utc_iso now requested_at) (\<lambda>requested.
             insert_grade (new_grade key snapshot_id assessment dataset runner rubric max_v
               max_attempts requested) s)))))))))))"

definition get_grade_job :: "int \<Rightarrow> store \<Rightarrow> grade_row res" where
  "get_grade_job i s = require_row gj_id i (t_rows (grades s))"

definition get_grade_job_by_key :: "string \<Rightarrow> store \<Rightarrow> grade_row res" where
  "get_grade_job_by_key k s = require_row gj_key k (t_rows (grades s))"

definition list_grade_jobs :: "int option \<Rightarrow> string option \<Rightarrow> store \<Rightarrow> grade_row list res" where
  "list_grade_jobs snapshot_id state s =
     rbind (case state of None \<Rightarrow> Inr None
            | Some v \<Rightarrow> rmap Some (enum_value job_state_value job_states v)) (\<lambda>st.
       Inr (sort_key gj_requested (sort_key gj_id
         (filter (\<lambda>g. (snapshot_id = None \<or> snapshot_id = Some (gj_snapshot g)) \<and>
                      (st = None \<or> st = Some (gj_state g))) (t_rows (grades s))))))"

definition write_grade :: "grade_row \<Rightarrow> store \<Rightarrow> store" where
  "write_grade r s = s\<lparr>grades := table_update gj_id (gj_id r) (\<lambda>_. r) (grades s)\<rparr>"

definition claim_grade :: "string \<Rightarrow> grade_row \<Rightarrow> grade_row res" where
  "claim_grade started_at r =
     (if gj_state r \<notin> {JobQueued, JobFailed} then Inl InvalidStateTransition
      else if gj_attempt r \<ge> gj_max_attempts r then Inl InvalidStateTransition
      else Inr (r\<lparr>gj_state := JobRunning, gj_attempt := gj_attempt r + 1,
        gj_started := Some started_at, gj_finished := None, gj_error_code := None,
        gj_error_message := None\<rparr>))"

definition claim_grade_job :: "dtime \<Rightarrow> int \<Rightarrow> dtvalue option \<Rightarrow> (store, grade_row) op" where
  "claim_grade_job now job_id at_v =
     checked (utc_iso now at_v) (\<lambda>started_at.
       txn (\<lambda>s.
         rbind (require_row gj_id job_id (t_rows (grades s))) (\<lambda>row.
         rbind (validate_grade_job_provenance row s) (\<lambda>_.
         if gj_state row = JobRunning then Inr (row, s)
         else rbind (claim_grade started_at row) (\<lambda>row'. Inr (row', write_grade row' s))))))"

definition succeed_grade :: "rat \<Rightarrow> string \<Rightarrow> string \<Rightarrow> grade_row \<Rightarrow> grade_row" where
  "succeed_grade score result finished_at r =
     r\<lparr>gj_state := JobSucceeded, gj_score := Some score, gj_result := result,
       gj_finished := Some finished_at, gj_error_code := None, gj_error_message := None\<rparr>"

definition exceeds :: "rat \<Rightarrow> rat option \<Rightarrow> bool" where
  "exceeds score max_v = (case max_v of None \<Rightarrow> False | Some m \<Rightarrow> score > m)"

definition complete_grade_job ::
  "dtime \<Rightarrow> int \<Rightarrow> pynum option \<Rightarrow> json option \<Rightarrow> pynum option \<Rightarrow> dtvalue option \<Rightarrow> (store, grade_row) op" where
  "complete_grade_job now job_id score result max_score at_v =
     checked (rbind (optional_non_negative_finite score) (\<lambda>v.
                case v of None \<Rightarrow> Inl TypeErr | Some x \<Rightarrow> Inr x)) (\<lambda>sc.
     checked (optional_non_negative_finite max_score) (\<lambda>max_v.
     checked (json_dump result) (\<lambda>result_json.
       txn (\<lambda>s.
         rbind (require_row gj_id job_id (t_rows (grades s))) (\<lambda>row.
         rbind (validate_grade_job_provenance row s) (\<lambda>_.
         if max_v \<noteq> None \<and> max_v \<noteq> gj_max_score row then Inl GradingInputMismatch
         else if exceeds sc (gj_max_score row) then Inl ValueError
         else if gj_state row = JobSucceeded then
           (if (gj_score row, gj_result row) \<noteq> (Some sc, result_json)
            then Inl IdempotencyConflict else Inr (row, s))
         else if gj_state row \<noteq> JobRunning then Inl InvalidStateTransition
         else rbind (utc_iso now at_v) (\<lambda>finished_at.
           let row' = succeed_grade sc result_json finished_at row
           in Inr (row', write_grade row' s))))))))"

definition fail_grade :: "string \<Rightarrow> string \<Rightarrow> string \<Rightarrow> grade_row \<Rightarrow> grade_row" where
  "fail_grade finished_at code msg r =
     r\<lparr>gj_state := JobFailed, gj_finished := Some finished_at, gj_error_code := Some code,
       gj_error_message := Some msg\<rparr>"

definition fail_grade_job ::
  "dtime \<Rightarrow> int \<Rightarrow> string \<Rightarrow> string \<Rightarrow> dtvalue option \<Rightarrow> (store, grade_row) op" where
  "fail_grade_job now job_id error_code error_message at_v =
     checked (required_text error_code) (\<lambda>code.
     checked (required_text error_message) (\<lambda>msg.
       txn (\<lambda>s.
         rbind (require_row gj_id job_id (t_rows (grades s))) (\<lambda>row.
         if gj_state row \<notin> {JobQueued, JobRunning, JobFailed} then Inl InvalidStateTransition
         else rbind (utc_iso now at_v) (\<lambda>finished_at.
           let row' = fail_grade finished_at code msg row in Inr (row', write_grade row' s))))))"

section \<open>Grade rows\<close>

lemma insert_grade_cases:
  assumes "insert_grade mk s = Inr (row, s')" and key: "\<And>i. gj_key (mk i) = key"
  obtains (existing) "s' = s" "select_by gj_key key (t_rows (grades s)) = Some row" "same_grade row (mk 0)"
    | (fresh) "select_by gj_key key (t_rows (grades s)) = None"
      "row = mk (t_seq (grades s) + 1)" "s' = s\<lparr>grades := table_insert mk (grades s)\<rparr>"
proof (cases "select_by gj_key key (t_rows (grades s))")
  case None
  with assms show thesis
    by (intro fresh) (auto simp: insert_grade_def Let_def select_by_append split: if_split_asm)
next
  case (Some r)
  with assms show thesis
    by (intro existing) (auto simp: insert_grade_def Let_def split: if_split_asm)
qed

interpretation grading: attempt_machine gj_state gj_attempt gj_max_attempts claim_grade
  "\<lambda>(score, result) t. succeed_grade score result t" fail_grade
  by unfold_locales
    (auto simp: claim_grade_def succeed_grade_def fail_grade_def split: if_split_asm prod.splits)

lemma claim_grade_Inr_iff: "claim_grade t r = Inr r' \<longleftrightarrow>
    gj_state r \<in> {JobQueued, JobFailed} \<and> gj_attempt r < gj_max_attempts r \<and>
    r' = r\<lparr>gj_state := JobRunning, gj_attempt := gj_attempt r + 1, gj_started := Some t,
           gj_finished := None, gj_error_code := None, gj_error_message := None\<rparr>"
  by (auto simp: claim_grade_def)

inductive grade_step :: "grade_row \<Rightarrow> grade_row \<Rightarrow> bool" where
  claim: "claim_grade t r = Inr r' \<Longrightarrow> grade_step r r'"
| complete: "gj_state r = JobRunning \<Longrightarrow> 0 \<le> score \<Longrightarrow> \<not> exceeds score (gj_max_score r) \<Longrightarrow>
    grade_step r (succeed_grade score result t r)"
| fail: "gj_state r \<in> {JobQueued, JobRunning, JobFailed} \<Longrightarrow> grade_step r (fail_grade t c m r)"

inductive_cases grade_stepE: "grade_step r r'"

lemma grade_step_machine: "grade_step r r' \<Longrightarrow> \<exists>b. grading.attempt_step b r r'"
proof (induction rule: grade_step.induct)
  case (claim t r r')
  then show ?case using grading.claimed by blast
next
  case (complete r score result t)
  then show ?case using grading.succeeded [of r "(score, result)" t] by auto
next
  case (fail r t c m)
  then show ?case using grading.failed by blast
qed

definition grade_pins where
  "grade_pins g = (gj_id g, gj_key g, gj_snapshot g, grade_inputs g, gj_max_attempts g, gj_requested g)"

lemma grade_step_pins: "grade_step r r' \<Longrightarrow> grade_pins r' = grade_pins r"
  by (induction rule: grade_step.induct)
    (auto simp: grade_pins_def grade_inputs_def claim_grade_Inr_iff succeed_grade_def fail_grade_def)

lemma grade_step_final: "grade_step r r' \<Longrightarrow> gj_state r \<in> {JobQueued, JobRunning, JobFailed}"
  by (induction rule: grade_step.induct) (auto simp: claim_grade_Inr_iff)

text \<open>The score columns: present exactly after success, at least zero, at most the pinned
  maximum.\<close>

definition score_ok :: "grade_row \<Rightarrow> bool" where
  "score_ok g =
     ((gj_state g = JobSucceeded \<longleftrightarrow> gj_score g \<noteq> None) \<and>
      (\<forall>x. gj_score g = Some x \<longrightarrow> 0 \<le> x \<and> \<not> exceeds x (gj_max_score g)))"

definition grade_ok :: "grade_row \<Rightarrow> bool" where
  "grade_ok g = (grading.machine_ok g \<and> score_ok g)"

lemma grade_step_ok:
  assumes "grade_step r r'" and ok: "grade_ok r"
  shows "grade_ok r'"
proof -
  have "grading.machine_ok r'"
    using grade_step_machine [OF assms(1)] ok grading.step_ok by (auto simp: grade_ok_def)
  moreover have "score_ok r'"
    using assms(1) ok
    by (induction rule: grade_step.induct)
      (auto simp: grade_ok_def score_ok_def claim_grade_Inr_iff succeed_grade_def fail_grade_def)
  ultimately show ?thesis by (simp add: grade_ok_def)
qed

text \<open>Provenance survives a step of the grade job, and any step of the collection job behind it.\<close>

lemma job_step_inputs: "job_step j j' \<Longrightarrow> job_inputs j' = job_inputs j \<and> cj_pinned j' = cj_pinned j"
  using job_step_pins [of j j'] by (simp add: job_pins_def job_inputs_def)

end
