(* ===== verification/Store_Ledger.thy ===== *)
theory Store_Ledger
  imports Store_Grades
begin

text \<open>
  What the store promises, without the arguments, clocks and retries of the operations: the
  \<open>ledger\<close>, a step relation whose rules are the only ways the tables change, and the
  well-formedness of the whole database (unique keys, references between tables, pinned inputs,
  verdicts of finished runs). Every ledger step keeps the database well formed.
\<close>

section \<open>Well-formed tables\<close>

definition ids :: "('r \<Rightarrow> int) \<Rightarrow> 'r table \<Rightarrow> int set" where
  "ids rid t = rid ` set (t_rows t)"

definition keyed :: "('r \<Rightarrow> int) \<Rightarrow> ('r \<Rightarrow> string) \<Rightarrow> 'r table \<Rightarrow> bool" where
  "keyed rid key t = (table_ok rid t \<and> distinct (map key (t_rows t)))"

definition schedules_ok :: "assignment_row table \<Rightarrow> schedule_row table \<Rightarrow> bool" where
  "schedules_ok A S = (keyed sc_id sc_key S \<and>
     (\<forall>r\<in>set (t_rows S). sc_assignment r \<in> ids as_id A \<and> 0 < sc_interval r))"

definition run_ok :: "run_row \<Rightarrow> bool" where
  "run_ok r = (terminal_run (rn_state r) \<longleftrightarrow> rn_finished r \<noteq> None)"

definition runs_ok :: "assignment_row table \<Rightarrow> schedule_row table \<Rightarrow> run_row table \<Rightarrow> bool" where
  "runs_ok A S R = (keyed rn_id rn_key R \<and>
     (\<forall>r\<in>set (t_rows R). run_ok r \<and> rn_assignment r \<in> ids as_id A \<and>
        (\<forall>k. rn_schedule r = Some k \<longrightarrow> k \<in> ids sc_id S)))"

definition jobs_ok :: "repo_row table \<Rightarrow> run_row table \<Rightarrow> job_row table \<Rightarrow> bool" where
  "jobs_ok P R J = (keyed cj_id cj_key J \<and> distinct (map (\<lambda>j. (cj_run j, cj_repo j)) (t_rows J)) \<and>
     (\<forall>j\<in>set (t_rows J). job_ok j \<and> cj_run j \<in> ids rn_id R \<and> cj_repo j \<in> ids rp_id P))"

definition snapshots_ok :: "run_row table \<Rightarrow> job_row table \<Rightarrow> snapshot_row table \<Rightarrow> bool" where
  "snapshots_ok R J N = (keyed ss_id ss_key N \<and> distinct (map ss_job (t_rows N)) \<and>
     (\<forall>n\<in>set (t_rows N). \<exists>j\<in>set (t_rows J). \<exists>r\<in>set (t_rows R). snapshot_of n j r))"

definition graded_from :: "grade_row \<Rightarrow> snapshot_row \<Rightarrow> job_row \<Rightarrow> bool" where
  "graded_from g n j = (gj_snapshot g = ss_id n \<and> ss_job n = cj_id j \<and> cj_pinned j \<and>
     grade_inputs g = job_inputs j)"

definition grades_ok :: "job_row table \<Rightarrow> snapshot_row table \<Rightarrow> grade_row table \<Rightarrow> bool" where
  "grades_ok J N G = (keyed gj_id gj_key G \<and>
     (\<forall>g\<in>set (t_rows G). grade_ok g \<and>
        (\<exists>n\<in>set (t_rows N). \<exists>j\<in>set (t_rows J). graded_from g n j)))"

text \<open>A run that ended well or partly has the verdict of its jobs, none of which is open; a
  pinned run has jobs.\<close>

definition verdict_ok :: "job_row set \<Rightarrow> run_row \<Rightarrow> bool" where
  "verdict_ok J r =
     ((rn_state r = RunSucceeded \<longrightarrow> (\<forall>j\<in>J. cj_run j = rn_id r \<longrightarrow> cj_state j = JobSucceeded)) \<and>
      (rn_state r = RunPartial \<longrightarrow>
         (\<forall>j\<in>J. cj_run j = rn_id r \<longrightarrow> cj_state j \<in> {JobSucceeded, JobFailed}) \<and>
         (\<exists>j\<in>J. cj_run j = rn_id r \<and> cj_state j = JobSucceeded) \<and>
         (\<exists>j\<in>J. cj_run j = rn_id r \<and> cj_state j = JobFailed)) \<and>
      (rn_pinned r \<longrightarrow> (\<exists>j\<in>J. cj_run j = rn_id r)))"

definition verdicts_ok :: "run_row table \<Rightarrow> job_row table \<Rightarrow> bool" where
  "verdicts_ok R J = (\<forall>r\<in>set (t_rows R). verdict_ok (set (t_rows J)) r)"

definition db_ok :: "store \<Rightarrow> bool" where
  "db_ok s = (roster_ok (repositories s) \<and> keyed as_id as_key (assignments s) \<and>
     schedules_ok (assignments s) (schedules s) \<and> runs_ok (assignments s) (schedules s) (runs s) \<and>
     jobs_ok (repositories s) (runs s) (jobs s) \<and> snapshots_ok (runs s) (jobs s) (snapshots s) \<and>
     grades_ok (jobs s) (snapshots s) (grades s) \<and> verdicts_ok (runs s) (jobs s))"

section \<open>Inserting and replacing rows\<close>

lemma set_replace:
  assumes "table_ok rid t" and "r \<in> set (t_rows t)" and "rid r' = rid r"
  shows "set (t_rows (table_update rid (rid r) (\<lambda>_. r') t)) = insert r' (set (t_rows t) - {r})"
proof -
  have "inj_on rid (set (t_rows t))"
    using table_ok_distinct [OF assms(1)] by (simp add: distinct_map)
  then have "{x \<in> set (t_rows t). rid x = rid r} = {r}" "{x \<in> set (t_rows t). rid x \<noteq> rid r} = set (t_rows t) - {r}"
    using assms(2) by (auto dest: inj_onD)
  then show ?thesis by (auto simp: set_update_by)
qed

lemma distinct_replace:
  assumes "table_ok rid t" and "r \<in> set (t_rows t)" and "distinct (map key (t_rows t))"
    and "rid r' = rid r" and "key r' = key r"
  shows "distinct (map key (t_rows (table_update rid (rid r) (\<lambda>_. r') t)))"
proof -
  have "x = r" if "x \<in> set (t_rows t)" "rid x = rid r" for x
    using table_ok_distinct [OF assms(1)] assms(2) that by (auto simp: distinct_map dest: inj_onD)
  then have "map key (update_by rid (rid r) (\<lambda>_. r') (t_rows t)) = map key (t_rows t)"
    using assms(5) by (auto simp: update_by_def)
  with assms(3) show ?thesis by simp
qed

lemma keyed_replace:
  assumes "keyed rid key t" and "r \<in> set (t_rows t)" and "rid r' = rid r" and "key r' = key r"
  shows "keyed rid key (table_update rid (rid r) (\<lambda>_. r') t)"
  using assms table_ok_update [of rid t "rid r" "\<lambda>_. r'"] distinct_replace
  by (auto simp: keyed_def)

lemma keyed_insert:
  assumes "keyed rid key t" and "\<And>i. rid (mk i) = i" and "key (mk (t_seq t + 1)) \<notin> key ` set (t_rows t)"
  shows "keyed rid key (table_insert mk t)"
  using assms table_ok_insert [of rid t mk] by (auto simp: keyed_def)

lemma ids_insert: "(\<And>i. rid (mk i) = i) \<Longrightarrow> ids rid (table_insert mk t) = insert (t_seq t + 1) (ids rid t)"
  by (auto simp: ids_def)

lemma ids_replace:
  assumes "table_ok rid t" and "r \<in> set (t_rows t)" and "rid r' = rid r"
  shows "ids rid (table_update rid (rid r) (\<lambda>_. r') t) = ids rid t"
  unfolding ids_def set_replace [OF assms] using assms(2,3) by auto

lemma keyed_tableD: "keyed rid key t \<Longrightarrow> table_ok rid t"
  by (simp add: keyed_def)

lemma keyed_unique:
  "keyed rid key t \<Longrightarrow> r \<in> set (t_rows t) \<Longrightarrow> r' \<in> set (t_rows t) \<Longrightarrow> rid r = rid r' \<Longrightarrow> r = r'"
  by (auto simp: keyed_def distinct_map dest!: table_ok_distinct dest: inj_onD)

section \<open>The ledger\<close>

text \<open>The changes of a run: start, failure, the verdict.\<close>

inductive run_step :: "job_row set \<Rightarrow> run_row \<Rightarrow> run_row \<Rightarrow> bool" where
  start: "rn_state r = RunQueued \<Longrightarrow> run_step J r
     (r\<lparr>rn_state := RunRunning, rn_started := t, rn_finished := None, rn_error := None\<rparr>)"
| fail: "\<not> terminal_run (rn_state r) \<Longrightarrow> run_step J r
     (r\<lparr>rn_state := RunFailed, rn_started := rn_started r, rn_finished := Some t, rn_error := m\<rparr>)"
| verdict: "\<not> terminal_run (rn_state r) \<Longrightarrow>
     set js = {j \<in> J. cj_run j = rn_id r} \<Longrightarrow> \<forall>j\<in>set js. cj_state j \<notin> {JobQueued, JobRunning} \<Longrightarrow>
     run_step J r (r\<lparr>rn_state := verdict js, rn_finished := Some t, rn_error := None\<rparr>)"
| pin: "\<not> terminal_run (rn_state r) \<Longrightarrow> \<exists>j\<in>J. cj_run j = rn_id r \<Longrightarrow> run_step J r (r\<lparr>rn_pinned := True\<rparr>)"

inductive_cases run_stepE: "run_step J r r'"

definition put_run :: "run_row \<Rightarrow> store \<Rightarrow> store" where
  "put_run r s = s\<lparr>runs := table_update rn_id (rn_id r) (\<lambda>_. r) (runs s)\<rparr>"

inductive ledger :: "store \<Rightarrow> store \<Rightarrow> bool" where
  roster: "roster_ok t \<Longrightarrow> ids rp_id (repositories s) \<subseteq> ids rp_id t \<Longrightarrow>
     ledger s (s\<lparr>repositories := t\<rparr>)"
| assignment: "keyed as_id as_key t \<Longrightarrow> ids as_id (assignments s) \<subseteq> ids as_id t \<Longrightarrow>
     ledger s (s\<lparr>assignments := t\<rparr>)"
| schedule: "schedules_ok (assignments s) t \<Longrightarrow> ids sc_id (schedules s) \<subseteq> ids sc_id t \<Longrightarrow>
     ledger s (s\<lparr>schedules := t\<rparr>)"
| run_new: "(\<And>i. rn_id (mk i) = i) \<Longrightarrow> r = mk (t_seq (runs s) + 1) \<Longrightarrow>
     rn_key r \<notin> rn_key ` set (t_rows (runs s)) \<Longrightarrow>
     rn_assignment r \<in> ids as_id (assignments s) \<Longrightarrow>
     (\<forall>k. rn_schedule r = Some k \<longrightarrow> k \<in> ids sc_id (schedules s)) \<Longrightarrow>
     rn_state r = RunQueued \<Longrightarrow> rn_finished r = None \<Longrightarrow> \<not> rn_pinned r \<Longrightarrow>
     ledger s (s\<lparr>runs := table_insert mk (runs s)\<rparr>)"
| run_change: "r \<in> set (t_rows (runs s)) \<Longrightarrow> run_step (set (t_rows (jobs s))) r r' \<Longrightarrow>
     ledger s (put_run r' s)"
| job_new: "(\<And>i. cj_id (mk i) = i) \<Longrightarrow> j = mk (t_seq (jobs s) + 1) \<Longrightarrow>
     \<not> job_clash (cj_key j) (cj_run j) (cj_repo j) (jobs s) \<Longrightarrow> job_ok j \<Longrightarrow> cj_state j = JobQueued \<Longrightarrow>
     run \<in> set (t_rows (runs s)) \<Longrightarrow> rn_id run = cj_run j \<Longrightarrow> \<not> terminal_run (rn_state run) \<Longrightarrow>
     \<not> rn_pinned run \<Longrightarrow> cj_repo j \<in> ids rp_id (repositories s) \<Longrightarrow>
     ledger s (s\<lparr>jobs := table_insert mk (jobs s)\<rparr>)"
| job_change: "j \<in> set (t_rows (jobs s)) \<Longrightarrow> job_step j j' \<Longrightarrow>
     cj_state j = JobRunning \<or> cj_state j' = JobFailed \<or>
     (\<exists>run\<in>set (t_rows (runs s)). rn_id run = cj_run j \<and> \<not> terminal_run (rn_state run)) \<Longrightarrow>
     ledger s (write_job j' s)"
| snapshot_new: "(\<And>i. ss_id (mk i) = i) \<Longrightarrow> n = mk (t_seq (snapshots s) + 1) \<Longrightarrow>
     \<not> snapshot_clash (ss_key n) (ss_job n) (snapshots s) \<Longrightarrow> j \<in> set (t_rows (jobs s)) \<Longrightarrow>
     r \<in> set (t_rows (runs s)) \<Longrightarrow> snapshot_of n j r \<Longrightarrow>
     ledger s (s\<lparr>snapshots := table_insert mk (snapshots s)\<rparr>)"
| grade_new: "(\<And>i. gj_id (mk i) = i) \<Longrightarrow> g = mk (t_seq (grades s) + 1) \<Longrightarrow>
     gj_key g \<notin> gj_key ` set (t_rows (grades s)) \<Longrightarrow> grade_ok g \<Longrightarrow> gj_state g = JobQueued \<Longrightarrow>
     n \<in> set (t_rows (snapshots s)) \<Longrightarrow> j \<in> set (t_rows (jobs s)) \<Longrightarrow> graded_from g n j \<Longrightarrow>
     ledger s (s\<lparr>grades := table_insert mk (grades s)\<rparr>)"
| grade_change: "g \<in> set (t_rows (grades s)) \<Longrightarrow> grade_step g g' \<Longrightarrow> ledger s (write_grade g' s)"

section \<open>Ledger steps keep the database well formed\<close>

lemma run_step_keeps: "run_step J r r' \<Longrightarrow> rn_id r' = rn_id r \<and> rn_key r' = rn_key r \<and>
    rn_assignment r' = rn_assignment r \<and> rn_schedule r' = rn_schedule r \<and>
    rn_trigger r' = rn_trigger r \<and> rn_scheduled_for r' = rn_scheduled_for r \<and> rn_created r' = rn_created r"
  by (induction rule: run_step.induct) auto

lemma run_step_not_terminal: "run_step J r r' \<Longrightarrow> \<not> terminal_run (rn_state r)"
  by (induction rule: run_step.induct) (auto simp: terminal_run_def)

lemma verdict_terminal: "terminal_run (verdict js)"
  by (simp add: verdict_def terminal_run_def)

lemma run_step_ok: "run_step J r r' \<Longrightarrow> run_ok r \<Longrightarrow> run_ok r'"
  by (induction rule: run_step.induct) (auto simp: run_ok_def terminal_run_def verdict_def)

lemma run_step_verdict:
  assumes "run_step J r r'" and ok: "verdict_ok J r"
    and st: "\<forall>j\<in>J. cj_state j \<in> {JobQueued, JobRunning, JobSucceeded, JobFailed}"
  shows "verdict_ok J r'"
  using assms(1)
proof cases
  case (verdict js t)
  have "\<forall>j\<in>set js. cj_state j \<in> {JobSucceeded, JobFailed}" using verdict st by auto
  then have "verdict_ok J (r\<lparr>rn_state := verdict js\<rparr>)"
    using verdict(3) ok
    by (auto simp: verdict_ok_def verdict_def list_ex_iff job_bad_def job_good_def)
  then show ?thesis by (simp add: verdict verdict_ok_def)
qed (use ok in \<open>auto simp: verdict_ok_def\<close>)

lemma job_states:
  "jobs_ok P R J \<Longrightarrow> \<forall>j\<in>set (t_rows J). cj_state j \<in> {JobQueued, JobRunning, JobSucceeded, JobFailed}"
  by (auto simp: jobs_ok_def job_ok_def collecting.machine_ok_def)

text \<open>Growing the referenced tables keeps the references.\<close>

lemma schedules_ok_mono: "schedules_ok A S \<Longrightarrow> ids as_id A \<subseteq> ids as_id A' \<Longrightarrow> schedules_ok A' S"
  unfolding schedules_ok_def by blast

lemma runs_ok_mono:
  "runs_ok A S R \<Longrightarrow> ids as_id A \<subseteq> ids as_id A' \<Longrightarrow> ids sc_id S \<subseteq> ids sc_id S' \<Longrightarrow> runs_ok A' S' R"
  unfolding runs_ok_def by blast

lemma jobs_ok_mono:
  "jobs_ok P R J \<Longrightarrow> ids rp_id P \<subseteq> ids rp_id P' \<Longrightarrow> ids rn_id R \<subseteq> ids rn_id R' \<Longrightarrow> jobs_ok P' R' J"
  unfolding jobs_ok_def by blast

lemma snapshots_ok_mono:
  "snapshots_ok R J N \<Longrightarrow> set (t_rows R) \<subseteq> set (t_rows R') \<Longrightarrow> set (t_rows J) \<subseteq> set (t_rows J') \<Longrightarrow>
   snapshots_ok R' J' N"
  unfolding snapshots_ok_def by blast

lemma grades_ok_mono:
  "grades_ok J N G \<Longrightarrow> set (t_rows J) \<subseteq> set (t_rows J') \<Longrightarrow> set (t_rows N) \<subseteq> set (t_rows N') \<Longrightarrow>
   grades_ok J' N' G"
  unfolding grades_ok_def by blast

lemma rows_insert_subset: "set (t_rows t) \<subseteq> set (t_rows (table_insert mk t))"
  by auto

text \<open>A new or changed run.\<close>

lemma snapshot_of_run:
  "snapshot_of n j r \<Longrightarrow> rn_id r' = rn_id r \<Longrightarrow> rn_assignment r' = rn_assignment r \<Longrightarrow> snapshot_of n j r'"
  by (simp add: snapshot_of_def)

lemma runs_ok_insert:
  assumes ok: "runs_ok A S R" and mk: "\<And>i. rn_id (mk i) = i" and r: "r = mk (t_seq R + 1)"
    and new: "rn_key r \<notin> rn_key ` set (t_rows R)" "rn_assignment r \<in> ids as_id A"
      "\<forall>k. rn_schedule r = Some k \<longrightarrow> k \<in> ids sc_id S" "rn_state r = RunQueued" "rn_finished r = None"
  shows "runs_ok A S (table_insert mk R)"
proof -
  have "run_ok r" using new by (simp add: run_ok_def terminal_run_def)
  then show ?thesis
    using ok new keyed_insert [of rn_id rn_key R mk] mk by (auto simp: runs_ok_def r)
qed

lemma runs_ok_change:
  assumes ok: "runs_ok A S R" and r: "r \<in> set (t_rows R)" "run_step J r r'"
  shows "runs_ok A S (table_update rn_id (rn_id r) (\<lambda>_. r') R)"
proof -
  have t: "table_ok rn_id R" using ok by (auto simp: runs_ok_def keyed_def)
  have "run_ok r'" using run_step_ok [OF r(2)] ok r(1) by (auto simp: runs_ok_def)
  then show ?thesis
    using ok r run_step_keeps [OF r(2)] keyed_replace [of rn_id rn_key R r r']
      set_replace [OF t r(1), of r'] by (auto simp: runs_ok_def)
qed

lemma snapshots_ok_run:
  assumes ok: "snapshots_ok R J N" and t: "table_ok rn_id R" and r: "r \<in> set (t_rows R)" "run_step K r r'"
  shows "snapshots_ok (table_update rn_id (rn_id r) (\<lambda>_. r') R) J N"
proof -
  have k: "rn_id r' = rn_id r" "rn_assignment r' = rn_assignment r" using run_step_keeps [OF r(2)] by auto
  have "snapshot_of n j r \<Longrightarrow> snapshot_of n j r'" for n j
    using k snapshot_of_run by blast
  then have "\<exists>j\<in>set (t_rows J). \<exists>x\<in>insert r' (set (t_rows R) - {r}). snapshot_of n j x"
    if "\<exists>j\<in>set (t_rows J). \<exists>x\<in>set (t_rows R). snapshot_of n j x" for n
    using that by blast
  then show ?thesis
    using ok unfolding snapshots_ok_def set_replace [OF t r(1) k(1)] by blast
qed

lemma verdicts_ok_run:
  assumes ok: "verdicts_ok R J" and t: "table_ok rn_id R" and j: "jobs_ok P R' J"
    and r: "r \<in> set (t_rows R)" "run_step (set (t_rows J)) r r'"
  shows "verdicts_ok (table_update rn_id (rn_id r) (\<lambda>_. r') R) J"
proof -
  have "verdict_ok (set (t_rows J)) r'"
    using run_step_verdict [OF r(2)] ok r(1) job_states [OF j] by (auto simp: verdicts_ok_def)
  then show ?thesis
    using ok unfolding verdicts_ok_def set_replace [OF t r(1) run_step_keeps [OF r(2), THEN conjunct1]]
    by auto
qed

text \<open>A new or changed job.\<close>

lemma jobs_ok_insert:
  assumes ok: "jobs_ok P R J" and mk: "\<And>i. cj_id (mk i) = i" and j: "j = mk (t_seq J + 1)"
    and new: "\<not> job_clash (cj_key j) (cj_run j) (cj_repo j) J" "job_ok j"
      "cj_run j \<in> ids rn_id R" "cj_repo j \<in> ids rp_id P"
  shows "jobs_ok P R (table_insert mk J)"
proof -
  have "cj_key j \<notin> cj_key ` set (t_rows J)"
    and "(cj_run j, cj_repo j) \<notin> (\<lambda>j. (cj_run j, cj_repo j)) ` set (t_rows J)"
    using new(1) by (auto simp: job_clash_def)
  then show ?thesis
    using ok new(2-4) keyed_insert [of cj_id cj_key J mk] mk by (auto simp: jobs_ok_def j)
qed

lemma jobs_ok_change:
  assumes ok: "jobs_ok P R J" and j: "j \<in> set (t_rows J)" "job_step j j'"
  shows "jobs_ok P R (table_update cj_id (cj_id j) (\<lambda>_. j') J)"
proof -
  have t: "table_ok cj_id J" using ok by (auto simp: jobs_ok_def keyed_def)
  have k: "cj_id j' = cj_id j" "cj_key j' = cj_key j" "cj_run j' = cj_run j" "cj_repo j' = cj_repo j"
    using job_step_pins [OF j(2)] by (auto simp: job_pins_def)
  have "job_ok j'" using job_step_ok [OF j(2)] ok j(1) by (auto simp: jobs_ok_def)
  then show ?thesis
    using ok j k keyed_replace [of cj_id cj_key J j j']
      distinct_replace [OF t j(1), of "\<lambda>j. (cj_run j, cj_repo j)" j']
    unfolding jobs_ok_def set_replace [OF t j(1) k(1)] by auto
qed

lemma snapshots_ok_job:
  assumes ok: "snapshots_ok R J N" and t: "table_ok cj_id J" and j: "j \<in> set (t_rows J)" "job_step j j'"
  shows "snapshots_ok R (table_update cj_id (cj_id j) (\<lambda>_. j') J) N"
proof -
  have k: "cj_id j' = cj_id j" using job_step_pins [OF j(2)] by (auto simp: job_pins_def)
  have "\<not> snapshot_of n j r" for n r
    using job_step_final [OF j(2)] by (auto simp: snapshot_of_def)
  then have "\<exists>x\<in>insert j' (set (t_rows J) - {j}). \<exists>r\<in>set (t_rows R). snapshot_of n x r"
    if "\<exists>x\<in>set (t_rows J). \<exists>r\<in>set (t_rows R). snapshot_of n x r" for n
    using that by blast
  then show ?thesis
    using ok unfolding snapshots_ok_def set_replace [OF t j(1) k] by blast
qed

lemma grades_ok_job:
  assumes ok: "grades_ok J N G" and t: "table_ok cj_id J" and j: "j \<in> set (t_rows J)" "job_step j j'"
  shows "grades_ok (table_update cj_id (cj_id j) (\<lambda>_. j') J) N G"
proof -
  have k: "cj_id j' = cj_id j" using job_step_pins [OF j(2)] by (auto simp: job_pins_def)
  have "graded_from g n j \<Longrightarrow> graded_from g n j'" for g n
    using job_step_inputs [OF j(2)] k by (simp add: graded_from_def)
  then have "\<exists>x\<in>insert j' (set (t_rows J) - {j}). graded_from g n x"
    if "\<exists>x\<in>set (t_rows J). graded_from g n x" for g n
    using that by blast
  then show ?thesis
    using ok unfolding grades_ok_def set_replace [OF t j(1) k] by blast
qed

lemma verdict_ok_insert:
  "verdict_ok J r \<Longrightarrow> \<not> (rn_state r \<in> {RunSucceeded, RunPartial} \<and> cj_run j = rn_id r) \<Longrightarrow>
   verdict_ok (insert j J) r"
  by (auto simp: verdict_ok_def)

lemma verdict_ok_change:
  assumes ok: "verdict_ok J r" and j: "j \<in> J" "job_step j j'"
    and open_run: "cj_state j = JobRunning \<or> cj_state j' = JobFailed \<or>
      \<not> (cj_run j = rn_id r \<and> terminal_run (rn_state r))"
  shows "verdict_ok (insert j' (J - {j})) r"
proof -
  have k: "cj_run j' = cj_run j" using job_step_pins [OF j(2)] by (auto simp: job_pins_def)
  have f: "cj_state j \<in> {JobQueued, JobRunning, JobFailed}" using job_step_final [OF j(2)] .
  show ?thesis
  proof (cases "cj_run j = rn_id r \<and> rn_state r \<in> {RunSucceeded, RunPartial}")
    case True
    then have "cj_state j = JobFailed" "rn_state r = RunPartial"
      using ok j(1) f by (auto simp: verdict_ok_def)
    moreover have "cj_state j' = JobFailed" using open_run True calculation by (auto simp: terminal_run_def)
    ultimately show ?thesis using ok j(1) True k by (auto simp: verdict_ok_def)
  next
    case False
    then show ?thesis using ok j(1) k by (auto simp: verdict_ok_def)
  qed
qed

text \<open>New snapshots and grade jobs.\<close>

lemma snapshots_ok_insert:
  assumes ok: "snapshots_ok R J N" and mk: "\<And>i. ss_id (mk i) = i" and n: "n = mk (t_seq N + 1)"
    and new: "\<not> snapshot_clash (ss_key n) (ss_job n) N"
    and src: "j \<in> set (t_rows J)" "r \<in> set (t_rows R)" "snapshot_of n j r"
  shows "snapshots_ok R J (table_insert mk N)"
proof -
  have "ss_key n \<notin> ss_key ` set (t_rows N)" "ss_job n \<notin> ss_job ` set (t_rows N)"
    using new by (auto simp: snapshot_clash_def)
  then show ?thesis
    using ok src keyed_insert [of ss_id ss_key N mk] mk by (auto simp: snapshots_ok_def n)
qed

lemma grades_ok_insert:
  assumes ok: "grades_ok J N G" and mk: "\<And>i. gj_id (mk i) = i" and g: "g = mk (t_seq G + 1)"
    and new: "gj_key g \<notin> gj_key ` set (t_rows G)" "grade_ok g"
    and src: "n \<in> set (t_rows N)" "j \<in> set (t_rows J)" "graded_from g n j"
  shows "grades_ok J N (table_insert mk G)"
  using ok new src keyed_insert [of gj_id gj_key G mk] mk by (auto simp: grades_ok_def g)

lemma grades_ok_change:
  assumes ok: "grades_ok J N G" and g: "g \<in> set (t_rows G)" "grade_step g g'"
  shows "grades_ok J N (table_update gj_id (gj_id g) (\<lambda>_. g') G)"
proof -
  have t: "table_ok gj_id G" using ok by (auto simp: grades_ok_def keyed_def)
  have k: "gj_id g' = gj_id g" "gj_key g' = gj_key g" "gj_snapshot g' = gj_snapshot g"
    "grade_inputs g' = grade_inputs g"
    using grade_step_pins [OF g(2)] by (auto simp: grade_pins_def)
  have "grade_ok g'" using grade_step_ok [OF g(2)] ok g(1) by (auto simp: grades_ok_def)
  moreover have "graded_from g n j \<Longrightarrow> graded_from g' n j" for n j
    using k by (simp add: graded_from_def)
  ultimately show ?thesis
    using ok g k keyed_replace [of gj_id gj_key G g g']
    unfolding grades_ok_def set_replace [OF t g(1) k(1)] by blast
qed

lemma run_unique:
  "db_ok s \<Longrightarrow> r \<in> set (t_rows (runs s)) \<Longrightarrow> r' \<in> set (t_rows (runs s)) \<Longrightarrow> rn_id r = rn_id r' \<Longrightarrow> r = r'"
  by (rule keyed_unique [of rn_id rn_key "runs s"]) (simp_all add: db_ok_def runs_ok_def)

theorem ledger_db_ok:
  assumes "ledger s s'" and ok: "db_ok s"
  shows "db_ok s'"
  using assms(1)
proof cases
  case (roster t)
  then show ?thesis
    using ok jobs_ok_mono [of "repositories s" "runs s" "jobs s" t "runs s"] by (simp add: db_ok_def)
next
  case (assignment t)
  then show ?thesis
    using ok schedules_ok_mono [of "assignments s" "schedules s" t]
      runs_ok_mono [of "assignments s" "schedules s" "runs s" t "schedules s"]
    by (simp add: db_ok_def)
next
  case (schedule t)
  then show ?thesis
    using ok runs_ok_mono [of "assignments s" "schedules s" "runs s" "assignments s" t]
    by (simp add: db_ok_def)
next
  case (run_new mk r)
  have R: "runs_ok (assignments s) (schedules s) (table_insert mk (runs s))"
    using ok run_new by (intro runs_ok_insert [of _ _ _ mk r]) (auto simp: db_ok_def)
  have J: "jobs_ok (repositories s) (table_insert mk (runs s)) (jobs s)"
    using ok jobs_ok_mono [of "repositories s" "runs s" "jobs s" "repositories s" "table_insert mk (runs s)"]
    by (simp add: db_ok_def ids_insert [of rn_id mk "runs s", OF run_new(2)] subset_insertI)
  have "snapshots_ok (table_insert mk (runs s)) (jobs s) (snapshots s)"
    using ok snapshots_ok_mono [OF _ rows_insert_subset subset_refl] by (simp add: db_ok_def)
  moreover have "verdicts_ok (table_insert mk (runs s)) (jobs s)"
    using ok run_new by (auto simp: db_ok_def verdicts_ok_def verdict_ok_def)
  ultimately show ?thesis using ok R J run_new(1) by (simp add: db_ok_def)
next
  case (run_change r r')
  note k = run_step_keeps [OF run_change(3)]
  have t: "table_ok rn_id (runs s)" using ok by (auto simp: db_ok_def runs_ok_def keyed_def)
  have "ids rn_id (table_update rn_id (rn_id r) (\<lambda>_. r') (runs s)) = ids rn_id (runs s)"
    using t run_change k by (intro ids_replace) auto
  then have "jobs_ok (repositories s) (table_update rn_id (rn_id r) (\<lambda>_. r') (runs s)) (jobs s)"
    using ok jobs_ok_mono [of "repositories s" "runs s" "jobs s" "repositories s"] by (simp add: db_ok_def)
  moreover have "verdicts_ok (table_update rn_id (rn_id r) (\<lambda>_. r') (runs s)) (jobs s)"
    using ok t run_change by (intro verdicts_ok_run) (auto simp: db_ok_def)
  ultimately show ?thesis
    using ok t run_change k runs_ok_change [OF _ run_change(2,3)] snapshots_ok_run [OF _ t run_change(2,3)]
    by (simp add: db_ok_def put_run_def)
next
  case (job_new mk j run)
  have "cj_run j \<in> ids rn_id (runs s)" using job_new(7,8) by (metis ids_def image_eqI)
  then have J: "jobs_ok (repositories s) (runs s) (table_insert mk (jobs s))"
    using ok job_new by (intro jobs_ok_insert [of _ _ _ mk j]) (auto simp: db_ok_def)
  have "snapshots_ok (runs s) (table_insert mk (jobs s)) (snapshots s)"
    using ok snapshots_ok_mono [OF _ subset_refl rows_insert_subset] by (simp add: db_ok_def)
  moreover have "grades_ok (table_insert mk (jobs s)) (snapshots s) (grades s)"
    using ok grades_ok_mono [OF _ rows_insert_subset subset_refl] by (simp add: db_ok_def)
  moreover have "verdicts_ok (runs s) (table_insert mk (jobs s))"
    unfolding verdicts_ok_def
  proof
    fix r assume r: "r \<in> set (t_rows (runs s))"
    have "r = run" if "rn_id r = cj_run j"
      using run_unique [OF ok r job_new(7)] job_new(8) that by simp
    then have "\<not> (rn_state r \<in> {RunSucceeded, RunPartial} \<and> cj_run j = rn_id r)"
      using job_new(9) by (auto simp: terminal_run_def)
    then show "verdict_ok (set (t_rows (table_insert mk (jobs s)))) r"
      using ok r verdict_ok_insert [of "set (t_rows (jobs s))" r j] job_new(3)
      by (simp add: db_ok_def verdicts_ok_def)
  qed
  ultimately show ?thesis using ok J job_new(1) by (simp add: db_ok_def)
next
  case (job_change j j')
  have t: "table_ok cj_id (jobs s)" using ok by (auto simp: db_ok_def jobs_ok_def keyed_def)
  have k: "cj_id j' = cj_id j" using job_step_pins [OF job_change(3)] by (auto simp: job_pins_def)
  have "verdicts_ok (runs s) (table_update cj_id (cj_id j) (\<lambda>_. j') (jobs s))"
    unfolding verdicts_ok_def set_replace [OF t job_change(2) k]
  proof
    fix r assume r: "r \<in> set (t_rows (runs s))"
    have "\<not> (cj_run j = rn_id r \<and> terminal_run (rn_state r))"
      if "x \<in> set (t_rows (runs s))" "rn_id x = cj_run j" "\<not> terminal_run (rn_state x)" for x
      using run_unique [OF ok r that(1)] that(2,3) by auto
    moreover have "verdict_ok (set (t_rows (jobs s))) r" using ok r by (simp add: db_ok_def verdicts_ok_def)
    ultimately show "verdict_ok (insert j' (set (t_rows (jobs s)) - {j})) r"
      using job_change(2-4) verdict_ok_change by blast
  qed
  then show ?thesis
    using ok t k job_change jobs_ok_change [OF _ job_change(2,3)] snapshots_ok_job [OF _ t job_change(2,3)]
      grades_ok_job [OF _ t job_change(2,3)]
    by (simp add: db_ok_def write_job_def)
next
  case (snapshot_new mk n j r)
  have "snapshots_ok (runs s) (jobs s) (table_insert mk (snapshots s))"
    using ok snapshot_new by (intro snapshots_ok_insert [of _ _ _ mk n j r]) (auto simp: db_ok_def)
  moreover have "grades_ok (jobs s) (table_insert mk (snapshots s)) (grades s)"
    using ok grades_ok_mono [OF _ subset_refl rows_insert_subset] by (simp add: db_ok_def)
  ultimately show ?thesis using ok snapshot_new(1) by (simp add: db_ok_def)
next
  case (grade_new mk g n j)
  have "grades_ok (jobs s) (snapshots s) (table_insert mk (grades s))"
    using ok grade_new by (intro grades_ok_insert [of _ _ _ mk g n j]) (auto simp: db_ok_def)
  then show ?thesis using ok grade_new(1) by (simp add: db_ok_def)
next
  case (grade_change g g')
  have "gj_id g' = gj_id g" using grade_step_pins [OF grade_change(3)] by (auto simp: grade_pins_def)
  then show ?thesis
    using ok grade_change grades_ok_change [OF _ grade_change(2,3)]
    by (simp add: db_ok_def write_grade_def)
qed

section \<open>What a ledger step never takes back\<close>

text \<open>Rows are never deleted; a snapshot is never rewritten, a terminal run, a succeeded job and
  a succeeded grade neither; the pinned columns of a job or grade stay what they were.\<close>

definition run_kept :: "run_row \<Rightarrow> run_row \<Rightarrow> bool" where
  "run_kept r r' = (rn_id r' = rn_id r \<and> rn_key r' = rn_key r \<and> rn_assignment r' = rn_assignment r \<and>
     rn_schedule r' = rn_schedule r \<and> rn_trigger r' = rn_trigger r \<and>
     rn_scheduled_for r' = rn_scheduled_for r \<and> (terminal_run (rn_state r) \<longrightarrow> r' = r))"

definition job_kept :: "job_row \<Rightarrow> job_row \<Rightarrow> bool" where
  "job_kept j j' = (job_pins j' = job_pins j \<and> cj_attempt j \<le> cj_attempt j' \<and>
     (cj_state j = JobSucceeded \<longrightarrow> j' = j))"

definition grade_kept :: "grade_row \<Rightarrow> grade_row \<Rightarrow> bool" where
  "grade_kept g g' = (grade_pins g' = grade_pins g \<and> gj_attempt g \<le> gj_attempt g' \<and>
     (gj_state g = JobSucceeded \<longrightarrow> g' = g))"

definition keeps_rows :: "('r \<Rightarrow> 'r \<Rightarrow> bool) \<Rightarrow> 'r table \<Rightarrow> 'r table \<Rightarrow> bool" where
  "keeps_rows rel t t' = (\<forall>r\<in>set (t_rows t). \<exists>r'\<in>set (t_rows t'). rel r r')"

definition keeps_all :: "store \<Rightarrow> store \<Rightarrow> bool" where
  "keeps_all s s' = (keeps_rows run_kept (runs s) (runs s') \<and> keeps_rows job_kept (jobs s) (jobs s') \<and>
     keeps_rows grade_kept (grades s) (grades s') \<and>
     prefix (t_rows (snapshots s)) (t_rows (snapshots s')))"

lemma keeps_rows_trans:
  assumes "\<And>x y z. rel x y \<Longrightarrow> rel y z \<Longrightarrow> rel x z" and "keeps_rows rel t t'" and "keeps_rows rel t' t''"
  shows "keeps_rows rel t t''"
  using assms unfolding keeps_rows_def by blast

lemma keeps_rows_superset:
  assumes "\<And>x. rel x x" and "set (t_rows t) \<subseteq> set (t_rows t')"
  shows "keeps_rows rel t t'"
  using assms unfolding keeps_rows_def by blast

lemma keeps_rows_insert: "(\<And>x. rel x x) \<Longrightarrow> keeps_rows rel t (table_insert mk t)"
  by (rule keeps_rows_superset) auto

lemma keeps_rows_replace:
  assumes "\<And>x. rel x x" and "table_ok rid t" and "r \<in> set (t_rows t)" and "rid r' = rid r" and "rel r r'"
  shows "keeps_rows rel t (table_update rid (rid r) (\<lambda>_. r') t)"
  using assms(1,5) unfolding keeps_rows_def set_replace [OF assms(2-4)] by blast

lemma kept_refl [simp]: "run_kept r r" "job_kept j j" "grade_kept g g"
  by (simp_all add: run_kept_def job_kept_def grade_kept_def)

lemma run_kept_trans: "run_kept x y \<Longrightarrow> run_kept y z \<Longrightarrow> run_kept x z"
  by (auto simp: run_kept_def)

lemma job_kept_trans: "job_kept x y \<Longrightarrow> job_kept y z \<Longrightarrow> job_kept x z"
  by (auto simp: job_kept_def)

lemma grade_kept_trans: "grade_kept x y \<Longrightarrow> grade_kept y z \<Longrightarrow> grade_kept x z"
  by (auto simp: grade_kept_def)

lemma keeps_all_refl: "keeps_all s s"
  by (simp add: keeps_all_def keeps_rows_superset)

lemmas rows_kept_trans =
  keeps_rows_trans [of run_kept, OF run_kept_trans] keeps_rows_trans [of job_kept, OF job_kept_trans]
  keeps_rows_trans [of grade_kept, OF grade_kept_trans]

lemma keeps_all_trans: "keeps_all s s' \<Longrightarrow> keeps_all s' s'' \<Longrightarrow> keeps_all s s''"
  unfolding keeps_all_def by (auto intro: rows_kept_trans prefix_order.trans)

lemma run_step_kept: "run_step J r r' \<Longrightarrow> run_kept r r'"
  using run_step_keeps run_step_not_terminal unfolding run_kept_def by blast

lemma job_step_kept:
  assumes "job_step j j'"
  shows "job_kept j j'"
proof -
  obtain b where "collecting.attempt_step b j j'" using job_step_machine [OF assms] ..
  then have "cj_attempt j \<le> cj_attempt j'" using collecting.step_counts by fastforce
  then show ?thesis
    using job_step_pins [OF assms] job_step_final [OF assms] by (auto simp: job_kept_def)
qed

lemma grade_step_kept:
  assumes "grade_step g g'"
  shows "grade_kept g g'"
proof -
  obtain b where "grading.attempt_step b g g'" using grade_step_machine [OF assms] ..
  then have "gj_attempt g \<le> gj_attempt g'" using grading.step_counts by fastforce
  then show ?thesis
    using grade_step_pins [OF assms] grade_step_final [OF assms] by (auto simp: grade_kept_def)
qed

lemma keeps_all_cong:
  assumes "keeps_rows run_kept (runs s) (runs s')" and "keeps_rows job_kept (jobs s) (jobs s')"
    and "keeps_rows grade_kept (grades s) (grades s')" and "prefix (t_rows (snapshots s)) (t_rows (snapshots s'))"
  shows "keeps_all s s'"
  using assms by (simp add: keeps_all_def)

lemma db_ok_tables:
  "db_ok s \<Longrightarrow> table_ok rn_id (runs s) \<and> table_ok cj_id (jobs s) \<and> table_ok gj_id (grades s) \<and>
     table_ok ss_id (snapshots s) \<and> table_ok rp_id (repositories s) \<and> table_ok as_id (assignments s) \<and>
     table_ok sc_id (schedules s)"
  by (simp add: db_ok_def runs_ok_def jobs_ok_def grades_ok_def snapshots_ok_def schedules_ok_def
      roster_ok_def keyed_def)

theorem ledger_keeps:
  assumes "ledger s s'" and ok: "db_ok s"
  shows "keeps_all s s'"
  using assms(1)
proof cases
  case (run_change r r')
  have "keeps_rows run_kept (runs s) (table_update rn_id (rn_id r) (\<lambda>_. r') (runs s))"
    using db_ok_tables [OF ok] run_change run_step_kept run_step_keeps by (intro keeps_rows_replace) auto
  then show ?thesis
    using run_change run_step_keeps [OF run_change(3)]
    by (intro keeps_all_cong) (auto simp: put_run_def keeps_rows_superset)
next
  case (job_change j j')
  have k: "cj_id j' = cj_id j" using job_step_pins [OF job_change(3)] by (simp add: job_pins_def)
  have "keeps_rows job_kept (jobs s) (table_update cj_id (cj_id j) (\<lambda>_. j') (jobs s))"
    using db_ok_tables [OF ok] job_change job_step_kept k by (intro keeps_rows_replace) auto
  then show ?thesis
    using job_change k by (intro keeps_all_cong) (auto simp: write_job_def keeps_rows_superset)
next
  case (grade_change g g')
  have k: "gj_id g' = gj_id g" using grade_step_pins [OF grade_change(3)] by (simp add: grade_pins_def)
  have "keeps_rows grade_kept (grades s) (table_update gj_id (gj_id g) (\<lambda>_. g') (grades s))"
    using db_ok_tables [OF ok] grade_change grade_step_kept k by (intro keeps_rows_replace) auto
  then show ?thesis
    using grade_change k by (intro keeps_all_cong) (auto simp: write_grade_def keeps_rows_superset)
qed (auto intro!: keeps_all_cong simp: keeps_rows_superset keeps_rows_insert)

section \<open>Runs of the ledger\<close>

lemma ledger_star_ok: "ledger\<^sup>*\<^sup>* s s' \<Longrightarrow> db_ok s \<Longrightarrow> db_ok s'"
  by (induction rule: rtranclp_induct) (auto dest: ledger_db_ok)

lemma ledger_star_keeps: "ledger\<^sup>*\<^sup>* s s' \<Longrightarrow> db_ok s \<Longrightarrow> keeps_all s s'"
proof (induction rule: rtranclp_induct)
  case (step t u)
  then show ?case
    using ledger_star_ok [OF step.hyps(1)] ledger_keeps keeps_all_trans by blast
qed (rule keeps_all_refl)

lemma db_ok_init: "db_ok init_store"
  by (simp add: db_ok_def init_store_def roster_ok_def clash_free_def keyed_def schedules_ok_def
      runs_ok_def jobs_ok_def snapshots_ok_def grades_ok_def verdicts_ok_def)

end
