(* ===== verification/Store_Refinement.thy ===== *)
theory Store_Refinement
  imports Store_Ledger
begin

text \<open>
  Every public operation of \<open>StateStore\<close> that writes is a sequence of ledger steps, whatever its
  arguments and its clock, and whether it succeeds or raises. \<open>store_step\<close> is the step relation
  of the program: one operation call. The reachable stores are those a sequence of calls makes
  from a freshly migrated database.
\<close>

section \<open>Roster, assignments, schedules\<close>

abbreviation ledgers :: "store \<Rightarrow> store \<Rightarrow> bool" where
  "ledgers \<equiv> ledger\<^sup>*\<^sup>*"

lemmas ledgers_intros =
  checked_keeps [where P = "ledgers s" for s] txn_keeps [where P = "ledgers s" for s]
  after_keeps [where P = "ledgers s" for s]

lemma upsert_repo_ids:
  assumes "roster_ok t" and "upsert_repo now sp t = Inr (row, t')"
  shows "ids rp_id t \<subseteq> ids rp_id t'"
  using assms(2)
proof (cases rule: upsert_repo_cases)
  case (new meta)
  then show ?thesis by (auto simp: ids_def)
next
  case (old meta r0)
  have "r0 \<in> set (t_rows t)" using old(1) select_by_SomeD by fast
  then show ?thesis
    using old assms(1) ids_replace [of rp_id t r0 row] by (simp add: roster_ok_def)
qed

lemma upsert_repos_ids:
  assumes "roster_ok t" and "\<forall>sp\<in>set sps. spec_ok sp" and "upsert_repos now sps t = Inr (rows, t')"
  shows "ids rp_id t \<subseteq> ids rp_id t'"
  using assms
proof (induction sps arbitrary: t rows)
  case (Cons sp sps)
  from Cons.prems(3) obtain row t1 rows' where u: "upsert_repo now sp t = Inr (row, t1)"
    and us: "upsert_repos now sps t1 = Inr (rows', t')"
    by (auto simp: rbind_Inr_iff)
  have "roster_ok t1" using upsert_repo_ok [OF Cons.prems(1) _ u] Cons.prems(2) by simp
  with Cons.IH [OF _ _ us] Cons.prems(2) upsert_repo_ids [OF Cons.prems(1) u] show ?case by auto
qed simp

lemma normalized_specs: "rmapM normalize_spec specs = Inr sps \<Longrightarrow> \<forall>sp\<in>set sps. spec_ok sp"
  by (drule rmapM_all2, induction rule: list_all2_induct) (auto dest: normalize_spec_ok)

lemma upsert_repositories_ledger:
  assumes ok: "db_ok s"
  shows "ledgers s (snd (upsert_repositories now specs s))"
proof -
  have "ledger s (s\<lparr>repositories := t\<rparr>)"
    if "rmapM normalize_spec specs = Inr sps" "upsert_repos n sps (repositories s) = Inr (rows, t)" for n sps rows t
    using ok normalized_specs [OF that(1)] that(2) upsert_repos_ok upsert_repos_ids
    by (intro ledger.roster) (auto simp: db_ok_def)
  then show ?thesis
    by (auto simp: upsert_repositories_def checked_def txn_def rbind_Inr_iff split: sum.split)
qed

lemma upsert_repository_ledger: "db_ok s \<Longrightarrow> ledgers s (snd (upsert_repository now sp s))"
  unfolding upsert_repository_def snd_after by (rule upsert_repositories_ledger)

text \<open>The upsert pattern: replace the row found under the key, or insert a new one.\<close>

lemma upserted:
  assumes k: "keyed rid key t" and f: "select_by key k (t_rows t) = Some old"
    and r: "rid r = rid old" "key r = k"
  shows "keyed rid key (table_update rid (rid old) (\<lambda>_. r) t)"
    and "ids rid t \<subseteq> ids rid (table_update rid (rid old) (\<lambda>_. r) t)"
    and "set (t_rows (table_update rid (rid old) (\<lambda>_. r) t)) \<subseteq> insert r (set (t_rows t))"
proof -
  have o: "old \<in> set (t_rows t)" "key r = key old" using select_by_SomeD [OF f] r by auto
  show "keyed rid key (table_update rid (rid old) (\<lambda>_. r) t)"
    using keyed_replace [OF k o(1) r(1) o(2)] .
  show "ids rid t \<subseteq> ids rid (table_update rid (rid old) (\<lambda>_. r) t)"
    using ids_replace [OF keyed_tableD [OF k] o(1) r(1)] by simp
  show "set (t_rows (table_update rid (rid old) (\<lambda>_. r) t)) \<subseteq> insert r (set (t_rows t))"
    by (auto simp: set_update_by)
qed

lemma inserted:
  assumes "keyed rid key t" and "select_by key k (t_rows t) = None"
    and "\<And>i. rid (mk i) = i" "\<And>i. key (mk i) = k"
  shows "keyed rid key (table_insert mk t)" and "ids rid t \<subseteq> ids rid (table_insert mk t)"
  using assms keyed_insert [of rid key t mk] ids_insert [of rid mk t]
  by (auto simp: select_by_None_iff)

lemma upsert_assignment_ledger:
  assumes ok: "db_ok s"
  shows "ledgers s (snd (upsert_assignment now sp s))"
proof -
  have k: "keyed as_id as_key (assignments s)" using ok by (simp add: db_ok_def)
  have upd: "ledgers s (s\<lparr>assignments := table_update as_id (as_id old) (\<lambda>_. r) (assignments s)\<rparr>)"
    if "select_by as_key x (t_rows (assignments s)) = Some old" "as_id r = as_id old" "as_key r = x" for x old r
    using upserted [OF k that] by (intro r_into_rtranclp ledger.assignment)
  have ins: "ledgers s (s\<lparr>assignments := table_insert mk (assignments s)\<rparr>)"
    if "select_by as_key x (t_rows (assignments s)) = None" "\<And>i. as_id (mk i) = i" "\<And>i. as_key (mk i) = x" for x mk
    using inserted [OF k that] by (intro r_into_rtranclp ledger.assignment)
  show ?thesis
    unfolding upsert_assignment_def
    by (intro ledgers_intros rtranclp.rtrancl_refl)
      (clarsimp simp: rbind_Inr_iff Let_def, auto simp: Let_def split: option.split_asm intro: upd ins)
qed

lemma schedule_changed:
  assumes ok: "db_ok s" and t: "keyed sc_id sc_key t" "ids sc_id (schedules s) \<subseteq> ids sc_id t"
    and r: "set (t_rows t) \<subseteq> insert r (set (t_rows (schedules s)))"
      "sc_assignment r \<in> ids as_id (assignments s)" "0 < sc_interval r"
  shows "ledgers s (s\<lparr>schedules := t\<rparr>)"
  using ok t r by (intro r_into_rtranclp ledger.schedule) (auto simp: db_ok_def schedules_ok_def)

lemma select_by_ids: "select_by rid i (t_rows t) = Some r \<Longrightarrow> i \<in> ids rid t"
  by (auto simp: ids_def dest: select_by_SomeD)

lemma upsert_schedule_ledger:
  assumes ok: "db_ok s"
  shows "ledgers s (snd (upsert_schedule now key a i nxt tz policy enabled s))"
proof -
  have k: "keyed sc_id sc_key (schedules s)" using ok by (simp add: db_ok_def schedules_ok_def)
  have upd: "ledgers s (s\<lparr>schedules := table_update sc_id (sc_id old) (\<lambda>_. r) (schedules s)\<rparr>)"
    if "select_by sc_key x (t_rows (schedules s)) = Some old" "sc_id r = sc_id old" "sc_key r = x"
      "select_by as_id (sc_assignment r) (t_rows (assignments s)) = Some row" "0 < sc_interval r" for x old r row
    using upserted [OF k that(1-3)] that(4,5)
    by (intro schedule_changed [OF ok]) (auto dest: select_by_ids)
  have ins: "ledgers s (s\<lparr>schedules := table_insert mk (schedules s)\<rparr>)"
    if "select_by sc_key x (t_rows (schedules s)) = None" "\<And>i. sc_id (mk i) = i" "\<And>i. sc_key (mk i) = x"
      "\<And>i. sc_assignment (mk i) = a" "select_by as_id a (t_rows (assignments s)) = Some row"
      "\<And>i. 0 < sc_interval (mk i)" for x mk row
    using inserted [OF k that(1-3)] that(4-6)
    by (intro schedule_changed [OF ok]) (auto dest: select_by_ids)
  have key_kept: "sc_key old = x" if "select_by sc_key x (t_rows (schedules s)) = Some old" for x old
    using that select_by_SomeD by fast
  show ?thesis
    unfolding upsert_schedule_def
    by (intro ledgers_intros rtranclp.rtrancl_refl)
      (auto simp: rbind_Inr_iff require_row_Inr_iff Let_def key_kept split: option.split_asm
        intro!: ledgers_intros upd ins)
qed

lemma mark_schedule_fired_ledger:
  assumes ok: "db_ok s"
  shows "ledgers s (snd (mark_schedule_fired now i f n s))"
proof -
  have S: "schedules_ok (assignments s) (schedules s)" using ok by (simp add: db_ok_def)
  have "ledgers s (s\<lparr>schedules := table_update sc_id i (\<lambda>_. r) (schedules s)\<rparr>)"
    if "select_by sc_id i (t_rows (schedules s)) = Some old" "sc_id r = sc_id old" "sc_key r = sc_key old"
      "sc_assignment r = sc_assignment old" "sc_interval r = sc_interval old" for old r
  proof -
    have o: "old \<in> set (t_rows (schedules s))" "sc_id old = i" using that(1) select_by_SomeD by fast+
    have k: "keyed sc_id sc_key (schedules s)" using S by (simp add: schedules_ok_def)
    show ?thesis
      using S o that keyed_replace [OF k o(1) that(2,3)] ids_replace [OF keyed_tableD [OF k] o(1) that(2)]
        set_replace [OF keyed_tableD [OF k] o(1) that(2)]
      by (intro schedule_changed [OF ok]) (auto simp: schedules_ok_def)
  qed
  then show ?thesis
    unfolding mark_schedule_fired_def
    by (intro ledgers_intros rtranclp.rtrancl_refl)
      (auto simp: rbind_Inr_iff require_row_Inr_iff Let_def intro!: ledgers_intros split: if_split_asm)
qed

section \<open>Runs\<close>

lemma new_run_key: "rn_key (new_run now key a k tr sc i) = key"
  by (simp add: new_run_def)

lemma create_collection_run_ledger:
  "ledgers s (snd (create_collection_run now key a sched k trig s))"
proof -
  have ins: "ledgers s s'"
    if r: "insert_run (new_run now x a k tr sc) s = Inr (row, s')"
      and p: "select_by as_id a (t_rows (assignments s)) = Some asg"
        "\<forall>c. k = Some c \<longrightarrow> (\<exists>sc. select_by sc_id c (t_rows (schedules s)) = Some sc)"
    for x tr sc row asg s'
  proof (cases rule: insert_run_cases [OF r new_run_key, case_names existing fresh])
    case fresh
    have "ledger s (s\<lparr>runs := table_insert (new_run now x a k tr sc) (runs s)\<rparr>)"
      using p fresh(1) by (intro ledger.run_new [of _ row])
        (auto simp: new_run_def fresh(2) select_by_None_iff dest: select_by_ids)
    then show ?thesis using fresh(3) by simp
  qed simp
  show ?thesis
    unfolding create_collection_run_def
    by (intro ledgers_intros rtranclp.rtrancl_refl)
      (auto simp: rbind_Inr_iff require_row_Inr_iff split: option.split_asm if_split_asm intro: ins)
qed

lemma run_changed:
  assumes "db_ok s" and "select_by rn_id i (t_rows (runs s)) = Some r"
    and "run_step (set (t_rows (jobs s))) r r'"
  shows "ledgers s (s\<lparr>runs := table_update rn_id i (\<lambda>_. r') (runs s)\<rparr>)"
proof -
  have "r \<in> set (t_rows (runs s))" "rn_id r' = i"
    using select_by_SomeD [OF assms(2)] run_step_keeps [OF assms(3)] by auto
  then show ?thesis using ledger.run_change [OF _ assms(3)] by (auto simp: put_run_def)
qed

text \<open>The public callers of \<open>_transition_collection_run\<close> move to \<open>running\<close> and \<open>failed\<close> only.\<close>

definition moved_run :: "run_state \<Rightarrow> string \<Rightarrow> string option \<Rightarrow> run_row \<Rightarrow> run_row" where
  "moved_run target t msg r = r\<lparr>rn_state := target,
     rn_started := (if target = RunRunning \<and> rn_started r = None then Some t else rn_started r),
     rn_finished := (if terminal_run target then Some t else None), rn_error := msg\<rparr>"

lemma moved_run_step:
  assumes "target \<in> {RunRunning, RunFailed}" and "target = RunRunning \<longrightarrow> msg = None"
    and a: "target \<in> allowed_run (rn_state r)"
  shows "run_step J r (moved_run target t msg r)"
proof (cases "target = RunRunning")
  case True
  then have "rn_state r = RunQueued" using a by (cases "rn_state r") auto
  then show ?thesis using True assms(2) run_step.start by (simp add: moved_run_def terminal_run_def)
next
  case False
  then have "target = RunFailed" "\<not> terminal_run (rn_state r)"
    using assms(1) a by (cases "rn_state r"; auto simp: terminal_run_def)+
  then show ?thesis
    using run_step.fail by (simp add: moved_run_def terminal_run_def)
qed

lemma transition_ledger:
  assumes ok: "db_ok s" and "target \<in> {RunRunning, RunFailed}" "target = RunRunning \<longrightarrow> msg = None"
  shows "ledgers s (snd (transition_collection_run now i target at_v msg s))"
  unfolding transition_collection_run_def Let_def moved_run_def [symmetric]
  by (intro ledgers_intros rtranclp.rtrancl_refl)
    (auto simp: rbind_Inr_iff require_row_Inr_iff split: if_split_asm
      intro!: run_changed [OF ok] moved_run_step assms(2,3))

lemma start_collection_run_ledger: "db_ok s \<Longrightarrow> ledgers s (snd (start_collection_run now i at_v s))"
  unfolding start_collection_run_def by (rule transition_ledger) simp_all

lemma fail_collection_run_ledger: "db_ok s \<Longrightarrow> ledgers s (snd (fail_collection_run now i msg at_v s))"
  unfolding fail_collection_run_def by (intro ledgers_intros rtranclp.rtrancl_refl transition_ledger) simp_all

lemma complete_collection_run_ledger:
  assumes ok: "db_ok s"
  shows "ledgers s (snd (complete_collection_run now i at_v s))"
proof (cases "fst (complete_collection_run now i at_v s)")
  case (Inl e)
  then have "snd (complete_collection_run now i at_v s) = s"
    by (auto simp: complete_collection_run_def checked_def txn_def rmap_def split: sum.splits)
  then show ?thesis by simp
next
  case (Inr run')
  then show ?thesis
  proof (cases rule: complete_collection_run_cases)
    case (completed run t)
    have "set (run_jobs i s) = {j \<in> set (t_rows (jobs s)). cj_run j = rn_id run}"
      using completed(1) select_by_SomeD by (fastforce simp: run_jobs_def)
    then have "run_step (set (t_rows (jobs s))) run run'"
      unfolding completed(5) using completed by (intro run_step.verdict) auto
    then show ?thesis using run_changed [OF ok completed(1)] completed(6) by simp
  qed simp
qed

section \<open>Jobs\<close>

lemma job_changed:
  assumes "select_by cj_id i (t_rows (jobs s)) = Some j" and "job_step j j'"
    and "cj_state j = JobRunning \<or> cj_state j' = JobFailed \<or>
     (\<exists>run\<in>set (t_rows (runs s)). rn_id run = cj_run j \<and> \<not> terminal_run (rn_state run))"
  shows "ledgers s (write_job j' s)"
  using assms select_by_SomeD [OF assms(1)] by (intro r_into_rtranclp ledger.job_change) auto

lemma claim_collection_job_ledger: "ledgers s (snd (claim_collection_job now i at_v s))"
  unfolding claim_collection_job_def
  by (intro ledgers_intros rtranclp.rtrancl_refl)
    (auto simp: rbind_Inr_iff require_row_Inr_iff split: if_split_asm dest!: select_by_SomeD [of rn_id]
      intro!: job_changed job_step.claim)

lemma record_collection_fetch_ledger: "ledgers s (snd (record_collection_fetch i new old force s))"
  unfolding record_collection_fetch_def
  by (intro ledgers_intros rtranclp.rtrancl_refl)
    (auto simp: rbind_Inr_iff require_row_Inr_iff Let_def split: if_split_asm
      intro!: job_changed job_step.fetch dest: oid.stable optional_oid_stable)

lemma complete_in_connection_ledger:
  assumes "git_oid new = Inr new" and "optional_oid old = Inr old" and "t \<noteq> []"
    and "complete_collection_job_in_connection i new old force t s = Inr (row, s')"
  shows "ledgers s s'"
  using assms unfolding complete_collection_job_in_connection_def
  by (auto simp: rbind_Inr_iff require_row_Inr_iff Let_def split: if_split_asm
      intro!: job_changed job_step.complete)

lemma complete_collection_job_ledger: "ledgers s (snd (complete_collection_job now i new old force at_v s))"
  unfolding complete_collection_job_def
  by (intro ledgers_intros rtranclp.rtrancl_refl)
    (auto intro: complete_in_connection_ledger dest: oid.stable optional_oid_stable utc_iso_not_empty)

lemma fail_collection_job_ledger: "ledgers s (snd (fail_collection_job now i c m at_v s))"
  unfolding fail_collection_job_def
  by (intro ledgers_intros rtranclp.rtrancl_refl)
    (auto simp: rbind_Inr_iff require_row_Inr_iff Let_def fail_job_def split: if_split_asm
      intro!: job_changed job_step.fail [unfolded fail_job_def])

section \<open>New jobs\<close>

lemma set_show_int: "c \<in> set (show_int i) \<Longrightarrow> \<not> py_space c"
  using set_show_nat digit_char_not_space by (fastforce simp: show_int_def py_space_def split: if_split_asm)

lemma cache_key_text: "required_text (cache_key r) = Inr (cache_key r)"
proof -
  have "\<forall>c\<in>set (cache_key r). \<not> py_space c"
    by (auto simp: cache_key_def py_space_def dest: set_show_int split: option.split)
  moreover have "cache_key r \<noteq> []" by (simp add: cache_key_def split: option.split)
  ultimately show ?thesis by (simp add: required_text_iff strip_if_no_space)
qed

lemma clone_url_text: "clone_url v = Inr u \<Longrightarrow> required_text u = Inr u"
  by (auto simp: clone_url_def rbind_Inr_iff dest: required.stable split: if_split_asm)

lemma new_job_ok:
  assumes "pin_assignment a = Inr pins" and "clone_url v = Inr url" and "0 < m"
  shows "job_ok (new_job key run repo target url (cache_key r) pins m req i)"
  using assms(1,3) clone_url_text [OF assms(2)] cache_key_text [of r]
  by (auto simp: job_ok_def new_job_def collecting.machine_ok_def pins_ok_def sha_ok_def text_pinned_def
      digest_pinned_def pin_assignment_def rbind_Inr_iff dest: required.stable digest.stable)

lemma new_job_fields [simp]:
  "cj_id (new_job key run repo target url ck pins m req i) = i"
  "cj_key (new_job key run repo target url ck pins m req i) = key"
  "cj_run (new_job key run repo target url ck pins m req i) = run"
  "cj_repo (new_job key run repo target url ck pins m req i) = repo"
  "cj_state (new_job key run repo target url ck pins m req i) = JobQueued"
  by (simp_all add: new_job_def)

lemma job_added:
  assumes "pin_assignment a = Inr pins" and "clone_url v = Inr url" and "0 < m"
    and "\<not> job_clash key i repo (jobs s)" and "select_by rn_id i (t_rows (runs s)) = Some run"
    and "\<not> terminal_run (rn_state run)" "\<not> rn_pinned run" and "repo \<in> ids rp_id (repositories s)"
  shows "ledger s (s\<lparr>jobs := table_insert (new_job key i repo target url (cache_key r) pins m req) (jobs s)\<rparr>)"
  using assms select_by_SomeD [OF assms(5)] new_job_ok [OF assms(1-3)]
  by (intro ledger.job_new [of "new_job key i repo target url (cache_key r) pins m req" _ s run]) auto

lemma pin_repositories_ledger:
  assumes "pin_repositories i at_v pins m req rs (jobs s) = Inr t"
    and "pin_assignment a = Inr pins" and "0 < m" and "select_by rn_id i (t_rows (runs s)) = Some run"
    and "\<not> terminal_run (rn_state run)" "\<not> rn_pinned run" and "set rs \<subseteq> set (t_rows (repositories s))"
  shows "ledgers s (s\<lparr>jobs := t\<rparr>)"
  using assms(1,4,7)
proof (induction rs arbitrary: s)
  case (Cons r rs)
  from Cons.prems(1) obtain target url where
    u: "clone_url (rp_clone_url r) = Inr url" "\<not> job_clash (pin_key i (rp_id r)) i (rp_id r) (jobs s)"
    and rest: "pin_repositories i at_v pins m req rs
      (table_insert (new_job (pin_key i (rp_id r)) i (rp_id r) target url (cache_key r) pins m req) (jobs s)) = Inr t"
    by (auto simp: rbind_Inr_iff split: if_split_asm)
  let ?s = "s\<lparr>jobs := table_insert (new_job (pin_key i (rp_id r)) i (rp_id r) target url (cache_key r) pins m req) (jobs s)\<rparr>"
  have "ledger s ?s"
    using Cons.prems by (intro job_added [OF assms(2) u(1) assms(3) u(2) Cons.prems(2) assms(5,6)]) (auto simp: ids_def)
  moreover have "ledgers ?s (?s\<lparr>jobs := t\<rparr>)"
    using Cons.prems rest by (intro Cons.IH) auto
  ultimately show ?case by (simp add: converse_rtranclp_into_rtranclp)
next
  case Nil
  then have "s\<lparr>jobs := t\<rparr> = s" by (cases s) simp
  then show ?case by simp
qed

lemma pin_repositories_runs:
  assumes "pin_repositories i at_v pins m req rs t = Inr t'"
  shows "set (t_rows t) \<subseteq> set (t_rows t')" and "\<forall>r\<in>set rs. \<exists>j\<in>set (t_rows t'). cj_run j = i \<and> cj_repo j = rp_id r"
  using assms
proof (induction rs arbitrary: t)
  case (Cons r rs)
  case 1
  then show ?case using Cons.IH(1) by (fastforce simp: rbind_Inr_iff split: if_split_asm)
next
  case (Cons r rs)
  case 2
  then obtain target url where
    rest: "pin_repositories i at_v pins m req rs
      (table_insert (new_job (pin_key i (rp_id r)) i (rp_id r) target url (cache_key r) pins m req) t) = Inr t'"
    by (auto simp: rbind_Inr_iff split: if_split_asm)
  have "new_job (pin_key i (rp_id r)) i (rp_id r) target url (cache_key r) pins m req (t_seq t + 1) \<in> set (t_rows t')"
    using Cons.IH(1) [OF rest] by auto
  then show ?case using Cons.IH(2) [OF rest] by (auto intro: bexI [rotated])
qed auto

lemma pin_ledger:
  assumes ok: "db_ok s"
  shows "ledgers s (snd (pin_collection_jobs_for_active_repositories i m s))"
proof -
  have L: "set (list_repositories True s) \<subseteq> set (t_rows (repositories s))"
    by (auto simp: list_repositories_def)
  have "ledgers s (s\<lparr>jobs := t, runs := table_update rn_id i (\<lambda>r. if rn_pinned r then r else r\<lparr>rn_pinned := True\<rparr>) (runs s)\<rparr>)"
    if p: "pin_repositories i at_v pins m req (list_repositories True s) (jobs s) = Inr t"
      "pin_assignment a = Inr pins" "0 < m" "select_by rn_id i (t_rows (runs s)) = Some run"
      "\<not> terminal_run (rn_state run)" "\<not> rn_pinned run" "list_repositories True s \<noteq> []"
    for at_v pins req t a run
  proof -
    let ?s = "s\<lparr>jobs := t\<rparr>"
    have l: "ledgers s ?s" using pin_repositories_ledger [OF p(1-6) L] .
    have r: "run \<in> set (t_rows (runs s))" "rn_id run = i" using p(4) select_by_SomeD by fast+
    have "\<exists>j\<in>set (t_rows t). cj_run j = i"
      using pin_repositories_runs(2) [OF p(1)] p(7) by (meson list.set_sel(1))
    then have "run_step (set (t_rows (jobs ?s))) run (run\<lparr>rn_pinned := True\<rparr>)"
      using p(5) r by (intro run_step.pin) auto
    then have "ledgers ?s (?s\<lparr>runs := table_update rn_id i (\<lambda>_. run\<lparr>rn_pinned := True\<rparr>) (runs ?s)\<rparr>)"
      using ledger_star_ok [OF l ok] p(4) by (intro run_changed) auto
    moreover have "table_update rn_id i (\<lambda>r. if rn_pinned r then r else r\<lparr>rn_pinned := True\<rparr>) (runs s) =
        table_update rn_id i (\<lambda>_. run\<lparr>rn_pinned := True\<rparr>) (runs s)"
      using run_unique [OF ok _ r(1)] r(2) p(6) by (auto simp: table_update_def update_by_def)
    ultimately show ?thesis using l by simp
  qed
  note pinned = this
  show ?thesis
  proof (cases "m \<le> 0")
    case False
    then have m: "0 < m" by simp
    show ?thesis
      unfolding pin_collection_jobs_for_active_repositories_def if_not_P [OF False]
      by (intro ledgers_intros rtranclp.rtrancl_refl)
        (auto simp: rbind_Inr_iff require_row_Inr_iff Let_def split: if_split_asm intro: pinned m)
  qed (simp add: pin_collection_jobs_for_active_repositories_def)
qed

lemma ensure_collection_job_ledger:
  "ledgers s (snd (ensure_collection_job now key i repo target m req s))"
proof -
  have ins: "ledgers s s'"
    if j: "insert_job (new_job x i repo tg url (cache_key r) pins m rq) s = Inr (row, s')"
      and p: "pin_assignment a = Inr pins" "clone_url v = Inr url" "0 < m"
      "select_by rn_id i (t_rows (runs s)) = Some run"
      "select_by cj_key x (t_rows (jobs s)) = None \<longrightarrow> \<not> rn_pinned run"
      "select_by cj_key x (t_rows (jobs s)) = None \<longrightarrow> \<not> terminal_run (rn_state run)"
      "select_by rp_id repo (t_rows (repositories s)) = Some r0"
    for x tg url r pins rq a v run r0 row s'
  proof (cases rule: insert_job_cases [OF j new_job_fields(2), case_names existing fresh])
    case fresh
    then show ?thesis
      using p by (auto intro!: r_into_rtranclp job_added dest: select_by_ids)
  qed simp
  show ?thesis
    unfolding ensure_collection_job_def
    by (intro ledgers_intros rtranclp.rtrancl_refl)
      (auto simp: rbind_Inr_iff require_row_Inr_iff Let_def not_le split: if_split_asm intro: ins)
qed

section \<open>Snapshots and grades\<close>

lemma create_snapshot_ledger:
  assumes "create_snapshot_in_connection now key i c p d sp f t l s = Inr (row, s')"
  shows "ledgers s s'"
  using assms
proof (cases rule: create_snapshot_cases)
  case (fresh mk job run)
  have "job \<in> set (t_rows (jobs s))" "run \<in> set (t_rows (runs s))"
    using fresh(6,7) select_by_SomeD by fast+
  then show ?thesis
    using fresh by (auto intro!: r_into_rtranclp ledger.snapshot_new)
qed simp

lemma create_submission_snapshot_ledger:
  "ledgers s (snd (create_submission_snapshot now key i c p d sp f t l s))"
  unfolding create_submission_snapshot_def
  by (intro ledgers_intros rtranclp.rtrancl_refl) (rule create_snapshot_ledger)

lemma complete_collection_with_snapshot_ledger:
  "ledgers s (snd (complete_collection_with_snapshot now i new key p old force d sp f t l at_v s))"
proof -
  have "ledgers s s2"
    if "git_oid new = Inr n" "optional_oid old = Inr o'" "utc_iso now at_v = Inr fin"
      "complete_collection_job_in_connection i n o' force fin s = Inr (row, s1)"
      "create_snapshot_in_connection now k i n p' d sp f t lv s1 = Inr (snap, s2)" for n o' fin row s1 k p' lv snap s2
    using complete_in_connection_ledger [OF oid.stable [OF that(1)] optional_oid_stable [OF that(2)]
        utc_iso_not_empty [OF that(3)] that(4)]
      create_snapshot_ledger [OF that(5)] by (rule rtranclp_trans)
  then show ?thesis
    unfolding complete_collection_with_snapshot_def
    by (intro ledgers_intros rtranclp.rtrancl_refl) (auto simp: rbind_Inr_iff)
qed

lemma new_grade_ok:
  "0 < gj_max_attempts g \<Longrightarrow> gj_state g = JobQueued \<Longrightarrow> gj_attempt g = 0 \<Longrightarrow> gj_score g = None \<Longrightarrow> grade_ok g"
  by (simp add: grade_ok_def grading.machine_ok_def score_ok_def)

lemma new_grade_key: "gj_key (new_grade key sn a d r v mx m req i) = key"
  by (simp add: new_grade_def)

lemma ensure_grade_job_ledger:
  "ledgers s (snd (ensure_grade_job now key sn a r v d mx m req s))"
proof -
  have ins: "ledgers s s'"
    if g: "insert_grade (new_grade x sn ad dd rd rv mv m rq) s = Inr (row, s')"
      and p: "0 < m" "select_by ss_id sn (t_rows (snapshots s)) = Some n"
      "select_by cj_id (ss_job n) (t_rows (jobs s)) = Some j" "cj_pinned j"
      "(ad, dd, rd, Some rv, mv) = job_inputs j" for x ad dd rd rv mv rq row s' n j
  proof (cases rule: insert_grade_cases [OF g new_grade_key, case_names existing fresh])
    case fresh
    have m: "n \<in> set (t_rows (snapshots s))" "ss_id n = sn" "j \<in> set (t_rows (jobs s))" "cj_id j = ss_job n"
      using p(2,3) select_by_SomeD by fast+
    then have "graded_from row n j"
      unfolding graded_from_def fresh(2) new_grade_def grade_inputs_def using p(4,5) by simp
    moreover have "grade_ok row" using p(1) by (intro new_grade_ok) (simp_all add: fresh(2) new_grade_def)
    ultimately have "ledger s s'"
      using fresh m unfolding fresh(3)
      by (intro ledger.grade_new [of _ row s n j]) (auto simp: new_grade_def select_by_None_iff)
    then show ?thesis by (rule r_into_rtranclp)
  qed simp
  show ?thesis
    unfolding ensure_grade_job_def
    by (intro ledgers_intros rtranclp.rtrancl_refl)
      (auto simp: rbind_Inr_iff require_row_Inr_iff not_le split: if_split_asm intro: ins)
qed

lemma grade_changed:
  assumes "select_by gj_id i (t_rows (grades s)) = Some g" and "grade_step g g'"
  shows "ledgers s (write_grade g' s)"
  using assms select_by_SomeD [OF assms(1)] by (intro r_into_rtranclp ledger.grade_change) auto

lemma claim_grade_job_ledger: "ledgers s (snd (claim_grade_job now i at_v s))"
  unfolding claim_grade_job_def
  by (intro ledgers_intros rtranclp.rtrancl_refl)
    (auto simp: rbind_Inr_iff require_row_Inr_iff split: if_split_asm intro!: grade_changed grade_step.claim)

lemma complete_grade_job_ledger: "ledgers s (snd (complete_grade_job now i sc res mx at_v s))"
  unfolding complete_grade_job_def
  by (intro ledgers_intros rtranclp.rtrancl_refl)
    (auto simp: rbind_Inr_iff require_row_Inr_iff Let_def dest: optional_non_negative
      split: if_split_asm option.split_asm intro!: grade_changed grade_step.complete)

lemma fail_grade_job_ledger: "ledgers s (snd (fail_grade_job now i c m at_v s))"
  unfolding fail_grade_job_def
  by (intro ledgers_intros rtranclp.rtrancl_refl)
    (auto simp: rbind_Inr_iff require_row_Inr_iff Let_def split: if_split_asm intro!: grade_changed grade_step.fail)

section \<open>The program's steps\<close>

inductive store_step :: "store \<Rightarrow> store \<Rightarrow> bool" where
  "store_step s (snd (upsert_repositories now specs s))"
| "store_step s (snd (upsert_repository now spec s))"
| "store_step s (snd (upsert_assignment now aspec s))"
| "store_step s (snd (upsert_schedule now key i n at_v tz policy enabled s))"
| "store_step s (snd (mark_schedule_fired now i at_v at_v2 s))"
| "store_step s (snd (create_collection_run now key i at_v k trig s))"
| "store_step s (snd (start_collection_run now i at_o s))"
| "store_step s (snd (fail_collection_run now i msg at_o s))"
| "store_step s (snd (complete_collection_run now i at_o s))"
| "store_step s (snd (pin_collection_jobs_for_active_repositories i m s))"
| "store_step s (snd (ensure_collection_job now key i n target m at_o s))"
| "store_step s (snd (claim_collection_job now i at_o s))"
| "store_step s (snd (record_collection_fetch i new old force s))"
| "store_step s (snd (complete_collection_job now i new old force at_o s))"
| "store_step s (snd (complete_collection_with_snapshot now i new key path old force digest src from_o to_o late at_o s))"
| "store_step s (snd (fail_collection_job now i code msg at_o s))"
| "store_step s (snd (create_submission_snapshot now key i commit path digest src from_o to_o late s))"
| "store_step s (snd (ensure_grade_job now key i ad rd rv dd mx m at_o s))"
| "store_step s (snd (claim_grade_job now i at_o s))"
| "store_step s (snd (complete_grade_job now i sc res mx at_o s))"
| "store_step s (snd (fail_grade_job now i code msg at_o s))"

theorem store_step_ledger: "store_step s s' \<Longrightarrow> db_ok s \<Longrightarrow> ledgers s s'"
  by (induction rule: store_step.induct)
    (assumption | rule upsert_repositories_ledger upsert_repository_ledger upsert_assignment_ledger
      upsert_schedule_ledger mark_schedule_fired_ledger create_collection_run_ledger
      start_collection_run_ledger fail_collection_run_ledger complete_collection_run_ledger pin_ledger
      ensure_collection_job_ledger claim_collection_job_ledger record_collection_fetch_ledger
      complete_collection_job_ledger complete_collection_with_snapshot_ledger fail_collection_job_ledger
      create_submission_snapshot_ledger ensure_grade_job_ledger claim_grade_job_ledger
      complete_grade_job_ledger fail_grade_job_ledger)+

definition reachable :: "store \<Rightarrow> bool" where
  "reachable s = store_step\<^sup>*\<^sup>* init_store s"

lemma steps_ledger: "store_step\<^sup>*\<^sup>* s s' \<Longrightarrow> db_ok s \<Longrightarrow> ledgers s s'"
proof (induction rule: rtranclp_induct)
  case (step t u)
  then show ?case using store_step_ledger ledger_star_ok by (meson rtranclp_trans)
qed simp

lemma reachable_ok: "reachable s \<Longrightarrow> db_ok s"
  unfolding reachable_def using steps_ledger ledger_star_ok db_ok_init by blast

lemma steps_keep: "db_ok s \<Longrightarrow> store_step\<^sup>*\<^sup>* s s' \<Longrightarrow> keeps_all s s'"
  using steps_ledger ledger_star_keeps by blast

end
