(* ===== verification/Scenario.thy ===== *)
theory Scenario
  imports Store_Refinement
begin

text \<open>
  One concrete history of the store, from the migrated database to a graded submission: a roster
  of one repository, an assignment, a schedule, a manual run, the pinned job claimed, fetched and
  completed with its snapshot, the finished run, and the grade job claimed and completed. Every
  state is the value of the operation call before it, so the states are reachable; the
  properties are instantiated on them.
\<close>

section \<open>Arguments\<close>

definition t0 :: dtime where
  "t0 = \<lparr>dt_year = 2024, dt_month = 3, dt_day = 1, dt_hour = 9, dt_minute = 0, dt_second = 0,
     dt_micro = 0, dt_offset = Some 0\<rparr>"

definition t0_text :: string where "t0_text = ''2024-03-01T09:00:00.000000Z''"

definition hex64 :: string where "hex64 = replicate 64 CHR ''a''"
definition digest_a :: string where "digest_a = ''sha256:'' @ hex64"
definition commit_b :: string where "commit_b = replicate 40 CHR ''b''"
definition commit_c :: string where "commit_c = replicate 40 CHR ''c''"
definition url_a :: string where "url_a = ''https://g.io/org/hw1.git''"
definition job_key_a :: string where "job_key_a = ''collection:1:repository:1''"

definition spec_a :: repo_spec where
  "spec_a = \<lparr>rs_key = ''r1'', rs_student = ''s1'', rs_owner = ''org'', rs_name = ''hw1'',
     rs_clone_url = url_a, rs_target_ref = ''main'', rs_github = Some 7, rs_active = True,
     rs_metadata = None\<rparr>"

definition assignment_a :: assignment_spec where
  "assignment_a = \<lparr>ax_key = ''hw1'', ax_path = ''hw1'', ax_target_ref = ''main'',
     ax_assessment = hex64, ax_dataset = [], ax_runner = hex64, ax_rubric = ''v1'',
     ax_max_score = Some (PyInt 10), ax_metadata = None\<rparr>"

section \<open>What the validators return on them\<close>

lemma t0_valid: "utc_dtime t0"
  by (simp add: utc_dtime_def t0_def valid_dtime_def valid_date_def day_us_val days_in_month_def leap_year_def)

lemma now_t0: "now_iso t0 = t0_text"
  unfolding t0_text_def t0_def by code_simp

lemma t0_text_stem: "t0_text = stem t0 @ ''Z''"
  using now_t0 by (simp add: now_iso_def normal_form)

lemma utc_t0 [simp]:
  "utc_iso t0 None = Inr t0_text" "utc_iso t0 (Some (DtObj t0)) = Inr t0_text"
  "utc_iso t0 (Some (DtText t0_text)) = Inr t0_text"
proof -
  show "utc_iso t0 None = Inr t0_text" using now_iso_utc_iso [OF t0_valid] now_t0 by simp
  then show "utc_iso t0 (Some (DtObj t0)) = Inr t0_text" by (simp add: utc_iso_def utc_parse_def)
  show "utc_iso t0 (Some (DtText t0_text)) = Inr t0_text"
    unfolding t0_text_stem by (rule utc_iso_normal_form [OF t0_valid])
qed

lemma texts [simp]:
  "required_text ''r1'' = Inr ''r1''" "required_text ''s1'' = Inr ''s1''"
  "required_text ''org'' = Inr ''org''" "required_text ''hw1'' = Inr ''hw1''"
  "required_text ''main'' = Inr ''main''" "required_text ''v1'' = Inr ''v1''"
  "required_text ''run-1'' = Inr ''run-1''" "required_text ''snapshot-1'' = Inr ''snapshot-1''"
  "required_text ''grade-1'' = Inr ''grade-1''" "required_text ''github-7'' = Inr ''github-7''"
  "required_text ''weekly'' = Inr ''weekly''" "required_text ''UTC'' = Inr ''UTC''"
  by code_simp+

lemma url_values [simp]: "clone_url url_a = Inr url_a" "required_text url_a = Inr url_a"
  unfolding url_a_def by code_simp+

lemma sha_values [simp]:
  "git_oid commit_b = Inr commit_b" "git_oid commit_c = Inr commit_c"
  "optional_sha256_digest hex64 = Inr digest_a" "optional_sha256_digest digest_a = Inr digest_a"
  "required_text hex64 = Inr hex64" "required_text digest_a = Inr digest_a"
  "optional_sha256_digest [] = Inr []" "optional_sha256_hex [] = Inr []"
  unfolding commit_b_def commit_c_def hex64_def digest_a_def by code_simp+

lemma distinct_commits [simp]: "commit_b \<noteq> commit_c" "commit_b \<noteq> []" "digest_a \<noteq> []"
  by (simp_all add: commit_b_def commit_c_def digest_a_def)

lemma json_none [simp]: "json_dump None = Inr ''{}''"
  by code_simp

lemma float_values [simp]:
  "optional_non_negative_finite (Some (PyInt 10)) = Inr (Some 10)"
  "optional_non_negative_finite (Some (PyInt 8)) = Inr (Some 8)"
  "optional_non_negative_finite None = Inr None"
  by (simp_all add: optional_non_negative_finite_def float_of_int_def float_of_nonneg_def)

lemma enum_values_a [simp]:
  "enum_value trigger_value triggers ''manual'' = Inr TriggerManual"
  "enum_value late_value late_statuses ''unknown'' = Inr LateUnknown"
  "enum_value catch_up_value catch_up_policies ''all'' = Inr CatchUpAll"
  by code_simp+

lemma keys_a [simp]: "pin_key 1 1 = job_key_a"
  unfolding job_key_a_def by code_simp

section \<open>Rows\<close>

definition repo_a :: repo_row where "repo_a = spec_row spec_a ''{}'' t0_text t0_text 1"

definition asg_a :: assignment_row where
  "asg_a = \<lparr>as_id = 1, as_key = ''hw1'', as_path = ''hw1'', as_target_ref = ''main'',
     as_assessment = digest_a, as_dataset = [], as_runner = digest_a, as_rubric = ''v1'',
     as_max_score = Some 10, as_metadata = ''{}'', as_review_required = False,
     as_created = t0_text, as_updated = t0_text\<rparr>"

definition run_a :: run_row where
  "run_a = \<lparr>rn_id = 1, rn_key = ''run-1'', rn_assignment = 1, rn_schedule = None,
     rn_trigger = TriggerManual, rn_scheduled_for = t0_text, rn_state = RunQueued,
     rn_created = t0_text, rn_started = None, rn_finished = None, rn_error = None,
     rn_pinned = False\<rparr>"

definition pins_a :: assignment_pins where
  "pins_a = \<lparr>pn_path = ''hw1'', pn_assessment = digest_a, pn_dataset = [], pn_runner = digest_a,
     pn_rubric = ''v1'', pn_max_score = Some 10\<rparr>"

definition job_a :: job_row where
  "job_a = new_job job_key_a 1 1 ''main'' url_a ''github-7'' pins_a 3 t0_text 1"

definition job_running :: job_row where
  "job_running = job_a\<lparr>cj_state := JobRunning, cj_attempt := 1, cj_started := Some t0_text\<rparr>"

definition job_fetched :: job_row where
  "job_fetched = job_running\<lparr>cj_new_sha := Some commit_b\<rparr>"

definition job_done :: job_row where
  "job_done = job_fetched\<lparr>cj_state := JobSucceeded, cj_finished := Some t0_text\<rparr>"

definition view_a :: collection_job where
  "view_a = \<lparr>co_id = 1, co_key = job_key_a, co_run = 1, co_repo = 1, co_target_ref = ''main'',
     co_clone_url = url_a, co_path = ''hw1'', co_cache_key = ''github-7'', co_assessment = digest_a,
     co_dataset = [], co_runner = digest_a, co_rubric = ''v1'', co_max_score = Some 10,
     co_pinned = True, co_state = JobQueued, co_attempt = 0, co_max_attempts = 3,
     co_requested = t0_text, co_started = None, co_finished = None, co_old_sha = None,
     co_new_sha = None, co_force = False, co_error_code = None, co_error_message = None\<rparr>"

definition snap_a :: snapshot_row where
  "snap_a = \<lparr>ss_id = 1, ss_key = ''snapshot-1'', ss_job = 1, ss_run = 1, ss_repo = 1,
     ss_assignment = 1, ss_commit = commit_b, ss_path = ''hw1'', ss_digest = [],
     ss_source_path = Some ''a.tar'', ss_from = t0_text, ss_to = t0_text, ss_late = LateUnknown,
     ss_created = t0_text\<rparr>"

definition run_done :: run_row where
  "run_done = run_a\<lparr>rn_state := RunSucceeded, rn_finished := Some t0_text, rn_pinned := True\<rparr>"

definition grade_a :: grade_row where
  "grade_a = new_grade ''grade-1'' 1 digest_a [] digest_a ''v1'' (Some 10) 2 t0_text 1"

definition grade_running :: grade_row where
  "grade_running = grade_a\<lparr>gj_state := JobRunning, gj_attempt := 1, gj_started := Some t0_text\<rparr>"

definition grade_done :: grade_row where
  "grade_done = grade_running\<lparr>gj_state := JobSucceeded, gj_score := Some 8, gj_finished := Some t0_text\<rparr>"

definition one :: "'r \<Rightarrow> 'r table" where "one r = \<lparr>t_rows = [r], t_seq = 1\<rparr>"

lemma one_simps [simp]: "t_rows (one r) = [r]" "t_seq (one r) = 1"
  by (simp_all add: one_def)

lemma insert_one: "mk 1 = r \<Longrightarrow> table_insert mk empty_table = one r"
  by (simp add: table_insert_def empty_table_def one_def)

lemma update_one: "rid r = k \<Longrightarrow> table_update rid k f (one r) = one (f r)"
  by (simp add: table_update_def one_def)

section \<open>The history\<close>

definition s_roster :: store where "s_roster = init_store\<lparr>repositories := one repo_a\<rparr>"
definition s_assigned :: store where "s_assigned = s_roster\<lparr>assignments := one asg_a\<rparr>"
definition s_queued :: store where "s_queued = s_assigned\<lparr>runs := one run_a\<rparr>"
definition s_pinned :: store where
  "s_pinned = s_queued\<lparr>jobs := one job_a, runs := one (run_a\<lparr>rn_pinned := True\<rparr>)\<rparr>"
definition s_claimed :: store where "s_claimed = s_pinned\<lparr>jobs := one job_running\<rparr>"
definition s_fetched :: store where "s_fetched = s_claimed\<lparr>jobs := one job_fetched\<rparr>"
definition s_collected :: store where
  "s_collected = s_fetched\<lparr>jobs := one job_done, snapshots := one snap_a\<rparr>"
definition s_finished :: store where "s_finished = s_collected\<lparr>runs := one run_done\<rparr>"
definition s_grading :: store where "s_grading = s_finished\<lparr>grades := one grade_a\<rparr>"
definition s_claimed_grade :: store where "s_claimed_grade = s_grading\<lparr>grades := one grade_running\<rparr>"
definition s_graded :: store where "s_graded = s_claimed_grade\<lparr>grades := one grade_done\<rparr>"

lemmas store_defs = s_roster_def s_assigned_def s_queued_def s_pinned_def s_claimed_def s_fetched_def
  s_collected_def s_finished_def s_grading_def s_claimed_grade_def s_graded_def init_store_def

lemma step_roster: "upsert_repositories t0 [spec_a] init_store = (Inr [repo_a], s_roster)"
proof -
  have n: "normalize_spec spec_a = Inr spec_a"
    by (simp add: normalize_spec_def spec_a_def)
  have "upsert_repo t0_text spec_a empty_table = Inr (repo_a, one repo_a)"
    by (simp add: upsert_repo_def repo_a_def spec_a_def insert_one) (simp add: empty_table_def)
  then show ?thesis
    by (simp add: upsert_repositories_def n now_t0 txn_def store_defs)
qed

lemma empty_one [simp]: "t_rows empty_table = []" "t_seq empty_table = 0"
  by (simp_all add: empty_table_def)

lemma step_assigned: "upsert_assignment t0 assignment_a s_roster = (Inr asg_a, s_assigned)"
  by (simp add: upsert_assignment_def assignment_a_def now_t0 txn_def store_defs asg_a_def Let_def insert_one)

lemma step_queued:
  "create_collection_run t0 ''run-1'' 1 (DtObj t0) None ''manual'' s_assigned = (Inr run_a, s_queued)"
  by (simp add: create_collection_run_def insert_run_def new_run_def txn_def store_defs require_row_def asg_a_def insert_one
      run_a_def now_t0)

lemma pin_a: "pin_assignment asg_a = Inr pins_a"
  by (simp add: pin_assignment_def asg_a_def pins_a_def or_text_def)

lemma cache_a: "cache_key repo_a = ''github-7''"
  unfolding cache_key_def repo_a_def spec_row_def spec_a_def by simp code_simp

lemma repo_fields [simp]:
  "rp_id repo_a = 1" "rp_active repo_a" "rp_clone_url repo_a = url_a" "rp_target_ref repo_a = ''main''"
  by (simp_all add: repo_a_def spec_row_def spec_a_def)

lemma view_of_a: "collection_job job_a = Inr view_a"
  by (simp add: collection_job_def required_column_def job_a_def new_job_def pins_a_def or_text_def view_a_def)

lemma pin_step_a:
  "pin_collection_jobs_for_active_repositories 1 3 s_queued = (Inr [view_a], s_pinned)"
proof -
  have l: "list_repositories True s_queued = [repo_a]"
    by (simp add: list_repositories_def store_defs)
  have p: "pin_repositories 1 ''main'' pins_a 3 t0_text [repo_a] empty_table = Inr (one job_a)"
    by (simp add: job_clash_def cache_a insert_one job_a_def)
  have a: "as_target_ref asg_a = ''main''" "as_id asg_a = 1" "\<not> as_review_required asg_a"
    by (simp_all add: asg_a_def)
  have r: "run_jobs 1 s_queued = []" "run_jobs 1 s_pinned = [job_a]"
    "t_rows (runs s_queued) = [run_a]" "t_rows (assignments s_queued) = [asg_a]"
    "jobs s_queued = empty_table" "rn_id run_a = 1" "rn_assignment run_a = 1" "rn_state run_a = RunQueued"
    "\<not> rn_pinned run_a" "rn_scheduled_for run_a = t0_text" "runs s_queued = one run_a"
    by (simp_all add: run_jobs_def store_defs run_a_def job_a_def)
  have s: "s_queued\<lparr>jobs := one job_a, runs := one (run_a\<lparr>rn_pinned := True\<rparr>)\<rparr> = s_pinned"
    by (simp add: s_pinned_def)
  show ?thesis
    by (simp add: pin_collection_jobs_for_active_repositories_def after_def txn_def require_row_def l p a r
        terminal_run_def pin_a update_one s view_of_a Let_def del: pin_repositories.simps)
qed

lemma step_pinned: "snd (pin_collection_jobs_for_active_repositories 1 3 s_queued) = s_pinned"
  by (simp add: pin_step_a)

lemma job_fields [simp]:
  "cj_id job_a = 1" "cj_run job_a = 1" "cj_repo job_a = 1" "cj_state job_a = JobQueued"
  "cj_attempt job_a = 0" "cj_max_attempts job_a = 3" "cj_new_sha job_a = None" "cj_old_sha job_a = None"
  "cj_force job_a = False" "cj_path job_a = Some ''hw1''" "cj_requested job_a = t0_text"
  "cj_pinned job_a" "job_inputs job_a = (digest_a, [], digest_a, Some ''v1'', Some 10)"
  "cj_finished job_a = None" "cj_error_code job_a = None" "cj_error_message job_a = None"
  by (simp_all add: job_a_def new_job_def pins_a_def job_inputs_def or_text_def)

lemma t0_text_ne [simp]: "t0_text \<noteq> []"
  by (simp add: t0_text_def)

lemma job_a_eta:
  "job_a\<lparr>cj_finished := None\<rparr> = job_a" "job_a\<lparr>cj_error_code := None\<rparr> = job_a"
  "job_a\<lparr>cj_error_message := None\<rparr> = job_a" "job_a\<lparr>cj_old_sha := None\<rparr> = job_a"
  "job_a\<lparr>cj_force := False\<rparr> = job_a"
  by (simp_all add: job_a_def new_job_def)

lemma step_claimed: "snd (claim_collection_job t0 1 None s_pinned) = s_claimed"
  by (simp add: claim_collection_job_def snd_after snd_txn store_defs require_row_def run_a_def
      terminal_run_def claim_job_def write_job_def update_one job_running_def)

lemma step_fetched: "snd (record_collection_fetch 1 commit_b None False s_claimed) = s_fetched"
  by (simp add: record_collection_fetch_def optional_oid_def snd_after snd_txn store_defs require_row_def
      job_running_def write_job_def update_one job_fetched_def)
    (simp add: job_a_def new_job_def Let_def)

lemma complete_step_a:
  "complete_collection_job_in_connection 1 commit_b None False t0_text s_fetched =
     Inr (job_done, s_fetched\<lparr>jobs := one job_done\<rparr>)"
  by (simp add: complete_collection_job_in_connection_def require_row_def store_defs job_fetched_def
      job_running_def succeed_job_def write_job_def update_one job_done_def)
    (simp add: job_a_def new_job_def Let_def)

lemma create_step_a:
  "create_snapshot_in_connection t0 ''snapshot-1'' 1 commit_b ''hw1'' [] (Some ''a.tar'')
     None None LateUnknown (s_fetched\<lparr>jobs := one job_done\<rparr>) = Inr (snap_a, s_collected)"
  by (simp add: create_snapshot_in_connection_def require_row_def store_defs job_done_def
      job_fetched_def job_running_def run_a_def or_text_def insert_snapshot_def new_snapshot_def
      snapshot_clash_def same_snapshot_def now_t0 insert_one snap_a_def)

lemma step_collected:
  "snd (complete_collection_with_snapshot t0 1 commit_b ''snapshot-1'' ''hw1'' None False []
     (Some ''a.tar'') None None ''unknown'' None s_fetched) = s_collected"
  by (simp add: complete_collection_with_snapshot_def optional_oid_def snd_after snd_txn
      complete_step_a create_step_a)

lemma step_finished: "snd (complete_collection_run t0 1 None s_collected) = s_finished"
  by (simp add: complete_collection_run_def snd_txn require_row_def store_defs run_jobs_def count_state_def
      terminal_run_def update_one Let_def run_done_def job_done_def job_fetched_def job_running_def run_a_def)

lemma step_grading:
  "snd (ensure_grade_job t0 ''grade-1'' 1 hex64 hex64 ''v1'' [] (Some (PyInt 10)) 2 None s_finished) = s_grading"
  by (simp add: ensure_grade_job_def snd_txn require_row_def store_defs snap_a_def job_done_def
      job_fetched_def job_running_def insert_grade_def new_grade_def same_grade_def insert_one grade_a_def
      job_inputs_def or_text_def job_a_def new_job_def pins_a_def)

lemma provenance_a:
  "\<lbrakk>gj_snapshot g = 1; grade_inputs g = (digest_a, [], digest_a, Some ''v1'', Some 10)\<rbrakk> \<Longrightarrow>
   validate_grade_job_provenance g (s_finished\<lparr>grades := t\<rparr>) = Inr ()"
  by (simp add: validate_grade_job_provenance_def require_row_def store_defs snap_a_def job_done_def
      job_fetched_def job_running_def job_inputs_def or_text_def job_a_def new_job_def pins_a_def)

lemma grade_fields [simp]:
  "gj_id grade_a = 1" "gj_snapshot grade_a = 1" "gj_state grade_a = JobQueued" "gj_attempt grade_a = 0"
  "gj_max_attempts grade_a = 2" "gj_max_score grade_a = Some 10" "gj_score grade_a = None"
  by (simp_all add: grade_a_def new_grade_def)

lemma step_claimed_grade: "snd (claim_grade_job t0 1 None s_grading) = s_claimed_grade"
proof -
  have "validate_grade_job_provenance grade_a s_grading = Inr ()"
    unfolding s_grading_def by (rule provenance_a) (simp_all add: grade_inputs_def grade_a_def new_grade_def)
  then show ?thesis
    by (simp add: claim_grade_job_def snd_txn require_row_def s_grading_def s_claimed_grade_def
        claim_grade_def write_grade_def update_one grade_running_def)
      (simp add: grade_a_def new_grade_def)
qed

lemma graded_value:
  "complete_grade_job t0 1 (Some (PyInt 8)) None None None s_claimed_grade = (Inr grade_done, s_graded)"
proof -
  have "validate_grade_job_provenance grade_running (s_finished\<lparr>grades := one grade_running\<rparr>) = Inr ()"
    by (rule provenance_a) (simp_all add: grade_inputs_def grade_running_def grade_a_def new_grade_def)
  then show ?thesis
    by (simp add: complete_grade_job_def txn_def require_row_def s_grading_def s_claimed_grade_def
        s_graded_def grade_running_def exceeds_def succeed_grade_def write_grade_def update_one grade_done_def)
      (simp add: grade_a_def new_grade_def Let_def)
qed

lemma step_graded:
  "snd (complete_grade_job t0 1 (Some (PyInt 8)) None None None s_claimed_grade) = s_graded"
  by (simp add: graded_value)

section \<open>The states are reachable\<close>

lemma reachable_step: "reachable s \<Longrightarrow> store_step s s' \<Longrightarrow> reachable s'"
  unfolding reachable_def by (rule rtranclp.rtrancl_into_rtrancl)

lemma reachable_history:
  "reachable s_roster" "reachable s_assigned" "reachable s_queued" "reachable s_pinned"
  "reachable s_claimed" "reachable s_fetched" "reachable s_collected" "reachable s_finished"
  "reachable s_grading" "reachable s_claimed_grade" "reachable s_graded"
proof -
  have i: "reachable init_store" by (simp add: reachable_def)
  note st = store_step.intros
  show 1: "reachable s_roster"
    using reachable_step [OF i st(1)] step_roster by (metis snd_conv)
  show 2: "reachable s_assigned"
    using reachable_step [OF 1 st(3)] step_assigned by (metis snd_conv)
  show 3: "reachable s_queued"
    using reachable_step [OF 2 st(6)] step_queued by (metis snd_conv)
  show 4: "reachable s_pinned"
    using reachable_step [OF 3 st(10)] step_pinned by metis
  show 5: "reachable s_claimed"
    using reachable_step [OF 4 st(12)] step_claimed by metis
  show 6: "reachable s_fetched"
    using reachable_step [OF 5 st(13)] step_fetched by metis
  show 7: "reachable s_collected"
    using reachable_step [OF 6 st(15)] step_collected by metis
  show 8: "reachable s_finished"
    using reachable_step [OF 7 st(9)] step_finished by metis
  show 9: "reachable s_grading"
    using reachable_step [OF 8 st(18)] step_grading by metis
  show 10: "reachable s_claimed_grade"
    using reachable_step [OF 9 st(19)] step_claimed_grade by metis
  show "reachable s_graded"
    using reachable_step [OF 10 st(20)] step_graded by metis
qed

lemma steps_history: "store_step\<^sup>*\<^sup>* s_collected s_graded" "store_step\<^sup>*\<^sup>* s_pinned s_collected"
proof -
  note st = store_step.intros
  have "store_step s_collected s_finished" using st(9) step_finished by metis
  moreover have "store_step s_finished s_grading" using st(18) step_grading by metis
  moreover have "store_step s_grading s_claimed_grade" using st(19) step_claimed_grade by metis
  moreover have "store_step s_claimed_grade s_graded" using st(20) step_graded by metis
  ultimately show "store_step\<^sup>*\<^sup>* s_collected s_graded" by (meson converse_rtranclp_into_rtranclp rtranclp.rtrancl_refl)
  have "store_step s_pinned s_claimed" using st(12) step_claimed by metis
  moreover have "store_step s_claimed s_fetched" using st(13) step_fetched by metis
  moreover have "store_step s_fetched s_collected" using st(15) step_collected by metis
  ultimately show "store_step\<^sup>*\<^sup>* s_pinned s_collected" by (meson converse_rtranclp_into_rtranclp rtranclp.rtrancl_refl)
qed

end
