(* ===== verification/Store_Properties.thy ===== *)
theory Store_Properties
  imports Scenario
begin

text \<open>
  The properties of \<open>StateStore\<close>: what holds of every reachable database, what no later call
  takes back, and what the central operations return and write. Each is instantiated on the
  history of \<open>Scenario\<close>.
\<close>

section \<open>Every reachable database\<close>

text \<open>C1: Whatever sequence of store operations ran on a migrated database, with whatever
  arguments and clocks and whether they succeeded or raised, the database is well formed: ids
  and idempotency keys are unique, every reference resolves, every job carries valid pinned
  inputs and an attempt count within its cap, every snapshot agrees with its succeeded job, every
  grade job with the pins of its collection job, and every finished run has the verdict of its
  jobs.\<close>

theorem store_invariant:
  assumes "reachable s"
  shows "db_ok s"
  using reachable_ok [OF assms] .

theorem store_invariant_witness:
  "db_ok s_graded \<and> t_rows (grades s_graded) = [grade_done] \<and> t_rows (jobs s_graded) = [job_done]"
  using store_invariant [of s_graded] reachable_history by (simp add: store_defs)

text \<open>C2: Every grade job of a reachable database stands for a snapshot of a succeeded
  collection job: the commit and path of the snapshot are those the job recorded, the assignment
  is that of the job's run, and the grading inputs are exactly the pinned ones of that job.\<close>

theorem grade_provenance:
  assumes "reachable s" and "g \<in> set (t_rows (grades s))"
  shows "\<exists>n j r. n \<in> set (t_rows (snapshots s)) \<and> j \<in> set (t_rows (jobs s)) \<and>
    r \<in> set (t_rows (runs s)) \<and> gj_snapshot g = ss_id n \<and> ss_job n = cj_id j \<and>
    rn_id r = cj_run j \<and> ss_assignment n = rn_assignment r \<and> cj_state j = JobSucceeded \<and>
    cj_new_sha j = Some (ss_commit n) \<and> cj_path j = Some (ss_path n) \<and> cj_pinned j \<and>
    grade_inputs g = job_inputs j"
proof -
  note ok = reachable_ok [OF assms(1)]
  obtain n j where n: "n \<in> set (t_rows (snapshots s))" "j \<in> set (t_rows (jobs s))" "graded_from g n j"
    using ok assms(2) unfolding db_ok_def grades_ok_def by blast
  obtain j' r where r: "j' \<in> set (t_rows (jobs s))" "r \<in> set (t_rows (runs s))" "snapshot_of n j' r"
    using ok n(1) unfolding db_ok_def snapshots_ok_def by blast
  have "keyed cj_id cj_key (jobs s)" using ok by (simp add: db_ok_def jobs_ok_def)
  then have "j' = j"
    using n r by (intro keyed_unique [of cj_id cj_key "jobs s"]) (auto simp: graded_from_def snapshot_of_def)
  then show ?thesis using n r by (auto simp: graded_from_def snapshot_of_def)
qed

theorem grade_provenance_witness:
  "\<exists>n j r. n \<in> {snap_a} \<and> j \<in> {job_done} \<and> r \<in> {run_done} \<and> gj_snapshot grade_done = ss_id n \<and>
    ss_job n = cj_id j \<and> rn_id r = cj_run j \<and> ss_assignment n = rn_assignment r \<and>
    cj_state j = JobSucceeded \<and> cj_new_sha j = Some (ss_commit n) \<and> cj_path j = Some (ss_path n) \<and>
    cj_pinned j \<and> grade_inputs grade_done = job_inputs j"
  using grade_provenance [of s_graded grade_done] reachable_history by (simp add: store_defs)

text \<open>A completed grade has a score, at least zero and never above the pinned maximum;
  a grade job that has not succeeded has none.\<close>

theorem grade_score_bounds:
  assumes "reachable s" and "g \<in> set (t_rows (grades s))"
  shows "(case gj_score g of None \<Rightarrow> gj_state g \<noteq> JobSucceeded
    | Some x \<Rightarrow> gj_state g = JobSucceeded \<and> 0 \<le> x \<and>
        (case gj_max_score g of None \<Rightarrow> True | Some m \<Rightarrow> x \<le> m))"
proof -
  have "score_ok g" using reachable_ok [OF assms(1)] assms(2) by (simp add: db_ok_def grades_ok_def grade_ok_def)
  then show ?thesis by (auto simp: score_ok_def exceeds_def split: option.split)
qed

theorem grade_score_bounds_witness:
  "gj_score grade_done = Some 8 \<and> gj_max_score grade_done = Some 10 \<and>
   (case gj_score grade_done of None \<Rightarrow> gj_state grade_done \<noteq> JobSucceeded
    | Some x \<Rightarrow> gj_state grade_done = JobSucceeded \<and> 0 \<le> x \<and>
        (case gj_max_score grade_done of None \<Rightarrow> True | Some m \<Rightarrow> x \<le> m))"
  using grade_score_bounds [of s_graded grade_done] reachable_history
  by (simp add: store_defs grade_done_def grade_running_def)

section \<open>Nothing is taken back\<close>

text \<open>C4: Once a job exists, its identity and every pinned input (repository, ref, clone URL,
  path, cache key, digests, rubric, maximum, attempt cap) is what it was in every later database,
  its attempt count never falls, and once it succeeded the row never changes again.\<close>

theorem job_inputs_immutable:
  assumes "reachable s" and "store_step\<^sup>*\<^sup>* s s'" and "j \<in> set (t_rows (jobs s))"
  shows "\<exists>j'. j' \<in> set (t_rows (jobs s')) \<and> job_pins j' = job_pins j \<and>
    cj_attempt j \<le> cj_attempt j' \<and> (cj_state j = JobSucceeded \<longrightarrow> j' = j)"
  using steps_keep [OF reachable_ok [OF assms(1)] assms(2)] assms(3)
  unfolding keeps_all_def keeps_rows_def job_kept_def by blast

theorem job_inputs_immutable_witness:
  "t_rows (jobs s_pinned) = [job_a] \<and> t_rows (jobs s_collected) = [job_done] \<and>
   job_pins job_done = job_pins job_a \<and> cj_attempt job_a \<le> cj_attempt job_done"
  using job_inputs_immutable [of s_pinned s_collected job_a] reachable_history steps_history
  by (simp add: store_defs)

text \<open>Snapshots are append only: the rows of any earlier database are the first rows of
  every later one, unchanged and in order.\<close>

theorem snapshots_append_only:
  assumes "reachable s" and "store_step\<^sup>*\<^sup>* s s'"
  shows "prefix (t_rows (snapshots s)) (t_rows (snapshots s'))"
  using steps_keep [OF reachable_ok [OF assms(1)] assms(2)] by (simp add: keeps_all_def)

theorem snapshots_append_only_witness:
  "prefix [snap_a] (t_rows (snapshots s_graded)) \<and> t_rows (snapshots s_collected) = [snap_a]"
  using snapshots_append_only [of s_collected s_graded] reachable_history steps_history
  by (simp add: store_defs)

text \<open>A run in a terminal state and a grade job that succeeded stand in every later database
  exactly as they were; every other run keeps its identity, assignment, schedule and scheduled
  time, every other grade job its snapshot, inputs and attempt cap.\<close>

theorem outcomes_final:
  assumes "reachable s" and "store_step\<^sup>*\<^sup>* s s'"
    and "r \<in> set (t_rows (runs s))" and "g \<in> set (t_rows (grades s))"
  shows "\<exists>r' g'. r' \<in> set (t_rows (runs s')) \<and> g' \<in> set (t_rows (grades s')) \<and>
    run_kept r r' \<and> grade_kept g g'"
  using steps_keep [OF reachable_ok [OF assms(1)] assms(2)] assms(3,4)
  unfolding keeps_all_def keeps_rows_def by blast

theorem outcomes_final_witness:
  "\<exists>r' g'. r' \<in> {run_done} \<and> g' \<in> {grade_done} \<and> run_kept run_done r' \<and> grade_kept grade_done g'"
  using outcomes_final [of s_graded s_graded run_done grade_done] reachable_history
  by (simp add: store_defs)

section \<open>Pinning the roster\<close>

text \<open>The job a repository gets: queued, with the ref, URL, cache key and grading inputs of the
  moment.\<close>

definition pinned_as ::
  "int \<Rightarrow> string \<Rightarrow> assignment_pins \<Rightarrow> int \<Rightarrow> string \<Rightarrow> repo_row \<Rightarrow> job_row \<Rightarrow> bool" where
  "pinned_as run_id assignment_target pins max_attempts requested r j =
     (j = new_job (pin_key run_id (rp_id r)) run_id (rp_id r)
        (if assignment_target = ''@repository'' then rp_target_ref r else assignment_target)
        (rp_clone_url r) (cache_key r) pins max_attempts requested (cj_id j))"

lemma pin_repositories_rows:
  assumes "pin_repositories i at_v pins m req rs t = Inr t'" and "list_all repo_ok rs"
  shows "\<exists>js. t_rows t' = t_rows t @ js \<and> list_all2 (pinned_as i at_v pins m req) rs js"
  using assms
proof (induction rs arbitrary: t)
  case (Cons r rs)
  have r: "required_text (rp_target_ref r) = Inr (rp_target_ref r)" "clone_url (rp_clone_url r) = Inr (rp_clone_url r)"
    using Cons.prems(2) by (simp_all add: repo_ok_def)
  let ?mk = "new_job (pin_key i (rp_id r)) i (rp_id r)
        (if at_v = ''@repository'' then rp_target_ref r else at_v) (rp_clone_url r) (cache_key r) pins m req"
  have "pin_repositories i at_v pins m req rs (table_insert ?mk t) = Inr t'"
    using Cons.prems(1) r by (auto simp: rbind_Inr_iff split: if_split_asm)
  then obtain js where "t_rows t' = t_rows t @ ?mk (t_seq t + 1) # js" "list_all2 (pinned_as i at_v pins m req) rs js"
    using Cons.IH [of "table_insert ?mk t"] Cons.prems(2) by auto
  moreover have "pinned_as i at_v pins m req r (?mk (t_seq t + 1))" by (simp add: pinned_as_def)
  ultimately show ?case by (intro exI [of _ "?mk (t_seq t + 1) # js"]) simp
qed simp

lemma pinned_as_run: "pinned_as i at_v pins m req r j \<Longrightarrow> cj_run j = i"
  unfolding pinned_as_def by (metis new_job_fields(3))

lemma pinned_run: "list_all2 (pinned_as i at_v pins m req) rs js \<Longrightarrow> list_all (\<lambda>j. cj_run j = i) js"
  by (induction rule: list_all2_induct) (simp_all add: pinned_as_run)

lemma collection_jobs_total:
  "\<forall>j\<in>set js. pins_ok j \<Longrightarrow> \<exists>vs. rmapM collection_job js = Inr vs \<and> map co_id vs = map cj_id js"
proof (induction js)
  case (Cons j js)
  then obtain v vs where "collection_job j = Inr v" "rmapM collection_job js = Inr vs" "map co_id vs = map cj_id js"
    using collection_job_total by (metis list.set_intros(1,2))
  then show ?case using collection_job_fields by fastforce
qed simp

lemma reachable_jobs_ok:
  assumes "reachable s" and "j \<in> set (run_jobs i s)"
  shows "pins_ok j"
  using reachable_ok [OF assms(1)] assms(2) by (auto simp: db_ok_def jobs_ok_def run_jobs_def job_ok_def)

lemma reachable_roster:
  assumes "reachable s"
  shows "list_all repo_ok (list_repositories True s)"
  using reachable_ok [OF assms] by (auto simp: db_ok_def roster_ok_def list_repositories_def list_all_iff)

text \<open>C3: Pinning an unpinned run whose jobs are still to be made creates, in one transaction,
  exactly one queued job per active repository, in roster order, each with the ref, clone URL,
  cache key and grading inputs of the moment, and marks the run as pinned.\<close>

theorem pin_creates_roster:
  assumes "reachable s" and "select_by rn_id i (t_rows (runs s)) = Some run"
    and "\<not> rn_pinned run" and "list_repositories True s \<noteq> []"
    and "pin_collection_jobs_for_active_repositories i m s = (Inr vs, s')"
  shows "\<exists>a pins target. select_by as_id (rn_assignment run) (t_rows (assignments s)) = Some a \<and>
    pin_assignment a = Inr pins \<and> required_text (as_target_ref a) = Inr target \<and>
    list_all2 (pinned_as i target pins m (rn_scheduled_for run)) (list_repositories True s) (run_jobs i s') \<and>
    map co_id vs = map cj_id (run_jobs i s') \<and>
    select_by rn_id i (t_rows (runs s')) = Some (run\<lparr>rn_pinned := True\<rparr>)"
proof -
  have m: "0 < m"
    using assms(5) by (auto simp: pin_collection_jobs_for_active_repositories_def split: if_split_asm)
  let ?mark = "\<lambda>r. if rn_pinned r then r else r\<lparr>rn_pinned := True\<rparr>"
  from assms(2-5) m obtain a target pins t where e: "run_jobs i s = []"
    "select_by as_id (rn_assignment run) (t_rows (assignments s)) = Some a"
    "required_text (as_target_ref a) = Inr target" "pin_assignment a = Inr pins"
    "pin_repositories i target pins m (rn_scheduled_for run) (list_repositories True s) (jobs s) = Inr t"
    "s' = s\<lparr>jobs := t, runs := table_update rn_id i ?mark (runs s)\<rparr>"
    "rmapM collection_job (run_jobs i s') = Inr vs"
    by (auto simp: pin_collection_jobs_for_active_repositories_def after_eq_Inr_iff txn_eq_Inr_iff
        rbind_Inr_iff require_row_Inr_iff Let_def split: if_split_asm)
  obtain js where js: "t_rows t = t_rows (jobs s) @ js"
    "list_all2 (pinned_as i target pins m (rn_scheduled_for run)) (list_repositories True s) js"
    using pin_repositories_rows [OF e(5) reachable_roster [OF assms(1)]] by blast
  have r: "run_jobs i s' = js"
    using e(1) js pinned_run [OF js(2)] by (simp add: run_jobs_def e(6) list_all_iff)
  have "reachable s'"
    using assms(1,5) reachable_step store_step.intros(10) [of s i m] by simp
  then have "map co_id vs = map cj_id js"
    using collection_jobs_total [of js] reachable_jobs_ok [of s'] e(7) r by auto
  moreover have "select_by rn_id i (t_rows (runs s')) = Some (run\<lparr>rn_pinned := True\<rparr>)"
    using assms(2,3) by (simp add: e(6) select_by_update_by)
  ultimately show ?thesis using e(2-4) js(2) r by blast
qed

theorem pin_creates_roster_witness:
  "list_all2 (pinned_as 1 ''main'' pins_a 3 t0_text) [repo_a] [job_a]"
proof -
  have "list_repositories True s_queued = [repo_a]" "run_jobs 1 s_pinned = [job_a]"
    "t_rows (assignments s_queued) = [asg_a]" "t_rows (runs s_queued) = [run_a]"
    by (simp_all add: list_repositories_def run_jobs_def store_defs)
  moreover have "as_id asg_a = 1" "as_target_ref asg_a = ''main''" "rn_id run_a = 1" "rn_assignment run_a = 1"
    "rn_scheduled_for run_a = t0_text" "\<not> rn_pinned run_a"
    by (simp_all add: asg_a_def run_a_def)
  ultimately show ?thesis
    using pin_creates_roster [of s_queued 1 run_a 3 "[view_a]" s_pinned] reachable_history(3) pin_step_a pin_a
    by simp
qed

text \<open>Pinning a run that is already pinned returns its persisted jobs and changes nothing,
  whatever has happened to the roster and to the assignment since.\<close>

theorem pin_resumes:
  assumes "reachable s" and "0 < m" and "select_by rn_id i (t_rows (runs s)) = Some run"
    and "rn_pinned run" and "\<not> terminal_run (rn_state run)"
  shows "\<exists>vs. pin_collection_jobs_for_active_repositories i m s = (Inr vs, s) \<and>
    map co_id vs = map cj_id (run_jobs i s) \<and> vs \<noteq> []"
proof -
  have run: "run \<in> set (t_rows (runs s))" "rn_id run = i" using select_by_SomeD [OF assms(3)] by auto
  have "verdict_ok (set (t_rows (jobs s))) run"
    using reachable_ok [OF assms(1)] run(1) by (simp add: db_ok_def verdicts_ok_def)
  then have ne: "run_jobs i s \<noteq> []"
    using assms(4) run(2) by (auto simp: verdict_ok_def run_jobs_def filter_empty_conv)
  have "\<forall>j\<in>set (run_jobs i s). pins_ok j" using reachable_jobs_ok [OF assms(1)] by blast
  then obtain vs where "rmapM collection_job (run_jobs i s) = Inr vs" "map co_id vs = map cj_id (run_jobs i s)"
    using collection_jobs_total by blast
  then show ?thesis
    using assms(2-5) ne
    by (auto simp: pin_collection_jobs_for_active_repositories_def after_def txn_def require_row_def)
qed

theorem pin_resumes_witness:
  "\<exists>vs. pin_collection_jobs_for_active_repositories 1 5 s_claimed = (Inr vs, s_claimed) \<and>
    map co_id vs = [1] \<and> vs \<noteq> []"
proof -
  have "run_jobs 1 s_claimed = [job_running]" by (simp add: run_jobs_def store_defs job_running_def)
  then show ?thesis
    using pin_resumes [of s_claimed 5 1 "run_a\<lparr>rn_pinned := True\<rparr>"] reachable_history(5)
    by (simp add: store_defs run_a_def terminal_run_def job_running_def)
qed

section \<open>Runs\<close>

text \<open>Completing a run whose jobs are all closed stores the verdict of those jobs and the
  finishing time; while a job is queued or running it raises and changes nothing; a run that is
  already terminal is returned as it is.\<close>

theorem complete_run_outcome:
  assumes "utc_iso now at_v = Inr t" and "select_by rn_id i (t_rows (runs s)) = Some run"
  shows "complete_collection_run now i at_v s =
    (if terminal_run (rn_state run) then (Inr run, s)
     else if list_ex (\<lambda>j. cj_state j \<in> {JobQueued, JobRunning}) (run_jobs i s)
     then (Inl InvalidStateTransition, s)
     else let run' = run\<lparr>rn_state := verdict (run_jobs i s), rn_finished := Some t, rn_error := None\<rparr>
          in (Inr run', s\<lparr>runs := table_update rn_id i (\<lambda>_. run') (runs s)\<rparr>))"
proof -
  have "count_state JobQueued (run_jobs i s) + count_state JobRunning (run_jobs i s) \<noteq> 0 \<longleftrightarrow>
      list_ex (\<lambda>j. cj_state j \<in> {JobQueued, JobRunning}) (run_jobs i s)"
    using count_state_zero_iff [of JobQueued "run_jobs i s"] count_state_zero_iff [of JobRunning "run_jobs i s"]
    by (auto simp: list_ex_iff)
  then show ?thesis
    using assms verdict_counts [of "run_jobs i s"]
    by (simp add: complete_collection_run_def txn_def require_row_def Let_def)
qed

theorem complete_run_outcome_witness:
  "complete_collection_run t0 1 None s_collected =
    (Inr run_done, s_collected\<lparr>runs := one run_done\<rparr>)"
proof -
  have r: "run_jobs 1 s_collected = [job_done]" "select_by rn_id 1 (t_rows (runs s_collected)) = Some (run_a\<lparr>rn_pinned := True\<rparr>)"
    by (simp_all add: run_jobs_def store_defs job_done_def job_fetched_def job_running_def run_a_def)
  have v: "verdict [job_done] = RunSucceeded"
    by (simp add: verdict_def job_bad_def job_done_def)
  have "runs s_collected = one (run_a\<lparr>rn_pinned := True\<rparr>)" by (simp add: store_defs)
  then show ?thesis
    using complete_run_outcome [of t0 None t0_text 1 s_collected, OF _ r(2)] r(1) v
    by (simp add: update_one job_done_def run_a_def terminal_run_def run_done_def Let_def)
qed

lemma ledger_assignment_ids: "ledger s s' \<Longrightarrow> ids as_id (assignments s) \<subseteq> ids as_id (assignments s')"
  by (induction rule: ledger.induct) (auto simp: put_run_def write_job_def write_grade_def)

lemma steps_assignment_ids:
  assumes "store_step\<^sup>*\<^sup>* s s'" and "db_ok s"
  shows "ids as_id (assignments s) \<subseteq> ids as_id (assignments s')"
  using steps_ledger [OF assms] by (induction rule: rtranclp_induct) (auto dest: ledger_assignment_ids)

lemma utc_iso_argument: "utc_iso now (Some v) = utc_iso now' (Some v)"
  by (simp add: utc_iso_def utc_parse_def)

lemma create_run_cases:
  assumes "create_collection_run now key a sched None trig s = (Inr row, s')"
  obtains k tr sc where "required_text key = Inr k" "enum_value trigger_value triggers trig = Inr tr"
    "utc_iso now (Some sched) = Inr sc" "a \<in> ids as_id (assignments s)" "row \<in> set (t_rows (runs s'))"
    "rn_key row = k" "rn_assignment row = a" "rn_schedule row = None" "rn_trigger row = tr" "rn_scheduled_for row = sc"
proof -
  from assms obtain k tr sc asg where c: "required_text key = Inr k"
    "enum_value trigger_value triggers trig = Inr tr" "utc_iso now (Some sched) = Inr sc"
    "select_by as_id a (t_rows (assignments s)) = Some asg"
    and r: "insert_run (new_run now k a None tr sc) s = Inr (row, s')"
    by (auto simp: create_collection_run_def checked_eq_iff txn_eq_Inr_iff rbind_Inr_iff require_row_Inr_iff)
  have "row \<in> set (t_rows (runs s')) \<and> rn_key row = k \<and> rn_assignment row = a \<and> rn_schedule row = None \<and>
      rn_trigger row = tr \<and> rn_scheduled_for row = sc"
    by (cases rule: insert_run_cases [OF r new_run_key]) (auto simp: new_run_def dest: select_by_SomeD)
  then show thesis using c by (intro that) (auto dest: select_by_ids)
qed

lemma create_run_again:
  assumes ok: "db_ok s" and "required_text key = Inr k" "enum_value trigger_value triggers trig = Inr tr"
    "utc_iso now (Some sched) = Inr sc" "a \<in> ids as_id (assignments s)" "row \<in> set (t_rows (runs s))"
    "rn_key row = k" "rn_assignment row = a" "rn_schedule row = None" "rn_trigger row = tr" "rn_scheduled_for row = sc"
  shows "create_collection_run now key a sched None trig s = (Inr row, s)"
proof -
  have "distinct (map rn_key (t_rows (runs s)))" using ok by (simp add: db_ok_def runs_ok_def keyed_def)
  then have "select_by rn_key k (t_rows (runs s)) = Some row" using assms(6,7) select_by_distinct by fastforce
  moreover obtain asg where "select_by as_id a (t_rows (assignments s)) = Some asg"
    using assms(5) select_by_None_iff [of as_id a "t_rows (assignments s)"] by (fastforce simp: ids_def)
  ultimately show ?thesis
    using assms(2-4,8-11) by (simp add: create_collection_run_def insert_run_def new_run_def txn_def require_row_def)
qed

text \<open>A run that belongs to no schedule is created once: calling again with the same key and arguments, at any
  later time and from any later database, returns the run that was created and changes nothing,
  although the run may have moved on in the meantime.\<close>

theorem create_run_idempotent:
  assumes "reachable s" and "create_collection_run now key a sched None trig s = (Inr row, s')"
    and "store_step\<^sup>*\<^sup>* s' s''"
  shows "\<exists>row'. create_collection_run now' key a sched None trig s'' = (Inr row', s'') \<and>
    rn_id row' = rn_id row \<and> run_kept row row'"
proof -
  have r': "reachable s'" using reachable_step [OF assms(1)] store_step.intros(6) assms(2) by (metis snd_conv)
  note ok' = reachable_ok [OF r']
  have ok'': "db_ok s''" using steps_ledger [OF assms(3) ok'] ledger_star_ok ok' by blast
  from assms(2) obtain k tr sc where c: "required_text key = Inr k" "enum_value trigger_value triggers trig = Inr tr"
    "utc_iso now (Some sched) = Inr sc" "a \<in> ids as_id (assignments s)" "row \<in> set (t_rows (runs s'))"
    "rn_key row = k" "rn_assignment row = a" "rn_schedule row = None" "rn_trigger row = tr" "rn_scheduled_for row = sc"
    by (rule create_run_cases)
  have "store_step\<^sup>*\<^sup>* s s''"
    using store_step.intros(6) [of s now key a sched None trig] assms(2,3)
    by (metis converse_rtranclp_into_rtranclp snd_conv)
  then have a: "a \<in> ids as_id (assignments s'')"
    using steps_assignment_ids reachable_ok [OF assms(1)] c(4) by blast
  obtain row' where "row' \<in> set (t_rows (runs s''))" "run_kept row row'"
    using steps_keep [OF ok' assms(3)] c(5) unfolding keeps_all_def keeps_rows_def by blast
  then show ?thesis
    using create_run_again [OF ok'' c(1,2) c(3) [unfolded utc_iso_argument [of now sched now']] a] c(6-10)
    by (auto simp: run_kept_def)
qed

theorem create_run_idempotent_witness:
  "\<exists>row'. create_collection_run t0 ''run-1'' 1 (DtObj t0) None ''manual'' s_pinned = (Inr row', s_pinned) \<and>
    rn_id row' = 1 \<and> run_kept run_a row'"
proof -
  have "store_step\<^sup>*\<^sup>* s_queued s_pinned"
    using store_step.intros(10) [of s_queued 1 3] pin_step_a by (simp add: r_into_rtranclp)
  then show ?thesis
    using create_run_idempotent [OF reachable_history(2) step_queued] by (simp add: run_a_def)
qed

end
