(* ===== verification/Job_Properties.thy ===== *)
theory Job_Properties
  imports Store_Properties
begin

text \<open>
  Properties of the single operations of \<open>StateStore\<close> on jobs, snapshots, grades, the roster and
  schedules: what each returns and writes on every branch, for a reachable database.
\<close>

section \<open>Outcomes of transactions\<close>

lemma checked_Inl_iff: "checked r f s = (Inl e, s') \<longleftrightarrow>
    (r = Inl e \<and> s' = s) \<or> (\<exists>x. r = Inr x \<and> f x s = (Inl e, s'))"
  by (cases r) auto

lemma after_txn_Inl: "after (txn body) view s = (Inl e, s') \<Longrightarrow>
    s' = s \<or> (\<exists>a. body s = Inr (a, s') \<and> view a = Inl e)"
  by (auto simp: after_def txn_def split: sum.splits prod.splits)

lemma after_txn_Inr: "after (txn body) view s = (Inr v, s') \<longleftrightarrow>
    (\<exists>a. body s = Inr (a, s') \<and> view a = Inr v)"
  by (simp add: after_eq_Inr_iff txn_eq_Inr_iff)

text \<open>Rows of a reachable database are found by their id.\<close>

lemma reachable_select:
  assumes "reachable s"
  shows "j \<in> set (t_rows (jobs s)) \<Longrightarrow> select_by cj_id (cj_id j) (t_rows (jobs s)) = Some j"
    and "g \<in> set (t_rows (grades s)) \<Longrightarrow> select_by gj_id (gj_id g) (t_rows (grades s)) = Some g"
    and "sc \<in> set (t_rows (schedules s)) \<Longrightarrow> select_by sc_id (sc_id sc) (t_rows (schedules s)) = Some sc"
    and "r \<in> set (t_rows (runs s)) \<Longrightarrow> select_by rn_id (rn_id r) (t_rows (runs s)) = Some r"
  using db_ok_tables [OF reachable_ok [OF assms]] by (auto intro!: select_by_distinct dest: table_ok_distinct)

lemma reachable_job:
  assumes "reachable s" and "select_by cj_id i (t_rows (jobs s)) = Some j"
  shows "job_ok j" and "cj_id j = i" and "\<exists>v. collection_job j = Inr v"
proof -
  have m: "j \<in> set (t_rows (jobs s))" "cj_id j = i" using select_by_SomeD [OF assms(2)] by auto
  show "job_ok j" using reachable_ok [OF assms(1)] m by (simp add: db_ok_def jobs_ok_def)
  then show "\<exists>v. collection_job j = Inr v" by (intro collection_job_total) (simp add: job_ok_def)
  show "cj_id j = i" by (rule m)
qed

section \<open>Collection jobs\<close>

lemma write_job_select:
  assumes "select_by cj_id i (t_rows (jobs s)) = Some j" and "cj_id j' = i"
  shows "select_by cj_id i (t_rows (jobs (write_job j' s))) = Some j'"
  using assms select_by_update_by [of cj_id i "\<lambda>_. j'" i "t_rows (jobs s)"] by (auto simp: write_job_def)

lemma completed_row:
  assumes "complete_collection_job_in_connection i n old force fin s = Inr (row, s1)"
  shows "select_by cj_id i (t_rows (jobs s1)) = Some row" and "cj_state row = JobSucceeded"
    and "cj_new_sha row = Some n" and "cj_id row = i"
  using assms select_by_SomeD [of cj_id i "t_rows (jobs s)"]
  by (auto simp: complete_collection_job_in_connection_def rbind_Inr_iff require_row_Inr_iff Let_def
      succeed_job_def intro!: write_job_select split: if_split_asm)

lemma stored_snapshot:
  assumes "create_snapshot_in_connection now k i n p d sp f t l s = Inr (sn, s')"
  shows "jobs s' = jobs s" and "sn \<in> set (t_rows (snapshots s'))"
    and "ss_job sn = i" "ss_commit sn = n" "ss_path sn = p" "ss_key sn = k"
proof -
  have "jobs s' = jobs s \<and> sn \<in> set (t_rows (snapshots s')) \<and> ss_job sn = i \<and> ss_commit sn = n \<and>
      ss_path sn = p \<and> ss_key sn = k"
    using assms
  proof (cases rule: create_snapshot_cases)
    case existing
    then show ?thesis using select_by_SomeD [OF existing(2)] by simp
  qed simp
  then show "jobs s' = jobs s" "sn \<in> set (t_rows (snapshots s'))" "ss_job sn = i" "ss_commit sn = n"
    "ss_path sn = p" "ss_key sn = k" by auto
qed

text \<open>Completing a collection together with its snapshot is all or nothing: either the call
  raises and the database is untouched, or the job has succeeded with the given commit and the
  snapshot of exactly that commit and path, from that job, is stored under the given key.\<close>

theorem collect_with_snapshot_atomic:
  assumes "reachable s"
  shows "case complete_collection_with_snapshot now i new key path old force digest src from_v to_v late at_v s of
      (Inl e, s') \<Rightarrow> s' = s
    | (Inr (v, sn), s') \<Rightarrow> \<exists>j. j \<in> set (t_rows (jobs s')) \<and> sn \<in> set (t_rows (snapshots s')) \<and>
        collection_job j = Inr v \<and> cj_id j = i \<and> cj_state j = JobSucceeded \<and>
        git_oid new = Inr (ss_commit sn) \<and> cj_new_sha j = Some (ss_commit sn) \<and>
        required_text path = Inr (ss_path sn) \<and> cj_path j = Some (ss_path sn) \<and>
        ss_job sn = i \<and> required_text key = Inr (ss_key sn)"
proof -
  let ?op = "complete_collection_with_snapshot now i new key path old force digest src from_v to_v late at_v"
  obtain r s' where e: "?op s = (r, s')" by fastforce
  have R: "reachable s'" using reachable_step [OF assms] store_step.intros(15) e by (metis snd_conv)
  have total: "collection_job row \<noteq> Inl e'" and stored: "\<exists>j. j \<in> set (t_rows (jobs s')) \<and> sn \<in> set (t_rows (snapshots s')) \<and>
      j = row \<and> cj_id j = i \<and> cj_state j = JobSucceeded \<and> n = ss_commit sn \<and>
      cj_new_sha j = Some (ss_commit sn) \<and> p = ss_path sn \<and> cj_path j = Some (ss_path sn) \<and> ss_job sn = i \<and> k = ss_key sn"
    if c: "complete_collection_job_in_connection i n o' force fin s = Inr (row, s1)"
      "create_snapshot_in_connection now k i n p digest src from_v to_v lv s1 = Inr (sn, s')"
    for n o' fin row s1 k p lv sn e'
  proof -
    note sn = stored_snapshot [OF c(2)] and row = completed_row [OF c(1)]
    have sel: "select_by cj_id i (t_rows (jobs s')) = Some row" using row(1) sn(1) by simp
    then show "collection_job row \<noteq> Inl e'" using reachable_job(3) [OF R sel] by auto
    obtain j' run where "j' \<in> set (t_rows (jobs s'))" "snapshot_of sn j' run"
      using reachable_ok [OF R] sn(2) unfolding db_ok_def snapshots_ok_def by blast
    then have "j' = row" using reachable_select(1) [OF R] sel sn(3) by (auto simp: snapshot_of_def)
    then show "\<exists>j. j \<in> set (t_rows (jobs s')) \<and> sn \<in> set (t_rows (snapshots s')) \<and>
      j = row \<and> cj_id j = i \<and> cj_state j = JobSucceeded \<and> n = ss_commit sn \<and>
      cj_new_sha j = Some (ss_commit sn) \<and> p = ss_path sn \<and> cj_path j = Some (ss_path sn) \<and> ss_job sn = i \<and> k = ss_key sn"
      using \<open>snapshot_of sn j' run\<close> row sn select_by_SomeD [OF sel] by (auto simp: snapshot_of_def)
  qed
  show ?thesis
  proof (cases r)
    case (Inl x)
    then have "s' = s"
      using e total by (auto simp: complete_collection_with_snapshot_def checked_Inl_iff rbind_Inr_iff
          rmap_def rbind_Inl_iff dest!: after_txn_Inl)
    then show ?thesis using e Inl by simp
  next
    case (Inr p)
    obtain v sn where p: "p = (v, sn)" by fastforce
    show ?thesis
      unfolding e Inr p using e [unfolded Inr p] stored
      by (fastforce simp: complete_collection_with_snapshot_def checked_eq_iff after_txn_Inr rbind_Inr_iff rmap_Inr_iff)
  qed
qed

lemma collected_value:
  "\<exists>v sn. complete_collection_with_snapshot t0 1 commit_b ''snapshot-1'' ''hw1'' None False []
     (Some ''a.tar'') None None ''unknown'' None s_fetched = (Inr (v, sn), s_collected)"
proof -
  have sel: "select_by cj_id 1 (t_rows (jobs s_collected)) = Some job_done"
    by (simp add: store_defs job_done_def job_fetched_def job_running_def)
  obtain v where "collection_job job_done = Inr v" using reachable_job(3) [OF reachable_history(7) sel] ..
  then show ?thesis
    by (simp add: complete_collection_with_snapshot_def optional_oid_def after_def txn_def
        complete_step_a create_step_a)
qed

theorem collect_with_snapshot_atomic_witness:
  "\<exists>v sn. complete_collection_with_snapshot t0 1 commit_b ''snapshot-1'' ''hw1'' None False []
     (Some ''a.tar'') None None ''unknown'' None s_fetched = (Inr (v, sn), s_collected) \<and>
     ss_job sn = 1 \<and> cj_new_sha job_done = Some (ss_commit sn)"
proof -
  let ?op = "complete_collection_with_snapshot t0 1 commit_b ''snapshot-1'' ''hw1'' None False []
     (Some ''a.tar'') None None ''unknown'' None s_fetched"
  have "t_rows (snapshots s_collected) \<noteq> t_rows (snapshots s_fetched)" by (simp add: store_defs)
  then have ne: "s_collected \<noteq> s_fetched" by metis
  obtain r where e: "?op = (r, s_collected)" using step_collected by (metis prod.collapse)
  have rows: "t_rows (jobs s_collected) = [job_done]" by (simp add: store_defs)
  show ?thesis
    using collect_with_snapshot_atomic [OF reachable_history(6), where now = t0 and i = 1 and new = commit_b
        and key = "''snapshot-1''" and path = "''hw1''" and old = None and force = False and digest = "[]"
        and src = "Some ''a.tar''" and from_v = None and to_v = None and late = "''unknown''" and at_v = None]
      e ne rows
    by (auto split: sum.splits prod.splits)
qed

lemma completed_output:
  assumes "complete_collection_job_in_connection i n o' force fin s = Inr (row, s1)"
  shows "cj_state row = JobSucceeded \<and> (cj_new_sha row, cj_old_sha row, cj_force row) = (Some n, o', force)"
  using assms
  by (auto simp: complete_collection_job_in_connection_def rbind_Inr_iff Let_def succeed_job_def
      split: if_split_asm)

lemma complete_again:
  assumes c: "complete_collection_job_in_connection i n o' force fin s = Inr (row, s1)"
    and r: "select_by cj_id i (t_rows (jobs s2)) = Some row"
  shows "complete_collection_job_in_connection i n o' force fin' s2 = Inr (row, s2)"
  using completed_output [OF c] r by (simp add: complete_collection_job_in_connection_def require_row_def)

lemma insert_snapshot_again:
  assumes "insert_snapshot mk s = Inr (row, s')" and key: "\<And>i. ss_key (mk i) = k"
    and "\<And>i. same_snapshot (mk i) (mk 0)" and mk': "ss_key (mk' 0) = k" "same_snapshot (mk 0) (mk' 0)"
    and row: "select_by ss_key k (t_rows (snapshots s2)) = Some row"
  shows "insert_snapshot mk' s2 = Inr (row, s2)"
proof -
  have "same_snapshot row (mk 0)"
    using assms(1,3) key
    by (auto simp: insert_snapshot_def Let_def select_by_append split: if_split_asm option.split_asm)
  then have "same_snapshot row (mk' 0)" using mk'(2) by (simp add: same_snapshot_def)
  moreover have "snapshot_clash k (ss_job (mk' 0)) (snapshots s2)"
    using select_by_SomeD [OF row] by (auto simp: snapshot_clash_def)
  ultimately show ?thesis using row by (simp add: insert_snapshot_def mk'(1))
qed

lemma create_snapshot_again:
  assumes c: "create_snapshot_in_connection now k i n p d sp f t l s = Inr (sn, s')"
    and job: "select_by cj_id i (t_rows (jobs s)) = Some j" "select_by cj_id i (t_rows (jobs s2)) = Some j"
    and fin: "cj_finished j = Some ft" "ft \<noteq> []"
    and runs: "\<And>r. select_by rn_id (cj_run j) (t_rows (runs s)) = Some r \<Longrightarrow>
      \<exists>r'. select_by rn_id (cj_run j) (t_rows (runs s2)) = Some r' \<and> rn_assignment r' = rn_assignment r"
    and row: "select_by ss_key k (t_rows (snapshots s2)) = Some sn"
  shows "create_snapshot_in_connection now' k i n p d sp f t l s2 = Inr (sn, s2)"
proof -
  from c job(1) obtain digest run from_iso to_iso where
    g: "optional_sha256_hex d = Inr digest" "cj_state j = JobSucceeded" "cj_new_sha j = Some n" "cj_path j = Some p"
       "select_by rn_id (cj_run j) (t_rows (runs s)) = Some run"
       "utc_iso now (Some (case f of Some v \<Rightarrow> v | None \<Rightarrow> DtText (or_text (cj_started j) (cj_requested j)))) = Inr from_iso"
       "utc_iso now (Some (case t of Some v \<Rightarrow> v | None \<Rightarrow> DtText (or_text (cj_finished j) (now_iso now)))) = Inr to_iso"
       "\<not> to_iso < from_iso"
    and e: "insert_snapshot (new_snapshot now k j run n p digest sp from_iso to_iso l) s = Inr (sn, s')"
    unfolding create_snapshot_in_connection_def Let_def
    by (auto simp: rbind_Inr_iff require_row_Inr_iff split: if_split_asm)
  obtain run' where run': "select_by rn_id (cj_run j) (t_rows (runs s2)) = Some run'" "rn_assignment run' = rn_assignment run"
    using runs [OF g(5)] by blast
  have "insert_snapshot (new_snapshot now' k j run' n p digest sp from_iso to_iso l) s2 = Inr (sn, s2)"
    by (rule insert_snapshot_again [OF e _ _ _ _ row]) (simp_all add: new_snapshot_def same_snapshot_def run'(2))
  moreover have ft: "(case t of Some v \<Rightarrow> v | None \<Rightarrow> DtText (or_text (cj_finished j) x)) =
      (case t of Some v \<Rightarrow> v | None \<Rightarrow> DtText ft)" for x
    using fin by (cases t) (simp_all add: or_text_def)
  ultimately show ?thesis
    using g job(2) run'(1) utc_iso_argument [of now _ now']
    by (simp add: create_snapshot_in_connection_def require_row_def ft)
qed

lemma complete_keeps_runs:
  "complete_collection_job_in_connection i n o' force fin s = Inr (row, s1) \<Longrightarrow> runs s1 = runs s"
  by (auto simp: complete_collection_job_in_connection_def rbind_Inr_iff Let_def write_job_def split: if_split_asm)

lemma create_keeps_runs:
  assumes "create_snapshot_in_connection now k i n p d sp f t l s = Inr (sn, s')"
  shows "runs s' = runs s"
  using assms by (cases rule: create_snapshot_cases) simp_all

text \<open>Repeating a successful completion with its snapshot, from any later database, returns
  the stored job and snapshot and changes nothing.\<close>

theorem collect_with_snapshot_idempotent:
  assumes "reachable s" and "store_step\<^sup>*\<^sup>* s' s2" and "utc_iso now' at_v' = Inr any"
    and "complete_collection_with_snapshot now i new key path old force digest src from_v to_v late at_v s =
      (Inr (v, sn), s')"
  shows "complete_collection_with_snapshot now' i new key path old force digest src from_v to_v late at_v' s2 =
    (Inr (v, sn), s2)"
proof -
  have R: "reachable s'" using reachable_step [OF assms(1)] store_step.intros(15) assms(4) by (metis snd_conv)
  have R2: "reachable s2" using R assms(2) unfolding reachable_def by (rule rtranclp_trans)
  note kept = steps_keep [OF reachable_ok [OF R] assms(2), unfolded keeps_all_def]
  from assms(4) obtain n o' k p lv fin row s1 where a: "git_oid new = Inr n" "optional_oid old = Inr o'"
    "required_text key = Inr k" "required_text path = Inr p" "enum_value late_value late_statuses late = Inr lv"
    and c: "complete_collection_job_in_connection i n o' force fin s = Inr (row, s1)"
      "create_snapshot_in_connection now k i n p digest src from_v to_v lv s1 = Inr (sn, s')"
      "collection_job row = Inr v"
    by (auto simp: complete_collection_with_snapshot_def checked_eq_iff after_txn_Inr rbind_Inr_iff rmap_Inr_iff)
  note row = completed_row [OF c(1)] and st = stored_snapshot [OF c(2)]
  have sel: "select_by cj_id i (t_rows (jobs s')) = Some row" using row(1) st(1) by simp
  obtain ft where ft: "cj_finished row = Some ft" "ft \<noteq> []"
    using reachable_job(1) [OF R sel] row(2) by (auto simp: job_ok_def sha_ok_def)
  have "row \<in> set (t_rows (jobs s2))"
    using kept select_by_SomeD [OF sel] row(2) unfolding keeps_rows_def job_kept_def by blast
  then have sel2: "select_by cj_id i (t_rows (jobs s2)) = Some row"
    using reachable_select(1) [OF R2] row(4) by blast
  have "sn \<in> set (t_rows (snapshots s2))"
    using kept st(2) set_mono_prefix by blast
  moreover have "distinct (map ss_key (t_rows (snapshots s2)))"
    using reachable_ok [OF R2] by (simp add: db_ok_def snapshots_ok_def keyed_def)
  ultimately have sn2: "select_by ss_key k (t_rows (snapshots s2)) = Some sn"
    using select_by_distinct st(6) by fastforce
  have "\<exists>r'. select_by rn_id (cj_run row) (t_rows (runs s2)) = Some r' \<and> rn_assignment r' = rn_assignment r"
    if "select_by rn_id (cj_run row) (t_rows (runs s1)) = Some r" for r
  proof -
    have "r \<in> set (t_rows (runs s'))" "rn_id r = cj_run row"
      using select_by_SomeD [OF that] create_keeps_runs [OF c(2)] by auto
    then obtain r' where "r' \<in> set (t_rows (runs s2))" "run_kept r r'"
      using kept unfolding keeps_rows_def by blast
    then show ?thesis
      using reachable_select(4) [OF R2, of r'] \<open>rn_id r = cj_run row\<close> by (auto simp: run_kept_def)
  qed
  then show ?thesis
    using a c(3) assms(3) complete_again [OF c(1) sel2] create_snapshot_again [OF c(2) row(1) sel2 ft _ sn2]
    by (simp add: complete_collection_with_snapshot_def after_def txn_def)
qed

theorem collect_with_snapshot_idempotent_witness:
  "\<exists>v sn. complete_collection_with_snapshot t0 1 commit_b ''snapshot-1'' ''hw1'' None False []
     (Some ''a.tar'') None None ''unknown'' None s_graded = (Inr (v, sn), s_graded)"
proof -
  let ?op = "complete_collection_with_snapshot t0 1 commit_b ''snapshot-1'' ''hw1'' None False []
     (Some ''a.tar'') None None ''unknown'' None"
  obtain v sn where "?op s_fetched = (Inr (v, sn), s_collected)"
    using collected_value by blast
  then show ?thesis
    using collect_with_snapshot_idempotent [OF reachable_history(6) steps_history(1)] utc_t0(1) by blast
qed

text \<open>The first recorded fetch of a running job stands: recording the same output again
  returns the job unchanged, recording any other commit, previous commit or force flag is an
  idempotency conflict, and in both cases nothing is written.\<close>

theorem recorded_fetch_stands:
  assumes "reachable s" and "select_by cj_id i (t_rows (jobs s)) = Some j"
    and "cj_new_sha j = Some w" and "cj_state j \<in> {JobRunning, JobSucceeded}"
    and "git_oid new = Inr n" and "optional_oid old = Inr o'"
  shows "record_collection_fetch i new old force s =
    (if (o', n, force) = (cj_old_sha j, w, cj_force j) then collection_job j else Inl IdempotencyConflict, s)"
  using assms(2-6) reachable_job(3) [OF assms(1,2)]
  by (auto simp: record_collection_fetch_def after_def txn_def require_row_def)

lemma view_fetched: "\<exists>v. collection_job job_fetched = Inr v"
  using reachable_job(3) [OF reachable_history(6), of 1 job_fetched]
  by (simp add: store_defs job_fetched_def job_running_def)

theorem recorded_fetch_stands_witness:
  "record_collection_fetch 1 commit_c None False s_fetched = (Inl IdempotencyConflict, s_fetched) \<and>
   record_collection_fetch 1 commit_b None False s_fetched = (collection_job job_fetched, s_fetched)"
proof -
  have j: "select_by cj_id 1 (t_rows (jobs s_fetched)) = Some job_fetched"
    "cj_new_sha job_fetched = Some commit_b" "cj_state job_fetched \<in> {JobRunning, JobSucceeded}"
    "cj_old_sha job_fetched = None" "cj_force job_fetched = False"
    by (simp_all add: store_defs job_fetched_def job_running_def)
  show ?thesis
    using recorded_fetch_stands [OF reachable_history(6) j(1-3), of commit_c commit_c None None False]
      recorded_fetch_stands [OF reachable_history(6) j(1-3), of commit_b commit_b None None False] j(4,5)
    by (simp add: optional_oid_def distinct_commits(1) [THEN not_sym])
qed

text \<open>Completing a job does not look at the recorded fetch: a running job that recorded one
  commit is completed with any other commit, and the stored commit is replaced.\<close>

theorem completion_replaces_fetch:
  assumes "select_by cj_id i (t_rows (jobs s)) = Some j" and "cj_state j = JobRunning"
    and "cj_new_sha j = Some w" and "git_oid new = Inr n" and "n \<noteq> w"
    and "optional_oid old = Inr o'" and "utc_iso now at_v = Inr t"
  shows "\<exists>j'. snd (complete_collection_job now i new old force at_v s) = write_job j' s \<and>
    cj_id j' = i \<and> cj_state j' = JobSucceeded \<and> cj_new_sha j' = Some n \<and> cj_new_sha j' \<noteq> cj_new_sha j"
  using assms select_by_SomeD [OF assms(1)]
  by (intro exI [of _ "succeed_job n o' force t j"])
    (simp add: complete_collection_job_def snd_after snd_txn complete_collection_job_in_connection_def
      require_row_def succeed_job_def Let_def)

theorem completion_replaces_fetch_witness:
  "cj_new_sha job_fetched = Some commit_b \<and>
   (\<exists>j'. snd (complete_collection_job t0 1 commit_c None False None s_fetched) = write_job j' s_fetched \<and>
     cj_new_sha j' = Some commit_c)"
proof -
  have j: "select_by cj_id 1 (t_rows (jobs s_fetched)) = Some job_fetched"
    "cj_state job_fetched = JobRunning" "cj_new_sha job_fetched = Some commit_b"
    by (simp_all add: store_defs job_fetched_def job_running_def)
  show ?thesis
    using completion_replaces_fetch [OF j, of commit_c commit_c None None t0 None t0_text False] j(3)
    by (auto simp: optional_oid_def distinct_commits(1) [THEN not_sym])
qed

text \<open>The attempt count of a job stays between zero and its cap, a queued job has made no
  attempt and a running or succeeded one at least one; when the cap is used up, a failed job
  cannot be claimed again at any time, and nothing is written.\<close>

theorem attempts_bounded:
  assumes "reachable s" and "select_by cj_id i (t_rows (jobs s)) = Some j"
  shows "0 \<le> cj_attempt j \<and> cj_attempt j \<le> cj_max_attempts j \<and>
    (cj_state j = JobQueued \<longrightarrow> cj_attempt j = 0) \<and>
    (cj_state j \<in> {JobRunning, JobSucceeded} \<longrightarrow> 0 < cj_attempt j) \<and>
    (cj_state j = JobFailed \<and> cj_attempt j = cj_max_attempts j \<longrightarrow>
      (\<forall>now at_v. snd (claim_collection_job now i at_v s) = s \<and>
        (\<exists>e. fst (claim_collection_job now i at_v s) = Inl e)))"
proof -
  have m: "collecting.machine_ok j" using reachable_job(1) [OF assms] by (simp add: job_ok_def)
  have "snd (claim_collection_job now i at_v s) = s \<and> (\<exists>e. fst (claim_collection_job now i at_v s) = Inl e)"
    if "cj_state j = JobFailed" "cj_attempt j = cj_max_attempts j" for now at_v
  proof -
    have "claim_job t j = Inl InvalidStateTransition" for t using that by (simp add: claim_job_def)
    then show ?thesis
      using that assms(2)
      by (cases "utc_iso now at_v"; cases "require_row rn_id (cj_run j) (t_rows (runs s))")
        (simp_all add: claim_collection_job_def require_row_def after_def txn_def)
  qed
  then show ?thesis using m by (auto simp: collecting.machine_ok_def)
qed

theorem attempts_bounded_witness:
  "0 \<le> cj_attempt job_done \<and> cj_attempt job_done \<le> cj_max_attempts job_done \<and> 0 < cj_attempt job_done"
proof -
  have "select_by cj_id 1 (t_rows (jobs s_graded)) = Some job_done" "cj_state job_done = JobSucceeded"
    by (simp_all add: store_defs job_done_def job_fetched_def job_running_def)
  then show ?thesis using attempts_bounded [OF reachable_history(11)] by simp
qed

text \<open>A run may be completed while it is still queued, and then it can become partial,
  although the transition table of the run states has no move from queued to partial.\<close>

theorem queued_run_becomes_partial:
  assumes "utc_iso now at_v = Inr t" and "select_by rn_id i (t_rows (runs s)) = Some run"
    and "rn_state run = RunQueued"
    and "\<forall>j\<in>set (run_jobs i s). cj_state j \<in> {JobSucceeded, JobFailed}"
    and "j1 \<in> set (run_jobs i s)" "cj_state j1 = JobSucceeded"
    and "j2 \<in> set (run_jobs i s)" "cj_state j2 = JobFailed"
  shows "\<exists>run'. complete_collection_run now i at_v s = (Inr run', s\<lparr>runs := table_update rn_id i (\<lambda>_. run') (runs s)\<rparr>) \<and>
    rn_state run' = RunPartial \<and> RunPartial \<notin> allowed_run (rn_state run)"
proof -
  have "count_state JobQueued (run_jobs i s) = 0" "count_state JobRunning (run_jobs i s) = 0"
    "count_state JobFailed (run_jobs i s) \<noteq> 0" "count_state JobSucceeded (run_jobs i s) \<noteq> 0"
    using assms(4-8) by (auto simp: count_state_zero_iff)
  then show ?thesis
    using assms(1-3)
    by (simp add: complete_collection_run_def txn_def require_row_def terminal_run_def Let_def)
qed

definition job_other :: job_row where
  "job_other = fail_job t0_text ''E'' ''m'' (job_a\<lparr>cj_id := 2, cj_key := ''k2'', cj_repo := 2\<rparr>)"

definition s_mixed :: store where
  "s_mixed = s_queued\<lparr>jobs := \<lparr>t_rows = [job_done, job_other], t_seq = 2\<rparr>\<rparr>"

theorem queued_run_becomes_partial_witness:
  "\<exists>run'. fst (complete_collection_run t0 1 None s_mixed) = Inr run' \<and> rn_state run' = RunPartial"
proof -
  have "run_jobs 1 s_mixed = [job_done, job_other]" "cj_state job_done = JobSucceeded"
    "cj_state job_other = JobFailed"
    by (simp_all add: run_jobs_def s_mixed_def job_other_def fail_job_def job_done_def job_fetched_def
        job_running_def)
  moreover have "select_by rn_id 1 (t_rows (runs s_mixed)) = Some run_a" "rn_state run_a = RunQueued"
    by (simp_all add: s_mixed_def store_defs run_a_def)
  ultimately show ?thesis
    using queued_run_becomes_partial [of t0 None t0_text 1 s_mixed run_a job_done job_other] by auto
qed

section \<open>Grades\<close>

lemma grade_provenance_holds:
  assumes "reachable s" and "g \<in> set (t_rows (grades s))"
  shows "validate_grade_job_provenance g s = Inr ()"
proof -
  note ok = reachable_ok [OF assms(1)]
  obtain n j where n: "n \<in> set (t_rows (snapshots s))" "j \<in> set (t_rows (jobs s))" "graded_from g n j"
    using ok assms(2) unfolding db_ok_def grades_ok_def by blast
  have "select_by ss_id (gj_snapshot g) (t_rows (snapshots s)) = Some n"
    using n db_ok_tables [OF ok] select_by_distinct [OF table_ok_distinct, of ss_id "snapshots s" n]
    by (simp add: graded_from_def)
  moreover have "select_by cj_id (ss_job n) (t_rows (jobs s)) = Some j"
    using n reachable_select(1) [OF assms(1) n(2)] by (simp add: graded_from_def)
  ultimately show ?thesis
    using n by (simp add: validate_grade_job_provenance_def require_row_def graded_from_def)
qed

lemma completed_grade:
  assumes "reachable s" and "complete_grade_job now i sc res mx at_v s = (Inr g, s')"
  obtains x rj m where "optional_non_negative_finite sc = Inr (Some x)" "json_dump res = Inr rj"
    "optional_non_negative_finite mx = Inr m" "m = None \<or> m = gj_max_score g" "\<not> exceeds x (gj_max_score g)"
    "g \<in> set (t_rows (grades s'))" "gj_id g = i" "gj_state g = JobSucceeded" "gj_score g = Some x" "gj_result g = rj"
proof -
  from assms(2) obtain x rj m row where c: "optional_non_negative_finite sc = Inr (Some x)" "json_dump res = Inr rj"
    "optional_non_negative_finite mx = Inr m" "m = None \<or> m = gj_max_score row" "\<not> exceeds x (gj_max_score row)"
    "select_by gj_id i (t_rows (grades s)) = Some row"
    and b: "(gj_state row = JobSucceeded \<and> gj_score row = Some x \<and> gj_result row = rj \<and> g = row \<and> s' = s) \<or>
       (\<exists>t. g = succeed_grade x rj t row \<and> s' = write_grade g s)"
    by (auto simp: complete_grade_job_def checked_eq_iff txn_eq_Inr_iff rbind_Inr_iff require_row_Inr_iff Let_def
        split: if_split_asm option.split_asm) (blast+)
  have row: "row \<in> set (t_rows (grades s))" "gj_id row = i" using select_by_SomeD [OF c(6)] by auto
  from b show thesis
  proof
    assume "gj_state row = JobSucceeded \<and> gj_score row = Some x \<and> gj_result row = rj \<and> g = row \<and> s' = s"
    then show thesis using that [OF c(1-3)] c(4,5) row by simp
  next
    assume "\<exists>t. g = succeed_grade x rj t row \<and> s' = write_grade g s"
    then obtain t where t: "g = succeed_grade x rj t row" "s' = write_grade g s" by blast
    have "g \<in> set (t_rows (grades s'))"
      using row by (auto simp: t write_grade_def succeed_grade_def set_update_by)
    then show thesis using that [OF c(1-3)] c(4,5) row(2) by (simp add: t(1) succeed_grade_def)
  qed
qed

text \<open>A completed grade is final and repeatable: the same completion, at any later time and
  from any later database, returns the stored grade and writes nothing; a completion with another
  score or result is an idempotency conflict or refused, and writes nothing.\<close>

theorem grade_completion_repeatable:
  assumes "reachable s" and "complete_grade_job now i sc res mx at_v s = (Inr g, s')"
    and "store_step\<^sup>*\<^sup>* s' s2"
  shows "complete_grade_job now' i sc res mx at_v' s2 = (Inr g, s2) \<and>
    snd (complete_grade_job now' i sc' res' mx' at_v' s2) = s2 \<and>
    (fst (complete_grade_job now' i sc' res' mx' at_v' s2) = Inr g \<longrightarrow>
      gj_result g = projr (json_dump res') \<and> Inr (gj_score g) = optional_non_negative_finite sc')"
proof -
  have R: "reachable s'" using reachable_step [OF assms(1)] store_step.intros(20) assms(2) by (metis snd_conv)
  have R2: "reachable s2" using R assms(3) unfolding reachable_def by (rule rtranclp_trans)
  obtain x rj m where c: "optional_non_negative_finite sc = Inr (Some x)" "json_dump res = Inr rj"
    "optional_non_negative_finite mx = Inr m" "m = None \<or> m = gj_max_score g" "\<not> exceeds x (gj_max_score g)"
    "g \<in> set (t_rows (grades s'))" "gj_id g = i" "gj_state g = JobSucceeded" "gj_score g = Some x" "gj_result g = rj"
    using completed_grade [OF assms(1,2)] by blast
  have g2: "g \<in> set (t_rows (grades s2))"
    using steps_keep [OF reachable_ok [OF R] assms(3)] c(6,8)
    unfolding keeps_all_def keeps_rows_def grade_kept_def by blast
  then have sel: "require_row gj_id i (t_rows (grades s2)) = Inr g"
    using reachable_select(2) [OF R2 g2] c(7) by (simp add: require_row_def)
  have v: "validate_grade_job_provenance g s2 = Inr ()" by (rule grade_provenance_holds [OF R2 g2])
  have again: "complete_grade_job now' i sc res mx at_v' s2 = (Inr g, s2)"
    using c by (auto simp: complete_grade_job_def txn_def sel v)
  have other: "snd (complete_grade_job now' i sc' res' mx' at_v' s2) = s2 \<and>
      (fst (complete_grade_job now' i sc' res' mx' at_v' s2) = Inr g \<longrightarrow>
        gj_result g = projr (json_dump res') \<and> Inr (gj_score g) = optional_non_negative_finite sc')"
    using c(8) by (auto simp: complete_grade_job_def checked_def txn_def sel v rbind_Inr_iff
        split: sum.split option.split_asm)
  show ?thesis using again other by blast
qed

theorem grade_completion_repeatable_witness:
  "complete_grade_job t0 1 (Some (PyInt 8)) None None None s_graded = (Inr grade_done, s_graded) \<and>
   snd (complete_grade_job t0 1 (Some (PyInt 10)) None None None s_graded) = s_graded"
proof -
  have "complete_grade_job t0 1 (Some (PyInt 8)) None None None s_claimed_grade = (Inr grade_done, s_graded)"
    by (rule graded_value)
  then show ?thesis
    using grade_completion_repeatable [OF reachable_history(10) _ rtranclp.rtrancl_refl,
        of t0 1 "Some (PyInt 8)" None None None grade_done s_graded t0 None "Some (PyInt 10)" None None]
    by simp
qed

section \<open>Roster and schedules\<close>

text \<open>No two repositories of a reachable database share a repository key, a student, an
  owner and name, or a GitHub id.\<close>

theorem roster_identities_unique:
  assumes "reachable s" and "r \<in> set (t_rows (repositories s))" and "r' \<in> set (t_rows (repositories s))"
    and "r \<noteq> r'"
  shows "rp_key r \<noteq> rp_key r' \<and> rp_student r \<noteq> rp_student r' \<and>
    (rp_owner r, rp_name r) \<noteq> (rp_owner r', rp_name r') \<and>
    (rp_github r = None \<or> rp_github r \<noteq> rp_github r')"
proof -
  have ok: "roster_ok (repositories s)" using reachable_ok [OF assms(1)] by (simp add: db_ok_def)
  then have "distinct (map rp_id (t_rows (repositories s)))"
    using table_ok_distinct by (auto simp: roster_ok_def)
  then have "rp_id r \<noteq> rp_id r'" using assms(2-4) by (auto simp: distinct_map dest: inj_onD)
  moreover have "\<not> repo_clash r r'" using ok assms(2,3) by (auto simp: roster_ok_def clash_free_def)
  ultimately show ?thesis by (auto simp: repo_clash_def)
qed

definition spec_b :: repo_spec where
  "spec_b = \<lparr>rs_key = ''r2'', rs_student = ''s2'', rs_owner = ''org'', rs_name = ''hw2'',
     rs_clone_url = url_a, rs_target_ref = ''main'', rs_github = None, rs_active = True,
     rs_metadata = None\<rparr>"

definition repo_b :: repo_row where "repo_b = spec_row spec_b ''{}'' t0_text t0_text 2"

definition roster_ab :: "repo_row table" where "roster_ab = \<lparr>t_rows = [repo_a, repo_b], t_seq = 2\<rparr>"

lemma spec_fields [simp]:
  "rs_key spec_a = ''r1''" "rs_key spec_b = ''r2''" "rs_metadata spec_a = None" "rs_metadata spec_b = None"
  by (simp_all add: spec_a_def spec_b_def)

lemma roster_ab_upserted:
  "upsert_repositories t0 [spec_a, spec_b] init_store = (Inr [repo_a, repo_b], init_store\<lparr>repositories := roster_ab\<rparr>)"
proof -
  have t: "required_text ''r2'' = Inr ''r2''" "required_text ''s2'' = Inr ''s2''" "required_text ''hw2'' = Inr ''hw2''"
    by code_simp+
  have n: "normalize_spec spec_a = Inr spec_a" "normalize_spec spec_b = Inr spec_b"
    by (simp_all add: normalize_spec_def spec_a_def spec_b_def t)
  have a: "upsert_repo t0_text spec_a empty_table = Inr (repo_a, one repo_a)"
    by (simp add: upsert_repo_def repo_a_def insert_one)
  have k: "rp_key repo_a = ''r1''" by (simp add: repo_a_def)
  have "\<not> repo_clash repo_b repo_a"
    by (simp add: repo_clash_def repo_a_def repo_b_def spec_row_def spec_a_def spec_b_def)
  then have b: "upsert_repo t0_text spec_b (one repo_a) = Inr (repo_b, roster_ab)"
    by (simp add: upsert_repo_def k repo_b_def roster_ab_def one_def table_insert_def)
  show ?thesis
    by (simp add: upsert_repositories_def n now_t0 txn_def init_store_def a b)
qed

theorem roster_identities_unique_witness:
  "rp_key repo_a \<noteq> rp_key repo_b \<and> rp_student repo_a \<noteq> rp_student repo_b"
proof -
  have "reachable (init_store\<lparr>repositories := roster_ab\<rparr>)"
    using reachable_step [of init_store] store_step.intros(1) [of init_store t0 "[spec_a, spec_b]"] roster_ab_upserted
    by (simp add: reachable_def)
  moreover have "repo_a \<noteq> repo_b" by (simp add: repo_a_def repo_b_def spec_row_def)
  ultimately show ?thesis
    using roster_identities_unique [of "init_store\<lparr>repositories := roster_ab\<rparr>" repo_a repo_b]
    by (simp add: roster_ab_def)
qed

definition row_of_spec :: "repo_spec \<Rightarrow> repo_row \<Rightarrow> bool" where
  "row_of_spec sp r = (\<exists>meta created updated i. r = spec_row sp meta created updated i)"

lemma upsert_repo_row: "upsert_repo now sp t = Inr (r, t') \<Longrightarrow> row_of_spec sp r"
  by (erule upsert_repo_cases) (auto simp: row_of_spec_def)

lemma upsert_repo_rows:
  assumes "roster_ok t" and "upsert_repo now sp t = Inr (r, t')"
  shows "r \<in> set (t_rows t')" and "x \<in> set (t_rows t) \<Longrightarrow> rp_key x \<noteq> rs_key sp \<Longrightarrow> x \<in> set (t_rows t')"
proof -
  have "r \<in> set (t_rows t') \<and> (x \<in> set (t_rows t) \<longrightarrow> rp_key x \<noteq> rs_key sp \<longrightarrow> x \<in> set (t_rows t'))"
    using assms(2)
  proof (cases rule: upsert_repo_cases)
    case (old meta r0)
    have o: "r0 \<in> set (t_rows t)" "rp_key r0 = rs_key sp" using select_by_SomeD [OF old(1)] by auto
    have "set (t_rows t') = insert r (set (t_rows t) - {r0})"
      using set_replace [of rp_id t r0 r] assms(1) o(1) old(2,3) by (simp add: roster_ok_def)
    then show ?thesis using o(2) by auto
  qed auto
  then show "r \<in> set (t_rows t')" "x \<in> set (t_rows t) \<Longrightarrow> rp_key x \<noteq> rs_key sp \<Longrightarrow> x \<in> set (t_rows t')"
    by blast+
qed

lemma upsert_repos_rows:
  assumes "roster_ok t" and "\<forall>sp\<in>set sps. spec_ok sp" and "upsert_repos now sps t = Inr (rows, t')"
  shows "list_all2 row_of_spec sps rows"
    and "x \<in> set (t_rows t) \<Longrightarrow> rp_key x \<notin> rs_key ` set sps \<Longrightarrow> x \<in> set (t_rows t')"
    and "distinct (map rs_key sps) \<Longrightarrow> set rows \<subseteq> set (t_rows t')"
  using assms
proof (induction sps arbitrary: t rows x)
  case (Cons sp sps)
  have split: "\<exists>r rows' t1. rows = r # rows' \<and> upsert_repo now sp t = Inr (r, t1) \<and>
      upsert_repos now sps t1 = Inr (rows', t') \<and> roster_ok t1"
    if "roster_ok t" "\<forall>sp\<in>set (sp # sps). spec_ok sp" "upsert_repos now (sp # sps) t = Inr (rows, t')"
    for t rows
  proof -
    from that(3) obtain r t1 rows' where "upsert_repo now sp t = Inr (r, t1)"
      "upsert_repos now sps t1 = Inr (rows', t')" "rows = r # rows'"
      by (auto simp: rbind_Inr_iff)
    moreover have "roster_ok t1" using upsert_repo_ok [OF that(1) _ calculation(1)] that(2) by simp
    ultimately show ?thesis by (intro exI [of _ r] exI [of _ rows'] exI [of _ t1] conjI)
  qed
  {
    case 1
    then show ?case using split [OF 1] Cons.IH(1) upsert_repo_row by fastforce
  next
    case 2
    from split [OF 2(3-5)] obtain r rows' t1 where r: "upsert_repo now sp t = Inr (r, t1)"
      "upsert_repos now sps t1 = Inr (rows', t')" "roster_ok t1" by blast
    show ?case
      using Cons.IH(2) [OF upsert_repo_rows(2) [OF 2(3) r(1) 2(1)] _ r(3) _ r(2)] 2(2,4) by auto
  next
    case 3
    from split [OF 3(2-4)] obtain r rows' t1 where r: "rows = r # rows'" "upsert_repo now sp t = Inr (r, t1)"
      "upsert_repos now sps t1 = Inr (rows', t')" "roster_ok t1" by blast
    have "rp_key r = rs_key sp" using upsert_repo_row [OF r(2)] by (auto simp: row_of_spec_def)
    then have "r \<in> set (t_rows t')"
      using Cons.IH(2) [OF upsert_repo_rows(1) [OF 3(2) r(2)] _ r(4) _ r(3)] 3(1,3) by auto
    moreover have "set rows' \<subseteq> set (t_rows t')"
      using Cons.IH(3) [OF _ r(4) _ r(3)] 3(1,3) by auto
    ultimately show ?case using r(1) by simp
  }
qed auto

text \<open>A roster batch is all or nothing. When it fails nothing is written; when it succeeds
  there is one row per specification, in order, with the normalised values of the specification,
  and when the keys of the batch differ every one of these rows is in the table.\<close>

theorem roster_batch_atomic:
  assumes "reachable s"
  shows "case upsert_repositories now specs s of
      (Inl e, s') \<Rightarrow> s' = s
    | (Inr rows, s') \<Rightarrow> \<exists>sps. rmapM normalize_spec specs = Inr sps \<and> list_all2 row_of_spec sps rows \<and>
        (distinct (map rs_key sps) \<longrightarrow> set rows \<subseteq> set (t_rows (repositories s')))"
proof -
  have ok: "roster_ok (repositories s)" using reachable_ok [OF assms] by (simp add: db_ok_def)
  show ?thesis
  proof (cases "rmapM normalize_spec specs")
    case (Inr sps)
    note n = normalized_specs [OF Inr]
    show ?thesis
    proof (cases "upsert_repos (now_iso now) sps (repositories s)")
      case (Inr p)
      obtain rows t where "p = (rows, t)" by fastforce
      then show ?thesis
        using Inr \<open>rmapM normalize_spec specs = Inr sps\<close> upsert_repos_rows(1,3) [OF ok n, of "now_iso now" rows t]
        by (auto simp: upsert_repositories_def txn_def)
    qed (use Inr in \<open>auto simp: upsert_repositories_def txn_def\<close>)
  qed (simp add: upsert_repositories_def)
qed

theorem roster_batch_atomic_witness:
  "\<exists>sps. rmapM normalize_spec [spec_a, spec_b] = Inr sps \<and> list_all2 row_of_spec sps [repo_a, repo_b]"
proof -
  have "reachable init_store" by (simp add: reachable_def)
  then show ?thesis
    using roster_batch_atomic [where s = init_store and now = t0 and specs = "[spec_a, spec_b]"] roster_ab_upserted by auto
qed

text \<open>Marking a schedule as fired only ever moves it forward: an enabled schedule gets the
  later of its old and the new next run time, a disabled one stays as it is, the firing time is
  recorded when and only when the schedule moves, the new time must lie after the firing, and
  marking the same slot again changes nothing.\<close>

theorem schedule_fires_forward:
  assumes "mark_schedule_fired now i f n s = (Inr r, s')"
  shows "\<exists>old nx fd. select_by sc_id i (t_rows (schedules s)) = Some old \<and>
    utc_iso now (Some f) = Inr fd \<and> utc_iso now (Some n) = Inr nx \<and> fd < nx \<and>
    (sc_enabled old \<longrightarrow> sc_next r = max (sc_next old) nx) \<and>
    (\<not> sc_enabled old \<or> \<not> sc_next old < nx \<longrightarrow> r = old \<and> s' = s) \<and>
    (sc_enabled old \<and> sc_next old < nx \<longrightarrow> sc_last r = Some fd) \<and>
    mark_schedule_fired now' i f n s' = (Inr r, s')"
proof -
  from assms obtain fd nx old where c: "utc_iso now (Some f) = Inr fd" "utc_iso now (Some n) = Inr nx" "\<not> nx \<le> fd"
    "select_by sc_id i (t_rows (schedules s)) = Some old"
    and b: "(sc_enabled old \<and> sc_next old < nx \<and>
        r = old\<lparr>sc_last := Some fd, sc_next := nx, sc_updated := now_iso now\<rparr> \<and>
        s' = s\<lparr>schedules := table_update sc_id i (\<lambda>_. r) (schedules s)\<rparr>) \<or>
      (\<not> (sc_enabled old \<and> sc_next old < nx) \<and> r = old \<and> s' = s)"
    by (auto simp: mark_schedule_fired_def checked_eq_iff txn_eq_Inr_iff rbind_Inr_iff require_row_Inr_iff Let_def
        split: if_split_asm)
  have id: "sc_id old = i" using select_by_SomeD [OF c(4)] by simp
  have "select_by sc_id i (t_rows (schedules s')) = Some r"
    using b c(4) id select_by_update_by [of sc_id i "\<lambda>_. r" i "t_rows (schedules s)"] by auto
  then have "mark_schedule_fired now' i f n s' = (Inr r, s')"
    using b c(1-3) utc_iso_argument [of now _ now']
    by (auto simp: mark_schedule_fired_def txn_def require_row_def)
  then show ?thesis using b c by (intro exI [of _ old] exI [of _ nx] exI [of _ fd]) (auto simp: max_def)
qed

definition t1 :: dtime where "t1 = t0\<lparr>dt_day := 2\<rparr>"
definition t1_text :: string where "t1_text = ''2024-03-02T09:00:00.000000Z''"

lemma t1_valid: "utc_dtime t1"
  by (simp add: utc_dtime_def t1_def t0_def valid_dtime_def valid_date_def day_us_val days_in_month_def leap_year_def)

lemma now_t1: "now_iso t1 = t1_text"
  unfolding t1_text_def t1_def t0_def by code_simp

lemma utc_t1 [simp]: "utc_iso now (Some (DtObj t1)) = Inr t1_text" "utc_iso now (Some (DtObj t0)) = Inr t0_text"
proof -
  have "utc_iso t1 None = Inr t1_text" using now_iso_utc_iso [OF t1_valid] now_t1 by simp
  then show "utc_iso now (Some (DtObj t1)) = Inr t1_text" by (simp add: utc_iso_def utc_parse_def)
  show "utc_iso now (Some (DtObj t0)) = Inr t0_text"
    using utc_t0(2) utc_iso_argument [of now "DtObj t0" t0] by simp
qed

lemma t0_before_t1: "t0_text < t1_text" "\<not> t1_text \<le> t0_text"
  unfolding t0_text_def t1_text_def by code_simp+

definition sched_a :: schedule_row where
  "sched_a = \<lparr>sc_id = 1, sc_key = ''weekly'', sc_assignment = 1, sc_interval = 86400,
     sc_timezone = ''UTC'', sc_policy = CatchUpAll, sc_enabled = True, sc_next = t0_text,
     sc_last = None, sc_created = t0_text, sc_updated = t0_text\<rparr>"

definition sched_fired :: schedule_row where
  "sched_fired = sched_a\<lparr>sc_last := Some t0_text, sc_next := t1_text\<rparr>"

lemma fired_value:
  "mark_schedule_fired t0 1 (DtObj t0) (DtObj t1) (s_assigned\<lparr>schedules := one sched_a\<rparr>) =
    (Inr sched_fired, s_assigned\<lparr>schedules := one sched_fired\<rparr>)"
  using t0_before_t1
  by (simp add: mark_schedule_fired_def txn_def require_row_def sched_a_def sched_fired_def now_t0
      update_one Let_def)

theorem schedule_fires_forward_witness:
  "mark_schedule_fired t1 1 (DtObj t0) (DtObj t1) (s_assigned\<lparr>schedules := one sched_fired\<rparr>) =
    (Inr sched_fired, s_assigned\<lparr>schedules := one sched_fired\<rparr>) \<and> sc_next sched_fired = t1_text"
  using schedule_fires_forward [OF fired_value, of t1] by (auto simp: sched_fired_def)

end
