(* ===== verification/Value_Properties.thy ===== *)
theory Value_Properties
  imports Job_Properties
begin

text \<open>
  Properties of the values the program stores and compares: timestamps, digests, object ids,
  clone URLs and canonical JSON text.
\<close>

text \<open>A stored timestamp is its own normal form: whatever \<open>utc_iso\<close> returned, for a datetime
  or a text with any offset, it returns unchanged when given it again, at any later time.\<close>

theorem utc_iso_idempotent:
  assumes "utc_iso now v = Inr s" and "utc_dtime now" and "valid_value v"
  shows "utc_iso now' (Some (DtText s)) = Inr s"
  by (rule utc_iso_cases [OF assms]) (simp add: utc_iso_normal_form)

theorem utc_iso_idempotent_witness:
  "utc_iso t1 (Some (DtText t0_text)) = Inr t0_text"
  using utc_iso_idempotent [OF utc_t0(2) t0_valid, of t1] t0_valid
  by (simp add: utc_dtime_def valid_value_def)

text \<open>C5: Comparing two stored timestamps as text compares the instants they stand for, whatever
  offsets the datetimes were given with: this is what the due schedules query and the snapshot
  window rely on.\<close>

theorem utc_iso_text_order:
  assumes "utc_iso now1 v1 = Inr s1" "utc_dtime now1" "valid_value v1"
    and "utc_iso now2 v2 = Inr s2" "utc_dtime now2" "valid_value v2"
    and "utc_parse now1 v1 = Inr ta" "dt_offset ta = Some off1"
    and "utc_parse now2 v2 = Inr tb" "dt_offset tb = Some off2"
  shows "(s1 < s2 \<longleftrightarrow> instant_of ta off1 < instant_of tb off2) \<and>
    (s1 = s2 \<longleftrightarrow> instant_of ta off1 = instant_of tb off2)"
proof -
  obtain u1 where u1: "utc_dtime u1" "s1 = stem u1 @ ''Z''" "instant_of u1 0 = instant_of ta off1"
    by (rule utc_iso_cases [OF assms(1-3)]) (use assms(7,8) in auto)
  obtain u2 where u2: "utc_dtime u2" "s2 = stem u2 @ ''Z''" "instant_of u2 0 = instant_of tb off2"
    by (rule utc_iso_cases [OF assms(4-6)]) (use assms(9,10) in auto)
  show ?thesis using stem_less_iff [OF u1(1) u2(1), of "''Z''"] u1 u2 by metis
qed

theorem utc_iso_text_order_witness:
  "t0_text < t1_text \<and> instant_of t0 0 < instant_of t1 0"
proof -
  have v: "valid_value (Some (DtObj t0))" "valid_value (Some (DtObj t1))"
    "dt_offset t0 = Some 0" "dt_offset t1 = Some 0"
    using t0_valid t1_valid by (simp_all add: utc_dtime_def valid_value_def)
  have p: "utc_parse t0 (Some (DtObj t)) = Inr t" for t by (simp add: utc_parse_def)
  show ?thesis
    using utc_iso_text_order [OF utc_t0(2) t0_valid v(1) utc_t1(1) t0_valid v(2) p v(3) p v(4)]
      t0_before_t1(1) by simp
qed

text \<open>Every validator of the store returns a value it accepts unchanged: validating a key, an
  object id, a digest or a clone URL a second time changes nothing and fails exactly when the
  first validation failed, so a value read back from a row is accepted.\<close>

theorem validators_idempotent:
  "rbind (required_text v) required_text = required_text v \<and>
   rbind (git_oid v) git_oid = git_oid v \<and>
   rbind (optional_sha256_digest v) optional_sha256_digest = optional_sha256_digest v \<and>
   rbind (clone_url v) clone_url = clone_url v \<and>
   rbind (optional_sha256_digest v) required_text =
     (case optional_sha256_digest v of Inl e \<Rightarrow> Inl e | Inr t \<Rightarrow> if t = [] then Inl ValueError else Inr t)"
proof -
  have "required_text t = Inr t" if "optional_sha256_digest v = Inr t" "t \<noteq> []" for t
    using digest_result_text [OF that] .
  then have "rbind (optional_sha256_digest v) required_text =
     (case optional_sha256_digest v of Inl e \<Rightarrow> Inl e | Inr t \<Rightarrow> if t = [] then Inl ValueError else Inr t)"
    by (cases "optional_sha256_digest v") (auto simp: required_text_def strip_def lstrip_def)
  then show ?thesis using required.twice oid.twice digest.twice url.twice by blast
qed

text \<open>The text stored for a mapping does not depend on the order in which its members are
  listed, so equal mappings are stored, compared and hashed as equal text.\<close>

theorem dumps_member_order:
  assumes "distinct (map fst ms)" and "distinct (map fst ms')" and "set ms = set ms'"
    and "dumps (JObj ms) = Inr t" and "dumps (JObj ms') = Inr t'"
  shows "t = t'"
proof -
  let ?r = "rmapM (\<lambda>p. rbind (dumps (snd p)) (\<lambda>t. Inr (fst p, t)))"
  from assms(4,5) obtain ps qs where p: "?r ms = Inr ps" and q: "?r ms' = Inr qs"
    and t: "t = ''{'' @ join '','' (map (\<lambda>p. quoted (fst p) @ '':'' @ snd p) (sort_key fst ps)) @ ''}''"
    and t': "t' = ''{'' @ join '','' (map (\<lambda>p. quoted (fst p) @ '':'' @ snd p) (sort_key fst qs)) @ ''}''"
    by (auto simp: result_simps)
  have "set ps = set qs"
    using rmapM_rendered [OF p] rmapM_rendered [OF q] assms(3) by auto
  then have "sort_key fst ps = sort_key fst qs"
    using rmapM_rendered [OF p] rmapM_rendered [OF q] assms(1,2)
    by (intro sort_key_unique_keys) simp_all
  then show ?thesis by (simp add: t t')
qed

theorem dumps_member_order_witness:
  "dumps (JObj [(''b'', JInt 1), (''a'', JNull)]) = dumps (JObj [(''a'', JNull), (''b'', JInt 1)])"
proof -
  have a: "\<exists>t. dumps (JObj [(''b'', JInt 1), (''a'', JNull)]) = Inr t"
    and b: "\<exists>t. dumps (JObj [(''a'', JNull), (''b'', JInt 1)]) = Inr t"
    by simp_all
  then obtain t t' where t: "dumps (JObj [(''b'', JInt 1), (''a'', JNull)]) = Inr t"
    "dumps (JObj [(''a'', JNull), (''b'', JInt 1)]) = Inr t'" by blast
  have "t = t'" by (rule dumps_member_order [OF _ _ _ t]) auto
  then show ?thesis using t by simp
qed

end
