(* ===== verification/Collection_Service.thy ===== *)
theory Collection_Service
  imports Store_Refinement
begin

text \<open>
  \<open>CollectionService\<close> of \<open>src/src/autograde/service.py\<close>: one collection run driven over the store.
  The Git collector, the archive files and the generated part of a run key are parameters. The
  pool of worker threads is a list of worker states and a trace that says which worker performs
  its next store transaction, and at what time; every interleaving of the transactions is one
  such trace. The lock per run key serialises whole collections and has no state of its own.
\<close>

section \<open>Exceptions caught per repository\<close>

text \<open>An exception as \<open>_error_code\<close> and \<open>_error_message\<close> read it: the name of its class and its
  text. The texts of the store's own errors are a parameter.\<close>

record exn =
  ex_class :: string
  ex_text :: string

fun error_class :: "py_error \<Rightarrow> string" where
  "error_class ValueError = ''ValueError''"
| "error_class TypeErr = ''TypeError''"
| "error_class AttributeErr = ''AttributeError''"
| "error_class OverflowErr = ''OverflowError''"
| "error_class NotFoundError = ''NotFoundError''"
| "error_class IdempotencyConflict = ''IdempotencyConflict''"
| "error_class InvalidStateTransition = ''InvalidStateTransition''"
| "error_class SchemaVersionError = ''SchemaVersionError''"
| "error_class GradingInputMismatch = ''GradingInputMismatch''"
| "error_class StateStoreError = ''StateStoreError''"
| "error_class IntegrityError = ''IntegrityError''"

definition is_upper :: "char \<Rightarrow> bool" where
  "is_upper c = (let n = of_char c :: nat in 65 \<le> n \<and> n \<le> 90)"

definition upper_char :: "char \<Rightarrow> char" where
  "upper_char c = (let n = of_char c :: nat in if 97 \<le> n \<and> n \<le> 122 then char_of (n - 32) else c)"

text \<open>\<open>re.sub(r"(?<!^)(?=[A-Z])", "_", name).upper()\<close> for an ASCII class name.\<close>

fun underscored :: "string \<Rightarrow> string" where
  "underscored [] = []"
| "underscored (c # cs) = c # concat (map (\<lambda>x. if is_upper x then [CHR ''_'', x] else [x]) cs)"

definition error_code_of :: "exn \<Rightarrow> string" where
  "error_code_of e =
     (let words = map upper_char (underscored (ex_class e))
      in if take 80 words = [] then ''COLLECTION_ERROR'' else take 80 words)"

text \<open>\<open>" ".join(text.split())\<close>.\<close>

fun split_words :: "string \<Rightarrow> string \<Rightarrow> string list" where
  "split_words acc [] = (if acc = [] then [] else [rev acc])"
| "split_words acc (c # cs) =
     (if py_space c then (if acc = [] then split_words [] cs else rev acc # split_words [] cs)
      else split_words (c # acc) cs)"

definition error_message_of :: "exn \<Rightarrow> string" where
  "error_message_of e =
     (let message = join '' '' (split_words [] (ex_text e))
      in take 2000 (if message = [] then ex_class e else message))"

text \<open>\<open>repr\<close> of a text: single quotes unless only those occur in it, and escapes for the quote,
  the backslash and the characters that do not print.\<close>

definition repr_char :: "char \<Rightarrow> char \<Rightarrow> string" where
  "repr_char q c = (let n = of_char c :: nat in
     if c = q \<or> n = 92 then [char_of (92::nat), c]
     else if n = 9 then [char_of (92::nat), CHR ''t'']
     else if n = 10 then [char_of (92::nat), CHR ''n'']
     else if n = 13 then [char_of (92::nat), CHR ''r'']
     else if n < 32 \<or> 127 \<le> n \<and> n \<le> 160 \<or> n = 173
       then [char_of (92::nat), CHR ''x'', hex_char (n div 16), hex_char (n mod 16)]
     else [c])"

definition quote_single :: char where "quote_single = char_of (39::nat)"
definition quote_double :: char where "quote_double = char_of (34::nat)"

definition repr_text :: "string \<Rightarrow> string" where
  "repr_text s =
     (let q = (if quote_single \<in> set s \<and> quote_double \<notin> set s then quote_double else quote_single)
      in [q] @ concat (map (repr_char q) s) @ [q])"

definition missing_branch :: "int \<Rightarrow> string \<Rightarrow> exn" where
  "missing_branch repository_id target_ref =
     \<lparr>ex_class = ''RemoteBranchNotFoundError'',
      ex_text = ''remote for repository '' @ show_int repository_id @ '' has no '' @
        repr_text target_ref @ '' branch''\<rparr>"

section \<open>The collector\<close>

record fetch_result =
  fr_old_sha :: "string option"
  fr_new_sha :: "string option"
  fr_forced :: bool

record archive =
  ar_commit :: string
  ar_sha256 :: string
  ar_path :: string

text \<open>The two operations of the Git collector the service calls, as outcomes for a job and for a
  job and a commit, and the text of a store error.\<close>

record environment =
  env_fetch :: "collection_job \<Rightarrow> exn + fetch_result"
  env_snapshot :: "collection_job \<Rightarrow> string option \<Rightarrow> exn + archive"
  env_error_text :: "py_error \<Rightarrow> string"

definition store_exn :: "environment \<Rightarrow> py_error \<Rightarrow> exn" where
  "store_exn env e = \<lparr>ex_class = error_class e, ex_text = env_error_text env e\<rparr>"

section \<open>One repository\<close>

text \<open>Where a worker stands: before its claim, with the claimed job before the fetch, with a
  fetch result to record, with a job whose commit is recorded, with an archive to complete the
  job with, with an exception to record, at its end, or ended by an error of the store that is
  not recorded.\<close>

datatype phase =
    AtClaim
  | AtFetch collection_job
  | AtRecord collection_job fetch_result string
  | AtSnapshot collection_job
  | AtComplete collection_job archive
  | AtFail exn
  | Ended
  | Crashed py_error

text \<open>The value \<open>claimed.new_sha or snapshot.commit_sha\<close>.\<close>

definition completed_sha :: "collection_job \<Rightarrow> archive \<Rightarrow> string" where
  "completed_sha c a = (case co_new_sha c of None \<Rightarrow> ar_commit a
     | Some v \<Rightarrow> if v = [] then ar_commit a else v)"

definition snapshot_key_of :: "collection_job \<Rightarrow> string" where
  "snapshot_key_of j = ''snapshot:'' @ co_key j"

text \<open>One step of \<open>_collect_repository\<close> for the pinned job \<open>j\<close>: one store transaction, or one
  call of the collector.\<close>

fun worker_step :: "environment \<Rightarrow> dtime \<Rightarrow> collection_job \<Rightarrow> phase \<Rightarrow> store \<Rightarrow> phase \<times> store" where
  "worker_step env now j AtClaim s =
     (if co_state j = JobSucceeded then (Ended, s)
      else case claim_collection_job now (co_id j) None s of
          (Inl e, s') \<Rightarrow> (AtFail (store_exn env e), s')
        | (Inr c, s') \<Rightarrow> (if co_new_sha c = None then AtFetch c else AtSnapshot c, s'))"
| "worker_step env now j (AtFetch c) s =
     (case env_fetch env j of
        Inl x \<Rightarrow> (AtFail x, s)
      | Inr f \<Rightarrow> (case fr_new_sha f of
            None \<Rightarrow> (AtFail (missing_branch (co_repo j) (co_target_ref j)), s)
          | Some new \<Rightarrow> (AtRecord c f new, s)))"
| "worker_step env now j (AtRecord c f new) s =
     (case record_collection_fetch (co_id c) new (fr_old_sha f) (fr_forced f) s of
        (Inl e, s') \<Rightarrow> (AtFail (store_exn env e), s')
      | (Inr c', s') \<Rightarrow> (AtSnapshot c', s'))"
| "worker_step env now j (AtSnapshot c) s =
     (case env_snapshot env j (co_new_sha c) of
        Inl x \<Rightarrow> (AtFail x, s)
      | Inr a \<Rightarrow> (AtComplete c a, s))"
| "worker_step env now j (AtComplete c a) s =
     (case complete_collection_with_snapshot now (co_id c) (completed_sha c a) (snapshot_key_of j)
             (co_path j) (co_old_sha c) (co_force c) (ar_sha256 a) (Some (ar_path a))
             (map_option DtText (co_started c)) None (late_value LateUnknown) None s of
        (Inl e, s') \<Rightarrow> (Crashed e, s')
      | (Inr _, s') \<Rightarrow> (Ended, s'))"
| "worker_step env now j (AtFail x) s =
     (case fail_collection_job now (co_id j) (error_code_of x) (error_message_of x) None s of
        (Inl e, s') \<Rightarrow> (Crashed e, s')
      | (Inr _, s') \<Rightarrow> (Ended, s'))"
| "worker_step env now j Ended s = (Ended, s)"
| "worker_step env now j (Crashed e) s = (Crashed e, s)"

fun finished :: "phase \<Rightarrow> bool" where
  "finished Ended = True"
| "finished (Crashed e) = True"
| "finished _ = False"

section \<open>The pool\<close>

text \<open>A trace names the worker of each step and reads the clock for it.\<close>

type_synonym trace = "(nat \<times> dtime) list"

fun run_pool :: "environment \<Rightarrow> collection_job list \<Rightarrow> trace \<Rightarrow> phase list \<Rightarrow> store \<Rightarrow> phase list \<times> store" where
  "run_pool env js [] ps s = (ps, s)"
| "run_pool env js ((i, now) # tr) ps s =
     (if i < length js \<and> i < length ps then
        (let (p, s') = worker_step env now (js ! i) (ps ! i) s
         in run_pool env js tr (ps[i := p]) s')
      else run_pool env js tr ps s)"

definition start_pool :: "collection_job list \<Rightarrow> phase list" where
  "start_pool js = map (\<lambda>_. AtClaim) js"

section \<open>The collection\<close>

datatype service_error =
    StoreRaised py_error
  | NeedsReconciliation
  | SummaryRejected
  | StillRunning

record summary =
  su_run :: run_row
  su_jobs :: "collection_job list"
  su_snapshots :: "snapshot_row list"

type_synonym 'a service = "store \<Rightarrow> (service_error + 'a) \<times> store"

definition from_store :: "(store, 'a) op \<Rightarrow> 'a service" where
  "from_store f s = (case f s of (Inl e, s') \<Rightarrow> (Inl (StoreRaised e), s') | (Inr x, s') \<Rightarrow> (Inr x, s'))"

definition bind_service :: "'a service \<Rightarrow> ('a \<Rightarrow> 'b service) \<Rightarrow> 'b service" where
  "bind_service m f s = (case m s of (Inl e, s') \<Rightarrow> (Inl e, s') | (Inr x, s') \<Rightarrow> f x s')"

text \<open>\<open>_summary\<close>: every succeeded job needs its snapshot, with an archive file that is still
  there and still has the recorded digest. \<open>file_digest\<close> is the SHA-256 of a regular file.\<close>

definition snapshot_accepted :: "(string \<Rightarrow> string option) \<Rightarrow> snapshot_row \<Rightarrow> bool" where
  "snapshot_accepted file_digest sn =
     (case ss_source_path sn of None \<Rightarrow> False
      | Some p \<Rightarrow> p \<noteq> [] \<and> (case file_digest p of None \<Rightarrow> False
          | Some d \<Rightarrow> ss_digest sn = [] \<or> d = ss_digest sn))"

definition last_of_job :: "int \<Rightarrow> snapshot_row list \<Rightarrow> snapshot_row option" where
  "last_of_job i sns = select_by ss_job i (rev sns)"

definition job_backed :: "(string \<Rightarrow> string option) \<Rightarrow> snapshot_row list \<Rightarrow> collection_job \<Rightarrow> bool" where
  "job_backed file_digest sns j =
     (co_state j = JobSucceeded \<longrightarrow>
        (case last_of_job (co_id j) sns of None \<Rightarrow> False | Some n \<Rightarrow> snapshot_accepted file_digest n))"

definition run_snapshots :: "run_row \<Rightarrow> store \<Rightarrow> snapshot_row list" where
  "run_snapshots run s = filter (\<lambda>n. ss_run n = rn_id run)
     (list_submission_snapshots (Some (rn_assignment run)) None s)"

definition collection_summary :: "(string \<Rightarrow> string option) \<Rightarrow> run_row \<Rightarrow> summary service" where
  "collection_summary file_digest run s =
     (case list_collection_jobs (rn_id run) None s of
        Inl e \<Rightarrow> (Inl (StoreRaised e), s)
      | Inr js \<Rightarrow>
          if list_all (job_backed file_digest (run_snapshots run s)) js
          then (Inr \<lparr>su_run = run, su_jobs = js, su_snapshots = run_snapshots run s\<rparr>, s)
          else (Inl SummaryRejected, s))"

text \<open>The executor block: all workers run to their end; an error that was not recorded needs
  reconciliation. A trace that leaves a worker unfinished is not a completed block.\<close>

definition run_workers :: "environment \<Rightarrow> collection_job list \<Rightarrow> trace \<Rightarrow> unit service" where
  "run_workers env js tr s =
     (case run_pool env js tr (start_pool js) s of (ps, s') \<Rightarrow>
        if \<not> list_all finished ps then (Inl StillRunning, s')
        else if list_ex (\<lambda>p. p \<noteq> Ended) ps then (Inl NeedsReconciliation, s')
        else (Inr (), s'))"

text \<open>\<open>_collect_locked\<close> in its parts: starting a queued run, the run without any job, the run over
  its pinned jobs.\<close>

definition started :: "dtime \<Rightarrow> run_row \<Rightarrow> run_row service" where
  "started now run = (if rn_state run = RunQueued then from_store (start_collection_run now (rn_id run) None)
     else (\<lambda>s. (Inr run, s)))"

definition collect_nothing :: "(string \<Rightarrow> string option) \<Rightarrow> dtime \<Rightarrow> run_row \<Rightarrow> summary service" where
  "collect_nothing file_digest now run =
     bind_service (started now run) (\<lambda>run'.
     bind_service (from_store (fail_collection_run now (rn_id run')
                     ''no active repositories are registered'' None)) (\<lambda>failed.
       collection_summary file_digest failed))"

definition collect_jobs ::
  "environment \<Rightarrow> (string \<Rightarrow> string option) \<Rightarrow> dtime \<Rightarrow> trace \<Rightarrow> dtime \<Rightarrow> run_row \<Rightarrow>
   collection_job list \<Rightarrow> summary service" where
  "collect_jobs env file_digest now tr now_end run js =
     bind_service (started now run) (\<lambda>run'.
     bind_service (run_workers env js tr) (\<lambda>_.
     bind_service (from_store (complete_collection_run now_end (rn_id run') None)) (\<lambda>ended.
       collection_summary file_digest ended)))"

definition collect_locked ::
  "environment \<Rightarrow> (string \<Rightarrow> string option) \<Rightarrow> dtime \<Rightarrow> trace \<Rightarrow> dtime \<Rightarrow> run_row \<Rightarrow> summary service" where
  "collect_locked env file_digest now tr now_end run =
     (if terminal_run (rn_state run) then collection_summary file_digest run
      else
        bind_service (from_store (pin_collection_jobs_for_active_repositories (rn_id run) 3)) (\<lambda>js.
          if js = [] then collect_nothing file_digest now run
          else collect_jobs env file_digest now tr now_end run js))"

text \<open>\<open>collect\<close>: the run key is the given one unless it is absent or empty, and then the trigger,
  the assignment and a fresh hexadecimal text; the scheduled time of a known key is read back
  from its run.\<close>

definition effective_run_key :: "string option \<Rightarrow> collection_trigger \<Rightarrow> int \<Rightarrow> string \<Rightarrow> string" where
  "effective_run_key run_key trig assignment_id fresh =
     (let generated = trigger_value trig @ '':'' @ show_int assignment_id @ '':'' @ fresh
      in case run_key of None \<Rightarrow> generated | Some k \<Rightarrow> if k = [] then generated else k)"

definition scheduled_time :: "dtime \<Rightarrow> string option \<Rightarrow> string \<Rightarrow> dtvalue option \<Rightarrow> store \<Rightarrow> string res" where
  "scheduled_time now run_key effective_key scheduled_for s =
     (if scheduled_for = None \<and> run_key \<noteq> None
      then (case get_collection_run_by_key effective_key s of
              Inr run \<Rightarrow> Inr (rn_scheduled_for run)
            | Inl e \<Rightarrow> if e = NotFoundError then utc_iso now None else Inl e)
      else utc_iso now scheduled_for)"

definition collect ::
  "environment \<Rightarrow> (string \<Rightarrow> string option) \<Rightarrow> dtime \<Rightarrow> trace \<Rightarrow> dtime \<Rightarrow> string \<Rightarrow> string \<Rightarrow>
   string option \<Rightarrow> dtvalue option \<Rightarrow> int option \<Rightarrow> string \<Rightarrow> summary service" where
  "collect env file_digest now tr now_end fresh assignment_key run_key scheduled_for schedule_id trigger s =
     (case get_assignment_by_key assignment_key s of
        Inl e \<Rightarrow> (Inl (StoreRaised e), s)
      | Inr a \<Rightarrow> (case enum_value trigger_value triggers trigger of
          Inl e \<Rightarrow> (Inl (StoreRaised e), s)
        | Inr trig \<Rightarrow>
            (let key = effective_run_key run_key trig (as_id a) fresh
             in case scheduled_time now run_key key scheduled_for s of
                  Inl e \<Rightarrow> (Inl (StoreRaised e), s)
                | Inr sched \<Rightarrow>
                    bind_service (from_store (create_collection_run now key (as_id a) (DtText sched)
                                    schedule_id (trigger_value trig))) (\<lambda>run.
                      collect_locked env file_digest now tr now_end run) s)))"

end
