(* ===== verification/Collection_Pool.thy ===== *)
theory Collection_Pool
  imports Collection_Service
begin

text \<open>
  Lemmas about the worker pool of \<open>CollectionService\<close>: every interleaving is a sequence of store
  steps, every worker that keeps being scheduled ends within five steps, a worker touches only
  the row of its own job, and a worker that ended without an error left that job decided.
\<close>

section \<open>The collection writes through store operations only\<close>

lemma step_path: "store_step s s' \<Longrightarrow> store_step\<^sup>*\<^sup>* s s'"
  by (rule r_into_rtranclp)

lemma snd_case_outcome:
  "snd (case p of (Inl e, s') \<Rightarrow> (f e, s') | (Inr x, s') \<Rightarrow> (g x, s')) = snd p"
  by (auto split: prod.split sum.split)

lemma worker_store: "store_step\<^sup>*\<^sup>* s (snd (worker_step env now j p s))"
proof (cases p)
  case AtClaim
  then show ?thesis by (auto simp: snd_case_outcome intro: step_path store_step.intros)
next
  case (AtFetch c)
  then show ?thesis by (auto split: sum.split option.split)
next
  case (AtRecord c f new)
  then show ?thesis by (auto simp: snd_case_outcome intro: step_path store_step.intros)
next
  case (AtSnapshot c)
  then show ?thesis by (auto split: sum.split)
next
  case (AtComplete c a)
  then show ?thesis by (auto simp: snd_case_outcome intro: step_path store_step.intros)
next
  case (AtFail x)
  then show ?thesis by (auto simp: snd_case_outcome intro: step_path store_step.intros)
qed simp_all

lemma pool_store: "store_step\<^sup>*\<^sup>* s (snd (run_pool env js tr ps s))"
proof (induction tr arbitrary: ps s)
  case (Cons e tr)
  obtain i now where e: "e = (i, now)" by (cases e)
  show ?case
  proof (cases "i < length js \<and> i < length ps")
    case True
    let ?w = "worker_step env now (js ! i) (ps ! i) s"
    have "store_step\<^sup>*\<^sup>* (snd ?w) (snd (run_pool env js tr (ps[i := fst ?w]) (snd ?w)))"
      by (rule Cons.IH)
    then show ?thesis
      using True worker_store [of s env now "js ! i" "ps ! i"]
      by (auto simp: e Let_def split: prod.split)
  next
    case False
    then show ?thesis using Cons.IH by (auto simp: e)
  qed
qed simp

definition writes_by_steps :: "'a service \<Rightarrow> bool" where
  "writes_by_steps m = (\<forall>s. store_step\<^sup>*\<^sup>* s (snd (m s)))"

lemma writes_bind:
  assumes "writes_by_steps m" and "\<And>x. writes_by_steps (f x)"
  shows "writes_by_steps (bind_service m f)"
  unfolding writes_by_steps_def
proof
  fix s
  have m: "store_step\<^sup>*\<^sup>* s (snd (m s))" using assms(1) by (simp add: writes_by_steps_def)
  show "store_step\<^sup>*\<^sup>* s (snd (bind_service m f s))"
  proof (cases "m s")
    case (Pair r s')
    then show ?thesis
      using m assms(2) by (cases r) (auto simp: bind_service_def writes_by_steps_def intro: rtranclp_trans)
  qed
qed

lemma writes_store: "(\<And>s. store_step s (snd (f s))) \<Longrightarrow> writes_by_steps (from_store f)"
  by (auto simp: writes_by_steps_def from_store_def snd_case_outcome intro: step_path)

lemma writes_summary: "writes_by_steps (collection_summary fd run)"
  by (auto simp: writes_by_steps_def collection_summary_def Let_def split: sum.split)

lemma writes_workers: "writes_by_steps (run_workers env js tr)"
  using pool_store by (auto simp: writes_by_steps_def run_workers_def split: prod.split) (metis snd_conv)+

lemma writes_return: "writes_by_steps (\<lambda>s. (r, s))"
  by (simp add: writes_by_steps_def)

lemma writes_if: "(b \<Longrightarrow> writes_by_steps m) \<Longrightarrow> (\<not> b \<Longrightarrow> writes_by_steps m') \<Longrightarrow> writes_by_steps (if b then m else m')"
  by simp

lemmas writes_intros = writes_if writes_bind writes_store writes_summary writes_workers writes_return
  store_step.intros

lemma writes_collect_locked: "writes_by_steps (collect_locked env fd now tr now_end run)"
  unfolding collect_locked_def collect_nothing_def collect_jobs_def started_def by (intro writes_intros)

lemma writes_collect:
  "writes_by_steps (collect env fd now tr now_end fresh akey run_key sched_for sched_id trigger)"
  unfolding writes_by_steps_def
proof
  fix s
  have b: "writes_by_steps (bind_service (from_store (create_collection_run now key i v k tv))
      (\<lambda>run. collect_locked env fd now tr now_end run))" for key i v k tv
    by (intro writes_bind writes_store store_step.intros writes_collect_locked)
  show "store_step\<^sup>*\<^sup>* s (snd (collect env fd now tr now_end fresh akey run_key sched_for sched_id trigger s))"
    using b by (auto simp: collect_def Let_def writes_by_steps_def split: sum.split)
qed

section \<open>Every worker ends\<close>

text \<open>How many more of its own steps a worker takes.\<close>

fun steps_left :: "phase \<Rightarrow> nat" where
  "steps_left AtClaim = 5"
| "steps_left (AtFetch c) = 4"
| "steps_left (AtRecord c f new) = 3"
| "steps_left (AtSnapshot c) = 2"
| "steps_left (AtComplete c a) = 1"
| "steps_left (AtFail x) = 1"
| "steps_left Ended = 0"
| "steps_left (Crashed e) = 0"

lemma finished_iff: "finished p \<longleftrightarrow> steps_left p = 0"
  by (cases p) simp_all

lemma worker_progress: "steps_left (fst (worker_step env now j p s)) \<le> steps_left p - 1"
  by (cases p) (auto split: sum.split option.split prod.split)

lemma pool_length: "length (fst (run_pool env js tr ps s)) = length ps"
  by (induction env js tr ps s rule: run_pool.induct) (auto simp: Let_def split: prod.split)

text \<open>The number of steps a trace gives to a worker.\<close>

definition turns :: "nat \<Rightarrow> trace \<Rightarrow> nat" where
  "turns i tr = length (filter (\<lambda>e. fst e = i) tr)"

lemma pool_progress:
  assumes "i < length js" and "i < length ps"
  shows "steps_left (fst (run_pool env js tr ps s) ! i) \<le> steps_left (ps ! i) - turns i tr"
  using assms
proof (induction tr arbitrary: ps s)
  case (Cons e tr)
  obtain k now where e: "e = (k, now)" by (cases e)
  show ?case
  proof (cases "k < length js \<and> k < length ps")
    case True
    obtain p s' where w: "worker_step env now (js ! k) (ps ! k) s = (p, s')" by fastforce
    have "steps_left p \<le> steps_left (ps ! k) - 1"
      using worker_progress [of env now "js ! k" "ps ! k" s] by (simp add: w)
    moreover have "steps_left (fst (run_pool env js tr (ps[k := p]) s') ! i) \<le> steps_left (ps[k := p] ! i) - turns i tr"
      using Cons.IH [of "ps[k := p]" s'] Cons.prems by simp
    ultimately show ?thesis
      using True Cons.prems(2) by (auto simp: e w Let_def turns_def nth_list_update)
  next
    case False
    then have "k \<noteq> i" using Cons.prems by auto
    with False show ?thesis using Cons.IH [OF Cons.prems] by (auto simp: e turns_def)
  qed
qed (simp add: turns_def)

lemma pool_ends:
  assumes "length ps = length js" and "\<And>i. i < length js \<Longrightarrow> steps_left (ps ! i) \<le> turns i tr"
  shows "list_all finished (fst (run_pool env js tr ps s))"
proof -
  have "finished (fst (run_pool env js tr ps s) ! i)" if "i < length js" for i
    using pool_progress [of i js ps env tr s] assms that by (simp add: finished_iff)
  then show ?thesis by (simp add: list_all_length pool_length assms(1))
qed

section \<open>A worker touches only its own job\<close>

definition job_at :: "store \<Rightarrow> int \<Rightarrow> job_row option" where
  "job_at s i = select_by cj_id i (t_rows (jobs s))"

definition decided :: "store \<Rightarrow> int \<Rightarrow> bool" where
  "decided s i = (\<exists>r. job_at s i = Some r \<and> cj_state r \<in> {JobSucceeded, JobFailed})"

lemma job_at_write [simp]:
  "job_at (write_job r s) i = (if i = cj_id r then map_option (\<lambda>_. r) (job_at s i) else job_at s i)"
  by (simp add: job_at_def write_job_def select_by_update_by)

lemma job_at_insert_snapshot:
  "insert_snapshot mk s = Inr (row, s') \<Longrightarrow> job_at s' i = job_at s i"
  by (auto simp: insert_snapshot_def Let_def job_at_def split: option.splits if_split_asm)

lemma job_at_create_snapshot:
  "create_snapshot_in_connection now key k c p d sp f t l s = Inr (row, s') \<Longrightarrow> job_at s' i = job_at s i"
  unfolding create_snapshot_in_connection_def Let_def
  by (auto simp: rbind_Inr_iff split: if_split_asm dest: job_at_insert_snapshot)

lemma select_job: "select_by cj_id k (t_rows (jobs s)) = Some r \<Longrightarrow> job_at s k = Some r \<and> cj_id r = k"
  by (auto simp: job_at_def dest: select_by_SomeD)

lemma complete_in_connection_jobs:
  assumes "complete_collection_job_in_connection k new old force fin s = Inr (row, s')"
  shows "(i \<noteq> k \<longrightarrow> job_at s' i = job_at s i) \<and> decided s' k"
  using assms
  by (auto simp: complete_collection_job_in_connection_def rbind_Inr_iff require_row_Inr_iff Let_def
      decided_def succeed_job_def dest!: select_job split: if_split_asm)

text \<open>What each operation a worker calls does to the job rows.\<close>

lemma guarded_Inr_iff:
  "(if b then Inl e else f) = Inr y \<longleftrightarrow> \<not> b \<and> f = Inr y"
  "(if b then Inr x else f) = Inr y \<longleftrightarrow> b \<and> x = y \<or> \<not> b \<and> f = Inr y"
  by auto

lemmas row_simps = rbind_Inr_iff require_row_Inr_iff guarded_Inr_iff claim_job_Inr_iff fail_job_def Let_def

definition same_at :: "int \<Rightarrow> store \<Rightarrow> store \<Rightarrow> bool" where
  "same_at i s s' = (job_at s' i = job_at s i)"

lemma same_at_refl [simp]: "same_at i s s"
  by (simp add: same_at_def)

lemmas same_at_intros = checked_keeps [where P = "same_at i s" for i s]
  txn_keeps [where P = "same_at i s" for i s] after_keeps [where P = "same_at i s" for i s]

lemma same_at_write: "cj_id r \<noteq> i \<Longrightarrow> same_at i s (write_job r s)"
  by (auto simp: same_at_def)

lemma claim_others: "i \<noteq> k \<Longrightarrow> same_at i s (snd (claim_collection_job now k at_v s))"
  unfolding claim_collection_job_def
  by (intro same_at_intros same_at_refl) (auto simp: row_simps intro!: same_at_write dest: select_job)

lemma record_others: "i \<noteq> k \<Longrightarrow> same_at i s (snd (record_collection_fetch k new old force s))"
  unfolding record_collection_fetch_def
  by (intro same_at_intros same_at_refl) (auto simp: row_simps intro!: same_at_write dest: select_job split: if_split_asm)

lemma fail_others: "i \<noteq> k \<Longrightarrow> same_at i s (snd (fail_collection_job now k c m at_v s))"
  unfolding fail_collection_job_def
  by (intro same_at_intros same_at_refl) (auto simp: row_simps intro!: same_at_write dest: select_job)

lemma complete_others:
  assumes "i \<noteq> k"
  shows "same_at i s (snd (complete_collection_with_snapshot now k new key p old force d sp f t l at_v s))"
  unfolding complete_collection_with_snapshot_def
  by (intro same_at_intros same_at_refl)
    (use assms in \<open>auto simp: rbind_Inr_iff same_at_def
       dest!: complete_in_connection_jobs [where i = i] job_at_create_snapshot [where i = i]\<close>)

lemma fail_decides: "fail_collection_job now k c m at_v s = (Inr v, s') \<Longrightarrow> decided s' k"
  by (auto simp: fail_collection_job_def result_simps row_simps decided_def dest!: select_job)

lemma complete_decides:
  assumes "complete_collection_with_snapshot now k new key p old force d sp f t l at_v s = (Inr v, s')"
  shows "decided s' k"
proof -
  from assms obtain n o' fin row s1 kk p' lv snap where
    "complete_collection_job_in_connection k n o' force fin s = Inr (row, s1)"
    "create_snapshot_in_connection now kk k n p' d sp f t lv s1 = Inr (snap, s')"
    by (auto simp: complete_collection_with_snapshot_def result_simps)
  then show ?thesis
    using complete_in_connection_jobs job_at_create_snapshot by (simp add: decided_def)
qed

lemma claim_id: "claim_collection_job now k at_v s = (Inr c, s') \<Longrightarrow> co_id c = k"
  by (auto simp: claim_collection_job_def result_simps row_simps dest: select_job dest!: collection_job_fields)

lemma record_id: "record_collection_fetch k new old force s = (Inr c, s') \<Longrightarrow> co_id c = k"
  by (auto simp: record_collection_fetch_def result_simps row_simps
      dest: select_job dest!: collection_job_fields split: if_split_asm)

text \<open>The job a phase carries is the worker's own.\<close>

fun carries :: "int \<Rightarrow> phase \<Rightarrow> bool" where
  "carries k (AtFetch c) = (co_id c = k)"
| "carries k (AtRecord c f new) = (co_id c = k)"
| "carries k (AtSnapshot c) = (co_id c = k)"
| "carries k (AtComplete c a) = (co_id c = k)"
| "carries k _ = True"

lemma worker_others:
  assumes "worker_step env now j p s = (p', s')" and "carries (co_id j) p" and "i \<noteq> co_id j"
  shows "job_at s' i = job_at s i"
proof -
  note a = assms
  have "same_at i s (snd (worker_step env now j p s))"
  proof (cases p)
    case AtClaim
    then show ?thesis using a(3) by (simp add: snd_case_outcome claim_others)
  next
    case (AtFetch c)
    then show ?thesis by (auto split: sum.split option.split)
  next
    case (AtRecord c f new)
    then show ?thesis using a(2,3) by (simp add: snd_case_outcome record_others)
  next
    case (AtSnapshot c)
    then show ?thesis by (auto split: sum.split)
  next
    case (AtComplete c x)
    then show ?thesis using a(2,3) by (simp add: snd_case_outcome complete_others)
  next
    case (AtFail x)
    then show ?thesis using a(3) by (simp add: snd_case_outcome fail_others)
  qed simp_all
  then show ?thesis by (simp add: a(1) same_at_def)
qed

lemma worker_carries:
  assumes "worker_step env now j p s = (p', s')" and "carries (co_id j) p"
  shows "carries (co_id j) p'"
  using assms
  by (cases p) (auto split: sum.split_asm option.split_asm prod.split_asm if_split_asm dest: claim_id record_id)

section \<open>Ended workers left their jobs decided\<close>

definition worker_ok :: "store \<Rightarrow> collection_job \<Rightarrow> phase \<Rightarrow> bool" where
  "worker_ok s j p = (carries (co_id j) p \<and>
     (p = Ended \<or> p = AtClaim \<and> co_state j = JobSucceeded \<longrightarrow> decided s (co_id j)))"

definition pool_ok :: "store \<Rightarrow> collection_job list \<Rightarrow> phase list \<Rightarrow> bool" where
  "pool_ok s js ps = list_all2 (worker_ok s) js ps"

lemma worker_ends_decided:
  assumes "worker_step env now j p s = (Ended, s')" and "worker_ok s j p"
  shows "decided s' (co_id j)"
  using assms
  by (cases p) (auto simp: worker_ok_def split: sum.split_asm option.split_asm prod.split_asm if_split_asm
      dest: fail_decides complete_decides)

lemma worker_not_restarted:
  "worker_step env now j p s = (AtClaim, s') \<Longrightarrow> False"
  by (cases p) (auto split: sum.split_asm option.split_asm prod.split_asm if_split_asm)

lemma worker_keeps_pool:
  assumes w: "worker_step env now (js ! k) (ps ! k) s = (p', s')" and k: "k < length js"
    and ok: "pool_ok s js ps" and d: "distinct (map co_id js)"
  shows "pool_ok s' js (ps[k := p'])"
proof -
  have l: "length ps = length js" using ok by (auto simp: pool_ok_def dest: list_all2_lengthD)
  have wk: "worker_ok s (js ! i) (ps ! i)" if "i < length js" for i
    using ok that by (auto simp: pool_ok_def list_all2_conv_all_nth)
  have "worker_ok s' (js ! i) (ps[k := p'] ! i)" if i: "i < length js" for i
  proof (cases "i = k")
    case True
    have "carries (co_id (js ! k)) p'"
      using worker_carries [OF w] wk [OF k] by (simp add: worker_ok_def)
    moreover have "p' \<noteq> AtClaim" using worker_not_restarted w by blast
    moreover have "decided s' (co_id (js ! k))" if "p' = Ended"
      using worker_ends_decided [OF _ wk [OF k]] w that by blast
    ultimately show ?thesis using True k l by (simp add: worker_ok_def)
  next
    case False
    then have "co_id (js ! i) \<noteq> co_id (js ! k)"
      using d i k by (auto simp: distinct_conv_nth)
    then have "job_at s' (co_id (js ! i)) = job_at s (co_id (js ! i))"
      using worker_others [OF w] wk [OF k] by (simp add: worker_ok_def)
    then show ?thesis using False wk [OF i] by (simp add: worker_ok_def decided_def)
  qed
  then show ?thesis using l by (simp add: pool_ok_def list_all2_conv_all_nth)
qed

lemma pool_keeps:
  assumes "pool_ok s js ps" and "distinct (map co_id js)" and "run_pool env js tr ps s = (ps', s')"
  shows "pool_ok s' js ps'"
  using assms(1,3)
proof (induction tr arbitrary: ps s)
  case (Cons e tr)
  obtain k now where e: "e = (k, now)" by (cases e)
  show ?case
  proof (cases "k < length js \<and> k < length ps")
    case True
    obtain p t where w: "worker_step env now (js ! k) (ps ! k) s = (p, t)" by fastforce
    then have "pool_ok t js (ps[k := p])"
      using worker_keeps_pool [OF w _ Cons.prems(1) assms(2)] True by simp
    then show ?thesis using Cons.IH Cons.prems(2) True by (simp add: e w Let_def)
  next
    case False
    then show ?thesis using Cons.IH [OF Cons.prems(1)] Cons.prems(2) by (auto simp: e)
  qed
qed simp

lemma start_pool_ok:
  assumes "\<forall>j\<in>set js. co_state j = JobSucceeded \<longrightarrow> decided s (co_id j)"
  shows "pool_ok s js (start_pool js)"
  using assms by (auto simp: pool_ok_def start_pool_def worker_ok_def list_all2_conv_all_nth)

lemma workers_decide:
  assumes "run_workers env js tr s = (Inr (), s')" and "distinct (map co_id js)"
    and "\<forall>j\<in>set js. co_state j = JobSucceeded \<longrightarrow> decided s (co_id j)" and "j \<in> set js"
  shows "decided s' (co_id j)"
proof -
  obtain ps where p: "run_pool env js tr (start_pool js) s = (ps, s')"
    and e: "list_all finished ps" "\<not> list_ex (\<lambda>p. p \<noteq> Ended) ps"
    using assms(1) by (auto simp: run_workers_def split: prod.split_asm if_split_asm)
  have "pool_ok s' js ps" using pool_keeps [OF start_pool_ok [OF assms(3)] assms(2) p] .
  moreover obtain i where "i < length js" "j = js ! i" using assms(4) by (auto simp: in_set_conv_nth)
  ultimately have "ps ! i \<in> set ps" "worker_ok s' j (ps ! i)"
    by (auto simp: pool_ok_def list_all2_conv_all_nth)
  then show ?thesis using e(2) by (auto simp: list_ex_iff worker_ok_def)
qed

section \<open>The pool adds no job\<close>

definition no_new :: "store \<Rightarrow> store \<Rightarrow> bool" where
  "no_new s s' = (\<forall>i. job_at s i = None \<longrightarrow> job_at s' i = None)"

lemma no_new_refl [simp]: "no_new s s"
  by (simp add: no_new_def)

lemma no_new_trans: "no_new s t \<Longrightarrow> no_new t u \<Longrightarrow> no_new s u"
  by (simp add: no_new_def)

lemma no_new_write [simp]: "no_new s (write_job r s)"
  by (simp add: no_new_def)

lemma no_new_complete:
  "complete_collection_job_in_connection k new old force fin s = Inr (row, s') \<Longrightarrow> no_new s s'"
  by (auto simp: complete_collection_job_in_connection_def row_simps split: if_split_asm)

lemma no_new_snapshot:
  "create_snapshot_in_connection now key k c p d sp f t l s = Inr (row, s') \<Longrightarrow> no_new s s'"
  by (simp add: no_new_def job_at_create_snapshot)

lemmas no_new_intros = checked_keeps [where P = "no_new s" for s]
  txn_keeps [where P = "no_new s" for s] after_keeps [where P = "no_new s" for s]

lemma claim_no_new: "no_new s (snd (claim_collection_job now k at_v s))"
  unfolding claim_collection_job_def
  by (intro no_new_intros no_new_refl) (auto simp: row_simps)

lemma record_no_new: "no_new s (snd (record_collection_fetch k new old force s))"
  unfolding record_collection_fetch_def
  by (intro no_new_intros no_new_refl) (auto simp: row_simps split: if_split_asm)

lemma fail_no_new: "no_new s (snd (fail_collection_job now k c m at_v s))"
  unfolding fail_collection_job_def
  by (intro no_new_intros no_new_refl) (auto simp: row_simps)

lemma complete_no_new:
  "no_new s (snd (complete_collection_with_snapshot now k new key p old force d sp f t l at_v s))"
  unfolding complete_collection_with_snapshot_def
  by (intro no_new_intros no_new_refl)
    (auto simp: rbind_Inr_iff intro: no_new_trans dest!: no_new_complete no_new_snapshot)

lemma worker_no_new: "no_new s (snd (worker_step env now j p s))"
proof (cases p)
  case (AtFetch c)
  then show ?thesis by (auto split: sum.split option.split)
next
  case (AtSnapshot c)
  then show ?thesis by (auto split: sum.split)
qed (simp_all add: snd_case_outcome claim_no_new record_no_new complete_no_new fail_no_new)

lemma pool_no_new: "no_new s (snd (run_pool env js tr ps s))"
proof (induction tr arbitrary: ps s)
  case (Cons e tr)
  obtain i now where e: "e = (i, now)" by (cases e)
  obtain p s' where w: "worker_step env now (js ! i) (ps ! i) s = (p, s')" by fastforce
  have "no_new s s'" using worker_no_new [of s env now "js ! i" "ps ! i"] by (simp add: w)
  then show ?case
    using Cons.IH [of s' "ps[i := p]"] Cons.IH [of s ps] by (auto simp: e w Let_def intro: no_new_trans)
qed simp

section \<open>The jobs of the run after the pool\<close>

lemma job_row_at: "db_ok s \<Longrightarrow> job_at s (cj_id j) = Some j \<longleftrightarrow> j \<in> set (t_rows (jobs s))"
  using select_by_iff [of cj_id "t_rows (jobs s)"] db_ok_tables table_ok_distinct
  by (fastforce simp: job_at_def)

lemma listed_jobs:
  assumes "list_collection_jobs i None s = Inr js" and "db_ok s"
  shows "list_all2 (\<lambda>r v. collection_job r = Inr v) (run_jobs i s) js"
proof -
  have "sort_key cj_id (run_jobs i s) = run_jobs i s"
    unfolding run_jobs_def using db_ok_tables [OF assms(2)] by (intro table_ok_sorted_id) auto
  then show ?thesis
    using assms(1) by (auto simp: list_collection_jobs_def dest: rmapM_all2)
qed

lemma listed_ids:
  assumes "list_collection_jobs i None s = Inr js" and "db_ok s"
  shows "map co_id js = map cj_id (run_jobs i s)" and "map co_state js = map cj_state (run_jobs i s)"
proof -
  have "length (run_jobs i s) = length js" "co_id (js ! k) = cj_id (run_jobs i s ! k)"
    "co_state (js ! k) = cj_state (run_jobs i s ! k)" if "k < length js" for k
    using listed_jobs [OF assms] that collection_job_fields [of "run_jobs i s ! k" "js ! k"]
    by (auto simp: list_all2_conv_all_nth)
  moreover have "length (run_jobs i s) = length js"
    using listed_jobs [OF assms] by (rule list_all2_lengthD)
  ultimately show "map co_id js = map cj_id (run_jobs i s)" "map co_state js = map cj_state (run_jobs i s)"
    by (auto intro!: nth_equalityI)
qed

lemma pool_decides_run:
  assumes s: "db_ok s" and js: "list_collection_jobs i None s = Inr js"
    and w: "run_workers env js tr s = (Inr (), s')" and j: "j \<in> set (run_jobs i s')"
  shows "cj_state j \<in> {JobSucceeded, JobFailed}"
proof -
  have st: "store_step\<^sup>*\<^sup>* s s'" and nn: "no_new s s'"
    using w pool_store [of s env js tr "start_pool js"] pool_no_new [of s env js tr "start_pool js"]
    by (auto simp: run_workers_def split: prod.split_asm if_split_asm)
  have s': "db_ok s'" using steps_ledger [OF st s] ledger_star_ok s by blast
  have jr: "j \<in> set (t_rows (jobs s'))" "cj_run j = i" using j by (auto simp: run_jobs_def)
  then have at': "job_at s' (cj_id j) = Some j" using job_row_at [OF s'] by simp
  then obtain j0 where at0: "job_at s (cj_id j) = Some j0"
    using nn by (cases "job_at s (cj_id j)") (auto simp: no_new_def)
  then have j0: "j0 \<in> set (t_rows (jobs s))" "cj_id j0 = cj_id j"
    by (auto simp: job_at_def dest: select_by_SomeD)
  obtain j1 where j1: "j1 \<in> set (t_rows (jobs s'))" "job_pins j1 = job_pins j0"
    using steps_keep [OF s st] j0(1) by (auto simp: keeps_all_def keeps_rows_def job_kept_def)
  have "job_at s' (cj_id j1) = Some j1" using job_row_at [OF s'] j1(1) by simp
  moreover have "cj_id j1 = cj_id j" using j1(2) j0(2) by (simp add: job_pins_def)
  ultimately have "j1 = j" using at' by simp
  then have "j0 \<in> set (run_jobs i s)" using j0(1) j1(2) jr(2) by (simp add: run_jobs_def job_pins_def)
  then have "cj_id j0 \<in> set (map co_id js)" using listed_ids [OF js s] by auto
  then obtain v where v: "v \<in> set js" "co_id v = cj_id j" using j0(2) by auto
  have d: "distinct (map co_id js)"
    using listed_ids [OF js s] db_ok_tables [OF s] table_ok_distinct [of cj_id "jobs s"]
    by (simp add: run_jobs_def distinct_map_filter)
  have "decided s (co_id x)" if x: "x \<in> set js" "co_state x = JobSucceeded" for x
  proof -
    obtain k where k: "k < length js" "x = js ! k" using x(1) by (auto simp: in_set_conv_nth)
    have l: "length js = length (run_jobs i s)" using listed_ids(1) [OF js s] by (metis length_map)
    then have r: "run_jobs i s ! k \<in> set (t_rows (jobs s))" using k(1) nth_mem by (fastforce simp: run_jobs_def)
    have "co_id x = cj_id (run_jobs i s ! k)" "co_state x = cj_state (run_jobs i s ! k)"
      using listed_ids [OF js s] k l by (metis nth_map)+
    moreover have "job_at s (cj_id (run_jobs i s ! k)) = Some (run_jobs i s ! k)"
      using job_row_at [OF s] r by blast
    ultimately show ?thesis using x(2) by (simp add: decided_def)
  qed
  then have "decided s' (co_id v)" using workers_decide [OF w d _ v(1)] by blast
  then show ?thesis using v(2) at' by (simp add: decided_def)
qed

end
