(* ===== verification/Collection_Outcomes.thy ===== *)
theory Collection_Outcomes
  imports Collection_Pool
begin

text \<open>
  What the jobs of a collection come to. \<open>expected\<close> is the specification: the outcome of one
  job as a function of its pinned row and of what the collector answers, with no thread, phase or
  interleaving in it. \<open>ends_as\<close> says how the rows record an outcome. The lemmas show that every
  phase of every worker stays on the way to the expected outcome of its job, whatever the other
  workers do in between, so that every trace of the pool ends with the expected rows.
\<close>

section \<open>What a job comes to, without any concurrency\<close>

text \<open>The outcome of one job as a function of the pinned job and the collector's answers alone:
  the exception it fails with, or the commit, the previous commit, the force mark and the archive
  it is completed with.\<close>

definition claimable :: "collection_job \<Rightarrow> bool" where
  "claimable j = (co_state j = JobRunning \<or>
     co_state j \<in> {JobQueued, JobFailed} \<and> co_attempt j < co_max_attempts j)"

definition fetched :: "environment \<Rightarrow> collection_job \<Rightarrow> exn + string \<times> string option \<times> bool" where
  "fetched env j = (case co_new_sha j of
     Some commit \<Rightarrow> Inr (commit, co_old_sha j, co_force j)
   | None \<Rightarrow> (case env_fetch env j of
       Inl x \<Rightarrow> Inl x
     | Inr f \<Rightarrow> (case fr_new_sha f of
         None \<Rightarrow> Inl (missing_branch (co_repo j) (co_target_ref j))
       | Some new \<Rightarrow> (case (git_oid new, optional_oid (fr_old_sha f)) of
           (Inl e, _) \<Rightarrow> Inl (store_exn env e)
         | (Inr commit, Inl e) \<Rightarrow> Inl (store_exn env e)
         | (Inr commit, Inr old) \<Rightarrow> Inr (commit, old, fr_forced f)))))"

definition expected :: "environment \<Rightarrow> collection_job \<Rightarrow> exn + (string \<times> string option \<times> bool) \<times> archive" where
  "expected env j =
     (if \<not> claimable j then Inl (store_exn env InvalidStateTransition)
      else case fetched env j of
          Inl x \<Rightarrow> Inl x
        | Inr (commit, old, force) \<Rightarrow> (case env_snapshot env j (Some commit) of
            Inl x \<Rightarrow> Inl x
          | Inr a \<Rightarrow> Inr ((commit, old, force), a)))"

text \<open>The database rows that record such an outcome.\<close>

definition failed_as :: "collection_job \<Rightarrow> exn \<Rightarrow> store \<Rightarrow> bool" where
  "failed_as j x s = (\<exists>r c m. job_at s (co_id j) = Some r \<and> cj_state r = JobFailed \<and>
     required_text (error_code_of x) = Inr c \<and> cj_error_code r = Some c \<and>
     required_text (error_message_of x) = Inr m \<and> cj_error_message r = Some m)"

definition archived_as :: "collection_job \<Rightarrow> string \<Rightarrow> archive \<Rightarrow> snapshot_row \<Rightarrow> bool" where
  "archived_as j commit a n = (ss_job n = co_id j \<and> ss_commit n = commit \<and> ss_path n = co_path j \<and>
     ss_source_path n = Some (ar_path a) \<and> optional_sha256_hex (ar_sha256 a) = Inr (ss_digest n) \<and>
     required_text (''snapshot:'' @ co_key j) = Inr (ss_key n) \<and> ss_late n = LateUnknown)"

definition collected_as ::
  "collection_job \<Rightarrow> string \<Rightarrow> string option \<Rightarrow> bool \<Rightarrow> archive \<Rightarrow> store \<Rightarrow> bool" where
  "collected_as j commit old force a s =
     ((\<exists>r. job_at s (co_id j) = Some r \<and> cj_state r = JobSucceeded \<and> cj_new_sha r = Some commit \<and>
        optional_oid old = Inr (cj_old_sha r) \<and> cj_force r = force) \<and>
      (\<exists>n\<in>set (t_rows (snapshots s)). archived_as j commit a n))"

definition ends_as :: "environment \<Rightarrow> collection_job \<Rightarrow> store \<Rightarrow> bool" where
  "ends_as env j s = (case expected env j of
     Inl x \<Rightarrow> failed_as j x s
   | Inr ((commit, old, force), a) \<Rightarrow> collected_as j commit old force a s)"

section \<open>What each call of a worker returns\<close>

lemma claim_outcome:
  assumes "job_at s k = Some r" and "pins_ok r" and "select_by rn_id (cj_run r) (t_rows (runs s)) = Some run"
    and "\<not> terminal_run (rn_state run)" and "utc_dtime now" and "collection_job r = Inr j"
    and "cj_state r \<noteq> JobSucceeded" and "cj_state r \<noteq> JobCancelled" and "cj_state r \<noteq> JobSkipped"
  shows "if claimable j
    then \<exists>c s' r'. claim_collection_job now k None s = (Inr c, s') \<and> job_at s' k = Some r' \<and>
      collection_job r' = Inr c \<and> cj_state r' = JobRunning \<and> cj_new_sha r' = cj_new_sha r \<and>
      cj_old_sha r' = cj_old_sha r \<and> cj_force r' = cj_force r \<and> co_path c = co_path j
    else claim_collection_job now k None s = (Inl InvalidStateTransition, s)"
proof -
  have sel: "select_by cj_id k (t_rows (jobs s)) = Some r" "cj_id r = k"
    using assms(1) by (auto simp: job_at_def dest: select_by_SomeD)
  have j: "co_state j = cj_state r" "co_attempt j = cj_attempt r" "co_max_attempts j = cj_max_attempts r"
    using assms(6) by (auto simp: collection_job_def rbind_Inr_iff)
  show ?thesis
  proof (cases "cj_state r = JobRunning")
    case True
    then show ?thesis
      using assms sel by (simp add: j claimable_def claim_collection_job_def now_iso_utc_iso after_def txn_def require_row_def)
  next
    case False
    show ?thesis
    proof (cases "claimable j")
      case True
      let ?r = "r\<lparr>cj_state := JobRunning, cj_attempt := cj_attempt r + 1, cj_started := Some (now_iso now),
          cj_finished := None, cj_error_code := None, cj_error_message := None\<rparr>"
      have c: "claim_job (now_iso now) r = Inr ?r"
        using True False by (simp add: claimable_def j claim_job_Inr_iff)
      obtain v where v: "collection_job ?r = Inr v"
        using collection_job_total [of ?r] assms(2) by (auto simp: pins_ok_def)
      then have "co_path v = co_path j" using assms(6) by (auto simp: collection_job_def rbind_Inr_iff)
      then have "claim_collection_job now k None s = (Inr v, write_job ?r s) \<and> job_at (write_job ?r s) k = Some ?r \<and>
          collection_job ?r = Inr v \<and> co_path v = co_path j"
        using assms sel False c v
        by (simp add: claim_collection_job_def now_iso_utc_iso after_def txn_def require_row_def)
      then show ?thesis using True by (intro if_P [THEN iffD2]) (auto intro!: exI [of _ ?r])
    next
      case nc: False
      then have "claim_job (now_iso now) r = Inl InvalidStateTransition"
        using False assms(7-9) by (cases "cj_state r") (auto simp: claimable_def j claim_job_def)
      then show ?thesis
        using assms sel False nc
        by (simp add: claim_collection_job_def now_iso_utc_iso after_def txn_def require_row_def)
    qed
  qed
qed

lemma record_outcome:
  assumes "job_at s k = Some r" and "pins_ok r" and "cj_state r = JobRunning" and "cj_new_sha r = None"
  shows "(\<forall>e. git_oid new = Inl e \<longrightarrow> fst (record_collection_fetch k new old force s) = Inl e) \<and>
    (\<forall>n e. git_oid new = Inr n \<longrightarrow> optional_oid old = Inl e \<longrightarrow>
       fst (record_collection_fetch k new old force s) = Inl e) \<and>
    (\<forall>n o'. git_oid new = Inr n \<longrightarrow> optional_oid old = Inr o' \<longrightarrow>
       (\<exists>c. fst (record_collection_fetch k new old force s) = Inr c \<and>
          co_new_sha c = Some n \<and> co_old_sha c = o' \<and> co_force c = force))"
proof -
  have sel: "select_by cj_id k (t_rows (jobs s)) = Some r" "cj_id r = k"
    using assms(1) by (auto simp: job_at_def dest: select_by_SomeD)
  have "\<exists>c. fst (record_collection_fetch k new old force s) = Inr c \<and>
      co_new_sha c = Some n \<and> co_old_sha c = o' \<and> co_force c = force"
    if n: "git_oid new = Inr n" "optional_oid old = Inr o'" for n o'
  proof -
    let ?r = "r\<lparr>cj_old_sha := o', cj_new_sha := Some n, cj_force := force\<rparr>"
    obtain v where v: "collection_job ?r = Inr v"
      using collection_job_total [of ?r] assms(2) by (auto simp: pins_ok_def)
    then show ?thesis
      using n sel assms(3,4) collection_job_fields [OF v]
      by (simp add: record_collection_fetch_def after_def txn_def require_row_def Let_def)
  qed
  then show ?thesis by (auto simp: record_collection_fetch_def)
qed

lemma create_snapshot_row:
  assumes "create_snapshot_in_connection now key k commit p d sp f t l s = Inr (n, s')"
  shows "n \<in> set (t_rows (snapshots s')) \<and> ss_key n = key \<and> ss_job n = k \<and> ss_commit n = commit \<and>
    ss_path n = p \<and> ss_source_path n = sp \<and> optional_sha256_hex d = Inr (ss_digest n) \<and> ss_late n = l"
proof -
  obtain digest job run fi ti where d: "optional_sha256_hex d = Inr digest"
    and j: "select_by cj_id k (t_rows (jobs s)) = Some job"
    and e: "insert_snapshot (new_snapshot now key job run commit p digest sp fi ti l) s = Inr (n, s')"
    using assms unfolding create_snapshot_in_connection_def Let_def
    by (auto simp: rbind_Inr_iff require_row_Inr_iff split: if_split_asm)
  have k: "cj_id job = k" using select_by_SomeD [OF j] by simp
  let ?mk = "new_snapshot now key job run commit p digest sp fi ti l"
  have mk: "ss_key (?mk i) = key" "ss_job (?mk i) = k" "ss_commit (?mk i) = commit" "ss_path (?mk i) = p"
    "ss_source_path (?mk i) = sp" "ss_digest (?mk i) = digest" "ss_late (?mk i) = l" for i
    by (simp_all add: new_snapshot_def k)
  have r: "select_by ss_key key (t_rows (snapshots s')) = Some n" "same_snapshot n (?mk 0)"
    using e by (auto simp: insert_snapshot_def Let_def mk split: option.splits if_split_asm)
  then show ?thesis using select_by_SomeD [OF r(1)] by (simp add: same_snapshot_def mk d)
qed

lemma complete_in_connection_row:
  assumes "complete_collection_job_in_connection k n o' force fin s = Inr (row, s1)"
  shows "\<exists>r. job_at s1 k = Some r \<and> cj_state r = JobSucceeded \<and> cj_new_sha r = Some n \<and>
    cj_old_sha r = o' \<and> cj_force r = force"
proof -
  obtain r where r: "job_at s k = Some r" "cj_id r = k"
    and e: "(if cj_state r = JobSucceeded then
         (if (cj_new_sha r, cj_old_sha r, cj_force r) \<noteq> (Some n, o', force)
          then Inl IdempotencyConflict else Inr (r, s))
       else if cj_state r \<noteq> JobRunning then Inl InvalidStateTransition
       else (let row' = succeed_job n o' force fin r in Inr (row', write_job row' s))) = Inr (row, s1)"
    using assms select_job unfolding complete_collection_job_in_connection_def rbind_Inr_iff require_row_Inr_iff
    by blast
  show ?thesis using r e by (auto simp: succeed_job_def Let_def split: if_split_asm)
qed

lemma complete_outcome:
  assumes "complete_collection_with_snapshot now (co_id j) (completed_sha c a) (snapshot_key_of j) (co_path j)
      old force (ar_sha256 a) (Some (ar_path a)) f t (late_value LateUnknown) at_v s = (Inr v, s')"
    and "co_new_sha c = Some commit" and "git_oid commit = Inr commit" and "required_text (co_path j) = Inr (co_path j)"
  shows "collected_as j commit old force a s'"
proof -
  have sha: "completed_sha c a = commit"
    using assms(2,3) git_oid_not_Nil by (auto simp: completed_sha_def)
  have late: "enum_value late_value late_statuses (late_value LateUnknown) = Inr lv \<Longrightarrow> lv = LateUnknown" for lv
    by (cases lv) (auto dest: enum_value_Inr_iff)
  obtain o' fin row s1 kk snap where
    o: "optional_oid old = Inr o'" and kk: "required_text (snapshot_key_of j) = Inr kk"
    and c: "complete_collection_job_in_connection (co_id j) commit o' force fin s = Inr (row, s1)"
    and n: "create_snapshot_in_connection now kk (co_id j) commit (co_path j) (ar_sha256 a)
        (Some (ar_path a)) f t LateUnknown s1 = Inr (snap, s')"
    using assms(1,3,4) late
    by (auto simp: complete_collection_with_snapshot_def result_simps sha dest!: late)
  show ?thesis
    using complete_in_connection_row [OF c] create_snapshot_row [OF n] job_at_create_snapshot [OF n] o kk
    by (auto simp: collected_as_def archived_as_def snapshot_key_of_def)
qed

lemma fail_outcome:
  assumes "fail_collection_job now (co_id j) (error_code_of x) (error_message_of x) at_v s = (Inr v, s')"
  shows "failed_as j x s'"
proof -
  obtain c m r t where c: "required_text (error_code_of x) = Inr c" and m: "required_text (error_message_of x) = Inr m"
    and r: "select_by cj_id (co_id j) (t_rows (jobs s)) = Some r" and s': "s' = write_job (fail_job t c m r) s"
    using assms by (auto simp: fail_collection_job_def result_simps row_simps)
  then have "job_at s' (co_id j) = Some (fail_job t c m r)"
    using select_job [OF r] by (simp add: fail_job_def)
  then show ?thesis using c m by (auto simp: failed_as_def fail_job_def)
qed

section \<open>Each phase is on the way to the expected outcome\<close>

fun on_track :: "environment \<Rightarrow> store \<Rightarrow> collection_job \<Rightarrow> phase \<Rightarrow> store \<Rightarrow> bool" where
  "on_track env s0 j AtClaim s = (job_at s (co_id j) = job_at s0 (co_id j))"
| "on_track env s0 j (AtFetch c) s = (claimable j \<and> co_new_sha j = None \<and>
     (\<exists>r. job_at s (co_id j) = Some r \<and> cj_state r = JobRunning \<and> cj_new_sha r = None))"
| "on_track env s0 j (AtRecord c f new) s = (claimable j \<and> co_new_sha j = None \<and>
     (\<exists>r. job_at s (co_id j) = Some r \<and> cj_state r = JobRunning \<and> cj_new_sha r = None) \<and>
     env_fetch env j = Inr f \<and> fr_new_sha f = Some new)"
| "on_track env s0 j (AtSnapshot c) s = (claimable j \<and>
     (\<exists>commit. co_new_sha c = Some commit \<and> git_oid commit = Inr commit \<and>
        fetched env j = Inr (commit, co_old_sha c, co_force c)))"
| "on_track env s0 j (AtComplete c a) s = (claimable j \<and>
     (\<exists>commit. co_new_sha c = Some commit \<and> git_oid commit = Inr commit \<and>
        expected env j = Inr ((commit, co_old_sha c, co_force c), a)))"
| "on_track env s0 j (AtFail x) s = (co_state j \<noteq> JobSucceeded \<and> expected env j = Inl x)"
| "on_track env s0 j Ended s =
     (if co_state j = JobSucceeded then job_at s (co_id j) = job_at s0 (co_id j) else ends_as env j s)"
| "on_track env s0 j (Crashed e) s = True"

lemma claimable_open: "claimable j \<Longrightarrow> co_state j \<noteq> JobSucceeded"
  by (auto simp: claimable_def)

lemma claim_on_track:
  assumes ok: "db_ok s" and at0: "job_at s (co_id j) = Some r" "collection_job r = Inr j"
    and run: "select_by rn_id (cj_run r) (t_rows (runs s)) = Some run" "\<not> terminal_run (rn_state run)"
    and now: "utc_dtime now" and st: "co_state j \<noteq> JobSucceeded"
    and w: "worker_step env now j AtClaim s = (p, s')"
  shows "on_track env s0 j p s'"
proof -
  have r: "job_ok r" "cj_state r \<in> {JobQueued, JobRunning, JobSucceeded, JobFailed}"
    using at0(1) ok job_states [of "repositories s" "runs s" "jobs s"]
    by (auto simp: job_at_def db_ok_def jobs_ok_def dest: select_by_SomeD)
  then have sha: "\<forall>v. cj_new_sha r = Some v \<longrightarrow> git_oid v = Inr v" and pins: "pins_ok r"
    by (auto simp: job_ok_def sha_ok_def)
  have f: "cj_state r = co_state j" "cj_new_sha r = co_new_sha j" "cj_old_sha r = co_old_sha j" "cj_force r = co_force j"
    using collection_job_fields [OF at0(2)] by auto
  have c: "if claimable j
    then \<exists>c s' r'. claim_collection_job now (co_id j) None s = (Inr c, s') \<and> job_at s' (co_id j) = Some r' \<and>
      collection_job r' = Inr c \<and> cj_state r' = JobRunning \<and> cj_new_sha r' = cj_new_sha r \<and>
      cj_old_sha r' = cj_old_sha r \<and> cj_force r' = cj_force r \<and> co_path c = co_path j
    else claim_collection_job now (co_id j) None s = (Inl InvalidStateTransition, s)"
    using claim_outcome [OF at0(1) pins run now at0(2)] r(2) st f(1) by auto
  show ?thesis
  proof (cases "claimable j")
    case True
    then obtain c r' where e: "claim_collection_job now (co_id j) None s = (Inr c, s')"
      and r': "job_at s' (co_id j) = Some r'" "collection_job r' = Inr c" "cj_state r' = JobRunning"
      "cj_new_sha r' = cj_new_sha r" "cj_old_sha r' = cj_old_sha r" "cj_force r' = cj_force r"
      using c w st by auto
    have "co_new_sha c = co_new_sha j" "co_old_sha c = co_old_sha j" "co_force c = co_force j"
      using collection_job_fields [OF r'(2)] r' f by auto
    then show ?thesis
      using w e st True r' sha f by (cases "co_new_sha j") (auto simp: fetched_def)
  next
    case False
    then show ?thesis using c w st by (auto simp: expected_def)
  qed
qed

lemma record_on_track:
  assumes ok: "db_ok s" and t: "on_track env s0 j (AtRecord c f new) s" and k: "co_id c = co_id j"
    and w: "worker_step env now j (AtRecord c f new) s = (p, s')"
  shows "on_track env s0 j p s'"
proof -
  obtain r where r: "job_at s (co_id j) = Some r" "cj_state r = JobRunning" "cj_new_sha r = None"
    and f: "claimable j" "co_new_sha j = None" "env_fetch env j = Inr f" "fr_new_sha f = Some new"
    using t by auto
  have "pins_ok r"
    using r(1) ok by (auto simp: job_at_def db_ok_def jobs_ok_def job_ok_def dest!: select_by_SomeD)
  note rec = record_outcome [OF r(1) this r(2,3), of new "fr_old_sha f" "fr_forced f"]
  obtain q t' where o: "record_collection_fetch (co_id j) new (fr_old_sha f) (fr_forced f) s = (q, t')"
    by fastforce
  show ?thesis
  proof (cases "git_oid new")
    case (Inl e)
    then show ?thesis using rec o w f k claimable_open by (auto simp: expected_def fetched_def)
  next
    case n: (Inr n)
    show ?thesis
    proof (cases "optional_oid (fr_old_sha f)")
      case (Inl e)
      then show ?thesis using rec o w f k n claimable_open by (auto simp: expected_def fetched_def)
    next
      case (Inr o')
      then show ?thesis using rec o w f k n oid.stable [OF n] by (auto simp: fetched_def)
    qed
  qed
qed

lemma worker_on_track:
  assumes ok: "db_ok s" and at0: "job_at s0 (co_id j) = Some r" "collection_job r = Inr j"
    and run: "select_by rn_id (cj_run r) (t_rows (runs s)) = Some run" "\<not> terminal_run (rn_state run)"
    and path: "required_text (co_path j) = Inr (co_path j)" and now: "utc_dtime now"
    and k: "carries (co_id j) p" and t: "on_track env s0 j p s" and w: "worker_step env now j p s = (p', s')"
  shows "on_track env s0 j p' s'"
proof (cases p)
  case AtClaim
  show ?thesis
  proof (cases "co_state j = JobSucceeded")
    case True
    then show ?thesis using w t AtClaim by auto
  next
    case False
    then show ?thesis
      using claim_on_track [OF ok _ at0(2) run now False] w t AtClaim at0(1) by auto
  qed
next
  case (AtFetch c)
  then show ?thesis
    using w t claimable_open by (auto simp: expected_def fetched_def split: sum.split_asm option.split_asm)
next
  case (AtRecord c f new)
  then show ?thesis using record_on_track [OF ok] t k w by auto
next
  case (AtSnapshot c)
  then show ?thesis
    using w t claimable_open by (auto simp: expected_def split: sum.split_asm)
next
  case (AtComplete c a)
  then obtain commit where c: "claimable j" "co_new_sha c = Some commit" "git_oid commit = Inr commit"
    "expected env j = Inr ((commit, co_old_sha c, co_force c), a)" "co_id c = co_id j" using t k by auto
  obtain q t' where o: "complete_collection_with_snapshot now (co_id j) (completed_sha c a) (snapshot_key_of j)
             (co_path j) (co_old_sha c) (co_force c) (ar_sha256 a) (Some (ar_path a))
             (map_option DtText (co_started c)) None (late_value LateUnknown) None s = (q, t')" by fastforce
  show ?thesis
    using w AtComplete c o claimable_open complete_outcome [OF _ c(2,3) path]
    by (cases q) (auto simp: ends_as_def)
next
  case (AtFail x)
  obtain q t' where o: "fail_collection_job now (co_id j) (error_code_of x) (error_message_of x) None s = (q, t')"
    by fastforce
  then show ?thesis
    using w t AtFail fail_outcome by (cases q) (auto simp: ends_as_def)
qed (use w t in auto)

section \<open>Every interleaving ends in the expected outcomes\<close>

lemmas same_runs_intros = checked_keeps [where P = "\<lambda>t. runs t = R" for R]
  txn_keeps [where P = "\<lambda>t. runs t = R" for R] after_keeps [where P = "\<lambda>t. runs t = R" for R]

lemma write_job_runs [simp]: "runs (write_job r s) = runs s"
  by (simp add: write_job_def)

lemma complete_in_connection_runs:
  "complete_collection_job_in_connection k n o' force fin s = Inr (row, s') \<Longrightarrow> runs s' = runs s"
  by (auto simp: complete_collection_job_in_connection_def row_simps split: if_split_asm)

lemma create_snapshot_runs:
  assumes "create_snapshot_in_connection now key k c p d sp f t l s = Inr (row, s')"
  shows "runs s' = runs s"
  using assms by (cases rule: create_snapshot_cases) simp_all

lemma worker_runs: "runs (snd (worker_step env now j p s)) = runs s"
proof (cases p)
  case AtClaim
  have "runs (snd (claim_collection_job now (co_id j) None s)) = runs s"
    unfolding claim_collection_job_def by (intro same_runs_intros refl) (auto simp: row_simps)
  then show ?thesis using AtClaim by (simp add: snd_case_outcome)
next
  case (AtFetch c)
  then show ?thesis by (auto split: sum.split option.split)
next
  case (AtRecord c f new)
  have "runs (snd (record_collection_fetch (co_id c) new (fr_old_sha f) (fr_forced f) s)) = runs s"
    unfolding record_collection_fetch_def
    by (intro same_runs_intros refl) (auto simp: row_simps split: if_split_asm)
  then show ?thesis using AtRecord by (simp add: snd_case_outcome)
next
  case (AtSnapshot c)
  then show ?thesis by (auto split: sum.split)
next
  case (AtComplete c a)
  have "runs (snd (complete_collection_with_snapshot now (co_id c) (completed_sha c a) (snapshot_key_of j)
      (co_path j) (co_old_sha c) (co_force c) (ar_sha256 a) (Some (ar_path a))
      (map_option DtText (co_started c)) None (late_value LateUnknown) None s)) = runs s"
    unfolding complete_collection_with_snapshot_def
    by (intro same_runs_intros refl)
      (auto simp: rbind_Inr_iff dest!: complete_in_connection_runs create_snapshot_runs)
  then show ?thesis using AtComplete by (simp add: snd_case_outcome)
next
  case (AtFail x)
  have "runs (snd (fail_collection_job now (co_id j) (error_code_of x) (error_message_of x) None s)) = runs s"
    unfolding fail_collection_job_def by (intro same_runs_intros refl) (auto simp: row_simps)
  then show ?thesis using AtFail by (simp add: snd_case_outcome)
qed simp_all

lemma on_track_stays:
  assumes "on_track env s0 j p s" and "job_at s' (co_id j) = job_at s (co_id j)"
    and "set (t_rows (snapshots s)) \<subseteq> set (t_rows (snapshots s'))"
  shows "on_track env s0 j p s'"
  using assms
  by (cases p) (auto simp: ends_as_def failed_as_def collected_as_def split: sum.splits if_split_asm)

text \<open>The jobs a pool starts with: views of stored jobs of runs that are open.\<close>

definition startable :: "store \<Rightarrow> collection_job \<Rightarrow> bool" where
  "startable s0 j = (\<exists>r run. job_at s0 (co_id j) = Some r \<and> collection_job r = Inr j \<and>
     select_by rn_id (cj_run r) (t_rows (runs s0)) = Some run \<and> \<not> terminal_run (rn_state run) \<and>
     required_text (co_path j) = Inr (co_path j))"

definition pool_track :: "environment \<Rightarrow> store \<Rightarrow> collection_job list \<Rightarrow> phase list \<Rightarrow> store \<Rightarrow> bool" where
  "pool_track env s0 js ps s = (db_ok s \<and> runs s = runs s0 \<and>
     (\<forall>k. k \<notin> co_id ` set js \<longrightarrow> job_at s k = job_at s0 k) \<and>
     list_all2 (\<lambda>j p. carries (co_id j) p \<and> on_track env s0 j p s) js ps)"

lemma worker_keeps_track:
  assumes w: "worker_step env now (js ! k) (ps ! k) s = (p', s')" and k: "k < length js"
    and ok: "pool_track env s0 js ps s" and d: "distinct (map co_id js)"
    and st: "\<forall>j\<in>set js. startable s0 j" and now: "utc_dtime now"
  shows "pool_track env s0 js (ps[k := p']) s'"
proof -
  have l: "length ps = length js" using ok by (auto simp: pool_track_def dest: list_all2_lengthD)
  have c: "carries (co_id (js ! i)) (ps ! i)" "on_track env s0 (js ! i) (ps ! i) s" if "i < length js" for i
    using ok that by (auto simp: pool_track_def list_all2_conv_all_nth)
  have s: "db_ok s" "runs s = runs s0" using ok by (auto simp: pool_track_def)
  have steps: "store_step\<^sup>*\<^sup>* s s'" and runs: "runs s' = runs s"
    using worker_store [of s env now "js ! k" "ps ! k"] worker_runs [of env now "js ! k" "ps ! k" s] w by auto
  have sn: "set (t_rows (snapshots s)) \<subseteq> set (t_rows (snapshots s'))"
    using steps_keep [OF s(1) steps] by (auto simp: keeps_all_def dest: set_mono_prefix)
  have "carries (co_id (js ! i)) (ps[k := p'] ! i) \<and> on_track env s0 (js ! i) (ps[k := p'] ! i) s'"
    if i: "i < length js" for i
  proof (cases "i = k")
    case True
    obtain r run where r: "job_at s0 (co_id (js ! k)) = Some r" "collection_job r = Inr (js ! k)"
      "select_by rn_id (cj_run r) (t_rows (runs s)) = Some run" "\<not> terminal_run (rn_state run)"
      "required_text (co_path (js ! k)) = Inr (co_path (js ! k))"
      using st nth_mem [OF k] s(2) unfolding startable_def by metis
    show ?thesis
      using True k l worker_carries [OF w] c [OF k] worker_on_track [OF s(1) r now c [OF k] w] by simp
  next
    case False
    then have "co_id (js ! i) \<noteq> co_id (js ! k)" using d i k by (auto simp: distinct_conv_nth)
    then show ?thesis
      using False c [OF i] on_track_stays [OF _ _ sn] worker_others [OF w c(1) [OF k]] by simp
  qed
  moreover have "job_at s' x = job_at s0 x" if "x \<notin> co_id ` set js" for x
  proof -
    have "x \<noteq> co_id (js ! k)" using that k by auto
    then show ?thesis using worker_others [OF w c(1) [OF k]] ok that by (simp add: pool_track_def)
  qed
  moreover have "db_ok s'" using steps_ledger [OF steps s(1)] ledger_star_ok s(1) by blast
  ultimately show ?thesis using l runs s(2) by (auto simp: pool_track_def list_all2_conv_all_nth)
qed

lemma pool_keeps_track:
  assumes "pool_track env s0 js ps s" and "distinct (map co_id js)" and "\<forall>j\<in>set js. startable s0 j"
    and "\<forall>e\<in>set tr. utc_dtime (snd e)" and "run_pool env js tr ps s = (ps', s')"
  shows "pool_track env s0 js ps' s'"
  using assms(1,4,5)
proof (induction tr arbitrary: ps s)
  case (Cons e tr)
  obtain k now where e: "e = (k, now)" by (cases e)
  show ?case
  proof (cases "k < length js \<and> k < length ps")
    case True
    obtain p t where w: "worker_step env now (js ! k) (ps ! k) s = (p, t)" by fastforce
    have "pool_track env s0 js (ps[k := p]) t"
      using worker_keeps_track [OF w _ Cons.prems(1) assms(2,3)] True Cons.prems(2) by (simp add: e)
    then show ?thesis using Cons.IH Cons.prems(2,3) True by (simp add: e w Let_def)
  next
    case False
    then show ?thesis using Cons.IH [OF Cons.prems(1)] Cons.prems(2,3) by (auto simp: e)
  qed
qed simp

lemma start_on_track:
  assumes "db_ok s"
  shows "pool_track env s js (start_pool js) s"
  using assms by (auto simp: pool_track_def start_pool_def list_all2_conv_all_nth)

lemma run_startable:
  assumes "db_ok s" and "list_collection_jobs i None s = Inr js" and "get_collection_run i s = Inr run"
    and "\<not> terminal_run (rn_state run)" and "j \<in> set js"
  shows "startable s j"
proof -
  obtain k where "k < length js" "j = js ! k" using assms(5) by (auto simp: in_set_conv_nth)
  then obtain r where r: "r \<in> set (run_jobs i s)" "collection_job r = Inr j"
    using listed_jobs [OF assms(2,1)] nth_mem [of k "run_jobs i s"] that [of "run_jobs i s ! k"]
    by (auto simp: list_all2_conv_all_nth)
  then have m: "r \<in> set (t_rows (jobs s))" "cj_run r = i" "co_id j = cj_id r"
    by (auto simp: run_jobs_def dest: collection_job_fields)
  then have p: "text_pinned (cj_path r)" using assms(1) by (auto simp: db_ok_def jobs_ok_def job_ok_def pins_ok_def)
  have "required_text (co_path j) = Inr (co_path j)"
    using collection_job_path [OF r(2) p] p by (simp add: text_pinned_def)
  moreover have "job_at s (co_id j) = Some r" using m job_row_at [OF assms(1)] by simp
  moreover have "select_by rn_id (cj_run r) (t_rows (runs s)) = Some run"
    using assms(3) m(2) by (simp add: get_collection_run_def require_row_Inr_iff)
  ultimately show ?thesis using r(2) assms(4) by (auto simp: startable_def)
qed

lemma workers_outcome:
  assumes "db_ok s" and "list_collection_jobs i None s = Inr js" and "get_collection_run i s = Inr run"
    and "\<not> terminal_run (rn_state run)" and "\<forall>e\<in>set tr. utc_dtime (snd e)"
    and "run_workers env js tr s = (Inr (), s')"
  shows "(\<forall>j\<in>set js. co_state j \<noteq> JobSucceeded \<longrightarrow> ends_as env j s') \<and>
    (\<forall>j\<in>set js. co_state j = JobSucceeded \<longrightarrow> job_at s' (co_id j) = job_at s (co_id j)) \<and>
    (\<forall>k. k \<notin> co_id ` set js \<longrightarrow> job_at s' k = job_at s k) \<and> runs s' = runs s"
proof -
  obtain ps where p: "run_pool env js tr (start_pool js) s = (ps, s')"
    and e: "list_all finished ps" "\<not> list_ex (\<lambda>p. p \<noteq> Ended) ps"
    using assms(6) by (auto simp: run_workers_def split: prod.split_asm if_split_asm)
  have d: "distinct (map co_id js)"
    using listed_ids [OF assms(2,1)] db_ok_tables [OF assms(1)] table_ok_distinct [of cj_id "jobs s"]
    by (simp add: run_jobs_def distinct_map_filter)
  have t: "pool_track env s js ps s'"
    using pool_keeps_track [OF start_on_track [OF assms(1)] d _ assms(5) p] run_startable [OF assms(1-4)] by blast
  have "on_track env s j Ended s'" if j: "j \<in> set js" for j
  proof -
    obtain n where n: "n < length js" "j = js ! n" using j by (auto simp: in_set_conv_nth)
    then have "ps ! n \<in> set ps" "on_track env s j (ps ! n) s'"
      using t by (auto simp: pool_track_def list_all2_conv_all_nth)
    then show ?thesis using e(2) by (auto simp: list_ex_iff)
  qed
  then show ?thesis using t by (auto simp: pool_track_def)
qed

end
