(* ===== verification/Collection_Properties.thy ===== *)
theory Collection_Properties
  imports Collection_Outcomes Scenario
begin

text \<open>
  The properties of \<open>CollectionService\<close>: its workers end, every job ends as the collector's
  answers say whatever the interleaving, an orderly end of all workers lets the run complete, what
  a returned summary says, and what becomes of an error of the collector.
\<close>

section \<open>Liveness\<close>

text \<open>C7: Under a fair schedule, one that gives every worker a turn again and again, all workers
  of a collection have ended after finitely many steps, whatever the collector and the store
  answer: no worker retries or waits for another.\<close>

theorem fair_workers_end:
  fixes sched :: "nat \<Rightarrow> nat \<times> dtime"
  assumes "\<And>i n. i < length js \<Longrightarrow> \<exists>m\<ge>n. fst (sched m) = i"
  shows "\<exists>n. list_all finished (fst (run_pool env js (map sched [0..<n]) (start_pool js) s))"
proof -
  have turns_up: "\<exists>n. k \<le> turns i (map sched [0..<n])" if i: "i < length js" for i k
  proof (induction k)
    case (Suc k)
    then obtain n where n: "k \<le> turns i (map sched [0..<n])" by blast
    obtain m where m: "n \<le> m" "fst (sched m) = i" using assms [OF i] by blast
    have "[0..<Suc m] = [0..<n] @ [n..<m] @ [m]" using m(1) by (metis append_assoc le_add_diff_inverse upt_Suc_append upt_add_eq_append zero_le)
    then have "Suc k \<le> turns i (map sched [0..<Suc m])" using n m(2) by (simp add: turns_def)
    then show ?case by blast
  qed simp
  have "\<exists>n. \<forall>i<m. 5 \<le> turns i (map sched [0..<n])" if "m \<le> length js" for m
    using that
  proof (induction m)
    case (Suc m)
    then obtain n where n: "\<forall>i<m. 5 \<le> turns i (map sched [0..<n])" by auto
    obtain n' where n': "5 \<le> turns m (map sched [0..<n'])" using turns_up [of m 5] Suc.prems by auto
    have mono: "turns i (map sched [0..<a]) \<le> turns i (map sched [0..<max a b])" for i a b
    proof -
      have "[0..<max a b] = [0..<a] @ [a..<max a b]" by (metis le_add_diff_inverse max.cobounded1 upt_add_eq_append zero_le)
      then show ?thesis by (simp add: turns_def)
    qed
    have "5 \<le> turns i (map sched [0..<max n n'])" if "i < Suc m" for i
      using that n n' mono [of i n n'] mono [of i n' n] by (cases "i = m") (auto simp: max.commute less_Suc_eq intro: le_trans)
    then show ?case by blast
  qed simp
  then obtain n where "\<forall>i<length js. 5 \<le> turns i (map sched [0..<n])" by blast
  then show ?thesis
    by (intro exI [of _ n] pool_ends) (simp_all add: start_pool_def)
qed

definition quiet_env :: environment where
  "quiet_env = \<lparr>env_fetch = (\<lambda>j. Inl \<lparr>ex_class = ''GitError'', ex_text = ''offline''\<rparr>),
     env_snapshot = (\<lambda>j c. Inl \<lparr>ex_class = ''GitError'', ex_text = ''offline''\<rparr>),
     env_error_text = (\<lambda>e. ''store'')\<rparr>"

theorem fair_workers_end_witness:
  "\<exists>n. list_all finished (fst (run_pool quiet_env [view_a, view_a\<lparr>co_id := 2\<rparr>]
     (map (\<lambda>m. (m mod 2, t0)) [0..<n]) (start_pool [view_a, view_a\<lparr>co_id := 2\<rparr>]) s_pinned))"
proof (rule fair_workers_end)
  fix i n :: nat assume "i < length [view_a, view_a\<lparr>co_id := 2\<rparr>]"
  then have "i mod 2 = i" by simp
  then have "n \<le> 2 * n + i \<and> fst ((2 * n + i) mod 2, t0) = i" by simp
  then show "\<exists>m\<ge>n. fst (m mod 2, t0) = i" by blast
qed

section \<open>A concrete collection\<close>

text \<open>One worker over the pinned job of \<open>Scenario\<close>, with a collector that finds a commit.\<close>

definition ok_env :: environment where
  "ok_env = \<lparr>env_fetch = (\<lambda>j. Inr \<lparr>fr_old_sha = None, fr_new_sha = Some commit_b, fr_forced = False\<rparr>),
     env_snapshot = (\<lambda>j c. Inr \<lparr>ar_commit = commit_b, ar_sha256 = [], ar_path = ''a.tar''\<rparr>),
     env_error_text = (\<lambda>e. ''store'')\<rparr>"

definition key_k :: string where "key_k = ''snapshot:collection:1:repository:1''"

definition snap_k :: snapshot_row where "snap_k = snap_a\<lparr>ss_key := key_k\<rparr>"

definition view_running :: collection_job where
  "view_running = view_a\<lparr>co_state := JobRunning, co_attempt := 1, co_started := Some t0_text\<rparr>"

definition view_fetched :: collection_job where
  "view_fetched = view_running\<lparr>co_new_sha := Some commit_b\<rparr>"

definition view_done :: collection_job where
  "view_done = view_fetched\<lparr>co_state := JobSucceeded, co_finished := Some t0_text\<rparr>"

lemma views [simp]:
  "collection_job job_running = Inr view_running" "collection_job job_fetched = Inr view_fetched"
  "collection_job job_done = Inr view_done"
  by (simp_all add: collection_job_def required_column_def job_done_def job_fetched_def job_running_def
      job_a_def new_job_def pins_a_def or_text_def view_a_def view_running_def view_fetched_def view_done_def)

lemma key_values [simp]: "required_text key_k = Inr key_k" "snapshot_key_of view_a = key_k"
proof -
  show "required_text key_k = Inr key_k" unfolding key_k_def by code_simp
  show "snapshot_key_of view_a = key_k"
    by (simp add: snapshot_key_of_def key_k_def view_a_def job_key_a_def)
qed

lemma claim_value:
  assumes "jobs s = one job_a" and "runs s = one r" and "rn_id r = 1" and "\<not> terminal_run (rn_state r)"
  shows "claim_collection_job t0 1 None s = (Inr view_running, s\<lparr>jobs := one job_running\<rparr>)"
proof -
  have "claim_job t0_text job_a = Inr job_running"
    by (simp add: claim_job_def job_running_def job_a_def new_job_def)
  moreover have "cj_id job_running = 1" by (simp add: job_running_def)
  ultimately show ?thesis
    using assms by (simp add: claim_collection_job_def after_def txn_def require_row_def write_job_def update_one)
qed

lemma record_value:
  assumes "jobs s = one job_running"
  shows "record_collection_fetch 1 commit_b None False s = (Inr view_fetched, s\<lparr>jobs := one job_fetched\<rparr>)"
proof -
  have "job_running\<lparr>cj_old_sha := None, cj_new_sha := Some commit_b, cj_force := False\<rparr> = job_fetched"
    "cj_id job_running = 1" "cj_state job_running = JobRunning" "cj_new_sha job_running = None" "cj_id job_fetched = 1"
    by (simp_all add: job_fetched_def job_running_def job_a_def new_job_def)
  then show ?thesis
    using assms by (simp add: record_collection_fetch_def optional_oid_def after_def txn_def require_row_def
        Let_def write_job_def update_one)
qed

lemma complete_value:
  assumes "jobs s = one job_fetched" and "runs s = one r" and "rn_id r = 1" and "rn_assignment r = 1"
    and "snapshots s = empty_table"
  shows "complete_collection_with_snapshot t0 1 commit_b key_k ''hw1'' None False [] (Some ''a.tar'')
      (Some (DtText t0_text)) None ''unknown'' None s =
    (Inr (view_done, snap_k), s\<lparr>jobs := one job_done, snapshots := one snap_k\<rparr>)"
proof -
  have c: "complete_collection_job_in_connection 1 commit_b None False t0_text s =
      Inr (job_done, s\<lparr>jobs := one job_done\<rparr>)"
    using assms(1)
    by (simp add: complete_collection_job_in_connection_def require_row_def job_fetched_def
        job_running_def succeed_job_def write_job_def update_one job_done_def)
      (simp add: job_a_def new_job_def Let_def)
  have "create_snapshot_in_connection t0 key_k 1 commit_b ''hw1'' [] (Some ''a.tar'')
      (Some (DtText t0_text)) None LateUnknown (s\<lparr>jobs := one job_done\<rparr>) =
      Inr (snap_k, s\<lparr>jobs := one job_done, snapshots := one snap_k\<rparr>)"
    using assms
    by (simp add: create_snapshot_in_connection_def require_row_def job_done_def job_fetched_def
        job_running_def or_text_def insert_snapshot_def new_snapshot_def snapshot_clash_def
        same_snapshot_def now_t0 insert_one snap_k_def snap_a_def)
  with c show ?thesis
    by (simp add: complete_collection_with_snapshot_def optional_oid_def after_def txn_def)
qed

lemma pool_value:
  assumes "jobs s = one job_a" and "runs s = one r" and "rn_id r = 1" and "rn_assignment r = 1"
    and "\<not> terminal_run (rn_state r)" and "snapshots s = empty_table"
  shows "run_workers ok_env [view_a] (replicate 5 (0, t0)) s =
    (Inr (), s\<lparr>jobs := one job_done, snapshots := one snap_k\<rparr>)"
proof -
  have v: "co_id view_a = 1" "co_state view_a = JobQueued" "co_path view_a = ''hw1''"
    "co_id view_running = 1" "co_id view_fetched = 1" "co_new_sha view_running = None"
    "co_new_sha view_fetched = Some commit_b" "co_old_sha view_fetched = None" "\<not> co_force view_fetched"
    "co_started view_fetched = Some t0_text"
    by (simp_all add: view_fetched_def view_running_def view_a_def)
  have e: "env_fetch ok_env j = Inr \<lparr>fr_old_sha = None, fr_new_sha = Some commit_b, fr_forced = False\<rparr>"
    "env_snapshot ok_env j c = Inr \<lparr>ar_commit = commit_b, ar_sha256 = [], ar_path = ''a.tar''\<rparr>" for j c
    by (simp_all add: ok_env_def)
  let ?s1 = "s\<lparr>jobs := one job_running\<rparr>" and ?s2 = "s\<lparr>jobs := one job_fetched\<rparr>"
  have 1: "worker_step ok_env t0 view_a AtClaim s = (AtFetch view_running, ?s1)"
    using claim_value [OF assms(1,2,3,5)] by (simp add: v)
  have 2: "worker_step ok_env t0 view_a (AtRecord view_running
      \<lparr>fr_old_sha = None, fr_new_sha = Some commit_b, fr_forced = False\<rparr> commit_b) ?s1 = (AtSnapshot view_fetched, ?s2)"
    using record_value [of ?s1] by (simp add: v)
  have 3: "worker_step ok_env t0 view_a (AtComplete view_fetched
      \<lparr>ar_commit = commit_b, ar_sha256 = [], ar_path = ''a.tar''\<rparr>) ?s2 =
      (Ended, s\<lparr>jobs := one job_done, snapshots := one snap_k\<rparr>)"
    using complete_value [of ?s2 r] assms by (simp add: v completed_sha_def)
  have "replicate 5 (0, t0) = [(0, t0), (0, t0), (0, t0), (0, t0), (0::nat, t0)]"
    by (simp add: eval_nat_numeral)
  then show ?thesis
    using 1 2 3 by (simp add: run_workers_def start_pool_def e Let_def del: worker_step.simps(1,3,5))
qed

section \<open>Outcomes\<close>

text \<open>C6: The workers of an open run implement the specification \<open>expected\<close> under every
  interleaving of their store transactions: when they all ended orderly, each job that was not
  yet collected has the outcome that its pinned row and the collector's answers alone determine.
  Either it failed with the code and the message of that one exception, an exhausted attempt
  count and an unusable object id of the collector included, or it succeeded with the fetched
  commit, the previous commit and the force mark, and a snapshot of exactly that commit stores
  the archive path, the digest, the repository path and the key made from the job's key. Jobs
  collected before, jobs of other runs and all runs are untouched.\<close>

theorem workers_reach_expected:
  assumes "reachable s" and "list_collection_jobs i None s = Inr js"
    and "get_collection_run i s = Inr run" and "\<not> terminal_run (rn_state run)"
    and "\<forall>e\<in>set tr. utc_dtime (snd e)" and "run_workers env js tr s = (Inr (), s')"
  shows "(\<forall>j\<in>set js. co_state j \<noteq> JobSucceeded \<longrightarrow>
      (case expected env j of
         Inl x \<Rightarrow> (\<exists>r c m. job_at s' (co_id j) = Some r \<and> cj_state r = JobFailed \<and>
           required_text (error_code_of x) = Inr c \<and> cj_error_code r = Some c \<and>
           required_text (error_message_of x) = Inr m \<and> cj_error_message r = Some m)
       | Inr ((commit, old, force), a) \<Rightarrow>
           (\<exists>r. job_at s' (co_id j) = Some r \<and> cj_state r = JobSucceeded \<and> cj_new_sha r = Some commit \<and>
              optional_oid old = Inr (cj_old_sha r) \<and> cj_force r = force) \<and>
           (\<exists>n\<in>set (t_rows (snapshots s')). ss_job n = co_id j \<and> ss_commit n = commit \<and>
              ss_path n = co_path j \<and> ss_source_path n = Some (ar_path a) \<and>
              optional_sha256_hex (ar_sha256 a) = Inr (ss_digest n) \<and>
              required_text (''snapshot:'' @ co_key j) = Inr (ss_key n) \<and> ss_late n = LateUnknown))) \<and>
    (\<forall>j\<in>set js. co_state j = JobSucceeded \<longrightarrow> job_at s' (co_id j) = job_at s (co_id j)) \<and>
    (\<forall>k. k \<notin> co_id ` set js \<longrightarrow> job_at s' k = job_at s k) \<and> runs s' = runs s"
  using workers_outcome [OF reachable_ok [OF assms(1)] assms(2-6)]
  unfolding ends_as_def failed_as_def collected_as_def archived_as_def .

theorem workers_reach_expected_witness:
  "expected ok_env view_a =
     Inr ((commit_b, None, False), \<lparr>ar_commit = commit_b, ar_sha256 = [], ar_path = ''a.tar''\<rparr>) \<and>
   (\<exists>n\<in>{snap_k}. ss_job n = 1 \<and> ss_commit n = commit_b \<and> ss_path n = ''hw1'' \<and> ss_source_path n = Some ''a.tar'')"
proof -
  have p: "jobs s_pinned = one job_a" "runs s_pinned = one (run_a\<lparr>rn_pinned := True\<rparr>)" "snapshots s_pinned = empty_table"
    "rn_id run_a = 1" "rn_assignment run_a = 1" "rn_state run_a = RunQueued"
    by (simp_all add: store_defs run_a_def)
  have l: "list_collection_jobs 1 None s_pinned = Inr [view_a]"
    by (simp add: list_collection_jobs_def run_jobs_def p view_of_a)
  have g: "get_collection_run 1 s_pinned = Inr (run_a\<lparr>rn_pinned := True\<rparr>)"
    by (simp add: get_collection_run_def require_row_def p)
  have w: "run_workers ok_env [view_a] (replicate 5 (0, t0)) s_pinned =
      (Inr (), s_pinned\<lparr>jobs := one job_done, snapshots := one snap_k\<rparr>)"
    by (rule pool_value [where r = "run_a\<lparr>rn_pinned := True\<rparr>"]) (simp_all add: p terminal_run_def)
  have e: "expected ok_env view_a =
      Inr ((commit_b, None, False), \<lparr>ar_commit = commit_b, ar_sha256 = [], ar_path = ''a.tar''\<rparr>)"
    by (simp add: expected_def fetched_def claimable_def ok_env_def view_a_def optional_oid_def)
  have v: "co_state view_a \<noteq> JobSucceeded" "co_id view_a = 1" "co_path view_a = ''hw1''"
    by (simp_all add: view_a_def)
  have "\<not> terminal_run (rn_state (run_a\<lparr>rn_pinned := True\<rparr>))" by (simp add: p terminal_run_def)
  then have "\<exists>n\<in>{snap_k}. ss_job n = 1 \<and> ss_commit n = commit_b \<and> ss_path n = ''hw1'' \<and> ss_source_path n = Some ''a.tar''"
    using workers_reach_expected [OF reachable_history(4) l g _ _ w] t0_valid e v by auto
  with e show ?thesis by blast
qed

section \<open>Completion\<close>

text \<open>When all workers of a run ended without an unrecorded error, every job of the run is
  succeeded or failed in the database, and completing the run then succeeds with a terminal
  verdict: the service never leaves a run it processed open.\<close>

theorem pool_lets_run_complete:
  assumes "reachable s" and "list_collection_jobs i None s = Inr js"
    and "run_workers env js tr s = (Inr (), s')"
    and "get_collection_run i s' = Inr run" and "utc_dtime now"
  shows "(\<forall>j\<in>set (run_jobs i s'). cj_state j \<in> {JobSucceeded, JobFailed}) \<and>
    (\<exists>run'. fst (complete_collection_run now i None s') = Inr run' \<and> terminal_run (rn_state run') \<and>
      (\<not> terminal_run (rn_state run) \<longrightarrow> rn_state run' = verdict (run_jobs i s')))"
proof -
  have d: "\<forall>j\<in>set (run_jobs i s'). cj_state j \<in> {JobSucceeded, JobFailed}"
    using pool_decides_run [OF reachable_ok [OF assms(1)] assms(2,3)] by blast
  then have z: "count_state JobQueued (run_jobs i s') = 0" "count_state JobRunning (run_jobs i s') = 0"
    by (auto simp: count_state_zero_iff)
  have u: "utc_iso now None = Inr (now_iso now)" using now_iso_utc_iso [OF assms(5)] .
  have "\<exists>run'. fst (complete_collection_run now i None s') = Inr run' \<and> terminal_run (rn_state run') \<and>
      (\<not> terminal_run (rn_state run) \<longrightarrow> rn_state run' = verdict (run_jobs i s'))"
    using assms(4) verdict_counts [of "run_jobs i s'"] verdict_terminal [of "run_jobs i s'"]
    by (simp add: complete_collection_run_def u get_collection_run_def op_simps Let_def z)
  with d show ?thesis by blast
qed

theorem pool_lets_run_complete_witness:
  "cj_state job_done \<in> {JobSucceeded, JobFailed} \<and>
   (\<exists>run'. fst (complete_collection_run t0 1 None
       (s_pinned\<lparr>jobs := one job_done, snapshots := one snap_k\<rparr>)) = Inr run' \<and>
     terminal_run (rn_state run') \<and> rn_state run' = RunSucceeded)"
proof -
  have p: "jobs s_pinned = one job_a" "runs s_pinned = one (run_a\<lparr>rn_pinned := True\<rparr>)" "snapshots s_pinned = empty_table"
    "rn_id run_a = 1" "rn_assignment run_a = 1" "rn_state run_a = RunQueued"
    by (simp_all add: store_defs run_a_def)
  let ?s = "s_pinned\<lparr>jobs := one job_done, snapshots := one snap_k\<rparr>"
  have j: "run_jobs 1 ?s = [job_done]" "cj_state job_done = JobSucceeded"
    by (simp_all add: run_jobs_def job_done_def job_fetched_def job_running_def)
  have l: "list_collection_jobs 1 None s_pinned = Inr [view_a]"
    by (simp add: list_collection_jobs_def run_jobs_def p view_of_a)
  have w: "run_workers ok_env [view_a] (replicate 5 (0, t0)) s_pinned = (Inr (), ?s)"
    by (rule pool_value [where r = "run_a\<lparr>rn_pinned := True\<rparr>"]) (simp_all add: p terminal_run_def)
  have g: "get_collection_run 1 ?s = Inr (run_a\<lparr>rn_pinned := True\<rparr>)"
    by (simp add: get_collection_run_def require_row_def p)
  have t: "\<not> terminal_run (rn_state (run_a\<lparr>rn_pinned := True\<rparr>))" by (simp add: run_a_def terminal_run_def)
  have v: "verdict [job_done] = RunSucceeded" by (simp add: verdict_def job_bad_def j)
  show ?thesis
    using pool_lets_run_complete [OF reachable_history(4) l w g t0_valid] t unfolding j v by auto
qed

section \<open>The summary\<close>

lemma summary_facts:
  assumes "collection_summary fd run s = (Inr v, s')"
  shows "s' = s \<and> su_run v = run \<and> list_collection_jobs (rn_id run) None s = Inr (su_jobs v) \<and>
    su_snapshots v = run_snapshots run s \<and> (\<forall>j\<in>set (su_jobs v). co_state j = JobSucceeded \<longrightarrow> (\<exists>n\<in>set (su_snapshots v).
       n \<in> set (t_rows (snapshots s)) \<and> ss_job n = co_id j \<and> snapshot_accepted fd n))"
proof -
  let ?sns = "run_snapshots run s"
  obtain js where js: "list_collection_jobs (rn_id run) None s = Inr js"
    and a: "list_all (job_backed fd ?sns) js"
    and v: "v = \<lparr>su_run = run, su_jobs = js, su_snapshots = ?sns\<rparr>" "s' = s"
  proof (cases "list_collection_jobs (rn_id run) None s")
    case (Inr js)
    have e: "collection_summary fd run s =
        (if list_all (job_backed fd ?sns) js
         then (Inr \<lparr>su_run = run, su_jobs = js, su_snapshots = ?sns\<rparr>, s) else (Inl SummaryRejected, s))"
      by (simp add: collection_summary_def Inr)
    show thesis
    proof (cases "list_all (job_backed fd ?sns) js")
      case True
      have "(Inr \<lparr>su_run = run, su_jobs = js, su_snapshots = ?sns\<rparr> :: service_error + summary, s) = (Inr v, s')"
        using assms unfolding e if_P [OF True] .
      then show thesis using that [OF Inr True] by (metis Pair_inject sum.inject(2))
    qed (use assms in \<open>simp add: e\<close>)
  qed (use assms in \<open>simp add: collection_summary_def\<close>)
  have "\<exists>n\<in>set ?sns. n \<in> set (t_rows (snapshots s)) \<and> ss_job n = co_id j \<and> snapshot_accepted fd n"
    if j: "j \<in> set js" "co_state j = JobSucceeded" for j
  proof -
    obtain n where n: "last_of_job (co_id j) ?sns = Some n" "snapshot_accepted fd n"
      using a j by (auto simp: list_all_iff job_backed_def split: option.split_asm)
    then have m: "n \<in> set ?sns" "ss_job n = co_id j" by (auto simp: last_of_job_def dest!: select_by_SomeD)
    then have "n \<in> set (t_rows (snapshots s))" by (simp add: run_snapshots_def list_submission_snapshots_def)
    with m n show ?thesis by blast
  qed
  with js v show ?thesis by simp
qed

lemma run_snapshots_rows:
  assumes "db_ok s" and "run \<in> set (t_rows (runs s))"
  shows "set (run_snapshots run s) = {n \<in> set (t_rows (snapshots s)). ss_run n = rn_id run}"
proof -
  have "ss_assignment n = rn_assignment run" if n: "n \<in> set (t_rows (snapshots s))" "ss_run n = rn_id run" for n
  proof -
    obtain r where "r \<in> set (t_rows (runs s))" "ss_assignment n = rn_assignment r" "rn_id r = ss_run n"
      using assms(1) n(1) unfolding db_ok_def snapshots_ok_def snapshot_of_def by metis
    then show ?thesis
      using n(2) assms keyed_unique [of rn_id rn_key "runs s" r run] by (simp add: db_ok_def runs_ok_def)
  qed
  then show ?thesis by (auto simp: run_snapshots_def list_submission_snapshots_def)
qed

lemma snapshot_commit:
  assumes "db_ok s" and "list_collection_jobs i None s = Inr js"
    and "n \<in> set (t_rows (snapshots s))" and "ss_run n = i"
  shows "\<exists>j\<in>set js. ss_job n = co_id j \<and> co_state j = JobSucceeded \<and> co_new_sha j = Some (ss_commit n) \<and>
    ss_repo n = co_repo j \<and> ss_path n = co_path j"
proof -
  obtain r run where r: "r \<in> set (t_rows (jobs s))" and o: "snapshot_of n r run"
    using assms(1,3) unfolding db_ok_def snapshots_ok_def by blast
  then have "r \<in> set (run_jobs i s)" using assms(4) by (simp add: run_jobs_def snapshot_of_def)
  then obtain j where j: "j \<in> set js" "collection_job r = Inr j"
    using listed_jobs [OF assms(2,1)] unfolding in_set_conv_nth list_all2_conv_all_nth by metis
  have "text_pinned (cj_path r)" using assms(1) r by (auto simp: db_ok_def jobs_ok_def job_ok_def pins_ok_def)
  then have "cj_path r = Some (co_path j)" by (rule collection_job_path [OF j(2)])
  then show ?thesis
    using o collection_job_fields [OF j(2)] by (intro bexI [OF _ j(1)]) (simp add: snapshot_of_def)
qed

lemma snapshot_commit_of_job:
  assumes "db_ok s" and "list_collection_jobs i None s = Inr js" and "j \<in> set js"
    and "n \<in> set (t_rows (snapshots s))" and "ss_run n = i" and "ss_job n = co_id j"
  shows "co_new_sha j = Some (ss_commit n)"
proof -
  obtain j' where j': "j' \<in> set js" "co_id j' = co_id j" "co_new_sha j' = Some (ss_commit n)"
    using snapshot_commit [OF assms(1,2,4,5)] assms(6) by auto
  have "distinct (map co_id js)"
    using listed_ids [OF assms(2,1)] db_ok_tables [OF assms(1)] table_ok_distinct [of cj_id "jobs s"]
    by (simp add: run_jobs_def distinct_map_filter)
  then have "j' = j" using j' assms(3) by (auto simp: distinct_map dest: inj_onD)
  with j' show ?thesis by simp
qed

lemma transition_result:
  assumes "transition_collection_run now i target at_v err s = (Inr row, s')"
  shows "rn_id row = i \<and> rn_state row = target \<and> get_collection_run i s' = Inr row"
proof -
  obtain changed r where u: "utc_iso now at_v = Inr changed" "select_by rn_id i (t_rows (runs s)) = Some r"
    using assms by (auto simp: transition_collection_run_def result_simps)
  then have "rn_id r = i" using select_by_SomeD by fast
  then show ?thesis
    using assms u
    by (auto simp: transition_collection_run_def result_simps Let_def get_collection_run_def require_row_def
        select_by_update_by split: if_split_asm)
qed

lemma complete_result:
  assumes "complete_collection_run now i at_v s = (Inr row, s')"
  shows "rn_id row = i \<and> terminal_run (rn_state row) \<and> get_collection_run i s' = Inr row"
proof -
  have f: "fst (complete_collection_run now i at_v s) = Inr row"
    and n: "snd (complete_collection_run now i at_v s) = s'" using assms by simp_all
  show ?thesis
  proof (cases rule: complete_collection_run_cases [OF f, case_names already completed])
    case already
    then show ?thesis using n by (auto simp: get_collection_run_def require_row_def dest: select_by_SomeD)
  next
    case (completed r fin)
    then have "rn_id r = i" using select_by_SomeD by fast
    then show ?thesis
      using completed n verdict_terminal
      by (auto simp: get_collection_run_def require_row_def select_by_update_by)
  qed
qed

lemma bind_service_Inr:
  "bind_service m f s = (Inr y, s') \<longleftrightarrow> (\<exists>x t. m s = (Inr x, t) \<and> f x t = (Inr y, s'))"
  by (auto simp: bind_service_def split: prod.split sum.split)

lemma from_store_Inr: "from_store f s = (Inr x, s') \<longleftrightarrow> f s = (Inr x, s')"
  by (auto simp: from_store_def split: prod.split sum.split)

lemma started_id: "started now run s = (Inr r, t) \<Longrightarrow> rn_id r = rn_id run"
  using transition_result
  by (auto simp: started_def start_collection_run_def from_store_Inr split: if_split_asm)

text \<open>The run a summary is made of, and the database it is made in.\<close>

definition summed_up :: "(string \<Rightarrow> string option) \<Rightarrow> int \<Rightarrow> store \<Rightarrow> summary \<Rightarrow> bool" where
  "summed_up fd i s v = (\<exists>r. rn_id r = i \<and> terminal_run (rn_state r) \<and> get_collection_run i s = Inr r \<and>
     collection_summary fd r s = (Inr v, s))"

lemma summed_upI:
  assumes "rn_id r = i \<and> terminal_run (rn_state r) \<and> get_collection_run i s = Inr r"
    and "collection_summary fd r s = (Inr v, s')"
  shows "summed_up fd i s' v"
  using assms summary_facts [OF assms(2)] unfolding summed_up_def by auto

lemma nothing_summed_up:
  assumes "collect_nothing fd now run s = (Inr v, s')"
  shows "summed_up fd (rn_id run) s' v"
proof -
  obtain r t q u where r: "started now run s = (Inr r, t)"
    and q: "fail_collection_run now (rn_id r) ''no active repositories are registered'' None t = (Inr q, u)"
    and c: "collection_summary fd q u = (Inr v, s')"
    using assms unfolding collect_nothing_def bind_service_Inr from_store_Inr by blast
  obtain m where "transition_collection_run now (rn_id r) RunFailed None (Some m) t = (Inr q, u)"
    using q unfolding fail_collection_run_def checked_eq_iff by blast
  then show ?thesis
    using transition_result [of now "rn_id r" RunFailed] started_id [OF r]
    by (intro summed_upI [OF _ c]) (simp add: terminal_run_def)
qed

lemma jobs_summed_up:
  assumes "collect_jobs env fd now tr now_end run js s = (Inr v, s')"
  shows "summed_up fd (rn_id run) s' v"
proof -
  obtain r t q t' u where r: "started now run s = (Inr r, t)"
    and q: "complete_collection_run now_end (rn_id r) None t' = (Inr q, u)"
    and c: "collection_summary fd q u = (Inr v, s')"
    using assms unfolding collect_jobs_def bind_service_Inr from_store_Inr by blast
  show ?thesis
    using complete_result [OF q] started_id [OF r] by (intro summed_upI [OF _ c]) simp
qed

lemma summary_of_locked:
  assumes "get_collection_run (rn_id run) s = Inr run"
    and "collect_locked env fd now tr now_end run s = (Inr v, s')"
  shows "summed_up fd (rn_id run) s' v"
proof (cases "terminal_run (rn_state run)")
  case True
  then have "collection_summary fd run s = (Inr v, s')" using assms(2) by (simp add: collect_locked_def)
  then show ?thesis using True assms(1) by (intro summed_upI [of run]) auto
next
  case False
  obtain js t where "(if js = [] then collect_nothing fd now run
      else collect_jobs env fd now tr now_end run js) t = (Inr v, s')"
    using assms(2) unfolding collect_locked_def if_not_P [OF False] bind_service_Inr by blast
  then show ?thesis
    using nothing_summed_up jobs_summed_up by (cases "js = []") auto
qed

text \<open>What a summary says of a run is what the database holds.\<close>

lemma summed_up_facts:
  assumes "summed_up fd i s v" and ok: "db_ok s"
  shows "rn_id (su_run v) = i \<and> terminal_run (rn_state (su_run v)) \<and>
    get_collection_run i s = Inr (su_run v) \<and> list_collection_jobs i None s = Inr (su_jobs v) \<and>
    set (su_snapshots v) = {n \<in> set (t_rows (snapshots s)). ss_run n = i} \<and>
    (\<forall>n\<in>set (su_snapshots v). \<exists>j\<in>set (su_jobs v). ss_job n = co_id j \<and> co_state j = JobSucceeded \<and>
       co_new_sha j = Some (ss_commit n) \<and> ss_repo n = co_repo j \<and> ss_path n = co_path j) \<and>
    (\<forall>j\<in>set (su_jobs v). co_state j = JobSucceeded \<longrightarrow> (\<exists>n\<in>set (su_snapshots v).
       ss_job n = co_id j \<and> co_new_sha j = Some (ss_commit n) \<and> snapshot_accepted fd n))"
proof -
  obtain r where r: "rn_id r = i" "terminal_run (rn_state r)" "get_collection_run i s = Inr r"
    and c: "collection_summary fd r s = (Inr v, s)"
    using assms(1) unfolding summed_up_def by blast
  note f = summary_facts [OF c]
  have "r \<in> set (t_rows (runs s))"
    using r(3) by (auto simp: get_collection_run_def require_row_Inr_iff dest: select_by_SomeD)
  then have sn: "set (su_snapshots v) = {n \<in> set (t_rows (snapshots s)). ss_run n = i}"
    using run_snapshots_rows [OF ok] f r(1) by simp
  have js: "list_collection_jobs i None s = Inr (su_jobs v)" using f r(1) by simp
  have b: "\<exists>n\<in>set (su_snapshots v). ss_job n = co_id j \<and> co_new_sha j = Some (ss_commit n) \<and> snapshot_accepted fd n"
    if j: "j \<in> set (su_jobs v)" "co_state j = JobSucceeded" for j
  proof -
    obtain n where n: "n \<in> set (su_snapshots v)" "ss_job n = co_id j" "snapshot_accepted fd n" using f j by blast
    then have "co_new_sha j = Some (ss_commit n)" using snapshot_commit_of_job [OF ok js j(1)] sn by blast
    with n show ?thesis by blast
  qed
  show ?thesis using r f sn js b snapshot_commit [OF ok js] by simp
qed

lemma created_run:
  assumes "create_collection_run now key a sched k trig s = (Inr row, s')" and "db_ok s'"
  shows "required_text key = Inr (rn_key row) \<and> rn_assignment row = a \<and> rn_schedule row = k \<and>
    trigger_value (rn_trigger row) = trig \<and> row \<in> set (t_rows (runs s')) \<and>
    get_collection_run (rn_id row) s' = Inr row"
proof -
  obtain kt tr sc where c: "required_text key = Inr kt" "enum_value trigger_value triggers trig = Inr tr"
    and r: "insert_run (new_run now kt a k tr sc) s = Inr (row, s')"
    using assms(1) by (auto simp: create_collection_run_def result_simps)
  have f: "row \<in> set (t_rows (runs s')) \<and> rn_key row = kt \<and> rn_assignment row = a \<and> rn_schedule row = k \<and>
      rn_trigger row = tr"
    by (cases rule: insert_run_cases [OF r new_run_key]) (auto simp: new_run_def dest: select_by_SomeD)
  then have "select_by rn_id (rn_id row) (t_rows (runs s')) = Some row"
    using select_by_iff [of rn_id "t_rows (runs s')"] db_ok_tables [OF assms(2)] table_ok_distinct by metis
  then show ?thesis
    using f c enum_value_Inr_iff [OF c(2)] by (simp add: get_collection_run_def require_row_def)
qed

lemma steps_db_ok: "db_ok s \<Longrightarrow> store_step\<^sup>*\<^sup>* s s' \<Longrightarrow> db_ok s'"
  using steps_ledger ledger_star_ok by blast

lemma collect_parts:
  assumes "collect env fd now tr now_end fresh akey run_key sched_for k trigger s = (Inr v, s')"
    and "get_assignment_by_key akey s = Inr a"
  shows "\<exists>trig sched run t. enum_value trigger_value triggers trigger = Inr trig \<and>
    create_collection_run now (effective_run_key run_key trig (as_id a) fresh) (as_id a) (DtText sched) k
      (trigger_value trig) s = (Inr run, t) \<and>
    collect_locked env fd now tr now_end run t = (Inr v, s')"
proof (cases "enum_value trigger_value triggers trigger")
  case (Inr trig)
  let ?key = "effective_run_key run_key trig (as_id a) fresh"
  show ?thesis
  proof (cases "scheduled_time now run_key ?key sched_for s")
    case (Inl e)
    then show ?thesis using assms \<open>enum_value _ _ _ = _\<close> by (simp add: collect_def Let_def)
  next
    case sched: (Inr sched)
    have "bind_service (from_store (create_collection_run now ?key (as_id a) (DtText sched) k (trigger_value trig)))
        (\<lambda>run. collect_locked env fd now tr now_end run) s = (Inr v, s')"
      using assms Inr sched by (simp add: collect_def Let_def)
    then show ?thesis unfolding bind_service_Inr from_store_Inr using Inr by blast
  qed
qed (use assms in \<open>simp add: collect_def\<close>)

text \<open>C8: When \<open>collect\<close> returns, in any reachable database and with every interleaving of its
  workers, its summary is exactly what the database then holds. The run is the stored row of the
  given run key, for the named assignment, schedule and trigger, and it is terminal; the jobs are
  the stored jobs of the run. The snapshots are all stored snapshots of this run and no others:
  each belongs to a succeeded job of the run and has the commit that job recorded, its repository
  and its path, and each succeeded job has such a snapshot, whose archive file exists and has the
  recorded digest.\<close>

theorem collection_outcome:
  assumes "reachable s" and "get_assignment_by_key assignment_key s = Inr asg"
    and "collect env file_digest now tr now_end fresh assignment_key run_key scheduled_for schedule_id
      trigger s = (Inr v, s')"
  shows "(run_key \<noteq> None \<and> run_key \<noteq> Some [] \<longrightarrow> required_text (the run_key) = Inr (rn_key (su_run v))) \<and>
    rn_assignment (su_run v) = as_id asg \<and> rn_schedule (su_run v) = schedule_id \<and>
    trigger_value (rn_trigger (su_run v)) = trigger \<and> terminal_run (rn_state (su_run v)) \<and>
    get_collection_run (rn_id (su_run v)) s' = Inr (su_run v) \<and>
    list_collection_jobs (rn_id (su_run v)) None s' = Inr (su_jobs v) \<and>
    set (su_snapshots v) = {n \<in> set (t_rows (snapshots s')). ss_run n = rn_id (su_run v)} \<and>
    (\<forall>n\<in>set (su_snapshots v). \<exists>j\<in>set (su_jobs v). ss_job n = co_id j \<and> co_state j = JobSucceeded \<and>
       co_new_sha j = Some (ss_commit n) \<and> ss_repo n = co_repo j \<and> ss_path n = co_path j) \<and>
    (\<forall>j\<in>set (su_jobs v). co_state j = JobSucceeded \<longrightarrow> (\<exists>n\<in>set (su_snapshots v).
       ss_job n = co_id j \<and> co_new_sha j = Some (ss_commit n) \<and> snapshot_accepted file_digest n))"
proof -
  obtain trig sched run t where trig: "enum_value trigger_value triggers trigger = Inr trig"
    and c: "create_collection_run now (effective_run_key run_key trig (as_id asg) fresh) (as_id asg) (DtText sched)
      schedule_id (trigger_value trig) s = (Inr run, t)"
    and l: "collect_locked env file_digest now tr now_end run t = (Inr v, s')"
    using collect_parts [OF assms(3,2)] by blast
  have t: "db_ok t"
    using steps_db_ok [OF reachable_ok [OF assms(1)]] step_path store_step.intros(6) c by (metis snd_conv)
  have st: "store_step\<^sup>*\<^sup>* t s'"
    using writes_collect_locked l unfolding writes_by_steps_def by (metis snd_conv)
  note r = created_run [OF c t]
  have ok: "db_ok s'" by (rule steps_db_ok [OF t st])
  have u: "summed_up file_digest (rn_id run) s' v" using summary_of_locked [OF _ l] r by blast
  note f = summed_up_facts [OF u ok]
  obtain run' where run': "run' \<in> set (t_rows (runs s'))" "run_kept run run'"
    using steps_keep [OF t st] r unfolding keeps_all_def keeps_rows_def by blast
  have "rn_id run' = rn_id run" using run'(2) by (simp add: run_kept_def)
  moreover have "distinct (map rn_id (t_rows (runs s')))"
    using db_ok_tables [OF ok] table_ok_distinct by blast
  ultimately have "select_by rn_id (rn_id run) (t_rows (runs s')) = Some run'"
    using select_by_iff [of rn_id "t_rows (runs s')"] run'(1) by blast
  then have "run' = su_run v"
    using f by (simp add: get_collection_run_def require_row_def)
  then have k: "rn_key (su_run v) = rn_key run" "rn_assignment (su_run v) = as_id asg"
    "rn_schedule (su_run v) = schedule_id" "trigger_value (rn_trigger (su_run v)) = trigger"
    using run'(2) r enum_value_Inr_iff [OF trig] by (auto simp: run_kept_def)
  have "required_text (the run_key) = Inr (rn_key (su_run v))" if "run_key \<noteq> None" "run_key \<noteq> Some []"
    using r that by (auto simp: k effective_run_key_def Let_def split: option.split_asm)
  then show ?thesis
    unfolding f [THEN conjunct1] using k(2-4) f [THEN conjunct2] by (intro conjI impI) blast+
qed

definition run_started :: run_row where
  "run_started = run_a\<lparr>rn_state := RunRunning, rn_started := Some t0_text, rn_pinned := True\<rparr>"

definition run_ended :: run_row where
  "run_ended = run_started\<lparr>rn_state := RunSucceeded, rn_finished := Some t0_text\<rparr>"

definition s_ended :: store where
  "s_ended = s_pinned\<lparr>jobs := one job_done, runs := one run_ended, snapshots := one snap_k\<rparr>"

text \<open>The whole collection of the queued run of \<open>Scenario\<close>.\<close>

lemma locked_value:
  "collect_locked ok_env (\<lambda>p. Some ''x'') t0 (replicate 5 (0, t0)) t0 run_a s_queued =
     (Inr \<lparr>su_run = run_ended, su_jobs = [view_done], su_snapshots = [snap_k]\<rparr>, s_ended)"
proof -
  let ?t = "s_pinned\<lparr>runs := one run_started\<rparr>"
  let ?u = "?t\<lparr>jobs := one job_done, snapshots := one snap_k\<rparr>"
  have r: "rn_id run_a = 1" "rn_state run_a = RunQueued" "rn_assignment run_a = 1" "rn_started run_a = None"
    "rn_id run_started = 1" "rn_state run_started = RunRunning" "rn_assignment run_started = 1"
    "rn_id run_ended = 1" "rn_state run_ended = RunSucceeded" "rn_assignment run_ended = 1"
    by (simp_all add: run_ended_def run_started_def run_a_def)
  have f: "run_a\<lparr>rn_pinned := True, rn_state := RunRunning, rn_started := Some t0_text, rn_finished := None, rn_error := None\<rparr> = run_started"
    "run_started\<lparr>rn_state := RunSucceeded, rn_finished := Some t0_text, rn_error := None\<rparr> = run_ended"
    by (simp_all add: run_ended_def run_started_def run_a_def)
  have p: "jobs s_pinned = one job_a" "runs s_pinned = one (run_a\<lparr>rn_pinned := True\<rparr>)" "snapshots s_pinned = empty_table"
    by (simp_all add: store_defs)
  have start: "start_collection_run t0 1 None s_pinned = (Inr run_started, ?t)"
    using f(1) by (simp add: start_collection_run_def transition_collection_run_def txn_def require_row_def
        p r terminal_run_def Let_def update_one)
  have w: "run_workers ok_env [view_a] (replicate 5 (0, t0)) ?t = (Inr (), ?u)"
    by (rule pool_value [where r = run_started]) (simp_all add: p r terminal_run_def)
  have j: "run_jobs 1 ?u = [job_done]" "cj_state job_done = JobSucceeded" "cj_id job_done = 1"
    by (simp_all add: run_jobs_def job_done_def job_fetched_def job_running_def)
  have c: "complete_collection_run t0 1 None ?u = (Inr run_ended, s_ended)"
    using f(2) by (simp add: complete_collection_run_def txn_def require_row_def r terminal_run_def Let_def
        update_one j count_state_def s_ended_def)
  have s: "list_collection_jobs 1 None s_ended = Inr [view_done]" "run_snapshots run_ended s_ended = [snap_k]"
  proof -
    have "cj_run job_done = 1" by (simp add: job_done_def job_fetched_def job_running_def)
    then show "list_collection_jobs 1 None s_ended = Inr [view_done]"
      by (simp add: list_collection_jobs_def run_jobs_def s_ended_def)
  qed (simp add: s_ended_def run_snapshots_def list_submission_snapshots_def r snap_k_def snap_a_def)
  have b: "job_backed (\<lambda>p. Some ''x'') [snap_k] view_done"
    by (simp add: job_backed_def last_of_job_def snapshot_accepted_def snap_k_def snap_a_def view_done_def
        view_fetched_def view_running_def view_a_def)
  show ?thesis
    using start w c by (simp add: collect_locked_def collect_jobs_def started_def bind_service_def from_store_def
        pin_step_a r terminal_run_def collection_summary_def s b)
qed

text \<open>\<open>collect\<close> under the key of that run.\<close>

lemma collect_value:
  "collect ok_env (\<lambda>p. Some ''x'') t0 (replicate 5 (0, t0)) t0 [] (as_key asg_a) (Some ''run-1'') None None
     ''manual'' s_queued = (Inr \<lparr>su_run = run_ended, su_jobs = [view_done], su_snapshots = [snap_k]\<rparr>, s_ended)"
proof -
  have r: "rn_key run_a = ''run-1''" "rn_scheduled_for run_a = t0_text" "rn_assignment run_a = 1"
    "rn_schedule run_a = None" "rn_trigger run_a = TriggerManual" "trigger_value TriggerManual = ''manual''"
    by (simp_all add: run_a_def)
  have s: "t_rows (runs s_queued) = [run_a]" "t_rows (assignments s_queued) = [asg_a]"
    "as_id asg_a = 1" "as_key asg_a = ''hw1''"
    by (simp_all add: store_defs asg_a_def)
  have c: "create_collection_run t0 ''run-1'' 1 (DtText t0_text) None ''manual'' s_queued = (Inr run_a, s_queued)"
    by (simp add: create_collection_run_def insert_run_def new_run_def txn_def require_row_def s r)
  have t: "scheduled_time t0 (Some ''run-1'') ''run-1'' None s_queued = Inr t0_text"
    by (simp add: scheduled_time_def get_collection_run_by_key_def require_row_def s r)
  show ?thesis
    by (simp add: collect_def get_assignment_by_key_def require_row_def s effective_run_key_def Let_def t r
        bind_service_def from_store_def c locked_value)
qed

theorem collection_outcome_witness:
  "terminal_run (rn_state run_ended) \<and> get_collection_run 1 s_ended = Inr run_ended \<and>
   list_collection_jobs 1 None s_ended = Inr [view_done] \<and>
   {snap_k} = {n \<in> set (t_rows (snapshots s_ended)). ss_run n = 1} \<and> ss_job snap_k = co_id view_done \<and>
   co_new_sha view_done = Some (ss_commit snap_k) \<and> snapshot_accepted (\<lambda>p. Some ''x'') snap_k"
proof -
  have g: "get_assignment_by_key (as_key asg_a) s_queued = Inr asg_a"
    by (simp add: get_assignment_by_key_def require_row_def store_defs)
  have i: "rn_id run_ended = 1" "co_state view_done = JobSucceeded"
    by (simp_all add: run_ended_def run_started_def run_a_def view_done_def)
  show ?thesis
    using collection_outcome [OF reachable_history(3) g collect_value] i by simp
qed

section \<open>Errors of the collector\<close>

lemma strip_Nil_iff: "strip s = [] \<longleftrightarrow> (\<forall>c\<in>set s. py_space c)"
proof
  assume "strip s = []"
  then have "\<forall>c\<in>set (lstrip s). py_space c"
    by (metis strip_def rev_is_Nil_conv lstrip_Nil_iff set_rev)
  then have "lstrip s = []" using hd_in_set hd_dropWhile [of py_space s] by (metis lstrip_def)
  then show "\<forall>c\<in>set s. py_space c" by (simp add: lstrip_Nil_iff)
next
  assume "\<forall>c\<in>set s. py_space c"
  then show "strip s = []" using lstrip_Nil_iff [of s] by (simp add: strip_def) (simp add: lstrip_def)
qed

lemma required_text_some: "c \<in> set s \<Longrightarrow> \<not> py_space c \<Longrightarrow> required_text s = Inr (strip s)"
  using strip_Nil_iff [of s] by (auto simp: required_text_def Let_def)

lemma split_words_first:
  assumes "split_words acc s = w # ws" and "\<forall>c\<in>set acc. \<not> py_space c"
  shows "w \<noteq> [] \<and> \<not> py_space (hd w)"
  using assms
proof (induction s arbitrary: acc)
  case (Cons c cs)
  show ?case
  proof (cases "py_space c \<and> acc \<noteq> []")
    case True
    then have "w = rev acc" using Cons.prems(1) by simp
    then show ?thesis using True Cons.prems(2) by (simp add: hd_rev)
  next
    case False
    then show ?thesis
      using Cons.prems Cons.IH [of "[]"] Cons.IH [of "c # acc"] by (cases "py_space c") simp_all
  qed
qed (auto simp: hd_rev split: if_split_asm)

lemma join_hd: "w \<noteq> [] \<Longrightarrow> join sep (w # ws) \<noteq> [] \<and> hd (join sep (w # ws)) = hd w"
  by (cases ws) auto

lemma message_starts:
  assumes "ex_class e \<noteq> []" and "\<not> py_space (hd (ex_class e))"
  shows "error_message_of e \<noteq> [] \<and> \<not> py_space (hd (error_message_of e))"
proof (cases "split_words [] (ex_text e)")
  case Nil
  then show ?thesis using assms by (simp add: error_message_of_def)
next
  case (Cons w ws)
  have w: "w \<noteq> []" "\<not> py_space (hd w)" using split_words_first [OF Cons] by auto
  then show ?thesis using join_hd [of w "'' ''" ws] by (simp add: error_message_of_def Cons)
qed

lemma code_starts:
  assumes "ex_class e \<noteq> []" and "\<not> py_space (hd (ex_class e))"
  shows "error_code_of e \<noteq> [] \<and> \<not> py_space (hd (error_code_of e))"
proof -
  obtain c cs where c: "ex_class e = c # cs" using assms(1) by (cases "ex_class e") auto
  have "\<not> py_space (upper_char c)"
    using assms(2) by (auto simp: c upper_char_def py_space_def Let_def of_char_of)
  then show ?thesis by (simp add: error_code_of_def c Let_def)
qed

lemma fail_row_view:
  assumes "db_ok s" and "job_at s i = Some r"
  shows "\<exists>v. collection_job (fail_job t c m r) = Inr v"
proof -
  have "pins_ok r"
    using assms by (auto simp: job_at_def db_ok_def jobs_ok_def job_ok_def dest!: select_by_SomeD)
  then have "pins_ok (fail_job t c m r)" by (simp add: pins_ok_def fail_job_def)
  then show ?thesis by (rule collection_job_total)
qed

text \<open>An exception of the collector costs one job and is never lost: a worker that caught it
  ends normally, its job is failed with the error code made from the class name and with the
  message squeezed to one line of at most 2000 characters, and every other job is untouched.\<close>

theorem collector_error_recorded:
  assumes "reachable s" and "job_at s (co_id j) = Some r" and "cj_state r \<noteq> JobSucceeded"
    and "utc_dtime now" and "ex_class x \<noteq> []" and "\<not> py_space (hd (ex_class x))"
  shows "\<exists>s'. worker_step env now j (AtFail x) s = (Ended, s') \<and>
    job_at s' (co_id j) = Some (r\<lparr>cj_state := JobFailed, cj_finished := Some (now_iso now),
      cj_error_code := Some (strip (error_code_of x)),
      cj_error_message := Some (strip (error_message_of x))\<rparr>) \<and>
    length (error_message_of x) \<le> 2000 \<and>
    (\<forall>i. i \<noteq> co_id j \<longrightarrow> job_at s' i = job_at s i)"
proof -
  note ok = reachable_ok [OF assms(1)]
  have r: "select_by cj_id (co_id j) (t_rows (jobs s)) = Some r" "cj_id r = co_id j"
    using assms(2) by (auto simp: job_at_def dest: select_by_SomeD)
  then have st: "cj_state r \<in> {JobQueued, JobRunning, JobFailed}"
    using job_states [of "repositories s" "runs s" "jobs s"] assms(3) ok
    by (auto simp: db_ok_def dest: select_by_SomeD)
  have code: "required_text (error_code_of x) = Inr (strip (error_code_of x))"
    and msg: "required_text (error_message_of x) = Inr (strip (error_message_of x))"
    using code_starts message_starts assms(5,6) required_text_some hd_in_set by metis+
  let ?r = "fail_job (now_iso now) (strip (error_code_of x)) (strip (error_message_of x)) r"
  obtain v where v: "collection_job ?r = Inr v" using fail_row_view [OF ok assms(2)] by blast
  have "fail_collection_job now (co_id j) (error_code_of x) (error_message_of x) None s = (Inr v, write_job ?r s)"
    using st by (auto simp: fail_collection_job_def code msg require_row_def r now_iso_utc_iso [OF assms(4)]
        after_def txn_def Let_def v)
  then have w: "worker_step env now j (AtFail x) s = (Ended, write_job ?r s)" by simp
  have m: "length (error_message_of x) \<le> 2000" by (simp add: error_message_of_def Let_def)
  show ?thesis
    using w m assms(2) r(2) by (intro exI [of _ "write_job ?r s"]) (auto simp: fail_job_def)
qed

theorem collector_error_recorded_witness:
  "\<exists>s'. worker_step quiet_env t0 view_a (AtFail \<lparr>ex_class = ''GitError'', ex_text = ''offline''\<rparr>) s_claimed = (Ended, s') \<and>
    map_option cj_state (job_at s' 1) = Some JobFailed"
proof -
  have a: "job_at s_claimed (co_id view_a) = Some job_running" and s: "cj_state job_running = JobRunning"
    and i: "co_id view_a = 1"
    by (simp_all add: job_at_def store_defs view_a_def job_running_def)
  have sp: "\<not> py_space (hd ''GitError'')" by code_simp
  obtain s' where "worker_step quiet_env t0 view_a (AtFail \<lparr>ex_class = ''GitError'', ex_text = ''offline''\<rparr>) s_claimed = (Ended, s')"
    and "map_option cj_state (job_at s' 1) = Some JobFailed"
    using collector_error_recorded [OF reachable_history(5) a _ t0_valid,
        of "\<lparr>ex_class = ''GitError'', ex_text = ''offline''\<rparr>" quiet_env] s sp i by auto
  then show ?thesis by blast
qed

end
