(* ===== verification/Rubric_Values.thy ===== *)
theory Rubric_Values
  imports Complex_Main Json_Text
begin

text \<open>
  The value level of \<open>src/src/autograde/rubric_engine.py\<close>: its errors, the field, identifier,
  digest, text and path validators, and the decimals it computes with. A decimal of the engine is
  never negative, so it is its digits and the number of them behind the point; sums and products
  are exact because the engine's context keeps 40 digits (the bound is a lemma of
  \<open>Rubric_Lemmas\<close>).
\<close>

section \<open>Errors\<close>

text \<open>The engine's own errors, the two Python errors a lookup in a checked document could raise if
  the checks were incomplete, a missing key and an exhausted \<open>next\<close>, and SQLite's refusal of a
  primary key that is taken.\<close>

datatype rubric_error = RubricError | RubricConflict | RubricNotFound | KeyErr | StopIteration | IntegrityErr

type_synonym 'a rres = "rubric_error + 'a"

definition require :: "bool \<Rightarrow> 'a rres \<Rightarrow> 'a rres" where
  "require b r = (if b then r else Inl RubricError)"

lemma require_Inr_iff [simp]: "require b r = Inr x \<longleftrightarrow> b \<and> r = Inr x"
  by (simp add: require_def)

lemma require_cong [fundef_cong]: "b = b' \<Longrightarrow> (b' \<Longrightarrow> r = r') \<Longrightarrow> require b r = require b' r'"
  by (simp add: require_def)

section \<open>Characters and texts\<close>

definition code :: "char \<Rightarrow> nat" where
  "code c = of_char c"

definition ascii_digit :: "char \<Rightarrow> bool" where
  "ascii_digit c = (48 \<le> code c \<and> code c \<le> 57)"

definition ascii_alnum :: "char \<Rightarrow> bool" where
  "ascii_alnum c = (ascii_digit c \<or> (65 \<le> code c \<and> code c \<le> 90) \<or> (97 \<le> code c \<and> code c \<le> 122))"

text \<open>\<open>[A-Za-z0-9][A-Za-z0-9_.-]{0,95}\<close>\<close>

definition is_identifier :: "string \<Rightarrow> bool" where
  "is_identifier s = (s \<noteq> [] \<and> length s \<le> 96 \<and> ascii_alnum (hd s) \<and>
     list_all (\<lambda>c. ascii_alnum c \<or> c \<in> {CHR ''_'', CHR ''.'', CHR ''-''}) (tl s))"

text \<open>\<open>[0-9a-f]{64}\<close>\<close>

definition is_digest :: "string \<Rightarrow> bool" where
  "is_digest s = (length s = 64 \<and>
     list_all (\<lambda>c. ascii_digit c \<or> (97 \<le> code c \<and> code c \<le> 102)) s)"

definition is_text :: "nat \<Rightarrow> string \<Rightarrow> bool" where
  "is_text limit s = (strip s \<noteq> [] \<and> length s \<le> limit \<and>
     list_all (\<lambda>c. 32 \<le> code c \<or> code c \<in> {9, 10, 13}) s)"

text \<open>A relative source path. \<open>str(PurePosixPath(value))\<close> is \<open>value\<close> itself when no part is empty
  or a single point, which the part check already says.\<close>

definition is_path :: "string \<Rightarrow> bool" where
  "is_path s = (is_text 512 s \<and> list_all (\<lambda>c. code c \<noteq> 92 \<and> code c \<noteq> 58 \<and> 32 \<le> code c \<and> code c \<noteq> 127) s \<and>
     \<not> starts_with ''/'' s \<and> list_all (\<lambda>p. p \<notin> {[], ''.'', ''..''}) (split_on (CHR ''/'') s))"

section \<open>Document access\<close>

definition same_fields :: "string list \<Rightarrow> (string \<times> json) list \<Rightarrow> bool" where
  "same_fields expected ms = (set (map fst ms) = set expected)"

text \<open>\<open>fields(value, expected, context)\<close> hands out the members of an object with exactly the
  expected keys.\<close>

definition object_fields :: "json \<Rightarrow> string list \<Rightarrow> (string \<times> json) list rres" where
  "object_fields v expected = (case v of JObj ms \<Rightarrow> require (same_fields expected ms) (Inr ms) | _ \<Rightarrow> Inl RubricError)"

definition member :: "string \<Rightarrow> (string \<times> json) list \<Rightarrow> json rres" where
  "member k ms = (case map_of ms k of None \<Rightarrow> Inl KeyErr | Some v \<Rightarrow> Inr v)"

definition identifier_value :: "json \<Rightarrow> string rres" where
  "identifier_value v = (case v of JStr s \<Rightarrow> require (is_identifier s) (Inr s) | _ \<Rightarrow> Inl RubricError)"

definition digest_value :: "json \<Rightarrow> string rres" where
  "digest_value v = (case v of JStr s \<Rightarrow> require (is_digest s) (Inr s) | _ \<Rightarrow> Inl RubricError)"

definition text_value :: "nat \<Rightarrow> json \<Rightarrow> string rres" where
  "text_value limit v = (case v of JStr s \<Rightarrow> require (is_text limit s) (Inr s) | _ \<Rightarrow> Inl RubricError)"

definition path_value :: "json \<Rightarrow> string rres" where
  "path_value v = (case v of JStr s \<Rightarrow> require (is_path s) (Inr s) | _ \<Rightarrow> Inl RubricError)"

text \<open>\<open>type(v) is int and lo <= v <= hi\<close>\<close>

definition bounded_int :: "int \<Rightarrow> int \<Rightarrow> json \<Rightarrow> int rres" where
  "bounded_int lo hi v = (case v of JInt i \<Rightarrow> require (lo \<le> i \<and> i \<le> hi) (Inr i) | _ \<Rightarrow> Inl RubricError)"

definition array :: "nat \<Rightarrow> nat \<Rightarrow> json \<Rightarrow> json list rres" where
  "array lo hi v = (case v of JArr xs \<Rightarrow> require (lo \<le> length xs \<and> length xs \<le> hi) (Inr xs) | _ \<Rightarrow> Inl RubricError)"

definition exactly :: "json \<Rightarrow> json \<Rightarrow> unit rres" where
  "exactly expected v = require (v = expected) (Inr ())"

section \<open>Decimals\<close>

datatype dec = Dec (dec_digits: nat) (dec_places: nat)

definition dec_value :: "dec \<Rightarrow> rat" where
  "dec_value d = of_nat (dec_digits d) / 10 ^ dec_places d"

text \<open>Digits and places with a common number of places.\<close>

definition scaled :: "nat \<Rightarrow> dec \<Rightarrow> nat" where
  "scaled k d = dec_digits d * 10 ^ (k - dec_places d)"

definition dec_le :: "dec \<Rightarrow> dec \<Rightarrow> bool" where
  "dec_le a b = (let k = max (dec_places a) (dec_places b) in scaled k a \<le> scaled k b)"

definition dec_less :: "dec \<Rightarrow> dec \<Rightarrow> bool" where
  "dec_less a b = (\<not> dec_le b a)"

definition dec_eq :: "dec \<Rightarrow> dec \<Rightarrow> bool" where
  "dec_eq a b = (dec_le a b \<and> dec_le b a)"

definition dec_add :: "dec \<Rightarrow> dec \<Rightarrow> dec" where
  "dec_add a b = (let k = max (dec_places a) (dec_places b) in Dec (scaled k a + scaled k b) k)"

definition dec_mult :: "dec \<Rightarrow> dec \<Rightarrow> dec" where
  "dec_mult a b = Dec (dec_digits a * dec_digits b) (dec_places a + dec_places b)"

abbreviation dec_zero :: dec where "dec_zero \<equiv> Dec 0 0"
abbreviation dec_one :: dec where "dec_one \<equiv> Dec 1 0"

text \<open>\<open>quantize(Decimal(1).scaleb(-places), rounding=ROUND_HALF_UP)\<close>\<close>

definition quantize_half_up :: "nat \<Rightarrow> dec \<Rightarrow> dec" where
  "quantize_half_up places d =
     (if dec_places d \<le> places then Dec (scaled places d) places
      else let m = 10 ^ (dec_places d - places) in Dec ((2 * dec_digits d + m) div (2 * m)) places)"

text \<open>\<open>(?:0|[1-9][0-9]{0,5})(?:\.[0-9]{1,6})?\<close> and \<open>Decimal(text)\<close>.\<close>

definition integer_part :: "string \<Rightarrow> bool" where
  "integer_part s = (s = ''0'' \<or> (s \<noteq> [] \<and> length s \<le> 6 \<and> list_all ascii_digit s \<and> hd s \<noteq> CHR ''0''))"

definition fraction_part :: "string \<Rightarrow> bool" where
  "fraction_part s = (s \<noteq> [] \<and> length s \<le> 6 \<and> list_all ascii_digit s)"

definition is_number :: "string \<Rightarrow> bool" where
  "is_number s = (case split_on (CHR ''.'') s of
      [i] \<Rightarrow> integer_part i
    | [i, f] \<Rightarrow> integer_part i \<and> fraction_part f
    | _ \<Rightarrow> False)"

definition decimal :: "string \<Rightarrow> dec" where
  "decimal s = (case split_on (CHR ''.'') s of
      [i, f] \<Rightarrow> Dec (read_nat 0 (i @ f)) (length f)
    | _ \<Rightarrow> Dec (read_nat 0 s) 0)"

definition decimal_value :: "nat \<Rightarrow> json \<Rightarrow> dec rres" where
  "decimal_value maximum v = (case v of
      JStr s \<Rightarrow> require (is_number s) (require (dec_le (decimal s) (Dec maximum 0)) (Inr (decimal s)))
    | _ \<Rightarrow> Inl RubricError)"

text \<open>\<open>format(value, "f")\<close>, and the same without the zeros that end a fraction.\<close>

definition format_f :: "dec \<Rightarrow> string" where
  "format_f d = show_nat (dec_digits d div 10 ^ dec_places d) @
     (if dec_places d = 0 then [] else CHR ''.'' # digits (dec_places d) (dec_digits d mod 10 ^ dec_places d))"

definition rstrip_char :: "char \<Rightarrow> string \<Rightarrow> string" where
  "rstrip_char c s = rev (dropWhile (\<lambda>x. x = c) (rev s))"

definition decimal_text :: "dec \<Rightarrow> string" where
  "decimal_text d = (let result = format_f d in
     if CHR ''.'' \<in> set result then rstrip_char (CHR ''.'') (rstrip_char (CHR ''0'') result) else result)"

end
