(* ===== verification/Rubric_Engine.thy ===== *)
theory Rubric_Engine
  imports Rubric_Values
begin

text \<open>
  \<open>src/src/autograde/rubric_engine.py\<close>: validation of a rubric and of the evidence for it, and
  the evaluation. A checked document is a record instead of a dict; decimals stay the normalised
  texts the dict holds. \<open>rubric_json\<close> and \<open>evidence_json\<close> are the documents again, for the
  digests. SHA-256 is the parameter \<open>sha\<close>.
\<close>

section \<open>Checked rubrics\<close>

record level =
  lv_id :: string
  lv_ratio :: string
  lv_description :: string

text \<open>The part of a criterion that belongs to its evaluator plugin: the bound cases with the level
  for every count of passed cases, or the kind of review.\<close>

datatype evaluator =
    Deterministic (ev_cases: "string list") (ev_levels: "string list")
  | Instructor (ev_review_kind: string)

record criterion =
  cr_id :: string
  cr_title :: string
  cr_description :: string
  cr_maximum :: string
  cr_levels :: "level list"
  cr_evaluator :: evaluator

record rubric =
  rb_course :: string
  rb_assignment :: string
  rb_id :: string
  rb_version :: int
  rb_title :: string
  rb_places :: nat
  rb_maximum :: string
  rb_criteria :: "criterion list"

text \<open>\<open>_copy_bounded\<close>: what JSON cannot say, or says in more than a mebibyte, is refused. The copy
  differs from the document in the order of members at most, which nothing below looks at.\<close>

definition copy_bounded :: "json \<Rightarrow> json rres" where
  "copy_bounded v = (case dumps v of Inl _ \<Rightarrow> Inl RubricError
     | Inr raw \<Rightarrow> require (length raw \<le> 1024 * 1024) (Inr v))"

definition checked_field :: "string \<Rightarrow> (json \<Rightarrow> 'a rres) \<Rightarrow> (string \<times> json) list \<Rightarrow> ('a \<Rightarrow> 'b rres) \<Rightarrow> 'b rres" where
  "checked_field k check ms f = rbind (member k ms) (\<lambda>v. rbind (check v) f)"

definition check_level :: "json \<Rightarrow> level rres" where
  "check_level v =
     rbind (object_fields v [''level_id'', ''ratio'', ''description'']) (\<lambda>ms.
     checked_field ''level_id'' identifier_value ms (\<lambda>i.
     checked_field ''ratio'' (decimal_value 1) ms (\<lambda>ratio.
     checked_field ''description'' (text_value 4000) ms (\<lambda>d.
       Inr \<lparr>lv_id = i, lv_ratio = decimal_text ratio, lv_description = d\<rparr>))))"

definition ratio_of :: "level list \<Rightarrow> string \<Rightarrow> dec" where
  "ratio_of levels i = (case find (\<lambda>l. lv_id l = i) levels of None \<Rightarrow> dec_zero | Some l \<Rightarrow> decimal (lv_ratio l))"

definition levels_scale :: "level list \<Rightarrow> bool" where
  "levels_scale levels =
     (distinct (map lv_id levels) \<and>
      (let ratios = map (decimal \<circ> lv_ratio) levels in
       sorted_wrt dec_less ratios \<and> dec_eq (hd ratios) dec_zero \<and> dec_eq (last ratios) dec_one))"

definition check_levels :: "json \<Rightarrow> level list rres" where
  "check_levels v =
     rbind (array 2 10 v) (\<lambda>xs. rbind (rmapM check_level xs) (\<lambda>levels.
       require (levels_scale levels) (Inr levels)))"

text \<open>The level of every count of passed cases, from no credit to full credit.\<close>

definition monotone_rule :: "level list \<Rightarrow> string list \<Rightarrow> bool" where
  "monotone_rule levels mapped =
     (let ratios = map (ratio_of levels) mapped in
      sorted_wrt dec_le ratios \<and> dec_eq (hd ratios) dec_zero \<and> dec_eq (last ratios) dec_one)"

definition level_reference :: "level list \<Rightarrow> json \<Rightarrow> string rres" where
  "level_reference levels v = (case v of JStr s \<Rightarrow> require (s \<in> lv_id ` set levels) (Inr s) | _ \<Rightarrow> Inl RubricError)"

definition count_keys :: "nat \<Rightarrow> string list" where
  "count_keys n = map show_nat [0..<Suc n]"

definition check_deterministic :: "level list \<Rightarrow> (string \<times> json) list \<Rightarrow> evaluator rres" where
  "check_deterministic levels ms =
     checked_field ''evidence'' (\<lambda>v. object_fields v [''kind'', ''case_ids'']) ms (\<lambda>evidence.
     checked_field ''kind'' (exactly (JStr ''test_case_results'')) evidence (\<lambda>_.
     checked_field ''case_ids'' (array 1 50) evidence (\<lambda>case_values.
     rbind (rmapM identifier_value case_values) (\<lambda>cases.
     require (distinct cases)
     (checked_field ''rule'' (\<lambda>v. object_fields v [''operator'', ''all_cases_must_have_valid_results'', ''level_by_count'']) ms (\<lambda>rule.
     checked_field ''operator'' (exactly (JStr ''passed_case_count'')) rule (\<lambda>_.
     checked_field ''all_cases_must_have_valid_results'' (exactly (JBool True)) rule (\<lambda>_.
     checked_field ''level_by_count'' (\<lambda>v. object_fields v (count_keys (length cases))) rule (\<lambda>mapping.
     rbind (rmapM (\<lambda>k. checked_field k (level_reference levels) mapping Inr) (count_keys (length cases))) (\<lambda>mapped.
     require (monotone_rule levels mapped)
     (checked_field ''infrastructure_failure'' (exactly (JStr ''blocked_not_zero'')) ms (\<lambda>_.
       Inr (Deterministic cases mapped)))))))))))))"

definition review_kind :: "json \<Rightarrow> string rres" where
  "review_kind v = (case v of JStr s \<Rightarrow>
       require (s \<in> {''source_review'', ''source_and_explanation_review''}) (Inr s)
     | _ \<Rightarrow> Inl RubricError)"

definition check_instructor :: "(string \<times> json) list \<Rightarrow> evaluator rres" where
  "check_instructor ms =
     checked_field ''evidence'' (\<lambda>v. object_fields v [''kind'', ''requires_source_digest'', ''requires_file_and_line_reference'']) ms (\<lambda>evidence.
     checked_field ''kind'' review_kind evidence (\<lambda>kind.
     checked_field ''requires_source_digest'' (exactly (JBool True)) evidence (\<lambda>_.
     checked_field ''requires_file_and_line_reference'' (exactly (JBool True)) evidence (\<lambda>_.
     checked_field ''review_reason_required'' (exactly (JBool True)) ms (\<lambda>_.
       Inr (Instructor kind))))))"

definition criterion_fields :: "string list" where
  "criterion_fields = [''criterion_id'', ''title'', ''description'', ''maximum_points'', ''required'',
     ''evaluator_kind'', ''levels'', ''evidence'']"

text \<open>The plugin of a criterion, and the fields it adds.\<close>

definition evaluator_kind :: "json \<Rightarrow> bool rres" where
  "evaluator_kind v = (case v of JObj ms \<Rightarrow>
       (if map_of ms ''evaluator_kind'' = Some (JStr ''deterministic'') then Inr True
        else if map_of ms ''evaluator_kind'' = Some (JStr ''instructor'') then Inr False
        else Inl RubricError)
     | _ \<Rightarrow> Inl RubricError)"

definition check_criterion :: "json \<Rightarrow> criterion rres" where
  "check_criterion v =
     rbind (evaluator_kind v) (\<lambda>deterministic.
     rbind (object_fields v (criterion_fields @
       (if deterministic then [''rule'', ''infrastructure_failure''] else [''review_reason_required'']))) (\<lambda>ms.
     checked_field ''criterion_id'' identifier_value ms (\<lambda>i.
     checked_field ''title'' (text_value 200) ms (\<lambda>title.
     checked_field ''description'' (text_value 4000) ms (\<lambda>description.
     checked_field ''required'' (exactly (JBool True)) ms (\<lambda>_.
     checked_field ''maximum_points'' (decimal_value 10000) ms (\<lambda>weight.
     require (dec_less dec_zero weight)
     (checked_field ''levels'' check_levels ms (\<lambda>levels.
     rbind (if deterministic then check_deterministic levels ms else check_instructor ms) (\<lambda>evaluator.
       Inr \<lparr>cr_id = i, cr_title = title, cr_description = description,
            cr_maximum = decimal_text weight, cr_levels = levels, cr_evaluator = evaluator\<rparr>))))))))))"

definition total_weight :: "criterion list \<Rightarrow> dec" where
  "total_weight cs = fold (\<lambda>c t. dec_add t (decimal (cr_maximum c))) cs dec_zero"

definition check_rubric :: "json \<Rightarrow> rubric rres" where
  "check_rubric v =
     rbind (object_fields v [''schema_version'', ''course_key'', ''assignment_id'', ''rubric_id'', ''version'',
       ''title'', ''scoring'', ''criteria'']) (\<lambda>ms.
     checked_field ''schema_version'' (exactly (JStr ''autograde.rubric.v1'')) ms (\<lambda>_.
     checked_field ''course_key'' identifier_value ms (\<lambda>course.
     checked_field ''assignment_id'' identifier_value ms (\<lambda>assignment.
     checked_field ''rubric_id'' identifier_value ms (\<lambda>rubric_id.
     checked_field ''version'' (bounded_int 1 100000) ms (\<lambda>version.
     checked_field ''title'' (text_value 200) ms (\<lambda>title.
     checked_field ''scoring'' (\<lambda>v. object_fields v [''method'', ''maximum_points'', ''decimal_places_display'',
       ''rounding'', ''incomplete_total'', ''not_applicable'']) ms (\<lambda>scoring.
     checked_field ''method'' (exactly (JStr ''weighted_levels.v1'')) scoring (\<lambda>_.
     checked_field ''rounding'' (exactly (JStr ''half_up_after_total'')) scoring (\<lambda>_.
     checked_field ''incomplete_total'' (exactly (JStr ''null'')) scoring (\<lambda>_.
     checked_field ''not_applicable'' (exactly (JStr ''requires_approved_exception'')) scoring (\<lambda>_.
     checked_field ''decimal_places_display'' (bounded_int 0 6) scoring (\<lambda>places.
     checked_field ''maximum_points'' (decimal_value 500000) scoring (\<lambda>maximum.
     checked_field ''criteria'' (array 1 50) ms (\<lambda>values.
     rbind (rmapM check_criterion values) (\<lambda>criteria.
     require (distinct (map cr_id criteria))
     (require (dec_eq (total_weight criteria) maximum)
       (Inr \<lparr>rb_course = course, rb_assignment = assignment, rb_id = rubric_id, rb_version = version,
             rb_title = title, rb_places = nat places, rb_maximum = decimal_text maximum,
             rb_criteria = criteria\<rparr>))))))))))))))))))"

definition validate_rubric :: "json \<Rightarrow> rubric rres" where
  "validate_rubric document = rbind (copy_bounded document) check_rubric"

section \<open>The normalised document and its digest\<close>

definition level_json :: "level \<Rightarrow> json" where
  "level_json l = JObj [(''level_id'', JStr (lv_id l)), (''ratio'', JStr (lv_ratio l)),
     (''description'', JStr (lv_description l))]"

fun evaluator_json :: "evaluator \<Rightarrow> (string \<times> json) list" where
  "evaluator_json (Deterministic cases mapped) =
     [(''evaluator_kind'', JStr ''deterministic''),
      (''evidence'', JObj [(''kind'', JStr ''test_case_results''), (''case_ids'', JArr (map JStr cases))]),
      (''rule'', JObj [(''operator'', JStr ''passed_case_count''),
         (''all_cases_must_have_valid_results'', JBool True),
         (''level_by_count'', JObj (zip (count_keys (length cases)) (map JStr mapped)))]),
      (''infrastructure_failure'', JStr ''blocked_not_zero'')]"
| "evaluator_json (Instructor kind) =
     [(''evaluator_kind'', JStr ''instructor''),
      (''evidence'', JObj [(''kind'', JStr kind), (''requires_source_digest'', JBool True),
         (''requires_file_and_line_reference'', JBool True)]),
      (''review_reason_required'', JBool True)]"

definition criterion_json :: "criterion \<Rightarrow> json" where
  "criterion_json c = JObj ([(''criterion_id'', JStr (cr_id c)), (''title'', JStr (cr_title c)),
     (''description'', JStr (cr_description c)), (''maximum_points'', JStr (cr_maximum c)),
     (''required'', JBool True), (''levels'', JArr (map level_json (cr_levels c)))] @
     evaluator_json (cr_evaluator c))"

definition rubric_json :: "rubric \<Rightarrow> json" where
  "rubric_json r = JObj
     [(''schema_version'', JStr ''autograde.rubric.v1''), (''course_key'', JStr (rb_course r)),
      (''assignment_id'', JStr (rb_assignment r)), (''rubric_id'', JStr (rb_id r)),
      (''version'', JInt (rb_version r)), (''title'', JStr (rb_title r)),
      (''scoring'', JObj [(''method'', JStr ''weighted_levels.v1''), (''maximum_points'', JStr (rb_maximum r)),
         (''decimal_places_display'', JInt (int (rb_places r))), (''rounding'', JStr ''half_up_after_total''),
         (''incomplete_total'', JStr ''null''), (''not_applicable'', JStr ''requires_approved_exception'')]),
      (''criteria'', JArr (map criterion_json (rb_criteria r)))]"

text \<open>\<open>canonical\<close> and \<open>content_hash\<close> of values that JSON can say.\<close>

definition canonical :: "json \<Rightarrow> string" where
  "canonical v = (case dumps v of Inl _ \<Rightarrow> [] | Inr t \<Rightarrow> t)"

definition content_hash :: "(string \<Rightarrow> string) \<Rightarrow> json \<Rightarrow> string" where
  "content_hash sha v = sha (canonical v)"

end
