(* ===== verification/Rubric_Evaluation.thy ===== *)
theory Rubric_Evaluation
  imports Rubric_Engine
begin

text \<open>
  The evidence side of \<open>src/src/autograde/rubric_engine.py\<close>: \<open>validate_evidence\<close> against a
  checked rubric, the two evaluator plugins, and \<open>evaluate\<close>. A lookup that the checks make
  succeed keeps its Python failure here, a missing key or an exhausted \<open>next\<close>, so that the
  success is a theorem.
\<close>

section \<open>Checked evidence\<close>

record source_file =
  sf_path :: string
  sf_sha :: string
  sf_lines :: int

datatype case_status = Passed | Failed | InfrastructureFailure | NotFinished

record case_result =
  tr_case :: string
  tr_status :: case_status

record reference =
  rf_path :: string
  rf_sha :: string
  rf_start :: int
  rf_end :: int

record review =
  rv_criterion :: string
  rv_level :: string
  rv_reviewer :: string
  rv_reason :: string
  rv_source :: string
  rv_references :: "reference list"

record evidence =
  ev_course :: string
  ev_assignment :: string
  ev_submission :: string
  ev_source :: string
  ev_run :: string
  ev_rubric :: string
  ev_files :: "source_file list"
  ev_tests :: "case_result list"
  ev_reviews :: "review list"

fun status_text :: "case_status \<Rightarrow> string" where
  "status_text Passed = ''passed''"
| "status_text Failed = ''failed''"
| "status_text InfrastructureFailure = ''infrastructure_error''"
| "status_text NotFinished = ''pending''"

definition case_statuses :: "case_status list" where
  "case_statuses = [Passed, Failed, InfrastructureFailure, NotFinished]"

definition check_status :: "json \<Rightarrow> case_status rres" where
  "check_status v = (case v of JStr s \<Rightarrow>
       (case find (\<lambda>st. status_text st = s) case_statuses of None \<Rightarrow> Inl RubricError | Some st \<Rightarrow> Inr st)
     | _ \<Rightarrow> Inl RubricError)"

definition check_file :: "json \<Rightarrow> source_file rres" where
  "check_file v =
     rbind (object_fields v [''path'', ''sha256'', ''line_count'']) (\<lambda>ms.
     checked_field ''path'' path_value ms (\<lambda>path.
     checked_field ''sha256'' digest_value ms (\<lambda>sha.
     checked_field ''line_count'' (bounded_int 1 1000000) ms (\<lambda>n.
       Inr \<lparr>sf_path = path, sf_sha = sha, sf_lines = n\<rparr>))))"

definition check_case :: "string list \<Rightarrow> json \<Rightarrow> case_result rres" where
  "check_case allowed v =
     rbind (object_fields v [''case_id'', ''status'']) (\<lambda>ms.
     checked_field ''case_id'' identifier_value ms (\<lambda>i.
     require (i \<in> set allowed)
     (checked_field ''status'' check_status ms (\<lambda>st.
       Inr \<lparr>tr_case = i, tr_status = st\<rparr>))))"

definition check_reference :: "source_file list \<Rightarrow> json \<Rightarrow> reference rres" where
  "check_reference files v =
     rbind (object_fields v [''path'', ''sha256'', ''start_line'', ''end_line'']) (\<lambda>ms.
     checked_field ''path'' path_value ms (\<lambda>path.
     checked_field ''sha256'' Inr ms (\<lambda>sha_v.
     checked_field ''start_line'' Inr ms (\<lambda>start_v.
     checked_field ''end_line'' Inr ms (\<lambda>end_v.
       case find (\<lambda>f. sf_path f = path) files of
         None \<Rightarrow> Inl RubricError
       | Some f \<Rightarrow>
           require (sha_v = JStr (sf_sha f))
           (case (start_v, end_v) of
              (JInt a, JInt b) \<Rightarrow> require (1 \<le> a \<and> a \<le> b \<and> b \<le> sf_lines f)
                (Inr \<lparr>rf_path = path, rf_sha = sf_sha f, rf_start = a, rf_end = b\<rparr>)
            | _ \<Rightarrow> Inl RubricError))))))"

definition check_review :: "criterion list \<Rightarrow> string \<Rightarrow> source_file list \<Rightarrow> json \<Rightarrow> review rres" where
  "check_review manual source files v =
     rbind (object_fields v [''criterion_id'', ''level_id'', ''reviewer_id'', ''reason'', ''source_digest'', ''references'']) (\<lambda>ms.
     checked_field ''criterion_id'' identifier_value ms (\<lambda>i.
       case find (\<lambda>c. cr_id c = i) manual of
         None \<Rightarrow> Inl RubricError
       | Some c \<Rightarrow>
     checked_field ''level_id'' (level_reference (cr_levels c)) ms (\<lambda>l.
     checked_field ''reviewer_id'' identifier_value ms (\<lambda>reviewer.
     checked_field ''reason'' (text_value 4000) ms (\<lambda>reason.
     checked_field ''source_digest'' (exactly (JStr source)) ms (\<lambda>_.
     checked_field ''references'' (array 1 20) ms (\<lambda>values.
     rbind (rmapM (check_reference files) values) (\<lambda>refs.
       Inr \<lparr>rv_criterion = i, rv_level = l, rv_reviewer = reviewer, rv_reason = reason,
            rv_source = source, rv_references = refs\<rparr>))))))))"

definition is_deterministic :: "criterion \<Rightarrow> bool" where
  "is_deterministic c = (case cr_evaluator c of Deterministic _ _ \<Rightarrow> True | Instructor _ \<Rightarrow> False)"

definition bound_cases :: "criterion \<Rightarrow> string list" where
  "bound_cases c = (case cr_evaluator c of Deterministic cases _ \<Rightarrow> cases | Instructor _ \<Rightarrow> [])"

definition allowed_cases :: "rubric \<Rightarrow> string list" where
  "allowed_cases r = remdups (concat (map bound_cases (rb_criteria r)))"

definition manual_criteria :: "rubric \<Rightarrow> criterion list" where
  "manual_criteria r = filter (\<lambda>c. \<not> is_deterministic c) (rb_criteria r)"

definition check_evidence :: "(string \<Rightarrow> string) \<Rightarrow> rubric \<Rightarrow> json \<Rightarrow> evidence rres" where
  "check_evidence sha r v =
     rbind (object_fields v [''schema_version'', ''course_key'', ''assignment_id'', ''submission_id'',
       ''source_digest'', ''grading_run_id'', ''rubric_digest'', ''files'', ''tests'', ''reviews'']) (\<lambda>ms.
     checked_field ''schema_version'' (exactly (JStr ''autograde.rubric.evidence.v1'')) ms (\<lambda>_.
     checked_field ''course_key'' (exactly (JStr (rb_course r))) ms (\<lambda>_.
     checked_field ''assignment_id'' (exactly (JStr (rb_assignment r))) ms (\<lambda>_.
     checked_field ''submission_id'' identifier_value ms (\<lambda>submission.
     checked_field ''grading_run_id'' identifier_value ms (\<lambda>run.
     checked_field ''source_digest'' digest_value ms (\<lambda>source.
     checked_field ''rubric_digest'' (exactly (JStr (content_hash sha (rubric_json r)))) ms (\<lambda>_.
     checked_field ''files'' (array 1 1000) ms (\<lambda>file_values.
     rbind (rmapM check_file file_values) (\<lambda>files.
     require (distinct (map sf_path files))
     (checked_field ''tests'' (array 0 (length (allowed_cases r))) ms (\<lambda>test_values.
     rbind (rmapM (check_case (allowed_cases r)) test_values) (\<lambda>tests.
     require (distinct (map tr_case tests))
     (checked_field ''reviews'' (array 0 (length (manual_criteria r))) ms (\<lambda>review_values.
     rbind (rmapM (check_review (manual_criteria r) source files) review_values) (\<lambda>reviews.
     require (distinct (map rv_criterion reviews))
       (Inr \<lparr>ev_course = rb_course r, ev_assignment = rb_assignment r, ev_submission = submission,
             ev_source = source, ev_run = run, ev_rubric = content_hash sha (rubric_json r),
             ev_files = files, ev_tests = tests, ev_reviews = reviews\<rparr>)))))))))))))))))"

definition validate_evidence :: "(string \<Rightarrow> string) \<Rightarrow> json \<Rightarrow> rubric \<Rightarrow> evidence rres" where
  "validate_evidence sha document r = rbind (copy_bounded document) (check_evidence sha r)"

section \<open>The document again\<close>

definition file_json :: "source_file \<Rightarrow> json" where
  "file_json f = JObj [(''path'', JStr (sf_path f)), (''sha256'', JStr (sf_sha f)), (''line_count'', JInt (sf_lines f))]"

definition case_json :: "case_result \<Rightarrow> json" where
  "case_json t = JObj [(''case_id'', JStr (tr_case t)), (''status'', JStr (status_text (tr_status t)))]"

definition reference_json :: "reference \<Rightarrow> json" where
  "reference_json f = JObj [(''path'', JStr (rf_path f)), (''sha256'', JStr (rf_sha f)),
     (''start_line'', JInt (rf_start f)), (''end_line'', JInt (rf_end f))]"

definition review_json :: "review \<Rightarrow> json" where
  "review_json v = JObj [(''criterion_id'', JStr (rv_criterion v)), (''level_id'', JStr (rv_level v)),
     (''reviewer_id'', JStr (rv_reviewer v)), (''reason'', JStr (rv_reason v)),
     (''source_digest'', JStr (rv_source v)), (''references'', JArr (map reference_json (rv_references v)))]"

definition evidence_json :: "evidence \<Rightarrow> json" where
  "evidence_json e = JObj
     [(''schema_version'', JStr ''autograde.rubric.evidence.v1''), (''course_key'', JStr (ev_course e)),
      (''assignment_id'', JStr (ev_assignment e)), (''submission_id'', JStr (ev_submission e)),
      (''source_digest'', JStr (ev_source e)), (''grading_run_id'', JStr (ev_run e)),
      (''rubric_digest'', JStr (ev_rubric e)), (''files'', JArr (map file_json (ev_files e))),
      (''tests'', JArr (map case_json (ev_tests e))), (''reviews'', JArr (map review_json (ev_reviews e)))]"

section \<open>The evaluator plugins\<close>

datatype decision_status = Blocked | Pending | ReviewRequired | Evaluated

record plugin_result =
  pr_status :: decision_status
  pr_level :: "string option"
  pr_reason :: string
  pr_cases :: "string list option"
  pr_review :: "review option"

definition no_level :: "decision_status \<Rightarrow> string \<Rightarrow> plugin_result" where
  "no_level st reason = \<lparr>pr_status = st, pr_level = None, pr_reason = reason, pr_cases = None, pr_review = None\<rparr>"

text \<open>\<open>results.get(key, "pending")\<close> for every bound case.\<close>

definition case_state :: "evidence \<Rightarrow> string \<Rightarrow> case_status" where
  "case_state e k = (case find (\<lambda>t. tr_case t = k) (rev (ev_tests e)) of None \<Rightarrow> NotFinished | Some t \<Rightarrow> tr_status t)"

definition deterministic_result :: "string list \<Rightarrow> string list \<Rightarrow> evidence \<Rightarrow> plugin_result rres" where
  "deterministic_result cases mapped e =
     (let states = map (case_state e) cases in
      if InfrastructureFailure \<in> set states then Inr (no_level Blocked ''infrastructure_error'')
      else if NotFinished \<in> set states then Inr (no_level Pending ''case_result_missing_or_pending'')
      else let n = length (filter (\<lambda>s. s = Passed) states) in
        if n < length mapped
        then Inr \<lparr>pr_status = Evaluated, pr_level = Some (mapped ! n), pr_reason = ''valid_case_count'',
                  pr_cases = Some cases, pr_review = None\<rparr>
        else Inl KeyErr)"

definition instructor_result :: "string \<Rightarrow> evidence \<Rightarrow> plugin_result rres" where
  "instructor_result i e =
     (case find (\<lambda>v. rv_criterion v = i) (ev_reviews e) of
        None \<Rightarrow> Inr (no_level ReviewRequired ''manual_review_missing'')
      | Some v \<Rightarrow> Inr \<lparr>pr_status = Evaluated, pr_level = Some (rv_level v), pr_reason = ''operator_imported_review'',
                       pr_cases = None, pr_review = Some v\<rparr>)"

definition run_plugin :: "criterion \<Rightarrow> evidence \<Rightarrow> plugin_result rres" where
  "run_plugin c e = (case cr_evaluator c of
      Deterministic cases mapped \<Rightarrow> deterministic_result cases mapped e
    | Instructor _ \<Rightarrow> instructor_result (cr_id c) e)"

section \<open>Evaluation\<close>

record decision = plugin_result +
  dn_criterion :: string
  dn_maximum :: string
  dn_earned :: "string option"

record tally =
  tl_earned :: dec
  tl_reviewed :: dec
  tl_decisions :: "decision list"

text \<open>One round of the loop over the criteria.\<close>

definition decide :: "evidence \<Rightarrow> criterion \<Rightarrow> (dec option \<times> decision) rres" where
  "decide e c =
     rbind (run_plugin c e) (\<lambda>p.
       let mk = (\<lambda>earned. \<lparr>pr_status = pr_status p, pr_level = pr_level p, pr_reason = pr_reason p,
            pr_cases = pr_cases p, pr_review = pr_review p, dn_criterion = cr_id c,
            dn_maximum = decimal_text (decimal (cr_maximum c)), dn_earned = earned\<rparr>) in
       if pr_status p = Evaluated then
         (case find (\<lambda>l. Some (lv_id l) = pr_level p) (cr_levels c) of
            None \<Rightarrow> Inl StopIteration
          | Some l \<Rightarrow>
              (let points = dec_mult (decimal (cr_maximum c)) (decimal (lv_ratio l))
               in Inr (Some points, mk (Some (decimal_text points)))))
       else Inr (None, mk None))"

fun tally_up :: "evidence \<Rightarrow> criterion list \<Rightarrow> tally \<Rightarrow> tally rres" where
  "tally_up e [] t = Inr t"
| "tally_up e (c # cs) t =
     rbind (decide e c) (\<lambda>(points, d).
       tally_up e cs (case points of
          None \<Rightarrow> t\<lparr>tl_decisions := tl_decisions t @ [d]\<rparr>
        | Some p \<Rightarrow> \<lparr>tl_earned = dec_add (tl_earned t) p,
                     tl_reviewed = dec_add (tl_reviewed t) (decimal (cr_maximum c)),
                     tl_decisions = tl_decisions t @ [d]\<rparr>))"

definition overall_status :: "decision list \<Rightarrow> decision_status" where
  "overall_status ds =
     (let states = map pr_status ds in
      case find (\<lambda>s. s \<in> set states) [Blocked, Pending, ReviewRequired] of None \<Rightarrow> Evaluated | Some s \<Rightarrow> s)"

record assessment =
  am_course :: string
  am_assignment :: string
  am_rubric :: string
  am_version :: int
  am_rubric_digest :: string
  am_submission :: string
  am_source :: string
  am_run :: string
  am_evidence_digest :: string
  am_status :: decision_status
  am_decisions :: "decision list"
  am_total :: "string option"
  am_display :: "string option"
  am_maximum :: string
  am_partial_earned :: string
  am_partial_maximum :: string

definition assessment_of :: "(string \<Rightarrow> string) \<Rightarrow> rubric \<Rightarrow> evidence \<Rightarrow> tally \<Rightarrow> assessment" where
  "assessment_of sha r e t =
     (let st = overall_status (tl_decisions t); complete = (st = Evaluated) in
      \<lparr>am_course = rb_course r, am_assignment = rb_assignment r, am_rubric = rb_id r, am_version = rb_version r,
       am_rubric_digest = content_hash sha (rubric_json r), am_submission = ev_submission e,
       am_source = ev_source e, am_run = ev_run e, am_evidence_digest = content_hash sha (evidence_json e),
       am_status = st, am_decisions = tl_decisions t,
       am_total = (if complete then Some (decimal_text (tl_earned t)) else None),
       am_display = (if complete then Some (format_f (quantize_half_up (rb_places r) (tl_earned t))) else None),
       am_maximum = rb_maximum r, am_partial_earned = decimal_text (tl_earned t),
       am_partial_maximum = decimal_text (tl_reviewed t)\<rparr>)"

definition evaluate_checked :: "(string \<Rightarrow> string) \<Rightarrow> rubric \<Rightarrow> evidence \<Rightarrow> assessment rres" where
  "evaluate_checked sha r e =
     rbind (tally_up e (rb_criteria r) \<lparr>tl_earned = dec_zero, tl_reviewed = dec_zero, tl_decisions = []\<rparr>) (\<lambda>t.
       Inr (assessment_of sha r e t))"

definition evaluate :: "(string \<Rightarrow> string) \<Rightarrow> json \<Rightarrow> json \<Rightarrow> assessment rres" where
  "evaluate sha rubric_document evidence_document =
     rbind (validate_rubric rubric_document) (\<lambda>r.
     rbind (validate_evidence sha evidence_document r) (\<lambda>e.
       evaluate_checked sha r e))"

end
