(* ===== verification/Rubric_Store.thy ===== *)
theory Rubric_Store
  imports Rubric_Evaluation
begin

text \<open>
  \<open>src/src/autograde/rubric_composition.py\<close>, the profile that selects evaluator plugins, and
  \<open>src/src/autograde/rubric_store.py\<close>, the ledger of registered rubrics and imported assessments.
  A table is the list of its rows in insertion order. The stored document is the checked rubric;
  its text is \<open>canonical (rubric_json r)\<close>. Clocks, fresh ids, the SHA-256 and the answer of the
  privacy guard are parameters.
\<close>

section \<open>The profile\<close>

text \<open>A node of the fixed model: its label, its kind, its attributes and its children.\<close>

datatype node = Node (nd_label: string) (nd_type: string) (nd_attributes: "(string \<times> json) list") (nd_children: "node list")

fun node_json :: "node \<Rightarrow> json" where
  "node_json (Node l t as cs) =
     JObj ([(''label'', JStr l), (''type'', JStr t), (''children'', JArr (map node_json cs))] @ as)"

definition engine_version :: string where "engine_version = ''0.1.0''"

definition variants :: "(string \<times> string list) list" where
  "variants = [(''RuleBasedRubric'', [''deterministic'']), (''InstructorRubric'', [''instructor'']),
     (''HybridRubric'', [''deterministic'', ''instructor''])]"

definition evaluator_node :: "string \<Rightarrow> string \<Rightarrow> node" where
  "evaluator_node variant ev = Node (variant @ ''_'' @ ev) ''entity''
     [(''plugin_id'', JStr (''evaluator.'' @ ev)), (''implementation_version'', JStr engine_version)] []"

definition variant_node :: "string \<Rightarrow> string list \<Rightarrow> node" where
  "variant_node variant evs = Node variant ''entity'' []
     [Node (variant @ ''Components'') ''aspect'' [] (map (evaluator_node variant) evs)]"

definition model_json :: json where
  "model_json = JObj [(''schema_version'', JStr ''autograde.rubric.ses.v1''),
     (''root'', node_json (Node ''RubricAssessment'' ''entity'' []
        [Node ''AssessmentMethod'' ''specialization'' [(''selection'', JStr ''assessment'')]
           (map (\<lambda>(v, evs). variant_node v evs) variants)]))]"

fun scope :: "string \<Rightarrow> node \<Rightarrow> node" where
  "scope course (Node l t as cs) = Node (l @ ''.'' @ course) t as (map (scope course) cs)"

record plan =
  pl_course :: string
  pl_assessment :: string
  pl_evaluators :: "string list"
  pl_digest :: string

definition plan_root :: "string \<Rightarrow> string \<Rightarrow> string list \<Rightarrow> json" where
  "plan_root course choice evs =
     (case scope course (Node ''RubricAssessment'' ''entity'' [(''specialized_as'', JStr choice)]
         (nd_children (variant_node choice evs))) of n \<Rightarrow> node_json n)"

text \<open>The plan without its own digest.\<close>

definition plan_json :: "(string \<Rightarrow> string) \<Rightarrow> json \<Rightarrow> string \<Rightarrow> string \<Rightarrow> string list \<Rightarrow> json" where
  "plan_json sha profile course choice evs = JObj
     [(''schema_version'', JStr ''autograde.rubric.pes-preview.v1''), (''root'', plan_root course choice evs),
      (''course_key'', JStr course), (''assessment'', JStr choice), (''evaluators'', JArr (map JStr evs)),
      (''model_digest'', JStr (content_hash sha model_json)),
      (''profile_digest'', JStr (content_hash sha profile)), (''engine_version'', JStr engine_version),
      (''local_evaluation_ready'', JBool True), (''runtime_ready'', JBool False),
      (''server_connected'', JBool False), (''evidence_source'', JStr ''offline_operator_import''),
      (''side_effects'', JStr ''none''),
      (''requires_for_server_activation'', JArr (map JStr
         [''personal_instructor_auth'', ''trusted_evidence_adapter'', ''platform_plugin_host'']))]"

definition compile_profile :: "(string \<Rightarrow> string) \<Rightarrow> json \<Rightarrow> plan rres" where
  "compile_profile sha profile =
     rbind (object_fields profile [''schema_version'', ''course_key'', ''assessment'']) (\<lambda>ms.
     checked_field ''schema_version'' (exactly (JStr ''autograde.rubric.profile.v1'')) ms (\<lambda>_.
     checked_field ''course_key'' identifier_value ms (\<lambda>course.
     checked_field ''assessment'' Inr ms (\<lambda>v.
       case v of
         JStr choice \<Rightarrow>
           (case map_of variants choice of
              None \<Rightarrow> Inl RubricError
            | Some evs \<Rightarrow> Inr \<lparr>pl_course = course, pl_assessment = choice, pl_evaluators = evs,
                             pl_digest = content_hash sha (plan_json sha profile course choice evs)\<rparr>)
       | _ \<Rightarrow> Inl RubricError))))"

definition kind_name :: "criterion \<Rightarrow> string" where
  "kind_name c = (if is_deterministic c then ''deterministic'' else ''instructor'')"

definition require_compatible :: "plan \<Rightarrow> rubric \<Rightarrow> unit rres" where
  "require_compatible plan r =
     require (pl_course plan = rb_course r)
     (require (kind_name ` set (rb_criteria r) \<subseteq> set (pl_evaluators plan)) (Inr ()))"

section \<open>The tables\<close>

record version_row =
  vr_course :: string
  vr_rubric :: string
  vr_version :: int
  vr_digest :: string
  vr_document :: rubric
  vr_registered_by :: string
  vr_registered_at :: string
  vr_approval :: "(string \<times> string) option"

record receipt_row =
  rc_course :: string
  rc_submission :: string
  rc_assignment :: string
  rc_source :: string
  rc_files :: string

record test_run_row =
  te_course :: string
  te_submission :: string
  te_run :: string
  te_rubric :: string
  te_tests :: string

record stored_assessment = assessment +
  sa_id :: string
  sa_created :: string
  sa_actor :: string
  sa_plan :: string

record assessment_row =
  ra_course :: string
  ra_submission :: string
  ra_request :: string
  ra_request_digest :: string
  ra_result :: stored_assessment

record audit_row =
  au_action :: string
  au_course :: string
  au_actor :: string
  au_ref :: string
  au_at :: string

record rubric_db =
  versions :: "version_row list"
  receipts :: "receipt_row list"
  test_runs :: "test_run_row list"
  assessments :: "assessment_row list"
  audits :: "audit_row list"

definition init_rubric_db :: rubric_db where
  "init_rubric_db = \<lparr>versions = [], receipts = [], test_runs = [], assessments = [], audits = []\<rparr>"

text \<open>One transaction: the state of a failed one is rolled back.\<close>

definition commit :: "(rubric_db \<Rightarrow> ('a \<times> rubric_db) rres) \<Rightarrow> rubric_db \<Rightarrow> 'a rres \<times> rubric_db" where
  "commit body db = (case body db of Inl e \<Rightarrow> (Inl e, db) | Inr (a, db') \<Rightarrow> (Inr a, db'))"

definition audit :: "string \<Rightarrow> string \<Rightarrow> string \<Rightarrow> string \<Rightarrow> string \<Rightarrow> rubric_db \<Rightarrow> rubric_db" where
  "audit at_time action course actor ref db =
     db\<lparr>audits := audits db @ [\<lparr>au_action = action, au_course = course, au_actor = actor, au_ref = ref, au_at = at_time\<rparr>]\<rparr>"

definition version_key :: "version_row \<Rightarrow> string \<times> string \<times> int" where
  "version_key r = (vr_course r, vr_rubric r, vr_version r)"

definition named :: "string \<Rightarrow> 'a rres \<Rightarrow> 'a rres" where
  "named s r = require (is_identifier s) r"

definition read_version :: "(string \<Rightarrow> string) \<Rightarrow> string \<Rightarrow> string \<Rightarrow> int \<Rightarrow> rubric_db \<Rightarrow> version_row rres" where
  "read_version sha course rubric_id version db =
     named course (named rubric_id (require (0 < version)
       (case find (\<lambda>r. version_key r = (course, rubric_id, version)) (versions db) of
          None \<Rightarrow> Inl RubricNotFound
        | Some r \<Rightarrow> require (content_hash sha (rubric_json (vr_document r)) = vr_digest r) (Inr r))))"

section \<open>Registration and approval\<close>

definition register_body :: "(string \<Rightarrow> string) \<Rightarrow> string \<Rightarrow> rubric \<Rightarrow> string \<Rightarrow> rubric_db \<Rightarrow> (version_row \<times> rubric_db) rres" where
  "register_body sha at_time r actor db =
     (let digest = content_hash sha (rubric_json r); key = (rb_course r, rb_id r, rb_version r) in
      rbind (case find (\<lambda>x. version_key x = key) (versions db) of
          Some x \<Rightarrow> (if vr_digest x \<noteq> digest then Inl RubricConflict else Inr db)
        | None \<Rightarrow> Inr (audit at_time ''registered'' (rb_course r) actor digest
            (db\<lparr>versions := versions db @ [\<lparr>vr_course = rb_course r, vr_rubric = rb_id r, vr_version = rb_version r,
               vr_digest = digest, vr_document = r, vr_registered_by = actor, vr_registered_at = at_time,
               vr_approval = None\<rparr>]\<rparr>))) (\<lambda>db'.
      rbind (read_version sha (rb_course r) (rb_id r) (rb_version r) db') (\<lambda>row. Inr (row, db'))))"

definition register :: "(string \<Rightarrow> string) \<Rightarrow> string \<Rightarrow> json \<Rightarrow> string \<Rightarrow> rubric_db \<Rightarrow> version_row rres \<times> rubric_db" where
  "register sha at_time document actor db =
     (case named actor (validate_rubric document) of
        Inl e \<Rightarrow> (Inl e, db)
      | Inr r \<Rightarrow> commit (register_body sha at_time r actor) db)"

definition get_rubric :: "(string \<Rightarrow> string) \<Rightarrow> string \<Rightarrow> string \<Rightarrow> int \<Rightarrow> rubric_db \<Rightarrow> version_row rres" where
  "get_rubric sha course rubric_id version db = read_version sha course rubric_id version db"

text \<open>\<open>ORDER BY registered_at DESC, rubric_id, version DESC LIMIT 20 OFFSET ?\<close>, one page of a course.\<close>

record page =
  pg_items :: "version_row list"
  pg_count :: int
  pg_page :: int
  pg_pages :: int

definition catalog_order :: "version_row list \<Rightarrow> version_row list" where
  "catalog_order rows =
     rev (sort_key vr_registered_at (rev (sort_key vr_rubric (sort_key (\<lambda>r. - vr_version r) rows))))"

definition list_versions :: "(string \<Rightarrow> string) \<Rightarrow> string \<Rightarrow> int \<Rightarrow> rubric_db \<Rightarrow> page rres" where
  "list_versions sha course page db =
     named course (require (1 \<le> page \<and> page \<le> 10000)
       (let rows = filter (\<lambda>r. vr_course r = course) (versions db);
            count = int (length rows);
            pages = max 1 ((count + 19) div 20);
            shown = min page pages;
            keys = take 20 (drop (nat ((shown - 1) * 20)) (catalog_order rows))
        in rbind (rmapM (\<lambda>r. read_version sha course (vr_rubric r) (vr_version r) db) keys) (\<lambda>items.
             Inr \<lparr>pg_items = items, pg_count = count, pg_page = shown, pg_pages = pages\<rparr>)))"

definition approve_body ::
  "(string \<Rightarrow> string) \<Rightarrow> string \<Rightarrow> string \<Rightarrow> string \<Rightarrow> int \<Rightarrow> string \<Rightarrow> string \<Rightarrow> rubric_db \<Rightarrow> (version_row \<times> rubric_db) rres" where
  "approve_body sha at_time course rubric_id version expected_digest actor db =
     rbind (read_version sha course rubric_id version db) (\<lambda>row.
     rbind (if vr_digest row \<noteq> expected_digest then Inl RubricConflict
            else if vr_approval row = None then
              Inr (audit at_time ''approved_by_local_operator'' course actor expected_digest
                (db\<lparr>versions := map (\<lambda>r. if version_key r = (course, rubric_id, version)
                     then r\<lparr>vr_approval := Some (actor, at_time)\<rparr> else r) (versions db)\<rparr>))
            else Inr db) (\<lambda>db'.
     rbind (read_version sha course rubric_id version db') (\<lambda>row'. Inr (row', db'))))"

definition approve ::
  "(string \<Rightarrow> string) \<Rightarrow> string \<Rightarrow> string \<Rightarrow> string \<Rightarrow> int \<Rightarrow> string \<Rightarrow> string \<Rightarrow> rubric_db \<Rightarrow> version_row rres \<times> rubric_db" where
  "approve sha at_time course rubric_id version expected_digest actor db =
     (if \<not> is_identifier actor then (Inl RubricError, db)
      else commit (approve_body sha at_time course rubric_id version expected_digest actor) db)"

section \<open>Assessment\<close>

text \<open>What is computed from one reading of the database, before the write transaction.\<close>

record prepared =
  pp_course :: string
  pp_rubric :: string
  pp_version :: int
  pp_row :: version_row
  pp_evidence :: evidence
  pp_result :: assessment
  pp_plan :: plan
  pp_request :: string
  pp_actor :: string
  pp_request_digest :: string

definition request_json :: "string \<Rightarrow> string \<Rightarrow> string \<Rightarrow> string \<Rightarrow> json" where
  "request_json rubric_digest evidence_digest plan_digest actor = JObj
     [(''rubric'', JStr rubric_digest), (''evidence'', JStr evidence_digest),
      (''plan'', JStr plan_digest), (''actor'', JStr actor)]"

definition prepare ::
  "(string \<Rightarrow> string) \<Rightarrow> string \<Rightarrow> string \<Rightarrow> int \<Rightarrow> json \<Rightarrow> json \<Rightarrow> string \<Rightarrow> string \<Rightarrow> rubric_db \<Rightarrow> prepared rres" where
  "prepare sha course rubric_id version profile evidence_document request actor db =
     named actor (named request (
     rbind (compile_profile sha profile) (\<lambda>plan.
     rbind (get_rubric sha course rubric_id version db) (\<lambda>row.
     require (vr_approval row \<noteq> None) (
     rbind (require_compatible plan (vr_document row)) (\<lambda>_.
     rbind (validate_evidence sha evidence_document (vr_document row)) (\<lambda>e.
     rbind (evaluate sha (rubric_json (vr_document row)) (evidence_json e)) (\<lambda>result.
       Inr \<lparr>pp_course = course, pp_rubric = rubric_id, pp_version = version, pp_row = row,
            pp_evidence = e, pp_result = result, pp_plan = plan, pp_request = request, pp_actor = actor,
            pp_request_digest = content_hash sha
              (request_json (vr_digest row) (am_evidence_digest result) (pl_digest plan) actor)\<rparr>))))))))"

definition files_digest :: "(string \<Rightarrow> string) \<Rightarrow> evidence \<Rightarrow> string" where
  "files_digest sha e = content_hash sha (JArr (map file_json (sort_key sf_path (ev_files e))))"

definition tests_digest :: "(string \<Rightarrow> string) \<Rightarrow> evidence \<Rightarrow> string" where
  "tests_digest sha e = content_hash sha (JArr (map case_json (sort_key tr_case (ev_tests e))))"

text \<open>The pattern of both bindings: a row of the same key must hold the same values, and is
  inserted when there is none.\<close>

definition bind_row :: "('r \<Rightarrow> 'k) \<Rightarrow> ('r \<Rightarrow> 'v) \<Rightarrow> 'r \<Rightarrow> 'r list \<Rightarrow> 'r list rres" where
  "bind_row key val new rows =
     (case find (\<lambda>x. key x = key new) rows of
        Some x \<Rightarrow> (if val x \<noteq> val new then Inl RubricConflict else Inr rows)
      | None \<Rightarrow> Inr (rows @ [new]))"

definition receipt_key :: "receipt_row \<Rightarrow> string \<times> string" where
  "receipt_key x = (rc_course x, rc_submission x)"

definition receipt_value :: "receipt_row \<Rightarrow> string \<times> string \<times> string" where
  "receipt_value x = (rc_assignment x, rc_source x, rc_files x)"

definition run_key :: "test_run_row \<Rightarrow> string \<times> string \<times> string \<times> string" where
  "run_key x = (te_course x, te_submission x, te_run x, te_rubric x)"

text \<open>A submission stays bound to the source references it was first assessed with, and a grading
  run to the test results it was first imported with.\<close>

definition receipt_of :: "(string \<Rightarrow> string) \<Rightarrow> prepared \<Rightarrow> receipt_row" where
  "receipt_of sha p = \<lparr>rc_course = pp_course p, rc_submission = am_submission (pp_result p),
     rc_assignment = rb_assignment (vr_document (pp_row p)), rc_source = am_source (pp_result p),
     rc_files = files_digest sha (pp_evidence p)\<rparr>"

definition test_run_of :: "(string \<Rightarrow> string) \<Rightarrow> prepared \<Rightarrow> test_run_row" where
  "test_run_of sha p = \<lparr>te_course = pp_course p, te_submission = am_submission (pp_result p),
     te_run = am_run (pp_result p), te_rubric = vr_digest (pp_row p), te_tests = tests_digest sha (pp_evidence p)\<rparr>"

definition bind_source :: "(string \<Rightarrow> string) \<Rightarrow> prepared \<Rightarrow> rubric_db \<Rightarrow> rubric_db rres" where
  "bind_source sha p db =
     rbind (bind_row receipt_key receipt_value (receipt_of sha p) (receipts db)) (\<lambda>rs. Inr (db\<lparr>receipts := rs\<rparr>))"

definition bind_tests :: "(string \<Rightarrow> string) \<Rightarrow> prepared \<Rightarrow> rubric_db \<Rightarrow> rubric_db rres" where
  "bind_tests sha p db =
     rbind (bind_row run_key te_tests (test_run_of sha p) (test_runs db)) (\<lambda>rs. Inr (db\<lparr>test_runs := rs\<rparr>))"

definition stored :: "string \<Rightarrow> string \<Rightarrow> prepared \<Rightarrow> stored_assessment" where
  "stored at_time fresh p = assessment.extend (pp_result p)
     (stored_assessment.fields (''rubric_'' @ fresh) at_time (pp_actor p) (pl_digest (pp_plan p)))"

definition request_key :: "assessment_row \<Rightarrow> string \<times> string \<times> string" where
  "request_key x = (ra_course x, ra_submission x, ra_request x)"

definition insert_assessment :: "string \<Rightarrow> string \<Rightarrow> prepared \<Rightarrow> rubric_db \<Rightarrow> rubric_db rres" where
  "insert_assessment at_time fresh p db =
     (let result = stored at_time fresh p in
      if sa_id result \<in> (\<lambda>x. sa_id (ra_result x)) ` set (assessments db) then Inl IntegrityErr
      else Inr (db\<lparr>assessments := assessments db @
        [\<lparr>ra_course = pp_course p, ra_submission = am_submission (pp_result p), ra_request = pp_request p,
          ra_request_digest = pp_request_digest p, ra_result = result\<rparr>]\<rparr>))"

definition assess_body ::
  "(string \<Rightarrow> string) \<Rightarrow> string \<Rightarrow> string \<Rightarrow> prepared \<Rightarrow> rubric_db \<Rightarrow> (stored_assessment \<times> rubric_db) rres" where
  "assess_body sha at_time fresh p db =
     rbind (read_version sha (pp_course p) (pp_rubric p) (pp_version p) db) (\<lambda>current.
     require (vr_digest current = vr_digest (pp_row p) \<and> vr_approval current \<noteq> None)
     (case find (\<lambda>x. request_key x = (pp_course p, am_submission (pp_result p), pp_request p)) (assessments db) of
        Some x \<Rightarrow> (if ra_request_digest x \<noteq> pp_request_digest p then Inl RubricConflict else Inr (ra_result x, db))
      | None \<Rightarrow>
          rbind (bind_source sha p db) (\<lambda>db1.
          rbind (bind_tests sha p db1) (\<lambda>db2.
          rbind (insert_assessment at_time fresh p db2) (\<lambda>db3.
            let result = stored at_time fresh p
            in Inr (result, audit at_time ''assessed_offline'' (pp_course p) (pp_actor p) (sa_id result) db3))))))"

text \<open>\<open>assess\<close>: \<open>before\<close> is the database \<open>get_rubric\<close> read, \<open>db\<close> the one the transaction finds.\<close>

definition assess ::
  "(string \<Rightarrow> string) \<Rightarrow> (string \<Rightarrow> bool) \<Rightarrow> string \<Rightarrow> string \<Rightarrow> rubric_db \<Rightarrow> string \<Rightarrow> string \<Rightarrow> int \<Rightarrow> json \<Rightarrow> json \<Rightarrow>
   string \<Rightarrow> string \<Rightarrow> rubric_db \<Rightarrow> stored_assessment rres \<times> rubric_db" where
  "assess sha erased at_time fresh before course rubric_id version profile evidence_document request actor db =
     (if erased course then (Inl RubricConflict, db)
      else case prepare sha course rubric_id version profile evidence_document request actor before of
        Inl e \<Rightarrow> (Inl e, db)
      | Inr p \<Rightarrow> commit (assess_body sha at_time fresh p) db)"

definition get_assessment :: "string \<Rightarrow> string \<Rightarrow> rubric_db \<Rightarrow> stored_assessment rres" where
  "get_assessment course assessment_id db =
     named course (named assessment_id
       (case find (\<lambda>x. ra_course x = course \<and> sa_id (ra_result x) = assessment_id) (assessments db) of
          None \<Rightarrow> Inl RubricError | Some x \<Rightarrow> Inr (ra_result x)))"

end
