(* ===== verification/Rubric_Lemmas.thy ===== *)
theory Rubric_Lemmas
  imports Rubric_Evaluation
begin

text \<open>
  Lemmas of the rubric engine: the decimals as rational numbers, the texts of decimals read back,
  what a checked rubric is, and what the evaluation of checked evidence computes.
\<close>

section \<open>Decimals are rationals\<close>

lemma scaled_value: "dec_places d \<le> k \<Longrightarrow> of_nat (scaled k d) = dec_value d * (10::rat) ^ k"
proof -
  assume "dec_places d \<le> k"
  then have "(10::rat) ^ k = 10 ^ dec_places d * 10 ^ (k - dec_places d)"
    by (simp flip: power_add)
  then show ?thesis by (simp add: scaled_def dec_value_def)
qed

lemma dec_le_iff [simp]: "dec_le a b \<longleftrightarrow> dec_value a \<le> dec_value b"
proof -
  let ?k = "max (dec_places a) (dec_places b)"
  have "dec_le a b \<longleftrightarrow> (of_nat (scaled ?k a) :: rat) \<le> of_nat (scaled ?k b)"
    by (simp add: dec_le_def Let_def)
  also have "\<dots> \<longleftrightarrow> dec_value a * (10::rat) ^ ?k \<le> dec_value b * 10 ^ ?k"
    by (simp add: scaled_value)
  finally show ?thesis by simp
qed

lemma dec_less_iff [simp]: "dec_less a b \<longleftrightarrow> dec_value a < dec_value b"
  by (simp add: dec_less_def not_le)

lemma dec_eq_iff [simp]: "dec_eq a b \<longleftrightarrow> dec_value a = dec_value b"
  by (auto simp: dec_eq_def)

lemma dec_value_zero [simp]: "dec_value dec_zero = 0"
  and dec_value_one [simp]: "dec_value dec_one = 1"
  and dec_value_whole [simp]: "dec_value (Dec n 0) = of_nat n"
  by (simp_all add: dec_value_def)

lemma dec_value_add [simp]: "dec_value (dec_add a b) = dec_value a + dec_value b"
proof -
  let ?k = "max (dec_places a) (dec_places b)"
  have "dec_value (dec_add a b) = (of_nat (scaled ?k a) + of_nat (scaled ?k b)) / (10::rat) ^ ?k"
    by (simp add: dec_add_def Let_def dec_value_def)
  also have "\<dots> = dec_value a + dec_value b"
    by (simp add: scaled_value distrib_right [symmetric])
  finally show ?thesis .
qed

lemma dec_value_mult [simp]: "dec_value (dec_mult a b) = dec_value a * dec_value b"
  by (simp add: dec_mult_def dec_value_def power_add)

lemma dec_value_nonneg [simp]: "0 \<le> dec_value d"
  by (simp add: dec_value_def)

section \<open>Texts of decimals\<close>

lemma split_on_none: "d \<notin> set s \<Longrightarrow> split_on d s = [s]"
  by (induction s) auto

lemma split_on_at: "d \<notin> set s \<Longrightarrow> split_on d (s @ d # t) = s # split_on d t"
  by (induction s) auto

lemma dot_not_digit: "k < 10 \<Longrightarrow> digit_char k \<noteq> CHR ''.''"
  using of_char_digit_char [of k] by auto

lemma dot_free: "CHR ''.'' \<notin> set (show_nat n)" "CHR ''.'' \<notin> set (digits k n)"
  using set_show_nat set_digits dot_not_digit by metis+

lemma read_nat_digits: "n < 10 ^ k \<Longrightarrow> read_nat a (digits k n @ r) = read_nat (a * 10 ^ k + n) r"
proof (induction k arbitrary: n r)
  case (Suc k)
  have d: "n div 10 < 10 ^ k" using Suc.prems by (simp add: div_less_iff_less_mult)
  have "char_digit (digit_char (n mod 10)) = Some (n mod 10)" by simp
  then show ?case
    using Suc.IH [OF d, of "digit_char (n mod 10) # r"] by (simp add: algebra_simps)
qed simp

definition pointed :: "nat \<Rightarrow> nat \<Rightarrow> string" where
  "pointed c k = show_nat (c div 10 ^ k) @ CHR ''.'' # digits k (c mod 10 ^ k)"

lemma pointed_Suc: "pointed c (Suc k) = pointed (c div 10) k @ [digit_char (c mod 10)]"
proof -
  have "c mod (10 * 10 ^ k) div 10 = c div 10 mod 10 ^ k"
    by (simp add: mod_mult2_eq)
  moreover have "c mod (10 * 10 ^ k) mod 10 = c mod 10"
    by (simp add: mod_mult2_eq)
  ultimately show ?thesis by (simp add: pointed_def div_mult2_eq)
qed

fun without_zeros :: "nat \<Rightarrow> nat \<Rightarrow> dec" where
  "without_zeros c 0 = Dec c 0"
| "without_zeros c (Suc k) = (if c mod 10 = 0 then without_zeros (c div 10) k else Dec c (Suc k))"

lemma rstrip_snoc: "rstrip_char x (s @ [y]) = (if y = x then rstrip_char x s else s @ [y])"
  by (simp add: rstrip_char_def)

lemma zero_digit: "k < 10 \<Longrightarrow> digit_char k = CHR ''0'' \<longleftrightarrow> k = 0"
proof -
  assume "k < 10"
  moreover have "digit_char 0 = CHR ''0''" by code_simp
  ultimately show ?thesis using digit_char_eq_iff [of k 0] by simp
qed

lemma rstrip_pointed:
  "rstrip_char (CHR ''0'') (pointed c k) =
     pointed (dec_digits (without_zeros c k)) (dec_places (without_zeros c k))"
proof (induction k arbitrary: c)
  case 0
  have "pointed c 0 = show_nat c @ [CHR ''.'']" by (simp add: pointed_def)
  then show ?case by (simp add: rstrip_snoc)
next
  case (Suc k)
  have "digit_char (c mod 10) = CHR ''0'' \<longleftrightarrow> c mod 10 = 0" by (intro zero_digit) simp
  then show ?case using Suc.IH [of "c div 10"] by (simp add: pointed_Suc rstrip_snoc)
qed

lemma format_pointed: "format_f (Dec c (Suc k)) = pointed c (Suc k)"
  by (simp add: format_f_def pointed_def)

lemma rstrip_dot:
  "rstrip_char (CHR ''.'') (pointed c k) = format_f (Dec c k)"
proof (cases k)
  case 0
  have "rstrip_char (CHR ''.'') (show_nat c) = show_nat c"
  proof -
    obtain xs x where "show_nat c = xs @ [x]" by (metis show_nat_not_Nil rev_exhaust)
    then show ?thesis using dot_free(1) [of c] by (auto simp: rstrip_snoc)
  qed
  then show ?thesis by (simp add: 0 pointed_def format_f_def rstrip_snoc)
next
  case (Suc j)
  have "digit_char (c mod 10) \<noteq> CHR ''.''" by (intro dot_not_digit) simp
  then show ?thesis by (simp add: Suc format_pointed) (simp add: pointed_Suc rstrip_snoc)
qed

lemma decimal_text_eq: "decimal_text (Dec c k) = format_f (without_zeros c k)"
proof (cases k)
  case 0
  then show ?thesis using dot_free(1) [of c] by (simp add: decimal_text_def format_f_def)
next
  case (Suc j)
  have "CHR ''.'' \<in> set (format_f (Dec c k))" by (simp add: Suc format_f_def)
  then show ?thesis
    by (simp add: decimal_text_def Suc format_pointed rstrip_pointed rstrip_dot del: without_zeros.simps)
qed

lemma decimal_format: "decimal (format_f d) = d"
proof -
  obtain c k where d: "d = Dec c k" by (cases d)
  show ?thesis
  proof (cases k)
    case 0
    then show ?thesis using dot_free(1) [of c]
      by (simp add: d format_f_def decimal_def split_on_none read_nat_show_nat)
  next
    case (Suc j)
    let ?a = "c div 10 ^ k" and ?b = "c mod 10 ^ k"
    have "split_on (CHR ''.'') (format_f d) = [show_nat ?a, digits k ?b]"
      by (simp add: d format_f_def Suc split_on_at dot_free split_on_none del: digits.simps)
    moreover have "read_nat 0 (show_nat ?a @ digits k ?b) = c"
    proof -
      have "char_digit x \<noteq> None" if "x \<in> set (show_nat ?a)" for x
        using set_show_nat [OF that] by auto
      then have "read_nat 0 (show_nat ?a @ digits k ?b) = read_nat ?a (digits k ?b @ [])"
        by (simp add: read_nat_append read_nat_show_nat)
      also have "\<dots> = ?a * 10 ^ k + ?b" by (subst read_nat_digits) simp_all
      finally show ?thesis by (simp add: div_mult_mod_eq)
    qed
    ultimately show ?thesis by (simp add: decimal_def d)
  qed
qed

lemma without_zeros_value [simp]: "dec_value (without_zeros c k) = dec_value (Dec c k)"
proof (induction k arbitrary: c)
  case (Suc k)
  show ?case
  proof (cases "c mod 10 = 0")
    case True
    then obtain b where b: "c = 10 * b" by auto
    then show ?thesis using Suc [of b] by (simp add: dec_value_def)
  qed simp
qed simp

lemma decimal_text_value [simp]: "dec_value (decimal (decimal_text d)) = dec_value d"
  by (cases d) (simp add: decimal_text_eq decimal_format)

lemma decimal_text_again: "decimal_text (decimal (decimal_text d)) = decimal_text d"
proof -
  have "decimal_text (without_zeros c k) = format_f (without_zeros c k)" for c k
    by (induction c k rule: without_zeros.induct) (auto simp: decimal_text_eq)
  then show ?thesis by (cases d) (simp add: decimal_text_eq decimal_format)
qed

section \<open>Only \<open>RubricError\<close> is raised by a validation\<close>

definition safe :: "'a rres \<Rightarrow> bool" where
  "safe r = (\<forall>e. r = Inl e \<longrightarrow> e = RubricError)"

lemma safe_Inr: "safe (Inr x)" and safe_Inl: "safe (Inl RubricError)"
  by (simp_all add: safe_def)

lemma safe_rbind: "safe r \<Longrightarrow> (\<And>y. r = Inr y \<Longrightarrow> safe (f y)) \<Longrightarrow> safe (rbind r f)"
  by (auto simp: safe_def rbind_Inl_iff)

lemma safe_require: "(b \<Longrightarrow> safe r) \<Longrightarrow> safe (require b r)"
  by (simp add: safe_def require_def)

lemma safe_rmapM: "(\<And>x. x \<in> set xs \<Longrightarrow> safe (f x)) \<Longrightarrow> safe (rmapM f xs)"
  by (induction xs) (auto intro: safe_Inr safe_rbind)

lemma safe_object: "safe (object_fields v expected)"
  by (cases v) (auto simp: object_fields_def intro: safe_Inr safe_Inl safe_require)

lemma object_fields_keys: "object_fields v expected = Inr ms \<Longrightarrow> fst ` set ms = set expected \<and> v = JObj ms"
  by (cases v) (auto simp: object_fields_def same_fields_def)

lemma safe_field:
  assumes "k \<in> fst ` set ms" and "\<And>v. safe (check v)" and "\<And>v x. check v = Inr x \<Longrightarrow> safe (f x)"
  shows "safe (checked_field k check ms f)"
proof -
  obtain v where "map_of ms k = Some v" using assms(1) by (cases "map_of ms k") (auto simp: map_of_eq_None_iff)
  then show ?thesis using assms(2,3) by (auto simp: checked_field_def member_def intro!: safe_rbind)
qed

lemma checked_field_Inr_iff:
  "checked_field k check ms f = Inr y \<longleftrightarrow> (\<exists>v x. map_of ms k = Some v \<and> check v = Inr x \<and> f x = Inr y)"
  by (auto simp: checked_field_def member_def rbind_Inr_iff split: option.splits)

lemma safe_values: "safe (identifier_value v)" "safe (digest_value v)" "safe (text_value n v)" "safe (path_value v)"
  "safe (bounded_int lo hi v)" "safe (array a b v)" "safe (exactly x v)" "safe (decimal_value m v)"
  "safe (level_reference ls v)" "safe (review_kind v)" "safe (check_status v)" "safe (evaluator_kind v)"
  by (cases v; auto simp: identifier_value_def digest_value_def text_value_def path_value_def bounded_int_def
      array_def exactly_def decimal_value_def level_reference_def review_kind_def check_status_def
      evaluator_kind_def split: option.split intro!: safe_Inr safe_Inl safe_require)+

lemmas safe_intros = safe_Inr safe_Inl safe_values safe_object safe_rmapM safe_require safe_rbind safe_field

lemma safe_copy: "safe (copy_bounded v)"
  by (auto simp: copy_bounded_def split: sum.split intro: safe_intros)

lemma safe_level: "safe (check_level v)"
  unfolding check_level_def by (intro safe_intros) (auto dest!: object_fields_keys)

lemma safe_levels: "safe (check_levels v)"
  unfolding check_levels_def by (intro safe_intros safe_level)

lemma safe_deterministic:
  assumes "{''evidence'', ''rule'', ''infrastructure_failure''} \<subseteq> fst ` set ms"
  shows "safe (check_deterministic ls ms)"
  unfolding check_deterministic_def
  by (intro safe_intros) (use assms in \<open>auto dest!: object_fields_keys intro!: safe_intros\<close>)

lemma safe_instructor:
  assumes "{''evidence'', ''review_reason_required''} \<subseteq> fst ` set ms"
  shows "safe (check_instructor ms)"
  unfolding check_instructor_def
  by (intro safe_intros) (use assms in \<open>auto dest!: object_fields_keys\<close>)

lemma safe_criterion: "safe (check_criterion v)"
  unfolding check_criterion_def
  by (intro safe_intros safe_levels)
    (auto dest!: object_fields_keys simp: criterion_fields_def intro!: safe_deterministic safe_instructor)

lemma safe_check_rubric: "safe (check_rubric v)"
  unfolding check_rubric_def
  by (intro safe_intros safe_criterion) (auto dest!: object_fields_keys)

lemma safe_reference: "safe (check_reference fs v)"
  unfolding check_reference_def
  by (intro safe_intros) (auto dest!: object_fields_keys split: option.split json.split intro!: safe_intros)

lemma safe_review: "safe (check_review cs src fs v)"
  unfolding check_review_def
  by (intro safe_intros)
    (auto dest!: object_fields_keys split: option.split intro!: safe_intros safe_reference)

lemma safe_check_evidence: "safe (check_evidence sha r v)"
  unfolding check_evidence_def check_file_def check_case_def
  by (intro safe_intros safe_review) (auto dest!: object_fields_keys)

lemma safe_validate_rubric: "safe (validate_rubric v)"
  unfolding validate_rubric_def by (intro safe_rbind safe_copy safe_check_rubric)

lemma safe_validate_evidence: "safe (validate_evidence sha v r)"
  unfolding validate_evidence_def by (intro safe_rbind safe_copy safe_check_evidence)

section \<open>What a checked rubric is\<close>

abbreviation text_number :: "string \<Rightarrow> rat" where
  "text_number s \<equiv> dec_value (decimal s)"

definition evaluator_ok :: "level list \<Rightarrow> evaluator \<Rightarrow> bool" where
  "evaluator_ok levels ev = (case ev of
      Deterministic cases mapped \<Rightarrow> distinct cases \<and> length mapped = Suc (length cases) \<and>
        set mapped \<subseteq> lv_id ` set levels \<and> monotone_rule levels mapped
    | Instructor kind \<Rightarrow> True)"

definition criterion_ok :: "criterion \<Rightarrow> bool" where
  "criterion_ok c = (0 < text_number (cr_maximum c) \<and> cr_levels c \<noteq> [] \<and> levels_scale (cr_levels c) \<and>
     evaluator_ok (cr_levels c) (cr_evaluator c))"

definition rubric_ok :: "rubric \<Rightarrow> bool" where
  "rubric_ok r = (list_all criterion_ok (rb_criteria r) \<and> distinct (map cr_id (rb_criteria r)) \<and>
     dec_value (total_weight (rb_criteria r)) = text_number (rb_maximum r))"

lemma rmapM_Inr_all: "rmapM f xs = Inr ys \<Longrightarrow> y \<in> set ys \<Longrightarrow> \<exists>x\<in>set xs. f x = Inr y"
  by (induction xs arbitrary: ys) (auto simp: rbind_Inr_iff)

lemma level_reference_Inr: "level_reference ls v = Inr l \<Longrightarrow> l \<in> lv_id ` set ls"
  by (cases v) (auto simp: level_reference_def)

lemma check_levels_ok: "check_levels v = Inr ls \<Longrightarrow> ls \<noteq> [] \<and> levels_scale ls"
  by (cases v) (auto simp: check_levels_def array_def rbind_Inr_iff dest!: rmapM_length)

lemma check_deterministic_ok:
  assumes "check_deterministic ls ms = Inr ev"
  shows "evaluator_ok ls ev"
proof -
  from assms obtain cases mapped mapping where
    ev: "ev = Deterministic cases mapped" and "distinct cases" "monotone_rule ls mapped"
    and m: "rmapM (\<lambda>k. checked_field k (level_reference ls) mapping Inr) (count_keys (length cases)) = Inr mapped"
    unfolding check_deterministic_def by (auto simp: checked_field_Inr_iff rbind_Inr_iff)
  have "length mapped = Suc (length cases)"
    using rmapM_length [OF m] by (simp add: count_keys_def)
  moreover have "set mapped \<subseteq> lv_id ` set ls"
    using rmapM_Inr_all [OF m] level_reference_Inr by (fastforce simp: checked_field_Inr_iff)
  ultimately show ?thesis using \<open>distinct cases\<close> \<open>monotone_rule ls mapped\<close> by (simp add: ev evaluator_ok_def)
qed

lemma check_instructor_ok: "check_instructor ms = Inr ev \<Longrightarrow> evaluator_ok ls ev"
  by (auto simp: check_instructor_def checked_field_Inr_iff evaluator_ok_def)

lemma check_criterion_ok:
  assumes "check_criterion v = Inr c"
  shows "criterion_ok c"
proof -
  from assms obtain det ms weight ls ev i t d lv where
    "dec_less dec_zero weight" "check_levels lv = Inr ls"
    "(if det then check_deterministic ls ms else check_instructor ms) = Inr ev"
    "c = \<lparr>cr_id = i, cr_title = t, cr_description = d, cr_maximum = decimal_text weight,
          cr_levels = ls, cr_evaluator = ev\<rparr>"
    unfolding check_criterion_def by (auto simp: checked_field_Inr_iff rbind_Inr_iff simp del: dec_less_iff)
  then show ?thesis
    using check_levels_ok check_deterministic_ok check_instructor_ok
    by (auto simp: criterion_ok_def split: if_split_asm)
qed

lemma check_rubric_ok:
  assumes "check_rubric v = Inr r"
  shows "rubric_ok r"
proof -
  from assms obtain vals where
    c: "rmapM check_criterion vals = Inr (rb_criteria r)" "distinct (map cr_id (rb_criteria r))"
      "dec_value (total_weight (rb_criteria r)) = text_number (rb_maximum r)"
    unfolding check_rubric_def by (auto simp: checked_field_Inr_iff rbind_Inr_iff)
  then show ?thesis
    using rmapM_Inr_all [OF c(1)] check_criterion_ok by (auto simp: rubric_ok_def list_all_iff)
qed

lemma validate_rubric_ok: "validate_rubric v = Inr r \<Longrightarrow> rubric_ok r"
  by (auto simp: validate_rubric_def rbind_Inr_iff dest: check_rubric_ok)

section \<open>What checked evidence is\<close>

definition evidence_ok :: "rubric \<Rightarrow> evidence \<Rightarrow> bool" where
  "evidence_ok r e = (distinct (map tr_case (ev_tests e)) \<and> distinct (map rv_criterion (ev_reviews e)) \<and>
     (\<forall>v\<in>set (ev_reviews e). \<exists>c\<in>set (rb_criteria r). cr_id c = rv_criterion v \<and> \<not> is_deterministic c \<and>
        rv_level v \<in> lv_id ` set (cr_levels c)))"

lemma check_review_ok:
  assumes "check_review cs src fs v = Inr rv"
  shows "\<exists>c\<in>set cs. cr_id c = rv_criterion rv \<and> rv_level rv \<in> lv_id ` set (cr_levels c)"
proof -
  from assms obtain ms iv i where m: "map_of ms ''criterion_id'' = Some iv" "identifier_value iv = Inr i"
    and c: "(case find (\<lambda>c. cr_id c = i) cs of None \<Rightarrow> Inl RubricError | Some c \<Rightarrow>
       checked_field ''level_id'' (level_reference (cr_levels c)) ms (\<lambda>l.
       checked_field ''reviewer_id'' identifier_value ms (\<lambda>reviewer.
       checked_field ''reason'' (text_value 4000) ms (\<lambda>reason.
       checked_field ''source_digest'' (exactly (JStr src)) ms (\<lambda>_.
       checked_field ''references'' (array 1 20) ms (\<lambda>vals.
       rbind (rmapM (check_reference fs) vals) (\<lambda>refs.
         Inr \<lparr>rv_criterion = i, rv_level = l, rv_reviewer = reviewer, rv_reason = reason,
              rv_source = src, rv_references = refs\<rparr>))))))) = Inr rv"
    unfolding check_review_def rbind_Inr_iff checked_field_Inr_iff [of "''criterion_id''"] by blast
  then obtain d where d: "find (\<lambda>c. cr_id c = i) cs = Some d" by (cases "find (\<lambda>c. cr_id c = i) cs") auto
  then show ?thesis
    using c find_SomeD [OF d] by (auto simp: checked_field_Inr_iff rbind_Inr_iff dest!: level_reference_Inr)
qed

lemma check_evidence_ok:
  assumes "check_evidence sha r v = Inr e"
  shows "evidence_ok r e"
proof -
  from assms obtain src fs vals where
    e: "rmapM (check_review (manual_criteria r) src fs) vals = Inr (ev_reviews e)"
      "distinct (map tr_case (ev_tests e))" "distinct (map rv_criterion (ev_reviews e))"
    unfolding check_evidence_def by (auto simp: checked_field_Inr_iff rbind_Inr_iff)
  show ?thesis
    using e(2,3) rmapM_Inr_all [OF e(1)] check_review_ok unfolding evidence_ok_def manual_criteria_def
    by fastforce
qed

lemma validate_evidence_ok: "validate_evidence sha v r = Inr e \<Longrightarrow> evidence_ok r e"
  by (auto simp: validate_evidence_def rbind_Inr_iff dest: check_evidence_ok)

section \<open>The evaluation\<close>

text \<open>The level a criterion gets, as the specification has it.\<close>

definition reached :: "evidence \<Rightarrow> criterion \<Rightarrow> string option" where
  "reached e c = (case cr_evaluator c of
      Deterministic cases mapped \<Rightarrow>
        (if list_all (\<lambda>k. case_state e k \<in> {Passed, Failed}) cases
         then Some (mapped ! length (filter (\<lambda>k. case_state e k = Passed) cases)) else None)
    | Instructor _ \<Rightarrow> map_option rv_level (find (\<lambda>v. rv_criterion v = cr_id c) (ev_reviews e)))"

definition credit :: "evidence \<Rightarrow> criterion \<Rightarrow> rat" where
  "credit e c = (case reached e c of None \<Rightarrow> 0
     | Some l \<Rightarrow> text_number (cr_maximum c) * dec_value (ratio_of (cr_levels c) l))"

lemma ratio_bounds:
  assumes "levels_scale ls" and "l \<in> set ls"
  shows "text_number (lv_ratio l) \<le> 1"
proof -
  let ?rs = "map (decimal \<circ> lv_ratio) ls"
  have s: "sorted_wrt dec_less ?rs" "dec_value (last ?rs) = 1"
    using assms(1) by (simp_all add: levels_scale_def Let_def)
  obtain xs where xs: "?rs = xs @ [last ?rs]"
    using assms(2) by (metis append_butlast_last_id empty_iff list.map_disc_iff list.set(1))
  have "decimal (lv_ratio l) \<in> set ?rs" using assms(2) by auto
  moreover have "\<forall>x\<in>set xs. dec_less x (last ?rs)"
    using s(1) by (subst (asm) xs) (simp add: sorted_wrt_append)
  ultimately show ?thesis
    using s(2) xs by (metis Un_iff dec_less_iff empty_iff less_imp_le list.set(1) order_refl set_ConsD set_append)
qed

lemma find_level:
  assumes "levels_scale ls" and "i \<in> lv_id ` set ls"
  shows "\<exists>l\<in>set ls. find (\<lambda>l. lv_id l = i) ls = Some l \<and> lv_id l = i"
proof -
  have "find (\<lambda>l. lv_id l = i) ls \<noteq> None" using assms(2) by (auto simp: find_None_iff)
  then show ?thesis by (auto simp: find_Some_iff)
qed

lemma reached_level:
  assumes "criterion_ok c" and "reached e c = Some i" and "c \<in> set (rb_criteria r)"
    and "distinct (map cr_id (rb_criteria r))" and "evidence_ok r e"
  shows "i \<in> lv_id ` set (cr_levels c)"
proof (cases "cr_evaluator c")
  case (Deterministic cs mapped)
  let ?n = "length (filter (\<lambda>k. case_state e k = Passed) cs)"
  have "?n < length mapped" "set mapped \<subseteq> lv_id ` set (cr_levels c)"
    using assms(1) by (auto simp: criterion_ok_def evaluator_ok_def Deterministic le_imp_less_Suc)
  then show ?thesis
    using assms(2) nth_mem by (auto simp: reached_def Deterministic split: if_split_asm)
next
  case (Instructor k)
  then obtain v where v: "v \<in> set (ev_reviews e)" "rv_criterion v = cr_id c" "i = rv_level v"
    using assms(2) by (auto simp: reached_def dest!: find_SomeD)
  then obtain c' where c': "c' \<in> set (rb_criteria r)" "cr_id c' = cr_id c" "i \<in> lv_id ` set (cr_levels c')"
    using assms(5) by (fastforce simp: evidence_ok_def)
  then have "c' = c" using assms(3,4) by (auto simp: distinct_map dest: inj_onD)
  then show ?thesis using c' by simp
qed

text \<open>Where a criterion stands, read off the evidence: one infrastructure failure blocks it, an
  unfinished case leaves it pending otherwise, and a manual one waits for its review.\<close>

definition standing :: "evidence \<Rightarrow> criterion \<Rightarrow> decision_status" where
  "standing e c = (case cr_evaluator c of
      Deterministic cases mapped \<Rightarrow>
        (if \<exists>k\<in>set cases. case_state e k = InfrastructureFailure then Blocked
         else if \<exists>k\<in>set cases. case_state e k = NotFinished then Pending else Evaluated)
    | Instructor _ \<Rightarrow>
        (if \<exists>v\<in>set (ev_reviews e). rv_criterion v = cr_id c then Evaluated else ReviewRequired))"

lemma standing_reached: "standing e c = Evaluated \<longleftrightarrow> reached e c \<noteq> None"
proof (cases "cr_evaluator c")
  case (Deterministic cs mapped)
  have "list_all (\<lambda>k. case_state e k \<in> {Passed, Failed}) cs \<longleftrightarrow>
      (\<forall>k\<in>set cs. case_state e k \<noteq> InfrastructureFailure \<and> case_state e k \<noteq> NotFinished)"
  proof -
    have "st \<in> {Passed, Failed} \<longleftrightarrow> st \<noteq> InfrastructureFailure \<and> st \<noteq> NotFinished" for st
      by (cases st) simp_all
    then show ?thesis by (simp only: list_all_iff)
  qed
  then show ?thesis by (auto simp: standing_def reached_def Deterministic)
next
  case (Instructor k)
  then show ?thesis by (auto simp: standing_def reached_def find_None_iff)
qed

lemma plugin_reached:
  assumes "criterion_ok c"
  shows "\<exists>p. run_plugin c e = Inr p \<and> pr_level p = reached e c \<and> pr_status p = standing e c"
proof (cases "cr_evaluator c")
  case (Deterministic cs mapped)
  let ?st = "map (case_state e) cs"
  let ?n = "length (filter (\<lambda>s. s = Passed) ?st)"
  have states: "x \<in> set ?st \<longleftrightarrow> (\<exists>k\<in>set cs. case_state e k = x)" for x by auto
  have n: "?n = length (filter (\<lambda>k. case_state e k = Passed) cs)"
    by (simp add: filter_map comp_def)
  have l: "?n < length mapped"
    using assms by (auto simp: criterion_ok_def evaluator_ok_def Deterministic le_imp_less_Suc n)
  show ?thesis
  proof (cases "InfrastructureFailure \<in> set ?st \<or> NotFinished \<in> set ?st")
    case True
    then obtain k where "k \<in> set cs" "case_state e k \<notin> {Passed, Failed}" by fastforce
    then have "reached e c = None" by (auto simp: reached_def Deterministic list_all_iff)
    moreover have "run_plugin c e = Inr (if \<exists>k\<in>set cs. case_state e k = InfrastructureFailure
        then no_level Blocked ''infrastructure_error'' else no_level Pending ''case_result_missing_or_pending'')"
      using True unfolding run_plugin_def Deterministic evaluator.case deterministic_result_def Let_def states
      by auto
    ultimately show ?thesis
      using True unfolding states by (auto simp: standing_def Deterministic no_level_def)
  next
    case False
    have "case_state e k \<in> {Passed, Failed}" if "k \<in> set cs" for k
      using False that by (cases "case_state e k") force+
    then have "reached e c = Some (mapped ! ?n)" by (auto simp: reached_def Deterministic list_all_iff n comp_def)
    moreover have "standing e c = Evaluated"
      using False unfolding states standing_def Deterministic by auto
    ultimately show ?thesis
      using False l by (simp add: run_plugin_def Deterministic deterministic_result_def Let_def)
  qed
next
  case (Instructor k)
  then show ?thesis
    by (auto simp: run_plugin_def instructor_result_def reached_def no_level_def standing_def find_None_iff
        dest: find_SomeD split: option.split)
qed

text \<open>What a decision says of its criterion.\<close>

definition decision_of :: "evidence \<Rightarrow> criterion \<Rightarrow> decision \<Rightarrow> bool" where
  "decision_of e c d = (dn_criterion d = cr_id c \<and> pr_level d = reached e c \<and>
     pr_status d = standing e c \<and> text_number (dn_maximum d) = text_number (cr_maximum c) \<and>
     (case reached e c of None \<Rightarrow> dn_earned d = None
      | Some _ \<Rightarrow> \<exists>x. dn_earned d = Some x \<and> text_number x = credit e c))"

lemma decide_reached:
  assumes "criterion_ok c" and "\<And>i. reached e c = Some i \<Longrightarrow> i \<in> lv_id ` set (cr_levels c)"
  shows "\<exists>pts d. decide e c = Inr (pts, d) \<and> decision_of e c d \<and>
    (case reached e c of None \<Rightarrow> pts = None | Some _ \<Rightarrow> \<exists>x. pts = Some x \<and> dec_value x = credit e c)"
proof -
  obtain p where p: "run_plugin c e = Inr p" "pr_level p = reached e c"
    "pr_status p = standing e c"
    using plugin_reached [OF assms(1)] by blast
  have st: "pr_status p = Evaluated \<longleftrightarrow> reached e c \<noteq> None" by (simp add: p(3) standing_reached)
  show ?thesis
  proof (cases "reached e c")
    case None
    then show ?thesis using p st by (simp add: decide_def Let_def decision_of_def)
  next
    case (Some i)
    obtain l where l: "find (\<lambda>l. lv_id l = i) (cr_levels c) = Some l"
      using find_level [OF _ assms(2) [OF Some]] assms(1) by (auto simp: criterion_ok_def)
    have f: "find (\<lambda>l. Some (lv_id l) = pr_level p) (cr_levels c) = Some l"
      using l by (simp add: p(2) Some)
    have "credit e c = text_number (cr_maximum c) * text_number (lv_ratio l)"
      by (simp add: credit_def Some ratio_of_def l)
    then show ?thesis using p st Some f by (simp add: decide_def Let_def decision_of_def)
  qed
qed

definition maximum_reached :: "evidence \<Rightarrow> criterion \<Rightarrow> rat" where
  "maximum_reached e c = (if reached e c = None then 0 else text_number (cr_maximum c))"

lemma tally_computes:
  assumes "\<And>c. c \<in> set cs \<Longrightarrow> criterion_ok c"
    and "\<And>c i. c \<in> set cs \<Longrightarrow> reached e c = Some i \<Longrightarrow> i \<in> lv_id ` set (cr_levels c)"
  shows "\<exists>t' ds. tally_up e cs t = Inr t' \<and> tl_decisions t' = tl_decisions t @ ds \<and>
    list_all2 (decision_of e) cs ds \<and>
    dec_value (tl_earned t') = dec_value (tl_earned t) + sum_list (map (credit e) cs) \<and>
    dec_value (tl_reviewed t') = dec_value (tl_reviewed t) + sum_list (map (maximum_reached e) cs)"
  using assms
proof (induction cs arbitrary: t)
  case (Cons c cs)
  obtain pts d where d: "decide e c = Inr (pts, d)" "decision_of e c d"
    and pts: "case reached e c of None \<Rightarrow> pts = None | Some _ \<Rightarrow> \<exists>x. pts = Some x \<and> dec_value x = credit e c"
    using decide_reached [of c e] Cons.prems by auto
  let ?t = "case pts of None \<Rightarrow> t\<lparr>tl_decisions := tl_decisions t @ [d]\<rparr>
      | Some p \<Rightarrow> \<lparr>tl_earned = dec_add (tl_earned t) p, tl_reviewed = dec_add (tl_reviewed t) (decimal (cr_maximum c)),
                   tl_decisions = tl_decisions t @ [d]\<rparr>"
  have v: "dec_value (tl_earned ?t) = dec_value (tl_earned t) + credit e c"
    "dec_value (tl_reviewed ?t) = dec_value (tl_reviewed t) + maximum_reached e c"
    "tl_decisions ?t = tl_decisions t @ [d]"
    using pts by (auto simp: maximum_reached_def credit_def split: option.split_asm)
  obtain t' ds where "tally_up e cs ?t = Inr t'" "tl_decisions t' = tl_decisions ?t @ ds"
    "list_all2 (decision_of e) cs ds"
    "dec_value (tl_earned t') = dec_value (tl_earned ?t) + sum_list (map (credit e) cs)"
    "dec_value (tl_reviewed t') = dec_value (tl_reviewed ?t) + sum_list (map (maximum_reached e) cs)"
    using Cons.IH [of ?t] Cons.prems by auto
  then show ?case using d v by (intro exI [of _ t'] exI [of _ "d # ds"]) simp
qed simp

lemma total_weight_value: "dec_value (total_weight cs) = sum_list (map (\<lambda>c. text_number (cr_maximum c)) cs)"
proof -
  have "dec_value (fold (\<lambda>c t. dec_add t (decimal (cr_maximum c))) cs t) =
      dec_value t + sum_list (map (\<lambda>c. text_number (cr_maximum c)) cs)" for t
    by (induction cs arbitrary: t) (simp_all add: add.assoc)
  then show ?thesis by (simp add: total_weight_def)
qed

lemma credit_bounds:
  assumes "criterion_ok c" and "\<And>i. reached e c = Some i \<Longrightarrow> i \<in> lv_id ` set (cr_levels c)"
  shows "0 \<le> credit e c \<and> credit e c \<le> maximum_reached e c"
proof (cases "reached e c")
  case (Some i)
  then obtain l where l: "find (\<lambda>l. lv_id l = i) (cr_levels c) = Some l" "l \<in> set (cr_levels c)"
    using find_level [OF _ assms(2) [OF Some]] assms(1) by (auto simp: criterion_ok_def)
  have "text_number (lv_ratio l) \<le> 1"
    using ratio_bounds [OF _ l(2)] assms(1) by (simp add: criterion_ok_def)
  then show ?thesis
    by (simp add: credit_def maximum_reached_def Some ratio_of_def l mult_left_le)
qed (simp add: credit_def maximum_reached_def)

text \<open>More passed cases never lower the credit of a criterion.\<close>

lemma sorted_ratio_mono:
  assumes "monotone_rule ls mapped" and "i \<le> j" and "j < length mapped"
  shows "dec_value (ratio_of ls (mapped ! i)) \<le> dec_value (ratio_of ls (mapped ! j))"
proof (cases "i = j")
  case False
  have "sorted_wrt dec_le (map (ratio_of ls) mapped)" using assms(1) by (simp add: monotone_rule_def Let_def)
  then show ?thesis using False assms(2,3) by (simp add: sorted_wrt_iff_nth_less)
qed simp

lemma credit_mono:
  assumes r: "rubric_ok r" and e: "evidence_ok r e" and e': "evidence_ok r e'" and c: "c \<in> set (rb_criteria r)"
    and passed: "\<And>k. case_state e k = Passed \<Longrightarrow> case_state e' k = Passed"
    and failed: "\<And>k. case_state e k = Failed \<Longrightarrow> case_state e' k \<in> {Passed, Failed}"
    and reviews: "ev_reviews e' = ev_reviews e"
  shows "credit e c \<le> credit e' c"
proof (cases "cr_evaluator c")
  case (Instructor k)
  then show ?thesis by (simp add: credit_def reached_def reviews)
next
  case (Deterministic cs mapped)
  let ?n = "\<lambda>e. length (filter (\<lambda>k. case_state e k = Passed) cs)"
  have ok: "criterion_ok c" using r c by (auto simp: rubric_ok_def list_all_iff)
  then have m: "monotone_rule (cr_levels c) mapped" "length mapped = Suc (length cs)"
    by (auto simp: criterion_ok_def evaluator_ok_def Deterministic)
  show ?thesis
  proof (cases "list_all (\<lambda>k. case_state e k \<in> {Passed, Failed}) cs")
    case True
    then have all': "list_all (\<lambda>k. case_state e' k \<in> {Passed, Failed}) cs"
      using passed failed by (fastforce simp: list_all_iff)
    have "?n e \<le> ?n e'"
      using passed by (induction cs) (auto simp: le_Suc_eq)
    moreover have "?n e' < length mapped" by (simp add: m(2) le_imp_less_Suc)
    ultimately have "dec_value (ratio_of (cr_levels c) (mapped ! ?n e)) \<le> dec_value (ratio_of (cr_levels c) (mapped ! ?n e'))"
      by (rule sorted_ratio_mono [OF m(1)])
    then show ?thesis using True all' by (simp add: credit_def reached_def Deterministic mult_left_mono)
  next
    case False
    then have "reached e c = None" by (auto simp: reached_def Deterministic)
    moreover have "0 \<le> credit e' c"
      using credit_bounds [OF ok] reached_level [OF ok _ c _ e'] r by (auto simp: rubric_ok_def)
    ultimately show ?thesis by (simp add: credit_def [of e])
  qed
qed

lemma overall_evaluated_iff: "overall_status ds = Evaluated \<longleftrightarrow> (\<forall>d\<in>set ds. pr_status d = Evaluated)"
proof -
  have "(\<forall>d\<in>set ds. pr_status d = Evaluated) \<longleftrightarrow> {Blocked, Pending, ReviewRequired} \<inter> pr_status ` set ds = {}"
  proof -
    have x: "x = Evaluated \<longleftrightarrow> x \<notin> {Blocked, Pending, ReviewRequired}" for x by (cases x) auto
    show ?thesis unfolding x by (simp only: disjoint_iff) (simp, metis image_iff)
  qed
  then show ?thesis by (auto simp: overall_status_def Let_def)
qed

lemma overall_worst: "overall_status ds =
    (if Blocked \<in> pr_status ` set ds then Blocked else if Pending \<in> pr_status ` set ds then Pending
     else if ReviewRequired \<in> pr_status ` set ds then ReviewRequired else Evaluated)"
  by (simp add: overall_status_def Let_def)

text \<open>The evaluation of checked inputs in one statement.\<close>

lemma evaluate_computes:
  assumes r: "rubric_ok r" and e: "evidence_ok r e"
  shows "\<exists>t. evaluate_checked sha r e = Inr (assessment_of sha r e t) \<and>
    list_all2 (decision_of e) (rb_criteria r) (tl_decisions t) \<and>
    dec_value (tl_earned t) = sum_list (map (credit e) (rb_criteria r)) \<and>
    dec_value (tl_reviewed t) = sum_list (map (maximum_reached e) (rb_criteria r))"
proof -
  have c: "criterion_ok c" "reached e c = Some i \<Longrightarrow> i \<in> lv_id ` set (cr_levels c)"
    if "c \<in> set (rb_criteria r)" for c i
    using r e that reached_level [of c e i r] by (auto simp: rubric_ok_def list_all_iff)
  obtain t ds where "tally_up e (rb_criteria r) \<lparr>tl_earned = dec_zero, tl_reviewed = dec_zero, tl_decisions = []\<rparr> = Inr t"
    "tl_decisions t = ds" "list_all2 (decision_of e) (rb_criteria r) ds"
    "dec_value (tl_earned t) = sum_list (map (credit e) (rb_criteria r))"
    "dec_value (tl_reviewed t) = sum_list (map (maximum_reached e) (rb_criteria r))"
    using tally_computes [of "rb_criteria r" e "\<lparr>tl_earned = dec_zero, tl_reviewed = dec_zero, tl_decisions = []\<rparr>"] c
    by auto
  then show ?thesis by (intro exI [of _ t]) (simp add: evaluate_checked_def)
qed

end
