(* ===== verification/Rubric_Roundtrip.thy ===== *)
theory Rubric_Roundtrip
  imports Rubric_Lemmas
begin

text \<open>
  A checked document is a fixed point of its check: the normalised rubric and the normalised
  evidence are accepted again and read back as the same record. The ledger relies on it, since it
  stores normalised documents and validates them again.
\<close>

section \<open>Normalised decimals\<close>

lemma char_digit_iff: "ascii_digit c \<longleftrightarrow> char_digit c \<noteq> None"
  by (simp add: ascii_digit_def code_def char_digit_def Let_def)

lemma char_digit_less: "char_digit c = Some d \<Longrightarrow> d < 10"
  by (auto simp: char_digit_def Let_def split: if_split_asm)

lemma read_nat_shift:
  "list_all ascii_digit xs \<Longrightarrow> read_nat a xs = a * 10 ^ length xs + read_nat 0 xs \<and> read_nat 0 xs < 10 ^ length xs"
proof (induction xs arbitrary: a)
  case (Cons c cs)
  obtain d where d: "char_digit c = Some d" "d < 10"
    using Cons.prems char_digit_less by (auto simp: char_digit_iff)
  have r: "read_nat b cs = b * 10 ^ length cs + read_nat 0 cs" "read_nat 0 cs < 10 ^ length cs" for b
    using Cons.IH [of b] Cons.prems by simp_all
  have "d * 10 ^ length cs + read_nat 0 cs < 10 * 10 ^ length cs"
  proof -
    have "d * 10 ^ length cs \<le> 9 * 10 ^ length cs" using d(2) by (intro mult_le_mono1) simp
    then show ?thesis using r(2) by linarith
  qed
  then show ?case using r(1) [of "10 * a + d"] r(1) [of d] d by (simp add: algebra_simps)
qed simp

lemma number_size:
  assumes "is_number s"
  shows "dec_places (decimal s) \<le> 6 \<and> dec_digits (decimal s) div 10 ^ dec_places (decimal s) < 10 ^ 6"
proof -
  have int: "list_all ascii_digit i \<and> length i \<le> 6" if "integer_part i" for i
    using that by (auto simp: integer_part_def ascii_digit_def code_def)
  have small: "read_nat 0 i < 10 ^ 6" if "integer_part i" for i
    using int [OF that] read_nat_shift [of i 0] power_increasing [of "length i" 6 "10::nat"] by fastforce
  show ?thesis
  proof (cases "\<exists>f i. split_on (CHR ''.'') s = [i, f]")
    case True
    then obtain i f where sp: "split_on (CHR ''.'') s = [i, f]" by blast
    then have p: "integer_part i" "fraction_part f" using assms by (auto simp: is_number_def)
    have f: "list_all ascii_digit f" "length f \<le> 6" using p(2) by (auto simp: fraction_part_def)
    have d: "\<And>c. c \<in> set i \<Longrightarrow> char_digit c \<noteq> None"
      using int [OF p(1)] by (auto simp: list_all_iff char_digit_iff)
    have "read_nat 0 (i @ f) = read_nat 0 i * 10 ^ length f + read_nat 0 f" "read_nat 0 f < 10 ^ length f"
      using read_nat_append [OF d, of i 0 f] read_nat_shift [OF f(1), of "read_nat 0 i"] by auto
    then show ?thesis using sp f(2) small [OF p(1)] by (simp add: decimal_def)
  next
    case False
    then obtain i where sp: "split_on (CHR ''.'') s = [i]" "integer_part i"
      using assms by (auto simp: is_number_def split: list.splits)
    have "i = s"
    proof -
      have "CHR ''.'' \<notin> set s"
      proof
        assume "CHR ''.'' \<in> set s"
        then obtain us vs where s: "s = us @ CHR ''.'' # vs" "CHR ''.'' \<notin> set us"
          by (meson split_list_first)
        have "split_on c t \<noteq> []" for c t by (induction t) (auto split: list.split)
        then show False using sp(1) by (auto simp: s(1) split_on_at [OF s(2)])
      qed
      then show ?thesis using sp(1) by (simp add: split_on_none)
    qed
    then show ?thesis using sp small [OF sp(2)] by (simp add: decimal_def)
  qed
qed

lemma show_nat_head: "0 < n \<Longrightarrow> hd (show_nat n) \<noteq> CHR ''0''"
proof (induction n rule: show_nat.induct)
  case (1 n)
  show ?case
  proof (cases "n < 10")
    case True
    then show ?thesis using 1(2) zero_digit [of n] by (simp add: show_nat.simps [of n])
  next
    case False
    then show ?thesis using 1(1) by (simp add: show_nat.simps [of n] hd_append)
  qed
qed

lemma digits_ascii: "list_all ascii_digit (show_nat n)" "list_all ascii_digit (digits k n)"
  using set_show_nat set_digits by (fastforce simp: list_all_iff char_digit_iff)+

lemma format_is_number:
  assumes "dec_places d \<le> 6" and "dec_digits d div 10 ^ dec_places d < 10 ^ 6"
  shows "is_number (format_f d)"
proof -
  let ?n = "dec_digits d div 10 ^ dec_places d" and ?f = "digits (dec_places d) (dec_digits d mod 10 ^ dec_places d)"
  have i: "integer_part (show_nat ?n)"
  proof (cases "?n = 0")
    case True
    have "show_nat 0 = ''0''" by code_simp
    then show ?thesis by (simp add: True integer_part_def)
  next
    case False
    have "length (show_nat ?n) \<le> 6" using show_nat_length [of ?n 5] assms(2) by simp
    then show ?thesis using False show_nat_head [of ?n] digits_ascii(1) [of ?n] by (simp add: integer_part_def)
  qed
  show ?thesis
  proof (cases "dec_places d = 0")
    case True
    then show ?thesis using i dot_free(1) by (simp add: is_number_def format_f_def split_on_none)
  next
    case False
    then have "fraction_part ?f"
      using assms(1) digits_ascii(2) by (auto simp: fraction_part_def simp flip: length_0_conv)
    moreover have "split_on (CHR ''.'') (format_f d) = [show_nat ?n, ?f]"
      using False dot_free by (simp add: format_f_def split_on_at split_on_none)
    ultimately show ?thesis using i by (simp add: is_number_def)
  qed
qed

lemma without_zeros_size:
  "dec_places (without_zeros c k) \<le> k \<and>
   dec_digits (without_zeros c k) div 10 ^ dec_places (without_zeros c k) = c div 10 ^ k"
proof (induction c k rule: without_zeros.induct)
  case (2 c k)
  then show ?case by (auto simp: div_mult2_eq)
qed simp

lemma normalised_number:
  assumes "is_number s"
  shows "is_number (decimal_text (decimal s))"
proof -
  obtain c k where d: "decimal s = Dec c k" by (cases "decimal s")
  then show ?thesis
    using number_size [OF assms] without_zeros_size [of c k]
    by (simp add: decimal_text_eq format_is_number)
qed

lemma decimal_value_again:
  "decimal_value m v = Inr d \<Longrightarrow> \<exists>d'. decimal_value m (JStr (decimal_text d)) = Inr d' \<and>
     decimal_text d' = decimal_text d \<and> dec_value d' = dec_value d"
  by (cases v) (auto simp: decimal_value_def normalised_number decimal_text_again)

section \<open>Values read back\<close>

lemma checked_texts:
  "identifier_value v = Inr s \<Longrightarrow> identifier_value (JStr s) = Inr s"
  "digest_value v = Inr s \<Longrightarrow> digest_value (JStr s) = Inr s"
  "text_value n v = Inr s \<Longrightarrow> text_value n (JStr s) = Inr s"
  "path_value v = Inr s \<Longrightarrow> path_value (JStr s) = Inr s"
  "review_kind v = Inr s \<Longrightarrow> review_kind (JStr s) = Inr s"
  "level_reference ls v = Inr s \<Longrightarrow> level_reference ls (JStr s) = Inr s"
  "bounded_int lo hi v = Inr i \<Longrightarrow> bounded_int lo hi (JInt i) = Inr i"
  by (cases v; simp add: identifier_value_def digest_value_def text_value_def path_value_def review_kind_def
      level_reference_def bounded_int_def)+

lemma exactly_same [simp]: "exactly v v = Inr ()"
  by (simp add: exactly_def)

lemma object_fields_same: "same_fields expected ms \<Longrightarrow> object_fields (JObj ms) expected = Inr ms"
  by (simp add: object_fields_def)

lemma array_map: "array lo hi v = Inr xs \<Longrightarrow> length ys = length xs \<Longrightarrow> array lo hi (JArr ys) = Inr ys"
  by (cases v) (auto simp: array_def)

lemma rmapM_iff: "rmapM f xs = Inr ys \<longleftrightarrow> list_all2 (\<lambda>x y. f x = Inr y) xs ys"
proof
  show "list_all2 (\<lambda>x y. f x = Inr y) xs ys \<Longrightarrow> rmapM f xs = Inr ys"
    by (induction rule: list_all2_induct) simp_all
qed (rule rmapM_all2)

lemma rmapM_again:
  assumes "rmapM f xs = Inr ys" and "\<And>x y. f x = Inr y \<Longrightarrow> g (h y) = Inr y"
  shows "rmapM g (map h ys) = Inr ys"
  using assms by (auto simp: rmapM_iff list_all2_conv_all_nth)

lemmas again_simps = checked_field_Inr_iff rbind_Inr_iff object_fields_same same_fields_def

lemma check_level_again:
  assumes "check_level v = Inr l"
  shows "check_level (level_json l) = Inr l"
proof -
  from assms obtain iv rv dv i r d where
    v: "identifier_value iv = Inr i" "decimal_value 1 rv = Inr r" "text_value 4000 dv = Inr d"
    and l: "l = \<lparr>lv_id = i, lv_ratio = decimal_text r, lv_description = d\<rparr>"
    unfolding check_level_def by (auto simp: checked_field_Inr_iff rbind_Inr_iff)
  obtain r' where "decimal_value 1 (JStr (decimal_text r)) = Inr r'" "decimal_text r' = decimal_text r"
    using decimal_value_again [OF v(2)] by blast
  then show ?thesis
    using checked_texts(1) [OF v(1)] checked_texts(3) [OF v(3)]
    by (simp add: l level_json_def check_level_def again_simps)
qed

lemma check_levels_again:
  assumes "check_levels v = Inr ls"
  shows "check_levels (JArr (map level_json ls)) = Inr ls"
proof -
  from assms obtain xs where xs: "array 2 10 v = Inr xs" "rmapM check_level xs = Inr ls" "levels_scale ls"
    by (auto simp: check_levels_def rbind_Inr_iff)
  have "rmapM check_level (map level_json ls) = Inr ls"
    using xs(2) check_level_again by (rule rmapM_again)
  moreover have "array 2 10 (JArr (map level_json ls)) = Inr (map level_json ls)"
    using array_map [OF xs(1)] rmapM_length [OF xs(2)] by simp
  ultimately show ?thesis using xs(3) by (simp add: check_levels_def)
qed

lemma count_keys_distinct: "distinct (count_keys n)"
  by (simp add: count_keys_def distinct_map inj_on_def del: upt_Suc)

lemma mapping_again:
  assumes "rmapM (\<lambda>k. checked_field k (level_reference ls) mapping Inr) keys = Inr mapped" and "distinct keys"
  shows "rmapM (\<lambda>k. checked_field k (level_reference ls) (zip keys (map JStr mapped)) Inr) keys = Inr mapped"
proof -
  have l: "length keys = length mapped" using rmapM_length [OF assms(1)] by simp
  have "checked_field (keys ! i) (level_reference ls) (zip keys (map JStr mapped)) Inr = Inr (mapped ! i)"
    if i: "i < length keys" for i
  proof -
    have "map_of (zip keys (map JStr mapped)) (keys ! i) = Some (JStr (mapped ! i))"
      using i l assms(2) by (simp add: map_of_zip_nth)
    moreover have "checked_field (keys ! i) (level_reference ls) mapping Inr = Inr (mapped ! i)"
      using assms(1) i by (auto simp: rmapM_iff list_all2_conv_all_nth)
    ultimately show ?thesis by (auto simp: checked_field_Inr_iff dest: checked_texts)
  qed
  then show ?thesis using l by (simp add: rmapM_iff list_all2_conv_all_nth)
qed

lemma deterministic_again:
  assumes "check_deterministic ls ms = Inr ev"
  shows "\<exists>cs mapped. ev = Deterministic cs mapped \<and>
    (\<forall>ms'. set (evaluator_json ev) \<subseteq> set ms' \<and> distinct (map fst ms') \<longrightarrow> check_deterministic ls ms' = Inr ev)"
proof -
  from assms obtain cv xs cs mapping mapped where
    a: "array 1 50 cv = Inr xs" "rmapM identifier_value xs = Inr cs" "distinct cs" "monotone_rule ls mapped"
      "rmapM (\<lambda>k. checked_field k (level_reference ls) mapping Inr) (count_keys (length cs)) = Inr mapped"
    and ev: "ev = Deterministic cs mapped"
    unfolding check_deterministic_def by (auto simp: checked_field_Inr_iff rbind_Inr_iff)
  let ?keys = "count_keys (length cs)"
  have cases: "rmapM identifier_value (map JStr cs) = Inr cs"
    by (rule rmapM_again [OF a(2)]) (rule checked_texts)
  have arr: "array 1 50 (JArr (map JStr cs)) = Inr (map JStr cs)"
    using array_map [OF a(1)] rmapM_length [OF a(2)] by simp
  have l: "length ?keys = length mapped" using rmapM_length [OF a(5)] by simp
  have z: "set (map fst (zip ?keys (map JStr mapped))) = set ?keys"
    using l by (simp add: map_fst_zip)
  have m: "rmapM (\<lambda>k. checked_field k (level_reference ls) (zip ?keys (map JStr mapped)) Inr) ?keys = Inr mapped"
    by (rule mapping_again [OF a(5) count_keys_distinct])
  have "check_deterministic ls ms' = Inr ev"
    if sub: "set (evaluator_json ev) \<subseteq> set ms'" and d: "distinct (map fst ms')" for ms'
  proof -
    have f: "map_of ms' k = Some v" if "(k, v) \<in> set (evaluator_json ev)" for k v
      using d sub that by auto
    have "map_of ms' ''evidence'' = Some (JObj [(''kind'', JStr ''test_case_results''), (''case_ids'', JArr (map JStr cs))])"
      "map_of ms' ''rule'' = Some (JObj [(''operator'', JStr ''passed_case_count''),
         (''all_cases_must_have_valid_results'', JBool True), (''level_by_count'', JObj (zip ?keys (map JStr mapped)))])"
      "map_of ms' ''infrastructure_failure'' = Some (JStr ''blocked_not_zero'')"
      by (rule f; simp add: ev)+
    then show ?thesis
      using cases arr a(3,4) m z unfolding check_deterministic_def ev
      by (simp add: checked_field_def member_def object_fields_def same_fields_def require_def insert_commute)
  qed
  then show ?thesis using ev by blast
qed

lemma instructor_again:
  assumes "check_instructor ms = Inr ev"
  shows "\<exists>k. ev = Instructor k \<and>
    (\<forall>ms'. set (evaluator_json ev) \<subseteq> set ms' \<and> distinct (map fst ms') \<longrightarrow> check_instructor ms' = Inr ev)"
proof -
  from assms obtain kv k where k: "review_kind kv = Inr k" and ev: "ev = Instructor k"
    unfolding check_instructor_def by (auto simp: checked_field_Inr_iff rbind_Inr_iff)
  have "check_instructor ms' = Inr ev"
    if sub: "set (evaluator_json ev) \<subseteq> set ms'" and d: "distinct (map fst ms')" for ms'
  proof -
    have f: "map_of ms' k = Some v" if "(k, v) \<in> set (evaluator_json ev)" for k v
      using d sub that by auto
    have "map_of ms' ''evidence'' = Some (JObj [(''kind'', JStr k), (''requires_source_digest'', JBool True),
         (''requires_file_and_line_reference'', JBool True)])"
      "map_of ms' ''review_reason_required'' = Some (JBool True)"
      by (rule f; simp add: ev)+
    then show ?thesis
      using checked_texts(5) [OF k] unfolding check_instructor_def ev
      by (simp add: checked_field_def member_def object_fields_def same_fields_def require_def insert_commute)
  qed
  then show ?thesis using ev by blast
qed

lemma check_criterion_again:
  assumes "check_criterion v = Inr c"
  shows "check_criterion (criterion_json c) = Inr c"
proof -
  from assms obtain det ms iv tv dv wv lv i t d w ls ev where
    v: "identifier_value iv = Inr i" "text_value 200 tv = Inr t" "text_value 4000 dv = Inr d"
      "decimal_value 10000 wv = Inr w" "dec_less dec_zero w" "check_levels lv = Inr ls"
    and ev: "(if det then check_deterministic ls ms else check_instructor ms) = Inr ev"
    and c: "c = \<lparr>cr_id = i, cr_title = t, cr_description = d, cr_maximum = decimal_text w,
          cr_levels = ls, cr_evaluator = ev\<rparr>"
    unfolding check_criterion_def
    by (auto simp: checked_field_Inr_iff rbind_Inr_iff simp del: dec_less_iff)
  let ?ms = "[(''criterion_id'', JStr i), (''title'', JStr t), (''description'', JStr d),
      (''maximum_points'', JStr (decimal_text w)), (''required'', JBool True),
      (''levels'', JArr (map level_json ls))] @ evaluator_json ev"
  have j: "criterion_json c = JObj ?ms" by (simp add: criterion_json_def c)
  obtain w' where w: "decimal_value 10000 (JStr (decimal_text w)) = Inr w'" "decimal_text w' = decimal_text w"
    "dec_value w' = dec_value w"
    using decimal_value_again [OF v(4)] by blast
  note again = checked_texts(1) [OF v(1)] checked_texts(3) [OF v(2)] checked_texts(3) [OF v(3)] w
    check_levels_again [OF v(6)]
  show ?thesis
  proof (cases det)
    case True
    then obtain cs mapped where e: "ev = Deterministic cs mapped"
      "\<And>ms'. set (evaluator_json ev) \<subseteq> set ms' \<Longrightarrow> distinct (map fst ms') \<Longrightarrow> check_deterministic ls ms' = Inr ev"
      using deterministic_again [of ls ms ev] ev by auto
    have "check_deterministic ls ?ms = Inr ev" by (rule e(2)) (simp_all add: e(1))
    then show ?thesis using again v(5) unfolding j
      by (simp add: check_criterion_def evaluator_kind_def again_simps criterion_fields_def c e(1) insert_commute)
  next
    case False
    then obtain k where e: "ev = Instructor k"
      "\<And>ms'. set (evaluator_json ev) \<subseteq> set ms' \<Longrightarrow> distinct (map fst ms') \<Longrightarrow> check_instructor ms' = Inr ev"
      using instructor_again [of ms ev] ev by auto
    have "check_instructor ?ms = Inr ev" by (rule e(2)) (simp_all add: e(1))
    then show ?thesis using again v(5) unfolding j
      by (simp add: check_criterion_def evaluator_kind_def again_simps criterion_fields_def c e(1) insert_commute)
  qed
qed

lemma check_rubric_again:
  assumes "check_rubric v = Inr r"
  shows "check_rubric (rubric_json r) = Inr r"
proof -
  from assms obtain cv av iv nv tv pv mv lv xs course assignment i n t p m cs where
    v: "identifier_value cv = Inr course" "identifier_value av = Inr assignment" "identifier_value iv = Inr i"
      "bounded_int 1 100000 nv = Inr n" "text_value 200 tv = Inr t" "bounded_int 0 6 pv = Inr p"
      "decimal_value 500000 mv = Inr m" "array 1 50 lv = Inr xs"
    and cs: "rmapM check_criterion xs = Inr cs" "distinct (map cr_id cs)" "dec_eq (total_weight cs) m"
    and r: "r = \<lparr>rb_course = course, rb_assignment = assignment, rb_id = i, rb_version = n, rb_title = t,
       rb_places = nat p, rb_maximum = decimal_text m, rb_criteria = cs\<rparr>"
    unfolding check_rubric_def
    by (auto simp: checked_field_Inr_iff rbind_Inr_iff simp del: dec_eq_iff)
  obtain m' where m: "decimal_value 500000 (JStr (decimal_text m)) = Inr m'" "decimal_text m' = decimal_text m"
    "dec_value m' = dec_value m"
    using decimal_value_again [OF v(7)] by blast
  have "rmapM check_criterion (map criterion_json cs) = Inr cs"
    using cs(1) check_criterion_again by (rule rmapM_again)
  moreover have "array 1 50 (JArr (map criterion_json cs)) = Inr (map criterion_json cs)"
    using array_map [OF v(8)] rmapM_length [OF cs(1)] by simp
  moreover have "bounded_int 0 6 (JInt (int (nat p))) = Inr p"
    using v(6) by (cases pv) (auto simp: bounded_int_def)
  ultimately show ?thesis
    using m cs(2,3) checked_texts(1) [OF v(1)] checked_texts(1) [OF v(2)] checked_texts(1) [OF v(3)]
      checked_texts(3) [OF v(5)] checked_texts(7) [OF v(4)]
    by (simp add: rubric_json_def check_rubric_def again_simps r insert_commute)
qed

section \<open>Evidence\<close>

lemma check_status_again: "check_status (JStr (status_text st)) = Inr st"
  by (cases st) (simp_all add: check_status_def case_statuses_def)

lemma check_file_again: "check_file v = Inr f \<Longrightarrow> check_file (file_json f) = Inr f"
  by (auto simp: check_file_def file_json_def again_simps dest: checked_texts)

lemma check_case_again: "check_case cs v = Inr t \<Longrightarrow> check_case cs (case_json t) = Inr t"
  by (auto simp: check_case_def case_json_def again_simps check_status_again dest: checked_texts)

lemma check_reference_again:
  assumes "check_reference fs v = Inr rf"
  shows "check_reference fs (reference_json rf) = Inr rf"
proof -
  from assms obtain ms pv p sv av bv where p: "path_value pv = Inr p"
    and r: "(case find (\<lambda>f. sf_path f = p) fs of None \<Rightarrow> Inl RubricError
       | Some f \<Rightarrow> require (sv = JStr (sf_sha f)) (case (av, bv) of
           (JInt a, JInt b) \<Rightarrow> require (1 \<le> a \<and> a \<le> b \<and> b \<le> sf_lines f)
             (Inr \<lparr>rf_path = p, rf_sha = sf_sha f, rf_start = a, rf_end = b\<rparr>) | _ \<Rightarrow> Inl RubricError)) = Inr rf"
    unfolding check_reference_def rbind_Inr_iff checked_field_Inr_iff by blast
  then obtain f where f: "find (\<lambda>f. sf_path f = p) fs = Some f" by (cases "find (\<lambda>f. sf_path f = p) fs") auto
  with r obtain a b where "1 \<le> a" "a \<le> b" "b \<le> sf_lines f"
    "rf = \<lparr>rf_path = p, rf_sha = sf_sha f, rf_start = a, rf_end = b\<rparr>"
    by (cases av; cases bv) auto
  then show ?thesis using f checked_texts(4) [OF p]
    by (simp add: check_reference_def reference_json_def again_simps)
qed

lemma check_review_again:
  assumes "check_review cs src fs v = Inr rv"
  shows "check_review cs src fs (review_json rv) = Inr rv"
proof -
  from assms obtain ms iv i where i: "identifier_value iv = Inr i"
    and c: "(case find (\<lambda>c. cr_id c = i) cs of None \<Rightarrow> Inl RubricError | Some c \<Rightarrow>
       checked_field ''level_id'' (level_reference (cr_levels c)) ms (\<lambda>l.
       checked_field ''reviewer_id'' identifier_value ms (\<lambda>reviewer.
       checked_field ''reason'' (text_value 4000) ms (\<lambda>reason.
       checked_field ''source_digest'' (exactly (JStr src)) ms (\<lambda>_.
       checked_field ''references'' (array 1 20) ms (\<lambda>vals.
       rbind (rmapM (check_reference fs) vals) (\<lambda>refs.
         Inr \<lparr>rv_criterion = i, rv_level = l, rv_reviewer = reviewer, rv_reason = reason,
              rv_source = src, rv_references = refs\<rparr>))))))) = Inr rv"
    unfolding check_review_def rbind_Inr_iff checked_field_Inr_iff [of "''criterion_id''"] by blast
  then obtain d where d: "find (\<lambda>c. cr_id c = i) cs = Some d" by (cases "find (\<lambda>c. cr_id c = i) cs") auto
  from c obtain lv l wv w tv t av xs rs where
    v: "level_reference (cr_levels d) lv = Inr l" "identifier_value wv = Inr w" "text_value 4000 tv = Inr t"
      "array 1 20 av = Inr xs" "rmapM (check_reference fs) xs = Inr rs"
    and rv: "rv = \<lparr>rv_criterion = i, rv_level = l, rv_reviewer = w, rv_reason = t, rv_source = src, rv_references = rs\<rparr>"
    by (auto simp: d checked_field_Inr_iff rbind_Inr_iff)
  have "rmapM (check_reference fs) (map reference_json rs) = Inr rs"
    using v(5) check_reference_again by (rule rmapM_again)
  moreover have "array 1 20 (JArr (map reference_json rs)) = Inr (map reference_json rs)"
    using array_map [OF v(4)] rmapM_length [OF v(5)] by simp
  ultimately show ?thesis
    using d checked_texts(1) [OF i] checked_texts(6) [OF v(1)] checked_texts(1) [OF v(2)] checked_texts(3) [OF v(3)]
    by (simp add: check_review_def review_json_def rv again_simps)
qed

lemma check_evidence_again:
  assumes "check_evidence sha r v = Inr e"
  shows "check_evidence sha r (evidence_json e) = Inr e"
proof -
  from assms obtain sv s nv n dv d fv fxs fs tv txs ts wv wxs ws where
    v: "identifier_value sv = Inr s" "identifier_value nv = Inr n" "digest_value dv = Inr d"
      "array 1 1000 fv = Inr fxs" "rmapM check_file fxs = Inr fs" "distinct (map sf_path fs)"
      "array 0 (length (allowed_cases r)) tv = Inr txs" "rmapM (check_case (allowed_cases r)) txs = Inr ts"
      "distinct (map tr_case ts)"
      "array 0 (length (manual_criteria r)) wv = Inr wxs"
      "rmapM (check_review (manual_criteria r) d fs) wxs = Inr ws" "distinct (map rv_criterion ws)"
    and e: "e = \<lparr>ev_course = rb_course r, ev_assignment = rb_assignment r, ev_submission = s, ev_source = d,
       ev_run = n, ev_rubric = content_hash sha (rubric_json r), ev_files = fs, ev_tests = ts, ev_reviews = ws\<rparr>"
    unfolding check_evidence_def by (auto simp: checked_field_Inr_iff rbind_Inr_iff)
  have "rmapM check_file (map file_json fs) = Inr fs"
    using v(5) check_file_again by (rule rmapM_again)
  moreover have "rmapM (check_case (allowed_cases r)) (map case_json ts) = Inr ts"
    using v(8) check_case_again by (rule rmapM_again)
  moreover have "rmapM (check_review (manual_criteria r) d fs) (map review_json ws) = Inr ws"
    using v(11) check_review_again by (rule rmapM_again)
  moreover have "array 1 1000 (JArr (map file_json fs)) = Inr (map file_json fs)"
    "array 0 (length (allowed_cases r)) (JArr (map case_json ts)) = Inr (map case_json ts)"
    "array 0 (length (manual_criteria r)) (JArr (map review_json ws)) = Inr (map review_json ws)"
    using array_map [OF v(4), of "map file_json fs"] array_map [OF v(7), of "map case_json ts"]
      array_map [OF v(10), of "map review_json ws"] rmapM_length [OF v(5)] rmapM_length [OF v(8)]
      rmapM_length [OF v(11)] by simp_all
  ultimately show ?thesis
    using v(6,9,12) checked_texts(1) [OF v(1)] checked_texts(1) [OF v(2)] checked_texts(2) [OF v(3)]
    by (simp add: evidence_json_def check_evidence_def again_simps e insert_commute)
qed

end
