(* ===== verification/Rubric_Ledger.thy ===== *)
theory Rubric_Ledger
  imports "HOL-Library.Sublist" Rubric_Store Rubric_Roundtrip
begin

text \<open>
  Lemmas of the rubric ledger: the contract of the two binding tables, the well-formedness of the
  tables, what a later ledger keeps of an earlier one, and the relation between ledgers that any
  interleaving of registrations, approvals and assessments makes.
\<close>

section \<open>Tables of first bindings\<close>

text \<open>A table whose row for a key is decided by the first insertion: the client knows what an
  accepted binding holds, that a table only grows, and that keys stay unique.\<close>

locale first_binding =
  fixes key :: "'r \<Rightarrow> 'k" and val :: "'r \<Rightarrow> 'v" and bind :: "'r \<Rightarrow> 'r list \<Rightarrow> 'r list rres"
  assumes bound: "bind n rs = Inr rs' \<Longrightarrow> \<exists>x\<in>set rs'. key x = key n \<and> val x = val n"
    and grows: "bind n rs = Inr rs' \<Longrightarrow> prefix rs rs'"
    and unique: "bind n rs = Inr rs' \<Longrightarrow> distinct (map key rs) \<Longrightarrow> distinct (map key rs')"
    and again: "distinct (map key rs) \<Longrightarrow> x \<in> set rs \<Longrightarrow> key x = key n \<Longrightarrow> val x = val n \<Longrightarrow> bind n rs = Inr rs"
    and refused: "distinct (map key rs) \<Longrightarrow> x \<in> set rs \<Longrightarrow> key x = key n \<Longrightarrow> val x \<noteq> val n \<Longrightarrow>
      bind n rs = Inl RubricConflict"
begin

lemma bound_later:
  assumes "bind n rs = Inr rs'" and "prefix rs' later" and "distinct (map key later)"
  shows "bind n later = Inr later"
proof -
  obtain x where "x \<in> set rs'" "key x = key n" "val x = val n" using bound [OF assms(1)] by blast
  then show ?thesis using again [OF assms(3), of x] set_mono_prefix [OF assms(2)] by blast
qed

lemma other_refused_later:
  assumes "bind n rs = Inr rs'" and "prefix rs' later" and "distinct (map key later)"
    and "key m = key n" and "val m \<noteq> val n"
  shows "bind m later = Inl RubricConflict"
proof -
  obtain x where "x \<in> set rs'" "key x = key n" "val x = val n" using bound [OF assms(1)] by blast
  then show ?thesis using refused [OF assms(3), of x m] set_mono_prefix [OF assms(2)] assms(4,5) by auto
qed

end

lemma find_key_unique:
  assumes "distinct (map key rs)" and "x \<in> set rs"
  shows "find (\<lambda>y. key y = key x) rs = Some x"
proof -
  obtain y where y: "find (\<lambda>y. key y = key x) rs = Some y"
    using assms(2) by (cases "find (\<lambda>y. key y = key x) rs") (auto simp: find_None_iff)
  then have "y = x" using assms find_SomeD [OF y] by (auto simp: distinct_map dest: inj_onD)
  then show ?thesis using y by simp
qed

lemma find_key_value:
  "distinct (map key rs) \<Longrightarrow> x \<in> set rs \<Longrightarrow> key x = k \<Longrightarrow> find (\<lambda>y. key y = k) rs = Some x"
  using find_key_unique [of key rs x] by simp

lemma key_unique: "distinct (map key rs) \<Longrightarrow> x \<in> set rs \<Longrightarrow> y \<in> set rs \<Longrightarrow> key x = key y \<Longrightarrow> x = y"
  by (auto simp: distinct_map dest: inj_onD)

lemma bind_row_binding:
  shows "bind_row key val n rs = Inr rs' \<Longrightarrow> \<exists>x\<in>set rs'. key x = key n \<and> val x = val n"
    and "bind_row key val n rs = Inr rs' \<Longrightarrow> prefix rs rs'"
    and "bind_row key val n rs = Inr rs' \<Longrightarrow> distinct (map key rs) \<Longrightarrow> distinct (map key rs')"
    and "distinct (map key rs) \<Longrightarrow> x \<in> set rs \<Longrightarrow> key x = key n \<Longrightarrow> val x = val n \<Longrightarrow>
      bind_row key val n rs = Inr rs"
    and "distinct (map key rs) \<Longrightarrow> x \<in> set rs \<Longrightarrow> key x = key n \<Longrightarrow> val x \<noteq> val n \<Longrightarrow>
      bind_row key val n rs = Inl RubricConflict"
proof -
  note d = bind_row_def [of key val n rs]
  show "bind_row key val n rs = Inr rs' \<Longrightarrow> \<exists>x\<in>set rs'. key x = key n \<and> val x = val n"
    by (auto simp: d split: option.split_asm if_split_asm dest!: find_SomeD)
  show "bind_row key val n rs = Inr rs' \<Longrightarrow> prefix rs rs'"
    by (auto simp: d split: option.split_asm if_split_asm)
  show "bind_row key val n rs = Inr rs' \<Longrightarrow> distinct (map key rs) \<Longrightarrow> distinct (map key rs')"
    by (fastforce simp: d find_None_iff split: option.split_asm if_split_asm)
  show "distinct (map key rs) \<Longrightarrow> x \<in> set rs \<Longrightarrow> key x = key n \<Longrightarrow> val x = val n \<Longrightarrow>
      bind_row key val n rs = Inr rs"
    by (simp add: d find_key_value)
  show "distinct (map key rs) \<Longrightarrow> x \<in> set rs \<Longrightarrow> key x = key n \<Longrightarrow> val x \<noteq> val n \<Longrightarrow>
      bind_row key val n rs = Inl RubricConflict"
    by (simp add: d find_key_value)
qed

interpretation source_table: first_binding receipt_key receipt_value "bind_row receipt_key receipt_value"
  by unfold_locales (fact bind_row_binding)+

interpretation test_table: first_binding run_key te_tests "bind_row run_key te_tests"
  by unfold_locales (fact bind_row_binding)+

section \<open>Well-formed ledgers\<close>

definition version_ok :: "(string \<Rightarrow> string) \<Rightarrow> version_row \<Rightarrow> bool" where
  "version_ok sha v = (version_key v = (rb_course (vr_document v), rb_id (vr_document v), rb_version (vr_document v)) \<and>
     vr_digest v = content_hash sha (rubric_json (vr_document v)) \<and>
     check_rubric (rubric_json (vr_document v)) = Inr (vr_document v))"

text \<open>What every stored assessment rests on: an approved version with the digest it names, the
  source its submission is bound to, and the test results its grading run is bound to.\<close>

definition assessment_ok :: "rubric_db \<Rightarrow> assessment_row \<Rightarrow> bool" where
  "assessment_ok db a = (let s = ra_result a in
     am_submission s = ra_submission a \<and> am_course s = ra_course a \<and>
     (\<exists>v\<in>set (versions db). version_key v = (am_course s, am_rubric s, am_version s) \<and>
        vr_digest v = am_rubric_digest s \<and> vr_approval v \<noteq> None) \<and>
     (\<exists>x\<in>set (receipts db). receipt_key x = (ra_course a, ra_submission a) \<and>
        rc_assignment x = am_assignment s \<and> rc_source x = am_source s) \<and>
     (\<exists>x\<in>set (test_runs db). run_key x = (ra_course a, ra_submission a, am_run s, am_rubric_digest s)))"

definition ledger_ok :: "(string \<Rightarrow> string) \<Rightarrow> rubric_db \<Rightarrow> bool" where
  "ledger_ok sha db = (distinct (map version_key (versions db)) \<and> (\<forall>v\<in>set (versions db). version_ok sha v) \<and>
     distinct (map receipt_key (receipts db)) \<and> distinct (map run_key (test_runs db)) \<and>
     distinct (map request_key (assessments db)) \<and>
     distinct (map (\<lambda>a. sa_id (ra_result a)) (assessments db)) \<and>
     (\<forall>a\<in>set (assessments db). assessment_ok db a))"

text \<open>What a later ledger keeps: versions stay, but for an approval that may come once; the other
  tables are append-only.\<close>

definition version_kept :: "version_row \<Rightarrow> version_row \<Rightarrow> bool" where
  "version_kept v w = (w\<lparr>vr_approval := None\<rparr> = v\<lparr>vr_approval := None\<rparr> \<and>
     (vr_approval v = None \<or> vr_approval w = vr_approval v))"

definition ledger_kept :: "rubric_db \<Rightarrow> rubric_db \<Rightarrow> bool" where
  "ledger_kept a b = ((\<exists>ws. prefix ws (versions b) \<and> list_all2 version_kept (versions a) ws) \<and>
     prefix (receipts a) (receipts b) \<and> prefix (test_runs a) (test_runs b) \<and>
     prefix (assessments a) (assessments b) \<and> prefix (audits a) (audits b))"

lemma version_kept_refl [simp]: "version_kept v v"
  by (simp add: version_kept_def)

lemma version_kept_trans: "version_kept u v \<Longrightarrow> version_kept v w \<Longrightarrow> version_kept u w"
  by (auto simp: version_kept_def)

lemma version_kept_fields:
  assumes "version_kept v w"
  shows "version_key w = version_key v" "vr_digest w = vr_digest v" "vr_document w = vr_document v"
    "vr_approval v \<noteq> None \<Longrightarrow> vr_approval w = vr_approval v"
proof -
  have e: "w\<lparr>vr_approval := None\<rparr> = v\<lparr>vr_approval := None\<rparr>" using assms by (simp add: version_kept_def)
  show "version_key w = version_key v" "vr_digest w = vr_digest v" "vr_document w = vr_document v"
    using e by (cases v; cases w; simp add: version_key_def)+
  show "vr_approval v \<noteq> None \<Longrightarrow> vr_approval w = vr_approval v" using assms by (auto simp: version_kept_def)
qed

lemma ledger_kept_refl: "ledger_kept a a"
  unfolding ledger_kept_def by (auto intro!: exI [of _ "versions a"] list_all2_refl)

lemma ledger_kept_trans:
  assumes "ledger_kept a b" and "ledger_kept b c"
  shows "ledger_kept a c"
proof -
  obtain us us' where u: "versions b = us @ us'" "list_all2 version_kept (versions a) us"
    using assms(1) by (auto simp: ledger_kept_def prefix_def)
  obtain ws ws' where w: "versions c = ws @ ws'" "list_all2 version_kept (versions b) ws"
    using assms(2) by (auto simp: ledger_kept_def prefix_def)
  obtain xs ys where x: "ws = xs @ ys" "list_all2 version_kept us xs"
    using w(2) by (auto simp: u(1) list_all2_append1)
  have "list_all2 version_kept (versions a) xs"
    using list_all2_trans [OF _ u(2) x(2)] version_kept_trans by blast
  then have "\<exists>ws. prefix ws (versions c) \<and> list_all2 version_kept (versions a) ws"
    by (intro exI [of _ xs]) (simp add: w(1) x(1))
  then show ?thesis using assms by (auto simp: ledger_kept_def intro: prefix_order.trans)
qed

lemma kept_version:
  assumes "ledger_kept a b" and "v \<in> set (versions a)"
  shows "\<exists>w\<in>set (versions b). version_kept v w"
proof -
  obtain ws ws' where "versions b = ws @ ws'" "list_all2 version_kept (versions a) ws"
    using assms(1) by (auto simp: ledger_kept_def prefix_def)
  then show ?thesis using assms(2) by (fastforce simp: list_all2_conv_all_nth in_set_conv_nth)
qed

lemma assessment_ok_kept:
  assumes "assessment_ok a x" and "ledger_kept a b"
  shows "assessment_ok b x"
proof -
  let ?s = "ra_result x"
  obtain v where "v \<in> set (versions a)" "version_key v = (am_course ?s, am_rubric ?s, am_version ?s)"
    "vr_digest v = am_rubric_digest ?s" "vr_approval v \<noteq> None"
    using assms(1) by (auto simp: assessment_ok_def Let_def)
  then have "\<exists>w\<in>set (versions b). version_key w = (am_course ?s, am_rubric ?s, am_version ?s) \<and>
      vr_digest w = am_rubric_digest ?s \<and> vr_approval w \<noteq> None"
    using kept_version [OF assms(2)] version_kept_fields by metis
  moreover have "set (receipts a) \<subseteq> set (receipts b)" "set (test_runs a) \<subseteq> set (test_runs b)"
    using assms(2) set_mono_prefix by (auto simp: ledger_kept_def)
  ultimately show ?thesis using assms(1) unfolding assessment_ok_def Let_def by blast
qed

section \<open>Registration and approval\<close>

lemma read_version_Inr:
  "read_version sha c i n db = Inr v \<Longrightarrow> v \<in> set (versions db) \<and> version_key v = (c, i, n)"
  by (auto simp: read_version_def named_def dest: find_SomeD split: option.split_asm)

lemma audit_tables [simp]:
  "versions (audit t a c x r db) = versions db" "receipts (audit t a c x r db) = receipts db"
  "test_runs (audit t a c x r db) = test_runs db" "assessments (audit t a c x r db) = assessments db"
  "prefix (audits db) (audits (audit t a c x r db))"
  by (simp_all add: audit_def)

lemma snd_commit: "snd (commit body db) = (case body db of Inl e \<Rightarrow> db | Inr (x, db') \<Rightarrow> db')"
  by (simp add: commit_def split: sum.split prod.split)

lemma ledger_ok_versions:
  assumes "ledger_ok sha db" and "ledger_kept db db'" and "distinct (map version_key (versions db'))"
    and "\<And>v. v \<in> set (versions db') \<Longrightarrow> version_ok sha v"
    and "receipts db' = receipts db" "test_runs db' = test_runs db" "assessments db' = assessments db"
  shows "ledger_ok sha db'"
  using assms assessment_ok_kept [OF _ assms(2)] unfolding ledger_ok_def by auto

lemma validated_again: "validate_rubric v = Inr r \<Longrightarrow> check_rubric (rubric_json r) = Inr r"
  by (auto simp: validate_rubric_def rbind_Inr_iff intro: check_rubric_again)

lemma register_keeps:
  assumes "ledger_ok sha db"
  shows "ledger_ok sha (snd (register sha at_time doc actor db)) \<and> ledger_kept db (snd (register sha at_time doc actor db))"
proof (cases "\<exists>r v db'. named actor (validate_rubric doc) = Inr r \<and> register_body sha at_time r actor db = Inr (v, db') \<and> db' \<noteq> db")
  case False
  then have "snd (register sha at_time doc actor db) = db"
    by (auto simp: register_def snd_commit split: sum.split)
  then show ?thesis using assms ledger_kept_refl by simp
next
  case True
  then obtain r v db' where r: "named actor (validate_rubric doc) = Inr r"
    and b: "register_body sha at_time r actor db = Inr (v, db')" and ne: "db' \<noteq> db" by blast
  let ?k = "(rb_course r, rb_id r, rb_version r)"
  let ?new = "\<lparr>vr_course = rb_course r, vr_rubric = rb_id r, vr_version = rb_version r,
    vr_digest = content_hash sha (rubric_json r), vr_document = r, vr_registered_by = actor,
    vr_registered_at = at_time, vr_approval = None\<rparr>"
  have f: "find (\<lambda>x. version_key x = ?k) (versions db) = None"
    and db': "db' = audit at_time ''registered'' (rb_course r) actor (content_hash sha (rubric_json r))
      (db\<lparr>versions := versions db @ [?new]\<rparr>)"
    using b ne by (auto simp: register_body_def Let_def rbind_Inr_iff split: option.split_asm if_split_asm)
  have k: "ledger_kept db db'"
    unfolding ledger_kept_def db'
    by (auto simp: audit_def intro!: exI [of _ "versions db"] list_all2_refl)
  have new: "version_ok sha ?new"
    using r validated_again by (auto simp: version_ok_def version_key_def named_def)
  have "ledger_ok sha db'"
  proof (rule ledger_ok_versions [OF assms k])
    have "version_key ?new \<notin> version_key ` set (versions db)"
      using f by (force simp: find_None_iff version_key_def [of ?new])
    then show "distinct (map version_key (versions db'))"
      using assms by (simp add: db' ledger_ok_def)
    show "version_ok sha x" if "x \<in> set (versions db')" for x
      using that assms new by (auto simp: db' ledger_ok_def)
  qed (simp_all add: db')
  moreover have "snd (register sha at_time doc actor db) = db'"
    by (simp add: register_def r snd_commit b)
  ultimately show ?thesis using k by simp
qed

lemma approve_keeps:
  assumes "ledger_ok sha db"
  shows "ledger_ok sha (snd (approve sha at_time c i n dg actor db)) \<and> ledger_kept db (snd (approve sha at_time c i n dg actor db))"
proof (cases "\<exists>v db'. is_identifier actor \<and> approve_body sha at_time c i n dg actor db = Inr (v, db') \<and> db' \<noteq> db")
  case False
  then have "snd (approve sha at_time c i n dg actor db) = db"
    by (auto simp: approve_def snd_commit split: sum.split)
  then show ?thesis using assms ledger_kept_refl by simp
next
  case True
  then obtain v db' where a: "is_identifier actor"
    and b: "approve_body sha at_time c i n dg actor db = Inr (v, db')" and ne: "db' \<noteq> db" by blast
  let ?f = "\<lambda>r. if version_key r = (c, i, n) then r\<lparr>vr_approval := Some (actor, at_time)\<rparr> else r"
  obtain row where row: "read_version sha c i n db = Inr row" "vr_approval row = None"
    and db': "db' = audit at_time ''approved_by_local_operator'' c actor dg (db\<lparr>versions := map ?f (versions db)\<rparr>)"
    using b ne by (auto simp: approve_body_def rbind_Inr_iff split: if_split_asm)
  have only: "vr_approval r = None" if "r \<in> set (versions db)" "version_key r = (c, i, n)" for r
  proof -
    have "distinct (map version_key (versions db))" using assms by (simp add: ledger_ok_def)
    then have "r = row" by (rule key_unique) (use that read_version_Inr [OF row(1)] in simp_all)
    then show ?thesis using row(2) by simp
  qed
  have kept: "version_kept r (?f r)" if "r \<in> set (versions db)" for r
    using only [OF that] by (simp add: version_kept_def)
  then have "list_all2 version_kept (versions db) (map ?f (versions db))"
    by (simp add: list_all2_map2 list.rel_refl_strong)
  then have k: "ledger_kept db db'"
    unfolding ledger_kept_def db' by (auto simp: audit_def intro!: exI [of _ "map ?f (versions db)"])
  have key: "version_key (?f r) = version_key r" for r by (simp add: version_key_def)
  have "ledger_ok sha db'"
  proof (rule ledger_ok_versions [OF assms k])
    show "distinct (map version_key (versions db'))"
      using assms by (simp add: db' comp_def key ledger_ok_def)
    show "version_ok sha x" if "x \<in> set (versions db')" for x
      using that assms by (auto simp: db' ledger_ok_def version_ok_def version_key_def)
  qed (simp_all add: db')
  moreover have "snd (approve sha at_time c i n dg actor db) = db'"
    by (simp add: approve_def a snd_commit b)
  ultimately show ?thesis using k by simp
qed

section \<open>Assessment\<close>

text \<open>What a prepared assessment says of the version it was computed from.\<close>

definition prepared_ok :: "prepared \<Rightarrow> bool" where
  "prepared_ok p = (let s = pp_result p; v = pp_row p in
     version_key v = (pp_course p, pp_rubric p, pp_version p) \<and>
     version_key v = (am_course s, am_rubric s, am_version s) \<and>
     vr_digest v = am_rubric_digest s \<and> rb_assignment (vr_document v) = am_assignment s)"

lemma evaluate_Inr:
  assumes "evaluate sha (rubric_json r) (evidence_json e) = Inr s" and "check_rubric (rubric_json r) = Inr r"
    and "validate_evidence sha v r = Inr e"
  shows "evaluate_checked sha r e = Inr s"
proof -
  obtain r' e' where "check_rubric (rubric_json r) = Inr r'" "check_evidence sha r' (evidence_json e) = Inr e'"
    "evaluate_checked sha r' e' = Inr s"
    using assms(1) by (auto simp: evaluate_def validate_rubric_def validate_evidence_def rbind_Inr_iff copy_bounded_def
        split: sum.split_asm)
  moreover have "check_evidence sha r (evidence_json e) = Inr e"
    using assms(3) check_evidence_again by (auto simp: validate_evidence_def rbind_Inr_iff)
  ultimately show ?thesis using assms(2) by simp
qed

lemma prepare_Inr:
  assumes "prepare sha c i n profile ev k actor db = Inr p" and "ledger_ok sha db"
  shows "prepared_ok p \<and> pp_row p \<in> set (versions db) \<and> vr_approval (pp_row p) \<noteq> None \<and>
    pp_course p = c \<and> pp_rubric p = i \<and> pp_version p = n \<and> pp_request p = k \<and> pp_actor p = actor \<and>
    evaluate_checked sha (vr_document (pp_row p)) (pp_evidence p) = Inr (pp_result p) \<and>
    validate_evidence sha ev (vr_document (pp_row p)) = Inr (pp_evidence p) \<and>
    read_version sha c i n db = Inr (pp_row p)"
proof -
  obtain row e s plan where row: "read_version sha c i n db = Inr row" "vr_approval row \<noteq> None"
    and e: "validate_evidence sha ev (vr_document row) = Inr e"
    and s: "evaluate sha (rubric_json (vr_document row)) (evidence_json e) = Inr s"
    and p: "p = \<lparr>pp_course = c, pp_rubric = i, pp_version = n, pp_row = row, pp_evidence = e, pp_result = s,
      pp_plan = plan, pp_request = k, pp_actor = actor, pp_request_digest = content_hash sha
        (request_json (vr_digest row) (am_evidence_digest s) (pl_digest plan) actor)\<rparr>"
    using assms(1) by (auto simp: prepare_def named_def rbind_Inr_iff get_rubric_def)
  have v: "row \<in> set (versions db)" "version_key row = (c, i, n)" "version_ok sha row"
    using read_version_Inr [OF row(1)] assms(2) by (auto simp: ledger_ok_def)
  have ec: "evaluate_checked sha (vr_document row) e = Inr s"
    using evaluate_Inr [OF s _ e] v(3) by (simp add: version_ok_def)
  then have "am_course s = rb_course (vr_document row)" "am_rubric s = rb_id (vr_document row)"
    "am_version s = rb_version (vr_document row)" "am_assignment s = rb_assignment (vr_document row)"
    "am_rubric_digest s = content_hash sha (rubric_json (vr_document row))"
    by (auto simp: evaluate_checked_def rbind_Inr_iff assessment_of_def Let_def)
  then have "prepared_ok p" using v by (auto simp: prepared_ok_def p version_ok_def Let_def)
  then show ?thesis using v row e ec by (simp add: p)
qed

lemma stored_fields [simp]:
  "am_course (stored t f p) = am_course (pp_result p)" "am_rubric (stored t f p) = am_rubric (pp_result p)"
  "am_version (stored t f p) = am_version (pp_result p)" "am_submission (stored t f p) = am_submission (pp_result p)"
  "am_rubric_digest (stored t f p) = am_rubric_digest (pp_result p)" "am_run (stored t f p) = am_run (pp_result p)"
  "am_assignment (stored t f p) = am_assignment (pp_result p)" "am_source (stored t f p) = am_source (pp_result p)"
  "sa_id (stored t f p) = ''rubric_'' @ f"
  by (cases "pp_result p"; simp add: stored_def assessment.extend_def stored_assessment.fields_def)+

lemma assess_body_Inr:
  assumes "assess_body sha at_time fresh p db = Inr (s, db')"
  shows "(db' = db \<and> (\<exists>x\<in>set (assessments db). request_key x = (pp_course p, am_submission (pp_result p), pp_request p) \<and>
        ra_request_digest x = pp_request_digest p \<and> ra_result x = s)) \<or>
    (s = stored at_time fresh p \<and> (\<exists>rs ts.
       find (\<lambda>x. request_key x = (pp_course p, am_submission (pp_result p), pp_request p)) (assessments db) = None \<and>
       sa_id s \<notin> (\<lambda>x. sa_id (ra_result x)) ` set (assessments db) \<and>
       bind_row receipt_key receipt_value (receipt_of sha p) (receipts db) = Inr rs \<and>
       bind_row run_key te_tests (test_run_of sha p) (test_runs db) = Inr ts \<and>
       db' = audit at_time ''assessed_offline'' (pp_course p) (pp_actor p) (sa_id s)
         (db\<lparr>receipts := rs, test_runs := ts, assessments := assessments db @
           [\<lparr>ra_course = pp_course p, ra_submission = am_submission (pp_result p), ra_request = pp_request p,
             ra_request_digest = pp_request_digest p, ra_result = s\<rparr>]\<rparr>)))"
  using assms
  by (auto simp: assess_body_def rbind_Inr_iff Let_def bind_source_def bind_tests_def insert_assessment_def
      split: option.split_asm if_split_asm dest!: find_SomeD)

lemma assess_body_approved:
  assumes "assess_body sha at_time fresh p db = Inr (s, db')"
  shows "\<exists>v\<in>set (versions db). version_key v = (pp_course p, pp_rubric p, pp_version p) \<and>
    vr_digest v = vr_digest (pp_row p) \<and> vr_approval v \<noteq> None"
  using assms by (auto simp: assess_body_def rbind_Inr_iff dest!: read_version_Inr)

lemma assess_body_keeps:
  assumes "assess_body sha at_time fresh p db = Inr (s, db')" and "prepared_ok p" and "ledger_ok sha db"
  shows "ledger_ok sha db' \<and> ledger_kept db db'"
proof -
  note p = assms(2) [unfolded prepared_ok_def Let_def]
  obtain v where v: "v \<in> set (versions db)" "version_key v = (pp_course p, pp_rubric p, pp_version p)"
    "vr_digest v = vr_digest (pp_row p)" "vr_approval v \<noteq> None"
    using assess_body_approved [OF assms(1)] by blast
  show ?thesis
  proof (cases "db' = db")
    case False
    let ?row = "\<lparr>ra_course = pp_course p, ra_submission = am_submission (pp_result p), ra_request = pp_request p,
             ra_request_digest = pp_request_digest p, ra_result = s\<rparr>"
    obtain rs ts where s: "s = stored at_time fresh p"
      and f: "find (\<lambda>x. request_key x = (pp_course p, am_submission (pp_result p), pp_request p)) (assessments db) = None"
        "sa_id s \<notin> (\<lambda>x. sa_id (ra_result x)) ` set (assessments db)"
      and b: "bind_row receipt_key receipt_value (receipt_of sha p) (receipts db) = Inr rs"
        "bind_row run_key te_tests (test_run_of sha p) (test_runs db) = Inr ts"
      and db': "db' = audit at_time ''assessed_offline'' (pp_course p) (pp_actor p) (sa_id s)
         (db\<lparr>receipts := rs, test_runs := ts, assessments := assessments db @ [?row]\<rparr>)"
      using assess_body_Inr [OF assms(1)] False by blast
    have k: "ledger_kept db db'"
      using source_table.grows [OF b(1)] test_table.grows [OF b(2)]
      unfolding ledger_kept_def db' by (auto simp: audit_def intro!: exI [of _ "versions db"] list_all2_refl)
    obtain x where x: "x \<in> set rs" "receipt_key x = receipt_key (receipt_of sha p)"
      "receipt_value x = receipt_value (receipt_of sha p)"
      using source_table.bound [OF b(1)] by blast
    obtain y where y: "y \<in> set ts" "run_key y = run_key (test_run_of sha p)"
      using test_table.bound [OF b(2)] by blast
    have "assessment_ok db' ?row"
      using p v x y by (auto simp: assessment_ok_def Let_def db' s receipt_key_def receipt_value_def receipt_of_def
          run_key_def test_run_of_def)
    moreover have "assessment_ok db' a" if "a \<in> set (assessments db)" for a
      using assessment_ok_kept [OF _ k] that assms(3) by (auto simp: ledger_ok_def)
    moreover have "distinct (map request_key (assessments db'))"
      using assms(3) f(1) by (fastforce simp: ledger_ok_def db' find_None_iff request_key_def)
    moreover have "distinct (map (\<lambda>a. sa_id (ra_result a)) (assessments db'))"
      using assms(3) f(2) by (auto simp: ledger_ok_def db' comp_def)
    ultimately have "ledger_ok sha db'"
      using assms(3) source_table.unique [OF b(1)] test_table.unique [OF b(2)]
      by (auto simp: ledger_ok_def db')
    then show ?thesis using k by simp
  qed (use assms(3) ledger_kept_refl in simp)
qed

lemma assess_keeps:
  assumes "ledger_ok sha before" and "ledger_ok sha db"
  shows "ledger_ok sha (snd (assess sha er t f before c i n pr ev k actor db)) \<and>
    ledger_kept db (snd (assess sha er t f before c i n pr ev k actor db))"
proof (cases "\<exists>p s db'. prepare sha c i n pr ev k actor before = Inr p \<and> assess_body sha t f p db = Inr (s, db') \<and> \<not> er c")
  case True
  then obtain p s db' where p: "prepare sha c i n pr ev k actor before = Inr p"
    and b: "assess_body sha t f p db = Inr (s, db')" "\<not> er c" by blast
  then have "snd (assess sha er t f before c i n pr ev k actor db) = db'"
    by (simp add: assess_def snd_commit)
  then show ?thesis using assess_body_keeps [OF b(1) _ assms(2)] prepare_Inr [OF p assms(1)] by simp
next
  case False
  then have "snd (assess sha er t f before c i n pr ev k actor db) = db"
    by (auto simp: assess_def snd_commit split: sum.split)
  then show ?thesis using assms(2) ledger_kept_refl by simp
qed

section \<open>Later ledgers\<close>

text \<open>\<open>later sha a b\<close>: \<open>b\<close> comes from \<open>a\<close> by registrations, approvals and assessments, succeeded or
  not; an assessment may have been computed from any ledger in between.\<close>

inductive later :: "(string \<Rightarrow> string) \<Rightarrow> rubric_db \<Rightarrow> rubric_db \<Rightarrow> bool" for sha where
  same: "later sha a a"
| registered: "later sha a b \<Longrightarrow> later sha a (snd (register sha t doc actor b))"
| approved: "later sha a b \<Longrightarrow> later sha a (snd (approve sha t c i n dg actor b))"
| assessed: "later sha a before \<Longrightarrow> later sha before b \<Longrightarrow>
    later sha a (snd (assess sha er t f before c i n pr ev k actor b))"

lemma later_keeps:
  assumes "later sha a b"
  shows "ledger_ok sha a \<longrightarrow> ledger_ok sha b \<and> ledger_kept a b"
  using assms
proof induction
  case (assessed a before b er t f c i n pr ev k actor)
  show ?case
  proof
    assume "ledger_ok sha a"
    then have ok: "ledger_ok sha before" "ledger_ok sha b" and kept: "ledger_kept a b"
      using assessed.IH ledger_kept_trans by blast+
    note step = assess_keeps [OF ok, of er t f c i n pr ev k actor]
    show "ledger_ok sha (snd (assess sha er t f before c i n pr ev k actor b)) \<and>
        ledger_kept a (snd (assess sha er t f before c i n pr ev k actor b))"
      using step ledger_kept_trans [OF kept] by simp
  qed
qed (use register_keeps approve_keeps ledger_kept_refl ledger_kept_trans in blast)+

lemma init_ledger_ok: "ledger_ok sha init_rubric_db"
  by (simp add: ledger_ok_def init_rubric_db_def)

lemma reachable_ledger: "later sha init_rubric_db db \<Longrightarrow> ledger_ok sha db"
  using later_keeps init_ledger_ok by blast

section \<open>Requests at a later time\<close>

lemma list_all2_left: "list_all2 P xs ys \<Longrightarrow> x \<in> set xs \<Longrightarrow> \<exists>y\<in>set ys. P x y"
  by (induction rule: list_all2_induct) auto

lemma read_version_again:
  assumes "read_version sha c i n a = Inr v" and "ledger_ok sha b" and "v \<in> set (versions b)"
  shows "read_version sha c i n b = Inr v"
proof -
  have "find (\<lambda>r. version_key r = (c, i, n)) (versions b) = Some v"
    using assms read_version_Inr [OF assms(1)] by (intro find_key_value) (auto simp: ledger_ok_def)
  moreover have "vr_digest v = content_hash sha (rubric_json (vr_document v))"
    using assms(2,3) by (auto simp: ledger_ok_def version_ok_def)
  moreover have "is_identifier c \<and> is_identifier i \<and> 0 < n"
    using assms(1) by (auto simp: read_version_def named_def)
  ultimately show ?thesis by (simp add: read_version_def named_def require_def)
qed

lemma approved_kept:
  assumes "ledger_kept a b" and "v \<in> set (versions a)" and "vr_approval v \<noteq> None"
  shows "v \<in> set (versions b)"
proof -
  obtain w where w: "w \<in> set (versions b)" "version_kept v w" using kept_version [OF assms(1,2)] by blast
  then have "w\<lparr>vr_approval := None\<rparr> = v\<lparr>vr_approval := None\<rparr>" "vr_approval w = vr_approval v"
    using assms(3) by (auto simp: version_kept_def)
  then have "w = v" by (cases v; cases w) simp
  then show ?thesis using w(1) by simp
qed

lemma approved_read_later:
  assumes "read_version sha c i n a = Inr v" and "vr_approval v \<noteq> None" and "ledger_ok sha a" and "later sha a b"
  shows "read_version sha c i n b = Inr v"
proof -
  have "ledger_ok sha b" "ledger_kept a b" using later_keeps [OF assms(4)] assms(3) by blast+
  then show ?thesis
    using read_version_again [OF assms(1)] approved_kept [OF _ _ assms(2)] read_version_Inr [OF assms(1)] by blast
qed

lemma assess_succeeded:
  assumes "assess sha er t f before c i n profile ev k actor db = (Inr s, db')"
  shows "\<exists>p. prepare sha c i n profile ev k actor before = Inr p \<and> assess_body sha t f p db = Inr (s, db')"
  using assms by (auto simp: assess_def commit_def split: sum.split_asm if_split_asm)

lemma prepare_later:
  assumes "prepare sha c i n profile ev k actor a = Inr p" and "ledger_ok sha a" and "later sha a b"
  shows "prepare sha c i n profile ev k actor b = Inr p"
proof -
  have "read_version sha c i n a = Inr (pp_row p)" "vr_approval (pp_row p) \<noteq> None"
    using prepare_Inr [OF assms(1,2)] by blast+
  then have "read_version sha c i n b = read_version sha c i n a"
    using approved_read_later assms(2,3) by metis
  then show ?thesis using assms(1) by (simp add: prepare_def get_rubric_def)
qed

lemma assess_body_later:
  assumes "assess_body sha t f p db = Inr (s, db')" and "prepared_ok p" and "ledger_ok sha db" and "later sha db' db2"
  shows "assess_body sha t2 f2 p db2 = Inr (s, db2)"
proof -
  have ok: "ledger_ok sha db'" "ledger_kept db db'" using assess_body_keeps [OF assms(1-3)] by blast+
  have ok2: "ledger_ok sha db2" "ledger_kept db' db2" using later_keeps [OF assms(4)] ok by blast+
  obtain v where v: "read_version sha (pp_course p) (pp_rubric p) (pp_version p) db = Inr v"
    "vr_digest v = vr_digest (pp_row p)" "vr_approval v \<noteq> None"
    using assms(1) by (auto simp: assess_body_def rbind_Inr_iff)
  have "v \<in> set (versions db2)"
    using approved_kept [OF ledger_kept_trans [OF ok(2) ok2(2)] _ v(3)] read_version_Inr [OF v(1)] by blast
  then have read: "read_version sha (pp_course p) (pp_rubric p) (pp_version p) db2 = Inr v"
    by (rule read_version_again [OF v(1) ok2(1)])
  let ?key = "(pp_course p, am_submission (pp_result p), pp_request p)"
  have "\<exists>x\<in>set (assessments db'). request_key x = ?key \<and> ra_request_digest x = pp_request_digest p \<and> ra_result x = s"
    using assess_body_Inr [OF assms(1)] by (auto simp: request_key_def)
  then obtain x where x: "x \<in> set (assessments db2)" "request_key x = ?key"
    "ra_request_digest x = pp_request_digest p" "ra_result x = s"
    using ok2(2) set_mono_prefix by (auto simp: ledger_kept_def)
  have "find (\<lambda>y. request_key y = ?key) (assessments db2) = Some x"
    using ok2(1) x by (intro find_key_value) (auto simp: ledger_ok_def)
  then show ?thesis using v read x by (simp add: assess_body_def require_def)
qed

lemma source_conflict:
  assumes "ledger_ok sha db" and "x \<in> set (assessments db)" and "ra_course x = pp_course p"
    and "am_submission (pp_result p) = ra_submission x"
    and "am_source (pp_result p) \<noteq> am_source (ra_result x) \<or> am_assignment (pp_result p) \<noteq> am_assignment (ra_result x)"
    and "prepared_ok p" and "read_version sha (pp_course p) (pp_rubric p) (pp_version p) db = Inr (pp_row p)"
    and "vr_approval (pp_row p) \<noteq> None"
    and "(pp_course p, am_submission (pp_result p), pp_request p) \<notin> request_key ` set (assessments db)"
  shows "assess_body sha t f p db = Inl RubricConflict"
proof -
  obtain y where y: "y \<in> set (receipts db)" "receipt_key y = (ra_course x, ra_submission x)"
    "rc_assignment y = am_assignment (ra_result x)" "rc_source y = am_source (ra_result x)"
    using assms(1,2) by (auto simp: ledger_ok_def assessment_ok_def Let_def)
  have "receipt_value y \<noteq> receipt_value (receipt_of sha p)"
    using y assms(5,6) by (auto simp: receipt_value_def receipt_of_def prepared_ok_def Let_def)
  then have "bind_row receipt_key receipt_value (receipt_of sha p) (receipts db) = Inl RubricConflict"
    using y assms(1,3,4) by (intro source_table.refused) (auto simp: ledger_ok_def receipt_key_def receipt_of_def)
  moreover have "find (\<lambda>x. request_key x = (pp_course p, am_submission (pp_result p), pp_request p)) (assessments db) = None"
    using assms(9) by (force simp: find_None_iff)
  ultimately show ?thesis using assms(7,8) by (simp add: assess_body_def require_def bind_source_def)
qed

end
