(* ===== verification/Rubric_Scenario.thy ===== *)
theory Rubric_Scenario
  imports "HOL-Library.Multiset" Rubric_Ledger
begin

text \<open>
  Concrete documents for the rubric engine and its ledger: a rubric with a criterion of each kind,
  two sets of evidence for it, a profile, and the ledger after registration, approval and a first
  assessment. The properties are applied to them.
\<close>

section \<open>Small documents are copied\<close>

text \<open>A bound on the length of the canonical text that does not compute the text.\<close>

fun weight :: "json \<Rightarrow> nat" where
  "weight JNull = 4"
| "weight (JBool b) = 5"
| "weight (JInt i) = length (show_int i)"
| "weight (JFloat r) = length r"
| "weight (JStr s) = 2 + 6 * length s"
| "weight (JArr xs) = 2 + sum_list (map (\<lambda>x. Suc (weight x)) xs)"
| "weight (JObj ms) = 2 + sum_list (map (\<lambda>p. 4 + 6 * length (fst p) + weight (snd p)) ms)"
| "weight _ = 0"

fun printable :: "json \<Rightarrow> bool" where
  "printable (JArr xs) = list_all printable xs"
| "printable (JObj ms) = list_all (\<lambda>p. printable (snd p)) ms"
| "printable JNonFinite = False"
| "printable JObject = False"
| "printable _ = True"

lemma length_quoted: "length (quoted s) \<le> 2 + 6 * length s"
proof -
  have "length (escape_char c) \<le> 6" for c by (simp add: escape_char_def Let_def)
  then have "length (concat (map escape_char s)) \<le> 6 * length s"
    by (induction s) (auto intro: add_mono)
  then show ?thesis by (simp add: quoted_def)
qed

lemma length_join: "length (join [c] ts) \<le> sum_list (map (\<lambda>t. Suc (length t)) ts)"
  by (induction "[c]" ts rule: join.induct) auto

lemma sum_list_sort: "sum_list (map f (sort_key g xs)) = (sum_list (map f xs) :: nat)"
  by (metis mset_map mset_sort sum_mset_sum_list)

lemma dumps_length: "printable v \<Longrightarrow> \<exists>raw. dumps v = Inr raw \<and> length raw \<le> weight v"
proof (induction v rule: dumps.induct)
  case (6 xs)
  have "\<exists>ts. rmapM dumps ys = Inr ts \<and> sum_list (map (\<lambda>t. Suc (length t)) ts) \<le> sum_list (map (\<lambda>x. Suc (weight x)) ys)"
    if "set ys \<subseteq> set xs" for ys
    using that 6 by (induction ys) (fastforce simp: list_all_iff)+
  then obtain ts where "rmapM dumps xs = Inr ts"
    "sum_list (map (\<lambda>t. Suc (length t)) ts) \<le> sum_list (map (\<lambda>x. Suc (weight x)) xs)" by blast
  then show ?case using length_join [of "CHR '',''" ts] by simp
next
  case (7 ms)
  let ?f = "\<lambda>p. rbind (dumps (snd p)) (\<lambda>t. Inr (fst p, t))"
  let ?l = "\<lambda>p. Suc (length (quoted (fst p) @ '':'' @ snd p))"
  have "\<exists>ps. rmapM ?f ys = Inr ps \<and>
      sum_list (map ?l ps) \<le> sum_list (map (\<lambda>p. 4 + 6 * length (fst p) + weight (snd p)) ys)"
    if "set ys \<subseteq> set ms" for ys
    using that
  proof (induction ys)
    case (Cons y ys)
    obtain t where t: "dumps (snd y) = Inr t" "length t \<le> weight (snd y)"
      using 7(1) [of y] 7(2) Cons.prems by (auto simp: list_all_iff)
    obtain ps where "rmapM ?f ys = Inr ps"
      "sum_list (map ?l ps) \<le> sum_list (map (\<lambda>p. 4 + 6 * length (fst p) + weight (snd p)) ys)"
      using Cons by auto
    then show ?case using t length_quoted [of "fst y"] by (intro exI [of _ "(fst y, t) # ps"]) simp
  qed simp
  then obtain ps where ps: "rmapM ?f ms = Inr ps"
    "sum_list (map ?l ps) \<le> sum_list (map (\<lambda>p. 4 + 6 * length (fst p) + weight (snd p)) ms)" by blast
  let ?ts = "map (\<lambda>p. quoted (fst p) @ '':'' @ snd p) (sort_key fst ps)"
  have "sum_list (map (\<lambda>t. Suc (length t)) ?ts) = sum_list (map ?l ps)"
    using sum_list_sort [of ?l fst ps] by (simp add: comp_def)
  then show ?case using ps length_join [of "CHR '',''" ?ts] by simp
qed (use length_quoted in auto)

lemma copied: "printable v \<Longrightarrow> weight v \<le> 1024 * 1024 \<Longrightarrow> copy_bounded v = Inr v"
  using dumps_length [of v] by (auto simp: copy_bounded_def)

section \<open>Documents\<close>

definition sample_sha :: "string \<Rightarrow> string" where
  "sample_sha s = ''h''"

definition level_doc :: "string \<Rightarrow> string \<Rightarrow> json" where
  "level_doc i ratio = JObj [(''level_id'', JStr i), (''ratio'', JStr ratio), (''description'', JStr ''level'')]"

definition tests_doc :: json where
  "tests_doc = JObj
     [(''criterion_id'', JStr ''tests''), (''title'', JStr ''Tests''), (''description'', JStr ''Cases''),
      (''maximum_points'', JStr ''60.0''), (''required'', JBool True), (''evaluator_kind'', JStr ''deterministic''),
      (''levels'', JArr [level_doc ''none'' ''0'', level_doc ''half'' ''0.50'', level_doc ''full'' ''1'']),
      (''evidence'', JObj [(''kind'', JStr ''test_case_results''), (''case_ids'', JArr [JStr ''t1'', JStr ''t2''])]),
      (''rule'', JObj [(''operator'', JStr ''passed_case_count''), (''all_cases_must_have_valid_results'', JBool True),
         (''level_by_count'', JObj [(''0'', JStr ''none''), (''1'', JStr ''half''), (''2'', JStr ''full'')])]),
      (''infrastructure_failure'', JStr ''blocked_not_zero'')]"

definition style_doc :: json where
  "style_doc = JObj
     [(''criterion_id'', JStr ''style''), (''title'', JStr ''Style''), (''description'', JStr ''Review''),
      (''maximum_points'', JStr ''40''), (''required'', JBool True), (''evaluator_kind'', JStr ''instructor''),
      (''levels'', JArr [level_doc ''poor'' ''0.0'', level_doc ''good'' ''1.0'']),
      (''evidence'', JObj [(''kind'', JStr ''source_review''), (''requires_source_digest'', JBool True),
         (''requires_file_and_line_reference'', JBool True)]),
      (''review_reason_required'', JBool True)]"

definition rubric_doc :: json where
  "rubric_doc = JObj
     [(''schema_version'', JStr ''autograde.rubric.v1''), (''course_key'', JStr ''cs1''),
      (''assignment_id'', JStr ''hw1''), (''rubric_id'', JStr ''r1''), (''version'', JInt 1), (''title'', JStr ''Homework''),
      (''scoring'', JObj [(''method'', JStr ''weighted_levels.v1''), (''maximum_points'', JStr ''100.00''),
         (''decimal_places_display'', JInt 1), (''rounding'', JStr ''half_up_after_total''),
         (''incomplete_total'', JStr ''null''), (''not_applicable'', JStr ''requires_approved_exception'')]),
      (''criteria'', JArr [tests_doc, style_doc])]"

abbreviation a_digest :: string where "a_digest \<equiv> replicate 64 (CHR ''a'')"
abbreviation b_digest :: string where "b_digest \<equiv> replicate 64 (CHR ''b'')"

definition evidence_doc :: "string \<Rightarrow> string \<Rightarrow> json" where
  "evidence_doc source second = JObj
     [(''schema_version'', JStr ''autograde.rubric.evidence.v1''), (''course_key'', JStr ''cs1''),
      (''assignment_id'', JStr ''hw1''), (''submission_id'', JStr ''s1''), (''source_digest'', JStr source),
      (''grading_run_id'', JStr ''g1''), (''rubric_digest'', JStr ''h''),
      (''files'', JArr [JObj [(''path'', JStr ''src/main.py''), (''sha256'', JStr a_digest), (''line_count'', JInt 10)]]),
      (''tests'', JArr [JObj [(''case_id'', JStr ''t1''), (''status'', JStr ''passed'')],
                       JObj [(''case_id'', JStr ''t2''), (''status'', JStr second)]]),
      (''reviews'', JArr [JObj [(''criterion_id'', JStr ''style''), (''level_id'', JStr ''good''),
         (''reviewer_id'', JStr ''kim''), (''reason'', JStr ''clear''), (''source_digest'', JStr source),
         (''references'', JArr [JObj [(''path'', JStr ''src/main.py''), (''sha256'', JStr a_digest),
            (''start_line'', JInt 1), (''end_line'', JInt 5)]])]])]"

definition profile_doc :: json where
  "profile_doc = JObj [(''schema_version'', JStr ''autograde.rubric.profile.v1''), (''course_key'', JStr ''cs1''),
     (''assessment'', JStr ''HybridRubric'')]"


section \<open>The checked documents\<close>

definition tests_criterion :: criterion where
  "tests_criterion = \<lparr>cr_id = ''tests'', cr_title = ''Tests'', cr_description = ''Cases'', cr_maximum = ''60'',
     cr_levels = [\<lparr>lv_id = ''none'', lv_ratio = ''0'', lv_description = ''level''\<rparr>,
       \<lparr>lv_id = ''half'', lv_ratio = ''0.5'', lv_description = ''level''\<rparr>,
       \<lparr>lv_id = ''full'', lv_ratio = ''1'', lv_description = ''level''\<rparr>],
     cr_evaluator = Deterministic [''t1'', ''t2''] [''none'', ''half'', ''full'']\<rparr>"

definition style_criterion :: criterion where
  "style_criterion = \<lparr>cr_id = ''style'', cr_title = ''Style'', cr_description = ''Review'', cr_maximum = ''40'',
     cr_levels = [\<lparr>lv_id = ''poor'', lv_ratio = ''0'', lv_description = ''level''\<rparr>,
       \<lparr>lv_id = ''good'', lv_ratio = ''1'', lv_description = ''level''\<rparr>],
     cr_evaluator = Instructor ''source_review''\<rparr>"

definition sample_rubric :: rubric where
  "sample_rubric = \<lparr>rb_course = ''cs1'', rb_assignment = ''hw1'', rb_id = ''r1'', rb_version = 1,
     rb_title = ''Homework'', rb_places = 1, rb_maximum = ''100'',
     rb_criteria = [tests_criterion, style_criterion]\<rparr>"

lemmas text_checks = is_identifier_def is_text_def is_digest_def ascii_alnum_def ascii_digit_def code_def
  identifier_value_def text_value_def digest_value_def

lemma sample_identifiers:
  "is_identifier ''tests''" "is_identifier ''style''" "is_identifier ''none''" "is_identifier ''half''"
  "is_identifier ''full''" "is_identifier ''poor''" "is_identifier ''good''" "is_identifier ''cs1''" "is_identifier ''hw1''"
  "is_identifier ''r1''" "is_identifier ''t1''" "is_identifier ''t2''" "is_identifier ''s1''" "is_identifier ''g1''"
  "is_identifier ''kim''" "is_identifier ''q1''" "is_identifier ''q2''" "is_identifier ''op''"
  by (simp_all add: text_checks)

lemma sample_texts:
  "is_text 4000 ''level''" "is_text 200 ''Tests''" "is_text 4000 ''Cases''" "is_text 200 ''Style''"
  "is_text 4000 ''Review''" "is_text 200 ''Homework''" "is_text 4000 ''clear''" "is_text 512 ''src/main.py''"
  by (simp_all add: text_checks) code_simp+

lemma sample_digest: "is_digest a_digest" "is_digest b_digest"
  by (simp_all add: text_checks list_all_iff)

lemma sample_path: "is_path ''src/main.py''"
  by (simp add: is_path_def sample_texts code_def starts_with_def)

lemma sample_lengths: "length (show_nat 10) = 2" "length (show_nat 5) = 1" "length (show_nat (Suc 0)) = 1"
  by code_simp+

lemma sample_numbers:
  "decimal_value 1 (JStr ''0'') = Inr (Dec 0 0)" "decimal_value 1 (JStr ''0.50'') = Inr (Dec 50 2)"
  "decimal_value 1 (JStr ''1'') = Inr (Dec 1 0)" "decimal_value 1 (JStr ''0.0'') = Inr (Dec 0 1)"
  "decimal_value 1 (JStr ''1.0'') = Inr (Dec 10 1)" "decimal_value 10000 (JStr ''60.0'') = Inr (Dec 600 1)"
  "decimal_value 10000 (JStr ''40'') = Inr (Dec 40 0)" "decimal_value 500000 (JStr ''100.00'') = Inr (Dec 10000 2)"
  by (simp_all add: decimal_value_def is_number_def integer_part_def fraction_part_def ascii_digit_def code_def
      decimal_def char_digit_def dec_value_def Let_def)

lemma show_small: "show_nat 0 = ''0''" "show_nat (Suc 0) = ''1''" "show_nat 2 = ''2''" "show_nat (Suc (Suc 0)) = ''2''"
  by code_simp+

lemma sample_digits:
  "digit_char 0 = CHR ''0''" "digit_char (Suc 0) = CHR ''1''" "digit_char (Suc (Suc (Suc (Suc 0)))) = CHR ''4''"
  "digit_char (Suc (Suc (Suc (Suc (Suc 0))))) = CHR ''5''" "digit_char (Suc (Suc (Suc (Suc (Suc (Suc 0)))))) = CHR ''6''"
  "digit_char 3 = CHR ''3''" "digit_char 4 = CHR ''4''" "digit_char 6 = CHR ''6''"
  by code_simp+

lemma sample_decimals:
  "decimal_text (Dec 0 0) = ''0''" "decimal_text (Dec 50 2) = ''0.5''" "decimal_text (Dec 1 0) = ''1''"
  "decimal_text (Dec 0 1) = ''0''" "decimal_text (Dec 10 1) = ''1''" "decimal_text (Dec 600 1) = ''60''"
  "decimal_text (Dec 40 0) = ''40''" "decimal_text (Dec 10000 2) = ''100''"
  by (simp_all add: decimal_text_def format_f_def rstrip_char_def show_nat.simps sample_digits numeral_2_eq_2 Let_def)

lemma sample_keys: "count_keys (Suc (Suc 0)) = [''0'', ''1'', ''2'']"
  by (simp add: count_keys_def show_small)

lemma sample_decimal_values:
  "decimal ''0'' = Dec 0 0" "decimal ''0.5'' = Dec 5 1" "decimal ''1'' = Dec 1 0" "decimal ''60'' = Dec 60 0"
  "decimal ''40'' = Dec 40 0" "decimal ''100'' = Dec 100 0"
  by (simp_all add: decimal_def char_digit_def code_def Let_def)

lemmas sample_values = sample_keys sample_identifiers sample_texts sample_digest sample_numbers sample_decimals
  sample_decimal_values show_small identifier_value_def text_value_def digest_value_def

lemmas member_simps = checked_field_def member_def object_fields_def same_fields_def require_def
  array_def exactly_def bounded_int_def

lemma tests_doc_checked: "check_criterion tests_doc = Inr tests_criterion"
  unfolding check_criterion_def tests_doc_def tests_criterion_def level_doc_def
  by (simp add: sample_values member_simps check_levels_def check_level_def levels_scale_def
      check_deterministic_def evaluator_kind_def criterion_fields_def insert_commute
      level_reference_def monotone_rule_def ratio_of_def dec_value_def del: One_nat_def)

lemma style_doc_checked: "check_criterion style_doc = Inr style_criterion"
  unfolding check_criterion_def style_doc_def style_criterion_def level_doc_def
  by (simp add: sample_values member_simps check_levels_def check_level_def levels_scale_def
      check_instructor_def evaluator_kind_def criterion_fields_def review_kind_def insert_commute dec_value_def del: One_nat_def)

lemma rubric_doc_small: "copy_bounded rubric_doc = Inr rubric_doc"
  by (rule copied) (simp_all add: rubric_doc_def tests_doc_def style_doc_def level_doc_def show_int_def show_small)

lemma rubric_doc_checked: "validate_rubric rubric_doc = Inr sample_rubric"
proof -
  have hundred: "dec_value (Dec 10000 2) = 100" by (simp add: dec_value_def)
  have "check_rubric rubric_doc = Inr sample_rubric"
    unfolding check_rubric_def rubric_doc_def sample_rubric_def
    by (simp add: sample_values member_simps tests_doc_checked style_doc_checked insert_commute
        total_weight_def tests_criterion_def style_criterion_def hundred del: One_nat_def)
  then show ?thesis by (simp add: validate_rubric_def rubric_doc_small)
qed

definition sample_review :: "string \<Rightarrow> review" where
  "sample_review source = \<lparr>rv_criterion = ''style'', rv_level = ''good'', rv_reviewer = ''kim'', rv_reason = ''clear'',
     rv_source = source, rv_references = [\<lparr>rf_path = ''src/main.py'', rf_sha = a_digest, rf_start = 1, rf_end = 5\<rparr>]\<rparr>"

definition sample_evidence :: "string \<Rightarrow> case_status \<Rightarrow> evidence" where
  "sample_evidence source second = \<lparr>ev_course = ''cs1'', ev_assignment = ''hw1'', ev_submission = ''s1'',
     ev_source = source, ev_run = ''g1'', ev_rubric = ''h'',
     ev_files = [\<lparr>sf_path = ''src/main.py'', sf_sha = a_digest, sf_lines = 10\<rparr>],
     ev_tests = [\<lparr>tr_case = ''t1'', tr_status = Passed\<rparr>, \<lparr>tr_case = ''t2'', tr_status = second\<rparr>],
     ev_reviews = [sample_review source]\<rparr>"

lemma evidence_doc_small: "copy_bounded (evidence_doc a_digest ''failed'') = Inr (evidence_doc a_digest ''failed'')"
  "copy_bounded (evidence_doc a_digest ''passed'') = Inr (evidence_doc a_digest ''passed'')"
  "copy_bounded (evidence_doc b_digest ''passed'') = Inr (evidence_doc b_digest ''passed'')"
  by (rule copied; simp add: evidence_doc_def show_int_def sample_lengths)+

lemma evidence_doc_checked:
  "validate_evidence sample_sha (evidence_doc a_digest ''failed'') sample_rubric = Inr (sample_evidence a_digest Failed)"
  "validate_evidence sample_sha (evidence_doc a_digest ''passed'') sample_rubric = Inr (sample_evidence a_digest Passed)"
  "validate_evidence sample_sha (evidence_doc b_digest ''passed'') sample_rubric = Inr (sample_evidence b_digest Passed)"
  unfolding validate_evidence_def evidence_doc_small rbind.simps
  unfolding check_evidence_def evidence_doc_def sample_evidence_def sample_review_def sample_rubric_def allowed_cases_def
      manual_criteria_def bound_cases_def is_deterministic_def tests_criterion_def style_criterion_def
  by (simp_all add: sample_values member_simps check_file_def check_case_def check_review_def check_reference_def
      path_value_def sample_path digest_value_def check_status_def case_statuses_def level_reference_def
      content_hash_def sample_sha_def insert_commute del: One_nat_def)

section \<open>The evaluation\<close>

definition sample_tally :: "string \<Rightarrow> case_status \<Rightarrow> tally" where
  "sample_tally source second =
     (let full = (second = Passed) in
      \<lparr>tl_earned = Dec (if full then 100 else 700) (if full then 0 else 1), tl_reviewed = Dec 100 0,
       tl_decisions =
         [\<lparr>pr_status = Evaluated, pr_level = Some (if full then ''full'' else ''half''), pr_reason = ''valid_case_count'',
           pr_cases = Some [''t1'', ''t2''], pr_review = None, dn_criterion = ''tests'', dn_maximum = ''60'',
           dn_earned = Some (if full then ''60'' else ''30'')\<rparr>,
          \<lparr>pr_status = Evaluated, pr_level = Some ''good'', pr_reason = ''operator_imported_review'', pr_cases = None,
           pr_review = Some (sample_review source), dn_criterion = ''style'', dn_maximum = ''40'', dn_earned = Some ''40''\<rparr>]\<rparr>)"

definition sample_assessment :: "string \<Rightarrow> case_status \<Rightarrow> assessment" where
  "sample_assessment source second =
     assessment_of sample_sha sample_rubric (sample_evidence source second) (sample_tally source second)"

lemma more_decimals: "decimal_text (Dec 300 (Suc 0)) = ''30''" "decimal_text (Dec 60 0) = ''60''"
  using sample_digits by (simp_all add: decimal_text_eq format_f_def show_nat.simps)

lemma sample_parts:
  "cr_id tests_criterion = ''tests''" "cr_id style_criterion = ''style''"
  "decimal (cr_maximum tests_criterion) = Dec 60 0" "decimal (cr_maximum style_criterion) = Dec 40 0"
  "cr_evaluator tests_criterion = Deterministic [''t1'', ''t2''] [''none'', ''half'', ''full'']"
  "cr_evaluator style_criterion = Instructor ''source_review''"
  "find (\<lambda>l. lv_id l = ''half'') (cr_levels tests_criterion) = Some \<lparr>lv_id = ''half'', lv_ratio = ''0.5'', lv_description = ''level''\<rparr>"
  "find (\<lambda>l. lv_id l = ''full'') (cr_levels tests_criterion) = Some \<lparr>lv_id = ''full'', lv_ratio = ''1'', lv_description = ''level''\<rparr>"
  "find (\<lambda>l. lv_id l = ''good'') (cr_levels style_criterion) = Some \<lparr>lv_id = ''good'', lv_ratio = ''1'', lv_description = ''level''\<rparr>"
  "rb_criteria sample_rubric = [tests_criterion, style_criterion]"
  "case_state (sample_evidence source second) ''t1'' = Passed"
  "case_state (sample_evidence source second) ''t2'' = second"
  "find (\<lambda>v. rv_criterion v = ''style'') (ev_reviews (sample_evidence source second)) = Some (sample_review source)"
  "rv_level (sample_review source) = ''good''"
  by (simp_all add: case_state_def sample_evidence_def sample_review_def tests_criterion_def style_criterion_def
      sample_decimal_values sample_rubric_def)

lemma sample_decisions:
  "decide (sample_evidence source Passed) tests_criterion = Inr (Some (Dec 60 0), hd (tl_decisions (sample_tally source Passed)))"
  "decide (sample_evidence source Failed) tests_criterion = Inr (Some (Dec 300 1), hd (tl_decisions (sample_tally source Failed)))"
  "decide (sample_evidence source second) style_criterion = Inr (Some (Dec 40 0), tl_decisions (sample_tally source second) ! 1)"
  by (simp_all add: decide_def run_plugin_def sample_parts deterministic_result_def instructor_result_def
      sample_tally_def sample_decimal_values sample_decimals more_decimals dec_mult_def Let_def)

lemma sample_evaluated:
  "evaluate_checked sample_sha sample_rubric (sample_evidence source Passed) = Inr (sample_assessment source Passed)"
  "evaluate_checked sample_sha sample_rubric (sample_evidence source Failed) = Inr (sample_assessment source Failed)"
  by (simp_all add: evaluate_checked_def sample_parts sample_decisions sample_assessment_def sample_tally_def
      dec_add_def scaled_def)

lemma documents_evaluated:
  "evaluate sample_sha rubric_doc (evidence_doc a_digest ''failed'') = Inr (sample_assessment a_digest Failed)"
  "evaluate sample_sha rubric_doc (evidence_doc a_digest ''passed'') = Inr (sample_assessment a_digest Passed)"
  by (simp_all add: evaluate_def rubric_doc_checked evidence_doc_checked sample_evaluated)

section \<open>The ledger\<close>

definition ledger0 :: rubric_db where
  "ledger0 = snd (register sample_sha ''T0'' rubric_doc ''op'' init_rubric_db)"

definition ledger1 :: rubric_db where
  "ledger1 = snd (approve sample_sha ''T1'' ''cs1'' ''r1'' 1 ''h'' ''op'' ledger0)"

definition sample_version :: "(string \<times> string) option \<Rightarrow> version_row" where
  "sample_version approval = \<lparr>vr_course = ''cs1'', vr_rubric = ''r1'', vr_version = 1, vr_digest = ''h'',
     vr_document = sample_rubric, vr_registered_by = ''op'', vr_registered_at = ''T0'', vr_approval = approval\<rparr>"

lemma sample_read:
  "versions db = [sample_version a] \<Longrightarrow> read_version sample_sha ''cs1'' ''r1'' 1 db = Inr (sample_version a)"
  by (simp add: read_version_def named_def require_def sample_identifiers version_key_def sample_version_def
      content_hash_def sample_sha_def)

lemma ledger0_versions: "versions ledger0 = [sample_version None]" "assessments ledger0 = []"
    "receipts ledger0 = []" "test_runs ledger0 = []"
  using sample_read [of "audit ''T0'' ''registered'' ''cs1'' ''op'' ''h'' (init_rubric_db\<lparr>versions := [sample_version None]\<rparr>)" None]
  by (simp_all add: ledger0_def register_def named_def require_def sample_identifiers rubric_doc_checked snd_commit
      register_body_def Let_def init_rubric_db_def sample_rubric_def content_hash_def sample_sha_def sample_version_def)

lemma ledger1_versions: "versions ledger1 = [sample_version (Some (''op'', ''T1''))]" "assessments ledger1 = []"
    "receipts ledger1 = []" "test_runs ledger1 = []"
proof -
  let ?db = "audit ''T1'' ''approved_by_local_operator'' ''cs1'' ''op'' ''h''
    (ledger0\<lparr>versions := [sample_version (Some (''op'', ''T1''))]\<rparr>)"
  have "read_version sample_sha ''cs1'' ''r1'' 1 ?db = Inr (sample_version (Some (''op'', ''T1'')))"
    by (rule sample_read) simp
  moreover have "read_version sample_sha ''cs1'' ''r1'' 1 ledger0 = Inr (sample_version None)"
    by (rule sample_read) (simp add: ledger0_versions)
  moreover have "map (\<lambda>r. if version_key r = (''cs1'', ''r1'', 1) then r\<lparr>vr_approval := Some (''op'', ''T1'')\<rparr> else r)
      (versions ledger0) = [sample_version (Some (''op'', ''T1''))]"
    by (simp add: ledger0_versions version_key_def sample_version_def)
  moreover have "vr_digest (sample_version None) = ''h''" "vr_approval (sample_version None) = None"
    by (simp_all add: sample_version_def)
  ultimately have eq: "ledger1 = ?db"
    by (simp add: ledger1_def approve_def sample_identifiers snd_commit approve_body_def)
  then show "versions ledger1 = [sample_version (Some (''op'', ''T1''))]" "assessments ledger1 = []"
    "receipts ledger1 = []" "test_runs ledger1 = []"
    unfolding eq by (simp_all add: ledger0_versions)
qed

lemma ledger1_later: "later sample_sha init_rubric_db ledger1"
  unfolding ledger1_def ledger0_def by (intro later.intros)

section \<open>The first assessment\<close>

definition sample_plan :: plan where
  "sample_plan = \<lparr>pl_course = ''cs1'', pl_assessment = ''HybridRubric'',
     pl_evaluators = [''deterministic'', ''instructor''], pl_digest = ''h''\<rparr>"

lemma sample_compiled: "compile_profile sample_sha profile_doc = Inr sample_plan"
  by (simp add: compile_profile_def profile_doc_def member_simps identifier_value_def sample_identifiers insert_commute
      variants_def content_hash_def sample_sha_def sample_plan_def)

definition sample_prepared :: "string \<Rightarrow> case_status \<Rightarrow> prepared" where
  "sample_prepared source second = \<lparr>pp_course = ''cs1'', pp_rubric = ''r1'', pp_version = 1,
     pp_row = sample_version (Some (''op'', ''T1'')), pp_evidence = sample_evidence source second,
     pp_result = sample_assessment source second, pp_plan = sample_plan, pp_request = ''q1'', pp_actor = ''op'',
     pp_request_digest = ''h''\<rparr>"

lemma sample_again:
  "evaluate sample_sha (rubric_json sample_rubric) (evidence_json (sample_evidence a_digest Failed)) =
     Inr (sample_assessment a_digest Failed)"
  "evaluate sample_sha (rubric_json sample_rubric) (evidence_json (sample_evidence b_digest Passed)) =
     Inr (sample_assessment b_digest Passed)"
proof -
  have r: "check_rubric (rubric_json sample_rubric) = Inr sample_rubric"
    using rubric_doc_checked by (rule validated_again)
  have e: "check_evidence sample_sha sample_rubric (evidence_json (sample_evidence a_digest Failed)) =
      Inr (sample_evidence a_digest Failed)"
    "check_evidence sample_sha sample_rubric (evidence_json (sample_evidence b_digest Passed)) =
      Inr (sample_evidence b_digest Passed)"
    using evidence_doc_checked check_evidence_again by (auto simp: validate_evidence_def rbind_Inr_iff)
  have c: "copy_bounded (rubric_json sample_rubric) = Inr (rubric_json sample_rubric)"
    "copy_bounded (evidence_json (sample_evidence a_digest Failed)) = Inr (evidence_json (sample_evidence a_digest Failed))"
    "copy_bounded (evidence_json (sample_evidence b_digest Passed)) = Inr (evidence_json (sample_evidence b_digest Passed))"
    by (rule copied; simp add: rubric_json_def sample_rubric_def criterion_json_def tests_criterion_def style_criterion_def
        level_json_def sample_keys evidence_json_def sample_evidence_def sample_review_def file_json_def case_json_def
        review_json_def reference_json_def show_int_def sample_lengths)+
  show "evaluate sample_sha (rubric_json sample_rubric) (evidence_json (sample_evidence a_digest Failed)) =
     Inr (sample_assessment a_digest Failed)"
    "evaluate sample_sha (rubric_json sample_rubric) (evidence_json (sample_evidence b_digest Passed)) =
     Inr (sample_assessment b_digest Passed)"
    by (simp_all add: evaluate_def validate_rubric_def validate_evidence_def c r e sample_evaluated)
qed

lemma sample_prepare:
  assumes "versions db = [sample_version (Some (''op'', ''T1''))]"
  shows "prepare sample_sha ''cs1'' ''r1'' 1 profile_doc (evidence_doc a_digest ''failed'') ''q1'' ''op'' db =
      Inr (sample_prepared a_digest Failed)"
    "prepare sample_sha ''cs1'' ''r1'' 1 profile_doc (evidence_doc b_digest ''passed'') ''q2'' ''op'' db =
      Inr (sample_prepared b_digest Passed \<lparr>pp_request := ''q2''\<rparr>)"
proof -
  have v: "vr_document (sample_version a) = sample_rubric" "vr_approval (sample_version a) = a" "vr_digest (sample_version a) = ''h''" for a
    by (simp_all add: sample_version_def)
  have c: "require_compatible sample_plan sample_rubric = Inr ()"
    by (simp add: require_compatible_def require_def sample_plan_def sample_parts sample_rubric_def kind_name_def is_deterministic_def)
  show "prepare sample_sha ''cs1'' ''r1'' 1 profile_doc (evidence_doc a_digest ''failed'') ''q1'' ''op'' db =
      Inr (sample_prepared a_digest Failed)"
    "prepare sample_sha ''cs1'' ''r1'' 1 profile_doc (evidence_doc b_digest ''passed'') ''q2'' ''op'' db =
      Inr (sample_prepared b_digest Passed \<lparr>pp_request := ''q2''\<rparr>)"
    by (simp_all add: prepare_def named_def require_def sample_identifiers sample_compiled get_rubric_def
        sample_read [OF assms] v c evidence_doc_checked sample_again sample_prepared_def content_hash_def sample_sha_def)
qed

definition sample_stored :: stored_assessment where
  "sample_stored = stored ''T2'' ''f1'' (sample_prepared a_digest Failed)"

definition ledger2 :: rubric_db where
  "ledger2 = snd (assess sample_sha (\<lambda>_. False) ''T2'' ''f1'' ledger1 ''cs1'' ''r1'' 1 profile_doc
     (evidence_doc a_digest ''failed'') ''q1'' ''op'' ledger1)"

definition sample_row :: assessment_row where
  "sample_row = \<lparr>ra_course = ''cs1'', ra_submission = ''s1'', ra_request = ''q1'', ra_request_digest = ''h'',
     ra_result = sample_stored\<rparr>"

lemma first_body:
  "\<exists>db. assess_body sample_sha ''T2'' ''f1'' (sample_prepared a_digest Failed) ledger1 = Inr (sample_stored, db) \<and>
     versions db = [sample_version (Some (''op'', ''T1''))] \<and> assessments db = [sample_row]"
proof -
  have v: "vr_digest (sample_version a) = ''h''" "vr_approval (sample_version a) = a" for a
    by (simp_all add: sample_version_def)
  have s: "am_submission (sample_assessment source st) = ''s1''" for source st
    by (simp add: sample_assessment_def assessment_of_def Let_def sample_evidence_def)
  show ?thesis
    using sample_read [OF ledger1_versions(1)]
    by (simp add: assess_body_def bind_source_def bind_tests_def bind_row_def insert_assessment_def
        ledger1_versions sample_prepared_def v s Let_def sample_stored_def require_def sample_row_def)
qed

lemma first_assessment:
  "assess sample_sha (\<lambda>_. False) ''T2'' ''f1'' ledger1 ''cs1'' ''r1'' 1 profile_doc
     (evidence_doc a_digest ''failed'') ''q1'' ''op'' ledger1 = (Inr sample_stored, ledger2)"
  using first_body
  by (auto simp: ledger2_def assess_def sample_prepare(1) [OF ledger1_versions(1)] prod_eq_iff commit_def)

lemma ledger2_tables: "versions ledger2 = [sample_version (Some (''op'', ''T1''))]" "assessments ledger2 = [sample_row]"
  using first_body by (auto simp: ledger2_def assess_def sample_prepare(1) [OF ledger1_versions(1)] commit_def)

lemma sample_row_parts: "ra_course sample_row = ''cs1''" "ra_submission sample_row = ''s1''" "ra_request sample_row = ''q1''"
    "am_source (ra_result sample_row) = a_digest" "am_assignment (ra_result sample_row) = ''hw1''"
  by (simp_all add: sample_row_def sample_stored_def sample_prepared_def sample_assessment_def assessment_of_def Let_def
      sample_evidence_def sample_rubric_def)

lemma ledger2_later: "later sample_sha ledger1 ledger2" "later sample_sha init_rubric_db ledger2"
  unfolding ledger2_def by (intro later.assessed later.same ledger1_later)+

end
