(* ===== verification/Rubric_Properties.thy ===== *)
theory Rubric_Properties
  imports Rubric_Scenario
begin

text \<open>
  The properties of the rubric engine and its ledger, each with its witness on the documents of
  \<open>Rubric_Scenario\<close>.
\<close>

section \<open>The engine\<close>

text \<open>C9: \<open>evaluate\<close> raises nothing but \<open>RubricError\<close>: for every rubric document and every evidence
  document, whatever JSON values they are, no key lookup fails and no search for a level runs out,
  because the validation makes each of them succeed.\<close>

theorem evaluate_raises_rubric_error:
  assumes "evaluate sha rubric_document evidence_document = Inl e"
  shows "e = RubricError"
proof (cases "validate_rubric rubric_document")
  case (Inl e')
  then show ?thesis using assms safe_validate_rubric [of rubric_document] by (simp add: evaluate_def safe_def)
next
  case (Inr r)
  show ?thesis
  proof (cases "validate_evidence sha evidence_document r")
    case (Inl e')
    then show ?thesis using assms Inr safe_validate_evidence [of sha evidence_document r]
      by (simp add: evaluate_def safe_def)
  next
    case (Inr ev)
    then show ?thesis
      using assms \<open>validate_rubric rubric_document = Inr r\<close> evaluate_computes [of r ev sha]
        validate_rubric_ok validate_evidence_ok by (fastforce simp: evaluate_def)
  qed
qed

lemma evaluate_raises_rubric_error_witness:
  "evaluate sample_sha rubric_doc JNull = Inl RubricError \<and> RubricError = RubricError"
proof -
  have "evaluate sample_sha rubric_doc JNull = Inl RubricError"
    by (simp add: evaluate_def rubric_doc_checked validate_evidence_def copied check_evidence_def object_fields_def)
  then show ?thesis using evaluate_raises_rubric_error [of sample_sha rubric_doc JNull RubricError] by simp
qed

text \<open>C10: What an evaluation says. There is one decision per criterion, in the order of the rubric.
  A criterion has a level exactly when it is evaluated: for a deterministic criterion when all its
  cases passed or failed, the level its rule maps the count of passed cases to, and for a manual one
  the level of its review. It earns its maximum times the ratio of that level. The partial points are
  the sums over the evaluated criteria. Every decision has the status its evidence gives it, and the
  status of the whole is the gravest of them: blocked before pending before review required, and
  evaluated exactly when every criterion is, which is when there is a total.\<close>

theorem evaluation_specified:
  assumes "validate_rubric rubric_document = Inr r" and "validate_evidence sha evidence_document r = Inr e"
  shows "\<exists>a. evaluate sha rubric_document evidence_document = Inr a \<and>
    list_all2 (decision_of e) (rb_criteria r) (am_decisions a) \<and>
    text_number (am_partial_earned a) = sum_list (map (credit e) (rb_criteria r)) \<and>
    text_number (am_partial_maximum a) = sum_list (map (maximum_reached e) (rb_criteria r)) \<and>
    (am_status a = Evaluated \<longleftrightarrow> list_all (\<lambda>c. reached e c \<noteq> None) (rb_criteria r)) \<and>
    am_status a = (let states = standing e ` set (rb_criteria r) in
       if Blocked \<in> states then Blocked else if Pending \<in> states then Pending
       else if ReviewRequired \<in> states then ReviewRequired else Evaluated) \<and>
    am_total a = (if am_status a = Evaluated then Some (am_partial_earned a) else None)"
proof -
  obtain t where t: "evaluate_checked sha r e = Inr (assessment_of sha r e t)"
    "list_all2 (decision_of e) (rb_criteria r) (tl_decisions t)"
    "dec_value (tl_earned t) = sum_list (map (credit e) (rb_criteria r))"
    "dec_value (tl_reviewed t) = sum_list (map (maximum_reached e) (rb_criteria r))"
    using evaluate_computes validate_rubric_ok [OF assms(1)] validate_evidence_ok [OF assms(2)] by blast
  have "(\<forall>d\<in>set (tl_decisions t). pr_status d = Evaluated) \<longleftrightarrow> list_all (\<lambda>c. reached e c \<noteq> None) (rb_criteria r)"
    using t(2) by (induction rule: list_all2_induct) (auto simp: decision_of_def standing_reached)
  moreover
  have "pr_status ` set (tl_decisions t) = standing e ` set (rb_criteria r)"
    using t(2) by (induction rule: list_all2_induct) (auto simp: decision_of_def)
  then have w: "overall_status (tl_decisions t) = (let states = standing e ` set (rb_criteria r) in
       if Blocked \<in> states then Blocked else if Pending \<in> states then Pending
       else if ReviewRequired \<in> states then ReviewRequired else Evaluated)"
    unfolding overall_worst Let_def by simp
  ultimately show ?thesis
    using t assms unfolding w [symmetric] by (intro exI [of _ "assessment_of sha r e t"])
      (simp add: evaluate_def assessment_of_def Let_def overall_evaluated_iff)
qed

lemma evaluation_specified_witness:
  "\<exists>a. evaluate sample_sha rubric_doc (evidence_doc a_digest ''failed'') = Inr a \<and>
    text_number (am_partial_earned a) =
      sum_list (map (credit (sample_evidence a_digest Failed)) [tests_criterion, style_criterion])"
  using evaluation_specified [OF rubric_doc_checked evidence_doc_checked(1)] by (auto simp: sample_parts)

text \<open>C11: the points stay in their bounds: no evaluation earns less than nothing, more than the
  maximum of the criteria it evaluated, or more than the maximum of the rubric, and a total is out of
  the whole maximum.\<close>

theorem points_bounded:
  assumes "evaluate sha rubric_document evidence_document = Inr a"
  shows "0 \<le> text_number (am_partial_earned a) \<and>
    text_number (am_partial_earned a) \<le> text_number (am_partial_maximum a) \<and>
    text_number (am_partial_maximum a) \<le> text_number (am_maximum a) \<and>
    (am_total a \<noteq> None \<longrightarrow> text_number (am_partial_maximum a) = text_number (am_maximum a))"
proof -
  obtain r e where v: "validate_rubric rubric_document = Inr r" "validate_evidence sha evidence_document r = Inr e"
    "evaluate_checked sha r e = Inr a"
    using assms by (auto simp: evaluate_def rbind_Inr_iff)
  note ok = validate_rubric_ok [OF v(1)] validate_evidence_ok [OF v(2)]
  obtain t where t: "a = assessment_of sha r e t" "list_all2 (decision_of e) (rb_criteria r) (tl_decisions t)"
    "dec_value (tl_earned t) = sum_list (map (credit e) (rb_criteria r))"
    "dec_value (tl_reviewed t) = sum_list (map (maximum_reached e) (rb_criteria r))"
    using evaluate_computes [OF ok, of sha] v(3) by auto
  have b: "0 \<le> credit e c \<and> credit e c \<le> maximum_reached e c" if "c \<in> set (rb_criteria r)" for c
    using credit_bounds reached_level ok that by (auto simp: rubric_ok_def list_all_iff)
  have m: "maximum_reached e c \<le> text_number (cr_maximum c)" for c by (simp add: maximum_reached_def)
  have total: "text_number (am_maximum a) = sum_list (map (\<lambda>c. text_number (cr_maximum c)) (rb_criteria r))"
    using ok(1) by (simp add: rubric_ok_def t(1) assessment_of_def Let_def total_weight_value)
  have "maximum_reached e c = text_number (cr_maximum c)" if "am_total a \<noteq> None" "c \<in> set (rb_criteria r)" for c
  proof -
    have "\<forall>d\<in>set (tl_decisions t). pr_status d = Evaluated"
      using that(1) by (auto simp: t(1) assessment_of_def Let_def overall_evaluated_iff split: if_split_asm)
    then have "reached e c \<noteq> None"
      using list_all2_left [OF t(2) that(2)] standing_reached [of e c] by (auto simp: decision_of_def)
    then show ?thesis by (auto simp: maximum_reached_def)
  qed
  then have "am_total a \<noteq> None \<longrightarrow> sum_list (map (maximum_reached e) (rb_criteria r)) =
      sum_list (map (\<lambda>c. text_number (cr_maximum c)) (rb_criteria r))"
    by (metis (mono_tags, lifting) map_eq_conv)
  then show ?thesis
    using b m t(3,4) total by (auto simp: t(1) assessment_of_def Let_def intro!: sum_list_nonneg sum_list_mono)
qed

lemma points_bounded_witness:
  "0 \<le> text_number (am_partial_earned (sample_assessment a_digest Failed))"
  using points_bounded [OF documents_evaluated(1)] by simp

text \<open>C12: A better submission never earns less: when every case that passed still passes, every case
  that failed is settled, and the reviews are the same, the earned points do not fall.\<close>

theorem passed_cases_never_cost:
  assumes "validate_rubric rubric_document = Inr r"
    and "validate_evidence sha evidence_document r = Inr e" and "validate_evidence sha better_document r = Inr e'"
    and "\<And>k. case_state e k = Passed \<Longrightarrow> case_state e' k = Passed"
    and "\<And>k. case_state e k = Failed \<Longrightarrow> case_state e' k \<in> {Passed, Failed}"
    and "ev_reviews e' = ev_reviews e"
    and "evaluate sha rubric_document evidence_document = Inr a" and "evaluate sha rubric_document better_document = Inr a'"
  shows "text_number (am_partial_earned a) \<le> text_number (am_partial_earned a')"
proof -
  note ok = validate_rubric_ok [OF assms(1)] validate_evidence_ok [OF assms(2)] validate_evidence_ok [OF assms(3)]
  have earned: "text_number (am_partial_earned b) = sum_list (map (credit ev) (rb_criteria r))"
    if "evidence_ok r ev" "evaluate_checked sha r ev = Inr b" for ev b
    using evaluate_computes [OF ok(1) that(1), of sha] that(2) by (auto simp: assessment_of_def Let_def)
  have "credit e c \<le> credit e' c" if "c \<in> set (rb_criteria r)" for c
    using credit_mono [OF ok that assms(4-6)] .
  then have "sum_list (map (credit e) (rb_criteria r)) \<le> sum_list (map (credit e') (rb_criteria r))"
    by (rule sum_list_mono)
  moreover have "evaluate_checked sha r e = Inr a" "evaluate_checked sha r e' = Inr a'"
    using assms(1-3,7,8) by (simp_all add: evaluate_def)
  ultimately show ?thesis using earned [OF ok(2)] earned [OF ok(3)] by simp
qed

lemma passed_cases_never_cost_witness:
  "text_number (am_partial_earned (sample_assessment a_digest Failed)) \<le>
     text_number (am_partial_earned (sample_assessment a_digest Passed))"
proof (rule passed_cases_never_cost [OF rubric_doc_checked evidence_doc_checked(1,2) _ _ _ documents_evaluated])
  have other: "case_state (sample_evidence a_digest st) k =
      (if k = ''t1'' then Passed else if k = ''t2'' then st else NotFinished)" for st k
    by (simp add: case_state_def sample_evidence_def)
  show "case_state (sample_evidence a_digest Failed) k = Passed \<Longrightarrow> case_state (sample_evidence a_digest Passed) k = Passed"
    "case_state (sample_evidence a_digest Failed) k = Failed \<Longrightarrow>
      case_state (sample_evidence a_digest Passed) k \<in> {Passed, Failed}" for k
    by (auto simp: other split: if_split_asm)
  show "ev_reviews (sample_evidence a_digest Passed) = ev_reviews (sample_evidence a_digest Failed)"
    by (simp add: sample_evidence_def)
qed

text \<open>C13: A checked document is stable: the normalised rubric and the normalised evidence are accepted
  by their checks again and read back as the same values, so that digests of checked documents are
  digests of documents.\<close>

theorem checked_documents_stable:
  assumes "validate_rubric rubric_document = Inr r" and "validate_evidence sha evidence_document r = Inr e"
  shows "check_rubric (rubric_json r) = Inr r \<and> check_evidence sha r (evidence_json e) = Inr e"
  using assms by (auto simp: validate_rubric_def validate_evidence_def rbind_Inr_iff
      intro: check_rubric_again check_evidence_again)

lemma checked_documents_stable_witness:
  "check_rubric (rubric_json sample_rubric) = Inr sample_rubric \<and>
   check_evidence sample_sha sample_rubric (evidence_json (sample_evidence a_digest Failed)) =
     Inr (sample_evidence a_digest Failed)"
  using checked_documents_stable [OF rubric_doc_checked evidence_doc_checked(1)] .

section \<open>The ledger\<close>

text \<open>C14: Every stored assessment of every reachable ledger rests on a registered and approved
  version of exactly the rubric it names, its submission is bound to the source it was computed from,
  and its grading run is bound to the imported test results.\<close>

theorem assessments_rest_on_approved_versions:
  assumes "later sha init_rubric_db db" and "x \<in> set (assessments db)"
  shows "am_submission (ra_result x) = ra_submission x \<and> am_course (ra_result x) = ra_course x \<and>
    (\<exists>v\<in>set (versions db). version_key v = (ra_course x, am_rubric (ra_result x), am_version (ra_result x)) \<and>
       vr_digest v = am_rubric_digest (ra_result x) \<and> vr_approval v \<noteq> None) \<and>
    (\<exists>y\<in>set (receipts db). receipt_key y = (ra_course x, ra_submission x) \<and>
       rc_assignment y = am_assignment (ra_result x) \<and> rc_source y = am_source (ra_result x)) \<and>
    (\<exists>y\<in>set (test_runs db). run_key y =
       (ra_course x, ra_submission x, am_run (ra_result x), am_rubric_digest (ra_result x)))"
proof -
  have "assessment_ok db x" using reachable_ledger [OF assms(1)] assms(2) by (simp add: ledger_ok_def)
  then show ?thesis unfolding assessment_ok_def Let_def by metis
qed

lemma assessments_rest_on_approved_versions_witness:
  "\<exists>x\<in>set (assessments ledger2). am_course (ra_result x) = ra_course x"
proof -
  obtain x where "x \<in> set (assessments ledger2)" using ledger2_tables(2) by auto
  then show ?thesis using assessments_rest_on_approved_versions [OF ledger2_later(2)] by blast
qed

text \<open>C15: The ledger is append-only. Whatever registrations, approvals and assessments follow, in any
  order and computed from any state in between, a registered version keeps its document, digest and
  author, an approval stays, and no source binding, no test binding, no assessment and no audit entry
  is changed or removed.\<close>

theorem ledger_append_only:
  assumes "later sha init_rubric_db a" and "later sha a b"
  shows "(v \<in> set (versions a) \<longrightarrow> (\<exists>w\<in>set (versions b). version_key w = version_key v \<and>
      vr_document w = vr_document v \<and> vr_digest w = vr_digest v \<and>
      (vr_approval v \<noteq> None \<longrightarrow> vr_approval w = vr_approval v))) \<and>
    prefix (receipts a) (receipts b) \<and> prefix (test_runs a) (test_runs b) \<and>
    prefix (assessments a) (assessments b) \<and> prefix (audits a) (audits b)"
proof -
  have k: "ledger_kept a b" using later_keeps [OF assms(2)] reachable_ledger [OF assms(1)] by blast
  then show ?thesis using kept_version [OF k] version_kept_fields by (fastforce simp: ledger_kept_def)
qed

lemma ledger_append_only_witness:
  "prefix (assessments ledger1) (assessments ledger2) \<and> prefix (audits ledger1) (audits ledger2)"
  using ledger_append_only [OF ledger1_later ledger2_later(1)] by blast

text \<open>An assessment request can be repeated: after a request succeeded, the same request at any
  later time, computed from any later state, returns the stored assessment and writes nothing.\<close>

theorem assess_repeatable:
  assumes "later sha init_rubric_db before" and "later sha before db"
    and "assess sha er t f before c i n profile ev k actor db = (Inr s, db')"
    and "later sha before before2" and "later sha db' db2" and "\<not> er2 c"
  shows "assess sha er2 t2 f2 before2 c i n profile ev k actor db2 = (Inr s, db2)"
proof -
  obtain p where p: "prepare sha c i n profile ev k actor before = Inr p" and b: "assess_body sha t f p db = Inr (s, db')"
    using assess_succeeded [OF assms(3)] by blast
  have "prepare sha c i n profile ev k actor before2 = Inr p"
    by (rule prepare_later [OF p reachable_ledger [OF assms(1)] assms(4)])
  moreover have "assess_body sha t2 f2 p db2 = Inr (s, db2)"
    by (rule assess_body_later [OF b _ _ assms(5)])
      (use prepare_Inr [OF p reachable_ledger [OF assms(1)]] later_keeps [OF assms(2)] reachable_ledger [OF assms(1)] in auto)
  ultimately show ?thesis using assms(6) by (simp add: assess_def commit_def)
qed

lemma assess_repeatable_witness:
  "assess sample_sha (\<lambda>_. False) ''T9'' ''f9'' ledger2 ''cs1'' ''r1'' 1 profile_doc
     (evidence_doc a_digest ''failed'') ''q1'' ''op'' ledger2 = (Inr sample_stored, ledger2)"
  by (rule assess_repeatable [OF ledger1_later later.same first_assessment ledger2_later(1) later.same]) simp

text \<open>A submission stays bound to its source: once an assessment of it is stored, every request
  for the same submission with another source digest or for another assignment, unless it repeats an
  answered request, is refused as a conflict and writes nothing.\<close>

theorem changed_source_refused:
  assumes "later sha init_rubric_db before" and "later sha before db"
    and "x \<in> set (assessments db)" and "ra_course x = c"
    and "prepare sha c i n profile ev k actor before = Inr p"
    and "am_submission (pp_result p) = ra_submission x"
    and "am_source (pp_result p) \<noteq> am_source (ra_result x) \<or> am_assignment (pp_result p) \<noteq> am_assignment (ra_result x)"
    and "(c, ra_submission x, k) \<notin> request_key ` set (assessments db)" and "\<not> er c"
  shows "assess sha er t f before c i n profile ev k actor db = (Inl RubricConflict, db)"
proof -
  note p = prepare_Inr [OF assms(5) reachable_ledger [OF assms(1)]]
  have "ledger_ok sha db" using later_keeps [OF assms(2)] reachable_ledger [OF assms(1)] by blast
  moreover have "read_version sha c i n db = Inr (pp_row p)"
    using approved_read_later p reachable_ledger [OF assms(1)] assms(2) by blast
  ultimately have "assess_body sha t f p db = Inl RubricConflict"
    using source_conflict [of sha db x p] assms(3,4,6-8) p by simp
  then show ?thesis using assms(5,9) by (simp add: assess_def commit_def)
qed

lemma changed_source_refused_witness:
  "assess sample_sha (\<lambda>_. False) ''T9'' ''f9'' ledger2 ''cs1'' ''r1'' 1 profile_doc
     (evidence_doc b_digest ''passed'') ''q2'' ''op'' ledger2 = (Inl RubricConflict, ledger2)"
  by (rule changed_source_refused [where x = sample_row and p = "sample_prepared b_digest Passed \<lparr>pp_request := ''q2''\<rparr>",
        OF ledger2_later(2) later.same _ _ sample_prepare(2) [OF ledger2_tables(1)]])
    (simp_all add: ledger2_tables sample_row_parts sample_prepared_def sample_assessment_def assessment_of_def Let_def
      sample_evidence_def request_key_def)

end
