(* ===== verification/Auth_State.thy ===== *)
theory Auth_State
  imports Domain
begin

text \<open>
  \<open>src/src/autograde/platform_state.py\<close>: the rows behind a login. Students, with a GitHub account
  or local, and enrollments, device authorizations, token families with their refresh tokens, sessions and the daily issuance
  counters, each table the list of its rows; the argument validators; the write transaction; and
  the revocations that other operations share.
  Tables of other components appear only as the question whether they refer to a row, and the
  fences other modules install on inserts (archived or erased courses) as the question whether a
  course is closed.
\<close>

section \<open>Errors and transactions\<close>

datatype platform_error =
    Py py_error
  | PlatformNotFound | PlatformConflict | PlatformSessionLimitExceeded
  | PlatformInvalidTransition | PlatformAccessDenied
  | DeviceAuthorizationExpired | RefreshTokenReuseDetected | RefreshRotationLimitExceeded
  | PlatformIdempotencyConflict | PlatformSubmissionLimitExceeded | PlatformStateError

type_synonym 'a pres = "platform_error + 'a"

definition lift :: "'a res \<Rightarrow> 'a pres" where
  "lift r = (case r of Inl e \<Rightarrow> Inl (Py e) | Inr x \<Rightarrow> Inr x)"

definition demand :: "bool \<Rightarrow> platform_error \<Rightarrow> 'a pres \<Rightarrow> 'a pres" where
  "demand b e r = (if b then r else Inl e)"

lemma demand_Inr_iff [simp]: "demand b e r = Inr x \<longleftrightarrow> b \<and> r = Inr x"
  by (simp add: demand_def)

lemma lift_Inr_iff [simp]: "lift r = Inr x \<longleftrightarrow> r = Inr x"
  by (simp add: lift_def split: sum.split)

text \<open>The arguments a validator normalises; \<open>TypeError\<close>s of wrongly typed arguments are ruled out
  by the types.\<close>

definition text_arg :: "string \<Rightarrow> string pres" where
  "text_arg v = lift (required_text v)"

text \<open>Integers are those SQLite stores: beyond 64 bits \<open>sqlite3\<close> raises \<open>OverflowError\<close> when the
  value is bound, which is not modelled.\<close>

definition positive_arg :: "int \<Rightarrow> int pres" where
  "positive_arg n = demand (0 < n) (Py ValueError) (Inr n)"

definition verifier_arg :: "string \<Rightarrow> string pres" where
  "verifier_arg v = rbind (text_arg v) (\<lambda>t.
     let l = lower t; h = (if starts_with ''sha256:'' l then drop 7 l else l)
     in demand (length h = 64 \<and> (\<forall>c\<in>set h. c \<in> set ''0123456789abcdef'')) (Py ValueError) (Inr h))"

section \<open>Rows\<close>

datatype device_state = DevPending | DevApproved | DevConsumed | DevDenied | DevExpired

datatype token_state = TokActive | TokUsed | TokRevoked

record student_row =
  st_id :: int
  st_key :: string
  st_subject :: string
  st_kind :: string
  st_github :: int
  st_login :: string
  st_active :: bool
  st_created :: string
  st_updated :: string

record enrollment_row =
  en_student :: int
  en_course :: string
  en_active :: bool
  en_created :: string
  en_updated :: string

record device_row =
  dv_id :: string
  dv_code :: string
  dv_user :: string
  dv_course :: string
  dv_label :: string
  dv_state :: device_state
  dv_poll :: int
  dv_expires :: string
  dv_student :: "int option"
  dv_created :: string
  dv_updated :: string
  dv_approved :: "string option"
  dv_consumed :: "string option"
  dv_denied :: "string option"

record family_row =
  tf_id :: string
  tf_student :: int
  tf_course :: string
  tf_current :: string
  tf_expires :: string
  tf_rotations :: int
  tf_created :: string
  tf_updated :: string
  tf_revoked :: "string option"
  tf_compromised :: "string option"

record token_row =
  rt_hash :: string
  rt_family :: string
  rt_state :: token_state
  rt_issued :: string
  rt_expires :: string
  rt_used :: "string option"

record session_row =
  se_id :: string
  se_student :: int
  se_course :: string
  se_family :: string
  se_device :: string
  se_label :: string
  se_access :: string
  se_access_expires :: string
  se_refresh_expires :: string
  se_created :: string
  se_updated :: string
  se_seen :: "string option"
  se_revoked :: "string option"

record counter_row =
  ic_student :: int
  ic_course :: string
  ic_day :: string
  ic_count :: int
  ic_updated :: string

record auth_db =
  next_student :: int
  students :: "student_row list"
  enrollments :: "enrollment_row list"
  devices :: "device_row list"
  families :: "family_row list"
  tokens :: "token_row list"
  sessions :: "session_row list"
  issuances :: "counter_row list"

definition init_auth :: auth_db where
  "init_auth = \<lparr>next_student = 1, students = [], enrollments = [], devices = [], families = [], tokens = [],
     sessions = [], issuances = []\<rparr>"

record auth_env =
  clock :: dtime
  sha256_hex :: "string \<Rightarrow> string"
  closed :: "string \<Rightarrow> bool"
  device_kept :: "string \<Rightarrow> bool"
  session_kept :: "string \<Rightarrow> bool"

text \<open>\<open>with self._write()\<close>: an exception inside rolls back, and an exception raised after the block
  leaves what was committed. The body returns the value or the exception that follows.\<close>

definition transact :: "('s \<Rightarrow> ('a pres \<times> 's) pres) \<Rightarrow> 's \<Rightarrow> 'a pres \<times> 's" where
  "transact body db = (case body db of Inl e \<Rightarrow> (Inl e, db) | Inr p \<Rightarrow> p)"

definition guard :: "'a pres \<Rightarrow> ('a \<Rightarrow> 's \<Rightarrow> 'b pres \<times> 's) \<Rightarrow> 's \<Rightarrow> 'b pres \<times> 's" where
  "guard r f db = (case r of Inl e \<Rightarrow> (Inl e, db) | Inr x \<Rightarrow> f x db)"

definition stamp :: "auth_env \<Rightarrow> dtvalue option \<Rightarrow> string pres" where
  "stamp env v = lift (utc_iso (clock env) v)"

text \<open>\<open>utc_iso(datetime.fromisoformat(now.replace("Z", "+00:00")) - timedelta(seconds=...))\<close>\<close>

fun days_back :: "nat \<Rightarrow> nat \<times> nat \<times> nat \<Rightarrow> (nat \<times> nat \<times> nat) option" where
  "days_back 0 ymd = Some ymd"
| "days_back (Suc n) ymd = Option.bind (prev_day ymd) (days_back n)"

definition seconds_before :: "dtime \<Rightarrow> int \<Rightarrow> dtime res" where
  "seconds_before t n =
     (let us = time_of_day t - n * 1000000 in
      case days_back (nat (- (us div day_us))) (dt_year t, dt_month t, dt_day t) of
        None \<Rightarrow> Inl OverflowErr | Some ymd \<Rightarrow> Inr (at_time ymd (us mod day_us)))"

definition cleanup_time :: "auth_env \<Rightarrow> string \<Rightarrow> int \<Rightarrow> string pres" where
  "cleanup_time env now n =
     (case fromisoformat (replace_all ''Z'' ''+00:00'' now) of
        None \<Rightarrow> Inl (Py ValueError)
      | Some t \<Rightarrow> rbind (lift (seconds_before t n)) (\<lambda>u. stamp env (Some (DtObj u))))"

section \<open>Updates\<close>

definition update_where :: "('r \<Rightarrow> bool) \<Rightarrow> ('r \<Rightarrow> 'r) \<Rightarrow> 'r list \<Rightarrow> 'r list" where
  "update_where P f rows = map (\<lambda>r. if P r then f r else r) rows"

definition coalesce :: "'a option \<Rightarrow> 'a \<Rightarrow> 'a option" where
  "coalesce x y = (case x of None \<Rightarrow> Some y | Some _ \<Rightarrow> x)"

abbreviation taken :: "('r \<Rightarrow> 'k) \<Rightarrow> 'k \<Rightarrow> 'r list \<Rightarrow> bool" where
  "taken key k rows \<equiv> k \<in> key ` set rows"

definition end_session :: "string \<Rightarrow> session_row \<Rightarrow> session_row" where
  "end_session now s = s\<lparr>se_revoked := coalesce (se_revoked s) now, se_updated := now\<rparr>"

definition stop_session :: "string \<Rightarrow> session_row \<Rightarrow> session_row" where
  "stop_session now s = s\<lparr>se_revoked := Some now, se_updated := now\<rparr>"

definition end_family :: "string \<Rightarrow> family_row \<Rightarrow> family_row" where
  "end_family now f = f\<lparr>tf_revoked := coalesce (tf_revoked f) now, tf_updated := now\<rparr>"

text \<open>\<open>UPDATE platform_refresh_tokens SET state = 'revoked' WHERE state = 'active' AND ...\<close>\<close>

definition revoke_tokens :: "(string \<Rightarrow> bool) \<Rightarrow> token_row list \<Rightarrow> token_row list" where
  "revoke_tokens F = update_where (\<lambda>t. F (rt_family t) \<and> rt_state t = TokActive) (\<lambda>t. t\<lparr>rt_state := TokRevoked\<rparr>)"

definition active_enrollment :: "int \<Rightarrow> string \<Rightarrow> auth_db \<Rightarrow> enrollment_row option" where
  "active_enrollment sid course db =
     find (\<lambda>e. en_student e = sid \<and> en_course e = course \<and> en_active e) (enrollments db)"

section \<open>Credentials of a student\<close>

text \<open>The activations, grants and passwords that the same functions clear belong to tables that are
  not modelled.\<close>

definition revoke_student_credentials :: "int \<Rightarrow> string \<Rightarrow> auth_db \<Rightarrow> auth_db" where
  "revoke_student_credentials sid now db =
     (let fs = update_where (\<lambda>f. tf_student f = sid) (end_family now) (families db) in
      db\<lparr>sessions := update_where (\<lambda>s. se_student s = sid) (end_session now) (sessions db),
         families := fs,
         tokens := revoke_tokens (\<lambda>i. i \<in> tf_id ` {f \<in> set fs. tf_student f = sid}) (tokens db),
         devices := update_where (\<lambda>d. dv_student d = Some sid \<and> dv_state d = DevApproved)
           (\<lambda>d. d\<lparr>dv_state := DevDenied, dv_denied := Some now, dv_updated := now\<rparr>) (devices db)\<rparr>)"

definition course_families :: "int \<Rightarrow> string \<Rightarrow> family_row list \<Rightarrow> string set" where
  "course_families sid course fs = tf_id ` {f \<in> set fs. tf_student f = sid \<and> tf_course f = course}"

definition revoke_course_credentials :: "int \<Rightarrow> string \<Rightarrow> string \<Rightarrow> auth_db \<Rightarrow> auth_db" where
  "revoke_course_credentials sid course now db =
     (let fs = update_where (\<lambda>f. tf_student f = sid \<and> tf_course f = course) (end_family now) (families db) in
      db\<lparr>sessions := update_where (\<lambda>s. se_student s = sid \<and> se_course s = course) (end_session now) (sessions db),
         families := fs,
         tokens := revoke_tokens (\<lambda>i. i \<in> course_families sid course fs) (tokens db),
         devices := update_where (\<lambda>d. dv_student d = Some sid \<and> dv_course d = course \<and> dv_state d = DevApproved)
           (\<lambda>d. d\<lparr>dv_state := DevDenied, dv_denied := Some now, dv_updated := now\<rparr>) (devices db)\<rparr>)"

text \<open>\<open>upsert_student\<close>: the unique columns other than the key make another student's identity a
  conflict.\<close>

definition student_clash :: "string \<Rightarrow> string \<Rightarrow> int \<Rightarrow> auth_db \<Rightarrow> bool" where
  "student_clash key subject github db =
     (\<exists>s\<in>set (students db). st_key s \<noteq> key \<and> (st_subject s = subject \<or> st_github s = github))"

definition put_student ::
  "string \<Rightarrow> string \<Rightarrow> string \<Rightarrow> int \<Rightarrow> string \<Rightarrow> bool \<Rightarrow> string \<Rightarrow> auth_db \<Rightarrow> auth_db" where
  "put_student key subject kind github login active now db =
     (if taken st_key key (students db)
      then db\<lparr>students := update_where (\<lambda>s. st_key s = key)
        (\<lambda>s. s\<lparr>st_subject := subject, st_kind := kind, st_github := github, st_login := login,
               st_active := active, st_updated := now\<rparr>) (students db)\<rparr>
      else db\<lparr>next_student := next_student db + 1,
        students := students db @ [\<lparr>st_id = next_student db, st_key = key, st_subject = subject, st_kind = kind,
          st_github = github, st_login = login, st_active = active, st_created = now, st_updated = now\<rparr>]\<rparr>)"

text \<open>The columns are those of both kinds of student; a student of the other kind under the key is a
  conflict, and \<open>changed\<close> says of the row before whether its credentials end.\<close>

definition upsert_body ::
  "string \<Rightarrow> string \<Rightarrow> string \<Rightarrow> int \<Rightarrow> string \<Rightarrow> bool \<Rightarrow> (student_row \<Rightarrow> bool) \<Rightarrow> string \<Rightarrow> auth_db \<Rightarrow>
   (student_row pres \<times> auth_db) pres" where
  "upsert_body key subject kind github login active changed now db =
     (let previous = find (\<lambda>s. st_key s = key) (students db) in
      demand (case previous of None \<Rightarrow> True | Some s \<Rightarrow> st_kind s = kind) PlatformConflict
      (demand (\<not> student_clash key subject github db) PlatformConflict
      (let db1 = put_student key subject kind github login active now db in
       case find (\<lambda>s. st_key s = key) (students db1) of
         None \<Rightarrow> Inl (Py TypeErr)
       | Some row \<Rightarrow>
           (let ended = (case previous of None \<Rightarrow> False | Some s \<Rightarrow> changed s)
            in Inr (Inr row, if ended then revoke_student_credentials (st_id row) now db1 else db1)))))"

definition upsert_student ::
  "auth_env \<Rightarrow> string \<Rightarrow> string \<Rightarrow> int \<Rightarrow> string \<Rightarrow> bool \<Rightarrow> dtvalue option \<Rightarrow> auth_db \<Rightarrow> student_row pres \<times> auth_db" where
  "upsert_student env student_key auth_subject github_user_id github_login active at_v db =
     guard (text_arg student_key) (\<lambda>key. guard (text_arg auth_subject) (\<lambda>subject.
     guard (positive_arg github_user_id) (\<lambda>github. guard (text_arg github_login) (\<lambda>login.
     guard (stamp env at_v) (\<lambda>now.
     transact (upsert_body key subject ''github'' github login active
       (\<lambda>s. st_subject s \<noteq> subject \<or> st_github s \<noteq> github \<or> (st_active s \<and> \<not> active)) now)))))) db"

text \<open>A local student has no GitHub account: \<open>_local_identity_columns\<close> fills the columns from a
  digest of the key, the number in the upper half of the positive ones.\<close>

definition hex_digit :: "char \<Rightarrow> nat" where
  "hex_digit c = (let n = of_char c :: nat in if n < 58 then n - 48 else n - 87)"

definition local_identity :: "(string \<Rightarrow> string) \<Rightarrow> string \<Rightarrow> int \<times> string" where
  "local_identity sha key =
     (let digest = sha (''autograde-local-student:'' @ key)
      in (2 ^ 62 + int (foldl (\<lambda>n c. 16 * n + hex_digit c) 0 (take 16 digest)) mod 2 ^ 62,
          ''autograde-local-'' @ digest))"

definition upsert_local_student ::
  "auth_env \<Rightarrow> string \<Rightarrow> string \<Rightarrow> bool \<Rightarrow> dtvalue option \<Rightarrow> auth_db \<Rightarrow> student_row pres \<times> auth_db" where
  "upsert_local_student env student_key auth_subject active at_v db =
     guard (text_arg student_key) (\<lambda>key. guard (text_arg auth_subject) (\<lambda>subject.
     let (github, login) = local_identity (sha256_hex env) key in
     guard (stamp env at_v) (\<lambda>now.
     transact (upsert_body key subject ''local'' github login active
       (\<lambda>s. st_subject s \<noteq> subject \<or> (st_active s \<and> \<not> active)) now)))) db"

definition set_student_active ::
  "auth_env \<Rightarrow> int \<Rightarrow> bool \<Rightarrow> dtvalue option \<Rightarrow> auth_db \<Rightarrow> student_row pres \<times> auth_db" where
  "set_student_active env sid active at_v db =
     guard (stamp env at_v) (\<lambda>now.
     transact (\<lambda>db.
       case find (\<lambda>s. st_id s = sid) (students db) of
         None \<Rightarrow> Inl PlatformNotFound
       | Some previous \<Rightarrow>
           (let db1 = db\<lparr>students := update_where (\<lambda>s. st_id s = sid)
                  (\<lambda>s. s\<lparr>st_active := active, st_updated := now\<rparr>) (students db)\<rparr>;
                db2 = (if st_active previous \<and> \<not> active then revoke_student_credentials sid now db1 else db1)
            in case find (\<lambda>s. st_id s = sid) (students db2) of
                 None \<Rightarrow> Inl (Py TypeErr) | Some row \<Rightarrow> Inr (Inr row, db2))))
     db"

definition put_enrollment :: "int \<Rightarrow> string \<Rightarrow> bool \<Rightarrow> string \<Rightarrow> auth_db \<Rightarrow> auth_db" where
  "put_enrollment sid course active now db =
     (if taken (\<lambda>e. (en_student e, en_course e)) (sid, course) (enrollments db)
      then db\<lparr>enrollments := update_where (\<lambda>e. en_student e = sid \<and> en_course e = course)
        (\<lambda>e. e\<lparr>en_active := active, en_updated := now\<rparr>) (enrollments db)\<rparr>
      else db\<lparr>enrollments := enrollments db @ [\<lparr>en_student = sid, en_course = course, en_active = active,
        en_created = now, en_updated = now\<rparr>]\<rparr>)"

definition upsert_enrollment ::
  "auth_env \<Rightarrow> int \<Rightarrow> string \<Rightarrow> bool \<Rightarrow> dtvalue option \<Rightarrow> auth_db \<Rightarrow> enrollment_row pres \<times> auth_db" where
  "upsert_enrollment env sid course_key active at_v db =
     guard (text_arg course_key) (\<lambda>course. guard (stamp env at_v) (\<lambda>now.
     transact (\<lambda>db.
       demand (taken st_id sid (students db)) PlatformNotFound
       (let db1 = put_enrollment sid course active now db;
            db2 = (if active then db1 else revoke_course_credentials sid course now db1)
        in case find (\<lambda>e. en_student e = sid \<and> en_course e = course) (enrollments db2) of
             None \<Rightarrow> Inl (Py TypeErr) | Some row \<Rightarrow> Inr (Inr row, db2)))))
     db"

end
