(* ===== verification/Auth_Devices.thy ===== *)
theory Auth_Devices
  imports Auth_State
begin

text \<open>
  Device authorizations of \<open>src/src/autograde/platform_state.py\<close>: a device asks for a login, the
  student approves or denies it with the user code, and the device exchanges it once
  (\<open>Auth_Sessions\<close>). Expired authorizations are noticed by whoever looks at them.
\<close>

definition expire_device :: "string \<Rightarrow> device_row \<Rightarrow> device_row" where
  "expire_device now d = d\<lparr>dv_state := DevExpired, dv_updated := now\<rparr>"

definition expire_old :: "string \<Rightarrow> device_row list \<Rightarrow> device_row list" where
  "expire_old now = update_where (\<lambda>d. dv_state d \<in> {DevPending, DevApproved} \<and> dv_expires d \<le> now) (expire_device now)"

definition device_over :: "device_row \<Rightarrow> bool" where
  "device_over d = (dv_state d \<in> {DevConsumed, DevDenied, DevExpired})"

text \<open>The rows that the clean-up may delete: over, old, and referred to by nothing.\<close>

definition collectable :: "auth_env \<Rightarrow> string \<Rightarrow> session_row list \<Rightarrow> device_row \<Rightarrow> bool" where
  "collectable env before ss d = (device_over d \<and> dv_updated d \<le> before \<and>
     \<not> taken se_device (dv_id d) ss \<and> \<not> device_kept env (dv_id d))"

definition outstanding :: "string \<Rightarrow> device_row list \<Rightarrow> int" where
  "outstanding course ds = int (length (filter (\<lambda>d. dv_course d = course \<and> dv_state d \<in> {DevPending, DevApproved}) ds))"

definition new_device :: "string \<Rightarrow> string \<Rightarrow> string \<Rightarrow> string \<Rightarrow> string \<Rightarrow> int \<Rightarrow> string \<Rightarrow> string \<Rightarrow> device_row" where
  "new_device i code user course label poll expiry now =
     \<lparr>dv_id = i, dv_code = code, dv_user = user, dv_course = course, dv_label = label, dv_state = DevPending,
      dv_poll = poll, dv_expires = expiry, dv_student = None, dv_created = now, dv_updated = now,
      dv_approved = None, dv_consumed = None, dv_denied = None\<rparr>"

definition insert_device :: "auth_env \<Rightarrow> device_row \<Rightarrow> auth_db \<Rightarrow> auth_db pres" where
  "insert_device env d db =
     demand (\<not> closed env (dv_course d) \<and> \<not> taken dv_id (dv_id d) (devices db) \<and>
       \<not> taken dv_code (dv_code d) (devices db) \<and> \<not> taken dv_user (dv_user d) (devices db)) PlatformConflict
       (Inr (db\<lparr>devices := devices db @ [d]\<rparr>))"

definition create_body :: "auth_env \<Rightarrow> device_row \<Rightarrow> int \<Rightarrow> int \<Rightarrow> auth_db \<Rightarrow> (device_row pres \<times> auth_db) pres" where
  "create_body env d max_outstanding retention db =
     (let now = dv_created d in
      rbind (cleanup_time env now retention) (\<lambda>before.
      let ds = filter (\<lambda>d. \<not> collectable env before (sessions db) d) (expire_old now (devices db));
          db1 = db\<lparr>devices := ds\<rparr>
      in demand (outstanding (dv_course d) ds < max_outstanding) PlatformConflict
         (rbind (insert_device env d db1) (\<lambda>db2. Inr (Inr d, db2)))))"

definition create_device_authorization ::
  "auth_env \<Rightarrow> string \<Rightarrow> string \<Rightarrow> string \<Rightarrow> string \<Rightarrow> string \<Rightarrow> dtvalue \<Rightarrow> int \<Rightarrow> int \<Rightarrow> int \<Rightarrow> dtvalue option \<Rightarrow>
   auth_db \<Rightarrow> device_row pres \<times> auth_db" where
  "create_device_authorization env authorization_id device_code_hash user_code_hmac course_key device_label expires_at
     poll_interval max_outstanding retention at_v db =
     guard (text_arg authorization_id) (\<lambda>i. guard (verifier_arg device_code_hash) (\<lambda>code.
     guard (verifier_arg user_code_hmac) (\<lambda>user. guard (text_arg course_key) (\<lambda>course.
     guard (text_arg device_label) (\<lambda>label. guard (positive_arg poll_interval) (\<lambda>poll.
     guard (positive_arg max_outstanding) (\<lambda>most. guard (positive_arg retention) (\<lambda>keep.
     guard (stamp env at_v) (\<lambda>now. guard (stamp env (Some expires_at)) (\<lambda>expiry.
     guard (demand (now < expiry) (Py ValueError) (Inr ())) (\<lambda>_.
     transact (create_body env (new_device i code user course label poll expiry now) most keep))))))))))))
     db"

definition get_device_by_code :: "string \<Rightarrow> string \<Rightarrow> auth_db \<Rightarrow> device_row pres" where
  "get_device_by_code device_code_hash course_key db =
     rbind (verifier_arg device_code_hash) (\<lambda>code. rbind (text_arg course_key) (\<lambda>course.
       case find (\<lambda>d. dv_code d = code \<and> dv_course d = course) (devices db) of
         None \<Rightarrow> Inl PlatformNotFound | Some d \<Rightarrow> Inr d))"

definition get_device_by_user :: "string \<Rightarrow> string \<Rightarrow> auth_db \<Rightarrow> device_row pres" where
  "get_device_by_user user_code_hmac course_key db =
     rbind (verifier_arg user_code_hmac) (\<lambda>user. rbind (text_arg course_key) (\<lambda>course.
       case find (\<lambda>d. dv_user d = user \<and> dv_course d = course) (devices db) of
         None \<Rightarrow> Inl PlatformNotFound | Some d \<Rightarrow> Inr d))"

text \<open>An update of one row by its primary key, and the row read back.\<close>

definition set_device :: "string \<Rightarrow> (device_row \<Rightarrow> device_row) \<Rightarrow> auth_db \<Rightarrow> auth_db" where
  "set_device i f db = db\<lparr>devices := update_where (\<lambda>d. dv_id d = i) f (devices db)\<rparr>"

definition approve_row :: "string \<Rightarrow> int \<Rightarrow> device_row \<Rightarrow> device_row" where
  "approve_row now sid d = d\<lparr>dv_state := DevApproved, dv_student := Some sid, dv_approved := Some now, dv_updated := now\<rparr>"

definition deny_row :: "string \<Rightarrow> device_row \<Rightarrow> device_row" where
  "deny_row now d = d\<lparr>dv_state := DevDenied, dv_denied := Some now, dv_updated := now\<rparr>"

definition approve_device_body :: "string \<Rightarrow> string \<Rightarrow> string \<Rightarrow> string \<Rightarrow> auth_db \<Rightarrow> (device_row pres \<times> auth_db) pres" where
  "approve_device_body user subject course now db =
     (case find (\<lambda>d. dv_user d = user \<and> dv_course d = course) (devices db) of
        None \<Rightarrow> Inl PlatformNotFound
      | Some d \<Rightarrow>
          demand (dv_state d = DevPending) PlatformInvalidTransition
          (if dv_expires d \<le> now
           then Inr (Inl DeviceAuthorizationExpired, set_device (dv_id d) (expire_device now) db)
           else case find (\<lambda>s. st_subject s = subject \<and> st_active s) (students db) of
             None \<Rightarrow> Inl PlatformAccessDenied
           | Some s \<Rightarrow>
               demand (active_enrollment (st_id s) (dv_course d) db \<noteq> None) PlatformAccessDenied
               (Inr (Inr (approve_row now (st_id s) d), set_device (dv_id d) (approve_row now (st_id s)) db))))"

definition approve_device_authorization ::
  "auth_env \<Rightarrow> string \<Rightarrow> string \<Rightarrow> string \<Rightarrow> dtvalue option \<Rightarrow> auth_db \<Rightarrow> device_row pres \<times> auth_db" where
  "approve_device_authorization env user_code_hmac auth_subject course_key at_v db =
     guard (verifier_arg user_code_hmac) (\<lambda>user. guard (text_arg auth_subject) (\<lambda>subject.
     guard (text_arg course_key) (\<lambda>course. guard (stamp env at_v) (\<lambda>now.
     transact (approve_device_body user subject course now)))))
     db"

definition deny_body :: "string \<Rightarrow> string \<Rightarrow> string \<Rightarrow> auth_db \<Rightarrow> (device_row pres \<times> auth_db) pres" where
  "deny_body user course now db =
     (case find (\<lambda>d. dv_user d = user \<and> dv_course d = course) (devices db) of
        None \<Rightarrow> Inl PlatformNotFound
      | Some d \<Rightarrow>
          demand (dv_state d = DevPending) PlatformInvalidTransition
          (Inr (Inr (deny_row now d), set_device (dv_id d) (deny_row now) db)))"

definition deny_device_authorization ::
  "auth_env \<Rightarrow> string \<Rightarrow> string \<Rightarrow> dtvalue option \<Rightarrow> auth_db \<Rightarrow> device_row pres \<times> auth_db" where
  "deny_device_authorization env user_code_hmac course_key at_v db =
     guard (verifier_arg user_code_hmac) (\<lambda>user. guard (text_arg course_key) (\<lambda>course.
     guard (stamp env at_v) (\<lambda>now. transact (deny_body user course now))))
     db"

end
