(* ===== verification/Auth_Sessions.thy ===== *)
theory Auth_Sessions
  imports Auth_Devices
begin

text \<open>
  Sessions of \<open>src/src/autograde/platform_state.py\<close>: the exchange of an approved device
  authorization for a session with its token family, the check of an access token, the rotation of
  a refresh token with its reuse detection, revocation, and the lists of sessions.
\<close>

section \<open>The exchange\<close>

text \<open>Families whose refresh deadline passed while nobody looked.\<close>

definition lapsed_families :: "int \<Rightarrow> string \<Rightarrow> string \<Rightarrow> session_row list \<Rightarrow> string list" where
  "lapsed_families sid course now ss = map se_family (filter (\<lambda>s. se_student s = sid \<and> se_course s = course \<and>
     se_revoked s = None \<and> se_refresh_expires s \<le> now) ss)"

definition lapse_family :: "string \<Rightarrow> string \<Rightarrow> string \<Rightarrow> auth_db \<Rightarrow> auth_db" where
  "lapse_family course now F db =
     db\<lparr>sessions := update_where (\<lambda>s. se_family s = F) (stop_session now) (sessions db),
        families := update_where (\<lambda>f. tf_id f = F \<and> tf_course f = course) (end_family now) (families db),
        tokens := revoke_tokens (\<lambda>i. i = F) (tokens db)\<rparr>"

text \<open>Every earlier session of the student in the course ends with a new one.\<close>

definition replace_sessions :: "int \<Rightarrow> string \<Rightarrow> string \<Rightarrow> auth_db \<Rightarrow> auth_db" where
  "replace_sessions sid course now db =
     (let fs = update_where (\<lambda>f. tf_student f = sid \<and> tf_course f = course \<and> tf_revoked f = None)
            (end_family now) (families db) in
      db\<lparr>sessions := update_where (\<lambda>s. se_student s = sid \<and> se_course s = course \<and> se_revoked s = None)
            (end_session now) (sessions db),
         families := fs,
         tokens := revoke_tokens (\<lambda>i. i \<in> course_families sid course fs) (tokens db)\<rparr>)"

text \<open>\<open>_prune_auth_history\<close>. A family takes its refresh tokens with it.\<close>

definition prunable :: "auth_env \<Rightarrow> int \<Rightarrow> string \<Rightarrow> string \<Rightarrow> session_row \<Rightarrow> bool" where
  "prunable env sid course before s = (se_student s = sid \<and> se_course s = course \<and> se_updated s \<le> before \<and>
     (se_revoked s \<noteq> None \<or> se_refresh_expires s \<le> before) \<and> \<not> session_kept env (se_id s))"

definition prune_session :: "auth_env \<Rightarrow> string \<Rightarrow> session_row \<Rightarrow> auth_db \<Rightarrow> auth_db" where
  "prune_session env course s db =
     (let ss = filter (\<lambda>x. se_id x \<noteq> se_id s) (sessions db);
          gone = (\<lambda>f. tf_id f = se_family s \<and> tf_course f = course \<and> \<not> taken se_family (se_family s) ss);
          dropped = tf_id ` {f \<in> set (families db). gone f}
      in db\<lparr>sessions := ss,
            families := filter (\<lambda>f. \<not> gone f) (families db),
            tokens := filter (\<lambda>t. rt_family t \<notin> dropped) (tokens db),
            devices := filter (\<lambda>d. \<not> (dv_id d = se_device s \<and> dv_course d = course \<and> device_over d \<and>
              \<not> taken se_device (se_device s) ss \<and> \<not> device_kept env (se_device s))) (devices db)\<rparr>)"

definition prune_auth_history :: "auth_env \<Rightarrow> int \<Rightarrow> string \<Rightarrow> string \<Rightarrow> auth_db \<Rightarrow> auth_db" where
  "prune_auth_history env sid course before db =
     fold (prune_session env course) (filter (prunable env sid course before) (sessions db)) db"

definition live_session :: "string \<Rightarrow> auth_db \<Rightarrow> session_row \<Rightarrow> bool" where
  "live_session now db s = (se_revoked s = None \<and> now < se_refresh_expires s \<and>
     (\<exists>f\<in>set (families db). tf_id f = se_family s \<and> tf_course f = se_course s \<and> tf_revoked f = None \<and>
        tf_compromised f = None))"

definition own_sessions :: "int \<Rightarrow> string \<Rightarrow> session_row list \<Rightarrow> session_row list" where
  "own_sessions sid course = filter (\<lambda>s. se_student s = sid \<and> se_course s = course)"

definition active_count :: "int \<Rightarrow> string \<Rightarrow> string \<Rightarrow> auth_db \<Rightarrow> int" where
  "active_count sid course now db = int (length (filter (live_session now db) (own_sessions sid course (sessions db))))"

definition issued_today :: "int \<Rightarrow> string \<Rightarrow> string \<Rightarrow> counter_row list \<Rightarrow> int" where
  "issued_today sid course day cs =
     (case find (\<lambda>c. (ic_student c, ic_course c, ic_day c) = (sid, course, day)) cs of None \<Rightarrow> 0 | Some c \<Rightarrow> ic_count c)"

definition count_issuance :: "int \<Rightarrow> string \<Rightarrow> string \<Rightarrow> string \<Rightarrow> counter_row list \<Rightarrow> counter_row list" where
  "count_issuance sid course day now cs =
     (if taken (\<lambda>c. (ic_student c, ic_course c, ic_day c)) (sid, course, day) cs
      then update_where (\<lambda>c. (ic_student c, ic_course c, ic_day c) = (sid, course, day))
        (\<lambda>c. c\<lparr>ic_count := ic_count c + 1, ic_updated := now\<rparr>) cs
      else cs @ [\<lparr>ic_student = sid, ic_course = course, ic_day = day, ic_count = 1, ic_updated = now\<rparr>])"

record issue =
  is_session :: string
  is_family :: string
  is_access :: string
  is_access_expiry :: string
  is_refresh :: string
  is_refresh_expiry :: string

record limits =
  max_active :: int
  max_daily :: int
  max_retained :: int
  retention :: int

definition new_family :: "issue \<Rightarrow> int \<Rightarrow> string \<Rightarrow> string \<Rightarrow> family_row" where
  "new_family i sid course now = \<lparr>tf_id = is_family i, tf_student = sid, tf_course = course,
     tf_current = is_refresh i, tf_expires = is_refresh_expiry i, tf_rotations = 0, tf_created = now, tf_updated = now,
     tf_revoked = None, tf_compromised = None\<rparr>"

definition new_token :: "string \<Rightarrow> string \<Rightarrow> string \<Rightarrow> string \<Rightarrow> token_row" where
  "new_token h F now expiry = \<lparr>rt_hash = h, rt_family = F, rt_state = TokActive, rt_issued = now,
     rt_expires = expiry, rt_used = None\<rparr>"

definition new_session :: "issue \<Rightarrow> int \<Rightarrow> string \<Rightarrow> device_row \<Rightarrow> string \<Rightarrow> session_row" where
  "new_session i sid course d now = \<lparr>se_id = is_session i, se_student = sid, se_course = course,
     se_family = is_family i, se_device = dv_id d, se_label = dv_label d, se_access = is_access i,
     se_access_expires = is_access_expiry i, se_refresh_expires = is_refresh_expiry i, se_created = now,
     se_updated = now, se_seen = None, se_revoked = None\<rparr>"

text \<open>The four inserts; a violated constraint is a conflict.\<close>

definition issue_session :: "auth_env \<Rightarrow> issue \<Rightarrow> int \<Rightarrow> string \<Rightarrow> device_row \<Rightarrow> string \<Rightarrow> auth_db \<Rightarrow> auth_db pres" where
  "issue_session env i sid course d now db =
     demand (\<not> closed env course \<and> \<not> taken tf_id (is_family i) (families db) \<and>
       \<not> taken tf_current (is_refresh i) (families db) \<and> \<not> taken rt_hash (is_refresh i) (tokens db) \<and>
       \<not> taken se_id (is_session i) (sessions db) \<and> \<not> taken se_family (is_family i) (sessions db) \<and>
       \<not> taken se_device (dv_id d) (sessions db) \<and> \<not> taken se_access (is_access i) (sessions db)) PlatformConflict
     (Inr (db\<lparr>families := families db @ [new_family i sid course now],
              tokens := tokens db @ [new_token (is_refresh i) (is_family i) now (is_refresh_expiry i)],
              sessions := sessions db @ [new_session i sid course d now],
              issuances := count_issuance sid course (take 10 now) now (issuances db)\<rparr>))"

definition consume_row :: "string \<Rightarrow> device_row \<Rightarrow> device_row" where
  "consume_row now d = d\<lparr>dv_state := DevConsumed, dv_consumed := Some now, dv_updated := now\<rparr>"

definition end_earlier :: "auth_env \<Rightarrow> int \<Rightarrow> string \<Rightarrow> string \<Rightarrow> string \<Rightarrow> auth_db \<Rightarrow> auth_db" where
  "end_earlier env sid course now before db =
     (let db1 = fold (lapse_family course now) (lapsed_families sid course now (sessions db)) db;
          db2 = prune_auth_history env sid course before (replace_sessions sid course now db1)
      in db2\<lparr>issuances := filter (\<lambda>c. \<not> ic_day c < take 10 before) (issuances db2)\<rparr>)"

definition admit :: "limits \<Rightarrow> int \<Rightarrow> string \<Rightarrow> string \<Rightarrow> auth_db \<Rightarrow> unit pres" where
  "admit l sid course now db =
     demand (active_count sid course now db < max_active l) PlatformSessionLimitExceeded
     (demand (int (length (own_sessions sid course (sessions db))) < max_retained l) PlatformSessionLimitExceeded
     (demand (\<not> (taken (\<lambda>c. (ic_student c, ic_course c, ic_day c)) (sid, course, take 10 now) (issuances db) \<and>
        max_daily l \<le> issued_today sid course (take 10 now) (issuances db))) PlatformSessionLimitExceeded
     (Inr ())))"

definition exchange :: "auth_env \<Rightarrow> limits \<Rightarrow> issue \<Rightarrow> int \<Rightarrow> string \<Rightarrow> device_row \<Rightarrow> string \<Rightarrow> auth_db \<Rightarrow> (session_row pres \<times> auth_db) pres" where
  "exchange env l i sid course d now db =
     demand (\<exists>s\<in>set (students db). st_id s = sid \<and> st_active s) PlatformAccessDenied
     (demand (active_enrollment sid course db \<noteq> None) PlatformAccessDenied
     (rbind (cleanup_time env now (retention l)) (\<lambda>before.
      let db1 = end_earlier env sid course now before db in
      rbind (admit l sid course now db1) (\<lambda>_.
      rbind (issue_session env i sid course d now db1) (\<lambda>db2.
        Inr (Inr (new_session i sid course d now), set_device (dv_id d) (consume_row now) db2))))))"

definition consume_body ::
  "auth_env \<Rightarrow> limits \<Rightarrow> issue \<Rightarrow> string \<Rightarrow> string \<Rightarrow> string \<Rightarrow> auth_db \<Rightarrow> (session_row pres \<times> auth_db) pres" where
  "consume_body env l i code course now db =
     (case find (\<lambda>d. dv_code d = code \<and> dv_course d = course) (devices db) of
        None \<Rightarrow> Inl PlatformNotFound
      | Some d \<Rightarrow>
          demand (dv_state d = DevApproved) PlatformInvalidTransition
          (if dv_expires d \<le> now
           then Inr (Inl DeviceAuthorizationExpired, set_device (dv_id d) (expire_device now) db)
           else case dv_student d of None \<Rightarrow> Inl (Py TypeErr) | Some sid \<Rightarrow> exchange env l i sid course d now db))"

definition consume_device_authorization ::
  "auth_env \<Rightarrow> limits \<Rightarrow> string \<Rightarrow> string \<Rightarrow> string \<Rightarrow> string \<Rightarrow> string \<Rightarrow> dtvalue \<Rightarrow> string \<Rightarrow> dtvalue \<Rightarrow> dtvalue option \<Rightarrow>
   auth_db \<Rightarrow> session_row pres \<times> auth_db" where
  "consume_device_authorization env l device_code_hash course_key session_id token_family_id access_token_hash
     access_expires_at refresh_token_hash refresh_expires_at at_v db =
     guard (verifier_arg device_code_hash) (\<lambda>code. guard (text_arg course_key) (\<lambda>course.
     guard (text_arg session_id) (\<lambda>session. guard (text_arg token_family_id) (\<lambda>family.
     guard (verifier_arg access_token_hash) (\<lambda>access. guard (verifier_arg refresh_token_hash) (\<lambda>refresh.
     guard (positive_arg (max_active l)) (\<lambda>_. guard (positive_arg (max_daily l)) (\<lambda>_.
     guard (positive_arg (max_retained l)) (\<lambda>_. guard (positive_arg (retention l)) (\<lambda>_.
     guard (demand (max_active l \<le> max_retained l) (Py ValueError) (Inr ())) (\<lambda>_.
     guard (stamp env at_v) (\<lambda>now. guard (stamp env (Some access_expires_at)) (\<lambda>access_expiry.
     guard (stamp env (Some refresh_expires_at)) (\<lambda>refresh_expiry.
     guard (demand (now < access_expiry \<and> access_expiry < refresh_expiry) (Py ValueError) (Inr ())) (\<lambda>_.
     transact (consume_body env l \<lparr>is_session = session, is_family = family, is_access = access,
       is_access_expiry = access_expiry, is_refresh = refresh, is_refresh_expiry = refresh_expiry\<rparr> code course now))))))))))))))))
     db"

section \<open>Access\<close>

definition touch_session :: "string \<Rightarrow> session_row \<Rightarrow> session_row" where
  "touch_session now s = s\<lparr>se_seen := Some now, se_updated := now\<rparr>"

text \<open>The joined row of a session, its student and its family; the keys are unique.\<close>

definition access_row :: "string \<Rightarrow> string \<Rightarrow> auth_db \<Rightarrow> (session_row \<times> student_row \<times> family_row) option" where
  "access_row access course db =
     Option.bind (find (\<lambda>s. se_access s = access \<and> se_course s = course) (sessions db)) (\<lambda>s.
     Option.bind (find (\<lambda>p. st_id p = se_student s) (students db)) (\<lambda>p.
     Option.bind (find (\<lambda>f. tf_id f = se_family s \<and> tf_course f = course) (families db)) (\<lambda>f.
       Some (s, p, f))))"

definition authorize_body ::
  "bool \<Rightarrow> string \<Rightarrow> string \<Rightarrow> string \<Rightarrow> auth_db \<Rightarrow> ((session_row \<times> student_row) pres \<times> auth_db) pres" where
  "authorize_body touch access course now db =
     (case access_row access course db of
        None \<Rightarrow> Inl PlatformAccessDenied
      | Some (s, p, f) \<Rightarrow>
          demand (se_revoked s = None \<and> tf_revoked f = None \<and> tf_compromised f = None \<and>
            now < se_access_expires s \<and> st_active p) PlatformAccessDenied
          (demand (active_enrollment (se_student s) course db \<noteq> None) PlatformAccessDenied
          (if touch
           then Inr (Inr (touch_session now s, p),
                  db\<lparr>sessions := update_where (\<lambda>x. se_id x = se_id s) (touch_session now) (sessions db)\<rparr>)
           else Inr (Inr (s, p), db))))"

definition authorize_access_token ::
  "auth_env \<Rightarrow> string \<Rightarrow> string \<Rightarrow> dtvalue option \<Rightarrow> bool \<Rightarrow> auth_db \<Rightarrow> (session_row \<times> student_row) pres \<times> auth_db" where
  "authorize_access_token env access_token_hash course_key at_v touch db =
     guard (verifier_arg access_token_hash) (\<lambda>access. guard (text_arg course_key) (\<lambda>course.
     guard (stamp env at_v) (\<lambda>now. transact (authorize_body touch access course now)))) db"

section \<open>Rotation\<close>

definition compromise_family :: "string \<Rightarrow> family_row \<Rightarrow> family_row" where
  "compromise_family now f = f\<lparr>tf_compromised := Some now, tf_revoked := Some now, tf_updated := now\<rparr>"

definition stop_family :: "string \<Rightarrow> family_row \<Rightarrow> family_row" where
  "stop_family now f = f\<lparr>tf_revoked := Some now, tf_updated := now\<rparr>"

text \<open>A refresh token that was used before is presented: the whole family ends.\<close>

definition end_reused :: "string \<Rightarrow> string \<Rightarrow> auth_db \<Rightarrow> auth_db" where
  "end_reused F now db =
     db\<lparr>families := update_where (\<lambda>f. tf_id f = F) (compromise_family now) (families db),
        tokens := revoke_tokens (\<lambda>i. i = F) (tokens db),
        sessions := update_where (\<lambda>s. se_family s = F) (stop_session now) (sessions db)\<rparr>"

definition end_worn_out :: "string \<Rightarrow> string \<Rightarrow> string \<Rightarrow> auth_db \<Rightarrow> auth_db" where
  "end_worn_out F course now db =
     db\<lparr>families := update_where (\<lambda>f. tf_id f = F \<and> tf_course f = course) (stop_family now) (families db),
        tokens := revoke_tokens (\<lambda>i. i = F) (tokens db),
        sessions := update_where (\<lambda>s. se_family s = F \<and> se_course s = course) (stop_session now) (sessions db)\<rparr>"

record rotation =
  ro_presented :: string
  ro_replacement :: string
  ro_refresh_expiry :: string
  ro_access :: string
  ro_access_expiry :: string

definition use_token :: "string \<Rightarrow> token_row \<Rightarrow> token_row" where
  "use_token now t = t\<lparr>rt_state := TokUsed, rt_used := Some now\<rparr>"

definition rotated_family :: "string \<Rightarrow> string \<Rightarrow> family_row \<Rightarrow> family_row" where
  "rotated_family h now f = f\<lparr>tf_current := h, tf_rotations := tf_rotations f + 1, tf_updated := now\<rparr>"

definition rotated_session :: "string \<Rightarrow> string \<Rightarrow> string \<Rightarrow> session_row \<Rightarrow> session_row" where
  "rotated_session access expiry now s = s\<lparr>se_access := access, se_access_expires := expiry, se_updated := now\<rparr>"

definition replace_token :: "rotation \<Rightarrow> string \<Rightarrow> string \<Rightarrow> string \<Rightarrow> string \<Rightarrow> string \<Rightarrow> auth_db \<Rightarrow> auth_db pres" where
  "replace_token r F course refresh_expiry access_expiry now db =
     demand (\<not> taken rt_hash (ro_replacement r) (tokens db) \<and>
       (\<forall>f\<in>set (families db). tf_current f = ro_replacement r \<longrightarrow> tf_id f = F) \<and>
       (\<forall>s\<in>set (sessions db). se_access s = ro_access r \<longrightarrow> se_family s = F)) PlatformConflict
     (Inr (db\<lparr>tokens := update_where (\<lambda>t. rt_hash t = ro_presented r) (use_token now) (tokens db) @
                [new_token (ro_replacement r) F now refresh_expiry],
              families := update_where (\<lambda>f. tf_id f = F \<and> tf_course f = course)
                (rotated_family (ro_replacement r) now) (families db),
              sessions := update_where (\<lambda>s. se_family s = F \<and> se_course s = course)
                (rotated_session (ro_access r) access_expiry now) (sessions db)\<rparr>))"

definition rotate_live ::
  "rotation \<Rightarrow> int \<Rightarrow> family_row \<Rightarrow> session_row \<Rightarrow> string \<Rightarrow> string \<Rightarrow> auth_db \<Rightarrow> (session_row pres \<times> auth_db) pres" where
  "rotate_live r max_rotations f s course now db =
     (let F = tf_id f; refresh_expiry = min (ro_refresh_expiry r) (tf_expires f);
          access_expiry = min (ro_access_expiry r) refresh_expiry in
      demand (\<exists>p\<in>set (students db). st_id p = se_student s \<and> st_active p) PlatformAccessDenied
      (demand (active_enrollment (se_student s) course db \<noteq> None) PlatformAccessDenied
      (if max_rotations \<le> tf_rotations f then Inr (Inl RefreshRotationLimitExceeded, end_worn_out F course now db)
       else rbind (replace_token r F course refresh_expiry access_expiry now db) (\<lambda>db1.
         Inr (Inr (rotated_session (ro_access r) access_expiry now s), db1)))))"

definition rotate_body :: "rotation \<Rightarrow> int \<Rightarrow> string \<Rightarrow> string \<Rightarrow> auth_db \<Rightarrow> (session_row pres \<times> auth_db) pres" where
  "rotate_body r max_rotations course now db =
     (case find (\<lambda>t. rt_hash t = ro_presented r \<and> (\<exists>f\<in>set (families db). tf_id f = rt_family t \<and> tf_course f = course)) (tokens db) of
        None \<Rightarrow> Inl PlatformAccessDenied
      | Some t \<Rightarrow>
          (case find (\<lambda>f. tf_id f = rt_family t \<and> tf_course f = course) (families db) of
             None \<Rightarrow> Inl (Py TypeErr)
           | Some f \<Rightarrow>
               if rt_state t = TokUsed then Inr (Inl RefreshTokenReuseDetected, end_reused (rt_family t) now db)
               else demand (rt_state t = TokActive \<and> tf_revoked f = None \<and> tf_compromised f = None) PlatformAccessDenied
                 (case find (\<lambda>s. se_family s = rt_family t \<and> se_course s = course) (sessions db) of
                    None \<Rightarrow> Inl (Py TypeErr)
                  | Some s \<Rightarrow> demand (se_revoked s = None \<and> now < rt_expires t) PlatformAccessDenied
                      (rotate_live r max_rotations f s course now db))))"

definition rotate_refresh_token ::
  "auth_env \<Rightarrow> string \<Rightarrow> string \<Rightarrow> string \<Rightarrow> dtvalue \<Rightarrow> string \<Rightarrow> dtvalue \<Rightarrow> int \<Rightarrow> dtvalue option \<Rightarrow>
   auth_db \<Rightarrow> session_row pres \<times> auth_db" where
  "rotate_refresh_token env presented_hash course_key replacement_hash refresh_expires_at access_token_hash
     access_expires_at max_rotations at_v db =
     guard (verifier_arg presented_hash) (\<lambda>presented. guard (text_arg course_key) (\<lambda>course.
     guard (verifier_arg replacement_hash) (\<lambda>replacement. guard (verifier_arg access_token_hash) (\<lambda>access.
     guard (demand (presented \<noteq> replacement) (Py ValueError) (Inr ())) (\<lambda>_.
     guard (positive_arg max_rotations) (\<lambda>most. guard (stamp env at_v) (\<lambda>now.
     guard (stamp env (Some refresh_expires_at)) (\<lambda>refresh_expiry.
     guard (stamp env (Some access_expires_at)) (\<lambda>access_expiry.
     guard (demand (now < access_expiry \<and> now < refresh_expiry) (Py ValueError) (Inr ())) (\<lambda>_.
     transact (rotate_body \<lparr>ro_presented = presented, ro_replacement = replacement, ro_refresh_expiry = refresh_expiry,
       ro_access = access, ro_access_expiry = access_expiry\<rparr> most course now))))))))))) db"

section \<open>Revocation and lists\<close>

definition revoke_body :: "string \<Rightarrow> string \<Rightarrow> int option \<Rightarrow> string \<Rightarrow> auth_db \<Rightarrow> (session_row pres \<times> auth_db) pres" where
  "revoke_body session course owner now db =
     (case find (\<lambda>s. se_id s = session \<and> se_course s = course) (sessions db) of
        None \<Rightarrow> Inl PlatformNotFound
      | Some s \<Rightarrow>
          demand (case owner of None \<Rightarrow> True | Some sid \<Rightarrow> se_student s = sid) PlatformAccessDenied
          (Inr (Inr (end_session now s),
             db\<lparr>sessions := update_where (\<lambda>x. se_id x = session \<and> se_course x = course) (end_session now) (sessions db),
                families := update_where (\<lambda>f. tf_id f = se_family s \<and> tf_course f = course) (end_family now) (families db),
                tokens := revoke_tokens (\<lambda>i. i = se_family s) (tokens db)\<rparr>)))"

definition revoke_session ::
  "auth_env \<Rightarrow> string \<Rightarrow> string \<Rightarrow> int option \<Rightarrow> dtvalue option \<Rightarrow> auth_db \<Rightarrow> session_row pres \<times> auth_db" where
  "revoke_session env session_id course_key owner at_v db =
     guard (text_arg session_id) (\<lambda>session. guard (text_arg course_key) (\<lambda>course.
     guard (stamp env at_v) (\<lambda>now. transact (revoke_body session course owner now)))) db"

text \<open>\<open>ORDER BY created_at DESC, session_id DESC\<close>, with the live sessions first in the student's own
  list.\<close>

definition newest_first :: "session_row list \<Rightarrow> session_row list" where
  "newest_first ss = rev (sort_key se_created (sort_key se_id ss))"

definition list_owned_sessions ::
  "auth_env \<Rightarrow> string \<Rightarrow> string \<Rightarrow> int \<Rightarrow> dtvalue option \<Rightarrow> auth_db \<Rightarrow> session_row list pres \<times> auth_db" where
  "list_owned_sessions env access_token_hash course_key limit at_v db =
     guard (stamp env at_v) (\<lambda>now db.
     case authorize_access_token env access_token_hash course_key (Some (DtText now)) True db of
       (Inl e, db1) \<Rightarrow> (Inl e, db1)
     | (Inr (s, p), db1) \<Rightarrow>
         (demand (1 \<le> limit \<and> limit \<le> 100) (Py ValueError)
           (rbind (text_arg course_key) (\<lambda>course.
             Inr (take (nat limit) (sort_key (\<lambda>s. if live_session now db1 s then 0 else (1::nat))
               (newest_first (filter (\<lambda>s. \<exists>f\<in>set (families db1). tf_id f = se_family s \<and> tf_course f = course)
                 (own_sessions (st_id p) course (sessions db1)))))))), db1))
     db"

definition revoke_owned_session ::
  "auth_env \<Rightarrow> string \<Rightarrow> string \<Rightarrow> string \<Rightarrow> dtvalue option \<Rightarrow> auth_db \<Rightarrow> session_row pres \<times> auth_db" where
  "revoke_owned_session env access_token_hash course_key session_id at_v db =
     (case authorize_access_token env access_token_hash course_key at_v True db of
        (Inl e, db1) \<Rightarrow> (Inl e, db1)
      | (Inr (s, p), db1) \<Rightarrow> revoke_session env session_id course_key (Some (st_id p)) at_v db1)"

definition list_student_sessions :: "int \<Rightarrow> string \<Rightarrow> int \<Rightarrow> auth_db \<Rightarrow> session_row list pres" where
  "list_student_sessions student_id course_key limit db =
     rbind (positive_arg student_id) (\<lambda>sid. rbind (text_arg course_key) (\<lambda>course.
     demand (1 \<le> limit \<and> limit \<le> 1000) (Py ValueError)
     (demand (taken (\<lambda>e. (en_student e, en_course e)) (sid, course) (enrollments db)) PlatformNotFound
     (Inr (take (nat limit) (newest_first (own_sessions sid course (sessions db))))))))"

definition revoke_all_body :: "int \<Rightarrow> string \<Rightarrow> string \<Rightarrow> auth_db \<Rightarrow> (int pres \<times> auth_db) pres" where
  "revoke_all_body sid course now db =
     demand (taken (\<lambda>e. (en_student e, en_course e)) (sid, course) (enrollments db)) PlatformNotFound
     (let live = (\<lambda>s. se_student s = sid \<and> se_course s = course \<and> se_revoked s = None);
          fs = update_where (\<lambda>f. tf_student f = sid \<and> tf_course f = course) (end_family now) (families db)
      in Inr (Inr (int (length (filter live (sessions db)))),
         db\<lparr>sessions := update_where live (stop_session now) (sessions db),
            families := fs,
            tokens := revoke_tokens (\<lambda>i. i \<in> course_families sid course fs) (tokens db)\<rparr>))"

definition revoke_student_sessions ::
  "auth_env \<Rightarrow> int \<Rightarrow> string \<Rightarrow> dtvalue option \<Rightarrow> auth_db \<Rightarrow> int pres \<times> auth_db" where
  "revoke_student_sessions env student_id course_key at_v db =
     guard (positive_arg student_id) (\<lambda>sid. guard (text_arg course_key) (\<lambda>course.
     guard (stamp env at_v) (\<lambda>now. transact (revoke_all_body sid course now)))) db"

end
