(* ===== verification/Auth_Ledger.thy ===== *)
theory Auth_Ledger
  imports Auth_Sessions
begin

text \<open>
  What every reachable set of login rows satisfies, and what every operation keeps of it. A session
  and its token family are two rows of one login: they agree on student, course, deadline and on
  being revoked. A refresh token is active only as the current token of a family that is not
  revoked. A session belongs to a consumed authorization of its student, and a student has at most
  one unrevoked session in a course. The natural keys of students and enrollments are unique.
\<close>

section \<open>The invariant\<close>

definition linked :: "session_row \<Rightarrow> family_row \<Rightarrow> bool" where
  "linked s f = (tf_id f = se_family s \<and> tf_student f = se_student s \<and> tf_course f = se_course s \<and>
     (tf_revoked f = None \<longleftrightarrow> se_revoked s = None) \<and> tf_expires f = se_refresh_expires s \<and>
     se_access_expires s \<le> tf_expires f)"

definition token_of :: "token_row \<Rightarrow> family_row \<Rightarrow> bool" where
  "token_of t f = (tf_id f = rt_family t \<and> rt_expires t \<le> tf_expires f \<and>
     (rt_state t = TokActive \<longrightarrow> tf_revoked f = None \<and> tf_current f = rt_hash t))"

definition session_device :: "session_row \<Rightarrow> device_row \<Rightarrow> bool" where
  "session_device s d = (dv_id d = se_device s \<and> dv_state d = DevConsumed \<and>
     dv_student d = Some (se_student s) \<and> dv_course d = se_course s)"

definition one_live :: "session_row list \<Rightarrow> bool" where
  "one_live ss = (\<forall>s\<in>set ss. \<forall>s'\<in>set ss. se_revoked s = None \<longrightarrow> se_revoked s' = None \<longrightarrow>
     se_student s = se_student s' \<longrightarrow> se_course s = se_course s' \<longrightarrow> s = s')"

definition device_ok :: "device_row \<Rightarrow> bool" where
  "device_ok d = (dv_state d \<in> {DevApproved, DevConsumed} \<longrightarrow> dv_student d \<noteq> None)"

definition family_ok :: "family_row \<Rightarrow> bool" where
  "family_ok f = (tf_compromised f \<noteq> None \<longrightarrow> tf_revoked f \<noteq> None)"

definition link_ok :: "auth_db \<Rightarrow> bool" where
  "link_ok db = ((\<forall>s\<in>set (sessions db). \<exists>f\<in>set (families db). linked s f) \<and>
     (\<forall>f\<in>set (families db). \<exists>s\<in>set (sessions db). linked s f) \<and>
     (\<forall>s\<in>set (sessions db). \<exists>d\<in>set (devices db). session_device s d) \<and>
     (\<forall>t\<in>set (tokens db). \<exists>f\<in>set (families db). token_of t f) \<and>
     (\<forall>f\<in>set (families db). family_ok f) \<and> (\<forall>d\<in>set (devices db). device_ok d) \<and>
     one_live (sessions db))"

definition keys_ok :: "auth_db \<Rightarrow> bool" where
  "keys_ok db = (distinct (map st_id (students db)) \<and> (\<forall>p\<in>set (students db). st_id p < next_student db) \<and>
     distinct (map dv_id (devices db)) \<and> distinct (map dv_code (devices db)) \<and> distinct (map dv_user (devices db)) \<and>
     distinct (map tf_id (families db)) \<and> distinct (map tf_current (families db)) \<and>
     distinct (map rt_hash (tokens db)) \<and> distinct (map se_id (sessions db)) \<and>
     distinct (map se_family (sessions db)) \<and> distinct (map se_device (sessions db)) \<and>
     distinct (map se_access (sessions db)))"

text \<open>The natural keys of the people: no two students share a key, an authentication subject or a
  number of the GitHub column, where local students are above the numbers of \<open>2 ^ 62\<close>; a student
  is enrolled in a course at most once, and every enrollment is of a student.\<close>

definition student_ok :: "student_row \<Rightarrow> bool" where
  "student_ok p = (0 < st_github p \<and> (st_kind p = ''github'' \<or> st_kind p = ''local'' \<and> 2 ^ 62 \<le> st_github p))"

definition people_ok :: "auth_db \<Rightarrow> bool" where
  "people_ok db = (distinct (map st_key (students db)) \<and> distinct (map st_subject (students db)) \<and>
     distinct (map st_github (students db)) \<and> (\<forall>p\<in>set (students db). student_ok p) \<and>
     distinct (map (\<lambda>e. (en_student e, en_course e)) (enrollments db)) \<and>
     (\<forall>e\<in>set (enrollments db). taken st_id (en_student e) (students db)))"

definition auth_ok :: "auth_db \<Rightarrow> bool" where
  "auth_ok db = (keys_ok db \<and> link_ok db \<and> people_ok db)"

text \<open>What later rows keep of a login, unless it is one of the new ones: a family is one that was
  there, of the same student, course and deadline, and a revoked one stays revoked.\<close>

definition same_login :: "family_row \<Rightarrow> family_row \<Rightarrow> bool" where
  "same_login f f' = (tf_id f' = tf_id f \<and> tf_student f' = tf_student f \<and> tf_course f' = tf_course f \<and>
     tf_expires f' = tf_expires f \<and> tf_rotations f \<le> tf_rotations f' \<and> (tf_revoked f' = None \<longrightarrow> tf_revoked f = None))"

definition logins_kept :: "string set \<Rightarrow> auth_db \<Rightarrow> auth_db \<Rightarrow> bool" where
  "logins_kept new db db' = (\<forall>f'\<in>set (families db'). tf_id f' \<in> new \<or> (\<exists>f\<in>set (families db). same_login f f'))"

definition sound :: "string set \<Rightarrow> auth_db \<Rightarrow> auth_db \<Rightarrow> bool" where
  "sound new db db' = (auth_ok db' \<and> logins_kept new db db')"

lemma same_login_refl [simp]: "same_login f f"
  by (simp add: same_login_def)

lemma same_login_trans: "same_login f g \<Longrightarrow> same_login g h \<Longrightarrow> same_login f h"
  by (auto simp: same_login_def)

lemma logins_kept_refl [simp]: "logins_kept new db db"
  by (auto simp: logins_kept_def intro: same_login_refl)

lemma logins_kept_trans:
  "logins_kept new a b \<Longrightarrow> logins_kept new' b c \<Longrightarrow> logins_kept (new \<union> new') a c"
  unfolding logins_kept_def by (metis UnCI same_login_def same_login_trans)

lemma logins_kept_sub: "set (families db') \<subseteq> set (families db) \<Longrightarrow> logins_kept new db db'"
  unfolding logins_kept_def using same_login_refl by blast

lemma sound_refl: "auth_ok db \<Longrightarrow> sound new db db"
  by (simp add: sound_def)

lemma sound_trans: "sound new a b \<Longrightarrow> sound new' b c \<Longrightarrow> sound (new \<union> new') a c"
  using logins_kept_trans by (auto simp: sound_def)

lemma sound_then: "sound {} a b \<Longrightarrow> sound new b c \<Longrightarrow> sound new a c"
  using sound_trans by fastforce

lemma sound_more: "sound {} a b \<Longrightarrow> sound new a b"
  by (auto simp: sound_def logins_kept_def)

section \<open>Operations\<close>

lemma guard_keeps: "P db \<Longrightarrow> (\<And>x. r = Inr x \<Longrightarrow> P (snd (f x db))) \<Longrightarrow> P (snd (guard r f db))"
  by (cases r) (simp_all add: guard_def)

lemma transact_keeps: "P db \<Longrightarrow> (\<And>r db'. body db = Inr (r, db') \<Longrightarrow> P db') \<Longrightarrow> P (snd (transact body db))"
  by (cases "body db") (auto simp: transact_def)

lemma update_where_same: "(\<And>r. P r \<Longrightarrow> key (f r) = key r) \<Longrightarrow> map key (update_where P f rows) = map key rows"
  by (auto simp: update_where_def)

lemma set_update_where: "set (update_where P f rows) = (\<lambda>r. if P r then f r else r) ` set rows"
  by (auto simp: update_where_def)

lemma not_Active [simp]: "rt_state t \<noteq> TokActive \<Longrightarrow> token_of t f \<longleftrightarrow> tf_id f = rt_family t \<and> rt_expires t \<le> tf_expires f"
  by (auto simp: token_of_def)

text \<open>Row-wise changes of the tables.\<close>

definition session_same :: "session_row \<Rightarrow> session_row \<Rightarrow> bool" where
  "session_same s s' = (se_id s' = se_id s \<and> se_student s' = se_student s \<and> se_course s' = se_course s \<and>
     se_family s' = se_family s \<and> se_device s' = se_device s \<and> se_refresh_expires s' = se_refresh_expires s \<and>
     (se_revoked s' = None \<longrightarrow> se_revoked s = None))"

definition token_same :: "token_row \<Rightarrow> token_row \<Rightarrow> bool" where
  "token_same t t' = (rt_hash t' = rt_hash t \<and> rt_family t' = rt_family t \<and> rt_expires t' = rt_expires t)"

definition device_same :: "device_row \<Rightarrow> device_row \<Rightarrow> bool" where
  "device_same d d' = (dv_id d' = dv_id d \<and> dv_code d' = dv_code d \<and> dv_user d' = dv_user d \<and> dv_course d' = dv_course d \<and>
     (dv_state d = DevConsumed \<longrightarrow> d' = d) \<and> (device_ok d \<longrightarrow> device_ok d'))"

lemma changed_link:
  assumes ok: "link_ok db"
    and tables: "sessions db' = map gs (sessions db)" "families db' = map gf (families db)"
      "tokens db' = map gt (tokens db)" "devices db' = map gd (devices db)"
    and same: "\<And>s. s \<in> set (sessions db) \<Longrightarrow> session_same s (gs s)" "\<And>d. d \<in> set (devices db) \<Longrightarrow> device_same d (gd d)"
    and link: "\<And>s f. s \<in> set (sessions db) \<Longrightarrow> f \<in> set (families db) \<Longrightarrow> linked s f \<Longrightarrow> linked (gs s) (gf f)"
    and token: "\<And>t f. t \<in> set (tokens db) \<Longrightarrow> f \<in> set (families db) \<Longrightarrow> token_of t f \<Longrightarrow> token_of (gt t) (gf f)"
    and family: "\<And>f. f \<in> set (families db) \<Longrightarrow> family_ok f \<Longrightarrow> family_ok (gf f)"
  shows "link_ok db'"
proof -
  note l = ok [unfolded link_ok_def]
  have a: "\<forall>s\<in>set (sessions db'). \<exists>f\<in>set (families db'). linked s f"
    using l link by (fastforce simp: tables)
  have a': "\<forall>f\<in>set (families db'). \<exists>s\<in>set (sessions db'). linked s f"
    using l link by (fastforce simp: tables)
  have b: "\<forall>s\<in>set (sessions db'). \<exists>d\<in>set (devices db'). session_device s d"
  proof
    fix s' assume "s' \<in> set (sessions db')"
    then obtain s where s: "s \<in> set (sessions db)" "s' = gs s" by (auto simp: tables)
    then obtain d where d: "d \<in> set (devices db)" "session_device s d" using l by blast
    then have "gd d = d" "session_device s' d"
      using same(2) [OF d(1)] same(1) [OF s(1)] by (auto simp: session_device_def device_same_def session_same_def s(2))
    moreover have "gd d \<in> set (devices db')" using d(1) by (simp add: tables)
    ultimately show "\<exists>d\<in>set (devices db'). session_device s' d" by metis
  qed
  have c: "\<forall>t\<in>set (tokens db'). \<exists>f\<in>set (families db'). token_of t f"
    using l token by (fastforce simp: tables)
  have d: "\<forall>f\<in>set (families db'). family_ok f" "\<forall>d\<in>set (devices db'). device_ok d"
    using l family same(2) by (auto simp: tables device_same_def)
  have e: "one_live (sessions db')"
    unfolding one_live_def
  proof (intro ballI impI)
    fix x y assume "x \<in> set (sessions db')" "y \<in> set (sessions db')"
    then obtain s s' where s: "s \<in> set (sessions db)" "x = gs s" "s' \<in> set (sessions db)" "y = gs s'"
      by (auto simp: tables)
    assume "se_revoked x = None" "se_revoked y = None" "se_student x = se_student y" "se_course x = se_course y"
    then have "se_revoked s = None" "se_revoked s' = None" "se_student s = se_student s'" "se_course s = se_course s'"
      using same(1) [OF s(1)] same(1) [OF s(3)] by (auto simp: session_same_def s)
    then show "x = y" using l s by (auto simp: one_live_def)
  qed
  show ?thesis unfolding link_ok_def using a a' b c d e by blast
qed

text \<open>The same for the keys: what a row-wise change keeps.\<close>

lemma map_keys_same: "(\<And>r. r \<in> set rows \<Longrightarrow> key (f r) = key r) \<Longrightarrow> map key (map f rows) = map key rows"
  by auto

lemma changed_keys:
  assumes ok: "keys_ok db"
    and tables: "sessions db' = map gs (sessions db)" "families db' = map gf (families db)"
      "tokens db' = map gt (tokens db)" "devices db' = map gd (devices db)"
    and people: "students db' = students db \<and> enrollments db' = enrollments db" "next_student db' = next_student db"
    and same: "\<And>s. s \<in> set (sessions db) \<Longrightarrow> session_same s (gs s) \<and> se_access (gs s) = se_access s"
      "\<And>d. d \<in> set (devices db) \<Longrightarrow> device_same d (gd d)"
      "\<And>t. t \<in> set (tokens db) \<Longrightarrow> token_same t (gt t)"
      "\<And>f. f \<in> set (families db) \<Longrightarrow> same_login f (gf f) \<and> tf_current (gf f) = tf_current f"
  shows "keys_ok db'"
proof -
  have d: "map dv_id (devices db') = map dv_id (devices db)" "map dv_code (devices db') = map dv_code (devices db)"
    "map dv_user (devices db') = map dv_user (devices db)"
    using same(2) by (auto simp: tables device_same_def)
  have f: "map tf_id (families db') = map tf_id (families db)" "map tf_current (families db') = map tf_current (families db)"
    using same(4) by (auto simp: tables same_login_def)
  have t: "map rt_hash (tokens db') = map rt_hash (tokens db)"
    using same(3) by (auto simp: tables token_same_def)
  have s: "map se_id (sessions db') = map se_id (sessions db)" "map se_family (sessions db') = map se_family (sessions db)"
    "map se_device (sessions db') = map se_device (sessions db)" "map se_access (sessions db') = map se_access (sessions db)"
    using same(1) by (auto simp: tables session_same_def)
  have p: "students db' = students db" using people(1) by simp
  show ?thesis using ok unfolding keys_ok_def d f t s p people(2) by blast
qed

lemma changed_kept:
  assumes "families db' = map gf (families db)" and "\<And>f. f \<in> set (families db) \<Longrightarrow> same_login f (gf f)"
  shows "logins_kept new db db'"
  using assms by (auto simp: logins_kept_def)

text \<open>A row-wise change in one statement. Every revocation is one.\<close>

lemma changed_sound:
  assumes "auth_ok db"
    and "sessions db' = map gs (sessions db)" "families db' = map gf (families db)"
      "tokens db' = map gt (tokens db)" "devices db' = map gd (devices db)"
      "students db' = students db \<and> enrollments db' = enrollments db" "next_student db' = next_student db"
    and "\<And>s. s \<in> set (sessions db) \<Longrightarrow> session_same s (gs s) \<and> se_access (gs s) = se_access s"
      "\<And>d. d \<in> set (devices db) \<Longrightarrow> device_same d (gd d)"
      "\<And>t. t \<in> set (tokens db) \<Longrightarrow> token_same t (gt t)"
      "\<And>f. f \<in> set (families db) \<Longrightarrow> same_login f (gf f) \<and> tf_current (gf f) = tf_current f \<and> (family_ok f \<longrightarrow> family_ok (gf f))"
    and "\<And>s f. s \<in> set (sessions db) \<Longrightarrow> f \<in> set (families db) \<Longrightarrow> linked s f \<Longrightarrow> linked (gs s) (gf f)"
    and "\<And>t f. t \<in> set (tokens db) \<Longrightarrow> f \<in> set (families db) \<Longrightarrow> token_of t f \<Longrightarrow> token_of (gt t) (gf f)"
  shows "sound new db db'"
proof -
  have k: "keys_ok db" "link_ok db" using assms(1) by (simp_all add: auth_ok_def)
  have "keys_ok db'" by (rule changed_keys [OF k(1) assms(2-7)]) (use assms(8-11) in blast)+
  moreover have "link_ok db'" by (rule changed_link [OF k(2) assms(2-5)]) (use assms(8-13) in blast)+
  moreover have "logins_kept new db db'" by (rule changed_kept [OF assms(3)]) (use assms(11) in blast)
  moreover have "people_ok db'" using assms(1,6) by (simp add: auth_ok_def people_ok_def)
  ultimately show ?thesis by (simp add: sound_def auth_ok_def)
qed

section \<open>Revocations\<close>

abbreviation upd :: "('r \<Rightarrow> bool) \<Rightarrow> ('r \<Rightarrow> 'r) \<Rightarrow> 'r \<Rightarrow> 'r" where
  "upd P f \<equiv> \<lambda>r. if P r then f r else r"

abbreviation revoked_token :: "token_row \<Rightarrow> token_row" where
  "revoked_token \<equiv> \<lambda>t. t\<lparr>rt_state := TokRevoked\<rparr>"

abbreviation denied_device :: "string \<Rightarrow> device_row \<Rightarrow> device_row" where
  "denied_device now \<equiv> \<lambda>d. d\<lparr>dv_state := DevDenied, dv_denied := Some now, dv_updated := now\<rparr>"

lemma end_session_fields [simp]:
  "session_same s (end_session now s)" "session_same s (stop_session now s)" "session_same s (touch_session now s)"
  "se_access (end_session now s) = se_access s" "se_access (stop_session now s) = se_access s"
  "se_access (touch_session now s) = se_access s"
  "se_revoked (end_session now s) \<noteq> None" "se_revoked (stop_session now s) \<noteq> None"
  "se_revoked (touch_session now s) = se_revoked s"
  by (auto simp: session_same_def end_session_def stop_session_def touch_session_def coalesce_def split: option.split)

lemma end_family_fields [simp]:
  "same_login f (end_family now f)" "same_login f (stop_family now f)" "same_login f (compromise_family now f)"
  "tf_current (end_family now f) = tf_current f" "tf_current (stop_family now f) = tf_current f"
  "tf_current (compromise_family now f) = tf_current f"
  "tf_revoked (end_family now f) \<noteq> None" "tf_revoked (stop_family now f) \<noteq> None" "tf_revoked (compromise_family now f) \<noteq> None"
  "family_ok (end_family now f)" "family_ok (stop_family now f)" "family_ok (compromise_family now f)"
  by (auto simp: same_login_def end_family_def stop_family_def compromise_family_def coalesce_def family_ok_def split: option.split)

lemma linked_ended:
  assumes "linked s f"
  shows "linked (end_session now s) (end_family now f)" "linked (stop_session now s) (end_family now f)"
    "linked (stop_session now s) (stop_family now f)" "linked (stop_session now s) (compromise_family now f)"
    "linked (touch_session now s) f"
  using assms
  by (auto simp: linked_def end_session_def stop_session_def end_family_def stop_family_def compromise_family_def
      touch_session_def coalesce_def split: option.split)

lemma linked_revoked:
  "linked s f \<Longrightarrow> se_revoked s \<noteq> None \<Longrightarrow> linked (end_session now s) f \<and> linked (stop_session now s) f"
  "linked s f \<Longrightarrow> se_revoked s \<noteq> None \<Longrightarrow> linked s (end_family now f)"
  by (auto simp: linked_def end_session_def stop_session_def end_family_def coalesce_def split: option.split)

lemma session_same_refl [simp]: "session_same s s" and device_same_refl [simp]: "device_same d d"
  and token_same_refl [simp]: "token_same t t"
  by (simp_all add: session_same_def device_same_def token_same_def)

lemma token_revoked [simp]: "token_same t (t\<lparr>rt_state := TokRevoked\<rparr>)"
  by (simp add: token_same_def)

lemma token_of_ended:
  "token_of t f \<Longrightarrow> token_of (t\<lparr>rt_state := TokRevoked\<rparr>) f"
  "token_of t f \<Longrightarrow> token_of (t\<lparr>rt_state := TokRevoked\<rparr>) (end_family now f)"
  "token_of t f \<Longrightarrow> token_of (t\<lparr>rt_state := TokRevoked\<rparr>) (stop_family now f)"
  "token_of t f \<Longrightarrow> token_of (t\<lparr>rt_state := TokRevoked\<rparr>) (compromise_family now f)"
  "token_of t f \<Longrightarrow> rt_state t \<noteq> TokActive \<Longrightarrow> token_of t (end_family now f)"
  "token_of t f \<Longrightarrow> rt_state t \<noteq> TokActive \<Longrightarrow> token_of t (stop_family now f)"
  "token_of t f \<Longrightarrow> rt_state t \<noteq> TokActive \<Longrightarrow> token_of t (compromise_family now f)"
  by (simp_all add: token_of_def end_family_def stop_family_def compromise_family_def)

lemma device_denied [simp]:
  "dv_state d = DevApproved \<Longrightarrow> device_same d (d\<lparr>dv_state := DevDenied, dv_denied := x, dv_updated := y\<rparr>)"
  by (simp add: device_same_def device_ok_def)

lemmas row_updates = update_where_def revoke_tokens_def

text \<open>Revoking families renames none of them.\<close>

lemma families_kept:
  assumes "\<And>x. same_login x (g x)" and "\<And>x y. same_login x y \<Longrightarrow> P y = P x"
  shows "tf_id ` {f \<in> set (map g fs). P f} = tf_id ` {f \<in> set fs. P f}"
proof -
  have "P (g x) = P x" "tf_id (g x) = tf_id x" for x using assms by (auto simp: same_login_def)
  then show ?thesis by (force simp: image_iff)
qed

lemma families_ended:
  "course_families sid course (update_where P (end_family now) fs) = course_families sid course fs"
  "tf_id ` {f \<in> set (update_where P (end_family now) fs). tf_student f = sid} = tf_id ` {f \<in> set fs. tf_student f = sid}"
proof -
  have k: "same_login x (upd P (end_family now) x)" for x by (cases "P x") simp_all
  show "course_families sid course (update_where P (end_family now) fs) = course_families sid course fs"
    unfolding course_families_def update_where_def by (rule families_kept [OF k]) (simp add: same_login_def)
  show "tf_id ` {f \<in> set (update_where P (end_family now) fs). tf_student f = sid} = tf_id ` {f \<in> set fs. tf_student f = sid}"
    unfolding update_where_def by (rule families_kept [OF k]) (simp add: same_login_def)
qed

lemma same_course: "linked s f \<Longrightarrow> tf_student f = se_student s \<and> tf_course f = se_course s \<and> tf_id f = se_family s"
  by (simp add: linked_def)

lemma token_when:
  assumes "token_of t f" and "\<not> F (rt_family t) \<Longrightarrow> f' = f"
    and "f' \<in> {f, end_family now f, stop_family now f, compromise_family now f}"
  shows "token_of (upd (\<lambda>t. F (rt_family t) \<and> rt_state t = TokActive) revoked_token t) f'"
proof (cases "F (rt_family t)")
  case True
  have "f' = f \<or> f' = end_family now f \<or> f' = stop_family now f \<or> f' = compromise_family now f" using assms(3) by simp
  then show ?thesis
    using True assms(1) by (elim disjE; cases "rt_state t = TokActive"; simp only: if_True if_False simp_thms token_of_ended)
qed (simp add: assms(1,2))

text \<open>A revocation: some sessions and their families end, the active refresh tokens of the families
  with them.\<close>

lemma ended_session:
  assumes "es \<in> {end_session now, stop_session now}"
  shows "se_student (es s) = se_student s" "se_course (es s) = se_course s" "se_family (es s) = se_family s"
    "se_refresh_expires (es s) = se_refresh_expires s" "se_access_expires (es s) = se_access_expires s"
    "se_revoked (es s) \<noteq> None"
  using assms by (auto simp: end_session_def stop_session_def coalesce_def split: option.split)

lemma ended_family:
  assumes "ef \<in> {end_family now, stop_family now, compromise_family now}"
  shows "tf_id (ef f) = tf_id f" "tf_student (ef f) = tf_student f" "tf_course (ef f) = tf_course f"
    "tf_expires (ef f) = tf_expires f" "tf_revoked (ef f) \<noteq> None"
  using assms by (auto simp: end_family_def stop_family_def compromise_family_def coalesce_def split: option.split)

lemma linked_when:
  assumes l: "linked s f" and "Q f \<Longrightarrow> se_revoked s = None \<Longrightarrow> P s" and "P s \<Longrightarrow> tf_revoked f = None \<Longrightarrow> Q f"
    and es: "es \<in> {end_session now, stop_session now}" and ef: "ef \<in> {end_family now, stop_family now, compromise_family now}"
  shows "linked (upd P es s) (upd Q ef f)"
proof -
  have s: "linked (es s) f \<longleftrightarrow> tf_revoked f \<noteq> None" "linked (es s) (ef f)" "linked s (ef f) \<longleftrightarrow> se_revoked s \<noteq> None"
    using l by (auto simp: linked_def ended_session [OF es] ended_family [OF ef])
  show ?thesis using s assms(1-3) by (cases "P s"; cases "Q f") auto
qed

lemma revocation_sound:
  assumes ok: "auth_ok db"
    and tables: "sessions db' = map (upd P es) (sessions db)" "families db' = map (upd Q ef) (families db)"
      "tokens db' = map (upd (\<lambda>t. F (rt_family t) \<and> rt_state t = TokActive) revoked_token) (tokens db)"
      "devices db' = map gd (devices db)" "students db' = students db \<and> enrollments db' = enrollments db"
      "next_student db' = next_student db"
    and how: "es \<in> {end_session now, stop_session now}" "ef \<in> {end_family now, stop_family now, compromise_family now}"
    and devices: "\<And>d. d \<in> set (devices db) \<Longrightarrow> device_same d (gd d)"
    and agree: "\<And>s f. s \<in> set (sessions db) \<Longrightarrow> f \<in> set (families db) \<Longrightarrow> linked s f \<Longrightarrow>
        (Q f \<longrightarrow> se_revoked s = None \<longrightarrow> P s) \<and> (P s \<longrightarrow> tf_revoked f = None \<longrightarrow> Q f)"
      "\<And>f. f \<in> set (families db) \<Longrightarrow> Q f \<Longrightarrow> F (tf_id f)"
  shows "sound new db db'"
proof (rule changed_sound [OF ok tables(1-4)])
  show "session_same s (upd P es s) \<and> se_access (upd P es s) = se_access s" for s using how(1) by auto
  show "same_login f (upd Q ef f) \<and> tf_current (upd Q ef f) = tf_current f \<and> (family_ok f \<longrightarrow> family_ok (upd Q ef f))" for f
    using how(2) by auto
  show "linked (upd P es s) (upd Q ef f)" if "s \<in> set (sessions db)" "f \<in> set (families db)" "linked s f" for s f
    by (rule linked_when [OF that(3) _ _ how]) (use agree(1) [OF that] in simp_all)
  show "token_of (upd (\<lambda>t. F (rt_family t) \<and> rt_state t = TokActive) revoked_token t) (upd Q ef f)"
    if "f \<in> set (families db)" "token_of t f" for t f
  proof (rule token_when [where now = now, OF that(2)])
    have "rt_family t = tf_id f" using that(2) by (simp add: token_of_def)
    then show "\<not> F (rt_family t) \<Longrightarrow> upd Q ef f = f" using agree(2) [OF that(1)] by auto
    show "upd Q ef f \<in> {f, end_family now f, stop_family now f, compromise_family now f}" using how(2) by auto
  qed
qed (simp_all add: tables devices)

lemma course_credentials_sound:
  assumes ok: "auth_ok db"
  shows "sound new db (revoke_course_credentials sid course now db)"
  unfolding revoke_course_credentials_def Let_def
  unfolding families_ended
  unfolding row_updates
  by (rule revocation_sound [OF ok, where P = "\<lambda>s. se_student s = sid \<and> se_course s = course" and es = "end_session now"
        and Q = "\<lambda>f. tf_student f = sid \<and> tf_course f = course" and ef = "end_family now" and now = now
        and F = "\<lambda>i. i \<in> course_families sid course (families db)"
        and gd = "upd (\<lambda>d. dv_student d = Some sid \<and> dv_course d = course \<and> dv_state d = DevApproved) (denied_device now)"])
    (auto simp: course_families_def dest: same_course)

lemma student_credentials_sound:
  assumes ok: "auth_ok db"
  shows "sound new db (revoke_student_credentials sid now db)"
  unfolding revoke_student_credentials_def Let_def
  unfolding families_ended
  unfolding row_updates
  by (rule revocation_sound [OF ok, where P = "\<lambda>s. se_student s = sid" and es = "end_session now"
        and Q = "\<lambda>f. tf_student f = sid" and ef = "end_family now" and now = now
        and F = "\<lambda>i. i \<in> tf_id ` {f \<in> set (families db). tf_student f = sid}"
        and gd = "upd (\<lambda>d. dv_student d = Some sid \<and> dv_state d = DevApproved) (denied_device now)"])
    (auto dest: same_course)

lemma replace_sessions_sound:
  assumes ok: "auth_ok db"
  shows "sound new db (replace_sessions sid course now db)"
  unfolding replace_sessions_def Let_def
  unfolding families_ended
  unfolding row_updates
  by (rule revocation_sound [OF ok, where P = "\<lambda>s. se_student s = sid \<and> se_course s = course \<and> se_revoked s = None"
        and es = "end_session now" and Q = "\<lambda>f. tf_student f = sid \<and> tf_course f = course \<and> tf_revoked f = None"
        and ef = "end_family now" and now = now and F = "\<lambda>i. i \<in> course_families sid course (families db)" and gd = id])
    (auto simp: course_families_def linked_def)

lemma lapse_family_sound:
  assumes ok: "auth_ok db" and course: "\<And>f. f \<in> set (families db) \<Longrightarrow> tf_id f = F \<Longrightarrow> tf_course f = course"
  shows "sound new db (lapse_family course now F db)"
  unfolding lapse_family_def row_updates
  by (rule revocation_sound [OF ok, where P = "\<lambda>s. se_family s = F" and es = "stop_session now"
        and Q = "\<lambda>f. tf_id f = F \<and> tf_course f = course" and ef = "end_family now" and now = now
        and F = "\<lambda>i. i = F" and gd = id])
    (auto simp: course dest: same_course)

lemma end_reused_sound:
  assumes ok: "auth_ok db"
  shows "sound new db (end_reused F now db)"
  unfolding end_reused_def row_updates
  by (rule revocation_sound [OF ok, where P = "\<lambda>s. se_family s = F" and es = "stop_session now"
        and Q = "\<lambda>f. tf_id f = F" and ef = "compromise_family now" and now = now
        and F = "\<lambda>i. i = F" and gd = id])
    (auto dest: same_course)

lemma end_worn_out_sound:
  assumes ok: "auth_ok db"
  shows "sound new db (end_worn_out F course now db)"
  unfolding end_worn_out_def row_updates
  by (rule revocation_sound [OF ok, where P = "\<lambda>s. se_family s = F \<and> se_course s = course" and es = "stop_session now"
        and Q = "\<lambda>f. tf_id f = F \<and> tf_course f = course" and ef = "stop_family now" and now = now
        and F = "\<lambda>i. i = F" and gd = id])
    (auto dest: same_course)

lemma revoke_body_sound:
  assumes ok: "auth_ok db" and r: "revoke_body session course owner now db = Inr (r, db')"
  shows "sound new db db'"
proof -
  obtain s where s: "s \<in> set (sessions db)" "se_id s = session" "se_course s = course"
    and db': "db' = db\<lparr>sessions := update_where (\<lambda>x. se_id x = session \<and> se_course x = course) (end_session now) (sessions db),
      families := update_where (\<lambda>f. tf_id f = se_family s \<and> tf_course f = course) (end_family now) (families db),
      tokens := revoke_tokens (\<lambda>i. i = se_family s) (tokens db)\<rparr>"
    using r by (auto simp: revoke_body_def split: option.splits dest: find_SomeD)
  have same: "x = s" if "x \<in> set (sessions db)" "linked x f" "tf_id f = se_family s" for x f
    using ok that s(1) by (auto simp: linked_def auth_ok_def keys_ok_def distinct_map dest: inj_onD)
  have same': "x = s" if "x \<in> set (sessions db)" "se_id x = se_id s" for x
    using ok that s(1) by (auto simp: auth_ok_def keys_ok_def distinct_map dest: inj_onD)
  show ?thesis
    unfolding db' row_updates
    by (rule revocation_sound [OF ok, where P = "\<lambda>x. se_id x = session \<and> se_course x = course" and es = "end_session now"
          and Q = "\<lambda>f. tf_id f = se_family s \<and> tf_course f = course" and ef = "end_family now" and now = now
          and F = "\<lambda>i. i = se_family s" and gd = id])
      (use s in \<open>auto dest: same same' same_course\<close>)
qed

lemma revoke_all_body_sound:
  assumes ok: "auth_ok db" and r: "revoke_all_body sid course now db = Inr (r, db')"
  shows "sound new db db'"
proof -
  have db': "db' = db\<lparr>sessions := update_where (\<lambda>s. se_student s = sid \<and> se_course s = course \<and> se_revoked s = None)
        (stop_session now) (sessions db),
      families := update_where (\<lambda>f. tf_student f = sid \<and> tf_course f = course) (end_family now) (families db),
      tokens := revoke_tokens (\<lambda>i. i \<in> course_families sid course
        (update_where (\<lambda>f. tf_student f = sid \<and> tf_course f = course) (end_family now) (families db))) (tokens db)\<rparr>"
    using r by (simp add: revoke_all_body_def Let_def)
  show ?thesis
    unfolding db' families_ended
    unfolding row_updates
    by (rule revocation_sound [OF ok, where P = "\<lambda>s. se_student s = sid \<and> se_course s = course \<and> se_revoked s = None"
          and es = "stop_session now" and Q = "\<lambda>f. tf_student f = sid \<and> tf_course f = course"
          and ef = "end_family now" and now = now and F = "\<lambda>i. i \<in> course_families sid course (families db)" and gd = id])
      (auto simp: course_families_def linked_def)
qed

section \<open>Devices and people\<close>

lemma device_by_key:
  assumes "auth_ok db" and "d \<in> set (devices db)" and "x \<in> set (devices db)" and "dv_id x = dv_id d"
  shows "x = d"
  using assms by (auto simp: auth_ok_def keys_ok_def distinct_map dest: inj_onD)

lemma set_device_sound:
  assumes ok: "auth_ok db" and d: "d \<in> set (devices db)" and g: "device_same d (g d)"
  shows "sound new db (set_device (dv_id d) g db)"
  unfolding set_device_def update_where_def
  by (rule changed_sound [OF ok, where gs = id and gf = id and gt = id and gd = "upd (\<lambda>x. dv_id x = dv_id d) g"])
    (use device_by_key [OF ok d] g in auto)

text \<open>The tables of the logins are those of before.\<close>

definition same_tables :: "auth_db \<Rightarrow> auth_db \<Rightarrow> bool" where
  "same_tables db db' = (devices db' = devices db \<and> families db' = families db \<and> tokens db' = tokens db \<and>
     sessions db' = sessions db)"

lemma same_tables_sound:
  assumes "auth_ok db" and "same_tables db db'"
    and "distinct (map st_id (students db')) \<and> (\<forall>p\<in>set (students db'). st_id p < next_student db')"
    and "people_ok db'"
  shows "sound new db db'"
  using assms logins_kept_sub [of db' db new]
  by (simp add: sound_def auth_ok_def keys_ok_def link_ok_def same_tables_def)

lemma distinct_put:
  assumes "distinct (map key rows)" and "distinct (map other rows)"
    and "\<And>r. r \<in> set rows \<Longrightarrow> key r = k \<Longrightarrow> other (f r) = x" and "\<And>r. r \<in> set rows \<Longrightarrow> key r \<noteq> k \<Longrightarrow> other r \<noteq> x"
  shows "distinct (map other (update_where (\<lambda>r. key r = k) f rows))"
  using assms
proof (induction rows)
  case (Cons r rows)
  have d: "distinct (map other (update_where (\<lambda>r. key r = k) f rows))"
    using Cons.prems by (intro Cons.IH) auto
  show ?case
  proof (cases "key r = k")
    case True
    then have "key y \<noteq> k" if "y \<in> set rows" for y
      using Cons.prems(1) imageI [OF that, of key] by auto
    then have "update_where (\<lambda>r. key r = k) f rows = rows" by (simp add: update_where_def map_idI)
    moreover have "other (f r) \<notin> other ` set rows"
      using Cons.prems(3,4) True \<open>\<And>y. y \<in> set rows \<Longrightarrow> key y \<noteq> k\<close> by force
    ultimately show ?thesis using True d by (simp add: update_where_def)
  next
    case False
    have "other r \<noteq> other (if key y = k then f y else y)" if "y \<in> set rows" for y
      using Cons.prems(2-4) False that by (auto simp: image_iff)
    then show ?thesis using False d by (auto simp: update_where_def)
  qed
qed (simp add: update_where_def)

lemma put_student_people:
  assumes ok: "auth_ok db" and clash: "\<not> student_clash key subject github db"
    and new: "0 < github" "kind = ''github'' \<or> kind = ''local'' \<and> 2 ^ 62 \<le> github"
  shows "people_ok (put_student key subject kind github login active now db)"
proof (cases "taken st_key key (students db)")
  case True
  let ?f = "\<lambda>s. s\<lparr>st_subject := subject, st_kind := kind, st_github := github, st_login := login,
               st_active := active, st_updated := now\<rparr>"
  let ?ps = "update_where (\<lambda>s. st_key s = key) ?f (students db)"
  have p: "people_ok db" using ok by (simp add: auth_ok_def)
  have "map st_key ?ps = map st_key (students db)" "map st_id ?ps = map st_id (students db)"
    by (simp_all add: update_where_def)
  then have k: "distinct (map st_key ?ps)" "st_id ` set ?ps = st_id ` set (students db)"
    using p by (metis people_ok_def) (metis list.set_map \<open>map st_id ?ps = map st_id (students db)\<close>)
  have "distinct (map st_subject ?ps)" "distinct (map st_github ?ps)"
    using p clash by (auto simp: people_ok_def student_clash_def intro!: distinct_put [where key = st_key])
  moreover have "\<forall>p\<in>set ?ps. student_ok p"
    using p new by (auto simp: update_where_def people_ok_def student_ok_def)
  ultimately show ?thesis using p k True by (simp add: people_ok_def put_student_def)
next
  case False
  then show ?thesis
    using ok clash new by (auto simp: put_student_def auth_ok_def people_ok_def student_ok_def student_clash_def)
qed

lemma put_student_sound:
  assumes ok: "auth_ok db" and "\<not> student_clash key subject github db"
    and "0 < github" "kind = ''github'' \<or> kind = ''local'' \<and> 2 ^ 62 \<le> github"
  shows "sound new db (put_student key subject kind github login active now db)"
proof (rule same_tables_sound [OF ok])
  show "same_tables db (put_student key subject kind github login active now db)"
    by (simp add: same_tables_def put_student_def)
  show "distinct (map st_id (students (put_student key subject kind github login active now db))) \<and>
      (\<forall>p\<in>set (students (put_student key subject kind github login active now db)).
         st_id p < next_student (put_student key subject kind github login active now db))"
    using ok by (fastforce simp: put_student_def auth_ok_def keys_ok_def update_where_def comp_def if_distrib cong: if_cong)
qed (rule put_student_people [OF assms])

lemma put_enrollment_sound:
  assumes ok: "auth_ok db" and sid: "taken st_id sid (students db)"
  shows "sound new db (put_enrollment sid course active now db)"
proof (rule same_tables_sound [OF ok])
  have e: "map (\<lambda>e. (en_student e, en_course e)) (update_where P (\<lambda>e. e\<lparr>en_active := active, en_updated := now\<rparr>) es) =
      map (\<lambda>e. (en_student e, en_course e)) es" for P es
    by (simp add: update_where_def)
  show "people_ok (put_enrollment sid course active now db)"
    using ok sid by (auto simp: auth_ok_def people_ok_def put_enrollment_def set_update_where e)
qed (use ok in \<open>auto simp: same_tables_def put_enrollment_def auth_ok_def keys_ok_def\<close>)

lemma set_active_sound:
  assumes ok: "auth_ok db"
  shows "sound new db (db\<lparr>students := update_where P (\<lambda>s. s\<lparr>st_active := active, st_updated := now\<rparr>) (students db)\<rparr>)"
proof (rule same_tables_sound [OF ok])
  have k: "map key (update_where P (\<lambda>s. s\<lparr>st_active := active, st_updated := now\<rparr>) ps) = map key ps"
    if "\<And>s. key (s\<lparr>st_active := active, st_updated := now\<rparr>) = key s" for key :: "student_row \<Rightarrow> 'k" and ps
    using that by (simp add: update_where_def)
  have "st_id ` set (update_where P (\<lambda>s. s\<lparr>st_active := active, st_updated := now\<rparr>) (students db)) = st_id ` set (students db)"
    using arg_cong [OF k [of st_id], of set] by simp
  then show "people_ok (db\<lparr>students := update_where P (\<lambda>s. s\<lparr>st_active := active, st_updated := now\<rparr>) (students db)\<rparr>)"
    using ok by (auto simp: auth_ok_def people_ok_def k set_update_where student_ok_def)
qed (use ok in \<open>auto simp: same_tables_def auth_ok_def keys_ok_def update_where_def comp_def if_distrib cong: if_cong\<close>)

text \<open>A new authorization: what is expired or deleted belongs to no session.\<close>

lemma insert_device_sound:
  assumes ok: "auth_ok db" and r: "insert_device env d db = Inr db'" and d: "dv_state d = DevPending"
  shows "sound new db db'"
proof -
  have n: "\<not> taken dv_id (dv_id d) (devices db)" "\<not> taken dv_code (dv_code d) (devices db)"
    "\<not> taken dv_user (dv_user d) (devices db)" and db': "db' = db\<lparr>devices := devices db @ [d]\<rparr>"
    using r by (simp_all add: insert_device_def)
  have k: "keys_ok db" and l: "link_ok db" using ok by (simp_all add: auth_ok_def)
  have "keys_ok db'" using k n by (simp add: keys_ok_def db')
  moreover have "link_ok db'" using l d unfolding link_ok_def db' by (auto simp: device_ok_def)
  moreover have "people_ok db'" using ok by (simp add: auth_ok_def people_ok_def db')
  ultimately show ?thesis by (simp add: sound_def auth_ok_def logins_kept_sub db')
qed

lemma expire_old_sound:
  assumes ok: "auth_ok db"
  shows "sound new db (db\<lparr>devices := expire_old now (devices db)\<rparr>)"
  unfolding expire_old_def update_where_def
  by (rule changed_sound [OF ok, where gs = id and gf = id and gt = id
        and gd = "upd (\<lambda>d. dv_state d \<in> {DevPending, DevApproved} \<and> dv_expires d \<le> now) (expire_device now)"])
    (auto simp: device_same_def expire_device_def device_ok_def)

lemma collect_sound:
  assumes ok: "auth_ok db"
  shows "sound new db (db\<lparr>devices := filter (\<lambda>d. \<not> collectable env before (sessions db) d) (devices db)\<rparr>)"
proof -
  have "\<exists>d\<in>set (filter (\<lambda>d. \<not> collectable env before (sessions db) d) (devices db)). session_device s d"
    if "s \<in> set (sessions db)" for s
    using ok that by (fastforce simp: auth_ok_def link_ok_def collectable_def session_device_def)
  then show ?thesis
    using ok by (simp add: sound_def logins_kept_sub auth_ok_def keys_ok_def link_ok_def people_ok_def distinct_map_filter)
qed

lemma create_body_sound:
  assumes ok: "auth_ok db" and r: "create_body env d most keep db = Inr (r, db')" and d: "dv_state d = DevPending"
  shows "sound {} db db'"
proof -
  obtain before where i: "insert_device env d (db\<lparr>devices := filter (\<lambda>d. \<not> collectable env before (sessions db) d)
      (expire_old (dv_created d) (devices db))\<rparr>) = Inr db'"
    using r by (auto simp: create_body_def Let_def rbind_Inr_iff)
  have a: "sound {} db (db\<lparr>devices := expire_old (dv_created d) (devices db)\<rparr>)" by (rule expire_old_sound [OF ok])
  then have "auth_ok (db\<lparr>devices := expire_old (dv_created d) (devices db)\<rparr>)" by (simp add: sound_def)
  from collect_sound [OF this, of "{}" env before]
  have b: "sound {} (db\<lparr>devices := expire_old (dv_created d) (devices db)\<rparr>)
      (db\<lparr>devices := filter (\<lambda>d. \<not> collectable env before (sessions db) d) (expire_old (dv_created d) (devices db))\<rparr>)"
    by simp
  have "sound {} (db\<lparr>devices := filter (\<lambda>d. \<not> collectable env before (sessions db) d) (expire_old (dv_created d) (devices db))\<rparr>) db'"
    by (rule insert_device_sound [OF _ i d]) (use b in \<open>simp add: sound_def\<close>)
  with a b show ?thesis by (blast intro: sound_then)
qed

end
