(* ===== verification/Auth_Issue.thy ===== *)
theory Auth_Issue
  imports Auth_Ledger
begin

text \<open>
  The operations on logins that add or delete rows: the pruning of old sessions, the exchange of a
  device authorization for a session, the rotation of a refresh token. Each keeps the invariant of
  \<open>Auth_Ledger\<close>.
\<close>

section \<open>Clean-up\<close>

lemma session_key:
  assumes "auth_ok db" and "s \<in> set (sessions db)" and "x \<in> set (sessions db)"
  shows "se_family x = se_family s \<Longrightarrow> x = s" "se_id x = se_id s \<Longrightarrow> x = s" "se_device x = se_device s \<Longrightarrow> x = s"
    "se_access x = se_access s \<Longrightarrow> x = s"
  using assms by (auto simp: auth_ok_def keys_ok_def distinct_map dest: inj_onD)

lemma family_key:
  assumes "auth_ok db" and "f \<in> set (families db)" and "x \<in> set (families db)"
  shows "tf_id x = tf_id f \<Longrightarrow> x = f" "tf_current x = tf_current f \<Longrightarrow> x = f"
  using assms by (auto simp: auth_ok_def keys_ok_def distinct_map dest: inj_onD)

lemma prune_session_sound:
  assumes ok: "auth_ok db" and s: "s \<in> set (sessions db)" "se_course s = course"
  shows "sound new db (prune_session env course s db)"
proof -
  let ?db = "prune_session env course s db"
  let ?ss = "filter (\<lambda>x. se_id x \<noteq> se_id s) (sessions db)"
  have l: "link_ok db" and k: "keys_ok db" using ok by (simp_all add: auth_ok_def)
  have ss: "set ?ss = set (sessions db) - {s}" using session_key(2) [OF ok s(1)] by auto
  have free: "\<not> taken se_family (se_family s) ?ss"
  proof
    assume "taken se_family (se_family s) ?ss"
    then obtain x where "x \<in> set ?ss" "se_family s = se_family x" by (rule imageE) blast
    then show False using session_key(1) [OF ok s(1), of x] ss by simp
  qed
  obtain f where f: "f \<in> set (families db)" "linked s f" using l s(1) by (auto simp: link_ok_def)
  have fs: "set (families ?db) = set (families db) - {f}"
  proof -
    have "tf_id g = se_family s \<and> tf_course g = course \<and> \<not> taken se_family (se_family s) ?ss \<longleftrightarrow> g = f"
      if "g \<in> set (families db)" for g
      using family_key(1) [OF ok f(1) that] free f(2) s(2) unfolding linked_def by metis
    then show ?thesis by (auto simp: prune_session_def Let_def)
  qed
  have keys: "keys_ok ?db"
    using k by (simp add: prune_session_def Let_def keys_ok_def distinct_map_filter)
  have people: "people_ok ?db" using ok by (simp add: prune_session_def Let_def auth_ok_def people_ok_def)
  have a: "\<forall>x\<in>set (sessions ?db). \<exists>g\<in>set (families ?db). linked x g"
  proof
    fix x assume "x \<in> set (sessions ?db)"
    then have x: "x \<in> set (sessions db)" "x \<noteq> s" using ss by (auto simp: prune_session_def Let_def)
    then obtain g where g: "g \<in> set (families db)" "linked x g" using l by (auto simp: link_ok_def)
    have "g \<noteq> f" using f(2) g(2) x session_key(1) [OF ok s(1) x(1)] by (auto simp: linked_def)
    then show "\<exists>g\<in>set (families ?db). linked x g" using g fs by blast
  qed
  have b: "\<forall>g\<in>set (families ?db). \<exists>x\<in>set (sessions ?db). linked x g"
  proof
    fix g assume "g \<in> set (families ?db)"
    then have g: "g \<in> set (families db)" "g \<noteq> f" using fs by auto
    then obtain x where x: "x \<in> set (sessions db)" "linked x g" using l by (auto simp: link_ok_def)
    have "x \<noteq> s" using family_key(1) [OF ok f(1) g(1)] f(2) x(2) g(2) by (auto simp: linked_def)
    then have "x \<in> set (sessions ?db)" using x ss by (auto simp: prune_session_def Let_def)
    then show "\<exists>x\<in>set (sessions ?db). linked x g" using x by blast
  qed
  have c: "\<forall>x\<in>set (sessions ?db). \<exists>d\<in>set (devices ?db). session_device x d"
  proof
    fix x assume "x \<in> set (sessions ?db)"
    then have x: "x \<in> set (sessions db)" "x \<noteq> s" using ss by (auto simp: prune_session_def Let_def)
    then obtain d where d: "d \<in> set (devices db)" "session_device x d" using l by (auto simp: link_ok_def)
    have "dv_id d \<noteq> se_device s"
      using d(2) x session_key(3) [OF ok s(1) x(1)] by (auto simp: session_device_def)
    then show "\<exists>d\<in>set (devices ?db). session_device x d"
      using d by (auto simp: prune_session_def Let_def)
  qed
  have d: "\<forall>t\<in>set (tokens ?db). \<exists>g\<in>set (families ?db). token_of t g"
  proof
    fix t assume "t \<in> set (tokens ?db)"
    then have t: "t \<in> set (tokens db)" "rt_family t \<noteq> tf_id f"
      using f free s(2) by (auto simp: prune_session_def Let_def linked_def)
    then obtain g where g: "g \<in> set (families db)" "token_of t g" using l by (auto simp: link_ok_def)
    then have "g \<noteq> f" using t(2) by (auto simp: token_of_def)
    then show "\<exists>g\<in>set (families ?db). token_of t g" using g fs by blast
  qed
  have e: "\<forall>g\<in>set (families ?db). family_ok g" "\<forall>d\<in>set (devices ?db). device_ok d" "one_live (sessions ?db)"
    using l fs by (auto simp: link_ok_def prune_session_def Let_def one_live_def)
  have "link_ok ?db" unfolding link_ok_def using a b c d e by blast
  then show ?thesis using keys people fs by (auto simp: sound_def auth_ok_def intro!: logins_kept_sub)
qed

lemma prune_all_sound:
  "auth_ok db \<Longrightarrow> set ss \<subseteq> set (sessions db) \<Longrightarrow> distinct (map se_id ss) \<Longrightarrow> \<forall>s\<in>set ss. se_course s = course \<Longrightarrow>
   sound {} db (fold (prune_session env course) ss db)"
proof (induction ss arbitrary: db)
  case (Cons s ss)
  have a: "sound {} db (prune_session env course s db)"
    using Cons.prems by (intro prune_session_sound) simp_all
  have "x \<in> set (sessions (prune_session env course s db))" if "x \<in> set ss" for x
  proof -
    have "se_id s \<notin> se_id ` set ss" using Cons.prems(3) by simp
    then have "se_id x \<noteq> se_id s" using that by (metis imageI)
    then show ?thesis using that Cons.prems(2) by (auto simp: prune_session_def Let_def)
  qed
  then have "set ss \<subseteq> set (sessions (prune_session env course s db))" by (rule subsetI)
  then have "sound {} (prune_session env course s db) (fold (prune_session env course) ss (prune_session env course s db))"
    using Cons.prems a by (intro Cons.IH) (simp_all add: sound_def)
  then show ?case using a by (simp add: sound_then)
qed (simp add: sound_refl)

lemma prune_auth_history_sound:
  assumes ok: "auth_ok db"
  shows "sound {} db (prune_auth_history env sid course before db)"
  unfolding prune_auth_history_def
  using ok by (intro prune_all_sound) (auto simp: auth_ok_def keys_ok_def prunable_def distinct_map_filter)

lemma lapse_all_sound:
  "auth_ok db \<Longrightarrow> \<forall>F\<in>set Fs. \<forall>f\<in>set (families db). tf_id f = F \<longrightarrow> tf_course f = course \<Longrightarrow>
   sound {} db (fold (lapse_family course now) Fs db)"
proof (induction Fs arbitrary: db)
  case (Cons F Fs)
  have a: "sound {} db (lapse_family course now F db)" using Cons.prems by (intro lapse_family_sound) simp_all
  have "\<forall>G\<in>set Fs. \<forall>f\<in>set (families (lapse_family course now F db)). tf_id f = G \<longrightarrow> tf_course f = course"
  proof -
    have e: "\<exists>g\<in>set (families db). tf_id g = tf_id f \<and> tf_course g = tf_course f"
      if "f \<in> set (families (lapse_family course now F db))" for f
      using that by (fastforce simp: lapse_family_def set_update_where end_family_def)
    have "tf_course f = course" if w: "G \<in> set Fs" "f \<in> set (families (lapse_family course now F db))" "tf_id f = G" for G f
    proof -
      obtain g where "g \<in> set (families db)" "tf_id g = G" "tf_course g = tf_course f" using e [OF w(2)] w(3) by auto
      then show ?thesis using Cons.prems(2) w(1) by (metis list.set_intros(2))
    qed
    then show ?thesis by blast
  qed
  then have "sound {} (lapse_family course now F db) (fold (lapse_family course now) Fs (lapse_family course now F db))"
    using a by (intro Cons.IH) (simp_all add: sound_def)
  then show ?case using a by (simp add: sound_then)
qed (simp add: sound_refl)

lemma lapsed_course:
  assumes ok: "auth_ok db" and F: "F \<in> set (lapsed_families sid course now (sessions db))"
    and f: "f \<in> set (families db)" "tf_id f = F"
  shows "tf_course f = course"
proof -
  obtain s where s: "s \<in> set (sessions db)" "se_family s = F" "se_course s = course"
    using F by (auto simp: lapsed_families_def)
  obtain g where g: "g \<in> set (families db)" "linked s g" using ok s(1) by (auto simp: auth_ok_def link_ok_def)
  then have "g = f" using family_key(1) [OF ok f(1) g(1)] s(2) f(2) by (simp add: linked_def)
  then show ?thesis using g(2) s(3) by (simp add: linked_def)
qed

text \<open>What pruning leaves, and that after the clean-up no session of the student is live.\<close>

lemma prune_subsets:
  "set (sessions (fold (prune_session env course) ss db)) \<subseteq> set (sessions db)"
  "d \<in> set (devices db) \<Longrightarrow> \<not> device_over d \<Longrightarrow> d \<in> set (devices (fold (prune_session env course) ss db))"
  "set (devices (fold (prune_session env course) ss db)) \<subseteq> set (devices db)"
proof (induction ss arbitrary: db)
  case (Cons s ss)
  have a: "set (sessions (prune_session env course s db)) \<subseteq> set (sessions db)"
    "set (devices (prune_session env course s db)) \<subseteq> set (devices db)" for db
    by (auto simp: prune_session_def Let_def)
  { case 1 show ?case using subset_trans [OF Cons.IH(1) a(1)] by simp
  next case 2
    then have "d \<in> set (devices (prune_session env course s db))" by (auto simp: prune_session_def Let_def)
    then show ?case using Cons.IH(2) 2 by simp
  next case 3 show ?case using subset_trans [OF Cons.IH(3) a(2)] by simp }
qed simp_all

lemma lapse_devices: "devices (fold (lapse_family course now) Fs db) = devices db"
  by (induction Fs arbitrary: db) (simp_all add: lapse_family_def)

lemma replaced_none_live:
  assumes "s \<in> set (sessions (replace_sessions sid course now db))" "se_student s = sid" "se_course s = course"
  shows "se_revoked s \<noteq> None"
proof -
  have "s \<in> set (map (upd (\<lambda>s. se_student s = sid \<and> se_course s = course \<and> se_revoked s = None) (end_session now)) (sessions db))"
    using assms(1) unfolding replace_sessions_def Let_def update_where_def by simp
  then obtain x where "s = upd (\<lambda>s. se_student s = sid \<and> se_course s = course \<and> se_revoked s = None) (end_session now) x"
    unfolding set_map by (rule imageE)
  moreover have "session_same x (end_session now x)" by simp
  ultimately have "se_revoked s = None \<Longrightarrow> False" using assms(2,3) by (simp add: session_same_def split: if_split_asm)
  then show ?thesis by blast
qed

lemma end_earlier_sound:
  assumes ok: "auth_ok db"
  shows "sound {} db (end_earlier env sid course now before db)"
proof -
  let ?l = "fold (lapse_family course now) (lapsed_families sid course now (sessions db)) db"
  let ?r = "replace_sessions sid course now ?l"
  let ?p = "prune_auth_history env sid course before ?r"
  have a: "sound {} db ?l" using ok by (intro lapse_all_sound) (auto dest: lapsed_course [OF ok])
  have b: "sound {} ?l ?r" using a by (intro replace_sessions_sound) (simp add: sound_def)
  have c: "sound {} ?r ?p" using b by (intro prune_auth_history_sound) (simp add: sound_def)
  have d: "sound {} ?p (end_earlier env sid course now before db)"
    using c unfolding end_earlier_def Let_def
    by (intro same_tables_sound) (auto simp: sound_def auth_ok_def keys_ok_def people_ok_def same_tables_def)
  show ?thesis using a b c d by (blast intro: sound_then)
qed

lemma end_earlier_none_live:
  assumes s: "s \<in> set (sessions (end_earlier env sid course now before db))" "se_student s = sid" "se_course s = course"
  shows "se_revoked s \<noteq> None"
proof (rule replaced_none_live [OF _ s(2,3)])
  show "s \<in> set (sessions (replace_sessions sid course now
      (fold (lapse_family course now) (lapsed_families sid course now (sessions db)) db)))"
    using s(1) by (auto simp: end_earlier_def Let_def prune_auth_history_def dest: subsetD [OF prune_subsets(1)])
qed

lemma end_earlier_device:
  "d \<in> set (devices db) \<Longrightarrow> \<not> device_over d \<Longrightarrow> d \<in> set (devices (end_earlier env sid course now before db))"
  by (auto simp: end_earlier_def Let_def prune_auth_history_def replace_sessions_def lapse_devices intro!: prune_subsets(2))


section \<open>Issuance\<close>

lemma issue_session_sound:
  assumes ok: "auth_ok db" and d: "d \<in> set (devices db)" "dv_state d = DevApproved" "dv_student d = Some sid" "dv_course d = course"
    and free: "\<And>s. s \<in> set (sessions db) \<Longrightarrow> se_student s = sid \<Longrightarrow> se_course s = course \<Longrightarrow> se_revoked s \<noteq> None"
    and expiry: "is_access_expiry i \<le> is_refresh_expiry i"
    and r: "issue_session env i sid course d now db = Inr db'"
  shows "sound {is_family i} db (set_device (dv_id d) (consume_row now) db')"
proof -
  let ?f = "new_family i sid course now" and ?s = "new_session i sid course d now"
  let ?t = "new_token (is_refresh i) (is_family i) now (is_refresh_expiry i)"
  let ?db = "set_device (dv_id d) (consume_row now) db'"
  let ?g = "upd (\<lambda>x. dv_id x = dv_id d) (consume_row now)"
  have l: "link_ok db" and k: "keys_ok db" using ok by (simp_all add: auth_ok_def)
  have db: "families ?db = families db @ [?f]" "tokens ?db = tokens db @ [?t]" "sessions ?db = sessions db @ [?s]"
    "devices ?db = map ?g (devices db)" "students ?db = students db" "next_student ?db = next_student db"
    "enrollments ?db = enrollments db"
    using r by (auto simp: issue_session_def set_device_def update_where_def)
  have n: "\<not> taken tf_id (is_family i) (families db)" "\<not> taken tf_current (is_refresh i) (families db)"
    "\<not> taken rt_hash (is_refresh i) (tokens db)" "\<not> taken se_id (is_session i) (sessions db)"
    "\<not> taken se_family (is_family i) (sessions db)" "\<not> taken se_device (dv_id d) (sessions db)"
    "\<not> taken se_access (is_access i) (sessions db)"
    using r by (simp_all add: issue_session_def)
  have g: "dv_id (?g x) = dv_id x" "dv_code (?g x) = dv_code x" "dv_user (?g x) = dv_user x" for x
    by (simp_all add: consume_row_def)
  have "keys_ok ?db"
    using k n unfolding keys_ok_def db
    by (simp add: comp_def g new_family_def new_token_def new_session_def del: if_split)
  moreover have "link_ok ?db"
  proof -
    have s: "linked ?s ?f" "token_of ?t ?f" "family_ok ?f" "session_device ?s (consume_row now d)" "device_ok (consume_row now d)"
      using d expiry by (simp_all add: linked_def token_of_def family_ok_def session_device_def device_ok_def consume_row_def
          new_family_def new_token_def new_session_def)
    have gd: "?g d = consume_row now d" "consume_row now d \<in> set (devices ?db)" using d(1) by (auto simp: db(4))
    have a: "\<forall>s\<in>set (sessions ?db). \<exists>f\<in>set (families ?db). linked s f"
      "\<forall>f\<in>set (families ?db). \<exists>s\<in>set (sessions ?db). linked s f"
      "\<forall>t\<in>set (tokens ?db). \<exists>f\<in>set (families ?db). token_of t f" "\<forall>f\<in>set (families ?db). family_ok f"
      using l s(1-3) unfolding link_ok_def db by auto
    have b: "\<forall>x\<in>set (sessions ?db). \<exists>e\<in>set (devices ?db). session_device x e"
    proof
      fix x assume "x \<in> set (sessions ?db)"
      then consider "x = ?s" | "x \<in> set (sessions db)" by (auto simp: db)
      then show "\<exists>e\<in>set (devices ?db). session_device x e"
      proof cases
        case 2
        then obtain e where e: "e \<in> set (devices db)" "session_device x e" using l by (auto simp: link_ok_def)
        then have "dv_id e \<noteq> dv_id d" using 2 n(6) unfolding session_device_def by (metis imageI)
        then have "e \<in> set (devices ?db)" using e(1) by (force simp: db(4))
        then show ?thesis using e(2) by blast
      qed (use s(4) gd(2) in blast)
    qed
    have c: "\<forall>e\<in>set (devices ?db). device_ok e"
    proof
      fix e assume "e \<in> set (devices ?db)"
      then obtain x where x: "x \<in> set (devices db)" "e = ?g x" by (auto simp: db(4) simp del: if_split)
      show "device_ok e"
      proof (cases "dv_id x = dv_id d")
        case True then show ?thesis using device_by_key [OF ok d(1) x(1)] s(5) x(2) by simp
      next
        case False then show ?thesis using x l by (simp add: link_ok_def)
      qed
    qed
    have e: "one_live (sessions ?db)"
    proof -
      have o: "one_live (sessions db)" using l by (simp add: link_ok_def)
      have "se_student ?s = sid" "se_course ?s = course" by (simp_all add: new_session_def)
      moreover have "\<not> (se_revoked s = None \<and> se_student s = sid \<and> se_course s = course)" if "s \<in> set (sessions db)" for s
        using free [OF that] by auto
      ultimately show ?thesis using o unfolding one_live_def db by (metis Un_iff empty_iff insert_iff list.set(1,2) set_append)
    qed
    show ?thesis unfolding link_ok_def using a b c e by blast
  qed
  moreover have "logins_kept {is_family i} db ?db"
    unfolding logins_kept_def db by (auto simp: new_family_def intro: same_login_refl)
  moreover have "people_ok ?db" using ok db by (simp add: auth_ok_def people_ok_def)
  ultimately show ?thesis by (simp add: sound_def auth_ok_def)
qed

lemma exchange_sound:
  assumes ok: "auth_ok db" and d: "d \<in> set (devices db)" "dv_state d = DevApproved" "dv_student d = Some sid" "dv_course d = course"
    and expiry: "is_access_expiry i \<le> is_refresh_expiry i" and r: "exchange env l i sid course d now db = Inr (r, db')"
  shows "sound {is_family i} db db'"
proof -
  obtain before db2 where i: "issue_session env i sid course d now (end_earlier env sid course now before db) = Inr db2"
    and db': "db' = set_device (dv_id d) (consume_row now) db2"
    using r by (auto simp: exchange_def Let_def rbind_Inr_iff)
  have a: "sound {} db (end_earlier env sid course now before db)" by (rule end_earlier_sound [OF ok])
  have "sound {is_family i} (end_earlier env sid course now before db) db'"
    unfolding db'
  proof (rule issue_session_sound [OF _ _ d(2-4) _ expiry i])
    show "auth_ok (end_earlier env sid course now before db)" using a by (simp add: sound_def)
    show "d \<in> set (devices (end_earlier env sid course now before db))"
      using d by (intro end_earlier_device) (simp_all add: device_over_def)
  qed (rule end_earlier_none_live)
  then show ?thesis using a by (rule sound_then [rotated])
qed

lemma device_expired [simp]: "dv_state d \<noteq> DevConsumed \<Longrightarrow> device_same d (expire_device now d)"
  by (simp add: device_same_def device_ok_def expire_device_def)

lemma consume_body_sound:
  assumes ok: "auth_ok db" and expiry: "is_access_expiry i \<le> is_refresh_expiry i"
    and r: "consume_body env l i code course now db = Inr (r, db')"
  shows "sound {is_family i} db db'"
proof -
  obtain d where d: "d \<in> set (devices db)" "dv_course d = course" "dv_state d = DevApproved"
    and "db' = set_device (dv_id d) (expire_device now) db \<or>
      (\<exists>sid. dv_student d = Some sid \<and> exchange env l i sid course d now db = Inr (r, db'))"
    using r by (auto simp: consume_body_def split: option.split_asm if_split_asm dest: find_SomeD)
  then show ?thesis
    using ok expiry by (auto intro!: set_device_sound elim!: exchange_sound [rotated 5])
qed


section \<open>Rotation\<close>

lemma distinct_changed:
  assumes "distinct (map k xs)" and "\<And>x. x \<in> set xs \<Longrightarrow> \<not> P x \<Longrightarrow> k x \<noteq> v" and "distinct (map i xs)"
    and "\<And>x. x \<in> set xs \<Longrightarrow> P x \<Longrightarrow> i x = j" and "\<And>x. P x \<Longrightarrow> k (g x) = v"
  shows "distinct (map k (map (upd P g) xs))"
proof -
  have d: "distinct xs" "inj_on k (set xs)" "inj_on i (set xs)" using assms(1,3) by (simp_all add: distinct_map)
  have "inj_on (k \<circ> upd P g) (set xs)"
  proof (rule inj_onI)
    fix x y assume x: "x \<in> set xs" "y \<in> set xs" and e: "(k \<circ> upd P g) x = (k \<circ> upd P g) y"
    then show "x = y"
      using assms(2,4,5) inj_onD [OF d(2) _ x] inj_onD [OF d(3) _ x] by (cases "P x"; cases "P y") force+
  qed
  then show ?thesis using d(1) by (simp add: distinct_map)
qed

lemma link_ok_token:
  "link_ok (db\<lparr>tokens := ts\<rparr>) \<Longrightarrow> token_of t f \<Longrightarrow> f \<in> set (families db) \<Longrightarrow> tokens db = ts @ [t] \<Longrightarrow> link_ok db"
  by (auto simp: link_ok_def)

lemma replace_token_sound:
  assumes ok: "auth_ok db" and t: "t \<in> set (tokens db)" "rt_hash t = ro_presented r" "rt_state t = TokActive"
    and f: "f \<in> set (families db)" "rt_family t = tf_id f" "tf_course f = course" "tf_revoked f = None"
    and expiry: "refresh_expiry \<le> tf_expires f" "access_expiry \<le> refresh_expiry"
    and r: "replace_token r (tf_id f) course refresh_expiry access_expiry now db = Inr db'"
  shows "sound new db db'"
proof -
  let ?F = "tf_id f"
  let ?gt = "upd (\<lambda>t. rt_hash t = ro_presented r) (use_token now)"
  let ?gf = "upd (\<lambda>f. tf_id f = ?F \<and> tf_course f = course) (rotated_family (ro_replacement r) now)"
  let ?gs = "upd (\<lambda>s. se_family s = ?F \<and> se_course s = course) (rotated_session (ro_access r) access_expiry now)"
  let ?new = "new_token (ro_replacement r) ?F now refresh_expiry"
  have l: "link_ok db" and k: "keys_ok db" using ok by (simp_all add: auth_ok_def)
  have db: "tokens db' = map ?gt (tokens db) @ [?new]" "families db' = map ?gf (families db)"
    "sessions db' = map ?gs (sessions db)" "devices db' = devices db" "students db' = students db"
    "next_student db' = next_student db" "enrollments db' = enrollments db"
    using r by (auto simp: replace_token_def update_where_def)
  have n: "\<not> taken rt_hash (ro_replacement r) (tokens db)"
    "\<And>f'. f' \<in> set (families db) \<Longrightarrow> tf_current f' = ro_replacement r \<Longrightarrow> tf_id f' = ?F"
    "\<And>s'. s' \<in> set (sessions db) \<Longrightarrow> se_access s' = ro_access r \<Longrightarrow> se_family s' = ?F"
    using r by (simp_all add: replace_token_def)
  have only: "x = f" if "x \<in> set (families db)" "tf_id x = ?F" for x using family_key(1) [OF ok f(1) that] .
  have course: "se_course s = course" if s: "s \<in> set (sessions db)" "se_family s = ?F" for s
  proof -
    obtain x where "x \<in> set (families db)" "linked s x" using l s(1) by (auto simp: link_ok_def)
    then show ?thesis using only [of x] s(2) f(3) by (auto simp: linked_def)
  qed
  have keys: "keys_ok db'"
  proof -
    have a: "map rt_hash (map ?gt (tokens db)) = map rt_hash (tokens db)" "map tf_id (map ?gf (families db)) = map tf_id (families db)"
      "map se_id (map ?gs (sessions db)) = map se_id (sessions db)" "map se_family (map ?gs (sessions db)) = map se_family (sessions db)"
      "map se_device (map ?gs (sessions db)) = map se_device (sessions db)"
      by (simp_all add: use_token_def rotated_family_def rotated_session_def)
    have b: "distinct (map tf_current (map ?gf (families db)))"
      using k n(2) f(3) only by (intro distinct_changed [where i = tf_id and j = ?F]) (auto simp: keys_ok_def rotated_family_def)
    have c: "distinct (map se_access (map ?gs (sessions db)))"
      using k n(3) course by (intro distinct_changed [where i = se_family and j = ?F]) (auto simp: keys_ok_def rotated_session_def)
    have d: "distinct (map rt_hash (map ?gt (tokens db) @ [?new]))"
      using k n(1) unfolding map_append a by (simp add: keys_ok_def new_token_def)
    show ?thesis using k b c d unfolding keys_ok_def db a by blast
  qed
  let ?db = "db'\<lparr>tokens := map ?gt (tokens db)\<rparr>"
  have "link_ok ?db"
  proof (rule changed_link [OF l, where gd = id])
    show "session_same s (?gs s)" for s by (simp add: session_same_def rotated_session_def)
    show "family_ok x \<Longrightarrow> family_ok (?gf x)" for x by (simp add: family_ok_def rotated_family_def)
    show "linked (?gs s) (?gf x)" if "s \<in> set (sessions db)" "x \<in> set (families db)" "linked s x" for s x
      using that(3) expiry only [OF that(2)] f(3) by (auto simp: linked_def rotated_family_def rotated_session_def)
    show "token_of (?gt u) (?gf x)" if "u \<in> set (tokens db)" "x \<in> set (families db)" "token_of u x" for u x
    proof (cases "tf_id x = ?F")
      case True
      then have x: "x = f" using only that(2) by blast
      have "tf_current f = rt_hash t"
      proof -
        obtain y where "y \<in> set (families db)" "token_of t y" using l t(1) by (auto simp: link_ok_def)
        then show ?thesis using only [of y] f(2) t(3) by (auto simp: token_of_def)
      qed
      then have "rt_state u = TokActive \<Longrightarrow> rt_hash u = ro_presented r" using that(3) x t(2) by (simp add: token_of_def)
      then show ?thesis using that(3) by (auto simp: x token_of_def use_token_def rotated_family_def)
    next
      case False
      have "inj_on rt_hash (set (tokens db))" using k by (simp add: keys_ok_def distinct_map)
      then have "rt_hash u = ro_presented r \<Longrightarrow> u = t" using that(1) t(1,2) by (metis inj_onD)
      then have "rt_hash u \<noteq> ro_presented r" using False that(3) f(2) unfolding token_of_def by metis
      then show ?thesis using False that(3) by simp
    qed
  qed (simp_all add: db)
  moreover have "token_of ?new (?gf f)" using f(3,4) expiry(1) by (simp add: token_of_def new_token_def rotated_family_def)
  moreover have "?gf f \<in> set (families db')" unfolding db(2) set_map using f(1) by (rule imageI)
  ultimately have "link_ok db'" by (rule link_ok_token [OF _ _ _ db(1)])
  moreover have "logins_kept new db db'" by (rule changed_kept [OF db(2)]) (simp add: same_login_def rotated_family_def)
  moreover have "people_ok db'" using ok db by (simp add: auth_ok_def people_ok_def)
  ultimately show ?thesis using keys by (simp add: sound_def auth_ok_def)
qed

lemma rotate_live_sound:
  assumes ok: "auth_ok db" and t: "t \<in> set (tokens db)" "rt_hash t = ro_presented r" "rt_state t = TokActive"
    and f: "f \<in> set (families db)" "rt_family t = tf_id f" "tf_course f = course" "tf_revoked f = None"
    and r: "rotate_live r most f s course now db = Inr (x, db')"
  shows "sound new db db'"
  using r end_worn_out_sound [OF ok] replace_token_sound [OF ok t f min.cobounded2 min.cobounded2]
  by (auto simp: rotate_live_def Let_def rbind_Inr_iff split: if_split_asm)

lemma rotate_body_sound:
  assumes ok: "auth_ok db" and r: "rotate_body r most course now db = Inr (x, db')"
  shows "sound new db db'"
proof -
  obtain t f where t: "t \<in> set (tokens db)" "rt_hash t = ro_presented r"
    and f: "f \<in> set (families db)" "tf_id f = rt_family t" "tf_course f = course"
    and "db' = end_reused (rt_family t) now db \<or>
      (rt_state t = TokActive \<and> tf_revoked f = None \<and> (\<exists>s. rotate_live r most f s course now db = Inr (x, db')))"
    using r by (auto simp: rotate_body_def split: option.split_asm if_split_asm dest!: find_SomeD)
  then show ?thesis using end_reused_sound [OF ok] rotate_live_sound [OF ok t _ f(1) f(2) [symmetric] f(3)] by auto
qed

end
