(* ===== verification/Auth_Steps.thy ===== *)
theory Auth_Steps
  imports Auth_Issue
begin

text \<open>
  Histories of the login rows: every call of an operation is a step, labelled with the identifier of
  the token family it may issue. Every reachable state satisfies the invariant of \<open>Auth_Ledger\<close>, and
  between two states of a history the logins that were not issued in between only age.
\<close>

section \<open>Soundness of the operations\<close>

lemma guard_sound:
  "auth_ok db \<Longrightarrow> (\<And>x. r = Inr x \<Longrightarrow> sound new db (snd (f x db))) \<Longrightarrow> sound new db (snd (guard r f db))"
  by (cases r) (simp_all add: guard_def sound_refl)

lemma transact_sound:
  "auth_ok db \<Longrightarrow> (\<And>r db'. body db = Inr (r, db') \<Longrightarrow> sound new db db') \<Longrightarrow> sound new db (snd (transact body db))"
  by (cases "body db") (auto simp: transact_def sound_refl)

lemma sound_ok: "sound new a b \<Longrightarrow> auth_ok b"
  by (simp add: sound_def)

lemma upsert_body_sound:
  assumes ok: "auth_ok db" and r: "upsert_body key subject kind github login active changed now db = Inr (r, db')"
    and g: "0 < github" "kind = ''github'' \<or> kind = ''local'' \<and> 2 ^ 62 \<le> github"
  shows "sound {} db db'"
proof -
  let ?db = "put_student key subject kind github login active now db"
  have "\<not> student_clash key subject github db" using r by (simp add: upsert_body_def Let_def)
  from put_student_sound [OF ok this g] have a: "sound {} db ?db" .
  obtain i where "db' = ?db \<or> db' = revoke_student_credentials i now ?db"
    using r by (auto simp: upsert_body_def Let_def split: option.split_asm if_split_asm)
  then show ?thesis
    using a sound_then [OF a student_credentials_sound [OF sound_ok [OF a]]] by blast
qed

lemma upsert_student_sound:
  assumes ok: "auth_ok db"
  shows "sound {} db (snd (upsert_student env key subject github login active when_v db))"
  unfolding upsert_student_def
  by (intro guard_sound transact_sound ok) (auto simp: positive_arg_def intro: upsert_body_sound [OF ok])

lemma local_identity_range: "local_identity sha key = (i, l) \<Longrightarrow> 2 ^ 62 \<le> i \<and> i < 2 ^ 63"
  by (auto simp: local_identity_def Let_def)

lemma upsert_local_student_sound:
  assumes ok: "auth_ok db"
  shows "sound {} db (snd (upsert_local_student env key subject active when_v db))"
proof -
  have i: "2 ^ 62 \<le> fst (local_identity (sha256_hex env) k)" for k
    using local_identity_range by (metis prod.collapse)
  then have "0 < fst (local_identity (sha256_hex env) k)" for k by (rule less_le_trans [rotated]) simp
  with i show ?thesis
    unfolding upsert_local_student_def Let_def case_prod_beta
    by (intro guard_sound transact_sound ok) (auto intro: upsert_body_sound [OF ok])
qed

lemma set_student_active_sound:
  assumes ok: "auth_ok db"
  shows "sound {} db (snd (set_student_active env sid active when_v db))"
  unfolding set_student_active_def
  by (intro guard_sound transact_sound ok)
    (auto simp: Let_def set_active_sound [OF ok] sound_then [OF set_active_sound [OF ok] student_credentials_sound [OF sound_ok [OF set_active_sound [OF ok]]]]
      split: option.split_asm if_split_asm)

lemma upsert_enrollment_sound:
  assumes ok: "auth_ok db"
  shows "sound {} db (snd (upsert_enrollment env sid course active when_v db))"
  unfolding upsert_enrollment_def
proof (intro guard_sound transact_sound ok)
  fix course now r db'
  let ?db = "put_enrollment sid course active now db"
  assume r: "demand (taken st_id sid (students db)) PlatformNotFound
       (let db1 = ?db; db2 = (if active then db1 else revoke_course_credentials sid course now db1)
        in case find (\<lambda>e. en_student e = sid \<and> en_course e = course) (enrollments db2) of
             None \<Rightarrow> Inl (Py TypeErr) | Some row \<Rightarrow> Inr (Inr row, db2)) = Inr (r, db')"
  then have a: "sound {} db ?db" by (intro put_enrollment_sound [OF ok]) simp
  have "db' = ?db \<or> db' = revoke_course_credentials sid course now ?db"
    using r by (auto simp: Let_def split: option.split_asm if_split_asm)
  then show "sound {} db db'"
    using a sound_then [OF a course_credentials_sound [OF sound_ok [OF a]]] by blast
qed

lemma create_sound:
  assumes ok: "auth_ok db"
  shows "sound {} db (snd (create_device_authorization env i code user course label expires poll most keep when_v db))"
  unfolding create_device_authorization_def
  by (intro guard_sound transact_sound ok) (auto intro: create_body_sound [OF ok] simp: new_device_def)

lemma device_answered [simp]:
  "dv_state d = DevPending \<Longrightarrow> device_same d (approve_row now sid d)"
  "dv_state d = DevPending \<Longrightarrow> device_same d (deny_row now d)"
  by (simp_all add: device_same_def device_ok_def approve_row_def deny_row_def)

lemma approve_sound:
  assumes ok: "auth_ok db"
  shows "sound {} db (snd (approve_device_authorization env user subject course when_v db))"
  unfolding approve_device_authorization_def
  by (intro guard_sound transact_sound ok)
    (auto simp: approve_device_body_def split: option.split_asm if_split_asm dest!: find_SomeD intro!: set_device_sound [OF ok])

lemma deny_sound:
  assumes ok: "auth_ok db"
  shows "sound {} db (snd (deny_device_authorization env user course when_v db))"
  unfolding deny_device_authorization_def
  by (intro guard_sound transact_sound ok)
    (auto simp: deny_body_def split: option.split_asm dest!: find_SomeD intro!: set_device_sound [OF ok])

lemma consume_sound:
  assumes ok: "auth_ok db"
  shows "sound {F. text_arg family = Inr F} db
    (snd (consume_device_authorization env l code course session family access access_exp refresh refresh_exp when_v db))"
  unfolding consume_device_authorization_def
proof (intro guard_sound transact_sound ok)
  fix F a c i s d e f g h j r db' x x' y y' z z'
  assume F: "text_arg family = Inr F"
    and e: "demand (z < x \<and> x < y) (Py ValueError) (Inr ()) = Inr (z' :: unit)"
    and b: "consume_body env l \<lparr>is_session = s, is_family = F, is_access = a, is_access_expiry = x, is_refresh = f,
        is_refresh_expiry = y\<rparr> i c z db = Inr (r, db')"
  have "sound {F} db db'"
    using consume_body_sound [OF ok _ b] e by (simp add: less_imp_le)
  moreover have "{F. text_arg family = Inr F} = {F}" using F by auto
  ultimately show "sound {F. text_arg family = Inr F} db db'" by simp
qed

lemma touch_sound:
  assumes ok: "auth_ok db"
  shows "sound {} db (db\<lparr>sessions := update_where P (touch_session now) (sessions db)\<rparr>)"
  unfolding update_where_def
  by (rule changed_sound [OF ok, where gs = "upd P (touch_session now)" and gf = id and gt = id and gd = id])
    (auto simp: linked_ended)

lemma authorize_sound:
  assumes ok: "auth_ok db"
  shows "sound {} db (snd (authorize_access_token env access course when_v touch db))"
  unfolding authorize_access_token_def
  by (intro guard_sound transact_sound ok)
    (auto simp: authorize_body_def sound_refl [OF ok] split: option.split_asm if_split_asm intro!: touch_sound [OF ok])

lemma rotate_sound:
  assumes ok: "auth_ok db"
  shows "sound {} db (snd (rotate_refresh_token env presented course replacement refresh_exp access access_exp most when_v db))"
  unfolding rotate_refresh_token_def
  by (intro guard_sound transact_sound ok) (rule rotate_body_sound [OF ok])

lemma revoke_sound:
  assumes ok: "auth_ok db"
  shows "sound {} db (snd (revoke_session env session course owner when_v db))"
  unfolding revoke_session_def
  by (intro guard_sound transact_sound ok) (rule revoke_body_sound [OF ok])

lemma revoke_all_sound:
  assumes ok: "auth_ok db"
  shows "sound {} db (snd (revoke_student_sessions env sid course when_v db))"
  unfolding revoke_student_sessions_def
  by (intro guard_sound transact_sound ok) (rule revoke_all_body_sound [OF ok])

lemma list_owned_sound:
  assumes ok: "auth_ok db"
  shows "sound {} db (snd (list_owned_sessions env access course limit when_v db))"
  unfolding list_owned_sessions_def
proof (intro guard_sound ok)
  fix now
  show "sound {} db (snd (case authorize_access_token env access course (Some (DtText now)) True db of
      (Inl e, db1) \<Rightarrow> (Inl e, db1)
    | (Inr (s, p), db1) \<Rightarrow>
         (demand (1 \<le> limit \<and> limit \<le> 100) (Py ValueError)
           (rbind (text_arg course) (\<lambda>course.
             Inr (take (nat limit) (sort_key (\<lambda>s. if live_session now db1 s then 0 else (1::nat))
               (newest_first (filter (\<lambda>s. \<exists>f\<in>set (families db1). tf_id f = se_family s \<and> tf_course f = course)
                 (own_sessions (st_id p) course (sessions db1)))))))), db1)))"
    using authorize_sound [OF ok, of env access course "Some (DtText now)" True] by (auto split: prod.split sum.split)
qed

lemma revoke_owned_sound:
  assumes ok: "auth_ok db"
  shows "sound {} db (snd (revoke_owned_session env access course session when_v db))"
proof -
  have a: "sound {} db (snd (authorize_access_token env access course when_v True db))" by (rule authorize_sound [OF ok])
  show ?thesis
    using sound_then [OF a revoke_sound [OF sound_ok [OF a]]] a
    by (auto simp: revoke_owned_session_def split: prod.split sum.split)
qed

section \<open>Histories\<close>

inductive auth_step :: "auth_env \<Rightarrow> string set \<Rightarrow> auth_db \<Rightarrow> auth_db \<Rightarrow> bool" for env where
  step_student: "auth_step env {} db (snd (upsert_student env key subject github login active when_v db))"
| step_local_student: "auth_step env {} db (snd (upsert_local_student env key subject active when_v db))"
| step_student_active: "auth_step env {} db (snd (set_student_active env sid active when_v db))"
| step_enrollment: "auth_step env {} db (snd (upsert_enrollment env sid course active when_v db))"
| step_create: "auth_step env {} db (snd (create_device_authorization env i code user course label expires poll most keep when_v db))"
| step_approve: "auth_step env {} db (snd (approve_device_authorization env user subject course when_v db))"
| step_deny: "auth_step env {} db (snd (deny_device_authorization env user course when_v db))"
| step_consume: "auth_step env {F. text_arg family = Inr F} db
    (snd (consume_device_authorization env l code course session family access access_exp refresh refresh_exp when_v db))"
| step_authorize: "auth_step env {} db (snd (authorize_access_token env access course when_v touch db))"
| step_rotate: "auth_step env {} db
    (snd (rotate_refresh_token env presented course replacement refresh_exp access access_exp most when_v db))"
| step_revoke: "auth_step env {} db (snd (revoke_session env session course owner when_v db))"
| step_list_owned: "auth_step env {} db (snd (list_owned_sessions env access course limit when_v db))"
| step_revoke_owned: "auth_step env {} db (snd (revoke_owned_session env access course session when_v db))"
| step_revoke_all: "auth_step env {} db (snd (revoke_student_sessions env sid course when_v db))"

inductive auth_later :: "string set \<Rightarrow> auth_db \<Rightarrow> auth_db \<Rightarrow> bool" where
  later_now: "auth_later {} db db"
| later_step: "auth_later new db db1 \<Longrightarrow> auth_step env added db1 db2 \<Longrightarrow> auth_later (new \<union> added) db db2"

lemmas auth_sound = upsert_student_sound upsert_local_student_sound set_student_active_sound upsert_enrollment_sound create_sound approve_sound
  deny_sound consume_sound authorize_sound rotate_sound revoke_sound list_owned_sound revoke_owned_sound revoke_all_sound

lemma auth_step_sound: "auth_step env new db db' \<Longrightarrow> auth_ok db \<Longrightarrow> sound new db db'"
  by (induction rule: auth_step.induct) (intro auth_sound; assumption)+

lemma auth_later_sound: "auth_later new db db' \<Longrightarrow> auth_ok db \<Longrightarrow> sound new db db'"
  by (induction rule: auth_later.induct) (auto intro: sound_refl sound_trans auth_step_sound dest: sound_ok)

lemma init_auth_ok: "auth_ok init_auth"
  by (simp add: auth_ok_def keys_ok_def link_ok_def people_ok_def one_live_def init_auth_def)

lemma reached_auth_ok: "auth_later new init_auth db \<Longrightarrow> auth_ok db"
  by (rule sound_ok [OF auth_later_sound [OF _ init_auth_ok]])

end
