(* ===== verification/Auth_Facts.thy ===== *)
theory Auth_Facts
  imports Auth_Steps
begin

text \<open>
  What a successful call says: the rows an accepted access token, an accepted refresh token and an
  exchanged device authorization stand on, and the logins an upsert of a student ends.
\<close>

lemma guard_Inr: "fst (guard r f db) = Inr y \<longleftrightarrow> (\<exists>x. r = Inr x \<and> fst (f x db) = Inr y)"
  by (cases r) (simp_all add: guard_def)

lemma guard_pass: "r = Inr x \<Longrightarrow> guard r f db = f x db"
  by (simp add: guard_def)

lemma transact_Inr: "fst (transact body db) = Inr y \<longleftrightarrow> (\<exists>db'. body db = Inr (Inr y, db'))"
  by (cases "body db") (auto simp: transact_def)

lemma transact_done: "body db = Inr p \<Longrightarrow> transact body db = p"
  by (simp add: transact_def)

lemma authorize_accepts:
  assumes "fst (authorize_access_token env access course when_v touch db) = Inr (s, p)"
  obtains now s0 f where "stamp env when_v = Inr now" "s0 \<in> set (sessions db)" "f \<in> set (families db)"
    "session_same s0 s" "tf_id f = se_family s" "se_revoked s0 = None" "tf_revoked f = None" "now < se_access_expires s0"
proof -
  obtain now h c db' where st: "stamp env when_v = Inr now" and b: "authorize_body touch h c now db = Inr (Inr (s, p), db')"
    using assms by (auto simp: authorize_access_token_def guard_Inr transact_Inr)
  obtain s0 q f where a: "access_row h c db = Some (s0, q, f)" "se_revoked s0 = None" "tf_revoked f = None"
    "now < se_access_expires s0" "s = s0 \<or> s = touch_session now s0"
    using b by (auto simp: authorize_body_def split: option.split_asm if_split_asm)
  then have "s0 \<in> set (sessions db)" "f \<in> set (families db)" "tf_id f = se_family s0"
    by (auto simp: access_row_def bind_eq_Some_conv dest!: find_SomeD)
  moreover have "session_same s0 s" using a(5) by auto
  ultimately show thesis using that st a by (simp add: session_same_def)
qed

text \<open>The validators raise errors of Python only.\<close>

lemma guard_Inl: "fst (guard r f db) = Inl e \<longleftrightarrow> r = Inl e \<or> (\<exists>x. r = Inr x \<and> fst (f x db) = Inl e)"
  by (cases r) (simp_all add: guard_def)

lemma validators_py [simp]:
  "text_arg v \<noteq> Inl RefreshTokenReuseDetected" "verifier_arg v \<noteq> Inl RefreshTokenReuseDetected"
  "positive_arg n \<noteq> Inl RefreshTokenReuseDetected" "stamp env w \<noteq> Inl RefreshTokenReuseDetected"
  by (auto simp: text_arg_def verifier_arg_def positive_arg_def stamp_def lift_def demand_def Let_def rbind_Inl_iff
      split: sum.split_asm if_split_asm)

lemma demand_Inl: "demand b e r = Inl e' \<longleftrightarrow> (if b then r = Inl e' else e = e')"
  by (simp add: demand_def)

text \<open>An accepted call passed every validator and is one transaction.\<close>

lemma rotate_shape:
  assumes "fst (rotate_refresh_token env presented course replacement refresh_exp access access_exp most when_v db) = e"
    and "\<exists>s. e = Inr s \<or> e = Inl RefreshTokenReuseDetected"
  shows "\<exists>r c now. verifier_arg presented = Inr (ro_presented r) \<and> 0 < most \<and>
    (\<forall>db. rotate_refresh_token env presented course replacement refresh_exp access access_exp most when_v db =
      transact (rotate_body r most c now) db)"
proof -
  let ?R = "\<lambda>p q x y a b. \<lparr>ro_presented = p, ro_replacement = q, ro_refresh_expiry = x, ro_access = a, ro_access_expiry = y\<rparr>"
  obtain p c q a now x y where g: "verifier_arg presented = Inr p" "text_arg course = Inr c" "verifier_arg replacement = Inr q"
    "verifier_arg access = Inr a" "p \<noteq> q" "0 < most" "stamp env when_v = Inr now" "stamp env (Some refresh_exp) = Inr x"
    "stamp env (Some access_exp) = Inr y" "now < y" "now < x"
    using assms by (auto simp: rotate_refresh_token_def guard_Inr guard_Inl positive_arg_def demand_Inl split: if_split_asm)
  have "\<forall>db. rotate_refresh_token env presented course replacement refresh_exp access access_exp most when_v db =
      transact (rotate_body (?R p q x y a b) most c now) db"
    by (simp add: rotate_refresh_token_def guard_def g positive_arg_def demand_def)
  then show ?thesis using g(1,6) by (metis rotation.select_convs(1))
qed

lemma rotate_body_live:
  assumes "rotate_body r m c now db = Inr (Inr s, db')"
  shows "\<exists>(t :: token_row) f s0. f \<in> set (families db) \<and> tf_id f = rt_family t \<and> tf_course f = c \<and> tf_revoked f = None \<and>
    s0 \<in> set (sessions db) \<and> se_family s0 = rt_family t \<and> rotate_live r m f s0 c now db = Inr (Inr s, db')"
proof -
  obtain t :: token_row and f s0 where "find (\<lambda>f. tf_id f = rt_family t \<and> tf_course f = c) (families db) = Some f"
    "find (\<lambda>s. se_family s = rt_family t \<and> se_course s = c) (sessions db) = Some s0" "tf_revoked f = None"
    "rotate_live r m f s0 c now db = Inr (Inr s, db')"
    using assms by (auto simp: rotate_body_def split: option.split_asm if_split_asm)
  then show ?thesis by (blast dest: find_SomeD)
qed

lemma rotate_accepts:
  assumes "fst (rotate_refresh_token env presented course replacement refresh_exp access access_exp most when_v db) = Inr s"
  obtains f s0 where "f \<in> set (families db)" "tf_id f = se_family s" "tf_revoked f = None" "tf_rotations f < most"
    "s0 \<in> set (sessions db)" "session_same s0 s"
    "\<And>g. g \<in> set (families (snd (rotate_refresh_token env presented course replacement refresh_exp access access_exp most when_v db))) \<Longrightarrow>
       tf_id g = tf_id f \<Longrightarrow> \<exists>f'\<in>set (families db). tf_id f' = tf_id f \<and>
         (tf_course f' = tf_course f \<longrightarrow> tf_rotations g = tf_rotations f' + 1)"
proof -
  let ?r = "rotate_refresh_token env presented course replacement refresh_exp access access_exp most when_v db"
  obtain r c now where b0: "?r = transact (rotate_body r most c now) db" using rotate_shape [OF assms] by auto
  obtain db' where b: "rotate_body r most c now db = Inr (Inr s, db')" using assms unfolding b0 by (auto simp: transact_Inr)
  have snd: "snd ?r = db'" unfolding b0 by (simp add: transact_def b)
  obtain t :: token_row and f s0 where t: "f \<in> set (families db)" "tf_id f = rt_family t" "tf_course f = c" "tf_revoked f = None"
    "s0 \<in> set (sessions db)" "se_family s0 = rt_family t" "rotate_live r most f s0 c now db = Inr (Inr s, db')"
    using rotate_body_live [OF b] by blast
  obtain re ae where l: "tf_rotations f < most" "s = rotated_session (ro_access r) ae now s0"
    "replace_token r (tf_id f) c re ae now db = Inr db'"
    using t(7) by (auto simp: rotate_live_def Let_def rbind_Inr_iff split: if_split_asm)
  have "families db' = update_where (\<lambda>g. tf_id g = tf_id f \<and> tf_course g = c) (rotated_family (ro_replacement r) now) (families db)"
    using l(3) by (auto simp: replace_token_def)
  then have "\<exists>f'\<in>set (families db). tf_id f' = tf_id f \<and> (tf_course f' = tf_course f \<longrightarrow> tf_rotations g = tf_rotations f' + 1)"
    if "g \<in> set (families db')" "tf_id g = tf_id f" for g
    using that t(3) by (auto simp: set_update_where rotated_family_def)
  moreover have "session_same s0 s" by (simp add: l(2) session_same_def rotated_session_def)
  moreover have "tf_id f = se_family s" using t(2,6) by (simp add: l(2) rotated_session_def)
  ultimately show thesis using that t(1,4,5) l(1) snd by blast
qed

lemma later_family:
  assumes "auth_later new db db'" and "auth_ok db" and "f \<in> set (families db)" and "tf_id f \<notin> new"
    and "f' \<in> set (families db')" and "tf_id f' = tf_id f"
  shows "same_login f f'"
proof -
  have "logins_kept new db db'" using auth_later_sound [OF assms(1,2)] by (simp add: sound_def)
  then obtain g where "g \<in> set (families db)" "same_login g f'" using assms(4-6) by (auto simp: logins_kept_def)
  moreover from this have "g = f" using family_key(1) [OF assms(2,3)] assms(6) by (simp add: same_login_def)
  ultimately show ?thesis by simp
qed

lemma linked_by_key:
  assumes "auth_ok db" and "s \<in> set (sessions db)" and "f \<in> set (families db)" and "tf_id f = se_family s"
  shows "linked s f"
proof -
  obtain g where "g \<in> set (families db)" "linked s g" using assms(1,2) by (auto simp: auth_ok_def link_ok_def)
  moreover from this have "g = f" using family_key(1) [OF assms(1,3)] assms(4) by (simp add: linked_def)
  ultimately show ?thesis by simp
qed

lemma accepted_login:
  assumes h: "auth_later new db db'" "auth_ok db" and f: "f \<in> set (families db)" "tf_id f \<notin> new"
    and s: "s0 \<in> set (sessions db')" "se_family s0 = tf_id f" "se_revoked s0 = None"
  shows "tf_revoked f = None \<and> tf_expires f = se_refresh_expires s0 \<and> se_access_expires s0 \<le> tf_expires f \<and>
    tf_student f = se_student s0 \<and> tf_course f = se_course s0"
proof -
  have ok: "auth_ok db'" using auth_later_sound [OF h] by (rule sound_ok)
  obtain g where g: "g \<in> set (families db')" "linked s0 g" using ok s(1) by (auto simp: auth_ok_def link_ok_def)
  then have "same_login f g" using later_family [OF h f g(1)] s(2) by (simp add: linked_def)
  then show ?thesis using g(2) s(3) by (auto simp: linked_def same_login_def)
qed

text \<open>A family that ends in a state ends for good.\<close>

lemma ended_login:
  assumes h: "auth_later new db db'" "auth_ok db" and F: "F \<notin> new"
    and ended: "\<And>f. f \<in> set (families db) \<Longrightarrow> tf_id f = F \<Longrightarrow> tf_revoked f \<noteq> None"
    and f: "f' \<in> set (families db')" "tf_id f' = F"
  shows "tf_revoked f' \<noteq> None"
proof -
  have "logins_kept new db db'" using auth_later_sound [OF h] by (simp add: sound_def)
  then obtain f where "f \<in> set (families db)" "same_login f f'" using F f by (auto simp: logins_kept_def)
  then show ?thesis using ended [of f] f(2) by (auto simp: same_login_def)
qed

lemma rotate_live_not_reuse: "rotate_live r m f s c now db = Inr (Inl RefreshTokenReuseDetected, db') \<Longrightarrow> False"
  by (auto simp: rotate_live_def Let_def rbind_Inr_iff split: if_split_asm)

lemma rotate_body_error: "rotate_body r m c now db \<noteq> Inl RefreshTokenReuseDetected"
  by (auto simp: rotate_body_def rotate_live_def replace_token_def Let_def demand_Inl rbind_Inl_iff
      split: option.split if_split_asm)

lemma reuse_ends:
  assumes ok: "auth_ok db"
    and r: "fst (rotate_refresh_token env presented course replacement refresh_exp access access_exp most when_v db) =
      Inl RefreshTokenReuseDetected"
    and t: "t \<in> set (tokens db)" "verifier_arg presented = Inr (rt_hash t)"
    and f: "f \<in> set (families (snd (rotate_refresh_token env presented course replacement refresh_exp access access_exp most when_v db)))"
      "tf_id f = rt_family t"
  shows "tf_revoked f \<noteq> None"
proof -
  let ?r = "rotate_refresh_token env presented course replacement refresh_exp access access_exp most when_v db"
  let ?m = most
  obtain r c now where p: "ro_presented r = rt_hash t" and b0: "?r = transact (rotate_body r ?m c now) db"
    using rotate_shape [OF r] t(2) by auto
  have b1: "fst (transact (rotate_body r ?m c now) db) = Inl RefreshTokenReuseDetected" using r unfolding b0 .
  obtain db' where b: "rotate_body r ?m c now db = Inr (Inl RefreshTokenReuseDetected, db')"
    using b1 rotate_body_error by (auto simp: transact_def split: sum.split_asm)
  then obtain u where u: "u \<in> set (tokens db)" "rt_hash u = rt_hash t" "db' = end_reused (rt_family u) now db"
    using p by (auto simp: rotate_body_def split: option.split_asm if_split_asm dest!: find_SomeD rotate_live_not_reuse)
  have "inj_on rt_hash (set (tokens db))" using ok by (simp add: auth_ok_def keys_ok_def distinct_map)
  then have "u = t" using u(1,2) t(1) by (auto dest: inj_onD)
  then have "snd ?r = end_reused (rt_family t) now db" unfolding b0 using b u(3) by (simp add: transact_def)
  then show ?thesis using f by (auto simp: end_reused_def set_update_where compromise_family_def)
qed

text \<open>A successful exchange leaves the authorization consumed.\<close>

lemma consume_shape:
  assumes "fst (consume_device_authorization env l code course session family access access_exp refresh refresh_exp when_v db) = Inr s"
  shows "\<exists>i h c now. \<forall>db. consume_device_authorization env l code course session family access access_exp refresh refresh_exp when_v db =
    transact (consume_body env l i h c now) db"
proof -
  obtain h c s' f a r now x y where g: "verifier_arg code = Inr h" "text_arg course = Inr c" "text_arg session = Inr s'"
    "text_arg family = Inr f" "verifier_arg access = Inr a" "verifier_arg refresh = Inr r"
    "0 < max_active l" "0 < max_daily l" "0 < max_retained l" "0 < retention l" "max_active l \<le> max_retained l"
    "stamp env when_v = Inr now" "stamp env (Some access_exp) = Inr x" "stamp env (Some refresh_exp) = Inr y" "now < x" "x < y"
    using assms by (auto simp: consume_device_authorization_def guard_Inr positive_arg_def)
  have "\<forall>db. consume_device_authorization env l code course session family access access_exp refresh refresh_exp when_v db =
      transact (consume_body env l \<lparr>is_session = s', is_family = f, is_access = a, is_access_expiry = x, is_refresh = r,
        is_refresh_expiry = y\<rparr> h c now) db"
    by (simp add: consume_device_authorization_def guard_def g positive_arg_def demand_def)
  then show ?thesis by blast
qed

lemma exchange_consumes:
  assumes ok: "auth_ok db"
    and r: "consume_device_authorization env l code course session family access access_exp refresh refresh_exp when_v db = (Inr s, db')"
  shows "fst (consume_device_authorization env l code course session family access access_exp refresh refresh_exp when_v db') =
    Inl PlatformInvalidTransition"
proof -
  let ?c = "consume_device_authorization env l code course session family access access_exp refresh refresh_exp when_v"
  obtain i h c now where k: "?c x = transact (consume_body env l i h c now) x" for x
    using consume_shape [of env l code course session family access access_exp refresh refresh_exp when_v db s] r by auto
  then have b: "consume_body env l i h c now db = Inr (Inr s, db')"
    using r by (auto simp: transact_def split: sum.split_asm)
  obtain d sid where d: "d \<in> set (devices db)" "dv_code d = h" "dv_course d = c" "dv_state d = DevApproved"
    and e: "exchange env l i sid c d now db = Inr (Inr s, db')"
    using b by (auto simp: consume_body_def split: option.split_asm if_split_asm dest!: find_SomeD)
  obtain before db2 where x: "issue_session env i sid c d now (end_earlier env sid c now before db) = Inr db2"
    and db': "db' = set_device (dv_id d) (consume_row now) db2"
    using e by (auto simp: exchange_def Let_def rbind_Inr_iff)
  have "d \<in> set (devices (end_earlier env sid c now before db))"
    using d by (intro end_earlier_device) (simp_all add: device_over_def)
  then have "d \<in> set (devices db2)" using x by (auto simp: issue_session_def)
  then have in_db': "consume_row now d \<in> set (devices db')" unfolding db' set_device_def by (force simp: set_update_where)
  have "auth_ok db'"
    using sound_ok [OF consume_sound [OF ok, of family env l code course session access access_exp refresh refresh_exp when_v]] r
    by simp
  then have "inj_on dv_code (set (devices db'))" by (simp add: auth_ok_def keys_ok_def distinct_map)
  then have only: "y = consume_row now d" if "y \<in> set (devices db')" "dv_code y = h" for y
    using inj_onD [OF _ _ that(1) in_db', of dv_code] that(2) d(2) by (simp add: consume_row_def)
  have "find (\<lambda>d. dv_code d = h \<and> dv_course d = c) (devices db') = Some (consume_row now d)"
  proof -
    have "dv_code (consume_row now d) = h" "dv_course (consume_row now d) = c" using d(2,3) by (simp_all add: consume_row_def)
    then have "find (\<lambda>d. dv_code d = h \<and> dv_course d = c) (devices db') \<noteq> None"
      using in_db' unfolding find_None_iff by blast
    then obtain y where "find (\<lambda>d. dv_code d = h \<and> dv_course d = c) (devices db') = Some y" by blast
    then show ?thesis using only [of y] by (auto dest!: find_SomeD)
  qed
  then have "consume_body env l i h c now db' = Inl PlatformInvalidTransition"
    by (simp add: consume_body_def demand_def consume_row_def)
  then show ?thesis by (simp add: k transact_def)
qed

section \<open>Changes of identity\<close>

lemma guard_pair: "guard r f db = (Inr y, db') \<longleftrightarrow> (\<exists>x. r = Inr x \<and> f x db = (Inr y, db'))"
  by (cases r) (auto simp: guard_def)

lemma transact_pair: "transact body db = (Inr y, db') \<longleftrightarrow> body db = Inr (Inr y, db')"
  by (auto simp: transact_def split: sum.split)

lemma upsert_ends:
  assumes ok: "auth_ok db" and p: "p \<in> set (students db)"
    and b: "upsert_body (st_key p) subject kind github login active changed now db = Inr (Inr row, db1)"
  shows "st_subject row = subject \<and> st_github row = github \<and> st_id row = st_id p \<and>
    (changed p \<longrightarrow> (\<forall>f\<in>set (families db). \<forall>f'\<in>set (families db1).
       tf_student f = st_id p \<longrightarrow> tf_id f' = tf_id f \<longrightarrow> tf_revoked f' \<noteq> None))"
proof -
  let ?g = "\<lambda>s. s\<lparr>st_subject := subject, st_kind := kind, st_github := github, st_login := login,
               st_active := active, st_updated := now\<rparr>"
  let ?db = "put_student (st_key p) subject kind github login active now db"
  have d: "q = p" if "q \<in> set (students db)" "st_key q = st_key p" for q
    using ok p that by (auto simp: auth_ok_def people_ok_def distinct_map dest: inj_onD)
  have t: "taken st_key (st_key p) (students db)" using p by blast
  obtain q where prev: "find (\<lambda>s. st_key s = st_key p) (students db) = Some q"
    using p by (cases "find (\<lambda>s. st_key s = st_key p) (students db)") (auto simp: find_None_iff)
  have q: "q = p" using d find_SomeD [OF prev] by blast
  have row: "find (\<lambda>s. st_key s = st_key p) (students ?db) = Some row"
    and db1: "db1 = (if changed p then revoke_student_credentials (st_id row) now ?db else ?db)"
    using b prev q by (auto simp: upsert_body_def Let_def split: option.split_asm)
  have "row \<in> set (students ?db)" "st_key row = st_key p" using find_SomeD [OF row] by blast+
  then have r: "row = ?g p" using d t by (auto simp: put_student_def set_update_where split: if_split_asm)
  have ends: "tf_revoked f' \<noteq> None" if c: "changed p" and ff: "f \<in> set (families db)" "f' \<in> set (families db1)"
    "tf_student f = st_id p" "tf_id f' = tf_id f" for f f'
  proof -
    have "families db1 = update_where (\<lambda>f. tf_student f = st_id p) (end_family now) (families db)"
      using c r by (simp add: db1 revoke_student_credentials_def Let_def put_student_def)
    then obtain x where x: "x \<in> set (families db)" "f' = (if tf_student x = st_id p then end_family now x else x)"
      using ff(2) by (auto simp: set_update_where)
    then have "tf_id x = tf_id f" using ff(4) end_family_fields(1) [of x now] by (auto simp: same_login_def split: if_split_asm)
    then have "x = f" using family_key(1) [OF ok ff(1) x(1)] by simp
    then show ?thesis using x(2) ff(3) by simp
  qed
  show ?thesis using r ends by simp
qed

end
