(* ===== verification/Auth_Scenario.thy ===== *)
theory Auth_Scenario
  imports Auth_Facts
begin

text \<open>
  One history of the login rows: a student is enrolled, logs in with a first device, rotates the
  refresh token, logs in with a second device, and then the first, used refresh token is presented
  again. Every state is the value of the call before it.
\<close>

section \<open>Arguments\<close>

definition tm :: "nat \<Rightarrow> dtime" where
  "tm h = \<lparr>dt_year = 2026, dt_month = 3, dt_day = 2, dt_hour = h, dt_minute = 0, dt_second = 0, dt_micro = 0,
     dt_offset = Some 0\<rparr>"

definition t8 :: string where "t8 = ''2026-03-02T08:00:00.000000Z''"
definition t9 :: string where "t9 = ''2026-03-02T09:00:00.000000Z''"
definition t10 :: string where "t10 = ''2026-03-02T10:00:00.000000Z''"
definition t12 :: string where "t12 = ''2026-03-02T12:00:00.000000Z''"

definition env0 :: auth_env where
  "env0 = \<lparr>clock = tm 9, sha256_hex = (\<lambda>_. replicate 64 (CHR ''0'')), closed = (\<lambda>_. False), device_kept = (\<lambda>_. False), session_kept = (\<lambda>_. False)\<rparr>"

definition hex :: "char \<Rightarrow> string" where "hex c = replicate 64 c"

definition limits0 :: limits where
  "limits0 = \<lparr>max_active = 5, max_daily = 20, max_retained = 1000, retention = 3600\<rparr>"

abbreviation "at9 \<equiv> Some (DtObj (tm 9))"

lemma tm_valid: "utc_dtime (tm 8)" "utc_dtime (tm 9)" "utc_dtime (tm 10)" "utc_dtime (tm 12)"
  by (simp_all add: utc_dtime_def tm_def valid_dtime_def valid_date_def day_us_val days_in_month_def leap_year_def)

lemma digits_numeral: "digits (numeral k) n = digits (pred_numeral k) (n div 10) @ [digit_char (n mod 10)]"
  by (simp only: numeral_eq_Suc digits.simps)

lemma digit_chars:
  "digit_char 0 = CHR ''0''" "digit_char 1 = CHR ''1''" "digit_char 2 = CHR ''2''" "digit_char 3 = CHR ''3''"
  "digit_char 6 = CHR ''6''" "digit_char 8 = CHR ''8''" "digit_char 9 = CHR ''9''" "digit_char (Suc 0) = CHR ''1''"
  by code_simp+

lemma stems: "stem (tm 8) @ ''Z'' = t8" "stem (tm 9) @ ''Z'' = t9" "stem (tm 10) @ ''Z'' = t10" "stem (tm 12) @ ''Z'' = t12"
  by (simp_all add: t8_def t9_def t10_def t12_def stem_def clock_part_def tm_def digits_numeral digit_chars)

lemma stamp_tm: "utc_dtime (tm h) \<Longrightarrow> stamp env0 (Some (DtObj (tm h))) = Inr (stem (tm h) @ ''Z'')"
proof -
  assume v: "utc_dtime (tm h)"
  have "dt_offset (tm h) = Some 0" by (simp add: tm_def)
  then show ?thesis
    by (simp add: stamp_def utc_iso_def utc_parse_def lift_def astimezone_utc_self [OF v] normal_form)
qed

lemma stamps [simp]:
  "stamp env0 at9 = Inr t9" "stamp env0 (Some (DtObj (tm 10))) = Inr t10" "stamp env0 (Some (DtObj (tm 12))) = Inr t12"
  "stamp env0 (Some (DtObj (tm 8))) = Inr t8"
  by (simp_all add: stamp_tm tm_valid stems)

lemma order [simp]:
  "t9 < t10" "t9 < t12" "t10 < t12" "\<not> t10 \<le> t9" "\<not> t12 \<le> t9" "\<not> t9 \<le> t8" "take 10 t8 = take 10 t9" "min t12 t12 = t12"
  "min t10 t12 = t10"
  by (simp_all add: t8_def t9_def t10_def t12_def)

lemma verifier_hex [simp]:
  assumes "c \<in> set ''0123456789''"
  shows "verifier_arg (hex c) = Inr (hex c)"
proof -
  have c: "\<not> py_space c" "lower_char c = c" "c \<noteq> CHR ''s''" "c \<in> set ''0123456789abcdef''"
    using assms by (auto simp: py_space_def lower_char_def)
  have "hd (hex c) = c" "last (hex c) = c" "hex c \<noteq> []" by (simp_all add: hex_def)
  then have "text_arg (hex c) = Inr (hex c)"
    using c(1) by (simp add: text_arg_def required_text_def strip_fix_iff [THEN iffD2])
  moreover have "lower (hex c) = hex c" using c(2) by (simp add: lower_def hex_def)
  moreover have "\<not> starts_with ''sha256:'' (hex c)" using c(3) by (simp add: starts_with_def hex_def)
  ultimately show ?thesis using c(4) by (simp add: verifier_arg_def Let_def demand_def) (simp add: hex_def)
qed

lemma hex_eq [simp]: "hex c = hex d \<longleftrightarrow> c = d"
  by (simp add: hex_def)

lemma text_arg_same: "s \<noteq> [] \<Longrightarrow> \<not> py_space (hd s) \<Longrightarrow> \<not> py_space (last s) \<Longrightarrow> text_arg s = Inr s"
  by (simp add: text_arg_def required_text_def strip_fix_iff [THEN iffD2])

lemma arguments [simp]:
  "text_arg ''key'' = Inr ''key''" "text_arg ''subject'' = Inr ''subject''" "text_arg ''login'' = Inr ''login''"
  "text_arg ''cs1'' = Inr ''cs1''" "text_arg ''lab'' = Inr ''lab''" "text_arg ''d1'' = Inr ''d1''"
  "text_arg ''d2'' = Inr ''d2''" "text_arg ''s1'' = Inr ''s1''" "text_arg ''s2'' = Inr ''s2''"
  "text_arg ''f1'' = Inr ''f1''" "text_arg ''f2'' = Inr ''f2''"
  by (rule text_arg_same; simp add: py_space_def)+

lemma positive_args [simp]: "0 < n \<Longrightarrow> positive_arg n = Inr n"
  by (simp add: positive_arg_def demand_def)

lemma hour_ago [simp]: "cleanup_time env0 t9 3600 = Inr t8"
proof -
  have "replace_all ''Z'' ''+00:00'' t9 = stem (tm 9) @ ''+00:00''" unfolding t9_def by code_simp
  moreover have "seconds_before (tm 9) 3600 = Inr (tm 8)" by code_simp
  ultimately show ?thesis by (simp add: cleanup_time_def fromisoformat_stem [OF tm_valid(2)] lift_def)
qed

section \<open>The history\<close>

definition student1 :: student_row where
  "student1 = \<lparr>st_id = 1, st_key = ''key'', st_subject = ''subject'', st_kind = ''github'', st_github = 7,
     st_login = ''login'', st_active = True, st_created = t9, st_updated = t9\<rparr>"

definition enrollment1 :: enrollment_row where
  "enrollment1 = \<lparr>en_student = 1, en_course = ''cs1'', en_active = True, en_created = t9, en_updated = t9\<rparr>"

definition device1 :: device_row where
  "device1 = new_device ''d1'' (hex CHR ''0'') (hex CHR ''1'') ''cs1'' ''lab'' 5 t10 t9"
definition device2 :: device_row where
  "device2 = new_device ''d2'' (hex CHR ''2'') (hex CHR ''3'') ''cs1'' ''lab'' 5 t10 t9"

definition issue1 :: issue where
  "issue1 = \<lparr>is_session = ''s1'', is_family = ''f1'', is_access = hex CHR ''4'', is_access_expiry = t10,
     is_refresh = hex CHR ''5'', is_refresh_expiry = t12\<rparr>"
definition issue2 :: issue where
  "issue2 = \<lparr>is_session = ''s2'', is_family = ''f2'', is_access = hex CHR ''8'', is_access_expiry = t10,
     is_refresh = hex CHR ''9'', is_refresh_expiry = t12\<rparr>"

definition used1 :: device_row where "used1 = consume_row t9 (approve_row t9 1 device1)"
definition used2 :: device_row where "used2 = consume_row t9 (approve_row t9 1 device2)"
definition session1 :: session_row where "session1 = new_session issue1 1 ''cs1'' (approve_row t9 1 device1) t9"
definition session2 :: session_row where "session2 = new_session issue2 1 ''cs1'' (approve_row t9 1 device2) t9"
definition family1 :: family_row where "family1 = new_family issue1 1 ''cs1'' t9"
definition family2 :: family_row where "family2 = new_family issue2 1 ''cs1'' t9"
definition token1 :: token_row where "token1 = new_token (hex CHR ''5'') ''f1'' t9 t12"
definition token1b :: token_row where "token1b = new_token (hex CHR ''6'') ''f1'' t9 t12"
definition token2 :: token_row where "token2 = new_token (hex CHR ''9'') ''f2'' t9 t12"
definition rotated1 :: session_row where "rotated1 = rotated_session (hex CHR ''7'') t10 t9 session1"
definition rotated_family1 :: family_row where "rotated_family1 = rotated_family (hex CHR ''6'') t9 family1"

lemmas rows = student1_def enrollment1_def device1_def device2_def issue1_def issue2_def used1_def used2_def session1_def
  session2_def family1_def family2_def token1_def token1b_def token2_def rotated1_def rotated_family1_def new_device_def
  new_session_def new_family_def new_token_def consume_row_def approve_row_def rotated_session_def rotated_family_def

definition a2 :: auth_db where
  "a2 = \<lparr>next_student = 2, students = [student1], enrollments = [enrollment1], devices = [], families = [], tokens = [],
     sessions = [], issuances = []\<rparr>"
definition a3 :: auth_db where "a3 = a2\<lparr>devices := [device1]\<rparr>"
definition a4 :: auth_db where "a4 = a2\<lparr>devices := [approve_row t9 1 device1]\<rparr>"
definition counted :: "int \<Rightarrow> counter_row list" where
  "counted n = [\<lparr>ic_student = 1, ic_course = ''cs1'', ic_day = take 10 t9, ic_count = n, ic_updated = t9\<rparr>]"
definition a5 :: auth_db where
  "a5 = a2\<lparr>devices := [used1], families := [family1], tokens := [token1], sessions := [session1], issuances := counted 1\<rparr>"
definition a6 :: auth_db where
  "a6 = a2\<lparr>devices := [used1], families := [rotated_family1], tokens := [use_token t9 token1, token1b],
     sessions := [rotated1], issuances := counted 1\<rparr>"
definition a7 :: auth_db where "a7 = a6\<lparr>devices := [used1, device2]\<rparr>"
definition a8 :: auth_db where "a8 = a6\<lparr>devices := [used1, approve_row t9 1 device2]\<rparr>"
definition a9 :: auth_db where
  "a9 = a2\<lparr>devices := [used1, used2], families := [end_family t9 rotated_family1, family2],
     tokens := [use_token t9 token1, token1b\<lparr>rt_state := TokRevoked\<rparr>, token2],
     sessions := [end_session t9 rotated1, session2], issuances := counted 2\<rparr>"
definition a10 :: auth_db where
  "a10 = a9\<lparr>families := [compromise_family t9 (end_family t9 rotated_family1), family2],
     sessions := [stop_session t9 (end_session t9 rotated1), session2]\<rparr>"

lemma db_fields [simp]:
  "students a2 = [student1]" "enrollments a2 = [enrollment1]" "next_student a2 = 2" "devices a2 = []" "families a2 = []"
  "tokens a2 = []" "sessions a2 = []" "issuances a2 = []"
  by (simp_all add: a2_def)

lemma env0_closed [simp]: "\<not> closed env0 c" "\<not> session_kept env0 i" "\<not> device_kept env0 i"
  by (simp_all add: env0_def)

lemma limits0_fields [simp]: "max_active limits0 = 5" "max_daily limits0 = 20" "max_retained limits0 = 1000" "retention limits0 = 3600"
  by (simp_all add: limits0_def)

lemmas call = guard_def transact_def demand_def

lemma call1: "upsert_student env0 ''key'' ''subject'' 7 ''login'' True at9 init_auth =
    (Inr student1, init_auth\<lparr>next_student := 2, students := [student1]\<rparr>)"
  by (simp add: upsert_student_def upsert_body_def call init_auth_def put_student_def student_clash_def rows)

lemma call2: "upsert_enrollment env0 1 ''cs1'' True at9 (init_auth\<lparr>next_student := 2, students := [student1]\<rparr>) =
    (Inr enrollment1, a2)"
  by (simp add: upsert_enrollment_def call init_auth_def put_enrollment_def a2_def rows)

lemma call3: "create_device_authorization env0 ''d1'' (hex CHR ''0'') (hex CHR ''1'') ''cs1'' ''lab'' (DtObj (tm 10)) 5 10
    3600 at9 a2 = (Inr device1, a3)"
  by (simp add: create_device_authorization_def call create_body_def insert_device_def expire_old_def update_where_def
      outstanding_def a3_def Let_def rows)

lemma call4: "approve_device_authorization env0 (hex CHR ''1'') ''subject'' ''cs1'' at9 a3 =
    (Inr (approve_row t9 1 device1), a4)"
  by (simp add: approve_device_authorization_def call approve_device_body_def a3_def a4_def set_device_def update_where_def
      active_enrollment_def rows)

lemma course_families_code:
  "course_families sid course [] = {}"
  "course_families sid course (f # fs) = (if tf_student f = sid \<and> tf_course f = course
     then insert (tf_id f) (course_families sid course fs) else course_families sid course fs)"
  by (auto simp: course_families_def)

lemma update_where_code:
  "update_where P f [] = []" "update_where P f (x # xs) = (if P x then f x else x) # update_where P f xs"
  by (simp_all add: update_where_def)

lemmas exchanging = consume_device_authorization_def consume_body_def exchange_def end_earlier_def lapsed_families_def
  replace_sessions_def prune_auth_history_def prunable_def admit_def active_count_def own_sessions_def live_session_def
  issued_today_def count_issuance_def issue_session_def set_device_def update_where_code active_enrollment_def
  revoke_tokens_def course_families_code counted_def Let_def

lemma call5: "consume_device_authorization env0 limits0 (hex CHR ''0'') ''cs1'' ''s1'' ''f1'' (hex CHR ''4'') (DtObj (tm 10))
    (hex CHR ''5'') (DtObj (tm 12)) at9 a4 = (Inr session1, a5)"
  by (simp add: call exchanging a4_def a5_def rows)

lemmas rotating_defs = rotate_refresh_token_def rotate_body_def rotate_live_def replace_token_def use_token_def end_reused_def
  active_enrollment_def update_where_code revoke_tokens_def Let_def

lemma call6: "rotate_refresh_token env0 (hex CHR ''5'') ''cs1'' (hex CHR ''6'') (DtObj (tm 12)) (hex CHR ''7'') (DtObj (tm 10)) 3
    at9 a5 = (Inr rotated1, a6)"
  by (simp add: call rotating_defs a5_def a6_def rows)

lemma call7: "create_device_authorization env0 ''d2'' (hex CHR ''2'') (hex CHR ''3'') ''cs1'' ''lab'' (DtObj (tm 10)) 5 10
    3600 at9 a6 = (Inr device2, a7)"
  by (simp add: create_device_authorization_def call create_body_def insert_device_def expire_old_def update_where_code
      outstanding_def collectable_def device_over_def a6_def a7_def Let_def rows)

lemma call8: "approve_device_authorization env0 (hex CHR ''3'') ''subject'' ''cs1'' at9 a7 =
    (Inr (approve_row t9 1 device2), a8)"
  by (simp add: approve_device_authorization_def call approve_device_body_def a6_def a7_def a8_def set_device_def update_where_code
      active_enrollment_def rows)

lemma call9: "consume_device_authorization env0 limits0 (hex CHR ''2'') ''cs1'' ''s2'' ''f2'' (hex CHR ''8'') (DtObj (tm 10))
    (hex CHR ''9'') (DtObj (tm 12)) at9 a8 = (Inr session2, a9)"
  by (simp add: call exchanging a6_def a8_def a9_def end_family_def end_session_def coalesce_def use_token_def rows)

lemma call10: "rotate_refresh_token env0 (hex CHR ''5'') ''cs1'' (hex CHR ''7'') (DtObj (tm 12)) (hex CHR ''6'') (DtObj (tm 10)) 3
    at9 a9 = (Inl RefreshTokenReuseDetected, a10)"
  by (simp add: call rotating_defs a9_def a10_def end_family_def end_session_def coalesce_def rows)

lemma call11: "authorize_access_token env0 (hex CHR ''8'') ''cs1'' at9 False a10 = (Inr (session2, student1), a10)"
  by (simp add: authorize_access_token_def call authorize_body_def access_row_def active_enrollment_def a9_def a10_def
      end_family_def end_session_def stop_session_def compromise_family_def coalesce_def rows)

lemma call12: "authorize_access_token env0 (hex CHR ''7'') ''cs1'' at9 False a6 = (Inr (rotated1, student1), a6)"
  by (simp add: authorize_access_token_def call authorize_body_def access_row_def active_enrollment_def a6_def rows)

section \<open>It is a history\<close>

lemma step_eq:
  "p = (r, db') \<Longrightarrow> auth_later l a db \<Longrightarrow> auth_step env new db (snd p) \<Longrightarrow> auth_later (l \<union> new) a db'"
  by (auto intro: later_step)

lemma history4: "auth_later {} init_auth a4"
  using step_eq [OF call4 step_eq [OF call3 step_eq [OF call2 step_eq [OF call1 later_now step_student] step_enrollment]
    step_create] step_approve] by simp

lemma history5: "auth_later {''f1''} init_auth a5"
  using step_eq [OF call5 history4 step_consume] by simp

text \<open>A student without a GitHub account, and the same student under another subject.\<close>

definition local1 :: student_row where
  "local1 = \<lparr>st_id = 2, st_key = ''lab'', st_subject = ''cs1'', st_kind = ''local'',
     st_github = 2 ^ 62, st_login = ''autograde-local-'' @ replicate 64 (CHR ''0''),
     st_active = True, st_created = t9, st_updated = t9\<rparr>"

lemma local_columns: "local_identity (sha256_hex env0) k =
    (2 ^ 62, ''autograde-local-'' @ replicate 64 (CHR ''0''))"
proof -
  have "foldl (\<lambda>n c. 16 * n + hex_digit c) 0 (replicate n (CHR ''0'')) = 0" for n
    by (induction n) (simp_all add: hex_digit_def)
  then show ?thesis by (simp add: local_identity_def Let_def env0_def)
qed

lemma call_local: "upsert_local_student env0 ''lab'' ''cs1'' True at9 a5 =
    (Inr local1, a5\<lparr>next_student := 3, students := [student1, local1]\<rparr>)"
  by (simp add: upsert_local_student_def upsert_body_def local_columns call put_student_def student_clash_def
      a5_def rows local1_def)

lemma history_local: "auth_later {''f1''} init_auth (a5\<lparr>next_student := 3, students := [student1, local1]\<rparr>)"
  using step_eq [OF call_local history5 step_local_student] by simp

lemma history5_6: "auth_later {} a5 a6"
  using step_eq [OF call6 later_now step_rotate] by simp

lemma history9: "auth_later {''f1'', ''f2''} init_auth a9"
  using step_eq [OF call9 step_eq [OF call8 step_eq [OF call7 step_eq [OF call6 history5 step_rotate] step_create] step_approve]
    step_consume] by (simp add: insert_commute)

end
