(* ===== verification/Auth_Properties.thy ===== *)
theory Auth_Properties
  imports Auth_Scenario
begin

text \<open>
  The properties of the logins, each with its witness on the history of \<open>Auth_Scenario\<close>.
\<close>

text \<open>C16: In every state that the operations reach, sessions, token families, refresh tokens and
  device authorizations fit together: a session and its family are two rows of one login that agree on
  student, course, deadline and on being revoked; a session belongs to a consumed authorization of its
  student; an active refresh token is the current one of a family that is not revoked; a compromised
  family is revoked. The identifiers of these tables are unique, and so are the natural keys of the
  people: key, authentication subject and GitHub number of a student, where a local student has a
  number from \<open>2 ^ 62\<close> on, and student and course of an enrollment, which is one of a stored student.\<close>

theorem logins_consistent:
  assumes "auth_later new init_auth db"
  shows "auth_ok db"
  using assms by (rule reached_auth_ok)

lemma logins_consistent_witness: "auth_ok a9 \<and> auth_ok (a5\<lparr>next_student := 3, students := [student1, local1]\<rparr>)"
  using logins_consistent [OF history9] logins_consistent [OF history_local] by blast

text \<open>C17: A student has one usable session in a course: of two different sessions of the same student
  in the same course, at least one is revoked.\<close>

theorem one_session_per_course:
  assumes "auth_later new init_auth db" and "s \<in> set (sessions db)" and "s' \<in> set (sessions db)" and "s \<noteq> s'"
    and "se_student s = se_student s'" and "se_course s = se_course s'"
  shows "\<not> (se_revoked s = None \<and> se_revoked s' = None)"
  using reached_auth_ok [OF assms(1)] assms(2-6) unfolding auth_ok_def link_ok_def one_live_def by blast

lemma one_session_per_course_witness:
  "\<not> (se_revoked (end_session t9 rotated1) = None \<and> se_revoked session2 = None)"
proof -
  have "end_session t9 rotated1 \<in> set (sessions a9)" "session2 \<in> set (sessions a9)" by (simp_all add: a9_def)
  moreover have "end_session t9 rotated1 \<noteq> session2" "se_student (end_session t9 rotated1) = se_student session2"
    "se_course (end_session t9 rotated1) = se_course session2"
    by (simp_all add: end_session_def rows)
  ultimately show ?thesis using one_session_per_course [OF history9] by blast
qed

text \<open>C18: A login never outlives what it was issued as. Whenever an access token is accepted in a later
  state, for a session of a family that was there and was not issued anew in between, the family was
  not revoked before, the time is before the deadline the family had then, and student and course are
  the same. So nothing moves the deadline, and a revoked login never comes back.\<close>

theorem login_never_outlives:
  assumes "auth_later old init_auth db" and "f \<in> set (families db)" and "auth_later new db db'" and "tf_id f \<notin> new"
    and "fst (authorize_access_token env access course when_v touch db') = Inr (s, p)" and "se_family s = tf_id f"
  shows "\<exists>now. stamp env when_v = Inr now \<and> now < tf_expires f \<and> tf_revoked f = None \<and>
    tf_student f = se_student s \<and> tf_course f = se_course s"
proof -
  obtain now s0 where s0: "stamp env when_v = Inr now" "s0 \<in> set (sessions db')" "session_same s0 s"
    "se_revoked s0 = None" "now < se_access_expires s0"
    using authorize_accepts [OF assms(5)] by metis
  have same: "se_family s0 = tf_id f" "se_student s0 = se_student s" "se_course s0 = se_course s"
    using s0(3) assms(6) by (simp_all add: session_same_def)
  have "tf_revoked f = None \<and> tf_expires f = se_refresh_expires s0 \<and> se_access_expires s0 \<le> tf_expires f \<and>
      tf_student f = se_student s0 \<and> tf_course f = se_course s0"
    by (rule accepted_login [OF assms(3) reached_auth_ok [OF assms(1)] assms(2,4) s0(2) same(1) s0(4)])
  then show ?thesis using s0(1,5) same by (auto intro: less_le_trans)
qed

lemma login_never_outlives_witness: "\<exists>now. stamp env0 at9 = Inr now \<and> now < tf_expires family1 \<and> tf_revoked family1 = None \<and>
    tf_student family1 = se_student rotated1 \<and> tf_course family1 = se_course rotated1"
  by (rule login_never_outlives [OF history5 _ history5_6 _ arg_cong [OF call12, of fst, unfolded fst_conv]])
    (simp_all add: a5_def rows)

text \<open>C19: Presenting a used refresh token ends its login: after the reuse was detected, in every later
  state where the family was not issued anew, no access token and no refresh token of that family is
  accepted.\<close>

theorem reuse_ends_login:
  assumes "auth_later old init_auth db" and "t \<in> set (tokens db)" and "verifier_arg presented = Inr (rt_hash t)"
    and "rotate_refresh_token env presented course replacement refresh_exp access access_exp most when_v db =
      (Inl RefreshTokenReuseDetected, db1)"
    and "auth_later new db1 db2" and "rt_family t \<notin> new"
  shows "(\<nexists>s p. fst (authorize_access_token env' access' course' when' touch db2) = Inr (s, p) \<and> se_family s = rt_family t) \<and>
    (\<nexists>s. fst (rotate_refresh_token env' presented' course' replacement' refresh' access' expiry' most' when' db2) = Inr s \<and>
      se_family s = rt_family t)"
proof -
  let ?r = "rotate_refresh_token env presented course replacement refresh_exp access access_exp most when_v db"
  have ok: "auth_ok db" by (rule reached_auth_ok [OF assms(1)])
  have db1: "snd ?r = db1" "fst ?r = Inl RefreshTokenReuseDetected" using assms(4) by simp_all
  have ok1: "auth_ok db1" using sound_ok [OF rotate_sound [OF ok]] db1(1) by metis
  have ended: "tf_revoked f \<noteq> None" if "f \<in> set (families db1)" "tf_id f = rt_family t" for f
    using reuse_ends [OF ok db1(2) assms(2,3)] that db1(1) by blast
  have gone: "tf_revoked f \<noteq> None" if "f \<in> set (families db2)" "tf_id f = rt_family t" for f
    by (rule ended_login [OF assms(5) ok1 assms(6) ended that])
  have "se_family s \<noteq> rt_family t" if "fst (authorize_access_token env' access' course' when' touch db2) = Inr (s, p)" for s p
    using authorize_accepts [OF that] gone by metis
  moreover have "se_family s \<noteq> rt_family t"
    if "fst (rotate_refresh_token env' presented' course' replacement' refresh' access' expiry' most' when' db2) = Inr s" for s
    using rotate_accepts [OF that] gone by metis
  ultimately show ?thesis by blast
qed

lemma reuse_ends_login_witness:
  "(\<nexists>s p. fst (authorize_access_token env0 (hex CHR ''7'') ''cs1'' at9 False a10) = Inr (s, p) \<and> se_family s = ''f1'') \<and>
   (\<nexists>s. fst (rotate_refresh_token env0 (hex CHR ''6'') ''cs1'' (hex CHR ''7'') (DtObj (tm 12)) (hex CHR ''1'') (DtObj (tm 10)) 3
      at9 a10) = Inr s \<and> se_family s = ''f1'')"
proof -
  have t: "use_token t9 token1 \<in> set (tokens a9)" by (simp add: a9_def)
  have h: "verifier_arg (hex CHR ''5'') = Inr (rt_hash (use_token t9 token1))" "rt_family (use_token t9 token1) = ''f1''"
    by (simp_all add: use_token_def rows)
  show ?thesis using reuse_ends_login [OF history9 t h(1) call10 later_now] by (simp only: h(2)) simp
qed

text \<open>C20: A change of identity ends the logins. When an upsert stores another authentication subject
  or GitHub number for a student, or sets an active student inactive, be it a student with a GitHub
  account or a local one, then in every later state neither an access token nor a refresh token of any
  family the student had is accepted.\<close>

theorem identity_change_ends_logins:
  assumes "auth_later old init_auth db" and "p \<in> set (students db)" and "text_arg student_key = Inr (st_key p)"
    and "upsert_student env student_key subject github login active at_v db = (Inr row, db1) \<and>
        (st_subject row \<noteq> st_subject p \<or> st_github row \<noteq> st_github p \<or> st_active p \<and> \<not> active) \<or>
      upsert_local_student env student_key subject active at_v db = (Inr row, db1) \<and>
        (st_subject row \<noteq> st_subject p \<or> st_active p \<and> \<not> active)"
    and "f \<in> set (families db)" and "tf_student f = st_id p" and "auth_later new db1 db2" and "tf_id f \<notin> new"
  shows "st_id row = st_id p \<and>
    (\<nexists>s q. fst (authorize_access_token env' access' course' when' touch db2) = Inr (s, q) \<and> se_family s = tf_id f) \<and>
    (\<nexists>s. fst (rotate_refresh_token env' presented' course' replacement' refresh' access' expiry' most' when' db2) = Inr s \<and>
      se_family s = tf_id f)"
proof -
  have ok: "auth_ok db" by (rule reached_auth_ok [OF assms(1)])
  obtain u k g l ch now where b: "upsert_body (st_key p) u k g l active ch now db = Inr (Inr row, db1)"
    and ch: "st_subject row = u \<Longrightarrow> st_github row = g \<Longrightarrow> ch p"
    using assms(4)
  proof
    assume c: "upsert_student env student_key subject github login active at_v db = (Inr row, db1) \<and>
        (st_subject row \<noteq> st_subject p \<or> st_github row \<noteq> st_github p \<or> st_active p \<and> \<not> active)"
    then obtain u l now where "upsert_body (st_key p) u ''github'' github l active
        (\<lambda>s. st_subject s \<noteq> u \<or> st_github s \<noteq> github \<or> st_active s \<and> \<not> active) now db = Inr (Inr row, db1)"
      using assms(3) unfolding upsert_student_def assms(3) guard_pair transact_pair positive_arg_def demand_Inr_iff sum.inject by blast
    from that [OF this] c show thesis by blast
  next
    assume c: "upsert_local_student env student_key subject active at_v db = (Inr row, db1) \<and>
        (st_subject row \<noteq> st_subject p \<or> st_active p \<and> \<not> active)"
    then obtain u g l now where "upsert_body (st_key p) u ''local'' g l active
        (\<lambda>s. st_subject s \<noteq> u \<or> st_active s \<and> \<not> active) now db = Inr (Inr row, db1)"
      using assms(3) unfolding upsert_local_student_def Let_def case_prod_beta guard_pair transact_pair assms(3) sum.inject by blast
    from that [OF this] c show thesis by blast
  qed
  note u = upsert_ends [OF ok assms(2) b]
  have row: "st_id row = st_id p" and ended: "\<And>x. x \<in> set (families db1) \<Longrightarrow> tf_id x = tf_id f \<Longrightarrow> tf_revoked x \<noteq> None"
    using u ch assms(5,6) by auto
  have step: "auth_ok db1"
    using assms(4) sound_ok [OF upsert_student_sound [OF ok]] sound_ok [OF upsert_local_student_sound [OF ok]]
    by (metis snd_conv)
  have gone: "tf_revoked x \<noteq> None" if "x \<in> set (families db2)" "tf_id x = tf_id f" for x
    by (rule ended_login [OF assms(7) step assms(8) ended that])
  have "se_family s \<noteq> tf_id f" if "fst (authorize_access_token env' access' course' when' touch db2) = Inr (s, q)" for s q
    using authorize_accepts [OF that] gone by metis
  moreover have "se_family s \<noteq> tf_id f"
    if "fst (rotate_refresh_token env' presented' course' replacement' refresh' access' expiry' most' when' db2) = Inr s" for s
    using rotate_accepts [OF that] gone by metis
  ultimately show ?thesis using row by blast
qed

lemma identity_change_ends_logins_witness:
  "\<exists>row db1. upsert_student env0 ''key'' ''lab'' 7 ''login'' True at9 a5 = (Inr row, db1) \<and> st_id row = 1 \<and>
    (\<nexists>s q. fst (authorize_access_token env0 (hex CHR ''4'') ''cs1'' at9 False db1) = Inr (s, q) \<and> se_family s = ''f1'')"
proof -
  obtain row db1 where c: "upsert_student env0 ''key'' ''lab'' 7 ''login'' True at9 a5 = (Inr row, db1)" "st_subject row = ''lab''"
    by (simp add: upsert_student_def upsert_body_def call put_student_def student_clash_def a5_def rows update_where_def)
  have r: "student1 \<in> set (students a5)" "text_arg ''key'' = Inr (st_key student1)" "family1 \<in> set (families a5)"
    "tf_student family1 = st_id student1" "tf_id family1 = ''f1''" "st_id student1 = 1" "st_subject student1 = ''subject''"
    by (simp_all add: a5_def rows)
  show ?thesis
    using identity_change_ends_logins [OF history5 r(1,2) _ r(3,4) later_now, of env0 "''lab''" 7 "''login''" True at9 row db1] c r(5-7)
    by auto
qed

text \<open>A device authorization is exchanged once: the same exchange again, with the same code and
  whatever arguments it was accepted with, is refused as an invalid transition.\<close>

theorem exchange_once:
  assumes "auth_later old init_auth db"
    and "consume_device_authorization env l code course session family access access_exp refresh refresh_exp when_v db = (Inr s, db')"
  shows "fst (consume_device_authorization env l code course session family access access_exp refresh refresh_exp when_v db') =
    Inl PlatformInvalidTransition"
  using exchange_consumes [OF reached_auth_ok [OF assms(1)] assms(2)] .

lemma exchange_once_witness:
  "fst (consume_device_authorization env0 limits0 (hex CHR ''0'') ''cs1'' ''s1'' ''f1'' (hex CHR ''4'') (DtObj (tm 10))
    (hex CHR ''5'') (DtObj (tm 12)) at9 a5) = Inl PlatformInvalidTransition"
  by (rule exchange_once [OF history4 call5])

section \<open>Rotations end\<close>

text \<open>A history of a login: \<open>n\<close> rotations of the family \<open>F\<close> that were accepted under the limit \<open>m\<close>, among
  any steps that do not issue \<open>F\<close> anew.\<close>

inductive rotating :: "int \<Rightarrow> string \<Rightarrow> nat \<Rightarrow> auth_db \<Rightarrow> auth_db \<Rightarrow> bool" for m F where
  rotating_now: "rotating m F 0 db db"
| rotating_other: "rotating m F n db db1 \<Longrightarrow> auth_step env new db1 db2 \<Longrightarrow> F \<notin> new \<Longrightarrow> rotating m F n db db2"
| rotating_next: "rotating m F n db db1 \<Longrightarrow>
    rotate_refresh_token env presented course replacement refresh_exp access access_exp m when_v db1 = (Inr s, db2) \<Longrightarrow>
    se_family s = F \<Longrightarrow> rotating m F (Suc n) db db2"

lemma rotating_count:
  assumes "rotating m F n db db'" and "auth_ok db" and "f \<in> set (families db)" and "tf_id f = F"
  shows "auth_ok db' \<and> (n = 0 \<or> tf_rotations f + int n \<le> m) \<and>
    (\<forall>f'\<in>set (families db'). tf_id f' = F \<longrightarrow> same_login f f' \<and> tf_rotations f + int n \<le> tf_rotations f')"
  using assms
proof (induction rule: rotating.induct)
  case (rotating_now db)
  then show ?case using family_key(1) [OF rotating_now.prems(1,2)] by (metis add_0_right of_nat_0 order_refl same_login_refl)
next
  case (rotating_other n db db1 env new db2)
  then have s: "sound new db1 db2" using auth_step_sound by blast
  have IH: "n = 0 \<or> tf_rotations f + int n \<le> m"
    "\<And>g. g \<in> set (families db1) \<Longrightarrow> tf_id g = F \<Longrightarrow> same_login f g \<and> tf_rotations f + int n \<le> tf_rotations g"
    using rotating_other.IH rotating_other.prems by blast+
  have "same_login f f' \<and> tf_rotations f + int n \<le> tf_rotations f'" if f': "f' \<in> set (families db2)" "tf_id f' = F" for f'
  proof -
    obtain g where g: "g \<in> set (families db1)" "same_login g f'"
      using s f' rotating_other.hyps(3) by (auto simp: sound_def logins_kept_def)
    show ?thesis
    proof -
      have i: "tf_id g = F" "tf_rotations g \<le> tf_rotations f'" using g(2) f'(2) by (simp_all add: same_login_def)
      then show ?thesis using IH(2) [OF g(1) i(1)] same_login_trans [OF _ g(2)] by (metis order_trans)
    qed
  qed
  then show ?case using IH(1) s by (simp add: sound_def)
next
  case (rotating_next n db db1 env presented course replacement refresh_exp access access_exp when_v s db2)
  let ?r = "rotate_refresh_token env presented course replacement refresh_exp access access_exp m when_v db1"
  have r: "fst ?r = Inr s" "snd ?r = db2" using rotating_next.hyps(2) by simp_all
  have IH: "auth_ok db1" "\<And>g. g \<in> set (families db1) \<Longrightarrow> tf_id g = F \<Longrightarrow> same_login f g \<and> tf_rotations f + int n \<le> tf_rotations g"
    using rotating_next.IH rotating_next.prems by blast+
  obtain g where g: "g \<in> set (families db1)" "tf_id g = F" "tf_rotations g < m"
    and nxt: "\<And>x. x \<in> set (families db2) \<Longrightarrow> tf_id x = F \<Longrightarrow> \<exists>y\<in>set (families db1). tf_id y = F \<and>
        (tf_course y = tf_course g \<longrightarrow> tf_rotations x = tf_rotations y + 1)"
    using rotate_accepts [OF r(1)] r(2) rotating_next.hyps(3) by metis
  have s: "sound {} db1 db2" using rotate_sound [OF IH(1)] r(2) by metis
  have "same_login f x \<and> tf_rotations f + int (Suc n) \<le> tf_rotations x" if x: "x \<in> set (families db2)" "tf_id x = F" for x
  proof -
    obtain y where y: "y \<in> set (families db1)" "tf_id y = F" "tf_course y = tf_course g \<longrightarrow> tf_rotations x = tf_rotations y + 1"
      using nxt [OF x] by blast
    have "y = g" using family_key(1) [OF IH(1) g(1) y(1)] y(2) g(2) by simp
    moreover have "same_login g x"
    proof -
      obtain z where "z \<in> set (families db1)" "same_login z x" using s x(1) by (auto simp: sound_def logins_kept_def)
      moreover from this have "z = g" using family_key(1) [OF IH(1) g(1)] g(2) x(2) by (simp add: same_login_def)
      ultimately show ?thesis by simp
    qed
    ultimately show ?thesis using IH(2) [OF g(1,2)] y(3) by (auto intro: same_login_trans)
  qed
  then show ?case using IH(2) [OF g(1,2)] g(3) s by (auto simp: sound_def)
qed

text \<open>A login cannot be refreshed for ever. In a history from any reachable state, among any other
  steps, at most as many rotations of a family are accepted as the limit leaves over its count, however
  many are tried.\<close>

theorem rotations_end:
  assumes "auth_later old init_auth db" and "f \<in> set (families db)" and "rotating m (tf_id f) n db db'"
  shows "n = 0 \<or> tf_rotations f + int n \<le> m"
  using rotating_count [OF assms(3) reached_auth_ok [OF assms(1)] assms(2)] by blast

lemma rotations_end_witness: "1 = (0::nat) \<or> tf_rotations family1 + int 1 \<le> 3"
proof -
  have f: "family1 \<in> set (families a5)" "tf_id family1 = ''f1''" "se_family rotated1 = ''f1''" by (simp_all add: a5_def rows)
  have "rotating 3 (tf_id family1) (Suc 0) a5 a6"
    unfolding f(2) by (rule rotating_next [OF rotating_now call6 f(3)])
  from rotations_end [OF history5 f(1) this] show ?thesis by (simp only: One_nat_def)
qed

end
