(* ===== verification/Auth_Retention.thy ===== *)
theory Auth_Retention
  imports Auth_Steps
begin

text \<open>
  What the operations on logins leave alone: students and enrollments are never deleted, and a
  session that another table refers to survives the pruning of old logins with its student, course
  and family. The tables of submissions refer to all three.
\<close>

definition enrollment_key :: "enrollment_row \<Rightarrow> int \<times> string" where
  "enrollment_key e = (en_student e, en_course e)"

definition sessions_survive :: "(string \<Rightarrow> bool) \<Rightarrow> session_row list \<Rightarrow> session_row list \<Rightarrow> bool" where
  "sessions_survive K ss ss' = (\<forall>s\<in>set ss. K (se_id s) \<longrightarrow> (\<exists>s'\<in>set ss'. session_same s s'))"

definition rows_kept :: "(string \<Rightarrow> bool) \<Rightarrow> auth_db \<Rightarrow> auth_db \<Rightarrow> bool" where
  "rows_kept K db db' = (sessions_survive K (sessions db) (sessions db') \<and>
     st_id ` set (students db) \<subseteq> st_id ` set (students db') \<and>
     enrollment_key ` set (enrollments db) \<subseteq> enrollment_key ` set (enrollments db'))"

lemma session_same_trans: "session_same a b \<Longrightarrow> session_same b c \<Longrightarrow> session_same a c"
  by (auto simp: session_same_def)

lemma sessions_survive_refl [simp]: "sessions_survive K ss ss"
  by (auto simp: sessions_survive_def intro: session_same_refl)

lemma sessions_survive_trans:
  assumes "sessions_survive K a b" and "sessions_survive K b c"
  shows "sessions_survive K a c"
  unfolding sessions_survive_def
proof (intro ballI impI)
  fix s assume s: "s \<in> set a" "K (se_id s)"
  then obtain s' where s': "s' \<in> set b" "session_same s s'" using assms(1) by (auto simp: sessions_survive_def)
  moreover have "se_id s' = se_id s" using s'(2) by (simp add: session_same_def)
  ultimately obtain s'' where "s'' \<in> set c" "session_same s' s''"
    using assms(2) s(2) by (auto simp: sessions_survive_def)
  then show "\<exists>s'\<in>set c. session_same s s'" using s'(2) session_same_trans by blast
qed

lemma rows_kept_refl [simp]: "rows_kept K db db"
  by (simp add: rows_kept_def)

lemma login_rows_trans: "rows_kept K a b \<Longrightarrow> rows_kept K b c \<Longrightarrow> rows_kept K a c"
  unfolding rows_kept_def by (meson sessions_survive_trans subset_trans)

lemma survive_update [simp]:
  assumes "\<And>s. P s \<Longrightarrow> session_same s (f s)"
  shows "sessions_survive K ss (update_where P f ss)"
  unfolding sessions_survive_def set_update_where
proof (intro ballI impI)
  fix s assume "s \<in> set ss"
  moreover have "session_same s (if P s then f s else s)" using assms by simp
  ultimately show "\<exists>s'\<in>(\<lambda>r. if P r then f r else r) ` set ss. session_same s s'" by blast
qed

lemma keys_updated:
  assumes "\<And>r. P r \<Longrightarrow> key (f r) = key r"
  shows "key ` set (update_where P f rows) = key ` set rows"
  using arg_cong [OF update_where_same [of P key f rows, OF assms], of set] by simp

lemma survive_append [simp]: "sessions_survive K ss (ss @ xs)"
  by (auto simp: sessions_survive_def intro: session_same_refl)

lemma survive_filter:
  "(\<And>s. s \<in> set ss \<Longrightarrow> K (se_id s) \<Longrightarrow> P s) \<Longrightarrow> sessions_survive K ss (filter P ss)"
  by (auto simp: sessions_survive_def intro: session_same_refl)

text \<open>Only the tables of sessions, students and enrollments matter.\<close>

lemma rows_kept_sessions:
  "students db' = students db \<Longrightarrow> enrollments db' = enrollments db \<Longrightarrow>
   sessions_survive K (sessions db) (sessions db') \<Longrightarrow> rows_kept K db db'"
  by (simp add: rows_kept_def)

lemma student_credentials_kept [simp]: "rows_kept K db (revoke_student_credentials sid now db)"
  by (rule rows_kept_sessions) (simp_all add: revoke_student_credentials_def Let_def)

lemma course_credentials_kept [simp]: "rows_kept K db (revoke_course_credentials sid course now db)"
  by (rule rows_kept_sessions) (simp_all add: revoke_course_credentials_def Let_def)

lemma put_student_kept [simp]: "rows_kept K db (put_student key subject kind github login active now db)"
  by (auto simp: rows_kept_def put_student_def keys_updated)

lemma set_active_kept [simp]:
  "rows_kept K db (db\<lparr>students := update_where P (\<lambda>s. s\<lparr>st_active := a, st_updated := now\<rparr>) (students db)\<rparr>)"
  by (simp add: rows_kept_def keys_updated)

lemma put_enrollment_kept [simp]: "rows_kept K db (put_enrollment sid course active now db)"
  by (auto simp: rows_kept_def put_enrollment_def keys_updated enrollment_key_def)

lemma set_device_kept [simp]: "rows_kept K db (set_device i f db)"
  by (rule rows_kept_sessions) (simp_all add: set_device_def)

lemma lapse_kept [simp]: "rows_kept K db (lapse_family course now F db)"
  by (rule rows_kept_sessions) (simp_all add: lapse_family_def)

lemma replace_kept [simp]: "rows_kept K db (replace_sessions sid course now db)"
  by (rule rows_kept_sessions) (simp_all add: replace_sessions_def Let_def)

lemma fold_kept: "(\<And>x db. x \<in> set xs \<Longrightarrow> rows_kept K db (f x db)) \<Longrightarrow> rows_kept K db (fold f xs db)"
  by (induction xs arbitrary: db) (auto intro: login_rows_trans)

lemma prune_kept [simp]:
  assumes "\<And>i. K i \<Longrightarrow> session_kept env i"
  shows "rows_kept K db (prune_auth_history env sid course before db)"
  unfolding prune_auth_history_def
proof (rule fold_kept)
  fix x d assume "x \<in> set (filter (prunable env sid course before) (sessions db))"
  then have "\<not> K (se_id x)" using assms by (auto simp: prunable_def)
  then show "rows_kept K d (prune_session env course x d)"
    by (intro rows_kept_sessions) (auto simp: prune_session_def Let_def intro!: survive_filter)
qed

lemma end_earlier_kept:
  assumes "\<And>i. K i \<Longrightarrow> session_kept env i"
  shows "rows_kept K db (end_earlier env sid course now before db)"
proof -
  let ?a = "fold (lapse_family course now) (lapsed_families sid course now (sessions db)) db"
  let ?c = "prune_auth_history env sid course before (replace_sessions sid course now ?a)"
  have "rows_kept K db ?a" by (rule fold_kept) simp
  moreover have "rows_kept K ?a ?c" using prune_kept [where K = K, OF assms] replace_kept login_rows_trans by blast
  moreover have "rows_kept K ?c (end_earlier env sid course now before db)"
    by (rule rows_kept_sessions) (simp_all add: end_earlier_def Let_def)
  ultimately show ?thesis using login_rows_trans by blast
qed

lemma issue_kept: "issue_session env i sid course d now db = Inr db' \<Longrightarrow> rows_kept K db db'"
  by (rule rows_kept_sessions) (auto simp: issue_session_def)

lemma exchange_kept:
  assumes "\<And>i. K i \<Longrightarrow> session_kept env i" and "exchange env l i sid course d now db = Inr (r, db')"
  shows "rows_kept K db db'"
proof -
  obtain before db2 where "issue_session env i sid course d now (end_earlier env sid course now before db) = Inr db2"
    and "db' = set_device (dv_id d) (consume_row now) db2"
    using assms(2) by (auto simp: exchange_def Let_def result_simps)
  then show ?thesis
    using end_earlier_kept [where K = K, OF assms(1)] issue_kept set_device_kept login_rows_trans by metis
qed

lemma replace_token_kept: "replace_token r F course re ae now db = Inr db' \<Longrightarrow> rows_kept K db db'"
  by (rule rows_kept_sessions) (auto simp: replace_token_def rotated_session_def session_same_def)

lemma ended_kept [simp]: "rows_kept K db (end_reused F now db)" "rows_kept K db (end_worn_out F course now db)"
  by (rule rows_kept_sessions; simp add: end_reused_def end_worn_out_def)+

section \<open>Operations\<close>

lemma create_body_kept: "create_body env d most keep db = Inr (r, db') \<Longrightarrow> rows_kept K db db'"
  by (rule rows_kept_sessions) (auto simp: create_body_def insert_device_def Let_def result_simps)

lemma approve_device_kept: "approve_device_body user subject course now db = Inr (r, db') \<Longrightarrow> rows_kept K db db'"
  by (auto simp: approve_device_body_def split: option.split_asm if_split_asm)

lemma deny_kept: "deny_body user course now db = Inr (r, db') \<Longrightarrow> rows_kept K db db'"
  by (auto simp: deny_body_def split: option.split_asm)

lemma consume_kept:
  "(\<And>i. K i \<Longrightarrow> session_kept env i) \<Longrightarrow> consume_body env l i code course now db = Inr (r, db') \<Longrightarrow> rows_kept K db db'"
  by (auto simp: consume_body_def intro: exchange_kept split: option.split_asm if_split_asm)

lemma authorize_kept: "authorize_body touch access course now db = Inr (r, db') \<Longrightarrow> rows_kept K db db'"
  by (rule rows_kept_sessions) (auto simp: authorize_body_def split: option.split_asm if_split_asm)

lemma rotate_kept: "rotate_body r most course now db = Inr (s, db') \<Longrightarrow> rows_kept K db db'"
  by (auto simp: rotate_body_def rotate_live_def Let_def result_simps intro: replace_token_kept
      split: option.split_asm if_split_asm)

lemma revoke_kept: "revoke_body session course owner now db = Inr (r, db') \<Longrightarrow> rows_kept K db db'"
  by (rule rows_kept_sessions) (auto simp: revoke_body_def split: option.split_asm)

lemma revoke_all_kept: "revoke_all_body sid course now db = Inr (r, db') \<Longrightarrow> rows_kept K db db'"
  by (rule rows_kept_sessions) (auto simp: revoke_all_body_def Let_def)

lemmas bodies_kept = create_body_kept approve_device_kept deny_kept consume_kept authorize_kept rotate_kept revoke_kept revoke_all_kept

lemma guard_rows: "(\<And>x. r = Inr x \<Longrightarrow> rows_kept K db (snd (f x db))) \<Longrightarrow> rows_kept K db (snd (guard r f db))"
  by (cases r) (simp_all add: guard_def)

lemma transact_rows: "(\<And>r db'. body db = Inr (r, db') \<Longrightarrow> rows_kept K db db') \<Longrightarrow> rows_kept K db (snd (transact body db))"
  by (cases "body db") (auto simp: transact_def)

lemma access_kept [simp]: "rows_kept K db (snd (authorize_access_token env access course when_v touch db))"
  unfolding authorize_access_token_def by (intro guard_rows transact_rows) (auto intro: authorize_kept)

lemma revocation_kept [simp]: "rows_kept K db (snd (revoke_session env session course owner when_v db))"
  unfolding revoke_session_def by (intro guard_rows transact_rows) (auto intro: revoke_kept)

lemma upsert_body_kept:
  "upsert_body key subject kind github login active changed now db = Inr (r, db') \<Longrightarrow> rows_kept K db db'"
  by (auto simp: upsert_body_def Let_def login_rows_trans [OF put_student_kept student_credentials_kept]
      split: option.split_asm if_split_asm)

lemma step_rows_kept:
  assumes "auth_step env new db db'" and "\<And>i. K i \<Longrightarrow> session_kept env i"
  shows "rows_kept K db db'"
  using assms
proof (induction rule: auth_step.induct)
  case (step_student db)
  show ?case unfolding upsert_student_def
    by (intro guard_rows transact_rows) (rule upsert_body_kept)
next
  case (step_local_student db)
  show ?case unfolding upsert_local_student_def Let_def case_prod_beta
    by (intro guard_rows transact_rows) (rule upsert_body_kept)
next
  case (step_student_active db)
  show ?case unfolding set_student_active_def
    by (intro guard_rows transact_rows)
      (auto simp: Let_def login_rows_trans [OF set_active_kept student_credentials_kept] split: option.split_asm if_split_asm)
next
  case (step_enrollment db)
  show ?case unfolding upsert_enrollment_def
    by (intro guard_rows transact_rows)
      (auto simp: Let_def login_rows_trans [OF put_enrollment_kept course_credentials_kept] split: option.split_asm if_split_asm)
next
  case (step_create db)
  show ?case unfolding create_device_authorization_def by (intro guard_rows transact_rows) (auto intro: create_body_kept)
next
  case (step_approve db)
  show ?case unfolding approve_device_authorization_def by (intro guard_rows transact_rows) (auto intro: approve_device_kept)
next
  case (step_deny db)
  show ?case unfolding deny_device_authorization_def by (intro guard_rows transact_rows) (auto intro: deny_kept)
next
  case (step_consume family db)
  show ?case unfolding consume_device_authorization_def
    by (intro guard_rows transact_rows) (auto intro: consume_kept [where K = K, OF step_consume.prems])
next
  case (step_rotate db)
  show ?case unfolding rotate_refresh_token_def by (intro guard_rows transact_rows) (auto intro: rotate_kept)
next
  case (step_list_owned db access course)
  have "rows_kept K db d" if "authorize_access_token env access course (Some (DtText now)) True db = (r, d)" for now r d
    using access_kept [of K db env access course "Some (DtText now)" True] by (simp only: that snd_conv)
  then show ?case unfolding list_owned_sessions_def by (intro guard_rows) (auto split: prod.split sum.split)
next
  case (step_revoke_owned db access course session when_v)
  obtain r db1 where a: "authorize_access_token env access course when_v True db = (r, db1)" by fastforce
  then have "rows_kept K db db1" by (metis access_kept snd_conv)
  then show ?case
    unfolding revoke_owned_session_def a by (auto intro: login_rows_trans [OF _ revocation_kept] split: sum.split)
next
  case (step_revoke_all db)
  show ?case unfolding revoke_student_sessions_def by (intro guard_rows transact_rows) (auto intro: revoke_all_kept)
qed simp_all

end
