(* ===== verification/Sub_State.thy ===== *)
theory Sub_State
  imports Auth_Retention
begin

text \<open>
  \<open>src/src/autograde/platform_state.py\<close>: the rows of the repository submissions. An assignment is
  one student's repository for one release; a submission request names an exact commit of it, its
  receipt pins the graded inputs, its result the score. Idempotency keys and the daily counters of
  admission attempts are tables of their own. The enrollment an assignment refers to is named by
  student and course, which are unique; joining over the enrollment id is joining over this pair.
  \<open>session_kept\<close> of the login environment speaks of the tables of bundle submissions; the sessions that
  \<open>requests\<close> refers to are kept by \<open>login_env\<close>.
\<close>

section \<open>Enumerations\<close>

datatype submission_mode = ModeBranch | ModePullRequest

datatype result_policy = PolicyImmediate | PolicyScoreOnly | PolicyAfterDeadline | PolicyManual

datatype submission_state = SubReceived | SubVerifying | SubPinning | SubAccepted | SubQueued | SubRunning
  | SubGraded | SubPublished | SubRejected | SubInfraFailed | SubAssessmentFailed

fun submission_mode_value :: "submission_mode \<Rightarrow> string" where
  "submission_mode_value ModeBranch = ''branch''"
| "submission_mode_value ModePullRequest = ''pull_request''"

fun result_policy_value :: "result_policy \<Rightarrow> string" where
  "result_policy_value PolicyImmediate = ''immediate''"
| "result_policy_value PolicyScoreOnly = ''score_only''"
| "result_policy_value PolicyAfterDeadline = ''after_deadline''"
| "result_policy_value PolicyManual = ''manual''"

fun submission_state_value :: "submission_state \<Rightarrow> string" where
  "submission_state_value SubReceived = ''received''"
| "submission_state_value SubVerifying = ''verifying''"
| "submission_state_value SubPinning = ''pinning''"
| "submission_state_value SubAccepted = ''accepted''"
| "submission_state_value SubQueued = ''queued''"
| "submission_state_value SubRunning = ''running''"
| "submission_state_value SubGraded = ''graded''"
| "submission_state_value SubPublished = ''published''"
| "submission_state_value SubRejected = ''rejected''"
| "submission_state_value SubInfraFailed = ''infra_failed''"
| "submission_state_value SubAssessmentFailed = ''assessment_failed''"

definition submission_states :: "submission_state list" where
  "submission_states = [SubReceived, SubVerifying, SubPinning, SubAccepted, SubQueued, SubRunning, SubGraded,
     SubPublished, SubRejected, SubInfraFailed, SubAssessmentFailed]"

definition mode_arg :: "string \<Rightarrow> submission_mode pres" where
  "mode_arg v = lift (enum_value submission_mode_value [ModeBranch, ModePullRequest] v)"

definition policy_arg :: "string \<Rightarrow> result_policy pres" where
  "policy_arg v = lift (enum_value result_policy_value
     [PolicyImmediate, PolicyScoreOnly, PolicyAfterDeadline, PolicyManual] v)"

definition submission_state_arg :: "string \<Rightarrow> submission_state pres" where
  "submission_state_arg v = lift (enum_value submission_state_value submission_states v)"

section \<open>Rows\<close>

record work_row =
  wk_id :: string
  wk_student :: int
  wk_course :: string
  wk_key :: string
  wk_release :: string
  wk_repository :: int
  wk_owner :: string
  wk_name :: string
  wk_url :: string
  wk_mode :: submission_mode
  wk_target :: string
  wk_base :: "string option"
  wk_path :: string
  wk_policy :: result_policy
  wk_assessment :: string
  wk_data :: "string option"
  wk_assessment_digest :: string
  wk_dataset_digest :: string
  wk_image :: string
  wk_rubric :: string
  wk_max :: rat
  wk_opens :: "string option"
  wk_due :: "string option"
  wk_active :: bool
  wk_ready :: bool
  wk_created :: string
  wk_updated :: string

record request_row =
  rq_id :: string
  rq_student :: int
  rq_session :: string
  rq_work :: string
  rq_endpoint :: string
  rq_key :: string
  rq_hash :: string
  rq_repository :: int
  rq_pull :: "int option"
  rq_sha :: string
  rq_state :: submission_state
  rq_received :: string
  rq_updated :: string
  rq_code :: "string option"
  rq_message :: "string option"

record key_row =
  ik_student :: int
  ik_endpoint :: string
  ik_work :: string
  ik_key :: string
  ik_hash :: string
  ik_request :: string
  ik_created :: string

record submission_receipt =
  rc_id :: string
  rc_request :: string
  rc_student :: int
  rc_work :: string
  rc_course :: string
  rc_assignment :: string
  rc_release :: string
  rc_repository :: int
  rc_sha :: string
  rc_source :: string
  rc_source_digest :: string
  rc_assessment :: string
  rc_data :: "string option"
  rc_assessment_digest :: string
  rc_dataset_digest :: string
  rc_image :: string
  rc_rubric :: string
  rc_max :: rat
  rc_snapshot :: "string option"
  rc_received :: string
  rc_accepted :: string

record result_row =
  rs_id :: string
  rs_request :: string
  rs_student :: int
  rs_sha :: string
  rs_score :: rat
  rs_max :: rat
  rs_rubric :: string
  rs_diagnostics :: string
  rs_created :: string
  rs_published :: "string option"

record attempt_row =
  ad_student :: int
  ad_day :: string
  ad_attempts :: int
  ad_updated :: string

record platform_db =
  auth :: auth_db
  works :: "work_row list"
  requests :: "request_row list"
  request_keys :: "key_row list"
  receipts :: "submission_receipt list"
  results :: "result_row list"
  attempts :: "attempt_row list"

definition init_platform :: platform_db where
  "init_platform = \<lparr>auth = init_auth, works = [], requests = [], request_keys = [], receipts = [], results = [],
     attempts = []\<rparr>"

record platform_env =
  logins :: auth_env
  erased :: "string \<Rightarrow> bool"

definition login_env :: "platform_env \<Rightarrow> platform_db \<Rightarrow> auth_env" where
  "login_env env db = (logins env)\<lparr>session_kept := \<lambda>i. taken rq_session i (requests db) \<or> session_kept (logins env) i\<rparr>"

section \<open>Validators\<close>

definition digest_arg :: "string \<Rightarrow> string pres" where
  "digest_arg v = rbind (verifier_arg v) (\<lambda>h. Inr (''sha256:'' @ h))"

definition optional_digest_arg :: "string \<Rightarrow> string pres" where
  "optional_digest_arg v = (if strip v = [] then Inr [] else digest_arg v)"

definition oid_arg :: "string \<Rightarrow> string pres" where
  "oid_arg v = lift (git_oid v)"

definition score_arg :: "pynum \<Rightarrow> rat pres" where
  "score_arg v =
     (case v of
        PyBool _ \<Rightarrow> Inl (Py TypeErr)
      | PyOther \<Rightarrow> Inl (Py TypeErr)
      | PyInt i \<Rightarrow> rbind (lift (float_of_int i)) (\<lambda>x. demand (0 \<le> x) (Py ValueError) (Inr x))
      | PyFloat (Finite x) \<Rightarrow> demand (0 \<le> x) (Py ValueError) (Inr x)
      | PyFloat _ \<Rightarrow> Inl (Py ValueError))"

text \<open>An optional argument is validated when it is given.\<close>

definition optional_arg :: "('a \<Rightarrow> 'b pres) \<Rightarrow> 'a option \<Rightarrow> 'b option pres" where
  "optional_arg f v = (case v of None \<Rightarrow> Inr None | Some x \<Rightarrow> rbind (f x) (\<lambda>y. Inr (Some y)))"

definition json_arg :: "json \<Rightarrow> string pres" where
  "json_arg v = (case dumps v of Inl _ \<Rightarrow> Inl (Py ValueError) | Inr t \<Rightarrow> Inr t)"

definition rubric_arg :: "(string \<times> json) list option \<Rightarrow> string pres" where
  "rubric_arg v = json_arg (JObj (case v of None \<Rightarrow> [] | Some ms \<Rightarrow> ms))"

definition diagnostics_arg :: "(string \<times> json) list list option \<Rightarrow> string pres" where
  "diagnostics_arg v = json_arg (JArr (case v of None \<Rightarrow> [] | Some ds \<Rightarrow> map JObj ds))"

subsection \<open>Runner images\<close>

definition decimal_char :: "char \<Rightarrow> bool" where
  "decimal_char c = (48 \<le> (of_char c :: nat) \<and> (of_char c :: nat) \<le> 57)"

definition image_char :: "char \<Rightarrow> bool" where
  "image_char c = (decimal_char c \<or> (97 \<le> (of_char c :: nat) \<and> (of_char c :: nat) \<le> 122))"

text \<open>The regular expressions of the module: \<open>_COMPONENT\<close> is runs of lower case letters and digits
  with one separator between them, a point, one or two underscores, or hyphens.\<close>

definition image_separator :: "string \<Rightarrow> bool" where
  "image_separator s = (s \<in> {''.'', ''_'', ''__''} \<or> (s \<noteq> [] \<and> list_all (\<lambda>c. c = CHR ''-'') s))"

function image_component :: "string \<Rightarrow> bool" where
  "image_component s =
     (let rest = dropWhile image_char s; more = dropWhile (\<lambda>c. \<not> image_char c) rest in
      takeWhile image_char s \<noteq> [] \<and>
      (if rest = [] then True
       else if image_separator (takeWhile (\<lambda>c. \<not> image_char c) rest) then image_component more
       else False))"
  by auto
termination
proof (relation "measure length")
  fix s :: string and rest more
  assume r: "rest = dropWhile image_char s" and m: "more = dropWhile (\<lambda>c. \<not> image_char c) rest" and "rest \<noteq> []"
  then have "\<not> image_char (hd rest)" using hd_dropWhile by metis
  then have "length more < length rest"
    using \<open>rest \<noteq> []\<close> by (cases rest) (simp_all add: m length_dropWhile_le le_imp_less_Suc)
  moreover have "length rest \<le> length s" by (simp add: r length_dropWhile_le)
  ultimately show "(more, s) \<in> measure length" by simp
qed simp

declare image_component.simps [simp del]

definition image_label :: "string \<Rightarrow> bool" where
  "image_label s = (s \<noteq> [] \<and> length s \<le> 63 \<and> image_char (hd s) \<and> image_char (last s) \<and>
     list_all (\<lambda>c. image_char c \<or> c = CHR ''-'') s)"

definition image_domain :: "string \<Rightarrow> bool" where
  "image_domain s =
     (let host = takeWhile (\<lambda>c. c \<noteq> CHR '':'') s; port = dropWhile (\<lambda>c. c \<noteq> CHR '':'') s in
      list_all image_label (split_on (CHR ''.'') host) \<and>
      (port = [] \<or> (1 \<le> length (tl port) \<and> length (tl port) \<le> 5 \<and> list_all decimal_char (tl port))))"

definition image_name :: "string \<Rightarrow> bool" where
  "image_name s =
     (let ps = split_on (CHR ''/'') s in
      list_all image_component ps \<or> (2 \<le> length ps \<and> image_domain (hd ps) \<and> list_all image_component (tl ps)))"

text \<open>The places where a marker occurs. The one of an image cannot overlap itself.\<close>

definition marker_places :: "string \<Rightarrow> string \<Rightarrow> nat list" where
  "marker_places m s = filter (\<lambda>i. starts_with m (drop i s)) [0..<length s]"

definition image_marker :: string where
  "image_marker = ''@sha256:''"

definition normalize_runner_image :: "string \<Rightarrow> string pres" where
  "normalize_runner_image v =
     demand (length v \<le> 512 \<and> list_all (\<lambda>c. \<not> py_space c \<and> 32 \<le> (of_char c :: nat)) v) (Py ValueError)
     (case marker_places image_marker v of
        [i] \<Rightarrow>
          (let name = take i v; digest = drop (i + length image_marker) v in
           demand (CHR ''/'' \<in> set name \<and> CHR ''@'' \<notin> set name \<and> image_name name \<and> length digest = 64 \<and>
             list_all (\<lambda>c. c \<in> set ''0123456789abcdefABCDEF'') digest) (Py ValueError)
           (Inr (name @ image_marker @ lower digest)))
      | _ \<Rightarrow> Inl (Py ValueError))"

definition image_arg :: "string \<Rightarrow> string pres" where
  "image_arg v = (if v = ''pilot-local:v1'' then Inr v else normalize_runner_image v)"

subsection \<open>Repository paths\<close>

text \<open>\<open>normalize_assignment_subpath\<close>: a text that \<open>PurePosixPath\<close> would write differently, one that
  leaves the repository or touches its metadata, and one that Windows reads as a drive are
  \<open>ValueError\<close>s.\<close>

definition subpath_arg :: "string \<Rightarrow> string pres" where
  "subpath_arg v =
     demand (v \<noteq> []) (Py ValueError)
     (demand (list_all (\<lambda>c. (of_char c :: nat) \<noteq> 92 \<and> 32 \<le> (of_char c :: nat) \<and> (of_char c :: nat) \<noteq> 127) v) (Py ValueError)
     (if v = ''.'' then Inr v
      else
        let parts = filter (\<lambda>p. p \<noteq> [] \<and> p \<noteq> ''.'') (split_on (CHR ''/'') v) in
        demand (\<not> starts_with ''/'' v \<and> \<not> ends_with ''/'' v \<and> marker_places ''//'' v = [] \<and> parts \<noteq> []) (Py ValueError)
        (demand (\<not> (take 1 (drop 1 v) = '':'' \<and> image_char (hd (lower v)) \<and> \<not> decimal_char (hd v))) (Py ValueError)
        (demand (''..'' \<notin> set parts \<and> ''.git'' \<notin> lower ` set parts \<and> join ''/'' parts = v) (Py ValueError)
        (Inr v)))))"

subsection \<open>Days\<close>

text \<open>\<open>datetime.strptime(day, "%Y-%m-%d")\<close>: four digits of the year, one or two of the month, and one
  or two of the day or a space and a digit.\<close>

definition day_field :: "string \<Rightarrow> nat option" where
  "day_field s = (if list_all decimal_char s \<and> length s \<in> {1, 2} then Some (read_nat 0 s)
     else if length s = 2 \<and> hd s = CHR '' '' \<and> decimal_char (last s) \<and> last s \<noteq> CHR ''0'' then Some (read_nat 0 (tl s))
     else None)"

definition day_arg :: "string \<Rightarrow> string pres" where
  "day_arg v = rbind (text_arg v) (\<lambda>day.
     case split_on (CHR ''-'') day of
       [y, m, d] \<Rightarrow>
         demand (length y = 4 \<and> list_all decimal_char y \<and> list_all decimal_char m \<and> length m \<in> {1, 2} \<and>
           (case day_field d of None \<Rightarrow> False | Some n \<Rightarrow> valid_date (read_nat 0 y) (read_nat 0 m) n)) (Py ValueError)
         (Inr day)
     | _ \<Rightarrow> Inl (Py ValueError))"

end
