(* ===== verification/Sub_Works.thy ===== *)
theory Sub_Works
  imports Sub_State
begin

text \<open>
  Assignments of \<open>src/src/autograde/platform_state.py\<close>: registration of a student's repository for a
  release, the operator's switches, and the lists. An assignment is immutable but for \<open>active\<close> and
  \<open>ready\<close>, so registering it again with the same columns returns the stored row.
\<close>

section \<open>Registration\<close>

record work_args =
  wa_id :: string
  wa_student :: int
  wa_course :: string
  wa_key :: string
  wa_release :: string
  wa_repository :: int
  wa_owner :: string
  wa_name :: string
  wa_url :: string
  wa_mode :: string
  wa_target :: string
  wa_policy :: string
  wa_base :: "string option"
  wa_path :: string
  wa_assessment :: string
  wa_assessment_digest :: string
  wa_image :: string
  wa_rubric :: string
  wa_max :: pynum
  wa_data :: "string option"
  wa_dataset_digest :: string
  wa_opens :: "dtvalue option"
  wa_due :: "dtvalue option"
  wa_active :: bool
  wa_ready :: bool

definition base_arg :: "submission_mode \<Rightarrow> string option \<Rightarrow> string option pres" where
  "base_arg mode v =
     (if mode = ModePullRequest then rbind (text_arg (case v of None \<Rightarrow> [] | Some b \<Rightarrow> b)) (\<lambda>b. Inr (Some b))
      else optional_arg text_arg v)"

definition window_ok :: "result_policy \<Rightarrow> string option \<Rightarrow> string option \<Rightarrow> bool" where
  "window_ok policy start due = ((policy = PolicyAfterDeadline \<longrightarrow> due \<noteq> None) \<and>
     (case (start, due) of (Some s, Some d) \<Rightarrow> s < d | _ \<Rightarrow> True))"

definition check_work :: "platform_env \<Rightarrow> work_args \<Rightarrow> dtvalue option \<Rightarrow> work_row pres" where
  "check_work env a at_v =
     rbind (text_arg (wa_id a)) (\<lambda>i. rbind (text_arg (wa_course a)) (\<lambda>course.
     rbind (text_arg (wa_key a)) (\<lambda>key. rbind (text_arg (wa_release a)) (\<lambda>release.
     rbind (positive_arg (wa_repository a)) (\<lambda>repository. rbind (text_arg (wa_owner a)) (\<lambda>owner.
     rbind (text_arg (wa_name a)) (\<lambda>name. rbind (lift (clone_url (wa_url a))) (\<lambda>url.
     rbind (mode_arg (wa_mode a)) (\<lambda>mode. rbind (text_arg (wa_target a)) (\<lambda>target.
     rbind (policy_arg (wa_policy a)) (\<lambda>policy. rbind (rbind (text_arg (wa_path a)) subpath_arg) (\<lambda>path.
     rbind (text_arg (wa_assessment a)) (\<lambda>assessment. rbind (digest_arg (wa_assessment_digest a)) (\<lambda>assessment_digest.
     rbind (image_arg (wa_image a)) (\<lambda>image. rbind (text_arg (wa_rubric a)) (\<lambda>rubric.
     rbind (score_arg (wa_max a)) (\<lambda>most. rbind (optional_arg text_arg (wa_data a)) (\<lambda>data.
     rbind (optional_digest_arg (wa_dataset_digest a)) (\<lambda>dataset_digest.
     demand ((data = None) = (dataset_digest = [])) (Py ValueError)
     (rbind (base_arg mode (wa_base a)) (\<lambda>base.
     rbind (optional_arg (\<lambda>v. stamp (logins env) (Some v)) (wa_opens a)) (\<lambda>start.
     rbind (optional_arg (\<lambda>v. stamp (logins env) (Some v)) (wa_due a)) (\<lambda>due.
     demand (window_ok policy start due) (Py ValueError)
     (rbind (stamp (logins env) at_v) (\<lambda>now.
       Inr \<lparr>wk_id = i, wk_student = wa_student a, wk_course = course, wk_key = key, wk_release = release,
         wk_repository = repository, wk_owner = owner, wk_name = name, wk_url = url, wk_mode = mode,
         wk_target = target, wk_base = base, wk_path = path, wk_policy = policy, wk_assessment = assessment,
         wk_data = data, wk_assessment_digest = assessment_digest, wk_dataset_digest = dataset_digest,
         wk_image = image, wk_rubric = rubric, wk_max = most, wk_opens = start, wk_due = due,
         wk_active = wa_active a, wk_ready = wa_ready a, wk_created = now, wk_updated = now\<rparr>)))))))))))))))))))))))))"

definition enrolled :: "int \<Rightarrow> string \<Rightarrow> platform_db \<Rightarrow> bool" where
  "enrolled sid course db = (active_enrollment sid course (auth db) \<noteq> None)"

text \<open>The columns of a release that never change.\<close>

definition same_release :: "work_row \<Rightarrow> work_row \<Rightarrow> bool" where
  "same_release w w' = (w' = w\<lparr>wk_active := wk_active w', wk_ready := wk_ready w', wk_created := wk_created w',
     wk_updated := wk_updated w'\<rparr>)"

definition release_key :: "work_row \<Rightarrow> string \<times> string \<times> string \<times> int" where
  "release_key w = (wk_course w, wk_key w, wk_release w, wk_student w)"

definition repository_name :: "work_row \<Rightarrow> string \<times> string" where
  "repository_name w = (wk_owner w, wk_name w)"

definition insert_work :: "platform_env \<Rightarrow> work_row \<Rightarrow> platform_db \<Rightarrow> platform_db pres" where
  "insert_work env w db =
     demand (\<not> erased env (wk_course w) \<and> \<not> taken wk_id (wk_id w) (works db) \<and>
       \<not> taken wk_repository (wk_repository w) (works db) \<and> \<not> taken release_key (release_key w) (works db) \<and>
       \<not> taken repository_name (repository_name w) (works db)) PlatformConflict
     (Inr (db\<lparr>works := works db @ [w]\<rparr>))"

definition register_work_body :: "platform_env \<Rightarrow> work_row \<Rightarrow> platform_db \<Rightarrow> (work_row pres \<times> platform_db) pres" where
  "register_work_body env w db =
     demand (enrolled (wk_student w) (wk_course w) db) PlatformAccessDenied
     (case find (\<lambda>x. wk_id x = wk_id w) (works db) of
        Some old \<Rightarrow> demand (same_release old w) PlatformConflict (Inr (Inr old, db))
      | None \<Rightarrow> rbind (insert_work env w db) (\<lambda>db1. Inr (Inr w, db1)))"

definition register_assignment ::
  "platform_env \<Rightarrow> work_args \<Rightarrow> dtvalue option \<Rightarrow> platform_db \<Rightarrow> work_row pres \<times> platform_db" where
  "register_assignment env a at_v db =
     guard (check_work env a at_v) (\<lambda>w. transact (register_work_body env w)) db"

section \<open>Availability\<close>

definition set_work :: "string \<Rightarrow> (work_row \<Rightarrow> work_row) \<Rightarrow> platform_db \<Rightarrow> platform_db" where
  "set_work i f db = db\<lparr>works := update_where (\<lambda>w. wk_id w = i) f (works db)\<rparr>"

definition switch_work :: "bool option \<Rightarrow> bool option \<Rightarrow> string \<Rightarrow> work_row \<Rightarrow> work_row" where
  "switch_work active ready now w =
     w\<lparr>wk_active := (case active of None \<Rightarrow> wk_active w | Some b \<Rightarrow> b),
       wk_ready := (case ready of None \<Rightarrow> wk_ready w | Some b \<Rightarrow> b), wk_updated := now\<rparr>"

definition set_assignment_availability ::
  "platform_env \<Rightarrow> string \<Rightarrow> string \<Rightarrow> bool option \<Rightarrow> bool option \<Rightarrow> dtvalue option \<Rightarrow> platform_db \<Rightarrow>
   work_row pres \<times> platform_db" where
  "set_assignment_availability env assignment_id course_key active ready at_v db =
     guard (demand (active \<noteq> None \<or> ready \<noteq> None) (Py ValueError) (Inr ())) (\<lambda>_.
     guard (text_arg assignment_id) (\<lambda>i. guard (text_arg course_key) (\<lambda>course.
     transact (\<lambda>db.
       case find (\<lambda>w. wk_id w = i \<and> wk_course w = course) (works db) of
         None \<Rightarrow> Inl PlatformNotFound
       | Some w \<Rightarrow> rbind (stamp (logins env) at_v) (\<lambda>now.
           Inr (Inr (switch_work active ready now w), set_work i (switch_work active ready now) db))))))
     db"

section \<open>Authorised reads\<close>

text \<open>An operation a student calls first checks the access token, in a transaction of its own that
  also records that the session was seen.\<close>

definition authorized ::
  "platform_env \<Rightarrow> string \<Rightarrow> string \<Rightarrow> dtvalue option \<Rightarrow>
   (session_row \<Rightarrow> student_row \<Rightarrow> platform_db \<Rightarrow> 'a pres \<times> platform_db) \<Rightarrow> platform_db \<Rightarrow> 'a pres \<times> platform_db" where
  "authorized env access course at_v f db =
     (case authorize_access_token (login_env env db) access course at_v True (auth db) of
        (Inl e, a) \<Rightarrow> (Inl e, db\<lparr>auth := a\<rparr>)
      | (Inr (s, p), a) \<Rightarrow> f s p (db\<lparr>auth := a\<rparr>))"

definition own_works :: "int \<Rightarrow> string \<Rightarrow> platform_db \<Rightarrow> work_row list" where
  "own_works sid course db =
     filter (\<lambda>w. wk_student w = sid \<and> wk_course w = course \<and> enrolled sid course db) (works db)"

definition list_owned_assignments ::
  "platform_env \<Rightarrow> string \<Rightarrow> string \<Rightarrow> bool \<Rightarrow> dtvalue option \<Rightarrow> platform_db \<Rightarrow> work_row list pres \<times> platform_db" where
  "list_owned_assignments env access course_key available_only at_v =
     authorized env access course_key at_v (\<lambda>s p db. (rbind (text_arg course_key) (\<lambda>course.
       Inr (sort_key wk_course (sort_key wk_key (sort_key wk_release
         (filter (\<lambda>w. available_only \<longrightarrow> wk_active w \<and> wk_ready w) (own_works (st_id p) course db)))))), db))"

text \<open>The course key of the query is the argument as it was given.\<close>

definition get_owned_assignment ::
  "platform_env \<Rightarrow> string \<Rightarrow> string \<Rightarrow> string \<Rightarrow> bool \<Rightarrow> dtvalue option \<Rightarrow> platform_db \<Rightarrow> work_row pres \<times> platform_db" where
  "get_owned_assignment env access course_key assignment_id require_available at_v db =
     guard (text_arg assignment_id) (\<lambda>i. authorized env access course_key at_v (\<lambda>s p db.
       (case find (\<lambda>w. wk_id w = i) (own_works (st_id p) course_key db) of
          None \<Rightarrow> Inl PlatformNotFound
        | Some w \<Rightarrow> demand (require_available \<longrightarrow> wk_active w \<and> wk_ready w) PlatformAccessDenied (Inr w), db))) db"

definition get_platform_assignment :: "string \<Rightarrow> platform_db \<Rightarrow> work_row pres" where
  "get_platform_assignment assignment_id db = rbind (text_arg assignment_id) (\<lambda>i.
     case find (\<lambda>w. wk_id w = i) (works db) of None \<Rightarrow> Inl PlatformNotFound | Some w \<Rightarrow> Inr w)"

definition list_operator_assignments :: "string \<Rightarrow> bool \<Rightarrow> bool \<Rightarrow> int \<Rightarrow> platform_db \<Rightarrow> work_row list pres" where
  "list_operator_assignments course_key ready_only active_only limit db = rbind (text_arg course_key) (\<lambda>course.
     demand (1 \<le> limit \<and> limit \<le> 10000) (Py ValueError)
     (Inr (take (nat limit) (sort_key wk_key (sort_key wk_student (sort_key wk_id
       (filter (\<lambda>w. wk_course w = course \<and> (ready_only \<longrightarrow> wk_ready w) \<and> (active_only \<longrightarrow> wk_active w)) (works db))))))))"

end
