(* ===== verification/Sub_Admission.thy ===== *)
theory Sub_Admission
  imports Sub_Works
begin

text \<open>
  How a submission is admitted (\<open>src/src/autograde/platform_state.py\<close>): the preflight that coalesces a
  repeated request or reserves one attempt of the day, the admission of a pinned submission with its
  receipt, and the older entry point that records a request before it is pinned. Each checks the
  access token first and then, inside the transaction that writes, the session again: between the two
  transactions another call may have revoked it.
\<close>

section \<open>The session, the assignment, the stored requests\<close>

definition session_stands :: "string \<Rightarrow> int \<Rightarrow> string \<Rightarrow> string \<Rightarrow> string \<Rightarrow> auth_db \<Rightarrow> bool" where
  "session_stands session sid access course now a =
     (\<exists>s\<in>set (sessions a). se_id s = session \<and> se_student s = sid \<and> se_access s = access \<and> se_course s = course \<and>
        se_revoked s = None \<and> now < se_access_expires s \<and>
        (\<exists>f\<in>set (families a). tf_id f = se_family s \<and> tf_course f = course \<and> tf_revoked f = None \<and> tf_compromised f = None) \<and>
        (\<exists>p\<in>set (students a). st_id p = sid \<and> st_active p))"

definition open_at :: "string \<Rightarrow> work_row \<Rightarrow> bool" where
  "open_at now w = (wk_active w \<and> wk_ready w \<and> (case wk_opens w of None \<Rightarrow> True | Some t \<Rightarrow> t \<le> now) \<and>
     (case wk_due w of None \<Rightarrow> True | Some t \<Rightarrow> now < t))"

definition key_of :: "key_row \<Rightarrow> int \<times> string \<times> string \<times> string" where
  "key_of k = (ik_student k, ik_endpoint k, ik_work k, ik_key k)"

definition submission_key :: "request_row \<Rightarrow> int \<times> string \<times> string \<times> string" where
  "submission_key r = (rq_student r, rq_endpoint r, rq_work r, rq_key r)"

definition stored_key :: "int \<times> string \<times> string \<times> string \<Rightarrow> platform_db \<Rightarrow> (key_row \<times> request_row) option" where
  "stored_key key db = Option.bind (find (\<lambda>k. key_of k = key) (request_keys db)) (\<lambda>k.
     map_option (Pair k) (find (\<lambda>r. rq_id r = ik_request k) (requests db)))"

definition failed :: "submission_state \<Rightarrow> bool" where
  "failed st = (st \<in> {SubRejected, SubInfraFailed, SubAssessmentFailed})"

definition in_work :: "submission_state \<Rightarrow> bool" where
  "in_work st = (st \<in> {SubReceived, SubVerifying, SubPinning, SubAccepted, SubQueued, SubRunning})"

definition oldest_first :: "request_row list \<Rightarrow> request_row list" where
  "oldest_first rs = sort_key rq_received (sort_key rq_id rs)"

definition semantic_match :: "int \<Rightarrow> string \<Rightarrow> int \<Rightarrow> int option \<Rightarrow> string \<Rightarrow> platform_db \<Rightarrow> request_row option" where
  "semantic_match sid work repository pull sha db =
     (case oldest_first (filter (\<lambda>r. rq_student r = sid \<and> rq_work r = work \<and> rq_repository r = repository \<and>
        rq_pull r = pull \<and> rq_sha r = sha \<and> \<not> failed (rq_state r)) (requests db)) of
        [] \<Rightarrow> None | r # _ \<Rightarrow> Some r)"

definition outstanding_requests :: "int \<Rightarrow> platform_db \<Rightarrow> int" where
  "outstanding_requests sid db = int (length (filter (\<lambda>r. rq_student r = sid \<and> in_work (rq_state r)) (requests db)))"

definition attempts_of :: "int \<Rightarrow> string \<Rightarrow> platform_db \<Rightarrow> int" where
  "attempts_of sid day db =
     (case find (\<lambda>c. ad_student c = sid \<and> ad_day c = day) (attempts db) of None \<Rightarrow> 0 | Some c \<Rightarrow> ad_attempts c)"

definition count_attempt :: "int \<Rightarrow> string \<Rightarrow> string \<Rightarrow> platform_db \<Rightarrow> platform_db" where
  "count_attempt sid day now db =
     (if taken (\<lambda>c. (ad_student c, ad_day c)) (sid, day) (attempts db)
      then db\<lparr>attempts := update_where (\<lambda>c. ad_student c = sid \<and> ad_day c = day)
        (\<lambda>c. c\<lparr>ad_attempts := ad_attempts c + 1, ad_updated := now\<rparr>) (attempts db)\<rparr>
      else db\<lparr>attempts := attempts db @ [\<lparr>ad_student = sid, ad_day = day, ad_attempts = 1, ad_updated = now\<rparr>]\<rparr>)"

definition reserve_attempt :: "int \<Rightarrow> int \<Rightarrow> string \<Rightarrow> string \<Rightarrow> platform_db \<Rightarrow> platform_db pres" where
  "reserve_attempt most sid day now db =
     demand (attempts_of sid day db < most) PlatformSubmissionLimitExceeded (Inr (count_attempt sid day now db))"

section \<open>Arguments\<close>

text \<open>What the three operations are given about a submission, as given and as validated.\<close>

record submission_call =
  sc_access :: string
  sc_course :: string
  sc_work :: string
  sc_key :: string
  sc_hash :: string
  sc_endpoint :: string

record submission_target =
  tg_repository :: int
  tg_sha :: string
  tg_pull :: "int option"

definition check_call :: "submission_call \<Rightarrow> submission_call pres" where
  "check_call c =
     rbind (verifier_arg (sc_access c)) (\<lambda>access. rbind (text_arg (sc_course c)) (\<lambda>course.
     rbind (text_arg (sc_work c)) (\<lambda>work. rbind (text_arg (sc_key c)) (\<lambda>key.
     rbind (verifier_arg (sc_hash c)) (\<lambda>hash. rbind (text_arg (sc_endpoint c)) (\<lambda>endpoint.
       Inr \<lparr>sc_access = access, sc_course = course, sc_work = work, sc_key = key, sc_hash = hash,
         sc_endpoint = endpoint\<rparr>))))))"

definition check_target :: "submission_target \<Rightarrow> submission_target pres" where
  "check_target t =
     rbind (positive_arg (tg_repository t)) (\<lambda>repository. rbind (oid_arg (tg_sha t)) (\<lambda>sha.
     rbind (optional_arg positive_arg (tg_pull t)) (\<lambda>pull.
       Inr \<lparr>tg_repository = repository, tg_sha = sha, tg_pull = pull\<rparr>)))"

text \<open>The preflight may leave repository and commit out, but only both.\<close>

definition check_optional_target :: "int option \<Rightarrow> string option \<Rightarrow> int option \<Rightarrow> submission_target option pres" where
  "check_optional_target repository sha pull =
     demand ((repository = None) = (sha = None)) (Py ValueError)
     (case (repository, sha) of
        (Some n, Some h) \<Rightarrow> rbind (check_target \<lparr>tg_repository = n, tg_sha = h, tg_pull = pull\<rparr>) (\<lambda>t. Inr (Some t))
      | _ \<Rightarrow> rbind (optional_arg positive_arg pull) (\<lambda>_. Inr None))"

definition call_key :: "int \<Rightarrow> submission_call \<Rightarrow> int \<times> string \<times> string \<times> string" where
  "call_key sid c = (sid, sc_endpoint c, sc_work c, sc_key c)"

definition new_key :: "int \<Rightarrow> submission_call \<Rightarrow> string \<Rightarrow> string \<Rightarrow> key_row" where
  "new_key sid c request now = \<lparr>ik_student = sid, ik_endpoint = sc_endpoint c, ik_work = sc_work c, ik_key = sc_key c,
     ik_hash = sc_hash c, ik_request = request, ik_created = now\<rparr>"

definition add_key :: "key_row \<Rightarrow> platform_db \<Rightarrow> platform_db" where
  "add_key k db = db\<lparr>request_keys := request_keys db @ [k]\<rparr>"

definition new_request ::
  "string \<Rightarrow> submission_state \<Rightarrow> int \<Rightarrow> string \<Rightarrow> submission_call \<Rightarrow> submission_target \<Rightarrow> string \<Rightarrow> request_row" where
  "new_request i st sid session c t now = \<lparr>rq_id = i, rq_student = sid, rq_session = session, rq_work = sc_work c,
     rq_endpoint = sc_endpoint c, rq_key = sc_key c, rq_hash = sc_hash c, rq_repository = tg_repository t,
     rq_pull = tg_pull t, rq_sha = tg_sha t, rq_state = st, rq_received = now, rq_updated = now, rq_code = None,
     rq_message = None\<rparr>"

section \<open>The preflight\<close>

type_synonym outcome = "request_row \<times> bool"

definition replay_body ::
  "submission_call \<Rightarrow> submission_target option \<Rightarrow> int \<Rightarrow> int \<Rightarrow> string \<Rightarrow> int \<Rightarrow> string \<Rightarrow> platform_db \<Rightarrow>
   (outcome option pres \<times> platform_db) pres" where
  "replay_body c target most_open most_daily session sid now db =
     demand (session_stands session sid (sc_access c) (sc_course c) now (auth db)) PlatformAccessDenied
     (demand (\<exists>w\<in>set (own_works sid (sc_course c) db). wk_id w = sc_work c) PlatformAccessDenied
     (case stored_key (call_key sid c) db of
        Some (k, r) \<Rightarrow> demand (ik_hash k = sc_hash c) PlatformIdempotencyConflict (Inr (Inr (Some (r, True)), db))
      | None \<Rightarrow>
          (case target of
             None \<Rightarrow> Inr (Inr None, db)
           | Some t \<Rightarrow>
               (case semantic_match sid (sc_work c) (tg_repository t) (tg_pull t) (tg_sha t) db of
                  Some r \<Rightarrow> Inr (Inr (Some (r, True)), add_key (new_key sid c (rq_id r) now) db)
                | None \<Rightarrow>
                    demand (outstanding_requests sid db < most_open) PlatformSubmissionLimitExceeded
                    (rbind (reserve_attempt most_daily sid (take 10 now) now db) (\<lambda>db1. Inr (Inr None, db1)))))))"

definition find_submission_replay ::
  "platform_env \<Rightarrow> submission_call \<Rightarrow> int option \<Rightarrow> string option \<Rightarrow> int option \<Rightarrow> int \<Rightarrow> int \<Rightarrow> dtvalue option \<Rightarrow>
   platform_db \<Rightarrow> outcome option pres \<times> platform_db" where
  "find_submission_replay env call repository sha pull most_open most_daily at_v db =
     guard (check_call call) (\<lambda>c. guard (check_optional_target repository sha pull) (\<lambda>target.
     guard (positive_arg most_open) (\<lambda>_. guard (positive_arg most_daily) (\<lambda>_.
     guard (stamp (logins env) at_v) (\<lambda>now.
     authorized env (sc_access c) (sc_course c) (Some (DtText now)) (\<lambda>s p.
       transact (replay_body c target most_open most_daily (se_id s) (st_id p) now)))))))
     db"

section \<open>Admission\<close>

text \<open>The target must be the repository of the assignment, with a pull request exactly in that mode.\<close>

definition fits_work :: "submission_target \<Rightarrow> work_row \<Rightarrow> unit pres" where
  "fits_work t w =
     demand (wk_repository w = tg_repository t) PlatformAccessDenied
     (demand ((wk_mode w = ModePullRequest) = (tg_pull t \<noteq> None)) (Py ValueError) (Inr ()))"

record pin =
  pn_request :: string
  pn_receipt :: string
  pn_source :: string
  pn_digest :: string
  pn_snapshot :: "string option"

definition check_pin :: "pin \<Rightarrow> pin pres" where
  "check_pin p =
     rbind (text_arg (pn_request p)) (\<lambda>request. rbind (text_arg (pn_receipt p)) (\<lambda>receipt.
     rbind (text_arg (pn_source p)) (\<lambda>source. rbind (digest_arg (pn_digest p)) (\<lambda>digest.
     rbind (optional_arg text_arg (pn_snapshot p)) (\<lambda>snapshot.
       Inr \<lparr>pn_request = request, pn_receipt = receipt, pn_source = source, pn_digest = digest, pn_snapshot = snapshot\<rparr>)))))"

definition new_receipt :: "pin \<Rightarrow> request_row \<Rightarrow> work_row \<Rightarrow> string \<Rightarrow> submission_receipt" where
  "new_receipt p r w now = \<lparr>rc_id = pn_receipt p, rc_request = rq_id r, rc_student = rq_student r, rc_work = rq_work r,
     rc_course = wk_course w, rc_assignment = wk_key w, rc_release = wk_release w, rc_repository = rq_repository r,
     rc_sha = rq_sha r, rc_source = pn_source p, rc_source_digest = pn_digest p, rc_assessment = wk_assessment w,
     rc_data = wk_data w, rc_assessment_digest = wk_assessment_digest w, rc_dataset_digest = wk_dataset_digest w,
     rc_image = wk_image w, rc_rubric = wk_rubric w, rc_max = wk_max w, rc_snapshot = pn_snapshot p,
     rc_received = rq_received r, rc_accepted = now\<rparr>"

definition insert_request :: "request_row \<Rightarrow> key_row \<Rightarrow> platform_db \<Rightarrow> platform_db pres" where
  "insert_request r k db =
     demand (\<not> taken rq_id (rq_id r) (requests db) \<and> \<not> taken submission_key (submission_key r) (requests db) \<and>
       \<not> taken key_of (key_of k) (request_keys db)) PlatformConflict
     (Inr (add_key k (db\<lparr>requests := requests db @ [r]\<rparr>)))"

definition insert_receipt :: "platform_env \<Rightarrow> submission_receipt \<Rightarrow> platform_db \<Rightarrow> platform_db pres" where
  "insert_receipt env c db =
     demand (\<not> erased env (rc_course c) \<and> \<not> taken rc_id (rc_id c) (receipts db) \<and>
       \<not> taken rc_request (rc_request c) (receipts db)) PlatformConflict
     (Inr (db\<lparr>receipts := receipts db @ [c]\<rparr>))"

definition admit_attempt :: "string option \<Rightarrow> int \<Rightarrow> int \<Rightarrow> string \<Rightarrow> platform_db \<Rightarrow> platform_db pres" where
  "admit_attempt reserved most sid now db =
     (case reserved of
        Some day \<Rightarrow> demand (0 < attempts_of sid day db) PlatformConflict (Inr db)
      | None \<Rightarrow> reserve_attempt most sid (take 10 now) now db)"

definition admitted_work :: "submission_call \<Rightarrow> submission_target \<Rightarrow> int \<Rightarrow> string \<Rightarrow> platform_db \<Rightarrow> work_row pres" where
  "admitted_work c t sid now db =
     (case find (\<lambda>w. wk_id w = sc_work c \<and> open_at now w) (own_works sid (sc_course c) db) of
        None \<Rightarrow> Inl PlatformAccessDenied
      | Some w \<Rightarrow> rbind (fits_work t w) (\<lambda>_. Inr w))"

definition admit_body ::
  "platform_env \<Rightarrow> submission_call \<Rightarrow> submission_target \<Rightarrow> pin \<Rightarrow> int \<Rightarrow> int \<Rightarrow> string option \<Rightarrow> string \<Rightarrow> int \<Rightarrow>
   string \<Rightarrow> platform_db \<Rightarrow> (outcome pres \<times> platform_db) pres" where
  "admit_body env c t p most_open most_daily reserved session sid now db =
     demand (session_stands session sid (sc_access c) (sc_course c) now (auth db)) PlatformAccessDenied
     (case stored_key (call_key sid c) db of
        Some (k, r) \<Rightarrow> demand (ik_hash k = sc_hash c) PlatformIdempotencyConflict (Inr (Inr (r, True), db))
      | None \<Rightarrow> rbind (admitted_work c t sid now db) (\<lambda>w.
          (case semantic_match sid (sc_work c) (tg_repository t) (tg_pull t) (tg_sha t) db of
             Some r \<Rightarrow> Inr (Inr (r, True), add_key (new_key sid c (rq_id r) now) db)
           | None \<Rightarrow>
               demand (outstanding_requests sid db < most_open) PlatformSubmissionLimitExceeded
               (rbind (admit_attempt reserved most_daily sid now db) (\<lambda>db1.
                let r = new_request (pn_request p) SubAccepted sid session c t now in
                rbind (insert_request r (new_key sid c (rq_id r) now) db1) (\<lambda>db2.
                rbind (insert_receipt env (new_receipt p r w now) db2) (\<lambda>db3.
                  Inr (Inr (r, False), db3))))))))"

definition create_accepted_submission ::
  "platform_env \<Rightarrow> submission_call \<Rightarrow> submission_target \<Rightarrow> pin \<Rightarrow> int \<Rightarrow> int \<Rightarrow> string option \<Rightarrow> dtvalue option \<Rightarrow>
   platform_db \<Rightarrow> outcome pres \<times> platform_db" where
  "create_accepted_submission env call target p most_open most_daily reserved at_v db =
     guard (check_pin p) (\<lambda>p. guard (check_call call) (\<lambda>c. guard (check_target target) (\<lambda>t.
     guard (positive_arg most_open) (\<lambda>_. guard (positive_arg most_daily) (\<lambda>_.
     guard (optional_arg day_arg reserved) (\<lambda>day. guard (stamp (logins env) at_v) (\<lambda>now.
     authorized env (sc_access c) (sc_course c) (Some (DtText now)) (\<lambda>s st.
       transact (admit_body env c t p most_open most_daily day (se_id s) (st_id st) now)))))))))
     db"

section \<open>Requests before they are pinned\<close>

text \<open>This entry point looks the idempotency key up among the requests themselves.\<close>

definition request_body ::
  "submission_call \<Rightarrow> submission_target \<Rightarrow> string \<Rightarrow> string \<Rightarrow> int \<Rightarrow> string \<Rightarrow> platform_db \<Rightarrow>
   (outcome pres \<times> platform_db) pres" where
  "request_body c t i session sid now db =
     demand (session_stands session sid (sc_access c) (sc_course c) now (auth db)) PlatformAccessDenied
     (case find (\<lambda>r. submission_key r = call_key sid c) (requests db) of
        Some r \<Rightarrow> demand (rq_hash r = sc_hash c) PlatformIdempotencyConflict (Inr (Inr (r, True), db))
      | None \<Rightarrow> rbind (admitted_work c t sid now db) (\<lambda>w.
          let r = new_request i SubReceived sid session c t now in
          rbind (insert_request r (new_key sid c i now) db) (\<lambda>db1. Inr (Inr (r, False), db1))))"

definition create_submission_request ::
  "platform_env \<Rightarrow> submission_call \<Rightarrow> submission_target \<Rightarrow> string \<Rightarrow> dtvalue option \<Rightarrow> platform_db \<Rightarrow>
   outcome pres \<times> platform_db" where
  "create_submission_request env call target submission_id at_v db =
     guard (text_arg submission_id) (\<lambda>i. guard (check_call call) (\<lambda>c. guard (check_target target) (\<lambda>t.
     guard (stamp (logins env) at_v) (\<lambda>now.
     authorized env (sc_access c) (sc_course c) (Some (DtText now)) (\<lambda>s p.
       transact (request_body c t i (se_id s) (st_id p) now))))))
     db"

end
