(* ===== verification/Sub_Lifecycle.thy ===== *)
theory Sub_Lifecycle
  imports Sub_Admission
begin

text \<open>
  The life of an admitted submission (\<open>src/src/autograde/platform_state.py\<close>): the transitions of the
  workers, the receipt of a submission that was recorded before it was pinned, the graded result and
  its publication, and what students, workers and operators read.
\<close>

section \<open>Transitions\<close>

text \<open>The transition table. Acceptance, grading and publication have operations of their own.\<close>

fun allowed_submission :: "submission_state \<Rightarrow> submission_state list" where
  "allowed_submission SubReceived = [SubVerifying]"
| "allowed_submission SubVerifying = [SubPinning, SubRejected, SubInfraFailed]"
| "allowed_submission SubPinning = [SubRejected, SubInfraFailed]"
| "allowed_submission SubAccepted = [SubQueued]"
| "allowed_submission SubQueued = [SubRunning, SubInfraFailed]"
| "allowed_submission SubRunning = [SubInfraFailed, SubAssessmentFailed]"
| "allowed_submission _ = []"

definition set_request :: "string \<Rightarrow> (request_row \<Rightarrow> request_row) \<Rightarrow> platform_db \<Rightarrow> platform_db" where
  "set_request i f db = db\<lparr>requests := update_where (\<lambda>r. rq_id r = i) f (requests db)\<rparr>"

definition move_request :: "submission_state \<Rightarrow> string \<Rightarrow> string option \<Rightarrow> string option \<Rightarrow> request_row \<Rightarrow> request_row" where
  "move_request st now code message r = r\<lparr>rq_state := st, rq_updated := now, rq_code := code, rq_message := message\<rparr>"

definition advance_request :: "submission_state \<Rightarrow> string \<Rightarrow> request_row \<Rightarrow> request_row" where
  "advance_request st now r = r\<lparr>rq_state := st, rq_updated := now\<rparr>"

definition failure_details :: "submission_state \<Rightarrow> string option \<Rightarrow> string option \<Rightarrow> (string option \<times> string option) pres" where
  "failure_details st code message =
     (if failed st
      then rbind (text_arg (case code of None \<Rightarrow> [] | Some c \<Rightarrow> c)) (\<lambda>c.
           rbind (text_arg (case message of None \<Rightarrow> [] | Some m \<Rightarrow> m)) (\<lambda>m. Inr (Some c, Some m)))
      else demand (code = None \<and> message = None) (Py ValueError) (Inr (None, None)))"

definition transition_body ::
  "string \<Rightarrow> submission_state \<Rightarrow> string option \<Rightarrow> string option \<Rightarrow> string \<Rightarrow> platform_db \<Rightarrow> (request_row pres \<times> platform_db) pres" where
  "transition_body i st code message now db =
     (case find (\<lambda>r. rq_id r = i) (requests db) of
        None \<Rightarrow> Inl PlatformNotFound
      | Some r \<Rightarrow>
          demand (st \<in> set (allowed_submission (rq_state r))) PlatformInvalidTransition
          (rbind (failure_details st code message) (\<lambda>(c, m).
            Inr (Inr (move_request st now c m r), set_request i (move_request st now c m) db))))"

definition transition_submission ::
  "platform_env \<Rightarrow> string \<Rightarrow> string \<Rightarrow> string option \<Rightarrow> string option \<Rightarrow> dtvalue option \<Rightarrow> platform_db \<Rightarrow>
   request_row pres \<times> platform_db" where
  "transition_submission env submission_id to_state failure_code failure_message at_v db =
     guard (text_arg submission_id) (\<lambda>i. guard (submission_state_arg to_state) (\<lambda>st.
     guard (demand (st \<notin> {SubAccepted, SubGraded, SubPublished}) PlatformInvalidTransition (Inr ())) (\<lambda>_.
     guard (stamp (logins env) at_v) (\<lambda>now. transact (transition_body i st failure_code failure_message now))))) db"

section \<open>Acceptance\<close>

definition acceptable :: "string \<Rightarrow> request_row \<Rightarrow> platform_db \<Rightarrow> work_row option" where
  "acceptable now r db = find (\<lambda>w. wk_id w = rq_work r \<and> wk_student w = rq_student r \<and> wk_active w \<and> wk_ready w \<and>
     enrolled (wk_student w) (wk_course w) db \<and> (case wk_due w of None \<Rightarrow> True | Some t \<Rightarrow> now < t)) (works db)"

definition accept_body :: "platform_env \<Rightarrow> pin \<Rightarrow> string \<Rightarrow> string \<Rightarrow> platform_db \<Rightarrow>
    ((request_row \<times> submission_receipt) pres \<times> platform_db) pres" where
  "accept_body env p sha now db =
     (case find (\<lambda>r. rq_id r = pn_request p) (requests db) of
        None \<Rightarrow> Inl PlatformNotFound
      | Some r \<Rightarrow>
          demand (rq_state r = SubPinning) PlatformInvalidTransition
          (demand (rq_sha r = sha) PlatformConflict
          (case acceptable now r db of
             None \<Rightarrow> Inl PlatformAccessDenied
           | Some w \<Rightarrow> rbind (insert_receipt env (new_receipt p r w now) db) (\<lambda>db1.
               Inr (Inr (advance_request SubAccepted now r, new_receipt p r w now),
                 set_request (rq_id r) (advance_request SubAccepted now) db1)))))"

definition accept_submission ::
  "platform_env \<Rightarrow> pin \<Rightarrow> string \<Rightarrow> dtvalue option \<Rightarrow> platform_db \<Rightarrow> (request_row \<times> submission_receipt) pres \<times> platform_db" where
  "accept_submission env p commit_sha at_v db =
     guard (check_pin p) (\<lambda>p. guard (oid_arg commit_sha) (\<lambda>sha. guard (stamp (logins env) at_v) (\<lambda>now.
     transact (accept_body env p sha now)))) db"

section \<open>Results\<close>

definition new_result ::
  "string \<Rightarrow> request_row \<Rightarrow> submission_receipt \<Rightarrow> rat \<Rightarrow> rat \<Rightarrow> string \<Rightarrow> string \<Rightarrow> string \<Rightarrow> result_row" where
  "new_result i r c score most rubric diagnostics now = \<lparr>rs_id = i, rs_request = rq_id r, rs_student = rq_student r,
     rs_sha = rc_sha c, rs_score = score, rs_max = most, rs_rubric = rubric, rs_diagnostics = diagnostics,
     rs_created = now, rs_published = None\<rparr>"

definition insert_result :: "result_row \<Rightarrow> platform_db \<Rightarrow> platform_db pres" where
  "insert_result s db =
     demand (\<not> taken rs_id (rs_id s) (results db) \<and> \<not> taken rs_request (rs_request s) (results db)) PlatformConflict
     (Inr (db\<lparr>results := results db @ [s]\<rparr>))"

definition grade_body ::
  "string \<Rightarrow> string \<Rightarrow> rat \<Rightarrow> rat \<Rightarrow> string \<Rightarrow> string \<Rightarrow> string \<Rightarrow> platform_db \<Rightarrow>
   ((request_row \<times> result_row) pres \<times> platform_db) pres" where
  "grade_body i result score most rubric diagnostics now db =
     (case find (\<lambda>r. rq_id r = i) (requests db) of
        None \<Rightarrow> Inl PlatformNotFound
      | Some r \<Rightarrow>
          demand (rq_state r = SubRunning) PlatformInvalidTransition
          (case find (\<lambda>c. rc_request c = i) (receipts db) of
             None \<Rightarrow> Inl PlatformStateError
           | Some c \<Rightarrow>
               demand (most = rc_max c) PlatformConflict
               (let s = new_result result r c score most rubric diagnostics now in
                rbind (insert_result s db) (\<lambda>db1.
                  Inr (Inr (advance_request SubGraded now r, s), set_request i (advance_request SubGraded now) db1)))))"

definition record_graded_result ::
  "platform_env \<Rightarrow> string \<Rightarrow> string \<Rightarrow> pynum \<Rightarrow> pynum \<Rightarrow> (string \<times> json) list option \<Rightarrow>
   (string \<times> json) list list option \<Rightarrow> dtvalue option \<Rightarrow> platform_db \<Rightarrow> (request_row \<times> result_row) pres \<times> platform_db" where
  "record_graded_result env submission_id result_id score max_score rubric diagnostics at_v db =
     guard (text_arg submission_id) (\<lambda>i. guard (text_arg result_id) (\<lambda>result.
     guard (score_arg score) (\<lambda>x. guard (score_arg max_score) (\<lambda>most.
     guard (demand (x \<le> most) (Py ValueError) (Inr ())) (\<lambda>_.
     guard (rubric_arg rubric) (\<lambda>rubric_json. guard (diagnostics_arg diagnostics) (\<lambda>diagnostics_json.
     guard (stamp (logins env) at_v) (\<lambda>now.
     transact (grade_body i result x most rubric_json diagnostics_json now)))))))))
     db"

definition publish_row :: "string \<Rightarrow> result_row \<Rightarrow> result_row" where
  "publish_row now s = s\<lparr>rs_published := Some now\<rparr>"

definition publish_body :: "string \<Rightarrow> string \<Rightarrow> platform_db \<Rightarrow> ((request_row \<times> result_row) pres \<times> platform_db) pres" where
  "publish_body i now db =
     (case find (\<lambda>r. rq_id r = i) (requests db) of
        None \<Rightarrow> Inl PlatformNotFound
      | Some r \<Rightarrow>
          demand (rq_state r = SubGraded) PlatformInvalidTransition
          (case find (\<lambda>s. rs_request s = i) (results db) of
             None \<Rightarrow> Inl PlatformStateError
           | Some s \<Rightarrow>
               Inr (Inr (advance_request SubPublished now r, publish_row now s),
                 set_request i (advance_request SubPublished now)
                   (db\<lparr>results := update_where (\<lambda>s. rs_request s = i) (publish_row now) (results db)\<rparr>))))"

definition publish_result ::
  "platform_env \<Rightarrow> string \<Rightarrow> dtvalue option \<Rightarrow> platform_db \<Rightarrow> (request_row \<times> result_row) pres \<times> platform_db" where
  "publish_result env submission_id at_v db =
     guard (text_arg submission_id) (\<lambda>i. guard (stamp (logins env) at_v) (\<lambda>now. transact (publish_body i now))) db"

section \<open>What the student reads\<close>

text \<open>The requests of the student in the course, joined over the assignment and its active enrollment.\<close>

definition own_requests :: "int \<Rightarrow> string \<Rightarrow> platform_db \<Rightarrow> request_row list" where
  "own_requests sid course db = filter (\<lambda>r. rq_student r = sid \<and>
     (\<exists>w\<in>set (works db). wk_id w = rq_work r \<and> wk_course w = course \<and> enrolled (wk_student w) course db)) (requests db)"

definition owned_request :: "int \<Rightarrow> string \<Rightarrow> string \<Rightarrow> platform_db \<Rightarrow> request_row pres" where
  "owned_request sid submission_id course_key db =
     rbind (text_arg submission_id) (\<lambda>i. rbind (text_arg course_key) (\<lambda>course.
       case find (\<lambda>r. rq_id r = i) (own_requests sid course db) of None \<Rightarrow> Inl PlatformNotFound | Some r \<Rightarrow> Inr r))"

definition get_owned_submission ::
  "platform_env \<Rightarrow> string \<Rightarrow> string \<Rightarrow> string \<Rightarrow> dtvalue option \<Rightarrow> platform_db \<Rightarrow> request_row pres \<times> platform_db" where
  "get_owned_submission env access course_key submission_id at_v =
     authorized env access course_key at_v (\<lambda>s p db. (owned_request (st_id p) submission_id course_key db, db))"

definition get_latest_owned_submission ::
  "platform_env \<Rightarrow> string \<Rightarrow> string \<Rightarrow> string \<Rightarrow> dtvalue option \<Rightarrow> platform_db \<Rightarrow>
   request_row option pres \<times> platform_db" where
  "get_latest_owned_submission env access course_key assignment_id at_v =
     authorized env access course_key at_v (\<lambda>s p db.
       (rbind (text_arg assignment_id) (\<lambda>work. rbind (text_arg course_key) (\<lambda>course.
          case rev (oldest_first (filter (\<lambda>r. rq_work r = work) (own_requests (st_id p) course db))) of
            [] \<Rightarrow> Inr None | r # _ \<Rightarrow> Inr (Some r))), db))"

definition get_owned_receipt ::
  "platform_env \<Rightarrow> string \<Rightarrow> string \<Rightarrow> string \<Rightarrow> dtvalue option \<Rightarrow> platform_db \<Rightarrow> submission_receipt pres \<times> platform_db" where
  "get_owned_receipt env access course_key submission_id at_v =
     authorized env access course_key at_v (\<lambda>s p db.
       (rbind (owned_request (st_id p) submission_id course_key db) (\<lambda>r.
          case find (\<lambda>c. rc_request c = rq_id r) (receipts db) of None \<Rightarrow> Inl PlatformNotFound | Some c \<Rightarrow> Inr c), db))"

definition get_owned_result ::
  "platform_env \<Rightarrow> string \<Rightarrow> string \<Rightarrow> string \<Rightarrow> dtvalue option \<Rightarrow> platform_db \<Rightarrow> result_row pres \<times> platform_db" where
  "get_owned_result env access course_key submission_id at_v =
     authorized env access course_key at_v (\<lambda>s p db.
       (rbind (owned_request (st_id p) submission_id course_key db) (\<lambda>r.
          case find (\<lambda>x. rs_request x = rq_id r \<and> rs_student x = rq_student r) (results db) of
            None \<Rightarrow> Inl PlatformNotFound
          | Some x \<Rightarrow> demand (rs_published x \<noteq> None) PlatformNotFound (Inr x)), db))"

section \<open>What workers and operators read\<close>

definition get_submission :: "string \<Rightarrow> platform_db \<Rightarrow> request_row pres" where
  "get_submission submission_id db = rbind (text_arg submission_id) (\<lambda>i.
     case find (\<lambda>r. rq_id r = i) (requests db) of None \<Rightarrow> Inl PlatformNotFound | Some r \<Rightarrow> Inr r)"

definition get_receipt :: "string \<Rightarrow> platform_db \<Rightarrow> submission_receipt pres" where
  "get_receipt submission_id db = rbind (text_arg submission_id) (\<lambda>i.
     case find (\<lambda>c. rc_request c = i) (receipts db) of None \<Rightarrow> Inl PlatformNotFound | Some c \<Rightarrow> Inr c)"

definition course_requests :: "string \<Rightarrow> (work_row \<Rightarrow> request_row \<Rightarrow> bool) \<Rightarrow> platform_db \<Rightarrow> request_row list" where
  "course_requests course P db = filter (\<lambda>r. \<exists>w\<in>set (works db). wk_id w = rq_work r \<and> wk_student w = rq_student r \<and>
     wk_course w = course \<and> P w r) (requests db)"

definition list_page :: "int \<Rightarrow> 'a list \<Rightarrow> 'a list pres" where
  "list_page limit xs = demand (1 \<le> limit \<and> limit \<le> 10000) (Py ValueError) (Inr (take (nat limit) xs))"

definition list_submissions_for_processing :: "string \<Rightarrow> string list \<Rightarrow> int \<Rightarrow> platform_db \<Rightarrow> request_row list pres" where
  "list_submissions_for_processing course_key states limit db =
     demand (1 \<le> limit \<and> limit \<le> 10000) (Py ValueError)
     (rbind (text_arg course_key) (\<lambda>course. rbind (rmapM submission_state_arg states) (\<lambda>sts.
       list_page limit (oldest_first (course_requests course (\<lambda>w r. rq_state r \<in> set sts) db)))))"

definition publishable :: "string \<Rightarrow> work_row \<Rightarrow> request_row \<Rightarrow> bool" where
  "publishable now w r = (rq_state r = SubGraded \<and> (wk_policy w \<in> {PolicyImmediate, PolicyScoreOnly} \<or>
     (wk_policy w = PolicyAfterDeadline \<and> (case wk_due w of None \<Rightarrow> False | Some t \<Rightarrow> t \<le> now))))"

definition list_publishable_graded_submissions ::
  "platform_env \<Rightarrow> string \<Rightarrow> int \<Rightarrow> dtvalue option \<Rightarrow> platform_db \<Rightarrow> request_row list pres" where
  "list_publishable_graded_submissions env course_key limit at_v db =
     demand (1 \<le> limit \<and> limit \<le> 10000) (Py ValueError)
     (rbind (text_arg course_key) (\<lambda>course. rbind (stamp (logins env) at_v) (\<lambda>now.
       list_page limit (oldest_first (course_requests course (publishable now) db)))))"

text \<open>The operator's projection: request, student and assignment, with receipt and result where there
  are.\<close>

record operator_view =
  ov_request :: string
  ov_student_key :: string
  ov_login :: string
  ov_course :: string
  ov_work :: string
  ov_assignment :: string
  ov_release :: string
  ov_owner :: string
  ov_name :: string
  ov_repository :: int
  ov_sha :: string
  ov_pull :: "int option"
  ov_state :: submission_state
  ov_received :: string
  ov_updated :: string
  ov_code :: "string option"
  ov_receipt :: "(string \<times> string \<times> string \<times> string) option"
  ov_result :: "(string \<times> rat \<times> rat \<times> string \<times> string option) option"

definition operator_row :: "platform_db \<Rightarrow> request_row \<Rightarrow> operator_view option" where
  "operator_row db r =
     Option.bind (find (\<lambda>p. st_id p = rq_student r) (students (auth db))) (\<lambda>p.
     map_option (\<lambda>w. \<lparr>ov_request = rq_id r, ov_student_key = st_key p, ov_login = st_login p, ov_course = wk_course w,
         ov_work = rq_work r, ov_assignment = wk_key w, ov_release = wk_release w, ov_owner = wk_owner w,
         ov_name = wk_name w, ov_repository = rq_repository r, ov_sha = rq_sha r, ov_pull = rq_pull r,
         ov_state = rq_state r, ov_received = rq_received r, ov_updated = rq_updated r, ov_code = rq_code r,
         ov_receipt = map_option (\<lambda>c. (rc_id c, rc_sha c, rc_source_digest c, rc_accepted c))
           (find (\<lambda>c. rc_request c = rq_id r) (receipts db)),
         ov_result = map_option (\<lambda>x. (rs_id x, rs_score x, rs_max x, rs_created x, rs_published x))
           (find (\<lambda>x. rs_request x = rq_id r) (results db))\<rparr>)
       (find (\<lambda>w. wk_id w = rq_work r) (works db)))"

definition wanted :: "('a \<Rightarrow> bool) option \<Rightarrow> 'a \<Rightarrow> bool" where
  "wanted f x = (case f of None \<Rightarrow> True | Some P \<Rightarrow> P x)"

definition list_operator_submissions ::
  "string \<Rightarrow> string option \<Rightarrow> string option \<Rightarrow> string option \<Rightarrow> int \<Rightarrow> platform_db \<Rightarrow> operator_view list pres" where
  "list_operator_submissions course_key student_key assignment_key state limit db =
     rbind (text_arg course_key) (\<lambda>course.
     demand (1 \<le> limit \<and> limit \<le> 500) (Py ValueError)
     (rbind (optional_arg text_arg student_key) (\<lambda>student. rbind (optional_arg text_arg assignment_key) (\<lambda>key.
     rbind (optional_arg submission_state_arg state) (\<lambda>st.
       Inr (take (nat limit) (filter (\<lambda>v. ov_course v = course \<and>
          wanted (map_option (\<lambda>k s. s = k) student) (ov_student_key v) \<and>
          wanted (map_option (\<lambda>k s. s = k) key) (ov_assignment v) \<and>
          wanted (map_option (\<lambda>k s. s = k) st) (ov_state v))
         (List.map_filter (operator_row db) (rev (oldest_first (requests db)))))))))))"

definition get_operator_submission :: "string \<Rightarrow> string \<Rightarrow> platform_db \<Rightarrow> operator_view pres" where
  "get_operator_submission submission_id course_key db =
     rbind (text_arg submission_id) (\<lambda>i. rbind (text_arg course_key) (\<lambda>course.
       case find (\<lambda>v. ov_request v = i \<and> ov_course v = course) (List.map_filter (operator_row db) (requests db)) of
         None \<Rightarrow> Inl PlatformNotFound | Some v \<Rightarrow> Inr v))"

end
