(* ===== verification/Sub_Ledger.thy ===== *)
theory Sub_Ledger
  imports Sub_Lifecycle
begin

text \<open>
  What every reachable set of submission rows satisfies, and what later rows keep of earlier ones.
  A request belongs to its student's assignment and to a session of that student in the course; a
  receipt pins exactly the inputs of the assignment and the commit that was asked for; a result
  rests on the receipt; and the state of a request says which of these rows there are.
\<close>

section \<open>Rows that change over time\<close>

text \<open>A table whose rows are never deleted and change only along a preorder.\<close>

definition rows_later :: "('r \<Rightarrow> 'r \<Rightarrow> bool) \<Rightarrow> 'r list \<Rightarrow> 'r list \<Rightarrow> bool" where
  "rows_later E xs ys = (\<forall>x\<in>set xs. \<exists>y\<in>set ys. E x y)"

locale row_history =
  fixes evolves :: "'r \<Rightarrow> 'r \<Rightarrow> bool"
  assumes same: "evolves r r"
    and further: "evolves r s \<Longrightarrow> evolves s t \<Longrightarrow> evolves r t"
begin

lemma later_same: "rows_later evolves xs xs"
  using same by (auto simp: rows_later_def)

lemma later_trans: "rows_later evolves xs ys \<Longrightarrow> rows_later evolves ys zs \<Longrightarrow> rows_later evolves xs zs"
  unfolding rows_later_def using further by meson

lemma later_append: "rows_later evolves xs (xs @ ys)"
  using same by (auto simp: rows_later_def)

lemma later_update:
  assumes "\<And>x. x \<in> set xs \<Longrightarrow> P x \<Longrightarrow> evolves x (f x)"
  shows "rows_later evolves xs (update_where P f xs)"
  unfolding rows_later_def set_update_where
proof
  fix x assume x: "x \<in> set xs"
  then have "evolves x (if P x then f x else x)" using assms same by simp
  then show "\<exists>y\<in>(\<lambda>r. if P r then f r else r) ` set xs. evolves x y" using x by blast
qed

end

definition work_same :: "work_row \<Rightarrow> work_row \<Rightarrow> bool" where
  "work_same w w' = (same_release w w' \<and> wk_created w' = wk_created w)"

text \<open>The moves of a request: the transition table and the three operations that write a row with
  the move.\<close>

definition submission_moves :: "submission_state \<Rightarrow> submission_state \<Rightarrow> bool" where
  "submission_moves a b = (b \<in> set (allowed_submission a) \<or>
     (a, b) \<in> {(SubPinning, SubAccepted), (SubRunning, SubGraded), (SubGraded, SubPublished)})"

definition request_same :: "request_row \<Rightarrow> request_row \<Rightarrow> bool" where
  "request_same r r' = (r' = r\<lparr>rq_state := rq_state r', rq_updated := rq_updated r', rq_code := rq_code r',
     rq_message := rq_message r'\<rparr>)"

definition request_later :: "request_row \<Rightarrow> request_row \<Rightarrow> bool" where
  "request_later r r' = (request_same r r' \<and> (r' = r \<or> submission_moves\<^sup>+\<^sup>+ (rq_state r) (rq_state r')))"

definition result_later :: "result_row \<Rightarrow> result_row \<Rightarrow> bool" where
  "result_later x x' = (x' = x \<or> (rs_published x = None \<and> (\<exists>t. x' = publish_row t x)))"

definition attempt_later :: "attempt_row \<Rightarrow> attempt_row \<Rightarrow> bool" where
  "attempt_later c c' = (ad_student c' = ad_student c \<and> ad_day c' = ad_day c \<and> ad_attempts c \<le> ad_attempts c')"

lemma request_same_fields:
  assumes "request_same r r'"
  shows "rq_id r' = rq_id r" "rq_student r' = rq_student r" "rq_session r' = rq_session r" "rq_work r' = rq_work r"
    "rq_endpoint r' = rq_endpoint r" "rq_key r' = rq_key r" "rq_hash r' = rq_hash r" "rq_repository r' = rq_repository r"
    "rq_pull r' = rq_pull r" "rq_sha r' = rq_sha r" "rq_received r' = rq_received r"
proof -
  have "\<exists>a b c d. r' = r\<lparr>rq_state := a, rq_updated := b, rq_code := c, rq_message := d\<rparr>"
    using assms unfolding request_same_def by blast
  then show "rq_id r' = rq_id r" "rq_student r' = rq_student r" "rq_session r' = rq_session r" "rq_work r' = rq_work r"
    "rq_endpoint r' = rq_endpoint r" "rq_key r' = rq_key r" "rq_hash r' = rq_hash r" "rq_repository r' = rq_repository r"
    "rq_pull r' = rq_pull r" "rq_sha r' = rq_sha r" "rq_received r' = rq_received r"
    by auto
qed

lemma work_same_fields:
  assumes "same_release w w'"
  shows "wk_id w' = wk_id w" "wk_student w' = wk_student w" "wk_course w' = wk_course w" "wk_key w' = wk_key w"
    "wk_release w' = wk_release w" "wk_repository w' = wk_repository w" "wk_mode w' = wk_mode w"
    "wk_policy w' = wk_policy w" "wk_assessment w' = wk_assessment w" "wk_data w' = wk_data w"
    "wk_assessment_digest w' = wk_assessment_digest w" "wk_dataset_digest w' = wk_dataset_digest w"
    "wk_image w' = wk_image w" "wk_rubric w' = wk_rubric w" "wk_max w' = wk_max w" "wk_opens w' = wk_opens w"
    "wk_due w' = wk_due w" "wk_owner w' = wk_owner w" "wk_name w' = wk_name w" "wk_base w' = wk_base w"
proof -
  have "\<exists>a b c d. w' = w\<lparr>wk_active := a, wk_ready := b, wk_created := c, wk_updated := d\<rparr>"
    using assms unfolding same_release_def by blast
  then show "wk_id w' = wk_id w" "wk_student w' = wk_student w" "wk_course w' = wk_course w" "wk_key w' = wk_key w"
    "wk_release w' = wk_release w" "wk_repository w' = wk_repository w" "wk_mode w' = wk_mode w"
    "wk_policy w' = wk_policy w" "wk_assessment w' = wk_assessment w" "wk_data w' = wk_data w"
    "wk_assessment_digest w' = wk_assessment_digest w" "wk_dataset_digest w' = wk_dataset_digest w"
    "wk_image w' = wk_image w" "wk_rubric w' = wk_rubric w" "wk_max w' = wk_max w" "wk_opens w' = wk_opens w"
    "wk_due w' = wk_due w" "wk_owner w' = wk_owner w" "wk_name w' = wk_name w" "wk_base w' = wk_base w"
    by auto
qed

lemma request_same_trans: "request_same a b \<Longrightarrow> request_same b c \<Longrightarrow> request_same a c"
  by (cases a; cases b; cases c) (simp add: request_same_def)

lemma work_same_trans: "work_same a b \<Longrightarrow> work_same b c \<Longrightarrow> work_same a c"
  by (cases a; cases b; cases c) (simp add: work_same_def same_release_def)

interpretation work_history: row_history work_same
proof
  show "work_same r r" for r by (simp add: work_same_def same_release_def)
qed (rule work_same_trans)

interpretation request_history: row_history request_later
proof
  show "request_later r r" for r by (simp add: request_later_def request_same_def)
  show "request_later r s \<Longrightarrow> request_later s t \<Longrightarrow> request_later r t" for r s t
    unfolding request_later_def using request_same_trans tranclp_trans by metis
qed

interpretation result_history: row_history result_later
  by unfold_locales (auto simp: result_later_def publish_row_def)

interpretation attempt_history: row_history attempt_later
  by unfold_locales (auto simp: attempt_later_def)

section \<open>The invariant\<close>

definition work_shape :: "work_row \<Rightarrow> bool" where
  "work_shape w = (0 \<le> wk_max w \<and> (wk_data w = None \<longleftrightarrow> wk_dataset_digest w = []) \<and>
     (wk_mode w = ModePullRequest \<longrightarrow> wk_base w \<noteq> None) \<and> window_ok (wk_policy w) (wk_opens w) (wk_due w))"

definition work_ok :: "enrollment_row list \<Rightarrow> work_row \<Rightarrow> bool" where
  "work_ok es w = ((wk_student w, wk_course w) \<in> enrollment_key ` set es \<and> work_shape w)"

text \<open>A request, its assignment and its session.\<close>

definition belongs :: "request_row \<Rightarrow> work_row \<Rightarrow> bool" where
  "belongs r w = (wk_id w = rq_work r \<and> wk_student w = rq_student r \<and> wk_repository w = rq_repository r \<and>
     (wk_mode w = ModePullRequest \<longleftrightarrow> rq_pull r \<noteq> None))"

definition made_in :: "request_row \<Rightarrow> work_row \<Rightarrow> session_row \<Rightarrow> bool" where
  "made_in r w s = (se_id s = rq_session r \<and> se_student s = rq_student r \<and> se_course s = wk_course w)"

definition own_key :: "request_row \<Rightarrow> key_row \<Rightarrow> bool" where
  "own_key r k = (key_of k = submission_key r \<and> ik_hash k = rq_hash r \<and> ik_request k = rq_id r)"

definition request_ok :: "work_row list \<Rightarrow> session_row list \<Rightarrow> key_row list \<Rightarrow> request_row \<Rightarrow> bool" where
  "request_ok ws ss ks r = ((\<exists>w\<in>set ws. belongs r w \<and> (\<exists>s\<in>set ss. made_in r w s)) \<and>
     (\<exists>k\<in>set ks. own_key r k) \<and> (rq_code r \<noteq> None \<longleftrightarrow> failed (rq_state r)) \<and>
     (rq_message r \<noteq> None \<longleftrightarrow> failed (rq_state r)))"

definition key_ok :: "request_row list \<Rightarrow> key_row \<Rightarrow> bool" where
  "key_ok rs k = (\<exists>r\<in>set rs. rq_id r = ik_request k \<and> rq_student r = ik_student k \<and> rq_work r = ik_work k)"

text \<open>A receipt pins the inputs of the assignment for the request's commit.\<close>

definition receipt_pins :: "submission_receipt \<Rightarrow> request_row \<Rightarrow> work_row \<Rightarrow> bool" where
  "receipt_pins c r w = (rc_request c = rq_id r \<and> rc_student c = rq_student r \<and> rc_work c = rq_work r \<and>
     rc_repository c = rq_repository r \<and> rc_sha c = rq_sha r \<and> rc_received c = rq_received r \<and>
     wk_id w = rq_work r \<and> rc_course c = wk_course w \<and> rc_assignment c = wk_key w \<and> rc_release c = wk_release w \<and>
     rc_assessment c = wk_assessment w \<and> rc_data c = wk_data w \<and> rc_assessment_digest c = wk_assessment_digest w \<and>
     rc_dataset_digest c = wk_dataset_digest w \<and> rc_image c = wk_image w \<and> rc_rubric c = wk_rubric w \<and>
     rc_max c = wk_max w)"

definition pinned :: "submission_state \<Rightarrow> bool" where
  "pinned st = (st \<in> {SubAccepted, SubQueued, SubRunning, SubGraded, SubPublished, SubAssessmentFailed})"

definition scored :: "submission_state \<Rightarrow> bool" where
  "scored st = (st \<in> {SubGraded, SubPublished})"

definition receipt_ok :: "work_row list \<Rightarrow> request_row list \<Rightarrow> submission_receipt \<Rightarrow> bool" where
  "receipt_ok ws rs c = (\<exists>r\<in>set rs. (pinned (rq_state r) \<or> rq_state r = SubInfraFailed) \<and> (\<exists>w\<in>set ws. receipt_pins c r w))"

definition result_of :: "result_row \<Rightarrow> request_row \<Rightarrow> submission_receipt \<Rightarrow> bool" where
  "result_of x r c = (rs_request x = rq_id r \<and> rs_student x = rq_student r \<and> rc_request c = rq_id r \<and>
     rs_sha x = rc_sha c \<and> rs_max x = rc_max c \<and> 0 \<le> rs_score x \<and> rs_score x \<le> rs_max x \<and>
     rq_state r = (if rs_published x = None then SubGraded else SubPublished))"

definition result_ok :: "request_row list \<Rightarrow> submission_receipt list \<Rightarrow> result_row \<Rightarrow> bool" where
  "result_ok rs cs x = (\<exists>r\<in>set rs. \<exists>c\<in>set cs. result_of x r c)"

definition covered :: "submission_receipt list \<Rightarrow> result_row list \<Rightarrow> request_row \<Rightarrow> bool" where
  "covered cs xs r = ((pinned (rq_state r) \<longrightarrow> rq_id r \<in> rc_request ` set cs) \<and>
     (scored (rq_state r) \<longrightarrow> rq_id r \<in> rs_request ` set xs))"

definition attempt_key :: "attempt_row \<Rightarrow> int \<times> string" where
  "attempt_key c = (ad_student c, ad_day c)"

definition platform_keys :: "platform_db \<Rightarrow> bool" where
  "platform_keys db = (distinct (map wk_id (works db)) \<and> distinct (map wk_repository (works db)) \<and>
     distinct (map release_key (works db)) \<and> distinct (map repository_name (works db)) \<and>
     distinct (map rq_id (requests db)) \<and> distinct (map submission_key (requests db)) \<and>
     distinct (map key_of (request_keys db)) \<and>
     distinct (map rc_id (receipts db)) \<and> distinct (map rc_request (receipts db)) \<and>
     distinct (map rs_id (results db)) \<and> distinct (map rs_request (results db)) \<and>
     distinct (map attempt_key (attempts db)))"

definition platform_links :: "platform_db \<Rightarrow> bool" where
  "platform_links db = ((\<forall>w\<in>set (works db). work_ok (enrollments (auth db)) w) \<and>
     (\<forall>r\<in>set (requests db). request_ok (works db) (sessions (auth db)) (request_keys db) r) \<and>
     (\<forall>k\<in>set (request_keys db). key_ok (requests db) k) \<and>
     (\<forall>c\<in>set (receipts db). receipt_ok (works db) (requests db) c) \<and>
     (\<forall>x\<in>set (results db). result_ok (requests db) (receipts db) x) \<and>
     (\<forall>r\<in>set (requests db). covered (receipts db) (results db) r) \<and>
     (\<forall>c\<in>set (attempts db). 0 < ad_attempts c))"

definition platform_ok :: "platform_db \<Rightarrow> bool" where
  "platform_ok db = (auth_ok (auth db) \<and> platform_keys db \<and> platform_links db)"

text \<open>What is kept of earlier rows.\<close>

definition platform_kept :: "platform_db \<Rightarrow> platform_db \<Rightarrow> bool" where
  "platform_kept db db' = (rows_later work_same (works db) (works db') \<and>
     rows_later request_later (requests db) (requests db') \<and> prefix (request_keys db) (request_keys db') \<and>
     prefix (receipts db) (receipts db') \<and> rows_later result_later (results db) (results db') \<and>
     rows_later attempt_later (attempts db) (attempts db'))"

definition platform_sound :: "platform_db \<Rightarrow> platform_db \<Rightarrow> bool" where
  "platform_sound db db' = (platform_ok db' \<and> platform_kept db db')"

lemmas kept_same [simp] = work_history.later_same request_history.later_same result_history.later_same
  attempt_history.later_same

lemma platform_kept_refl [simp]: "platform_kept db db"
  by (simp add: platform_kept_def)

lemma platform_kept_trans: "platform_kept a b \<Longrightarrow> platform_kept b c \<Longrightarrow> platform_kept a c"
  unfolding platform_kept_def
  by (meson prefix_order.trans work_history.later_trans request_history.later_trans result_history.later_trans
      attempt_history.later_trans)

lemma platform_sound_refl: "platform_ok db \<Longrightarrow> platform_sound db db"
  by (simp add: platform_sound_def)

lemma platform_sound_trans: "platform_sound a b \<Longrightarrow> platform_sound b c \<Longrightarrow> platform_sound a c"
  unfolding platform_sound_def using platform_kept_trans by blast

section \<open>Stability\<close>

lemma unique_key: "distinct (map f xs) \<Longrightarrow> x \<in> set xs \<Longrightarrow> y \<in> set xs \<Longrightarrow> f x = f y \<Longrightarrow> x = y"
  by (auto simp: distinct_map dest: inj_onD)

lemma work_ok_same: "work_ok es w \<Longrightarrow> same_release w w' \<Longrightarrow> work_ok es w'"
  using work_same_fields [of w w'] by (simp add: work_ok_def work_shape_def)

lemma work_ok_enrollments:
  "work_ok es w \<Longrightarrow> enrollment_key ` set es \<subseteq> enrollment_key ` set es' \<Longrightarrow> work_ok es' w"
  by (auto simp: work_ok_def)

lemma request_ok_later:
  assumes r: "request_ok ws ss ks r" and w: "rows_later work_same ws ws'"
    and s: "sessions_survive (\<lambda>i. i = rq_session r) ss ss'" and k: "set ks \<subseteq> set ks'"
  shows "request_ok ws' ss' ks' r"
proof -
  obtain x y where x: "x \<in> set ws" "belongs r x" and y: "y \<in> set ss" "made_in r x y"
    using r by (auto simp: request_ok_def)
  obtain x' where x': "x' \<in> set ws'" "same_release x x'" using w x(1) by (auto simp: rows_later_def work_same_def)
  obtain y' where y': "y' \<in> set ss'" "session_same y y'"
    using s y by (auto simp: sessions_survive_def made_in_def)
  have "belongs r x'" using x(2) work_same_fields [OF x'(2)] by (simp add: belongs_def)
  moreover have "made_in r x' y'" using y(2) y'(2) work_same_fields [OF x'(2)] by (simp add: made_in_def session_same_def)
  ultimately show ?thesis using r k x'(1) y'(1) unfolding request_ok_def by blast
qed

lemma key_ok_later: "key_ok rs k \<Longrightarrow> rows_later request_later rs rs' \<Longrightarrow> key_ok rs' k"
  unfolding key_ok_def rows_later_def request_later_def using request_same_fields by metis

lemma receipted_move: "submission_moves a b \<Longrightarrow> pinned a \<Longrightarrow> pinned b \<or> b = SubInfraFailed"
  by (cases a) (auto simp: submission_moves_def pinned_def)

lemma infra_stays: "\<not> submission_moves SubInfraFailed b"
  by (simp add: submission_moves_def)

lemma receipted_later:
  "submission_moves\<^sup>+\<^sup>+ a b \<Longrightarrow> pinned a \<or> a = SubInfraFailed \<Longrightarrow> pinned b \<or> b = SubInfraFailed"
  by (induction rule: tranclp_induct) (use receipted_move infra_stays in blast)+

lemma receipt_ok_later:
  assumes c: "receipt_ok ws rs c" and w: "rows_later work_same ws ws'" and r: "rows_later request_later rs rs'"
  shows "receipt_ok ws' rs' c"
proof -
  obtain x y where x: "x \<in> set rs" "pinned (rq_state x) \<or> rq_state x = SubInfraFailed" and y: "y \<in> set ws" "receipt_pins c x y"
    using c by (auto simp: receipt_ok_def)
  obtain x' where x': "x' \<in> set rs'" "request_same x x'" "x' = x \<or> submission_moves\<^sup>+\<^sup>+ (rq_state x) (rq_state x')"
    using r x(1) by (auto simp: rows_later_def request_later_def)
  obtain y' where y': "y' \<in> set ws'" "same_release y y'" using w y(1) by (auto simp: rows_later_def work_same_def)
  have "receipt_pins c x' y'"
    using y(2) request_same_fields [OF x'(2)] work_same_fields [OF y'(2)] by (simp add: receipt_pins_def)
  moreover have "pinned (rq_state x') \<or> rq_state x' = SubInfraFailed" using x(2) x'(3) receipted_later by blast
  ultimately show ?thesis using x'(1) y'(1) by (auto simp: receipt_ok_def)
qed

end
