(* ===== verification/Sub_Changes.thy ===== *)
theory Sub_Changes
  imports Sub_Ledger
begin

text \<open>
  The ways the submission tables change, without the arguments, clocks and checks of the operations:
  a step relation whose rules name the rows written and the facts they rest on. Every change keeps
  the invariant of \<open>Sub_Ledger\<close> and what it says of earlier rows.
\<close>

inductive platform_change :: "platform_env \<Rightarrow> platform_db \<Rightarrow> platform_db \<Rightarrow> bool" for env where
  change_login: "auth_step (login_env env db) new (auth db) a \<Longrightarrow> platform_change env db (db\<lparr>auth := a\<rparr>)"
| change_work: "enrolled (wk_student w) (wk_course w) db \<Longrightarrow> work_shape w \<Longrightarrow> insert_work env w db = Inr db' \<Longrightarrow>
    platform_change env db db'"
| change_switch: "platform_change env db (set_work i (switch_work active ready now) db)"
| change_attempt: "platform_change env db (count_attempt sid day now db)"
| change_alias: "r \<in> set (requests db) \<Longrightarrow> rq_id r = ik_request k \<Longrightarrow> rq_student r = ik_student k \<Longrightarrow> rq_work r = ik_work k \<Longrightarrow>
    \<not> taken key_of (key_of k) (request_keys db) \<Longrightarrow> platform_change env db (add_key k db)"
| change_request: "w \<in> set (works db) \<Longrightarrow> belongs r w \<Longrightarrow> s \<in> set (sessions (auth db)) \<Longrightarrow> made_in r w s \<Longrightarrow> own_key r k \<Longrightarrow>
    rq_state r = SubReceived \<Longrightarrow> rq_code r = None \<Longrightarrow> rq_message r = None \<Longrightarrow> insert_request r k db = Inr db' \<Longrightarrow>
    platform_change env db db'"
| change_admit: "w \<in> set (works db) \<Longrightarrow> belongs r w \<Longrightarrow> s \<in> set (sessions (auth db)) \<Longrightarrow> made_in r w s \<Longrightarrow> own_key r k \<Longrightarrow>
    rq_state r = SubAccepted \<Longrightarrow> rq_code r = None \<Longrightarrow> rq_message r = None \<Longrightarrow> insert_request r k db = Inr db1 \<Longrightarrow>
    receipt_pins c r w \<Longrightarrow> insert_receipt env c db1 = Inr db' \<Longrightarrow> platform_change env db db'"
| change_move: "r \<in> set (requests db) \<Longrightarrow> st \<in> set (allowed_submission (rq_state r)) \<Longrightarrow>
    (code \<noteq> None \<longleftrightarrow> failed st) \<Longrightarrow> (message \<noteq> None \<longleftrightarrow> failed st) \<Longrightarrow>
    platform_change env db (set_request (rq_id r) (move_request st now code message) db)"
| change_accept: "r \<in> set (requests db) \<Longrightarrow> rq_state r = SubPinning \<Longrightarrow> w \<in> set (works db) \<Longrightarrow> receipt_pins c r w \<Longrightarrow>
    insert_receipt env c db = Inr db1 \<Longrightarrow>
    platform_change env db (set_request (rq_id r) (advance_request SubAccepted now) db1)"
| change_grade: "r \<in> set (requests db) \<Longrightarrow> rq_state r = SubRunning \<Longrightarrow> c \<in> set (receipts db) \<Longrightarrow>
    result_of x (advance_request SubGraded now r) c \<Longrightarrow> rs_published x = None \<Longrightarrow> insert_result x db = Inr db1 \<Longrightarrow>
    platform_change env db (set_request (rq_id r) (advance_request SubGraded now) db1)"
| change_publish: "r \<in> set (requests db) \<Longrightarrow> rq_state r = SubGraded \<Longrightarrow>
    platform_change env db (set_request (rq_id r) (advance_request SubPublished now)
      (db\<lparr>results := update_where (\<lambda>x. rs_request x = rq_id r) (publish_row now) (results db)\<rparr>))"

section \<open>Logins\<close>

lemma login_sound:
  assumes ok: "platform_ok db" and step: "auth_step (login_env env db) new (auth db) a"
  shows "platform_sound db (db\<lparr>auth := a\<rparr>)"
proof -
  let ?K = "\<lambda>i. taken rq_session i (requests db)"
  have a: "auth_ok a" using auth_step_sound [OF step] ok by (simp add: platform_ok_def sound_def)
  have k: "rows_kept ?K (auth db) a" by (rule step_rows_kept [OF step]) (simp add: login_env_def)
  have w: "\<forall>w\<in>set (works db). work_ok (enrollments a) w"
    using ok k work_ok_enrollments unfolding platform_ok_def platform_links_def rows_kept_def by metis
  have r: "request_ok (works db) (sessions a) (request_keys db) r" if r: "r \<in> set (requests db)" for r
  proof (rule request_ok_later [OF _ kept_same(1) _ subset_refl])
    show "request_ok (works db) (sessions (auth db)) (request_keys db) r"
      using ok r by (simp add: platform_ok_def platform_links_def)
    show "sessions_survive (\<lambda>i. i = rq_session r) (sessions (auth db)) (sessions a)"
      using k r unfolding rows_kept_def sessions_survive_def by blast
  qed
  show ?thesis using ok a w r by (simp add: platform_sound_def platform_ok_def platform_keys_def platform_links_def platform_kept_def)
qed

section \<open>Assignments\<close>

lemma map_update_where_keys:
  "distinct (map key (update_where P f rows)) \<longleftrightarrow> distinct (map key rows)" if "\<And>r. P r \<Longrightarrow> key (f r) = key r"
  using update_where_same [of P key f rows, OF that] by simp

lemma switch_same [simp]: "work_same w (switch_work active ready now w)"
  by (simp add: work_same_def same_release_def switch_work_def)

lemma switch_keys [simp]:
  "wk_id (switch_work a b t w) = wk_id w" "wk_repository (switch_work a b t w) = wk_repository w"
  "release_key (switch_work a b t w) = release_key w" "repository_name (switch_work a b t w) = repository_name w"
  by (simp_all add: switch_work_def release_key_def repository_name_def)

lemma works_sound:
  assumes ok: "platform_ok db" and later: "rows_later work_same (works db) ws"
    and shape: "\<And>w. w \<in> set ws \<Longrightarrow> work_ok (enrollments (auth db)) w"
    and keys: "distinct (map wk_id ws)" "distinct (map wk_repository ws)" "distinct (map release_key ws)"
      "distinct (map repository_name ws)"
  shows "platform_sound db (db\<lparr>works := ws\<rparr>)"
proof -
  have r: "request_ok ws (sessions (auth db)) (request_keys db) r" if "r \<in> set (requests db)" for r
    by (rule request_ok_later [OF _ later sessions_survive_refl subset_refl])
      (use ok that in \<open>simp add: platform_ok_def platform_links_def\<close>)
  have c: "receipt_ok ws (requests db) c" if "c \<in> set (receipts db)" for c
    by (rule receipt_ok_later [OF _ later kept_same(2)])
      (use ok that in \<open>simp add: platform_ok_def platform_links_def\<close>)
  show ?thesis
    using ok later shape keys r c
    by (simp add: platform_sound_def platform_ok_def platform_keys_def platform_links_def platform_kept_def)
qed

lemma insert_work_sound:
  assumes ok: "platform_ok db" and e: "enrolled (wk_student w) (wk_course w) db" and w: "work_shape w"
    and i: "insert_work env w db = Inr db'"
  shows "platform_sound db db'"
proof -
  have db': "db' = db\<lparr>works := works db @ [w]\<rparr>" and fresh: "\<not> taken wk_id (wk_id w) (works db)"
    "\<not> taken wk_repository (wk_repository w) (works db)" "\<not> taken release_key (release_key w) (works db)"
    "\<not> taken repository_name (repository_name w) (works db)"
    using i by (simp_all add: insert_work_def)
  have "(wk_student w, wk_course w) \<in> enrollment_key ` set (enrollments (auth db))"
    using e by (force simp: enrolled_def active_enrollment_def enrollment_key_def dest!: find_SomeD)
  then have "work_ok (enrollments (auth db)) w" using w by (simp add: work_ok_def)
  moreover have "\<forall>w\<in>set (works db). work_ok (enrollments (auth db)) w" using ok by (simp add: platform_ok_def platform_links_def)
  ultimately show ?thesis
    unfolding db' using ok fresh
    by (intro works_sound work_history.later_append) (auto simp: platform_ok_def platform_keys_def)
qed

lemma switch_sound:
  assumes ok: "platform_ok db"
  shows "platform_sound db (set_work i (switch_work active ready now) db)"
  unfolding set_work_def
proof (rule works_sound [OF ok])
  show "rows_later work_same (works db) (update_where (\<lambda>w. wk_id w = i) (switch_work active ready now) (works db))"
    by (rule work_history.later_update) simp
  have s: "work_ok es w \<Longrightarrow> work_ok es (switch_work active ready now w)" for es w
    using work_ok_same switch_same work_same_def by blast
  show "work_ok (enrollments (auth db)) w" if "w \<in> set (update_where (\<lambda>w. wk_id w = i) (switch_work active ready now) (works db))" for w
    using ok that s by (auto simp: set_update_where platform_ok_def platform_links_def)
qed (use ok in \<open>simp_all add: map_update_where_keys platform_ok_def platform_keys_def\<close>)

section \<open>Attempts and keys\<close>

lemma attempt_sound:
  assumes ok: "platform_ok db"
  shows "platform_sound db (count_attempt sid day now db)"
proof -
  let ?f = "\<lambda>c. c\<lparr>ad_attempts := ad_attempts c + 1, ad_updated := now\<rparr>"
  let ?u = "update_where (\<lambda>c. ad_student c = sid \<and> ad_day c = day) ?f (attempts db)"
  have l: "rows_later attempt_later (attempts db) ?u"
    by (rule attempt_history.later_update) (simp add: attempt_later_def)
  have p: "\<forall>c\<in>set ?u. 0 < ad_attempts c"
    using ok by (auto simp: set_update_where platform_ok_def platform_links_def)
  have d: "distinct (map attempt_key ?u)"
    using ok by (subst map_update_where_keys) (simp_all add: attempt_key_def platform_ok_def platform_keys_def)
  have n: "attempt_key = (\<lambda>c. (ad_student c, ad_day c))" by (rule ext) (simp add: attempt_key_def)
  show ?thesis
    using ok l p d unfolding count_attempt_def
    by (auto simp: n platform_sound_def platform_ok_def platform_keys_def platform_links_def platform_kept_def
        intro: attempt_history.later_append)
qed

lemma alias_sound:
  assumes ok: "platform_ok db" and r: "key_ok (requests db) k" and fresh: "\<not> taken key_of (key_of k) (request_keys db)"
  shows "platform_sound db (add_key k db)"
proof -
  have "request_ok (works db) (sessions (auth db)) (request_keys db @ [k]) x" if "x \<in> set (requests db)" for x
    by (rule request_ok_later [OF _ kept_same(1) sessions_survive_refl])
      (use ok that in \<open>auto simp: platform_ok_def platform_links_def\<close>)
  then show ?thesis
    using ok r fresh
    by (simp add: add_key_def platform_sound_def platform_ok_def platform_keys_def platform_links_def platform_kept_def)
qed

section \<open>New requests\<close>

lemma result_ok_later:
  "result_ok rs cs x \<Longrightarrow> set rs \<subseteq> set rs' \<Longrightarrow> set cs \<subseteq> set cs' \<Longrightarrow> result_ok rs' cs' x"
  by (auto simp: result_ok_def)

lemma covered_later:
  "covered cs xs r \<Longrightarrow> rc_request ` set cs \<subseteq> rc_request ` set cs' \<Longrightarrow> rs_request ` set xs \<subseteq> rs_request ` set xs' \<Longrightarrow>
   covered cs' xs' r"
  by (auto simp: covered_def)

lemma add_request_sound:
  assumes ok: "platform_ok db"
    and r: "w \<in> set (works db)" "belongs r w" "s \<in> set (sessions (auth db))" "made_in r w s" "own_key r k"
      "\<not> failed (rq_state r)" "rq_code r = None" "rq_message r = None"
    and i: "insert_request r k db = Inr db1"
    and c: "\<And>c. c \<in> set cs \<Longrightarrow> receipt_pins c r w \<and> pinned (rq_state r)" "distinct (map rc_id (receipts db @ cs))"
      "distinct (map rc_request (receipts db @ cs))" "covered (receipts db @ cs) (results db) r"
  shows "platform_sound db (db1\<lparr>receipts := receipts db1 @ cs\<rparr>)"
proof -
  let ?rs = "requests db @ [r]" and ?ks = "request_keys db @ [k]" and ?cs = "receipts db @ cs"
  have db1: "db1 = db\<lparr>requests := ?rs, request_keys := ?ks\<rparr>" and fresh: "\<not> taken rq_id (rq_id r) (requests db)"
      "\<not> taken submission_key (submission_key r) (requests db)" "\<not> taken key_of (key_of k) (request_keys db)"
    using i by (simp_all add: insert_request_def add_key_def)
  note o = ok [unfolded platform_ok_def platform_links_def]
  have l: "rows_later request_later (requests db) ?rs" by (rule request_history.later_append)
  have rs: "request_ok (works db) (sessions (auth db)) ?ks x" if "x \<in> set ?rs" for x
  proof (cases "x = r")
    case True then show ?thesis using r by (auto simp: request_ok_def)
  next
    case False
    show ?thesis
      by (rule request_ok_later [OF _ kept_same(1) sessions_survive_refl]) (use o that False in auto)
  qed
  have ks: "key_ok ?rs x" if "x \<in> set ?ks" for x
  proof (cases "x = k")
    case True then show ?thesis using r(5) by (auto simp: key_ok_def own_key_def key_of_def submission_key_def)
  next
    case False
    then show ?thesis using key_ok_later [OF _ l] o that by auto
  qed
  have cs: "receipt_ok (works db) ?rs x" if "x \<in> set ?cs" for x
  proof (cases "x \<in> set cs")
    case True then show ?thesis using c(1) r(1) by (auto simp: receipt_ok_def)
  next
    case False
    then show ?thesis using receipt_ok_later [OF _ kept_same(1) l] o that by auto
  qed
  have xs: "result_ok ?rs ?cs x" if "x \<in> set (results db)" for x
    using result_ok_later [of "requests db" "receipts db" x ?rs ?cs] o that by auto
  have cov: "covered ?cs (results db) x" if "x \<in> set ?rs" for x
    using that c(4) covered_later [of "receipts db" "results db" x ?cs "results db"] o by (auto simp: image_Un)
  have keys: "platform_keys (db1\<lparr>receipts := receipts db1 @ cs\<rparr>)"
    using o fresh c(2,3) by (simp add: db1 platform_keys_def)
  have links: "platform_links (db1\<lparr>receipts := receipts db1 @ cs\<rparr>)"
    using o rs ks cs xs cov by (simp add: db1 platform_links_def)
  show ?thesis
    using o keys links l by (simp add: db1 platform_sound_def platform_ok_def platform_kept_def)
qed

lemma insert_receipt_Inr:
  "insert_receipt env c db = Inr db' \<longleftrightarrow> \<not> erased env (rc_course c) \<and> \<not> taken rc_id (rc_id c) (receipts db) \<and>
    \<not> taken rc_request (rc_request c) (receipts db) \<and> db' = db\<lparr>receipts := receipts db @ [c]\<rparr>"
  by (auto simp: insert_receipt_def)

section \<open>Requests that move\<close>

lemma moved_requests:
  assumes "distinct (map rq_id rs)" and "r \<in> set rs"
  shows "set (update_where (\<lambda>x. rq_id x = rq_id r) f rs) = insert (f r) (set rs - {r})"
proof -
  have "rq_id x = rq_id r \<longleftrightarrow> x = r" if "x \<in> set rs" for x using unique_key [OF assms(1) that assms(2)] by blast
  then have "set (update_where (\<lambda>x. rq_id x = rq_id r) f rs) = (\<lambda>x. if x = r then f x else x) ` set rs"
    unfolding set_update_where by (intro image_cong) simp_all
  then show ?thesis using assms(2) by auto
qed

lemma moved_sound:
  assumes ok: "platform_ok db" and r: "r \<in> set (requests db)"
    and f: "request_same r (f r)" "submission_moves (rq_state r) (rq_state (f r))"
      "rq_code (f r) \<noteq> None \<longleftrightarrow> failed (rq_state (f r))" "rq_message (f r) \<noteq> None \<longleftrightarrow> failed (rq_state (f r))"
    and same: "\<And>x. rq_id x = rq_id r \<Longrightarrow> request_same x (f x)"
    and db1: "auth db1 = auth db" "works db1 = works db" "requests db1 = requests db" "request_keys db1 = request_keys db"
      "attempts db1 = attempts db" "prefix (receipts db) (receipts db1)" "rows_later result_later (results db) (results db1)"
    and keys: "distinct (map rc_id (receipts db1))" "distinct (map rc_request (receipts db1))"
      "distinct (map rs_id (results db1))" "distinct (map rs_request (results db1))"
    and new: "\<And>c. c \<in> set (receipts db1) \<Longrightarrow> c \<notin> set (receipts db) \<Longrightarrow>
        (pinned (rq_state (f r)) \<or> rq_state (f r) = SubInfraFailed) \<and> (\<exists>w\<in>set (works db). receipt_pins c (f r) w)"
      "\<And>x. x \<in> set (results db1) \<Longrightarrow> result_ok (f r # filter (\<lambda>x. x \<noteq> r) (requests db)) (receipts db1) x"
      "covered (receipts db1) (results db1) (f r)" "rs_request ` set (results db) \<subseteq> rs_request ` set (results db1)"
  shows "platform_sound db (set_request (rq_id r) f db1)"
proof -
  let ?rs = "update_where (\<lambda>x. rq_id x = rq_id r) f (requests db)"
  note o = ok [unfolded platform_ok_def platform_links_def]
  have d: "distinct (map rq_id (requests db))" using o by (simp add: platform_keys_def)
  have m: "set ?rs = insert (f r) (set (requests db) - {r})" by (rule moved_requests [OF d r])
  have u: "x = r" if "x \<in> set (requests db)" "rq_id x = rq_id r" for x using unique_key [OF d that(1) r that(2)] .
  have l: "rows_later request_later (requests db) ?rs"
  proof (rule request_history.later_update)
    fix x assume "x \<in> set (requests db)" "rq_id x = rq_id r"
    then have "x = r" by (rule u)
    then show "request_later x (f x)" using f(1,2) by (auto simp: request_later_def)
  qed
  have k: "map rq_id ?rs = map rq_id (requests db)" "map submission_key ?rs = map submission_key (requests db)"
    by (rule update_where_same; frule same; drule request_same_fields; simp add: submission_key_def request_same_fields [OF same])+
  have fr: "request_ok (works db) (sessions (auth db)) (request_keys db) (f r)"
  proof -
    have "request_ok (works db) (sessions (auth db)) (request_keys db) r" using o r by simp
    then show ?thesis
      using f(3,4) request_same_fields [OF f(1)] by (auto simp: request_ok_def belongs_def made_in_def own_key_def submission_key_def)
  qed
  have rs: "request_ok (works db) (sessions (auth db)) (request_keys db) x" if "x \<in> set ?rs" for x
    using that o fr by (auto simp: m)
  have ks: "key_ok ?rs x" if "x \<in> set (request_keys db)" for x using key_ok_later [OF _ l] o that by auto
  have cs: "receipt_ok (works db) ?rs c" if "c \<in> set (receipts db1)" for c
  proof (cases "c \<in> set (receipts db)")
    case True
    then show ?thesis using receipt_ok_later [OF _ kept_same(1) l] o by auto
  next
    case False
    then show ?thesis using new(1) [OF that] by (auto simp: receipt_ok_def m)
  qed
  have xs: "result_ok ?rs (receipts db1) x" if "x \<in> set (results db1)" for x
    using new(2) [OF that] result_ok_later [of "f r # filter (\<lambda>x. x \<noteq> r) (requests db)" "receipts db1" x ?rs "receipts db1"]
    by (auto simp: m)
  have sub: "set (receipts db) \<subseteq> set (receipts db1)" using db1(6) set_mono_prefix by blast
  have cov: "covered (receipts db1) (results db1) x" if "x \<in> set ?rs" for x
  proof (cases "x = f r")
    case True then show ?thesis using new(3) by simp
  next
    case False
    then have "covered (receipts db) (results db) x" using that o by (auto simp: m)
    then show ?thesis by (rule covered_later) (use sub new(4) in auto)
  qed
  have keys': "platform_keys (set_request (rq_id r) f db1)"
    using o keys by (simp add: set_request_def db1 platform_keys_def k)
  have links: "platform_links (set_request (rq_id r) f db1)"
    using o rs ks cs xs cov by (simp add: set_request_def db1 platform_links_def)
  show ?thesis
    using o keys' links l db1 by (simp add: set_request_def platform_sound_def platform_ok_def platform_kept_def)
qed

text \<open>A result of another request does not notice the move.\<close>

lemma other_result:
  assumes ok: "platform_ok db" and r: "r \<in> set (requests db)" and st: "\<not> scored (rq_state r)" and x: "x \<in> set (results db)"
    and cs: "set (receipts db) \<subseteq> set cs"
  shows "result_ok (f r # filter (\<lambda>x. x \<noteq> r) (requests db)) cs x"
proof -
  obtain y c where y: "y \<in> set (requests db)" "c \<in> set (receipts db)" "result_of x y c"
    using ok x by (auto simp: platform_ok_def platform_links_def result_ok_def)
  have "scored (rq_state y)" using y(3) by (auto simp: result_of_def scored_def)
  then have "y \<noteq> r" using st by auto
  then show ?thesis using y cs by (auto simp: result_ok_def)
qed

lemma move_same [simp]: "request_same r (move_request st now c m r)" "request_same r (advance_request st now r)"
  by (simp_all add: request_same_def move_request_def advance_request_def)

lemma moved_fields [simp]:
  "rq_state (move_request st now c m r) = st" "rq_code (move_request st now c m r) = c"
  "rq_message (move_request st now c m r) = m" "rq_state (advance_request st now r) = st"
  "rq_code (advance_request st now r) = rq_code r" "rq_message (advance_request st now r) = rq_message r"
  "rq_id (move_request st now c m r) = rq_id r" "rq_id (advance_request st now r) = rq_id r"
  by (simp_all add: move_request_def advance_request_def)

lemma move_sound:
  assumes ok: "platform_ok db" and r: "r \<in> set (requests db)" and st: "st \<in> set (allowed_submission (rq_state r))"
    and c: "code \<noteq> None \<longleftrightarrow> failed st" "message \<noteq> None \<longleftrightarrow> failed st"
  shows "platform_sound db (set_request (rq_id r) (move_request st now code message) db)"
proof -
  note o = ok [unfolded platform_ok_def platform_links_def platform_keys_def]
  have cov: "covered (receipts db) (results db) r" using o r by simp
  have s: "\<not> scored (rq_state r)" "\<not> scored st" "pinned st \<longrightarrow> pinned (rq_state r)"
    using st by (cases "rq_state r"; auto simp: scored_def pinned_def)+
  show ?thesis
  proof (rule moved_sound [OF ok r])
    show "submission_moves (rq_state r) (rq_state (move_request st now code message r))"
      using st by (simp add: submission_moves_def)
    show "result_ok (move_request st now code message r # filter (\<lambda>x. x \<noteq> r) (requests db)) (receipts db) x"
      if "x \<in> set (results db)" for x using other_result [OF ok r s(1) that subset_refl] .
    show "covered (receipts db) (results db) (move_request st now code message r)"
      using cov s by (simp add: covered_def)
  qed (use o c in simp_all)
qed

lemma receipt_of_moved: "receipt_pins c r w \<Longrightarrow> request_same r r' \<Longrightarrow> receipt_pins c r' w"
  using request_same_fields [of r r'] by (simp add: receipt_pins_def)

lemma accept_sound:
  assumes ok: "platform_ok db" and r: "r \<in> set (requests db)" "rq_state r = SubPinning"
    and w: "w \<in> set (works db)" "receipt_pins c r w" and i: "insert_receipt env c db = Inr db1"
  shows "platform_sound db (set_request (rq_id r) (advance_request SubAccepted now) db1)"
proof -
  note o = ok [unfolded platform_ok_def platform_links_def platform_keys_def]
  have i': "db1 = db\<lparr>receipts := receipts db @ [c]\<rparr>" "rc_id c \<notin> rc_id ` set (receipts db)"
      "rc_request c \<notin> rc_request ` set (receipts db)"
    using i by (auto simp: insert_receipt_Inr)
  have cov: "covered (receipts db) (results db) r" using o r by simp
  have code: "rq_code r = None" "rq_message r = None"
    using o r by (auto simp: request_ok_def failed_def)
  show ?thesis
  proof (rule moved_sound [OF ok r(1)])
    show "submission_moves (rq_state r) (rq_state (advance_request SubAccepted now r))"
      using r(2) by (simp add: submission_moves_def)
    show "(pinned (rq_state (advance_request SubAccepted now r)) \<or> rq_state (advance_request SubAccepted now r) = SubInfraFailed) \<and>
        (\<exists>w\<in>set (works db). receipt_pins x (advance_request SubAccepted now r) w)"
      if "x \<in> set (receipts db1)" "x \<notin> set (receipts db)" for x
      using that w receipt_of_moved [OF w(2) move_same(2)] by (auto simp: i' pinned_def)
    show "result_ok (advance_request SubAccepted now r # filter (\<lambda>x. x \<noteq> r) (requests db)) (receipts db1) x"
      if "x \<in> set (results db1)" for x
      by (rule other_result [OF ok r(1)]) (use that r(2) in \<open>auto simp: i' scored_def\<close>)
    show "covered (receipts db1) (results db1) (advance_request SubAccepted now r)"
      using w(2) by (simp add: i' covered_def scored_def receipt_pins_def)
  qed (use o i' code in \<open>simp_all add: failed_def\<close>)
qed

lemma grade_sound:
  assumes ok: "platform_ok db" and r: "r \<in> set (requests db)" "rq_state r = SubRunning" and c: "c \<in> set (receipts db)"
    and x: "result_of x (advance_request SubGraded now r) c" "rs_published x = None" and i: "insert_result x db = Inr db1"
  shows "platform_sound db (set_request (rq_id r) (advance_request SubGraded now) db1)"
proof -
  note o = ok [unfolded platform_ok_def platform_links_def platform_keys_def]
  have i': "db1 = db\<lparr>results := results db @ [x]\<rparr>" "rs_id x \<notin> rs_id ` set (results db)"
      "rs_request x \<notin> rs_request ` set (results db)"
    using i by (auto simp: insert_result_def)
  have code: "rq_code r = None" "rq_message r = None"
    using o r by (auto simp: request_ok_def failed_def)
  show ?thesis
  proof (rule moved_sound [OF ok r(1)])
    show "submission_moves (rq_state r) (rq_state (advance_request SubGraded now r))"
      using r(2) by (simp add: submission_moves_def)
    show "result_ok (advance_request SubGraded now r # filter (\<lambda>x. x \<noteq> r) (requests db)) (receipts db1) y"
      if "y \<in> set (results db1)" for y
    proof (cases "y = x")
      case True
      then show ?thesis using x(1) c by (auto simp: result_ok_def i')
    next
      case False
      then show ?thesis
        by (intro other_result [OF ok r(1)]) (use that r(2) in \<open>auto simp: i' scored_def\<close>)
    qed
    show "covered (receipts db1) (results db1) (advance_request SubGraded now r)"
    proof -
      have "rc_request c = rq_id r" "rs_request x = rq_id r" using x(1) by (simp_all add: result_of_def)
      then show ?thesis using c by (force simp: i' covered_def)
    qed
  qed (use o i' code in \<open>auto simp: failed_def intro: result_history.later_append\<close>)
qed

lemma publish_sound:
  assumes ok: "platform_ok db" and r: "r \<in> set (requests db)" "rq_state r = SubGraded"
  shows "platform_sound db (set_request (rq_id r) (advance_request SubPublished now)
    (db\<lparr>results := update_where (\<lambda>x. rs_request x = rq_id r) (publish_row now) (results db)\<rparr>))"
proof -
  let ?u = "update_where (\<lambda>x. rs_request x = rq_id r) (publish_row now) (results db)"
  note o = ok [unfolded platform_ok_def platform_links_def platform_keys_def]
  have of: "\<exists>y\<in>set (requests db). \<exists>c\<in>set (receipts db). result_of x y c" if "x \<in> set (results db)" for x
    using o that by (simp add: result_ok_def)
  have own: "\<exists>c\<in>set (receipts db). result_of x r c" if x: "x \<in> set (results db)" "rs_request x = rq_id r" for x
  proof -
    obtain y c where y: "y \<in> set (requests db)" "c \<in> set (receipts db)" "result_of x y c" using of [OF x(1)] by blast
    then have "rq_id y = rq_id r" using x(2) by (simp add: result_of_def)
    then have "y = r" using unique_key [OF _ y(1) r(1)] o by blast
    then show ?thesis using y by blast
  qed
  have fresh: "rs_published x = None" if "x \<in> set (results db)" "rs_request x = rq_id r" for x
    using own [OF that] r(2) by (auto simp: result_of_def split: if_split_asm)
  have code: "rq_code r = None" "rq_message r = None"
    using o r by (auto simp: request_ok_def failed_def)
  have keys: "map rs_id ?u = map rs_id (results db)" "map rs_request ?u = map rs_request (results db)"
    by (rule update_where_same; simp add: publish_row_def)+
  have cov: "covered (receipts db) (results db) r" using o r by simp
  show ?thesis
  proof (rule moved_sound [OF ok r(1)])
    show "submission_moves (rq_state r) (rq_state (advance_request SubPublished now r))"
      using r(2) by (simp add: submission_moves_def)
    show "rows_later result_later (results db) (results (db\<lparr>results := ?u\<rparr>))"
      by (simp, rule result_history.later_update) (use fresh in \<open>auto simp: result_later_def\<close>)
    show "result_ok (advance_request SubPublished now r # filter (\<lambda>x. x \<noteq> r) (requests db)) (receipts (db\<lparr>results := ?u\<rparr>)) y"
      if y: "y \<in> set (results (db\<lparr>results := ?u\<rparr>))" for y
    proof -
      obtain x where x: "x \<in> set (results db)" "y = (if rs_request x = rq_id r then publish_row now x else x)"
        using y by (auto simp: set_update_where)
      show ?thesis
      proof (cases "rs_request x = rq_id r")
        case True
        then obtain c where c: "c \<in> set (receipts db)" "result_of x r c" using own [OF x(1)] by blast
        then have "result_of y (advance_request SubPublished now r) c"
          using x(2) True by (simp add: result_of_def publish_row_def advance_request_def)
        then show ?thesis using c(1) by (auto simp: result_ok_def)
      next
        case False
        obtain z c where z: "z \<in> set (requests db)" "c \<in> set (receipts db)" "result_of x z c" using of [OF x(1)] by blast
        then have "z \<noteq> r" using False by (auto simp: result_of_def)
        then show ?thesis using z x(2) False by (auto simp: result_ok_def)
      qed
    qed
    show "covered (receipts (db\<lparr>results := ?u\<rparr>)) (results (db\<lparr>results := ?u\<rparr>)) (advance_request SubPublished now r)"
      using cov r(2) arg_cong [OF keys(2), of set] by (simp add: covered_def pinned_def scored_def)
    show "rs_request ` set (results db) \<subseteq> rs_request ` set (results (db\<lparr>results := ?u\<rparr>))"
      using arg_cong [OF keys(2), of set] by simp
  qed (use o code keys in \<open>auto simp: failed_def\<close>)
qed

section \<open>Every change\<close>

lemma change_sound: "platform_change env db db' \<Longrightarrow> platform_ok db \<Longrightarrow> platform_sound db db'"
proof (induction rule: platform_change.induct)
  case (change_request w db r s k db')
  then have cov: "covered (receipts db @ []) (results db) r" by (simp add: covered_def pinned_def scored_def)
  have "platform_sound db (db'\<lparr>receipts := receipts db' @ []\<rparr>)"
    by (rule add_request_sound [OF change_request.prems change_request.hyps(1-5) _ change_request.hyps(7-9) _ _ _ cov])
      (use change_request in \<open>auto simp: failed_def platform_ok_def platform_keys_def\<close>)
  then show ?case by simp
next
  case (change_admit w db r s k db1 c db')
  have db1: "receipts db1 = receipts db" using change_admit.hyps(9) by (auto simp: insert_request_def add_key_def)
  have c: "rc_id c \<notin> rc_id ` set (receipts db)" "rc_request c \<notin> rc_request ` set (receipts db)"
      "db' = db1\<lparr>receipts := receipts db1 @ [c]\<rparr>"
    using change_admit.hyps(11) by (auto simp: insert_receipt_Inr db1)
  have cov: "covered (receipts db @ [c]) (results db) r"
    using change_admit.hyps(6,10) by (simp add: covered_def scored_def receipt_pins_def)
  show ?case
    unfolding c(3)
    by (rule add_request_sound [OF change_admit.prems change_admit.hyps(1-5) _ change_admit.hyps(7-9) _ _ _ cov])
      (use change_admit c in \<open>auto simp: failed_def pinned_def platform_ok_def platform_keys_def\<close>)
next
  case (change_alias r db k)
  then have "key_ok (requests db) k" by (auto simp: key_ok_def)
  then show ?case using alias_sound change_alias by blast
qed (auto intro: login_sound insert_work_sound switch_sound attempt_sound move_sound accept_sound grade_sound publish_sound)

inductive platform_changes :: "platform_env \<Rightarrow> platform_db \<Rightarrow> platform_db \<Rightarrow> bool" for env where
  changes_none: "platform_changes env db db"
| changes_more: "platform_changes env db db1 \<Longrightarrow> platform_change env db1 db2 \<Longrightarrow> platform_changes env db db2"

lemma changes_sound: "platform_changes env db db' \<Longrightarrow> platform_ok db \<Longrightarrow> platform_sound db db'"
proof (induction rule: platform_changes.induct)
  case (changes_more db db1 db2)
  then have "platform_sound db db1" by simp
  moreover have "platform_sound db1 db2" by (rule change_sound [OF changes_more.hyps(2)]) (use calculation in \<open>simp add: platform_sound_def\<close>)
  ultimately show ?case by (rule platform_sound_trans)
qed (rule platform_sound_refl)

lemma one_change: "platform_change env db db' \<Longrightarrow> platform_changes env db db'"
  using changes_none changes_more by metis

lemma two_changes: "platform_change env db db1 \<Longrightarrow> platform_change env db1 db2 \<Longrightarrow> platform_changes env db db2"
  using changes_none changes_more by metis

lemma changes_trans: "platform_changes env b c \<Longrightarrow> platform_changes env a b \<Longrightarrow> platform_changes env a c"
  by (induction rule: platform_changes.induct) (auto intro: changes_more)

end
