(* ===== verification/Sub_Steps.thy ===== *)
theory Sub_Steps
  imports Sub_Changes
begin

text \<open>
  Every operation on assignments and submissions is a sequence of the changes of \<open>Sub_Changes\<close>, whatever
  its arguments, its clock and its outcome. \<open>platform_step\<close> is the step relation of the program: a call
  of an operation, or only the second transaction of a call that checks the access token in a first one,
  since other calls may come between the two. A history takes any steps in any order, each in its own
  environment.
\<close>

section \<open>Bodies\<close>

lemma score_arg_nonneg: "score_arg v = Inr x \<Longrightarrow> 0 \<le> x"
  by (auto simp: score_arg_def result_simps split: pynum.split_asm pyfloat.split_asm)

lemma base_arg_given: "base_arg ModePullRequest v = Inr b \<Longrightarrow> b \<noteq> None"
  by (auto simp: base_arg_def result_simps)

lemma check_work_shape: "check_work env a when_v = Inr w \<Longrightarrow> work_shape w"
  by (auto simp: check_work_def result_simps work_shape_def dest: score_arg_nonneg base_arg_given)

lemma register_changes:
  "register_work_body env w db = Inr (r, db') \<Longrightarrow> work_shape w \<Longrightarrow> platform_changes env db db'"
  by (auto simp: register_work_body_def result_simps intro: changes_none one_change change_work split: option.split_asm)

lemma own_works_member:
  "w \<in> set (own_works sid course db) \<longleftrightarrow> w \<in> set (works db) \<and> wk_student w = sid \<and> wk_course w = course \<and> enrolled sid course db"
  by (auto simp: own_works_def)

lemma stored_key_none:
  assumes ok: "platform_ok db" and none: "stored_key key db = None"
  shows "\<not> taken key_of key (request_keys db)"
proof
  assume "taken key_of key (request_keys db)"
  then obtain k where k: "find (\<lambda>k. key_of k = key) (request_keys db) = Some k"
    by (cases "find (\<lambda>k. key_of k = key) (request_keys db)") (auto simp: find_None_iff)
  then have "k \<in> set (request_keys db)" by (simp add: find_SomeD)
  then have "\<exists>r\<in>set (requests db). rq_id r = ik_request k"
    using ok by (auto simp: platform_ok_def platform_links_def key_ok_def)
  then have "find (\<lambda>r. rq_id r = ik_request k) (requests db) \<noteq> None" by (auto simp: find_None_iff)
  then show False using none k by (auto simp: stored_key_def)
qed

lemma semantic_member:
  "semantic_match sid work repository pull sha db = Some r \<Longrightarrow> r \<in> set (requests db) \<and> rq_student r = sid \<and> rq_work r = work \<and>
     rq_repository r = repository \<and> rq_pull r = pull \<and> rq_sha r = sha \<and> \<not> failed (rq_state r)"
proof -
  let ?P = "\<lambda>r. rq_student r = sid \<and> rq_work r = work \<and> rq_repository r = repository \<and> rq_pull r = pull \<and> rq_sha r = sha \<and>
     \<not> failed (rq_state r)"
  assume "semantic_match sid work repository pull sha db = Some r"
  then obtain rs where "oldest_first (filter ?P (requests db)) = r # rs"
    by (auto simp: semantic_match_def split: list.split_asm)
  then have "r \<in> set (oldest_first (filter ?P (requests db)))" by simp
  then show ?thesis by (simp add: oldest_first_def)
qed

lemma key_of_new [simp]: "key_of (new_key sid c i now) = call_key sid c"
  by (simp add: key_of_def new_key_def call_key_def)

lemma alias_changes:
  assumes ok: "platform_ok db" and none: "stored_key (call_key sid c) db = None"
    and r: "semantic_match sid (sc_work c) repository pull sha db = Some r"
  shows "platform_changes env db (add_key (new_key sid c (rq_id r) now) db)"
  using semantic_member [OF r] stored_key_none [OF ok none]
  by (intro one_change change_alias [of r]) (simp_all add: new_key_def key_of_def call_key_def)

lemma reserve_changes: "reserve_attempt most sid day now db = Inr db' \<Longrightarrow> platform_changes env db db'"
  by (auto simp: reserve_attempt_def intro: one_change change_attempt)

lemma replay_changes:
  "replay_body c target most_open most_daily session sid now db = Inr (r, db') \<Longrightarrow> platform_ok db \<Longrightarrow> platform_changes env db db'"
  by (auto simp: replay_body_def result_simps intro: changes_none alias_changes reserve_changes split: option.split_asm prod.split_asm)

text \<open>What an admission knows of the assignment and the session.\<close>

lemma admitted_work_Inr:
  "admitted_work c t sid now db = Inr w \<Longrightarrow> w \<in> set (works db) \<and> wk_id w = sc_work c \<and> wk_student w = sid \<and>
     wk_course w = sc_course c \<and> enrolled sid (sc_course c) db \<and> open_at now w \<and> wk_repository w = tg_repository t \<and>
     (wk_mode w = ModePullRequest \<longleftrightarrow> tg_pull t \<noteq> None)"
  by (auto simp: admitted_work_def fits_work_def result_simps own_works_member split: option.split_asm dest!: find_SomeD)

lemma new_request_belongs:
  assumes "admitted_work c t sid now db = Inr w"
  shows "belongs (new_request i st sid session c t now) w"
  using admitted_work_Inr [OF assms] by (simp add: belongs_def new_request_def)

lemma session_made:
  assumes "session_stands session sid access (sc_course c) now a" and "wk_course w = sc_course c"
  obtains s where "s \<in> set (sessions a)" "made_in (new_request i st sid session c t now) w s"
  using assms by (auto simp: session_stands_def made_in_def new_request_def)

lemma own_key_new [simp]: "own_key (new_request i st sid session c t now) (new_key sid c i now)"
  by (simp add: own_key_def new_request_def new_key_def key_of_def submission_key_def)

lemma receipt_of_new:
  "wk_id w = rq_work r \<Longrightarrow> receipt_pins (new_receipt p r w now) r w"
  by (simp add: receipt_pins_def new_receipt_def)

lemma new_request_fields [simp]:
  "rq_state (new_request i st sid session c t now) = st" "rq_code (new_request i st sid session c t now) = None"
  "rq_message (new_request i st sid session c t now) = None" "rq_id (new_request i st sid session c t now) = i"
  "rq_work (new_request i st sid session c t now) = sc_work c"
  by (simp_all add: new_request_def)

lemma admit_attempt_cases:
  assumes "admit_attempt reserved most sid now db = Inr db1"
  shows "platform_changes env db db1" "works db1 = works db" "auth db1 = auth db" "requests db1 = requests db"
    "request_keys db1 = request_keys db"
  using assms
  by (auto simp: admit_attempt_def reserve_attempt_def count_attempt_def
      intro: changes_none one_change [OF change_attempt, unfolded count_attempt_def] split: option.split_asm)

lemma admit_changes:
  assumes b: "admit_body env c t p most_open most_daily reserved session sid now db = Inr (r, db')" and ok: "platform_ok db"
  shows "platform_changes env db db'"
proof (cases "stored_key (call_key sid c) db")
  case (Some k)
  then show ?thesis using b by (auto simp: admit_body_def intro: changes_none split: prod.split_asm)
next
  case None
  then obtain w where st: "session_stands session sid (sc_access c) (sc_course c) now (auth db)"
    and w: "admitted_work c t sid now db = Inr w"
    using b by (auto simp: admit_body_def result_simps)
  show ?thesis
  proof (cases "semantic_match sid (sc_work c) (tg_repository t) (tg_pull t) (tg_sha t) db")
    case (Some x)
    then show ?thesis using b None w alias_changes [OF ok None Some] by (auto simp: admit_body_def)
  next
    case no: None
    let ?r = "new_request (pn_request p) SubAccepted sid session c t now"
    obtain db1 db2 where a: "admit_attempt reserved most_daily sid now db = Inr db1"
      and i: "insert_request ?r (new_key sid c (pn_request p) now) db1 = Inr db2"
      and j: "insert_receipt env (new_receipt p ?r w now) db2 = Inr db'"
      using b None w no st by (auto simp: admit_body_def result_simps Let_def)
    note w' = admitted_work_Inr [OF w]
    obtain s where s: "s \<in> set (sessions (auth db))" "made_in ?r w s" using session_made [OF st] w' by blast
    have "platform_change env db1 db'"
      by (rule change_admit [OF _ new_request_belongs [OF w] _ s(2) own_key_new _ _ _ i receipt_of_new j])
        (use w' s(1) admit_attempt_cases(2,3) [OF a] in simp_all)
    then show ?thesis using admit_attempt_cases(1) [OF a] changes_more by blast
  qed
qed

lemma request_changes:
  assumes b: "request_body c t i session sid now db = Inr (r, db')"
  shows "platform_changes env db db'"
proof (cases "find (\<lambda>r. submission_key r = call_key sid c) (requests db)")
  case (Some k)
  then show ?thesis using b by (auto simp: request_body_def intro: changes_none)
next
  case None
  let ?r = "new_request i SubReceived sid session c t now"
  obtain w where st: "session_stands session sid (sc_access c) (sc_course c) now (auth db)"
    and w: "admitted_work c t sid now db = Inr w" and j: "insert_request ?r (new_key sid c i now) db = Inr db'"
    using b None by (auto simp: request_body_def result_simps Let_def)
  note w' = admitted_work_Inr [OF w]
  obtain s where s: "s \<in> set (sessions (auth db))" "made_in ?r w s" using session_made [OF st] w' by blast
  show ?thesis
    by (intro one_change change_request [OF _ new_request_belongs [OF w] s own_key_new _ _ _ j]) (use w' in simp_all)
qed

lemma failure_details_Inr: "failure_details st code message = Inr (c, m) \<Longrightarrow> (c \<noteq> None \<longleftrightarrow> failed st) \<and> (m \<noteq> None \<longleftrightarrow> failed st)"
  by (auto simp: failure_details_def result_simps split: if_split_asm)

lemma transition_changes:
  assumes "transition_body i st code message now db = Inr (r, db')"
  shows "platform_changes env db db'"
proof -
  obtain x c m where x: "find (\<lambda>r. rq_id r = i) (requests db) = Some x" "st \<in> set (allowed_submission (rq_state x))"
    and f: "failure_details st code message = Inr (c, m)" and db': "db' = set_request i (move_request st now c m) db"
    using assms by (auto simp: transition_body_def result_simps split: option.split_asm)
  have "x \<in> set (requests db)" "rq_id x = i" using find_SomeD [OF x(1)] by simp_all
  then show ?thesis
    unfolding db' using change_move [of x db st c m env now] x(2) failure_details_Inr [OF f] one_change by metis
qed

lemma accept_changes:
  assumes "accept_body env p sha now db = Inr (r, db')"
  shows "platform_changes env db db'"
proof -
  obtain x w db1 where x: "find (\<lambda>r. rq_id r = pn_request p) (requests db) = Some x" "rq_state x = SubPinning"
    and w: "acceptable now x db = Some w" and i: "insert_receipt env (new_receipt p x w now) db = Inr db1"
    and db': "db' = set_request (rq_id x) (advance_request SubAccepted now) db1"
    using assms by (auto simp: accept_body_def result_simps split: option.split_asm)
  have "x \<in> set (requests db)" using find_SomeD [OF x(1)] by simp
  moreover have "w \<in> set (works db)" "wk_id w = rq_work x" using w by (auto simp: acceptable_def dest: find_SomeD)
  ultimately show ?thesis
    unfolding db' using change_accept [OF _ x(2) _ receipt_of_new i] one_change by blast
qed

lemma grade_changes:
  assumes "grade_body i result score most rubric diagnostics now db = Inr (r, db')" and "0 \<le> score" and "score \<le> most"
  shows "platform_changes env db db'"
proof -
  let ?x = "\<lambda>r c. new_result result r c score most rubric diagnostics now"
  obtain x c db1 where x: "find (\<lambda>r. rq_id r = i) (requests db) = Some x" "rq_state x = SubRunning"
    and c: "find (\<lambda>c. rc_request c = i) (receipts db) = Some c" "most = rc_max c"
    and j: "insert_result (?x x c) db = Inr db1" and db': "db' = set_request i (advance_request SubGraded now) db1"
    using assms(1) by (auto simp: grade_body_def result_simps Let_def split: option.split_asm)
  have m: "x \<in> set (requests db)" "rq_id x = i" "c \<in> set (receipts db)" "rc_request c = i"
    using find_SomeD [OF x(1)] find_SomeD [OF c(1)] by simp_all
  have "result_of (?x x c) (advance_request SubGraded now x) c" "rs_published (?x x c) = None"
    using m c(2) assms(2,3) by (simp_all add: result_of_def new_result_def advance_request_def)
  then show ?thesis
    unfolding db' using change_grade [OF m(1) x(2) m(3) _ _ j] m(2) one_change by blast
qed

lemma publish_changes:
  assumes "publish_body i now db = Inr (r, db')"
  shows "platform_changes env db db'"
proof -
  obtain x where x: "find (\<lambda>r. rq_id r = i) (requests db) = Some x" "rq_state x = SubGraded"
    and db': "db' = set_request i (advance_request SubPublished now)
        (db\<lparr>results := update_where (\<lambda>s. rs_request s = i) (publish_row now) (results db)\<rparr>)"
    using assms by (auto simp: publish_body_def split: option.split_asm)
  have "x \<in> set (requests db)" "rq_id x = i" using find_SomeD [OF x(1)] by simp_all
  then show ?thesis unfolding db' using change_publish [of x db env now] x(2) one_change by metis
qed

section \<open>Operations\<close>

lemma guard_changes:
  "(\<And>x. r = Inr x \<Longrightarrow> platform_changes env db (snd (f x db))) \<Longrightarrow> platform_changes env db (snd (guard r f db))"
  by (cases r) (simp_all add: guard_def changes_none)

lemma transact_changes:
  "(\<And>r db'. body db = Inr (r, db') \<Longrightarrow> platform_changes env db db') \<Longrightarrow> platform_changes env db (snd (transact body db))"
  by (cases "body db") (auto simp: transact_def changes_none)

lemma authorized_changes:
  assumes ok: "platform_ok db"
    and f: "\<And>s p db1. platform_ok db1 \<Longrightarrow> platform_changes env db1 (snd (f s p db1))"
  shows "platform_changes env db (snd (authorized env access course when_v f db))"
proof -
  let ?a = "authorize_access_token (login_env env db) access course when_v True (auth db)"
  have c: "platform_change env db (db\<lparr>auth := snd ?a\<rparr>)" by (rule change_login) (rule step_authorize)
  then have ok1: "platform_ok (db\<lparr>auth := snd ?a\<rparr>)" using change_sound [OF c ok] by (simp add: platform_sound_def)
  show ?thesis
    using one_change [OF c] changes_trans [OF f [OF ok1]]
    by (auto simp: authorized_def split: prod.split sum.split)
qed

lemma reads_changes:
  "platform_ok db \<Longrightarrow> platform_changes env db (snd (authorized env access course when_v (\<lambda>s p db. (g s p db, db)) db))"
  by (rule authorized_changes) (simp_all add: changes_none)

inductive platform_step :: "platform_env \<Rightarrow> platform_db \<Rightarrow> platform_db \<Rightarrow> bool" for env where
  step_login: "auth_step (login_env env db) new (auth db) a \<Longrightarrow> platform_step env db (db\<lparr>auth := a\<rparr>)"
| step_register: "platform_step env db (snd (register_assignment env a when_v db))"
| step_availability: "platform_step env db (snd (set_assignment_availability env i course active ready when_v db))"
| step_list_assignments: "platform_step env db (snd (list_owned_assignments env access course available when_v db))"
| step_get_assignment: "platform_step env db (snd (get_owned_assignment env access course i available when_v db))"
| step_replay: "platform_step env db (snd (find_submission_replay env call repository sha pull most_open most_daily when_v db))"
| step_replay_commit: "platform_step env db (snd (transact (replay_body c target most_open most_daily session sid now) db))"
| step_admit: "platform_step env db (snd (create_accepted_submission env call target p most_open most_daily reserved when_v db))"
| step_admit_commit: "platform_step env db
    (snd (transact (admit_body env c t p most_open most_daily reserved session sid now) db))"
| step_request: "platform_step env db (snd (create_submission_request env call target i when_v db))"
| step_request_commit: "platform_step env db (snd (transact (request_body c t i session sid now) db))"
| step_transition: "platform_step env db (snd (transition_submission env i to_state code message when_v db))"
| step_accept: "platform_step env db (snd (accept_submission env p sha when_v db))"
| step_grade: "platform_step env db (snd (record_graded_result env i result score most rubric diagnostics when_v db))"
| step_publish: "platform_step env db (snd (publish_result env i when_v db))"
| step_get_submission: "platform_step env db (snd (get_owned_submission env access course i when_v db))"
| step_get_latest: "platform_step env db (snd (get_latest_owned_submission env access course i when_v db))"
| step_get_receipt: "platform_step env db (snd (get_owned_receipt env access course i when_v db))"
| step_get_result: "platform_step env db (snd (get_owned_result env access course i when_v db))"

lemma step_changes: "platform_step env db db' \<Longrightarrow> platform_ok db \<Longrightarrow> platform_changes env db db'"
proof (induction rule: platform_step.induct)
  case (step_login db new a)
  then show ?case by (intro one_change change_login)
next
  case (step_register db a when_v)
  show ?case unfolding register_assignment_def
    by (intro guard_changes transact_changes) (auto intro: register_changes dest: check_work_shape)
next
  case (step_availability db)
  show ?case unfolding set_assignment_availability_def
    by (intro guard_changes transact_changes)
      (auto simp: result_simps intro: one_change change_switch split: option.split_asm)
next
  case (step_list_assignments db)
  then show ?case unfolding list_owned_assignments_def by (rule reads_changes)
next
  case (step_get_assignment db)
  then show ?case unfolding get_owned_assignment_def by (intro guard_changes reads_changes)
next
  case (step_replay db)
  then show ?case unfolding find_submission_replay_def
    by (intro guard_changes authorized_changes transact_changes) (auto intro: replay_changes)
next
  case (step_admit db)
  then show ?case unfolding create_accepted_submission_def
    by (intro guard_changes authorized_changes transact_changes) (auto intro: admit_changes)
next
  case (step_request db)
  then show ?case unfolding create_submission_request_def
    by (intro guard_changes authorized_changes transact_changes) (auto intro: request_changes)
next
  case (step_transition db)
  show ?case unfolding transition_submission_def
    by (intro guard_changes transact_changes) (auto intro: transition_changes)
next
  case (step_accept db)
  show ?case unfolding accept_submission_def by (intro guard_changes transact_changes) (auto intro: accept_changes)
next
  case (step_grade db)
  show ?case unfolding record_graded_result_def
    by (intro guard_changes transact_changes) (auto intro: grade_changes dest: score_arg_nonneg)
next
  case (step_publish db)
  show ?case unfolding publish_result_def by (intro guard_changes transact_changes) (auto intro: publish_changes)
next
  case (step_get_submission db)
  then show ?case unfolding get_owned_submission_def by (rule reads_changes)
next
  case (step_get_latest db)
  then show ?case unfolding get_latest_owned_submission_def by (rule reads_changes)
next
  case (step_get_receipt db)
  then show ?case unfolding get_owned_receipt_def by (rule reads_changes)
next
  case (step_get_result db)
  then show ?case unfolding get_owned_result_def by (rule reads_changes)
qed (intro transact_changes, auto intro: replay_changes admit_changes request_changes)+

section \<open>Histories\<close>

inductive platform_later :: "platform_db \<Rightarrow> platform_db \<Rightarrow> bool" where
  platform_now: "platform_later db db"
| platform_next: "platform_later db db1 \<Longrightarrow> platform_step env db1 db2 \<Longrightarrow> platform_later db db2"

lemma step_sound: "platform_step env db db' \<Longrightarrow> platform_ok db \<Longrightarrow> platform_sound db db'"
  using changes_sound [OF step_changes] by blast

lemma later_sound: "platform_later db db' \<Longrightarrow> platform_ok db \<Longrightarrow> platform_sound db db'"
proof (induction rule: platform_later.induct)
  case (platform_next db db1 env db2)
  then have "platform_sound db db1" by simp
  moreover have "platform_sound db1 db2" by (rule step_sound [OF platform_next.hyps(2)]) (use calculation in \<open>simp add: platform_sound_def\<close>)
  ultimately show ?case by (rule platform_sound_trans)
qed (rule platform_sound_refl)

lemma init_platform_ok: "platform_ok init_platform"
  using init_auth_ok by (simp add: platform_ok_def platform_keys_def platform_links_def init_platform_def)

lemma reached_platform_ok: "platform_later init_platform db \<Longrightarrow> platform_ok db"
  using later_sound [OF _ init_platform_ok] by (simp add: platform_sound_def)

end
