(* ===== verification/Sub_Facts.thy ===== *)
theory Sub_Facts
  imports Sub_Steps Auth_Facts
begin

text \<open>
  What a successful call on submissions says: the session behind it, the assignment it was admitted
  for, the rows it wrote. A validator accepts what it returned and returns it unchanged, so the second
  check of an access token looks at the same text as the first.
\<close>

section \<open>Validators\<close>

lemma verifier_normal: "verifier_arg v = Inr h \<Longrightarrow> verifier_arg h = Inr h"
proof -
  assume "verifier_arg v = Inr h"
  then have h: "length h = 64" "\<forall>c\<in>set h. c \<in> set ''0123456789abcdef''"
    by (auto simp: verifier_arg_def Let_def result_simps simp del: list.set insert_iff)
  have "\<forall>c\<in>set ''0123456789abcdef''. \<not> py_space c \<and> lower_char c = c \<and> c \<noteq> CHR ''s''"
    by code_simp
  then have c: "\<not> py_space c \<and> lower_char c = c \<and> c \<noteq> CHR ''s''" if "c \<in> set h" for c
    using h(2) that by blast
  have ne: "h \<noteq> []" using h(1) by auto
  then have "strip h = h" using c strip_fix_iff by (metis hd_in_set last_in_set)
  then have t: "text_arg h = Inr h" using ne by (simp add: text_arg_def required_text_def)
  have l: "lower h = h" using c by (simp add: lower_def map_idI)
  have "\<not> starts_with ''sha256:'' h" using c ne by (cases h) (auto simp: starts_with_def)
  then show "verifier_arg h = Inr h" using h t l by (simp add: verifier_arg_def Let_def demand_def)
qed

lemma text_normal: "text_arg v = Inr t \<Longrightarrow> text_arg t = Inr t"
  using required.stable by (auto simp: text_arg_def)

lemma check_call_Inr:
  "check_call call = Inr c \<Longrightarrow> verifier_arg (sc_access call) = Inr (sc_access c) \<and> text_arg (sc_course call) = Inr (sc_course c)"
  by (auto simp: check_call_def result_simps)

lemma authorize_normal:
  assumes "verifier_arg access = Inr h" and "text_arg course = Inr c"
  shows "authorize_access_token env access course when_v touch db = authorize_access_token env h c when_v touch db"
  by (simp add: authorize_access_token_def guard_def assms verifier_normal [OF assms(1)] text_normal [OF assms(2)])

section \<open>The access token\<close>

text \<open>An accepted token: its session, its student, and the touched row that is left.\<close>

lemma authorize_rows:
  assumes "authorize_access_token env access course when_v True db = (Inr (s, p), a)"
  obtains h c now s0 f where "verifier_arg access = Inr h" "text_arg course = Inr c" "stamp env when_v = Inr now"
    "s0 \<in> set (sessions db)" "s = touch_session now s0" "se_access s0 = h" "se_course s0 = c" "se_revoked s0 = None"
    "now < se_access_expires s0" "p \<in> set (students db)" "st_id p = se_student s0" "st_active p" "f \<in> set (families db)"
    "tf_id f = se_family s0" "tf_course f = c" "tf_revoked f = None" "tf_compromised f = None"
    "active_enrollment (se_student s0) c db \<noteq> None"
    "a = db\<lparr>sessions := update_where (\<lambda>x. se_id x = se_id s0) (touch_session now) (sessions db)\<rparr>"
proof -
  obtain h c now where n: "verifier_arg access = Inr h" "text_arg course = Inr c" "stamp env when_v = Inr now"
    and b: "authorize_body True h c now db = Inr (Inr (s, p), a)"
    using assms by (auto simp: authorize_access_token_def guard_def transact_def split: sum.split_asm)
  have "access_row h c db \<noteq> None"
  proof
    assume "access_row h c db = None"
    then show False using b by (simp add: authorize_body_def)
  qed
  then obtain s0 q f where r: "access_row h c db = Some (s0, q, f)" by auto
  have d: "se_revoked s0 = None" "tf_revoked f = None" "tf_compromised f = None" "now < se_access_expires s0" "st_active q"
      "active_enrollment (se_student s0) c db \<noteq> None"
    and e: "s = touch_session now s0" "p = q"
      "a = db\<lparr>sessions := update_where (\<lambda>x. se_id x = se_id s0) (touch_session now) (sessions db)\<rparr>"
    using b by (auto simp: authorize_body_def r)
  have m: "s0 \<in> set (sessions db)" "se_access s0 = h" "se_course s0 = c" "q \<in> set (students db)" "st_id q = se_student s0"
    "f \<in> set (families db)" "tf_id f = se_family s0" "tf_course f = c"
    using r by (auto simp: access_row_def bind_eq_Some_conv dest!: find_SomeD)
  show thesis by (rule that [OF n m(1) e(1) m(2,3) d(1,4)]) (use m d e in simp_all)
qed

lemma touch_fields [simp]:
  "se_id (touch_session t s) = se_id s" "se_student (touch_session t s) = se_student s" "se_access (touch_session t s) = se_access s"
  "se_course (touch_session t s) = se_course s" "se_family (touch_session t s) = se_family s"
  "se_access_expires (touch_session t s) = se_access_expires s"
  by (simp_all add: touch_session_def)

text \<open>Without a call in between, the second check of the session succeeds.\<close>

lemma authorize_stands:
  assumes "authorize_access_token env access course when_v True db = (Inr (s, p), a)"
    and "verifier_arg access = Inr access" and "text_arg course = Inr course" and "stamp env when_v = Inr now"
  shows "session_stands (se_id s) (st_id p) access course now a"
  using assms(1)
proof (rule authorize_rows)
  fix h c now' s0 f
  assume *: "verifier_arg access = Inr h" "text_arg course = Inr c" "stamp env when_v = Inr now'"
    "s0 \<in> set (sessions db)" "s = touch_session now' s0" "se_access s0 = h" "se_course s0 = c" "se_revoked s0 = None"
    "now' < se_access_expires s0" "p \<in> set (students db)" "st_id p = se_student s0" "st_active p" "f \<in> set (families db)"
    "tf_id f = se_family s0" "tf_course f = c" "tf_revoked f = None" "tf_compromised f = None"
    "a = db\<lparr>sessions := update_where (\<lambda>x. se_id x = se_id s0) (touch_session now') (sessions db)\<rparr>"
  have n: "h = access" "c = course" "now' = now" using * assms(2-4) by simp_all
  have s: "touch_session now s0 \<in> set (sessions a)" using *(4) by (auto simp: *(18) set_update_where n(3) image_iff)
  show ?thesis
    unfolding session_stands_def
    by (rule bexI [OF _ s]) (use * n in \<open>auto simp: touch_session_def\<close>)
qed

section \<open>Admissions\<close>

lemma stamp_text:
  assumes "stamp env v = Inr now" and "utc_dtime (clock env)" and "valid_value v"
  shows "stamp env (Some (DtText now)) = Inr now"
proof -
  have i: "utc_iso (clock env) v = Inr now" using assms(1) by (simp add: stamp_def)
  show ?thesis by (rule utc_iso_cases [OF i assms(2,3)]) (simp add: stamp_def utc_iso_normal_form lift_def)
qed

text \<open>An admission is one transaction after the check of the token.\<close>

lemma admission_shape:
  assumes "create_accepted_submission env call target p most_open most_daily reserved when_v db = (Inr out, db')"
  obtains c t pp day now s q a where "check_call call = Inr c" "check_target target = Inr t" "check_pin p = Inr pp"
    "optional_arg day_arg reserved = Inr day" "0 < most_open" "0 < most_daily" "stamp (logins env) when_v = Inr now"
    "authorize_access_token (login_env env db) (sc_access c) (sc_course c) (Some (DtText now)) True (auth db) = (Inr (s, q), a)"
    "admit_body env c t pp most_open most_daily day (se_id s) (st_id q) now (db\<lparr>auth := a\<rparr>) = Inr (Inr out, db')"
  using assms
  by (auto simp: create_accepted_submission_def guard_def authorized_def transact_def positive_arg_def demand_def
      split: sum.split_asm prod.split_asm if_split_asm)

lemma admission_calls:
  assumes "check_call call = Inr c" "check_target target = Inr t" "check_pin p = Inr pp"
    "optional_arg day_arg reserved = Inr day" "0 < most_open" "0 < most_daily" "stamp (logins env) when_v = Inr now"
    "authorize_access_token (login_env env db) (sc_access c) (sc_course c) (Some (DtText now)) True (auth db) = (Inr (s, q), a)"
  shows "create_accepted_submission env call target p most_open most_daily reserved when_v db =
    transact (admit_body env c t pp most_open most_daily day (se_id s) (st_id q) now) (db\<lparr>auth := a\<rparr>)"
  using assms by (simp add: create_accepted_submission_def guard_def authorized_def positive_arg_def demand_def)

lemma admitted_fresh:
  assumes "admit_body env c t p most_open most_daily reserved session sid now db = Inr (Inr (r, False), db')"
  obtains w db1 where "session_stands session sid (sc_access c) (sc_course c) now (auth db)"
    "admitted_work c t sid now db = Inr w" "outstanding_requests sid db < most_open"
    "admit_attempt reserved most_daily sid now db = Inr db1"
    "r = new_request (pn_request p) SubAccepted sid session c t now"
    "db' = db1\<lparr>requests := requests db1 @ [r], request_keys := request_keys db1 @ [new_key sid c (rq_id r) now],
       receipts := receipts db1 @ [new_receipt p r w now]\<rparr>"
  using assms
  by (auto simp: admit_body_def result_simps Let_def insert_request_def insert_receipt_def add_key_def
      split: option.split_asm prod.split_asm)

lemma login_env_stamp [simp]: "stamp (login_env env db) v = stamp (logins env) v"
  by (simp add: stamp_def login_env_def)

end
