(* ===== verification/Sub_Scenario.thy ===== *)
theory Sub_Scenario
  imports Sub_Facts Auth_Scenario
begin

text \<open>
  One history of a submission: the student of \<open>Auth_Scenario\<close>, logged in with a first device, is given
  an assignment, submits a commit of its repository, and the submission is queued, run, graded and
  published. Every state is the value of the call before it.
\<close>

section \<open>Arguments\<close>

definition penv0 :: platform_env where
  "penv0 = \<lparr>logins = env0, erased = (\<lambda>_. False)\<rparr>"

definition oid1 :: string where "oid1 = replicate 40 CHR ''a''"

definition args1 :: work_args where
  "args1 = \<lparr>wa_id = ''w1'', wa_student = 1, wa_course = ''cs1'', wa_key = ''hw'', wa_release = ''r1'', wa_repository = 5,
     wa_owner = ''org'', wa_name = ''repo'', wa_url = ''url'', wa_mode = ''branch'', wa_target = ''main'',
     wa_policy = ''immediate'', wa_base = None, wa_path = ''.'', wa_assessment = ''tests'',
     wa_assessment_digest = hex CHR ''0'', wa_image = ''pilot-local:v1'', wa_rubric = ''v1'', wa_max = PyInt 10,
     wa_data = None, wa_dataset_digest = '''', wa_opens = None, wa_due = Some (DtObj (tm 12)), wa_active = True,
     wa_ready = True\<rparr>"

definition work1 :: work_row where
  "work1 = \<lparr>wk_id = ''w1'', wk_student = 1, wk_course = ''cs1'', wk_key = ''hw'', wk_release = ''r1'', wk_repository = 5,
     wk_owner = ''org'', wk_name = ''repo'', wk_url = ''url'', wk_mode = ModeBranch, wk_target = ''main'', wk_base = None,
     wk_path = ''.'', wk_policy = PolicyImmediate, wk_assessment = ''tests'', wk_data = None,
     wk_assessment_digest = ''sha256:'' @ hex CHR ''0'', wk_dataset_digest = '''', wk_image = ''pilot-local:v1'',
     wk_rubric = ''v1'', wk_max = 10, wk_opens = None, wk_due = Some t12, wk_active = True, wk_ready = True,
     wk_created = t9, wk_updated = t9\<rparr>"

definition scall1 :: submission_call where
  "scall1 = \<lparr>sc_access = hex CHR ''4'', sc_course = ''cs1'', sc_work = ''w1'', sc_key = ''once'', sc_hash = hex CHR ''6'',
     sc_endpoint = ''api''\<rparr>"

definition target1 :: submission_target where
  "target1 = \<lparr>tg_repository = 5, tg_sha = oid1, tg_pull = None\<rparr>"

definition pin1 :: pin where
  "pin1 = \<lparr>pn_request = ''p1'', pn_receipt = ''c1'', pn_source = ''src'', pn_digest = hex CHR ''7'', pn_snapshot = None\<rparr>"

definition pinned1 :: pin where
  "pinned1 = pin1\<lparr>pn_digest := ''sha256:'' @ hex CHR ''7''\<rparr>"

lemma more_arguments [simp]:
  "text_arg ''w1'' = Inr ''w1''" "text_arg ''hw'' = Inr ''hw''" "text_arg ''r1'' = Inr ''r1''" "text_arg ''org'' = Inr ''org''"
  "text_arg ''repo'' = Inr ''repo''" "text_arg ''main'' = Inr ''main''" "text_arg ''.'' = Inr ''.''"
  "text_arg ''tests'' = Inr ''tests''" "text_arg ''v1'' = Inr ''v1''" "text_arg ''once'' = Inr ''once''"
  "text_arg ''api'' = Inr ''api''" "text_arg ''p1'' = Inr ''p1''" "text_arg ''c1'' = Inr ''c1''" "text_arg ''src'' = Inr ''src''"
  "text_arg ''x1'' = Inr ''x1''"
  by (rule text_arg_same; simp add: py_space_def)+

lemma work_arguments [simp]:
  "lift (clone_url ''url'') = Inr ''url''" "mode_arg ''branch'' = Inr ModeBranch" "policy_arg ''immediate'' = Inr PolicyImmediate"
  "subpath_arg ''.'' = Inr ''.''" "image_arg ''pilot-local:v1'' = Inr ''pilot-local:v1''" "score_arg (PyInt 10) = Inr 10"
  "optional_digest_arg '''' = Inr ''''" "score_arg (PyInt 7) = Inr 7"
  by code_simp+

lemma digest_hex [simp]: "c \<in> set ''0123456789'' \<Longrightarrow> digest_arg (hex c) = Inr (''sha256:'' @ hex c)"
  by (simp add: digest_arg_def)

lemma oid1_arg [simp]: "oid_arg oid1 = Inr oid1"
  unfolding oid1_def by code_simp

lemma penv0_fields [simp]: "logins penv0 = env0" "\<not> erased penv0 c"
  by (simp_all add: penv0_def)

lemma check_work1: "check_work penv0 args1 at9 = Inr work1"
  by (simp add: check_work_def args1_def work1_def optional_arg_def base_arg_def window_ok_def demand_def)

lemma checks1 [simp]: "check_call scall1 = Inr scall1" "check_target target1 = Inr target1" "check_pin pin1 = Inr pinned1"
  by (simp_all add: check_call_def check_target_def check_pin_def optional_arg_def scall1_def target1_def pin1_def pinned1_def)

lemma stamp_t9 [simp]: "stamp env0 (Some (DtText t9)) = Inr t9"
  by (rule stamp_text [OF stamps(1)]) (use tm_valid(2) in \<open>simp_all add: env0_def valid_value_def utc_dtime_def\<close>)

section \<open>The history\<close>

definition p0 :: platform_db where "p0 = init_platform\<lparr>auth := a5\<rparr>"
definition p1 :: platform_db where "p1 = p0\<lparr>works := [work1]\<rparr>"

definition seen5 :: auth_db where "seen5 = a5\<lparr>sessions := [touch_session t9 session1]\<rparr>"

definition request1 :: request_row where
  "request1 = new_request ''p1'' SubAccepted 1 ''s1'' scall1 target1 t9"
definition receipt1 :: submission_receipt where "receipt1 = new_receipt pinned1 request1 work1 t9"
definition result1 :: result_row where
  "result1 = new_result ''x1'' request1 receipt1 7 10 ''{}'' ''[]'' t9"

definition p2 :: platform_db where
  "p2 = p1\<lparr>auth := seen5, requests := [request1], request_keys := [new_key 1 scall1 ''p1'' t9], receipts := [receipt1],
     attempts := [\<lparr>ad_student = 1, ad_day = take 10 t9, ad_attempts = 1, ad_updated = t9\<rparr>]\<rparr>"

definition queued1 :: request_row where "queued1 = move_request SubQueued t9 None None request1"
definition running1 :: request_row where "running1 = move_request SubRunning t9 None None queued1"
definition graded1 :: request_row where "graded1 = advance_request SubGraded t9 running1"
definition published1 :: request_row where "published1 = advance_request SubPublished t9 graded1"

definition p3 :: platform_db where "p3 = p2\<lparr>requests := [queued1]\<rparr>"
definition p4 :: platform_db where "p4 = p2\<lparr>requests := [running1]\<rparr>"
definition p5 :: platform_db where "p5 = p2\<lparr>requests := [graded1], results := [result1]\<rparr>"
definition p6 :: platform_db where "p6 = p2\<lparr>requests := [published1], results := [publish_row t9 result1]\<rparr>"

lemmas sub_rows = request1_def receipt1_def result1_def queued1_def running1_def graded1_def published1_def new_request_def
  new_receipt_def new_result_def move_request_def advance_request_def publish_row_def work1_def scall1_def target1_def
  pin1_def pinned1_def new_key_def

lemma a5_fields: "sessions a5 = [session1]" "families a5 = [family1]" "students a5 = [student1]" "enrollments a5 = [enrollment1]"
  by (simp_all add: a5_def)

lemma p0_fields [simp]:
  "auth p0 = a5" "works p0 = []" "requests p0 = []" "request_keys p0 = []" "receipts p0 = []" "results p0 = []" "attempts p0 = []"
  by (simp_all add: p0_def init_platform_def)

lemma enrolled1: "auth db = a5 \<or> auth db = seen5 \<Longrightarrow> enrolled 1 ''cs1'' db"
  by (auto simp: enrolled_def active_enrollment_def seen5_def a5_def enrollment1_def)

lemma pcall1: "register_assignment penv0 args1 at9 p0 = (Inr work1, p1)"
  by (simp add: register_assignment_def guard_pass [OF check_work1] transact_def register_work_body_def insert_work_def demand_def
      enrolled1 p1_def work1_def)

lemma token1_accepted:
  "authorize_access_token (login_env penv0 p1) (hex CHR ''4'') ''cs1'' (Some (DtText t9)) True a5 =
    (Inr (touch_session t9 session1, student1), seen5)"
proof -
  have "stamp (login_env penv0 p1) (Some (DtText t9)) = Inr t9" by simp
  then show ?thesis
    by (simp add: authorize_access_token_def call authorize_body_def access_row_def active_enrollment_def a5_def seen5_def
        update_where_code rows)
qed

lemma token1_again:
  "authorize_access_token (login_env penv0 db) (hex CHR ''4'') ''cs1'' (Some (DtText t9)) True seen5 =
    (Inr (touch_session t9 session1, student1), seen5)"
proof -
  have "stamp (login_env penv0 db) (Some (DtText t9)) = Inr t9" by simp
  then show ?thesis
    by (simp add: authorize_access_token_def call authorize_body_def access_row_def active_enrollment_def a5_def seen5_def
        update_where_code touch_session_def rows)
qed

lemma stands1: "session_stands ''s1'' 1 (hex CHR ''4'') ''cs1'' t9 seen5"
  by (simp add: session_stands_def seen5_def a5_def touch_session_def rows)

lemma pcall2: "create_accepted_submission penv0 scall1 target1 pin1 3 50 None at9 p1 = (Inr (request1, False), p2)"
proof -
  have a: "authorize_access_token (login_env penv0 p1) (sc_access scall1) (sc_course scall1) (Some (DtText t9)) True (auth p1) =
      (Inr (touch_session t9 session1, student1), seen5)"
    using token1_accepted by (simp add: scall1_def p1_def)
  have s: "se_id session1 = ''s1''" "st_id student1 = 1" by (simp_all add: rows)
  show ?thesis
    using stands1 enrolled1
    by (subst admission_calls [OF checks1 _ _ _ _ a, where day = None])
      (simp_all add: s optional_arg_def transact_def admit_body_def admitted_work_def own_works_def open_at_def fits_work_def demand_def
        stored_key_def semantic_match_def oldest_first_def outstanding_requests_def admit_attempt_def reserve_attempt_def
        attempts_of_def count_attempt_def insert_request_def insert_receipt_def add_key_def Let_def p1_def p2_def sub_rows)
qed

lemma pcall3: "transition_submission penv0 ''p1'' ''queued'' None None at9 p2 = (Inr queued1, p3)"
proof -
  have "submission_state_arg ''queued'' = Inr SubQueued" by code_simp
  then show ?thesis
    by (simp add: transition_submission_def call transition_body_def failure_details_def failed_def set_request_def
        update_where_code p2_def p3_def sub_rows)
qed

lemma pcall4: "transition_submission penv0 ''p1'' ''running'' None None at9 p3 = (Inr running1, p4)"
proof -
  have "submission_state_arg ''running'' = Inr SubRunning" by code_simp
  then show ?thesis
    by (simp add: transition_submission_def call transition_body_def failure_details_def failed_def set_request_def
        update_where_code p3_def p4_def sub_rows)
qed

lemma no_details [simp]: "rubric_arg None = Inr ''{}''" "diagnostics_arg None = Inr ''[]''"
  by code_simp+

lemma pcall5: "record_graded_result penv0 ''p1'' ''x1'' (PyInt 7) (PyInt 10) None None at9 p4 = (Inr (graded1, result1), p5)"
  by (simp add: record_graded_result_def call grade_body_def insert_result_def set_request_def update_where_code p2_def p4_def
      p5_def p1_def Let_def sub_rows)

lemma pcall6: "publish_result penv0 ''p1'' at9 p5 = (Inr (published1, publish_row t9 result1), p6)"
  by (simp add: publish_result_def call publish_body_def set_request_def update_where_code p5_def p6_def Let_def sub_rows)

lemma pcall7: "get_owned_result penv0 (hex CHR ''4'') ''cs1'' ''p1'' (Some (DtText t9)) p6 = (Inr (publish_row t9 result1), p6)"
proof -
  have a: "auth p6 = seen5" "p6\<lparr>auth := seen5\<rparr> = p6" by (simp_all add: p6_def p2_def)
  show ?thesis
    using enrolled1 [of p6]
    by (simp add: get_owned_result_def authorized_def a token1_again owned_request_def own_requests_def)
      (simp add: p6_def p2_def p1_def demand_def rows sub_rows)
qed

section \<open>It is a history\<close>

text \<open>As long as nothing was submitted, a history of logins is a history of the platform.\<close>

lemma login_history:
  "auth_later new a b \<Longrightarrow> auth db = a \<Longrightarrow> requests db = [] \<Longrightarrow> platform_later db (db\<lparr>auth := b\<rparr>)"
proof (induction rule: auth_later.induct)
  case (later_now a)
  then have "db\<lparr>auth := a\<rparr> = db" by simp
  then show ?case by (simp add: platform_now)
next
  case (later_step new a a1 env added a2)
  let ?e = "\<lparr>logins = env, erased = \<lambda>_. False\<rparr>"
  have "login_env ?e (db\<lparr>auth := a1\<rparr>) = env" using later_step.prems by (simp add: login_env_def)
  then have "platform_step ?e (db\<lparr>auth := a1\<rparr>) ((db\<lparr>auth := a1\<rparr>)\<lparr>auth := a2\<rparr>)"
    using later_step.hyps(2) by (intro step_login) simp
  then show ?case using later_step.IH [OF later_step.prems] platform_next by fastforce
qed

lemma platform_call: "p = (r, db') \<Longrightarrow> platform_later a db \<Longrightarrow> platform_step env db (snd p) \<Longrightarrow> platform_later a db'"
  by (auto intro: platform_next)

lemma platform0: "platform_later init_platform p0"
  unfolding p0_def by (rule login_history [OF history5]) (simp_all add: init_platform_def)

lemma platform1: "platform_later init_platform p1"
  by (rule platform_call [OF pcall1 platform0 step_register])

lemma platform2: "platform_later init_platform p2"
  by (rule platform_call [OF pcall2 platform1 step_admit])

lemma platform24: "platform_later p2 p4"
  by (rule platform_call [OF pcall4 platform_call [OF pcall3 platform_now step_transition] step_transition])

lemma platform4: "platform_later init_platform p4"
  by (rule platform_call [OF pcall4 platform_call [OF pcall3 platform2 step_transition] step_transition])

lemma platform6: "platform_later init_platform p6"
  by (rule platform_call [OF pcall6 platform_call [OF pcall5 platform4 step_grade] step_publish])

lemma platform46: "platform_later p4 p6"
  by (rule platform_call [OF pcall6 platform_call [OF pcall5 platform_now step_grade] step_publish])

end
