(* ===== verification/Sub_Properties.thy ===== *)
theory Sub_Properties
  imports Sub_Scenario
begin

text \<open>
  The properties of assignments and submissions, each with its witness on the history of
  \<open>Sub_Scenario\<close>.
\<close>

section \<open>Every reachable state\<close>

text \<open>C21: In every state that the operations reach, in any order and with other calls between the check
  of an access token and the transaction that follows, the submission tables fit together: all keys are
  unique; an assignment belongs to an enrollment, has a maximum that is not negative, and its deadline
  lies after its opening; a request belongs to its student's assignment, names its repository and a
  session of the student in the course, and has its own idempotency key; a receipt pins exactly the
  inputs of the assignment and the commit that was asked for; a result carries the receipt's commit and
  maximum and a score within it; failure details are there exactly for failed requests; an accepted
  request has a receipt, a graded one an unpublished result, a published one a published result.\<close>

theorem submissions_consistent:
  assumes "platform_later init_platform db"
  shows "platform_ok db"
  using assms by (rule reached_platform_ok)

lemma submissions_consistent_witness: "platform_ok p6"
  using submissions_consistent [OF platform6] .

text \<open>C22: Nothing a student handed in is taken back. In every later state a request is still there with
  its student, session, assignment, repository and commit; its row is the same or its state moved along
  the transition table; its receipt stands unchanged; and its result stands, but that an unpublished one
  may have been published.\<close>

theorem submissions_stand:
  assumes "platform_later init_platform db" and "platform_later db db'" and "r \<in> set (requests db)"
  shows "(\<exists>r'\<in>set (requests db'). request_same r r' \<and> (r' = r \<or> submission_moves\<^sup>+\<^sup>+ (rq_state r) (rq_state r'))) \<and>
    (\<forall>c\<in>set (receipts db). rc_request c = rq_id r \<longrightarrow> c \<in> set (receipts db')) \<and>
    (\<forall>x\<in>set (results db). rs_request x = rq_id r \<longrightarrow>
       (\<exists>x'\<in>set (results db'). x' = x \<or> (rs_published x = None \<and> (\<exists>t. x' = publish_row t x))))"
proof -
  have k: "platform_kept db db'"
    using later_sound [OF assms(2) reached_platform_ok [OF assms(1)]] by (simp add: platform_sound_def)
  then have "rows_later request_later (requests db) (requests db')" "set (receipts db) \<subseteq> set (receipts db')"
    "rows_later result_later (results db) (results db')"
    using set_mono_prefix by (auto simp: platform_kept_def)
  then show ?thesis
    using assms(3) unfolding rows_later_def request_later_def result_later_def by blast
qed

lemma submissions_stand_witness:
  "\<exists>r'\<in>set (requests p6). request_same running1 r' \<and> (r' = running1 \<or> submission_moves\<^sup>+\<^sup>+ SubRunning (rq_state r'))"
proof -
  have "running1 \<in> set (requests p4)" "rq_state running1 = SubRunning" by (simp_all add: p4_def running1_def)
  then show ?thesis using submissions_stand [OF platform4 platform46] by metis
qed

section \<open>A submission ends\<close>

text \<open>The row of a submission along a history, and how often it changed.\<close>

definition row_of :: "string \<Rightarrow> platform_db \<Rightarrow> request_row option" where
  "row_of i db = find (\<lambda>r. rq_id r = i) (requests db)"

inductive changing :: "string \<Rightarrow> nat \<Rightarrow> platform_db \<Rightarrow> platform_db \<Rightarrow> bool" for i where
  changing_now: "changing i 0 db db"
| changing_same: "changing i n db db1 \<Longrightarrow> platform_step env db1 db2 \<Longrightarrow> row_of i db2 = row_of i db1 \<Longrightarrow> changing i n db db2"
| changing_more: "changing i n db db1 \<Longrightarrow> platform_step env db1 db2 \<Longrightarrow> row_of i db2 \<noteq> row_of i db1 \<Longrightarrow>
    changing i (Suc n) db db2"

fun submission_rank :: "submission_state \<Rightarrow> nat" where
  "submission_rank SubReceived = 1"
| "submission_rank SubVerifying = 2"
| "submission_rank SubPinning = 3"
| "submission_rank SubAccepted = 4"
| "submission_rank SubQueued = 5"
| "submission_rank SubRunning = 6"
| "submission_rank SubGraded = 7"
| "submission_rank SubPublished = 8"
| "submission_rank SubRejected = 8"
| "submission_rank SubInfraFailed = 8"
| "submission_rank SubAssessmentFailed = 8"

definition row_rank :: "request_row option \<Rightarrow> nat" where
  "row_rank r = (case r of None \<Rightarrow> 0 | Some r \<Rightarrow> submission_rank (rq_state r))"

lemma rank_bounds: "0 < submission_rank st" "submission_rank st \<le> 8"
  by (cases st; simp)+

lemma rank_moves: "submission_moves a b \<Longrightarrow> submission_rank a < submission_rank b"
  by (cases a) (auto simp: submission_moves_def)

lemma rank_moves_plus: "submission_moves\<^sup>+\<^sup>+ a b \<Longrightarrow> submission_rank a < submission_rank b"
  by (induction rule: tranclp_induct) (auto dest: rank_moves intro: less_trans)

lemma row_of_Some: "platform_ok db \<Longrightarrow> row_of i db = Some r \<longleftrightarrow> r \<in> set (requests db) \<and> rq_id r = i"
proof -
  assume "platform_ok db"
  then have d: "distinct (map rq_id (requests db))" by (simp add: platform_ok_def platform_keys_def)
  show ?thesis
    using select_by_iff [OF d, of i r] by (simp add: row_of_def select_by_def)
qed

lemma row_rank_later:
  assumes ok: "platform_ok db" and s: "platform_sound db db'"
  shows "row_rank (row_of i db) \<le> row_rank (row_of i db') \<and>
    (row_of i db' \<noteq> row_of i db \<longrightarrow> row_rank (row_of i db) < row_rank (row_of i db'))"
proof (cases "row_of i db")
  case None
  then show ?thesis using rank_bounds(1) by (auto simp: row_rank_def split: option.split)
next
  case (Some r)
  then have r: "r \<in> set (requests db)" "rq_id r = i" using row_of_Some [OF ok] by simp_all
  then obtain r' where r': "r' \<in> set (requests db')" "request_same r r'" "r' = r \<or> submission_moves\<^sup>+\<^sup>+ (rq_state r) (rq_state r')"
    using s by (auto simp: platform_sound_def platform_kept_def rows_later_def request_later_def)
  then have "row_of i db' = Some r'"
    using row_of_Some [of db'] s r(2) request_same_fields(1) [OF r'(2)] by (simp add: platform_sound_def)
  then show ?thesis using Some r'(3) by (auto simp: row_rank_def dest!: rank_moves_plus)
qed

lemma changing_count:
  "changing i n db db' \<Longrightarrow> platform_ok db \<Longrightarrow> platform_ok db' \<and> row_rank (row_of i db) + n \<le> row_rank (row_of i db')"
proof (induction rule: changing.induct)
  case (changing_same n db db1 env db2)
  then have ok: "platform_ok db1" by simp
  show ?case
    using changing_same row_rank_later [OF ok step_sound [OF changing_same.hyps(2) ok], of i] step_sound [OF changing_same.hyps(2) ok]
    by (simp add: platform_sound_def)
next
  case (changing_more n db db1 env db2)
  then have ok: "platform_ok db1" by simp
  show ?case
    using changing_more row_rank_later [OF ok step_sound [OF changing_more.hyps(2) ok], of i] step_sound [OF changing_more.hyps(2) ok]
    by (auto simp: platform_sound_def)
qed simp

text \<open>C23: The life of a submission ends. From any reachable state on, however many steps follow, its row
  changes at most eight times, its creation included, and at most seven times once it is there.\<close>

theorem submission_moves_end:
  assumes "platform_later init_platform db" and "changing i n db db'"
  shows "n \<le> (if row_of i db = None then 8 else 7)"
proof -
  have "row_rank (row_of i db) + n \<le> row_rank (row_of i db')"
    using changing_count [OF assms(2) reached_platform_ok [OF assms(1)]] by simp
  moreover have "row_rank (row_of i db') \<le> 8" using rank_bounds(2) by (simp add: row_rank_def split: option.split)
  moreover have "row_of i db \<noteq> None \<Longrightarrow> 1 \<le> row_rank (row_of i db)"
    using rank_bounds(1) by (auto simp: row_rank_def Suc_le_eq split: option.split)
  ultimately show ?thesis by auto
qed

lemma submission_moves_end_witness: "Suc (Suc 0) \<le> (7::nat)"
proof -
  have step: "platform_step penv0 p4 p5" "platform_step penv0 p5 p6"
    using step_grade [of penv0 p4 "''p1''" "''x1''" "PyInt 7" "PyInt 10" None None at9] step_publish [of penv0 p5 "''p1''" at9]
    by (simp_all only: pcall5 pcall6 snd_conv)
  have row: "row_of ''p1'' p4 = Some running1" "row_of ''p1'' p5 = Some graded1" "row_of ''p1'' p6 = Some published1"
    by (simp_all add: row_of_def p4_def p5_def p6_def sub_rows)
  have "graded1 \<noteq> running1" "published1 \<noteq> graded1" by (simp_all add: sub_rows)
  then have "changing ''p1'' (Suc (Suc 0)) p4 p6"
    by (intro changing_more [OF changing_more [OF changing_now step(1)] step(2)]) (simp_all add: row)
  from submission_moves_end [OF platform4 this] show ?thesis by (simp only: row option.distinct if_False)
qed

section \<open>Admission\<close>

lemma outstanding_append:
  "outstanding_requests sid (db\<lparr>requests := requests db @ [r], request_keys := ks, receipts := cs\<rparr>) =
    outstanding_requests sid db + (if rq_student r = sid \<and> in_work (rq_state r) then 1 else 0)"
  by (simp add: outstanding_requests_def)

lemma counted_attempt: "attempts_of sid day (count_attempt sid day now db) = attempts_of sid day db + 1"
proof -
  let ?P = "\<lambda>c. ad_student c = sid \<and> ad_day c = day"
  let ?f = "\<lambda>c. c\<lparr>ad_attempts := ad_attempts c + 1, ad_updated := now\<rparr>"
  have u: "find ?P (update_where ?P ?f cs) = map_option ?f (find ?P cs)" for cs
    by (induction cs) (auto simp: update_where_def)
  have n: "find ?P (cs @ [x]) = (if ?P x then Some x else None)" if "find ?P cs = None" for cs and x :: attempt_row
    using that by (induction cs) (auto split: if_split_asm)
  have t: "taken (\<lambda>c. (ad_student c, ad_day c)) (sid, day) cs \<longleftrightarrow> find ?P cs \<noteq> None" for cs :: "attempt_row list"
    by (auto simp: find_None_iff image_iff)
  show ?thesis
    by (cases "find ?P (attempts db)") (simp_all add: attempts_of_def count_attempt_def t u n)
qed

lemma authorize_session:
  assumes "authorize_access_token env access course when_v True db = (Inr (s, p), a)"
  shows "\<exists>t i. a = db\<lparr>sessions := update_where (\<lambda>x. se_id x = i) (touch_session t) (sessions db)\<rparr>"
  using assms by (rule authorize_rows) blast

text \<open>A session that a transaction finds standing, in the rows before it was seen.\<close>

definition presented_session :: "submission_call \<Rightarrow> string \<Rightarrow> int \<Rightarrow> session_row \<Rightarrow> auth_db \<Rightarrow> bool" where
  "presented_session call now sid s a = (s \<in> set (sessions a) \<and> se_student s = sid \<and>
     verifier_arg (sc_access call) = Inr (se_access s) \<and> text_arg (sc_course call) = Inr (se_course s) \<and>
     se_revoked s = None \<and> now < se_access_expires s \<and>
     (\<exists>f\<in>set (families a). tf_id f = se_family s \<and> tf_revoked f = None \<and> tf_compromised f = None) \<and>
     (\<exists>p\<in>set (students a). st_id p = sid \<and> st_active p))"

lemma standing_session:
  assumes k: "check_call call = Inr c" and st: "session_stands i sid (sc_access c) (sc_course c) now a"
    and a: "a = db\<lparr>sessions := update_where P (touch_session t) (sessions db)\<rparr>"
  shows "\<exists>s. presented_session call now sid s db \<and> se_id s = i \<and> se_course s = sc_course c"
proof -
  note n = check_call_Inr [OF k]
  obtain x where x: "x \<in> set (sessions a)" "se_id x = i" "se_student x = sid" "se_access x = sc_access c"
      "se_course x = sc_course c" "se_revoked x = None" "now < se_access_expires x"
    and f: "\<exists>f\<in>set (families db). tf_id f = se_family x \<and> tf_revoked f = None \<and> tf_compromised f = None"
    and p: "\<exists>p\<in>set (students db). st_id p = sid \<and> st_active p"
    using st unfolding session_stands_def a by auto
  obtain s where "s \<in> set (sessions db)" "x = s \<or> x = touch_session t s"
    using x(1) by (auto simp: a set_update_where split: if_split_asm)
  then have "presented_session call now sid s db \<and> se_id s = i \<and> se_course s = sc_course c"
    using x f p n by (auto simp: presented_session_def)
  then show ?thesis by blast
qed

text \<open>C24: A new submission is admitted only from a live session of its student, one with the presented
  access token and in the named course that is neither revoked nor expired, whose login is not revoked and
  whose student is active; and for an assignment of that
  student that is active, ready, open and not yet due at the time of the transaction, with its
  repository, while the student is enrolled. It is stored as accepted together with the receipt that
  pins the inputs of the assignment, and afterwards the student has no more submissions in work than
  the limit and, without a reservation, no more attempts that day than the limit.\<close>

theorem admission_sound:
  assumes "create_accepted_submission env call target p most_open most_daily reserved when_v db = (Inr (r, False), db')"
  shows "\<exists>now w s c. stamp (logins env) when_v = Inr now \<and> w \<in> set (works db) \<and> belongs r w \<and> open_at now w \<and>
    enrolled (rq_student r) (wk_course w) db \<and>
    presented_session call now (rq_student r) s (auth db) \<and> made_in r w s \<and>
    rq_state r = SubAccepted \<and> rq_received r = now \<and> requests db' = requests db @ [r] \<and>
    receipts db' = receipts db @ [c] \<and> receipt_pins c r w \<and> rc_accepted c = now \<and>
    outstanding_requests (rq_student r) db' \<le> most_open \<and>
    (reserved = None \<longrightarrow> attempts_of (rq_student r) (take 10 now) db' \<le> most_daily)"
  using assms
proof (rule admission_shape)
  fix c t pp day now s q a
  assume k: "check_call call = Inr c" and n: "stamp (logins env) when_v = Inr now" "optional_arg day_arg reserved = Inr day"
    and a: "authorize_access_token (login_env env db) (sc_access c) (sc_course c) (Some (DtText now)) True (auth db) = (Inr (s, q), a)"
    and b: "admit_body env c t pp most_open most_daily day (se_id s) (st_id q) now (db\<lparr>auth := a\<rparr>) = Inr (Inr (r, False), db')"
  let ?db = "db\<lparr>auth := a\<rparr>"
  obtain t0 i0 where touched: "a = (auth db)\<lparr>sessions := update_where (\<lambda>x. se_id x = i0) (touch_session t0) (sessions (auth db))\<rparr>"
    using authorize_session [OF a] by blast
  then have e: "enrollments a = enrollments (auth db)" by simp
  from b show ?thesis
  proof (rule admitted_fresh)
    fix w db1
    assume st: "session_stands (se_id s) (st_id q) (sc_access c) (sc_course c) now (auth ?db)"
      and w: "admitted_work c t (st_id q) now ?db = Inr w" and o: "outstanding_requests (st_id q) ?db < most_open"
      and at1: "admit_attempt day most_daily (st_id q) now ?db = Inr db1"
      and r: "r = new_request (pn_request pp) SubAccepted (st_id q) (se_id s) c t now"
      and db': "db' = db1\<lparr>requests := requests db1 @ [r], request_keys := request_keys db1 @ [new_key (st_id q) c (rq_id r) now],
         receipts := receipts db1 @ [new_receipt pp r w now]\<rparr>"
    note w' = admitted_work_Inr [OF w]
    have db1: "requests db1 = requests db" "receipts db1 = receipts db"
      using at1 by (auto simp: admit_attempt_def reserve_attempt_def count_attempt_def split: option.split_asm)
    have "session_stands (se_id s) (st_id q) (sc_access c) (sc_course c) now a" using st by simp
    from standing_session [OF k this touched]
    obtain s0 where s0: "presented_session call now (st_id q) s0 (auth db)" "se_id s0 = se_id s" "se_course s0 = sc_course c"
      by blast
    then have "made_in r w s0" using w' by (simp add: made_in_def presented_session_def r new_request_def)
    moreover have "presented_session call now (rq_student r) s0 (auth db)" using s0(1) by (simp add: r new_request_def)
    moreover have "belongs r w" "receipt_pins (new_receipt pp r w now) r w"
      using new_request_belongs [OF w] receipt_of_new w' by (simp_all add: r)
    moreover have "enrolled (rq_student r) (wk_course w) db"
      using w' e by (simp add: enrolled_def active_enrollment_def r new_request_def)
    moreover have "outstanding_requests (rq_student r) db' \<le> most_open"
    proof -
      have "outstanding_requests (st_id q) db1 = outstanding_requests (st_id q) ?db" by (simp add: outstanding_requests_def db1)
      then show ?thesis unfolding db' outstanding_append using o by (simp add: r new_request_def)
    qed
    moreover have "attempts_of (rq_student r) (take 10 now) db' \<le> most_daily" if "reserved = None"
    proof -
      have day: "day = None" using that n(2) by (simp add: optional_arg_def)
      have "attempts_of (st_id q) (take 10 now) db' = attempts_of (st_id q) (take 10 now) db1" by (simp add: attempts_of_def db')
      then show ?thesis
        using at1 counted_attempt [of "st_id q" "take 10 now" now ?db]
        by (auto simp: day r new_request_def admit_attempt_def reserve_attempt_def)
    qed
    moreover have "rq_state r = SubAccepted" "rq_received r = now" "requests db' = requests db @ [r]"
      "receipts db' = receipts db @ [new_receipt pp r w now]" "rc_accepted (new_receipt pp r w now) = now" "w \<in> set (works db)"
      using w' by (simp_all add: db' db1) (simp_all add: r new_request_def new_receipt_def)
    ultimately show ?thesis using n(1) w' by blast
  qed
qed

lemma admission_sound_witness:
  "\<exists>now w. stamp env0 at9 = Inr now \<and> w \<in> set (works p1) \<and> open_at now w \<and> belongs request1 w \<and>
    outstanding_requests 1 p2 \<le> 3 \<and> attempts_of 1 (take 10 now) p2 \<le> 50"
proof -
  have "rq_student request1 = 1" "logins penv0 = env0" by (simp_all add: sub_rows)
  then show ?thesis using admission_sound [OF pcall2] by metis
qed

text \<open>A submission may be sent again. Whatever happened since it was admitted, the same call with the
  same arguments, made when the student's access token is accepted, returns the stored request as it is
  now, says that it is a replay, and writes nothing but that the session was seen.\<close>

theorem admission_replayed:
  assumes "platform_later init_platform db"
    and "create_accepted_submission env call target p most_open most_daily reserved when_v db = (Inr (r, False), db1)"
    and "platform_later db1 db2"
    and "stamp (logins env') when_v' = Inr now" and "utc_dtime (clock (logins env'))" and "valid_value when_v'"
    and "authorize_access_token (login_env env' db2) (sc_access call) (sc_course call) (Some (DtText now)) True (auth db2) =
      (Inr (s, q), a)"
    and "st_id q = rq_student r"
  shows "\<exists>r2\<in>set (requests db2). request_later r r2 \<and>
    create_accepted_submission env' call target p most_open most_daily reserved when_v' db2 = (Inr (r2, True), db2\<lparr>auth := a\<rparr>)"
  using assms(2)
proof (rule admission_shape)
  fix c t pp day now0 s0 q0 a0
  assume v: "check_call call = Inr c" "check_target target = Inr t" "check_pin p = Inr pp" "optional_arg day_arg reserved = Inr day"
      "0 < most_open" "0 < most_daily"
    and b: "admit_body env c t pp most_open most_daily day (se_id s0) (st_id q0) now0 (db\<lparr>auth := a0\<rparr>) = Inr (Inr (r, False), db1)"
  let ?db2 = "db2\<lparr>auth := a\<rparr>"
  note n = check_call_Inr [OF v(1)]
  have nn: "verifier_arg (sc_access c) = Inr (sc_access c)" "text_arg (sc_course c) = Inr (sc_course c)"
    using n verifier_normal text_normal by blast+
  have a: "authorize_access_token (login_env env' db2) (sc_access c) (sc_course c) (Some (DtText now)) True (auth db2) = (Inr (s, q), a)"
    using assms(7) authorize_normal n by metis
  have st: "session_stands (se_id s) (st_id q) (sc_access c) (sc_course c) now a"
    by (rule authorize_stands [OF a nn]) (simp add: stamp_text [OF assms(4-6)])
  from b show ?thesis
  proof (rule admitted_fresh)
    fix w dbx
    assume r: "r = new_request (pn_request pp) SubAccepted (st_id q0) (se_id s0) c t now0"
      and db1: "db1 = dbx\<lparr>requests := requests dbx @ [r], request_keys := request_keys dbx @ [new_key (st_id q0) c (rq_id r) now0],
         receipts := receipts dbx @ [new_receipt pp r w now0]\<rparr>"
    let ?k = "new_key (st_id q0) c (rq_id r) now0"
    have ok1: "platform_ok db1"
      using step_sound [OF step_admit reached_platform_ok [OF assms(1)]] assms(2) by (metis platform_sound_def snd_conv)
    have ok2: "platform_ok db2" and kept: "platform_kept db1 db2"
      using later_sound [OF assms(3) ok1] by (simp_all add: platform_sound_def)
    have k: "?k \<in> set (request_keys db2)"
      using kept set_mono_prefix unfolding platform_kept_def by (fastforce simp: db1)
    obtain r2 where r2: "r2 \<in> set (requests db2)" "request_later r r2"
      using kept unfolding platform_kept_def rows_later_def by (fastforce simp: db1)
    then have id: "rq_id r2 = rq_id r" using request_same_fields(1) by (simp add: request_later_def)
    have d: "distinct (map key_of (request_keys db2))" "distinct (map rq_id (requests db2))"
      using ok2 by (simp_all add: platform_ok_def platform_keys_def)
    have q: "call_key (st_id q) c = key_of ?k" using assms(8) by (simp add: r new_request_def)
    have "find (\<lambda>x. key_of x = call_key (st_id q) c) (request_keys db2) = Some ?k"
      using select_by_distinct [OF d(1) k] by (simp add: select_by_def q)
    moreover have "find (\<lambda>x. rq_id x = rq_id r) (requests db2) = Some r2"
      using select_by_distinct [OF d(2) r2(1)] by (simp add: select_by_def id)
    ultimately have "stored_key (call_key (st_id q) c) ?db2 = Some (?k, r2)"
      by (simp add: stored_key_def new_key_def)
    then have "admit_body env' c t pp most_open most_daily day (se_id s) (st_id q) now ?db2 = Inr (Inr (r2, True), ?db2)"
      using st by (simp add: admit_body_def demand_def) (simp add: new_key_def)
    then show ?thesis
      using admission_calls [OF v assms(4) a] r2 by (auto simp: transact_done)
  qed
qed

lemma admission_replayed_witness:
  "create_accepted_submission penv0 scall1 target1 pin1 3 50 None at9 p4 = (Inr (running1, True), p4)"
proof -
  have a: "authorize_access_token (login_env penv0 p4) (sc_access scall1) (sc_course scall1) (Some (DtText t9)) True (auth p4) =
      (Inr (touch_session t9 session1, student1), seen5)"
    using token1_again [of p4] by (simp add: scall1_def p4_def p2_def)
  have c: "stamp (logins penv0) at9 = Inr t9" "utc_dtime (clock (logins penv0))" "valid_value at9"
    using tm_valid(2) by (simp, simp add: env0_def, simp add: valid_value_def utc_dtime_def)
  have q: "st_id student1 = rq_student request1" by (simp add: rows sub_rows)
  have "p4\<lparr>auth := seen5\<rparr> = p4" "requests p4 = [running1]" by (simp_all add: p4_def p2_def)
  then show ?thesis using admission_replayed [OF platform1 pcall2 platform24 c a q] by simp
qed

section \<open>Results\<close>

lemma owned_request_Inr: "owned_request sid i course db = Inr r \<Longrightarrow> r \<in> set (requests db) \<and> rq_student r = sid"
proof -
  assume "owned_request sid i course db = Inr r"
  then obtain j c where "find (\<lambda>r. rq_id r = j) (own_requests sid c db) = Some r"
    by (auto simp: owned_request_def result_simps split: option.split_asm)
  from find_SomeD [OF this] show ?thesis by (simp add: own_requests_def)
qed

text \<open>A student sees a result only when it is published and only the own one: the row returned is of
  a request of the student whose unrevoked session carries the access token, the request is published,
  and the score lies between zero and the maximum that was pinned when the submission was accepted.\<close>

theorem result_private:
  assumes "platform_later init_platform db" and "get_owned_result env access course i when_v db = (Inr x, db')"
  shows "\<exists>h s r c. verifier_arg access = Inr h \<and> s \<in> set (sessions (auth db)) \<and> se_access s = h \<and> se_revoked s = None \<and>
    x \<in> set (results db) \<and> rs_student x = se_student s \<and> rs_published x \<noteq> None \<and>
    r \<in> set (requests db) \<and> rs_request x = rq_id r \<and> rq_student r = se_student s \<and> rq_state r = SubPublished \<and>
    c \<in> set (receipts db) \<and> rc_request c = rq_id r \<and> 0 \<le> rs_score x \<and> rs_score x \<le> rc_max c"
proof -
  obtain s q a where a: "authorize_access_token (login_env env db) access course when_v True (auth db) = (Inr (s, q), a)"
    and f: "rbind (owned_request (st_id q) i course (db\<lparr>auth := a\<rparr>)) (\<lambda>r.
          case find (\<lambda>x. rs_request x = rq_id r \<and> rs_student x = rq_student r) (results db) of
            None \<Rightarrow> Inl PlatformNotFound
          | Some x \<Rightarrow> demand (rs_published x \<noteq> None) PlatformNotFound (Inr x)) = Inr x"
    using assms(2) by (auto simp: get_owned_result_def authorized_def split: sum.split_asm prod.split_asm)
  obtain r where r: "owned_request (st_id q) i course (db\<lparr>auth := a\<rparr>) = Inr r"
    using f by (cases "owned_request (st_id q) i course (db\<lparr>auth := a\<rparr>)") simp_all
  have x: "find (\<lambda>x. rs_request x = rq_id r \<and> rs_student x = rq_student r) (results db) = Some x" "rs_published x \<noteq> None"
    using f by (cases "find (\<lambda>x. rs_request x = rq_id r \<and> rs_student x = rq_student r) (results db)"; simp add: r)+
  have r: "r \<in> set (requests db)" "rq_student r = st_id q" using owned_request_Inr [OF r] by simp_all
  have x: "x \<in> set (results db)" "rs_request x = rq_id r" "rs_student x = rq_student r" "rs_published x \<noteq> None"
    using find_SomeD [OF x(1)] x(2) by simp_all
  obtain y c where y: "y \<in> set (requests db)" "c \<in> set (receipts db)" "result_of x y c"
    using reached_platform_ok [OF assms(1)] x(1) by (auto simp: platform_ok_def platform_links_def result_ok_def)
  have "distinct (map rq_id (requests db))" using reached_platform_ok [OF assms(1)] by (simp add: platform_ok_def platform_keys_def)
  from unique_key [OF this y(1) r(1)] have "y = r" using y(3) x(2) by (simp add: result_of_def)
  then have c: "rq_state r = SubPublished" "rc_request c = rq_id r" "0 \<le> rs_score x" "rs_score x \<le> rc_max c"
    using y(3) x(4) by (auto simp: result_of_def)
  show ?thesis
    using a by (rule authorize_rows) (use r x y(2) c in metis)
qed

lemma result_private_witness:
  "\<exists>r. r \<in> set (requests p6) \<and> rq_state r = SubPublished \<and> rs_request (publish_row t9 result1) = rq_id r"
  using result_private [OF platform6 pcall7] by metis

text \<open>C25: Work that was accepted is not lost to missing rows. A running submission of a reachable state has
  its receipt; a score within the maximum pinned there is recorded whatever the clock says, unless the
  result identifier is in use; and the graded submission can then be published.\<close>

theorem running_can_finish:
  assumes "platform_later init_platform db" and "r \<in> set (requests db)" and "rq_state r = SubRunning"
    and "text_arg i = Inr (rq_id r)" and "text_arg result = Inr k" and "k \<notin> rs_id ` set (results db)"
    and "rubric_arg rubric = Inr rubric_json" and "diagnostics_arg diagnostics = Inr diagnostics_json"
    and "stamp (logins env) when_v = Inr now" and "stamp (logins env') when_v' = Inr now'"
  shows "\<exists>c\<in>set (receipts db). rc_request c = rq_id r \<and>
    (\<forall>score most x. score_arg score = Inr x \<and> score_arg most = Inr (rc_max c) \<and> x \<le> rc_max c \<longrightarrow>
      (\<exists>s db1. record_graded_result env i result score most rubric diagnostics when_v db =
          (Inr (advance_request SubGraded now r, s), db1) \<and> rs_score s = x \<and>
        fst (publish_result env' i when_v' db1) =
          Inr (advance_request SubPublished now' (advance_request SubGraded now r), publish_row now' s)))"
proof -
  note ok = reached_platform_ok [OF assms(1)]
  have d: "distinct (map rq_id (requests db))" "distinct (map rc_request (receipts db))"
    using ok by (simp_all add: platform_ok_def platform_keys_def)
  have "covered (receipts db) (results db) r" using ok assms(2) by (simp add: platform_ok_def platform_links_def)
  then obtain c where c: "c \<in> set (receipts db)" "rc_request c = rq_id r"
    using assms(3) by (auto simp: covered_def pinned_def)
  have fr: "find (\<lambda>y. rq_id y = rq_id r) (requests db) = Some r"
    using select_by_distinct [OF d(1) assms(2)] by (simp add: select_by_def)
  have fc: "find (\<lambda>y. rc_request y = rq_id r) (receipts db) = Some c"
    using select_by_distinct [OF d(2) c(1)] c(2) by (simp add: select_by_def)
  have none: "rq_id r \<notin> rs_request ` set (results db)"
  proof
    assume "rq_id r \<in> rs_request ` set (results db)"
    then obtain x y z where x: "rs_request x = rq_id r" "y \<in> set (requests db)" "result_of x y z"
      using ok by (auto simp: platform_ok_def platform_links_def result_ok_def)
    then have "rq_id y = rq_id r" by (simp add: result_of_def)
    then have "y = r" using unique_key [OF d(1) x(2) assms(2)] by simp
    then show False using x(3) assms(3) by (auto simp: result_of_def split: if_split_asm)
  qed
  have after: "find (\<lambda>y. rq_id y = rq_id r) (update_where (\<lambda>y. rq_id y = rq_id r) f rs) = map_option f (find (\<lambda>y. rq_id y = rq_id r) rs)"
    if "\<And>y. rq_id (f y) = rq_id y" for f rs
    by (induction rs) (auto simp: update_where_def that)
  have last: "find (\<lambda>y. rs_request y = rq_id r) (xs @ [x]) = Some x"
    if "rq_id r \<notin> rs_request ` set xs" "rs_request x = rq_id r" for xs and x :: result_row
    using that by (induction xs) auto
  show ?thesis
  proof (intro bexI [OF _ c(1)] conjI c(2) allI impI)
    fix score most x
    assume s: "score_arg score = Inr x \<and> score_arg most = Inr (rc_max c) \<and> x \<le> rc_max c"
    let ?s = "new_result k r c x (rc_max c) rubric_json diagnostics_json now"
    let ?db1 = "set_request (rq_id r) (advance_request SubGraded now) (db\<lparr>results := results db @ [?s]\<rparr>)"
    have new: "rs_id ?s = k" "rs_request ?s = rq_id r" "rs_score ?s = x" by (simp_all add: new_result_def)
    have g: "record_graded_result env i result score most rubric diagnostics when_v db = (Inr (advance_request SubGraded now r, ?s), ?db1)"
      using s assms(3,6) none
      by (simp add: record_graded_result_def guard_def assms(4,5,7-9) demand_def transact_def grade_body_def fr fc insert_result_def
          Let_def new)
    have "find (\<lambda>y. rq_id y = rq_id r) (requests ?db1) = Some (advance_request SubGraded now r)"
      by (simp add: set_request_def after fr)
    moreover have "find (\<lambda>y. rs_request y = rq_id r) (results ?db1) = Some ?s"
      by (simp add: set_request_def last [OF none new(2)])
    ultimately have "fst (publish_result env' i when_v' ?db1) =
        Inr (advance_request SubPublished now' (advance_request SubGraded now r), publish_row now' ?s)"
      by (simp add: publish_result_def guard_def assms(4,10) transact_def publish_body_def demand_def)
    then show "\<exists>s db1. record_graded_result env i result score most rubric diagnostics when_v db =
          (Inr (advance_request SubGraded now r, s), db1) \<and> rs_score s = x \<and>
        fst (publish_result env' i when_v' db1) =
          Inr (advance_request SubPublished now' (advance_request SubGraded now r), publish_row now' s)"
      using g new(3) by blast
  qed
qed

lemma running_can_finish_witness:
  "\<exists>s db1. record_graded_result penv0 ''p1'' ''x1'' (PyInt 7) (PyInt 10) None None at9 p4 = (Inr (graded1, s), db1) \<and> rs_score s = 7"
proof -
  have r: "running1 \<in> set (requests p4)" "rq_state running1 = SubRunning" "text_arg ''p1'' = Inr (rq_id running1)"
    "''x1'' \<notin> rs_id ` set (results p4)" "stamp (logins penv0) at9 = Inr t9" "receipts p4 = [receipt1]" "rc_max receipt1 = 10"
    "text_arg ''x1'' = Inr ''x1''" "score_arg (PyInt 7) = Inr 7" "score_arg (PyInt 10) = Inr 10"
    by (simp_all add: p4_def p2_def p1_def sub_rows)
  obtain c where "c \<in> set (receipts p4)" and f: "\<And>score most x. score_arg score = Inr x \<and> score_arg most = Inr (rc_max c) \<and> x \<le> rc_max c \<Longrightarrow>
      \<exists>s db1. record_graded_result penv0 ''p1'' ''x1'' score most None None at9 p4 = (Inr (advance_request SubGraded t9 running1, s), db1) \<and>
        rs_score s = x"
    using running_can_finish [OF platform4 r(1-3,8,4) no_details r(5) r(5)] by blast
  then have "rc_max c = 10" using r(6,7) by simp
  then show ?thesis using f [of "PyInt 7" 7 "PyInt 10"] r(9,10) by (simp add: graded1_def)
qed

end
