(* ===== verification/Bundle_State.thy ===== *)
theory Bundle_State
  imports Sub_Steps
begin

text \<open>
  \<open>src/src/autograde/platform_state.py\<close>: the rows of direct assignment delivery. A release is shared by
  every student of a course; a download is the preparation of its starter; a submission is an uploaded
  source bundle, with its receipt and its result; checks and deadline changes are the operator's record
  of a release. The tables stand beside those of logins and repository submissions, \<open>base\<close>, in one
  database. The documents of \<open>src/src/autograde/assignment_documents.py\<close> are the reviewed
  instructions of a release, and which of them was current when a submission was received.
\<close>

section \<open>Enumerations\<close>

datatype bundle_state = BunReceived | BunAccepted | BunQueued | BunRunning | BunGraded | BunPublished
  | BunRejected | BunInfraFailed | BunAssessmentFailed

fun bundle_state_value :: "bundle_state \<Rightarrow> string" where
  "bundle_state_value BunReceived = ''received''"
| "bundle_state_value BunAccepted = ''accepted''"
| "bundle_state_value BunQueued = ''queued''"
| "bundle_state_value BunRunning = ''running''"
| "bundle_state_value BunGraded = ''graded''"
| "bundle_state_value BunPublished = ''published''"
| "bundle_state_value BunRejected = ''rejected''"
| "bundle_state_value BunInfraFailed = ''infra_failed''"
| "bundle_state_value BunAssessmentFailed = ''assessment_failed''"

definition bundle_states :: "bundle_state list" where
  "bundle_states = [BunReceived, BunAccepted, BunQueued, BunRunning, BunGraded, BunPublished, BunRejected,
     BunInfraFailed, BunAssessmentFailed]"

definition bundle_state_arg :: "string \<Rightarrow> bundle_state pres" where
  "bundle_state_arg v = lift (enum_value bundle_state_value bundle_states v)"

datatype check_state = CheckPending | CheckPassed | CheckFailed

datatype course_status = CoursePreparation | CourseActive | CourseArchived

text \<open>The note of a revision: the fixed text of the first one, or the instructor's.\<close>

datatype revision_note = OriginalNote | ChangeNote string

section \<open>Rows\<close>

record release_row =
  rl_id :: string
  rl_course :: string
  rl_key :: string
  rl_release :: string
  rl_title :: string
  rl_starter :: string
  rl_starter_digest :: string
  rl_starter_size :: int
  rl_assessment :: string
  rl_assessment_digest :: string
  rl_data :: "string option"
  rl_dataset_digest :: string
  rl_image :: string
  rl_rubric :: string
  rl_max :: rat
  rl_policy :: result_policy
  rl_opens :: "string option"
  rl_due :: "string option"
  rl_active :: bool
  rl_ready :: bool
  rl_created :: string
  rl_updated :: string

record check_row =
  ck_id :: int
  ck_release :: string
  ck_status :: check_state
  ck_details :: string
  ck_created :: string
  ck_completed :: "string option"

record deadline_row =
  dc_id :: int
  dc_release :: string
  dc_old :: string
  dc_new :: string
  dc_actor :: string
  dc_reason :: string
  dc_created :: string

record download_row =
  dl_id :: string
  dl_student :: int
  dl_course :: string
  dl_session :: string
  dl_release :: string
  dl_digest :: string
  dl_platform :: "string option"
  dl_at :: string

record upload_row =
  bq_id :: string
  bq_student :: int
  bq_session :: string
  bq_release :: string
  bq_endpoint :: string
  bq_key :: string
  bq_hash :: string
  bq_digest :: string
  bq_size :: int
  bq_state :: bundle_state
  bq_received :: string
  bq_updated :: string
  bq_code :: "string option"
  bq_message :: "string option"

record admission_row =
  bn_student :: int
  bn_course :: string
  bn_day :: string
  bn_attempts :: int
  bn_updated :: string

record upload_receipt =
  bc_id :: string
  bc_request :: string
  bc_student :: int
  bc_release :: string
  bc_course :: string
  bc_key :: string
  bc_version :: string
  bc_source :: string
  bc_source_digest :: string
  bc_source_size :: int
  bc_starter :: string
  bc_starter_digest :: string
  bc_starter_size :: int
  bc_assessment :: string
  bc_assessment_digest :: string
  bc_data :: "string option"
  bc_dataset_digest :: string
  bc_image :: string
  bc_rubric :: string
  bc_max :: rat
  bc_policy :: result_policy
  bc_opens :: "string option"
  bc_due :: "string option"
  bc_received :: string
  bc_accepted :: string

record upload_result =
  bs_id :: string
  bs_request :: string
  bs_student :: int
  bs_digest :: string
  bs_score :: rat
  bs_max :: rat
  bs_rubric :: string
  bs_diagnostics :: string
  bs_created :: string
  bs_published :: "string option"

record revision_row =
  dr_release :: string
  dr_revision :: int
  dr_content :: string
  dr_sha :: string
  dr_note :: revision_note
  dr_actor :: string
  dr_at :: string

record use_row =
  sd_request :: string
  sd_release :: string
  sd_revision :: int
  sd_sha :: string
  sd_at :: string

record bundle_db =
  base :: platform_db
  releases :: "release_row list"
  checks :: "check_row list"
  deadlines :: "deadline_row list"
  downloads :: "download_row list"
  uploads :: "upload_row list"
  upload_keys :: "key_row list"
  admissions :: "admission_row list"
  upload_receipts :: "upload_receipt list"
  upload_results :: "upload_result list"
  revisions :: "revision_row list"
  uses :: "use_row list"

definition init_bundles :: bundle_db where
  "init_bundles = \<lparr>base = init_platform, releases = [], checks = [], deadlines = [], downloads = [], uploads = [],
     upload_keys = [], admissions = [], upload_receipts = [], upload_results = [], revisions = [], uses = []\<rparr>"

section \<open>The environment\<close>

text \<open>What the tables of other components say: the registered courses with their status, the releases in
  the instructor's bin, the description of the draft a release was published from, and when the
  student's claims of a release were accepted. \<open>shown_status\<close> is the status callback of the instructor
  service, which may be absent.\<close>

record bundle_env =
  platform :: platform_env
  course_status :: "string \<Rightarrow> course_status option"
  shown_status :: "string \<Rightarrow> course_status option"
  removed :: "string \<Rightarrow> bool"
  draft_text :: "string \<Rightarrow> string \<Rightarrow> string option"
  claims_accepted :: "int \<Rightarrow> string \<Rightarrow> string list"

definition course_closed :: "bundle_env \<Rightarrow> string \<Rightarrow> bool" where
  "course_closed env course = (case course_status env course of None \<Rightarrow> False | Some st \<Rightarrow> st \<noteq> CourseActive)"

text \<open>Sessions that uploads and downloads refer to are not pruned.\<close>

definition session_used :: "bundle_db \<Rightarrow> string \<Rightarrow> bool" where
  "session_used db i = (taken bq_session i (uploads db) \<or> taken dl_session i (downloads db))"

definition base_env :: "bundle_env \<Rightarrow> bundle_db \<Rightarrow> platform_env" where
  "base_env env db = (platform env)\<lparr>logins := (logins (platform env))\<lparr>closed := course_closed env,
     session_kept := \<lambda>i. session_used db i \<or> session_kept (logins (platform env)) i\<rparr>\<rparr>"

definition bundle_stamp :: "bundle_env \<Rightarrow> dtvalue option \<Rightarrow> string pres" where
  "bundle_stamp env v = stamp (logins (platform env)) v"

definition set_auth :: "auth_db \<Rightarrow> bundle_db \<Rightarrow> bundle_db" where
  "set_auth a db = db\<lparr>base := (base db)\<lparr>auth := a\<rparr>\<rparr>"

text \<open>The check of the access token, a transaction of its own.\<close>

definition admitted ::
  "bundle_env \<Rightarrow> string \<Rightarrow> string \<Rightarrow> dtvalue option \<Rightarrow>
   (session_row \<Rightarrow> student_row \<Rightarrow> bundle_db \<Rightarrow> 'a pres \<times> bundle_db) \<Rightarrow> bundle_db \<Rightarrow> 'a pres \<times> bundle_db" where
  "admitted env access course at_v f db =
     (case authorize_access_token (login_env (base_env env db) (base db)) access course at_v True (auth (base db)) of
        (Inl e, a) \<Rightarrow> (Inl e, set_auth a db)
      | (Inr (s, p), a) \<Rightarrow> f s p (set_auth a db))"

section \<open>Validators\<close>

definition size_arg :: "int \<Rightarrow> int pres" where
  "size_arg n = demand (0 \<le> n) (Py ValueError) (Inr n)"

text \<open>\<open>_require_bundle_release_not_deleted\<close>, and the fence of a course whose student records were
  erased: its releases stay, but no row of it is written any more.\<close>

definition not_removed :: "bundle_env \<Rightarrow> string \<Rightarrow> 'a pres \<Rightarrow> 'a pres" where
  "not_removed env i r = demand (\<not> removed env i) PlatformConflict r"

definition not_erased :: "bundle_env \<Rightarrow> string \<Rightarrow> 'a pres \<Rightarrow> 'a pres" where
  "not_erased env course r = demand (\<not> erased (platform env) course) PlatformConflict r"

text \<open>The next id of an AUTOINCREMENT table: rows are never deleted.\<close>

definition next_id :: "'r list \<Rightarrow> int" where
  "next_id rows = int (length rows) + 1"

text \<open>A descending sort that keeps the order of equal keys.\<close>

definition sort_down :: "('a \<Rightarrow> 'b::linorder) \<Rightarrow> 'a list \<Rightarrow> 'a list" where
  "sort_down f xs = rev (sort_key f (rev xs))"

end
