(* ===== verification/Bundle_Releases.thy ===== *)
theory Bundle_Releases
  imports Bundle_State
begin

text \<open>
  Bundle releases of \<open>src/src/autograde/platform_state.py\<close>: registration, the server check before a
  release is shown, its publication, the extension of the deadline with its audit record, the
  operator's switches, and the lists. A release is immutable but for its switches and a deadline that
  moves later.
\<close>

section \<open>Registration\<close>

record release_args =
  ra_id :: string
  ra_course :: string
  ra_key :: string
  ra_release :: string
  ra_title :: string
  ra_starter :: string
  ra_starter_digest :: string
  ra_starter_size :: int
  ra_assessment :: string
  ra_assessment_digest :: string
  ra_image :: string
  ra_rubric :: string
  ra_max :: pynum
  ra_policy :: string
  ra_data :: "string option"
  ra_dataset_digest :: string
  ra_opens :: "dtvalue option"
  ra_due :: "dtvalue option"
  ra_active :: bool
  ra_ready :: bool

definition check_release :: "bundle_env \<Rightarrow> release_args \<Rightarrow> dtvalue option \<Rightarrow> release_row pres" where
  "check_release env a at_v =
     rbind (text_arg (ra_id a)) (\<lambda>i. rbind (text_arg (ra_course a)) (\<lambda>course.
     rbind (text_arg (ra_key a)) (\<lambda>key. rbind (text_arg (ra_release a)) (\<lambda>release.
     rbind (text_arg (ra_title a)) (\<lambda>title. rbind (text_arg (ra_starter a)) (\<lambda>starter.
     rbind (digest_arg (ra_starter_digest a)) (\<lambda>starter_digest. rbind (size_arg (ra_starter_size a)) (\<lambda>size.
     rbind (text_arg (ra_assessment a)) (\<lambda>assessment. rbind (digest_arg (ra_assessment_digest a)) (\<lambda>assessment_digest.
     rbind (image_arg (ra_image a)) (\<lambda>image. rbind (text_arg (ra_rubric a)) (\<lambda>rubric.
     rbind (score_arg (ra_max a)) (\<lambda>most. rbind (policy_arg (ra_policy a)) (\<lambda>policy.
     rbind (optional_arg text_arg (ra_data a)) (\<lambda>data. rbind (optional_digest_arg (ra_dataset_digest a)) (\<lambda>dataset_digest.
     demand ((data = None) = (dataset_digest = [])) (Py ValueError)
     (rbind (optional_arg (\<lambda>v. bundle_stamp env (Some v)) (ra_opens a)) (\<lambda>start.
     rbind (optional_arg (\<lambda>v. bundle_stamp env (Some v)) (ra_due a)) (\<lambda>due.
     demand (window_ok policy start due) (Py ValueError)
     (rbind (bundle_stamp env at_v) (\<lambda>now.
       Inr \<lparr>rl_id = i, rl_course = course, rl_key = key, rl_release = release, rl_title = title, rl_starter = starter,
         rl_starter_digest = starter_digest, rl_starter_size = size, rl_assessment = assessment,
         rl_assessment_digest = assessment_digest, rl_data = data, rl_dataset_digest = dataset_digest, rl_image = image,
         rl_rubric = rubric, rl_max = most, rl_policy = policy, rl_opens = start, rl_due = due, rl_active = ra_active a,
         rl_ready = ra_ready a, rl_created = now, rl_updated = now\<rparr>)))))))))))))))))))))"

text \<open>The columns a repeated registration must repeat.\<close>

definition same_columns :: "release_row \<Rightarrow> release_row \<Rightarrow> bool" where
  "same_columns w w' = (w' = w\<lparr>rl_active := rl_active w', rl_ready := rl_ready w', rl_created := rl_created w',
     rl_updated := rl_updated w'\<rparr>)"

definition release_version :: "release_row \<Rightarrow> string \<times> string \<times> string" where
  "release_version w = (rl_course w, rl_key w, rl_release w)"

definition insert_release :: "bundle_env \<Rightarrow> release_row \<Rightarrow> bundle_db \<Rightarrow> bundle_db pres" where
  "insert_release env w db =
     demand (\<not> erased (platform env) (rl_course w) \<and> \<not> taken rl_id (rl_id w) (releases db) \<and>
       \<not> taken release_version (release_version w) (releases db)) PlatformConflict
     (Inr (db\<lparr>releases := releases db @ [w]\<rparr>))"

definition register_release_body :: "bundle_env \<Rightarrow> release_row \<Rightarrow> bundle_db \<Rightarrow> (release_row pres \<times> bundle_db) pres" where
  "register_release_body env w db =
     (case find (\<lambda>x. rl_id x = rl_id w) (releases db) of
        Some old \<Rightarrow> demand (same_columns old w) PlatformConflict (Inr (Inr old, db))
      | None \<Rightarrow> rbind (insert_release env w db) (\<lambda>db1. Inr (Inr w, db1)))"

definition register_bundle_assignment_release ::
  "bundle_env \<Rightarrow> release_args \<Rightarrow> dtvalue option \<Rightarrow> bundle_db \<Rightarrow> release_row pres \<times> bundle_db" where
  "register_bundle_assignment_release env a at_v db =
     guard (check_release env a at_v) (\<lambda>w. transact (register_release_body env w)) db"

section \<open>The server check\<close>

definition set_release :: "string \<Rightarrow> (release_row \<Rightarrow> release_row) \<Rightarrow> bundle_db \<Rightarrow> bundle_db" where
  "set_release i f db = db\<lparr>releases := update_where (\<lambda>w. rl_id w = i) f (releases db)\<rparr>"

definition course_release :: "string \<Rightarrow> string \<Rightarrow> bundle_db \<Rightarrow> release_row option" where
  "course_release i course db = find (\<lambda>w. rl_id w = i \<and> rl_course w = course) (releases db)"

definition begin_bundle_release_check ::
  "bundle_env \<Rightarrow> string \<Rightarrow> string \<Rightarrow> bundle_db \<Rightarrow> int pres \<times> bundle_db" where
  "begin_bundle_release_check env assignment_id course_key =
     transact (\<lambda>db.
       case course_release assignment_id course_key db of
         None \<Rightarrow> Inl PlatformNotFound
       | Some w \<Rightarrow> not_removed env assignment_id
           (demand (\<not> rl_ready w) PlatformConflict
           (rbind (bundle_stamp env None) (\<lambda>now.
              Inr (Inr (next_id (checks db)), db\<lparr>checks := checks db @ [\<lparr>ck_id = next_id (checks db),
                ck_release = assignment_id, ck_status = CheckPending, ck_details = ''{}'', ck_created = now,
                ck_completed = None\<rparr>]\<rparr>)))))"

definition close_check :: "bool \<Rightarrow> string \<Rightarrow> string \<Rightarrow> check_row \<Rightarrow> check_row" where
  "close_check passed details now k =
     k\<lparr>ck_status := if passed then CheckPassed else CheckFailed, ck_details := details, ck_completed := Some now\<rparr>"

definition finish_bundle_release_check ::
  "bundle_env \<Rightarrow> int \<Rightarrow> bool \<Rightarrow> (string \<times> json) list \<Rightarrow> bundle_db \<Rightarrow> unit pres \<times> bundle_db" where
  "finish_bundle_release_check env check_id passed details =
     transact (\<lambda>db.
       rbind (rubric_arg (Some details)) (\<lambda>text. rbind (bundle_stamp env None) (\<lambda>now.
       demand (length (filter (\<lambda>k. ck_id k = check_id \<and> ck_status k = CheckPending) (checks db)) = 1) PlatformConflict
       (Inr (Inr (), db\<lparr>checks := update_where (\<lambda>k. ck_id k = check_id \<and> ck_status k = CheckPending)
         (close_check passed text now) (checks db)\<rparr>)))))"

text \<open>The check of a release that began last decides.\<close>

definition last_check :: "string \<Rightarrow> bundle_db \<Rightarrow> check_row option" where
  "last_check i db = (case sort_down ck_id (filter (\<lambda>k. ck_release k = i) (checks db)) of [] \<Rightarrow> None | k # _ \<Rightarrow> Some k)"

definition checked_release :: "string \<Rightarrow> bundle_db \<Rightarrow> bool" where
  "checked_release i db = (case last_check i db of None \<Rightarrow> False | Some k \<Rightarrow> ck_status k = CheckPassed)"

definition public_release :: "release_row \<Rightarrow> bool" where
  "public_release w = (rl_active w \<and> rl_ready w)"

definition show_release :: "string \<Rightarrow> release_row \<Rightarrow> release_row" where
  "show_release now w = w\<lparr>rl_ready := True, rl_updated := now\<rparr>"

definition publish_release_body :: "bundle_env \<Rightarrow> string \<Rightarrow> string \<Rightarrow> bundle_db \<Rightarrow> (release_row pres \<times> bundle_db) pres" where
  "publish_release_body env i course db =
     (case course_release i course db of
        None \<Rightarrow> Inl PlatformNotFound
      | Some w \<Rightarrow> not_removed env i
          (demand (checked_release i db) PlatformConflict
          (demand (\<not> (\<exists>x\<in>set (releases db). rl_course x = course \<and> rl_key x = rl_key w \<and> rl_id x \<noteq> i \<and> public_release x))
             PlatformConflict
          (demand (rl_active w) PlatformConflict
          (rbind (bundle_stamp env None) (\<lambda>now.
           not_erased env (rl_course w)
           (Inr (Inr (show_release now w), set_release i (show_release now) db))))))))"

definition publish_validated_bundle_assignment ::
  "bundle_env \<Rightarrow> string \<Rightarrow> string \<Rightarrow> bundle_db \<Rightarrow> release_row pres \<times> bundle_db" where
  "publish_validated_bundle_assignment env assignment_id course_key = transact (publish_release_body env assignment_id course_key)"

section \<open>The deadline\<close>

definition move_deadline :: "string \<Rightarrow> string \<Rightarrow> release_row \<Rightarrow> release_row" where
  "move_deadline due now w = w\<lparr>rl_due := Some due, rl_updated := now\<rparr>"

definition extend_body ::
  "bundle_env \<Rightarrow> string \<Rightarrow> string \<Rightarrow> string \<Rightarrow> string \<Rightarrow> string \<Rightarrow> string \<Rightarrow> bundle_db \<Rightarrow> (release_row pres \<times> bundle_db) pres" where
  "extend_body env i course due reason actor now db =
     demand (course_status env course \<noteq> Some CourseArchived) PlatformConflict
     (case course_release i course db of
        None \<Rightarrow> Inl PlatformNotFound
      | Some w \<Rightarrow> not_removed env i
          (case rl_due w of
             None \<Rightarrow> Inl PlatformConflict
           | Some old \<Rightarrow>
               demand (old < due \<and> now < due) PlatformConflict
               (demand (\<not> (rl_policy w = PolicyAfterDeadline \<and>
                    (\<exists>r\<in>set (uploads db). bq_release r = i \<and> bq_state r = BunPublished))) PlatformConflict
               (not_erased env (rl_course w)
               (Inr (Inr (move_deadline due now w), set_release i (move_deadline due now)
                 (db\<lparr>deadlines := deadlines db @ [\<lparr>dc_id = next_id (deadlines db), dc_release = i, dc_old = old,
                   dc_new = due, dc_actor = actor, dc_reason = reason, dc_created = now\<rparr>]\<rparr>)))))))"

definition extend_bundle_deadline ::
  "bundle_env \<Rightarrow> string \<Rightarrow> string \<Rightarrow> dtvalue \<Rightarrow> string \<Rightarrow> string \<Rightarrow> dtvalue option \<Rightarrow> bundle_db \<Rightarrow>
   release_row pres \<times> bundle_db" where
  "extend_bundle_deadline env assignment_id course_key due_at reason actor at_v db =
     guard (bundle_stamp env (Some due_at)) (\<lambda>due. guard (bundle_stamp env at_v) (\<lambda>now.
     guard (text_arg reason) (\<lambda>why. guard (text_arg actor) (\<lambda>who.
     guard (demand (length why \<le> 1000 \<and> length who \<le> 255) (Py ValueError) (Inr ())) (\<lambda>_.
     transact (extend_body env assignment_id course_key due why who now)))))) db"

text \<open>The newest hundred of each.\<close>

definition bundle_operation_history ::
  "string \<Rightarrow> string \<Rightarrow> bundle_db \<Rightarrow> (check_row list \<times> deadline_row list) pres" where
  "bundle_operation_history assignment_id course_key db =
     demand (course_release assignment_id course_key db \<noteq> None) PlatformNotFound
     (Inr (take 100 (sort_down ck_id (filter (\<lambda>k. ck_release k = assignment_id) (checks db))),
       take 100 (sort_down dc_id (filter (\<lambda>d. dc_release d = assignment_id) (deadlines db)))))"

section \<open>Availability\<close>

definition switch_release :: "bool option \<Rightarrow> bool option \<Rightarrow> string \<Rightarrow> release_row \<Rightarrow> release_row" where
  "switch_release active ready now w =
     w\<lparr>rl_active := (case active of None \<Rightarrow> rl_active w | Some b \<Rightarrow> b),
       rl_ready := (case ready of None \<Rightarrow> rl_ready w | Some b \<Rightarrow> b), rl_updated := now\<rparr>"

definition set_bundle_assignment_availability ::
  "bundle_env \<Rightarrow> string \<Rightarrow> string \<Rightarrow> bool option \<Rightarrow> bool option \<Rightarrow> dtvalue option \<Rightarrow> bundle_db \<Rightarrow>
   release_row pres \<times> bundle_db" where
  "set_bundle_assignment_availability env assignment_id course_key active ready at_v db =
     guard (demand (active \<noteq> None \<or> ready \<noteq> None) (Py ValueError) (Inr ())) (\<lambda>_.
     guard (text_arg assignment_id) (\<lambda>i. guard (text_arg course_key) (\<lambda>course.
     transact (\<lambda>db.
       case course_release i course db of
         None \<Rightarrow> Inl PlatformNotFound
       | Some w \<Rightarrow> not_removed env i
           (rbind (bundle_stamp env at_v) (\<lambda>now.
            not_erased env (rl_course w)
            (Inr (Inr (switch_release active ready now w), set_release i (switch_release active ready now) db))))))))
     db"

section \<open>What students and operators read\<close>

definition begun :: "string \<Rightarrow> release_row \<Rightarrow> bool" where
  "begun now w = (case rl_opens w of None \<Rightarrow> True | Some t \<Rightarrow> t \<le> now)"

definition release_order :: "release_row list \<Rightarrow> release_row list" where
  "release_order ws = sort_key rl_key (sort_key rl_release (sort_key rl_id ws))"

definition list_owned_bundle_assignments ::
  "bundle_env \<Rightarrow> string \<Rightarrow> string \<Rightarrow> bool \<Rightarrow> dtvalue option \<Rightarrow> bundle_db \<Rightarrow> release_row list pres \<times> bundle_db" where
  "list_owned_bundle_assignments env access course_key available_only at_v db =
     guard (bundle_stamp env at_v) (\<lambda>now. admitted env access course_key (Some (DtText now)) (\<lambda>s p db.
       (rbind (text_arg course_key) (\<lambda>course.
          Inr (release_order (filter (\<lambda>w. rl_course w = course \<and> (available_only \<longrightarrow> public_release w \<and> begun now w))
            (releases db)))), db))) db"

definition get_owned_bundle_assignment ::
  "bundle_env \<Rightarrow> string \<Rightarrow> string \<Rightarrow> string \<Rightarrow> bool \<Rightarrow> dtvalue option \<Rightarrow> bundle_db \<Rightarrow> release_row pres \<times> bundle_db" where
  "get_owned_bundle_assignment env access course_key assignment_id require_available at_v db =
     guard (bundle_stamp env at_v) (\<lambda>now. admitted env access course_key (Some (DtText now)) (\<lambda>s p db.
       (rbind (text_arg assignment_id) (\<lambda>i. rbind (text_arg course_key) (\<lambda>course.
          case course_release i course db of
            None \<Rightarrow> Inl PlatformNotFound
          | Some w \<Rightarrow> demand (require_available \<longrightarrow> public_release w \<and> begun now w) PlatformAccessDenied (Inr w))), db))) db"

definition get_bundle_assignment :: "string \<Rightarrow> bundle_db \<Rightarrow> release_row pres" where
  "get_bundle_assignment assignment_id db = rbind (text_arg assignment_id) (\<lambda>i.
     case find (\<lambda>w. rl_id w = i) (releases db) of None \<Rightarrow> Inl PlatformNotFound | Some w \<Rightarrow> Inr w)"

text \<open>The images that may still run: those of visible releases, and those that the receipts of unfinished
  submissions pinned.\<close>

definition bundle_runner_images_in_use :: "string \<Rightarrow> bundle_db \<Rightarrow> string list pres" where
  "bundle_runner_images_in_use course_key db = rbind (text_arg course_key) (\<lambda>course.
     Inr (sort (remdups
       (map rl_image (filter (\<lambda>w. rl_course w = course \<and> public_release w) (releases db)) @
        map bc_image (filter (\<lambda>c. \<exists>r\<in>set (uploads db). bq_id r = bc_request c \<and>
            bq_state r \<in> {BunAccepted, BunQueued, BunRunning} \<and>
            (\<exists>w\<in>set (releases db). rl_id w = bq_release r \<and> rl_course w = course)) (upload_receipts db))))))"

definition list_operator_bundle_assignments :: "string \<Rightarrow> bool \<Rightarrow> bool \<Rightarrow> int \<Rightarrow> bundle_db \<Rightarrow> release_row list pres" where
  "list_operator_bundle_assignments course_key ready_only active_only limit db =
     demand (1 \<le> limit \<and> limit \<le> 10000) (Py ValueError)
     (rbind (text_arg course_key) (\<lambda>course.
       Inr (take (nat limit) (release_order
         (filter (\<lambda>w. rl_course w = course \<and> (ready_only \<longrightarrow> rl_ready w) \<and> (active_only \<longrightarrow> rl_active w)) (releases db))))))"

end
