(* ===== verification/Bundle_Documents.thy ===== *)
theory Bundle_Documents
  imports Bundle_Releases
begin

text \<open>
  \<open>src/src/autograde/assignment_documents.py\<close>, with the two calls of the instructor service
  (\<open>src/src/autograde/assignment_admin.py\<close>) that use it: the public instructions of a release as an
  append-only list of revisions. Revision zero is the description of the draft the release was
  published from; it is stored when it is first needed. Every submission records the revision that was
  current. The digest of a text is the parameter \<open>sha\<close>.
\<close>

text \<open>The newest stored revision.\<close>

definition latest_revision :: "string \<Rightarrow> bundle_db \<Rightarrow> revision_row option" where
  "latest_revision i db =
     (case sort_down dr_revision (filter (\<lambda>d. dr_release d = i) (revisions db)) of [] \<Rightarrow> None | d # _ \<Rightarrow> Some d)"

definition original_revision :: "(string \<Rightarrow> string) \<Rightarrow> release_row \<Rightarrow> string \<Rightarrow> revision_row" where
  "original_revision sha w text = \<lparr>dr_release = rl_id w, dr_revision = 0, dr_content = text, dr_sha = sha text,
     dr_note = OriginalNote, dr_actor = ''original-release'', dr_at = rl_created w\<rparr>"

definition current_revision ::
  "(string \<Rightarrow> string) \<Rightarrow> bundle_env \<Rightarrow> string \<Rightarrow> string \<Rightarrow> bundle_db \<Rightarrow> revision_row option pres" where
  "current_revision sha env course i db =
     (case course_release i course db of
        None \<Rightarrow> Inl PlatformNotFound
      | Some w \<Rightarrow> Inr (case latest_revision i db of
            Some d \<Rightarrow> Some d
          | None \<Rightarrow> map_option (original_revision sha w) (draft_text env course i)))"

type_synonym revision_meta = "int \<times> string \<times> string \<times> revision_note"

definition metadata :: "revision_row \<Rightarrow> revision_meta" where
  "metadata d = (dr_revision d, dr_sha d, dr_at d, dr_note d)"

definition revision_history :: "string \<Rightarrow> revision_row \<Rightarrow> bundle_db \<Rightarrow> revision_meta list" where
  "revision_history i d db =
     (if latest_revision i db = None then [metadata d]
      else take 50 (map metadata (sort_down dr_revision
        (filter (\<lambda>x. dr_release x = i \<and> dr_revision x \<le> dr_revision d) (revisions db)))))"

text \<open>\<open>current\<close>: the document with its history and the number of its revisions.\<close>

type_synonym public_document = "revision_row \<times> revision_meta list \<times> int"

definition current_document ::
  "(string \<Rightarrow> string) \<Rightarrow> bundle_env \<Rightarrow> string \<Rightarrow> string \<Rightarrow> bundle_db \<Rightarrow> public_document option pres" where
  "current_document sha env course i db =
     rmap (map_option (\<lambda>d. (d, revision_history i d db, dr_revision d + 1))) (current_revision sha env course i db)"

text \<open>SQLite counts the characters of a text up to the first NUL.\<close>

definition sql_length :: "string \<Rightarrow> nat" where
  "sql_length s = length (takeWhile (\<lambda>c. c \<noteq> CHR 0x00) s)"

definition note_fits :: "revision_note \<Rightarrow> bool" where
  "note_fits n = (case n of OriginalNote \<Rightarrow> True | ChangeNote t \<Rightarrow> sql_length t \<le> 500)"

definition revision_key :: "revision_row \<Rightarrow> string \<times> int" where
  "revision_key d = (dr_release d, dr_revision d)"

definition insert_revision :: "bundle_env \<Rightarrow> revision_row \<Rightarrow> bundle_db \<Rightarrow> bundle_db pres" where
  "insert_revision env d db =
     demand (\<not> (0 < dr_revision d \<and> removed env (dr_release d))) PlatformConflict
     (demand (0 \<le> dr_revision d \<and> sql_length (dr_content d) \<le> 20000 \<and> note_fits (dr_note d) \<and>
        \<not> taken revision_key (revision_key d) (revisions db)) (Py IntegrityError)
     (Inr (db\<lparr>revisions := revisions db @ [d]\<rparr>)))"

definition ensure_original ::
  "(string \<Rightarrow> string) \<Rightarrow> bundle_env \<Rightarrow> string \<Rightarrow> string \<Rightarrow> bundle_db \<Rightarrow> (revision_row option \<times> bundle_db) pres" where
  "ensure_original sha env course i db =
     rbind (current_revision sha env course i db) (\<lambda>d.
       case d of
         None \<Rightarrow> Inr (None, db)
       | Some d \<Rightarrow>
           if taken dr_release i (revisions db) then Inr (Some d, db)
           else rbind (insert_revision env d db) (\<lambda>db1. Inr (Some d, db1)))"

section \<open>Revising\<close>

definition unix_lines :: "string \<Rightarrow> string" where
  "unix_lines s = replace_all [CHR 0x0D] [CHR 0x0A] (replace_all [CHR 0x0D, CHR 0x0A] [CHR 0x0A] s)"

definition plain_text :: "string \<Rightarrow> bool" where
  "plain_text s = list_all (\<lambda>c. 32 \<le> (of_char c :: nat) \<or> c = CHR 0x0A \<or> c = CHR 0x09) s"

definition check_revision :: "int \<Rightarrow> string \<Rightarrow> string \<Rightarrow> (string \<times> string) pres" where
  "check_revision revision content note =
     demand (0 \<le> revision) (Py ValueError)
     (demand (strip content \<noteq> [] \<and> length content \<le> 20000) (Py ValueError)
     (demand (strip note \<noteq> [] \<and> length note \<le> 500) (Py ValueError)
     (demand (plain_text (unix_lines content @ strip note)) (Py ValueError)
     (Inr (unix_lines content, strip note)))))"

definition new_revision ::
  "(string \<Rightarrow> string) \<Rightarrow> string \<Rightarrow> int \<Rightarrow> string \<Rightarrow> string \<Rightarrow> string \<Rightarrow> revision_row" where
  "new_revision sha i n content note now = \<lparr>dr_release = i, dr_revision = n, dr_content = content, dr_sha = sha content,
     dr_note = ChangeNote note, dr_actor = ''instructor-web'', dr_at = now\<rparr>"

definition revise ::
  "(string \<Rightarrow> string) \<Rightarrow> bundle_env \<Rightarrow> string \<Rightarrow> string \<Rightarrow> int \<Rightarrow> string \<Rightarrow> string \<Rightarrow> string \<Rightarrow> bundle_db \<Rightarrow>
   (public_document option \<times> bundle_db) pres" where
  "revise sha env course i revision content note now db =
     rbind (check_revision revision content note) (\<lambda>(text, why).
     rbind (current_revision sha env course i db) (\<lambda>old.
       case old of
         None \<Rightarrow> Inl PlatformNotFound
       | Some d \<Rightarrow>
           demand (revision = dr_revision d) PlatformConflict
           (if sha text = dr_sha d then rmap (\<lambda>doc. (doc, db)) (current_document sha env course i db)
            else demand (revision < 200) PlatformConflict
              (rbind (ensure_original sha env course i db) (\<lambda>(_, db1).
               rbind (insert_revision env (new_revision sha i (revision + 1) text why now) db1) (\<lambda>db2.
               rmap (\<lambda>doc. (doc, db2)) (current_document sha env course i db2)))))))"

text \<open>\<open>AssignmentAdmin.update_assignment_document\<close> and \<open>get_assignment_document\<close>.\<close>

definition update_document_body ::
  "(string \<Rightarrow> string) \<Rightarrow> bundle_env \<Rightarrow> string \<Rightarrow> string \<Rightarrow> int \<Rightarrow> string \<Rightarrow> string \<Rightarrow> bundle_db \<Rightarrow>
   (public_document option pres \<times> bundle_db) pres" where
  "update_document_body sha env course i revision content note db =
     (case course_status env course of
        None \<Rightarrow> Inl PlatformNotFound
      | Some st \<Rightarrow> demand (st \<noteq> CourseArchived) PlatformConflict
          (case course_release i course db of
             None \<Rightarrow> Inl PlatformNotFound
           | Some w \<Rightarrow> not_removed env i
               (rbind (bundle_stamp env None) (\<lambda>now.
                rmap (\<lambda>(doc, db1). (Inr doc, db1)) (revise sha env course i revision content note now db)))))"

definition update_assignment_document ::
  "(string \<Rightarrow> string) \<Rightarrow> bundle_env \<Rightarrow> string \<Rightarrow> string \<Rightarrow> int \<Rightarrow> string \<Rightarrow> string \<Rightarrow> bundle_db \<Rightarrow>
   public_document option pres \<times> bundle_db" where
  "update_assignment_document sha env course i revision content note db =
     guard (demand (shown_status env course \<noteq> Some CourseArchived) PlatformConflict (Inr ()))
       (\<lambda>_. transact (update_document_body sha env course i revision content note)) db"

definition get_assignment_document ::
  "(string \<Rightarrow> string) \<Rightarrow> bundle_env \<Rightarrow> string \<Rightarrow> string \<Rightarrow> bundle_db \<Rightarrow> public_document option pres" where
  "get_assignment_document sha env course i db = current_document sha env course i db"

section \<open>Submissions\<close>

definition record_submission ::
  "(string \<Rightarrow> string) \<Rightarrow> bundle_env \<Rightarrow> string \<Rightarrow> string \<Rightarrow> string \<Rightarrow> string \<Rightarrow> bundle_db \<Rightarrow> bundle_db pres" where
  "record_submission sha env course i request now db =
     rbind (ensure_original sha env course i db) (\<lambda>(d, db1).
       case d of
         None \<Rightarrow> Inr db1
       | Some d \<Rightarrow>
           demand (\<not> taken sd_request request (uses db1)) (Py IntegrityError)
           (Inr (db1\<lparr>uses := uses db1 @ [\<lparr>sd_request = request, sd_release = i, sd_revision = dr_revision d,
              sd_sha = dr_sha d, sd_at = now\<rparr>]\<rparr>)))"

end
