(* ===== verification/Bundle_Admission.thy ===== *)
theory Bundle_Admission
  imports Bundle_Documents
begin

text \<open>
  What a student does with a bundle release (\<open>src/src/autograde/platform_state.py\<close>): the recorded
  download of the starter, and the admission of an uploaded source bundle, which stores the request
  with its idempotency key, counts the attempt of the day, pins every grading input in a receipt, and
  records which revision of the instructions was current. A new idempotency key is a new attempt even
  for the same bytes.
\<close>

section \<open>The session and the stored rows\<close>

definition bundle_session :: "string \<Rightarrow> int \<Rightarrow> string \<Rightarrow> string \<Rightarrow> string \<Rightarrow> bundle_db \<Rightarrow> bool" where
  "bundle_session session sid access course now db =
     (session_stands session sid access course now (auth (base db)) \<and> enrolled sid course (base db))"

definition upload_key :: "upload_row \<Rightarrow> int \<times> string \<times> string \<times> string" where
  "upload_key r = (bq_student r, bq_endpoint r, bq_release r, bq_key r)"

definition stored_upload :: "int \<times> string \<times> string \<times> string \<Rightarrow> bundle_db \<Rightarrow> (key_row \<times> upload_row) option" where
  "stored_upload key db = Option.bind (find (\<lambda>k. key_of k = key) (upload_keys db)) (\<lambda>k.
     map_option (Pair k) (find (\<lambda>r. bq_id r = ik_request k) (uploads db)))"

definition release_open :: "string \<Rightarrow> release_row \<Rightarrow> bool" where
  "release_open now w = (public_release w \<and> begun now w \<and> (case rl_due w of None \<Rightarrow> True | Some t \<Rightarrow> now < t))"

definition unfinished :: "bundle_state \<Rightarrow> bool" where
  "unfinished st = (st \<in> {BunReceived, BunAccepted, BunQueued, BunRunning})"

definition outstanding_uploads :: "int \<Rightarrow> string \<Rightarrow> bundle_db \<Rightarrow> int" where
  "outstanding_uploads sid course db = int (length (filter (\<lambda>r. bq_student r = sid \<and> unfinished (bq_state r) \<and>
     (\<exists>w\<in>set (releases db). rl_id w = bq_release r \<and> rl_course w = course)) (uploads db)))"

definition admission_key :: "admission_row \<Rightarrow> int \<times> string \<times> string" where
  "admission_key c = (bn_student c, bn_course c, bn_day c)"

definition admissions_of :: "int \<Rightarrow> string \<Rightarrow> string \<Rightarrow> bundle_db \<Rightarrow> int" where
  "admissions_of sid course day db =
     (case find (\<lambda>c. admission_key c = (sid, course, day)) (admissions db) of None \<Rightarrow> 0 | Some c \<Rightarrow> bn_attempts c)"

section \<open>Downloads\<close>

definition download_body ::
  "string \<Rightarrow> string \<Rightarrow> string \<Rightarrow> string \<Rightarrow> string option \<Rightarrow> string \<Rightarrow> int \<Rightarrow> string \<Rightarrow> bundle_db \<Rightarrow>
   (download_row pres \<times> bundle_db) pres" where
  "download_body i access course release client session sid now db =
     demand (bundle_session session sid access course now db) PlatformAccessDenied
     (case find (\<lambda>d. dl_id d = i) (downloads db) of
        Some d \<Rightarrow> demand (dl_student d = sid \<and> dl_release d = release) PlatformConflict (Inr (Inr d, db))
      | None \<Rightarrow>
          (case find (\<lambda>w. rl_id w = release \<and> rl_course w = course \<and> public_release w \<and> begun now w) (releases db) of
             None \<Rightarrow> Inl PlatformAccessDenied
           | Some w \<Rightarrow>
               demand (enrolled sid course (base db)) PlatformAccessDenied
               (let d = \<lparr>dl_id = i, dl_student = sid, dl_course = course, dl_session = session, dl_release = release,
                  dl_digest = rl_starter_digest w, dl_platform = client, dl_at = now\<rparr>
                in Inr (Inr d, db\<lparr>downloads := downloads db @ [d]\<rparr>))))"

definition record_bundle_download ::
  "bundle_env \<Rightarrow> string \<Rightarrow> string \<Rightarrow> string \<Rightarrow> string \<Rightarrow> string option \<Rightarrow> dtvalue option \<Rightarrow> bundle_db \<Rightarrow>
   download_row pres \<times> bundle_db" where
  "record_bundle_download env download_id access_token_hash course_key assignment_id client_platform at_v db =
     guard (text_arg download_id) (\<lambda>i. guard (verifier_arg access_token_hash) (\<lambda>access.
     guard (text_arg course_key) (\<lambda>course. guard (text_arg assignment_id) (\<lambda>release.
     guard (optional_arg text_arg client_platform) (\<lambda>client. guard (bundle_stamp env at_v) (\<lambda>now.
     admitted env access course (Some (DtText now)) (\<lambda>s p.
       transact (download_body i access course release client (se_id s) (st_id p) now)))))))) db"

section \<open>Admission\<close>

record upload_pin =
  up_request :: string
  up_receipt :: string
  up_source :: string
  up_digest :: string
  up_size :: int

definition check_upload :: "upload_pin \<Rightarrow> upload_pin pres" where
  "check_upload p =
     rbind (text_arg (up_request p)) (\<lambda>request. rbind (text_arg (up_receipt p)) (\<lambda>receipt.
     rbind (text_arg (up_source p)) (\<lambda>source. rbind (digest_arg (up_digest p)) (\<lambda>digest.
     rbind (size_arg (up_size p)) (\<lambda>size.
       Inr \<lparr>up_request = request, up_receipt = receipt, up_source = source, up_digest = digest, up_size = size\<rparr>)))))"

definition new_upload :: "upload_pin \<Rightarrow> int \<Rightarrow> string \<Rightarrow> submission_call \<Rightarrow> string \<Rightarrow> upload_row" where
  "new_upload p sid session c now = \<lparr>bq_id = up_request p, bq_student = sid, bq_session = session, bq_release = sc_work c,
     bq_endpoint = sc_endpoint c, bq_key = sc_key c, bq_hash = sc_hash c, bq_digest = up_digest p, bq_size = up_size p,
     bq_state = BunAccepted, bq_received = now, bq_updated = now, bq_code = None, bq_message = None\<rparr>"

definition new_upload_receipt :: "upload_pin \<Rightarrow> upload_row \<Rightarrow> release_row \<Rightarrow> string \<Rightarrow> upload_receipt" where
  "new_upload_receipt p r w now = \<lparr>bc_id = up_receipt p, bc_request = bq_id r, bc_student = bq_student r,
     bc_release = bq_release r, bc_course = rl_course w, bc_key = rl_key w, bc_version = rl_release w,
     bc_source = up_source p, bc_source_digest = up_digest p, bc_source_size = up_size p, bc_starter = rl_starter w,
     bc_starter_digest = rl_starter_digest w, bc_starter_size = rl_starter_size w, bc_assessment = rl_assessment w,
     bc_assessment_digest = rl_assessment_digest w, bc_data = rl_data w, bc_dataset_digest = rl_dataset_digest w,
     bc_image = rl_image w, bc_rubric = rl_rubric w, bc_max = rl_max w, bc_policy = rl_policy w, bc_opens = rl_opens w,
     bc_due = rl_due w, bc_received = now, bc_accepted = now\<rparr>"

text \<open>The inserts of one admission. A course that is not active admits nothing, an erased one stores
  nothing.\<close>

definition insert_upload :: "bundle_env \<Rightarrow> release_row \<Rightarrow> upload_row \<Rightarrow> key_row \<Rightarrow> bundle_db \<Rightarrow> bundle_db pres" where
  "insert_upload env w r k db =
     demand (\<not> course_closed env (rl_course w) \<and> \<not> taken bq_id (bq_id r) (uploads db) \<and>
       \<not> taken upload_key (upload_key r) (uploads db) \<and> \<not> taken key_of (key_of k) (upload_keys db)) PlatformConflict
     (Inr (db\<lparr>uploads := uploads db @ [r], upload_keys := upload_keys db @ [k]\<rparr>))"

definition count_admission :: "int \<Rightarrow> string \<Rightarrow> string \<Rightarrow> string \<Rightarrow> bundle_db \<Rightarrow> bundle_db" where
  "count_admission sid course day now db =
     (if taken admission_key (sid, course, day) (admissions db)
      then db\<lparr>admissions := update_where (\<lambda>c. admission_key c = (sid, course, day))
        (\<lambda>c. c\<lparr>bn_attempts := bn_attempts c + 1, bn_updated := now\<rparr>) (admissions db)\<rparr>
      else db\<lparr>admissions := admissions db @ [\<lparr>bn_student = sid, bn_course = course, bn_day = day, bn_attempts = 1,
        bn_updated = now\<rparr>]\<rparr>)"

definition insert_upload_receipt :: "bundle_env \<Rightarrow> upload_receipt \<Rightarrow> bundle_db \<Rightarrow> bundle_db pres" where
  "insert_upload_receipt env c db =
     not_erased env (bc_course c)
     (demand (\<not> taken bc_id (bc_id c) (upload_receipts db) \<and> \<not> taken bc_request (bc_request c) (upload_receipts db))
        PlatformConflict
     (Inr (db\<lparr>upload_receipts := upload_receipts db @ [c]\<rparr>)))"

text \<open>\<open>except sqlite3.IntegrityError\<close> around the inserts.\<close>

definition as_conflict :: "'a pres \<Rightarrow> 'a pres" where
  "as_conflict r = (case r of Inl e \<Rightarrow> Inl (if e = Py IntegrityError then PlatformConflict else e) | Inr x \<Rightarrow> Inr x)"

definition admissible :: "string \<Rightarrow> string \<Rightarrow> string \<Rightarrow> int \<Rightarrow> bundle_db \<Rightarrow> release_row option" where
  "admissible now i course sid db =
     find (\<lambda>w. rl_id w = i \<and> rl_course w = course \<and> release_open now w \<and> enrolled sid course (base db)) (releases db)"

definition store_upload ::
  "(string \<Rightarrow> string) \<Rightarrow> bundle_env \<Rightarrow> submission_call \<Rightarrow> upload_pin \<Rightarrow> release_row \<Rightarrow> string \<Rightarrow> int \<Rightarrow> string \<Rightarrow> bundle_db \<Rightarrow>
   (upload_row \<times> bundle_db) pres" where
  "store_upload sha env c p w session sid now db =
     (let r = new_upload p sid session c now in
      rbind (insert_upload env w r (new_key sid c (bq_id r) now) db) (\<lambda>db1.
      not_erased env (sc_course c)
      (rbind (insert_upload_receipt env (new_upload_receipt p r w now)
         (count_admission sid (sc_course c) (take 10 now) now db1)) (\<lambda>db2.
      rbind (as_conflict (record_submission sha env (sc_course c) (sc_work c) (bq_id r) now db2)) (\<lambda>db3.
        Inr (r, db3))))))"

definition admit_upload_body ::
  "(string \<Rightarrow> string) \<Rightarrow> bundle_env \<Rightarrow> submission_call \<Rightarrow> upload_pin \<Rightarrow> int \<Rightarrow> int \<Rightarrow> string \<Rightarrow> int \<Rightarrow> string \<Rightarrow> bundle_db \<Rightarrow>
   ((upload_row \<times> bool) pres \<times> bundle_db) pres" where
  "admit_upload_body sha env c p most_open most_daily session sid now db =
     demand (bundle_session session sid (sc_access c) (sc_course c) now db) PlatformAccessDenied
     (case stored_upload (call_key sid c) db of
        Some (k, r) \<Rightarrow> demand (ik_hash k = sc_hash c) PlatformIdempotencyConflict (Inr (Inr (r, True), db))
      | None \<Rightarrow>
          (case admissible now (sc_work c) (sc_course c) sid db of
             None \<Rightarrow> Inl PlatformAccessDenied
           | Some w \<Rightarrow>
               demand (outstanding_uploads sid (sc_course c) db < most_open) PlatformSubmissionLimitExceeded
               (demand (admissions_of sid (sc_course c) (take 10 now) db < most_daily) PlatformSubmissionLimitExceeded
               (rbind (store_upload sha env c p w session sid now db) (\<lambda>(r, db1). Inr (Inr (r, False), db1))))))"

definition create_accepted_bundle_submission ::
  "(string \<Rightarrow> string) \<Rightarrow> bundle_env \<Rightarrow> submission_call \<Rightarrow> upload_pin \<Rightarrow> int \<Rightarrow> int \<Rightarrow> dtvalue option \<Rightarrow> bundle_db \<Rightarrow>
   (upload_row \<times> bool) pres \<times> bundle_db" where
  "create_accepted_bundle_submission sha env call upload most_open most_daily at_v db =
     guard (check_upload upload) (\<lambda>p. guard (check_call call) (\<lambda>c.
     guard (positive_arg most_open) (\<lambda>_. guard (positive_arg most_daily) (\<lambda>_. guard (bundle_stamp env at_v) (\<lambda>now.
     admitted env (sc_access c) (sc_course c) (Some (DtText now)) (\<lambda>s st.
       transact (admit_upload_body sha env c p most_open most_daily (se_id s) (st_id st) now))))))) db"

end
