(* ===== verification/Bundle_Lifecycle.thy ===== *)
theory Bundle_Lifecycle
  imports Bundle_Admission
begin

text \<open>
  The life of an uploaded bundle (\<open>src/src/autograde/platform_state.py\<close>): the transitions of the
  workers, the graded result, its publication, which waits for the deadline when the release says so,
  and what students, instructors and workers read.
\<close>

section \<open>Transitions\<close>

fun allowed_bundle :: "bundle_state \<Rightarrow> bundle_state list" where
  "allowed_bundle BunReceived = [BunAccepted, BunRejected, BunInfraFailed]"
| "allowed_bundle BunAccepted = [BunQueued]"
| "allowed_bundle BunQueued = [BunRunning, BunInfraFailed]"
| "allowed_bundle BunRunning = [BunInfraFailed, BunAssessmentFailed]"
| "allowed_bundle BunGraded = []"
| "allowed_bundle BunPublished = []"
| "allowed_bundle BunRejected = []"
| "allowed_bundle BunInfraFailed = []"
| "allowed_bundle BunAssessmentFailed = []"

definition bundle_failed :: "bundle_state \<Rightarrow> bool" where
  "bundle_failed st = (st \<in> {BunRejected, BunInfraFailed, BunAssessmentFailed})"

definition bundle_details :: "bundle_state \<Rightarrow> string option \<Rightarrow> string option \<Rightarrow> (string option \<times> string option) pres" where
  "bundle_details st code message =
     (if bundle_failed st
      then rbind (text_arg (case code of None \<Rightarrow> [] | Some c \<Rightarrow> c)) (\<lambda>c.
           rbind (text_arg (case message of None \<Rightarrow> [] | Some m \<Rightarrow> m)) (\<lambda>m. Inr (Some c, Some m)))
      else demand (code = None \<and> message = None) (Py ValueError) (Inr (None, None)))"

definition set_upload :: "string \<Rightarrow> (upload_row \<Rightarrow> upload_row) \<Rightarrow> bundle_db \<Rightarrow> bundle_db" where
  "set_upload i f db = db\<lparr>uploads := update_where (\<lambda>r. bq_id r = i) f (uploads db)\<rparr>"

definition move_upload :: "bundle_state \<Rightarrow> string \<Rightarrow> string option \<Rightarrow> string option \<Rightarrow> upload_row \<Rightarrow> upload_row" where
  "move_upload st now code message r = r\<lparr>bq_state := st, bq_updated := now, bq_code := code, bq_message := message\<rparr>"

definition transition_upload_body ::
  "string \<Rightarrow> bundle_state \<Rightarrow> string option \<Rightarrow> string option \<Rightarrow> string \<Rightarrow> bundle_db \<Rightarrow> (upload_row pres \<times> bundle_db) pres" where
  "transition_upload_body i st code message now db =
     (case find (\<lambda>r. bq_id r = i) (uploads db) of
        None \<Rightarrow> Inl PlatformNotFound
      | Some r \<Rightarrow> demand (st \<in> set (allowed_bundle (bq_state r))) PlatformInvalidTransition
          (Inr (Inr (move_upload st now code message r), set_upload i (move_upload st now code message) db)))"

definition transition_bundle_submission ::
  "bundle_env \<Rightarrow> string \<Rightarrow> string \<Rightarrow> string option \<Rightarrow> string option \<Rightarrow> dtvalue option \<Rightarrow> bundle_db \<Rightarrow>
   upload_row pres \<times> bundle_db" where
  "transition_bundle_submission env submission_id state failure_code failure_message at_v db =
     guard (text_arg submission_id) (\<lambda>i. guard (bundle_state_arg state) (\<lambda>st.
     guard (bundle_details st failure_code failure_message) (\<lambda>(code, message). guard (bundle_stamp env at_v) (\<lambda>now.
     transact (transition_upload_body i st code message now))))) db"

section \<open>Results\<close>

definition advance_upload :: "bundle_state \<Rightarrow> string \<Rightarrow> upload_row \<Rightarrow> upload_row" where
  "advance_upload st now r = r\<lparr>bq_state := st, bq_updated := now\<rparr>"

definition new_upload_result ::
  "string \<Rightarrow> upload_row \<Rightarrow> upload_receipt \<Rightarrow> rat \<Rightarrow> rat \<Rightarrow> string \<Rightarrow> string \<Rightarrow> string \<Rightarrow> upload_result" where
  "new_upload_result i r c score most rubric diagnostics now = \<lparr>bs_id = i, bs_request = bq_id r, bs_student = bq_student r,
     bs_digest = bc_source_digest c, bs_score = score, bs_max = most, bs_rubric = rubric, bs_diagnostics = diagnostics,
     bs_created = now, bs_published = None\<rparr>"

definition insert_upload_result :: "upload_result \<Rightarrow> bundle_db \<Rightarrow> bundle_db pres" where
  "insert_upload_result s db =
     demand (\<not> taken bs_id (bs_id s) (upload_results db) \<and> \<not> taken bs_request (bs_request s) (upload_results db))
       PlatformConflict
     (Inr (db\<lparr>upload_results := upload_results db @ [s]\<rparr>))"

definition grade_upload_body ::
  "string \<Rightarrow> string \<Rightarrow> rat \<Rightarrow> rat \<Rightarrow> string \<Rightarrow> string \<Rightarrow> string \<Rightarrow> bundle_db \<Rightarrow>
   ((upload_row \<times> upload_result) pres \<times> bundle_db) pres" where
  "grade_upload_body i result score most rubric diagnostics now db =
     (case find (\<lambda>r. bq_id r = i) (uploads db) of
        None \<Rightarrow> Inl PlatformNotFound
      | Some r \<Rightarrow>
          demand (bq_state r = BunRunning) PlatformInvalidTransition
          (case find (\<lambda>c. bc_request c = i) (upload_receipts db) of
             None \<Rightarrow> Inl PlatformStateError
           | Some c \<Rightarrow>
               demand (most = bc_max c) PlatformConflict
               (let s = new_upload_result result r c score most rubric diagnostics now in
                rbind (insert_upload_result s db) (\<lambda>db1.
                  Inr (Inr (advance_upload BunGraded now r, s), set_upload i (advance_upload BunGraded now) db1)))))"

definition record_bundle_graded_result ::
  "bundle_env \<Rightarrow> string \<Rightarrow> string \<Rightarrow> pynum \<Rightarrow> pynum \<Rightarrow> (string \<times> json) list option \<Rightarrow>
   (string \<times> json) list list option \<Rightarrow> dtvalue option \<Rightarrow> bundle_db \<Rightarrow> (upload_row \<times> upload_result) pres \<times> bundle_db" where
  "record_bundle_graded_result env submission_id result_id score max_score rubric diagnostics at_v db =
     guard (text_arg submission_id) (\<lambda>i. guard (text_arg result_id) (\<lambda>result.
     guard (score_arg score) (\<lambda>x. guard (score_arg max_score) (\<lambda>most.
     guard (demand (x \<le> most) (Py ValueError) (Inr ())) (\<lambda>_.
     guard (rubric_arg rubric) (\<lambda>rubric_json. guard (diagnostics_arg diagnostics) (\<lambda>diagnostics_json.
     guard (bundle_stamp env at_v) (\<lambda>now.
     transact (grade_upload_body i result x most rubric_json diagnostics_json now)))))))))
     db"

text \<open>A result of a release that shows results after the deadline waits for the deadline as it stands
  now. A release of this kind without a deadline would make the comparison raise.\<close>

definition may_publish :: "string \<Rightarrow> release_row \<Rightarrow> unit pres" where
  "may_publish now w =
     (if rl_policy w = PolicyAfterDeadline
      then (case rl_due w of
              None \<Rightarrow> Inl (Py TypeErr)
            | Some t \<Rightarrow> demand (t \<le> now) PlatformInvalidTransition (Inr ()))
      else Inr ())"

definition publish_upload_row :: "string \<Rightarrow> upload_result \<Rightarrow> upload_result" where
  "publish_upload_row now s = s\<lparr>bs_published := Some now\<rparr>"

definition publish_upload_body ::
  "string \<Rightarrow> string \<Rightarrow> bundle_db \<Rightarrow> ((upload_row \<times> upload_result) pres \<times> bundle_db) pres" where
  "publish_upload_body i now db =
     (case find (\<lambda>r. bq_id r = i) (uploads db) of
        None \<Rightarrow> Inl PlatformNotFound
      | Some r \<Rightarrow>
          demand (bq_state r = BunGraded) PlatformInvalidTransition
          (case find (\<lambda>w. rl_id w = bq_release r) (releases db) of
             None \<Rightarrow> Inl (Py TypeErr)
           | Some w \<Rightarrow> rbind (may_publish now w) (\<lambda>_.
               case find (\<lambda>s. bs_request s = i) (upload_results db) of
                 None \<Rightarrow> Inl PlatformStateError
               | Some s \<Rightarrow>
                   demand (bs_published s = None) PlatformStateError
                   (Inr (Inr (advance_upload BunPublished now r, publish_upload_row now s),
                     set_upload i (advance_upload BunPublished now)
                       (db\<lparr>upload_results := update_where (\<lambda>s. bs_request s = i) (publish_upload_row now)
                          (upload_results db)\<rparr>))))))"

definition publish_bundle_result ::
  "bundle_env \<Rightarrow> string \<Rightarrow> dtvalue option \<Rightarrow> bundle_db \<Rightarrow> (upload_row \<times> upload_result) pres \<times> bundle_db" where
  "publish_bundle_result env submission_id at_v db =
     guard (text_arg submission_id) (\<lambda>i. guard (bundle_stamp env at_v) (\<lambda>now. transact (publish_upload_body i now))) db"

section \<open>What the student reads\<close>

text \<open>The uploads of the student for releases of the course, while the enrollment is active.\<close>

definition own_uploads :: "int \<Rightarrow> string \<Rightarrow> bundle_db \<Rightarrow> upload_row list" where
  "own_uploads sid course db = filter (\<lambda>r. bq_student r = sid \<and>
     (\<exists>w\<in>set (releases db). rl_id w = bq_release r \<and> rl_course w = course) \<and> enrolled sid course (base db)) (uploads db)"

definition owned_upload :: "int \<Rightarrow> string \<Rightarrow> string \<Rightarrow> bundle_db \<Rightarrow> upload_row pres" where
  "owned_upload sid submission_id course_key db =
     rbind (text_arg submission_id) (\<lambda>i. rbind (text_arg course_key) (\<lambda>course.
       case find (\<lambda>r. bq_id r = i) (own_uploads sid course db) of None \<Rightarrow> Inl PlatformNotFound | Some r \<Rightarrow> Inr r))"

definition get_owned_bundle_submission ::
  "bundle_env \<Rightarrow> string \<Rightarrow> string \<Rightarrow> string \<Rightarrow> dtvalue option \<Rightarrow> bundle_db \<Rightarrow> upload_row pres \<times> bundle_db" where
  "get_owned_bundle_submission env access course_key submission_id at_v =
     admitted env access course_key at_v (\<lambda>s p db. (owned_upload (st_id p) submission_id course_key db, db))"

definition newest_uploads :: "upload_row list \<Rightarrow> upload_row list" where
  "newest_uploads rs = rev (sort_key bq_received rs)"

definition list_owned_bundle_submissions ::
  "bundle_env \<Rightarrow> string \<Rightarrow> string \<Rightarrow> string \<Rightarrow> dtvalue option \<Rightarrow> bundle_db \<Rightarrow> upload_row list pres \<times> bundle_db" where
  "list_owned_bundle_submissions env access course_key assignment_id at_v =
     admitted env access course_key at_v (\<lambda>s p db.
       (rbind (text_arg assignment_id) (\<lambda>release. rbind (text_arg course_key) (\<lambda>course.
          Inr (take 101 (newest_uploads (filter (\<lambda>r. bq_release r = release \<and> taken bc_request (bq_id r) (upload_receipts db))
            (own_uploads (st_id p) course db)))))), db))"

definition get_latest_owned_bundle_submission ::
  "bundle_env \<Rightarrow> string \<Rightarrow> string \<Rightarrow> string \<Rightarrow> dtvalue option \<Rightarrow> bundle_db \<Rightarrow> upload_row option pres \<times> bundle_db" where
  "get_latest_owned_bundle_submission env access course_key assignment_id at_v =
     admitted env access course_key at_v (\<lambda>s p db.
       (rbind (text_arg assignment_id) (\<lambda>release. rbind (text_arg course_key) (\<lambda>course.
          case newest_uploads (filter (\<lambda>r. bq_release r = release) (own_uploads (st_id p) course db)) of
            [] \<Rightarrow> Inr None | r # _ \<Rightarrow> Inr (Some r))), db))"

definition get_bundle_receipt :: "string \<Rightarrow> bundle_db \<Rightarrow> upload_receipt pres" where
  "get_bundle_receipt submission_id db = rbind (text_arg submission_id) (\<lambda>i.
     case find (\<lambda>c. bc_request c = i) (upload_receipts db) of None \<Rightarrow> Inl PlatformNotFound | Some c \<Rightarrow> Inr c)"

definition get_owned_bundle_receipt ::
  "bundle_env \<Rightarrow> string \<Rightarrow> string \<Rightarrow> string \<Rightarrow> dtvalue option \<Rightarrow> bundle_db \<Rightarrow> upload_receipt pres \<times> bundle_db" where
  "get_owned_bundle_receipt env access course_key submission_id at_v =
     admitted env access course_key at_v (\<lambda>s p db.
       (rbind (owned_upload (st_id p) submission_id course_key db) (\<lambda>r. get_bundle_receipt (bq_id r) db), db))"

definition get_owned_bundle_result ::
  "bundle_env \<Rightarrow> string \<Rightarrow> string \<Rightarrow> string \<Rightarrow> dtvalue option \<Rightarrow> bundle_db \<Rightarrow> upload_result pres \<times> bundle_db" where
  "get_owned_bundle_result env access course_key submission_id at_v =
     admitted env access course_key at_v (\<lambda>s p db.
       (rbind (owned_upload (st_id p) submission_id course_key db) (\<lambda>r.
          case find (\<lambda>x. bs_request x = bq_id r \<and> bs_student x = bq_student r \<and> bs_published x \<noteq> None) (upload_results db) of
            None \<Rightarrow> Inl PlatformNotFound | Some x \<Rightarrow> Inr x), db))"

end
