(* ===== verification/Bundle_Reads.thy ===== *)
theory Bundle_Reads
  imports Bundle_Lifecycle "HOL-Library.Option_ord"
begin

text \<open>
  What instructors and workers read of uploaded bundles (\<open>src/src/autograde/platform_state.py\<close>): the
  review of one submission with the student's numbered attempts, the best earlier published result, the
  queues of the workers, and the dashboard with a row for every active student and release. A join is a
  comprehension over the rows, the \<open>rowid\<close> of an upload its place in the table, and SQLite sorts NULL
  before every text, as the order of options does.
\<close>

section \<open>Single rows\<close>

definition get_bundle_submission :: "string \<Rightarrow> bundle_db \<Rightarrow> upload_row pres" where
  "get_bundle_submission submission_id db = rbind (text_arg submission_id) (\<lambda>i.
     case find (\<lambda>r. bq_id r = i) (uploads db) of None \<Rightarrow> Inl PlatformNotFound | Some r \<Rightarrow> Inr r)"

definition result_for :: "upload_row \<Rightarrow> bundle_db \<Rightarrow> upload_result option" where
  "result_for r db = find (\<lambda>x. bs_request x = bq_id r) (upload_results db)"

definition release_for :: "upload_row \<Rightarrow> bundle_db \<Rightarrow> release_row option" where
  "release_for r db = find (\<lambda>w. rl_id w = bq_release r) (releases db)"

section \<open>Review\<close>

record review_row =
  vw_upload :: upload_row
  vw_order :: nat
  vw_student_key :: string
  vw_title :: string
  vw_key :: string
  vw_release :: string
  vw_max :: rat
  vw_score :: "rat option"

record attempt_view =
  hy_upload :: upload_row
  hy_order :: nat
  hy_score :: "rat option"
  hy_max :: "rat option"
  hy_version :: nat
  hy_previous :: "(string \<times> rat option \<times> rat option \<times> string) option"

definition numbered :: "bundle_db \<Rightarrow> (nat \<times> upload_row) list" where
  "numbered db = enumerate 1 (uploads db)"

definition review_of :: "bundle_db \<Rightarrow> nat \<times> upload_row \<Rightarrow> review_row option" where
  "review_of db nr = (case nr of (n, r) \<Rightarrow>
     Option.bind (release_for r db) (\<lambda>w.
     map_option (\<lambda>p. \<lparr>vw_upload = r, vw_order = n, vw_student_key = st_key p, vw_title = rl_title w, vw_key = rl_key w,
         vw_release = rl_release w, vw_max = (case result_for r db of None \<Rightarrow> rl_max w | Some x \<Rightarrow> bs_max x),
         vw_score = map_option bs_score (result_for r db)\<rparr>)
       (find (\<lambda>p. st_id p = bq_student r) (students (auth (base db))))))"

text \<open>The attempts of a student for a release in the order they were received, each with its number and
  the attempt before it.\<close>

definition attempts_in_order :: "int \<Rightarrow> string \<Rightarrow> bundle_db \<Rightarrow> (nat \<times> upload_row) list" where
  "attempts_in_order sid release db =
     sort_key (bq_received \<circ> snd) (filter (\<lambda>(n, r). bq_student r = sid \<and> bq_release r = release) (numbered db))"

definition attempt_view_of :: "bundle_db \<Rightarrow> nat \<Rightarrow> (nat \<times> upload_row) option \<Rightarrow> nat \<times> upload_row \<Rightarrow> attempt_view" where
  "attempt_view_of db version previous nr =
     \<lparr>hy_upload = snd nr, hy_order = fst nr, hy_score = map_option bs_score (result_for (snd nr) db),
       hy_max = map_option bs_max (result_for (snd nr) db), hy_version = version,
       hy_previous = map_option (\<lambda>(n, r). (bq_id r, map_option bs_score (result_for r db),
         map_option bs_max (result_for r db), bq_digest r)) previous\<rparr>"

fun timeline :: "bundle_db \<Rightarrow> nat \<Rightarrow> (nat \<times> upload_row) option \<Rightarrow> (nat \<times> upload_row) list \<Rightarrow> attempt_view list" where
  "timeline db n previous [] = []"
| "timeline db n previous (x # xs) = attempt_view_of db n previous x # timeline db (n + 1) (Some x) xs"

definition get_instructor_submission_review ::
  "string \<Rightarrow> string \<Rightarrow> int \<Rightarrow> bundle_db \<Rightarrow> (review_row \<times> attempt_view list) pres" where
  "get_instructor_submission_review course_key submission_id offset db =
     demand (0 \<le> offset \<and> offset \<le> 100000) PlatformNotFound
     (rbind (text_arg course_key) (\<lambda>course. rbind (text_arg submission_id) (\<lambda>i.
       case find (\<lambda>(n, r). bq_id r = i \<and> (\<exists>w\<in>set (releases db). rl_id w = bq_release r \<and> rl_course w = course)) (numbered db) of
         None \<Rightarrow> Inl PlatformNotFound
       | Some x \<Rightarrow>
           (case review_of db x of
              None \<Rightarrow> Inl PlatformNotFound
            | Some v \<Rightarrow> Inr (v, take 101 (drop (nat offset)
                (rev (timeline db 1 None (attempts_in_order (bq_student (snd x)) (bq_release (snd x)) db)))))))))"

text \<open>\<open>received_at\<close>, then \<open>rowid\<close>.\<close>

definition before :: "nat \<times> upload_row \<Rightarrow> nat \<times> upload_row \<Rightarrow> bool" where
  "before x y = (bq_received (snd x) < bq_received (snd y) \<or> (bq_received (snd x) = bq_received (snd y) \<and> fst x < fst y))"

definition earlier_results :: "nat \<times> upload_row \<Rightarrow> bundle_db \<Rightarrow> ((nat \<times> upload_row) \<times> upload_result) list" where
  "earlier_results x db = List.map_filter (\<lambda>y.
     if bq_student (snd y) = bq_student (snd x) \<and> bq_release (snd y) = bq_release (snd x) \<and>
       bq_state (snd y) = BunPublished \<and> before y x
     then (case result_for (snd y) db of
             None \<Rightarrow> None | Some g \<Rightarrow> if bs_published g \<noteq> None then Some (y, g) else None)
     else None) (numbered db)"

definition get_bundle_previous_best :: "string \<Rightarrow> bundle_db \<Rightarrow> (string \<times> string \<times> rat \<times> rat) option pres" where
  "get_bundle_previous_best submission_id db = rbind (text_arg submission_id) (\<lambda>i.
     Inr (Option.bind (find (\<lambda>x. bq_id (snd x) = i) (numbered db)) (\<lambda>x.
       case sort_down (bs_score \<circ> snd) (sort_down (bq_received \<circ> snd \<circ> fst) (sort_down (fst \<circ> fst) (earlier_results x db))) of
         [] \<Rightarrow> None
       | (y, g) # _ \<Rightarrow> Some (bq_id (snd y), bq_received (snd y), bs_score g, bs_max g))))"

section \<open>Queues\<close>

definition upload_order :: "upload_row list \<Rightarrow> upload_row list" where
  "upload_order rs = sort_key bq_received (sort_key bq_id rs)"

definition course_uploads :: "string \<Rightarrow> (release_row \<Rightarrow> upload_row \<Rightarrow> bool) \<Rightarrow> bundle_db \<Rightarrow> upload_row list" where
  "course_uploads course P db = filter (\<lambda>r. \<exists>w\<in>set (releases db). rl_id w = bq_release r \<and> rl_course w = course \<and> P w r)
     (uploads db)"

definition list_bundle_submissions_for_processing :: "string \<Rightarrow> string list \<Rightarrow> int \<Rightarrow> bundle_db \<Rightarrow> upload_row list pres" where
  "list_bundle_submissions_for_processing course_key states limit db =
     demand (1 \<le> limit \<and> limit \<le> 10000) (Py ValueError)
     (rbind (text_arg course_key) (\<lambda>course. rbind (rmapM bundle_state_arg states) (\<lambda>sts.
       list_page limit (upload_order (course_uploads course (\<lambda>w r. bq_state r \<in> set sts) db)))))"

definition upload_publishable :: "string \<Rightarrow> release_row \<Rightarrow> upload_row \<Rightarrow> bool" where
  "upload_publishable now w r = (bq_state r = BunGraded \<and> (rl_policy w \<in> {PolicyImmediate, PolicyScoreOnly} \<or>
     (rl_policy w = PolicyAfterDeadline \<and> (case rl_due w of None \<Rightarrow> False | Some t \<Rightarrow> t \<le> now))))"

definition list_publishable_bundle_submissions ::
  "bundle_env \<Rightarrow> string \<Rightarrow> int \<Rightarrow> dtvalue option \<Rightarrow> bundle_db \<Rightarrow> upload_row list pres" where
  "list_publishable_bundle_submissions env course_key limit at_v db =
     demand (1 \<le> limit \<and> limit \<le> 10000) (Py ValueError)
     (rbind (text_arg course_key) (\<lambda>course. rbind (bundle_stamp env at_v) (\<lambda>now.
       list_page limit (upload_order (course_uploads course (upload_publishable now) db)))))"

section \<open>The dashboard\<close>

record dashboard_row =
  da_student :: int
  da_student_key :: string
  da_release :: string
  da_key :: string
  da_version :: string
  da_title :: string
  da_downloads :: nat
  da_first_download :: "string option"
  da_last_download :: "string option"
  da_claims :: nat
  da_last_claim :: "string option"
  da_submissions :: nat
  da_latest :: "(string \<times> bundle_state \<times> string) option"
  da_accepted :: "string option"
  da_score :: "rat option"
  da_max :: rat
  da_published :: "string option"

definition smallest :: "string list \<Rightarrow> string option" where
  "smallest ts = (case sort ts of [] \<Rightarrow> None | t # _ \<Rightarrow> Some t)"

definition greatest :: "string list \<Rightarrow> string option" where
  "greatest ts = (case rev (sort ts) of [] \<Rightarrow> None | t # _ \<Rightarrow> Some t)"

definition student_uploads :: "int \<Rightarrow> string \<Rightarrow> bundle_db \<Rightarrow> upload_row list" where
  "student_uploads sid release db = filter (\<lambda>r. bq_student r = sid \<and> bq_release r = release) (uploads db)"

definition dashboard_cell :: "bundle_env \<Rightarrow> bundle_db \<Rightarrow> student_row \<Rightarrow> release_row \<Rightarrow> dashboard_row" where
  "dashboard_cell env db p w =
     (let ds = map dl_at (filter (\<lambda>d. dl_student d = st_id p \<and> dl_release d = rl_id w) (downloads db));
          ts = claims_accepted env (st_id p) (rl_id w);
          rs = student_uploads (st_id p) (rl_id w) db;
          latest = (case newest_uploads rs of [] \<Rightarrow> None | r # _ \<Rightarrow> Some r);
          result = Option.bind latest (\<lambda>r. result_for r db)
      in \<lparr>da_student = st_id p, da_student_key = st_key p, da_release = rl_id w, da_key = rl_key w,
          da_version = rl_release w, da_title = rl_title w, da_downloads = length ds, da_first_download = smallest ds,
          da_last_download = greatest ds, da_claims = length ts, da_last_claim = greatest ts,
          da_submissions = length rs, da_latest = map_option (\<lambda>r. (bq_id r, bq_state r, bq_received r)) latest,
          da_accepted = Option.bind latest (\<lambda>r. map_option bc_accepted
            (find (\<lambda>c. bc_request c = bq_id r) (upload_receipts db))),
          da_score = map_option bs_score result, da_max = rl_max w, da_published = Option.bind result bs_published\<rparr>)"

definition dashboard_shows :: "string option \<Rightarrow> bool \<Rightarrow> bundle_db \<Rightarrow> student_row \<Rightarrow> release_row \<Rightarrow> bool" where
  "dashboard_shows release inactive db p w =
     ((case release of Some i \<Rightarrow> rl_id w = i | None \<Rightarrow> rl_ready w \<or> student_uploads (st_id p) (rl_id w) db \<noteq> []) \<and>
      (inactive \<or> rl_active w))"

definition active_students :: "string \<Rightarrow> auth_db \<Rightarrow> student_row list" where
  "active_students course a = concat (map (\<lambda>e. filter (\<lambda>p. st_id p = en_student e \<and> st_active p) (students a))
     (filter (\<lambda>e. en_course e = course \<and> en_active e) (enrollments a)))"

definition dashboard_cells :: "bundle_env \<Rightarrow> string \<Rightarrow> string option \<Rightarrow> bool \<Rightarrow> bundle_db \<Rightarrow> dashboard_row list" where
  "dashboard_cells env course release inactive db =
     concat (map (\<lambda>p. map (dashboard_cell env db p)
         (filter (dashboard_shows release inactive db p) (filter (\<lambda>w. rl_course w = course) (releases db))))
       (active_students course (auth (base db))))"

definition dashboard_order :: "string option \<Rightarrow> dashboard_row list \<Rightarrow> dashboard_row list" where
  "dashboard_order release vs =
     (case release of
        Some _ \<Rightarrow> sort_key da_key (sort_key da_version (sort_key da_student_key (sort_key da_student vs)))
      | None \<Rightarrow>
          sort_down (\<lambda>v. 0 < da_submissions v) (sort_down (\<lambda>v. map_option (snd \<circ> snd) (da_latest v))
            (sort_key da_student_key (sort_key da_key (sort_key da_version (sort_key da_student vs))))))"

definition list_bundle_dashboard_rows ::
  "bundle_env \<Rightarrow> string \<Rightarrow> string option \<Rightarrow> bool \<Rightarrow> int \<Rightarrow> bundle_db \<Rightarrow> dashboard_row list pres" where
  "list_bundle_dashboard_rows env course_key assignment_id include_inactive limit db =
     rbind (text_arg course_key) (\<lambda>course. rbind (optional_arg text_arg assignment_id) (\<lambda>release.
     demand (1 \<le> limit \<and> limit \<le> 50000) (Py ValueError)
     (Inr (take (nat limit) (dashboard_order release (dashboard_cells env course release include_inactive db))))))"

end
