(* ===== verification/Submission_Line.thy ===== *)
theory Submission_Line
  imports Auth_Retention
begin

text \<open>
  The interface that repository submissions and uploaded bundles share: requests whose state decides
  whether a receipt and a result belong to them. The operations move one request and add or publish one
  row; the locale says what receipt, result and request owe each other, and proves once that each kind
  of move keeps the three tables together.
\<close>

locale submission_line =
  fixes ident :: "'r \<Rightarrow> string" and state :: "'r \<Rightarrow> 's"
    and receipt_for :: "'c \<Rightarrow> string" and scored_for :: "'x \<Rightarrow> string"
    and same :: "'r \<Rightarrow> 'r \<Rightarrow> bool" and pins :: "'c \<Rightarrow> 'r \<Rightarrow> bool" and rests :: "'x \<Rightarrow> 'r \<Rightarrow> 'c \<Rightarrow> bool"
    and pinned_state :: "'s \<Rightarrow> bool" and receipt_state :: "'s \<Rightarrow> bool" and scored_state :: "'s \<Rightarrow> bool"
    and shown_state :: "'s \<Rightarrow> bool" and visible :: "'x \<Rightarrow> bool"
  assumes same_ident: "same r r' \<Longrightarrow> ident r' = ident r"
    and pins_same: "same r r' \<Longrightarrow> pins c r \<Longrightarrow> pins c r'"
    and rests_same: "same r r' \<Longrightarrow> rests x r c \<Longrightarrow> rests x r' c"
    and pins_ident: "pins c r \<Longrightarrow> receipt_for c = ident r"
    and rests_ident: "rests x r c \<Longrightarrow> scored_for x = ident r \<and> receipt_for c = ident r"
    and scored_pinned: "scored_state s \<Longrightarrow> pinned_state s"
    and pinned_receipt: "pinned_state s \<Longrightarrow> receipt_state s"
begin

text \<open>The rows of one request.\<close>

definition sits :: "'c list \<Rightarrow> 'x list \<Rightarrow> 'r \<Rightarrow> bool" where
  "sits cs xs r = ((\<forall>c\<in>set cs. receipt_for c = ident r \<longrightarrow> pins c r \<and> receipt_state (state r)) \<and>
     (\<forall>x\<in>set xs. scored_for x = ident r \<longrightarrow> scored_state (state r) \<and> (visible x \<longleftrightarrow> shown_state (state r)) \<and>
       (\<exists>c\<in>set cs. rests x r c)) \<and>
     (pinned_state (state r) \<longrightarrow> ident r \<in> receipt_for ` set cs) \<and>
     (scored_state (state r) \<longrightarrow> ident r \<in> scored_for ` set xs))"

definition line :: "'r list \<Rightarrow> 'c list \<Rightarrow> 'x list \<Rightarrow> bool" where
  "line rs cs xs = (distinct (map ident rs) \<and> distinct (map receipt_for cs) \<and> distinct (map scored_for xs) \<and>
     receipt_for ` set cs \<subseteq> ident ` set rs \<and> scored_for ` set xs \<subseteq> ident ` set rs \<and> (\<forall>r\<in>set rs. sits cs xs r))"

lemma line_empty [simp]: "line [] [] []"
  by (simp add: line_def)

section \<open>What a line says\<close>

lemma request_unique: "line rs cs xs \<Longrightarrow> r \<in> set rs \<Longrightarrow> s \<in> set rs \<Longrightarrow> ident r = ident s \<Longrightarrow> r = s"
  by (auto simp: line_def distinct_map dest: inj_onD)

lemma receipt_request:
  assumes "line rs cs xs" and "c \<in> set cs"
  obtains r where "r \<in> set rs" "pins c r" "receipt_state (state r)"
proof -
  obtain r where "r \<in> set rs" "receipt_for c = ident r" using assms by (force simp: line_def)
  then show thesis using that assms by (auto simp: line_def sits_def)
qed

lemma result_rows:
  assumes "line rs cs xs" and "x \<in> set xs"
  obtains r c where "r \<in> set rs" "c \<in> set cs" "rests x r c" "scored_state (state r)" "visible x \<longleftrightarrow> shown_state (state r)"
proof -
  obtain r where "r \<in> set rs" "scored_for x = ident r" using assms by (force simp: line_def)
  then show thesis using that assms unfolding line_def sits_def by blast
qed

lemma request_receipt:
  assumes "line rs cs xs" and "r \<in> set rs" and "pinned_state (state r)"
  obtains c where "c \<in> set cs" "receipt_for c = ident r" "pins c r"
  using assms unfolding line_def sits_def by fastforce

lemma request_result:
  assumes "line rs cs xs" and "r \<in> set rs" and "scored_state (state r)"
  obtains x c where "x \<in> set xs" "scored_for x = ident r" "c \<in> set cs" "rests x r c" "visible x \<longleftrightarrow> shown_state (state r)"
  using assms unfolding line_def sits_def by fastforce

lemma no_result: "line rs cs xs \<Longrightarrow> r \<in> set rs \<Longrightarrow> \<not> scored_state (state r) \<Longrightarrow> ident r \<notin> scored_for ` set xs"
  by (auto simp: line_def sits_def)

section \<open>A new request\<close>

lemma sits_other:
  assumes r: "sits cs xs r" and c: "\<And>c. c \<in> set cs' \<Longrightarrow> receipt_for c = ident r \<Longrightarrow> c \<in> set cs"
    and x: "\<And>x. x \<in> set xs' \<Longrightarrow> scored_for x = ident r \<Longrightarrow> x \<in> set xs" and sub: "set cs \<subseteq> set cs'"
    and k: "ident r \<in> scored_for ` set xs \<Longrightarrow> ident r \<in> scored_for ` set xs'"
  shows "sits cs' xs' r"
proof -
  have "pins d r \<and> receipt_state (state r)" if "d \<in> set cs'" "receipt_for d = ident r" for d
    using r c [OF that] that(2) by (simp add: sits_def)
  moreover have "scored_state (state r) \<and> (visible y \<longleftrightarrow> shown_state (state r)) \<and> (\<exists>c\<in>set cs'. rests y r c)"
    if y: "y \<in> set xs'" "scored_for y = ident r" for y
  proof -
    have "\<exists>c\<in>set cs. rests y r c" "scored_state (state r)" "visible y \<longleftrightarrow> shown_state (state r)"
      using r x [OF y] y(2) by (simp_all add: sits_def)
    then show ?thesis using sub by blast
  qed
  moreover have "pinned_state (state r) \<longrightarrow> ident r \<in> receipt_for ` set cs'"
    using r subsetD [OF image_mono [OF sub, of receipt_for], of "ident r"] unfolding sits_def by blast
  moreover have "scored_state (state r) \<longrightarrow> ident r \<in> scored_for ` set xs'" using r k unfolding sits_def by blast
  ultimately show ?thesis unfolding sits_def by blast
qed

lemma fresh_rows:
  assumes "line rs cs xs" and "ident r \<notin> ident ` set rs"
  shows "\<forall>c\<in>set cs. receipt_for c \<noteq> ident r" "\<forall>x\<in>set xs. scored_for x \<noteq> ident r"
proof -
  have "receipt_for ` set cs \<subseteq> ident ` set rs" "scored_for ` set xs \<subseteq> ident ` set rs" using assms(1) by (simp_all add: line_def)
  then show "\<forall>c\<in>set cs. receipt_for c \<noteq> ident r" "\<forall>x\<in>set xs. scored_for x \<noteq> ident r"
    using assms(2) by (metis imageI subsetD)+
qed

lemma line_new:
  assumes l: "line rs cs xs" and fresh: "ident r \<notin> ident ` set rs" and st: "\<not> pinned_state (state r)"
  shows "line (rs @ [r]) cs xs"
proof -
  have "\<not> scored_state (state r)" using st scored_pinned by blast
  then have "sits cs xs r" using fresh_rows [OF l fresh] st by (simp add: sits_def)
  then show ?thesis using l fresh by (auto simp: line_def)
qed

lemma line_admit:
  assumes l: "line rs cs xs" and fresh: "ident r \<notin> ident ` set rs" and c: "pins c r"
    and st: "pinned_state (state r)" "\<not> scored_state (state r)"
  shows "line (rs @ [r]) (cs @ [c]) xs"
proof -
  have i: "receipt_for c = ident r" using pins_ident [OF c] .
  note n = fresh_rows [OF l fresh]
  have new: "sits (cs @ [c]) xs r" using c st i n pinned_receipt [OF st(1)] by (simp add: sits_def)
  have old: "sits (cs @ [c]) xs s" if s: "s \<in> set rs" for s
  proof (rule sits_other)
    show "sits cs xs s" using l s by (simp add: line_def)
    show "\<And>d. d \<in> set (cs @ [c]) \<Longrightarrow> receipt_for d = ident s \<Longrightarrow> d \<in> set cs" using i fresh s by auto
  qed auto
  have "ident r \<notin> receipt_for ` set cs" using n(1) by (metis imageE)
  then show ?thesis using l fresh i new old by (auto simp: line_def)
qed

section \<open>A move of one request\<close>

lemma line_moved:
  assumes l: "line rs cs xs" and r: "r \<in> set rs" and f: "same r (f r)"
    and cs: "distinct (map receipt_for cs')" "set cs \<subseteq> set cs'" "\<And>c. c \<in> set cs' \<Longrightarrow> receipt_for c \<noteq> ident r \<Longrightarrow> c \<in> set cs"
    and xs: "distinct (map scored_for xs')" "\<And>x. x \<in> set xs' \<Longrightarrow> scored_for x \<noteq> ident r \<Longrightarrow> x \<in> set xs"
      "\<And>x. x \<in> set xs \<Longrightarrow> scored_for x \<noteq> ident r \<Longrightarrow> x \<in> set xs'"
    and new: "sits cs' xs' (f r)"
  shows "line (update_where (\<lambda>s. ident s = ident r) f rs) cs' xs'"
proof -
  let ?rs = "update_where (\<lambda>s. ident s = ident r) f rs"
  have i: "ident (f r) = ident r" using same_ident [OF f] .
  have own: "s = r" if "s \<in> set rs" "ident s = ident r" for s using request_unique [OF l that(1) r that(2)] .
  have ids: "map ident ?rs = map ident rs"
    unfolding update_where_def using own i by (auto intro!: map_cong)
  have idset: "ident ` set ?rs = ident ` set rs" using arg_cong [OF ids, of set] by simp
  have r': "ident r \<in> ident ` set rs" using r by (rule imageI)
  have old: "receipt_for ` set cs \<subseteq> ident ` set rs" "scored_for ` set xs \<subseteq> ident ` set rs" using l by (simp_all add: line_def)
  have sub: "receipt_for ` set cs' \<subseteq> ident ` set rs" using cs(3) old(1) r' by (metis image_subset_iff)
  have sub': "scored_for ` set xs' \<subseteq> ident ` set rs" using xs(2) old(2) r' by (metis image_subset_iff)
  have "sits cs' xs' t" if t: "t \<in> set ?rs" for t
  proof -
    obtain s where s: "s \<in> set rs" "t = (if ident s = ident r then f s else s)" using t by (auto simp: update_where_def)
    show ?thesis
    proof (cases "ident s = ident r")
      case True
      then show ?thesis using s own new by auto
    next
      case False
      have "sits cs' xs' s"
      proof (rule sits_other)
        show "sits cs xs s" using l s(1) by (simp add: line_def)
        show "ident s \<in> scored_for ` set xs'" if "ident s \<in> scored_for ` set xs" using that xs(3) False by force
      qed (use False cs xs in auto)
      then show ?thesis using s(2) False by simp
    qed
  qed
  then show ?thesis using l cs(1) xs(1) ids idset sub sub' by (simp add: line_def)
qed

text \<open>A move that concerns no other row.\<close>

lemma line_move:
  assumes l: "line rs cs xs" and r: "r \<in> set rs" and f: "same r (f r)"
    and st: "\<not> scored_state (state r)" "\<not> scored_state (state (f r))"
      "pinned_state (state (f r)) \<Longrightarrow> pinned_state (state r)" "receipt_state (state r) \<Longrightarrow> receipt_state (state (f r))"
  shows "line (update_where (\<lambda>s. ident s = ident r) f rs) cs xs"
proof (rule line_moved [where f = f, OF l r f])
  have s: "sits cs xs r" using l r by (simp add: line_def)
  have i: "ident (f r) = ident r" using same_ident [OF f] .
  have "\<forall>x\<in>set xs. scored_for x \<noteq> ident r" using no_result [OF l r st(1)] by (metis imageI)
  then show "sits cs xs (f r)" using s st(2-4) i pins_same [OF f] by (simp add: sits_def)
qed (use l in \<open>auto simp: line_def\<close>)

text \<open>The receipt of a request that waited for it.\<close>

lemma line_accept:
  assumes l: "line rs cs xs" and r: "r \<in> set rs" and f: "same r (f r)" and c: "pins c r" "ident r \<notin> receipt_for ` set cs"
    and st: "\<not> scored_state (state r)" "pinned_state (state (f r))" "\<not> scored_state (state (f r))"
  shows "line (update_where (\<lambda>s. ident s = ident r) f rs) (cs @ [c]) xs"
proof (rule line_moved [where f = f, OF l r f])
  have i: "receipt_for c = ident r" "ident (f r) = ident r" using pins_ident [OF c(1)] same_ident [OF f] by simp_all
  have "\<forall>x\<in>set xs. scored_for x \<noteq> ident r" "\<forall>d\<in>set cs. receipt_for d \<noteq> ident r"
    using no_result [OF l r st(1)] c(2) by (metis imageI)+
  then show "sits (cs @ [c]) xs (f r)"
    using i c st pins_same [OF f c(1)] pinned_receipt [OF st(2)] by (simp add: sits_def)
  show "distinct (map receipt_for (cs @ [c]))" using l i c by (auto simp: line_def)
  show "\<And>d. d \<in> set (cs @ [c]) \<Longrightarrow> receipt_for d \<noteq> ident r \<Longrightarrow> d \<in> set cs" using i by auto
qed (use l in \<open>auto simp: line_def\<close>)

text \<open>The result of a request with a receipt.\<close>

lemma line_grade:
  assumes l: "line rs cs xs" and r: "r \<in> set rs" and f: "same r (f r)" and x: "c \<in> set cs" "rests x r c" "\<not> visible x"
    and st: "pinned_state (state r)" "\<not> scored_state (state r)" "scored_state (state (f r))" "\<not> shown_state (state (f r))"
  shows "line (update_where (\<lambda>s. ident s = ident r) f rs) cs (xs @ [x])"
proof (rule line_moved [where f = f, OF l r f])
  have i: "scored_for x = ident r" "ident (f r) = ident r" using rests_ident [OF x(2)] same_ident [OF f] by simp_all
  have n: "ident r \<notin> scored_for ` set xs" using no_result [OF l r st(2)] .
  have own: "pins d r" if "d \<in> set cs" "receipt_for d = ident r" for d using l r that by (auto simp: line_def sits_def)
  show "distinct (map scored_for (xs @ [x]))" using l i n by (auto simp: line_def)
  have "receipt_state (state (f r))" using scored_pinned pinned_receipt st(3) by blast
  moreover have "rests x (f r) c" using rests_same [OF f x(2)] .
  moreover have "ident r \<in> receipt_for ` set cs" using rests_ident [OF x(2)] x(1) by force
  moreover have "\<forall>y\<in>set xs. scored_for y \<noteq> ident r" using n by (metis imageI)
  ultimately show "sits cs (xs @ [x]) (f r)"
    using i x st own pins_same [OF f] by (auto simp: sits_def)
  show "\<And>y. y \<in> set (xs @ [x]) \<Longrightarrow> scored_for y \<noteq> ident r \<Longrightarrow> y \<in> set xs" using i by auto
qed (use l in \<open>auto simp: line_def\<close>)

text \<open>The publication of the result.\<close>

lemma line_publish:
  assumes l: "line rs cs xs" and r: "r \<in> set rs" and f: "same r (f r)"
    and st: "scored_state (state r)" "scored_state (state (f r))" "shown_state (state (f r))"
    and g: "\<And>x. scored_for (g x) = scored_for x" "\<And>x. visible (g x)" "\<And>x c. rests x r c \<Longrightarrow> rests (g x) r c"
  shows "line (update_where (\<lambda>s. ident s = ident r) f rs) cs (update_where (\<lambda>x. scored_for x = ident r) g xs)"
proof (rule line_moved [where f = f, OF l r f])
  let ?xs = "update_where (\<lambda>x. scored_for x = ident r) g xs"
  have i: "ident (f r) = ident r" using same_ident [OF f] .
  have keys: "map scored_for ?xs = map scored_for xs" using g(1) by (auto simp: update_where_def)
  then show "distinct (map scored_for ?xs)" using l by (simp add: line_def)
  have own: "pins d r" if "d \<in> set cs" "receipt_for d = ident r" for d using l r that by (auto simp: line_def sits_def)
  have of: "\<exists>y\<in>set xs. x = g y \<and> scored_for y = ident r" if "x \<in> set ?xs" "scored_for x = ident r" for x
  proof -
    have "x \<in> (\<lambda>y. if scored_for y = ident r then g y else y) ` set xs" using that(1) by (simp add: set_update_where)
    then obtain y where y: "y \<in> set xs" "x = (if scored_for y = ident r then g y else y)" by blast
    then show ?thesis using that(2) by (cases "scored_for y = ident r") auto
  qed
  have rest: "\<exists>c\<in>set cs. rests x (f r) c" if x: "x \<in> set ?xs" "scored_for x = ident r" for x
  proof -
    obtain y where y: "y \<in> set xs" "x = g y" "scored_for y = ident r" using of [OF x] by blast
    then obtain c where "c \<in> set cs" "rests y r c" using l r unfolding line_def sits_def by blast
    then show ?thesis using g(3) rests_same [OF f] y(2) by blast
  qed
  have vis: "visible x" if "x \<in> set ?xs" "scored_for x = ident r" for x
    using of [OF that] g(2) by blast
  have "ident r \<in> scored_for ` set ?xs"
    using arg_cong [OF keys, of set] l r st(1) by (auto simp: line_def sits_def)
  moreover have "ident r \<in> receipt_for ` set cs" using l r scored_pinned [OF st(1)] by (auto simp: line_def sits_def)
  moreover have "receipt_state (state (f r))" using scored_pinned pinned_receipt st(2) by blast
  ultimately show "sits cs ?xs (f r)"
    using i st own rest vis pins_same [OF f] by (auto simp: sits_def)
qed (use l g(1) in \<open>auto simp: line_def update_where_def split: if_split_asm\<close>)

end

end
