(* ===== verification/Bundle_Ledger.thy ===== *)
theory Bundle_Ledger
  imports Bundle_Reads Submission_Line
begin

text \<open>
  What every reachable set of bundle rows satisfies, and what later rows keep of earlier ones. A release
  is immutable but for its switches and a deadline that moves later, each move with its audit row; an
  upload belongs to a release of a course its student is enrolled in, to a session of the student, and
  has its receipt from the start; a receipt pins the inputs of the release; a result rests on the
  receipt and, where the release says so, was published no earlier than the deadline; revisions of the
  instructions are numbered from zero.
\<close>

section \<open>Rows that change over time\<close>

definition later_due :: "string option \<Rightarrow> string option \<Rightarrow> bool" where
  "later_due a b = (case a of None \<Rightarrow> b = None | Some s \<Rightarrow> (case b of None \<Rightarrow> False | Some t \<Rightarrow> s \<le> t))"

definition release_same :: "release_row \<Rightarrow> release_row \<Rightarrow> bool" where
  "release_same w w' = (w' = w\<lparr>rl_active := rl_active w', rl_ready := rl_ready w', rl_due := rl_due w',
     rl_updated := rl_updated w'\<rparr>)"

definition release_later :: "release_row \<Rightarrow> release_row \<Rightarrow> bool" where
  "release_later w w' = (release_same w w' \<and> later_due (rl_due w) (rl_due w'))"

definition check_later :: "check_row \<Rightarrow> check_row \<Rightarrow> bool" where
  "check_later k k' = (k' = k \<or> (ck_status k = CheckPending \<and> (\<exists>passed details now. k' = close_check passed details now k)))"

definition upload_moves :: "bundle_state \<Rightarrow> bundle_state \<Rightarrow> bool" where
  "upload_moves a b = (b \<in> set (allowed_bundle a) \<or> (a, b) \<in> {(BunRunning, BunGraded), (BunGraded, BunPublished)})"

definition upload_same :: "upload_row \<Rightarrow> upload_row \<Rightarrow> bool" where
  "upload_same r r' = (r' = r\<lparr>bq_state := bq_state r', bq_updated := bq_updated r', bq_code := bq_code r',
     bq_message := bq_message r'\<rparr>)"

definition upload_later :: "upload_row \<Rightarrow> upload_row \<Rightarrow> bool" where
  "upload_later r r' = (upload_same r r' \<and> (r' = r \<or> upload_moves\<^sup>+\<^sup>+ (bq_state r) (bq_state r')))"

definition upload_result_later :: "upload_result \<Rightarrow> upload_result \<Rightarrow> bool" where
  "upload_result_later x x' = (x' = x \<or> (bs_published x = None \<and> (\<exists>t. x' = publish_upload_row t x)))"

definition admission_later :: "admission_row \<Rightarrow> admission_row \<Rightarrow> bool" where
  "admission_later c c' = (admission_key c' = admission_key c \<and> bn_attempts c \<le> bn_attempts c')"

lemma upload_same_fields:
  assumes "upload_same r r'"
  shows "bq_id r' = bq_id r" "bq_student r' = bq_student r" "bq_session r' = bq_session r" "bq_release r' = bq_release r"
    "bq_endpoint r' = bq_endpoint r" "bq_key r' = bq_key r" "bq_hash r' = bq_hash r" "bq_digest r' = bq_digest r"
    "bq_size r' = bq_size r" "bq_received r' = bq_received r" "upload_key r' = upload_key r"
proof -
  obtain a b c d where "r' = r\<lparr>bq_state := a, bq_updated := b, bq_code := c, bq_message := d\<rparr>"
    using assms unfolding upload_same_def by blast
  then show "bq_id r' = bq_id r" "bq_student r' = bq_student r" "bq_session r' = bq_session r" "bq_release r' = bq_release r"
    "bq_endpoint r' = bq_endpoint r" "bq_key r' = bq_key r" "bq_hash r' = bq_hash r" "bq_digest r' = bq_digest r"
    "bq_size r' = bq_size r" "bq_received r' = bq_received r" "upload_key r' = upload_key r"
    by (simp_all add: upload_key_def)
qed

lemma release_later_fields:
  assumes "release_later w w'"
  shows "rl_id w' = rl_id w" "rl_course w' = rl_course w" "rl_key w' = rl_key w" "rl_release w' = rl_release w"
    "rl_title w' = rl_title w" "rl_starter w' = rl_starter w" "rl_starter_digest w' = rl_starter_digest w"
    "rl_starter_size w' = rl_starter_size w" "rl_assessment w' = rl_assessment w"
    "rl_assessment_digest w' = rl_assessment_digest w" "rl_data w' = rl_data w" "rl_dataset_digest w' = rl_dataset_digest w"
    "rl_image w' = rl_image w" "rl_rubric w' = rl_rubric w" "rl_max w' = rl_max w" "rl_policy w' = rl_policy w"
    "rl_opens w' = rl_opens w" "release_version w' = release_version w" "later_due (rl_due w) (rl_due w')"
proof -
  obtain a b c d where "w' = w\<lparr>rl_active := a, rl_ready := b, rl_due := c, rl_updated := d\<rparr>"
    and "later_due (rl_due w) (rl_due w')"
    using assms unfolding release_later_def release_same_def by blast
  then show "rl_id w' = rl_id w" "rl_course w' = rl_course w" "rl_key w' = rl_key w" "rl_release w' = rl_release w"
    "rl_title w' = rl_title w" "rl_starter w' = rl_starter w" "rl_starter_digest w' = rl_starter_digest w"
    "rl_starter_size w' = rl_starter_size w" "rl_assessment w' = rl_assessment w"
    "rl_assessment_digest w' = rl_assessment_digest w" "rl_data w' = rl_data w" "rl_dataset_digest w' = rl_dataset_digest w"
    "rl_image w' = rl_image w" "rl_rubric w' = rl_rubric w" "rl_max w' = rl_max w" "rl_policy w' = rl_policy w"
    "rl_opens w' = rl_opens w" "release_version w' = release_version w" "later_due (rl_due w) (rl_due w')"
    by (simp_all add: release_version_def)
qed

lemma later_due_refl [simp]: "later_due a a"
  by (simp add: later_due_def split: option.split)

lemma later_due_trans: "later_due a b \<Longrightarrow> later_due b c \<Longrightarrow> later_due a c"
  by (auto simp: later_due_def split: option.split_asm)

lemma release_same_iff:
  "release_same w w' \<longleftrightarrow> (\<exists>a b c d. w' = w\<lparr>rl_active := a, rl_ready := b, rl_due := c, rl_updated := d\<rparr>)"
  unfolding release_same_def by (rule iffI) (blast, clarsimp)

lemma release_same_trans: "release_same a b \<Longrightarrow> release_same b c \<Longrightarrow> release_same a c"
proof -
  assume "release_same a b" and "release_same b c"
  then obtain k l m n k' l' m' n' where b: "b = a\<lparr>rl_active := k, rl_ready := l, rl_due := m, rl_updated := n\<rparr>"
    and c: "c = b\<lparr>rl_active := k', rl_ready := l', rl_due := m', rl_updated := n'\<rparr>"
    unfolding release_same_iff by blast
  have "c = a\<lparr>rl_active := k', rl_ready := l', rl_due := m', rl_updated := n'\<rparr>" unfolding c b by simp
  then show ?thesis unfolding release_same_iff by blast
qed

lemma upload_same_trans: "upload_same a b \<Longrightarrow> upload_same b c \<Longrightarrow> upload_same a c"
  by (cases a; cases b; cases c) (simp add: upload_same_def)

interpretation release_history: row_history release_later
proof
  show "release_later r r" for r by (simp add: release_later_def release_same_def)
  show "release_later r s \<Longrightarrow> release_later s t \<Longrightarrow> release_later r t" for r s t
    unfolding release_later_def using release_same_trans later_due_trans by blast
qed

lemma closed_check [simp]: "ck_status (close_check passed details now k) \<noteq> CheckPending"
  by (simp add: close_check_def)

interpretation check_history: row_history check_later
proof
  show "check_later r r" for r by (simp add: check_later_def)
  show "check_later r s \<Longrightarrow> check_later s t \<Longrightarrow> check_later r t" for r s t
    unfolding check_later_def using closed_check by metis
qed

interpretation upload_history: row_history upload_later
proof
  show "upload_later r r" for r by (simp add: upload_later_def upload_same_def)
  show "upload_later r s \<Longrightarrow> upload_later s t \<Longrightarrow> upload_later r t" for r s t
    unfolding upload_later_def using upload_same_trans tranclp_trans by metis
qed

lemma published_upload [simp]: "bs_published (publish_upload_row t x) = Some t"
  by (simp add: publish_upload_row_def)

interpretation upload_result_history: row_history upload_result_later
proof
  show "upload_result_later r r" for r by (simp add: upload_result_later_def)
  show "upload_result_later r s \<Longrightarrow> upload_result_later s t \<Longrightarrow> upload_result_later r t" for r s t
    unfolding upload_result_later_def using published_upload by (metis option.distinct(1))
qed

interpretation admission_history: row_history admission_later
  by unfold_locales (auto simp: admission_later_def)

section \<open>Uploads, receipts and results\<close>

definition upload_pins :: "upload_receipt \<Rightarrow> upload_row \<Rightarrow> bool" where
  "upload_pins c r = (bc_request c = bq_id r \<and> bc_student c = bq_student r \<and> bc_release c = bq_release r \<and>
     bc_source_digest c = bq_digest r \<and> bc_source_size c = bq_size r \<and> bc_received c = bq_received r)"

definition result_rests :: "upload_result \<Rightarrow> upload_row \<Rightarrow> upload_receipt \<Rightarrow> bool" where
  "result_rests x r c = (bs_request x = bq_id r \<and> bs_student x = bq_student r \<and> bc_request c = bq_id r \<and>
     bs_digest x = bc_source_digest c \<and> bs_max x = bc_max c \<and> 0 \<le> bs_score x \<and> bs_score x \<le> bs_max x)"

definition bundle_scored :: "bundle_state \<Rightarrow> bool" where
  "bundle_scored st = (st \<in> {BunGraded, BunPublished})"

text \<open>Every upload has a receipt; a result there is for a graded one, visible once it is published.\<close>

interpretation bundle_line: submission_line bq_id bq_state bc_request bs_request upload_same upload_pins result_rests
  "\<lambda>_. True" "\<lambda>_. True" bundle_scored "\<lambda>st. st = BunPublished" "\<lambda>x. bs_published x \<noteq> None"
  by unfold_locales (auto simp: upload_same_fields upload_pins_def result_rests_def)

section \<open>The invariant\<close>

definition ids_in_order :: "('r \<Rightarrow> int) \<Rightarrow> 'r list \<Rightarrow> bool" where
  "ids_in_order f rows = (map f rows = map (\<lambda>n. int n + 1) [0..<length rows])"

definition release_shape :: "release_row \<Rightarrow> bool" where
  "release_shape w = (0 \<le> rl_max w \<and> 0 \<le> rl_starter_size w \<and> (rl_data w = None \<longleftrightarrow> rl_dataset_digest w = []) \<and>
     window_ok (rl_policy w) (rl_opens w) (rl_due w))"

definition releases_ok :: "release_row list \<Rightarrow> bool" where
  "releases_ok ws = (distinct (map rl_id ws) \<and> distinct (map release_version ws) \<and> (\<forall>w\<in>set ws. release_shape w))"

definition checks_ok :: "release_row list \<Rightarrow> check_row list \<Rightarrow> bool" where
  "checks_ok ws ks = (ids_in_order ck_id ks \<and>
     (\<forall>k\<in>set ks. taken rl_id (ck_release k) ws \<and> (ck_completed k = None \<longleftrightarrow> ck_status k = CheckPending)))"

definition deadlines_ok :: "release_row list \<Rightarrow> deadline_row list \<Rightarrow> bool" where
  "deadlines_ok ws ds = (ids_in_order dc_id ds \<and> (\<forall>d\<in>set ds. taken rl_id (dc_release d) ws \<and> dc_old d < dc_new d))"

text \<open>A student of the course with a session in it.\<close>

definition student_in :: "auth_db \<Rightarrow> int \<Rightarrow> string \<Rightarrow> string \<Rightarrow> bool" where
  "student_in a sid session course = ((sid, course) \<in> enrollment_key ` set (enrollments a) \<and>
     (\<exists>s\<in>set (sessions a). se_id s = session \<and> se_student s = sid \<and> se_course s = course))"

definition download_ok :: "release_row list \<Rightarrow> auth_db \<Rightarrow> download_row \<Rightarrow> bool" where
  "download_ok ws a d = (student_in a (dl_student d) (dl_session d) (dl_course d) \<and>
     (\<exists>w\<in>set ws. rl_id w = dl_release d \<and> rl_course w = dl_course d \<and> rl_starter_digest w = dl_digest d))"

definition downloads_ok :: "release_row list \<Rightarrow> auth_db \<Rightarrow> download_row list \<Rightarrow> bool" where
  "downloads_ok ws a ds = (distinct (map dl_id ds) \<and> (\<forall>d\<in>set ds. download_ok ws a d))"

definition upload_ok :: "release_row list \<Rightarrow> auth_db \<Rightarrow> upload_row \<Rightarrow> bool" where
  "upload_ok ws a r = ((\<exists>w\<in>set ws. rl_id w = bq_release r \<and> student_in a (bq_student r) (bq_session r) (rl_course w)) \<and>
     (bq_code r \<noteq> None \<longleftrightarrow> bundle_failed (bq_state r)) \<and> (bq_message r \<noteq> None \<longleftrightarrow> bundle_failed (bq_state r)) \<and>
     bq_state r \<notin> {BunReceived, BunRejected})"

definition upload_key_of :: "upload_row \<Rightarrow> key_row \<Rightarrow> bool" where
  "upload_key_of r k = (key_of k = upload_key r \<and> ik_hash k = bq_hash r \<and> ik_request k = bq_id r)"

definition uploads_ok :: "release_row list \<Rightarrow> auth_db \<Rightarrow> upload_row list \<Rightarrow> bool" where
  "uploads_ok ws a rs = (distinct (map upload_key rs) \<and> (\<forall>r\<in>set rs. upload_ok ws a r))"

definition upload_keys_ok :: "upload_row list \<Rightarrow> key_row list \<Rightarrow> bool" where
  "upload_keys_ok rs ks = (distinct (map key_of ks) \<and> (\<forall>r\<in>set rs. \<exists>k\<in>set ks. upload_key_of r k) \<and>
     (\<forall>k\<in>set ks. \<exists>r\<in>set rs. upload_key_of r k))"

definition admissions_ok :: "admission_row list \<Rightarrow> bool" where
  "admissions_ok cs = (distinct (map admission_key cs) \<and> (\<forall>c\<in>set cs. 0 < bn_attempts c))"

definition receipt_inputs :: "upload_receipt \<Rightarrow> release_row \<Rightarrow> bool" where
  "receipt_inputs c w = (rl_id w = bc_release c \<and> bc_course c = rl_course w \<and> bc_key c = rl_key w \<and>
     bc_version c = rl_release w \<and> bc_starter c = rl_starter w \<and> bc_starter_digest c = rl_starter_digest w \<and>
     bc_starter_size c = rl_starter_size w \<and> bc_assessment c = rl_assessment w \<and>
     bc_assessment_digest c = rl_assessment_digest w \<and> bc_data c = rl_data w \<and> bc_dataset_digest c = rl_dataset_digest w \<and>
     bc_image c = rl_image w \<and> bc_rubric c = rl_rubric w \<and> bc_max c = rl_max w \<and> bc_policy c = rl_policy w \<and>
     bc_opens c = rl_opens w \<and> later_due (bc_due c) (rl_due w))"

definition receipts_ok :: "release_row list \<Rightarrow> upload_receipt list \<Rightarrow> bool" where
  "receipts_ok ws cs = (distinct (map bc_id cs) \<and> (\<forall>c\<in>set cs. \<exists>w\<in>set ws. receipt_inputs c w))"

text \<open>A result that was to wait for the deadline did.\<close>

definition waited :: "release_row list \<Rightarrow> upload_row list \<Rightarrow> upload_result \<Rightarrow> bool" where
  "waited ws rs x = (\<forall>w\<in>set ws. \<forall>r\<in>set rs. \<forall>t. bs_request x = bq_id r \<and> rl_id w = bq_release r \<and>
     rl_policy w = PolicyAfterDeadline \<and> bs_published x = Some t \<longrightarrow> (\<exists>d. rl_due w = Some d \<and> d \<le> t))"

definition results_ok :: "release_row list \<Rightarrow> upload_row list \<Rightarrow> upload_result list \<Rightarrow> bool" where
  "results_ok ws rs xs = (distinct (map bs_id xs) \<and> (\<forall>x\<in>set xs. waited ws rs x))"

definition release_revisions :: "string \<Rightarrow> revision_row list \<Rightarrow> revision_row list" where
  "release_revisions i ds = filter (\<lambda>d. dr_release d = i) ds"

definition revisions_ok :: "(string \<Rightarrow> string) \<Rightarrow> release_row list \<Rightarrow> revision_row list \<Rightarrow> bool" where
  "revisions_ok sha ws ds = ((\<forall>d\<in>set ds. taken rl_id (dr_release d) ws \<and> dr_sha d = sha (dr_content d)) \<and>
     (\<forall>i. map dr_revision (release_revisions i ds) = map int [0..<length (release_revisions i ds)]))"

definition uses_ok :: "upload_row list \<Rightarrow> revision_row list \<Rightarrow> use_row list \<Rightarrow> bool" where
  "uses_ok rs ds us = (distinct (map sd_request us) \<and>
     (\<forall>u\<in>set us. (\<exists>r\<in>set rs. bq_id r = sd_request u \<and> bq_release r = sd_release u) \<and>
       (\<exists>d\<in>set ds. dr_release d = sd_release u \<and> dr_revision d = sd_revision u \<and> dr_sha d = sd_sha u)))"

definition bundle_ok :: "(string \<Rightarrow> string) \<Rightarrow> bundle_db \<Rightarrow> bool" where
  "bundle_ok sha db = (platform_ok (base db) \<and> releases_ok (releases db) \<and> checks_ok (releases db) (checks db) \<and>
     deadlines_ok (releases db) (deadlines db) \<and> downloads_ok (releases db) (auth (base db)) (downloads db) \<and>
     uploads_ok (releases db) (auth (base db)) (uploads db) \<and> upload_keys_ok (uploads db) (upload_keys db) \<and>
     admissions_ok (admissions db) \<and> receipts_ok (releases db) (upload_receipts db) \<and>
     bundle_line.line (uploads db) (upload_receipts db) (upload_results db) \<and>
     results_ok (releases db) (uploads db) (upload_results db) \<and> revisions_ok sha (releases db) (revisions db) \<and>
     uses_ok (uploads db) (revisions db) (uses db))"

section \<open>What is kept of earlier rows\<close>

text \<open>The deadline moves exactly as the audit rows say.\<close>

fun moves_along :: "string option \<Rightarrow> deadline_row list \<Rightarrow> string option \<Rightarrow> bool" where
  "moves_along a [] b \<longleftrightarrow> a = b"
| "moves_along a (d # ds) b \<longleftrightarrow> a = Some (dc_old d) \<and> dc_old d < dc_new d \<and> moves_along (Some (dc_new d)) ds b"

lemma moves_along_append:
  "moves_along a ds b \<Longrightarrow> moves_along b es c \<Longrightarrow> moves_along a (ds @ es) c"
  by (induction a ds b rule: moves_along.induct) auto

definition releases_kept :: "bundle_db \<Rightarrow> bundle_db \<Rightarrow> bool" where
  "releases_kept db db' = (\<exists>new. deadlines db' = deadlines db @ new \<and>
     (\<forall>w\<in>set (releases db). \<exists>w'\<in>set (releases db'). release_later w w' \<and>
        moves_along (rl_due w) (filter (\<lambda>d. dc_release d = rl_id w) new) (rl_due w')))"

definition bundle_kept :: "bundle_db \<Rightarrow> bundle_db \<Rightarrow> bool" where
  "bundle_kept db db' = (platform_kept (base db) (base db') \<and> releases_kept db db' \<and>
     rows_later check_later (checks db) (checks db') \<and> prefix (downloads db) (downloads db') \<and>
     rows_later upload_later (uploads db) (uploads db') \<and> prefix (upload_keys db) (upload_keys db') \<and>
     rows_later admission_later (admissions db) (admissions db') \<and> prefix (upload_receipts db) (upload_receipts db') \<and>
     rows_later upload_result_later (upload_results db) (upload_results db') \<and> prefix (revisions db) (revisions db') \<and>
     prefix (uses db) (uses db'))"

definition bundle_sound :: "(string \<Rightarrow> string) \<Rightarrow> bundle_db \<Rightarrow> bundle_db \<Rightarrow> bool" where
  "bundle_sound sha db db' = (bundle_ok sha db' \<and> bundle_kept db db')"

lemmas bundle_same [simp] = release_history.later_same check_history.later_same upload_history.later_same
  upload_result_history.later_same admission_history.later_same

lemma releases_kept_same: "releases db' = releases db \<Longrightarrow> deadlines db' = deadlines db \<Longrightarrow> releases_kept db db'"
  unfolding releases_kept_def using release_history.same by (intro exI [of _ "[]"]) auto

lemma releases_kept_trans:
  assumes "releases_kept a b" and "releases_kept b c"
  shows "releases_kept a c"
proof -
  obtain m where m: "deadlines b = deadlines a @ m" "\<And>w. w \<in> set (releases a) \<Longrightarrow> \<exists>w'\<in>set (releases b). release_later w w' \<and>
      moves_along (rl_due w) (filter (\<lambda>d. dc_release d = rl_id w) m) (rl_due w')"
    using assms(1) unfolding releases_kept_def by blast
  obtain n where n: "deadlines c = deadlines b @ n" "\<And>w. w \<in> set (releases b) \<Longrightarrow> \<exists>w'\<in>set (releases c). release_later w w' \<and>
      moves_along (rl_due w) (filter (\<lambda>d. dc_release d = rl_id w) n) (rl_due w')"
    using assms(2) unfolding releases_kept_def by blast
  have "\<exists>w'\<in>set (releases c). release_later w w' \<and>
      moves_along (rl_due w) (filter (\<lambda>d. dc_release d = rl_id w) (m @ n)) (rl_due w')" if w: "w \<in> set (releases a)" for w
  proof -
    obtain x where x: "x \<in> set (releases b)" "release_later w x"
        "moves_along (rl_due w) (filter (\<lambda>d. dc_release d = rl_id w) m) (rl_due x)" using m(2) [OF w] by blast
    obtain y where y: "y \<in> set (releases c)" "release_later x y"
        "moves_along (rl_due x) (filter (\<lambda>d. dc_release d = rl_id x) n) (rl_due y)" using n(2) [OF x(1)] by blast
    have "rl_id x = rl_id w" using release_later_fields(1) [OF x(2)] .
    then have "moves_along (rl_due w) (filter (\<lambda>d. dc_release d = rl_id w) (m @ n)) (rl_due y)"
      using moves_along_append [OF x(3)] y(3) by simp
    then show ?thesis using y(1) release_history.further [OF x(2) y(2)] by blast
  qed
  then show ?thesis using m(1) n(1) unfolding releases_kept_def by (intro exI [of _ "m @ n"]) simp
qed

lemma releases_kept_rows: "releases_kept db db' \<Longrightarrow> rows_later release_later (releases db) (releases db')"
  unfolding releases_kept_def rows_later_def by blast

lemma bundle_kept_refl [simp]: "bundle_kept db db"
  by (simp add: bundle_kept_def releases_kept_same)

lemma bundle_kept_trans: "bundle_kept a b \<Longrightarrow> bundle_kept b c \<Longrightarrow> bundle_kept a c"
  unfolding bundle_kept_def
  by (meson platform_kept_trans releases_kept_trans prefix_order.trans check_history.later_trans upload_history.later_trans
      upload_result_history.later_trans admission_history.later_trans)

lemma bundle_sound_refl: "bundle_ok sha db \<Longrightarrow> bundle_sound sha db db"
  by (simp add: bundle_sound_def)

lemma bundle_sound_trans: "bundle_sound sha a b \<Longrightarrow> bundle_sound sha b c \<Longrightarrow> bundle_sound sha a c"
  unfolding bundle_sound_def using bundle_kept_trans by blast

end
