(* ===== verification/Bundle_Changes.thy ===== *)
theory Bundle_Changes
  imports Bundle_Ledger
begin

text \<open>
  The ways the bundle tables change, without the arguments, clocks and checks of the operations: a step
  relation whose rules name the rows written and the facts they rest on. Every change keeps the
  invariant of \<open>Bundle_Ledger\<close> and what it says of earlier rows.
\<close>

inductive bundle_change :: "(string \<Rightarrow> string) \<Rightarrow> bundle_env \<Rightarrow> bundle_db \<Rightarrow> bundle_db \<Rightarrow> bool" for sha env where
  b_base: "platform_step (base_env env db) (base db) b \<Longrightarrow> bundle_change sha env db (db\<lparr>base := b\<rparr>)"
| b_release: "release_shape w \<Longrightarrow> insert_release env w db = Inr db' \<Longrightarrow> bundle_change sha env db db'"
| b_check: "taken rl_id i (releases db) \<Longrightarrow>
    bundle_change sha env db (db\<lparr>checks := checks db @ [\<lparr>ck_id = next_id (checks db), ck_release = i,
      ck_status = CheckPending, ck_details = details, ck_created = now, ck_completed = None\<rparr>]\<rparr>)"
| b_checked: "bundle_change sha env db (db\<lparr>checks := update_where (\<lambda>k. ck_id k = n \<and> ck_status k = CheckPending)
    (close_check passed details now) (checks db)\<rparr>)"
| b_switches: "bundle_change sha env db (set_release i (switch_release active ready now) db)"
| b_deadline: "course_release i course db = Some w \<Longrightarrow> rl_due w = Some old \<Longrightarrow> old < due \<Longrightarrow>
    \<not> (rl_policy w = PolicyAfterDeadline \<and> (\<exists>r\<in>set (uploads db). bq_release r = i \<and> bq_state r = BunPublished)) \<Longrightarrow>
    bundle_change sha env db (set_release i (move_deadline due now) (db\<lparr>deadlines := deadlines db @
      [\<lparr>dc_id = next_id (deadlines db), dc_release = i, dc_old = old, dc_new = due, dc_actor = actor, dc_reason = reason,
        dc_created = now\<rparr>]\<rparr>))"
| b_download: "download_ok (releases db) (auth (base db)) d \<Longrightarrow> \<not> taken dl_id (dl_id d) (downloads db) \<Longrightarrow>
    bundle_change sha env db (db\<lparr>downloads := downloads db @ [d]\<rparr>)"
| b_revision: "taken rl_id (dr_release d) (releases db) \<Longrightarrow> dr_sha d = sha (dr_content d) \<Longrightarrow>
    dr_revision d = int (length (release_revisions (dr_release d) (revisions db))) \<Longrightarrow>
    bundle_change sha env db (db\<lparr>revisions := revisions db @ [d]\<rparr>)"
| b_count: "bundle_change sha env db (count_admission sid course day now db)"
| b_upload: "w \<in> set (releases db) \<Longrightarrow> rl_id w = bq_release r \<Longrightarrow>
    student_in (auth (base db)) (bq_student r) (bq_session r) (rl_course w) \<Longrightarrow> bq_state r = BunAccepted \<Longrightarrow>
    bq_code r = None \<Longrightarrow> bq_message r = None \<Longrightarrow> upload_key_of r k \<Longrightarrow> upload_pins c r \<Longrightarrow> receipt_inputs c w \<Longrightarrow>
    \<not> taken bq_id (bq_id r) (uploads db) \<Longrightarrow> \<not> taken upload_key (upload_key r) (uploads db) \<Longrightarrow>
    \<not> taken key_of (key_of k) (upload_keys db) \<Longrightarrow> \<not> taken bc_id (bc_id c) (upload_receipts db) \<Longrightarrow>
    bundle_change sha env db (db\<lparr>uploads := uploads db @ [r], upload_keys := upload_keys db @ [k],
      upload_receipts := upload_receipts db @ [c]\<rparr>)"
| b_use: "r \<in> set (uploads db) \<Longrightarrow> d \<in> set (revisions db) \<Longrightarrow> bq_release r = dr_release d \<Longrightarrow>
    \<not> taken sd_request (bq_id r) (uses db) \<Longrightarrow>
    bundle_change sha env db (db\<lparr>uses := uses db @ [\<lparr>sd_request = bq_id r, sd_release = dr_release d,
      sd_revision = dr_revision d, sd_sha = dr_sha d, sd_at = now\<rparr>]\<rparr>)"
| b_move: "r \<in> set (uploads db) \<Longrightarrow> st \<in> set (allowed_bundle (bq_state r)) \<Longrightarrow>
    (code \<noteq> None \<longleftrightarrow> bundle_failed st) \<Longrightarrow> (message \<noteq> None \<longleftrightarrow> bundle_failed st) \<Longrightarrow>
    bundle_change sha env db (set_upload (bq_id r) (move_upload st now code message) db)"
| b_grade: "r \<in> set (uploads db) \<Longrightarrow> bq_state r = BunRunning \<Longrightarrow> c \<in> set (upload_receipts db) \<Longrightarrow>
    result_rests x r c \<Longrightarrow> bs_published x = None \<Longrightarrow> insert_upload_result x db = Inr db1 \<Longrightarrow>
    bundle_change sha env db (set_upload (bq_id r) (advance_upload BunGraded now) db1)"
| b_publish: "r \<in> set (uploads db) \<Longrightarrow> bq_state r = BunGraded \<Longrightarrow> w \<in> set (releases db) \<Longrightarrow> rl_id w = bq_release r \<Longrightarrow>
    may_publish now w = Inr u \<Longrightarrow>
    bundle_change sha env db (set_upload (bq_id r) (advance_upload BunPublished now)
      (db\<lparr>upload_results := update_where (\<lambda>s. bs_request s = bq_id r) (publish_upload_row now) (upload_results db)\<rparr>))"

section \<open>Stability\<close>

lemma release_ex:
  assumes "rows_later release_later ws ws'" and "\<exists>w\<in>set ws. Q w" and "\<And>w w'. release_later w w' \<Longrightarrow> Q w \<Longrightarrow> Q w'"
  shows "\<exists>w\<in>set ws'. Q w"
  using assms unfolding rows_later_def by blast

lemma taken_later: "rows_later release_later ws ws' \<Longrightarrow> taken rl_id i ws \<Longrightarrow> taken rl_id i ws'"
proof -
  assume l: "rows_later release_later ws ws'" and "taken rl_id i ws"
  then have "\<exists>w\<in>set ws. rl_id w = i" by blast
  then have "\<exists>w\<in>set ws'. rl_id w = i" by (rule release_ex [OF l]) (simp add: release_later_fields)
  then show "taken rl_id i ws'" by blast
qed

lemma student_in_later:
  assumes s: "student_in a sid session course" and k: "rows_kept K a a'" and i: "K session"
  shows "student_in a' sid session course"
proof -
  obtain x where x: "x \<in> set (sessions a)" "se_id x = session" "se_student x = sid" "se_course x = course"
    using s by (auto simp: student_in_def)
  then obtain y where y: "y \<in> set (sessions a')" "session_same x y"
    using k i unfolding rows_kept_def sessions_survive_def by blast
  have "(sid, course) \<in> enrollment_key ` set (enrollments a')" using s k by (auto simp: student_in_def rows_kept_def)
  then show ?thesis using x y unfolding student_in_def session_same_def by blast
qed

lemma download_ok_releases:
  assumes "download_ok ws a d" and "rows_later release_later ws ws'"
  shows "download_ok ws' a d"
  using assms(1) release_ex [OF assms(2)] by (simp add: download_ok_def release_later_fields)

lemma upload_ok_releases:
  assumes "upload_ok ws a r" and "rows_later release_later ws ws'"
  shows "upload_ok ws' a r"
  using assms(1) release_ex [OF assms(2)] by (simp add: upload_ok_def release_later_fields)

lemma receipt_inputs_later: "receipt_inputs c w \<Longrightarrow> release_later w w' \<Longrightarrow> receipt_inputs c w'"
  using release_later_fields [of w w'] later_due_trans by (simp add: receipt_inputs_def) blast

lemma receipts_ok_releases:
  assumes "receipts_ok ws cs" and "rows_later release_later ws ws'"
  shows "receipts_ok ws' cs"
  using assms(1) release_ex [OF assms(2)] receipt_inputs_later by (simp add: receipts_ok_def)

lemma upload_ok_same: "upload_ok ws a r \<Longrightarrow> upload_same r r' \<Longrightarrow>
    (bq_code r' \<noteq> None \<longleftrightarrow> bundle_failed (bq_state r')) \<Longrightarrow> (bq_message r' \<noteq> None \<longleftrightarrow> bundle_failed (bq_state r')) \<Longrightarrow>
    bq_state r' \<notin> {BunReceived, BunRejected} \<Longrightarrow> upload_ok ws a r'"
  using upload_same_fields [of r r'] by (simp add: upload_ok_def)

section \<open>Logins and repository submissions\<close>

lemma change_rows_kept:
  assumes "platform_change env db db'" and K: "\<And>i. K i \<Longrightarrow> session_kept (logins env) i"
  shows "rows_kept K (auth db) (auth db')"
  using assms(1)
proof (induction rule: platform_change.induct)
  case (change_login db new a)
  then show ?case using step_rows_kept [of "login_env env db" new "auth db" a K] K by (simp add: login_env_def)
qed (auto simp: insert_work_def set_work_def count_attempt_def add_key_def insert_request_def insert_receipt_def
    set_request_def insert_result_def)

lemma changes_rows_kept:
  "platform_changes env db db' \<Longrightarrow> (\<And>i. K i \<Longrightarrow> session_kept (logins env) i) \<Longrightarrow> rows_kept K (auth db) (auth db')"
  by (induction rule: platform_changes.induct) (simp, metis change_rows_kept login_rows_trans)

lemma base_sound:
  assumes ok: "bundle_ok sha db" and s: "platform_step (base_env env db) (base db) b"
  shows "bundle_sound sha db (db\<lparr>base := b\<rparr>)"
proof -
  let ?K = "session_used db" let ?a = "auth (base db)"
  have p: "platform_ok (base db)" using ok by (simp add: bundle_ok_def)
  have b: "platform_sound (base db) b" using step_sound [OF s p] .
  have k: "rows_kept ?K ?a (auth b)"
    by (rule changes_rows_kept [OF step_changes [OF s p]]) (simp add: base_env_def)
  have d: "download_ok (releases db) (auth b) x" if "x \<in> set (downloads db)" for x
  proof -
    have "?K (dl_session x)" using that by (simp add: session_used_def)
    then show ?thesis using ok that student_in_later [OF _ k] by (simp add: bundle_ok_def downloads_ok_def download_ok_def)
  qed
  have u: "upload_ok (releases db) (auth b) x" if x: "x \<in> set (uploads db)" for x
  proof -
    have "?K (bq_session x)" using x by (simp add: session_used_def)
    moreover have "upload_ok (releases db) ?a x" using ok x by (simp add: bundle_ok_def uploads_ok_def)
    ultimately show ?thesis using student_in_later [OF _ k] unfolding upload_ok_def by blast
  qed
  show ?thesis
    using ok b d u by (simp add: bundle_sound_def bundle_ok_def bundle_kept_def releases_kept_same platform_sound_def
        downloads_ok_def uploads_ok_def)
qed

section \<open>Releases\<close>

lemma upload_release:
  assumes "bundle_ok sha db" and "r \<in> set (uploads db)"
  obtains w where "w \<in> set (releases db)" "rl_id w = bq_release r"
    "student_in (auth (base db)) (bq_student r) (bq_session r) (rl_course w)"
proof -
  have "upload_ok (releases db) (auth (base db)) r" using assms by (simp add: bundle_ok_def uploads_ok_def)
  then show thesis using that by (auto simp: upload_ok_def)
qed

lemma releases_sound:
  assumes ok: "bundle_ok sha db" and kept: "releases_kept db (db\<lparr>releases := ws, deadlines := ds\<rparr>)"
    and w: "releases_ok ws" and d: "deadlines_ok ws ds" and x: "results_ok ws (uploads db) (upload_results db)"
  shows "bundle_sound sha db (db\<lparr>releases := ws, deadlines := ds\<rparr>)"
proof -
  have l: "rows_later release_later (releases db) ws" using releases_kept_rows [OF kept] by simp
  have "checks_ok ws (checks db)" using ok taken_later [OF l] by (simp add: bundle_ok_def checks_ok_def)
  moreover have "downloads_ok ws (auth (base db)) (downloads db)"
    using ok download_ok_releases [OF _ l] by (simp add: bundle_ok_def downloads_ok_def)
  moreover have "uploads_ok ws (auth (base db)) (uploads db)"
    using ok upload_ok_releases [OF _ l] by (simp add: bundle_ok_def uploads_ok_def)
  moreover have "receipts_ok ws (upload_receipts db)" using ok receipts_ok_releases [OF _ l] by (simp add: bundle_ok_def)
  moreover have "revisions_ok sha ws (revisions db)" using ok taken_later [OF l] by (simp add: bundle_ok_def revisions_ok_def)
  ultimately show ?thesis using ok kept w d x by (simp add: bundle_sound_def bundle_ok_def bundle_kept_def)
qed

lemma deadlines_ok_later: "deadlines_ok ws ds \<Longrightarrow> rows_later release_later ws ws' \<Longrightarrow> deadlines_ok ws' ds"
  using taken_later by (simp add: deadlines_ok_def)

lemma insert_release_sound:
  assumes ok: "bundle_ok sha db" and w: "release_shape w" and i: "insert_release env w db = Inr db'"
  shows "bundle_sound sha db db'"
proof -
  let ?ws = "releases db @ [w]"
  have db'': "db' = db\<lparr>releases := ?ws\<rparr>" and fresh: "\<not> taken rl_id (rl_id w) (releases db)"
      "\<not> taken release_version (release_version w) (releases db)"
    using i by (simp_all add: insert_release_def)
  then have db': "db' = db\<lparr>releases := ?ws, deadlines := deadlines db\<rparr>" by simp
  have kept: "releases_kept db (db\<lparr>releases := ?ws, deadlines := deadlines db\<rparr>)"
    unfolding releases_kept_def by (rule exI [of _ "[]"]) (use release_history.same in auto)
  have new: "bq_release r \<noteq> rl_id w" if r: "r \<in> set (uploads db)" for r
    by (rule upload_release [OF ok r]) (use fresh(1) in \<open>metis imageI\<close>)
  have old: "results_ok (releases db) (uploads db) (upload_results db)" using ok by (simp add: bundle_ok_def)
  have "waited ?ws (uploads db) x" if "x \<in> set (upload_results db)" for x
  proof -
    have "waited (releases db) (uploads db) x" using old that by (simp add: results_ok_def)
    moreover have "waited [w] (uploads db) x" using new by (simp add: waited_def) metis
    ultimately show ?thesis by (simp add: waited_def)
  qed
  then have "results_ok ?ws (uploads db) (upload_results db)" using old by (simp add: results_ok_def)
  moreover have "releases_ok ?ws" using ok fresh w by (auto simp: bundle_ok_def releases_ok_def)
  moreover have "deadlines_ok ?ws (deadlines db)"
    using ok deadlines_ok_later [OF _ release_history.later_append] by (simp add: bundle_ok_def)
  ultimately show ?thesis unfolding db' by (intro releases_sound [OF ok kept])
qed

lemma update_release_ok:
  assumes ok: "releases_ok ws" and f: "\<And>w. w \<in> set ws \<Longrightarrow> P w \<Longrightarrow> release_later w (f w) \<and> release_shape (f w)"
  shows "releases_ok (update_where P f ws)" "rows_later release_later ws (update_where P f ws)"
proof -
  have k: "map rl_id (update_where P f ws) = map rl_id ws" "map release_version (update_where P f ws) = map release_version ws"
    using f release_later_fields by (auto simp: update_where_def)
  show "releases_ok (update_where P f ws)" using ok f by (auto simp: releases_ok_def k set_update_where)
  show "rows_later release_later ws (update_where P f ws)" by (rule release_history.later_update) (use f in blast)
qed

lemma switch_release_later [simp]: "release_later w (switch_release active ready now w)"
  by (simp add: release_later_def release_same_def switch_release_def)

lemma switch_release_fields [simp]:
  "rl_id (switch_release a b t w) = rl_id w" "rl_due (switch_release a b t w) = rl_due w"
  "rl_policy (switch_release a b t w) = rl_policy w" "release_shape (switch_release a b t w) = release_shape w"
  by (simp_all add: switch_release_def release_shape_def)

lemma switches_sound:
  assumes ok: "bundle_ok sha db"
  shows "bundle_sound sha db (set_release i (switch_release active ready now) db)"
proof -
  let ?f = "switch_release active ready now" let ?ws = "update_where (\<lambda>w. rl_id w = i) ?f (releases db)"
  have r: "releases_ok (releases db)" using ok by (simp add: bundle_ok_def)
  note u = update_release_ok [OF r, of "\<lambda>w. rl_id w = i" ?f]
  have sh: "release_shape w" if "w \<in> set (releases db)" for w using r that by (simp add: releases_ok_def)
  have ws: "releases_ok ?ws" "rows_later release_later (releases db) ?ws" using u sh by simp_all
  have m: "\<exists>w'\<in>set ?ws. release_later w w' \<and> rl_due w' = rl_due w" if "w \<in> set (releases db)" for w
    using that release_history.same unfolding set_update_where
    by (intro bexI [of _ "if rl_id w = i then ?f w else w"]) auto
  have kept: "releases_kept db (db\<lparr>releases := ?ws, deadlines := deadlines db\<rparr>)"
    unfolding releases_kept_def by (rule exI [of _ "[]"]) (use m in force)
  have "results_ok ?ws (uploads db) (upload_results db)"
    using ok unfolding bundle_ok_def results_ok_def waited_def set_update_where by auto
  moreover have "deadlines_ok ?ws (deadlines db)" using ok deadlines_ok_later [OF _ ws(2)] by (simp add: bundle_ok_def)
  ultimately show ?thesis
    unfolding set_release_def using releases_sound [OF ok kept ws(1)] by simp
qed

text \<open>The deadline of a release moves while no result of it waits for the deadline.\<close>

lemma ids_append: "ids_in_order f xs \<Longrightarrow> f x = next_id xs \<Longrightarrow> ids_in_order f (xs @ [x])"
  by (simp add: ids_in_order_def next_id_def)

lemma move_deadline_fields [simp]:
  "rl_id (move_deadline due now w) = rl_id w" "rl_due (move_deadline due now w) = Some due"
  "rl_policy (move_deadline due now w) = rl_policy w"
  by (simp_all add: move_deadline_def)

lemma deadline_sound:
  assumes ok: "bundle_ok sha db" and w: "course_release i course db = Some w" and due: "rl_due w = Some old" "old < due"
    and wait: "\<not> (rl_policy w = PolicyAfterDeadline \<and> (\<exists>r\<in>set (uploads db). bq_release r = i \<and> bq_state r = BunPublished))"
    and d: "dc_id d = next_id (deadlines db)" "dc_release d = i" "dc_old d = old" "dc_new d = due"
  shows "bundle_sound sha db (set_release i (move_deadline due now) (db\<lparr>deadlines := deadlines db @ [d]\<rparr>))"
proof -
  let ?f = "move_deadline due now" let ?ws = "update_where (\<lambda>w. rl_id w = i) ?f (releases db)"
  have r: "releases_ok (releases db)" using ok by (simp add: bundle_ok_def)
  have w': "w \<in> set (releases db)" "rl_id w = i" using find_SomeD [OF w [unfolded course_release_def]] by simp_all
  have own: "x = w" if "x \<in> set (releases db)" "rl_id x = i" for x
    using unique_key [of rl_id, OF _ that(1) w'(1)] r that(2) w'(2) by (simp add: releases_ok_def)
  have f: "release_later x (?f x) \<and> release_shape (?f x)" if x: "x \<in> set (releases db)" "rl_id x = i" for x
  proof -
    have "release_shape w" using r w'(1) by (simp add: releases_ok_def)
    then have "release_shape (?f w)" using due
      by (auto simp: release_shape_def move_deadline_def window_ok_def split: option.splits)
    moreover have "release_later w (?f w)" using due by (simp add: release_later_def release_same_def move_deadline_def later_due_def)
    ultimately show ?thesis using own [OF x] by simp
  qed
  note ws = update_release_ok [OF r, of "\<lambda>w. rl_id w = i" ?f, OF f]
  have m: "\<exists>x'\<in>set ?ws. release_later x x' \<and> moves_along (rl_due x) (filter (\<lambda>d. dc_release d = rl_id x) [d]) (rl_due x')"
    if x: "x \<in> set (releases db)" for x
  proof (cases "rl_id x = i")
    case True
    then have "?f x \<in> set ?ws" using x by (auto simp: set_update_where image_iff)
    moreover have "moves_along (rl_due x) (filter (\<lambda>d. dc_release d = rl_id x) [d]) (rl_due (?f x))"
      using True own [OF x True] due d by simp
    ultimately show ?thesis using f [OF x True] by blast
  next
    case False
    then have "x \<in> set ?ws" using x by (auto simp: set_update_where image_iff)
    then show ?thesis using False d release_history.same by (intro bexI [of _ x]) simp_all
  qed
  have kept: "releases_kept db (db\<lparr>releases := ?ws, deadlines := deadlines db @ [d]\<rparr>)"
    unfolding releases_kept_def by (rule exI [of _ "[d]"]) (use m in simp)
  have l: "bundle_line.line (uploads db) (upload_receipts db) (upload_results db)" using ok by (simp add: bundle_ok_def)
  have "waited ?ws (uploads db) x" if x: "x \<in> set (upload_results db)" for x
    unfolding waited_def
  proof (intro ballI allI impI)
    fix v q t assume v: "v \<in> set ?ws" and q: "q \<in> set (uploads db)"
      and h: "bs_request x = bq_id q \<and> rl_id v = bq_release q \<and> rl_policy v = PolicyAfterDeadline \<and> bs_published x = Some t"
    have "v \<in> (\<lambda>w. if rl_id w = i then ?f w else w) ` set (releases db)" using v by (simp add: set_update_where)
    then obtain y where y: "y \<in> set (releases db)" "v = (if rl_id y = i then ?f y else y)" by blast
    obtain p c where p: "p \<in> set (uploads db)" "result_rests x p c" "bs_published x \<noteq> None \<longleftrightarrow> bq_state p = BunPublished"
      by (rule bundle_line.result_rows [OF l x])
    have "p = q" using bundle_line.request_unique [OF l p(1) q] p(2) h by (simp add: result_rests_def)
    then have "bq_state q = BunPublished" using p(3) h by simp
    then have "rl_id y \<noteq> i" using wait own [OF y(1)] y(2) h q by auto
    then show "\<exists>e. rl_due v = Some e \<and> e \<le> t"
      using ok x y q h unfolding bundle_ok_def results_ok_def waited_def by simp
  qed
  then have x: "results_ok ?ws (uploads db) (upload_results db)" using ok by (simp add: bundle_ok_def results_ok_def)
  have "deadlines_ok ?ws (deadlines db)" using ok deadlines_ok_later [OF _ ws(2)] by (simp add: bundle_ok_def)
  moreover have "taken rl_id i (releases db)" using w' by blast
  then have "taken rl_id i ?ws" using taken_later [OF ws(2)] by simp
  ultimately have "deadlines_ok ?ws (deadlines db @ [d])" using d due ids_append [of dc_id] by (auto simp: deadlines_ok_def)
  moreover have "set_release i ?f (db\<lparr>deadlines := deadlines db @ [d]\<rparr>) = db\<lparr>releases := ?ws, deadlines := deadlines db @ [d]\<rparr>"
    by (cases db) (simp add: set_release_def)
  ultimately show ?thesis using releases_sound [OF ok kept ws(1) _ x] by simp
qed

section \<open>Checks, downloads, admissions\<close>

lemma check_added:
  assumes ok: "bundle_ok sha db" and i: "taken rl_id i (releases db)"
  shows "bundle_sound sha db (db\<lparr>checks := checks db @ [\<lparr>ck_id = next_id (checks db), ck_release = i,
      ck_status = CheckPending, ck_details = details, ck_created = now, ck_completed = None\<rparr>]\<rparr>)"
proof -
  let ?k = "\<lparr>ck_id = next_id (checks db), ck_release = i, ck_status = CheckPending, ck_details = details, ck_created = now,
    ck_completed = None\<rparr>"
  have "checks_ok (releases db) (checks db @ [?k])"
    using ok i ids_append [of ck_id "checks db" ?k] by (simp add: bundle_ok_def checks_ok_def)
  then show ?thesis
    using ok by (simp add: bundle_sound_def bundle_ok_def bundle_kept_def releases_kept_same check_history.later_append)
qed

lemma check_closed:
  assumes ok: "bundle_ok sha db"
  shows "bundle_sound sha db (db\<lparr>checks := update_where (\<lambda>k. ck_id k = n \<and> ck_status k = CheckPending)
    (close_check passed details now) (checks db)\<rparr>)"
proof -
  let ?ks = "update_where (\<lambda>k. ck_id k = n \<and> ck_status k = CheckPending) (close_check passed details now) (checks db)"
  have m: "map ck_id ?ks = map ck_id (checks db)" "length ?ks = length (checks db)"
    by (simp_all add: update_where_def close_check_def)
  have "checks_ok (releases db) ?ks"
    using ok by (auto simp: bundle_ok_def checks_ok_def ids_in_order_def m set_update_where close_check_def)
  moreover have "rows_later check_later (checks db) ?ks"
    by (rule check_history.later_update) (auto simp: check_later_def)
  ultimately show ?thesis using ok by (simp add: bundle_sound_def bundle_ok_def bundle_kept_def releases_kept_same)
qed

lemma download_sound:
  assumes ok: "bundle_ok sha db" and d: "download_ok (releases db) (auth (base db)) d" "\<not> taken dl_id (dl_id d) (downloads db)"
  shows "bundle_sound sha db (db\<lparr>downloads := downloads db @ [d]\<rparr>)"
  using ok d by (auto simp: bundle_sound_def bundle_ok_def bundle_kept_def releases_kept_same downloads_ok_def)

lemma count_admission_sound:
  assumes ok: "bundle_ok sha db"
  shows "bundle_sound sha db (count_admission sid course day now db)"
proof -
  let ?f = "\<lambda>c. c\<lparr>bn_attempts := bn_attempts c + 1, bn_updated := now\<rparr>"
  let ?u = "update_where (\<lambda>c. admission_key c = (sid, course, day)) ?f (admissions db)"
  have l: "rows_later admission_later (admissions db) ?u"
    by (rule admission_history.later_update) (simp add: admission_later_def admission_key_def)
  have m: "map admission_key ?u = map admission_key (admissions db)" by (simp add: update_where_def admission_key_def)
  have "admissions_ok ?u" using ok by (auto simp: bundle_ok_def admissions_ok_def m set_update_where)
  then show ?thesis
    using ok l unfolding count_admission_def
    by (auto simp: bundle_sound_def bundle_ok_def bundle_kept_def releases_kept_same admissions_ok_def admission_key_def
        intro: admission_history.later_append)
qed

section \<open>Instructions\<close>

lemma release_revisions_append: "release_revisions i (ds @ [d]) = release_revisions i ds @ (if dr_release d = i then [d] else [])"
  by (simp add: release_revisions_def)

lemma revision_sound:
  assumes ok: "bundle_ok sha db" and d: "taken rl_id (dr_release d) (releases db)" "dr_sha d = sha (dr_content d)"
    "dr_revision d = int (length (release_revisions (dr_release d) (revisions db)))"
  shows "bundle_sound sha db (db\<lparr>revisions := revisions db @ [d]\<rparr>)"
proof -
  have r: "revisions_ok sha (releases db) (revisions db)" using ok by (simp add: bundle_ok_def)
  then have "revisions_ok sha (releases db) (revisions db @ [d])"
    using d by (auto simp: revisions_ok_def release_revisions_append)
  moreover have "uses_ok (uploads db) (revisions db @ [d]) (uses db)"
    using ok unfolding bundle_ok_def uses_ok_def by auto
  ultimately show ?thesis using ok by (simp add: bundle_sound_def bundle_ok_def bundle_kept_def releases_kept_same)
qed

lemma use_sound:
  assumes ok: "bundle_ok sha db" and r: "r \<in> set (uploads db)" and d: "d \<in> set (revisions db)" "bq_release r = dr_release d"
    and fresh: "\<not> taken sd_request (bq_id r) (uses db)"
  shows "bundle_sound sha db (db\<lparr>uses := uses db @ [\<lparr>sd_request = bq_id r, sd_release = dr_release d,
      sd_revision = dr_revision d, sd_sha = dr_sha d, sd_at = now\<rparr>]\<rparr>)"
proof -
  let ?u = "\<lparr>sd_request = bq_id r, sd_release = dr_release d, sd_revision = dr_revision d, sd_sha = dr_sha d, sd_at = now\<rparr>"
  have "uses_ok (uploads db) (revisions db) (uses db @ [?u])"
    using ok r d fresh unfolding bundle_ok_def uses_ok_def by auto
  then show ?thesis using ok by (simp add: bundle_sound_def bundle_ok_def bundle_kept_def releases_kept_same)
qed

section \<open>Uploads\<close>

lemma bundle_uploads:
  assumes "bundle_ok sha db"
  shows "uploads_ok (releases db) (auth (base db)) (uploads db)" "upload_keys_ok (uploads db) (upload_keys db)"
    "bundle_line.line (uploads db) (upload_receipts db) (upload_results db)" "results_ok (releases db) (uploads db) (upload_results db)"
    "uses_ok (uploads db) (revisions db) (uses db)"
  using assms by (simp_all add: bundle_ok_def)

lemma upload_unique: "bundle_ok sha db \<Longrightarrow> r \<in> set (uploads db) \<Longrightarrow> s \<in> set (uploads db) \<Longrightarrow> bq_id r = bq_id s \<Longrightarrow> r = s"
  using bundle_line.request_unique [OF bundle_uploads(3)] by blast

lemma uploads_sound:
  assumes ok: "bundle_ok sha db"
    and db': "db' = db\<lparr>uploads := rs, upload_keys := ks, upload_receipts := cs, upload_results := xs\<rparr>"
    and new: "uploads_ok (releases db) (auth (base db)) rs" "upload_keys_ok rs ks" "receipts_ok (releases db) cs"
      "bundle_line.line rs cs xs" "results_ok (releases db) rs xs"
    and later: "rows_later upload_later (uploads db) rs" "prefix (upload_keys db) ks" "prefix (upload_receipts db) cs"
      "rows_later upload_result_later (upload_results db) xs"
  shows "bundle_sound sha db db'"
proof -
  have "uses_ok rs (revisions db) (uses db)"
    unfolding uses_ok_def
  proof (intro conjI ballI)
    have u: "uses_ok (uploads db) (revisions db) (uses db)" using bundle_uploads(5) [OF ok] .
    then show "distinct (map sd_request (uses db))" by (simp add: uses_ok_def)
    fix u assume u': "u \<in> set (uses db)"
    then obtain r where r: "r \<in> set (uploads db)" "bq_id r = sd_request u" "bq_release r = sd_release u"
      using u by (auto simp: uses_ok_def)
    then obtain r' where r': "r' \<in> set rs" "upload_same r r'" using later(1) by (auto simp: rows_later_def upload_later_def)
    then show "\<exists>r\<in>set rs. bq_id r = sd_request u \<and> bq_release r = sd_release u"
      using r upload_same_fields [OF r'(2)] by (intro bexI [of _ r']) simp_all
    show "\<exists>d\<in>set (revisions db). dr_release d = sd_release u \<and> dr_revision d = sd_revision u \<and> dr_sha d = sd_sha u"
      using u u' by (simp add: uses_ok_def)
  qed
  then show ?thesis
    using ok new later by (simp add: db' bundle_sound_def bundle_ok_def bundle_kept_def releases_kept_same)
qed

lemma upload_sound:
  assumes ok: "bundle_ok sha db" and w: "w \<in> set (releases db)" "rl_id w = bq_release r"
      "student_in (auth (base db)) (bq_student r) (bq_session r) (rl_course w)"
    and st: "bq_state r = BunAccepted" "bq_code r = None" "bq_message r = None"
    and k: "upload_key_of r k" and c: "upload_pins c r" "receipt_inputs c w"
    and fresh: "\<not> taken bq_id (bq_id r) (uploads db)" "\<not> taken upload_key (upload_key r) (uploads db)"
      "\<not> taken key_of (key_of k) (upload_keys db)" "\<not> taken bc_id (bc_id c) (upload_receipts db)"
  shows "bundle_sound sha db (db\<lparr>uploads := uploads db @ [r], upload_keys := upload_keys db @ [k],
      upload_receipts := upload_receipts db @ [c]\<rparr>)"
proof (rule uploads_sound [OF ok])
  note u = bundle_uploads [OF ok]
  show "db\<lparr>uploads := uploads db @ [r], upload_keys := upload_keys db @ [k], upload_receipts := upload_receipts db @ [c]\<rparr> =
    db\<lparr>uploads := uploads db @ [r], upload_keys := upload_keys db @ [k], upload_receipts := upload_receipts db @ [c],
      upload_results := upload_results db\<rparr>" by (cases db) simp
  have "upload_ok (releases db) (auth (base db)) r" using w st by (auto simp: upload_ok_def bundle_failed_def)
  then show "uploads_ok (releases db) (auth (base db)) (uploads db @ [r])" using u(1) fresh(2) by (auto simp: uploads_ok_def)
  show "upload_keys_ok (uploads db @ [r]) (upload_keys db @ [k])"
    using u(2) k fresh(3) unfolding upload_keys_ok_def by auto
  have "receipts_ok (releases db) (upload_receipts db)" using ok by (simp add: bundle_ok_def)
  then show "receipts_ok (releases db) (upload_receipts db @ [c])" using w(1) c(2) fresh(4) by (auto simp: receipts_ok_def)
  show "bundle_line.line (uploads db @ [r]) (upload_receipts db @ [c]) (upload_results db)"
    by (rule bundle_line.line_admit [OF u(3) fresh(1) c(1)]) (simp_all add: st bundle_scored_def)
  have "waited (releases db) (uploads db @ [r]) x" if x: "x \<in> set (upload_results db)" for x
  proof -
    obtain p d where "p \<in> set (uploads db)" "result_rests x p d" by (rule bundle_line.result_rows [OF u(3) x])
    then have "bs_request x \<noteq> bq_id r" using fresh(1) imageI unfolding result_rests_def by metis
    moreover have "waited (releases db) (uploads db) x" using u(4) x by (simp add: results_ok_def)
    ultimately show ?thesis unfolding waited_def by auto
  qed
  then show "results_ok (releases db) (uploads db @ [r]) (upload_results db)" using u(4) by (simp add: results_ok_def)
qed (simp_all add: upload_history.later_append)

lemma waited_uploads:
  assumes "waited ws rs x" and "\<And>r'. r' \<in> set rs' \<Longrightarrow> \<exists>r\<in>set rs. bq_id r = bq_id r' \<and> bq_release r = bq_release r'"
  shows "waited ws rs' x"
  unfolding waited_def
proof (intro ballI allI impI)
  fix w r' t assume w: "w \<in> set ws" and r': "r' \<in> set rs'"
    and h: "bs_request x = bq_id r' \<and> rl_id w = bq_release r' \<and> rl_policy w = PolicyAfterDeadline \<and> bs_published x = Some t"
  obtain r where "r \<in> set rs" "bq_id r = bq_id r'" "bq_release r = bq_release r'" using assms(2) [OF r'] by blast
  then show "\<exists>d. rl_due w = Some d \<and> d \<le> t" using assms(1) w h unfolding waited_def by metis
qed

lemma upload_moved_sound:
  assumes ok: "bundle_ok sha db" and r: "r \<in> set (uploads db)" and f: "upload_same r (f r)"
    and mv: "upload_moves (bq_state r) (bq_state (f r))"
    and details: "bq_code (f r) \<noteq> None \<longleftrightarrow> bundle_failed (bq_state (f r))" "bq_message (f r) \<noteq> None \<longleftrightarrow> bundle_failed (bq_state (f r))"
    and line: "bundle_line.line (update_where (\<lambda>s. bq_id s = bq_id r) f (uploads db)) (upload_receipts db) xs"
    and xs: "distinct (map bs_id xs)" "\<And>x. x \<in> set xs \<Longrightarrow> waited (releases db) (uploads db) x"
      "rows_later upload_result_later (upload_results db) xs"
  shows "bundle_sound sha db (set_upload (bq_id r) f (db\<lparr>upload_results := xs\<rparr>))"
proof (rule uploads_sound [OF ok])
  let ?rs = "update_where (\<lambda>s. bq_id s = bq_id r) f (uploads db)"
  note u = bundle_uploads [OF ok]
  show "set_upload (bq_id r) f (db\<lparr>upload_results := xs\<rparr>) = db\<lparr>uploads := ?rs, upload_keys := upload_keys db,
      upload_receipts := upload_receipts db, upload_results := xs\<rparr>" by (cases db) (simp add: set_upload_def)
  have own: "s = r" if "s \<in> set (uploads db)" "bq_id s = bq_id r" for s using upload_unique [OF ok that(1) r that(2)] .
  have "{s \<in> set (uploads db). bq_id s = bq_id r} = {r}" using own r by blast
  moreover have "set ?rs = f ` {s \<in> set (uploads db). bq_id s = bq_id r} \<union> {s \<in> set (uploads db). bq_id s \<noteq> bq_id r}"
    by (auto simp: set_update_where)
  ultimately have members: "set ?rs = insert (f r) {s \<in> set (uploads db). bq_id s \<noteq> bq_id r}" by simp
  have keys: "map upload_key ?rs = map upload_key (uploads db)"
    unfolding update_where_def using own upload_same_fields(11) [OF f] by (auto intro!: map_cong)
  have st: "bq_state (f r) \<notin> {BunReceived, BunRejected}"
  proof -
    have "bq_state r \<noteq> BunReceived" using u(1) r by (simp add: uploads_ok_def upload_ok_def)
    then show ?thesis using mv by (cases "bq_state r") (auto simp: upload_moves_def)
  qed
  have "upload_ok (releases db) (auth (base db)) (f r)"
    by (rule upload_ok_same [OF _ f details st]) (use u(1) r in \<open>simp add: uploads_ok_def\<close>)
  then show "uploads_ok (releases db) (auth (base db)) ?rs" using u(1) by (auto simp: uploads_ok_def keys members)
  have "upload_key_of (f r) k \<longleftrightarrow> upload_key_of r k" for k using upload_same_fields [OF f] by (simp add: upload_key_of_def)
  moreover have "upload_key_of s k \<Longrightarrow> s \<in> set (uploads db) \<Longrightarrow> s = r \<or> bq_id s \<noteq> bq_id r" for s k using own by blast
  ultimately show "upload_keys_ok ?rs (upload_keys db)" using u(2) r unfolding upload_keys_ok_def members by blast
  show "receipts_ok (releases db) (upload_receipts db)" using ok by (simp add: bundle_ok_def)
  show "bundle_line.line ?rs (upload_receipts db) xs" using line .
  have "waited (releases db) ?rs x" if "x \<in> set xs" for x
    by (rule waited_uploads [OF xs(2) [OF that]]) (use r upload_same_fields [OF f] in \<open>auto simp: members\<close>)
  then show "results_ok (releases db) ?rs xs" using xs(1) by (simp add: results_ok_def)
  show "rows_later upload_later (uploads db) ?rs"
    by (rule upload_history.later_update) (use own f mv in \<open>auto simp: upload_later_def\<close>)
qed (use xs(3) in simp_all)

lemma moved_upload [simp]:
  "upload_same r (move_upload st now c m r)" "upload_same r (advance_upload st now r)"
  "bq_state (move_upload st now c m r) = st" "bq_code (move_upload st now c m r) = c"
  "bq_message (move_upload st now c m r) = m" "bq_state (advance_upload st now r) = st"
  "bq_code (advance_upload st now r) = bq_code r" "bq_message (advance_upload st now r) = bq_message r"
  by (simp_all add: upload_same_def move_upload_def advance_upload_def)

lemma same_results: "set_upload i f db = set_upload i f (db\<lparr>upload_results := upload_results db\<rparr>)"
  by simp

lemma upload_waited: "bundle_ok sha db \<Longrightarrow> x \<in> set (upload_results db) \<Longrightarrow> waited (releases db) (uploads db) x"
  using bundle_uploads(4) by (simp add: results_ok_def)

lemma upload_details:
  assumes "bundle_ok sha db" and "r \<in> set (uploads db)"
  shows "bq_code r \<noteq> None \<longleftrightarrow> bundle_failed (bq_state r)" "bq_message r \<noteq> None \<longleftrightarrow> bundle_failed (bq_state r)"
  using bundle_uploads(1) [OF assms(1)] assms(2) by (simp_all add: uploads_ok_def upload_ok_def)

lemma upload_move_sound:
  assumes ok: "bundle_ok sha db" and r: "r \<in> set (uploads db)" and st: "st \<in> set (allowed_bundle (bq_state r))"
    and c: "code \<noteq> None \<longleftrightarrow> bundle_failed st" "message \<noteq> None \<longleftrightarrow> bundle_failed st"
  shows "bundle_sound sha db (set_upload (bq_id r) (move_upload st now code message) db)"
proof -
  have sc: "\<not> bundle_scored (bq_state r)" "\<not> bundle_scored st"
    using st by (cases "bq_state r"; auto simp: bundle_scored_def)+
  have l: "bundle_line.line (update_where (\<lambda>s. bq_id s = bq_id r) (move_upload st now code message) (uploads db))
      (upload_receipts db) (upload_results db)"
    by (rule bundle_line.line_move [OF bundle_uploads(3) [OF ok] r]) (simp_all add: sc)
  have "upload_moves (bq_state r) (bq_state (move_upload st now code message r))" using st by (simp add: upload_moves_def)
  note s = upload_moved_sound [where f = "move_upload st now code message", OF ok r moved_upload(1) this _ _ l]
  show ?thesis
    by (subst same_results, rule s)
      (use c upload_waited [OF ok] bundle_uploads(4) [OF ok] in \<open>simp_all add: results_ok_def\<close>)
qed

lemma upload_grade_sound:
  assumes ok: "bundle_ok sha db" and r: "r \<in> set (uploads db)" "bq_state r = BunRunning" and c: "c \<in> set (upload_receipts db)"
    and x: "result_rests x r c" "bs_published x = None" and i: "insert_upload_result x db = Inr db1"
  shows "bundle_sound sha db (set_upload (bq_id r) (advance_upload BunGraded now) db1)"
proof -
  let ?f = "advance_upload BunGraded now"
  have db1: "db1 = db\<lparr>upload_results := upload_results db @ [x]\<rparr>" and fresh: "\<not> taken bs_id (bs_id x) (upload_results db)"
    using i by (auto simp: insert_upload_result_def)
  have l: "bundle_line.line (update_where (\<lambda>s. bq_id s = bq_id r) ?f (uploads db)) (upload_receipts db) (upload_results db @ [x])"
    by (rule bundle_line.line_grade [OF bundle_uploads(3) [OF ok] r(1) _ c x(1)]) (simp_all add: r(2) x(2) bundle_scored_def)
  have m: "upload_moves (bq_state r) (bq_state (?f r))" using r(2) by (simp add: upload_moves_def)
  have "waited (releases db) (uploads db) x" using x(2) by (simp add: waited_def)
  then show ?thesis
    unfolding db1
    by (intro upload_moved_sound [where f = ?f, OF ok r(1) moved_upload(2) m _ _ l])
      (use fresh bundle_uploads(4) [OF ok] upload_details [OF ok r(1)] upload_waited [OF ok] r(2) in
        \<open>auto simp: results_ok_def bundle_failed_def upload_result_history.later_append\<close>)
qed

lemma may_publish_waits:
  "may_publish now w = Inr u \<Longrightarrow> rl_policy w = PolicyAfterDeadline \<Longrightarrow> \<exists>d. rl_due w = Some d \<and> d \<le> now"
  by (auto simp: may_publish_def split: option.split_asm)

lemma publish_upload_fields [simp]:
  "bs_request (publish_upload_row t x) = bs_request x" "bs_id (publish_upload_row t x) = bs_id x"
  "result_rests (publish_upload_row t x) r c = result_rests x r c"
  by (simp_all add: publish_upload_row_def result_rests_def)

lemma upload_publish_sound:
  assumes ok: "bundle_ok sha db" and r: "r \<in> set (uploads db)" "bq_state r = BunGraded" and w: "w \<in> set (releases db)"
    "rl_id w = bq_release r" "may_publish now w = Inr u"
  shows "bundle_sound sha db (set_upload (bq_id r) (advance_upload BunPublished now)
      (db\<lparr>upload_results := update_where (\<lambda>s. bs_request s = bq_id r) (publish_upload_row now) (upload_results db)\<rparr>))"
proof -
  let ?f = "advance_upload BunPublished now" and ?g = "publish_upload_row now"
  let ?xs = "update_where (\<lambda>s. bs_request s = bq_id r) ?g (upload_results db)"
  note l0 = bundle_uploads(3) [OF ok]
  have l: "bundle_line.line (update_where (\<lambda>s. bq_id s = bq_id r) ?f (uploads db)) (upload_receipts db) ?xs"
    by (rule bundle_line.line_publish [OF l0 r(1)]) (simp_all add: r(2) bundle_scored_def)
  have m: "upload_moves (bq_state r) (bq_state (?f r))" using r(2) by (simp add: upload_moves_def)
  have hidden: "bs_published y = None" if y: "y \<in> set (upload_results db)" "bs_request y = bq_id r" for y
  proof -
    obtain q c where q: "q \<in> set (uploads db)" "result_rests y q c" "bs_published y \<noteq> None \<longleftrightarrow> bq_state q = BunPublished"
      by (rule bundle_line.result_rows [OF l0 y(1)])
    then have "q = r" using upload_unique [OF ok _ r(1)] y(2) by (simp add: result_rests_def)
    then show ?thesis using q(3) r(2) by simp
  qed
  have ids: "map bs_id ?xs = map bs_id (upload_results db)" by (rule update_where_same) simp
  have rel: "distinct (map rl_id (releases db))" using ok by (simp add: bundle_ok_def releases_ok_def)
  have wait: "waited (releases db) (uploads db) x" if x: "x \<in> set ?xs" for x
  proof -
    have "x \<in> (\<lambda>s. if bs_request s = bq_id r then ?g s else s) ` set (upload_results db)" using x by (simp add: set_update_where)
    then obtain y where y: "y \<in> set (upload_results db)" "x = (if bs_request y = bq_id r then ?g y else y)" by blast
    show ?thesis
    proof (cases "bs_request y = bq_id r")
      case True
      have "\<exists>d. rl_due v = Some d \<and> d \<le> t"
        if v: "v \<in> set (releases db)" "q \<in> set (uploads db)" "bs_request x = bq_id q" "rl_id v = bq_release q"
          "rl_policy v = PolicyAfterDeadline" "bs_published x = Some t" for v q t
      proof -
        have "q = r" using upload_unique [OF ok v(2) r(1)] v(3) y(2) True by simp
        then have "v = w" using unique_key [OF rel v(1) w(1)] v(4) w(2) by simp
        then show ?thesis using may_publish_waits [OF w(3)] v(5,6) y(2) True by simp
      qed
      then show ?thesis unfolding waited_def by blast
    next
      case False
      then show ?thesis using y upload_waited [OF ok] by simp
    qed
  qed
  show ?thesis
  proof (rule upload_moved_sound [where f = ?f, OF ok r(1) moved_upload(2) m _ _ l])
    show "rows_later upload_result_later (upload_results db) ?xs"
      by (rule upload_result_history.later_update) (use hidden in \<open>auto simp: upload_result_later_def\<close>)
  qed (use ids bundle_uploads(4) [OF ok] upload_details [OF ok r(1)] r(2) wait in \<open>simp_all add: results_ok_def bundle_failed_def\<close>)
qed

section \<open>Every change\<close>

lemma bundle_change_sound: "bundle_change sha env db db' \<Longrightarrow> bundle_ok sha db \<Longrightarrow> bundle_sound sha db db'"
  by (induction rule: bundle_change.induct)
    (blast intro: base_sound insert_release_sound check_added check_closed switches_sound download_sound revision_sound
       count_admission_sound upload_sound use_sound upload_move_sound upload_grade_sound upload_publish_sound
     | rule deadline_sound, simp_all)+

inductive bundle_changes :: "(string \<Rightarrow> string) \<Rightarrow> bundle_env \<Rightarrow> bundle_db \<Rightarrow> bundle_db \<Rightarrow> bool" for sha env where
  no_change: "bundle_changes sha env db db"
| more_changes: "bundle_changes sha env db db1 \<Longrightarrow> bundle_change sha env db1 db2 \<Longrightarrow> bundle_changes sha env db db2"

lemma bundle_changes_sound: "bundle_changes sha env db db' \<Longrightarrow> bundle_ok sha db \<Longrightarrow> bundle_sound sha db db'"
proof (induction rule: bundle_changes.induct)
  case (more_changes db db1 db2)
  then have "bundle_sound sha db db1" by simp
  moreover have "bundle_sound sha db1 db2"
    by (rule bundle_change_sound [OF more_changes.hyps(2)]) (use calculation in \<open>simp add: bundle_sound_def\<close>)
  ultimately show ?case by (rule bundle_sound_trans)
qed (rule bundle_sound_refl)

lemma single_change: "bundle_change sha env db db' \<Longrightarrow> bundle_changes sha env db db'"
  using no_change more_changes by metis

lemma bundle_changes_trans: "bundle_changes sha env b c \<Longrightarrow> bundle_changes sha env a b \<Longrightarrow> bundle_changes sha env a c"
  by (induction rule: bundle_changes.induct) (auto intro: more_changes)

end
