(* ===== verification/Bundle_Steps.thy ===== *)
theory Bundle_Steps
  imports Bundle_Changes
begin

text \<open>
  Every operation on bundle releases, downloads, uploads and instructions is a sequence of the changes
  of \<open>Bundle_Changes\<close>, whatever its arguments, its clock and its outcome. \<open>bundle_step\<close> is the step
  relation of the whole platform store: a call of an operation of this component, a step of the
  components below it (logins, repository submissions), or only the second transaction of a call that
  checks the access token in a first one.
\<close>

section \<open>Releases\<close>

lemma check_release_shape: "check_release env a when_v = Inr w \<Longrightarrow> release_shape w"
  by (auto simp: check_release_def result_simps release_shape_def size_arg_def dest: score_arg_nonneg)

lemma register_release_changes:
  "register_release_body env w db = Inr (r, db') \<Longrightarrow> release_shape w \<Longrightarrow> bundle_changes sha env db db'"
  by (auto simp: register_release_body_def result_simps intro: no_change single_change b_release split: option.split_asm)

lemma course_release_Some: "course_release i course db = Some w \<Longrightarrow> w \<in> set (releases db) \<and> rl_id w = i \<and> rl_course w = course"
  using find_SomeD by (fastforce simp: course_release_def)

lemma course_release_taken: "course_release i course db = Some w \<Longrightarrow> taken rl_id i (releases db)"
  using course_release_Some by fastforce

lemma show_release_switch: "show_release now = switch_release None (Some True) now"
  by (rule ext) (simp add: show_release_def switch_release_def)

lemma publish_release_changes: "publish_release_body env i course db = Inr (r, db') \<Longrightarrow> bundle_changes sha env db db'"
  by (auto simp: publish_release_body_def not_removed_def not_erased_def result_simps show_release_switch
      intro: single_change b_switches split: option.split_asm)

lemma extend_changes:
  assumes "extend_body env i course due reason actor now db = Inr (r, db')"
  shows "bundle_changes sha env db db'"
proof -
  obtain w old where w: "course_release i course db = Some w" "rl_due w = Some old" "old < due"
      "\<not> (rl_policy w = PolicyAfterDeadline \<and> (\<exists>r\<in>set (uploads db). bq_release r = i \<and> bq_state r = BunPublished))"
    and db': "db' = set_release i (move_deadline due now) (db\<lparr>deadlines := deadlines db @
        [\<lparr>dc_id = next_id (deadlines db), dc_release = i, dc_old = old, dc_new = due, dc_actor = actor, dc_reason = reason,
          dc_created = now\<rparr>]\<rparr>)"
    using assms by (auto simp: extend_body_def not_removed_def not_erased_def split: option.split_asm)
  show ?thesis unfolding db' by (rule single_change, rule b_deadline [OF w])
qed

section \<open>Instructions\<close>

lemma sort_down_set [simp]: "set (sort_down f xs) = set xs"
  by (simp add: sort_down_def)

lemma sort_down_head:
  assumes "sort_down f xs = x # ys" and "y \<in> set xs"
  shows "f y \<le> f x"
proof -
  have s: "sort_key f (rev xs) = rev ys @ [x]" using assms(1) unfolding sort_down_def by (metis rev.simps(2) rev_rev_ident)
  have "sorted (map f (sort_key f (rev xs)))" by simp
  then have "\<forall>z\<in>set (rev ys). f z \<le> f x" by (simp add: s sorted_append)
  moreover have "y \<in> set (rev ys @ [x])" using assms(2) s by (metis set_rev set_sort)
  ultimately show ?thesis by auto
qed

lemma latest_revision_Some:
  assumes ok: "revisions_ok sha ws (revisions db)" and d: "latest_revision i db = Some d"
  shows "d \<in> set (revisions db)" "dr_release d = i"
    "dr_revision d + 1 = int (length (release_revisions i (revisions db)))"
proof -
  let ?rs = "release_revisions i (revisions db)"
  obtain ys where s: "sort_down dr_revision ?rs = d # ys"
    using d by (auto simp: latest_revision_def release_revisions_def split: list.split_asm)
  then have m: "d \<in> set ?rs" by (metis list.set_intros(1) sort_down_set)
  then show "d \<in> set (revisions db)" "dr_release d = i" by (simp_all add: release_revisions_def)
  have k: "map dr_revision ?rs = map int [0..<length ?rs]" using ok by (simp add: revisions_ok_def)
  have keys: "dr_revision ` set ?rs = int ` {0..<length ?rs}" using arg_cong [OF k, of set] by simp
  have n: "0 < length ?rs" using m by (cases ?rs) auto
  have "dr_revision d \<in> int ` {0..<length ?rs}" using imageI [OF m, of dr_revision] keys by simp
  then have "dr_revision d < int (length ?rs)" by auto
  moreover have "int (length ?rs - 1) \<in> dr_revision ` set ?rs" using keys n by simp
  then have "int (length ?rs - 1) \<le> dr_revision d" using sort_down_head [OF s] by auto
  ultimately show "dr_revision d + 1 = int (length ?rs)" using n by simp
qed

lemma sort_down_Nil [simp]: "sort_down f xs = [] \<longleftrightarrow> xs = []"
  by (simp add: sort_down_def flip: set_empty)

lemma sort_down_empty [simp]: "sort_down f [] = []"
  by simp

lemma latest_revision_None: "latest_revision i db = None \<longleftrightarrow> release_revisions i (revisions db) = []"
proof (cases "release_revisions i (revisions db) = []")
  case True
  then show ?thesis unfolding latest_revision_def release_revisions_def by simp
next
  case False
  then show ?thesis unfolding latest_revision_def release_revisions_def by (auto split: list.split)
qed

lemma no_revisions: "taken dr_release i ds \<longleftrightarrow> release_revisions i ds \<noteq> []"
  by (auto simp: release_revisions_def filter_empty_conv)

lemma current_revision_Some:
  assumes ok: "bundle_ok sha db" and c: "current_revision sha env course i db = Inr (Some d)"
  shows "dr_release d = i" "dr_sha d = sha (dr_content d)" "taken rl_id i (releases db)"
    "taken dr_release i (revisions db) \<Longrightarrow> d \<in> set (revisions db) \<and>
       dr_revision d + 1 = int (length (release_revisions i (revisions db)))"
    "\<not> taken dr_release i (revisions db) \<Longrightarrow> dr_revision d = 0"
proof -
  have r: "revisions_ok sha (releases db) (revisions db)" using ok by (simp add: bundle_ok_def)
  obtain w where w: "course_release i course db = Some w"
    and d: "(case latest_revision i db of Some d \<Rightarrow> Some d | None \<Rightarrow> map_option (original_revision sha w) (draft_text env course i)) = Some d"
    using c by (auto simp: current_revision_def split: option.split_asm)
  show "taken rl_id i (releases db)" using course_release_taken [OF w] .
  have "dr_release d = i \<and> dr_sha d = sha (dr_content d) \<and>
     (taken dr_release i (revisions db) \<longrightarrow> d \<in> set (revisions db) \<and>
       dr_revision d + 1 = int (length (release_revisions i (revisions db)))) \<and>
     (\<not> taken dr_release i (revisions db) \<longrightarrow> dr_revision d = 0)"
  proof (cases "latest_revision i db")
    case None
    then have "\<not> taken dr_release i (revisions db)" using latest_revision_None no_revisions by simp
    moreover obtain t where "d = original_revision sha w t" using d None by auto
    ultimately show ?thesis using course_release_Some [OF w] by (simp add: original_revision_def)
  next
    case (Some x)
    then have x: "latest_revision i db = Some d" using d by simp
    note l = latest_revision_Some [OF r x]
    have "dr_sha d = sha (dr_content d)" using r l(1) by (simp add: revisions_ok_def)
    moreover have "taken dr_release i (revisions db)" using l(1,2) by blast
    ultimately show ?thesis using l by simp
  qed
  then show "dr_release d = i" "dr_sha d = sha (dr_content d)"
    "taken dr_release i (revisions db) \<Longrightarrow> d \<in> set (revisions db) \<and>
       dr_revision d + 1 = int (length (release_revisions i (revisions db)))"
    "\<not> taken dr_release i (revisions db) \<Longrightarrow> dr_revision d = 0"
    by simp_all
qed

text \<open>Whatever the case, the current document is stored afterwards, and it is the newest revision.\<close>

lemma ensure_original_changes:
  assumes ok: "bundle_ok sha db" and e: "ensure_original sha env course i db = Inr (d, db')"
  shows "bundle_changes sha env db db'" "\<exists>ds. db' = db\<lparr>revisions := ds\<rparr>"
    "d = Some x \<Longrightarrow> x \<in> set (revisions db') \<and> dr_release x = i \<and>
       dr_revision x + 1 = int (length (release_revisions i (revisions db')))"
proof -
  have "bundle_changes sha env db db' \<and> (\<exists>ds. db' = db\<lparr>revisions := ds\<rparr>) \<and>
    (d = Some x \<longrightarrow> x \<in> set (revisions db') \<and> dr_release x = i \<and>
       dr_revision x + 1 = int (length (release_revisions i (revisions db'))))"
  proof (cases d)
    case None
    then have "db' = db" using e by (auto simp: ensure_original_def result_simps split: option.split_asm if_split_asm)
    then show ?thesis using None by (auto intro: no_change exI [of _ "revisions db"])
  next
    case (Some y)
    then have c: "current_revision sha env course i db = Inr (Some y)"
      using e by (auto simp: ensure_original_def result_simps split: option.split_asm if_split_asm)
    note y = current_revision_Some [OF ok c]
    show ?thesis
    proof (cases "taken dr_release i (revisions db)")
      case True
      then have "db' = db" using e c by (simp add: ensure_original_def)
      then show ?thesis using Some y(1) y(4) [OF True] by (auto intro: no_change exI [of _ "revisions db"])
    next
      case False
      then have db': "db' = db\<lparr>revisions := revisions db @ [y]\<rparr>"
        using e c by (auto simp: ensure_original_def insert_revision_def result_simps)
      have n: "release_revisions i (revisions db) = []" using False no_revisions by blast
      have "bundle_change sha env db db'"
        unfolding db' by (rule b_revision) (use y(1-3) y(5) [OF False] n in simp_all)
      then show ?thesis
        using Some single_change y(1) y(5) [OF False] n by (auto simp: db' release_revisions_append)
    qed
  qed
  then show "bundle_changes sha env db db'" "\<exists>ds. db' = db\<lparr>revisions := ds\<rparr>"
    "d = Some x \<Longrightarrow> x \<in> set (revisions db') \<and> dr_release x = i \<and>
       dr_revision x + 1 = int (length (release_revisions i (revisions db')))"
    by blast+
qed

lemma revise_changes:
  assumes ok: "bundle_ok sha db" and e: "revise sha env course i revision content note now db = Inr (r, db')"
  shows "bundle_changes sha env db db'"
proof -
  obtain body why d where c: "current_revision sha env course i db = Inr (Some d)" and n: "revision = dr_revision d"
    and k: "check_revision revision content note = Inr (body, why)"
    using e by (auto simp: revise_def result_simps split: option.split_asm prod.split_asm)
  show ?thesis
  proof (cases "sha body = dr_sha d")
    case True
    then have "db' = db" using e c n k by (auto simp: revise_def result_simps)
    then show ?thesis by (simp add: no_change)
  next
    case False
    then obtain x db1 where o: "ensure_original sha env course i db = Inr (x, db1)"
      and j: "insert_revision env (new_revision sha i (revision + 1) body why now) db1 = Inr db'"
      using e c n k by (auto simp: revise_def result_simps)
    note ch = ensure_original_changes [OF ok o]
    have x: "x = Some d" using o c by (auto simp: ensure_original_def result_simps split: if_split_asm)
    have "taken rl_id i (releases db1)" using ch(2) current_revision_Some(3) [OF ok c] by auto
    moreover have "db' = db1\<lparr>revisions := revisions db1 @ [new_revision sha i (revision + 1) body why now]\<rparr>"
      using j by (simp add: insert_revision_def)
    ultimately have "bundle_change sha env db1 db'"
      using ch(3) [OF x] n by (auto simp: new_revision_def intro!: b_revision)
    then show ?thesis using ch(1) more_changes by blast
  qed
qed

lemma record_submission_changes:
  assumes ok: "bundle_ok sha db" and r: "r \<in> set (uploads db)" "bq_release r = i"
    and e: "record_submission sha env course i (bq_id r) now db = Inr db'"
  shows "bundle_changes sha env db db'"
proof -
  obtain d db1 where o: "ensure_original sha env course i db = Inr (d, db1)"
    and c: "(case d of None \<Rightarrow> Inr db1 | Some d \<Rightarrow> demand (\<not> taken sd_request (bq_id r) (uses db1)) (Py IntegrityError)
           (Inr (db1\<lparr>uses := uses db1 @ [\<lparr>sd_request = bq_id r, sd_release = i, sd_revision = dr_revision d,
              sd_sha = dr_sha d, sd_at = now\<rparr>]\<rparr>))) = Inr db'"
    using e by (auto simp: record_submission_def result_simps)
  note ch = ensure_original_changes [OF ok o]
  show ?thesis
  proof (cases d)
    case None
    then show ?thesis using c ch(1) by simp
  next
    case (Some x)
    have x: "x \<in> set (revisions db1)" "dr_release x = i" using ch(3) [OF Some] by simp_all
    have u: "uploads db1 = uploads db" using ch(2) by auto
    have "bundle_change sha env db1 (db1\<lparr>uses := uses db1 @ [\<lparr>sd_request = bq_id r, sd_release = dr_release x,
        sd_revision = dr_revision x, sd_sha = dr_sha x, sd_at = now\<rparr>]\<rparr>)"
      by (rule b_use) (use c Some r x u in auto)
    then show ?thesis using c Some x(2) ch(1) more_changes by fastforce
  qed
qed

section \<open>Downloads and admissions\<close>

lemma bundle_session_student:
  assumes "bundle_session session sid access course now db"
  shows "student_in (auth (base db)) sid session course"
proof -
  obtain e where "active_enrollment sid course (auth (base db)) = Some e"
    using assms by (auto simp: bundle_session_def enrolled_def)
  then have "e \<in> set (enrollments (auth (base db)))" "enrollment_key e = (sid, course)"
    by (auto simp: active_enrollment_def enrollment_key_def dest: find_SomeD)
  then have "(sid, course) \<in> enrollment_key ` set (enrollments (auth (base db)))" by (metis imageI)
  then show ?thesis using assms by (auto simp: student_in_def bundle_session_def session_stands_def)
qed

lemma download_changes:
  assumes e: "download_body i access course release client session sid now db = Inr (r, db')"
  shows "bundle_changes sha env db db'"
proof (cases "find (\<lambda>d. dl_id d = i) (downloads db)")
  case (Some d)
  then show ?thesis using e by (auto simp: download_body_def intro: no_change)
next
  case None
  then obtain w where st: "bundle_session session sid access course now db"
    and w: "find (\<lambda>w. rl_id w = release \<and> rl_course w = course \<and> public_release w \<and> begun now w) (releases db) = Some w"
    and db': "db' = db\<lparr>downloads := downloads db @ [\<lparr>dl_id = i, dl_student = sid, dl_course = course, dl_session = session,
        dl_release = release, dl_digest = rl_starter_digest w, dl_platform = client, dl_at = now\<rparr>]\<rparr>"
    using e by (auto simp: download_body_def Let_def split: option.split_asm)
  have "w \<in> set (releases db)" "rl_id w = release" "rl_course w = course" using find_SomeD [OF w] by simp_all
  moreover have "\<not> taken dl_id i (downloads db)" using None by (auto simp: find_None_iff)
  ultimately show ?thesis
    unfolding db' using bundle_session_student [OF st] by (intro single_change b_download) (auto simp: download_ok_def)
qed

lemma as_conflict_Inr [simp]: "as_conflict r = Inr x \<longleftrightarrow> r = Inr x"
  by (cases r) (simp_all add: as_conflict_def)

lemma admissible_Some:
  "admissible now i course sid db = Some w \<Longrightarrow> w \<in> set (releases db) \<and> rl_id w = i \<and> rl_course w = course \<and> release_open now w"
  by (auto simp: admissible_def dest: find_SomeD)

text \<open>Counting the attempt before or after the rows are written makes no difference.\<close>

lemma count_admission_fields [simp]:
  "uploads (count_admission sid course day now db) = uploads db" "upload_keys (count_admission sid course day now db) = upload_keys db"
  "upload_receipts (count_admission sid course day now db) = upload_receipts db"
  "releases (count_admission sid course day now db) = releases db" "base (count_admission sid course day now db) = base db"
  by (simp_all add: count_admission_def)

lemma count_admission_commutes:
  "(count_admission sid course day now (db\<lparr>uploads := rs, upload_keys := ks\<rparr>))\<lparr>upload_receipts := cs\<rparr> =
   (count_admission sid course day now db)\<lparr>uploads := rs, upload_keys := ks, upload_receipts := cs\<rparr>"
  by (simp add: count_admission_def)

lemma new_upload_fields [simp]:
  "bq_id (new_upload p sid session c now) = up_request p" "bq_release (new_upload p sid session c now) = sc_work c"
  "bq_state (new_upload p sid session c now) = BunAccepted" "upload_key (new_upload p sid session c now) = call_key sid c"
  by (simp_all add: new_upload_def upload_key_def call_key_def)

lemma store_upload_Inr:
  assumes "store_upload sha env c p w session sid now db = Inr (r, db')"
  obtains db2 where "r = new_upload p sid session c now"
    "db2 = (count_admission sid (sc_course c) (take 10 now) now db)\<lparr>uploads := uploads db @ [r],
      upload_keys := upload_keys db @ [new_key sid c (bq_id r) now],
      upload_receipts := upload_receipts db @ [new_upload_receipt p r w now]\<rparr>"
    "record_submission sha env (sc_course c) (sc_work c) (bq_id r) now db2 = Inr db'"
    "\<not> course_closed env (rl_course w)" "\<not> erased (platform env) (sc_course c)"
    "\<not> taken bq_id (bq_id r) (uploads db)" "\<not> taken upload_key (upload_key r) (uploads db)"
    "\<not> taken key_of (key_of (new_key sid c (bq_id r) now)) (upload_keys db)" "\<not> taken bc_id (up_receipt p) (upload_receipts db)"
  using assms
  by (auto simp: store_upload_def Let_def result_simps insert_upload_def insert_upload_receipt_def not_erased_def
      count_admission_commutes new_upload_receipt_def)

lemma store_upload_changes:
  assumes ok: "bundle_ok sha db" and s: "store_upload sha env c p w session sid now db = Inr (r, db')"
    and w: "w \<in> set (releases db)" "rl_id w = sc_work c" "rl_course w = sc_course c"
    and st: "student_in (auth (base db)) sid session (sc_course c)"
  shows "bundle_changes sha env db db'"
proof -
  obtain db2 where r: "r = new_upload p sid session c now"
    and db2: "db2 = (count_admission sid (sc_course c) (take 10 now) now db)\<lparr>uploads := uploads db @ [r],
      upload_keys := upload_keys db @ [new_key sid c (bq_id r) now],
      upload_receipts := upload_receipts db @ [new_upload_receipt p r w now]\<rparr>"
    and e: "record_submission sha env (sc_course c) (sc_work c) (bq_id r) now db2 = Inr db'"
    and fresh: "\<not> taken bq_id (bq_id r) (uploads db)" "\<not> taken upload_key (upload_key r) (uploads db)"
      "\<not> taken key_of (key_of (new_key sid c (bq_id r) now)) (upload_keys db)" "\<not> taken bc_id (up_receipt p) (upload_receipts db)"
    by (rule store_upload_Inr [OF s])
  let ?db1 = "count_admission sid (sc_course c) (take 10 now) now db" and ?k = "new_key sid c (bq_id r) now"
  let ?c = "new_upload_receipt p r w now"
  have "bundle_change sha env ?db1 (?db1\<lparr>uploads := uploads ?db1 @ [r], upload_keys := upload_keys ?db1 @ [?k],
      upload_receipts := upload_receipts ?db1 @ [?c]\<rparr>)"
  proof (rule b_upload)
    show "upload_key_of r ?k" by (simp add: upload_key_of_def r new_key_def new_upload_def upload_key_def key_of_def)
    show "upload_pins ?c r" by (simp add: upload_pins_def new_upload_receipt_def new_upload_def r)
    show "receipt_inputs ?c w" using w by (simp add: receipt_inputs_def new_upload_receipt_def new_upload_def r)
    show "student_in (auth (base ?db1)) (bq_student r) (bq_session r) (rl_course w)" using st w by (simp add: r new_upload_def)
    show "\<not> taken bc_id (bc_id ?c) (upload_receipts ?db1)" using fresh(4) by (simp add: new_upload_receipt_def)
  qed (use w fresh in \<open>simp_all add: r\<close>, simp_all add: new_upload_def)
  then have c: "bundle_change sha env ?db1 db2" by (simp add: db2)
  then have ch: "bundle_changes sha env db db2" using single_change [OF b_count] more_changes by blast
  then have ok2: "bundle_ok sha db2" using bundle_changes_sound [OF ch ok] by (simp add: bundle_sound_def)
  have "bundle_changes sha env db2 db'"
    by (rule record_submission_changes [OF ok2 _ _ e]) (simp_all add: db2 r)
  then show ?thesis by (rule bundle_changes_trans [OF _ ch])
qed

lemma admit_upload_changes:
  assumes ok: "bundle_ok sha db" and e: "admit_upload_body sha env c p most_open most_daily session sid now db = Inr (r, db')"
  shows "bundle_changes sha env db db'"
proof (cases "stored_upload (call_key sid c) db")
  case (Some k)
  then show ?thesis using e by (auto simp: admit_upload_body_def intro: no_change split: prod.split_asm)
next
  case None
  then obtain w q where st: "bundle_session session sid (sc_access c) (sc_course c) now db"
    and w: "admissible now (sc_work c) (sc_course c) sid db = Some w"
    and s: "store_upload sha env c p w session sid now db = Inr (q, db')"
    using e by (auto simp: admit_upload_body_def result_simps split: option.split_asm)
  show ?thesis
    using store_upload_changes [OF ok s] admissible_Some [OF w] bundle_session_student [OF st] by simp
qed

section \<open>The life of an upload\<close>

lemma bundle_details_Inr: "bundle_details st code message = Inr (c, m) \<Longrightarrow> (c \<noteq> None \<longleftrightarrow> bundle_failed st) \<and> (m \<noteq> None \<longleftrightarrow> bundle_failed st)"
  by (auto simp: bundle_details_def result_simps split: if_split_asm)

lemma transition_upload_changes:
  assumes e: "transition_upload_body i st code message now db = Inr (r, db')"
    and d: "code \<noteq> None \<longleftrightarrow> bundle_failed st" "message \<noteq> None \<longleftrightarrow> bundle_failed st"
  shows "bundle_changes sha env db db'"
proof -
  obtain x where x: "find (\<lambda>r. bq_id r = i) (uploads db) = Some x" "st \<in> set (allowed_bundle (bq_state x))"
    and db': "db' = set_upload i (move_upload st now code message) db"
    using e by (auto simp: transition_upload_body_def split: option.split_asm)
  have "x \<in> set (uploads db)" "bq_id x = i" using find_SomeD [OF x(1)] by simp_all
  then show ?thesis unfolding db' using b_move [of x db st code message sha env now] x(2) d single_change by metis
qed

lemma grade_upload_changes:
  assumes e: "grade_upload_body i result score most rubric diagnostics now db = Inr (r, db')" and "0 \<le> score" and "score \<le> most"
  shows "bundle_changes sha env db db'"
proof -
  let ?x = "\<lambda>r c. new_upload_result result r c score most rubric diagnostics now"
  obtain x c db1 where x: "find (\<lambda>r. bq_id r = i) (uploads db) = Some x" "bq_state x = BunRunning"
    and c: "find (\<lambda>c. bc_request c = i) (upload_receipts db) = Some c" "most = bc_max c"
    and j: "insert_upload_result (?x x c) db = Inr db1" and db': "db' = set_upload i (advance_upload BunGraded now) db1"
    using e by (auto simp: grade_upload_body_def result_simps Let_def split: option.split_asm)
  have m: "x \<in> set (uploads db)" "bq_id x = i" "c \<in> set (upload_receipts db)" "bc_request c = i"
    using find_SomeD [OF x(1)] find_SomeD [OF c(1)] by simp_all
  have "result_rests (?x x c) x c" "bs_published (?x x c) = None"
    using m c(2) assms(2,3) by (simp_all add: result_rests_def new_upload_result_def)
  then show ?thesis unfolding db' using b_grade [OF m(1) x(2) m(3) _ _ j] m(2) single_change by blast
qed

lemma publish_upload_changes:
  assumes e: "publish_upload_body i now db = Inr (r, db')"
  shows "bundle_changes sha env db db'"
proof -
  obtain x w where x: "find (\<lambda>r. bq_id r = i) (uploads db) = Some x" "bq_state x = BunGraded"
    and w: "find (\<lambda>w. rl_id w = bq_release x) (releases db) = Some w" "may_publish now w = Inr ()"
    and db': "db' = set_upload i (advance_upload BunPublished now)
        (db\<lparr>upload_results := update_where (\<lambda>s. bs_request s = i) (publish_upload_row now) (upload_results db)\<rparr>)"
    using e by (auto simp: publish_upload_body_def result_simps split: option.split_asm)
  have "x \<in> set (uploads db)" "bq_id x = i" "w \<in> set (releases db)" "rl_id w = bq_release x"
    using find_SomeD [OF x(1)] find_SomeD [OF w(1)] by simp_all
  then show ?thesis unfolding db' using b_publish [of x db w now "()" sha env] x(2) w(2) single_change by metis
qed

end
