(* ===== verification/Bundle_Histories.thy ===== *)
theory Bundle_Histories
  imports Bundle_Steps
begin

text \<open>
  Histories of the whole platform store with the bundle tables. \<open>bundle_step\<close> is one step: a call of an
  operation of this component, a step of the components below it (logins, repository submissions), or
  only the second transaction of a call that checks the access token in a first one, since other calls
  may come between the two. A history takes any steps in any order, each in its own environment, and
  with one digest function.
\<close>

section \<open>Calls\<close>

lemma guard_bundle:
  "(\<And>x. r = Inr x \<Longrightarrow> bundle_changes sha env db (snd (f x db))) \<Longrightarrow> bundle_changes sha env db (snd (guard r f db))"
  by (cases r) (simp_all add: guard_def no_change)

lemma transact_bundle:
  "(\<And>r db'. body db = Inr (r, db') \<Longrightarrow> bundle_changes sha env db db') \<Longrightarrow> bundle_changes sha env db (snd (transact body db))"
  by (cases "body db") (auto simp: transact_def no_change)

lemma admitted_bundle:
  assumes ok: "bundle_ok sha db"
    and f: "\<And>s p db1. bundle_ok sha db1 \<Longrightarrow> bundle_changes sha env db1 (snd (f s p db1))"
  shows "bundle_changes sha env db (snd (admitted env access course when_v f db))"
proof -
  let ?a = "authorize_access_token (login_env (base_env env db) (base db)) access course when_v True (auth (base db))"
  have "platform_step (base_env env db) (base db) ((base db)\<lparr>auth := snd ?a\<rparr>)" by (rule step_login) (rule step_authorize)
  then have c: "bundle_change sha env db (set_auth (snd ?a) db)" unfolding set_auth_def by (rule b_base)
  then have ok1: "bundle_ok sha (set_auth (snd ?a) db)" using bundle_change_sound [OF c ok] by (simp add: bundle_sound_def)
  show ?thesis
    using single_change [OF c] bundle_changes_trans [OF f [OF ok1]]
    by (auto simp: admitted_def split: prod.split sum.split)
qed

lemma admitted_reads:
  "bundle_ok sha db \<Longrightarrow> bundle_changes sha env db (snd (admitted env access course when_v (\<lambda>s p db. (g s p db, db)) db))"
  by (rule admitted_bundle) (simp_all add: no_change)

section \<open>Steps\<close>

inductive bundle_step :: "(string \<Rightarrow> string) \<Rightarrow> bundle_env \<Rightarrow> bundle_db \<Rightarrow> bundle_db \<Rightarrow> bool" for sha env where
  bs_base: "platform_step (base_env env db) (base db) b \<Longrightarrow> bundle_step sha env db (db\<lparr>base := b\<rparr>)"
| bs_register: "bundle_step sha env db (snd (register_bundle_assignment_release env a when_v db))"
| bs_begin_check: "bundle_step sha env db (snd (begin_bundle_release_check env i course db))"
| bs_finish_check: "bundle_step sha env db (snd (finish_bundle_release_check env n passed details db))"
| bs_show: "bundle_step sha env db (snd (publish_validated_bundle_assignment env i course db))"
| bs_extend: "bundle_step sha env db (snd (extend_bundle_deadline env i course due reason actor when_v db))"
| bs_availability: "bundle_step sha env db (snd (set_bundle_assignment_availability env i course active ready when_v db))"
| bs_list_assignments: "bundle_step sha env db (snd (list_owned_bundle_assignments env access course available when_v db))"
| bs_get_assignment: "bundle_step sha env db (snd (get_owned_bundle_assignment env access course i available when_v db))"
| bs_revise: "bundle_step sha env db (snd (update_assignment_document sha env course i revision content note db))"
| bs_download: "bundle_step sha env db (snd (record_bundle_download env d access course i client when_v db))"
| bs_download_commit: "bundle_step sha env db (snd (transact (download_body d access course i client session sid now) db))"
| bs_admit: "bundle_step sha env db (snd (create_accepted_bundle_submission sha env call p most_open most_daily when_v db))"
| bs_admit_commit: "bundle_step sha env db (snd (transact (admit_upload_body sha env c p most_open most_daily session sid now) db))"
| bs_transition: "bundle_step sha env db (snd (transition_bundle_submission env i to_state code message when_v db))"
| bs_grade: "bundle_step sha env db (snd (record_bundle_graded_result env i result score most rubric diagnostics when_v db))"
| bs_publish: "bundle_step sha env db (snd (publish_bundle_result env i when_v db))"
| bs_get_submission: "bundle_step sha env db (snd (get_owned_bundle_submission env access course i when_v db))"
| bs_list_submissions: "bundle_step sha env db (snd (list_owned_bundle_submissions env access course i when_v db))"
| bs_get_latest: "bundle_step sha env db (snd (get_latest_owned_bundle_submission env access course i when_v db))"
| bs_get_receipt: "bundle_step sha env db (snd (get_owned_bundle_receipt env access course i when_v db))"
| bs_get_result: "bundle_step sha env db (snd (get_owned_bundle_result env access course i when_v db))"

lemma bundle_step_changes: "bundle_step sha env db db' \<Longrightarrow> bundle_ok sha db \<Longrightarrow> bundle_changes sha env db db'"
proof (induction rule: bundle_step.induct)
  case (bs_base db b)
  then show ?case by (intro single_change b_base)
next
  case (bs_register db a when_v)
  show ?case unfolding register_bundle_assignment_release_def
    by (intro guard_bundle transact_bundle) (auto intro: register_release_changes dest: check_release_shape)
next
  case (bs_begin_check db)
  show ?case unfolding begin_bundle_release_check_def
    by (intro transact_bundle)
      (auto simp: not_removed_def result_simps intro: single_change b_check dest: course_release_taken split: option.split_asm)
next
  case (bs_finish_check db)
  show ?case unfolding finish_bundle_release_check_def
    by (intro transact_bundle) (auto simp: result_simps intro: single_change b_checked)
next
  case (bs_show db)
  show ?case unfolding publish_validated_bundle_assignment_def
    by (intro transact_bundle) (rule publish_release_changes)
next
  case (bs_extend db)
  show ?case unfolding extend_bundle_deadline_def by (intro guard_bundle transact_bundle) (rule extend_changes)
next
  case (bs_availability db)
  show ?case unfolding set_bundle_assignment_availability_def
    by (intro guard_bundle transact_bundle)
      (auto simp: not_removed_def not_erased_def result_simps intro: single_change b_switches split: option.split_asm)
next
  case (bs_list_assignments db)
  then show ?case unfolding list_owned_bundle_assignments_def by (intro guard_bundle admitted_reads)
next
  case (bs_get_assignment db)
  then show ?case unfolding get_owned_bundle_assignment_def by (intro guard_bundle admitted_reads)
next
  case (bs_revise db)
  then show ?case unfolding update_assignment_document_def
    by (intro guard_bundle transact_bundle)
      (auto simp: update_document_body_def not_removed_def result_simps intro: revise_changes
        split: option.split_asm prod.split_asm)
next
  case (bs_download db)
  then show ?case unfolding record_bundle_download_def
    by (intro guard_bundle admitted_bundle transact_bundle) (auto intro: download_changes)
next
  case (bs_download_commit db)
  show ?case by (intro transact_bundle) (rule download_changes)
next
  case (bs_admit db)
  then show ?case unfolding create_accepted_bundle_submission_def
    by (intro guard_bundle admitted_bundle transact_bundle) (auto intro: admit_upload_changes)
next
  case (bs_admit_commit db)
  then show ?case by (intro transact_bundle) (rule admit_upload_changes)
next
  case (bs_transition db)
  show ?case unfolding transition_bundle_submission_def
    by (intro guard_bundle)
      (auto intro!: guard_bundle transact_bundle elim!: transition_upload_changes dest!: bundle_details_Inr split: prod.split)
next
  case (bs_grade db)
  show ?case unfolding record_bundle_graded_result_def
    by (intro guard_bundle transact_bundle) (auto intro: grade_upload_changes dest: score_arg_nonneg)
next
  case (bs_publish db)
  show ?case unfolding publish_bundle_result_def by (intro guard_bundle transact_bundle) (rule publish_upload_changes)
next
  case (bs_get_submission db)
  then show ?case unfolding get_owned_bundle_submission_def by (rule admitted_reads)
next
  case (bs_list_submissions db)
  then show ?case unfolding list_owned_bundle_submissions_def by (rule admitted_reads)
next
  case (bs_get_latest db)
  then show ?case unfolding get_latest_owned_bundle_submission_def by (rule admitted_reads)
next
  case (bs_get_receipt db)
  then show ?case unfolding get_owned_bundle_receipt_def by (rule admitted_reads)
next
  case (bs_get_result db)
  then show ?case unfolding get_owned_bundle_result_def by (rule admitted_reads)
qed

section \<open>Histories\<close>

inductive bundle_later :: "(string \<Rightarrow> string) \<Rightarrow> bundle_db \<Rightarrow> bundle_db \<Rightarrow> bool" for sha where
  bundle_now: "bundle_later sha db db"
| bundle_next: "bundle_later sha db db1 \<Longrightarrow> bundle_step sha env db1 db2 \<Longrightarrow> bundle_later sha db db2"

lemma bundle_step_sound: "bundle_step sha env db db' \<Longrightarrow> bundle_ok sha db \<Longrightarrow> bundle_sound sha db db'"
  using bundle_changes_sound [OF bundle_step_changes] by blast

lemma bundle_later_sound: "bundle_later sha db db' \<Longrightarrow> bundle_ok sha db \<Longrightarrow> bundle_sound sha db db'"
proof (induction rule: bundle_later.induct)
  case (bundle_next db db1 env db2)
  then have "bundle_sound sha db db1" by simp
  moreover have "bundle_sound sha db1 db2"
    by (rule bundle_step_sound [OF bundle_next.hyps(2)]) (use calculation in \<open>simp add: bundle_sound_def\<close>)
  ultimately show ?case by (rule bundle_sound_trans)
qed (rule bundle_sound_refl)

lemma init_bundles_ok: "bundle_ok sha init_bundles"
proof -
  have "bundle_line.line (uploads init_bundles) (upload_receipts init_bundles) (upload_results init_bundles)"
    unfolding init_bundles_def bundle_db.simps by (rule bundle_line.line_empty)
  then show ?thesis
    using init_platform_ok
    by (simp add: bundle_ok_def init_bundles_def releases_ok_def checks_ok_def deadlines_ok_def ids_in_order_def downloads_ok_def
      uploads_ok_def upload_keys_ok_def admissions_ok_def receipts_ok_def results_ok_def revisions_ok_def uses_ok_def
      release_revisions_def)
qed

lemma reached_bundle_ok: "bundle_later sha init_bundles db \<Longrightarrow> bundle_ok sha db"
  using bundle_later_sound [OF _ init_bundles_ok] by (simp add: bundle_sound_def)

end
