(* ===== verification/Bundle_Facts.thy ===== *)
theory Bundle_Facts
  imports Bundle_Histories Sub_Facts
begin

text \<open>
  What a successful call on bundles says: the session behind it, the release it was admitted for, the
  rows it wrote; and what the rows of a reachable store say of one upload.
\<close>

section \<open>The access token\<close>

lemma base_env_stamp [simp]:
  "stamp (login_env (base_env env db) b) v = bundle_stamp env v" "stamp (logins (base_env env db)) v = bundle_stamp env v"
  by (simp_all add: stamp_def bundle_stamp_def base_env_def login_env_def)

lemma set_auth_fields [simp]:
  "releases (set_auth a db) = releases db" "checks (set_auth a db) = checks db" "deadlines (set_auth a db) = deadlines db"
  "downloads (set_auth a db) = downloads db" "uploads (set_auth a db) = uploads db" "upload_keys (set_auth a db) = upload_keys db"
  "admissions (set_auth a db) = admissions db" "upload_receipts (set_auth a db) = upload_receipts db"
  "upload_results (set_auth a db) = upload_results db" "revisions (set_auth a db) = revisions db" "uses (set_auth a db) = uses db"
  "auth (base (set_auth a db)) = a"
  by (simp_all add: set_auth_def)

lemma enrolled_auth: "enrollments (auth b) = enrollments (auth c) \<Longrightarrow> enrolled sid course b = enrolled sid course c"
  by (simp add: enrolled_def active_enrollment_def)

text \<open>A call that was let through: the student's unrevoked session carries the token.\<close>

definition bears :: "bundle_db \<Rightarrow> string \<Rightarrow> session_row \<Rightarrow> bool" where
  "bears db access s = (s \<in> set (sessions (auth (base db))) \<and> verifier_arg access = Inr (se_access s) \<and> se_revoked s = None)"

lemma admitted_Inr:
  assumes "admitted env access course when_v f db = (Inr x, db')"
  obtains a s0 and s :: session_row and p :: student_row where
    "authorize_access_token (login_env (base_env env db) (base db)) access course when_v True (auth (base db)) = (Inr (s, p), a)"
    "f s p (set_auth a db) = (Inr x, db')" "bears db access s0" "se_student s0 = st_id p" "se_id s0 = se_id s"
    "text_arg course = Inr (se_course s0)" "enrolled (st_id p) (se_course s0) (base db)" "enrollments a = enrollments (auth (base db))"
proof -
  obtain s p a where a: "authorize_access_token (login_env (base_env env db) (base db)) access course when_v True (auth (base db)) =
      (Inr (s, p), a)" and f: "f s p (set_auth a db) = (Inr x, db')"
    using assms by (auto simp: admitted_def split: sum.split_asm prod.split_asm)
  from a show thesis
  proof (rule authorize_rows)
    fix h c now s0 g
    assume "verifier_arg access = Inr h" "text_arg course = Inr c" "s0 \<in> set (sessions (auth (base db)))" "s = touch_session now s0"
      "se_access s0 = h" "se_course s0 = c" "se_revoked s0 = None" "st_id p = se_student s0"
      "active_enrollment (se_student s0) c (auth (base db)) \<noteq> None"
      "a = (auth (base db))\<lparr>sessions := update_where (\<lambda>x. se_id x = se_id s0) (touch_session now) (sessions (auth (base db)))\<rparr>"
    then show thesis by (intro that [OF a f, of s0]) (simp_all add: bears_def enrolled_def)
  qed
qed

section \<open>Admissions\<close>

lemma upload_calls:
  assumes "check_upload upload = Inr p" "check_call call = Inr c" "0 < most_open" "0 < most_daily" "bundle_stamp env when_v = Inr now"
    "authorize_access_token (login_env (base_env env db) (base db)) (sc_access c) (sc_course c) (Some (DtText now)) True
       (auth (base db)) = (Inr (s, q), a)"
  shows "create_accepted_bundle_submission sha env call upload most_open most_daily when_v db =
    transact (admit_upload_body sha env c p most_open most_daily (se_id s) (st_id q) now) (set_auth a db)"
  using assms by (simp add: create_accepted_bundle_submission_def guard_def admitted_def positive_arg_def demand_def)

lemma upload_shape:
  assumes "create_accepted_bundle_submission sha env call upload most_open most_daily when_v db = (Inr out, db')"
  obtains p c now a s0 and s :: session_row and q :: student_row where "check_upload upload = Inr p" "check_call call = Inr c" "0 < most_open" "0 < most_daily"
    "bundle_stamp env when_v = Inr now" "bears db (sc_access c) s0" "se_student s0 = st_id q" "se_id s0 = se_id s"
    "text_arg (sc_course c) = Inr (se_course s0)"
    "enrolled (st_id q) (se_course s0) (base db)" "enrollments a = enrollments (auth (base db))"
    "admit_upload_body sha env c p most_open most_daily (se_id s) (st_id q) now (set_auth a db) = Inr (Inr out, db')"
proof -
  obtain p c now where v: "check_upload upload = Inr p" "check_call call = Inr c" "0 < most_open" "0 < most_daily"
      "bundle_stamp env when_v = Inr now"
    and e: "admitted env (sc_access c) (sc_course c) (Some (DtText now)) (\<lambda>s st.
      transact (admit_upload_body sha env c p most_open most_daily (se_id s) (st_id st) now)) db = (Inr out, db')"
    using assms
    by (auto simp: create_accepted_bundle_submission_def guard_def positive_arg_def demand_def split: sum.split_asm if_split_asm)
  from e show thesis
  proof (rule admitted_Inr)
    fix a s0 and s :: session_row and q :: student_row
    assume "transact (admit_upload_body sha env c p most_open most_daily (se_id s) (st_id q) now) (set_auth a db) = (Inr out, db')"
    then have "admit_upload_body sha env c p most_open most_daily (se_id s) (st_id q) now (set_auth a db) = Inr (Inr out, db')"
      by (auto simp: transact_def split: sum.split_asm)
    moreover assume "bears db (sc_access c) s0" "se_student s0 = st_id q" "se_id s0 = se_id s" "text_arg (sc_course c) = Inr (se_course s0)"
      "enrolled (st_id q) (se_course s0) (base db)" "enrollments a = enrollments (auth (base db))"
    ultimately show thesis using that [OF v] by blast
  qed
qed

lemma admitted_upload:
  assumes "admit_upload_body sha env c p most_open most_daily session sid now db = Inr (Inr (r, False), db')"
  obtains w where "bundle_session session sid (sc_access c) (sc_course c) now db"
    "admissible now (sc_work c) (sc_course c) sid db = Some w" "outstanding_uploads sid (sc_course c) db < most_open"
    "admissions_of sid (sc_course c) (take 10 now) db < most_daily" "store_upload sha env c p w session sid now db = Inr (r, db')"
  using assms by (auto simp: admit_upload_body_def result_simps split: option.split_asm prod.split_asm)

text \<open>Recording the revision in use writes instructions only.\<close>

lemma ensure_original_writes:
  assumes e: "ensure_original sha env course i db = Inr (d, db')"
  shows "\<exists>ds. db' = db\<lparr>revisions := ds\<rparr>"
proof -
  have "db' = db \<or> (\<exists>x. insert_revision env x db = Inr db')"
    using e by (auto simp: ensure_original_def result_simps split: option.split_asm if_split_asm)
  moreover have "db = db\<lparr>revisions := revisions db\<rparr>" by simp
  ultimately show ?thesis unfolding insert_revision_def by (metis demand_Inr_iff Inr_inject)
qed

lemma record_submission_fields:
  assumes e: "record_submission sha env course i request now db = Inr db'"
  shows "uploads db' = uploads db" "upload_keys db' = upload_keys db" "upload_receipts db' = upload_receipts db"
    "admissions db' = admissions db" "releases db' = releases db" "base db' = base db"
proof -
  obtain d db1 where o: "ensure_original sha env course i db = Inr (d, db1)"
    and c: "db' = db1 \<or> (\<exists>us. db' = db1\<lparr>uses := us\<rparr>)"
    using e by (auto simp: record_submission_def result_simps split: option.split_asm)
  then obtain ds where "db1 = db\<lparr>revisions := ds\<rparr>" using ensure_original_writes by blast
  then show "uploads db' = uploads db" "upload_keys db' = upload_keys db" "upload_receipts db' = upload_receipts db"
    "admissions db' = admissions db" "releases db' = releases db" "base db' = base db"
    using c by auto
qed

lemma find_count:
  assumes n: "\<And>c. P (f c) = P c"
  shows "find P (update_where P f cs) = map_option f (find P cs)"
  by (induction cs) (auto simp: update_where_def n)

lemma find_append: "find P (xs @ ys) = (case find P xs of None \<Rightarrow> find P ys | Some x \<Rightarrow> Some x)"
  by (induction xs) auto

lemma counted_admission:
  "admissions_of sid course day (count_admission sid course day now db) = admissions_of sid course day db + 1"
proof -
  let ?P = "\<lambda>c. admission_key c = (sid, course, day)" and ?f = "\<lambda>c. c\<lparr>bn_attempts := bn_attempts c + 1, bn_updated := now\<rparr>"
  have u: "find ?P (update_where ?P ?f cs) = map_option ?f (find ?P cs)" for cs
    by (rule find_count) (simp add: admission_key_def)
  have t: "taken admission_key (sid, course, day) cs \<longleftrightarrow> find ?P cs \<noteq> None" for cs
    by (auto simp: find_None_iff image_iff) metis
  show ?thesis
    by (cases "find ?P (admissions db)")
      (simp_all add: admissions_of_def count_admission_def t u find_append, simp_all add: admission_key_def)
qed

section \<open>Rows of an upload\<close>

lemma bundle_keys:
  assumes "bundle_ok sha db"
  shows "distinct (map bq_id (uploads db))" "distinct (map bc_request (upload_receipts db))"
    "distinct (map bs_request (upload_results db))" "distinct (map rl_id (releases db))"
    "distinct (map key_of (upload_keys db))"
proof -
  show "distinct (map bq_id (uploads db))" "distinct (map bc_request (upload_receipts db))"
    "distinct (map bs_request (upload_results db))"
    using bundle_uploads(3) [OF assms] unfolding bundle_line.line_def by blast+
  show "distinct (map rl_id (releases db))" "distinct (map key_of (upload_keys db))"
    using assms by (simp_all add: bundle_ok_def releases_ok_def upload_keys_ok_def)
qed

lemma upload_found: "bundle_ok sha db \<Longrightarrow> r \<in> set (uploads db) \<Longrightarrow> find (\<lambda>x. bq_id x = bq_id r) (uploads db) = Some r"
  using select_by_distinct [OF bundle_keys(1)] by (simp add: select_by_def)

lemma release_found:
  "bundle_ok sha db \<Longrightarrow> w \<in> set (releases db) \<Longrightarrow> find (\<lambda>x. rl_id x = rl_id w) (releases db) = Some w"
  using select_by_distinct [OF bundle_keys(4)] by (simp add: select_by_def)

lemma receipt_found:
  "bundle_ok sha db \<Longrightarrow> c \<in> set (upload_receipts db) \<Longrightarrow> find (\<lambda>x. bc_request x = bc_request c) (upload_receipts db) = Some c"
  using select_by_distinct [OF bundle_keys(2)] by (simp add: select_by_def)

lemma result_found:
  "bundle_ok sha db \<Longrightarrow> x \<in> set (upload_results db) \<Longrightarrow> find (\<lambda>y. bs_request y = bs_request x) (upload_results db) = Some x"
  using select_by_distinct [OF bundle_keys(3)] by (simp add: select_by_def)

lemma release_unique: "bundle_ok sha db \<Longrightarrow> v \<in> set (releases db) \<Longrightarrow> w \<in> set (releases db) \<Longrightarrow> rl_id v = rl_id w \<Longrightarrow> v = w"
  by (rule unique_key [of rl_id]) (simp_all add: bundle_ok_def releases_ok_def)

lemma upload_receipt:
  assumes "bundle_ok sha db" and "r \<in> set (uploads db)"
  obtains c w where "c \<in> set (upload_receipts db)" "upload_pins c r" "w \<in> set (releases db)" "receipt_inputs c w"
proof -
  obtain c where c: "c \<in> set (upload_receipts db)" "upload_pins c r"
    using bundle_line.request_receipt [OF bundle_uploads(3) [OF assms(1)] assms(2)] by blast
  moreover obtain w where "w \<in> set (releases db)" "receipt_inputs c w"
    using assms(1) c(1) by (auto simp: bundle_ok_def receipts_ok_def)
  ultimately show thesis using that by blast
qed

lemma owned_upload_Inr: "owned_upload sid i course db = Inr r \<Longrightarrow> r \<in> set (uploads db) \<and> bq_student r = sid"
proof -
  assume "owned_upload sid i course db = Inr r"
  then obtain j c where "find (\<lambda>r. bq_id r = j) (own_uploads sid c db) = Some r"
    by (auto simp: owned_upload_def result_simps split: option.split_asm)
  from find_SomeD [OF this] show ?thesis by (simp add: own_uploads_def)
qed

text \<open>What publication needs of a graded upload is there, and only the deadline stands against it.\<close>

lemma graded_rows:
  assumes ok: "bundle_ok sha db" and r: "r \<in> set (uploads db)" "bq_state r = BunGraded"
  obtains w x where "w \<in> set (releases db)" "rl_id w = bq_release r" "find (\<lambda>w. rl_id w = bq_release r) (releases db) = Some w"
    "find (\<lambda>s. bs_request s = bq_id r) (upload_results db) = Some x" "bs_published x = None"
proof -
  obtain w where w: "w \<in> set (releases db)" "rl_id w = bq_release r" by (rule upload_release [OF ok r(1)])
  obtain x where x: "x \<in> set (upload_results db)" "bs_request x = bq_id r" "bs_published x \<noteq> None \<longleftrightarrow> bq_state r = BunPublished"
    by (rule bundle_line.request_result [OF bundle_uploads(3) [OF ok] r(1)]) (simp add: r(2) bundle_scored_def)
  show thesis
    by (rule that [OF w]) (use release_found [OF ok w(1)] result_found [OF ok x(1)] w x r(2) in simp_all)
qed

lemma may_publish_fails:
  assumes "bundle_ok sha db" and "w \<in> set (releases db)" and "may_publish now w = Inl e"
  shows "rl_policy w = PolicyAfterDeadline \<and> (\<exists>due. rl_due w = Some due \<and> now < due) \<and> e = PlatformInvalidTransition"
proof -
  have "release_shape w" using assms(1,2) by (simp add: bundle_ok_def releases_ok_def)
  then show ?thesis
    using assms(3) by (auto simp: may_publish_def release_shape_def window_ok_def demand_def not_le split: if_split_asm option.split_asm)
qed

lemma publish_upload_fails:
  assumes ok: "bundle_ok sha db" and r: "r \<in> set (uploads db)" and e: "transact (publish_upload_body (bq_id r) now) db = (Inl e, db')"
  shows "db' = db \<and> e = PlatformInvalidTransition \<and> (bq_state r \<noteq> BunGraded \<or> (\<exists>w\<in>set (releases db). \<exists>due. rl_id w = bq_release r \<and>
     rl_policy w = PolicyAfterDeadline \<and> rl_due w = Some due \<and> now < due))"
proof (cases "bq_state r = BunGraded")
  case False
  then show ?thesis using e upload_found [OF ok r] by (auto simp: transact_def publish_upload_body_def demand_def)
next
  case True
  from ok r True show ?thesis
  proof (rule graded_rows)
    fix w x
    assume w: "w \<in> set (releases db)" "rl_id w = bq_release r" and f: "find (\<lambda>w. rl_id w = bq_release r) (releases db) = Some w"
      "find (\<lambda>s. bs_request s = bq_id r) (upload_results db) = Some x" "bs_published x = None"
    show ?thesis
    proof (cases "may_publish now w")
      case (Inl e')
      have "db' = db \<and> e = e'"
        using e by (simp add: transact_def publish_upload_body_def demand_def upload_found [OF ok r] f True Inl)
      then show ?thesis using may_publish_fails [OF ok w(1) Inl] w by blast
    next
      case (Inr u)
      then show ?thesis
        using e by (simp add: transact_def publish_upload_body_def demand_def upload_found [OF ok r] f True)
    qed
  qed
qed

section \<open>Instructions\<close>

lemma ensure_original_Some:
  assumes e: "ensure_original sha env course i db = Inr (Some d, db1)"
  shows "current_revision sha env course i db = Inr (Some d)"
    "db1 = (if taken dr_release i (revisions db) then db else db\<lparr>revisions := revisions db @ [d]\<rparr>)"
proof -
  obtain x where c: "current_revision sha env course i db = Inr x" using e by (auto simp: ensure_original_def result_simps)
  show "current_revision sha env course i db = Inr (Some d)"
    "db1 = (if taken dr_release i (revisions db) then db else db\<lparr>revisions := revisions db @ [d]\<rparr>)"
    using e c by (auto simp: ensure_original_def result_simps insert_revision_def split: option.split_asm if_split_asm)
qed

lemma newest_is_latest:
  assumes r: "revisions_ok sha ws (revisions db)" and d: "d \<in> set (revisions db)" "dr_release d = i"
    and n: "dr_revision d + 1 = int (length (release_revisions i (revisions db)))"
  shows "latest_revision i db = Some d"
proof -
  let ?rs = "release_revisions i (revisions db)"
  have m: "d \<in> set ?rs" using d by (simp add: release_revisions_def)
  then obtain e where e: "latest_revision i db = Some e" using latest_revision_None [of i db] by fastforce
  note l = latest_revision_Some [OF r e]
  have "map dr_revision ?rs = map int [0..<length ?rs]" using r by (simp add: revisions_ok_def)
  then have "distinct (map dr_revision ?rs)" by (simp add: distinct_map)
  moreover have "e \<in> set ?rs" using l by (simp add: release_revisions_def)
  ultimately have "e = d" using unique_key [of dr_revision ?rs] m l(3) n by fastforce
  then show ?thesis using e by simp
qed

lemma check_revision_Inr: "check_revision revision content note = Inr (body, why) \<Longrightarrow> body = unix_lines content"
  by (auto simp: check_revision_def)

lemma current_document_Inr:
  "current_document sha env course i db = Inr (Some (d, hist, n)) \<Longrightarrow>
     current_revision sha env course i db = Inr (Some d) \<and> n = dr_revision d + 1"
  by (auto simp: current_document_def result_simps map_option_case split: option.split_asm)

text \<open>The document that was just stored is the current one.\<close>

lemma current_after_revision:
  assumes ok: "bundle_ok sha db" and d: "d \<in> set (revisions db)" "dr_release d = i"
    "dr_revision d + 1 = int (length (release_revisions i (revisions db)))" and w: "course_release i course db = Some w"
  shows "current_revision sha env course i db = Inr (Some d)"
proof -
  have "revisions_ok sha (releases db) (revisions db)" using ok by (simp add: bundle_ok_def)
  then show ?thesis using newest_is_latest [OF _ d] w by (simp add: current_revision_def)
qed

lemma revise_changed:
  assumes ok: "bundle_ok sha db" and c: "current_revision sha env course i db = Inr (Some old)"
    and o: "ensure_original sha env course i db = Inr (x, db1)"
    and j: "insert_revision env (new_revision sha i (dr_revision old + 1) body why now) db1 = Inr db'"
  shows "\<exists>new. db' = db\<lparr>revisions := revisions db @ new\<rparr> \<and>
    (new = [new_revision sha i (dr_revision old + 1) body why now] \<or> new = [old, new_revision sha i (dr_revision old + 1) body why now])"
    "current_revision sha env course i db' = Inr (Some (new_revision sha i (dr_revision old + 1) body why now))"
proof -
  let ?d = "new_revision sha i (dr_revision old + 1) body why now"
  have x: "x = Some old" using o c by (auto simp: ensure_original_def result_simps split: if_split_asm)
  note e = ensure_original_Some [OF o [unfolded x]]
  have db': "db' = db1\<lparr>revisions := revisions db1 @ [?d]\<rparr>" using j by (simp add: insert_revision_def)
  show "\<exists>new. db' = db\<lparr>revisions := revisions db @ new\<rparr> \<and> (new = [?d] \<or> new = [old, ?d])"
    unfolding db' e(2) by (cases "taken dr_release i (revisions db)") auto
  note ch = ensure_original_changes [OF ok o]
  have len: "dr_revision ?d = int (length (release_revisions i (revisions db1)))"
    using ch(3) [OF x] by (simp add: new_revision_def)
  have new: "dr_release ?d = i" by (simp add: new_revision_def)
  obtain w where w: "course_release i course db = Some w" using c by (auto simp: current_revision_def split: option.split_asm)
  then have w': "course_release i course db' = Some w" using ch(2) by (auto simp: db' course_release_def)
  have "bundle_change sha env db1 db'"
    unfolding db' by (rule b_revision) (use ch(2) course_release_taken [OF w] len in \<open>auto simp: new_revision_def\<close>)
  then have "bundle_changes sha env db db'" using ch(1) more_changes by blast
  then have ok': "bundle_ok sha db'" using bundle_changes_sound [OF _ ok] by (simp add: bundle_sound_def)
  show "current_revision sha env course i db' = Inr (Some ?d)"
    by (rule current_after_revision [OF ok' _ new _ w']) (use len new in \<open>simp_all add: db' release_revisions_append\<close>)
qed

lemma record_submission_use:
  assumes e: "record_submission sha env course i request now db = Inr db'" and c: "current_revision sha env course i db = Inr (Some d)"
    and old: "taken dr_release i (revisions db) \<Longrightarrow> d \<in> set (revisions db)"
  shows "d \<in> set (revisions db') \<and> \<lparr>sd_request = request, sd_release = i, sd_revision = dr_revision d, sd_sha = dr_sha d, sd_at = now\<rparr> \<in> set (uses db')"
proof -
  obtain x db1 where o: "ensure_original sha env course i db = Inr (x, db1)"
    using e by (auto simp: record_submission_def result_simps)
  have x: "x = Some d" using o c by (auto simp: ensure_original_def result_simps split: if_split_asm)
  have "d \<in> set (revisions db1)" unfolding ensure_original_Some(2) [OF o [unfolded x]] using old by simp
  then show ?thesis using e o x by (auto simp: record_submission_def)
qed

end
