(* ===== verification/Bundle_Scenario.thy ===== *)
theory Bundle_Scenario
  imports Bundle_Facts Sub_Scenario
begin

text \<open>
  One history of a bundle release: it is registered unseen, checked, shown, downloaded by the student of
  \<open>Auth_Scenario\<close>, and a source bundle is uploaded; then the instructions are revised and the deadline
  extended, the upload is queued, run and graded, and published when the new deadline has passed. Every
  state is the value of the call before it. The digest is the identity.
\<close>

section \<open>Arguments\<close>

definition benv0 :: bundle_env where
  "benv0 = \<lparr>platform = penv0, course_status = (\<lambda>_. Some CourseActive), shown_status = (\<lambda>_. Some CourseActive),
     removed = (\<lambda>_. False), draft_text = (\<lambda>_ _. Some ''task''), claims_accepted = (\<lambda>_ _. [])\<rparr>"

definition sha0 :: "string \<Rightarrow> string" where [simp]: "sha0 t = t"

definition release_args1 :: release_args where
  "release_args1 = \<lparr>ra_id = ''w1'', ra_course = ''cs1'', ra_key = ''hw'', ra_release = ''r1'', ra_title = ''lab'',
     ra_starter = ''src'', ra_starter_digest = hex CHR ''1'', ra_starter_size = 9, ra_assessment = ''tests'',
     ra_assessment_digest = hex CHR ''0'', ra_image = ''pilot-local:v1'', ra_rubric = ''v1'', ra_max = PyInt 10,
     ra_policy = ''after_deadline'', ra_data = None, ra_dataset_digest = '''', ra_opens = None,
     ra_due = Some (DtObj (tm 10)), ra_active = True, ra_ready = False\<rparr>"

definition release1 :: release_row where
  "release1 = \<lparr>rl_id = ''w1'', rl_course = ''cs1'', rl_key = ''hw'', rl_release = ''r1'', rl_title = ''lab'',
     rl_starter = ''src'', rl_starter_digest = ''sha256:'' @ hex CHR ''1'', rl_starter_size = 9, rl_assessment = ''tests'',
     rl_assessment_digest = ''sha256:'' @ hex CHR ''0'', rl_data = None, rl_dataset_digest = '''', rl_image = ''pilot-local:v1'',
     rl_rubric = ''v1'', rl_max = 10, rl_policy = PolicyAfterDeadline, rl_opens = None, rl_due = Some t10, rl_active = True,
     rl_ready = False, rl_created = t9, rl_updated = t9\<rparr>"

definition upload1 :: upload_pin where
  "upload1 = \<lparr>up_request = ''p1'', up_receipt = ''c1'', up_source = ''src'', up_digest = hex CHR ''7'', up_size = 5\<rparr>"

definition uploaded1 :: upload_pin where
  "uploaded1 = upload1\<lparr>up_digest := ''sha256:'' @ hex CHR ''7''\<rparr>"

lemma release_arguments [simp]:
  "policy_arg ''after_deadline'' = Inr PolicyAfterDeadline"
  by (simp add: policy_arg_def enum_value_def lift_def)

lemma sizes [simp]: "0 \<le> n \<Longrightarrow> size_arg n = Inr n"
  by (simp add: size_arg_def demand_def)

lemma benv0_fields [simp]:
  "bundle_stamp benv0 v = stamp env0 v" "platform benv0 = penv0" "\<not> removed benv0 i" "\<not> course_closed benv0 c"
  "course_status benv0 c = Some CourseActive" "shown_status benv0 c = Some CourseActive" "draft_text benv0 c i = Some ''task''"
  by (simp_all add: bundle_stamp_def benv0_def course_closed_def)

lemma clock0 [simp]: "stamp env0 None = Inr t9"
proof -
  have "stamp env0 None = stamp env0 (Some (DtObj (clock env0)))" by (simp add: stamp_def utc_iso_def utc_parse_def)
  then show ?thesis by (simp add: env0_def [THEN arg_cong, of clock])
qed

lemma check_release1: "check_release benv0 release_args1 at9 = Inr release1"
  by (simp add: check_release_def release_args1_def release1_def optional_arg_def window_ok_def demand_def)

lemma check_upload1 [simp]: "check_upload upload1 = Inr uploaded1"
  by (simp add: check_upload_def upload1_def uploaded1_def)

section \<open>The history\<close>

definition b0 :: bundle_db where "b0 = init_bundles\<lparr>base := p0\<rparr>"
definition b1 :: bundle_db where "b1 = b0\<lparr>releases := [release1]\<rparr>"

definition check1 :: check_row where
  "check1 = \<lparr>ck_id = 1, ck_release = ''w1'', ck_status = CheckPending, ck_details = ''{}'', ck_created = t9, ck_completed = None\<rparr>"
definition checked1 :: check_row where "checked1 = close_check True ''{}'' t9 check1"

definition shown1 :: release_row where "shown1 = show_release t9 release1"
definition moved1 :: release_row where "moved1 = move_deadline t12 t9 shown1"

definition b3 :: bundle_db where "b3 = b1\<lparr>checks := [checked1]\<rparr>"
definition b4 :: bundle_db where "b4 = b3\<lparr>releases := [shown1]\<rparr>"

definition download1 :: download_row where
  "download1 = \<lparr>dl_id = ''d1'', dl_student = 1, dl_course = ''cs1'', dl_session = ''s1'', dl_release = ''w1'',
     dl_digest = ''sha256:'' @ hex CHR ''1'', dl_platform = None, dl_at = t9\<rparr>"

definition pseen :: platform_db where "pseen = p0\<lparr>auth := seen5\<rparr>"

definition b5 :: bundle_db where "b5 = b4\<lparr>base := pseen, downloads := [download1]\<rparr>"

definition accepted1 :: upload_row where "accepted1 = new_upload uploaded1 1 ''s1'' scall1 t9"
definition pinned_upload1 :: upload_receipt where "pinned_upload1 = new_upload_receipt uploaded1 accepted1 shown1 t9"
definition original1 :: revision_row where "original1 = original_revision sha0 shown1 ''task''"
definition use1 :: use_row where
  "use1 = \<lparr>sd_request = ''p1'', sd_release = ''w1'', sd_revision = 0, sd_sha = ''task'', sd_at = t9\<rparr>"

definition b6 :: bundle_db where
  "b6 = b5\<lparr>uploads := [accepted1], upload_keys := [new_key 1 scall1 ''p1'' t9],
     admissions := [\<lparr>bn_student = 1, bn_course = ''cs1'', bn_day = take 10 t9, bn_attempts = 1, bn_updated = t9\<rparr>],
     upload_receipts := [pinned_upload1], revisions := [original1], uses := [use1]\<rparr>"

definition revised1 :: revision_row where "revised1 = new_revision sha0 ''w1'' 1 ''task two'' ''typo'' t9"
definition b7 :: bundle_db where "b7 = b6\<lparr>revisions := [original1, revised1]\<rparr>"

definition extension1 :: deadline_row where
  "extension1 = \<lparr>dc_id = 1, dc_release = ''w1'', dc_old = t10, dc_new = t12, dc_actor = ''lab'', dc_reason = ''key'', dc_created = t9\<rparr>"
definition b8 :: bundle_db where "b8 = b7\<lparr>releases := [moved1], deadlines := [extension1]\<rparr>"

definition waiting1 :: upload_row where "waiting1 = move_upload BunQueued t9 None None accepted1"
definition working1 :: upload_row where "working1 = move_upload BunRunning t9 None None waiting1"
definition scored1 :: upload_row where "scored1 = advance_upload BunGraded t9 working1"
definition visible1 :: upload_row where "visible1 = advance_upload BunPublished t12 scored1"
definition score1 :: upload_result where
  "score1 = new_upload_result ''x1'' working1 pinned_upload1 7 10 ''{}'' ''[]'' t9"

definition b9 :: bundle_db where "b9 = b8\<lparr>uploads := [waiting1]\<rparr>"
definition b10 :: bundle_db where "b10 = b8\<lparr>uploads := [working1]\<rparr>"
definition b11 :: bundle_db where "b11 = b8\<lparr>uploads := [scored1], upload_results := [score1]\<rparr>"
definition b12 :: bundle_db where "b12 = b8\<lparr>uploads := [visible1], upload_results := [publish_upload_row t12 score1]\<rparr>"

lemmas bundle_rows = release1_def shown1_def moved1_def show_release_def move_deadline_def check1_def checked1_def close_check_def
  accepted1_def new_upload_def new_upload_receipt_def pinned_upload1_def upload1_def uploaded1_def original1_def
  original_revision_def revised1_def new_revision_def waiting1_def working1_def scored1_def visible1_def move_upload_def
  advance_upload_def score1_def new_upload_result_def publish_upload_row_def scall1_def new_key_def

lemma b0_fields [simp]:
  "base b0 = p0" "releases b0 = []" "checks b0 = []" "deadlines b0 = []" "downloads b0 = []" "uploads b0 = []"
  "upload_keys b0 = []" "admissions b0 = []" "upload_receipts b0 = []" "upload_results b0 = []" "revisions b0 = []" "uses b0 = []"
  by (simp_all add: b0_def init_bundles_def)

lemma bcall1: "register_bundle_assignment_release benv0 release_args1 at9 b0 = (Inr release1, b1)"
  by (simp add: register_bundle_assignment_release_def guard_pass [OF check_release1] transact_def register_release_body_def
      insert_release_def demand_def b1_def)

lemma bcall2: "begin_bundle_release_check benv0 ''w1'' ''cs1'' b1 = (Inr 1, b1\<lparr>checks := [check1]\<rparr>)"
  by (simp add: begin_bundle_release_check_def transact_def course_release_def not_removed_def demand_def b1_def next_id_def
      bundle_rows)

lemma empty_details [simp]: "rubric_arg (Some []) = Inr ''{}''"
  using no_details(1) by (simp add: rubric_arg_def)

lemma bcall3: "finish_bundle_release_check benv0 1 True [] (b1\<lparr>checks := [check1]\<rparr>) = (Inr (), b3)"
  by (simp add: finish_bundle_release_check_def transact_def demand_def update_where_code b3_def bundle_rows)

lemma checked1_passed: "checked_release ''w1'' b3"
  by (simp add: checked_release_def last_check_def b3_def sort_down_def bundle_rows)

lemma bcall4: "publish_validated_bundle_assignment benv0 ''w1'' ''cs1'' b3 = (Inr shown1, b4)"
  using checked1_passed
  by (simp add: publish_validated_bundle_assignment_def transact_def publish_release_body_def course_release_def not_removed_def
      not_erased_def demand_def set_release_def update_where_code b3_def b4_def b1_def bundle_rows)

lemma token1_any:
  assumes "stamp e (Some (DtText t9)) = Inr t9" and "a = a5 \<or> a = seen5"
  shows "authorize_access_token e (hex CHR ''4'') ''cs1'' (Some (DtText t9)) True a = (Inr (touch_session t9 session1, student1), seen5)"
  using assms(2)
  by (auto simp: authorize_access_token_def call authorize_body_def access_row_def active_enrollment_def a5_def seen5_def
      update_where_code rows assms(1) touch_session_def)

lemma admitted1:
  assumes "auth (base db) = a5 \<or> auth (base db) = seen5"
  shows "admitted benv0 (hex CHR ''4'') ''cs1'' (Some (DtText t9)) f db = f (touch_session t9 session1) student1 (set_auth seen5 db)"
  unfolding admitted_def by (subst token1_any) (use assms in simp_all)

lemma b4_fields [simp]:
  "base b4 = p0" "releases b4 = [shown1]" "checks b4 = [checked1]" "deadlines b4 = []" "downloads b4 = []" "uploads b4 = []"
  "upload_keys b4 = []" "admissions b4 = []" "upload_receipts b4 = []" "upload_results b4 = []" "revisions b4 = []" "uses b4 = []"
  by (simp_all add: b4_def b3_def b1_def)

lemma students1 [simp]: "se_id session1 = ''s1''" "st_id student1 = 1"
  by (simp_all add: rows)

lemma session1_stands: "auth (base db) = seen5 \<Longrightarrow> bundle_session ''s1'' 1 (hex CHR ''4'') ''cs1'' t9 db"
  using stands1 enrolled1 by (simp add: bundle_session_def)

lemma bcall5: "record_bundle_download benv0 ''d1'' (hex CHR ''4'') ''cs1'' ''w1'' None at9 b4 = (Inr download1, b5)"
proof -
  have s: "bundle_session ''s1'' 1 (hex CHR ''4'') ''cs1'' t9 (set_auth seen5 b4)" by (rule session1_stands) simp
  have e: "enrolled 1 ''cs1'' (base (set_auth seen5 b4))" by (rule enrolled1) simp
  have "set_auth seen5 b4 = b4\<lparr>base := pseen\<rparr>" by (simp add: set_auth_def pseen_def)
  then show ?thesis
    using s e
    by (simp add: record_bundle_download_def call optional_arg_def admitted1 download_body_def public_release_def begun_def Let_def)
      (simp add: b5_def download1_def bundle_rows)
qed

lemma b5_fields [simp]:
  "base b5 = pseen" "releases b5 = [shown1]" "checks b5 = [checked1]" "deadlines b5 = []" "downloads b5 = [download1]" "uploads b5 = []"
  "upload_keys b5 = []" "admissions b5 = []" "upload_receipts b5 = []" "upload_results b5 = []" "revisions b5 = []" "uses b5 = []"
  by (simp_all add: b5_def)

lemma pseen_auth [simp]: "auth pseen = seen5" "base db = pseen \<Longrightarrow> set_auth seen5 db = db"
  by (simp_all add: pseen_def set_auth_def)

lemma admissible1: "admissible t9 ''w1'' ''cs1'' 1 b5 = Some shown1"
  using enrolled1 [of pseen] by (simp add: admissible_def release_open_def public_release_def begun_def bundle_rows)

lemma sql_lengths: "sql_length ''task'' \<le> 20000"
  by (simp add: sql_length_def)

lemma bcall6: "create_accepted_bundle_submission sha0 benv0 scall1 upload1 3 50 at9 b5 = (Inr (accepted1, False), b6)"
proof -
  let ?counted = "b5\<lparr>admissions := [\<lparr>bn_student = 1, bn_course = ''cs1'', bn_day = take 10 t9, bn_attempts = 1, bn_updated = t9\<rparr>]\<rparr>"
  let ?db = "?counted\<lparr>uploads := [accepted1], upload_keys := [new_key 1 scall1 ''p1'' t9],
    upload_receipts := [pinned_upload1]\<rparr>"
  have n: "count_admission 1 ''cs1'' (take 10 t9) t9 b5 = ?counted" by (simp add: count_admission_def)
  have c: "current_revision sha0 benv0 ''cs1'' ''w1'' ?db = Inr (Some original1)"
    by (simp add: current_revision_def course_release_def latest_revision_def original1_def)
      (simp add: bundle_rows)
  have r: "record_submission sha0 benv0 ''cs1'' ''w1'' ''p1'' t9 ?db = Inr b6"
    by (simp add: record_submission_def ensure_original_def c insert_revision_def demand_def)
      (simp add: original1_def original_revision_def note_fits_def sql_length_def b6_def use1_def)
  have f: "bq_id accepted1 = ''p1''" "rl_course shown1 = ''cs1''" "bc_course pinned_upload1 = ''cs1''" "sc_course scall1 = ''cs1''"
    "sc_work scall1 = ''w1''" "sc_access scall1 = hex CHR ''4''" by (simp_all add: bundle_rows)
  have s: "store_upload sha0 benv0 scall1 uploaded1 shown1 ''s1'' 1 t9 b5 = Inr (accepted1, b6)"
    by (simp add: store_upload_def Let_def insert_upload_def insert_upload_receipt_def not_erased_def demand_def
        count_admission_commutes n accepted1_def [symmetric] pinned_upload1_def [symmetric] f r as_conflict_def)
  have "bundle_session ''s1'' 1 (hex CHR ''4'') ''cs1'' t9 b5" by (rule session1_stands) simp
  then show ?thesis
    using s admissible1
    by (simp add: create_accepted_bundle_submission_def call admitted1 f admit_upload_body_def stored_upload_def
        outstanding_uploads_def admissions_of_def)
qed

lemma b6_fields [simp]:
  "base b6 = pseen" "releases b6 = [shown1]" "checks b6 = [checked1]" "deadlines b6 = []" "downloads b6 = [download1]"
  "uploads b6 = [accepted1]" "upload_receipts b6 = [pinned_upload1]" "upload_results b6 = []" "revisions b6 = [original1]"
  "uses b6 = [use1]" "upload_keys b6 = [new_key 1 scall1 ''p1'' t9]"
  by (simp_all add: b6_def)

lemma revision_texts:
  "check_revision 0 ''task two'' ''typo'' = Inr (''task two'', ''typo'')"
  unfolding check_revision_def by code_simp

lemma bcall7: "update_assignment_document sha0 benv0 ''cs1'' ''w1'' 0 ''task two'' ''typo'' b6 =
    (Inr (Some (revised1, [metadata revised1, metadata original1], 2)), b7)"
proof -
  have i: "rl_id shown1 = ''w1''" "rl_course shown1 = ''cs1''" by (simp_all add: bundle_rows)
  have d: "dr_release original1 = ''w1''" "dr_revision original1 = 0" "dr_sha original1 = ''task''"
    "dr_release revised1 = ''w1''" "dr_revision revised1 = 1" by (simp_all add: bundle_rows)
  have o: "latest_revision ''w1'' b6 = Some original1" "latest_revision ''w1'' b7 = Some revised1"
    by (simp_all add: latest_revision_def sort_down_def b7_def d)
  have b7: "releases b7 = [shown1]" by (simp add: b7_def)
  have c: "current_revision sha0 benv0 ''cs1'' ''w1'' b6 = Inr (Some original1)"
    "current_revision sha0 benv0 ''cs1'' ''w1'' b7 = Inr (Some revised1)"
    by (simp_all add: current_revision_def course_release_def o i b7)
  have h: "revision_history ''w1'' revised1 b7 = [metadata revised1, metadata original1]"
    by (simp add: revision_history_def o sort_down_def) (simp add: b7_def d)
  have n: "insert_revision benv0 revised1 b6 = Inr b7"
    by (simp add: insert_revision_def demand_def revision_key_def d)
      (simp add: revised1_def new_revision_def note_fits_def sql_length_def b7_def)
  have e: "ensure_original sha0 benv0 ''cs1'' ''w1'' b6 = Inr (Some original1, b6)"
    by (simp add: ensure_original_def c d)
  show ?thesis
    by (simp add: update_assignment_document_def call update_document_body_def course_release_def not_removed_def i revise_def
        revision_texts c d e revised1_def [symmetric] n current_document_def h)
qed

lemma bcall8: "extend_bundle_deadline benv0 ''w1'' ''cs1'' (DtObj (tm 12)) ''key'' ''lab'' at9 b7 = (Inr moved1, b8)"
  by (simp add: extend_bundle_deadline_def call extend_body_def course_release_def not_removed_def not_erased_def set_release_def
      update_where_code b7_def next_id_def)
    (simp add: b8_def b7_def extension1_def next_id_def not_erased_def demand_def set_release_def update_where_code bundle_rows)

lemma b8_fields [simp]:
  "base b8 = pseen" "releases b8 = [moved1]" "deadlines b8 = [extension1]" "uploads b8 = [accepted1]"
  "upload_receipts b8 = [pinned_upload1]" "upload_results b8 = []" "revisions b8 = [original1, revised1]" "uses b8 = [use1]"
  by (simp_all add: b8_def b7_def)

lemma bundle_arguments [simp]:
  "bundle_state_arg ''queued'' = Inr BunQueued" "bundle_state_arg ''running'' = Inr BunRunning"
  by (simp_all add: bundle_state_arg_def enum_value_def bundle_states_def lift_def)

lemma bcall9: "transition_bundle_submission benv0 ''p1'' ''queued'' None None at9 b8 = (Inr waiting1, b9)"
  by (simp add: transition_bundle_submission_def call bundle_details_def bundle_failed_def transition_upload_body_def
      set_upload_def update_where_code b9_def)
    (simp add: bundle_rows)

lemma bcall10: "transition_bundle_submission benv0 ''p1'' ''running'' None None at9 b9 = (Inr working1, b10)"
  by (simp add: transition_bundle_submission_def call bundle_details_def bundle_failed_def transition_upload_body_def
      set_upload_def update_where_code b9_def b10_def)
    (simp add: bundle_rows)

lemma bcall11: "record_bundle_graded_result benv0 ''p1'' ''x1'' (PyInt 7) (PyInt 10) None None at9 b10 = (Inr (scored1, score1), b11)"
  by (simp add: record_bundle_graded_result_def call grade_upload_body_def insert_upload_result_def set_upload_def
      update_where_code b10_def b11_def Let_def)
    (simp add: bundle_rows)

text \<open>At the first deadline the result still waits.\<close>

lemma bcall_early: "publish_bundle_result benv0 ''p1'' (Some (DtObj (tm 10))) b11 = (Inl PlatformInvalidTransition, b11)"
  by (simp add: publish_bundle_result_def call publish_upload_body_def may_publish_def b11_def)
    (simp add: demand_def bundle_rows not_le)

lemma bcall12: "publish_bundle_result benv0 ''p1'' (Some (DtObj (tm 12))) b11 = (Inr (visible1, publish_upload_row t12 score1), b12)"
  by (simp add: publish_bundle_result_def call publish_upload_body_def may_publish_def b11_def b12_def set_upload_def
      update_where_code)
    (simp add: demand_def bundle_rows not_le)

lemma bcall13: "get_owned_bundle_result benv0 (hex CHR ''4'') ''cs1'' ''p1'' (Some (DtText t9)) b12 =
    (Inr (publish_upload_row t12 score1), b12)"
proof -
  have b: "base b12 = pseen" "uploads b12 = [visible1]" "releases b12 = [moved1]" "upload_results b12 = [publish_upload_row t12 score1]"
    by (simp_all add: b12_def)
  have e: "enrolled 1 ''cs1'' pseen" by (rule enrolled1) simp
  show ?thesis
    by (simp add: get_owned_bundle_result_def admitted1 b owned_upload_def own_uploads_def e)
      (simp add: bundle_rows)
qed

section \<open>It is a history\<close>

text \<open>As long as nothing was uploaded or downloaded, a history of the components below is one of the whole
  store.\<close>

lemma base_history:
  "platform_later a b \<Longrightarrow> base db = a \<Longrightarrow> uploads db = [] \<Longrightarrow> downloads db = [] \<Longrightarrow> bundle_later sha db (db\<lparr>base := b\<rparr>)"
proof (induction rule: platform_later.induct)
  case (platform_now a)
  then have "db\<lparr>base := a\<rparr> = db" by simp
  then show ?case by (simp add: bundle_now)
next
  case (platform_next a a1 env a2)
  let ?e = "\<lparr>platform = env, course_status = \<lambda>c. Some (if closed (logins env) c then CourseArchived else CourseActive),
    shown_status = \<lambda>_. None, removed = \<lambda>_. False, draft_text = \<lambda>_ _. None, claims_accepted = \<lambda>_ _. []\<rparr>"
  have "course_closed ?e = closed (logins env)" by (rule ext) (simp add: course_closed_def)
  then have "base_env ?e (db\<lparr>base := a1\<rparr>) = env" using platform_next.prems by (simp add: base_env_def session_used_def)
  then have "bundle_step sha ?e (db\<lparr>base := a1\<rparr>) ((db\<lparr>base := a1\<rparr>)\<lparr>base := a2\<rparr>)"
    using platform_next.hyps(2) by (intro bs_base) simp
  then show ?case using platform_next.IH [OF platform_next.prems] bundle_next by fastforce
qed

lemma bundle_call: "p = (r, db') \<Longrightarrow> bundle_later sha a db \<Longrightarrow> bundle_step sha env db (snd p) \<Longrightarrow> bundle_later sha a db'"
  by (auto intro: bundle_next)

lemma bundle0: "bundle_later sha init_bundles b0"
  unfolding b0_def by (rule base_history [OF platform0]) (simp_all add: init_bundles_def)

lemma bundle3: "bundle_later sha init_bundles b3"
  by (rule bundle_call [OF bcall3 bundle_call [OF bcall2 bundle_call [OF bcall1 bundle0 bs_register] bs_begin_check] bs_finish_check])

lemma bundle5: "bundle_later sha init_bundles b5"
  by (rule bundle_call [OF bcall5 bundle_call [OF bcall4 bundle3 bs_show] bs_download])

lemma bundle6: "bundle_later sha0 init_bundles b6"
  by (rule bundle_call [OF bcall6 bundle5 bs_admit])

lemma bundle68: "bundle_later sha0 b6 b8"
  by (rule bundle_call [OF bcall8 bundle_call [OF bcall7 bundle_now bs_revise] bs_extend])

lemma bundle610: "bundle_later sha0 b6 b10"
  by (rule bundle_call [OF bcall10 bundle_call [OF bcall9 bundle68 bs_transition] bs_transition])

lemma bundle_later_trans: "bundle_later sha b c \<Longrightarrow> bundle_later sha a b \<Longrightarrow> bundle_later sha a c"
  by (induction rule: bundle_later.induct) (auto intro: bundle_next)

lemma bundle1012: "bundle_later sha0 b10 b12"
  by (rule bundle_call [OF bcall12 bundle_call [OF bcall11 bundle_now bs_grade] bs_publish])

lemmas bundle10 = bundle_later_trans [OF bundle610 bundle6]
lemmas bundle12 = bundle_later_trans [OF bundle1012 bundle10]

lemma bundle11: "bundle_later sha0 init_bundles b11"
  by (rule bundle_call [OF bcall11 bundle10 bs_grade])

end
