(* ===== verification/Bundle_Properties.thy ===== *)
theory Bundle_Properties
  imports Bundle_Scenario
begin

text \<open>
  The properties of bundle releases, uploads and instructions, each with its witness on the history of
  \<open>Bundle_Scenario\<close>.
\<close>

section \<open>Every reachable state\<close>

text \<open>C26: In every state that the operations reach, in any order and with other calls between the check
  of an access token and the transaction that follows, the tables of bundle delivery fit together: a
  release is the only one of its course, key and version, and a result that waits for the deadline has a
  deadline to wait for; checks and deadline changes are numbered without a gap; a download and an upload
  belong to a student of the course with a session in it; every upload has one idempotency key and one
  receipt, which pins the inputs of its release; a graded upload has one result, within the pinned
  maximum, visible exactly when it is published; the revisions of the instructions are numbered from
  zero and each submission records one of them.\<close>

theorem bundles_consistent:
  assumes "bundle_later sha init_bundles db"
  shows "bundle_ok sha db"
  using assms by (rule reached_bundle_ok)

lemma bundles_consistent_witness: "bundle_ok sha0 b12"
  using bundles_consistent [OF bundle12] .

lemma reached_kept: "bundle_later sha init_bundles db \<Longrightarrow> bundle_later sha db db' \<Longrightarrow> bundle_ok sha db' \<and> bundle_kept db db'"
  using bundle_later_sound [OF _ reached_bundle_ok] by (simp add: bundle_sound_def)

text \<open>C27: Nothing a student handed in is taken back. In every later state an upload is still there, with
  its student, release, digest and time; its row is the same or its state moved along the transition
  table; its receipt stands unchanged and still pins the inputs of the release, which at most got a later
  deadline; and its result stands, but that an unpublished one may have been published.\<close>

theorem bundle_receipts_stand:
  assumes "bundle_later sha init_bundles db" and "bundle_later sha db db'" and "r \<in> set (uploads db)"
  shows "(\<exists>r'\<in>set (uploads db'). upload_same r r' \<and> (r' = r \<or> upload_moves\<^sup>+\<^sup>+ (bq_state r) (bq_state r'))) \<and>
    (\<exists>c\<in>set (upload_receipts db). upload_pins c r \<and> c \<in> set (upload_receipts db') \<and>
       (\<exists>w\<in>set (releases db'). receipt_inputs c w)) \<and>
    (\<forall>x\<in>set (upload_results db). bs_request x = bq_id r \<longrightarrow>
       (\<exists>x'\<in>set (upload_results db'). x' = x \<or> (bs_published x = None \<and> (\<exists>t. x' = publish_upload_row t x))))"
proof -
  have k: "bundle_kept db db'" and ok': "bundle_ok sha db'" using reached_kept [OF assms(1,2)] by simp_all
  obtain c w where c: "c \<in> set (upload_receipts db)" "upload_pins c r"
    using upload_receipt [OF reached_bundle_ok [OF assms(1)] assms(3)] by blast
  moreover have c': "c \<in> set (upload_receipts db')" using k c(1) set_mono_prefix by (auto simp: bundle_kept_def)
  moreover have "\<exists>w\<in>set (releases db'). receipt_inputs c w" using ok' c' by (simp add: bundle_ok_def receipts_ok_def)
  moreover have "rows_later upload_later (uploads db) (uploads db')"
    "rows_later upload_result_later (upload_results db) (upload_results db')" using k by (simp_all add: bundle_kept_def)
  ultimately show ?thesis using assms(3) unfolding rows_later_def upload_later_def upload_result_later_def by blast
qed

lemma bundle_receipts_stand_witness:
  "\<exists>r'\<in>set (uploads b12). upload_same working1 r' \<and> (r' = working1 \<or> upload_moves\<^sup>+\<^sup>+ BunRunning (bq_state r'))"
proof -
  have "working1 \<in> set (uploads b10)" "bq_state working1 = BunRunning" by (simp_all add: b10_def working1_def move_upload_def)
  then show ?thesis using bundle_receipts_stand [OF bundle10 bundle1012] by metis
qed

section \<open>Deadlines\<close>

text \<open>C28: A deadline never moves silently or backwards. In every later state a release is the same but for
  its switches and its deadline, and the deadline went exactly along the deadline changes recorded for
  it since, each from the deadline before it to a later one.\<close>

theorem deadline_audited:
  assumes "bundle_later sha init_bundles db" and "bundle_later sha db db'" and "w \<in> set (releases db)"
  shows "\<exists>w'\<in>set (releases db'). \<exists>new. release_same w w' \<and> deadlines db' = deadlines db @ new \<and>
    moves_along (rl_due w) (filter (\<lambda>d. dc_release d = rl_id w) new) (rl_due w')"
  using reached_kept [OF assms(1,2)] assms(3) unfolding bundle_kept_def releases_kept_def release_later_def by blast

lemma deadline_audited_witness:
  "\<exists>new. deadlines b8 = new \<and> moves_along (Some t10) (filter (\<lambda>d. dc_release d = ''w1'') new) (Some t12)"
proof -
  have m: "shown1 \<in> set (releases b6)" "releases b8 = [moved1]" "deadlines b6 = []" by simp_all
  have "rl_due shown1 = Some t10" "rl_due moved1 = Some t12" "rl_id shown1 = ''w1''" by (simp_all add: bundle_rows)
  then show ?thesis using deadline_audited [OF bundle6 bundle68 m(1)] m(2,3) by auto
qed

text \<open>C29: Results wait for the deadline, also for one that was extended meanwhile. In every reachable state
  a published result of a release that shows results after the deadline was published no earlier than
  the deadline the release has now.\<close>

theorem result_waits_for_deadline:
  assumes "bundle_later sha init_bundles db" and "x \<in> set (upload_results db)" and "bs_published x = Some t"
    and "r \<in> set (uploads db)" and "bs_request x = bq_id r" and "w \<in> set (releases db)" and "rl_id w = bq_release r"
    and "rl_policy w = PolicyAfterDeadline"
  shows "\<exists>due. rl_due w = Some due \<and> due \<le> t"
  using upload_waited [OF reached_bundle_ok [OF assms(1)] assms(2)] assms(3-8) unfolding waited_def by blast

lemma result_waits_for_deadline_witness: "\<exists>due. rl_due moved1 = Some due \<and> due \<le> t12"
proof -
  have "publish_upload_row t12 score1 \<in> set (upload_results b12)" "visible1 \<in> set (uploads b12)" "moved1 \<in> set (releases b12)"
    by (simp_all add: b12_def)
  moreover have "bs_published (publish_upload_row t12 score1) = Some t12" "bs_request (publish_upload_row t12 score1) = bq_id visible1"
    "rl_id moved1 = bq_release visible1" "rl_policy moved1 = PolicyAfterDeadline"
    by (simp_all add: bundle_rows)
  ultimately show ?thesis by (intro result_waits_for_deadline [OF bundle12])
qed

text \<open>C30: Publication fails for what the caller asked only. In every reachable state it raises for an
  argument that is not valid, for an upload that does not exist, for one that is not graded, or because
  the deadline of its release has not passed; it never meets a missing row or a missing deadline; and a
  call that raises changes nothing.\<close>

theorem publication_errors:
  assumes "bundle_later sha init_bundles db" and "publish_bundle_result env i when_v db = (Inl e, db')"
  shows "db' = db \<and> (text_arg i = Inl e \<or> bundle_stamp env when_v = Inl e \<or>
    (\<exists>j. text_arg i = Inr j \<and> j \<notin> bq_id ` set (uploads db) \<and> e = PlatformNotFound) \<or>
    (\<exists>r\<in>set (uploads db). text_arg i = Inr (bq_id r) \<and> e = PlatformInvalidTransition \<and>
       (bq_state r \<noteq> BunGraded \<or> (\<exists>w\<in>set (releases db). \<exists>due now. rl_id w = bq_release r \<and>
          rl_policy w = PolicyAfterDeadline \<and> rl_due w = Some due \<and> bundle_stamp env when_v = Inr now \<and> now < due))))"
proof -
  note ok = reached_bundle_ok [OF assms(1)]
  show ?thesis
  proof (cases "text_arg i = Inl e \<or> bundle_stamp env when_v = Inl e")
    case True
    then show ?thesis using assms(2) by (auto simp: publish_bundle_result_def guard_def split: sum.split_asm)
  next
    case False
    then obtain j now where i: "text_arg i = Inr j" and n: "bundle_stamp env when_v = Inr now"
      and b: "transact (publish_upload_body j now) db = (Inl e, db')"
      using assms(2) by (auto simp: publish_bundle_result_def guard_def split: sum.split_asm)
    show ?thesis
    proof (cases "find (\<lambda>r. bq_id r = j) (uploads db)")
      case None
      then have "j \<notin> bq_id ` set (uploads db)" by (auto simp: find_None_iff)
      then show ?thesis using b i None by (simp add: transact_def publish_upload_body_def)
    next
      case (Some r)
      then have r: "r \<in> set (uploads db)" "bq_id r = j" using find_SomeD by fastforce+
      then show ?thesis using publish_upload_fails [OF ok r(1)] b i n by metis
    qed
  qed
qed

lemma publication_errors_witness:
  "\<exists>w\<in>set (releases b11). \<exists>due. rl_due w = Some due \<and> t10 < due"
proof -
  have u: "uploads b11 = [scored1]" by (simp add: b11_def)
  have s: "bq_state scored1 = BunGraded" by (simp add: bundle_rows)
  show ?thesis using publication_errors [OF bundle11 bcall_early] by (simp add: u s) metis
qed

section \<open>Admission\<close>

lemma outstanding_new_upload:
  assumes "w \<in> set (releases db)" "rl_id w = bq_release r" "bq_state r = BunAccepted"
    and "uploads db' = uploads db @ [r]" "releases db' = releases db"
  shows "outstanding_uploads (bq_student r) (rl_course w) db' = outstanding_uploads (bq_student r) (rl_course w) db + 1"
  using assms by (auto simp: outstanding_uploads_def unfinished_def)

lemma upload_stored:
  assumes "store_upload sha env c p w session sid now db = Inr (r, db')"
  shows "r = new_upload p sid session c now" "uploads db' = uploads db @ [r]"
    "upload_receipts db' = upload_receipts db @ [new_upload_receipt p r w now]" "releases db' = releases db"
    "admissions_of sid (sc_course c) (take 10 now) db' = admissions_of sid (sc_course c) (take 10 now) db + 1"
    "\<not> course_closed env (rl_course w)" "upload_keys db' = upload_keys db @ [new_key sid c (bq_id r) now]"
proof -
  obtain db2 where r: "r = new_upload p sid session c now" and n: "\<not> course_closed env (rl_course w)"
    and db2: "db2 = (count_admission sid (sc_course c) (take 10 now) now db)\<lparr>uploads := uploads db @ [r],
        upload_keys := upload_keys db @ [new_key sid c (bq_id r) now],
        upload_receipts := upload_receipts db @ [new_upload_receipt p r w now]\<rparr>"
    and e: "record_submission sha env (sc_course c) (sc_work c) (bq_id r) now db2 = Inr db'"
    by (rule store_upload_Inr [OF assms])
  note f = record_submission_fields [OF e]
  have "admissions db' = admissions (count_admission sid (sc_course c) (take 10 now) now db)" by (simp add: f db2)
  then show "admissions_of sid (sc_course c) (take 10 now) db' = admissions_of sid (sc_course c) (take 10 now) db + 1"
    using counted_admission [of sid "sc_course c" "take 10 now" now db] by (simp add: admissions_of_def)
  show "r = new_upload p sid session c now" "\<not> course_closed env (rl_course w)" using r n by simp_all
  show "uploads db' = uploads db @ [r]" "upload_receipts db' = upload_receipts db @ [new_upload_receipt p r w now]"
    "releases db' = releases db" "upload_keys db' = upload_keys db @ [new_key sid c (bq_id r) now]"
    by (simp_all add: f db2)
qed

lemma bears_normal: "check_call call = Inr c \<Longrightarrow> bears db (sc_access c) s \<Longrightarrow> bears db (sc_access call) s"
  using check_call_Inr verifier_normal by (fastforce simp: bears_def)

text \<open>C31: A new upload is admitted only from a live session of its student, for a release of the
  session's course that is shown, begun and not yet due at the time of the transaction, while the course
  is active and the student enrolled. It is stored as accepted, with the receipt that pins the inputs
  and the deadline of the release as they are now; and afterwards the student has no more unfinished
  uploads in the course, and no more attempts in it that day, than the limits.\<close>

theorem bundle_admission_sound:
  assumes "create_accepted_bundle_submission sha env call upload most_open most_daily when_v db = (Inr (r, False), db')"
  shows "\<exists>now w s c. bundle_stamp env when_v = Inr now \<and> w \<in> set (releases db) \<and> rl_id w = bq_release r \<and> release_open now w \<and>
    \<not> course_closed env (rl_course w) \<and> bears db (sc_access call) s \<and> se_student s = bq_student r \<and> se_id s = bq_session r \<and>
    se_course s = rl_course w \<and> enrolled (bq_student r) (rl_course w) (base db) \<and> bq_state r = BunAccepted \<and>
    uploads db' = uploads db @ [r] \<and> upload_receipts db' = upload_receipts db @ [c] \<and> upload_pins c r \<and>
    receipt_inputs c w \<and> bc_due c = rl_due w \<and> bc_accepted c = now \<and>
    outstanding_uploads (bq_student r) (rl_course w) db' \<le> most_open \<and>
    admissions_of (bq_student r) (rl_course w) (take 10 now) db' =
      admissions_of (bq_student r) (rl_course w) (take 10 now) db + 1 \<and>
    admissions_of (bq_student r) (rl_course w) (take 10 now) db' \<le> most_daily"
  using assms
proof (rule upload_shape)
  fix p c now a s0 and s :: session_row and q :: student_row
  assume k: "check_call call = Inr c" and n: "bundle_stamp env when_v = Inr now"
    and s0: "bears db (sc_access c) s0" "se_student s0 = st_id q" "se_id s0 = se_id s"
    and course: "text_arg (sc_course c) = Inr (se_course s0)" and e: "enrolled (st_id q) (se_course s0) (base db)"
    and b: "admit_upload_body sha env c p most_open most_daily (se_id s) (st_id q) now (set_auth a db) = Inr (Inr (r, False), db')"
  have sc: "se_course s0 = sc_course c" using check_call_Inr [OF k] text_normal course by fastforce
  from b show ?thesis
  proof (rule admitted_upload)
    fix w
    assume w: "admissible now (sc_work c) (sc_course c) (st_id q) (set_auth a db) = Some w"
      and o: "outstanding_uploads (st_id q) (sc_course c) (set_auth a db) < most_open"
      and d: "admissions_of (st_id q) (sc_course c) (take 10 now) (set_auth a db) < most_daily"
      and st: "store_upload sha env c p w (se_id s) (st_id q) now (set_auth a db) = Inr (r, db')"
    have w': "w \<in> set (releases db)" "rl_id w = sc_work c" "rl_course w = sc_course c" "release_open now w"
      using admissible_Some [OF w] by simp_all
    note u = upload_stored [OF st]
    have r: "bq_student r = st_id q" "bq_session r = se_id s" "bq_release r = sc_work c" "bq_state r = BunAccepted"
      by (simp_all add: u(1) new_upload_def)
    have "outstanding_uploads (bq_student r) (rl_course w) db' \<le> most_open"
      using outstanding_new_upload [of w db r db'] o w' r u(2,4) by (simp add: outstanding_uploads_def)
    moreover have "admissions_of (st_id q) (sc_course c) (take 10 now) db' = admissions_of (st_id q) (sc_course c) (take 10 now) db + 1"
      "admissions_of (st_id q) (sc_course c) (take 10 now) db' \<le> most_daily"
      using u(5) d by (simp_all add: admissions_of_def)
    moreover have "upload_pins (new_upload_receipt p r w now) r" "receipt_inputs (new_upload_receipt p r w now) w"
        "bc_due (new_upload_receipt p r w now) = rl_due w" "bc_accepted (new_upload_receipt p r w now) = now"
      using w' by (simp_all add: upload_pins_def receipt_inputs_def new_upload_receipt_def new_upload_def u(1))
    ultimately show ?thesis
      by (intro exI [of _ now] exI [of _ w] exI [of _ s0] exI [of _ "new_upload_receipt p r w now"])
        (use n w' u(6) bears_normal [OF k s0(1)] s0 sc e r u(2,3) in simp)
  qed
qed

lemma bundle_admission_sound_witness:
  "\<exists>now w. stamp env0 at9 = Inr now \<and> w \<in> set (releases b5) \<and> release_open now w \<and> outstanding_uploads 1 (rl_course w) b6 \<le> 3"
proof -
  have "bq_student accepted1 = 1" by (simp add: bundle_rows)
  then show ?thesis using bundle_admission_sound [OF bcall6] by (metis benv0_fields(1))
qed

text \<open>C32: An upload may be sent again. Whatever happened since it was admitted, the same call with the same
  arguments, made when the student's access token is accepted, returns the stored upload as it is now,
  says that it is a replay, and writes nothing but that the session was seen: no second attempt is
  counted, and neither the deadline nor the limits matter any more.\<close>

theorem bundle_admission_replayed:
  assumes "bundle_later sha init_bundles db"
    and "create_accepted_bundle_submission sha env call upload most_open most_daily when_v db = (Inr (r, False), db1)"
    and "bundle_later sha db1 db2"
    and "stamp (logins (platform env')) when_v' = Inr now" and "utc_dtime (clock (logins (platform env')))" and "valid_value when_v'"
    and "authorize_access_token (login_env (base_env env' db2) (base db2)) (sc_access call) (sc_course call) (Some (DtText now)) True
      (auth (base db2)) = (Inr (s, q), a)"
    and "st_id q = bq_student r"
  shows "\<exists>r2\<in>set (uploads db2). upload_later r r2 \<and>
    create_accepted_bundle_submission sha env' call upload most_open most_daily when_v' db2 = (Inr (r2, True), set_auth a db2)"
  using assms(2)
proof (rule upload_shape)
  fix p c now0 a0 and s0 :: session_row and q0 :: student_row
  assume v: "check_upload upload = Inr p" "check_call call = Inr c" "0 < most_open" "0 < most_daily"
    and b: "admit_upload_body sha env c p most_open most_daily (se_id s0) (st_id q0) now0 (set_auth a0 db) = Inr (Inr (r, False), db1)"
  note n = check_call_Inr [OF v(2)]
  have nn: "verifier_arg (sc_access c) = Inr (sc_access c)" "text_arg (sc_course c) = Inr (sc_course c)"
    using n verifier_normal text_normal by blast+
  have a: "authorize_access_token (login_env (base_env env' db2) (base db2)) (sc_access c) (sc_course c) (Some (DtText now)) True
      (auth (base db2)) = (Inr (s, q), a)"
    using assms(7) authorize_normal n by metis
  have now: "bundle_stamp env' when_v' = Inr now" using assms(4) by (simp add: bundle_stamp_def)
  have "session_stands (se_id s) (st_id q) (sc_access c) (sc_course c) now a"
    by (rule authorize_stands [OF a nn]) (simp add: bundle_stamp_def stamp_text [OF assms(4-6)])
  moreover have "enrolled (st_id q) (sc_course c) (base (set_auth a db2))"
    using a by (rule authorize_rows) (auto simp: enrolled_def active_enrollment_def set_auth_def nn)
  ultimately have st: "bundle_session (se_id s) (st_id q) (sc_access c) (sc_course c) now (set_auth a db2)"
    by (simp add: bundle_session_def)
  from b show ?thesis
  proof (rule admitted_upload)
    fix w assume "store_upload sha env c p w (se_id s0) (st_id q0) now0 (set_auth a0 db) = Inr (r, db1)"
    note u = upload_stored [OF this]
    let ?k = "new_key (st_id q0) c (bq_id r) now0"
    have ok1: "bundle_ok sha db1"
      using bundle_step_sound [OF bs_admit reached_bundle_ok [OF assms(1)]] assms(2) by (metis bundle_sound_def snd_conv)
    have ok2: "bundle_ok sha db2" and kept: "bundle_kept db1 db2"
      using bundle_later_sound [OF assms(3) ok1] by (simp_all add: bundle_sound_def)
    have k: "?k \<in> set (upload_keys db2)"
      using kept set_mono_prefix unfolding bundle_kept_def by (fastforce simp: u(7))
    obtain r2 where r2: "r2 \<in> set (uploads db2)" "upload_later r r2"
      using kept unfolding bundle_kept_def rows_later_def by (fastforce simp: u(2))
    then have id: "bq_id r2 = bq_id r" using upload_same_fields(1) by (simp add: upload_later_def)
    have q: "call_key (st_id q) c = key_of ?k" using assms(8) by (simp add: u(1) new_upload_def)
    have "find (\<lambda>x. key_of x = call_key (st_id q) c) (upload_keys db2) = Some ?k"
      using select_by_distinct [OF bundle_keys(5) [OF ok2] k] by (simp add: select_by_def q)
    moreover have "find (\<lambda>x. bq_id x = bq_id r) (uploads db2) = Some r2" using upload_found [OF ok2 r2(1)] id by simp
    ultimately have "stored_upload (call_key (st_id q) c) (set_auth a db2) = Some (?k, r2)"
      by (simp add: stored_upload_def new_key_def)
    then have "admit_upload_body sha env' c p most_open most_daily (se_id s) (st_id q) now (set_auth a db2) =
        Inr (Inr (r2, True), set_auth a db2)"
      using st by (simp add: admit_upload_body_def demand_def) (simp add: new_key_def)
    then show ?thesis
      using upload_calls [OF v now a] r2 by (auto simp: transact_done)
  qed
qed

lemma bundle_admission_replayed_witness:
  "create_accepted_bundle_submission sha0 benv0 scall1 upload1 3 50 at9 b10 = (Inr (working1, True), b10)"
proof -
  have b: "base b10 = pseen" "uploads b10 = [working1]" by (simp_all add: b10_def)
  have a: "authorize_access_token (login_env (base_env benv0 b10) (base b10)) (sc_access scall1) (sc_course scall1) (Some (DtText t9)) True
      (auth (base b10)) = (Inr (touch_session t9 session1, student1), seen5)"
    using token1_any [of "login_env (base_env benv0 b10) (base b10)" seen5] by (simp add: scall1_def b)
  have c: "stamp (logins (platform benv0)) at9 = Inr t9" "utc_dtime (clock (logins (platform benv0)))" "valid_value at9"
    using tm_valid(2) by (simp, simp add: env0_def, simp add: valid_value_def utc_dtime_def)
  have q: "st_id student1 = bq_student accepted1" by (simp add: bundle_rows)
  show ?thesis using bundle_admission_replayed [OF bundle5 bcall6 bundle610 c a q] b by simp
qed

section \<open>Results\<close>

text \<open>A student sees a result of a bundle only when it is published and only the own one: the row
  returned is of an upload of the student whose unrevoked session carries the access token, the upload
  is published, and the score lies between zero and the maximum that was pinned when it was accepted.\<close>

theorem bundle_result_private:
  assumes "bundle_later sha init_bundles db" and "get_owned_bundle_result env access course i when_v db = (Inr x, db')"
  shows "\<exists>s r c. bears db access s \<and> x \<in> set (upload_results db) \<and> bs_student x = se_student s \<and> bs_published x \<noteq> None \<and>
    r \<in> set (uploads db) \<and> bs_request x = bq_id r \<and> bq_student r = se_student s \<and> bq_state r = BunPublished \<and>
    c \<in> set (upload_receipts db) \<and> upload_pins c r \<and> 0 \<le> bs_score x \<and> bs_score x \<le> bc_max c"
  using assms(2) unfolding get_owned_bundle_result_def
proof (rule admitted_Inr)
  fix s a s0 and p :: student_row
  assume s0: "bears db access s0" "se_student s0 = st_id p"
    and f: "(rbind (owned_upload (st_id p) i course (set_auth a db)) (\<lambda>r.
          case find (\<lambda>x. bs_request x = bq_id r \<and> bs_student x = bq_student r \<and> bs_published x \<noteq> None) (upload_results (set_auth a db)) of
            None \<Rightarrow> Inl PlatformNotFound | Some x \<Rightarrow> Inr x), set_auth a db) = (Inr x, db')"
  note ok = reached_bundle_ok [OF assms(1)]
  obtain r where r: "owned_upload (st_id p) i course (set_auth a db) = Inr r"
    and x: "find (\<lambda>x. bs_request x = bq_id r \<and> bs_student x = bq_student r \<and> bs_published x \<noteq> None) (upload_results db) = Some x"
    using f by (auto simp: result_simps split: option.split_asm)
  have r: "r \<in> set (uploads db)" "bq_student r = st_id p" using owned_upload_Inr [OF r] by simp_all
  have x: "x \<in> set (upload_results db)" "bs_request x = bq_id r" "bs_student x = bq_student r" "bs_published x \<noteq> None"
    using find_SomeD [OF x] by simp_all
  obtain y c where y: "y \<in> set (uploads db)" "c \<in> set (upload_receipts db)" "result_rests x y c"
      "bs_published x \<noteq> None \<longleftrightarrow> bq_state y = BunPublished"
    by (rule bundle_line.result_rows [OF bundle_uploads(3) [OF ok] x(1)])
  have "y = r" using upload_unique [OF ok y(1) r(1)] y(3) x(2) by (simp add: result_rests_def)
  moreover obtain d where d: "d \<in> set (upload_receipts db)" "upload_pins d r"
    using upload_receipt [OF ok r(1)] by blast
  moreover have "bc_request c = bc_request d" using y(3) d(2) calculation(1) by (simp add: result_rests_def upload_pins_def)
  then have "c = d" using unique_key [OF bundle_keys(2) [OF ok] y(2) d(1)] by simp
  ultimately have c: "upload_pins c r" "bq_state r = BunPublished" "0 \<le> bs_score x" "bs_score x \<le> bc_max c"
    using y(3,4) x(4) by (simp_all add: result_rests_def)
  show ?thesis
    by (intro exI [of _ s0] exI [of _ r] exI [of _ c]) (use s0 r x y(2) c in simp)
qed

lemma bundle_result_private_witness:
  "\<exists>r. r \<in> set (uploads b12) \<and> bq_state r = BunPublished \<and> bs_request (publish_upload_row t12 score1) = bq_id r"
  using bundle_result_private [OF bundle12 bcall13] by blast

text \<open>The earlier result a student is compared with is the best there is: it belongs to an upload of the
  same student for the same release that came in before, and is published; and no published result of an
  earlier upload of that student for that release has a higher score.\<close>

theorem previous_best:
  assumes "get_bundle_previous_best i db = Inr (Some (j, received, score, most))"
  shows "\<exists>x y g. x \<in> set (numbered db) \<and> text_arg i = Inr (bq_id (snd x)) \<and> (y, g) \<in> set (earlier_results x db) \<and>
    before y x \<and> bq_student (snd y) = bq_student (snd x) \<and> bq_release (snd y) = bq_release (snd x) \<and>
    bq_state (snd y) = BunPublished \<and> bs_published g \<noteq> None \<and>
    (j, received, score, most) = (bq_id (snd y), bq_received (snd y), bs_score g, bs_max g) \<and>
    (\<forall>(z, h)\<in>set (earlier_results x db). bs_score h \<le> score)"
proof -
  obtain k x where k: "text_arg i = Inr k" and x: "find (\<lambda>x. bq_id (snd x) = k) (numbered db) = Some x"
    and h: "(case sort_down (bs_score \<circ> snd) (sort_down (bq_received \<circ> snd \<circ> fst) (sort_down (fst \<circ> fst) (earlier_results x db))) of
         [] \<Rightarrow> None | (y, g) # _ \<Rightarrow> Some (bq_id (snd y), bq_received (snd y), bs_score g, bs_max g)) = Some (j, received, score, most)"
    using assms by (auto simp: get_bundle_previous_best_def result_simps bind_eq_Some_conv)
  let ?s = "sort_down (bq_received \<circ> snd \<circ> fst) (sort_down (fst \<circ> fst) (earlier_results x db))"
  obtain y g zs where s: "sort_down (bs_score \<circ> snd) ?s = (y, g) # zs"
    and v: "(j, received, score, most) = (bq_id (snd y), bq_received (snd y), bs_score g, bs_max g)"
    using h by (auto split: list.split_asm)
  have m: "(y, g) \<in> set (earlier_results x db)" using arg_cong [OF s, of set] by auto
  have best: "\<forall>(z, h)\<in>set (earlier_results x db). bs_score h \<le> score"
    using sort_down_head [OF s] v by fastforce
  have "before y x \<and> bq_student (snd y) = bq_student (snd x) \<and> bq_release (snd y) = bq_release (snd x) \<and>
      bq_state (snd y) = BunPublished \<and> bs_published g \<noteq> None"
    using m by (auto simp: earlier_results_def map_filter_def split: if_split_asm option.split_asm)
  then show ?thesis using find_SomeD [OF x] k m v best by blast
qed

text \<open>A second attempt of the student, after the published one.\<close>

definition second1 :: upload_row where "second1 = accepted1\<lparr>bq_id := ''c1'', bq_key := ''again'', bq_received := t10\<rparr>"
definition twice1 :: bundle_db where "twice1 = b12\<lparr>uploads := [visible1, second1]\<rparr>"

lemma previous_best_witness: "\<exists>g :: upload_result. bs_score g = 7 \<and> bs_published g \<noteq> None \<and> get_bundle_previous_best ''c1'' twice1 = Inr (Some (''p1'', t9, 7, bs_max g))"
proof -
  have n: "numbered twice1 = [(1, visible1), (2, second1)]" by (simp add: numbered_def twice1_def)
  have r: "result_for visible1 twice1 = Some (publish_upload_row t12 score1)"
    by (simp add: result_for_def twice1_def b12_def) (simp add: bundle_rows)
  have "earlier_results (2, second1) twice1 = [((1, visible1), publish_upload_row t12 score1)]"
    by (simp add: earlier_results_def n List.map_filter_simps r before_def) (simp add: second1_def bundle_rows)
  then have g: "get_bundle_previous_best ''c1'' twice1 = Inr (Some (''p1'', t9, 7, 10))"
    by (simp add: get_bundle_previous_best_def n sort_down_def) (simp add: second1_def bundle_rows)
  obtain x' :: upload_result where "bs_score x' = 7" "bs_published x' \<noteq> None" "bs_max x' = 10" using previous_best [OF g] by auto
  then show ?thesis using g by (intro exI [of _ x']) simp
qed

section \<open>Instructions\<close>

text \<open>C33: The instructions of a release change in the open. A revision is accepted only when it was written
  against the current one; it is then added behind all stored revisions, which stay, with the next
  number; a text with the digest of the current one adds nothing; and the caller gets back the document
  that is current now, with the number of its revisions.\<close>

theorem instructions_versioned:
  assumes "bundle_later sha init_bundles db"
    and "update_assignment_document sha env course i revision content note db = (Inr (Some (d, hist, n)), db')"
  shows "\<exists>old new. current_revision sha env course i db = Inr (Some old) \<and> revision = dr_revision old \<and>
    current_revision sha env course i db' = Inr (Some d) \<and> n = dr_revision d + 1 \<and> dr_sha d = sha (unix_lines content) \<and>
    db' = db\<lparr>revisions := revisions db @ new\<rparr> \<and>
    (if dr_sha old = sha (unix_lines content) then new = [] \<and> d = old
     else dr_revision d = revision + 1 \<and> dr_content d = unix_lines content \<and> (new = [d] \<or> new = [old, d]))"
proof -
  note ok = reached_bundle_ok [OF assms(1)]
  obtain now where b: "revise sha env course i revision content note now db = Inr (Some (d, hist, n), db')"
    using assms(2)
    by (auto simp: update_assignment_document_def guard_def demand_def transact_def update_document_body_def not_removed_def
        result_simps split: sum.split_asm if_split_asm option.split_asm prod.split_asm)
  then obtain body why old where k: "check_revision revision content note = Inr (body, why)"
    and c: "current_revision sha env course i db = Inr (Some old)" and n: "revision = dr_revision old"
    by (auto simp: revise_def result_simps split: option.split_asm prod.split_asm)
  have body: "body = unix_lines content" using check_revision_Inr [OF k] .
  show ?thesis
  proof (cases "sha body = dr_sha old")
    case True
    then have "current_document sha env course i db = Inr (Some (d, hist, n))" "db' = db"
      using b k c n by (auto simp: revise_def result_simps)
    then have "d = old" "n = dr_revision d + 1" "db' = db\<lparr>revisions := revisions db @ []\<rparr>"
      using current_document_Inr c by fastforce+
    then show ?thesis using c n True body \<open>db' = db\<close>
      by (intro exI [of _ old] exI [of _ "[]"]) auto
  next
    case False
    then obtain x db1 where o: "ensure_original sha env course i db = Inr (x, db1)"
      and j: "insert_revision env (new_revision sha i (dr_revision old + 1) body why now) db1 = Inr db'"
      and doc: "current_document sha env course i db' = Inr (Some (d, hist, n))"
      using b k c n by (auto simp: revise_def result_simps)
    note ch = revise_changed [OF ok c o j]
    have d: "d = new_revision sha i (dr_revision old + 1) body why now" "n = dr_revision d + 1"
      using current_document_Inr [OF doc] ch(2) by simp_all
    obtain new where "db' = db\<lparr>revisions := revisions db @ new\<rparr>" "new = [d] \<or> new = [old, d]" using ch(1) d(1) by blast
    then show ?thesis
      using c n ch(2) d body False
      by (intro exI [of _ old] exI [of _ new]) (simp add: new_revision_def eq_commute)
  qed
qed

lemma instructions_versioned_witness:
  "\<exists>new. b7 = b6\<lparr>revisions := revisions b6 @ new\<rparr> \<and> current_revision sha0 benv0 ''cs1'' ''w1'' b7 = Inr (Some revised1)"
  using instructions_versioned [OF bundle6 bcall7] by blast

text \<open>Every submission remembers which instructions were valid for it. When a release has instructions,
  admitting an upload records their current revision, with its digest; and in every later state that
  record and the revision with its text are still stored, unchanged, whatever was revised since.\<close>

theorem instructions_recorded:
  assumes "bundle_later sha init_bundles db"
    and "create_accepted_bundle_submission sha env call upload most_open most_daily when_v db = (Inr (r, False), db1)"
    and "text_arg (sc_course call) = Inr course" and "current_revision sha env course (bq_release r) db = Inr (Some d)"
    and "bundle_later sha db1 db2"
  shows "\<exists>u\<in>set (uses db2). sd_request u = bq_id r \<and> sd_release u = bq_release r \<and> sd_revision u = dr_revision d \<and>
    sd_sha u = sha (dr_content d) \<and> d \<in> set (revisions db2)"
  using assms(2)
proof (rule upload_shape)
  fix p c now a s0 and s :: session_row and q :: student_row
  assume k: "check_call call = Inr c"
    and b: "admit_upload_body sha env c p most_open most_daily (se_id s) (st_id q) now (set_auth a db) = Inr (Inr (r, False), db1)"
  have course: "sc_course c = course" using check_call_Inr [OF k] assms(3) by simp
  note ok = reached_bundle_ok [OF assms(1)]
  note cur = current_revision_Some [OF ok assms(4)]
  from b show ?thesis
  proof (rule admitted_upload)
    fix w assume "store_upload sha env c p w (se_id s) (st_id q) now (set_auth a db) = Inr (r, db1)"
    then show ?thesis
    proof (rule store_upload_Inr)
      fix db3
      assume r: "r = new_upload p (st_id q) (se_id s) c now"
        and db3: "db3 = (count_admission (st_id q) (sc_course c) (take 10 now) now (set_auth a db))\<lparr>uploads := uploads (set_auth a db) @ [r],
            upload_keys := upload_keys (set_auth a db) @ [new_key (st_id q) c (bq_id r) now],
            upload_receipts := upload_receipts (set_auth a db) @ [new_upload_receipt p r w now]\<rparr>"
        and e: "record_submission sha env (sc_course c) (sc_work c) (bq_id r) now db3 = Inr db1"
      have i: "bq_release r = sc_work c" by (simp add: r)
      have f: "revisions db3 = revisions db" "releases db3 = releases db" by (simp_all add: db3 count_admission_def)
      then have "latest_revision (sc_work c) db3 = latest_revision (sc_work c) db" by (simp add: latest_revision_def)
      then have "current_revision sha env course (sc_work c) db3 = Inr (Some d)"
        using assms(4) i f by (simp add: current_revision_def course_release_def cong: option.case_cong)
      then have "d \<in> set (revisions db1) \<and> \<lparr>sd_request = bq_id r, sd_release = sc_work c, sd_revision = dr_revision d,
          sd_sha = dr_sha d, sd_at = now\<rparr> \<in> set (uses db1)"
        using record_submission_use [OF e] cur(4) f course i by simp
      moreover have "bundle_kept db1 db2"
        using bundle_later_sound [OF assms(5)] bundle_step_sound [OF bs_admit ok] assms(2) by (metis bundle_sound_def snd_conv)
      then have "set (revisions db1) \<subseteq> set (revisions db2)" "set (uses db1) \<subseteq> set (uses db2)"
        using set_mono_prefix by (auto simp: bundle_kept_def)
      ultimately show ?thesis using cur(2) i by (intro bexI [of _ "\<lparr>sd_request = bq_id r, sd_release = sc_work c,
          sd_revision = dr_revision d, sd_sha = dr_sha d, sd_at = now\<rparr>"]) auto
    qed
  qed
qed

lemma instructions_recorded_witness: "\<exists>u\<in>set (uses b8). sd_request u = ''p1'' \<and> sd_sha u = ''task'' \<and> original1 \<in> set (revisions b8)"
proof -
  have i: "bq_id accepted1 = ''p1''" "bq_release accepted1 = ''w1''" "dr_content original1 = ''task''" "text_arg (sc_course scall1) = Inr ''cs1''"
    by (simp_all add: bundle_rows)
  have "current_revision sha0 benv0 ''cs1'' (bq_release accepted1) b5 = Inr (Some original1)"
    by (simp add: i current_revision_def course_release_def latest_revision_def original1_def) (simp add: bundle_rows)
  from instructions_recorded [OF bundle5 bcall6 i(4) this bundle68] show ?thesis by (simp add: i) 
qed

end
