(* ===== verification/Archive_Json.thy ===== *)
theory Archive_Json
  imports Json_Text
begin

text \<open>
  Text and JSON as \<open>src/src/autograde/platform_bundle.py\<close> reads and prints them. A Python string is the
  list of its code points and a byte string the list of its bytes, because file names of a bundle are
  not limited to Latin letters. UTF-8 is Python's strict codec.

  JSON is read by \<open>json.loads\<close> with the duplicate check \<open>_unique_json_object\<close> as
  \<open>object_pairs_hook\<close>, and printed by \<open>json.dumps\<close> with
  \<open>ensure_ascii=False, sort_keys=True, separators=(",", ":")\<close>. The order of the items of a dict is
  never used, so a dict is the list of its items in the order of their keys. A float is the text it was
  read from, because the program never computes with one.

  The scanner descends into arrays and objects by a count of the interpreter's remaining recursion
  depth; what is deeper raises \<open>RecursionError\<close>. A list of items is read by recursion over the
  length of the text: every value uses up text (\<open>scan_value_shorter\<close>), so the test of the length
  in the two loops never fails.
\<close>

type_synonym utext = "nat list"
type_synonym bytes = "nat list"

definition ascii :: "string \<Rightarrow> utext" where
  "ascii s = map of_char s"

lemma ascii_simps [simp]:
  "ascii [] = []" "ascii (c # s) = of_char c # ascii s" "ascii (s @ t) = ascii s @ ascii t"
  "length (ascii s) = length s" "ascii s = [] \<longleftrightarrow> s = []"
  by (simp_all add: ascii_def)

lemma ascii_inject [simp]: "ascii s = ascii t \<longleftrightarrow> s = t"
  by (simp add: ascii_def inj_map_eq_map inj_on_def)

lemma set_ascii: "c \<in> set (ascii s) \<Longrightarrow> c < 256"
  by (auto simp: ascii_def of_char_less_256)

section \<open>UTF-8\<close>

definition surrogate :: "nat \<Rightarrow> bool" where
  "surrogate c = (0xD800 \<le> c \<and> c \<le> 0xDFFF)"

definition point_bytes :: "nat \<Rightarrow> bytes" where
  "point_bytes c =
     (if c < 0x80 then [c]
      else if c < 0x800 then [0xC0 + c div 64, 0x80 + c mod 64]
      else if c < 0x10000 then [0xE0 + c div 4096, 0x80 + c div 64 mod 64, 0x80 + c mod 64]
      else [0xF0 + c div 262144, 0x80 + c div 4096 mod 64, 0x80 + c div 64 mod 64, 0x80 + c mod 64])"

definition utf8_bytes :: "utext \<Rightarrow> bytes" where
  "utf8_bytes s = concat (map point_bytes s)"

text \<open>\<open>value.encode("utf-8")\<close>; \<open>None\<close> is the \<open>UnicodeEncodeError\<close> of a surrogate.\<close>

definition encode_utf8 :: "utext \<Rightarrow> bytes option" where
  "encode_utf8 s = (if list_ex surrogate s then None else Some (utf8_bytes s))"

text \<open>\<open>raw.decode("utf-8")\<close>. The first three arguments are the continuation bytes still expected, the
  point read so far, and the least point that needs so many bytes.\<close>

fun decode_points :: "nat \<Rightarrow> nat \<Rightarrow> nat \<Rightarrow> bytes \<Rightarrow> utext option" where
  "decode_points 0 acc least [] = Some []"
| "decode_points (Suc k) acc least [] = None"
| "decode_points 0 acc least (b # r) =
     (if b < 0x80 then map_option ((#) b) (decode_points 0 0 0 r)
      else if 0xC2 \<le> b \<and> b \<le> 0xDF then decode_points 1 (b - 0xC0) 0x80 r
      else if 0xE0 \<le> b \<and> b \<le> 0xEF then decode_points 2 (b - 0xE0) 0x800 r
      else if 0xF0 \<le> b \<and> b \<le> 0xF4 then decode_points 3 (b - 0xF0) 0x10000 r
      else None)"
| "decode_points (Suc k) acc least (b # r) =
     (if \<not> (0x80 \<le> b \<and> b \<le> 0xBF) then None
      else let c = acc * 64 + (b - 0x80)
        in if k > 0 then decode_points k c least r
           else if c < least \<or> surrogate c \<or> 0x10FFFF < c then None
           else map_option ((#) c) (decode_points 0 0 0 r))"

definition decode_utf8 :: "bytes \<Rightarrow> utext option" where
  "decode_utf8 raw = decode_points 0 0 0 raw"

definition valid_text :: "utext \<Rightarrow> bool" where
  "valid_text s = list_all (\<lambda>c. c \<le> 0x10FFFF \<and> \<not> surrogate c) s"

lemma valid_text_simps [simp]:
  "valid_text []" "valid_text (c # s) \<longleftrightarrow> (c \<le> 0x10FFFF \<and> \<not> surrogate c) \<and> valid_text s"
  "valid_text (s @ t) \<longleftrightarrow> valid_text s \<and> valid_text t"
  by (simp_all add: valid_text_def)

lemma valid_ascii [simp]: "valid_text (ascii s)"
proof -
  have "c \<le> 0x10FFFF \<and> \<not> surrogate c" if "c < 256" for c
    using that by (simp add: surrogate_def)
  then show ?thesis by (auto simp: valid_text_def list_all_iff dest: set_ascii)
qed

lemma decode_points_point:
  "decode_points 0 0 0 (point_bytes c @ r) =
    (if c \<le> 0x10FFFF \<and> \<not> surrogate c then map_option ((#) c) (decode_points 0 0 0 r) else None)"
proof -
  have a: "c = c div 64 * 64 + c mod 64" by simp
  have b: "c div 64 = c div 4096 * 64 + c div 64 mod 64"
    using div_mult_mod_eq [of "c div 64" 64] by (simp add: div_mult2_eq [symmetric])
  have m: "x mod 64 \<le> 63" for x :: nat
    using mod_less_divisor [of 64 x] by linarith
  have d: "c div 4096 = c div 262144 * 64 + c div 4096 mod 64"
    using div_mult_mod_eq [of "c div 4096" 64] by (simp add: div_mult2_eq [symmetric])
  consider "c < 0x80" | "0x80 \<le> c" "c < 0x800" | "0x800 \<le> c" "c < 0x10000"
    | "0x10000 \<le> c" "c div 262144 \<le> 4" | "5 \<le> c div 262144"
    by linarith
  then show ?thesis
  proof cases
    case 1
    then show ?thesis by (simp add: point_bytes_def surrogate_def)
  next
    case 2
    then have h: "2 \<le> c div 64" "c div 64 \<le> 31" and s: "\<not> surrogate c"
      by (linarith, linarith, simp add: surrogate_def)
    have step: "decode_points 0 0 0 ([0xC0 + h, 0x80 + l] @ r) = map_option ((#) c) (decode_points 0 0 0 r)"
      if "2 \<le> h" "h \<le> 31" "l \<le> 63" "h * 64 + l = c" for h l
      using that 2 s by (simp add: Let_def)
    show ?thesis using 2 s step [OF h m [of c]] by (simp add: point_bytes_def del: decode_points.simps)
  next
    case 3
    then have "c div 4096 \<le> 15" by linarith
    moreover have "c div 4096 * 4096 + c div 64 mod 64 * 64 + c mod 64 = c"
      using a b by linarith
    ultimately show ?thesis
      using 3 m [of c] m [of "c div 64"] by (simp add: point_bytes_def Let_def numeral_2_eq_2 algebra_simps)
  next
    case 4
    moreover have "c div 262144 * 262144 + c div 4096 mod 64 * 4096 + c div 64 mod 64 * 64 + c mod 64 = c"
      using a b d by linarith
    ultimately show ?thesis
      using m [of c] m [of "c div 64"] m [of "c div 4096"]
      by (auto simp: point_bytes_def Let_def numeral_2_eq_2 numeral_3_eq_3 algebra_simps)
  next
    case 5
    then have "\<not> c \<le> 0x10FFFF" "\<not> c < 0x10000" by linarith+
    with 5 show ?thesis by (simp add: point_bytes_def)
  qed
qed

lemma decode_point:
  "c \<le> 0x10FFFF \<Longrightarrow> \<not> surrogate c \<Longrightarrow>
   decode_points 0 0 0 (point_bytes c @ r) = map_option ((#) c) (decode_points 0 0 0 r)"
  by (simp add: decode_points_point)

lemma utf8_bytes_simps [simp]:
  "utf8_bytes [] = []" "utf8_bytes (c # s) = point_bytes c @ utf8_bytes s"
  "utf8_bytes (s @ t) = utf8_bytes s @ utf8_bytes t"
  by (simp_all add: utf8_bytes_def)

lemma decode_utf8_bytes: "valid_text s \<Longrightarrow> decode_utf8 (utf8_bytes s) = Some s"
  by (induction s) (simp_all add: decode_utf8_def decode_point)

lemma encode_valid: "valid_text s \<Longrightarrow> encode_utf8 s = Some (utf8_bytes s)"
  by (induction s) (auto simp: encode_utf8_def)

lemma decode_encode: "valid_text s \<Longrightarrow> \<exists>raw. encode_utf8 s = Some raw \<and> decode_utf8 raw = Some s"
  by (simp add: encode_valid decode_utf8_bytes)

lemma utf8_bytes_inject: "valid_text s \<Longrightarrow> valid_text t \<Longrightarrow> utf8_bytes s = utf8_bytes t \<longleftrightarrow> s = t"
  by (metis decode_utf8_bytes option.inject)

lemma point_bytes_ascii [simp]: "c < 128 \<Longrightarrow> point_bytes c = [c]"
  by (simp add: point_bytes_def)

datatype ujson = UNull | UBool bool | UInt int | UFloat utext | UStr utext
  | UArr "ujson list" | UObj "(utext \<times> ujson) list"

text \<open>A dict with these items, whose keys are distinct.\<close>

definition dict_of :: "(utext \<times> ujson) list \<Rightarrow> ujson" where
  "dict_of items = UObj (sort_key fst items)"

section \<open>Printing\<close>

definition hex_point :: "nat \<Rightarrow> nat" where
  "hex_point d = (if d < 10 then 48 + d else 87 + d)"

definition escape_point :: "nat \<Rightarrow> utext" where
  "escape_point c =
     (if c = 34 then [92, 34]
      else if c = 92 then [92, 92]
      else if c = 10 then [92, 110]
      else if c = 13 then [92, 114]
      else if c = 9 then [92, 116]
      else if c = 12 then [92, 102]
      else if c = 8 then [92, 98]
      else if c < 32 then [92, 117, 48, 48, hex_point (c div 16), hex_point (c mod 16)]
      else [c])"

definition quote_text :: "utext \<Rightarrow> utext" where
  "quote_text s = 34 # concat (map escape_point s) @ [34]"

fun separated :: "'a list \<Rightarrow> 'a list list \<Rightarrow> 'a list" where
  "separated sep [] = []"
| "separated sep [x] = x"
| "separated sep (x # y # zs) = x @ sep @ separated sep (y # zs)"

fun print_json :: "ujson \<Rightarrow> utext" where
  "print_json UNull = ascii ''null''"
| "print_json (UBool b) = ascii (if b then ''true'' else ''false'')"
| "print_json (UInt i) = ascii (show_int i)"
| "print_json (UFloat t) = t"
| "print_json (UStr s) = quote_text s"
| "print_json (UArr xs) = [91] @ separated [44] (map print_json xs) @ [93]"
| "print_json (UObj ms) =
     [123] @ separated [44] (map (\<lambda>m. quote_text (fst m) @ [58] @ print_json (snd m)) ms) @ [125]"

section \<open>Scanning\<close>

datatype scan_error = DecodeError | DepthError

type_synonym 'a scan = "scan_error + ('a \<times> utext)"

definition json_space :: "nat \<Rightarrow> bool" where
  "json_space c = (c \<in> {32, 9, 10, 13})"

definition skip_space :: "utext \<Rightarrow> utext" where
  "skip_space s = dropWhile json_space s"

definition point_digit :: "nat \<Rightarrow> bool" where
  "point_digit c = (48 \<le> c \<and> c \<le> 57)"

definition hex_value :: "nat \<Rightarrow> nat option" where
  "hex_value c =
     (if point_digit c then Some (c - 48)
      else if 97 \<le> c \<and> c \<le> 102 then Some (c - 87)
      else if 65 \<le> c \<and> c \<le> 70 then Some (c - 55)
      else None)"

text \<open>Four hexadecimal digits behind \<open>\u\<close>.\<close>

fun hex4 :: "utext \<Rightarrow> (nat \<times> utext) option" where
  "hex4 (a # b # c # d # r) =
     (case (hex_value a, hex_value b, hex_value c, hex_value d) of
        (Some i, Some j, Some k, Some l) \<Rightarrow> Some (((i * 16 + j) * 16 + k) * 16 + l, r)
      | _ \<Rightarrow> None)"
| "hex4 _ = None"

text \<open>The point of an escape, and what is left: a high surrogate takes a low one behind it in.\<close>

definition high_surrogate :: "nat \<Rightarrow> bool" where
  "high_surrogate c = (0xD800 \<le> c \<and> c \<le> 0xDBFF)"

definition low_surrogate :: "nat \<Rightarrow> bool" where
  "low_surrogate c = (0xDC00 \<le> c \<and> c \<le> 0xDFFF)"

definition joined_pair :: "nat \<Rightarrow> utext \<Rightarrow> nat \<times> utext" where
  "joined_pair c r =
     (if high_surrogate c \<and> take 2 r = [92, 117]
      then (case hex4 (drop 2 r) of
              Some (d, r') \<Rightarrow> if low_surrogate d then (0x10000 + (c - 0xD800) * 1024 + (d - 0xDC00), r') else (c, r)
            | None \<Rightarrow> (c, r))
      else (c, r))"

definition scan_escape :: "utext \<Rightarrow> (nat \<times> utext) option" where
  "scan_escape s =
     (case s of [] \<Rightarrow> None
      | e # r \<Rightarrow>
          if e \<in> {34, 92, 47} then Some (e, r)
          else if e = 98 then Some (8, r)
          else if e = 102 then Some (12, r)
          else if e = 110 then Some (10, r)
          else if e = 114 then Some (13, r)
          else if e = 116 then Some (9, r)
          else if e = 117 then map_option (\<lambda>(c, r'). joined_pair c r') (hex4 r)
          else None)"

lemma hex4_shorter: "hex4 s = Some (c, r) \<Longrightarrow> length r < length s"
  by (induction s rule: hex4.induct) (auto split: option.splits)

lemma joined_pair_shorter: "joined_pair c s = (d, r) \<Longrightarrow> length r \<le> length s"
  by (auto simp: joined_pair_def dest!: hex4_shorter split: if_splits option.splits prod.splits)

lemma scan_escape_shorter:
  assumes "scan_escape s = Some (c, r)"
  shows "length r < length s"
proof (cases s)
  case (Cons e q)
  show ?thesis
  proof (cases "e = 117")
    case True
    with assms Cons obtain d p where d: "hex4 q = Some (d, p)" "joined_pair d p = (c, r)"
      by (auto simp: scan_escape_def)
    then show ?thesis using Cons hex4_shorter [OF d(1)] joined_pair_shorter [OF d(2)] by simp
  next
    case False
    with assms Cons show ?thesis by (auto simp: scan_escape_def split: if_splits)
  qed
qed (use assms in \<open>simp add: scan_escape_def\<close>)

text \<open>The characters of a string behind its opening quote. \<open>strict\<close> refuses control characters.\<close>

function scan_chars :: "utext \<Rightarrow> utext scan" where
  "scan_chars s =
     (case s of [] \<Rightarrow> Inl DecodeError
      | c # r \<Rightarrow>
          if c = 34 then Inr ([], r)
          else if c < 32 then Inl DecodeError
          else if c = 92
          then (case scan_escape r of None \<Rightarrow> Inl DecodeError
                | Some (d, r') \<Rightarrow> rbind (scan_chars r') (\<lambda>(t, q). Inr (d # t, q)))
          else rbind (scan_chars r) (\<lambda>(t, q). Inr (c # t, q)))"
  by pat_completeness auto
termination by (relation "measure length") (auto dest: scan_escape_shorter)

declare scan_chars.simps [simp del]

text \<open>Numbers. The interpreter reads integers of at most 4300 digits.\<close>

definition digits_value :: "utext \<Rightarrow> nat" where
  "digits_value s = foldl (\<lambda>n c. 10 * n + (c - 48)) 0 s"

definition fraction :: "utext \<Rightarrow> utext" where
  "fraction s =
     (case s of c # r \<Rightarrow>
        if c = 46 \<and> r \<noteq> [] \<and> point_digit (hd r) then c # takeWhile point_digit r else []
      | [] \<Rightarrow> [])"

definition exponent :: "utext \<Rightarrow> utext" where
  "exponent s =
     (case s of c # r \<Rightarrow>
        if c \<in> {69, 101}
        then (let sign = (if r \<noteq> [] \<and> hd r \<in> {43, 45} then [hd r] else []);
                  ds = takeWhile point_digit (drop (length sign) r)
              in if ds = [] then [] else c # sign @ ds)
        else []
      | [] \<Rightarrow> [])"

definition int_digits_limit :: nat where
  "int_digits_limit = 4300"

definition scan_unsigned :: "bool \<Rightarrow> utext \<Rightarrow> ujson scan" where
  "scan_unsigned negative r =
     (if r = [] \<or> \<not> point_digit (hd r) then Inl DecodeError
      else let whole = (if hd r = 48 then [48] else takeWhile point_digit r);
               r1 = drop (length whole) r;
               frac = fraction r1;
               r2 = drop (length frac) r1;
               expo = exponent r2;
               r3 = drop (length expo) r2
           in if frac @ expo \<noteq> []
              then Inr (UFloat ((if negative then [45] else []) @ whole @ frac @ expo), r3)
              else if int_digits_limit < length whole then Inl DecodeError
              else Inr (UInt (if negative then - int (digits_value whole) else int (digits_value whole)), r3))"

definition scan_number :: "utext \<Rightarrow> ujson scan" where
  "scan_number s = (if s \<noteq> [] \<and> hd s = 45 then scan_unsigned True (tl s) else scan_unsigned False s)"

text \<open>The items of an array behind its bracket, and the members of an object behind its brace.\<close>

function scan_items :: "(utext \<Rightarrow> ujson scan) \<Rightarrow> utext \<Rightarrow> ujson list scan" where
  "scan_items item s =
     rbind (item s) (\<lambda>(v, r).
       case skip_space r of [] \<Rightarrow> Inl DecodeError
       | c # q \<Rightarrow>
           if c = 93 then Inr ([v], q)
           else if c = 44 \<and> length (skip_space q) < length s
           then rbind (scan_items item (skip_space q)) (\<lambda>(vs, p). Inr (v # vs, p))
           else Inl DecodeError)"
  by pat_completeness auto
termination by (relation "measure (\<lambda>(item, s). length s)") auto

declare scan_items.simps [simp del]

function scan_members :: "(utext \<Rightarrow> ujson scan) \<Rightarrow> utext \<Rightarrow> (utext \<times> ujson) list scan" where
  "scan_members item s =
     (case s of [] \<Rightarrow> Inl DecodeError
      | c # r \<Rightarrow>
          if c \<noteq> 34 then Inl DecodeError
          else rbind (scan_chars r) (\<lambda>(k, q).
            case skip_space q of [] \<Rightarrow> Inl DecodeError
            | e # p \<Rightarrow>
                if e \<noteq> 58 then Inl DecodeError
                else rbind (item (skip_space p)) (\<lambda>(v, m).
                  case skip_space m of [] \<Rightarrow> Inl DecodeError
                  | f # n \<Rightarrow>
                      if f = 125 then Inr ([(k, v)], n)
                      else if f = 44 \<and> length (skip_space n) < length s
                      then rbind (scan_members item (skip_space n)) (\<lambda>(ms, t). Inr ((k, v) # ms, t))
                      else Inl DecodeError)))"
  by pat_completeness auto
termination by (relation "measure (\<lambda>(item, s). length s)") auto

declare scan_members.simps [simp del]

text \<open>\<open>_unique_json_object\<close> on the pairs of an object.\<close>

definition unique_object :: "(utext \<times> ujson) list \<Rightarrow> scan_error + ujson" where
  "unique_object pairs = (if distinct (map fst pairs) then Inr (dict_of pairs) else Inl DecodeError)"

definition scan_array :: "(utext \<Rightarrow> ujson scan) \<Rightarrow> utext \<Rightarrow> ujson scan" where
  "scan_array item s =
     (if s \<noteq> [] \<and> hd s = 93 then Inr (UArr [], tl s)
      else rbind (scan_items item s) (\<lambda>(vs, r). Inr (UArr vs, r)))"

definition scan_object :: "(utext \<Rightarrow> ujson scan) \<Rightarrow> utext \<Rightarrow> ujson scan" where
  "scan_object item s =
     (if s \<noteq> [] \<and> hd s = 125 then Inr (UObj [], tl s)
      else rbind (scan_members item s) (\<lambda>(ms, r). rbind (unique_object ms) (\<lambda>v. Inr (v, r))))"

definition word_at :: "string \<Rightarrow> utext \<Rightarrow> bool" where
  "word_at w s = (take (length w) s = ascii w)"

definition scan_with :: "(utext \<Rightarrow> ujson scan) option \<Rightarrow> utext \<Rightarrow> ujson scan" where
  "scan_with deeper s =
     (case s of [] \<Rightarrow> Inl DecodeError
      | c # r \<Rightarrow>
          if c = 34 then rbind (scan_chars r) (\<lambda>(t, q). Inr (UStr t, q))
          else if c = 123
          then (case deeper of None \<Rightarrow> Inl DepthError | Some item \<Rightarrow> scan_object item (skip_space r))
          else if c = 91
          then (case deeper of None \<Rightarrow> Inl DepthError | Some item \<Rightarrow> scan_array item (skip_space r))
          else if word_at ''null'' s then Inr (UNull, drop 4 s)
          else if word_at ''true'' s then Inr (UBool True, drop 4 s)
          else if word_at ''false'' s then Inr (UBool False, drop 5 s)
          else if word_at ''NaN'' s then Inr (UFloat (ascii ''NaN''), drop 3 s)
          else if word_at ''Infinity'' s then Inr (UFloat (ascii ''Infinity''), drop 8 s)
          else if word_at ''-Infinity'' s then Inr (UFloat (ascii ''-Infinity''), drop 9 s)
          else scan_number s)"

primrec scan_value :: "nat \<Rightarrow> utext \<Rightarrow> ujson scan" where
  "scan_value 0 = scan_with None"
| "scan_value (Suc depth) = scan_with (Some (scan_value depth))"

definition json_loads :: "nat \<Rightarrow> utext \<Rightarrow> scan_error + ujson" where
  "json_loads depth s =
     (if s \<noteq> [] \<and> hd s = 0xFEFF then Inl DecodeError
      else rbind (scan_value depth (skip_space s)) (\<lambda>(v, r).
        if skip_space r = [] then Inr v else Inl DecodeError))"


section \<open>Every value uses up text\<close>

lemma skip_space_length: "length (skip_space s) \<le> length s"
  by (simp add: skip_space_def length_dropWhile_le)

lemma scan_chars_shorter: "scan_chars s = Inr (t, r) \<Longrightarrow> length r < length s"
proof (induction s arbitrary: t rule: scan_chars.induct)
  case (1 s)
  show ?case
  proof (cases s)
    case (Cons c q)
    consider "c = 34" | "c \<noteq> 34" "c = 92" | "c \<noteq> 34" "c \<noteq> 92" by blast
    then show ?thesis
    proof cases
      case 1
      then show ?thesis using "1.prems" Cons by (simp add: scan_chars.simps)
    next
      case 2
      with "1.prems" Cons obtain d p t' where "scan_escape q = Some (d, p)" "scan_chars p = Inr (t', r)"
        by (auto simp: scan_chars.simps [of "92 # q"] result_simps split: option.splits)
      then show ?thesis using "1.IH"(1) [OF Cons] 2 scan_escape_shorter Cons by fastforce
    next
      case 3
      with "1.prems" Cons obtain t' where "\<not> c < 32" "scan_chars q = Inr (t', r)"
        by (auto simp: scan_chars.simps [of "c # q"] result_simps split: if_splits)
      then show ?thesis using "1.IH"(2) [OF Cons] 3 Cons by fastforce
    qed
  qed (use "1.prems" in \<open>simp add: scan_chars.simps\<close>)
qed

lemma scan_items_shorter:
  assumes "\<And>t v r. item t = Inr (v, r) \<Longrightarrow> length r < length t"
  shows "scan_items item s = Inr (vs, r) \<Longrightarrow> length r < length s"
proof (induction s arbitrary: vs rule: measure_induct_rule [of length])
  case (less s)
  from less.prems obtain v q where q: "item s = Inr (v, q)"
    by (auto simp: scan_items.simps [of item s] result_simps)
  then have l: "length (skip_space q) < length s"
    using assms skip_space_length [of q] by (meson le_less_trans)
  show ?case
  proof (cases "skip_space q")
    case (Cons c p)
    then show ?thesis
      using less.prems q l less.IH [of "skip_space p"] skip_space_length [of p]
      by (fastforce simp: scan_items.simps [of item s] result_simps split: if_splits)
  qed (use less.prems q in \<open>simp add: scan_items.simps [of item s]\<close>)
qed

lemma scan_members_shorter:
  assumes "\<And>t v r. item t = Inr (v, r) \<Longrightarrow> length r < length t"
  shows "scan_members item s = Inr (ms, r) \<Longrightarrow> length r < length s"
proof (induction s arbitrary: ms rule: measure_induct_rule [of length])
  case (less s)
  from less.prems obtain a k where s: "s = a # k" "a = 34"
    by (auto simp: scan_members.simps [of item s] split: list.splits if_splits)
  with less.prems s obtain e q where q: "scan_chars k = Inr (e, q)"
    by (auto simp: scan_members.simps [of item "34 # k"] result_simps)
  with less.prems s obtain b p where p: "skip_space q = b # p" "b = 58"
    by (auto simp: scan_members.simps [of item "34 # k"] split: list.splits if_splits)
  with less.prems s q obtain v m where v: "item (skip_space p) = Inr (v, m)"
    by (auto simp: scan_members.simps [of item "34 # k"] result_simps)
  with less.prems s q p obtain f n where n: "skip_space m = f # n"
    by (auto simp: scan_members.simps [of item "34 # k"] split: list.splits)
  have rest: "r = n \<or> (length (skip_space n) < length s \<and> (\<exists>ms'. scan_members item (skip_space n) = Inr (ms', r)))"
    using less.prems s q p v n by (auto simp: scan_members.simps [of item "34 # k"] result_simps split: if_splits)
  have "length q < length s" using scan_chars_shorter [OF q] s by simp
  moreover have "length p < length q" using p skip_space_length [of q] by simp
  moreover have "length m < length p" using assms [OF v] skip_space_length [of p] by simp
  moreover have "length n < length m" using n skip_space_length [of m] by simp
  ultimately show ?case using rest less.IH [of "skip_space n"] by fastforce
qed

lemma scan_unsigned_shorter:
  assumes "scan_unsigned negative q = Inr (v, r)"
  shows "length r < length q"
proof -
  define w where "w = (if hd q = 48 then [48] else takeWhile point_digit q)"
  have q: "q \<noteq> []" "point_digit (hd q)"
    using assms by (auto simp: scan_unsigned_def split: if_splits)
  have "length r \<le> length (drop (length w) q)"
    using assms q by (auto simp: scan_unsigned_def w_def [symmetric] Let_def split: if_splits)
  moreover have "w \<noteq> []" using q by (cases q) (auto simp: w_def)
  ultimately show ?thesis using q by (cases w; cases q) auto
qed

lemma scan_number_shorter: "scan_number s = Inr (v, r) \<Longrightarrow> length r < length s"
  by (cases s) (auto simp: scan_number_def dest: scan_unsigned_shorter split: if_splits)

lemma scan_with_shorter:
  assumes "\<And>item t v r. deeper = Some item \<Longrightarrow> item t = Inr (v, r) \<Longrightarrow> length r < length t"
    and "scan_with deeper s = Inr (v, r)"
  shows "length r < length s"
proof -
  obtain c q where s: "s = c # q" using assms(2) by (auto simp: scan_with_def split: list.splits)
  have w: "length (drop n s) < length s" if "n > 0" for n using that s by simp
  have arr: "length r < length q'" if "scan_array item q' = Inr (v, r)" "deeper = Some item" for item q'
    using that scan_items_shorter [of item q' _ r] assms(1)
    by (cases q') (fastforce simp: scan_array_def result_simps split: if_splits)+
  have obj: "length r < length q'" if "scan_object item q' = Inr (v, r)" "deeper = Some item" for item q'
    using that scan_members_shorter [of item q' _ r] assms(1)
    by (cases q') (fastforce simp: scan_object_def result_simps split: if_splits)+
  show ?thesis
    using assms(2) s scan_chars_shorter [of q] arr [of _ "skip_space q"] obj [of _ "skip_space q"]
      scan_number_shorter [of s v r] skip_space_length [of q] w
    by (fastforce simp: scan_with_def result_simps split: if_splits option.splits)
qed

lemma scan_value_shorter: "scan_value depth s = Inr (v, r) \<Longrightarrow> length r < length s"
proof (induction depth arbitrary: s v r)
  case 0
  then show ?case using scan_with_shorter [of None] by simp
next
  case (Suc depth)
  then show ?case using scan_with_shorter [of "Some (scan_value depth)"] by (simp del: scan_value.simps add: scan_value.simps(2))
qed

end
