(* ===== verification/Archive_Roundtrip.thy ===== *)
theory Archive_Roundtrip
  imports Archive_Json
begin

text \<open>
  What \<open>json.dumps\<close> prints, \<open>json.loads\<close> reads back as the same value, and so do the UTF-8 bytes
  of it. \<open>dumpable\<close> says which values: no floats, integers the interpreter prints and reads, dicts
  with their keys in order, nested no deeper than the interpreter's recursion allows.
\<close>

fun dumpable :: "nat \<Rightarrow> ujson \<Rightarrow> bool" where
  "dumpable d UNull = True"
| "dumpable d (UBool b) = True"
| "dumpable d (UInt i) = (length (show_nat (nat \<bar>i\<bar>)) \<le> int_digits_limit)"
| "dumpable d (UFloat t) = False"
| "dumpable d (UStr s) = True"
| "dumpable 0 (UArr vs) = False"
| "dumpable (Suc d) (UArr vs) = list_all (dumpable d) vs"
| "dumpable 0 (UObj ms) = False"
| "dumpable (Suc d) (UObj ms) =
     (distinct (map fst ms) \<and> sorted (map fst ms) \<and> list_all (\<lambda>m. dumpable d (snd m)) ms)"

definition delimited :: "utext \<Rightarrow> bool" where
  "delimited r = (r = [] \<or> hd r \<in> {44, 93, 125, 10})"

lemma skip_space_head: "s \<noteq> [] \<Longrightarrow> \<not> json_space (hd s) \<Longrightarrow> skip_space s = s"
  by (cases s) (simp_all add: skip_space_def)

section \<open>Strings\<close>

lemma hex_value_hex_point: "d < 16 \<Longrightarrow> hex_value (hex_point d) = Some d"
  by (auto simp: hex_value_def hex_point_def point_digit_def)

lemma scan_escape_control:
  assumes "c < 32"
  shows "scan_escape ([117, 48, 48, hex_point (c div 16), hex_point (c mod 16)] @ r) = Some (c, r)"
proof -
  have "hex_value 48 = Some 0" by (simp add: hex_value_def point_digit_def)
  moreover have "c div 16 < 16" "c mod 16 < 16" using assms by simp_all
  ultimately have "hex4 ([48, 48, hex_point (c div 16), hex_point (c mod 16)] @ r) = Some (c, r)"
    by (simp add: hex_value_hex_point)
  then show ?thesis using assms by (simp add: scan_escape_def joined_pair_def high_surrogate_def)
qed

lemma scan_chars_escape: "scan_chars (escape_point c @ s) = rbind (scan_chars s) (\<lambda>(t, q). Inr (c # t, q))"
proof (cases "c < 32 \<and> c \<notin> {10, 13, 9, 12, 8}")
  case True
  then have "scan_escape ([117, 48, 48, hex_point (c div 16), hex_point (c mod 16)] @ s) = Some (c, s)"
    by (intro scan_escape_control) simp
  with True show ?thesis
    by (subst scan_chars.simps) (auto simp: escape_point_def)
next
  case False
  then show ?thesis
    by (subst scan_chars.simps) (auto simp: escape_point_def scan_escape_def)
qed

lemma scan_chars_quoted: "scan_chars (concat (map escape_point s) @ 34 # r) = Inr (s, r)"
proof (induction s)
  case Nil
  show ?case by (simp add: scan_chars.simps)
next
  case (Cons c s)
  then show ?case by (simp add: scan_chars_escape)
qed

section \<open>Numbers\<close>

lemma digit_point: "d < 10 \<Longrightarrow> (of_char (digit_char d) :: nat) = 48 + d"
  by (rule of_char_digit_char)

lemma digits_value_snoc: "digits_value (s @ [c]) = 10 * digits_value s + (c - 48)"
  by (simp add: digits_value_def)

lemma digits_value_show_nat: "digits_value (ascii (show_nat n)) = n"
proof (induction n rule: show_nat.induct)
  case (1 n)
  show ?case
  proof (cases "n < 10")
    case True
    then show ?thesis by (subst show_nat.simps) (simp add: digits_value_def digit_point)
  next
    case False
    then have "digits_value (ascii (show_nat n)) = 10 * (n div 10) + n mod 10"
      using "1.IH" by (subst show_nat.simps) (simp add: digits_value_snoc digit_point)
    then show ?thesis by simp
  qed
qed

lemma show_nat_points: "\<forall>c\<in>set (ascii (show_nat n)). point_digit c"
  by (auto simp: ascii_def point_digit_def digit_point dest!: set_show_nat)

lemma show_nat_hd_zero: "hd (ascii (show_nat n)) = 48 \<longleftrightarrow> n = 0"
proof (induction n rule: show_nat.induct)
  case (1 n)
  show ?case
  proof (cases "n < 10")
    case True
    then show ?thesis by (subst show_nat.simps) (simp add: digit_point)
  next
    case False
    have "ascii (show_nat (n div 10)) \<noteq> []" by simp
    with False show ?thesis using "1.IH" by (subst show_nat.simps) (simp add: hd_append)
  qed
qed

lemma takeWhile_span: "\<forall>c\<in>set w. P c \<Longrightarrow> r = [] \<or> \<not> P (hd r) \<Longrightarrow> takeWhile P (w @ r) = w"
  by (cases r) auto

lemma scan_unsigned_digits:
  assumes "length (show_nat n) \<le> int_digits_limit" "delimited r"
  shows "scan_unsigned negative (ascii (show_nat n) @ r) =
    Inr (UInt (if negative then - int n else int n), r)"
proof -
  define w where "w = ascii (show_nat n)"
  have w: "w \<noteq> []" "\<forall>c\<in>set w. point_digit c" "digits_value w = n" "length w \<le> int_digits_limit"
    using assms show_nat_points by (simp_all add: w_def digits_value_show_nat)
  have r: "r = [] \<or> \<not> point_digit (hd r)" "fraction r = []" "exponent r = []"
    using assms(2) by (auto simp: delimited_def point_digit_def fraction_def exponent_def split: list.splits)
  have zero: "w = [48]" if "hd w = 48"
    using that by (simp add: w_def show_nat_hd_zero show_nat.simps [of 0] digit_point)
  have "(if hd w = 48 then [48] else takeWhile point_digit (w @ r)) = w"
    using zero takeWhile_span [OF w(2) r(1)] by auto
  then show ?thesis
    using w r by (simp add: scan_unsigned_def w_def [symmetric] Let_def)
qed


lemma show_nat_Cons: "\<exists>c q. ascii (show_nat n) = c # q \<and> point_digit c"
  using show_nat_points [of n] by (cases "ascii (show_nat n)") auto

lemma scan_number_printed:
  assumes "dumpable d (UInt i)" "delimited r"
  shows "scan_number (ascii (show_int i) @ r) = Inr (UInt i, r)"
proof (cases "i < 0")
  case True
  then have "scan_unsigned True (ascii (show_nat (nat (- i))) @ r) = Inr (UInt i, r)"
    using assms scan_unsigned_digits [of "nat (- i)" r True] by simp
  with True show ?thesis by (simp add: show_int_def scan_number_def)
next
  case False
  have "\<not> (ascii (show_nat (nat i)) @ r \<noteq> [] \<and> hd (ascii (show_nat (nat i)) @ r) = 45)"
    using show_nat_Cons [of "nat i"] by (auto simp: point_digit_def)
  moreover have "scan_unsigned False (ascii (show_nat (nat i)) @ r) = Inr (UInt i, r)"
    using assms False scan_unsigned_digits [of "nat i" r False] by simp
  ultimately show ?thesis using False unfolding show_int_def scan_number_def by (simp only: if_False)
qed

section \<open>Lists of items and of members\<close>

lemma show_int_head: "\<exists>c q. ascii (show_int i) = c # q \<and> (point_digit c \<or> c = 45)"
proof (cases "i < 0")
  case False
  then show ?thesis using show_nat_Cons [of "nat i"] by (auto simp: show_int_def)
qed (simp add: show_int_def)

lemma print_json_head:
  assumes "dumpable d v"
  shows "\<exists>c q. print_json v = c # q \<and> \<not> json_space c \<and> c \<noteq> 93"
proof (cases v)
  case (UInt i)
  then show ?thesis using show_int_head [of i] by (auto simp: point_digit_def json_space_def)
qed (use assms in \<open>auto simp: quote_text_def json_space_def\<close>)

lemma skip_print [simp]: "dumpable d v \<Longrightarrow> skip_space (print_json v @ r) = print_json v @ r"
  using print_json_head [of d v] by (auto intro!: skip_space_head)

lemma skip_quote [simp]: "skip_space (quote_text k @ r) = quote_text k @ r"
  by (simp add: quote_text_def skip_space_def json_space_def)

lemma skip_mark: "c \<in> {44, 58, 93, 125} \<Longrightarrow> skip_space (c # r) = c # r"
  by (auto simp: skip_space_def json_space_def)

lemma separated_head: "\<exists>q. separated sep (x # xs) @ r = x @ q"
  by (cases xs) simp_all

lemma skip_items: "dumpable d v \<Longrightarrow>
  skip_space (separated [44] (map print_json (v # vs)) @ r) = separated [44] (map print_json (v # vs)) @ r"
  using separated_head [of "[44]" "print_json v" "map print_json vs" r] skip_print [of d v] by auto

lemma scan_items_printed:
  assumes "vs \<noteq> []" and "\<forall>v\<in>set vs. dumpable d v"
    and "\<And>v r. v \<in> set vs \<Longrightarrow> delimited r \<Longrightarrow> item (print_json v @ r) = Inr (v, r)"
  shows "scan_items item (separated [44] (map print_json vs) @ 93 # r) = Inr (vs, r)"
  using assms
proof (induction vs rule: induct_list012)
  case (2 v)
  then show ?case by (subst scan_items.simps) (simp add: delimited_def skip_mark)
next
  case (3 v w vs)
  let ?rest = "separated [44] (map print_json (w # vs)) @ 93 # r"
  have "skip_space ?rest = ?rest" using "3.prems" by (intro skip_items [of d]) simp
  moreover have "item (print_json v @ 44 # ?rest) = Inr (v, 44 # ?rest)"
    using "3.prems" by (simp add: delimited_def)
  moreover have "scan_items item ?rest = Inr (w # vs, r)" using 3 by simp
  ultimately show ?case
    by (subst scan_items.simps) (simp add: skip_mark)
qed simp

definition print_member :: "utext \<times> ujson \<Rightarrow> utext" where
  "print_member m = quote_text (fst m) @ [58] @ print_json (snd m)"

lemma scan_member_printed:
  assumes "dumpable d (snd m)" and "item (print_json (snd m) @ r) = Inr (snd m, r)" and "r \<noteq> []"
  shows "scan_members item (print_member m @ r) =
    (case skip_space r of [] \<Rightarrow> Inl DecodeError
     | f # n \<Rightarrow> if f = 125 then Inr ([m], n)
               else if f = 44 \<and> length (skip_space n) < length (print_member m @ r)
               then rbind (scan_members item (skip_space n)) (\<lambda>(ms, t). Inr (m # ms, t))
               else Inl DecodeError)"
  using assms by (subst scan_members.simps)
    (auto simp: print_member_def quote_text_def scan_chars_quoted skip_mark split: list.splits)

lemma skip_member [simp]: "skip_space (print_member m @ r) = print_member m @ r"
  by (simp add: print_member_def)

lemma skip_members:
  "skip_space (separated [44] (map print_member (m # ms)) @ r) = separated [44] (map print_member (m # ms)) @ r"
  using separated_head [of "[44]" "print_member m" "map print_member ms" r] by auto

lemma scan_members_printed:
  assumes "ms \<noteq> []" and "\<forall>m\<in>set ms. dumpable d (snd m)"
    and "\<And>m r. m \<in> set ms \<Longrightarrow> delimited r \<Longrightarrow> item (print_json (snd m) @ r) = Inr (snd m, r)"
  shows "scan_members item (separated [44] (map print_member ms) @ 125 # r) = Inr (ms, r)"
  using assms
proof (induction ms rule: induct_list012)
  case (2 m)
  then show ?case using scan_member_printed [of d m item "125 # r"] by (simp add: delimited_def skip_mark)
next
  case (3 m n ms)
  let ?rest = "separated [44] (map print_member (n # ms)) @ 125 # r"
  have "skip_space ?rest = ?rest" by (rule skip_members)
  moreover have "item (print_json (snd m) @ 44 # ?rest) = Inr (snd m, 44 # ?rest)"
    using "3.prems" by (simp add: delimited_def)
  moreover have "scan_members item ?rest = Inr (n # ms, r)" using 3 by simp
  ultimately show ?case
    using scan_member_printed [of d m item "44 # ?rest"] "3.prems" by (simp add: skip_mark)
qed simp

section \<open>Values\<close>

lemma scan_array_printed:
  assumes "dumpable (Suc d) (UArr vs)"
    and "\<And>v r. v \<in> set vs \<Longrightarrow> delimited r \<Longrightarrow> item (print_json v @ r) = Inr (v, r)"
  shows "scan_array item (skip_space (separated [44] (map print_json vs) @ 93 # r)) = Inr (UArr vs, r)"
proof (cases vs)
  case (Cons v ws)
  let ?text = "separated [44] (map print_json vs) @ 93 # r"
  have v: "dumpable d v" using assms(1) Cons by simp
  then have "skip_space ?text = ?text" using Cons skip_items by blast
  moreover have "hd ?text \<noteq> 93"
    using print_json_head [OF v] separated_head [of "[44]" "print_json v" "map print_json ws" "93 # r"] Cons by auto
  ultimately show ?thesis
    using scan_items_printed [of vs d item r] assms Cons by (simp add: scan_array_def list_all_iff)
qed (simp add: scan_array_def skip_mark)

lemma scan_object_printed:
  assumes "dumpable (Suc d) (UObj ms)"
    and "\<And>m r. m \<in> set ms \<Longrightarrow> delimited r \<Longrightarrow> item (print_json (snd m) @ r) = Inr (snd m, r)"
  shows "scan_object item (skip_space (separated [44] (map print_member ms) @ 125 # r)) = Inr (UObj ms, r)"
proof (cases ms)
  case (Cons m ns)
  let ?text = "separated [44] (map print_member ms) @ 125 # r"
  have "skip_space ?text = ?text" using Cons skip_members by blast
  moreover have "hd ?text \<noteq> 125"
    using separated_head [of "[44]" "print_member m" "map print_member ns" "125 # r"] Cons
    by (auto simp: print_member_def quote_text_def)
  moreover have "unique_object ms = Inr (UObj ms)"
    using assms(1) by (simp add: unique_object_def dict_of_def sort_key_id_if_sorted)
  ultimately show ?thesis
    using scan_members_printed [of ms d item r] assms Cons by (simp add: scan_object_def list_all_iff)
qed (simp add: scan_object_def skip_mark)

lemma word_at_head: "w \<noteq> [] \<Longrightarrow> word_at w (c # q) \<Longrightarrow> c = of_char (hd w)"
  by (cases w) (auto simp: word_at_def)

text \<open>One level of the scanner on a printed value, with the scanner of the level below.\<close>

lemma print_obj: "print_json (UObj ms) = 123 # separated [44] (map print_member ms) @ [125]"
  by (simp add: print_member_def cong: map_cong)

lemma scan_with_printed:
  assumes "dumpable d v" "delimited r"
    and "deeper = (case d of 0 \<Rightarrow> None | Suc e \<Rightarrow> Some (scan_value e))"
    and "\<And>e w r. d = Suc e \<Longrightarrow> dumpable e w \<Longrightarrow> delimited r \<Longrightarrow> scan_value e (print_json w @ r) = Inr (w, r)"
  shows "scan_with deeper (print_json v @ r) = Inr (v, r)"
proof (cases v)
  case (UInt i)
  obtain c q where c: "ascii (show_int i) = c # q" "point_digit c \<or> c = 45"
    using show_int_head by blast
  have "\<not> word_at ''-Infinity'' (c # q @ r)"
  proof
    assume a: "word_at ''-Infinity'' (c # q @ r)"
    show False
    proof (cases "i < 0")
      case True
      then have "q = ascii (show_nat (nat (- i)))" using c(1) by (simp add: show_int_def)
      then show False using a show_nat_Cons [of "nat (- i)"] by (auto simp: word_at_def point_digit_def)
    next
      case False
      then have "c # q = ascii (show_nat (nat i))" using c(1) by (simp add: show_int_def)
      then show False using a show_nat_Cons [of "nat i"] by (auto simp: word_at_def point_digit_def)
    qed
  qed
  moreover have "scan_number (c # q @ r) = Inr (UInt i, r)"
    using scan_number_printed [of d i r] assms UInt c by simp
  moreover have "c \<notin> {34, 123, 91}" "\<not> word_at ''null'' (c # q @ r)" "\<not> word_at ''true'' (c # q @ r)"
    "\<not> word_at ''false'' (c # q @ r)" "\<not> word_at ''NaN'' (c # q @ r)" "\<not> word_at ''Infinity'' (c # q @ r)"
    using c(2) by (auto simp: word_at_def point_digit_def)
  moreover have "print_json v @ r = c # q @ r" using c(1) UInt by simp
  ultimately show ?thesis using UInt by (simp only: scan_with_def list.case insert_iff de_Morgan_disj if_False)
next
  case (UArr vs)
  then obtain e where e: "d = Suc e" "dumpable (Suc e) (UArr vs)" using assms(1) by (cases d) auto
  have "scan_array (scan_value e) (skip_space (separated [44] (map print_json vs) @ 93 # r)) = Inr (UArr vs, r)"
    using e assms(4) by (intro scan_array_printed) (auto simp: list_all_iff)
  then show ?thesis using UArr e assms(3) by (simp add: scan_with_def)
next
  case (UObj ms)
  then obtain e where e: "d = Suc e" "dumpable (Suc e) (UObj ms)" using assms(1) by (cases d) auto
  have "scan_object (scan_value e) (skip_space (separated [44] (map print_member ms) @ 125 # r)) = Inr (UObj ms, r)"
    using e assms(4) by (intro scan_object_printed) (auto simp: list_all_iff)
  then show ?thesis using UObj e assms(3) by (simp add: scan_with_def print_obj del: print_json.simps)
qed (use assms in \<open>auto simp: scan_with_def word_at_def quote_text_def scan_chars_quoted\<close>)

lemma scan_printed: "dumpable d v \<Longrightarrow> delimited r \<Longrightarrow> scan_value d (print_json v @ r) = Inr (v, r)"
proof (induction d arbitrary: v r)
  case 0
  then show ?case using scan_with_printed [of 0 v r None] by simp
next
  case (Suc d)
  show ?case
    unfolding scan_value.simps by (rule scan_with_printed [OF Suc.prems]) (use Suc.IH in auto)
qed

lemma json_loads_printed:
  assumes "dumpable d v" "delimited r" "skip_space r = []"
  shows "json_loads d (print_json v @ r) = Inr v"
proof -
  obtain c q where c: "print_json v = c # q" "\<not> json_space c" using print_json_head [OF assms(1)] by blast
  have "c \<noteq> 0xFEFF"
  proof (cases v)
    case (UInt i)
    then show ?thesis using c show_int_head [of i] by (auto simp: point_digit_def)
  qed (use assms c in \<open>auto simp: quote_text_def split: if_splits\<close>)
  then show ?thesis
    using c scan_printed [OF assms(1,2)] assms(3) skip_print [OF assms(1)] by (simp add: json_loads_def)
qed

end
