(* ===== verification/Archive_Paths.thy ===== *)
theory Archive_Paths
  imports Archive_Roundtrip
begin

text \<open>
  \<open>src/src/autograde/platform_bundle.py\<close>: errors, limits, what the bundle store takes from outside, and
  the rules for the paths of a bundle: \<open>_member_path\<close>, \<open>_path_key\<close>, \<open>_canonical_component\<close>
  and \<open>_claim_portable_path\<close>, with the small validators \<open>_bundle_kind\<close>, \<open>_digest_hex\<close> and
  \<open>_positive_integer\<close>.
\<close>

section \<open>Errors, members of an archive, limits\<close>

text \<open>The bundle errors, and the Python errors that leave the module as they are.\<close>

datatype archive_error =
    UnsafeBundle | BundleLimit | DigestMismatch | BundleStorage
  | BundleTypeError | BundleValueError | BundleUnicodeError | BundleRecursion | BundleOSError | DecompressError
  | BundleFileExists | BundleFileMissing | BundleIsDirectory

type_synonym 'a ares = "archive_error + 'a"

definition ensured :: "bool \<Rightarrow> archive_error \<Rightarrow> 'a ares \<Rightarrow> 'a ares" where
  "ensured b e r = (if b then r else Inl e)"

lemma ensured_Inr_iff [simp]: "ensured b e r = Inr x \<longleftrightarrow> b \<and> r = Inr x"
  by (simp add: ensured_def)

lemma ensured_True [simp]: "ensured True e r = r"
  by (simp add: ensured_def)

lemma ensured_cong [fundef_cong]: "b = b' \<Longrightarrow> (b' \<Longrightarrow> r = r') \<Longrightarrow> ensured b e r = ensured b' e r'"
  by (simp add: ensured_def)

datatype member_type = RegMember | DirMember | SymMember | LinkMember | DeviceMember | OtherMember

text \<open>How a reading comes to its end: with the data, with an error the store catches (\<open>TarError\<close>,
  \<open>EOFError\<close>, \<open>OSError\<close>) and turns into its own, or with one it does not, as the
  \<open>zlib.error\<close> of the decompressor is.\<close>

datatype stream_end = Complete | Broken | Escaping

definition end_error :: "stream_end \<Rightarrow> archive_error" where
  "end_error x = (if x = Escaping then DecompressError else UnsafeBundle)"

text \<open>A member as \<open>tarfile\<close> hands it out: name, type, size and mode of its header, the bytes
  \<open>extractfile\<close> reads, and how the reading then ends.\<close>

record tar_member =
  tm_name :: utext
  tm_type :: member_type
  tm_size :: int
  tm_mode :: nat
  tm_data :: bytes
  tm_end :: stream_end

text \<open>An archive as it is read: its members, and how the iteration ends.\<close>

record tar_stream =
  ts_members :: "tar_member list"
  ts_end :: stream_end

abbreviation tm_complete :: "tar_member \<Rightarrow> bool" where "tm_complete m \<equiv> tm_end m = Complete"
abbreviation ts_complete :: "tar_stream \<Rightarrow> bool" where "ts_complete s \<equiv> ts_end s = Complete"

text \<open>
  What the store takes from libraries: Unicode's NFKC normalisation and lower case, SHA-256 as 64
  hexadecimal digits, the reader and the writer of gzip-compressed tar archives, the integer a JSON
  float equals, and the recursion depth the interpreter has left.
\<close>

record archive_env =
  nfkc :: "utext \<Rightarrow> utext"
  lower_case :: "utext \<Rightarrow> utext"
  sha256_hex :: "bytes \<Rightarrow> utext"
  read_tar :: "bytes \<Rightarrow> tar_stream"
  write_tar :: "tar_member list \<Rightarrow> bytes"
  float_integer :: "utext \<Rightarrow> int option"
  json_depth :: nat

record store_limits =
  max_compressed :: int
  max_expanded :: int
  max_files :: int
  max_manifest :: int

definition positive_limit :: "ujson \<Rightarrow> int ares" where
  "positive_limit v = (case v of UInt i \<Rightarrow> ensured (0 < i) BundleValueError (Inr i) | _ \<Rightarrow> Inl BundleValueError)"

definition new_limits :: "ujson \<Rightarrow> ujson \<Rightarrow> ujson \<Rightarrow> ujson \<Rightarrow> store_limits ares" where
  "new_limits compressed expanded files manifest =
     rbind (positive_limit compressed) (\<lambda>c. rbind (positive_limit expanded) (\<lambda>e.
     rbind (positive_limit files) (\<lambda>f. rbind (positive_limit manifest) (\<lambda>m.
       Inr \<lparr>max_compressed = c, max_expanded = e, max_files = f, max_manifest = m\<rparr>))))"

definition default_limits :: store_limits where
  "default_limits = \<lparr>max_compressed = 256 * 1024 * 1024, max_expanded = 1024 * 1024 * 1024,
     max_files = 10000, max_manifest = 16 * 1024 * 1024\<rparr>"

section \<open>Constants and small validators\<close>

definition bundle_schema :: utext where "bundle_schema = ascii ''autograde.bundle.v1''"
definition manifest_name :: utext where "manifest_name = ascii ''AUTOGRADE-BUNDLE.json''"
definition max_path_bytes :: nat where "max_path_bytes = 4096"
definition max_component_bytes :: nat where "max_component_bytes = 255"
definition copy_chunk :: nat where "copy_chunk = 1024 * 1024"

datatype bundle_kind = StarterKind | SubmissionKind | AssessmentKind | DataKind

fun kind_text :: "bundle_kind \<Rightarrow> utext" where
  "kind_text StarterKind = ascii ''starter''"
| "kind_text SubmissionKind = ascii ''submission''"
| "kind_text AssessmentKind = ascii ''assessment''"
| "kind_text DataKind = ascii ''data''"

definition bundle_kind_of :: "ujson \<Rightarrow> bundle_kind ares" where
  "bundle_kind_of v =
     (case v of
        UStr s \<Rightarrow>
          (case find (\<lambda>k. kind_text k = s) [StarterKind, SubmissionKind, AssessmentKind, DataKind] of
             Some k \<Rightarrow> Inr k | None \<Rightarrow> Inl BundleValueError)
      | _ \<Rightarrow> Inl BundleValueError)"

text \<open>\<open>str.strip\<close> removes these points.\<close>

definition python_space :: "nat \<Rightarrow> bool" where
  "python_space c = ((9 \<le> c \<and> c \<le> 13) \<or> (28 \<le> c \<and> c \<le> 32) \<or> (8192 \<le> c \<and> c \<le> 8202) \<or>
     c \<in> {133, 160, 5760, 8232, 8233, 8239, 8287, 12288})"

definition strip_text :: "utext \<Rightarrow> utext" where
  "strip_text s = rev (dropWhile python_space (rev (dropWhile python_space s)))"

definition sha_prefix :: utext where "sha_prefix = ascii ''sha256:''"

definition lower_hex :: "nat \<Rightarrow> bool" where
  "lower_hex c = ((48 \<le> c \<and> c \<le> 57) \<or> (97 \<le> c \<and> c \<le> 102))"

definition sha_digest_hex :: "archive_env \<Rightarrow> utext \<Rightarrow> utext ares" where
  "sha_digest_hex e s =
     (let t = lower_case e (strip_text s);
          h = (if take 7 t = sha_prefix then drop 7 t else t)
      in ensured (length h = 64 \<and> list_all lower_hex h) BundleValueError (Inr h))"

section \<open>Paths\<close>

fun split_sep :: "'a \<Rightarrow> 'a list \<Rightarrow> 'a list list" where
  "split_sep c [] = [[]]"
| "split_sep c (x # xs) =
     (if x = c then [] # split_sep c xs
      else (case split_sep c xs of [] \<Rightarrow> [[x]] | p # ps \<Rightarrow> (x # p) # ps))"

abbreviation path_parts :: "utext \<Rightarrow> utext list" where
  "path_parts s \<equiv> split_sep 47 s"

abbreviation join_parts :: "utext list \<Rightarrow> utext" where
  "join_parts ps \<equiv> separated [47] ps"

definition ascii_control :: "nat \<Rightarrow> bool" where
  "ascii_control c = (c < 32 \<or> c = 127)"

definition windows_invalid :: "nat list" where
  "windows_invalid = ascii ''<>:'' @ [34] @ ascii ''|?*''"

definition windows_reserved :: "utext list" where
  "windows_reserved = map ascii [''con'', ''prn'', ''aux'', ''nul''] @
     concat (map (\<lambda>d. [ascii ''com'' @ [d], ascii ''lpt'' @ [d]]) ([49..<58] @ [0xB9, 0xB2, 0xB3]))"

text \<open>NFKC, lower case, and the sharp s and the final sigma replaced.\<close>

definition fold_point :: "nat \<Rightarrow> utext" where
  "fold_point c = (if c = 0xDF then [115, 115] else if c = 0x3C2 then [0x3C3] else [c])"

definition canonical_component :: "archive_env \<Rightarrow> utext \<Rightarrow> utext" where
  "canonical_component e s = concat (map fold_point (lower_case e (nfkc e s)))"

definition path_key :: "archive_env \<Rightarrow> utext \<Rightarrow> utext" where
  "path_key e s = join_parts (map (canonical_component e) (path_parts s))"

text \<open>\<open>PurePosixPath.is_absolute\<close>, and the drive of a \<open>PureWindowsPath\<close> without backslashes: a
  letter with its colon, or a share behind two slashes.\<close>

definition absolute_path :: "utext \<Rightarrow> bool" where
  "absolute_path s = (s \<noteq> [] \<and> hd s = 47)"

definition windows_drive :: "utext \<Rightarrow> bool" where
  "windows_drive s = (take 1 (drop 1 s) = [58] \<or> take 2 s = [47, 47])"

definition ends_with_dot_or_space :: "utext \<Rightarrow> bool" where
  "ends_with_dot_or_space p = (p \<noteq> [] \<and> last p \<in> {46, 32})"

definition windows_unfit :: "archive_env \<Rightarrow> utext \<Rightarrow> bool" where
  "windows_unfit e p = (list_ex (\<lambda>c. c \<in> set windows_invalid) p \<or> ends_with_dot_or_space p \<or>
     lower_case e (takeWhile (\<lambda>c. c \<noteq> 46) p) \<in> set windows_reserved)"

definition safe_component :: "archive_env \<Rightarrow> utext \<Rightarrow> bool" where
  "safe_component e p = (p \<notin> {[], [46], [46, 46]} \<and> length (utf8_bytes p) \<le> max_component_bytes \<and>
     \<not> windows_unfit e p \<and>
     canonical_component e p \<notin> {ascii ''.git'', ascii ''.autograde''})"

definition member_path :: "archive_env \<Rightarrow> utext \<Rightarrow> utext ares" where
  "member_path e s =
     ensured (s \<noteq> [] \<and> \<not> list_ex ascii_control s \<and> 92 \<notin> set s) UnsafeBundle
       (case encode_utf8 s of
          None \<Rightarrow> Inl UnsafeBundle
        | Some encoded \<Rightarrow>
            ensured (length encoded \<le> max_path_bytes) UnsafeBundle
              (ensured (\<not> absolute_path s \<and> \<not> windows_drive s) UnsafeBundle
                (ensured (list_all (safe_component e) (path_parts s)) UnsafeBundle
                  (Inr (join_parts (path_parts s))))))"

section \<open>Claims\<close>

text \<open>\<open>_claim_portable_path\<close>: a path claims itself, with its kind, and its parents, as directories,
  under their keys. A claim is the kind, the spelling, and whether a member of that path was there.\<close>

datatype entry_kind = FileEntry | DirEntry

type_synonym claims = "utext \<rightharpoonup> entry_kind \<times> utext \<times> bool"

definition claim_one :: "archive_env \<Rightarrow> entry_kind \<Rightarrow> bool \<Rightarrow> utext \<Rightarrow> claims \<Rightarrow> claims ares" where
  "claim_one e kind leaf display claims =
     (let key = path_key e display in
      case claims key of
        None \<Rightarrow> Inr (claims(key \<mapsto> (kind, display, leaf)))
      | Some (existing_kind, existing_display, existing_explicit) \<Rightarrow>
          ensured (existing_display = display) UnsafeBundle
            (ensured (existing_kind = kind) UnsafeBundle
              (ensured (\<not> (leaf \<and> existing_explicit)) UnsafeBundle
                (if leaf then Inr (claims(key \<mapsto> (existing_kind, existing_display, True)))
                 else Inr claims))))"

fun claim_parts :: "archive_env \<Rightarrow> entry_kind \<Rightarrow> utext list \<Rightarrow> utext list \<Rightarrow> claims \<Rightarrow> claims ares" where
  "claim_parts e kind outer [] claims = Inr claims"
| "claim_parts e kind outer [p] claims = claim_one e kind True (join_parts (outer @ [p])) claims"
| "claim_parts e kind outer (p # q # ps) claims =
     rbind (claim_one e DirEntry False (join_parts (outer @ [p])) claims)
       (claim_parts e kind (outer @ [p]) (q # ps))"

definition claim_path :: "archive_env \<Rightarrow> entry_kind \<Rightarrow> utext \<Rightarrow> claims \<Rightarrow> claims ares" where
  "claim_path e kind s claims = claim_parts e kind [] (path_parts s) claims"

end
