(* ===== verification/Archive_Claims.thy ===== *)
theory Archive_Claims
  imports Archive_Paths "HOL-Library.Multiset"
begin

text \<open>
  Facts on the paths of a bundle: a path is the join of its parts, an accepted path is returned as it
  is and consists of safe components, and claiming a list of paths succeeds exactly when no two of the
  claims disagree, whatever the order of the paths.
\<close>

section \<open>Parts of a path\<close>

lemma split_sep_not_Nil [simp]: "split_sep c s \<noteq> []"
  by (induction s) (auto split: list.splits)

lemma separated_Cons: "ps \<noteq> [] \<Longrightarrow> separated sep (p # ps) = p @ sep @ separated sep ps"
  by (cases ps) simp_all

lemma join_split [simp]: "separated [c] (split_sep c s) = s"
proof (induction s)
  case (Cons x s)
  show ?case
  proof (cases "split_sep c s")
    case (Cons p ps)
    with Cons.IH show ?thesis by (cases ps) (auto simp: separated_Cons)
  qed simp
qed simp

lemma split_sep_parts: "p \<in> set (split_sep c s) \<Longrightarrow> c \<notin> set p"
  by (induction s arbitrary: p) (fastforce split: if_splits list.splits)+

lemma split_sep_prefix: "c \<notin> set p \<Longrightarrow> split_sep c (p @ c # s) = p # split_sep c s"
  by (induction p) (auto split: list.splits)

lemma split_sep_single: "c \<notin> set p \<Longrightarrow> split_sep c p = [p]"
  by (induction p) auto

lemma split_join: "ps \<noteq> [] \<Longrightarrow> (\<And>p. p \<in> set ps \<Longrightarrow> c \<notin> set p) \<Longrightarrow> split_sep c (separated [c] ps) = ps"
  by (induction ps rule: induct_list012) (auto simp: split_sep_single split_sep_prefix)

lemma split_sep_inject: "split_sep c s = split_sep c t \<longleftrightarrow> s = t"
  by (metis join_split)

lemma path_key_join:
  "ps \<noteq> [] \<Longrightarrow> (\<And>p. p \<in> set ps \<Longrightarrow> 47 \<notin> set p) \<Longrightarrow>
   path_key e (join_parts ps) = join_parts (map (canonical_component e) ps)"
  by (simp add: path_key_def split_join)

section \<open>Accepted paths\<close>

text \<open>What \<open>_member_path\<close> accepts.\<close>

definition safe_path :: "archive_env \<Rightarrow> utext \<Rightarrow> bool" where
  "safe_path e s = (s \<noteq> [] \<and> \<not> list_ex ascii_control s \<and> 92 \<notin> set s \<and> \<not> list_ex surrogate s \<and>
     length (utf8_bytes s) \<le> max_path_bytes \<and> \<not> absolute_path s \<and> \<not> windows_drive s \<and>
     list_all (safe_component e) (path_parts s))"

lemma member_path_Inr [simp]: "member_path e s = Inr t \<longleftrightarrow> t = s \<and> safe_path e s"
  by (auto simp: member_path_def safe_path_def encode_utf8_def)

lemma member_path_cases: "member_path e s = (if safe_path e s then Inr s else Inl UnsafeBundle)"
  by (auto simp: member_path_def safe_path_def encode_utf8_def ensured_def)

lemma safe_path_parts: "safe_path e s \<Longrightarrow> p \<in> set (path_parts s) \<Longrightarrow> safe_component e p"
  by (simp add: safe_path_def list_all_iff)

section \<open>Claims of a path\<close>

type_synonym claim = "entry_kind \<times> utext \<times> bool"

fun claims_of :: "entry_kind \<Rightarrow> utext list \<Rightarrow> utext list \<Rightarrow> claim list" where
  "claims_of kind outer [] = []"
| "claims_of kind outer [p] = [(kind, join_parts (outer @ [p]), True)]"
| "claims_of kind outer (p # q # ps) =
     (DirEntry, join_parts (outer @ [p]), False) # claims_of kind (outer @ [p]) (q # ps)"

fun claim_list :: "archive_env \<Rightarrow> claim list \<Rightarrow> claims \<Rightarrow> claims ares" where
  "claim_list e [] claims = Inr claims"
| "claim_list e ((kind, display, leaf) # cs) claims =
     rbind (claim_one e kind leaf display claims) (claim_list e cs)"

definition path_claims :: "entry_kind \<times> utext \<Rightarrow> claim list" where
  "path_claims m = claims_of (fst m) [] (path_parts (snd m))"

lemma claim_parts_list: "claim_parts e kind outer ps claims = claim_list e (claims_of kind outer ps) claims"
proof (induction kind outer ps arbitrary: claims rule: claims_of.induct)
  case (2 kind outer p)
  show ?case by (cases "claim_one e kind True (join_parts (outer @ [p])) claims") simp_all
next
  case (3 kind outer p q ps)
  then show ?case
    by (cases "claim_one e DirEntry False (join_parts (outer @ [p])) claims") simp_all
qed simp

lemma claim_path_list: "claim_path e kind s claims = claim_list e (path_claims (kind, s)) claims"
  by (simp add: claim_path_def path_claims_def claim_parts_list)

lemma claim_list_append: "claim_list e (cs @ ds) claims = rbind (claim_list e cs claims) (claim_list e ds)"
proof (induction cs arbitrary: claims)
  case (Cons c cs)
  obtain kind display leaf where "c = (kind, display, leaf)" by (cases c)
  then show ?case using Cons by (cases "claim_one e kind leaf display claims") simp_all
qed simp

lemma claims_of_members:
  "c \<in> set (claims_of kind outer ps) \<longleftrightarrow>
   ps \<noteq> [] \<and> (c = (kind, join_parts (outer @ ps), True) \<or>
     (\<exists>i. 0 < i \<and> i < length ps \<and> c = (DirEntry, join_parts (outer @ take i ps), False)))"
proof (induction kind outer ps rule: claims_of.induct)
  case (3 kind outer p q ps)
  have "(\<exists>i. 0 < i \<and> i < length (p # q # ps) \<and> c = (DirEntry, join_parts (outer @ take i (p # q # ps)), False)) \<longleftrightarrow>
     c = (DirEntry, join_parts (outer @ [p]), False) \<or>
     (\<exists>i. 0 < i \<and> i < length (q # ps) \<and> c = (DirEntry, join_parts ((outer @ [p]) @ take i (q # ps)), False))"
    (is "(\<exists>i. ?P i) \<longleftrightarrow> ?A \<or> (\<exists>i. ?Q i)")
  proof
    assume "\<exists>i. ?P i"
    then obtain i where i: "?P i" by blast
    then show "?A \<or> (\<exists>i. ?Q i)"
      by (cases "i = 1") (auto intro!: exI [of _ "i - 1"] simp: take_Cons')
  next
    assume "?A \<or> (\<exists>i. ?Q i)"
    then show "\<exists>i. ?P i"
    proof
      assume ?A
      then show ?thesis by (intro exI [of _ 1]) simp
    next
      assume "\<exists>i. ?Q i"
      then obtain i where "?Q i" by blast
      then show ?thesis by (intro exI [of _ "Suc i"]) simp
    qed
  qed
  then show ?case using 3 by simp blast
qed auto

section \<open>Agreement of claims\<close>

definition claim_key :: "archive_env \<Rightarrow> claim \<Rightarrow> utext" where
  "claim_key e c = path_key e (fst (snd c))"

definition agreeing :: "archive_env \<Rightarrow> claim \<Rightarrow> claim \<Rightarrow> bool" where
  "agreeing e c d = (claim_key e c = claim_key e d \<longrightarrow>
     fst c = fst d \<and> fst (snd c) = fst (snd d) \<and> \<not> (snd (snd c) \<and> snd (snd d)))"

lemma agreeing_sym: "agreeing e c d \<longleftrightarrow> agreeing e d c"
  by (auto simp: agreeing_def)

definition claimed :: "archive_env \<Rightarrow> claim list \<Rightarrow> claims" where
  "claimed e cs k =
     (case filter (\<lambda>c. claim_key e c = k) cs of [] \<Rightarrow> None
      | c # ds \<Rightarrow> Some (fst c, fst (snd c), \<exists>d\<in>set (c # ds). snd (snd d)))"

lemma claim_one_claimed:
  assumes "sorted_wrt (agreeing e) cs"
  shows "claim_one e kind leaf display (claimed e cs) =
    (if \<forall>c\<in>set cs. agreeing e c (kind, display, leaf) then Inr (claimed e (cs @ [(kind, display, leaf)]))
     else Inl UnsafeBundle)"
proof -
  let ?k = "path_key e display"
  let ?f = "filter (\<lambda>c. claim_key e c = ?k) cs"
  have k: "claim_key e (kind, display, leaf) = ?k" by (simp add: claim_key_def)
  have other: "claimed e (cs @ [(kind, display, leaf)]) k = claimed e cs k" if "k \<noteq> ?k" for k
    using that by (simp add: claimed_def claim_key_def)
  show ?thesis
  proof (cases ?f)
    case Nil
    then have "\<forall>c\<in>set cs. agreeing e c (kind, display, leaf)"
      by (auto simp: agreeing_def k filter_empty_conv)
    moreover have "claimed e (cs @ [(kind, display, leaf)]) ?k = Some (kind, display, leaf)"
      using Nil by (simp add: claimed_def k)
    ultimately show ?thesis
      using Nil other by (auto simp: claim_one_def claimed_def [of e cs ?k] Let_def fun_eq_iff)
  next
    case (Cons c ds)
    have in_f: "d \<in> set (c # ds) \<longleftrightarrow> d \<in> set cs \<and> claim_key e d = ?k" for d
      using Cons by (metis (mono_tags, lifting) mem_Collect_eq set_filter)
    then have keys: "\<forall>d\<in>set (c # ds). claim_key e d = ?k" by blast
    have "sorted_wrt (agreeing e) ?f" using assms by (rule sorted_wrt_filter)
    then have head: "\<forall>d\<in>set ds. fst d = fst c \<and> fst (snd d) = fst (snd c)"
      using Cons keys by (auto simp: agreeing_def)
    have iff: "(\<forall>c\<in>set cs. agreeing e c (kind, display, leaf)) \<longleftrightarrow>
      fst c = kind \<and> fst (snd c) = display \<and> \<not> (leaf \<and> (\<exists>d\<in>set (c # ds). snd (snd d)))"
    proof -
      have "(\<forall>c\<in>set cs. agreeing e c (kind, display, leaf)) \<longleftrightarrow>
        (\<forall>d\<in>set (c # ds). fst d = kind \<and> fst (snd d) = display \<and> \<not> (snd (snd d) \<and> leaf))"
        unfolding agreeing_def k using in_f by (metis fst_conv snd_conv)
      then show ?thesis using head by auto
    qed
    have new: "claimed e (cs @ [(kind, display, leaf)]) ?k =
      Some (fst c, fst (snd c), (\<exists>d\<in>set (c # ds). snd (snd d)) \<or> leaf)"
      using Cons by (auto simp: claimed_def k)
    have old: "claimed e cs ?k = Some (fst c, fst (snd c), \<exists>d\<in>set (c # ds). snd (snd d))"
      using Cons by (simp add: claimed_def)
    have same: "claimed e (cs @ [(kind, display, leaf)]) =
      (claimed e cs)(?k \<mapsto> (fst c, fst (snd c), (\<exists>d\<in>set (c # ds). snd (snd d)) \<or> leaf))"
      using other new by (auto simp: fun_eq_iff)
    define x where "x = (\<exists>d\<in>set (c # ds). snd (snd d))"
    show ?thesis
      unfolding claim_one_def Let_def old option.case prod.case iff same
      using old unfolding x_def [symmetric]
      by (cases x; cases leaf) (auto simp: ensured_def fun_upd_idem)
  qed
qed

lemma claim_list_claimed:
  "sorted_wrt (agreeing e) cs \<Longrightarrow>
   claim_list e ds (claimed e cs) =
     (if sorted_wrt (agreeing e) (cs @ ds) then Inr (claimed e (cs @ ds)) else Inl UnsafeBundle)"
proof (induction ds arbitrary: cs)
  case (Cons d ds)
  obtain kind display leaf where d: "d = (kind, display, leaf)" by (cases d)
  show ?case
  proof (cases "\<forall>c\<in>set cs. agreeing e c d")
    case True
    then have s: "sorted_wrt (agreeing e) (cs @ [d])" using Cons.prems by (simp add: sorted_wrt_append)
    show ?thesis using Cons.IH [OF s] True d Cons.prems by (simp add: claim_one_claimed)
  next
    case False
    then have "\<not> sorted_wrt (agreeing e) (cs @ d # ds)" by (simp add: sorted_wrt_append) blast
    then show ?thesis using False d Cons.prems by (auto simp: claim_one_claimed)
  qed
qed simp

lemma claimed_Nil: "claimed e [] = Map.empty"
  by (simp add: claimed_def fun_eq_iff)

lemma sorted_wrt_reorder:
  assumes "\<And>x y. R x y \<longleftrightarrow> R y x"
  shows "mset xs = mset ys \<Longrightarrow> sorted_wrt R xs \<Longrightarrow> sorted_wrt R ys"
proof (induction ys arbitrary: xs)
  case (Cons y ys)
  then obtain as bs where xs: "xs = as @ y # bs"
    by (metis in_set_conv_decomp list.set_intros(1) set_mset_mset)
  with Cons.prems have m: "mset (as @ bs) = mset ys" by simp
  have "sorted_wrt R (as @ bs)" "\<forall>z\<in>set (as @ bs). R y z"
    using Cons.prems(2) xs assms by (auto simp: sorted_wrt_append)
  then show ?case using Cons.IH [OF m] m by (metis mset_eq_setD sorted_wrt.simps(2))
qed simp

end
