(* ===== verification/Archive_Manifest.thy ===== *)
theory Archive_Manifest
  imports Archive_Claims
begin

text \<open>
  \<open>src/src/autograde/platform_bundle.py\<close>: \<open>BundleFile\<close> and \<open>BundleMetadata\<close> with their JSON forms,
  \<open>_metadata_from_manifest_document\<close>, \<open>_validate_manifest\<close>, and the sidecar
  \<open>metadata.json\<close> that is stored beside an archive: \<open>_write_sidecar\<close> and
  \<open>_metadata_from_sidecar\<close>.
\<close>

record bundle_file =
  bf_path :: utext
  bf_size :: int
  bf_sha256 :: utext
  bf_executable :: bool

record bundle_meta =
  me_schema :: utext
  me_kind :: bundle_kind
  me_directories :: "utext list"
  me_files :: "bundle_file list"
  me_file_count :: int
  me_member_count :: int
  me_expanded :: int
  me_manifest_bytes :: int

section \<open>JSON forms\<close>

definition file_dict :: "bundle_file \<Rightarrow> ujson" where
  "file_dict f = dict_of
     [(ascii ''path'', UStr (bf_path f)), (ascii ''size'', UInt (bf_size f)),
      (ascii ''sha256'', UStr (bf_sha256 f)), (ascii ''executable'', UBool (bf_executable f))]"

definition manifest_dict :: "bundle_meta \<Rightarrow> ujson" where
  "manifest_dict m = dict_of
     [(ascii ''schema'', UStr (me_schema m)), (ascii ''kind'', UStr (kind_text (me_kind m))),
      (ascii ''directories'', UArr (map UStr (me_directories m))),
      (ascii ''files'', UArr (map file_dict (me_files m))),
      (ascii ''totals'', dict_of
         [(ascii ''file_count'', UInt (me_file_count m)), (ascii ''expanded_bytes'', UInt (me_expanded m))])]"

definition manifest_bytes :: "ujson \<Rightarrow> bytes ares" where
  "manifest_bytes document =
     (case encode_utf8 (print_json document @ [10]) of None \<Rightarrow> Inl BundleUnicodeError | Some raw \<Rightarrow> Inr raw)"

definition sidecar_dict :: "utext \<Rightarrow> int \<Rightarrow> bundle_meta \<Rightarrow> ujson" where
  "sidecar_dict archive_sha256 compressed m = dict_of
     [(ascii ''archive_sha256'', UStr archive_sha256), (ascii ''compressed_bytes'', UInt compressed),
      (ascii ''manifest'', manifest_dict m), (ascii ''member_count'', UInt (me_member_count m)),
      (ascii ''manifest_bytes'', UInt (me_manifest_bytes m))]"

section \<open>The manifest document\<close>

definition has_keys :: "string list \<Rightarrow> (utext \<times> ujson) list \<Rightarrow> bool" where
  "has_keys ks ms = (set (map fst ms) = set (map ascii ks))"

definition get_item :: "string \<Rightarrow> (utext \<times> ujson) list \<Rightarrow> ujson" where
  "get_item k ms = (case map_of ms (ascii k) of None \<Rightarrow> UNull | Some v \<Rightarrow> v)"

text \<open>\<open>except (TypeError, ValueError)\<close>, to which \<open>UnicodeEncodeError\<close> belongs, around a check.\<close>

definition python_errors_as :: "archive_error \<Rightarrow> 'a ares \<Rightarrow> 'a ares" where
  "python_errors_as e r =
     (case r of Inl x \<Rightarrow> Inl (if x \<in> {BundleTypeError, BundleValueError, BundleUnicodeError} then e else x)
      | Inr v \<Rightarrow> Inr v)"

definition manifest_path :: "archive_env \<Rightarrow> ujson \<Rightarrow> utext ares" where
  "manifest_path e v =
     (case v of UStr s \<Rightarrow> rbind (member_path e s) (\<lambda>p. ensured (p = s) UnsafeBundle (Inr s))
      | _ \<Rightarrow> Inl UnsafeBundle)"

definition manifest_file :: "archive_env \<Rightarrow> ujson \<Rightarrow> bundle_file ares" where
  "manifest_file e v =
     (case v of
        UObj ms \<Rightarrow>
          ensured (has_keys [''path'', ''size'', ''sha256'', ''executable''] ms) UnsafeBundle
            (rbind (manifest_path e (get_item ''path'' ms)) (\<lambda>path.
             case get_item ''size'' ms of
               UInt nbytes \<Rightarrow>
                 ensured (0 \<le> nbytes) UnsafeBundle
                   (case get_item ''sha256'' ms of
                      UStr digest \<Rightarrow>
                        rbind (sha_digest_hex e digest) (\<lambda>h.
                          case get_item ''executable'' ms of
                            UBool x \<Rightarrow> Inr \<lparr>bf_path = path, bf_size = nbytes, bf_sha256 = sha_prefix @ h, bf_executable = x\<rparr>
                          | _ \<Rightarrow> Inl UnsafeBundle)
                    | _ \<Rightarrow> Inl UnsafeBundle)
             | _ \<Rightarrow> Inl UnsafeBundle))
      | _ \<Rightarrow> Inl UnsafeBundle)"

definition sorted_paths :: "utext list \<Rightarrow> utext list" where
  "sorted_paths ps = sort_key utf8_bytes ps"

definition sorted_files :: "bundle_file list \<Rightarrow> bundle_file list" where
  "sorted_files fs = sort_key (\<lambda>f. utf8_bytes (bf_path f)) fs"

definition total_size :: "bundle_file list \<Rightarrow> int" where
  "total_size fs = sum_list (map bf_size fs)"

definition manifest_totals :: "bundle_file list \<Rightarrow> (utext \<times> ujson) list \<Rightarrow> bool" where
  "manifest_totals files totals = (has_keys [''file_count'', ''expanded_bytes''] totals \<and>
     get_item ''file_count'' totals = UInt (int (length files)) \<and>
     get_item ''expanded_bytes'' totals = UInt (total_size files))"

definition metadata_from_manifest_document :: "archive_env \<Rightarrow> ujson \<Rightarrow> int \<Rightarrow> int \<Rightarrow> bundle_meta ares" where
  "metadata_from_manifest_document e document member_count nbytes =
     (case document of
        UObj ms \<Rightarrow>
          ensured (has_keys [''schema'', ''kind'', ''directories'', ''files'', ''totals''] ms) UnsafeBundle
          (ensured (get_item ''schema'' ms = UStr bundle_schema) UnsafeBundle
          (rbind (python_errors_as UnsafeBundle (bundle_kind_of (get_item ''kind'' ms))) (\<lambda>kind.
           case (get_item ''directories'' ms, get_item ''files'' ms, get_item ''totals'' ms) of
             (UArr raw_directories, UArr raw_files, UObj totals) \<Rightarrow>
               rbind (rmapM (manifest_path e) raw_directories) (\<lambda>directories.
               rbind (rmapM (manifest_file e) raw_files) (\<lambda>files.
               ensured (directories = sorted_paths directories) UnsafeBundle
               (ensured (files = sorted_files files) UnsafeBundle
               (ensured (manifest_totals files totals) UnsafeBundle
               (ensured (member_count = int (length directories + length files)) UnsafeBundle
                 (Inr \<lparr>me_schema = bundle_schema, me_kind = kind, me_directories = directories, me_files = files,
                    me_file_count = int (length files), me_member_count = member_count,
                    me_expanded = total_size files, me_manifest_bytes = nbytes\<rparr>))))))
           | _ \<Rightarrow> Inl UnsafeBundle)))
      | _ \<Rightarrow> Inl UnsafeBundle)"

text \<open>The metadata of what the archive really holds; \<open>expected\<close> is its dict.\<close>

definition actual_meta :: "bundle_kind \<Rightarrow> utext list \<Rightarrow> bundle_file list \<Rightarrow> int \<Rightarrow> int \<Rightarrow> bundle_meta" where
  "actual_meta kind directories files member_count nbytes =
     \<lparr>me_schema = bundle_schema, me_kind = kind, me_directories = sorted_paths directories,
      me_files = sorted_files files, me_file_count = int (length (sorted_files files)),
      me_member_count = member_count, me_expanded = total_size (sorted_files files), me_manifest_bytes = nbytes\<rparr>"

definition load_document :: "archive_env \<Rightarrow> archive_error \<Rightarrow> bytes \<Rightarrow> ujson ares" where
  "load_document e unreadable raw =
     (case decode_utf8 raw of
        None \<Rightarrow> Inl unreadable
      | Some s \<Rightarrow>
          (case json_loads (json_depth e) s of
             Inl DecodeError \<Rightarrow> Inl unreadable
           | Inl DepthError \<Rightarrow> Inl BundleRecursion
           | Inr document \<Rightarrow> Inr document))"

definition validate_manifest ::
  "archive_env \<Rightarrow> bytes \<Rightarrow> utext list \<Rightarrow> bundle_file list \<Rightarrow> int \<Rightarrow> bundle_meta ares" where
  "validate_manifest e raw directories files member_count =
     rbind (load_document e UnsafeBundle raw) (\<lambda>document.
     rbind (python_errors_as UnsafeBundle
        (metadata_from_manifest_document e document member_count (int (length raw)))) (\<lambda>declared.
     ensured (document = manifest_dict declared) UnsafeBundle
     (rbind (manifest_bytes (manifest_dict declared)) (\<lambda>canonical.
     ensured (raw = canonical) UnsafeBundle
     (let actual = actual_meta (me_kind declared) directories files member_count (int (length raw))
      in ensured (document = manifest_dict actual) UnsafeBundle (Inr actual))))))"

section \<open>The sidecar\<close>

definition write_sidecar :: "utext \<Rightarrow> int \<Rightarrow> bundle_meta \<Rightarrow> bytes ares" where
  "write_sidecar archive_sha256 compressed m = manifest_bytes (sidecar_dict archive_sha256 compressed m)"

text \<open>A JSON value equals an integer also as a float or as a boolean.\<close>

definition equals_integer :: "archive_env \<Rightarrow> ujson \<Rightarrow> int \<Rightarrow> bool" where
  "equals_integer e v n =
     (case v of UInt i \<Rightarrow> i = n | UBool b \<Rightarrow> (if b then 1 else 0) = n | UFloat t \<Rightarrow> float_integer e t = Some n
      | _ \<Rightarrow> False)"

definition bundle_errors_as :: "archive_error \<Rightarrow> 'a ares \<Rightarrow> 'a ares" where
  "bundle_errors_as e r =
     (case r of Inl x \<Rightarrow> Inl (if x \<in> {UnsafeBundle, BundleLimit, DigestMismatch, BundleStorage} then e else x)
      | Inr v \<Rightarrow> Inr v)"

definition metadata_from_sidecar :: "archive_env \<Rightarrow> ujson \<Rightarrow> utext \<Rightarrow> int \<Rightarrow> bundle_meta ares" where
  "metadata_from_sidecar e document digest compressed =
     (case document of
        UObj ms \<Rightarrow>
          ensured (has_keys [''archive_sha256'', ''compressed_bytes'', ''manifest'', ''member_count'', ''manifest_bytes''] ms)
            BundleStorage
          (ensured (get_item ''archive_sha256'' ms = UStr (sha_prefix @ digest)) BundleStorage
          (ensured (equals_integer e (get_item ''compressed_bytes'' ms) compressed) BundleStorage
          (case (get_item ''member_count'' ms, get_item ''manifest_bytes'' ms) of
             (UInt member_count, UInt nbytes) \<Rightarrow>
               rbind (python_errors_as BundleStorage (bundle_errors_as BundleStorage
                 (rbind (manifest_bytes (get_item ''manifest'' ms)) (\<lambda>raw.
                  rbind (metadata_from_manifest_document e (get_item ''manifest'' ms) member_count nbytes) (\<lambda>m.
                    Inr (raw, m)))))) (\<lambda>(raw, m).
               ensured (int (length raw) = nbytes) BundleStorage (Inr m))
           | _ \<Rightarrow> Inl BundleStorage)))
      | _ \<Rightarrow> Inl BundleStorage)"

end
