(* ===== verification/Archive_Reading.thy ===== *)
theory Archive_Reading
  imports Archive_Manifest
begin

text \<open>
  \<open>src/src/autograde/platform_bundle.py\<close>: reading. \<open>_receive_bounded\<close> copies an input of unknown
  length, \<open>_validate_archive\<close> checks the members of an archive and their contents, and
  \<open>_extract_payload\<close> writes them below a directory.
\<close>

section \<open>Receiving\<close>

text \<open>What one \<open>source.read(n)\<close> gives.\<close>

datatype reply = Chunk bytes | ReadRaises | NotBytes

text \<open>The loop of \<open>_receive_bounded\<close>; the third argument is what has been written. It ends because
  every chunk that is kept is not empty and fits into what remains of the limit.\<close>

function receive_chunks :: "store_limits \<Rightarrow> ('s \<Rightarrow> nat \<Rightarrow> reply \<times> 's) \<Rightarrow> bytes \<Rightarrow> 's \<Rightarrow> bytes ares" where
  "receive_chunks lim reader written s =
     (let remaining = max_compressed lim - int (length written);
          requested = nat (min (int copy_chunk) (remaining + 1));
          (answer, s') = reader s requested
      in case answer of
           ReadRaises \<Rightarrow> Inl UnsafeBundle
         | NotBytes \<Rightarrow> Inl BundleTypeError
         | Chunk c \<Rightarrow>
             if c = [] then Inr written
             else if requested < length c then Inl BundleTypeError
             else if remaining < int (length c) then Inl BundleLimit
             else receive_chunks lim reader (written @ c) s')"
  by pat_completeness auto
termination
proof (relation "measure (\<lambda>(lim, reader, written, s). nat (max_compressed lim - int (length written)))", goal_cases)
  case (2 lim reader written s remaining requested x answer s' c)
  then have "int (length written) < max_compressed lim" by (cases c) simp_all
  with 2 show ?case by simp
qed simp

declare receive_chunks.simps [simp del]

definition receive_bounded ::
  "archive_env \<Rightarrow> store_limits \<Rightarrow> ('s \<Rightarrow> nat \<Rightarrow> reply \<times> 's) \<Rightarrow> 's \<Rightarrow> (utext \<times> int \<times> bytes) ares" where
  "receive_bounded e lim reader s =
     rbind (receive_chunks lim reader [] s) (\<lambda>raw. Inr (sha256_hex e raw, int (length raw), raw))"

text \<open>An open regular file.\<close>

definition read_file :: "bytes \<Rightarrow> nat \<Rightarrow> reply \<times> bytes" where
  "read_file s n = (Chunk (take n s), drop n s)"

section \<open>The members of an archive\<close>

definition octal :: "nat \<Rightarrow> nat \<Rightarrow> nat \<Rightarrow> nat" where
  "octal u g w = 64 * u + 8 * g + w"

text \<open>\<open>mode & 0o111\<close>\<close>

definition executable_mode :: "nat \<Rightarrow> bool" where
  "executable_mode m = (bit m 6 \<or> bit m 3 \<or> bit m 0)"

record archive_entry =
  ae_member :: tar_member
  ae_path :: utext
  ae_directory :: bool
  ae_manifest :: bool

record reading =
  rd_entries :: "archive_entry list"
  rd_paths :: "utext \<rightharpoonup> entry_kind \<times> utext"
  rd_claims :: claims
  rd_manifest :: bool
  rd_payload :: int
  rd_declared :: int

definition no_reading :: reading where
  "no_reading = \<lparr>rd_entries = [], rd_paths = Map.empty, rd_claims = Map.empty, rd_manifest = False,
     rd_payload = 0, rd_declared = 0\<rparr>"

definition is_manifest_key :: "archive_env \<Rightarrow> utext \<Rightarrow> bool" where
  "is_manifest_key e path = (path_key e path = path_key e manifest_name)"

text \<open>The check of type, size and mode: the kind of the member and the bytes declared with it.\<close>

definition check_member :: "store_limits \<Rightarrow> bool \<Rightarrow> tar_member \<Rightarrow> int \<Rightarrow> (entry_kind \<times> int) ares" where
  "check_member lim manifest m declared =
     (case tm_type m of
        DirMember \<Rightarrow>
          ensured (\<not> manifest) UnsafeBundle (ensured (tm_size m = 0) UnsafeBundle (Inr (DirEntry, declared)))
      | RegMember \<Rightarrow>
          ensured (0 \<le> tm_size m) UnsafeBundle
          (ensured (declared + tm_size m \<le> max_expanded lim) BundleLimit
          (ensured (manifest \<longrightarrow> tm_size m \<le> max_manifest lim) BundleLimit
          (ensured (\<not> (manifest \<and> executable_mode (tm_mode m))) UnsafeBundle
            (Inr (FileEntry, declared + tm_size m)))))
      | SymMember \<Rightarrow> Inl UnsafeBundle
      | LinkMember \<Rightarrow> Inl UnsafeBundle
      | DeviceMember \<Rightarrow> Inl UnsafeBundle
      | OtherMember \<Rightarrow> Inl UnsafeBundle)"

definition count_member :: "store_limits \<Rightarrow> bool \<Rightarrow> reading \<Rightarrow> (bool \<times> int) ares" where
  "count_member lim manifest st =
     (if manifest then ensured (\<not> rd_manifest st) UnsafeBundle (Inr (True, rd_payload st))
      else ensured (rd_payload st + 1 \<le> max_files lim) BundleLimit (Inr (rd_manifest st, rd_payload st + 1)))"

definition read_member :: "archive_env \<Rightarrow> store_limits \<Rightarrow> tar_member \<Rightarrow> reading \<Rightarrow> reading ares" where
  "read_member e lim m st =
     rbind (member_path e (tm_name m)) (\<lambda>path.
     let key = path_key e path; manifest = is_manifest_key e path in
     ensured (rd_paths st key = None) UnsafeBundle
     (ensured (manifest \<longrightarrow> tm_name m = manifest_name) UnsafeBundle
     (rbind (check_member lim manifest m (rd_declared st)) (\<lambda>(kind, declared).
      rbind (claim_path e kind path (rd_claims st)) (\<lambda>claims.
      rbind (count_member lim manifest st) (\<lambda>(seen, payload).
        Inr \<lparr>rd_entries = rd_entries st @
               [\<lparr>ae_member = m, ae_path = path, ae_directory = (tm_type m = DirMember), ae_manifest = manifest\<rparr>],
             rd_paths = (rd_paths st)(key \<mapsto> (kind, tm_name m)), rd_claims = claims, rd_manifest = seen,
             rd_payload = payload, rd_declared = declared\<rparr>))))))"

fun read_members :: "archive_env \<Rightarrow> store_limits \<Rightarrow> tar_member list \<Rightarrow> reading \<Rightarrow> reading ares" where
  "read_members e lim [] st = Inr st"
| "read_members e lim (m # ms) st = rbind (read_member e lim m st) (read_members e lim ms)"

text \<open>A file among the ancestors of an entry.\<close>

definition below_file :: "archive_env \<Rightarrow> reading \<Rightarrow> archive_entry \<Rightarrow> bool" where
  "below_file e st entry =
     (let parts = path_parts (ae_path entry)
      in list_ex (\<lambda>i. case rd_paths st (path_key e (join_parts (take i parts))) of
                    None \<Rightarrow> False | Some (kind, name) \<Rightarrow> kind \<noteq> DirEntry) [1..<length parts])"

section \<open>The contents of an archive\<close>

function chunks :: "nat \<Rightarrow> 'a list \<Rightarrow> 'a list list" where
  "chunks n xs = (if xs = [] \<or> n = 0 then [] else take n xs # chunks n (drop n xs))"
  by pat_completeness auto
termination by (relation "measure (\<lambda>(n, xs). length xs)") auto

declare chunks.simps [simp del]

text \<open>The counts of one member and of the archive, chunk by chunk.\<close>

fun drain :: "store_limits \<Rightarrow> int \<Rightarrow> int \<Rightarrow> int \<Rightarrow> bytes list \<Rightarrow> (int \<times> int) ares" where
  "drain lim declared got used [] = Inr (got, used)"
| "drain lim declared got used (c # cs) =
     (let got' = got + int (length c); used' = used + int (length c)
      in if declared < got' \<or> max_expanded lim < used' then Inl BundleLimit
         else drain lim declared got' used' cs)"

definition read_content :: "store_limits \<Rightarrow> tar_member \<Rightarrow> int \<Rightarrow> int ares" where
  "read_content lim m used =
     rbind (drain lim (tm_size m) 0 used (chunks copy_chunk (tm_data m))) (\<lambda>(got, used').
       ensured (tm_complete m) (end_error (tm_end m)) (ensured (got = tm_size m) UnsafeBundle (Inr used')))"

definition member_file :: "archive_env \<Rightarrow> tar_member \<Rightarrow> utext \<Rightarrow> bundle_file" where
  "member_file e m path =
     \<lparr>bf_path = path, bf_size = int (length (tm_data m)), bf_sha256 = sha_prefix @ sha256_hex e (tm_data m),
      bf_executable = executable_mode (tm_mode m)\<rparr>"

fun read_contents ::
  "archive_env \<Rightarrow> store_limits \<Rightarrow> archive_entry list \<Rightarrow> int \<Rightarrow> (utext list \<times> bundle_file list \<times> bytes option) ares" where
  "read_contents e lim [] used = Inr ([], [], None)"
| "read_contents e lim (entry # entries) used =
     (if ae_directory entry
      then rbind (read_contents e lim entries used) (\<lambda>(ds, fs, manifest). Inr (ae_path entry # ds, fs, manifest))
      else rbind (read_content lim (ae_member entry) used) (\<lambda>used'.
           rbind (read_contents e lim entries used') (\<lambda>(ds, fs, manifest).
             if ae_manifest entry
             then Inr (ds, fs, Some (case manifest of None \<Rightarrow> tm_data (ae_member entry) | Some raw \<Rightarrow> raw))
             else Inr (ds, member_file e (ae_member entry) (ae_path entry) # fs, manifest))))"

definition validate_archive :: "archive_env \<Rightarrow> store_limits \<Rightarrow> bytes \<Rightarrow> bundle_meta ares" where
  "validate_archive e lim raw =
     (let stream = read_tar e raw in
      rbind (read_members e lim (ts_members stream) no_reading) (\<lambda>st.
      ensured (ts_complete stream) (end_error (ts_end stream))
      (ensured (\<not> list_ex (below_file e st) (rd_entries st)) UnsafeBundle
      (ensured (rd_manifest st) UnsafeBundle
      (rbind (read_contents e lim (rd_entries st) 0) (\<lambda>(directories, files, manifest).
       case manifest of
         None \<Rightarrow> Inl UnsafeBundle
       | Some bytes \<Rightarrow> validate_manifest e bytes directories files (rd_payload st)))))))"

section \<open>Extraction\<close>

text \<open>
  The destination: what is at a path below it, the empty path being the destination itself. \<open>ident\<close>
  says which names the file system takes for the same, so a path is the list of these.
\<close>

datatype tree_node = DirNode nat | FileNode bytes nat

type_synonym 'k tree = "'k list \<rightharpoonup> tree_node"

text \<open>\<open>mkdir(parents=True, exist_ok=True)\<close>: the missing directories on the way are made (their mode
  is changed at the end), a file on the way is an error.\<close>

fun make_directories :: "'k list list \<Rightarrow> 'k tree \<Rightarrow> 'k tree ares" where
  "make_directories [] t = Inr t"
| "make_directories (p # ps) t =
     (case t p of
        None \<Rightarrow> make_directories ps (t(p \<mapsto> DirNode (octal 7 7 7)))
      | Some (DirNode m) \<Rightarrow> make_directories ps t
      | Some (FileNode c m) \<Rightarrow> Inl UnsafeBundle)"

definition ancestors :: "'k list \<Rightarrow> 'k list list" where
  "ancestors p = map (\<lambda>i. take i p) [1..<Suc (length p)]"

definition make_directory :: "'k list \<Rightarrow> 'k tree \<Rightarrow> 'k tree ares" where
  "make_directory p t = rbind (make_directories (ancestors p) t) (\<lambda>t'. Inr (t'(p \<mapsto> DirNode (octal 7 0 0))))"

definition write_member :: "store_limits \<Rightarrow> bool \<Rightarrow> 'k list \<Rightarrow> tar_member \<Rightarrow> 'k tree \<times> int \<Rightarrow> ('k tree \<times> int) ares" where
  "write_member lim read_only p m s =
     (case s of (t, used) \<Rightarrow>
        rbind (make_directory (butlast p) t) (\<lambda>t'.
        ensured (t' p = None) UnsafeBundle
        (rbind (read_content lim m used) (\<lambda>used'.
          Inr (t'(p \<mapsto> FileNode (tm_data m)
                 (if read_only then (if executable_mode (tm_mode m) then (octal 5 0 0) else (octal 4 0 0))
                  else (if executable_mode (tm_mode m) then (octal 7 0 0) else (octal 6 0 0)))), used')))))"

fun make_all :: "'k list list \<Rightarrow> 'k tree \<Rightarrow> 'k tree ares" where
  "make_all [] t = Inr t"
| "make_all (p # ps) t = rbind (make_directory p t) (make_all ps)"

fun write_all :: "store_limits \<Rightarrow> bool \<Rightarrow> ('k list \<times> tar_member) list \<Rightarrow> 'k tree \<times> int \<Rightarrow> ('k tree \<times> int) ares" where
  "write_all lim read_only [] s = Inr s"
| "write_all lim read_only (f # fs) s =
     rbind (write_member lim read_only (fst f) (snd f) s) (write_all lim read_only fs)"

text \<open>The last pass: every directory gets its final mode.\<close>

definition set_directory_modes :: "bool \<Rightarrow> 'k tree \<Rightarrow> 'k tree" where
  "set_directory_modes read_only t =
     (\<lambda>p. case t p of Some (DirNode m) \<Rightarrow> Some (DirNode (if read_only then (octal 5 0 0) else (octal 7 0 0))) | x \<Rightarrow> x)"

text \<open>The members that are extracted: all but the manifest, by their accepted paths.\<close>

fun payload_members :: "archive_env \<Rightarrow> tar_member list \<Rightarrow> (tar_member \<times> utext) list ares" where
  "payload_members e [] = Inr []"
| "payload_members e (m # ms) =
     rbind (member_path e (tm_name m)) (\<lambda>path.
     rbind (payload_members e ms) (\<lambda>rest.
       Inr (if path = [] \<or> is_manifest_key e path then rest else (m, path) # rest)))"

definition node_path :: "(utext \<Rightarrow> 'k) \<Rightarrow> utext \<Rightarrow> 'k list" where
  "node_path ident path = map ident (path_parts path)"

definition extract_payload ::
  "archive_env \<Rightarrow> store_limits \<Rightarrow> (utext \<Rightarrow> 'k) \<Rightarrow> bytes \<Rightarrow> bool \<Rightarrow> 'k tree ares" where
  "extract_payload e lim ident raw read_only =
     (let stream = read_tar e raw in
      rbind (payload_members e (ts_members stream)) (\<lambda>members.
      ensured (ts_complete stream) (end_error (ts_end stream))
      (let directories = filter (\<lambda>(m, path). tm_type m = DirMember) members;
           files = filter (\<lambda>(m, path). tm_type m = RegMember) members
       in rbind (make_all
               (map (\<lambda>(m, path). node_path ident path) (sort_key (\<lambda>(m, path). count_list path 47) directories))
               [[] \<mapsto> DirNode (octal 7 0 0)]) (\<lambda>t.
          rbind (write_all lim read_only (map (\<lambda>(m, path). (node_path ident path, m)) files) (t, 0)) (\<lambda>(t', used).
            Inr (set_directory_modes read_only t'))))))"

end
