(* ===== verification/Archive_Store.thy ===== *)
theory Archive_Store
  imports Archive_Reading
begin

text \<open>
  \<open>src/src/autograde/platform_bundle.py\<close>: writing and storing. \<open>_scan_source\<close> walks a source directory,
  \<open>_write_deterministic_archive\<close> opens the files again and makes the members of the archive with the
  manifest behind them, \<open>_tar_info\<close> is the header of a member.

  The state of \<open>BundleStore\<close> is the directories under
  \<open>sha256/<aa>/<digest>\<close>, a map from digests; the operations on it are \<open>ingest\<close> with its
  publication under the lock of the digest, \<open>get\<close> with \<open>_load_artifact\<close>,
  \<open>create_from_directory\<close>, \<open>export\<close> and \<open>materialize_directory\<close>.

  The lock makes the check for an existing directory and the rename one step, so concurrent calls are
  a sequence of publications. The repair of the root directory, file permissions, \<open>fsync\<close> and the
  removal of staging directories have no part in the model.
\<close>

section \<open>The source directory\<close>

text \<open>What the scan sees of a file: its size, whether it is executable, and its device, inode and
  modification time as one stamp. A directory is unreadable or has children in some order.\<close>

datatype source_node =
    SrcFile int bool nat
  | SrcDir "(utext \<times> source_node) list option"
  | SrcLink | SrcSpecial | SrcUnreadable

record source_entry =
  se_path :: utext
  se_directory :: bool
  se_size :: int
  se_executable :: bool
  se_stamp :: nat

record scanning =
  sc_entries :: "source_entry list"
  sc_paths :: "utext \<rightharpoonup> utext"
  sc_claims :: claims

definition no_scanning :: scanning where
  "no_scanning = \<lparr>sc_entries = [], sc_paths = Map.empty, sc_claims = Map.empty\<rparr>"

text \<open>One child: the checks of its path, its claim, its entry and the limit on entries.\<close>

definition add_entry :: "store_limits \<Rightarrow> source_entry \<Rightarrow> scanning \<Rightarrow> scanning ares" where
  "add_entry lim entry st =
     ensured (int (length (sc_entries st)) + 1 \<le> max_files lim) BundleLimit
       (Inr (st\<lparr>sc_entries := sc_entries st @ [entry]\<rparr>))"

definition scan_child :: "archive_env \<Rightarrow> store_limits \<Rightarrow> utext \<Rightarrow> source_node \<Rightarrow> scanning \<Rightarrow> scanning ares" where
  "scan_child e lim relative child st =
     rbind (member_path e relative) (\<lambda>path.
     ensured (\<not> is_manifest_key e path) UnsafeBundle
     (ensured (sc_paths st (path_key e path) = None) UnsafeBundle
     (let st' = st\<lparr>sc_paths := (sc_paths st)(path_key e path \<mapsto> relative)\<rparr>
      in case child of
           SrcUnreadable \<Rightarrow> Inl UnsafeBundle
         | SrcLink \<Rightarrow> Inl UnsafeBundle
         | SrcSpecial \<Rightarrow> Inl UnsafeBundle
         | SrcDir children \<Rightarrow>
             rbind (claim_path e DirEntry path (sc_claims st')) (\<lambda>claims.
               add_entry lim \<lparr>se_path = path, se_directory = True, se_size = 0, se_executable = False, se_stamp = 0\<rparr>
                 (st'\<lparr>sc_claims := claims\<rparr>))
         | SrcFile nbytes executable stamp \<Rightarrow>
             rbind (claim_path e FileEntry path (sc_claims st')) (\<lambda>claims.
             ensured (0 \<le> nbytes) UnsafeBundle
               (add_entry lim \<lparr>se_path = path, se_directory = False, se_size = nbytes,
                    se_executable = executable, se_stamp = stamp\<rparr>
                 (st'\<lparr>sc_claims := claims\<rparr>))))))"

text \<open>\<open>sorted(iterator, key=...)\<close> on the children of a directory: a name that UTF-8 cannot encode
  raises there.\<close>

definition listed :: "(utext \<times> source_node) list option \<Rightarrow> (utext \<times> source_node) list ares" where
  "listed children =
     (case children of
        None \<Rightarrow> Inl UnsafeBundle
      | Some cs \<Rightarrow>
          ensured (\<not> list_ex (\<lambda>c. list_ex surrogate (fst c)) cs) BundleUnicodeError
            (Inr (sort_key (\<lambda>c. utf8_bytes (fst c)) cs)))"

definition relative_path :: "utext \<Rightarrow> utext \<Rightarrow> utext" where
  "relative_path parent name = (if parent = [] then name else parent @ [47] @ name)"

lemma size_list_sort_key: "size_list f (sort_key k xs) = size_list f xs"
  by (simp add: size_list_conv_sum_list flip: sum_mset_sum_list)

definition children_of :: "source_node \<Rightarrow> (utext \<times> source_node) list ares" where
  "children_of child = (case child of SrcDir children \<Rightarrow> listed children | _ \<Rightarrow> Inr [])"

lemma children_smaller: "children_of child = Inr ds \<Longrightarrow> size_list (size_prod (\<lambda>x. 0) size) ds < Suc (size child)"
  by (cases child) (auto simp: children_of_def listed_def size_list_sort_key split: option.splits)

text \<open>\<open>visit\<close> over the listed children of a directory; a file has none.\<close>

function visit :: "archive_env \<Rightarrow> store_limits \<Rightarrow> utext \<Rightarrow> (utext \<times> source_node) list \<Rightarrow> scanning \<Rightarrow> scanning ares" where
  "visit e lim parent [] st = Inr st"
| "visit e lim parent ((name, child) # rest) st =
     rbind (scan_child e lim (relative_path parent name) child st) (\<lambda>st'.
     rbind (children_of child) (\<lambda>ds.
     rbind (visit e lim (relative_path parent name) ds st') (\<lambda>st''.
       visit e lim parent rest st'')))"
  by pat_completeness auto
termination
  by (relation "measure (\<lambda>(e, lim, parent, cs, st). size_list (size_prod (\<lambda>x. 0) size) cs)")
    (auto dest: children_smaller)

definition source_size :: "source_entry list \<Rightarrow> int" where
  "source_size entries = sum_list (map se_size (filter (\<lambda>s. \<not> se_directory s) entries))"

definition scan_source ::
  "archive_env \<Rightarrow> store_limits \<Rightarrow> (utext \<times> source_node) list option \<Rightarrow> source_entry list ares" where
  "scan_source e lim root =
     rbind (listed root) (\<lambda>children.
     rbind (visit e lim [] children no_scanning) (\<lambda>st.
     ensured (source_size (sc_entries st) \<le> max_expanded lim) BundleLimit
       (Inr (sort_key (\<lambda>s. utf8_bytes (se_path s)) (sc_entries st)))))"

section \<open>The archive\<close>

definition tar_info :: "utext \<Rightarrow> bool \<Rightarrow> int \<Rightarrow> bool \<Rightarrow> bytes \<Rightarrow> tar_member" where
  "tar_info path directory nbytes executable content =
     \<lparr>tm_name = (if directory then path @ [47] else path),
      tm_type = (if directory then DirMember else RegMember),
      tm_size = (if directory then 0 else nbytes),
      tm_mode = (if directory \<or> executable then octal 7 5 5 else octal 6 4 4),
      tm_data = content, tm_end = Complete\<rparr>"

text \<open>What the second look at a file gives: it cannot be opened, or its type, stamp, size and content.\<close>

datatype opened = OpenFails | Opened bool nat int bytes

text \<open>A file becomes a member only if it is still the one that was scanned. \<open>addfile\<close> copies exactly
  as many bytes as the header says and raises an \<open>OSError\<close> of its own if there are fewer.\<close>

definition write_entry :: "archive_env \<Rightarrow> opened \<Rightarrow> source_entry \<Rightarrow> (tar_member \<times> bundle_file) ares" where
  "write_entry e again entry =
     (case again of
        OpenFails \<Rightarrow> Inl UnsafeBundle
      | Opened regular stamp nbytes content \<Rightarrow>
          ensured (regular \<and> stamp = se_stamp entry \<and> nbytes = se_size entry) UnsafeBundle
          (ensured (se_size entry \<le> int (length content)) BundleOSError
          (let data = take (nat (se_size entry)) content
           in ensured (int (length data) = se_size entry) UnsafeBundle
                (Inr (tar_info (se_path entry) False (se_size entry) (se_executable entry) data,
                   \<lparr>bf_path = se_path entry, bf_size = se_size entry,
                    bf_sha256 = sha_prefix @ sha256_hex e data, bf_executable = se_executable entry\<rparr>)))))"

fun write_entries ::
  "archive_env \<Rightarrow> (utext \<Rightarrow> opened) \<Rightarrow> source_entry list \<Rightarrow> (tar_member list \<times> bundle_file list) ares" where
  "write_entries e again [] = Inr ([], [])"
| "write_entries e again (s # ss) =
     (if se_directory s
      then rbind (write_entries e again ss) (\<lambda>(ms, fs). Inr (tar_info (se_path s) True 0 False [] # ms, fs))
      else rbind (write_entry e (again (se_path s)) s) (\<lambda>(m, f).
           rbind (write_entries e again ss) (\<lambda>(ms, fs). Inr (m # ms, f # fs))))"

definition written_meta :: "bundle_kind \<Rightarrow> source_entry list \<Rightarrow> bundle_file list \<Rightarrow> bundle_meta" where
  "written_meta kind entries files =
     \<lparr>me_schema = bundle_schema, me_kind = kind,
      me_directories = map se_path (filter se_directory entries), me_files = files,
      me_file_count = int (length files), me_member_count = int (length entries),
      me_expanded = total_size files, me_manifest_bytes = 0\<rparr>"

definition deterministic_members ::
  "archive_env \<Rightarrow> bundle_kind \<Rightarrow> (utext \<Rightarrow> opened) \<Rightarrow> source_entry list \<Rightarrow> tar_member list ares" where
  "deterministic_members e kind again entries =
     rbind (write_entries e again entries) (\<lambda>(members, files).
     rbind (manifest_bytes (manifest_dict (written_meta kind entries files))) (\<lambda>raw.
       Inr (members @ [tar_info manifest_name False (int (length raw)) False raw])))"

definition write_deterministic_archive ::
  "archive_env \<Rightarrow> bundle_kind \<Rightarrow> (utext \<Rightarrow> opened) \<Rightarrow> source_entry list \<Rightarrow> bytes ares" where
  "write_deterministic_archive e kind again entries =
     rbind (deterministic_members e kind again entries) (\<lambda>members. Inr (write_tar e members))"

datatype stored_file = MissingFile | IrregularFile | Contents bytes

record stored_dir =
  sd_archive :: stored_file
  sd_sidecar :: stored_file

type_synonym bundle_files = "utext \<rightharpoonup> stored_dir"

record artifact =
  ar_sha256 :: utext
  ar_compressed :: int
  ar_meta :: bundle_meta

section \<open>Loading\<close>

text \<open>Both files must be there as regular files, archive before sidecar.\<close>

definition stored_contents :: "stored_dir \<Rightarrow> (bytes \<times> bytes) ares" where
  "stored_contents d =
     (case (sd_archive d, sd_sidecar d) of
        (Contents raw, Contents sidecar) \<Rightarrow> Inr (raw, sidecar)
      | _ \<Rightarrow> Inl BundleStorage)"

definition load_artifact :: "archive_env \<Rightarrow> store_limits \<Rightarrow> bundle_files \<Rightarrow> utext \<Rightarrow> artifact ares" where
  "load_artifact e lim store digest =
     (case store digest of
        None \<Rightarrow> Inl BundleStorage
      | Some d \<Rightarrow>
          rbind (stored_contents d) (\<lambda>(raw, sidecar).
          ensured (sha256_hex e raw = digest) BundleStorage
          (rbind (load_document e BundleStorage sidecar) (\<lambda>document.
           rbind (metadata_from_sidecar e document digest (int (length raw))) (\<lambda>m.
           rbind (bundle_errors_as BundleStorage (validate_archive e lim raw)) (\<lambda>checked.
           ensured (checked = m) BundleStorage
             (Inr \<lparr>ar_sha256 = sha_prefix @ digest, ar_compressed = int (length raw), ar_meta = m\<rparr>)))))))"

definition get_bundle :: "archive_env \<Rightarrow> store_limits \<Rightarrow> bundle_files \<Rightarrow> utext \<Rightarrow> artifact ares" where
  "get_bundle e lim store digest = rbind (sha_digest_hex e digest) (load_artifact e lim store)"

section \<open>Ingestion\<close>

text \<open>An input: a path that cannot be opened or is no regular file, an object without \<open>read\<close>, or
  something to read from.\<close>

datatype 's input = InputUnopened | InputIrregular | InputUnreadable | InputStream "'s \<Rightarrow> nat \<Rightarrow> reply \<times> 's" 's

definition receive_input :: "archive_env \<Rightarrow> store_limits \<Rightarrow> 's input \<Rightarrow> (utext \<times> int \<times> bytes) ares" where
  "receive_input e lim source =
     (case source of
        InputUnopened \<Rightarrow> Inl BundleOSError
      | InputIrregular \<Rightarrow> Inl UnsafeBundle
      | InputUnreadable \<Rightarrow> Inl BundleTypeError
      | InputStream reader s \<Rightarrow> receive_bounded e lim reader s)"

text \<open>\<open>if expected_sha256\<close>: an empty text is no expectation.\<close>

definition expected_digest :: "archive_env \<Rightarrow> utext option \<Rightarrow> utext option ares" where
  "expected_digest e expected =
     (case expected of
        None \<Rightarrow> Inr None
      | Some s \<Rightarrow> if s = [] then Inr None else rmap Some (sha_digest_hex e s))"

definition expected_kind :: "ujson option \<Rightarrow> bundle_kind option ares" where
  "expected_kind expected = (case expected of None \<Rightarrow> Inr None | Some v \<Rightarrow> rmap Some (bundle_kind_of v))"

definition publish ::
  "archive_env \<Rightarrow> store_limits \<Rightarrow> bundle_files \<Rightarrow> utext \<Rightarrow> bytes \<Rightarrow> bytes \<Rightarrow> bundle_meta \<Rightarrow> (artifact \<times> bundle_files) ares" where
  "publish e lim store digest raw sidecar m =
     (case store digest of
        Some d \<Rightarrow>
          rbind (load_artifact e lim store digest) (\<lambda>a.
            ensured (ar_compressed a = int (length raw)) BundleStorage (Inr (a, store)))
      | None \<Rightarrow>
          Inr (\<lparr>ar_sha256 = sha_prefix @ digest, ar_compressed = int (length raw), ar_meta = m\<rparr>,
            store(digest \<mapsto> \<lparr>sd_archive = Contents raw, sd_sidecar = Contents sidecar\<rparr>)))"

definition ingest ::
  "archive_env \<Rightarrow> store_limits \<Rightarrow> 's input \<Rightarrow> utext option \<Rightarrow> ujson option \<Rightarrow> bundle_files \<Rightarrow> (artifact \<times> bundle_files) ares" where
  "ingest e lim source sha kind store =
     rbind (expected_digest e sha) (\<lambda>wanted_digest.
     rbind (expected_kind kind) (\<lambda>wanted_kind.
     rbind (receive_input e lim source) (\<lambda>(digest, compressed, raw).
     ensured (wanted_digest = None \<or> wanted_digest = Some digest) DigestMismatch
     (rbind (validate_archive e lim raw) (\<lambda>m.
      ensured (wanted_kind = None \<or> wanted_kind = Some (me_kind m)) UnsafeBundle
      (rbind (write_sidecar (sha_prefix @ digest) compressed m) (\<lambda>sidecar.
        publish e lim store digest raw sidecar m)))))))"

text \<open>The state after an ingestion; one that raises publishes nothing.\<close>

definition ingested ::
  "archive_env \<Rightarrow> store_limits \<Rightarrow> 's input \<Rightarrow> utext option \<Rightarrow> ujson option \<Rightarrow> bundle_files \<Rightarrow> bundle_files" where
  "ingested e lim source sha kind store =
     (case ingest e lim source sha kind store of Inl x \<Rightarrow> store | Inr (a, store') \<Rightarrow> store')"

section \<open>Creation\<close>

datatype source_root = RootLink | RootMissing | Root "(utext \<times> source_node) list option"

definition create_from_directory ::
  "archive_env \<Rightarrow> store_limits \<Rightarrow> source_root \<Rightarrow> bool \<Rightarrow> (utext \<Rightarrow> opened) \<Rightarrow> ujson \<Rightarrow> bundle_files \<Rightarrow>
    (artifact \<times> bundle_files) ares" where
  "create_from_directory e lim source overlaps again kind store =
     rbind (bundle_kind_of kind) (\<lambda>k.
     case source of
       RootLink \<Rightarrow> Inl UnsafeBundle
     | RootMissing \<Rightarrow> Inl BundleFileMissing
     | Root children \<Rightarrow>
         ensured (\<not> overlaps) UnsafeBundle
         (rbind (scan_source e lim children) (\<lambda>entries.
          rbind (write_deterministic_archive e k again entries) (\<lambda>raw.
          ensured (int (length raw) \<le> max_compressed lim) BundleLimit
            (ingest e lim (InputStream read_file raw) None (Some (UStr (kind_text k))) store)))))"

section \<open>Delivery\<close>

text \<open>What is found at a destination.\<close>

datatype destination = ParentUnsafe | Free | OccupiedFile | OccupiedDirectory

text \<open>The bytes that stand at the destination afterwards. The file is read a second time for the copy,
  so \<open>copied\<close> is what that reading gives.\<close>

definition export_bundle ::
  "archive_env \<Rightarrow> store_limits \<Rightarrow> bundle_files \<Rightarrow> utext \<Rightarrow> destination \<Rightarrow> bool \<Rightarrow> bytes \<Rightarrow> bytes ares" where
  "export_bundle e lim store digest dest overwrite copied =
     rbind (get_bundle e lim store digest) (\<lambda>a.
     ensured (dest \<noteq> ParentUnsafe) BundleStorage
     (ensured (dest = Free \<or> overwrite) BundleFileExists
     (ensured (dest \<noteq> OccupiedDirectory) BundleIsDirectory
     (ensured (sha_prefix @ sha256_hex e copied = ar_sha256 a) BundleStorage (Inr copied)))))"

definition artifact_bytes :: "bundle_files \<Rightarrow> utext \<Rightarrow> bytes" where
  "artifact_bytes store digest =
     (case store digest of Some d \<Rightarrow> (case sd_archive d of Contents raw \<Rightarrow> raw | _ \<Rightarrow> []) | None \<Rightarrow> [])"

definition materialize_directory ::
  "archive_env \<Rightarrow> store_limits \<Rightarrow> (utext \<Rightarrow> 'k) \<Rightarrow> bundle_files \<Rightarrow> utext \<Rightarrow> destination \<Rightarrow> bool \<Rightarrow> 'k tree ares" where
  "materialize_directory e lim ident store digest dest read_only =
     rbind (get_bundle e lim store digest) (\<lambda>a.
     ensured (dest \<noteq> ParentUnsafe) BundleStorage
     (ensured (dest = Free) BundleFileExists
       (extract_payload e lim ident (artifact_bytes store (drop 7 (ar_sha256 a))) read_only)))"

end
