(* ===== verification/Archive_Facts.thy ===== *)
theory Archive_Facts
  imports Archive_Store
begin

text \<open>
  When an archive is accepted: the checks of \<open>_validate_archive\<close>, made member by member with a
  growing state, come to conditions on the list of members that do not depend on its order, and to the
  check of the manifest. The members themselves give the state after any number of them.
\<close>

definition limits_ok :: "store_limits \<Rightarrow> bool" where
  "limits_ok lim = (0 < max_compressed lim \<and> 0 < max_expanded lim \<and> 0 < max_files lim \<and> 0 < max_manifest lim)"

lemma new_limits_ok: "new_limits a b c d = Inr lim \<Longrightarrow> limits_ok lim"
  by (auto simp: new_limits_def positive_limit_def limits_ok_def result_simps split: ujson.splits)

section \<open>The state of the reading\<close>

abbreviation manifest_member :: "archive_env \<Rightarrow> tar_member \<Rightarrow> bool" where
  "manifest_member e m \<equiv> is_manifest_key e (tm_name m)"

definition member_kind :: "tar_member \<Rightarrow> entry_kind" where
  "member_kind m = (if tm_type m = DirMember then DirEntry else FileEntry)"

definition member_claims :: "tar_member \<Rightarrow> claim list" where
  "member_claims m = path_claims (member_kind m, tm_name m)"

definition all_claims :: "tar_member list \<Rightarrow> claim list" where
  "all_claims ms = concat (map member_claims ms)"

definition entry_of :: "archive_env \<Rightarrow> tar_member \<Rightarrow> archive_entry" where
  "entry_of e m = \<lparr>ae_member = m, ae_path = tm_name m, ae_directory = (tm_type m = DirMember),
     ae_manifest = manifest_member e m\<rparr>"

lemma entry_of_simps [simp]:
  "ae_member (entry_of e m) = m" "ae_path (entry_of e m) = tm_name m"
  "ae_directory (entry_of e m) = (tm_type m = DirMember)" "ae_manifest (entry_of e m) = manifest_member e m"
  by (simp_all add: entry_of_def)

definition declared_bytes :: "tar_member list \<Rightarrow> int" where
  "declared_bytes ms = sum_list (map tm_size (filter (\<lambda>m. tm_type m = RegMember) ms))"

definition payload_count :: "archive_env \<Rightarrow> tar_member list \<Rightarrow> int" where
  "payload_count e ms = int (length (filter (\<lambda>m. \<not> manifest_member e m) ms))"

definition reading_of :: "archive_env \<Rightarrow> tar_member list \<Rightarrow> reading" where
  "reading_of e ms = \<lparr>rd_entries = map (entry_of e) ms,
     rd_paths = map_of (rev (map (\<lambda>m. (path_key e (tm_name m), (member_kind m, tm_name m))) ms)),
     rd_claims = claimed e (all_claims ms), rd_manifest = list_ex (manifest_member e) ms,
     rd_payload = payload_count e ms, rd_declared = declared_bytes ms\<rparr>"

section \<open>Acceptance\<close>

definition member_ok :: "archive_env \<Rightarrow> store_limits \<Rightarrow> tar_member \<Rightarrow> bool" where
  "member_ok e lim m = (safe_path e (tm_name m) \<and>
     (tm_type m = DirMember \<and> tm_size m = 0 \<or> tm_type m = RegMember \<and> 0 \<le> tm_size m) \<and>
     (manifest_member e m \<longrightarrow> tm_name m = manifest_name \<and> tm_type m = RegMember \<and>
        tm_size m \<le> max_manifest lim \<and> \<not> executable_mode (tm_mode m)))"

definition accepted :: "archive_env \<Rightarrow> store_limits \<Rightarrow> tar_member list \<Rightarrow> bool" where
  "accepted e lim ms = (list_all (member_ok e lim) ms \<and> distinct (map (\<lambda>m. path_key e (tm_name m)) ms) \<and>
     sorted_wrt (agreeing e) (all_claims ms) \<and> payload_count e ms \<le> max_files lim \<and>
     declared_bytes ms \<le> max_expanded lim)"

lemma reading_of_Nil: "reading_of e [] = no_reading"
  by (simp add: reading_of_def no_reading_def all_claims_def claimed_Nil payload_count_def declared_bytes_def)

lemma declared_bytes_simps [simp]:
  "declared_bytes [] = 0" "declared_bytes (ms @ ns) = declared_bytes ms + declared_bytes ns"
  "declared_bytes (m # ms) = (if tm_type m = RegMember then tm_size m else 0) + declared_bytes ms"
  by (simp_all add: declared_bytes_def)

lemma payload_count_simps [simp]:
  "payload_count e [] = 0" "payload_count e (ms @ ns) = payload_count e ms + payload_count e ns"
  "payload_count e (m # ms) = (if manifest_member e m then 0 else 1) + payload_count e ms"
  by (simp_all add: payload_count_def)

lemma payload_count_nonneg [simp]: "0 \<le> payload_count e ms"
  by (simp add: payload_count_def)

lemma all_claims_simps [simp]:
  "all_claims [] = []" "all_claims (m # ms) = member_claims m @ all_claims ms"
  "all_claims (ms @ ns) = all_claims ms @ all_claims ns"
  by (simp_all add: all_claims_def)

lemma declared_bytes_nonneg: "list_all (member_ok e lim) ms \<Longrightarrow> 0 \<le> declared_bytes ms"
  by (induction ms) (auto simp: member_ok_def)

text \<open>One member more: the step succeeds exactly when the longer list is accepted.\<close>

lemma read_member_reading:
  assumes ok: "accepted e lim ms" and lim: "limits_ok lim"
  shows "read_member e lim m (reading_of e ms) = Inr st \<longleftrightarrow>
    accepted e lim (ms @ [m]) \<and> st = reading_of e (ms @ [m])"
proof -
  let ?st = "reading_of e ms"
  have sorted: "sorted_wrt (agreeing e) (all_claims ms)" using ok by (simp add: accepted_def)
  have fresh: "rd_paths ?st (path_key e (tm_name m)) = None \<longleftrightarrow>
    path_key e (tm_name m) \<notin> set (map (\<lambda>m. path_key e (tm_name m)) ms)"
    by (auto simp: reading_of_def map_of_eq_None_iff image_iff)
  have claim: "claim_path e (member_kind m) (tm_name m) (rd_claims ?st) =
    (if sorted_wrt (agreeing e) (all_claims (ms @ [m])) then Inr (claimed e (all_claims (ms @ [m])))
     else Inl UnsafeBundle)"
    using sorted by (simp add: claim_path_list reading_of_def claim_list_claimed member_claims_def)
  have sees: "list_ex (manifest_member e) ms \<Longrightarrow> manifest_member e m \<Longrightarrow>
    path_key e (tm_name m) \<in> set (map (\<lambda>m. path_key e (tm_name m)) ms)"
    by (auto simp: list_ex_iff is_manifest_key_def image_iff) metis
  have grown: "st = \<lparr>rd_entries = rd_entries ?st @ [entry_of e m],
      rd_paths = (rd_paths ?st)(path_key e (tm_name m) \<mapsto> (member_kind m, tm_name m)),
      rd_claims = claimed e (all_claims (ms @ [m])), rd_manifest = (rd_manifest ?st \<or> manifest_member e m),
      rd_payload = rd_payload ?st + (if manifest_member e m then 0 else 1),
      rd_declared = rd_declared ?st + (if tm_type m = RegMember then tm_size m else 0)\<rparr> \<longleftrightarrow>
    st = reading_of e (ms @ [m])"
    by (auto simp: reading_of_def)
  show ?thesis
  proof (cases "tm_type m = RegMember \<or> tm_type m = DirMember")
    case False
    then show ?thesis
      by (cases "tm_type m") (auto simp: read_member_def check_member_def result_simps accepted_def member_ok_def)
  next
    case True
    have check: "check_member lim b m d = Inr (kind, d') \<longleftrightarrow>
      kind = member_kind m \<and> d' = d + (if tm_type m = RegMember then tm_size m else 0) \<and>
      (tm_type m = DirMember \<and> tm_size m = 0 \<or> tm_type m = RegMember \<and> 0 \<le> tm_size m) \<and>
      (b \<longrightarrow> tm_type m = RegMember \<and> tm_size m \<le> max_manifest lim \<and> \<not> executable_mode (tm_mode m)) \<and>
      (tm_type m = RegMember \<longrightarrow> d' \<le> max_expanded lim)" for b d kind d'
      using True by (auto simp: check_member_def member_kind_def)
    have counted: "count_member lim b ?st = Inr (seen, n) \<longleftrightarrow>
      seen = (rd_manifest ?st \<or> b) \<and> n = rd_payload ?st + (if b then 0 else 1) \<and>
      (b \<longrightarrow> \<not> rd_manifest ?st) \<and> (\<not> b \<longrightarrow> n \<le> max_files lim)" for b seen n
      by (auto simp: count_member_def)
    have "read_member e lim m ?st = Inr st \<longleftrightarrow>
      safe_path e (tm_name m) \<and> rd_paths ?st (path_key e (tm_name m)) = None \<and>
      (manifest_member e m \<longrightarrow> tm_name m = manifest_name) \<and>
      (\<exists>kind d. check_member lim (manifest_member e m) m (rd_declared ?st) = Inr (kind, d) \<and>
        (\<exists>claims. claim_path e kind (tm_name m) (rd_claims ?st) = Inr claims \<and>
        (\<exists>seen n. count_member lim (manifest_member e m) ?st = Inr (seen, n) \<and>
          st = \<lparr>rd_entries = rd_entries ?st @ [entry_of e m],
            rd_paths = (rd_paths ?st)(path_key e (tm_name m) \<mapsto> (kind, tm_name m)),
            rd_claims = claims, rd_manifest = seen, rd_payload = n, rd_declared = d\<rparr>)))"
      by (auto simp: read_member_def result_simps Let_def entry_of_def split: prod.splits)
    also have "\<dots> \<longleftrightarrow> member_ok e lim m \<and> rd_paths ?st (path_key e (tm_name m)) = None \<and>
      sorted_wrt (agreeing e) (all_claims (ms @ [m])) \<and>
      (tm_type m = RegMember \<longrightarrow> declared_bytes (ms @ [m]) \<le> max_expanded lim) \<and>
      (manifest_member e m \<longrightarrow> \<not> rd_manifest ?st) \<and>
      (\<not> manifest_member e m \<longrightarrow> payload_count e (ms @ [m]) \<le> max_files lim) \<and> st = reading_of e (ms @ [m])"
      unfolding check counted
      by (auto simp: claim member_ok_def grown [symmetric]) (auto simp: reading_of_def)
    finally show ?thesis
      using ok fresh sees by (auto simp: accepted_def reading_of_def)
  qed
qed


lemma accepted_append:
  assumes "accepted e lim (ms @ ns)"
  shows "accepted e lim ms"
proof -
  have "payload_count e ms \<le> payload_count e (ms @ ns)" by simp
  moreover have "declared_bytes ms \<le> declared_bytes (ms @ ns)"
    using assms declared_bytes_nonneg [of e lim ns] by (simp add: accepted_def)
  ultimately show ?thesis
    using assms unfolding accepted_def
    by (metis all_claims_simps(3) append_eq_conv_conj distinct_take list_all_append map_append order_trans sorted_wrt_append)
qed

lemma read_members_reading:
  assumes "accepted e lim ms" "limits_ok lim"
  shows "read_members e lim ns (reading_of e ms) = Inr st \<longleftrightarrow>
    accepted e lim (ms @ ns) \<and> st = reading_of e (ms @ ns)"
  using assms(1)
proof (induction ns arbitrary: ms)
  case (Cons n ns)
  have "read_members e lim (n # ns) (reading_of e ms) = Inr st \<longleftrightarrow>
    accepted e lim (ms @ [n]) \<and> read_members e lim ns (reading_of e (ms @ [n])) = Inr st"
    using read_member_reading [OF Cons.prems assms(2)] by (auto simp: result_simps)
  also have "\<dots> \<longleftrightarrow> accepted e lim (ms @ n # ns) \<and> st = reading_of e (ms @ n # ns)"
    using Cons.IH [of "ms @ [n]"] accepted_append [of e lim "ms @ [n]" ns] by auto
  finally show ?case .
qed auto

lemma accepted_Nil: "limits_ok lim \<Longrightarrow> accepted e lim []"
  by (simp add: accepted_def limits_ok_def)

lemma read_members_iff:
  "limits_ok lim \<Longrightarrow> read_members e lim ms no_reading = Inr st \<longleftrightarrow> accepted e lim ms \<and> st = reading_of e ms"
  using read_members_reading [OF accepted_Nil, of lim e ms st] by (simp add: reading_of_Nil)

section \<open>Claims of accepted members\<close>

lemma claims_agree:
  assumes "sorted_wrt (agreeing e) cs" "c \<in> set cs" "d \<in> set cs" "c \<noteq> d"
  shows "agreeing e c d"
proof -
  obtain i j where "i < length cs" "cs ! i = c" "j < length cs" "cs ! j = d"
    using assms(2,3) by (metis in_set_conv_nth)
  then show ?thesis
    using assms(1,4) sorted_wrt_nth_less [OF assms(1)] agreeing_sym by (metis linorder_neqE_nat)
qed

lemma own_claim: "(member_kind m, tm_name m, True) \<in> set (member_claims m)"
  by (simp add: member_claims_def path_claims_def claims_of_members)

lemma parent_claim: "0 < i \<Longrightarrow> i < length (path_parts (tm_name m)) \<Longrightarrow>
  (DirEntry, join_parts (take i (path_parts (tm_name m))), False) \<in> set (member_claims m)"
  by (auto simp: member_claims_def path_claims_def claims_of_members)

lemma all_claims_member: "m \<in> set ms \<Longrightarrow> c \<in> set (member_claims m) \<Longrightarrow> c \<in> set (all_claims ms)"
  by (auto simp: all_claims_def)

text \<open>A member whose key is that of a parent of another member is a directory, spelled alike.\<close>

lemma parent_is_directory:
  assumes "accepted e lim ms" "m \<in> set ms" "n \<in> set ms" "0 < i" "i < length (path_parts (tm_name m))"
    and "path_key e (tm_name n) = path_key e (join_parts (take i (path_parts (tm_name m))))"
  shows "member_kind n = DirEntry" "tm_name n = join_parts (take i (path_parts (tm_name m)))"
proof -
  have "agreeing e (member_kind n, tm_name n, True) (DirEntry, join_parts (take i (path_parts (tm_name m))), False)"
    using assms by (intro claims_agree [of e "all_claims ms"])
      (auto simp: accepted_def intro: all_claims_member own_claim parent_claim)
  then show "member_kind n = DirEntry" "tm_name n = join_parts (take i (path_parts (tm_name m)))"
    using assms(6) by (auto simp: agreeing_def claim_key_def)
qed

text \<open>Parents of members with the same key are spelled alike.\<close>

lemma parents_alike:
  assumes "accepted e lim ms" "m \<in> set ms" "n \<in> set ms"
    and "0 < i" "i < length (path_parts (tm_name m))" "0 < j" "j < length (path_parts (tm_name n))"
    and "path_key e (join_parts (take i (path_parts (tm_name m)))) =
      path_key e (join_parts (take j (path_parts (tm_name n))))"
  shows "join_parts (take i (path_parts (tm_name m))) = join_parts (take j (path_parts (tm_name n)))"
proof (rule ccontr)
  let ?a = "(DirEntry, join_parts (take i (path_parts (tm_name m))), False)"
  let ?b = "(DirEntry, join_parts (take j (path_parts (tm_name n))), False)"
  assume "join_parts (take i (path_parts (tm_name m))) \<noteq> join_parts (take j (path_parts (tm_name n)))"
  moreover from this have "agreeing e ?a ?b"
    using assms by (intro claims_agree [of e "all_claims ms"])
      (auto simp: accepted_def intro: all_claims_member parent_claim)
  ultimately show False using assms(8) by (auto simp: agreeing_def claim_key_def)
qed

lemma not_below_file:
  assumes "accepted e lim ms"
  shows "\<not> list_ex (below_file e (reading_of e ms)) (map (entry_of e) ms)"
proof -
  have dir: "k = DirEntry"
    if m: "m \<in> set ms" and i: "0 < i" "i < length (path_parts (tm_name m))"
      and k: "rd_paths (reading_of e ms) (path_key e (join_parts (take i (path_parts (tm_name m))))) = Some (k, x)"
    for m i k x
  proof -
    from k obtain n where n: "n \<in> set ms" "k = member_kind n"
      "path_key e (tm_name n) = path_key e (join_parts (take i (path_parts (tm_name m))))"
      by (auto simp: reading_of_def dest!: map_of_SomeD)
    then show ?thesis using parent_is_directory [OF assms m n(1) i] by simp
  qed
  have "\<not> below_file e (reading_of e ms) (entry_of e m)" if m: "m \<in> set ms" for m
    unfolding below_file_def Let_def list_ex_iff
    using dir [OF m] by (auto simp: Suc_le_eq split: option.splits)
  then show ?thesis by (simp add: list_ex_iff)
qed

section \<open>Contents\<close>

lemma concat_chunks: "0 < n \<Longrightarrow> concat (chunks n xs) = xs"
proof (induction xs rule: measure_induct_rule [of length])
  case (less xs)
  then show ?case by (subst chunks.simps) simp
qed

lemma drain_Inr:
  "drain lim declared got used cs = Inr (a, b) \<longleftrightarrow>
     (cs = [] \<or> got + int (length (concat cs)) \<le> declared \<and> used + int (length (concat cs)) \<le> max_expanded lim) \<and>
     a = got + int (length (concat cs)) \<and> b = used + int (length (concat cs))"
  by (induction lim declared got used cs rule: drain.induct) (auto simp: Let_def)

definition readable :: "tar_member \<Rightarrow> bool" where
  "readable m = (tm_type m = RegMember \<longrightarrow> tm_complete m \<and> int (length (tm_data m)) = tm_size m)"

lemma read_content_Inr:
  assumes "used \<le> max_expanded lim" "tm_type m = RegMember"
  shows "read_content lim m used = Inr used' \<longleftrightarrow>
    readable m \<and> used' = used + tm_size m \<and> used' \<le> max_expanded lim"
proof -
  have c: "concat (chunks copy_chunk (tm_data m)) = tm_data m"
    by (rule concat_chunks) (simp add: copy_chunk_def)
  have "chunks copy_chunk (tm_data m) = [] \<longleftrightarrow> tm_data m = []"
    by (subst chunks.simps) (simp add: copy_chunk_def)
  then show ?thesis
    using assms by (auto simp: read_content_def result_simps drain_Inr c readable_def split: prod.splits)
qed

definition directory_paths :: "tar_member list \<Rightarrow> utext list" where
  "directory_paths ms = map tm_name (filter (\<lambda>m. tm_type m = DirMember) ms)"

definition payload_files :: "archive_env \<Rightarrow> tar_member list \<Rightarrow> bundle_file list" where
  "payload_files e ms = map (\<lambda>m. member_file e m (tm_name m))
     (filter (\<lambda>m. tm_type m = RegMember \<and> \<not> manifest_member e m) ms)"

definition manifest_data :: "archive_env \<Rightarrow> tar_member list \<Rightarrow> bytes option" where
  "manifest_data e ms =
     (case rev (filter (\<lambda>m. tm_type m = RegMember \<and> manifest_member e m) ms) of
        [] \<Rightarrow> None | m # ns \<Rightarrow> Some (tm_data m))"

lemma manifest_data_simps [simp]:
  "manifest_data e [] = None"
  "manifest_data e (m # ms) =
     (if tm_type m = RegMember \<and> manifest_member e m
      then Some (case manifest_data e ms of None \<Rightarrow> tm_data m | Some raw \<Rightarrow> raw) else manifest_data e ms)"
  by (simp_all add: manifest_data_def split: list.split)


lemma read_contents_Inr:
  assumes "list_all (member_ok e lim) ms" "used + declared_bytes ms \<le> max_expanded lim"
  shows "read_contents e lim (map (entry_of e) ms) used = Inr (ds, fs, manifest) \<longleftrightarrow>
    list_all readable ms \<and> ds = directory_paths ms \<and> fs = payload_files e ms \<and> manifest = manifest_data e ms"
  using assms
proof (induction ms arbitrary: used ds fs manifest)
  case Nil
  then show ?case by (auto simp: directory_paths_def payload_files_def)
next
  case (Cons m ms)
  have rest: "0 \<le> declared_bytes ms" using Cons.prems by (intro declared_bytes_nonneg [of e lim]) simp
  show ?case
  proof (cases "tm_type m = DirMember")
    case True
    then show ?thesis
      using Cons by (auto simp: result_simps readable_def directory_paths_def payload_files_def member_ok_def)
  next
    case False
    then have reg: "tm_type m = RegMember" and pos: "0 \<le> tm_size m" using Cons.prems by (auto simp: member_ok_def)
    have b: "used + tm_size m \<le> max_expanded lim" "used \<le> max_expanded lim"
      "(used + tm_size m) + declared_bytes ms \<le> max_expanded lim"
      using Cons.prems(2) rest reg pos by simp_all
    have first: "read_content lim m used = Inr used' \<longleftrightarrow> readable m \<and> used' = used + tm_size m" for used'
      using b reg by (auto simp: read_content_Inr)
    have "list_all (member_ok e lim) ms" using Cons.prems(1) by simp
    note rest = Cons.IH [OF this b(3)]
    have later: "read_contents e lim (map (entry_of e) ms) (used + tm_size m) = Inr r \<longleftrightarrow>
      list_all readable ms \<and> r = (directory_paths ms, payload_files e ms, manifest_data e ms)" for r
      using rest by (cases r) auto
    have "read_contents e lim (map (entry_of e) (m # ms)) used = Inr (ds, fs, manifest) \<longleftrightarrow>
      readable m \<and> list_all readable ms \<and>
      (ds, fs, manifest) =
        (if manifest_member e m
         then (directory_paths ms, payload_files e ms,
           Some (case manifest_data e ms of None \<Rightarrow> tm_data m | Some raw \<Rightarrow> raw))
         else (directory_paths ms, member_file e m (tm_name m) # payload_files e ms, manifest_data e ms))"
      using reg by (auto simp: first later result_simps split: option.splits)
    then show ?thesis using reg by (auto simp: directory_paths_def payload_files_def)
  qed
qed

text \<open>When an archive is accepted, and with which metadata.\<close>

lemma validate_archive_Inr:
  assumes "limits_ok lim"
  shows "validate_archive e lim raw = Inr m \<longleftrightarrow>
    ts_complete (read_tar e raw) \<and> accepted e lim (ts_members (read_tar e raw)) \<and>
    list_all readable (ts_members (read_tar e raw)) \<and>
    (\<exists>x\<in>set (ts_members (read_tar e raw)). manifest_member e x \<and>
      validate_manifest e (tm_data x) (directory_paths (ts_members (read_tar e raw)))
        (payload_files e (ts_members (read_tar e raw))) (payload_count e (ts_members (read_tar e raw))) = Inr m)"
    (is "_ \<longleftrightarrow> ?complete \<and> accepted e lim ?ms \<and> _ \<and> ?manifest")
proof (cases "?complete \<and> accepted e lim ?ms")
  case False
  then show ?thesis using assms by (auto simp: validate_archive_def Let_def result_simps read_members_iff)
next
  case True
  let ?st = "reading_of e ?ms"
  have st: "read_members e lim ?ms no_reading = Inr ?st" using True assms by (simp add: read_members_iff)
  have ok: "list_all (member_ok e lim) ?ms" "declared_bytes ?ms \<le> max_expanded lim"
    "distinct (map (\<lambda>m. path_key e (tm_name m)) ?ms)"
    using True by (simp_all add: accepted_def)
  have entries: "rd_entries ?st = map (entry_of e) ?ms" "rd_payload ?st = payload_count e ?ms"
    "rd_manifest ?st = list_ex (manifest_member e) ?ms"
    by (simp_all add: reading_of_def)
  have one: "manifest_data e ?ms = Some (tm_data x)" if x: "x \<in> set ?ms" "manifest_member e x" for x
  proof -
    have reg: "tm_type y = RegMember" if "y \<in> set ?ms" "manifest_member e y" for y
      using ok(1) that by (auto simp: list_all_iff member_ok_def)
    have "y = x" if "y \<in> set ?ms" "manifest_member e y" for y
      using ok(3) x that by (auto simp: is_manifest_key_def distinct_map inj_on_def)
    moreover obtain y ys where l: "rev (filter (\<lambda>m. tm_type m = RegMember \<and> manifest_member e m) ?ms) = y # ys"
      using x reg by (metis (mono_tags, lifting) filter_empty_conv neq_Nil_conv rev_is_Nil_conv)
    then have "y \<in> set (filter (\<lambda>m. tm_type m = RegMember \<and> manifest_member e m) ?ms)"
      by (metis list.set_intros(1) set_rev)
    ultimately have "y = x" by simp
    with l show ?thesis by (simp add: manifest_data_def)
  qed
  have "validate_archive e lim raw = Inr m \<longleftrightarrow>
    list_ex (manifest_member e) ?ms \<and> list_all readable ?ms \<and>
    (\<exists>bytes. manifest_data e ?ms = Some bytes \<and>
      validate_manifest e bytes (directory_paths ?ms) (payload_files e ?ms) (payload_count e ?ms) = Inr m)"
    using True st not_below_file [of e lim ?ms] read_contents_Inr [OF ok(1), of 0] ok(2)
    by (auto simp: validate_archive_def Let_def entries result_simps split: option.splits)
  also have "\<dots> \<longleftrightarrow> list_all readable ?ms \<and> ?manifest"
    using one by (auto simp: list_ex_iff)
  finally show ?thesis using True by simp
qed

end
