(* ===== verification/Archive_Documents.thy ===== *)
theory Archive_Documents
  imports Archive_Facts
begin

text \<open>
  The documents of a bundle read back: the manifest and the sidecar that the module writes are accepted
  by the functions that read them, with the same metadata. \<open>env_ok\<close> states what is relied on of the
  libraries: NFKC and lower case on ASCII text, the form of a digest, and enough recursion depth for
  the four levels of a sidecar. Numbers stay below \<open>10 ^ 4300\<close>, which the interpreter prints and reads.
\<close>

definition plain_ascii :: "utext \<Rightarrow> bool" where
  "plain_ascii s = list_all (\<lambda>c. c < 128) s"

definition ascii_lower :: "nat \<Rightarrow> nat" where
  "ascii_lower c = (if 65 \<le> c \<and> c \<le> 90 then c + 32 else c)"

definition env_ok :: "archive_env \<Rightarrow> bool" where
  "env_ok e = ((\<forall>s. plain_ascii s \<longrightarrow> nfkc e s = s \<and> lower_case e s = map ascii_lower s) \<and>
     (\<forall>raw. length (sha256_hex e raw) = 64 \<and> list_all lower_hex (sha256_hex e raw)) \<and> 4 \<le> json_depth e)"

definition small :: "int \<Rightarrow> bool" where
  "small i = (0 \<le> i \<and> i < 10 ^ int_digits_limit)"

definition small_limits :: "store_limits \<Rightarrow> bool" where
  "small_limits lim = (limits_ok lim \<and> small (max_compressed lim) \<and> small (max_expanded lim) \<and>
     small (max_files lim) \<and> small (max_manifest lim))"

lemma small_le: "0 \<le> i \<Longrightarrow> i \<le> j \<Longrightarrow> small j \<Longrightarrow> small i"
  by (simp add: small_def)

lemma small_dumpable:
  assumes "small i"
  shows "dumpable d (UInt i)"
proof -
  obtain k where k: "int_digits_limit = Suc k" by (metis int_digits_limit_def not0_implies_Suc zero_neq_numeral)
  then have "nat i < 10 ^ Suc k" using assms by (simp add: small_def nat_less_iff)
  then show ?thesis using show_nat_length [of "nat i" k] assms k by (simp add: small_def)
qed

section \<open>Dicts\<close>

lemma set_sort_items [simp]: "set (map fst (sort_key f xs)) = set (map fst xs)"
  by simp

lemma map_of_sort_key: "distinct (map fst xs) \<Longrightarrow> map_of (sort_key fst xs) k = map_of xs k"
proof -
  assume d: "distinct (map fst xs)"
  then have "distinct (map fst (sort_key fst xs))" by (simp add: distinct_map)
  then show ?thesis using d map_of_eqI [of "sort_key fst xs" xs]
    by (metis map_of_eq_Some_iff not_None_eq set_sort)
qed

lemma get_item_dict: "distinct (map fst xs) \<Longrightarrow>
  get_item k (sort_key fst xs) = (case map_of xs (ascii k) of None \<Rightarrow> UNull | Some v \<Rightarrow> v)"
  by (simp add: get_item_def map_of_sort_key)

lemma has_keys_dict: "has_keys ks (sort_key fst xs) \<longleftrightarrow> set (map fst xs) = set (map ascii ks)"
  by (simp add: has_keys_def)

lemma dumpable_dict: "dumpable (Suc d) (dict_of xs) \<longleftrightarrow>
  distinct (map fst xs) \<and> (\<forall>x\<in>set xs. dumpable d (snd x))"
proof -
  have "distinct (map fst (sort_key fst xs)) \<longleftrightarrow> distinct (map fst xs)"
    by (metis distinct_map distinct_sort set_sort)
  then show ?thesis by (simp add: dict_of_def list_all_iff)
qed

lemma dict_of_inject:
  assumes "map fst xs = map fst ys" "distinct (map fst xs)"
  shows "dict_of xs = dict_of ys \<longleftrightarrow> xs = ys"
proof
  assume "dict_of xs = dict_of ys"
  then have "sort_key fst xs = sort_key fst ys" by (simp add: dict_of_def)
  then have "map_of xs = map_of ys" using assms by (metis ext map_of_sort_key)
  then have "set xs = set ys" using assms by (metis map_of_eq_Some_iff subsetI subset_antisym surj_pair)
  then show "xs = ys"
    using assms map_of_eqI by (metis distinct_map map_inj_on sup_idem)
qed simp

lemma file_dict_inject: "file_dict f = file_dict g \<longleftrightarrow> f = g"
  unfolding file_dict_def by (subst dict_of_inject) (auto intro: bundle_file.equality)

lemma kind_text_inject: "kind_text k = kind_text l \<longleftrightarrow> k = l"
  by (cases k; cases l) auto

lemma bundle_kind_of_text [simp]: "bundle_kind_of (UStr (kind_text k)) = Inr k"
  by (cases k) (simp_all add: bundle_kind_of_def)

lemma manifest_dict_inject:
  assumes "manifest_dict m = manifest_dict n"
  shows "me_kind m = me_kind n" "me_directories m = me_directories n" "me_files m = me_files n"
    "me_file_count m = me_file_count n" "me_expanded m = me_expanded n" "me_schema m = me_schema n"
proof -
  have a: "UStr (me_schema m) = UStr (me_schema n)" "UStr (kind_text (me_kind m)) = UStr (kind_text (me_kind n))"
    "map UStr (me_directories m) = map UStr (me_directories n)"
    "map file_dict (me_files m) = map file_dict (me_files n)"
    "dict_of [(ascii ''file_count'', UInt (me_file_count m)), (ascii ''expanded_bytes'', UInt (me_expanded m))] =
     dict_of [(ascii ''file_count'', UInt (me_file_count n)), (ascii ''expanded_bytes'', UInt (me_expanded n))]"
    using assms unfolding manifest_dict_def by (subst (asm) dict_of_inject; simp)+
  have "inj UStr" "inj file_dict" by (auto simp: inj_def file_dict_inject)
  with a show "me_directories m = me_directories n" "me_files m = me_files n"
    by (simp_all add: inj_map_eq_map)
  show "me_kind m = me_kind n" "me_schema m = me_schema n" using a by (simp_all add: kind_text_inject)
  show "me_file_count m = me_file_count n" "me_expanded m = me_expanded n"
    using a(5) by (subst (asm) dict_of_inject; simp)+
qed


section \<open>Texts\<close>

lemma hex_plain: "list_all lower_hex h \<Longrightarrow> plain_ascii h \<and> map ascii_lower h = h"
  by (induction h) (auto simp: plain_ascii_def lower_hex_def ascii_lower_def)

lemma sha_prefix_points: "sha_prefix = [115, 104, 97, 50, 53, 54, 58]"
  by (simp add: sha_prefix_def)

lemma strip_text_fix:
  assumes "s \<noteq> []" "\<not> python_space (hd s)" "\<not> python_space (last s)"
  shows "strip_text s = s"
proof -
  have "dropWhile python_space s = s" using assms by (cases s) auto
  moreover have "dropWhile python_space (rev s) = rev s"
    using assms by (cases "rev s") (auto simp: last_rev hd_rev [symmetric])
  ultimately show ?thesis by (simp add: strip_text_def)
qed

lemma sha_digest_hex_prefixed:
  assumes "env_ok e" "length h = 64" "list_all lower_hex h"
  shows "sha_digest_hex e (sha_prefix @ h) = Inr h"
proof -
  have h: "h \<noteq> []" using assms(2) by auto
  then have "lower_hex (last h)" using assms(3) by (simp add: list_all_iff)
  then have "\<not> python_space (last h)" by (auto simp: lower_hex_def python_space_def)
  then have strip: "strip_text (sha_prefix @ h) = sha_prefix @ h"
    using h by (intro strip_text_fix) (auto simp: sha_prefix_points python_space_def)
  have "plain_ascii (sha_prefix @ h)" "map ascii_lower (sha_prefix @ h) = sha_prefix @ h"
    using hex_plain [OF assms(3)] by (auto simp: plain_ascii_def sha_prefix_points ascii_lower_def)
  then have "lower_case e (sha_prefix @ h) = sha_prefix @ h" using assms(1) by (simp add: env_ok_def)
  with strip assms show ?thesis
    by (simp add: sha_digest_hex_def Let_def sha_prefix_points)
qed

lemma sha256_of: "env_ok e \<Longrightarrow> length (sha256_hex e raw) = 64 \<and> list_all lower_hex (sha256_hex e raw)"
  by (simp add: env_ok_def)

text \<open>Texts of which the printed form can be encoded and decoded.\<close>

lemma valid_escape [simp]: "valid_text (escape_point c) \<longleftrightarrow> c \<le> 0x10FFFF \<and> \<not> surrogate c"
proof (cases "c < 32")
  case True
  then have "c div 16 < 2" "c mod 16 < 16" by auto
  then show ?thesis using True by (auto simp: escape_point_def hex_point_def surrogate_def)
qed (auto simp: escape_point_def surrogate_def)

lemma valid_quote [simp]: "valid_text (quote_text s) \<longleftrightarrow> valid_text s"
  by (induction s) (auto simp: quote_text_def surrogate_def)

lemma valid_separated: "valid_text sep \<Longrightarrow> valid_text (separated sep xs) \<longleftrightarrow> (\<forall>x\<in>set xs. valid_text x)"
  by (induction sep xs rule: separated.induct) auto

lemma valid_mark [simp]: "c < 128 \<Longrightarrow> c \<le> 0x10FFFF \<and> \<not> surrogate c"
  by (simp add: surrogate_def)

lemma valid_digest:
  assumes "list_all lower_hex h"
  shows "valid_text (sha_prefix @ h)"
proof -
  have "c \<le> 0x10FFFF \<and> \<not> surrogate c" if "lower_hex c" for c
    using that by (auto simp: lower_hex_def surrogate_def)
  then have "valid_text h" using assms by (auto simp: valid_text_def list_all_iff)
  then show ?thesis by (simp add: sha_prefix_def)
qed

fun valid_json :: "ujson \<Rightarrow> bool" where
  "valid_json (UFloat t) = valid_text t"
| "valid_json (UStr s) = valid_text s"
| "valid_json (UArr vs) = list_all valid_json vs"
| "valid_json (UObj ms) = list_all (\<lambda>m. valid_text (fst m) \<and> valid_json (snd m)) ms"
| "valid_json v = True"

lemma valid_print: "valid_text (print_json v) \<longleftrightarrow> valid_json v"
proof (induction v)
  case (UArr vs)
  then show ?case by (simp add: valid_separated list_all_iff)
next
  case (UObj ms)
  have "valid_text (quote_text (fst m) @ [58] @ print_json (snd m)) \<longleftrightarrow> valid_text (fst m) \<and> valid_json (snd m)"
    if "m \<in> set ms" for m
    using UObj [OF that] by (cases m) (auto simp: snds.intros)
  then show ?case by (simp add: valid_separated list_all_iff)
qed auto

lemma valid_dict: "valid_json (dict_of xs) \<longleftrightarrow> (\<forall>x\<in>set xs. valid_text (fst x) \<and> valid_json (snd x))"
  by (simp add: dict_of_def list_all_iff)

section \<open>Documents\<close>

lemma manifest_bytes_valid:
  "valid_json v \<Longrightarrow> manifest_bytes v = Inr (utf8_bytes (print_json v @ [10]))"
  using encode_valid [of "print_json v @ [10]"] by (simp add: manifest_bytes_def valid_print)

lemma load_manifest_bytes:
  assumes "manifest_bytes v = Inr raw" "valid_json v" "dumpable (json_depth e) v"
  shows "load_document e x raw = Inr v"
proof -
  have "raw = utf8_bytes (print_json v @ [10])" using assms(1) manifest_bytes_valid [OF assms(2)] by simp
  then have "decode_utf8 raw = Some (print_json v @ [10])"
    using assms(2) by (simp add: decode_utf8_bytes valid_print del: utf8_bytes_simps)
  moreover have "json_loads (json_depth e) (print_json v @ [10]) = Inr v"
    using assms(3) by (intro json_loads_printed) (simp_all add: delimited_def skip_space_def json_space_def)
  ultimately show ?thesis by (simp add: load_document_def)
qed

text \<open>Bytes that decode came from a text without surrogates and beyond no last point.\<close>

lemma decoded_valid: "decode_utf8 (utf8_bytes s) = Some t \<Longrightarrow> valid_text s"
proof (induction s arbitrary: t)
  case (Cons c s)
  then show ?case
  proof (cases "c \<le> 0x10FFFF \<and> \<not> surrogate c")
    case True
    with Cons show ?thesis by (auto simp: decode_utf8_def decode_point)
  next
    case False
    with Cons.prems show ?thesis by (simp add: decode_utf8_def decode_points_point)
  qed
qed simp

section \<open>Metadata\<close>

definition file_ok :: "archive_env \<Rightarrow> bundle_file \<Rightarrow> bool" where
  "file_ok e f = (safe_path e (bf_path f) \<and> 0 \<le> bf_size f \<and>
     (\<exists>h. bf_sha256 f = sha_prefix @ h \<and> length h = 64 \<and> list_all lower_hex h))"

definition meta_ok :: "archive_env \<Rightarrow> bundle_meta \<Rightarrow> bool" where
  "meta_ok e m = (me_schema m = bundle_schema \<and> list_all (safe_path e) (me_directories m) \<and>
     me_directories m = sorted_paths (me_directories m) \<and> list_all (file_ok e) (me_files m) \<and>
     me_files m = sorted_files (me_files m) \<and> me_file_count m = int (length (me_files m)) \<and>
     me_member_count m = int (length (me_directories m) + length (me_files m)) \<and>
     me_expanded m = total_size (me_files m))"

lemma manifest_path_safe: "safe_path e s \<Longrightarrow> manifest_path e (UStr s) = Inr s"
  by (simp add: manifest_path_def member_path_cases)

lemma manifest_file_again:
  assumes "env_ok e" "file_ok e f"
  shows "manifest_file e (file_dict f) = Inr f"
  using assms sha_digest_hex_prefixed [OF assms(1)]
  by (auto simp: manifest_file_def file_dict_def dict_of_def has_keys_dict get_item_dict manifest_path_safe
      file_ok_def simp del: sort_key_simps)

lemma rmapM_map: "(\<And>x. x \<in> set xs \<Longrightarrow> f (g x) = Inr x) \<Longrightarrow> rmapM f (map g xs) = Inr xs"
  by (induction xs) auto

lemma manifest_document_again:
  assumes "env_ok e" "meta_ok e m"
  shows "metadata_from_manifest_document e (manifest_dict m) (me_member_count m) n = Inr (m\<lparr>me_manifest_bytes := n\<rparr>)"
proof -
  let ?totals = "[(ascii ''file_count'', UInt (me_file_count m)), (ascii ''expanded_bytes'', UInt (me_expanded m))]"
  have dirs: "rmapM (manifest_path e) (map UStr (me_directories m)) = Inr (me_directories m)"
    using assms(2) by (intro rmapM_map manifest_path_safe) (auto simp: meta_ok_def list_all_iff)
  have files: "rmapM (manifest_file e) (map file_dict (me_files m)) = Inr (me_files m)"
    using assms by (intro rmapM_map manifest_file_again) (auto simp: meta_ok_def list_all_iff)
  have totals: "manifest_totals (me_files m) (sort_key fst ?totals)"
    using assms(2) by (simp add: manifest_totals_def has_keys_dict get_item_dict meta_ok_def del: sort_key_simps)
  have "metadata_from_manifest_document e (dict_of items) (me_member_count m) n = Inr (m\<lparr>me_manifest_bytes := n\<rparr>)"
    if items: "items = [(ascii ''schema'', UStr (me_schema m)), (ascii ''kind'', UStr (kind_text (me_kind m))),
      (ascii ''directories'', UArr (map UStr (me_directories m))),
      (ascii ''files'', UArr (map file_dict (me_files m))), (ascii ''totals'', dict_of ?totals)]" for items
  proof -
    have "has_keys [''schema'', ''kind'', ''directories'', ''files'', ''totals''] (sort_key fst items)"
      unfolding has_keys_dict by (simp add: items)
    moreover have "get_item ''schema'' (sort_key fst items) = UStr bundle_schema"
      "get_item ''kind'' (sort_key fst items) = UStr (kind_text (me_kind m))"
      "get_item ''directories'' (sort_key fst items) = UArr (map UStr (me_directories m))"
      "get_item ''files'' (sort_key fst items) = UArr (map file_dict (me_files m))"
      "get_item ''totals'' (sort_key fst items) = UObj (sort_key fst ?totals)"
      using assms(2) by (subst get_item_dict; simp add: items meta_ok_def dict_of_def)+
    ultimately show ?thesis
      using assms(2) dirs files totals
      by (simp add: metadata_from_manifest_document_def dict_of_def [of items] python_errors_as_def meta_ok_def
          del: sort_key_simps)
  qed
  then show ?thesis by (simp add: manifest_dict_def)
qed


section \<open>The manifest of an accepted archive\<close>

lemma metadata_counts:
  assumes "metadata_from_manifest_document e document n k = Inr m"
  shows "me_member_count m = n \<and> me_manifest_bytes m = k"
proof -
  obtain ms where d: "document = UObj ms"
    using assms by (cases document) (auto simp: metadata_from_manifest_document_def)
  then obtain kind where "(case (get_item ''directories'' ms, get_item ''files'' ms, get_item ''totals'' ms) of
      (UArr raw_directories, UArr raw_files, UObj totals) \<Rightarrow>
        rbind (rmapM (manifest_path e) raw_directories) (\<lambda>directories.
        rbind (rmapM (manifest_file e) raw_files) (\<lambda>files.
        ensured (directories = sorted_paths directories) UnsafeBundle
        (ensured (files = sorted_files files) UnsafeBundle
        (ensured (manifest_totals files totals) UnsafeBundle
        (ensured (n = int (length directories + length files)) UnsafeBundle
          (Inr \<lparr>me_schema = bundle_schema, me_kind = kind, me_directories = directories, me_files = files,
             me_file_count = int (length files), me_member_count = n,
             me_expanded = total_size files, me_manifest_bytes = k\<rparr>))))))
    | _ \<Rightarrow> Inl UnsafeBundle) = Inr m"
    using assms by (auto simp: metadata_from_manifest_document_def result_simps)
  then show ?thesis
    by (cases "get_item ''directories'' ms"; cases "get_item ''files'' ms"; cases "get_item ''totals'' ms")
      (auto simp: result_simps)
qed

lemma python_errors_as_Inr [simp]: "python_errors_as x r = Inr v \<longleftrightarrow> r = Inr v"
  by (auto simp: python_errors_as_def split: sum.splits)

lemma bundle_errors_as_Inr [simp]: "bundle_errors_as x r = Inr v \<longleftrightarrow> r = Inr v"
  by (auto simp: bundle_errors_as_def split: sum.splits)

lemma actual_meta_simps [simp]:
  "me_schema (actual_meta k ds fs n b) = bundle_schema" "me_kind (actual_meta k ds fs n b) = k"
  "me_directories (actual_meta k ds fs n b) = sorted_paths ds" "me_files (actual_meta k ds fs n b) = sorted_files fs"
  "me_member_count (actual_meta k ds fs n b) = n" "me_manifest_bytes (actual_meta k ds fs n b) = b"
  "me_file_count (actual_meta k ds fs n b) = int (length (sorted_files fs))"
  "me_expanded (actual_meta k ds fs n b) = total_size (sorted_files fs)"
  by (simp_all add: actual_meta_def)

lemma validate_manifest_facts:
  assumes "validate_manifest e raw ds fs n = Inr m"
  shows "m = actual_meta (me_kind m) ds fs n (int (length raw))"
    and "manifest_bytes (manifest_dict m) = Inr raw"
    and "metadata_from_manifest_document e (manifest_dict m) n (int (length raw)) = Inr m"
    and "valid_json (manifest_dict m)"
proof -
  from assms obtain document declared where document: "load_document e UnsafeBundle raw = Inr document"
    and declared: "metadata_from_manifest_document e document n (int (length raw)) = Inr declared"
    and same: "document = manifest_dict declared" "manifest_bytes (manifest_dict declared) = Inr raw"
      "document = manifest_dict m"
    and m: "m = actual_meta (me_kind declared) ds fs n (int (length raw))"
    unfolding validate_manifest_def rbind_Inr_iff Let_def python_errors_as_Inr ensured_Inr_iff sum.inject by blast
  note d = manifest_dict_inject [OF same(3) [symmetric, unfolded same(1)]]
  have "declared = m"
    using d metadata_counts [OF declared] m by (intro bundle_meta.equality) simp_all
  then show "m = actual_meta (me_kind m) ds fs n (int (length raw))"
    "manifest_bytes (manifest_dict m) = Inr raw"
    "metadata_from_manifest_document e (manifest_dict m) n (int (length raw)) = Inr m"
    using m same declared by simp_all
  have "raw = utf8_bytes (print_json document @ [10])"
    using same by (auto simp: manifest_bytes_def encode_utf8_def split: if_splits)
  moreover have "decode_utf8 raw \<noteq> None" using document by (auto simp: load_document_def split: option.splits)
  ultimately have "valid_text (print_json document @ [10])" using decoded_valid by fastforce
  then show "valid_json (manifest_dict m)" using same valid_print by simp
qed

lemma dumpable_manifest:
  assumes "\<And>f. f \<in> set (me_files m) \<Longrightarrow> small (bf_size f)" "small (me_file_count m)" "small (me_expanded m)"
  shows "dumpable (Suc (Suc (Suc d))) (manifest_dict m)"
proof -
  have "dumpable (Suc d) (file_dict f)" if "f \<in> set (me_files m)" for f
    unfolding file_dict_def dumpable_dict using assms(1) [OF that] by (auto simp: small_dumpable simp del: dumpable.simps(3))
  then show ?thesis
    unfolding manifest_dict_def dumpable_dict
    using assms(2,3) by (auto simp: dumpable_dict small_dumpable list_all_iff simp del: dumpable.simps(3))
qed

lemma validate_manifest_again:
  assumes "env_ok e" "meta_ok e m" and m: "m = actual_meta (me_kind m) ds fs n (int (length raw))"
    and "manifest_bytes (manifest_dict m) = Inr raw" "valid_json (manifest_dict m)"
    and "dumpable (json_depth e) (manifest_dict m)"
  shows "validate_manifest e raw ds fs n = Inr m"
proof -
  have n: "me_member_count m = n" "me_manifest_bytes m = int (length raw)" by (subst m, simp)+
  then have "m\<lparr>me_manifest_bytes := int (length raw)\<rparr> = m" by simp
  then have "metadata_from_manifest_document e (manifest_dict m) n (int (length raw)) = Inr m"
    using manifest_document_again [OF assms(1,2), of "int (length raw)"] n by simp
  moreover have "load_document e UnsafeBundle raw = Inr (manifest_dict m)"
    using assms by (intro load_manifest_bytes)
  ultimately show ?thesis
    using assms(4) m [symmetric] by (simp add: validate_manifest_def python_errors_as_def Let_def)
qed

section \<open>The sidecar of an accepted archive\<close>

lemma sidecar_again:
  assumes m: "validate_manifest e raw ds fs n = Inr m" and "env_ok e"
    and "\<And>f. f \<in> set (me_files m) \<Longrightarrow> small (bf_size f)" "small (me_file_count m)" "small (me_expanded m)"
    and "small compressed" "small n" "small (int (length raw))"
    and h: "list_all lower_hex h"
    and written: "write_sidecar (sha_prefix @ h) compressed m = Inr sidecar"
  shows "rbind (load_document e BundleStorage sidecar) (\<lambda>document. metadata_from_sidecar e document h compressed) = Inr m"
proof -
  let ?doc = "sidecar_dict (sha_prefix @ h) compressed m"
  note facts = validate_manifest_facts [OF m]
  have n: "me_member_count m = n" "me_manifest_bytes m = int (length raw)" by (subst facts(1), simp)+
  obtain k where k: "json_depth e = Suc (Suc (Suc (Suc k)))"
  proof
    show "json_depth e = Suc (Suc (Suc (Suc (json_depth e - 4))))"
      using assms(2) unfolding env_ok_def by linarith
  qed
  have valid: "valid_json ?doc"
    using facts(4) valid_digest [OF h] by (auto simp: sidecar_dict_def valid_dict)
  have "dumpable (json_depth e) ?doc"
    unfolding k sidecar_dict_def dumpable_dict
    using assms(3-8) dumpable_manifest [of m k] n
    by (auto simp: small_dumpable simp del: dumpable.simps(3))
  then have "load_document e BundleStorage sidecar = Inr ?doc"
    using written valid by (intro load_manifest_bytes) (simp_all add: write_sidecar_def)
  moreover have "metadata_from_sidecar e (dict_of items) h compressed = Inr m"
    if items: "items = [(ascii ''archive_sha256'', UStr (sha_prefix @ h)), (ascii ''compressed_bytes'', UInt compressed),
      (ascii ''manifest'', manifest_dict m), (ascii ''member_count'', UInt n),
      (ascii ''manifest_bytes'', UInt (int (length raw)))]" for items
  proof -
    have "has_keys [''archive_sha256'', ''compressed_bytes'', ''manifest'', ''member_count'', ''manifest_bytes'']
        (sort_key fst items)"
      unfolding has_keys_dict by (simp add: items)
    moreover have "get_item ''archive_sha256'' (sort_key fst items) = UStr (sha_prefix @ h)"
      "get_item ''compressed_bytes'' (sort_key fst items) = UInt compressed"
      "get_item ''manifest'' (sort_key fst items) = manifest_dict m"
      "get_item ''member_count'' (sort_key fst items) = UInt n"
      "get_item ''manifest_bytes'' (sort_key fst items) = UInt (int (length raw))"
      by (subst get_item_dict; simp add: items)+
    ultimately show ?thesis
      using facts(2,3)
      by (simp add: metadata_from_sidecar_def dict_of_def equals_integer_def python_errors_as_def bundle_errors_as_def
          del: sort_key_simps)
  qed
  ultimately show ?thesis by (simp add: sidecar_dict_def n)
qed

end
