(* ===== verification/Archive_Scans.thy ===== *)
theory Archive_Scans
  imports Archive_Documents
begin

text \<open>
  From a source directory to an archive that is accepted: what \<open>_scan_source\<close> collects, and that the
  members \<open>_write_deterministic_archive\<close> makes of it, read back by the tar library, pass
  \<open>_validate_archive\<close> with exactly the metadata that was written.
\<close>

section \<open>What a scan collects\<close>

definition scanned_kind :: "source_entry \<Rightarrow> entry_kind" where
  "scanned_kind s = (if se_directory s then DirEntry else FileEntry)"

definition scanned_claims :: "source_entry list \<Rightarrow> claim list" where
  "scanned_claims ss = concat (map (\<lambda>s. path_claims (scanned_kind s, se_path s)) ss)"

lemma scanned_claims_simps [simp]:
  "scanned_claims [] = []" "scanned_claims (s # ss) = path_claims (scanned_kind s, se_path s) @ scanned_claims ss"
  "scanned_claims (ss @ ts) = scanned_claims ss @ scanned_claims ts"
  by (simp_all add: scanned_claims_def)

lemma mset_claims: "mset (scanned_claims ss) =
  sum_mset (image_mset (\<lambda>s. mset (path_claims (scanned_kind s, se_path s))) (mset ss))"
  by (induction ss) simp_all

definition clear_of_manifest :: "archive_env \<Rightarrow> claim list \<Rightarrow> bool" where
  "clear_of_manifest e cs = (\<forall>c\<in>set cs. claim_key e c \<noteq> path_key e manifest_name)"

definition scan_ok :: "archive_env \<Rightarrow> store_limits \<Rightarrow> scanning \<Rightarrow> bool" where
  "scan_ok e lim st =
     (list_all (\<lambda>s. safe_path e (se_path s) \<and> 0 \<le> se_size s \<and> (se_directory s \<longrightarrow> se_size s = 0)) (sc_entries st) \<and>
      distinct (map (\<lambda>s. path_key e (se_path s)) (sc_entries st)) \<and>
      dom (sc_paths st) = set (map (\<lambda>s. path_key e (se_path s)) (sc_entries st)) \<and>
      sorted_wrt (agreeing e) (scanned_claims (sc_entries st)) \<and>
      sc_claims st = claimed e (scanned_claims (sc_entries st)) \<and>
      clear_of_manifest e (scanned_claims (sc_entries st)) \<and>
      int (length (sc_entries st)) \<le> max_files lim)"

text \<open>File systems have no slash in a name.\<close>

fun plain_names :: "source_node \<Rightarrow> bool" where
  "plain_names (SrcDir (Some cs)) = list_all (\<lambda>c. 47 \<notin> set (fst c) \<and> plain_names (snd c)) cs"
| "plain_names _ = True"

text \<open>No parent of the paths below \<open>parent\<close> has the key of the manifest.\<close>

definition clear_below :: "archive_env \<Rightarrow> utext \<Rightarrow> bool" where
  "clear_below e parent = (parent = [] \<or>
     (\<forall>i. 0 < i \<and> i \<le> length (path_parts parent) \<longrightarrow>
        path_key e (join_parts (take i (path_parts parent))) \<noteq> path_key e manifest_name))"

lemma relative_parts:
  assumes "47 \<notin> set name"
  shows "path_parts (relative_path parent name) = (if parent = [] then [name] else path_parts parent @ [name])"
proof (cases "parent = []")
  case False
  have "path_parts (parent @ 47 # name) = path_parts parent @ [name]"
    using assms by (induction parent) (auto simp: split_sep_single split: list.splits)
  with False show ?thesis by (simp add: relative_path_def)
qed (use assms in \<open>simp add: relative_path_def split_sep_single\<close>)

lemma relative_not_Nil: "safe_path e (relative_path parent name) \<Longrightarrow> relative_path parent name \<noteq> []"
  by (auto simp: safe_path_def)

lemma claims_clear:
  assumes "47 \<notin> set name" "clear_below e parent"
    and "path_key e (relative_path parent name) \<noteq> path_key e manifest_name"
  shows "clear_of_manifest e (path_claims (kind, relative_path parent name))"
    "clear_below e (relative_path parent name)"
proof -
  let ?path = "relative_path parent name"
  have parts: "path_key e (join_parts (take i (path_parts ?path))) \<noteq> path_key e manifest_name"
    if "0 < i" "i \<le> length (path_parts ?path)" for i
  proof (cases "i = length (path_parts ?path)")
    case True
    then show ?thesis using assms(3) by simp
  next
    case False
    with that have "parent \<noteq> []" "i \<le> length (path_parts parent)"
      using relative_parts [OF assms(1), of parent] by (auto split: if_splits)
    then show ?thesis
      using assms(2) that relative_parts [OF assms(1), of parent] by (auto simp: clear_below_def)
  qed
  show "clear_below e ?path" using parts by (simp add: clear_below_def)
  show "clear_of_manifest e (path_claims (kind, ?path))"
    using parts assms(3) by (auto simp: clear_of_manifest_def path_claims_def claims_of_members claim_key_def)
qed

lemma scan_child_ok:
  assumes ok: "scan_ok e lim st" and name: "47 \<notin> set name" and clear: "clear_below e parent"
    and run: "scan_child e lim (relative_path parent name) child st = Inr st'"
  shows "scan_ok e lim st'" "clear_below e (relative_path parent name)" "safe_path e (relative_path parent name)"
proof -
  let ?path = "relative_path parent name"
  have safe: "safe_path e ?path" and key: "path_key e ?path \<noteq> path_key e manifest_name"
    and fresh: "sc_paths st (path_key e ?path) = None"
    using run by (auto simp: scan_child_def result_simps is_manifest_key_def)
  obtain s where s: "se_path s = ?path" "0 \<le> se_size s" "se_directory s \<longrightarrow> se_size s = 0"
    and claim: "claim_path e (scanned_kind s) ?path (sc_claims st) = Inr (sc_claims st')"
    and entries: "sc_entries st' = sc_entries st @ [s]" "int (length (sc_entries st)) + 1 \<le> max_files lim"
    and paths: "sc_paths st' = (sc_paths st)(path_key e ?path \<mapsto> ?path)"
  proof (cases child)
    case (SrcFile n x stamp)
    then show ?thesis
      using run by (intro that [of "\<lparr>se_path = ?path, se_directory = False, se_size = n, se_executable = x, se_stamp = stamp\<rparr>"])
        (auto simp: scan_child_def result_simps Let_def add_entry_def scanned_kind_def)
  next
    case (SrcDir children)
    then show ?thesis
      using run by (intro that [of "\<lparr>se_path = ?path, se_directory = True, se_size = 0, se_executable = False, se_stamp = 0\<rparr>"])
        (auto simp: scan_child_def result_simps Let_def add_entry_def scanned_kind_def)
  qed (use run in \<open>auto simp: scan_child_def result_simps Let_def\<close>)
  have sorted: "sorted_wrt (agreeing e) (scanned_claims (sc_entries st @ [s]))"
    and claims: "sc_claims st' = claimed e (scanned_claims (sc_entries st @ [s]))"
    using claim ok by (auto simp: scan_ok_def claim_path_list claim_list_claimed s(1) split: if_splits)
  have "path_key e ?path \<notin> set (map (\<lambda>s. path_key e (se_path s)) (sc_entries st))"
    using fresh ok by (metis domIff scan_ok_def)
  then show "scan_ok e lim st'"
    using ok safe s entries paths sorted claims claims_clear(1) [OF name clear key, of "scanned_kind s"]
    by (auto simp: scan_ok_def clear_of_manifest_def)
  show "clear_below e ?path" by (rule claims_clear(2) [OF name clear key])
  show "safe_path e ?path" by (rule safe)
qed

lemma children_of_plain: "plain_names child \<Longrightarrow> children_of child = Inr ds \<Longrightarrow>
  list_all (\<lambda>c. 47 \<notin> set (fst c) \<and> plain_names (snd c)) ds"
  by (cases child rule: plain_names.cases) (auto simp: children_of_def listed_def list_all_iff)

lemma visit_ok:
  "visit e lim parent cs st = Inr st' \<Longrightarrow> scan_ok e lim st \<Longrightarrow> clear_below e parent \<Longrightarrow>
   list_all (\<lambda>c. 47 \<notin> set (fst c) \<and> plain_names (snd c)) cs \<Longrightarrow> scan_ok e lim st'"
proof (induction e lim parent cs st arbitrary: st' rule: visit.induct)
  case (2 e lim parent name child rest st)
  from "2.prems" obtain st1 ds st2 where run: "scan_child e lim (relative_path parent name) child st = Inr st1"
    "children_of child = Inr ds" "visit e lim (relative_path parent name) ds st1 = Inr st2"
    "visit e lim parent rest st2 = Inr st'"
    by (auto simp: result_simps)
  note child = scan_child_ok [OF "2.prems"(2) _ "2.prems"(3) run(1)]
  have "scan_ok e lim st2"
    using "2.IH"(1) [OF run(1-3)] child children_of_plain [OF _ run(2)] "2.prems"(4) by simp
  then show ?case using "2.IH"(2) [OF run(1-4)] "2.prems" by simp
qed simp


lemma scan_source_ok:
  assumes "scan_source e lim (Some cs) = Inr entries" "plain_names (SrcDir (Some cs))" "limits_ok lim"
  shows "list_all (\<lambda>s. safe_path e (se_path s) \<and> 0 \<le> se_size s \<and> (se_directory s \<longrightarrow> se_size s = 0)) entries"
    "distinct (map (\<lambda>s. path_key e (se_path s)) entries)" "sorted_wrt (agreeing e) (scanned_claims entries)"
    "clear_of_manifest e (scanned_claims entries)" "int (length entries) \<le> max_files lim"
    "sorted (map (\<lambda>s. utf8_bytes (se_path s)) entries)"
proof -
  from assms(1) obtain ds st where ds: "children_of (SrcDir (Some cs)) = Inr ds"
    and st: "visit e lim [] ds no_scanning = Inr st"
    and entries: "entries = sort_key (\<lambda>s. utf8_bytes (se_path s)) (sc_entries st)"
    by (auto simp: scan_source_def result_simps children_of_def)
  have "scan_ok e lim no_scanning" using assms(3) by (auto simp: scan_ok_def no_scanning_def claimed_Nil
      clear_of_manifest_def limits_ok_def)
  then have ok: "scan_ok e lim st"
    using visit_ok [OF st] children_of_plain [OF assms(2) ds] by (simp add: clear_below_def)
  have same: "mset entries = mset (sc_entries st)" by (simp add: entries)
  then have claims: "mset (scanned_claims (sc_entries st)) = mset (scanned_claims entries)"
    by (simp add: mset_claims)
  show "list_all (\<lambda>s. safe_path e (se_path s) \<and> 0 \<le> se_size s \<and> (se_directory s \<longrightarrow> se_size s = 0)) entries"
    using ok by (simp add: entries scan_ok_def list_all_iff)
  show "distinct (map (\<lambda>s. path_key e (se_path s)) entries)"
    using ok same mset_eq_imp_distinct_iff [of "map (\<lambda>s. path_key e (se_path s)) entries"
        "map (\<lambda>s. path_key e (se_path s)) (sc_entries st)"]
    by (simp add: scan_ok_def)
  show "sorted_wrt (agreeing e) (scanned_claims entries)"
    using ok by (intro sorted_wrt_reorder [OF agreeing_sym claims]) (simp add: scan_ok_def)
  show "clear_of_manifest e (scanned_claims entries)"
    using ok claims by (metis clear_of_manifest_def mset_eq_setD scan_ok_def)
  show "int (length entries) \<le> max_files lim" using ok by (simp add: entries scan_ok_def)
  show "sorted (map (\<lambda>s. utf8_bytes (se_path s)) entries)" by (simp add: entries)
qed

section \<open>What is written\<close>

text \<open>\<open>tarfile\<close> drops the slashes behind the name of a directory when it reads a header; otherwise an
  archive gives back the members it was made of.\<close>

definition read_back :: "tar_member \<Rightarrow> tar_member" where
  "read_back m =
     (if tm_type m = DirMember then m\<lparr>tm_name := rev (dropWhile (\<lambda>c. c = 47) (rev (tm_name m)))\<rparr> else m)"

definition tar_faithful :: "archive_env \<Rightarrow> tar_member list \<Rightarrow> bool" where
  "tar_faithful e ms = (read_tar e (write_tar e ms) = \<lparr>ts_members = map read_back ms, ts_end = Complete\<rparr>)"

lemma split_sep_last: "split_sep c (s @ [c]) = split_sep c s @ [[]]"
  by (induction s) (auto split: list.splits)

lemma safe_path_last: "safe_path e s \<Longrightarrow> s \<noteq> [] \<and> last s \<noteq> 47"
proof
  assume safe: "safe_path e s"
  then show "s \<noteq> []" by (simp add: safe_path_def)
  show "last s \<noteq> 47"
  proof
    assume "last s = 47"
    with \<open>s \<noteq> []\<close> obtain t where "s = t @ [47]" by (metis append_butlast_last_id)
    then have "[] \<in> set (path_parts s)" by (simp add: split_sep_last)
    then show False using safe_path_parts [OF safe, of "[]"] by (simp add: safe_component_def)
  qed
qed

lemma executable_info [simp]:
  "executable_mode (tm_mode (tar_info p d n x c)) \<longleftrightarrow> d \<or> x"
  by (simp add: tar_info_def octal_def executable_mode_def bit_iff_odd)

definition copied :: "source_entry \<Rightarrow> tar_member \<Rightarrow> bool" where
  "copied s m = (tm_name m = se_path s \<and>
     (if se_directory s then tm_type m = DirMember \<and> tm_size m = 0
      else tm_type m = RegMember \<and> tm_size m = se_size s \<and> int (length (tm_data m)) = se_size s \<and> tm_complete m \<and>
        executable_mode (tm_mode m) = se_executable s))"

lemma write_entry_copied:
  assumes "write_entry e again s = Inr (m, f)" "\<not> se_directory s"
  shows "copied s m" "f = member_file e m (tm_name m)"
proof -
  obtain regular stamp n content where again: "again = Opened regular stamp n content"
    using assms(1) by (cases again) (simp_all add: write_entry_def)
  have c: "int (length (take (nat (se_size s)) content)) = se_size s"
    and m: "m = tar_info (se_path s) False (se_size s) (se_executable s) (take (nat (se_size s)) content)"
    and f: "f = \<lparr>bf_path = se_path s, bf_size = se_size s,
      bf_sha256 = sha_prefix @ sha256_hex e (take (nat (se_size s)) content), bf_executable = se_executable s\<rparr>"
    using assms(1) by (simp_all add: write_entry_def again Let_def del: length_take)
  have x: "executable_mode (tm_mode m) = se_executable s" unfolding m by simp
  have t: "tm_name m = se_path s" "tm_type m = RegMember" "tm_size m = se_size s"
    "tm_data m = take (nat (se_size s)) content" "tm_complete m"
    by (simp_all add: m tar_info_def)
  show "copied s m" using assms(2) c x t by (simp add: copied_def del: length_take)
  show "f = member_file e m (tm_name m)" using c x t by (simp add: f member_file_def del: length_take)
qed

lemma write_entries_copied:
  "write_entries e again ss = Inr (ms, fs) \<Longrightarrow> list_all (\<lambda>s. safe_path e (se_path s)) ss \<Longrightarrow>
   list_all2 copied ss (map read_back ms) \<and>
   fs = map (\<lambda>m. member_file e m (tm_name m)) (filter (\<lambda>m. tm_type m = RegMember) (map read_back ms))"
proof (induction ss arbitrary: ms fs)
  case (Cons s ss)
  show ?case
  proof (cases "se_directory s")
    case True
    with Cons.prems obtain ns where ms: "ms = tar_info (se_path s) True 0 False [] # ns"
      "write_entries e again ss = Inr (ns, fs)"
      by (auto simp: result_simps)
    obtain q x where "se_path s = q @ [x]" "x \<noteq> 47"
      using safe_path_last [of e "se_path s"] Cons.prems(2) by (metis append_butlast_last_id list.pred_inject(2))
    then have "read_back (tar_info (se_path s) True 0 False []) =
      (tar_info (se_path s) True 0 False [])\<lparr>tm_name := se_path s\<rparr>"
      by (simp add: read_back_def tar_info_def)
    then show ?thesis
      using Cons.IH [OF ms(2)] Cons.prems(2) True by (simp add: ms(1) copied_def tar_info_def)
  next
    case False
    with Cons.prems obtain m f ns gs where w: "write_entry e (again (se_path s)) s = Inr (m, f)"
      "write_entries e again ss = Inr (ns, gs)" "ms = m # ns" "fs = f # gs"
      by (auto simp: result_simps)
    then have "copied s m" "f = member_file e m (tm_name m)" using write_entry_copied False by blast+
    moreover from this have "tm_type m = RegMember" using False by (simp add: copied_def)
    ultimately show ?thesis using Cons.IH [OF w(2)] Cons.prems(2) w by (simp add: read_back_def)
  qed
qed simp

lemma copied_facts:
  assumes "list_all2 copied ss ms"
  shows "map tm_name ms = map se_path ss" "all_claims ms = scanned_claims ss"
    "directory_paths ms = map se_path (filter se_directory ss)" "list_all readable ms"
    "declared_bytes ms = total_size (map (\<lambda>m. member_file e m (tm_name m)) (filter (\<lambda>m. tm_type m = RegMember) ms))"
    "map bf_path (map (\<lambda>m. member_file e m (tm_name m)) (filter (\<lambda>m. tm_type m = RegMember) ms)) =
      map se_path (filter (\<lambda>s. \<not> se_directory s) ss)"
  using assms
  by (induction rule: list_all2_induct)
    (auto simp: copied_def all_claims_def scanned_claims_def member_claims_def member_kind_def scanned_kind_def
      directory_paths_def readable_def total_size_def member_file_def split: if_splits)

lemma copied_member_ok:
  assumes "copied s m" "safe_path e (se_path s)" "0 \<le> se_size s" "\<not> is_manifest_key e (se_path s)"
  shows "member_ok e lim m"
  using assms by (auto simp: copied_def member_ok_def split: if_splits)


section \<open>What is written is accepted\<close>

lemma manifest_name_parts: "path_parts manifest_name = [manifest_name]"
  by (rule split_sep_single) (simp add: manifest_name_def)

lemma manifest_name_safe:
  assumes "env_ok e"
  shows "safe_path e manifest_name"
proof -
  have plain: "plain_ascii manifest_name" "plain_ascii (takeWhile (\<lambda>c. c \<noteq> 46) manifest_name)"
    by (simp_all add: plain_ascii_def manifest_name_def)
  then have lower: "nfkc e manifest_name = manifest_name"
    "lower_case e manifest_name = map ascii_lower manifest_name"
    "lower_case e (takeWhile (\<lambda>c. c \<noteq> 46) manifest_name) = map ascii_lower (takeWhile (\<lambda>c. c \<noteq> 46) manifest_name)"
    using assms unfolding env_ok_def by blast+
  have c: "canonical_component e manifest_name \<notin> {ascii ''.git'', ascii ''.autograde''}"
    by (simp add: canonical_component_def lower) (simp add: manifest_name_def ascii_lower_def fold_point_def)
  have r: "map ascii_lower (takeWhile (\<lambda>c. c \<noteq> 46) manifest_name) \<notin> set windows_reserved"
    by (simp add: manifest_name_def ascii_lower_def windows_reserved_def upt_rec)
  have u: "utf8_bytes manifest_name = manifest_name"
    by (simp add: manifest_name_def)
  have "\<not> list_ex (\<lambda>c. c \<in> set windows_invalid) manifest_name" "\<not> ends_with_dot_or_space manifest_name"
    by (simp_all add: manifest_name_def windows_invalid_def ends_with_dot_or_space_def)
  then have w: "\<not> windows_unfit e manifest_name" using r by (simp add: windows_unfit_def lower)
  have "manifest_name \<notin> {[], [46], [46, 46]}" "length manifest_name \<le> max_component_bytes"
    by (simp_all add: manifest_name_def max_component_bytes_def)
  then have s: "safe_component e manifest_name" using c w u by (simp add: safe_component_def)
  have "manifest_name \<noteq> []" "\<not> list_ex ascii_control manifest_name" "92 \<notin> set manifest_name"
    "\<not> list_ex surrogate manifest_name" "length manifest_name \<le> max_path_bytes"
    "\<not> absolute_path manifest_name" "\<not> windows_drive manifest_name"
    by (simp_all add: manifest_name_def ascii_control_def surrogate_def max_path_bytes_def absolute_path_def
        windows_drive_def)
  then show ?thesis using s u by (simp add: safe_path_def manifest_name_parts)
qed

lemma total_size_sorted [simp]: "total_size (sorted_files fs) = total_size fs"
  by (simp add: total_size_def sorted_files_def flip: sum_mset_sum_list)

lemma sorted_filter_map:
  "sorted (map f xs) \<Longrightarrow> sorted (map f (filter P xs))"
  by (induction xs) (auto simp: sorted_simps(2))

lemma written_archive_accepted:
  assumes env: "env_ok e" and lim: "small_limits lim"
    and scan: "scan_source e lim (Some cs) = Inr entries" "plain_names (SrcDir (Some cs))"
    and texts: "list_all (\<lambda>s. valid_text (se_path s)) entries"
    and written: "write_entries e again entries = Inr (ms, files)"
    and raw: "manifest_bytes (manifest_dict (written_meta kind entries files)) = Inr raw"
    and faithful: "tar_faithful e (ms @ [tar_info manifest_name False (int (length raw)) False raw])"
    and fits: "int (length raw) \<le> max_manifest lim" "total_size files + int (length raw) \<le> max_expanded lim"
  shows "validate_archive e lim (write_tar e (ms @ [tar_info manifest_name False (int (length raw)) False raw])) =
    Inr ((written_meta kind entries files)\<lparr>me_manifest_bytes := int (length raw)\<rparr>)"
proof -
  let ?last = "tar_info manifest_name False (int (length raw)) False raw"
  let ?ms = "map read_back ms @ [?last]"
  let ?m = "(written_meta kind entries files)\<lparr>me_manifest_bytes := int (length raw)\<rparr>"
  have ok: "limits_ok lim" using lim by (simp add: small_limits_def)
  note scanned = scan_source_ok [OF scan ok]
  have copies: "list_all2 copied entries (map read_back ms)"
    and files: "files = map (\<lambda>m. member_file e m (tm_name m)) (filter (\<lambda>m. tm_type m = RegMember) (map read_back ms))"
    using write_entries_copied [OF written] scanned(1) by (simp_all add: list_all_iff)
  note copied = copied_facts [OF copies]
  have last: "tm_name ?last = manifest_name" "tm_type ?last = RegMember" "tm_size ?last = int (length raw)"
    "tm_data ?last = raw" "tm_complete ?last" "read_back ?last = ?last"
    by (simp_all add: tar_info_def read_back_def)
  have keys: "path_key e (se_path s) \<noteq> path_key e manifest_name" if "s \<in> set entries" for s
  proof -
    have "(scanned_kind s, se_path s, True) \<in> set (scanned_claims entries)"
      using that by (auto simp: scanned_claims_def path_claims_def claims_of_members)
    then show ?thesis using scanned(4) by (auto simp: clear_of_manifest_def claim_key_def)
  qed
  have not_manifest: "\<not> manifest_member e m" if "m \<in> set (map read_back ms)" for m
    using that copied(1) keys by (metis image_eqI image_iff is_manifest_key_def set_map)
  have members: "list_all (member_ok e lim) (map read_back ms)"
    unfolding list_all_iff
  proof
    fix m assume m: "m \<in> set (map read_back ms)"
    then obtain s where "s \<in> set entries" "copied s m"
      using copies by (metis in_set_conv_nth list_all2_conv_all_nth)
    then show "member_ok e lim m"
      using scanned(1) keys by (intro copied_member_ok) (auto simp: list_all_iff is_manifest_key_def)
  qed
  have last_ok: "member_ok e lim ?last"
    using fits(1) manifest_name_safe [OF env] by (simp add: member_ok_def last)
  have claims: "sorted_wrt (agreeing e) (all_claims ?ms)"
    using scanned(3,4) by (auto simp: copied(2) member_claims_def member_kind_def last path_claims_def
        manifest_name_parts sorted_wrt_append clear_of_manifest_def agreeing_def claim_key_def)
  have count: "payload_count e ?ms = int (length entries)"
    using not_manifest copied(1) by (simp add: payload_count_def is_manifest_key_def last)
      (metis filter_True length_map)
  have payload: "payload_files e ?ms = files"
  proof -
    have "filter (\<lambda>m. tm_type m = RegMember \<and> \<not> manifest_member e m) (map read_back ms) =
      filter (\<lambda>m. tm_type m = RegMember) (map read_back ms)"
      using not_manifest by (intro filter_cong) simp_all
    then show ?thesis by (simp only: payload_files_def filter_append map_append files)
        (simp add: last is_manifest_key_def)
  qed
  have dirs: "directory_paths ?ms = map se_path (filter se_directory entries)"
    using copied(3) by (simp add: directory_paths_def last)
  have key_list: "map (\<lambda>m. path_key e (tm_name m)) (map read_back ms) = map (\<lambda>s. path_key e (se_path s)) entries"
    using arg_cong [OF copied(1), of "map (path_key e)"] by (simp add: comp_def)
  have total: "declared_bytes ?ms = total_size files + int (length raw)"
    unfolding files by (simp only: declared_bytes_simps copied(5) [of e]) (simp add: last)
  have accepted: "accepted e lim ?ms"
    unfolding accepted_def
  proof (intro conjI)
    show "list_all (member_ok e lim) ?ms" using members last_ok by simp
    have "distinct (map (\<lambda>m. path_key e (tm_name m)) (map read_back ms) @ [path_key e manifest_name])"
      unfolding key_list using scanned(2) keys by (auto dest!: keys [rotated])
    then show "distinct (map (\<lambda>m. path_key e (tm_name m)) ?ms)" by (simp add: last)
    show "sorted_wrt (agreeing e) (all_claims ?ms)" by (rule claims)
    show "payload_count e ?ms \<le> max_files lim" unfolding count by (rule scanned(5))
    show "declared_bytes ?ms \<le> max_expanded lim" unfolding total by (rule fits(2))
  qed
  have "validate_manifest e raw (directory_paths ?ms) (payload_files e ?ms) (payload_count e ?ms) = Inr ?m"
  proof (rule validate_manifest_again [OF env])
    have paths: "map bf_path files = map se_path (filter (\<lambda>s. \<not> se_directory s) entries)"
      unfolding files by (rule copied(6))
    have dirs_sorted: "sorted_paths (map se_path (filter se_directory entries)) = map se_path (filter se_directory entries)"
      unfolding sorted_paths_def using sorted_filter_map [OF scanned(6), of se_directory]
      by (intro sort_key_id_if_sorted) (simp add: comp_def)
    have files_sorted: "sorted_files files = files"
    proof -
      have "map (\<lambda>f. utf8_bytes (bf_path f)) files = map utf8_bytes (map bf_path files)" by simp
      also have "\<dots> = map (\<lambda>s. utf8_bytes (se_path s)) (filter (\<lambda>s. \<not> se_directory s) entries)"
        by (simp add: paths comp_def del: map_map) simp
      finally show ?thesis
        unfolding sorted_files_def using sorted_filter_map [OF scanned(6)]
        by (intro sort_key_id_if_sorted) simp
    qed
    have files_ok: "file_ok e f" if "f \<in> set files" for f
    proof -
      have "bf_path f \<in> set (map se_path (filter (\<lambda>s. \<not> se_directory s) entries))"
        using that paths by (metis image_eqI set_map)
      then have "safe_path e (bf_path f)" using scanned(1) by (auto simp: list_all_iff)
      moreover have "\<exists>m. f = member_file e m (tm_name m)" using that files by auto
      ultimately show ?thesis using env by (auto simp: file_ok_def member_file_def sha256_of)
    qed
    have entries: "length entries = length (filter se_directory entries) + length files"
    proof -
      have "length files = length (filter (\<lambda>s. \<not> se_directory s) entries)" using paths by (metis length_map)
      then show ?thesis using sum_length_filter_compl [of se_directory entries] by simp
    qed
    show "meta_ok e ?m"
      using scanned(1) dirs_sorted files_sorted files_ok entries
      by (auto simp: meta_ok_def written_meta_def list_all_iff)
    show "?m = actual_meta (me_kind ?m) (directory_paths ?ms) (payload_files e ?ms) (payload_count e ?ms) (int (length raw))"
      unfolding payload dirs count
      by (simp add: actual_meta_def written_meta_def dirs_sorted files_sorted)
    show "manifest_bytes (manifest_dict ?m) = Inr raw" using raw by (simp add: manifest_dict_def)
    have "valid_text (bf_path f)" "valid_text (bf_sha256 f)" if "f \<in> set files" for f
    proof -
      have "bf_path f \<in> set (map se_path (filter (\<lambda>s. \<not> se_directory s) entries))"
        using that paths by (metis image_eqI set_map)
      then show "valid_text (bf_path f)" using texts by (auto simp: list_all_iff)
      show "valid_text (bf_sha256 f)"
        using files_ok [OF that] valid_digest by (auto simp: file_ok_def)
    qed
    then show "valid_json (manifest_dict ?m)"
      using texts
      by (cases kind) (auto simp: manifest_dict_def valid_dict written_meta_def list_all_iff file_dict_def bundle_schema_def)
    have nonneg: "0 \<le> bf_size f" if "f \<in> set files" for f using files_ok [OF that] by (simp add: file_ok_def)
    have each: "bf_size f \<le> total_size files" if "f \<in> set files" for f
      using that nonneg unfolding total_size_def by (intro member_le_sum_list) auto
    have small: "small (max_expanded lim)" "small (max_files lim)" using lim by (simp_all add: small_limits_def)
    have sizes: "small (bf_size f)" if "f \<in> set files" for f
      using small_le [OF _ _ small(1)] nonneg [OF that] each [OF that] fits(2) by simp
    have "0 \<le> total_size files" unfolding total_size_def using nonneg by (intro sum_list_nonneg) auto
    then have "small (total_size files)" using small_le [OF _ _ small(1)] fits(2) by simp
    moreover have "small (int (length files))"
      using small_le [OF _ _ small(2)] entries scanned(5) by simp
    moreover have "json_depth e = Suc (Suc (Suc (json_depth e - 3)))" using env unfolding env_ok_def by linarith
    ultimately show "dumpable (json_depth e) (manifest_dict ?m)"
      using sizes dumpable_manifest [of ?m "json_depth e - 3"] by (simp add: written_meta_def)
  qed
  then show ?thesis
    unfolding validate_archive_Inr [OF ok]
    using faithful accepted copied(4) by (auto simp: tar_faithful_def last readable_def is_manifest_key_def)
qed

end
