(* ===== verification/Archive_Trees.thy ===== *)
theory Archive_Trees
  imports Archive_Facts
begin

text \<open>
  Extraction of an accepted archive. On a file system that takes two names for the same only if their
  canonical components are the same, \<open>_extract_payload\<close> never meets a file in its way, and what it
  leaves below the destination is exactly the payload: the files with their bytes and modes, the
  directories, and the parents of both.
\<close>

definition portable :: "archive_env \<Rightarrow> (utext \<Rightarrow> 'k) \<Rightarrow> bool" where
  "portable e ident = (\<forall>a b. ident a = ident b \<longrightarrow> canonical_component e a = canonical_component e b)"

section \<open>Directories\<close>

definition no_file :: "'k tree \<Rightarrow> 'k list \<Rightarrow> bool" where
  "no_file t p = (\<forall>c m. t p \<noteq> Some (FileNode c m))"

definition is_dir :: "'k tree \<Rightarrow> 'k list \<Rightarrow> bool" where
  "is_dir t p = (\<exists>m. t p = Some (DirNode m))"

lemma no_file_cases: "no_file t p \<longleftrightarrow> t p = None \<or> is_dir t p"
  by (cases "t p"; cases "the (t p)") (auto simp: no_file_def is_dir_def)

lemma make_directories_Inr:
  "(\<And>p. p \<in> set ps \<Longrightarrow> no_file t p) \<Longrightarrow>
   \<exists>t'. make_directories ps t = Inr t' \<and> (\<forall>q. is_dir t' q \<longleftrightarrow> is_dir t q \<or> q \<in> set ps) \<and>
     (\<forall>q c m. t' q = Some (FileNode c m) \<longleftrightarrow> t q = Some (FileNode c m))"
proof (induction ps arbitrary: t)
  case (Cons p ps)
  show ?case
  proof (cases "t p")
    case None
    have "no_file (t(p \<mapsto> DirNode (octal 7 7 7))) q" if "q \<in> set ps" for q
      using Cons.prems [of q] that by (auto simp: no_file_def)
    from Cons.IH [OF this] obtain t' where t': "make_directories ps (t(p \<mapsto> DirNode (octal 7 7 7))) = Inr t'"
      "\<And>q. is_dir t' q \<longleftrightarrow> is_dir (t(p \<mapsto> DirNode (octal 7 7 7))) q \<or> q \<in> set ps"
      "\<And>q c m. t' q = Some (FileNode c m) \<longleftrightarrow> (t(p \<mapsto> DirNode (octal 7 7 7))) q = Some (FileNode c m)"
      by blast
    then show ?thesis using None by (intro exI [of _ t']) (auto simp: is_dir_def)
  next
    case (Some n)
    with Cons.prems [of p] obtain m where n: "n = DirNode m" by (cases n) (auto simp: no_file_def)
    from Cons.IH [of t] Cons.prems obtain t' where t': "make_directories ps t = Inr t'"
      "\<And>q. is_dir t' q \<longleftrightarrow> is_dir t q \<or> q \<in> set ps"
      "\<And>q c m. t' q = Some (FileNode c m) \<longleftrightarrow> t q = Some (FileNode c m)"
      by fastforce
    then show ?thesis using Some n by (intro exI [of _ t']) (auto simp: is_dir_def)
  qed
qed simp

text \<open>The path itself and its parents below the destination.\<close>

lemma set_ancestors: "set (ancestors p) = {take i p | i. 0 < i \<and> i \<le> length p}"
  by (auto simp: ancestors_def Suc_le_eq image_iff less_Suc_eq_le)

lemma self_ancestor: "p \<noteq> [] \<Longrightarrow> p \<in> set (ancestors p)"
  unfolding set_ancestors by (intro CollectI exI [of _ "length p"]) simp

lemma make_directory_Inr:
  assumes "\<And>q. q \<in> set (ancestors p) \<Longrightarrow> no_file t q" "no_file t p"
  shows "\<exists>t'. make_directory p t = Inr t' \<and> (\<forall>q. is_dir t' q \<longleftrightarrow> is_dir t q \<or> q = p \<or> q \<in> set (ancestors p)) \<and>
    (\<forall>q c m. t' q = Some (FileNode c m) \<longleftrightarrow> t q = Some (FileNode c m))"
proof -
  obtain t' where "make_directories (ancestors p) t = Inr t'"
    "\<And>q. is_dir t' q \<longleftrightarrow> is_dir t q \<or> q \<in> set (ancestors p)"
    "\<And>q c m. t' q = Some (FileNode c m) \<longleftrightarrow> t q = Some (FileNode c m)"
    using make_directories_Inr [of "ancestors p" t] assms(1) by blast
  then show ?thesis
    using assms(2) by (intro exI [of _ "t'(p \<mapsto> DirNode (octal 7 0 0))"])
      (auto simp: make_directory_def is_dir_def no_file_def)
qed

lemma make_all_Inr:
  "(\<And>q. no_file t q) \<Longrightarrow>
   \<exists>t'. make_all ps t = Inr t' \<and> (\<forall>q. no_file t' q) \<and>
     (\<forall>q. is_dir t' q \<longleftrightarrow> is_dir t q \<or> (\<exists>p\<in>set ps. q = p \<or> q \<in> set (ancestors p)))"
proof (induction ps arbitrary: t)
  case (Cons p ps)
  obtain t1 where t1: "make_directory p t = Inr t1"
    "\<And>q. is_dir t1 q \<longleftrightarrow> is_dir t q \<or> q = p \<or> q \<in> set (ancestors p)"
    "\<And>q c m. t1 q = Some (FileNode c m) \<longleftrightarrow> t q = Some (FileNode c m)"
    using make_directory_Inr [of p t] Cons.prems by blast
  have "no_file t1 q" for q using t1(3) Cons.prems by (simp add: no_file_def)
  from Cons.IH [OF this] obtain t2 where "make_all ps t1 = Inr t2" "\<And>q. no_file t2 q"
    "\<And>q. is_dir t2 q \<longleftrightarrow> is_dir t1 q \<or> (\<exists>p\<in>set ps. q = p \<or> q \<in> set (ancestors p))"
    by blast
  then show ?case using t1 by (intro exI [of _ t2]) auto
qed auto

section \<open>Paths of members on the file system\<close>

abbreviation member_node :: "(utext \<Rightarrow> 'k) \<Rightarrow> tar_member \<Rightarrow> 'k list" where
  "member_node ident m \<equiv> node_path ident (tm_name m)"

lemma node_path_not_Nil [simp]: "node_path ident s \<noteq> []"
  by (simp add: node_path_def)

lemma map_coarser:
  assumes "\<And>a b. f a = f b \<Longrightarrow> g a = g b"
  shows "map f xs = map f ys \<Longrightarrow> map g xs = map g ys"
proof (induction xs arbitrary: ys)
  case (Cons x xs)
  then obtain y zs where ys: "ys = y # zs" "f x = f y" "map f xs = map f zs" by (cases ys) simp_all
  then have "map g xs = map g zs" by (intro Cons.IH)
  then show ?case using ys assms [OF ys(2)] by simp
qed simp

text \<open>The node of one member is a prefix of the node of another: the keys are the same.\<close>

lemma node_prefix_key:
  assumes "portable e ident" "node_path ident s = take i (node_path ident r)"
  shows "path_key e s = path_key e (join_parts (take i (path_parts r)))"
proof -
  have c: "map (canonical_component e) (path_parts s) = map (canonical_component e) (take i (path_parts r))"
  proof (rule map_coarser [of ident])
    show "map ident (path_parts s) = map ident (take i (path_parts r))"
      using assms(2) by (simp add: node_path_def take_map)
    show "canonical_component e a = canonical_component e b" if "ident a = ident b" for a b
      using assms(1) that unfolding portable_def by blast
  qed
  have "take i (path_parts r) \<noteq> []" using c by (metis map_is_Nil_conv split_sep_not_Nil)
  then have "path_key e (join_parts (take i (path_parts r))) = join_parts (map (canonical_component e) (take i (path_parts r)))"
    by (rule path_key_join) (meson in_set_takeD split_sep_parts)
  then show ?thesis using c by (simp add: path_key_def)
qed

lemma same_node:
  assumes "portable e ident" "accepted e lim ms" "m \<in> set ms" "n \<in> set ms" "member_node ident m = member_node ident n"
  shows "m = n"
proof -
  have "path_key e (tm_name m) = path_key e (tm_name n)"
    using node_prefix_key [OF assms(1), of "tm_name m" "length (path_parts (tm_name n))" "tm_name n"] assms(5)
    by (simp add: node_path_def)
  then show ?thesis using assms(2-4) by (auto simp: accepted_def distinct_map inj_on_def)
qed

lemma node_below:
  assumes "portable e ident" "accepted e lim ms" "m \<in> set ms" "n \<in> set ms"
    and "member_node ident m = take i (member_node ident n)" "i < length (member_node ident n)"
  shows "tm_type m = DirMember"
proof -
  have i: "0 < i" "i < length (path_parts (tm_name n))"
    using assms(5,6) node_path_not_Nil [of ident "tm_name m"] by (auto simp: node_path_def intro: gr0I)
  have "member_kind m = DirEntry"
    using parent_is_directory(1) [OF assms(2,4,3) i] node_prefix_key [OF assms(1,5)] by blast
  then show ?thesis by (simp add: member_kind_def split: if_splits)
qed

section \<open>Files\<close>

text \<open>The state while files are written: the files that are there, and the directories.\<close>

definition file_node :: "bool \<Rightarrow> tar_member \<Rightarrow> tree_node" where
  "file_node read_only m = FileNode (tm_data m)
     (if read_only then (if executable_mode (tm_mode m) then octal 5 0 0 else octal 4 0 0)
      else (if executable_mode (tm_mode m) then octal 7 0 0 else octal 6 0 0))"

definition tree_holds ::
  "bool \<Rightarrow> (utext \<Rightarrow> 'k) \<Rightarrow> tar_member list \<Rightarrow> tar_member list \<Rightarrow> 'k tree \<Rightarrow> bool" where
  "tree_holds read_only ident ds fs t =
     ((\<forall>p c k. t p = Some (FileNode c k) \<longleftrightarrow> (\<exists>m\<in>set fs. p = member_node ident m \<and> FileNode c k = file_node read_only m)) \<and>
      (\<forall>p. is_dir t p \<longleftrightarrow> p = [] \<or>
         (\<exists>m\<in>set ds. \<exists>i. 0 < i \<and> i \<le> length (member_node ident m) \<and> p = take i (member_node ident m)) \<or>
         (\<exists>m\<in>set fs. \<exists>i. 0 < i \<and> i < length (member_node ident m) \<and> p = take i (member_node ident m))))"

lemma set_ancestors_butlast: "q \<in> set (ancestors (butlast p)) \<longleftrightarrow> (\<exists>i. 0 < i \<and> i < length p \<and> q = take i p)"
  unfolding set_ancestors by (cases p rule: rev_cases) (auto simp: less_Suc_eq_le)

lemma write_member_holds:
  assumes holds: "tree_holds read_only ident ds fs t"
    and ok: "portable e ident" "accepted e lim ms"
    and here: "set ds \<subseteq> set ms" "set fs \<subseteq> set ms" "m \<in> set ms" "m \<notin> set fs"
    and types: "\<forall>d\<in>set ds. tm_type d = DirMember" "\<forall>f\<in>set fs. tm_type f = RegMember" "tm_type m = RegMember"
    and content: "readable m" "used + tm_size m \<le> max_expanded lim" "0 \<le> tm_size m"
  shows "\<exists>t'. write_member lim read_only (member_node ident m) m (t, used) = Inr (t', used + tm_size m) \<and>
    tree_holds read_only ident ds (fs @ [m]) t'"
proof -
  let ?p = "member_node ident m"
  have filed: "t p = Some (FileNode c k) \<longleftrightarrow> (\<exists>f\<in>set fs. p = member_node ident f \<and> FileNode c k = file_node read_only f)"
    and dir: "is_dir t p \<longleftrightarrow> p = [] \<or>
      (\<exists>d\<in>set ds. \<exists>i. 0 < i \<and> i \<le> length (member_node ident d) \<and> p = take i (member_node ident d)) \<or>
      (\<exists>f\<in>set fs. \<exists>i. 0 < i \<and> i < length (member_node ident f) \<and> p = take i (member_node ident f))" for p c k
    using holds unfolding tree_holds_def by blast+
  have clear: "no_file t q" if q: "q \<in> set (ancestors (butlast ?p))" for q
  proof (rule ccontr)
    assume "\<not> no_file t q"
    then obtain c k where "t q = Some (FileNode c k)" unfolding no_file_def by blast
    then obtain f where f: "f \<in> set fs" "q = member_node ident f" using filed [of q c k] by blast
    obtain i where "i < length ?p" "q = take i ?p"
      using q unfolding set_ancestors_butlast by blast
    moreover have "f \<in> set ms" using f(1) here(2) by blast
    ultimately have "tm_type f = DirMember" using node_below [OF ok, of f m i] f(2) here(3) by simp
    then show False using types(2) f(1) by auto
  qed
  have root: "no_file t (butlast ?p)"
  proof (cases "butlast ?p = []")
    case True
    then have "is_dir t (butlast ?p)" using dir [of "butlast ?p"] by simp
    then show ?thesis by (simp add: no_file_cases)
  next
    case False
    then show ?thesis by (intro clear self_ancestor)
  qed
  obtain t1 where t1: "make_directory (butlast ?p) t = Inr t1"
    "\<And>q. is_dir t1 q \<longleftrightarrow> is_dir t q \<or> q = butlast ?p \<or> q \<in> set (ancestors (butlast ?p))"
    "\<And>q c k. t1 q = Some (FileNode c k) \<longleftrightarrow> t q = Some (FileNode c k)"
    using make_directory_Inr [of "butlast ?p" t] clear root by blast
  have proper: "q = butlast ?p \<or> q \<in> set (ancestors (butlast ?p)) \<longleftrightarrow>
    q = butlast ?p \<and> butlast ?p = [] \<or> (\<exists>i. 0 < i \<and> i < length ?p \<and> q = take i ?p)" for q
    unfolding set_ancestors_butlast
    by (auto simp: butlast_conv_take intro: exI [of _ "length ?p - 1"])
  have free: "t1 ?p = None"
  proof (rule ccontr)
    assume "t1 ?p \<noteq> None"
    then consider c k where "t1 ?p = Some (FileNode c k)" | "is_dir t1 ?p"
      by (metis is_dir_def tree_node.exhaust option.exhaust)
    then show False
    proof cases
      case 1
      then obtain f where "f \<in> set fs" "?p = member_node ident f" using filed [of ?p c k] t1(3) [of ?p c k] by blast
      then show False using same_node [OF ok, of m f] here by blast
    next
      case 2
      then consider "?p = []" | d i where "d \<in> set ds" "i \<le> length (member_node ident d)" "?p = take i (member_node ident d)"
        | f i where "f \<in> set (fs @ [m])" "i < length (member_node ident f)" "?p = take i (member_node ident f)"
        unfolding t1(2) proper dir by auto
      then show False
      proof cases
        case 1
        then show False by simp
      next
        case 2
        show False
        proof (cases "i = length (member_node ident d)")
          case True
          then show False using 2 same_node [OF ok, of m d] here types by auto
        next
          case False
          then show False using 2 node_below [OF ok, of m d i] here types by auto
        qed
      next
        case 3
        then show False using node_below [OF ok, of m f i] here types by auto
      qed
    qed
  qed
  have "read_content lim m used = Inr (used + tm_size m)"
    using content types(3) by (simp add: read_content_Inr)
  then have run: "write_member lim read_only ?p m (t, used) = Inr (t1(?p \<mapsto> file_node read_only m), used + tm_size m)"
    using t1(1) free by (simp add: write_member_def file_node_def)
  have new_dir: "is_dir (t1(?p \<mapsto> file_node read_only m)) q \<longleftrightarrow> is_dir t q \<or> q = butlast ?p \<and> butlast ?p = [] \<or>
      (\<exists>i. 0 < i \<and> i < length ?p \<and> q = take i ?p)" for q
  proof -
    have "\<not> is_dir t1 ?p" using free by (simp add: is_dir_def)
    then have "is_dir (t1(?p \<mapsto> file_node read_only m)) q \<longleftrightarrow> is_dir t1 q"
      by (auto simp: is_dir_def file_node_def)
    then show ?thesis unfolding t1(2) proper by blast
  qed
  have new_file: "(t1(?p \<mapsto> file_node read_only m)) q = Some (FileNode c k) \<longleftrightarrow>
      q \<noteq> ?p \<and> t q = Some (FileNode c k) \<or> q = ?p \<and> FileNode c k = file_node read_only m" for q c k
    using t1(3) by auto
  have old: "t ?p \<noteq> Some (FileNode c k)" for c k using free t1(3) [of ?p c k] by simp
  have "tree_holds read_only ident ds (fs @ [m]) (t1(?p \<mapsto> file_node read_only m))"
    unfolding tree_holds_def new_dir new_file
  proof (intro conjI allI)
    show "(p \<noteq> ?p \<and> t p = Some (FileNode c k) \<or> p = ?p \<and> FileNode c k = file_node read_only m) \<longleftrightarrow>
      (\<exists>f\<in>set (fs @ [m]). p = member_node ident f \<and> FileNode c k = file_node read_only f)" for p c k
      using filed old by auto
    show "is_dir t p \<or> p = butlast ?p \<and> butlast ?p = [] \<or> (\<exists>i. 0 < i \<and> i < length ?p \<and> p = take i ?p) \<longleftrightarrow>
      p = [] \<or> (\<exists>d\<in>set ds. \<exists>i. 0 < i \<and> i \<le> length (member_node ident d) \<and> p = take i (member_node ident d)) \<or>
      (\<exists>f\<in>set (fs @ [m]). \<exists>i. 0 < i \<and> i < length (member_node ident f) \<and> p = take i (member_node ident f))" for p
      unfolding dir by auto
  qed
  with run show ?thesis by blast
qed


lemma write_all_holds:
  assumes ok: "portable e ident" "accepted e lim ms"
    and here: "set ds \<subseteq> set ms" "\<forall>d\<in>set ds. tm_type d = DirMember"
  shows "tree_holds read_only ident ds fs t \<Longrightarrow> set (fs @ gs) \<subseteq> set ms \<Longrightarrow> distinct (fs @ gs) \<Longrightarrow>
    \<forall>g\<in>set (fs @ gs). tm_type g = RegMember \<and> readable g \<and> 0 \<le> tm_size g \<Longrightarrow>
    used + sum_list (map tm_size gs) \<le> max_expanded lim \<Longrightarrow>
    \<exists>t'. write_all lim read_only (map (\<lambda>m. (member_node ident m, m)) gs) (t, used) =
        Inr (t', used + sum_list (map tm_size gs)) \<and>
      tree_holds read_only ident ds (fs @ gs) t'"
proof (induction gs arbitrary: fs t used)
  case (Cons g gs)
  have "0 \<le> sum_list (map tm_size gs)" using Cons.prems(4) by (intro sum_list_nonneg) auto
  then obtain t1 where t1: "write_member lim read_only (member_node ident g) g (t, used) = Inr (t1, used + tm_size g)"
    "tree_holds read_only ident ds (fs @ [g]) t1"
    using write_member_holds [OF Cons.prems(1) ok here(1), of g used] here(2) Cons.prems(2-5) by auto
  obtain t2 where "write_all lim read_only (map (\<lambda>m. (member_node ident m, m)) gs) (t1, used + tm_size g) =
      Inr (t2, used + tm_size g + sum_list (map tm_size gs))"
    "tree_holds read_only ident ds ((fs @ [g]) @ gs) t2"
    using Cons.IH [OF t1(2), of "used + tm_size g"] Cons.prems(2-5) by auto
  then show ?case using t1 by simp
qed auto

section \<open>The payload\<close>

lemma payload_members_Inr:
  "list_all (\<lambda>m. safe_path e (tm_name m)) ms \<Longrightarrow>
   payload_members e ms = Inr (map (\<lambda>m. (m, tm_name m)) (filter (\<lambda>m. \<not> manifest_member e m) ms))"
  by (induction ms) (auto simp: member_path_cases safe_path_def)

lemma insort_key_of_map: "insort_key f (g x) (map g xs) = map g (insort_key (\<lambda>y. f (g y)) x xs)"
  by (induction xs) auto

lemma sort_key_of_map: "sort_key f (map g xs) = map g (sort_key (\<lambda>y. f (g y)) xs)"
  by (induction xs) (simp_all add: insort_key_of_map)

definition payload_of :: "archive_env \<Rightarrow> bytes \<Rightarrow> tar_member list" where
  "payload_of e raw = filter (\<lambda>m. \<not> manifest_member e m) (ts_members (read_tar e raw))"

text \<open>The directories of a payload: the destination, its directory members and the parents of members.\<close>

definition payload_directory :: "archive_env \<Rightarrow> (utext \<Rightarrow> 'k) \<Rightarrow> bytes \<Rightarrow> 'k list \<Rightarrow> bool" where
  "payload_directory e ident raw p =
     (p = [] \<or> (\<exists>m\<in>set (payload_of e raw). tm_type m = DirMember \<and> p = member_node ident m) \<or>
      (\<exists>m\<in>set (payload_of e raw). \<exists>i. 0 < i \<and> i < length (member_node ident m) \<and> p = take i (member_node ident m)))"

lemma extraction:
  assumes "portable e ident" "limits_ok lim" "validate_archive e lim raw = Inr a"
  shows "\<exists>t. extract_payload e lim ident raw read_only = Inr t \<and>
    (\<forall>p c k. t p = Some (FileNode c k) \<longleftrightarrow>
      (\<exists>m\<in>set (payload_of e raw). tm_type m = RegMember \<and> p = member_node ident m \<and> FileNode c k = file_node read_only m)) \<and>
    (\<forall>p k. t p = Some (DirNode k) \<longleftrightarrow>
      k = (if read_only then octal 5 0 0 else octal 7 0 0) \<and> payload_directory e ident raw p)"
proof -
  let ?ms = "ts_members (read_tar e raw)"
  define ds where "ds = sort_key (\<lambda>m. count_list (tm_name m) 47) (filter (\<lambda>m. tm_type m = DirMember) (payload_of e raw))"
  define fs where "fs = filter (\<lambda>m. tm_type m = RegMember) (payload_of e raw)"
  have v: "ts_complete (read_tar e raw)" "accepted e lim ?ms" "list_all readable ?ms"
    using assms(3) unfolding validate_archive_Inr [OF assms(2)] by blast+
  then have ok: "list_all (member_ok e lim) ?ms" "declared_bytes ?ms \<le> max_expanded lim"
    "distinct (map (\<lambda>m. path_key e (tm_name m)) ?ms)" by (simp_all add: accepted_def)
  have "list_all (\<lambda>m. safe_path e (tm_name m)) ?ms" using ok(1) by (simp add: list_all_iff member_ok_def)
  then have members: "payload_members e ?ms = Inr (map (\<lambda>m. (m, tm_name m)) (payload_of e raw))"
    by (simp add: payload_members_Inr payload_of_def)
  have sorted_pairs: "sort_key (\<lambda>(m, path). count_list path 47) (filter (\<lambda>(m, path). tm_type m = DirMember)
      (map (\<lambda>m. (m, tm_name m)) (payload_of e raw))) = map (\<lambda>m. (m, tm_name m)) ds"
    unfolding ds_def by (simp add: filter_map comp_def sort_key_of_map split_def)
  have file_pairs: "filter (\<lambda>(m, path). tm_type m = RegMember) (map (\<lambda>m. (m, tm_name m)) (payload_of e raw)) =
      map (\<lambda>m. (m, tm_name m)) fs"
    unfolding fs_def by (simp add: filter_map comp_def split_def)
  have sets: "set ds = {m \<in> set (payload_of e raw). tm_type m = DirMember}"
    "set fs = {m \<in> set (payload_of e raw). tm_type m = RegMember}"
    by (auto simp: ds_def fs_def)
  have types: "tm_type m = DirMember \<or> tm_type m = RegMember" if "m \<in> set (payload_of e raw)" for m
    using that ok(1) by (auto simp: payload_of_def list_all_iff member_ok_def)
  have "no_file [[] \<mapsto> DirNode (octal 7 0 0)] q" for q :: "'a list"
    by (auto simp: no_file_def)
  then obtain t1 where t1: "make_all (map (member_node ident) ds) [[] \<mapsto> DirNode (octal 7 0 0)] = Inr t1"
    "\<And>q. no_file t1 q"
    "\<And>q. is_dir t1 q \<longleftrightarrow> is_dir [[] \<mapsto> DirNode (octal 7 0 0)] q \<or>
      (\<exists>p\<in>set (map (member_node ident) ds). q = p \<or> q \<in> set (ancestors p))"
    using make_all_Inr [of "[[] \<mapsto> DirNode (octal 7 0 0)]" "map (member_node ident) ds"] by blast
  have self: "q = p \<or> q \<in> set (ancestors p) \<longleftrightarrow> (\<exists>i. 0 < i \<and> i \<le> length p \<and> q = take i p)"
    if "p \<noteq> []" for p q :: "'a list"
    using that self_ancestor [OF that] unfolding set_ancestors by auto
  have holds1: "tree_holds read_only ident ds [] t1"
    unfolding tree_holds_def
  proof (intro conjI allI)
    show "t1 p = Some (FileNode c k) \<longleftrightarrow>
      (\<exists>m\<in>set []. p = member_node ident m \<and> FileNode c k = file_node read_only m)" for p c k
      using t1(2) [of p] by (simp add: no_file_def)
    show "is_dir t1 p \<longleftrightarrow> p = [] \<or>
      (\<exists>m\<in>set ds. \<exists>i. 0 < i \<and> i \<le> length (member_node ident m) \<and> p = take i (member_node ident m)) \<or>
      (\<exists>m\<in>set []. \<exists>i. 0 < i \<and> i < length (member_node ident m) \<and> p = take i (member_node ident m))" for p
      unfolding t1(3) using self by (auto simp: is_dir_def)
  qed
  have unique: "distinct fs"
    using ok(3) by (auto simp: fs_def payload_of_def distinct_map)
  have good: "\<forall>g\<in>set fs. tm_type g = RegMember \<and> readable g \<and> 0 \<le> tm_size g"
    using ok(1) v(3) by (auto simp: sets payload_of_def list_all_iff member_ok_def)
  have bytes: "sum_list (map tm_size fs) \<le> max_expanded lim"
  proof -
    have "sum_list (map tm_size (filter (\<lambda>m. tm_type m = RegMember) (filter (\<lambda>m. \<not> manifest_member e m) ms)))
      \<le> declared_bytes ms" if "list_all (member_ok e lim) ms" for ms
      using that by (induction ms) (auto simp: member_ok_def)
    from this [OF ok(1)] ok(2) show ?thesis by (simp add: fs_def payload_of_def)
  qed
  have here: "set ds \<subseteq> set ?ms" "\<forall>d\<in>set ds. tm_type d = DirMember" "set fs \<subseteq> set ?ms"
    by (auto simp: sets payload_of_def)
  obtain t2 where t2: "write_all lim read_only (map (\<lambda>m. (member_node ident m, m)) fs) (t1, 0) =
      Inr (t2, sum_list (map tm_size fs))" "tree_holds read_only ident ds fs t2"
    using write_all_holds [OF assms(1) v(2) here(1,2) holds1, of fs 0] here(3) unique good bytes by auto
  have run: "extract_payload e lim ident raw read_only = Inr (set_directory_modes read_only t2)"
    using v(1) members sorted_pairs file_pairs t1(1) t2(1)
    by (simp add: extract_payload_def Let_def comp_def)
  have files: "set_directory_modes read_only t2 p = Some (FileNode c k) \<longleftrightarrow> t2 p = Some (FileNode c k)" for p c k
    by (auto simp: set_directory_modes_def split: option.splits tree_node.splits)
  have dirs: "set_directory_modes read_only t2 p = Some (DirNode k) \<longleftrightarrow>
      k = (if read_only then octal 5 0 0 else octal 7 0 0) \<and> is_dir t2 p" for p k
    by (auto simp: set_directory_modes_def is_dir_def split: option.splits tree_node.splits)
  have "is_dir t2 p \<longleftrightarrow> payload_directory e ident raw p" for p
  proof -
    have "is_dir t2 p \<longleftrightarrow> p = [] \<or>
      (\<exists>d\<in>set ds. \<exists>i. 0 < i \<and> i \<le> length (member_node ident d) \<and> p = take i (member_node ident d)) \<or>
      (\<exists>f\<in>set fs. \<exists>i. 0 < i \<and> i < length (member_node ident f) \<and> p = take i (member_node ident f))"
      using t2(2) unfolding tree_holds_def by blast
    also have "\<dots> \<longleftrightarrow> payload_directory e ident raw p"
    proof -
      have end_point: "(\<exists>i. 0 < i \<and> i \<le> length (member_node ident d) \<and> p = take i (member_node ident d)) \<longleftrightarrow>
        p = member_node ident d \<or> (\<exists>i. 0 < i \<and> i < length (member_node ident d) \<and> p = take i (member_node ident d))" for d
        using self [of "member_node ident d" p] by (auto simp: le_less)
      moreover have "(\<exists>m\<in>set (payload_of e raw). Q m) \<longleftrightarrow> (\<exists>m\<in>set ds. Q m) \<or> (\<exists>m\<in>set fs. Q m)" for Q
        using types unfolding sets by blast
      ultimately have "(\<exists>m\<in>set (payload_of e raw). \<exists>i. 0 < i \<and> i < length (member_node ident m) \<and> p = take i (member_node ident m)) \<longleftrightarrow>
          (\<exists>d\<in>set ds. \<exists>i. 0 < i \<and> i < length (member_node ident d) \<and> p = take i (member_node ident d)) \<or>
          (\<exists>f\<in>set fs. \<exists>i. 0 < i \<and> i < length (member_node ident f) \<and> p = take i (member_node ident f))"
        by blast
      moreover have "(\<exists>m\<in>set (payload_of e raw). tm_type m = DirMember \<and> p = member_node ident m) \<longleftrightarrow>
          (\<exists>d\<in>set ds. p = member_node ident d)"
        unfolding sets by blast
      ultimately show ?thesis unfolding payload_directory_def end_point by blast
    qed
    finally show ?thesis .
  qed
  moreover have "t2 p = Some (FileNode c k) \<longleftrightarrow>
      (\<exists>m\<in>set (payload_of e raw). tm_type m = RegMember \<and> p = member_node ident m \<and> FileNode c k = file_node read_only m)"
    for p c k
    using t2(2) unfolding tree_holds_def sets by blast
  ultimately show ?thesis
    using run files dirs by (intro exI [of _ "set_directory_modes read_only t2"]) simp
qed

end
