(* ===== verification/Archive_Artifacts.thy ===== *)
theory Archive_Artifacts
  imports Archive_Scans Archive_Trees
begin

text \<open>
  The bundle store over time: a history is a list of ingestions and creations, each either publishing
  one artifact or none. Every stored artifact is loadable, and stays as it is.
\<close>

section \<open>Numbers of accepted metadata\<close>

lemma payload_files_simps [simp]:
  "payload_files e [] = []"
  "payload_files e (m # ms) = (if tm_type m = RegMember \<and> \<not> manifest_member e m
     then member_file e m (tm_name m) # payload_files e ms else payload_files e ms)"
  by (simp_all add: payload_files_def)

lemma total_size_simps [simp]: "total_size [] = 0" "total_size (f # fs) = bf_size f + total_size fs"
  by (simp_all add: total_size_def)

lemma member_size_declared:
  "list_all (member_ok e lim) ms \<Longrightarrow> m \<in> set ms \<Longrightarrow> tm_type m = RegMember \<Longrightarrow>
   0 \<le> tm_size m \<and> tm_size m \<le> declared_bytes ms"
proof (induction ms)
  case (Cons n ns)
  then have "0 \<le> declared_bytes ns" by (intro declared_bytes_nonneg [of e lim]) simp
  then show ?case using Cons by (auto simp: member_ok_def)
qed simp

lemma payload_files_numbers:
  assumes "list_all (member_ok e lim) ms" "list_all readable ms"
  shows "f \<in> set (payload_files e ms) \<Longrightarrow> bf_size f \<le> declared_bytes ms"
    "total_size (payload_files e ms) \<le> declared_bytes ms"
    "int (length (payload_files e ms)) \<le> payload_count e ms"
proof -
  show "bf_size f \<le> declared_bytes ms" if "f \<in> set (payload_files e ms)"
  proof -
    from that obtain m where "m \<in> set ms" "tm_type m = RegMember" "f = member_file e m (tm_name m)"
      by (auto simp: payload_files_def)
    then show ?thesis
      using assms(2) member_size_declared [OF assms(1), of m] by (auto simp: member_file_def readable_def list_all_iff)
  qed
  show "total_size (payload_files e ms) \<le> declared_bytes ms"
    using assms by (induction ms) (auto simp: member_file_def readable_def member_ok_def)
  show "int (length (payload_files e ms)) \<le> payload_count e ms"
    by (induction ms) auto
qed

lemma sizes_nonneg: "f \<in> set (payload_files e ms) \<Longrightarrow> 0 \<le> bf_size f" "0 \<le> total_size (payload_files e ms)"
  by (auto simp: payload_files_def member_file_def) (induction ms; simp add: member_file_def)

lemma small_between: "0 \<le> i \<Longrightarrow> i \<le> a \<Longrightarrow> a \<le> j \<Longrightarrow> small j \<Longrightarrow> small i"
  by (rule small_le [of i j]) simp_all

text \<open>The parts of an acceptance.\<close>

lemma validated:
  assumes "limits_ok lim" "validate_archive e lim raw = Inr m"
  shows "\<exists>x. ts_complete (read_tar e raw) \<and> accepted e lim (ts_members (read_tar e raw)) \<and>
    list_all readable (ts_members (read_tar e raw)) \<and>
    x \<in> set (ts_members (read_tar e raw)) \<and> manifest_member e x \<and>
    validate_manifest e (tm_data x) (directory_paths (ts_members (read_tar e raw)))
      (payload_files e (ts_members (read_tar e raw))) (payload_count e (ts_members (read_tar e raw))) = Inr m"
  using assms(2) unfolding validate_archive_Inr [OF assms(1)] by blast

lemma validated_numbers:
  assumes lim: "small_limits lim" and m: "validate_archive e lim raw = Inr m"
  shows "\<And>f. f \<in> set (me_files m) \<Longrightarrow> small (bf_size f)" "small (me_file_count m)" "small (me_expanded m)"
    "small (me_member_count m)" "small (me_manifest_bytes m)"
proof -
  have ok: "limits_ok lim" using lim by (simp add: small_limits_def)
  let ?ms = "ts_members (read_tar e raw)"
  obtain x where v: "accepted e lim ?ms" "list_all readable ?ms" "x \<in> set ?ms" "manifest_member e x"
    "validate_manifest e (tm_data x) (directory_paths ?ms) (payload_files e ?ms) (payload_count e ?ms) = Inr m"
    using validated [OF ok m] by blast
  have a: "list_all (member_ok e lim) ?ms" "payload_count e ?ms \<le> max_files lim" "declared_bytes ?ms \<le> max_expanded lim"
    using v(1) by (simp_all add: accepted_def)
  note numbers = payload_files_numbers [OF a(1) v(2)]
  have meta: "m = actual_meta (me_kind m) (directory_paths ?ms) (payload_files e ?ms) (payload_count e ?ms)
      (int (length (tm_data x)))"
    by (rule validate_manifest_facts(1) [OF v(5)])
  have files: "set (me_files m) = set (payload_files e ?ms)" by (subst meta) (simp add: sorted_files_def)
  have small: "small (max_expanded lim)" "small (max_files lim)" "small (max_manifest lim)"
    using lim by (simp_all add: small_limits_def)
  show "small (bf_size f)" if "f \<in> set (me_files m)" for f
    using that unfolding files by (intro small_between [OF sizes_nonneg(1) numbers(1) a(3) small(1)])
  have "me_file_count m = int (length (payload_files e ?ms))" by (subst meta) (simp add: sorted_files_def)
  then show "small (me_file_count m)" using small_between [OF _ numbers(3) a(2) small(2)] by simp
  have "me_expanded m = total_size (payload_files e ?ms)" by (subst meta) simp
  then show "small (me_expanded m)" using small_between [OF sizes_nonneg(2) numbers(2) a(3) small(1)] by simp
  have "me_member_count m = payload_count e ?ms" by (subst meta) simp
  then show "small (me_member_count m)" using small_le [OF payload_count_nonneg a(2) small(2)] by simp
  have "readable x" "member_ok e lim x" using v(2,3) a(1) by (simp_all add: list_all_iff)
  then have "int (length (tm_data x)) \<le> max_manifest lim" using v(4) by (simp add: member_ok_def readable_def)
  moreover have "me_manifest_bytes m = int (length (tm_data x))" by (subst meta) simp
  ultimately show "small (me_manifest_bytes m)" using small_le [OF _ _ small(3)] by simp
qed

section \<open>Stored artifacts\<close>

definition stored_ok :: "archive_env \<Rightarrow> store_limits \<Rightarrow> utext \<Rightarrow> stored_dir \<Rightarrow> bool" where
  "stored_ok e lim digest d = (\<exists>raw sidecar m. d = \<lparr>sd_archive = Contents raw, sd_sidecar = Contents sidecar\<rparr> \<and>
     digest = sha256_hex e raw \<and> int (length raw) \<le> max_compressed lim \<and> validate_archive e lim raw = Inr m \<and>
     write_sidecar (sha_prefix @ digest) (int (length raw)) m = Inr sidecar)"

definition store_ok :: "archive_env \<Rightarrow> store_limits \<Rightarrow> bundle_files \<Rightarrow> bool" where
  "store_ok e lim store = (\<forall>digest d. store digest = Some d \<longrightarrow> stored_ok e lim digest d)"

lemma load_stored:
  assumes env: "env_ok e" and lim: "small_limits lim"
    and here: "store digest = Some \<lparr>sd_archive = Contents raw, sd_sidecar = Contents sidecar\<rparr>"
    and raw: "digest = sha256_hex e raw" "int (length raw) \<le> max_compressed lim"
    and m: "validate_archive e lim raw = Inr m" "write_sidecar (sha_prefix @ digest) (int (length raw)) m = Inr sidecar"
  shows "load_artifact e lim store digest =
    Inr \<lparr>ar_sha256 = sha_prefix @ digest, ar_compressed = int (length raw), ar_meta = m\<rparr>"
proof -
  have ok: "limits_ok lim" using lim by (simp add: small_limits_def)
  let ?ms = "ts_members (read_tar e raw)"
  obtain x :: tar_member where v: "validate_manifest e (tm_data x) (directory_paths ?ms) (payload_files e ?ms) (payload_count e ?ms) = Inr m"
    using validated [OF ok m(1)] by blast
  have counts: "me_member_count m = payload_count e ?ms" "me_manifest_bytes m = int (length (tm_data x))"
    by (subst validate_manifest_facts(1) [OF v], simp)+
  have "small (int (length raw))" using raw(2) lim by (auto simp: small_limits_def intro: small_le)
  then have "rbind (load_document e BundleStorage sidecar)
      (\<lambda>document. metadata_from_sidecar e document digest (int (length raw))) = Inr m"
    using validated_numbers [OF lim m(1)] counts m(2) sha256_of [OF env, of raw] raw(1)
    by (intro sidecar_again [OF v env]) simp_all
  then show ?thesis
    using here raw(1) m(1)
    by (auto simp: load_artifact_def stored_contents_def rbind_Inr_iff bundle_errors_as_def)
qed

lemma load_ok:
  assumes "env_ok e" "small_limits lim" "store_ok e lim store" "store digest = Some d"
  shows "\<exists>raw m. d = \<lparr>sd_archive = Contents raw, sd_sidecar = sd_sidecar d\<rparr> \<and> digest = sha256_hex e raw \<and>
    validate_archive e lim raw = Inr m \<and> int (length raw) \<le> max_compressed lim \<and>
    load_artifact e lim store digest = Inr \<lparr>ar_sha256 = sha_prefix @ digest, ar_compressed = int (length raw), ar_meta = m\<rparr>"
proof -
  obtain raw sidecar m where d: "d = \<lparr>sd_archive = Contents raw, sd_sidecar = Contents sidecar\<rparr>"
    "digest = sha256_hex e raw" "int (length raw) \<le> max_compressed lim" "validate_archive e lim raw = Inr m"
    "write_sidecar (sha_prefix @ digest) (int (length raw)) m = Inr sidecar"
    using assms(3,4) unfolding store_ok_def stored_ok_def by blast
  then show ?thesis using load_stored [OF assms(1,2), of store digest raw sidecar m] assms(4) by auto
qed


section \<open>Calls\<close>

lemma receive_chunks_bound:
  "receive_chunks lim reader w s = Inr raw \<Longrightarrow> int (length w) \<le> max_compressed lim \<Longrightarrow>
   int (length raw) \<le> max_compressed lim"
proof (induction lim reader w s rule: receive_chunks.induct)
  case (1 lim reader w s)
  obtain answer s' where r: "reader s (nat (min (int copy_chunk) (max_compressed lim - int (length w) + 1))) = (answer, s')"
    by (cases "reader s (nat (min (int copy_chunk) (max_compressed lim - int (length w) + 1)))")
  show ?case
  proof (cases answer)
    case (Chunk c)
    show ?thesis
    proof (cases "c = []")
      case True
      with "1.prems" r Chunk show ?thesis by (simp add: receive_chunks.simps [of lim reader w s] Let_def)
    next
      case False
      with "1.prems"(1) r Chunk have c: "\<not> max_compressed lim - int (length w) < int (length c)"
        "\<not> nat (min (int copy_chunk) (max_compressed lim - int (length w) + 1)) < length c"
        "receive_chunks lim reader (w @ c) s' = Inr raw"
        by (auto simp: receive_chunks.simps [of lim reader w s] Let_def split: if_splits)
      show ?thesis
        by (rule "1.IH" [OF refl refl r [symmetric] refl Chunk False c(2,1,3)]) (use c(1) in simp)
    qed
  qed (use "1.prems" r in \<open>simp_all add: receive_chunks.simps [of lim reader w s] Let_def\<close>)
qed

lemma receive_bounded_facts:
  assumes "receive_bounded e lim reader s = Inr (digest, compressed, raw)" "limits_ok lim"
  shows "digest = sha256_hex e raw" "compressed = int (length raw)" "int (length raw) \<le> max_compressed lim"
  using assms receive_chunks_bound [of lim reader "[]" s raw]
  by (auto simp: receive_bounded_def result_simps limits_ok_def)

lemma receive_input_facts:
  assumes "receive_input e lim source = Inr (digest, compressed, raw)" "limits_ok lim"
  shows "digest = sha256_hex e raw \<and> compressed = int (length raw) \<and> int (length raw) \<le> max_compressed lim"
  using assms receive_bounded_facts by (cases source) (auto simp: receive_input_def)

text \<open>What an ingestion that returns has done.\<close>

lemma ingest_facts:
  assumes env: "env_ok e" and lim: "small_limits lim" and ok: "store_ok e lim store"
    and run: "ingest e lim source sha kind store = Inr (a, store')"
  shows "store_ok e lim store'" "\<And>d x. store d = Some x \<Longrightarrow> store' d = Some x"
    "\<exists>raw. load_artifact e lim store' (sha256_hex e raw) = Inr a \<and> ar_sha256 a = sha_prefix @ sha256_hex e raw \<and>
       (\<exists>x. store' (sha256_hex e raw) = Some x)"
proof -
  have lims: "limits_ok lim" using lim by (simp add: small_limits_def)
  from run obtain digest compressed raw m sidecar where
    received: "receive_input e lim source = Inr (digest, compressed, raw)"
    and m: "validate_archive e lim raw = Inr m"
    and sidecar: "write_sidecar (sha_prefix @ digest) compressed m = Inr sidecar"
    and publish: "publish e lim store digest raw sidecar m = Inr (a, store')"
    by (auto simp: ingest_def result_simps)
  note facts = receive_input_facts [OF received lims]
  have "store_ok e lim store' \<and> (\<forall>d x. store d = Some x \<longrightarrow> store' d = Some x) \<and>
    load_artifact e lim store' digest = Inr a \<and> ar_sha256 a = sha_prefix @ digest \<and> (\<exists>x. store' digest = Some x)"
  proof (cases "store digest")
    case (Some d)
    then have "store' = store" "load_artifact e lim store digest = Inr a"
      using publish by (auto simp: publish_def result_simps)
    then show ?thesis using ok Some load_ok [OF env lim ok Some] by auto
  next
    case None
    let ?d = "\<lparr>sd_archive = Contents raw, sd_sidecar = Contents sidecar\<rparr>"
    have new: "store' = store(digest \<mapsto> ?d)"
      "a = \<lparr>ar_sha256 = sha_prefix @ digest, ar_compressed = int (length raw), ar_meta = m\<rparr>"
      using publish None by (auto simp: publish_def)
    have "stored_ok e lim digest ?d" unfolding stored_ok_def using facts m sidecar by blast
    then have "store_ok e lim store'" using ok by (auto simp: store_ok_def new(1))
    moreover have "load_artifact e lim store' digest = Inr a"
      unfolding new(2) using facts m sidecar by (intro load_stored [OF env lim]) (auto simp: new(1))
    ultimately show ?thesis using None new by auto
  qed
  then show "store_ok e lim store'" "\<And>d x. store d = Some x \<Longrightarrow> store' d = Some x"
    "\<exists>raw. load_artifact e lim store' (sha256_hex e raw) = Inr a \<and> ar_sha256 a = sha_prefix @ sha256_hex e raw \<and>
       (\<exists>x. store' (sha256_hex e raw) = Some x)"
    using facts by auto
qed

text \<open>A creation that returns is the ingestion of the archive it wrote.\<close>

lemma create_ingests:
  assumes "create_from_directory e lim source overlaps again kind store = Inr (a, store')"
  shows "\<exists>raw k. ingest e lim (InputStream read_file raw) None (Some (UStr (kind_text k))) store = Inr (a, store')"
  using assms by (cases source) (auto simp: create_from_directory_def result_simps)

section \<open>Histories\<close>

datatype 's bundle_call =
    IngestCall "'s input" "utext option" "ujson option"
  | CreateCall source_root bool "utext \<Rightarrow> opened" ujson

definition kept :: "bundle_files \<Rightarrow> (artifact \<times> bundle_files) ares \<Rightarrow> bundle_files" where
  "kept store r = (case r of Inl x \<Rightarrow> store | Inr (a, store') \<Rightarrow> store')"

fun after_call :: "archive_env \<Rightarrow> store_limits \<Rightarrow> 's bundle_call \<Rightarrow> bundle_files \<Rightarrow> bundle_files" where
  "after_call e lim (IngestCall source sha kind) store = kept store (ingest e lim source sha kind store)"
| "after_call e lim (CreateCall source overlaps again kind) store =
     kept store (create_from_directory e lim source overlaps again kind store)"

fun store_after :: "archive_env \<Rightarrow> store_limits \<Rightarrow> 's bundle_call list \<Rightarrow> bundle_files \<Rightarrow> bundle_files" where
  "store_after e lim [] store = store"
| "store_after e lim (c # cs) store = store_after e lim cs (after_call e lim c store)"

lemma kept_cases: "P store \<Longrightarrow> (\<And>a store'. r = Inr (a, store') \<Longrightarrow> P store') \<Longrightarrow> P (kept store r)"
  by (auto simp: kept_def split: sum.split)

lemma after_call_facts:
  assumes "env_ok e" "small_limits lim" "store_ok e lim store"
  shows "store_ok e lim (after_call e lim c store) \<and> (\<forall>d x. store d = Some x \<longrightarrow> after_call e lim c store d = Some x)"
proof (cases c)
  case (IngestCall source sha kind)
  show ?thesis unfolding IngestCall after_call.simps
  proof (rule kept_cases)
    fix a store' assume "ingest e lim source sha kind store = Inr (a, store')"
    from ingest_facts(1,2) [OF assms this]
    show "store_ok e lim store' \<and> (\<forall>d x. store d = Some x \<longrightarrow> store' d = Some x)" by blast
  qed (use assms(3) in simp)
next
  case (CreateCall source overlaps again kind)
  show ?thesis unfolding CreateCall after_call.simps
  proof (rule kept_cases)
    fix a store' assume "create_from_directory e lim source overlaps again kind store = Inr (a, store')"
    from create_ingests [OF this] obtain raw k
      where "ingest e lim (InputStream read_file raw) None (Some (UStr (kind_text k))) store = Inr (a, store')" by blast
    from ingest_facts(1,2) [OF assms this]
    show "store_ok e lim store' \<and> (\<forall>d x. store d = Some x \<longrightarrow> store' d = Some x)" by blast
  qed (use assms(3) in simp)
qed

lemma store_after_facts:
  assumes "env_ok e" "small_limits lim"
  shows "store_ok e lim store \<Longrightarrow> store_ok e lim (store_after e lim cs store) \<and>
    (\<forall>d x. store d = Some x \<longrightarrow> store_after e lim cs store d = Some x)"
proof (induction cs arbitrary: store)
  case (Cons c cs)
  then show ?case using after_call_facts [OF assms Cons.prems, of c] Cons.IH [of "after_call e lim c store"] by simp
qed simp

lemma store_ok_empty: "store_ok e lim Map.empty"
  by (simp add: store_ok_def)

lemma load_only_entry:
  "store d = Some x \<Longrightarrow> store' d = Some x \<Longrightarrow> load_artifact e lim store' d = load_artifact e lim store d"
  by (simp add: load_artifact_def)

lemma get_prefixed:
  "env_ok e \<Longrightarrow> get_bundle e lim store (sha_prefix @ sha256_hex e raw) = load_artifact e lim store (sha256_hex e raw)"
  using sha_digest_hex_prefixed [of e "sha256_hex e raw"] sha256_of [of e raw] by (simp add: get_bundle_def)

lemma load_artifact_facts:
  "load_artifact e lim store h = Inr a \<Longrightarrow> (\<exists>d. store h = Some d) \<and> ar_sha256 a = sha_prefix @ h"
  by (auto simp: load_artifact_def result_simps split: option.splits)

lemma get_loads:
  assumes "get_bundle e lim store digest = Inr a"
  shows "\<exists>h d. sha_digest_hex e digest = Inr h \<and> store h = Some d \<and> load_artifact e lim store h = Inr a \<and>
    ar_sha256 a = sha_prefix @ h"
  using assms load_artifact_facts unfolding get_bundle_def rbind_Inr_iff by metis

end
