(* ===== verification/Archive_Scenario.thy ===== *)
theory Archive_Scenario
  imports Archive_Artifacts
begin

text \<open>
  A concrete bundle for the witnesses: a source directory with a file in a subdirectory and an
  executable file, libraries that are the identity where the documentation allows it, and the archive
  that is written.
\<close>

definition plain_env :: archive_env where
  "plain_env = \<lparr>nfkc = (\<lambda>s. s), lower_case = map ascii_lower,
     sha256_hex = (\<lambda>raw. replicate 63 48 @ [48 + sum_list raw mod 10]),
     read_tar = (\<lambda>raw. \<lparr>ts_members = [], ts_end = Broken\<rparr>), write_tar = (\<lambda>ms. []),
     float_integer = (\<lambda>t. None), json_depth = 50\<rparr>"

definition demo_root :: "(utext \<times> source_node) list" where
  "demo_root = [(ascii ''src'', SrcDir (Some [(ascii ''a.py'', SrcFile 2 False 7)])), (ascii ''run'', SrcFile 1 True 9)]"

definition demo_entries :: "source_entry list" where
  "demo_entries =
     [\<lparr>se_path = ascii ''run'', se_directory = False, se_size = 1, se_executable = True, se_stamp = 9\<rparr>,
      \<lparr>se_path = ascii ''src'', se_directory = True, se_size = 0, se_executable = False, se_stamp = 0\<rparr>,
      \<lparr>se_path = ascii ''src/a.py'', se_directory = False, se_size = 2, se_executable = False, se_stamp = 7\<rparr>]"

definition demo_again :: "utext \<Rightarrow> opened" where
  "demo_again path = (if path = ascii ''run'' then Opened True 9 1 [35] else Opened True 7 2 [120, 10])"

definition demo_members :: "tar_member list" where
  "demo_members = [tar_info (ascii ''run'') False 1 True [35], tar_info (ascii ''src'') True 0 False [],
     tar_info (ascii ''src/a.py'') False 2 False [120, 10]]"

definition demo_files :: "bundle_file list" where
  "demo_files =
     [\<lparr>bf_path = ascii ''run'', bf_size = 1, bf_sha256 = sha_prefix @ replicate 63 48 @ [53], bf_executable = True\<rparr>,
      \<lparr>bf_path = ascii ''src/a.py'', bf_size = 2, bf_sha256 = sha_prefix @ replicate 63 48 @ [48], bf_executable = False\<rparr>]"

definition demo_meta :: bundle_meta where
  "demo_meta = written_meta SubmissionKind demo_entries demo_files"

definition demo_manifest :: bytes where
  "demo_manifest = utf8_bytes (print_json (manifest_dict demo_meta) @ [10])"

definition demo_archive :: "tar_member list" where
  "demo_archive = demo_members @ [tar_info manifest_name False (int (length demo_manifest)) False demo_manifest]"

definition demo_env :: archive_env where
  "demo_env = plain_env\<lparr>
     read_tar := (\<lambda>raw. if raw = [31] then \<lparr>ts_members = map read_back demo_archive, ts_end = Complete\<rparr>
                    else \<lparr>ts_members = [], ts_end = Broken\<rparr>),
     write_tar := (\<lambda>ms. if ms = demo_archive then [31] else [])\<rparr>"

lemma demo_env_fields [simp]:
  "nfkc demo_env = (\<lambda>s. s)" "lower_case demo_env = map ascii_lower"
  "sha256_hex demo_env = (\<lambda>raw. replicate 63 48 @ [48 + sum_list raw mod 10])" "json_depth demo_env = 50"
  "write_tar demo_env demo_archive = [31]"
  "read_tar demo_env [31] = \<lparr>ts_members = map read_back demo_archive, ts_end = Complete\<rparr>"
  by (simp_all add: demo_env_def plain_env_def)

lemma demo_env_ok: "env_ok demo_env"
proof -
  have "lower_hex (48 + n mod 10)" for n :: nat
    using mod_less_divisor [of 10 n] by (auto simp: lower_hex_def)
  moreover have "list_all lower_hex (replicate n 48)" for n :: nat
    by (simp add: list_all_iff lower_hex_def)
  ultimately show ?thesis unfolding env_ok_def by simp
qed

lemma small_default: "small_limits default_limits"
proof -
  have "(10::int) ^ 10 \<le> 10 ^ int_digits_limit" by (rule power_increasing) (simp_all add: int_digits_limit_def)
  then have "small i" if "0 \<le> i" "i < 10 ^ 10" for i using that by (simp add: small_def)
  then show ?thesis by (simp add: small_limits_def limits_ok_def default_limits_def)
qed

lemma demo_limits: "limits_ok default_limits"
  using small_default by (simp add: small_limits_def)

lemma demo_safe [simp]:
  "safe_path demo_env (ascii ''run'')" "safe_path demo_env (ascii ''src'')" "safe_path demo_env (ascii ''src/a.py'')"
  by (simp_all add: safe_path_def ascii_control_def surrogate_def absolute_path_def windows_drive_def
      max_path_bytes_def safe_component_def max_component_bytes_def windows_unfit_def windows_invalid_def
      ends_with_dot_or_space_def windows_reserved_def upt_rec ascii_lower_def canonical_component_def fold_point_def)

lemma demo_keys [simp]:
  "path_key demo_env (ascii ''run'') = ascii ''run''" "path_key demo_env (ascii ''src'') = ascii ''src''"
  "path_key demo_env (ascii ''src/a.py'') = ascii ''src/a.py''"
  "path_key demo_env manifest_name = ascii ''autograde-bundle.json''"
  by (simp_all add: path_key_def manifest_name_def canonical_component_def ascii_lower_def fold_point_def)

lemma demo_written: "write_entries demo_env demo_again demo_entries = Inr (demo_members, demo_files)"
  by (simp add: demo_entries_def demo_again_def demo_members_def demo_files_def write_entry_def Let_def)

lemma demo_valid: "valid_json (manifest_dict demo_meta)"
  by (simp add: manifest_dict_def valid_dict demo_meta_def written_meta_def demo_entries_def demo_files_def
      file_dict_def bundle_schema_def sha_prefix_def valid_text_def surrogate_def list_all_iff)

lemma demo_manifest_bytes: "manifest_bytes (manifest_dict demo_meta) = Inr demo_manifest"
  using manifest_bytes_valid [OF demo_valid] by (simp add: demo_manifest_def)

lemma demo_manifest_length: "length demo_manifest = 386"
  by code_simp

lemma demo_path_parts [simp]:
  "path_parts (ascii ''run'') = [ascii ''run'']" "path_parts (ascii ''src'') = [ascii ''src'']"
  "path_parts (ascii ''src/a.py'') = [ascii ''src'', ascii ''a.py'']"
  by simp_all

lemma demo_scan: "scan_source demo_env default_limits (Some demo_root) = Inr demo_entries"
proof -
  have keys: "is_manifest_key demo_env (ascii ''run'') = False" "is_manifest_key demo_env (ascii ''src'') = False"
    "is_manifest_key demo_env (ascii ''src/a.py'') = False"
    unfolding is_manifest_key_def demo_keys by simp_all
  have paths: "relative_path [] (ascii ''run'') = ascii ''run''" "relative_path [] (ascii ''src'') = ascii ''src''"
    "relative_path (ascii ''src'') (ascii ''a.py'') = ascii ''src/a.py''"
    by (simp_all add: relative_path_def)
  have list: "listed (Some demo_root) = Inr [demo_root ! 1, demo_root ! 0]"
    "listed (Some [(ascii ''a.py'', SrcFile 2 False 7)]) = Inr [(ascii ''a.py'', SrcFile 2 False 7)]"
    by (simp_all add: listed_def demo_root_def surrogate_def)
  have join: "ascii ''src'' @ 47 # ascii ''a.py'' = ascii ''src/a.py''" by simp
  have claims:
    "claim_path demo_env FileEntry (ascii ''run'') Map.empty = Inr [ascii ''run'' \<mapsto> (FileEntry, ascii ''run'', True)]"
    "claim_path demo_env DirEntry (ascii ''src'') c = Inr (c(ascii ''src'' \<mapsto> (DirEntry, ascii ''src'', True)))"
    if "c (ascii ''src'') = None" for c
    using that
    by (simp_all add: claim_path_def demo_path_parts claim_one_def demo_keys Let_def del: ascii_simps(2))
  have claims3: "claim_path demo_env FileEntry (ascii ''src/a.py'') c =
      Inr (c(ascii ''src/a.py'' \<mapsto> (FileEntry, ascii ''src/a.py'', True)))"
    if "c (ascii ''src'') = Some (DirEntry, ascii ''src'', True)" "c (ascii ''src/a.py'') = None" for c
    using that
    by (simp add: claim_path_def demo_path_parts claim_one_def demo_keys join Let_def del: ascii_simps(2))
  show ?thesis
    unfolding scan_source_def list
    by (simp add: demo_root_def paths scan_child_def member_path_cases demo_safe keys demo_keys claims claims3
        add_entry_def no_scanning_def Let_def children_of_def list default_limits_def source_size_def
        demo_entries_def del: ascii_simps(2)) simp
qed

lemma demo_plain_names: "plain_names (SrcDir (Some demo_root))"
  by (simp add: demo_root_def)

lemma demo_texts: "list_all (\<lambda>s. valid_text (se_path s)) demo_entries"
  by (simp add: demo_entries_def surrogate_def)

lemma demo_faithful: "tar_faithful demo_env demo_archive"
  by (simp add: tar_faithful_def)

text \<open>The archive is accepted, and the store that ingests it.\<close>

lemma demo_accepted: "validate_archive demo_env default_limits [31] =
  Inr (demo_meta\<lparr>me_manifest_bytes := 386\<rparr>)"
proof -
  have raw: "manifest_bytes (manifest_dict (written_meta SubmissionKind demo_entries demo_files)) = Inr demo_manifest"
    using demo_manifest_bytes by (simp only: demo_meta_def)
  have faithful: "tar_faithful demo_env
      (demo_members @ [tar_info manifest_name False (int (length demo_manifest)) False demo_manifest])"
    using demo_faithful by (simp only: demo_archive_def)
  have fits: "int (length demo_manifest) \<le> max_manifest default_limits"
    "total_size demo_files + int (length demo_manifest) \<le> max_expanded default_limits"
    by (simp_all add: demo_manifest_length default_limits_def demo_files_def)
  have archive: "write_tar demo_env
      (demo_members @ [tar_info manifest_name False (int (length demo_manifest)) False demo_manifest]) = [31]"
    using demo_env_fields(5) by (simp only: demo_archive_def)
  show ?thesis
    using written_archive_accepted [OF demo_env_ok small_default demo_scan demo_plain_names demo_texts demo_written
        raw faithful fits]
    unfolding archive by (simp add: demo_meta_def demo_manifest_length)
qed

definition demo_artifact :: artifact where
  "demo_artifact = \<lparr>ar_sha256 = sha_prefix @ sha256_hex demo_env [31], ar_compressed = 1,
     ar_meta = demo_meta\<lparr>me_manifest_bytes := 386\<rparr>\<rparr>"

end
