(* ===== verification/Archive_Properties.thy ===== *)
theory Archive_Properties
  imports Archive_Scenario
begin

text \<open>
  The properties of the bundle archives of \<open>src/src/autograde/platform_bundle.py\<close>, each with its
  witness on the bundle of \<open>Archive_Scenario\<close>.
\<close>

section \<open>Receiving\<close>

lemma receive_chunks_file:
  "int (length w) \<le> max_compressed lim \<Longrightarrow>
   receive_chunks lim read_file w s =
     (if int (length w + length s) \<le> max_compressed lim then Inr (w @ s) else Inl BundleLimit)"
proof (induction lim "read_file" w s rule: receive_chunks.induct)
  case (1 lim w s)
  define n where "n = nat (min (int copy_chunk) (max_compressed lim - int (length w) + 1))"
  have n: "0 < n" using "1.prems" by (simp add: n_def copy_chunk_def)
  have step: "receive_chunks lim read_file w s =
    (if take n s = [] then Inr w
     else if max_compressed lim - int (length w) < int (length (take n s)) then Inl BundleLimit
     else receive_chunks lim read_file (w @ take n s) (drop n s))"
    unfolding receive_chunks.simps [of lim read_file w s] Let_def n_def [symmetric] read_file_def prod.case reply.case
    by (simp only: length_take min_less_iff_conj not_less_iff_gr_or_eq) simp
  show ?case
  proof (cases "s = [] \<or> max_compressed lim - int (length w) < int (length (take n s))")
    case True
    then show ?thesis using "1.prems" n unfolding step by auto
  next
    case False
    then have more: "take n s \<noteq> []" "\<not> max_compressed lim - int (length w) < int (length (take n s))"
      using n by auto
    have "receive_chunks lim read_file (w @ take n s) (drop n s) =
      (if int (length (w @ take n s) + length (drop n s)) \<le> max_compressed lim
       then Inr ((w @ take n s) @ drop n s) else Inl BundleLimit)"
      by (rule "1.hyps" [OF refl n_def]) (use more in \<open>auto simp: read_file_def\<close>)
    moreover have "length (w @ take n s) + length (drop n s) = length w + length s" by simp
    ultimately show ?thesis using more unfolding step by simp
  qed
qed

text \<open>Receiving a regular file gives its digest, its length and its bytes, or is refused when it is
  longer than the limit on compressed bytes; the loop over the chunks ends in either case.\<close>

theorem file_received:
  assumes "limits_ok lim"
  shows "receive_bounded e lim read_file raw =
    (if int (length raw) \<le> max_compressed lim then Inr (sha256_hex e raw, int (length raw), raw) else Inl BundleLimit)"
  using assms receive_chunks_file [of "[]" lim raw] by (simp add: receive_bounded_def limits_ok_def)

theorem file_received_witness:
  "receive_bounded demo_env default_limits read_file [31] = Inr (sha256_hex demo_env [31], 1, [31])"
  using file_received [OF demo_limits, of demo_env "[31]"] by (simp add: default_limits_def)

section \<open>Paths\<close>

definition claim_all :: "archive_env \<Rightarrow> (entry_kind \<times> utext) list \<Rightarrow> claims ares" where
  "claim_all e xs = fold (\<lambda>x r. rbind r (claim_path e (fst x) (snd x))) xs (Inr Map.empty)"

lemma claim_path_claims: "claim_path e (fst x) (snd x) = claim_list e (path_claims x)"
  by (rule ext) (simp add: claim_path_list)

lemma claim_all_claimed:
  "claim_all e xs = (if sorted_wrt (agreeing e) (concat (map path_claims xs))
     then Inr (claimed e (concat (map path_claims xs))) else Inl UnsafeBundle)"
proof (induction xs rule: rev_induct)
  case Nil
  show ?case by (simp add: claim_all_def claimed_Nil)
next
  case (snoc x xs)
  have "claim_all e (xs @ [x]) = rbind (claim_all e xs) (claim_list e (path_claims x))"
    by (simp add: claim_all_def claim_path_claims)
  also have "\<dots> = (if sorted_wrt (agreeing e) (concat (map path_claims (xs @ [x])))
      then Inr (claimed e (concat (map path_claims (xs @ [x])))) else Inl UnsafeBundle)"
    unfolding snoc by (auto simp: claim_list_claimed sorted_wrt_append)
  finally show ?case .
qed

lemma claimed_reorder:
  assumes "mset cs = mset ds" "sorted_wrt (agreeing e) cs"
  shows "claimed e cs = claimed e ds"
proof
  fix k
  let ?f = "filter (\<lambda>c. claim_key e c = k)"
  have same: "set (?f cs) = set (?f ds)" using assms(1) by (metis mset_eq_setD mset_filter)
  show "claimed e cs k = claimed e ds k"
  proof (cases "?f cs")
    case Nil
    with same have "?f ds = []" by (metis set_empty)
    with Nil show ?thesis by (simp add: claimed_def)
  next
    case (Cons c as)
    with same obtain d bs where d: "?f ds = d # bs" by (metis list.exhaust list.simps(3) set_empty)
    have "d \<in> set (?f cs)" using same d by simp
    then have "c = d \<or> agreeing e c d"
      using claims_agree [OF sorted_wrt_filter [OF assms(2)], of c "\<lambda>c. claim_key e c = k" d] Cons by auto
    moreover have "claim_key e c = k" "claim_key e d = k"
      using Cons d by (metis (mono_tags) filter_eq_ConsD)+
    ultimately have "fst c = fst d" "fst (snd c) = fst (snd d)" by (auto simp: agreeing_def)
    moreover have "(\<exists>x\<in>set (c # as). snd (snd x)) \<longleftrightarrow> (\<exists>x\<in>set (d # bs). snd (snd x))"
      using same unfolding Cons d by blast
    ultimately show ?thesis by (simp add: claimed_def Cons d)
  qed
qed

text \<open>C39: claiming the paths of a bundle does not depend on their order: for any two arrangements
  of the same paths either both are refused or both succeed with the same claims.\<close>

theorem claims_order_free:
  assumes "mset xs = mset ys"
  shows "claim_all e xs = claim_all e ys"
proof -
  have same: "mset (concat (map path_claims xs)) = mset (concat (map path_claims ys))"
  proof -
    have "mset (concat (map path_claims zs)) = sum_mset (image_mset (\<lambda>z. mset (path_claims z)) (mset zs))" for zs
      by (induction zs) simp_all
    with assms show ?thesis by simp
  qed
  then have "sorted_wrt (agreeing e) (concat (map path_claims xs)) \<longleftrightarrow>
      sorted_wrt (agreeing e) (concat (map path_claims ys))"
    using sorted_wrt_reorder [of "agreeing e", OF agreeing_sym same]
      sorted_wrt_reorder [of "agreeing e", OF agreeing_sym same [symmetric]] by blast
  then show ?thesis using claimed_reorder [OF same] by (simp add: claim_all_claimed)
qed

theorem claims_order_free_witness:
  "claim_all demo_env [(FileEntry, ascii ''src/a.py''), (DirEntry, ascii ''src'')] =
     claim_all demo_env [(DirEntry, ascii ''src''), (FileEntry, ascii ''src/a.py'')] \<and>
   claim_all demo_env [(FileEntry, ascii ''SRC/a.py''), (DirEntry, ascii ''src'')] = Inl UnsafeBundle"
proof
  show "claim_all demo_env [(FileEntry, ascii ''src/a.py''), (DirEntry, ascii ''src'')] =
     claim_all demo_env [(DirEntry, ascii ''src''), (FileEntry, ascii ''src/a.py'')]"
    by (rule claims_order_free) simp
  show "claim_all demo_env [(FileEntry, ascii ''SRC/a.py''), (DirEntry, ascii ''src'')] = Inl UnsafeBundle"
    by (simp add: claim_all_def claim_path_def claim_one_def path_key_def canonical_component_def ascii_lower_def
        fold_point_def ensured_def)
qed

section \<open>Accepted archives\<close>

text \<open>What a path must not be, said of its text: a component is what stands between two slashes or
  the ends.\<close>

definition component_of :: "utext \<Rightarrow> utext \<Rightarrow> bool" where
  "component_of p s = (47 \<notin> set p \<and> (\<exists>a b. s = a @ p @ b \<and> (a = [] \<or> last a = 47) \<and> (b = [] \<or> hd b = 47)))"

definition harmless_text :: "utext \<Rightarrow> bool" where
  "harmless_text s = (s \<noteq> [] \<and> hd s \<noteq> 47 \<and> 92 \<notin> set s \<and> length (utf8_bytes s) \<le> 4096 \<and>
     (\<forall>c\<in>set s. 32 \<le> c \<and> c \<noteq> 127 \<and> \<not> (0xD800 \<le> c \<and> c \<le> 0xDFFF)))"

definition harmless_component :: "archive_env \<Rightarrow> utext \<Rightarrow> bool" where
  "harmless_component e p = (p \<noteq> [] \<and> p \<noteq> ascii ''.'' \<and> p \<noteq> ascii ''..'' \<and> length (utf8_bytes p) \<le> 255 \<and>
     last p \<noteq> 46 \<and> last p \<noteq> 32 \<and> (\<forall>c\<in>set p. c \<notin> set (ascii ''<>:|?*'') \<and> c \<noteq> 34) \<and>
     lower_case e (takeWhile (\<lambda>c. c \<noteq> 46) p) \<notin> set (map ascii [''con'', ''prn'', ''aux'', ''nul'',
       ''com1'', ''com2'', ''com3'', ''com4'', ''com5'', ''com6'', ''com7'', ''com8'', ''com9'',
       ''lpt1'', ''lpt2'', ''lpt3'', ''lpt4'', ''lpt5'', ''lpt6'', ''lpt7'', ''lpt8'', ''lpt9'']) \<and>
     canonical_component e p \<noteq> ascii ''.git'' \<and> canonical_component e p \<noteq> ascii ''.autograde'')"

lemma split_sep_append: "split_sep c (a @ c # s) = split_sep c a @ split_sep c s"
  by (induction a) (auto split: list.splits)

lemma component_of_parts:
  assumes "component_of p s"
  shows "p \<in> set (path_parts s)"
proof -
  obtain a b where s: "s = a @ p @ b" "a = [] \<or> last a = 47" "b = [] \<or> hd b = 47" and p: "47 \<notin> set p"
    using assms by (auto simp: component_of_def)
  have t: "p \<in> set (path_parts (p @ b))"
    using s(3) p by (cases b) (auto simp: split_sep_single split_sep_prefix)
  show ?thesis
  proof (cases "a = []")
    case False
    then have "a = butlast a @ [47]" using s(2) by (metis append_butlast_last_id)
    then have "s = butlast a @ 47 # p @ b" using s(1) by (metis append_Cons append_Nil append_assoc)
    then show ?thesis using t by (simp add: split_sep_append)
  qed (use s t in simp)
qed

lemma safe_path_harmless:
  assumes "safe_path e s"
  shows "harmless_text s" and "component_of p s \<Longrightarrow> harmless_component e p"
proof -
  show "harmless_text s"
    using assms by (auto simp: harmless_text_def safe_path_def list_ex_iff ascii_control_def surrogate_def
        absolute_path_def max_path_bytes_def not_less)
  assume "component_of p s"
  then have "safe_component e p" by (rule safe_path_parts [OF assms component_of_parts])
  then show "harmless_component e p"
    by (auto simp: harmless_component_def safe_component_def windows_unfit_def ends_with_dot_or_space_def
        list_ex_iff windows_invalid_def windows_reserved_def max_component_bytes_def upt_rec)
qed

text \<open>C34: an accepted archive holds regular files and directories only, under harmless paths: a path
  is relative, has no control character, backslash or surrogate and at most 4096 bytes; and none of its
  components is empty, \<open>.\<close> or \<open>..\<close>, longer than 255 bytes, a name Windows reserves or
  cannot store, or \<open>.git\<close> or \<open>.autograde\<close> in any case or normal form. No two
  members have the same key, a member with the key of a parent of another one is a directory with the
  very spelling of that parent, and parents with the same key are spelled alike. So no member is
  outside of the destination or hides another one where case or normalisation is not told apart.\<close>

theorem accepted_archive_portable:
  assumes "limits_ok lim" "validate_archive e lim raw = Inr a"
    and "m \<in> set (ts_members (read_tar e raw))" "n \<in> set (ts_members (read_tar e raw))"
  shows "safe_path e (tm_name m) \<and> harmless_text (tm_name m) \<and>
    (\<forall>p. component_of p (tm_name m) \<longrightarrow> harmless_component e p) \<and>
    (tm_type m = RegMember \<or> tm_type m = DirMember) \<and>
    (path_key e (tm_name m) = path_key e (tm_name n) \<longrightarrow> m = n) \<and>
    (\<forall>i. 0 < i \<and> i < length (path_parts (tm_name m)) \<and>
       path_key e (tm_name n) = path_key e (join_parts (take i (path_parts (tm_name m)))) \<longrightarrow>
       tm_type n = DirMember \<and> tm_name n = join_parts (take i (path_parts (tm_name m)))) \<and>
    (\<forall>i j. 0 < i \<and> i < length (path_parts (tm_name m)) \<and> 0 < j \<and> j < length (path_parts (tm_name n)) \<and>
       path_key e (join_parts (take i (path_parts (tm_name m)))) =
         path_key e (join_parts (take j (path_parts (tm_name n)))) \<longrightarrow>
       join_parts (take i (path_parts (tm_name m))) = join_parts (take j (path_parts (tm_name n))))"
proof -
  have ok: "accepted e lim (ts_members (read_tar e raw))" using validated [OF assms(1,2)] by blast
  then have "member_ok e lim m" "path_key e (tm_name m) = path_key e (tm_name n) \<longrightarrow> m = n"
    using assms(3,4) by (auto simp: accepted_def list_all_iff distinct_map inj_on_def)
  moreover have "tm_type n = DirMember \<and> tm_name n = join_parts (take i (path_parts (tm_name m)))"
    if "0 < i" "i < length (path_parts (tm_name m))"
      "path_key e (tm_name n) = path_key e (join_parts (take i (path_parts (tm_name m))))" for i
    using parent_is_directory [OF ok assms(3,4) that] by (auto simp: member_kind_def split: if_splits)
  moreover note parents_alike [OF ok assms(3,4)]
  ultimately show ?thesis using safe_path_harmless by (auto simp: member_ok_def)
qed

lemma demo_first: "tar_info (ascii ''run'') False 1 True [35] \<in> set (ts_members (read_tar demo_env [31]))"
  by (simp add: demo_archive_def demo_members_def read_back_def tar_info_def)

theorem accepted_archive_portable_witness:
  "harmless_text (tm_name (tar_info (ascii ''run'') False 1 True [35]))"
  using accepted_archive_portable [OF demo_limits demo_accepted demo_first demo_first] by blast

lemma manifest_and_payload:
  "list_all (member_ok e lim) ms \<Longrightarrow> list_all readable ms \<Longrightarrow> x \<in> set ms \<Longrightarrow> manifest_member e x \<Longrightarrow>
   total_size (payload_files e ms) + tm_size x \<le> declared_bytes ms"
proof (induction ms)
  case (Cons m ms)
  have ok: "list_all (member_ok e lim) ms" "list_all readable ms" using Cons.prems by simp_all
  show ?case
  proof (cases "x \<in> set ms")
    case True
    then show ?thesis
      using Cons.IH [OF ok True] Cons.prems by (auto simp: member_file_def readable_def member_ok_def)
  next
    case False
    then show ?thesis
      using payload_files_numbers(2) [OF ok] Cons.prems by (auto simp: member_ok_def)
  qed
qed simp

lemma payload_parts:
  "list_all (member_ok e lim) ms \<Longrightarrow>
   payload_count e ms = int (length (directory_paths ms) + length (payload_files e ms))"
  by (induction ms) (auto simp: directory_paths_def member_ok_def)

text \<open>C35: the metadata of an accepted archive is what the archive holds: its directories and its files
  with their sizes, digests and modes in the order of their encoded names, the counts and sums over
  them within the limits, and its manifest is the canonical document of just these data.\<close>

theorem accepted_metadata_exact:
  assumes "limits_ok lim" "validate_archive e lim raw = Inr m"
  shows "me_directories m = sorted_paths (directory_paths (ts_members (read_tar e raw))) \<and>
    me_files m = sorted_files (payload_files e (ts_members (read_tar e raw))) \<and>
    me_file_count m = int (length (me_files m)) \<and> me_expanded m = total_size (me_files m) \<and>
    me_member_count m = int (length (me_directories m) + length (me_files m)) \<and> me_member_count m \<le> max_files lim \<and>
    me_expanded m + me_manifest_bytes m \<le> max_expanded lim \<and> me_manifest_bytes m \<le> max_manifest lim \<and>
    (\<exists>x\<in>set (ts_members (read_tar e raw)). tm_name x = manifest_name \<and>
       manifest_bytes (manifest_dict m) = Inr (tm_data x) \<and> me_manifest_bytes m = int (length (tm_data x)))"
proof -
  let ?ms = "ts_members (read_tar e raw)"
  obtain x where x: "accepted e lim ?ms" "list_all readable ?ms" "x \<in> set ?ms" "manifest_member e x"
    and v: "validate_manifest e (tm_data x) (directory_paths ?ms) (payload_files e ?ms) (payload_count e ?ms) = Inr m"
    using validated [OF assms] by blast
  note facts = validate_manifest_facts [OF v]
  have ok: "list_all (member_ok e lim) ?ms" "payload_count e ?ms \<le> max_files lim" "declared_bytes ?ms \<le> max_expanded lim"
    using x(1) by (simp_all add: accepted_def)
  have mx: "tm_name x = manifest_name" "int (length (tm_data x)) = tm_size x" "tm_size x \<le> max_manifest lim"
    using ok(1) x(2-4) by (auto simp: list_all_iff member_ok_def readable_def)
  have fields: "me_directories m = sorted_paths (directory_paths ?ms)" "me_files m = sorted_files (payload_files e ?ms)"
    "me_member_count m = payload_count e ?ms" "me_manifest_bytes m = int (length (tm_data x))"
    "me_file_count m = int (length (sorted_files (payload_files e ?ms)))" "me_expanded m = total_size (payload_files e ?ms)"
    by (subst facts(1), simp)+
  have "me_member_count m = int (length (me_directories m) + length (me_files m))"
    using payload_parts [OF ok(1)] fields by (simp add: sorted_paths_def sorted_files_def)
  then show ?thesis
    using fields facts(2) mx x(3) ok(2,3) manifest_and_payload [OF ok(1) x(2-4)] by (auto intro!: bexI [of _ x])
qed

theorem accepted_metadata_exact_witness:
  "me_files (demo_meta\<lparr>me_manifest_bytes := 386\<rparr>) =
     sorted_files (payload_files demo_env (ts_members (read_tar demo_env [31]))) \<and>
   me_expanded (demo_meta\<lparr>me_manifest_bytes := 386\<rparr>) + me_manifest_bytes (demo_meta\<lparr>me_manifest_bytes := 386\<rparr>)
     \<le> max_expanded default_limits"
  using accepted_metadata_exact [OF demo_limits demo_accepted] by blast

section \<open>Creation\<close>

text \<open>An accepted archive that is not in the store is published.\<close>

lemma fresh_ingested:
  assumes "env_ok e" "small_limits lim" "validate_archive e lim raw = Inr m"
    and "int (length raw) \<le> max_compressed lim" "store (sha256_hex e raw) = None"
    and "kind = None \<or> kind = Some (me_kind m)"
  shows "\<exists>store'. ingest e lim (InputStream read_file raw) None (map_option (\<lambda>k. UStr (kind_text k)) kind) store =
      Inr (\<lparr>ar_sha256 = sha_prefix @ sha256_hex e raw, ar_compressed = int (length raw), ar_meta = m\<rparr>, store') \<and>
    load_artifact e lim store' (sha256_hex e raw) =
      Inr \<lparr>ar_sha256 = sha_prefix @ sha256_hex e raw, ar_compressed = int (length raw), ar_meta = m\<rparr>"
proof -
  have ok: "limits_ok lim" using assms(2) by (simp add: small_limits_def)
  obtain x :: tar_member where v: "validate_manifest e (tm_data x) (directory_paths (ts_members (read_tar e raw)))
      (payload_files e (ts_members (read_tar e raw))) (payload_count e (ts_members (read_tar e raw))) = Inr m"
    using validated [OF ok assms(3)] by blast
  have "list_all lower_hex (sha256_hex e raw)" using sha256_of [OF assms(1)] by blast
  then have "valid_json (sidecar_dict (sha_prefix @ sha256_hex e raw) (int (length raw)) m)"
    using validate_manifest_facts(4) [OF v] valid_digest by (auto simp: sidecar_dict_def valid_dict)
  then obtain sidecar where sidecar: "write_sidecar (sha_prefix @ sha256_hex e raw) (int (length raw)) m = Inr sidecar"
    by (simp add: write_sidecar_def manifest_bytes_valid)
  have received: "receive_bounded e lim read_file raw = Inr (sha256_hex e raw, int (length raw), raw)"
    using receive_chunks_file [of "[]" lim raw] assms(4) ok by (simp add: receive_bounded_def limits_ok_def)
  let ?store = "store(sha256_hex e raw \<mapsto> \<lparr>sd_archive = Contents raw, sd_sidecar = Contents sidecar\<rparr>)"
  have "ingest e lim (InputStream read_file raw) None (map_option (\<lambda>k. UStr (kind_text k)) kind) store =
      Inr (\<lparr>ar_sha256 = sha_prefix @ sha256_hex e raw, ar_compressed = int (length raw), ar_meta = m\<rparr>, ?store)"
    using assms sidecar received
    by (auto simp: ingest_def expected_digest_def expected_kind_def receive_input_def publish_def)
  moreover have "load_artifact e lim ?store (sha256_hex e raw) =
      Inr \<lparr>ar_sha256 = sha_prefix @ sha256_hex e raw, ar_compressed = int (length raw), ar_meta = m\<rparr>"
    by (rule load_stored [OF assms(1,2) _ refl assms(4,3) sidecar]) simp
  ultimately show ?thesis by blast
qed

text \<open>C36: a source directory that can be scanned and read again unchanged, with names the limits
  allow, becomes a stored bundle: the creation returns the artifact with the metadata that was written,
  the archive it wrote is accepted, and the bundle is then found under its digest with the same data.\<close>

theorem created_bundle_ingested:
  assumes "env_ok e" "small_limits lim"
    and scan: "scan_source e lim (Some cs) = Inr entries" "plain_names (SrcDir (Some cs))"
    and texts: "list_all (\<lambda>s. valid_text (se_path s)) entries"
    and written: "write_entries e again entries = Inr (ms, files)"
    and manifest: "manifest_bytes (manifest_dict (written_meta kind entries files)) = Inr manifest"
    and faithful: "tar_faithful e (ms @ [tar_info manifest_name False (int (length manifest)) False manifest])"
    and fits: "int (length manifest) \<le> max_manifest lim" "total_size files + int (length manifest) \<le> max_expanded lim"
    and raw: "raw = write_tar e (ms @ [tar_info manifest_name False (int (length manifest)) False manifest])"
      "int (length raw) \<le> max_compressed lim"
    and new: "store (sha256_hex e raw) = None"
    and a: "a = \<lparr>ar_sha256 = sha_prefix @ sha256_hex e raw, ar_compressed = int (length raw),
      ar_meta = (written_meta kind entries files)\<lparr>me_manifest_bytes := int (length manifest)\<rparr>\<rparr>"
  shows "\<exists>store'. create_from_directory e lim (Root (Some cs)) False again (UStr (kind_text kind)) store = Inr (a, store') \<and>
    get_bundle e lim store' (ar_sha256 a) = Inr a"
proof -
  let ?m = "(written_meta kind entries files)\<lparr>me_manifest_bytes := int (length manifest)\<rparr>"
  have ok: "limits_ok lim" using assms(2) by (simp add: small_limits_def)
  have m: "validate_archive e lim raw = Inr ?m"
    using written_archive_accepted [OF assms(1,2) scan texts written manifest faithful fits] raw(1) by simp
  obtain store' where "ingest e lim (InputStream read_file raw) None (Some (UStr (kind_text kind))) store = Inr (a, store')"
    "load_artifact e lim store' (sha256_hex e raw) = Inr a"
    using fresh_ingested [of e lim raw _ store "Some kind", OF assms(1,2) m raw(2) new] unfolding a by (auto simp: written_meta_def)
  moreover from this(1) have "create_from_directory e lim (Root (Some cs)) False again (UStr (kind_text kind)) store = Inr (a, store')"
    using scan(1) written manifest raw
    by (simp add: create_from_directory_def write_deterministic_archive_def deterministic_members_def)
  ultimately show ?thesis using get_prefixed [OF assms(1)] by (auto simp: a)
qed

theorem created_bundle_ingested_witness:
  "\<exists>store'. create_from_directory demo_env default_limits (Root (Some demo_root)) False demo_again
       (UStr (kind_text SubmissionKind)) Map.empty = Inr (demo_artifact, store') \<and>
     get_bundle demo_env default_limits store' (ar_sha256 demo_artifact) = Inr demo_artifact"
proof (rule created_bundle_ingested [OF demo_env_ok small_default demo_scan demo_plain_names demo_texts demo_written])
  show "manifest_bytes (manifest_dict (written_meta SubmissionKind demo_entries demo_files)) = Inr demo_manifest"
    using demo_manifest_bytes by (simp only: demo_meta_def)
  show "tar_faithful demo_env (demo_members @ [tar_info manifest_name False (int (length demo_manifest)) False demo_manifest])"
    using demo_faithful by (simp only: demo_archive_def)
  show "[31] = write_tar demo_env (demo_members @ [tar_info manifest_name False (int (length demo_manifest)) False demo_manifest])"
    using demo_env_fields(5) by (simp only: demo_archive_def)
  show "demo_artifact = \<lparr>ar_sha256 = sha_prefix @ sha256_hex demo_env [31], ar_compressed = int (length [31::nat]),
      ar_meta = (written_meta SubmissionKind demo_entries demo_files)\<lparr>me_manifest_bytes := int (length demo_manifest)\<rparr>\<rparr>"
    by (simp add: demo_artifact_def demo_meta_def demo_manifest_length)
qed (simp_all add: demo_manifest_length default_limits_def demo_files_def)

section \<open>Storage over time\<close>

text \<open>C37: an artifact stands. Whatever was ingested and created before and whatever is afterwards,
  successfully or not, an artifact that an ingestion returned is found under its digest with the same
  size and metadata, and the bytes that are exported for it are those that were stored.\<close>

theorem artifacts_stand:
  fixes before :: "'s bundle_call list" and later :: "'t bundle_call list"
  assumes "env_ok e" "small_limits lim"
    and "ingest e lim source sha kind (store_after e lim before Map.empty) = Inr (a, store')"
  shows "get_bundle e lim (store_after e lim later store') (ar_sha256 a) = Inr a \<and>
    artifact_bytes (store_after e lim later store') (drop 7 (ar_sha256 a)) = artifact_bytes store' (drop 7 (ar_sha256 a)) \<and>
    export_bundle e lim (store_after e lim later store') (ar_sha256 a) Free False
      (artifact_bytes store' (drop 7 (ar_sha256 a))) = Inr (artifact_bytes store' (drop 7 (ar_sha256 a)))"
proof -
  have "store_ok e lim (store_after e lim before Map.empty)"
    using store_after_facts [OF assms(1,2) store_ok_empty] by blast
  note facts = ingest_facts [OF assms(1,2) this assms(3)]
  obtain raw x where a: "load_artifact e lim store' (sha256_hex e raw) = Inr a"
    "ar_sha256 a = sha_prefix @ sha256_hex e raw" "store' (sha256_hex e raw) = Some x"
    using facts(3) by blast
  have still: "store_after e lim later store' (sha256_hex e raw) = Some x"
    using store_after_facts [OF assms(1,2) facts(1)] a(3) by blast
  have got: "get_bundle e lim (store_after e lim later store') (ar_sha256 a) = Inr a"
    using load_only_entry [of store' "sha256_hex e raw" x "store_after e lim later store'" e lim, OF a(3) still] a(1,2) get_prefixed [OF assms(1)] by simp
  have key: "drop 7 (ar_sha256 a) = sha256_hex e raw" by (simp add: a(2) sha_prefix_points)
  obtain stored sidecar where "x = \<lparr>sd_archive = Contents stored, sd_sidecar = Contents sidecar\<rparr>" "sha256_hex e raw = sha256_hex e stored"
    using facts(1) a(3) unfolding store_ok_def stored_ok_def by blast
  then show ?thesis
    using got a(2,3) still unfolding key by (simp add: artifact_bytes_def export_bundle_def)
qed

text \<open>The store of the scenario: an empty one, a failed ingestion, and the archive.\<close>

definition demo_past :: "bytes bundle_call list" where
  "demo_past = [IngestCall (InputStream read_file [7]) None None]"

lemma demo_past_empty: "store_after demo_env default_limits demo_past Map.empty = Map.empty"
proof -
  have "receive_bounded demo_env default_limits read_file [7] = Inr (sha256_hex demo_env [7], 1, [7])"
    using receive_chunks_file [of "[]" default_limits "[7]"] by (simp add: receive_bounded_def default_limits_def)
  moreover have "validate_archive demo_env default_limits [7] = Inl UnsafeBundle"
    by (simp add: end_error_def validate_archive_def demo_env_def plain_env_def ensured_def)
  ultimately show ?thesis
    by (simp add: demo_past_def kept_def ingest_def expected_digest_def expected_kind_def receive_input_def)
qed

lemma demo_ingested:
  "\<exists>store'. ingest demo_env default_limits (InputStream read_file [31]) None None
     (store_after demo_env default_limits demo_past Map.empty) = Inr (demo_artifact, store') \<and>
   load_artifact demo_env default_limits store' (sha256_hex demo_env [31]) = Inr demo_artifact"
  using fresh_ingested [OF demo_env_ok small_default demo_accepted, of Map.empty None]
  unfolding demo_past_empty by (simp add: demo_artifact_def default_limits_def)

theorem artifacts_stand_witness:
  "\<exists>store'. get_bundle demo_env default_limits
     (store_after demo_env default_limits (demo_past @ demo_past) store') (ar_sha256 demo_artifact) = Inr demo_artifact"
proof -
  obtain store' where "ingest demo_env default_limits (InputStream read_file [31]) None None
     (store_after demo_env default_limits demo_past Map.empty) = Inr (demo_artifact, store')"
    using demo_ingested by blast
  from artifacts_stand [OF demo_env_ok small_default this, of "demo_past @ demo_past"] show ?thesis by blast
qed

section \<open>Delivery\<close>

definition file_mode :: "bool \<Rightarrow> bundle_file \<Rightarrow> nat" where
  "file_mode read_only f =
     (if read_only then (if bf_executable f then octal 5 0 0 else octal 4 0 0)
      else (if bf_executable f then octal 7 0 0 else octal 6 0 0))"

text \<open>The directories that metadata stand for: the destination, those listed, and the parents.\<close>

definition listed_directory :: "(utext \<Rightarrow> 'k) \<Rightarrow> bundle_meta \<Rightarrow> 'k list \<Rightarrow> bool" where
  "listed_directory ident m p = (p = [] \<or> (\<exists>d\<in>set (me_directories m). p = node_path ident d) \<or>
     (\<exists>s\<in>set (me_directories m) \<union> bf_path ` set (me_files m).
        \<exists>i. 0 < i \<and> i < length (node_path ident s) \<and> p = take i (node_path ident s)))"

lemma payload_of_directories:
  "accepted e lim (ts_members (read_tar e raw)) \<Longrightarrow>
   d \<in> set (directory_paths (ts_members (read_tar e raw))) \<longleftrightarrow>
     (\<exists>m\<in>set (payload_of e raw). tm_type m = DirMember \<and> d = tm_name m)"
  by (auto simp: directory_paths_def payload_of_def accepted_def list_all_iff member_ok_def)

lemma payload_of_files:
  "f \<in> set (payload_files e (ts_members (read_tar e raw))) \<longleftrightarrow>
     (\<exists>m\<in>set (payload_of e raw). tm_type m = RegMember \<and> f = member_file e m (tm_name m))"
  by (auto simp: payload_files_def payload_of_def)

text \<open>What a tree holds, said with the metadata.\<close>

lemma extraction_listed:
  assumes "portable e ident" "limits_ok lim" "validate_archive e lim raw = Inr a"
  shows "\<exists>t. extract_payload e lim ident raw read_only = Inr t \<and>
    (\<forall>p c k. t p = Some (FileNode c k) \<longrightarrow> (\<exists>f\<in>set (me_files a). p = node_path ident (bf_path f) \<and>
       int (length c) = bf_size f \<and> bf_sha256 f = sha_prefix @ sha256_hex e c \<and> k = file_mode read_only f)) \<and>
    (\<forall>f\<in>set (me_files a). \<exists>c. t (node_path ident (bf_path f)) = Some (FileNode c (file_mode read_only f)) \<and>
       int (length c) = bf_size f \<and> bf_sha256 f = sha_prefix @ sha256_hex e c) \<and>
    (\<forall>p k. t p = Some (DirNode k) \<longleftrightarrow>
       k = (if read_only then octal 5 0 0 else octal 7 0 0) \<and> listed_directory ident a p)"
proof -
  let ?ms = "ts_members (read_tar e raw)"
  obtain x :: tar_member where ok: "accepted e lim ?ms"
    and v: "validate_manifest e (tm_data x) (directory_paths ?ms) (payload_files e ?ms) (payload_count e ?ms) = Inr a"
    using validated [OF assms(2,3)] by blast
  obtain t where t: "extract_payload e lim ident raw read_only = Inr t"
    "\<And>p c k. t p = Some (FileNode c k) \<longleftrightarrow>
      (\<exists>m\<in>set (payload_of e raw). tm_type m = RegMember \<and> p = member_node ident m \<and> FileNode c k = file_node read_only m)"
    "\<And>p k. t p = Some (DirNode k) \<longleftrightarrow>
      k = (if read_only then octal 5 0 0 else octal 7 0 0) \<and> payload_directory e ident raw p"
    using extraction [OF assms, of read_only] by blast
  have "me_directories a = sorted_paths (directory_paths ?ms)" "me_files a = sorted_files (payload_files e ?ms)"
    by (subst validate_manifest_facts(1) [OF v], simp)+
  then have sets: "set (me_directories a) = set (directory_paths ?ms)" "set (me_files a) = set (payload_files e ?ms)"
    by (simp_all add: sorted_paths_def sorted_files_def)
  note dirs = payload_of_directories [OF ok]
  note files = payload_of_files [of _ e raw]
  have node: "file_node read_only m = FileNode (tm_data m) (file_mode read_only (member_file e m (tm_name m)))" for m
    by (simp add: file_node_def file_mode_def member_file_def)
  have fields: "bf_path (member_file e m s) = s" "bf_size (member_file e m s) = int (length (tm_data m))"
    "bf_sha256 (member_file e m s) = sha_prefix @ sha256_hex e (tm_data m)" for m s
    by (simp_all add: member_file_def)
  have types: "tm_type m = DirMember \<or> tm_type m = RegMember" if "m \<in> set (payload_of e raw)" for m
    using that ok by (auto simp: payload_of_def accepted_def list_all_iff member_ok_def)
  have "payload_directory e ident raw p \<longleftrightarrow> listed_directory ident a p" for p
  proof -
    have D: "set (me_directories a) = tm_name ` {m \<in> set (payload_of e raw). tm_type m = DirMember}"
      unfolding sets using dirs by blast
    have "set (me_files a) = (\<lambda>m. member_file e m (tm_name m)) ` {m \<in> set (payload_of e raw). tm_type m = RegMember}"
      unfolding sets using files by blast
    then have "bf_path ` set (me_files a) = tm_name ` {m \<in> set (payload_of e raw). tm_type m = RegMember}"
      by (simp only: image_image fields)
    then have U: "set (me_directories a) \<union> bf_path ` set (me_files a) = tm_name ` set (payload_of e raw)"
      unfolding D using types by blast
    show ?thesis unfolding payload_directory_def listed_directory_def U unfolding D by auto
  qed
  moreover have "\<exists>f\<in>set (me_files a). p = node_path ident (bf_path f) \<and>
       int (length c) = bf_size f \<and> bf_sha256 f = sha_prefix @ sha256_hex e c \<and> k = file_mode read_only f"
    if "t p = Some (FileNode c k)" for p c k
  proof -
    from that obtain m where m: "m \<in> set (payload_of e raw)" "tm_type m = RegMember" "p = member_node ident m"
      "FileNode c k = file_node read_only m"
      unfolding t(2) by blast
    then have "member_file e m (tm_name m) \<in> set (me_files a)" unfolding sets files by blast
    with m(3,4) show ?thesis by (intro bexI) (simp_all add: node fields)
  qed
  moreover have "\<exists>c. t (node_path ident (bf_path f)) = Some (FileNode c (file_mode read_only f)) \<and>
       int (length c) = bf_size f \<and> bf_sha256 f = sha_prefix @ sha256_hex e c"
    if "f \<in> set (me_files a)" for f
  proof -
    from that obtain m where m: "m \<in> set (payload_of e raw)" "tm_type m = RegMember" "f = member_file e m (tm_name m)"
      unfolding sets files by blast
    have "t (member_node ident m) = Some (FileNode (tm_data m) (file_mode read_only f))"
      unfolding t(2) m(3) by (rule bexI [OF _ m(1)]) (simp add: m(2) node)
    then show ?thesis unfolding m(3) fields by blast
  qed
  ultimately show ?thesis using t(1,3) by (intro exI [of _ t]) blast
qed

text \<open>C38: materialising a stored bundle gives exactly its payload. Below the destination stand the
  files of the metadata, each with its number of bytes, its digest and its mode, and the directories of
  the metadata with the parents, and nothing else; the file system may take names for the same as long
  as these have the same canonical form.\<close>

theorem payload_materialized:
  fixes past :: "'s bundle_call list"
  assumes "env_ok e" "small_limits lim" "portable e ident"
    and "get_bundle e lim (store_after e lim past Map.empty) digest = Inr a"
  shows "\<exists>t. materialize_directory e lim ident (store_after e lim past Map.empty) digest Free read_only = Inr t \<and>
    (\<forall>p c k. t p = Some (FileNode c k) \<longrightarrow> (\<exists>f\<in>set (me_files (ar_meta a)). p = node_path ident (bf_path f) \<and>
       int (length c) = bf_size f \<and> bf_sha256 f = sha_prefix @ sha256_hex e c \<and> k = file_mode read_only f)) \<and>
    (\<forall>f\<in>set (me_files (ar_meta a)). \<exists>c. t (node_path ident (bf_path f)) = Some (FileNode c (file_mode read_only f)) \<and>
       int (length c) = bf_size f \<and> bf_sha256 f = sha_prefix @ sha256_hex e c) \<and>
    (\<forall>p k. t p = Some (DirNode k) \<longleftrightarrow>
       k = (if read_only then octal 5 0 0 else octal 7 0 0) \<and> listed_directory ident (ar_meta a) p)"
proof -
  let ?store = "store_after e lim past Map.empty"
  have ok: "limits_ok lim" using assms(2) by (simp add: small_limits_def)
  have "store_ok e lim ?store" using store_after_facts [OF assms(1,2) store_ok_empty] by blast
  moreover obtain h d where h: "?store h = Some d" "load_artifact e lim ?store h = Inr a" "ar_sha256 a = sha_prefix @ h"
    using get_loads [OF assms(4)] by blast
  ultimately obtain raw sidecar m where d: "d = \<lparr>sd_archive = Contents raw, sd_sidecar = Contents sidecar\<rparr>"
    "h = sha256_hex e raw" "int (length raw) \<le> max_compressed lim" "validate_archive e lim raw = Inr m"
    "write_sidecar (sha_prefix @ h) (int (length raw)) m = Inr sidecar"
    unfolding store_ok_def stored_ok_def by blast
  have "a = \<lparr>ar_sha256 = sha_prefix @ h, ar_compressed = int (length raw), ar_meta = m\<rparr>"
    using load_stored [OF assms(1,2) _ d(2-5), of ?store] h(1,2) d(1) by simp
  then have "ar_meta a = m" by simp
  moreover have "artifact_bytes ?store (drop 7 (ar_sha256 a)) = raw"
    using h d(1) by (simp add: artifact_bytes_def sha_prefix_points)
  ultimately show ?thesis
    using extraction_listed [OF assms(3) ok d(4), of read_only] assms(4) by (simp add: materialize_directory_def)
qed

theorem payload_materialized_witness:
  "\<exists>t c. materialize_directory demo_env default_limits (canonical_component demo_env)
     (store_after demo_env default_limits [IngestCall (InputStream read_file [31]) None None] Map.empty)
     (ar_sha256 demo_artifact) Free True = Inr t \<and>
   t [ascii ''src'', ascii ''a.py''] = Some (FileNode c (octal 4 0 0)) \<and> length c = 2"
proof -
  let ?past = "[IngestCall (InputStream read_file [31]) None None] :: bytes bundle_call list"
  obtain store' where s: "ingest demo_env default_limits (InputStream read_file [31]) None None Map.empty = Inr (demo_artifact, store')"
    "load_artifact demo_env default_limits store' (sha256_hex demo_env [31]) = Inr demo_artifact"
    using demo_ingested unfolding demo_past_empty by blast
  have "store_after demo_env default_limits ?past Map.empty = store'" by (simp add: kept_def s(1))
  moreover have "get_bundle demo_env default_limits store' (ar_sha256 demo_artifact) = Inr demo_artifact"
    using s(2) get_prefixed [OF demo_env_ok, of default_limits store' "[31]"] by (simp add: demo_artifact_def)
  ultimately have here: "get_bundle demo_env default_limits (store_after demo_env default_limits ?past Map.empty)
      (ar_sha256 demo_artifact) = Inr demo_artifact" by (simp only:)
  have "portable demo_env (canonical_component demo_env)" by (simp add: portable_def)
  from payload_materialized [OF demo_env_ok small_default this here, of True] obtain t where
    t: "materialize_directory demo_env default_limits (canonical_component demo_env)
     (store_after demo_env default_limits ?past Map.empty) (ar_sha256 demo_artifact) Free True = Inr t"
    "\<forall>f\<in>set (me_files (ar_meta demo_artifact)). \<exists>c. t (node_path (canonical_component demo_env) (bf_path f)) =
       Some (FileNode c (file_mode True f)) \<and> int (length c) = bf_size f \<and> bf_sha256 f = sha_prefix @ sha256_hex demo_env c"
    by blast
  define f where "f = demo_files ! 1"
  have "f \<in> set (me_files (ar_meta demo_artifact))"
    by (simp add: f_def demo_artifact_def demo_meta_def written_meta_def demo_files_def)
  moreover have "node_path (canonical_component demo_env) (bf_path f) = [ascii ''src'', ascii ''a.py'']"
    "file_mode True f = octal 4 0 0" "bf_size f = 2"
    by (simp_all add: f_def demo_files_def node_path_def canonical_component_def ascii_lower_def fold_point_def file_mode_def)
  ultimately obtain c where "t [ascii ''src'', ascii ''a.py''] = Some (FileNode c (octal 4 0 0))" "int (length c) = 2"
    using t(2) by fastforce
  with t(1) show ?thesis by auto
qed

section \<open>A manifest that is nested too deeply\<close>

lemma nested_too_deep: "scan_value d (replicate (Suc d) 91) = Inl DepthError"
proof (induction d)
  case (Suc d)
  have "skip_space (replicate (Suc d) 91) = replicate (Suc d) 91"
    by (simp add: skip_space_def json_space_def)
  moreover have "scan_items (scan_value d) (replicate (Suc d) 91) = Inl DepthError"
    by (subst scan_items.simps) (simp only: Suc rbind.simps)
  ultimately show ?case by (simp add: scan_with_def scan_array_def)
qed (simp add: scan_with_def)

lemma brackets_text: "utf8_bytes (replicate n 91) = replicate n 91" "valid_text (replicate n 91)"
  by (induction n) (simp_all add: surrogate_def)

text \<open>C40: an archive with a manifest of more opening brackets than the interpreter has frames left is
  within every limit, yet its validation does not end with one of the bundle errors: the
  \<open>RecursionError\<close> of the JSON reader leaves it as it is.\<close>

theorem manifest_nesting_escapes:
  assumes "env_ok e" "limits_ok lim"
    and "read_tar e raw = \<lparr>ts_members = [tar_info manifest_name False (int (Suc (json_depth e))) False
           (replicate (Suc (json_depth e)) 91)], ts_end = Complete\<rparr>"
    and "int (Suc (json_depth e)) \<le> max_manifest lim" "int (Suc (json_depth e)) \<le> max_expanded lim"
  shows "validate_archive e lim raw = Inl BundleRecursion"
proof -
  define data where "data = replicate (Suc (json_depth e)) (91::nat)"
  define m where "m = tar_info manifest_name False (int (Suc (json_depth e))) False data"
  have m: "tm_name m = manifest_name" "tm_type m = RegMember" "tm_size m = int (length data)" "tm_data m = data"
    "tm_complete m" "is_manifest_key e (tm_name m)"
    by (simp_all add: m_def tar_info_def data_def is_manifest_key_def)
  have plain: "\<not> executable_mode (tm_mode m)" by (simp add: m_def)
  have fits: "int (length data) \<le> max_manifest lim" "int (length data) \<le> max_expanded lim"
    using assms(4,5) by (simp_all add: data_def)
  have own: "member_claims m = [(FileEntry, manifest_name, True)]"
    by (simp add: member_claims_def member_kind_def path_claims_def m manifest_name_parts)
  have ok: "accepted e lim [m]"
    using m plain fits manifest_name_safe [OF assms(1)] assms(2)
    by (simp add: accepted_def member_ok_def own payload_count_def limits_ok_def)
  have read: "read_members e lim [m] no_reading = Inr (reading_of e [m])"
    unfolding read_members_iff [OF assms(2)] using ok by simp
  have "read_content lim m 0 = Inr (tm_size m)"
    using read_content_Inr [of 0 lim m "tm_size m"] m fits assms(2) by (simp add: limits_ok_def readable_def)
  then have contents: "read_contents e lim (map (entry_of e) [m]) 0 = Inr ([], [], Some data)"
    using m by simp
  have entries: "rd_entries (reading_of e [m]) = map (entry_of e) [m]" "rd_manifest (reading_of e [m])"
    using m by (simp_all add: reading_of_def)
  have "decode_utf8 data = Some data"
    using decode_utf8_bytes [of "replicate (Suc (json_depth e)) 91"] brackets_text unfolding data_def by metis
  moreover have "json_loads (json_depth e) data = Inl DepthError"
    using nested_too_deep [of "json_depth e"] by (simp add: json_loads_def data_def skip_space_def json_space_def)
  ultimately have "validate_manifest e data [] [] n = Inl BundleRecursion" for n
    by (simp add: validate_manifest_def load_document_def)
  then show ?thesis
    using read contents entries not_below_file [OF ok] assms(3) unfolding m_def [symmetric] data_def [symmetric]
    by (simp add: validate_archive_def Let_def)
qed

definition nested_env :: archive_env where
  "nested_env = demo_env\<lparr>read_tar := (\<lambda>raw. \<lparr>ts_members =
     [tar_info manifest_name False 51 False (replicate 51 91)], ts_end = Complete\<rparr>)\<rparr>"

theorem manifest_nesting_escapes_witness: "validate_archive nested_env default_limits [31] = Inl BundleRecursion"
proof (rule manifest_nesting_escapes [OF _ demo_limits])
  show "env_ok nested_env" using demo_env_ok by (simp add: env_ok_def nested_env_def)
qed (simp_all add: nested_env_def default_limits_def eval_nat_numeral)

section \<open>Damaged compressed data\<close>

text \<open>The members read so far may all be acceptable: when the decompressor then raises an error of its
  own, validation ends with that error and not with one of the bundle errors.\<close>

theorem decompressor_error_escapes:
  assumes "limits_ok lim" and "accepted e lim (ts_members (read_tar e raw))" and "ts_end (read_tar e raw) = Escaping"
  shows "validate_archive e lim raw = Inl DecompressError"
proof -
  have "read_members e lim (ts_members (read_tar e raw)) no_reading = Inr (reading_of e (ts_members (read_tar e raw)))"
    unfolding read_members_iff [OF assms(1)] using assms(2) by simp
  then show ?thesis using assms(3) by (simp add: validate_archive_def Let_def end_error_def ensured_def)
qed

theorem decompressor_error_escapes_witness:
  "validate_archive (demo_env\<lparr>read_tar := (\<lambda>raw. \<lparr>ts_members = [], ts_end = Escaping\<rparr>)\<rparr>) default_limits [31] =
     Inl DecompressError"
  by (rule decompressor_error_escapes [OF demo_limits])
    (simp_all add: accepted_def payload_count_def default_limits_def)

end
