(* ===== verification/Spec2Isabelle.thy ===== *)
theory Spec2Isabelle
  imports Value_Properties Collection_Properties Rubric_Properties Auth_Properties Sub_Properties
    Bundle_Properties Archive_Properties
begin

text \<open>
  Autograde: a verification development for the Python program under \<open>src/\<close>.

  \<^bold>\<open>The program.\<close> Autograde collects and grades student work. It has two halves that do not share a
  database. The collection half (\<open>domain.py\<close>, \<open>state.py\<close>, \<open>service.py\<close>) keeps a roster of Git
  repositories, assignments and schedules in SQLite; a collection run pins one job per active
  repository, worker threads fetch and archive each repository, and a grade job is made for each
  snapshot. The platform half (\<open>platform_state.py\<close> and the services above it) serves an editor
  extension: students log in from a device, are given assignments, submit a commit, and read a
  published result. The rubric modules (\<open>rubric_engine.py\<close>, \<open>rubric_composition.py\<close>,
  \<open>rubric_store.py\<close>) turn a rubric and evidence into points and keep an append-only record of it.

  \<^bold>\<open>How code becomes definitions.\<close> A table is the list of its rows in insertion order, a row is a
  record with the columns in the order of the \<open>CREATE TABLE\<close>; a column that may be NULL is an option.
  A store is the record of its tables. An operation takes its arguments, the clock and the store and
  returns the value or the exception, as a sum, and the store it leaves. The exception classes are the
  constructors of one datatype per half; messages are not kept, except where the program stores them.
  A write transaction (\<open>with self._write()\<close>) is one definition that returns the old store when its
  body raises; an operation that reads in one transaction and writes in another is modelled as two,
  and the step relations allow other calls in between. A unique index or foreign key is a check before
  the insert that raises what the code makes of \<open>sqlite3.IntegrityError\<close>. Loops are structural
  recursion over the rows, or \<open>function\<close> with a measure; no definition uses fuel. The one loop that
  may run for ever, a pool of worker threads, is driven by a trace (which worker moves next, and when),
  and termination is a theorem about fair traces. Python's \<open>int\<close> is \<open>int\<close>, a \<open>float\<close> that the program
  compares is the rational number it stands for, and the engine's \<open>Decimal\<close> is its digits and scale.
  Strings are lists of Latin-1 code points, so the identity of text operations on larger code points
  is not covered.

  \<^bold>\<open>Theories.\<close>

  \<^item> \<open>Prelude\<close> (results, row tables, collections of rewrite rules), \<open>PyText\<close> (the \<open>str\<close> methods the
    program calls), \<open>Domain_Time\<close> and \<open>Timestamps\<close> (\<open>utc_iso\<close> with the ISO grammar of Python 3.10 and
    the calendar; its output is a normal form whose text order is the order of the instants),
    \<open>Json_Text\<close> (\<open>json.dumps\<close> in its canonical form), \<open>Domain\<close> (enumerations, object ids, and the
    validators of \<open>state.py\<close>; the locale \<open>normaliser\<close> says that a validator accepts what it returned,
    and four validators are interpreted as one).
  \<^item> \<open>Store_Schema\<close>, \<open>Store_Roster\<close>, \<open>Store_Runs\<close>, \<open>Store_Jobs\<close>, \<open>Store_Snapshots\<close>, \<open>Store_Grades\<close>:
    the class \<open>StateStore\<close> of \<open>state.py\<close>, an operation per method. The locale
    \<open>attempt_machine\<close> in \<open>Store_Schema\<close> is the interface that collection jobs and grade jobs share
    (claim, complete and fail under a cap on the attempts), interpreted for both. \<open>Store_Ledger\<close> is the abstract specification, a relation whose rules
    are the only ways the tables change, with the invariant of the whole database; \<open>Store_Refinement\<close>
    shows that every call of an operation is a sequence of its steps. \<open>Scenario\<close> is a concrete history
    and \<open>Store_Properties\<close>, \<open>Job_Properties\<close>, \<open>Value_Properties\<close> hold the properties.
  \<^item> \<open>Collection_Service\<close>: \<open>CollectionService.collect\<close> of \<open>service.py\<close> over the store; a worker is a
    state machine that performs one store transaction per step, so a trace is an interleaving of the
    threads. \<open>Collection_Pool\<close> has the lemmas on single workers, \<open>Collection_Outcomes\<close> the specification
    \<open>expected\<close> of what one job comes to, without concurrency, and the proof that every phase of every
    worker stays on the way to it; \<open>Collection_Properties\<close> holds the properties.
  \<^item> \<open>Rubric_Values\<close>, \<open>Rubric_Engine\<close>, \<open>Rubric_Evaluation\<close>: \<open>rubric_engine.py\<close>; \<open>Rubric_Store\<close>:
    \<open>rubric_composition.py\<close> and \<open>rubric_store.py\<close>. \<open>Rubric_Lemmas\<close> relates decimals to rational numbers
    and the evaluator to its specification, \<open>Rubric_Roundtrip\<close> shows checked documents stable,
    \<open>Rubric_Ledger\<close> has the locale \<open>first_binding\<close> (a table whose first row for a key stands),
    interpreted for bound sources and for bound test results, and the histories of the store.
  \<^item> \<open>Auth_State\<close>, \<open>Auth_Devices\<close>, \<open>Auth_Sessions\<close>: the logins of \<open>platform_state.py\<close> (students, with a
    GitHub account or local, and enrollments, device authorizations, token families, refresh tokens, sessions). \<open>Auth_Ledger\<close> and
    \<open>Auth_Issue\<close> are the invariant and its preservation, \<open>Auth_Steps\<close> the histories, \<open>Auth_Retention\<close>
    what is never deleted, \<open>Auth_Facts\<close> what an accepted token says and
    what a change of identity ends, \<open>Auth_Scenario\<close> a concrete history.
  \<^item> \<open>Sub_State\<close>, \<open>Sub_Works\<close>, \<open>Sub_Admission\<close>, \<open>Sub_Lifecycle\<close>: assignments of student repositories
    and their submissions, from the preflight to the published result, on top of the logins.
    \<open>Sub_Ledger\<close> is the invariant and the locale \<open>row_history\<close> (a table that keeps its rows in an order
    relation), interpreted for assignments, requests, results and attempt counters; \<open>Sub_Changes\<close> is
    the abstract specification, a relation of row changes, \<open>Sub_Steps\<close> the refinement of every operation
    to it and the histories, \<open>Sub_Facts\<close> what a successful call says.
  \<^item> \<open>Bundle_State\<close>, \<open>Bundle_Releases\<close>, \<open>Bundle_Documents\<close>, \<open>Bundle_Admission\<close>, \<open>Bundle_Lifecycle\<close>,
    \<open>Bundle_Reads\<close>: direct delivery without Git, in \<open>platform_state.py\<close> and \<open>assignment_documents.py\<close>. A
    release shared by a course is checked, shown and extended; students download its starter and upload
    source bundles; instructions are revised; instructors read reviews and a dashboard. These tables
    stand beside those of the two items above, \<open>base\<close>. \<open>Submission_Line\<close> is the locale of what requests,
    receipts and results of one kind of submission keep of each other, interpreted for uploads in
    \<open>Bundle_Ledger\<close>, the invariant; \<open>Bundle_Changes\<close> is the relation of row changes, \<open>Bundle_Steps\<close> and
    \<open>Bundle_Histories\<close> the refinement of every operation to it and the histories of the whole platform
    store, \<open>Bundle_Facts\<close> what a successful call says, \<open>Bundle_Scenario\<close> a concrete history.
  \<^item> \<open>Archive_Json\<close>: UTF-8, and \<open>json.loads\<close> and \<open>json.dumps\<close> on texts of code points;
    \<open>Archive_Roundtrip\<close> shows that what is printed is read back. \<open>Archive_Paths\<close>, \<open>Archive_Manifest\<close>,
    \<open>Archive_Reading\<close>, \<open>Archive_Store\<close>: \<open>platform_bundle.py\<close>, the archives that direct
    delivery moves. \<open>_validate_archive\<close> checks members, paths, contents and the manifest;
    \<open>create_from_directory\<close> scans a directory and writes a canonical archive; \<open>ingest\<close>, \<open>get\<close>,
    \<open>export\<close> and \<open>materialize_directory\<close> work on the content-addressed store, a map from digests.
    \<open>Archive_Claims\<close> and \<open>Archive_Facts\<close> bring the checks, made with a growing state, to conditions on
    the list of members; \<open>Archive_Documents\<close> is about the manifest and the stored metadata,
    \<open>Archive_Scans\<close> about what is written, \<open>Archive_Trees\<close> about what is extracted,
    \<open>Archive_Artifacts\<close> about histories of the store, \<open>Archive_Scenario\<close> is a concrete bundle.

  \<^bold>\<open>What the lemmas show.\<close> For each store: the invariant of every reachable state, whatever calls were
  made with whatever arguments and clocks, and what later states keep of earlier rows. For the
  operations that callers depend on: value, error and effect on every branch, and that a repeated call
  returns the stored answer and writes nothing. For the collection service: its workers end under a
  fair schedule, every interleaving of them brings each job to the outcome that the job and the
  collector's answers alone determine, and a returned summary is what the database holds of that run
  and nothing else. For the engine: no exception other than its own, the specification of the points
  and of the status, their bounds, and that more passed cases never cost points. For the platform: a login never outlives its
  deadline or its revocation, a detected reuse of a refresh token or a change of the student's identity
  ends it, a submission is admitted
  only as its assignment allows and moves only along its transition table, and a result is shown only
  to its owner after publication; a deadline moves only later and only with its audit record, and a
  result that waits for the deadline is published after the one that stands. For the archives: an
  accepted one holds exactly what its manifest says, on paths that no file system confuses; a created
  one is accepted; a stored one stays as it is and is delivered as its metadata say.

  \<^bold>\<open>Parameters and what is assumed of them.\<close> The Git collector and the archive files of \<open>service.py\<close>
  answer each request by a function of the job, with no hypothesis. SHA-256 is a function from text to
  text; a property that needs it to be injective says so. The privacy guard of the rubric store, the
  courses closed or erased, and the rows of other tables that keep a device or a session
  (\<open>auth_env\<close>, \<open>platform_env\<close>) are predicates that stay fixed during a history. Fresh identifiers are
  arguments. The SHA-256 digest that fills the columns of
  a local student is in \<open>auth_env\<close> too. The clock of a call is an argument, so a history does not assume that clocks advance. For
  bundles, \<open>bundle_env\<close> holds the statuses of courses, the deleted releases, the descriptions of drafts
  and the accepted claims, which are tables of other components; rows of a course that is permanently
  deleted are gone, so of its fences only the one of the privacy closure meets an update. The fixed note
  of the first revision of the instructions, a Korean text, is the constructor \<open>OriginalNote\<close>. For
  archives, \<open>archive_env\<close> holds NFKC and lower case, SHA-256 in hexadecimal digits, the reader and the
  writer of gzip-compressed tar files (what is read ends complete, with an error the program catches, or
  with another one, as \<open>zlib.error\<close> is), the integer a JSON float equals and the recursion depth the
  interpreter has left. \<open>env_ok\<close> asks that NFKC keeps ASCII, that lower case is the usual one there, for
  64 lower hexadecimal digits and a depth of at least four; \<open>tar_faithful\<close> that the reader returns
  what the writer was given; \<open>portable\<close> that the file system takes only names of one canonical form
  for the same; \<open>small_limits\<close> that a limit has at most 4300 digits, the most the interpreter reads.

  \<^bold>\<open>Not modelled.\<close> Migrations from older schema versions and the handling of the database files: they
  are SQL scripts and file operations, and every operation runs on the current version. The texts of
  error messages. Integers beyond the 64 bits of SQLite, for which the driver raises \<open>OverflowError\<close>. An enrollment is named by its student and course instead of by its row id, which
  only joins use. Of \<open>platform_state.py\<close>: the import of rosters, activation codes, assignment grants,
  password credentials, and the summaries for instructors. Of \<open>platform_bundle.py\<close>: the preparation and
  repair of the root directory, file permissions inside the store, \<open>fsync\<close>, temporary directories and
  the lock files, whose effect, one publication at a time, is in the model; symbolic links inside the
  store count as files that are not regular. The
  scheduler (\<open>scheduler.py\<close>) drives a simulation library outside \<open>src/\<close> with floating-point times. The
  Git commands (\<open>gitops.py\<close>), the grader containers (\<open>platform_grader.py\<close>), the HTTP services, web
  pages and command lines are input and output around the stores. The manifest lists them one by one.
\<close>

end
